(* ===== verification/Prelude.thy ===== *)
theory Prelude
  imports Main "HOL-Library.Word" "HOL-Library.Monad_Syntax"
begin

text \<open>
  Shared vocabulary of the development: the machine integer types of the sources, the
  errno values the code returns, a buffer overlay, and generic lemmas on option binds,
  words and lists that the component theories use.

  Conventions. A C \<open>u8\<close>, \<open>u16\<close>, \<open>u32\<close> or \<open>s32\<close> is a word of that
  width, so additions, shifts and decrements wrap as they do on the machine; a C
  \<open>int\<close> that only carries a return code is an \<open>int\<close>. A function that can run
  into undefined behaviour of C (a NULL dereference, an array index out of range) or that
  may not return has an \<open>option\<close> result: \<open>None\<close> is "undefined or not returning",
  so a theorem \<open>f x = Some y\<close> says that the code returns and stays defined.
\<close>

unbundle bit_operations_syntax

type_synonym u8 = "8 word"
type_synonym u16 = "16 word"
type_synonym u32 = "32 word"
type_synonym s32 = "32 word"
type_synonym u64 = "64 word"

named_theorems state_simps "projections of updated states"

text \<open>The errno values of the platform's C library, returned negated.\<close>

definition ENOENT :: int where "ENOENT = 2"
definition EIO :: int where "EIO = 5"
definition ENXIO :: int where "ENXIO = 6"
definition ENOMEM :: int where "ENOMEM = 12"
definition EACCES :: int where "EACCES = 13"
definition EBUSY :: int where "EBUSY = 16"
definition EEXIST :: int where "EEXIST = 17"
definition EINVAL :: int where "EINVAL = 22"
definition ENOSPC :: int where "ENOSPC = 28"

lemmas errno_defs = ENOENT_def EIO_def ENXIO_def ENOMEM_def EACCES_def EBUSY_def EEXIST_def
  EINVAL_def ENOSPC_def

text \<open>A transfer of \<open>ws\<close> into the front of a buffer leaves the rest of the buffer.\<close>

definition overlay :: "'a list \<Rightarrow> 'a list \<Rightarrow> 'a list" where
  "overlay ws buf = take (length buf) ws @ drop (length ws) buf"

lemma length_overlay [simp]: "length (overlay ws buf) = length buf"
  by (simp add: overlay_def)

lemma overlay_full: "length ws = length buf \<Longrightarrow> overlay ws buf = ws"
  by (simp add: overlay_def)

lemma overlay_prefix: "length ws \<le> length buf \<Longrightarrow> overlay ws buf = ws @ drop (length ws) buf"
  by (simp add: overlay_def)

text \<open>Splitting a successful bind into its two steps.\<close>

lemma bind_Some: "Option.bind m f = Some r \<longleftrightarrow> (\<exists>x. m = Some x \<and> f x = Some r)"
  by (cases m) auto

lemma bind_SomeE:
  assumes "Option.bind m f = Some r"
  obtains x where "m = Some x" "f x = Some r"
  using assms by (auto simp: bind_Some)

lemma unat_32: "unat (w :: u32) < 4294967296"
  using unsigned_less [of w, where ?'a = nat] by simp

text \<open>An invariant of a left fold.\<close>

lemma fold_invariant:
  assumes "P s" and "\<And>x s. x \<in> set xs \<Longrightarrow> P s \<Longrightarrow> P (f x s)"
  shows "P (fold f xs s)"
  using assms by (induction xs arbitrary: s) auto

text \<open>A fold in the option type: the loop of a body that can be undefined.\<close>

fun ofold :: "('a \<Rightarrow> 's \<Rightarrow> 's option) \<Rightarrow> 'a list \<Rightarrow> 's \<Rightarrow> 's option" where
  "ofold f [] s = Some s"
| "ofold f (x # xs) s = do { s' \<leftarrow> f x s; ofold f xs s' }"

lemma ofold_append: "ofold f (xs @ ys) s = Option.bind (ofold f xs s) (ofold f ys)"
  by (induction xs arbitrary: s) (auto split: Option.bind_splits)

lemma ofold_invariant:
  assumes "ofold f xs s = Some s'" and "P s"
    and "\<And>x s s'. x \<in> set xs \<Longrightarrow> P s \<Longrightarrow> f x s = Some s' \<Longrightarrow> P s'"
  shows "P s'"
  using assms
proof (induction xs arbitrary: s)
  case Nil
  then show ?case by simp
next
  case (Cons x xs)
  from Cons.prems(1) obtain t where t: "f x s = Some t" "ofold f xs t = Some s'"
    by (auto simp: bind_Some)
  have "P t" using Cons.prems(2,3) t(1) by auto
  then show ?case using Cons.IH [OF t(2)] Cons.prems(3) by auto
qed

text \<open>The first element that satisfies a test, as a search loop with \<open>break\<close> finds it.\<close>

lemma find_SomeD: "List.find P xs = Some x \<Longrightarrow> x \<in> set xs \<and> P x"
  by (induction xs) (auto split: if_splits)

lemma find_NoneD: "List.find P xs = None \<Longrightarrow> x \<in> set xs \<Longrightarrow> \<not> P x"
  by (induction xs) (auto split: if_splits)

lemma find_cong_pred: "(\<And>x. x \<in> set xs \<Longrightarrow> P x = Q x) \<Longrightarrow> List.find P xs = List.find Q xs"
  by (induction xs) auto

end
