(* ===== verification/ApaHeader.thy ===== *)
theory ApaHeader
  imports Prelude
begin

text \<open>
  The on-disk structures of the Aligned Partition Allocation scheme
  (\<open>common/libapa/include/libapa.h\<close>): the 1024-byte partition header, its byte layout as
  256 little-endian words (what the casts \<open>(u32 *)header\<close> see), its checksum, and the
  round trips between the record and the words.

  The array bounds come from the platform's \<open>hdd-ioctl.h\<close>: \<open>APA_IDMAX\<close> 32,
  \<open>APA_PASSMAX\<close> 8, \<open>APA_MAXSUB\<close> 64; they are forced by the layout, since the
  checksum loop fixes the size of the structure to 256 words.
\<close>

definition APA_IDMAX :: nat where "APA_IDMAX = 32"
definition APA_PASSMAX :: nat where "APA_PASSMAX = 8"
definition APA_MAXSUB :: nat where "APA_MAXSUB = 64"
definition APA_TYPE_FREE :: u16 where "APA_TYPE_FREE = 0"
definition APA_FLAG_SUB :: u16 where "APA_FLAG_SUB = 1"

definition APA_SECTOR_MBR :: u32 where "APA_SECTOR_MBR = 0"
definition APA_SECTOR_SECTOR_ERROR :: u32 where "APA_SECTOR_SECTOR_ERROR = 6"
definition APA_SECTOR_PART_ERROR :: u32 where "APA_SECTOR_PART_ERROR = 7"
definition APA_SECTOR_APAL :: u32 where "APA_SECTOR_APAL = 8"
definition APA_SECTOR_APAL_HEADERS :: u32 where "APA_SECTOR_APAL_HEADERS = 10"
definition APA_MAGIC :: u32 where "APA_MAGIC = 0x00415041"
definition APAL_MAGIC :: u32 where "APAL_MAGIC = 0x4150414C"

lemmas apa_consts = APA_TYPE_FREE_def APA_FLAG_SUB_def APA_SECTOR_MBR_def APA_SECTOR_SECTOR_ERROR_def
  APA_SECTOR_PART_ERROR_def APA_SECTOR_APAL_def APA_SECTOR_APAL_HEADERS_def APA_MAGIC_def APAL_MAGIC_def

record apa_ps2time =
  t_unused :: u8
  t_sec :: u8
  t_min :: u8
  t_hour :: u8
  t_day :: u8
  t_month :: u8
  t_year :: u16

record apa_sub =
  sub_start :: u32
  sub_length :: u32

record apa_mbr =
  mbr_magic :: "u8 list"
  mbr_version :: u32
  mbr_nsector :: u32
  mbr_created :: apa_ps2time
  mbr_osdStart :: u32
  mbr_osdSize :: u32
  mbr_pading3 :: "u8 list"

record apa_header =
  h_checksum :: u32
  h_magic :: u32
  h_next :: u32
  h_prev :: u32
  h_id :: "u8 list"
  h_rpwd :: "u8 list"
  h_fpwd :: "u8 list"
  h_start :: u32
  h_length :: u32
  h_type :: u16
  h_flags :: u16
  h_nsub :: u32
  h_created :: apa_ps2time
  h_main :: u32
  h_number :: u32
  h_modver :: u32
  h_pading1 :: "u32 list"
  h_pading2 :: "u8 list"
  h_mbr :: apa_mbr
  h_subs :: "apa_sub list"

record apa_params =
  p_id :: "u8 list"
  p_fpwd :: "u8 list"
  p_rpwd :: "u8 list"
  p_size :: u32
  p_type :: u16
  p_flags :: u16
  p_main :: u32
  p_number :: u32

text \<open>The C array bounds of a header; every header in the model satisfies them.\<close>

definition wf_header :: "apa_header \<Rightarrow> bool" where
  "wf_header h \<longleftrightarrow> length (h_id h) = APA_IDMAX \<and> length (h_rpwd h) = APA_PASSMAX \<and>
     length (h_fpwd h) = APA_PASSMAX \<and> length (h_pading1 h) = 7 \<and> length (h_pading2 h) = 128 \<and>
     length (mbr_magic (h_mbr h)) = 32 \<and> length (mbr_pading3 (h_mbr h)) = 200 \<and>
     length (h_subs h) = APA_MAXSUB"

subsection \<open>Little-endian packing\<close>

definition pack2 :: "u8 \<Rightarrow> u8 \<Rightarrow> u16" where
  "pack2 a b = ucast a OR push_bit 8 (ucast b)"

definition pack4 :: "u8 \<Rightarrow> u8 \<Rightarrow> u8 \<Rightarrow> u8 \<Rightarrow> u32" where
  "pack4 a b c d = ucast a OR push_bit 8 (ucast b) OR push_bit 16 (ucast c) OR push_bit 24 (ucast d)"

definition packh :: "u16 \<Rightarrow> u16 \<Rightarrow> u32" where
  "packh a b = ucast a OR push_bit 16 (ucast b)"

definition byte_at :: "nat \<Rightarrow> u32 \<Rightarrow> u8" where
  "byte_at k w = ucast (drop_bit (8 * k) w)"

definition half_at :: "nat \<Rightarrow> u32 \<Rightarrow> u16" where
  "half_at k w = ucast (drop_bit (16 * k) w)"

fun words_of_bytes :: "u8 list \<Rightarrow> u32 list" where
  "words_of_bytes (a # b # c # d # bs) = pack4 a b c d # words_of_bytes bs"
| "words_of_bytes _ = []"

fun bytes_of_words :: "u32 list \<Rightarrow> u8 list" where
  "bytes_of_words [] = []"
| "bytes_of_words (w # ws) = byte_at 0 w # byte_at 1 w # byte_at 2 w # byte_at 3 w # bytes_of_words ws"

definition time_words :: "apa_ps2time \<Rightarrow> u32 list" where
  "time_words t = [pack4 (t_unused t) (t_sec t) (t_min t) (t_hour t),
     packh (pack2 (t_day t) (t_month t)) (t_year t)]"

definition time_of_words :: "u32 list \<Rightarrow> apa_ps2time" where
  "time_of_words ws = \<lparr>t_unused = byte_at 0 (ws ! 0), t_sec = byte_at 1 (ws ! 0), t_min = byte_at 2 (ws ! 0),
     t_hour = byte_at 3 (ws ! 0), t_day = byte_at 0 (ws ! 1), t_month = byte_at 1 (ws ! 1),
     t_year = half_at 1 (ws ! 1)\<rparr>"

fun sub_words :: "apa_sub list \<Rightarrow> u32 list" where
  "sub_words [] = []"
| "sub_words (s # ss) = sub_start s # sub_length s # sub_words ss"

fun subs_of_words :: "u32 list \<Rightarrow> apa_sub list" where
  "subs_of_words (a # b # ws) = \<lparr>sub_start = a, sub_length = b\<rparr> # subs_of_words ws"
| "subs_of_words _ = []"

text \<open>\<open>slice i n ws\<close>: the \<open>n\<close> words at word offset \<open>i\<close>.\<close>

definition slice :: "nat \<Rightarrow> nat \<Rightarrow> 'a list \<Rightarrow> 'a list" where
  "slice i n ws = take n (drop i ws)"

definition mbr_words :: "apa_mbr \<Rightarrow> u32 list" where
  "mbr_words m = words_of_bytes (mbr_magic m) @ [mbr_version m, mbr_nsector m] @ time_words (mbr_created m) @
     [mbr_osdStart m, mbr_osdSize m] @ words_of_bytes (mbr_pading3 m)"

definition mbr_of_words :: "u32 list \<Rightarrow> apa_mbr" where
  "mbr_of_words ws = \<lparr>mbr_magic = bytes_of_words (slice 0 8 ws), mbr_version = ws ! 8, mbr_nsector = ws ! 9,
     mbr_created = time_of_words (slice 10 2 ws), mbr_osdStart = ws ! 12, mbr_osdSize = ws ! 13,
     mbr_pading3 = bytes_of_words (slice 14 50 ws)\<rparr>"

definition header_words :: "apa_header \<Rightarrow> u32 list" where
  "header_words h = [h_checksum h, h_magic h, h_next h, h_prev h] @ words_of_bytes (h_id h) @
     words_of_bytes (h_rpwd h) @ words_of_bytes (h_fpwd h) @
     [h_start h, h_length h, packh (h_type h) (h_flags h), h_nsub h] @ time_words (h_created h) @
     [h_main h, h_number h, h_modver h] @ h_pading1 h @ words_of_bytes (h_pading2 h) @
     mbr_words (h_mbr h) @ sub_words (h_subs h)"

definition header_of_words :: "u32 list \<Rightarrow> apa_header" where
  "header_of_words ws = \<lparr>h_checksum = ws ! 0, h_magic = ws ! 1, h_next = ws ! 2, h_prev = ws ! 3,
     h_id = bytes_of_words (slice 4 8 ws), h_rpwd = bytes_of_words (slice 12 2 ws),
     h_fpwd = bytes_of_words (slice 14 2 ws), h_start = ws ! 16, h_length = ws ! 17,
     h_type = half_at 0 (ws ! 18), h_flags = half_at 1 (ws ! 18), h_nsub = ws ! 19,
     h_created = time_of_words (slice 20 2 ws), h_main = ws ! 22, h_number = ws ! 23, h_modver = ws ! 24,
     h_pading1 = slice 25 7 ws, h_pading2 = bytes_of_words (slice 32 32 ws),
     h_mbr = mbr_of_words (slice 64 64 ws), h_subs = subs_of_words (slice 128 128 ws)\<rparr>"

text \<open>\<open>memset(header, 0, sizeof(apa_header_t))\<close>.\<close>

definition zero_header :: apa_header where
  "zero_header = header_of_words (replicate 256 0)"

subsection \<open>Checksum\<close>

text \<open>\<open>apaCheckSum\<close>: the wrapping sum of the words 1 to 255 of the structure.\<close>

definition apaCheckSum :: "apa_header \<Rightarrow> u32" where
  "apaCheckSum h = fold (\<lambda>i sum. sum + header_words h ! i) [1..<256] 0"

subsection \<open>Packing and unpacking are inverse\<close>

lemma bit_beyond [simp]: "16 \<le> m \<Longrightarrow> \<not> bit (a :: u16) m" "8 \<le> m \<Longrightarrow> \<not> bit (b :: u8) m"
  using bit_imp_le_length [of a m] bit_imp_le_length [of b m] by auto

lemma byte_at_pack4 [simp]:
  "byte_at 0 (pack4 a b c d) = a" "byte_at (Suc 0) (pack4 a b c d) = b"
  "byte_at 2 (pack4 a b c d) = c" "byte_at 3 (pack4 a b c d) = d"
  by (auto intro!: bit_word_eqI simp: byte_at_def pack4_def bit_simps)

lemma pack4_byte_at [simp]: "pack4 (byte_at 0 w) (byte_at (Suc 0) w) (byte_at 2 w) (byte_at 3 w) = w"
proof (rule bit_word_eqI)
  fix n assume "n < LENGTH(32)"
  then consider "n < 8" | "8 \<le> n" "n < 16" | "16 \<le> n" "n < 24" | "24 \<le> n" "n < 32" by fastforce
  then show "bit (pack4 (byte_at 0 w) (byte_at (Suc 0) w) (byte_at 2 w) (byte_at 3 w)) n = bit w n"
    by cases (auto simp: byte_at_def pack4_def bit_simps)
qed

lemma half_at_packh [simp]: "half_at 0 (packh a b) = a" "half_at (Suc 0) (packh a b) = b"
  by (auto intro!: bit_word_eqI simp: half_at_def packh_def bit_simps)

lemma packh_half_at [simp]: "packh (half_at 0 w) (half_at (Suc 0) w) = w"
proof (rule bit_word_eqI)
  fix n assume "n < LENGTH(32)"
  then consider "n < 16" | "16 \<le> n" "n < 32" by fastforce
  then show "bit (packh (half_at 0 w) (half_at (Suc 0) w)) n = bit w n"
    by cases (auto simp: half_at_def packh_def bit_simps)
qed

lemma byte_at_packh_pack2 [simp]:
  "byte_at 0 (packh (pack2 a b) y) = a" "byte_at (Suc 0) (packh (pack2 a b) y) = b"
  by (auto intro!: bit_word_eqI simp: byte_at_def packh_def pack2_def bit_simps)

lemma pack2_byte_at [simp]: "pack2 (byte_at 0 w) (byte_at (Suc 0) w) = half_at 0 w"
proof (rule bit_word_eqI)
  fix n assume "n < LENGTH(16)"
  then consider "n < 8" | "8 \<le> n" "n < 16" by fastforce
  then show "bit (pack2 (byte_at 0 w) (byte_at (Suc 0) w)) n = bit (half_at 0 w) n"
    by cases (auto simp: byte_at_def half_at_def pack2_def bit_simps)
qed

lemma length_bytes_of_words [simp]: "length (bytes_of_words ws) = 4 * length ws"
  by (induction ws) auto

lemma length_words_of_bytes [simp]: "length (words_of_bytes bs) = length bs div 4"
  by (induction bs rule: words_of_bytes.induct) auto

lemma words_of_bytes_of_words [simp]: "words_of_bytes (bytes_of_words ws) = ws"
  by (induction ws) auto

lemma bytes_of_words_of_bytes: "length bs mod 4 = 0 \<Longrightarrow> bytes_of_words (words_of_bytes bs) = bs"
  by (induction bs rule: words_of_bytes.induct) auto

lemma length_time_words [simp]: "length (time_words t) = 2"
  by (simp add: time_words_def)

lemma time_of_time_words [simp]: "time_of_words (time_words t) = t"
  by (simp add: time_of_words_def time_words_def)

lemma time_words_of_words:
  assumes "length ws = 2" shows "time_words (time_of_words ws) = ws"
proof -
  obtain a b where "ws = [a, b]" using assms by (cases ws; cases "tl ws") auto
  then show ?thesis by (simp add: time_of_words_def time_words_def)
qed

lemma length_sub_words [simp]: "length (sub_words ss) = 2 * length ss"
  by (induction ss) auto

lemma subs_of_sub_words [simp]: "subs_of_words (sub_words ss) = ss"
  by (induction ss) auto

lemma sub_words_of_words: "even (length ws) \<Longrightarrow> sub_words (subs_of_words ws) = ws"
  by (induction ws rule: subs_of_words.induct) auto

lemma length_subs_of_words [simp]: "length (subs_of_words ws) = length ws div 2"
  by (induction ws rule: subs_of_words.induct) auto

lemma length_slice [simp]: "i + n \<le> length ws \<Longrightarrow> length (slice i n ws) = n"
  by (simp add: slice_def)

text \<open>Concatenating adjacent slices, and reading a slice out of a concatenation.\<close>

lemma slice_append_slice: "slice i n ws @ slice (i + n) m ws = slice i (n + m) ws"
  by (simp add: slice_def take_add add.commute [of i n])

lemma Cons_slice: "i < length ws \<Longrightarrow> ws ! i # slice (i + 1) n ws = slice i (n + 1) ws"
  by (simp add: slice_def Cons_nth_drop_Suc [symmetric])

lemma slice_skip: "length xs \<le> i \<Longrightarrow> slice i n (xs @ ys) = slice (i - length xs) n ys"
  by (simp add: slice_def)

lemma slice_hit: "length xs = n \<Longrightarrow> slice 0 n (xs @ ys) = xs"
  by (simp add: slice_def)

lemma slice_all: "length xs = n \<Longrightarrow> slice 0 n xs = xs"
  by (simp add: slice_def)

lemma slice_Cons: "0 < i \<Longrightarrow> slice i n (x # xs) = slice (i - 1) n xs"
  by (cases i) (simp_all add: slice_def)

lemmas slice_simps = slice_skip slice_hit slice_all slice_Cons nth_append nth_Cons'

subsection \<open>Layout round trips\<close>

lemma length_mbr_words: "length (mbr_magic m) = 32 \<Longrightarrow> length (mbr_pading3 m) = 200 \<Longrightarrow> length (mbr_words m) = 64"
  by (simp add: mbr_words_def)

lemma mbr_of_mbr_words:
  "length (mbr_magic m) = 32 \<Longrightarrow> length (mbr_pading3 m) = 200 \<Longrightarrow> mbr_of_words (mbr_words m) = m"
  by (simp add: mbr_of_words_def mbr_words_def slice_simps bytes_of_words_of_bytes)

lemma mbr_words_of_words:
  assumes "length ws = 64" shows "mbr_words (mbr_of_words ws) = ws"
proof -
  have "mbr_words (mbr_of_words ws) =
    slice 0 8 ws @ ws ! 8 # ws ! 9 # slice 10 2 ws @ ws ! 12 # ws ! 13 # slice 14 50 ws"
    using assms by (simp add: mbr_words_def mbr_of_words_def time_words_of_words)
  also have "\<dots> = slice 0 64 ws"
    using assms Cons_slice [of 13 ws 50] Cons_slice [of 12 ws 51] slice_append_slice [of 10 2 ws 52]
      Cons_slice [of 9 ws 54] Cons_slice [of 8 ws 55] slice_append_slice [of 0 8 ws 56]
    by simp
  finally show ?thesis using assms by (simp add: slice_all)
qed

lemma length_header_words [simp]: "wf_header h \<Longrightarrow> length (header_words h) = 256"
  by (simp add: header_words_def wf_header_def APA_IDMAX_def APA_PASSMAX_def APA_MAXSUB_def length_mbr_words)

lemma wf_header_of_words: "length ws = 256 \<Longrightarrow> wf_header (header_of_words ws)"
  by (simp add: wf_header_def header_of_words_def mbr_of_words_def APA_IDMAX_def APA_PASSMAX_def APA_MAXSUB_def)

lemma wf_zero_header [simp]: "wf_header zero_header"
  by (simp add: zero_header_def wf_header_of_words)

lemma header_of_header_words: "wf_header h \<Longrightarrow> header_of_words (header_words h) = h"
  by (simp add: wf_header_def header_of_words_def header_words_def slice_simps bytes_of_words_of_bytes
      mbr_of_mbr_words length_mbr_words APA_IDMAX_def APA_PASSMAX_def APA_MAXSUB_def)

lemma header_words_of_words:
  assumes "length ws = 256" shows "header_words (header_of_words ws) = ws"
proof -
  have "header_words (header_of_words ws) =
    ws ! 0 # ws ! 1 # ws ! 2 # ws ! 3 # slice 4 8 ws @ slice 12 2 ws @ slice 14 2 ws @
    ws ! 16 # ws ! 17 # ws ! 18 # ws ! 19 # slice 20 2 ws @ ws ! 22 # ws ! 23 # ws ! 24 #
    slice 25 7 ws @ slice 32 32 ws @ slice 64 64 ws @ slice 128 128 ws"
    using assms by (simp add: header_words_def header_of_words_def time_words_of_words mbr_words_of_words
        sub_words_of_words)
  also have "\<dots> = slice 0 256 ws"
    using assms slice_append_slice [of 64 64 ws 128] slice_append_slice [of 32 32 ws 192]
      slice_append_slice [of 25 7 ws 224] Cons_slice [of 24 ws 231] Cons_slice [of 23 ws 232]
      Cons_slice [of 22 ws 233] slice_append_slice [of 20 2 ws 234] Cons_slice [of 19 ws 236]
      Cons_slice [of 18 ws 237] Cons_slice [of 17 ws 238] Cons_slice [of 16 ws 239]
      slice_append_slice [of 14 2 ws 240] slice_append_slice [of 12 2 ws 242]
      slice_append_slice [of 4 8 ws 244] Cons_slice [of 3 ws 252] Cons_slice [of 2 ws 253]
      Cons_slice [of 1 ws 254] Cons_slice [of 0 ws 255]
    by (simp del: One_nat_def)
  finally show ?thesis using assms by (simp add: slice_all)
qed

subsection \<open>Checksum\<close>

lemma fold_plus_cong:
  assumes "\<And>i. i \<in> set xs \<Longrightarrow> f i = g i"
  shows "fold (\<lambda>i sum. sum + f i) xs a = fold (\<lambda>i sum. sum + g i) xs (a :: u32)"
  using assms by (induction xs arbitrary: a) auto

lemma header_words_checksum: "header_words (h\<lparr>h_checksum := c\<rparr>) = (header_words h)[0 := c]"
  by (simp add: header_words_def)

text \<open>The checksum does not read the checksum field, so it can be stored in it.\<close>

lemma apaCheckSum_store [simp]: "apaCheckSum (h\<lparr>h_checksum := c\<rparr>) = apaCheckSum h"
  unfolding apaCheckSum_def header_words_checksum by (rule fold_plus_cong) auto

text \<open>Changing any single word other than the checksum word changes the checksum.\<close>

lemma fold_plus_sum_list: "fold (\<lambda>i sum. sum + f i) xs a = a + sum_list (map f xs)" for a :: u32
  by (induction xs arbitrary: a) (auto simp: add.assoc)

lemma checksum_single_word:
  assumes "0 < i" "i < n" "length ws = n"
  shows "fold (\<lambda>j sum. sum + ws[i := v] ! j) [1..<n] (0 :: u32) =
    fold (\<lambda>j sum. sum + ws ! j) [1..<n] 0 + (v - ws ! i)"
proof -
  have split: "[1..<n] = [1..<i] @ i # [Suc i..<n]"
    using assms upt_add_eq_append [of 1 i "n - i"] by (simp add: upt_conv_Cons)
  have low: "map ((!) (ws[i := v])) [Suc 0..<i] = map ((!) ws) [Suc 0..<i]"
    and high: "map ((!) (ws[i := v])) [Suc i..<n] = map ((!) ws) [Suc i..<n]"
    by (rule map_cong; simp)+
  show ?thesis using assms(2,3) unfolding fold_plus_sum_list split by (simp add: low high)
qed

end
