(* ===== verification/Ring.thy ===== *)
theory Ring
  imports Prelude
begin

text \<open>
  Circular doubly linked lists with a sentinel. The APA cache, the PFS cache, the
  allocation bitmap cache of fsck and the simulated partition list of hdsk all thread their
  nodes through two pointers with the same two routines (\<open>apaCacheLink\<close> and
  \<open>apaCacheUnLink\<close>, \<open>pfsCacheLink\<close> and \<open>pfsCacheUnLink\<close>). This theory states
  once what those routines do to the list of nodes behind a sentinel; each component
  interprets the locale on its own node store.
\<close>

text \<open>
  \<open>path nx pv a ys b\<close>: following \<open>nx\<close> from \<open>a\<close> visits \<open>ys\<close> and arrives at
  \<open>b\<close>, and \<open>pv\<close> undoes every step.
\<close>

primrec path :: "('p \<Rightarrow> 'p) \<Rightarrow> ('p \<Rightarrow> 'p) \<Rightarrow> 'p \<Rightarrow> 'p list \<Rightarrow> 'p \<Rightarrow> bool" where
  "path nx pv a [] b \<longleftrightarrow> nx a = b \<and> pv b = a"
| "path nx pv a (y # ys) b \<longleftrightarrow> nx a = y \<and> pv y = a \<and> path nx pv y ys b"

definition ring :: "'p \<Rightarrow> ('p \<Rightarrow> 'p) \<Rightarrow> ('p \<Rightarrow> 'p) \<Rightarrow> 'p list \<Rightarrow> bool" where
  "ring z nx pv ys \<longleftrightarrow> path nx pv z ys z \<and> distinct (z # ys)"

lemma path_append:
  "path nx pv a (xs @ y # ys) b \<longleftrightarrow> path nx pv a xs y \<and> path nx pv y ys b"
  by (induction xs arbitrary: a) auto

lemma path_last: "path nx pv a xs b \<Longrightarrow> pv b = last (a # xs)"
  by (induction xs arbitrary: a) auto

lemma path_hd: "path nx pv a xs b \<Longrightarrow> nx a = hd (xs @ [b])"
  by (cases xs) auto

text \<open>Updates of nodes off the path do not disturb it.\<close>

lemma path_nx_upd: "c \<notin> set (a # xs) \<Longrightarrow> path (nx(c := v)) pv a xs b = path nx pv a xs b"
  by (induction xs arbitrary: a) auto

lemma path_pv_upd: "c \<notin> set (xs @ [b]) \<Longrightarrow> path nx (pv(c := v)) a xs b = path nx pv a xs b"
  by (induction xs arbitrary: a) auto

lemma path_cong:
  assumes "\<And>x. x \<in> set (a # xs) \<Longrightarrow> nx x = nx' x" and "\<And>x. x \<in> set (xs @ [b]) \<Longrightarrow> pv x = pv' x"
  shows "path nx pv a xs b = path nx' pv' a xs b"
  using assms by (induction xs arbitrary: a) auto

lemma ring_unique:
  assumes "ring z nx pv xs" and "ring z nx pv ys"
  shows "xs = ys"
proof -
  have "path nx pv a xs z \<Longrightarrow> path nx pv a ys z \<Longrightarrow> z \<notin> set xs \<Longrightarrow> z \<notin> set ys \<Longrightarrow> xs = ys" for a
  proof (induction xs arbitrary: a ys)
    case Nil
    then show ?case by (cases ys) auto
  next
    case (Cons x xs)
    then show ?case by (cases ys) auto
  qed
  then show ?thesis using assms by (auto simp: ring_def)
qed

locale node_ring =
  fixes z :: 'p
    and nxt :: "'s \<Rightarrow> 'p \<Rightarrow> 'p"
    and prv :: "'s \<Rightarrow> 'p \<Rightarrow> 'p"
    and link :: "'p \<Rightarrow> 'p \<Rightarrow> 's \<Rightarrow> 's"
    and unlink :: "'p \<Rightarrow> 's \<Rightarrow> 's"
  assumes nxt_link: "nxt (link p c s) = (nxt s)(c := nxt s p, p := c)"
    and prv_link: "prv (link p c s) = (prv s)(c := p, nxt s p := c)"
    and nxt_unlink: "nxt (unlink c s) = (nxt s)(prv s c := nxt s c)"
    and prv_unlink: "prv (unlink c s) = (prv s)(nxt s c := prv s c)"
begin

lemma link_between:
  assumes "ring z (nxt s) (prv s) (xs @ ys)" and "c \<notin> set (z # xs @ ys)" and "p = last (z # xs)"
  shows "ring z (nxt (link p c s)) (prv (link p c s)) (xs @ c # ys)"
proof -
  have d: "distinct (z # xs @ ys)" and pa: "path (nxt s) (prv s) z (xs @ ys) z"
    using assms(1) by (auto simp: ring_def)
  have p_in: "p \<in> set (z # xs)" using assms(3) by (metis last_in_set list.discI)
  have pc: "p \<noteq> c" using p_in assms(2) by auto
  define nx where "nx = nxt (link p c s)"
  define pv where "pv = prv (link p c s)"
  have nx: "nx = (nxt s)(c := nxt s p, p := c)" by (simp add: nx_def nxt_link)
  have pv: "pv = (prv s)(c := p, nxt s p := c)" by (simp add: pv_def prv_link)
  define e where "e = hd (ys @ [z])"
  have split: "path (nxt s) (prv s) z xs e \<and> nxt s p = e \<and> (ys \<noteq> [] \<longrightarrow> path (nxt s) (prv s) e (tl ys) z)"
  proof (cases ys)
    case Nil
    have *: "path (nxt s) (prv s) z xs z" using pa Nil by simp
    have "nxt s (last (z # xs)) = z" using *
    proof -
      have "path n v a xs b \<Longrightarrow> n (last (a # xs)) = b" for n v and a b :: 'p
        by (induction xs arbitrary: a) auto
      then show ?thesis using * by blast
    qed
    then show ?thesis using * Nil assms(3) by (simp add: e_def)
  next
    case (Cons y ys')
    have *: "path (nxt s) (prv s) z xs y" "path (nxt s) (prv s) y ys' z"
      using pa Cons by (auto simp: path_append)
    have "path n v a xs b \<Longrightarrow> n (last (a # xs)) = b" for n v and a b :: 'p
      by (induction xs arbitrary: a) auto
    then have "nxt s (last (z # xs)) = y" using *(1) by blast
    then show ?thesis using * Cons assms(3) by (simp add: e_def)
  qed
  have first: "path nx pv z xs c"
  proof -
    have "path nx' pv' a xs b \<Longrightarrow> b \<notin> set (a # xs) \<Longrightarrow> distinct (a # xs) \<Longrightarrow> c \<notin> set (a # xs) \<Longrightarrow>
      last (a # xs) = p \<Longrightarrow> path (nx'(c := b, p := c)) (pv'(c := p, b := c)) a xs c" if "b \<noteq> c" for nx' pv' a b
      using that by (induction xs arbitrary: a) (auto split: if_splits)
    moreover have "path nx' pv' z xs z \<Longrightarrow> distinct (z # xs) \<Longrightarrow> c \<notin> set (z # xs) \<Longrightarrow>
      path (nx'(c := z, p := c)) (pv'(c := p, z := c)) z xs c" if "p = last (z # xs)" for nx' pv'
    proof -
      assume pth: "path nx' pv' z xs z" and dd: "distinct (z # xs)" and cc: "c \<notin> set (z # xs)"
      have gen: "path nx' pv' a xs z \<Longrightarrow> z \<notin> set xs \<Longrightarrow> distinct (a # xs) \<Longrightarrow> c \<notin> set (a # xs) \<Longrightarrow> c \<noteq> z \<Longrightarrow>
        last (a # xs) = p \<Longrightarrow> path (nx'(c := z, p := c)) (pv'(c := p, z := c)) a xs c" for a
        by (induction xs arbitrary: a) (auto split: if_splits)
      show ?thesis using gen [OF pth] dd cc that by auto
    qed
    ultimately show ?thesis
      using split d assms(2,3) pc unfolding nx pv e_def
      by (cases ys) (auto simp: nx pv)
  qed
  have second: "path nx pv c ys z"
  proof (cases ys)
    case Nil
    then show ?thesis using split pc by (simp add: nx pv e_def)
  next
    case (Cons y ys')
    have "path nx pv y ys' z = path (nxt s) (prv s) y ys' z"
      using d assms(2) p_in Cons split by (intro path_cong) (auto simp: nx pv e_def)
    then show ?thesis using split Cons pc by (auto simp: nx pv e_def)
  qed
  have "path nx pv z (xs @ c # ys) z" using first second by (simp add: path_append)
  then show ?thesis using d assms(2) by (auto simp: ring_def nx_def pv_def)
qed

lemma link_tail:
  assumes "ring z (nxt s) (prv s) ys" and "c \<notin> set (z # ys)"
  shows "ring z (nxt (link (prv s z) c s)) (prv (link (prv s z) c s)) (ys @ [c])"
proof -
  have "prv s z = last (z # ys)" using assms(1) unfolding ring_def by (blast dest: path_last)
  then show ?thesis using link_between [of s ys "[]" c "prv s z"] assms by simp
qed

lemma link_head:
  assumes "ring z (nxt s) (prv s) ys" and "c \<notin> set (z # ys)"
  shows "ring z (nxt (link z c s)) (prv (link z c s)) (c # ys)"
  using link_between [of s "[]" ys c z] assms by simp

lemma unlink_between:
  assumes "ring z (nxt s) (prv s) (xs @ c # ys)"
  shows "ring z (nxt (unlink c s)) (prv (unlink c s)) (xs @ ys)"
proof -
  have d: "distinct (z # xs @ c # ys)" and p1: "path (nxt s) (prv s) z xs c" and p2: "path (nxt s) (prv s) c ys z"
    using assms by (auto simp: ring_def path_append)
  define a where "a = last (z # xs)"
  define e where "e = hd (ys @ [z])"
  have pc: "prv s c = a" using path_last [OF p1] by (simp add: a_def)
  have nc: "nxt s c = e" using path_hd [OF p2] by (simp add: e_def)
  have nx: "nxt (unlink c s) = (nxt s)(a := e)" by (simp add: nxt_unlink pc nc)
  have pv: "prv (unlink c s) = (prv s)(e := a)" by (simp add: prv_unlink pc nc)
  have gen: "path n v b xs c \<Longrightarrow> distinct (b # xs) \<Longrightarrow> g \<notin> set xs \<Longrightarrow>
     path (n(last (b # xs) := g)) (v(g := last (b # xs))) b xs g" for n v b g
    by (induction xs arbitrary: b) (auto split: if_splits)
  have eg: "e \<notin> set xs" using d by (cases ys) (auto simp: e_def)
  have first: "path ((nxt s)(a := e)) ((prv s)(e := a)) z xs e"
    unfolding a_def by (rule gen [OF p1]) (use d eg in auto)
  show ?thesis
  proof (cases ys)
    case Nil
    then show ?thesis using first d unfolding nx pv by (auto simp: ring_def e_def)
  next
    case (Cons y ys')
    have a_in: "a \<in> set (z # xs)" unfolding a_def by (rule last_in_set) simp
    have "path ((nxt s)(a := e)) ((prv s)(e := a)) y ys' z = path (nxt s) (prv s) y ys' z"
      using d Cons a_in by (intro path_cong) (auto simp: e_def)
    then have "path ((nxt s)(a := e)) ((prv s)(e := a)) z (xs @ y # ys') z"
      using first p2 Cons by (auto simp: path_append e_def)
    then show ?thesis using d Cons unfolding nx pv by (auto simp: ring_def)
  qed
qed

lemma unlink_mem:
  assumes "ring z (nxt s) (prv s) ys" and "c \<in> set ys"
  shows "ring z (nxt (unlink c s)) (prv (unlink c s)) (remove1 c ys)"
proof -
  obtain as bs where ys: "ys = as @ c # bs" using assms(2) by (auto simp: in_set_conv_decomp)
  have "c \<notin> set as" using assms(1) ys by (auto simp: ring_def)
  then have "remove1 c ys = as @ bs" using ys by (simp add: remove1_append)
  then show ?thesis using unlink_between assms(1) ys by simp
qed

lemma ring_empty:
  assumes "ring z (nxt s) (prv s) ys"
  shows "prv s z = z \<longleftrightarrow> ys = []"
proof -
  have l: "prv s z = last (z # ys)" using assms unfolding ring_def by (blast dest: path_last)
  show ?thesis
  proof
    assume "prv s z = z"
    then have "last (z # ys) = z" using l by simp
    then show "ys = []" using assms by (metis distinct.simps(2) last_ConsR last_in_set ring_def)
  next
    assume "ys = []"
    then show "prv s z = z" using l by simp
  qed
qed

lemma ring_first:
  assumes "ring z (nxt s) (prv s) ys"
  shows "nxt s z = hd (ys @ [z])"
  using assms path_hd by (auto simp: ring_def)

end

end
