(* ===== verification/ApaCache.thy ===== *)
theory ApaCache
  imports ApaHeader Ring
begin

text \<open>
  The partition header cache (\<open>common/libapa/src/cache.c\<close>), the metadata journal
  (\<open>journal.c\<close>) and the header transfers of \<open>apa.c\<close> they call.

  The ATA driver, the CD/DVD clock and the memory allocator are not part of the repository:
  they are the parameter \<open>E\<close> of type \<open>'d ata_env\<close>, whose functions act on an opaque
  world \<open>'d\<close>. The library's static variables are the record \<open>apa_state\<close>; a module
  that has its own statics extends it. An \<open>apa_cache_t *\<close> is the index of its entry in
  \<open>cacheBuf\<close> (0 is the list head), or \<open>nat option\<close> where the code can have NULL.
\<close>

subsection \<open>Environment and state\<close>

record cd_clock =
  cd_stat :: u8
  cd_second :: u8
  cd_minute :: u8
  cd_hour :: u8
  cd_day :: u8
  cd_month :: u8
  cd_year :: u8

text \<open>
  \<open>ata_read dev lba n w\<close> is \<open>ata_device_sector_io(dev, buf, lba, n, ATA_DIR_READ)\<close>:
  the return code and the words that arrive in the buffer; \<open>ata_write\<close> is the other
  direction with the words that leave it.
\<close>

record 'd ata_env =
  ata_read :: "s32 \<Rightarrow> u32 \<Rightarrow> u32 \<Rightarrow> 'd \<Rightarrow> int \<times> u32 list \<times> 'd"
  ata_write :: "s32 \<Rightarrow> u32 \<Rightarrow> u32 \<Rightarrow> u32 list \<Rightarrow> 'd \<Rightarrow> int \<times> 'd"
  ata_flush :: "s32 \<Rightarrow> 'd \<Rightarrow> int \<times> 'd"
  read_clock :: "'d \<Rightarrow> int \<times> cd_clock \<times> 'd"
  btoi :: "u8 \<Rightarrow> u8"

record apa_cache =
  c_next :: nat
  c_tail :: nat
  c_flags :: u16
  c_nused :: u16
  c_device :: s32
  c_sector :: u32
  c_header :: apa_header

record apa_journal =
  j_magic :: u32
  j_num :: s32
  j_sectors :: "u32 list"

record 'd apa_state =
  cacheBuf :: "nat \<Rightarrow> apa_cache"
  cacheSize :: nat
  journalBuf :: apa_journal
  timeBuf :: apa_ps2time
  world :: 'd

definition APA_CACHE_FLAG_DIRTY :: u16 where "APA_CACHE_FLAG_DIRTY = 1"

text \<open>\<open>upd_entry i f s\<close>: a field assignment \<open>cacheBuf[i].field = v\<close>.\<close>

definition upd_entry :: "nat \<Rightarrow> (apa_cache \<Rightarrow> apa_cache) \<Rightarrow> ('d, 'z) apa_state_scheme \<Rightarrow> ('d, 'z) apa_state_scheme" where
  "upd_entry i f s = s\<lparr>cacheBuf := (cacheBuf s)(i := f (cacheBuf s i))\<rparr>"

definition set_header :: "nat \<Rightarrow> (apa_header \<Rightarrow> apa_header) \<Rightarrow> ('d, 'z) apa_state_scheme \<Rightarrow> ('d, 'z) apa_state_scheme" where
  "set_header i f = upd_entry i (\<lambda>c. c\<lparr>c_header := f (c_header c)\<rparr>)"

definition mark_dirty :: "nat \<Rightarrow> ('d, 'z) apa_state_scheme \<Rightarrow> ('d, 'z) apa_state_scheme" where
  "mark_dirty i = upd_entry i (\<lambda>c. c\<lparr>c_flags := c_flags c OR APA_CACHE_FLAG_DIRTY\<rparr>)"

abbreviation hdr :: "('d, 'z) apa_state_scheme \<Rightarrow> nat \<Rightarrow> apa_header" where
  "hdr s i \<equiv> c_header (cacheBuf s i)"

definition is_dirty :: "apa_cache \<Rightarrow> bool" where
  "is_dirty c \<longleftrightarrow> c_flags c AND APA_CACHE_FLAG_DIRTY \<noteq> 0"

subsection \<open>Time\<close>

fun apaGetTime_loop :: "'d ata_env \<Rightarrow> nat \<Rightarrow> ('d, 'z) apa_state_scheme \<Rightarrow> ('d, 'z) apa_state_scheme" where
  "apaGetTime_loop E 0 s = s"
| "apaGetTime_loop E (Suc k) s =
     (let (ret, cdtime, w) = read_clock E (world s); s1 = s\<lparr>world := w\<rparr> in
      if ret \<noteq> 0 \<and> cd_stat cdtime = 0
      then s1\<lparr>timeBuf := (timeBuf s1)\<lparr>t_sec := btoi E (cd_second cdtime), t_min := btoi E (cd_minute cdtime),
             t_hour := btoi E (cd_hour cdtime), t_day := btoi E (cd_day cdtime),
             t_month := btoi E (cd_month cdtime AND 0x7F), t_year := ucast (btoi E (cd_year cdtime)) + 2000\<rparr>\<rparr>
      else if cd_stat cdtime AND 0x80 = 0 then s1
      else apaGetTime_loop E k s1)"

definition apaGetTime :: "'d ata_env \<Rightarrow> ('d, 'z) apa_state_scheme \<Rightarrow> apa_ps2time \<times> ('d, 'z) apa_state_scheme" where
  "apaGetTime E s = (let s1 = apaGetTime_loop E 20 s in (timeBuf s1, s1))"

subsection \<open>Header transfers\<close>

text \<open>\<open>strncmp(a, b, n) == 0\<close>; a list that ends stands for a string at its terminator.\<close>

fun strncmp_eq :: "u8 list \<Rightarrow> u8 list \<Rightarrow> nat \<Rightarrow> bool" where
  "strncmp_eq a b 0 = True"
| "strncmp_eq a b (Suc n) =
     (let x = (case a of [] \<Rightarrow> 0 | c # _ \<Rightarrow> c); y = (case b of [] \<Rightarrow> 0 | c # _ \<Rightarrow> c) in
      if x \<noteq> y then False else if x = 0 then True else strncmp_eq (tl a) (tl b) n)"

text \<open>\<open>"Sony Computer Entertainment Inc."\<close>\<close>

definition apaMBRMagic :: "u8 list" where
  "apaMBRMagic = [0x53, 0x6f, 0x6e, 0x79, 0x20, 0x43, 0x6f, 0x6d, 0x70, 0x75, 0x74, 0x65, 0x72, 0x20,
     0x45, 0x6e, 0x74, 0x65, 0x72, 0x74, 0x61, 0x69, 0x6e, 0x6d, 0x65, 0x6e, 0x74, 0x20, 0x49, 0x6e, 0x63, 0x2e]"

text \<open>
  The buffer argument of \<open>apaSaveError\<close> is a header's; its first 512 bytes are
  overwritten with the error record that is written to \<open>lba\<close>.
\<close>

definition apaSaveError ::
    "'d ata_env \<Rightarrow> s32 \<Rightarrow> apa_header \<Rightarrow> u32 \<Rightarrow> u32 \<Rightarrow> ('d, 'z) apa_state_scheme \<Rightarrow> apa_header \<times> ('d, 'z) apa_state_scheme" where
  "apaSaveError E device buffer lba err_lba s =
     (let rec = err_lba # replicate 127 0;
          (r1, w1) = ata_write E device lba 1 rec (world s);
          (r2, w2) = ata_flush E device w1
      in (header_of_words (overlay rec (header_words buffer)), s\<lparr>world := w2\<rparr>))"

definition apaReadHeader ::
    "'d ata_env \<Rightarrow> s32 \<Rightarrow> apa_header \<Rightarrow> u32 \<Rightarrow> ('d, 'z) apa_state_scheme \<Rightarrow> int \<times> apa_header \<times> ('d, 'z) apa_state_scheme" where
  "apaReadHeader E device header lba s =
     (let (r, ws, w) = ata_read E device lba 2 (world s);
          h = header_of_words (overlay ws (header_words header));
          s1 = s\<lparr>world := w\<rparr>
      in if r \<noteq> 0 then (- EIO, h, s1)
         else if h_magic h \<noteq> APA_MAGIC then (- EIO, h, s1)
         else if apaCheckSum h \<noteq> h_checksum h then (- EIO, h, s1)
         else if lba = APA_SECTOR_MBR
         then (if strncmp_eq (mbr_magic (h_mbr h)) apaMBRMagic 32 then (0, h, s1) else (- EIO, h, s1))
         else (0, h, s1))"

definition apaWriteHeader ::
    "'d ata_env \<Rightarrow> s32 \<Rightarrow> apa_header \<Rightarrow> u32 \<Rightarrow> ('d, 'z) apa_state_scheme \<Rightarrow> int \<times> ('d, 'z) apa_state_scheme" where
  "apaWriteHeader E device header lba s =
     (let (r, w) = ata_write E device lba 2 (header_words header) (world s)
      in (if r \<noteq> 0 then - EIO else 0, s\<lparr>world := w\<rparr>))"

subsection \<open>The list of free entries\<close>

definition apaCacheLink :: "nat \<Rightarrow> nat \<Rightarrow> ('d, 'z) apa_state_scheme \<Rightarrow> ('d, 'z) apa_state_scheme" where
  "apaCacheLink clink cnew s =
     (let s1 = upd_entry cnew (c_tail_update (\<lambda>_. clink)) s;
          s2 = upd_entry cnew (c_next_update (\<lambda>_. c_next (cacheBuf s1 clink))) s1;
          s3 = upd_entry (c_next (cacheBuf s2 clink)) (c_tail_update (\<lambda>_. cnew)) s2
      in upd_entry clink (c_next_update (\<lambda>_. cnew)) s3)"

definition apaCacheUnLink :: "nat \<Rightarrow> ('d, 'z) apa_state_scheme \<Rightarrow> ('d, 'z) apa_state_scheme" where
  "apaCacheUnLink clink s =
     (let s1 = upd_entry (c_tail (cacheBuf s clink)) (c_next_update (\<lambda>_. c_next (cacheBuf s clink))) s
      in upd_entry (c_next (cacheBuf s1 clink)) (c_tail_update (\<lambda>_. c_tail (cacheBuf s1 clink))) s1)"

text \<open>
  \<open>apaCacheInit\<close>. The two allocations can fail (\<open>ok1\<close>, \<open>ok2\<close>), and the header
  memory they return is uninitialised (\<open>mem\<close>). The NULL links that \<open>memset\<close> leaves are
  written by \<open>apaCacheLink\<close> before anything reads them; index 0 stands for them.
\<close>

definition cache_entries :: "nat \<Rightarrow> nat list" where
  "cache_entries sz = [1..<Suc sz]"

definition zero_entry :: "apa_header \<Rightarrow> apa_cache" where
  "zero_entry h = \<lparr>c_next = 0, c_tail = 0, c_flags = 0, c_nused = 0, c_device = 0, c_sector = 0, c_header = h\<rparr>"

definition init_entry :: "nat \<Rightarrow> ('d, 'z) apa_state_scheme \<Rightarrow> ('d, 'z) apa_state_scheme" where
  "init_entry i s = (let t = upd_entry i (\<lambda>c. c\<lparr>c_device := - 1\<rparr>) s in apaCacheLink (c_tail (cacheBuf t 0)) i t)"

definition apaCacheInit ::
    "nat \<Rightarrow> bool \<Rightarrow> bool \<Rightarrow> (nat \<Rightarrow> apa_header) \<Rightarrow> ('d, 'z) apa_state_scheme \<Rightarrow> int \<times> ('d, 'z) apa_state_scheme" where
  "apaCacheInit sz ok1 ok2 mem s =
     (let s0 = s\<lparr>cacheSize := sz\<rparr> in
      if \<not> ok1 then (- ENOMEM, s0)
      else if \<not> ok2 then (- ENOMEM, s0)
      else (let s1 = s0\<lparr>cacheBuf := (\<lambda>i. zero_entry (mem i))\<rparr>;
                s2 = upd_entry 0 (c_next_update (\<lambda>_. 0)) s1;
                s3 = upd_entry 0 (c_tail_update (\<lambda>_. 0)) s2
            in (0, fold init_entry (cache_entries sz) s3)))"

subsection \<open>Cache transfers, the journal, flushing\<close>

definition apaCacheTransfer ::
    "'d ata_env \<Rightarrow> nat \<Rightarrow> nat \<Rightarrow> ('d, 'z) apa_state_scheme \<Rightarrow> int \<times> ('d, 'z) apa_state_scheme" where
  "apaCacheTransfer E clink type s =
     (let c = cacheBuf s clink;
          (err, s1) = (if type \<noteq> 0 then apaWriteHeader E (c_device c) (c_header c) (c_sector c) s
                       else (let (e, h, t) = apaReadHeader E (c_device c) (c_header c) (c_sector c) s
                             in (e, set_header clink (\<lambda>_. h) t)));
          s2 = (if err \<noteq> 0 \<and> type = 0
                then (let (h, t) = apaSaveError E (c_device c) (hdr s1 clink) APA_SECTOR_SECTOR_ERROR (c_sector c) s1
                      in set_header clink (\<lambda>_. h) t)
                else s1)
      in (err, upd_entry clink (\<lambda>c. c\<lparr>c_flags := c_flags c AND NOT APA_CACHE_FLAG_DIRTY\<rparr>) s2))"

definition apaCacheFlushDirty :: "'d ata_env \<Rightarrow> nat \<Rightarrow> ('d, 'z) apa_state_scheme \<Rightarrow> ('d, 'z) apa_state_scheme" where
  "apaCacheFlushDirty E clink s =
     (if is_dirty (cacheBuf s clink) then snd (apaCacheTransfer E clink 1 s) else s)"

definition journal_words :: "apa_journal \<Rightarrow> u32 list" where
  "journal_words j = j_magic j # j_num j # j_sectors j"

definition journal_of_words :: "u32 list \<Rightarrow> apa_journal" where
  "journal_of_words ws = \<lparr>j_magic = ws ! 0, j_num = ws ! 1, j_sectors = drop 2 ws\<rparr>"

definition apaJournalFlush :: "'d ata_env \<Rightarrow> s32 \<Rightarrow> ('d, 'z) apa_state_scheme \<Rightarrow> int \<times> ('d, 'z) apa_state_scheme" where
  "apaJournalFlush E device s =
     (let (r1, w1) = ata_flush E device (world s) in
      if r1 \<noteq> 0 then (- EIO, s\<lparr>world := w1\<rparr>)
      else let (r2, w2) = ata_write E device APA_SECTOR_APAL 1 (journal_words (journalBuf s)) w1 in
      if r2 \<noteq> 0 then (- EIO, s\<lparr>world := w2\<rparr>)
      else let (r3, w3) = ata_flush E device w2 in
      (if r3 \<noteq> 0 then - EIO else 0, s\<lparr>world := w3\<rparr>))"

definition empty_journal :: apa_journal where
  "empty_journal = \<lparr>j_magic = APAL_MAGIC, j_num = 0, j_sectors = replicate 126 0\<rparr>"

definition apaJournalReset :: "'d ata_env \<Rightarrow> s32 \<Rightarrow> ('d, 'z) apa_state_scheme \<Rightarrow> int \<times> ('d, 'z) apa_state_scheme" where
  "apaJournalReset E device s = apaJournalFlush E device (s\<lparr>journalBuf := empty_journal\<rparr>)"

text \<open>Recording in a journal that already holds 126 sectors writes past the array.\<close>

definition apaJournalWrite :: "'d ata_env \<Rightarrow> nat \<Rightarrow> ('d, 'z) apa_state_scheme \<Rightarrow> (int \<times> ('d, 'z) apa_state_scheme) option" where
  "apaJournalWrite E clink s =
     (let s1 = set_header clink (\<lambda>h. h\<lparr>h_checksum := apaCheckSum h\<rparr>) s;
          c = cacheBuf s1 clink;
          n = j_num (journalBuf s1);
          (r, w) = ata_write E (c_device c) (push_bit 1 n + APA_SECTOR_APAL_HEADERS) 2 (header_words (c_header c)) (world s1);
          s2 = s1\<lparr>world := w\<rparr>
      in if r \<noteq> 0 then Some (- EIO, s2)
         else if unat n < 126
         then Some (0, s2\<lparr>journalBuf := (journalBuf s2)\<lparr>j_sectors := (j_sectors (journalBuf s2))[unat n := c_sector c],
                        j_num := n + 1\<rparr>\<rparr>)
         else None)"

text \<open>The bodies of the two loops of \<open>apaCacheFlushAllDirty\<close>.\<close>

definition dirty_of :: "s32 \<Rightarrow> ('d, 'z) apa_state_scheme \<Rightarrow> nat \<Rightarrow> bool" where
  "dirty_of device s i \<longleftrightarrow> is_dirty (cacheBuf s i) \<and> c_device (cacheBuf s i) = device"

definition journal_dirty :: "'d ata_env \<Rightarrow> s32 \<Rightarrow> nat \<Rightarrow> ('d, 'z) apa_state_scheme \<Rightarrow> ('d, 'z) apa_state_scheme option" where
  "journal_dirty E device i s = (if dirty_of device s i then map_option snd (apaJournalWrite E i s) else Some s)"

definition write_dirty :: "'d ata_env \<Rightarrow> s32 \<Rightarrow> nat \<Rightarrow> ('d, 'z) apa_state_scheme \<Rightarrow> ('d, 'z) apa_state_scheme" where
  "write_dirty E device i s = (if dirty_of device s i then snd (apaCacheTransfer E i 1 s) else s)"

definition apaCacheFlushAllDirty :: "'d ata_env \<Rightarrow> s32 \<Rightarrow> ('d, 'z) apa_state_scheme \<Rightarrow> (int \<times> ('d, 'z) apa_state_scheme) option" where
  "apaCacheFlushAllDirty E device s =
     map_option (\<lambda>s1. let s2 = snd (apaJournalFlush E device s1);
                          s3 = fold (write_dirty E device) (cache_entries (cacheSize s)) s2
                      in apaJournalReset E device s3)
       (ofold (journal_dirty E device) (cache_entries (cacheSize s)) s)"

subsection \<open>Getting and returning entries\<close>

definition free_list_empty :: "('d, 'z) apa_state_scheme \<Rightarrow> bool" where
  "free_list_empty s \<longleftrightarrow> c_tail (cacheBuf s 0) = 0 \<and> c_tail (cacheBuf s 0) = c_next (cacheBuf s (c_tail (cacheBuf s 0)))"

definition cache_lookup :: "s32 \<Rightarrow> u32 \<Rightarrow> ('d, 'z) apa_state_scheme \<Rightarrow> nat option" where
  "cache_lookup device sector s =
     List.find (\<lambda>i. c_sector (cacheBuf s i) = sector \<and> c_device (cacheBuf s i) = device) (cache_entries (cacheSize s))"

definition apaCacheGetHeader ::
    "'d ata_env \<Rightarrow> s32 \<Rightarrow> u32 \<Rightarrow> nat \<Rightarrow> ('d, 'z) apa_state_scheme \<Rightarrow> (nat option \<times> int) \<times> ('d, 'z) apa_state_scheme" where
  "apaCacheGetHeader E device sector mode s =
     (case cache_lookup device sector s of
        Some i \<Rightarrow>
          (let s1 = (if c_nused (cacheBuf s i) = 0 then apaCacheUnLink i s else s)
           in ((Some i, 0), upd_entry i (\<lambda>c. c\<lparr>c_nused := c_nused c + 1\<rparr>) s1))
      | None \<Rightarrow>
          if free_list_empty s then ((None, - ENOMEM), s)
          else
            let i = c_next (cacheBuf s 0);
                s1 = upd_entry i (\<lambda>c. c\<lparr>c_flags := 0, c_nused := 1, c_device := device, c_sector := sector\<rparr>) s;
                s2 = apaCacheUnLink i s1
            in if mode = 0
               then let (r, s3) = apaCacheTransfer E i 0 s2 in
                 if r < 0
                 then ((None, r), apaCacheLink 0 i (upd_entry i (\<lambda>c. c\<lparr>c_nused := 0, c_device := - 1\<rparr>) s3))
                 else ((Some i, r), s3)
               else ((Some i, 0), s2))"

text \<open>\<open>apaCacheFree\<close>: returning NULL or an unused entry only prints a message.\<close>

definition apaCacheFree :: "nat option \<Rightarrow> ('d, 'z) apa_state_scheme \<Rightarrow> ('d, 'z) apa_state_scheme" where
  "apaCacheFree clink s =
     (case clink of None \<Rightarrow> s
      | Some i \<Rightarrow>
          if c_nused (cacheBuf s i) = 0 then s
          else (let s1 = upd_entry i (\<lambda>c. c\<lparr>c_nused := c_nused c - 1\<rparr>) s
                in if c_nused (cacheBuf s1 i) = 0 then apaCacheLink (c_tail (cacheBuf s1 0)) i s1 else s1))"

definition apaCacheAlloc :: "('d, 'z) apa_state_scheme \<Rightarrow> nat option \<times> ('d, 'z) apa_state_scheme" where
  "apaCacheAlloc s =
     (if free_list_empty s then (None, s)
      else (let i = c_next (cacheBuf s 0);
                s1 = upd_entry i (\<lambda>c. c\<lparr>c_nused := 1, c_flags := 0, c_device := - 1, c_sector := - 1\<rparr>) s
            in (Some i, apaCacheUnLink i s1)))"

subsection \<open>Journal recovery\<close>

text \<open>
  One round of \<open>apaJournalRestore\<close>'s loop: entry \<open>i\<close> of the log is read into the
  cache entry and written home. \<open>None\<close> is the read of \<open>journalBuf.sectors[i]\<close> past
  its end, or of \<open>clink->header\<close> through NULL.
\<close>

definition journal_copy ::
    "'d ata_env \<Rightarrow> s32 \<Rightarrow> nat option \<Rightarrow> nat \<Rightarrow> ('d, 'z) apa_state_scheme \<Rightarrow> (int \<times> ('d, 'z) apa_state_scheme) option" where
  "journal_copy E device clink i s = do {
     c \<leftarrow> clink;
     let (r, ws, w) = ata_read E device (APA_SECTOR_APAL_HEADERS + 2 * of_nat i) 2 (world s);
     let s1 = set_header c (\<lambda>h. header_of_words (overlay ws (header_words h))) (s\<lparr>world := w\<rparr>);
     if r \<noteq> 0 then Some (- EIO, s1)
     else if i < length (j_sectors (journalBuf s1))
     then (let (r2, w2) = ata_write E device (j_sectors (journalBuf s1) ! i) 2 (header_words (hdr s1 c)) (world s1)
           in Some (if r2 \<noteq> 0 then - EIO else 0, s1\<lparr>world := w2\<rparr>))
     else None
   }"

fun journal_copy_all ::
    "'d ata_env \<Rightarrow> s32 \<Rightarrow> nat option \<Rightarrow> nat list \<Rightarrow> int \<Rightarrow> ('d, 'z) apa_state_scheme \<Rightarrow> (int \<times> ('d, 'z) apa_state_scheme) option" where
  "journal_copy_all E device clink [] ret s = Some (ret, s)"
| "journal_copy_all E device clink (i # is) ret s = do {
     (r, s1) \<leftarrow> journal_copy E device clink i s;
     if r \<noteq> 0 then Some (r, s1) else journal_copy_all E device clink is r s1
   }"

definition apaJournalRestore :: "'d ata_env \<Rightarrow> s32 \<Rightarrow> ('d, 'z) apa_state_scheme \<Rightarrow> (int \<times> ('d, 'z) apa_state_scheme) option" where
  "apaJournalRestore E device s =
     (let (r, ws, w) = ata_read E device APA_SECTOR_APAL 1 (world s);
          s1 = s\<lparr>world := w, journalBuf := journal_of_words (overlay ws (journal_words (journalBuf s)))\<rparr>;
          ret = (if r = 0 then 0 else - EIO)
      in if ret = 0 \<and> j_magic (journalBuf s1) = APAL_MAGIC
         then (if j_num (journalBuf s1) = 0 then Some (0, s1)
               else do {
                 let (clink, s2) = apaCacheAlloc s1;
                 (ret2, s3) \<leftarrow> journal_copy_all E device clink [0..<nat (sint (j_num (journalBuf s1)))] ret s2;
                 Some (apaJournalReset E device (apaCacheFree clink s3))
               })
         else Some (apaJournalReset E device s1))"

end
