(* ===== verification/ApaDisk.thy ===== *)
theory ApaDisk
  imports ApaCache
begin

text \<open>
  What the library relies on of the ATA driver, as a predicate on the environment
  (\<open>ata_ok\<close>), and a simulated drive that satisfies it. The simulated drive has a volatile
  write cache: it keeps the log of sector writes and cache flushes, and \<open>crash_image\<close>
  says what a power failure can leave on the platters.
\<close>

subsection \<open>The documented behaviour of the driver\<close>

text \<open>
  An image gives the 128 words of every sector of every device.
\<close>

type_synonym image = "s32 \<Rightarrow> u32 \<Rightarrow> u32 list"

definition put_sector :: "s32 \<Rightarrow> u32 \<Rightarrow> u32 list \<Rightarrow> image \<Rightarrow> image" where
  "put_sector d l ws img = (\<lambda>d' l'. if d' = d \<and> l' = l then ws else img d' l')"

definition sectors :: "image \<Rightarrow> s32 \<Rightarrow> u32 \<Rightarrow> nat \<Rightarrow> u32 list" where
  "sectors img d l n = concat (map (\<lambda>k. img d (l + of_nat k)) [0..<n])"

definition chunk :: "nat \<Rightarrow> u32 list \<Rightarrow> u32 list" where
  "chunk k ws = take 128 (drop (128 * k) ws)"

definition put_sectors :: "s32 \<Rightarrow> u32 \<Rightarrow> nat \<Rightarrow> u32 list \<Rightarrow> image \<Rightarrow> image" where
  "put_sectors d l n ws img = fold (\<lambda>k. put_sector d (l + of_nat k) (chunk k ws)) [0..<n] img"

definition covers :: "u32 \<Rightarrow> nat \<Rightarrow> u32 \<Rightarrow> bool" where
  "covers l n l' \<longleftrightarrow> (\<exists>k < n. l' = l + of_nat k)"

text \<open>
  \<open>ata_device_sector_io\<close> returns 0 on success. A successful read delivers the sectors and a
  successful write stores them; a read or a flush changes no sector, and a failed write
  no sector outside the request.
\<close>

definition ata_ok :: "'d ata_env \<Rightarrow> ('d \<Rightarrow> image) \<Rightarrow> bool" where
  "ata_ok E img \<longleftrightarrow>
     (\<forall>w d l. length (img w d l) = 128)
   \<and> (\<forall>w d l n r ws w'. ata_read E d l n w = (r, ws, w') \<longrightarrow>
        img w' = img w \<and> (r = 0 \<longrightarrow> ws = sectors (img w) d l (unat n)))
   \<and> (\<forall>w d l n ws r w'. ata_write E d l n ws w = (r, w') \<longrightarrow> length ws = 128 * unat n \<longrightarrow>
        (r = 0 \<longrightarrow> img w' = put_sectors d l (unat n) ws (img w))
      \<and> (\<forall>d' l'. \<not> (d' = d \<and> covers l (unat n) l') \<longrightarrow> img w' d' l' = img w d' l'))
   \<and> (\<forall>w d r w'. ata_flush E d w = (r, w') \<longrightarrow> img w' = img w)"

subsection \<open>A simulated drive\<close>

datatype io_event = EWrite s32 u32 "u32 list" | EFlush s32

record sim_disk =
  sd_base :: image
  sd_log :: "io_event list"
  sd_bad :: "s32 \<Rightarrow> u32 \<Rightarrow> bool"

primrec apply_event :: "io_event \<Rightarrow> image \<Rightarrow> image" where
  "apply_event (EWrite d l ws) img = put_sector d l ws img"
| "apply_event (EFlush d) img = img"

text \<open>A sector has 128 words whatever the simulation is started from.\<close>

definition norm128 :: "image \<Rightarrow> image" where
  "norm128 img = (\<lambda>d l. take 128 (img d l @ replicate 128 0))"

definition sim_image :: "sim_disk \<Rightarrow> image" where
  "sim_image w = norm128 (fold apply_event (sd_log w) (sd_base w))"

definition write_events :: "s32 \<Rightarrow> u32 \<Rightarrow> nat \<Rightarrow> u32 list \<Rightarrow> io_event list" where
  "write_events d l n ws = map (\<lambda>k. EWrite d (l + of_nat k) (chunk k ws)) [0..<n]"

definition sim_env :: "sim_disk ata_env" where
  "sim_env = \<lparr>
     ata_read = (\<lambda>d l n w. if list_ex (\<lambda>k. sd_bad w d (l + of_nat k)) [0..<unat n] then (- EIO, [], w)
                           else (0, sectors (sim_image w) d l (unat n), w)),
     ata_write = (\<lambda>d l n ws w. if list_ex (\<lambda>k. sd_bad w d (l + of_nat k)) [0..<unat n] then (- EIO, w)
                               else (0, w\<lparr>sd_log := sd_log w @ write_events d l (unat n) ws\<rparr>)),
     ata_flush = (\<lambda>d w. (0, w\<lparr>sd_log := sd_log w @ [EFlush d]\<rparr>)),
     read_clock = (\<lambda>w. (1, \<lparr>cd_stat = 0, cd_second = 0x30, cd_minute = 0x59, cd_hour = 0x23, cd_day = 0x31,
                            cd_month = 0x92, cd_year = 0x05\<rparr>, w)),
     btoi = (\<lambda>b. drop_bit 4 b * 10 + (b AND 0xF))\<rparr>"

text \<open>
  A power failure after some of the logged operations. What was written before the last
  completed flush is on the platters; of the later sector writes any subset is.
\<close>

definition is_write :: "io_event \<Rightarrow> bool" where
  "is_write e \<longleftrightarrow> (case e of EWrite _ _ _ \<Rightarrow> True | EFlush _ \<Rightarrow> False)"

definition crash_image :: "image \<Rightarrow> io_event list \<Rightarrow> image \<Rightarrow> bool" where
  "crash_image base evs img \<longleftrightarrow>
     (\<exists>stable pending rest kept. evs = stable @ pending @ rest \<and> (\<forall>e \<in> set pending. is_write e)
        \<and> (stable = [] \<or> \<not> is_write (last stable)) \<and> kept \<in> set (subseqs pending)
        \<and> img = fold apply_event (stable @ kept) base)"

subsection \<open>Sector arithmetic\<close>

lemma chunk_length [simp]: "128 * Suc k \<le> length ws \<Longrightarrow> length (chunk k ws) = 128"
  by (simp add: chunk_def)

lemma length_sectors: "(\<And>d l. length (img d l) = 128) \<Longrightarrow> length (sectors img d l n) = 128 * n"
  by (induction n) (simp_all add: sectors_def)

lemma put_sectors_other: "\<not> (d' = d \<and> covers l n l') \<Longrightarrow> put_sectors d l n ws img d' l' = img d' l'"
  by (induction n) (auto simp: put_sectors_def put_sector_def covers_def less_Suc_eq)

lemma fold_write_events: "fold apply_event (write_events d l n ws) img = put_sectors d l n ws img"
proof -
  have "apply_event (EWrite d l ws) = put_sector d l ws" for l ws by (rule ext) simp
  then show ?thesis by (simp add: write_events_def put_sectors_def fold_map comp_def)
qed

lemma sectors_2: "sectors img d l 2 = img d l @ img d (l + 1)"
  by (simp add: sectors_def numeral_2_eq_2)

lemma put_sectors_2: "put_sectors d l 2 ws img = put_sector d (l + 1) (chunk 1 ws) (put_sector d l (chunk 0 ws) img)"
  by (simp add: put_sectors_def numeral_2_eq_2)

lemma put_sectors_1: "put_sectors d l (Suc 0) ws img = put_sector d l (chunk 0 ws) img"
  by (simp add: put_sectors_def)

lemma chunks_2: "length ws = 256 \<Longrightarrow> chunk 0 ws @ chunk 1 ws = ws"
  by (simp add: chunk_def)

lemma sectors_put_sectors_2: "length ws = 256 \<Longrightarrow> sectors (put_sectors d l 2 ws img) d l 2 = ws"
  using chunks_2 [of ws] by (simp add: sectors_2 put_sectors_2 put_sector_def)

lemma put_sectors_at:
  assumes "k < n" "n \<le> 2 ^ 32"
  shows "put_sectors d l n ws img d (l + of_nat k) = chunk k ws"
  using assms
proof (induction n)
  case (Suc n)
  have eq: "put_sectors d l (Suc n) ws img = put_sector d (l + of_nat n) (chunk n ws) (put_sectors d l n ws img)"
    by (simp add: put_sectors_def)
  show ?case
  proof (cases "k = n")
    case True
    then show ?thesis by (simp add: eq put_sector_def)
  next
    case False
    have "unat (of_nat k :: u32) = k" "unat (of_nat n :: u32) = n"
      using Suc.prems by (simp_all add: unat_of_nat)
    then have "(of_nat k :: u32) \<noteq> of_nat n" using False by metis
    then show ?thesis using Suc False by (simp add: eq put_sector_def)
  qed
qed simp

lemma chunk_sectors:
  assumes "\<And>d l. length (img d l) = 128" "k < n"
  shows "chunk k (sectors img d l n) = img d (l + of_nat k)"
  using assms(2)
proof (induction n)
  case (Suc n)
  have len: "length (sectors img d l n) = 128 * n" by (rule length_sectors) (rule assms(1))
  have s: "sectors img d l (Suc n) = sectors img d l n @ img d (l + of_nat n)" by (simp add: sectors_def)
  show ?case
  proof (cases "k = n")
    case True
    then show ?thesis by (simp add: chunk_def s len assms(1))
  next
    case False
    then have "k < n" using Suc.prems by simp
    then have "128 * k + 128 \<le> length (sectors img d l n)" by (simp add: len)
    then have "chunk k (sectors img d l (Suc n)) = chunk k (sectors img d l n)" by (simp add: chunk_def s)
    then show ?thesis using Suc.IH \<open>k < n\<close> by simp
  qed
qed simp

lemma list_ex_False [simp]: "\<not> list_ex (\<lambda>k. False) xs"
  by (induction xs) auto

text \<open>Reads of the library's two transfer sizes.\<close>

lemma ata_okD:
  assumes "ata_ok E img"
  shows "length (img w d l) = 128"
    and "ata_read E d l n w = (r, ws, w') \<Longrightarrow> img w' = img w"
    and "ata_read E d l n w = (0, ws, w') \<Longrightarrow> ws = sectors (img w) d l (unat n)"
    and "ata_write E d l n ws w = (0, w') \<Longrightarrow> length ws = 128 * unat n \<Longrightarrow> img w' = put_sectors d l (unat n) ws (img w)"
    and "ata_write E d l n ws w = (r, w') \<Longrightarrow> length ws = 128 * unat n \<Longrightarrow> \<not> (d' = d \<and> covers l (unat n) l') \<Longrightarrow>
      img w' d' l' = img w d' l'"
    and "ata_flush E d w = (r, w') \<Longrightarrow> img w' = img w"
proof -
  note ok = assms [unfolded ata_ok_def]
  note len = ok [THEN conjunct1] and rd = ok [THEN conjunct2, THEN conjunct1]
    and wr = ok [THEN conjunct2, THEN conjunct2, THEN conjunct1] and fl = ok [THEN conjunct2, THEN conjunct2, THEN conjunct2]
  show "length (img w d l) = 128" using len by simp
  show "ata_read E d l n w = (r, ws, w') \<Longrightarrow> img w' = img w" using rd by simp
  show "ata_read E d l n w = (0, ws, w') \<Longrightarrow> ws = sectors (img w) d l (unat n)" using rd by simp
  show "ata_write E d l n ws w = (0, w') \<Longrightarrow> length ws = 128 * unat n \<Longrightarrow> img w' = put_sectors d l (unat n) ws (img w)"
    using wr by simp
  show "ata_write E d l n ws w = (r, w') \<Longrightarrow> length ws = 128 * unat n \<Longrightarrow> \<not> (d' = d \<and> covers l (unat n) l') \<Longrightarrow>
      img w' d' l' = img w d' l'" using wr by simp
  show "ata_flush E d w = (r, w') \<Longrightarrow> img w' = img w" using fl by simp
qed

lemma covers_2: "covers l 2 l' \<longleftrightarrow> l' = l \<or> l' = l + 1"
  by (auto simp: covers_def less_2_cases_iff)


subsection \<open>The simulated drive behaves as documented\<close>

lemma norm128_id: "(\<And>d l. length (img d l) = 128) \<Longrightarrow> norm128 img = img"
  by (simp add: norm128_def)

lemma norm128_put: "length ws = 128 \<Longrightarrow> norm128 (put_sector d l ws img) = put_sector d l ws (norm128 img)"
  by (auto simp: norm128_def put_sector_def fun_eq_iff)

lemma norm128_puts: "128 * n \<le> length ws \<Longrightarrow> norm128 (put_sectors d l n ws img) = put_sectors d l n ws (norm128 img)"
  by (induction n) (simp_all add: put_sectors_def norm128_put chunk_def)

theorem sim_env_ok: "ata_ok sim_env sim_image"
  unfolding ata_ok_def
proof (intro conjI allI impI)
  show "length (sim_image w d l) = 128" for w d l by (simp add: sim_image_def norm128_def)
qed (auto simp: sim_env_def sim_image_def fold_write_events norm128_puts put_sectors_other EIO_def split: if_splits)

text \<open>A blank drive and a library state on it, for the concrete instances.\<close>

definition demo_disk :: sim_disk where
  "demo_disk = \<lparr>sd_base = (\<lambda>d l. replicate 128 0), sd_log = [], sd_bad = (\<lambda>d l. False)\<rparr>"

definition demo_time :: apa_ps2time where
  "demo_time = \<lparr>t_unused = 0, t_sec = 7, t_min = 6, t_hour = 5, t_day = 4, t_month = 3, t_year = 2000\<rparr>"

definition demo_state :: "sim_disk apa_state" where
  "demo_state = \<lparr>cacheBuf = (\<lambda>_. zero_entry zero_header), cacheSize = 0, journalBuf = empty_journal,
     timeBuf = demo_time, world = demo_disk\<rparr>"

text \<open>After \<open>apaCacheInit(n)\<close>.\<close>

definition demo_cache :: "nat \<Rightarrow> sim_disk apa_state" where
  "demo_cache n = snd (apaCacheInit n True True (\<lambda>_. zero_header) demo_state)"

end
