(* ===== verification/ApaCacheInv.thy ===== *)
theory ApaCacheInv
  imports ApaDisk
begin

text \<open>
  The invariant of the header cache: the sentinel's ring threads exactly the entries with a
  zero use count, in the order they will be reused, and no two entries hold the same sector
  of the same device. Every operation of \<open>cache.c\<close> keeps it, whatever the disk answers.
\<close>

subsection \<open>Projections\<close>

lemma upd_entry_sel [simp, state_simps]:
  "cacheBuf (upd_entry i f s) = (cacheBuf s)(i := f (cacheBuf s i))"
  "cacheSize (upd_entry i f s) = cacheSize s"
  "journalBuf (upd_entry i f s) = journalBuf s"
  "timeBuf (upd_entry i f s) = timeBuf s"
  "world (upd_entry i f s) = world s"
  "apa_state.more (upd_entry i f s) = apa_state.more s"
  by (simp_all add: upd_entry_def)

lemma set_header_sel [simp, state_simps]:
  "cacheBuf (set_header i f s) = (cacheBuf s)(i := (cacheBuf s i)\<lparr>c_header := f (hdr s i)\<rparr>)"
  "cacheSize (set_header i f s) = cacheSize s"
  "journalBuf (set_header i f s) = journalBuf s"
  "timeBuf (set_header i f s) = timeBuf s"
  "world (set_header i f s) = world s"
  "apa_state.more (set_header i f s) = apa_state.more s"
  by (simp_all add: set_header_def)

lemma mark_dirty_sel [simp, state_simps]:
  "cacheBuf (mark_dirty i s) = (cacheBuf s)(i := (cacheBuf s i)\<lparr>c_flags := c_flags (cacheBuf s i) OR APA_CACHE_FLAG_DIRTY\<rparr>)"
  "cacheSize (mark_dirty i s) = cacheSize s"
  "journalBuf (mark_dirty i s) = journalBuf s"
  "timeBuf (mark_dirty i s) = timeBuf s"
  "world (mark_dirty i s) = world s"
  "apa_state.more (mark_dirty i s) = apa_state.more s"
  by (simp_all add: mark_dirty_def)

lemma link_sel [simp, state_simps]:
  "cacheSize (apaCacheLink p c s) = cacheSize s"
  "journalBuf (apaCacheLink p c s) = journalBuf s"
  "timeBuf (apaCacheLink p c s) = timeBuf s"
  "world (apaCacheLink p c s) = world s"
  "apa_state.more (apaCacheLink p c s) = apa_state.more s"
  by (simp_all add: apaCacheLink_def Let_def)

lemma unlink_sel [simp, state_simps]:
  "cacheSize (apaCacheUnLink c s) = cacheSize s"
  "journalBuf (apaCacheUnLink c s) = journalBuf s"
  "timeBuf (apaCacheUnLink c s) = timeBuf s"
  "world (apaCacheUnLink c s) = world s"
  "apa_state.more (apaCacheUnLink c s) = apa_state.more s"
  by (simp_all add: apaCacheUnLink_def Let_def)

text \<open>Linking moves no payload.\<close>

lemma link_payload [simp, state_simps]:
  "c_flags (cacheBuf (apaCacheLink p c s) i) = c_flags (cacheBuf s i)"
  "c_nused (cacheBuf (apaCacheLink p c s) i) = c_nused (cacheBuf s i)"
  "c_device (cacheBuf (apaCacheLink p c s) i) = c_device (cacheBuf s i)"
  "c_sector (cacheBuf (apaCacheLink p c s) i) = c_sector (cacheBuf s i)"
  "c_header (cacheBuf (apaCacheLink p c s) i) = c_header (cacheBuf s i)"
  by (simp_all add: apaCacheLink_def Let_def)

lemma unlink_payload [simp, state_simps]:
  "c_flags (cacheBuf (apaCacheUnLink c s) i) = c_flags (cacheBuf s i)"
  "c_nused (cacheBuf (apaCacheUnLink c s) i) = c_nused (cacheBuf s i)"
  "c_device (cacheBuf (apaCacheUnLink c s) i) = c_device (cacheBuf s i)"
  "c_sector (cacheBuf (apaCacheUnLink c s) i) = c_sector (cacheBuf s i)"
  "c_header (cacheBuf (apaCacheUnLink c s) i) = c_header (cacheBuf s i)"
  by (simp_all add: apaCacheUnLink_def Let_def)

definition cnext :: "('d, 'z) apa_state_scheme \<Rightarrow> nat \<Rightarrow> nat" where
  "cnext s i = c_next (cacheBuf s i)"

definition ctail :: "('d, 'z) apa_state_scheme \<Rightarrow> nat \<Rightarrow> nat" where
  "ctail s i = c_tail (cacheBuf s i)"

interpretation cache_ring: node_ring 0 cnext ctail apaCacheLink apaCacheUnLink
  by unfold_locales (auto simp: fun_eq_iff cnext_def ctail_def apaCacheLink_def apaCacheUnLink_def Let_def)

lemma set_cache_entries [simp]: "set (cache_entries n) = {1..n}"
  by (auto simp: cache_entries_def)

lemma distinct_cache_entries [simp]: "distinct (cache_entries n)"
  by (simp add: cache_entries_def)

subsection \<open>The invariant\<close>

definition free_queue :: "('d, 'z) apa_state_scheme \<Rightarrow> nat list \<Rightarrow> bool" where
  "free_queue s ys \<longleftrightarrow> ring 0 (cnext s) (ctail s) ys"

definition keys_unique :: "('d, 'z) apa_state_scheme \<Rightarrow> bool" where
  "keys_unique s \<longleftrightarrow> (\<forall>i j. i \<in> {1..cacheSize s} \<longrightarrow> j \<in> {1..cacheSize s} \<longrightarrow> c_device (cacheBuf s i) \<noteq> - 1 \<longrightarrow>
     c_device (cacheBuf s i) = c_device (cacheBuf s j) \<longrightarrow> c_sector (cacheBuf s i) = c_sector (cacheBuf s j) \<longrightarrow> i = j)"

lemma keys_uniqueD:
  assumes "keys_unique s" "i \<in> {1..cacheSize s}" "j \<in> {1..cacheSize s}" "c_device (cacheBuf s i) \<noteq> - 1"
    and "c_device (cacheBuf s j) = c_device (cacheBuf s i)" "c_sector (cacheBuf s j) = c_sector (cacheBuf s i)"
  shows "j = i"
  using assms unfolding keys_unique_def by metis

definition cache_queue :: "('d, 'z) apa_state_scheme \<Rightarrow> nat list \<Rightarrow> bool" where
  "cache_queue s ys \<longleftrightarrow> free_queue s ys \<and> set ys = {i \<in> {1..cacheSize s}. c_nused (cacheBuf s i) = 0}
     \<and> (\<forall>i \<in> {1..cacheSize s}. wf_header (hdr s i)) \<and> keys_unique s"

definition cache_inv :: "('d, 'z) apa_state_scheme \<Rightarrow> bool" where
  "cache_inv s \<longleftrightarrow> (\<exists>ys. cache_queue s ys)"

lemma free_queue_cong:
  assumes "\<And>i. c_next (cacheBuf s i) = c_next (cacheBuf t i)" "\<And>i. c_tail (cacheBuf s i) = c_tail (cacheBuf t i)"
  shows "free_queue s ys = free_queue t ys"
proof -
  have "cnext s = cnext t" "ctail s = ctail t" using assms by (auto simp: cnext_def ctail_def fun_eq_iff)
  then show ?thesis by (simp add: free_queue_def)
qed

lemma free_queue_upd:
  assumes "\<And>c. c_next (f c) = c_next c" "\<And>c. c_tail (f c) = c_tail c"
  shows "free_queue (upd_entry i f s) ys = free_queue s ys"
  by (rule free_queue_cong) (auto simp: assms)

lemma free_queue_unlink:
  assumes "free_queue s ys" "i \<in> set ys"
  shows "free_queue (apaCacheUnLink i s) (remove1 i ys)"
  using cache_ring.unlink_mem assms by (auto simp: free_queue_def)

lemma free_queue_link_tail:
  assumes "free_queue s ys" "i \<noteq> 0" "i \<notin> set ys"
  shows "free_queue (apaCacheLink (c_tail (cacheBuf s 0)) i s) (ys @ [i])"
  using cache_ring.link_tail [of s ys i] assms by (auto simp: free_queue_def ctail_def)

lemma free_queue_link_head:
  assumes "free_queue s ys" "i \<noteq> 0" "i \<notin> set ys"
  shows "free_queue (apaCacheLink 0 i s) (i # ys)"
  using cache_ring.link_head [of s ys i] assms by (auto simp: free_queue_def)

lemma free_queue_empty: "free_queue s ys \<Longrightarrow> free_list_empty s \<longleftrightarrow> ys = []"
  using cache_ring.ring_empty [of s ys] cache_ring.ring_first [of s ys]
  by (auto simp: free_queue_def free_list_empty_def ctail_def cnext_def)

lemma free_queue_first: "free_queue s (y # ys) \<Longrightarrow> c_next (cacheBuf s 0) = y"
  using cache_ring.ring_first [of s "y # ys"] by (auto simp: free_queue_def cnext_def)

lemma free_queue_distinct: "free_queue s ys \<Longrightarrow> distinct ys \<and> 0 \<notin> set ys"
  by (auto simp: free_queue_def ring_def)

lemma free_queue_unique: "free_queue s xs \<Longrightarrow> free_queue s ys \<Longrightarrow> xs = ys"
  unfolding free_queue_def by (rule ring_unique)

text \<open>The invariant looks at the cache alone.\<close>

lemma cache_queue_cong:
  assumes "cacheBuf s = cacheBuf t" "cacheSize s = cacheSize t"
  shows "cache_queue s ys = cache_queue t ys"
proof -
  have "free_queue s ys = free_queue t ys" by (rule free_queue_cong) (simp_all add: assms)
  then show ?thesis by (simp add: cache_queue_def keys_unique_def assms)
qed

lemma cache_inv_world [simp]: "cache_inv (s\<lparr>world := w\<rparr>) = cache_inv s"
  unfolding cache_inv_def by (rule arg_cong [of _ _ Ex], rule ext, rule cache_queue_cong) simp_all

lemma cache_inv_journal [simp]: "cache_inv (s\<lparr>journalBuf := w\<rparr>) = cache_inv s"
  unfolding cache_inv_def by (rule arg_cong [of _ _ Ex], rule ext, rule cache_queue_cong) simp_all

text \<open>Changing a header or its flags.\<close>

lemma cache_queue_upd_payload:
  assumes "cache_queue s ys"
    and "\<And>c. c_next (f c) = c_next c" "\<And>c. c_tail (f c) = c_tail c" "\<And>c. c_nused (f c) = c_nused c"
      "\<And>c. c_device (f c) = c_device c" "\<And>c. c_sector (f c) = c_sector c"
    and "wf_header (hdr s i) \<Longrightarrow> wf_header (c_header (f (cacheBuf s i)))"
  shows "cache_queue (upd_entry i f s) ys"
proof -
  define t where "t = upd_entry i f s"
  have e: "c_nused (cacheBuf t j) = c_nused (cacheBuf s j)" "c_device (cacheBuf t j) = c_device (cacheBuf s j)"
    "c_sector (cacheBuf t j) = c_sector (cacheBuf s j)" "wf_header (hdr s j) \<Longrightarrow> wf_header (hdr t j)" for j
    by (auto simp: t_def assms(4-7))
  have z: "cacheSize t = cacheSize s" and q: "free_queue t ys = free_queue s ys"
    by (simp_all add: t_def free_queue_upd assms(2,3))
  show ?thesis using assms(1) e(4) unfolding t_def [symmetric] cache_queue_def keys_unique_def z q e(1-3) by blast
qed


subsection \<open>What the transfers change\<close>

lemma wf_overlay: "wf_header h \<Longrightarrow> wf_header (header_of_words (overlay ws (header_words h)))"
  by (simp add: wf_header_of_words length_header_words)

lemma read_header_sel:
  assumes "apaReadHeader E dev h lba s = (r, h', t)"
  shows "(\<exists>w. t = s\<lparr>world := w\<rparr>) \<and> (wf_header h \<longrightarrow> wf_header h')"
  using assms by (auto simp: apaReadHeader_def Let_def wf_overlay split: prod.splits if_splits)

lemma write_header_sel: "apaWriteHeader E dev h lba s = (r, t) \<Longrightarrow> \<exists>w. t = s\<lparr>world := w\<rparr>"
  by (auto simp: apaWriteHeader_def split: prod.splits)

lemma save_error_sel:
  assumes "apaSaveError E dev h lba err s = (h', t)"
  shows "(\<exists>w. t = s\<lparr>world := w\<rparr>) \<and> (wf_header h \<longrightarrow> wf_header h')"
  using assms by (auto simp: apaSaveError_def Let_def wf_overlay split: prod.splits)

text \<open>A transfer changes the header and the flags of its entry, and the disk.\<close>

lemma transfer_shape:
  obtains e h w where "apaCacheTransfer E i ty s =
      (e, upd_entry i (\<lambda>c. c\<lparr>c_header := h, c_flags := c_flags c AND NOT APA_CACHE_FLAG_DIRTY\<rparr>) (s\<lparr>world := w\<rparr>))"
    and "wf_header (hdr s i) \<longrightarrow> wf_header h"
proof (cases "ty = 0")
  case False
  obtain e t where wr: "apaWriteHeader E (c_device (cacheBuf s i)) (hdr s i) (c_sector (cacheBuf s i)) s = (e, t)"
    by fastforce
  then obtain w where "t = s\<lparr>world := w\<rparr>" using write_header_sel by blast
  then show ?thesis using that [of e "hdr s i" w] False wr
    by (simp add: apaCacheTransfer_def Let_def upd_entry_def)
next
  case True
  obtain e h t where rd: "apaReadHeader E (c_device (cacheBuf s i)) (hdr s i) (c_sector (cacheBuf s i)) s = (e, h, t)"
    by (metis prod_cases3)
  then obtain w where t: "t = s\<lparr>world := w\<rparr>" and wf: "wf_header (hdr s i) \<longrightarrow> wf_header h" using read_header_sel by blast
  obtain h' t' where sv: "apaSaveError E (c_device (cacheBuf s i)) h APA_SECTOR_SECTOR_ERROR (c_sector (cacheBuf s i))
      (set_header i (\<lambda>_. h) t) = (h', t')" by fastforce
  then obtain w' where t': "t' = (set_header i (\<lambda>_. h) t)\<lparr>world := w'\<rparr>" and wf': "wf_header h \<longrightarrow> wf_header h'"
    using save_error_sel by blast
  show ?thesis
    using that [of e h w] that [of e h' w'] True rd sv wf wf'
    by (cases "e = 0") (simp_all add: apaCacheTransfer_def Let_def t t' upd_entry_def set_header_def)
qed

lemma transfer_size [simp]: "cacheSize (snd (apaCacheTransfer E i ty s)) = cacheSize s"
  by (rule transfer_shape [of E i ty s]) simp

subsection \<open>Every operation keeps the invariant\<close>

text \<open>One entry changes and the free queue follows its use count.\<close>

lemma cache_queue_change:
  assumes inv: "cache_queue s ys" and q: "free_queue t zs" and n: "cacheSize t = cacheSize s" "i \<in> {1..cacheSize s}"
    and zs: "set zs = (if c_nused (cacheBuf t i) = 0 then insert i (set ys) else set ys - {i})"
    and same: "\<And>j. j \<noteq> i \<Longrightarrow> c_nused (cacheBuf t j) = c_nused (cacheBuf s j) \<and> c_device (cacheBuf t j) = c_device (cacheBuf s j)
       \<and> c_sector (cacheBuf t j) = c_sector (cacheBuf s j) \<and> hdr t j = hdr s j"
    and wf: "wf_header (hdr t i)"
    and key: "c_device (cacheBuf t i) = - 1 \<or> (\<forall>j \<in> {1..cacheSize s}. j \<noteq> i \<longrightarrow>
       c_device (cacheBuf s j) = c_device (cacheBuf t i) \<longrightarrow> c_sector (cacheBuf s j) \<noteq> c_sector (cacheBuf t i))"
  shows "cache_queue t zs"
proof -
  have "set zs = {j \<in> {1..cacheSize t}. c_nused (cacheBuf t j) = 0}"
  proof (rule set_eqI)
    fix j show "j \<in> set zs \<longleftrightarrow> j \<in> {j \<in> {1..cacheSize t}. c_nused (cacheBuf t j) = 0}"
      using inv same [of j] n zs by (cases "j = i") (auto simp: cache_queue_def)
  qed
  moreover have "wf_header (hdr t j)" if "j \<in> {1..cacheSize t}" for j
    using inv same [of j] n wf that by (cases "j = i") (auto simp: cache_queue_def)
  moreover have "keys_unique t"
    unfolding keys_unique_def
  proof (intro allI impI)
    fix j k
    assume *: "j \<in> {1..cacheSize t}" "k \<in> {1..cacheSize t}" "c_device (cacheBuf t j) \<noteq> - 1"
      "c_device (cacheBuf t j) = c_device (cacheBuf t k)" "c_sector (cacheBuf t j) = c_sector (cacheBuf t k)"
    have uniq: "keys_unique s" using inv by (simp add: cache_queue_def)
    consider "j = i" "k = i" | "j = i" "k \<noteq> i" | "j \<noteq> i" "k = i" | "j \<noteq> i" "k \<noteq> i" by blast
    then show "j = k"
    proof cases
      case 1 then show ?thesis by simp
    next
      case 2 then show ?thesis using key * same [of k] n by auto
    next
      case 3 then show ?thesis using key * same [of j] n by auto
    next
      case 4 then show ?thesis using keys_uniqueD [OF uniq, of k j] * same [of j] same [of k] n(1) by auto
    qed
  qed
  ultimately show ?thesis using q by (simp add: cache_queue_def)
qed

lemma cache_queue_distinct: "cache_queue s ys \<Longrightarrow> distinct ys"
  using free_queue_distinct by (auto simp: cache_queue_def)

lemma cache_queue_entry: "cache_queue s ys \<Longrightarrow> i \<in> set ys \<longleftrightarrow> i \<in> {1..cacheSize s} \<and> c_nused (cacheBuf s i) = 0"
  by (auto simp: cache_queue_def)

lemma cache_queue_key:
  assumes "cache_queue s ys" "i \<in> {1..cacheSize s}"
  shows "c_device (cacheBuf s i) = - 1 \<or> (\<forall>j \<in> {1..cacheSize s}. j \<noteq> i \<longrightarrow>
       c_device (cacheBuf s j) = c_device (cacheBuf s i) \<longrightarrow> c_sector (cacheBuf s j) \<noteq> c_sector (cacheBuf s i))"
proof (cases "c_device (cacheBuf s i) = - 1")
  case False
  have "keys_unique s" using assms(1) by (simp add: cache_queue_def)
  then show ?thesis using keys_uniqueD [of s i] assms(2) False by blast
qed simp

lemma cache_lookup_Some:
  "cache_lookup d x s = Some i \<Longrightarrow> i \<in> {1..cacheSize s} \<and> c_device (cacheBuf s i) = d \<and> c_sector (cacheBuf s i) = x"
  unfolding cache_lookup_def by (drule find_SomeD) auto

lemma cache_lookup_None:
  "cache_lookup d x s = None \<Longrightarrow> i \<in> {1..cacheSize s} \<Longrightarrow> c_device (cacheBuf s i) = d \<Longrightarrow> c_sector (cacheBuf s i) \<noteq> x"
  unfolding cache_lookup_def by (drule find_NoneD [of _ _ i]) auto

lemma cache_lookup_unique:
  assumes "cache_queue s ys" "i \<in> {1..cacheSize s}" "c_device (cacheBuf s i) = d" "c_sector (cacheBuf s i) = x" "d \<noteq> - 1"
  shows "cache_lookup d x s = Some i"
proof (cases "cache_lookup d x s")
  case None
  then show ?thesis using cache_lookup_None assms by blast
next
  case (Some j)
  then have "j = i" using cache_lookup_Some [OF Some] assms keys_uniqueD [of s i j] by (auto simp: cache_queue_def)
  then show ?thesis using Some by simp
qed

text \<open>\<open>apaCacheGetHeader\<close>, branch by branch.\<close>

lemma get_hit:
  assumes inv: "cache_queue s ys" and hit: "cache_lookup d x s = Some i" and n: "c_nused (cacheBuf s i) \<noteq> - 1"
  shows "\<exists>t. apaCacheGetHeader E d x m s = ((Some i, 0), t) \<and> cache_queue t (remove1 i ys) \<and> world t = world s
     \<and> hdr t i = hdr s i \<and> c_nused (cacheBuf t i) = c_nused (cacheBuf s i) + 1"
proof -
  have i: "i \<in> {1..cacheSize s}" using cache_lookup_Some [OF hit] by blast
  define u where "u = (if c_nused (cacheBuf s i) = 0 then apaCacheUnLink i s else s)"
  define t where "t = upd_entry i (\<lambda>c. c\<lparr>c_nused := c_nused c + 1\<rparr>) u"
  have q: "free_queue t (remove1 i ys)"
  proof (cases "c_nused (cacheBuf s i) = 0")
    case True
    then show ?thesis using inv i
      by (simp add: t_def u_def free_queue_upd free_queue_unlink cache_queue_entry [OF inv]) (simp add: cache_queue_def free_queue_unlink)
  next
    case False
    then have "i \<notin> set ys" using cache_queue_entry [OF inv] by blast
    then show ?thesis using False inv by (simp add: t_def u_def free_queue_upd remove1_idem cache_queue_def)
  qed
  have nz: "c_nused (cacheBuf t i) = c_nused (cacheBuf s i) + 1" by (simp add: t_def u_def)
  moreover have "c_nused (cacheBuf s i) + 1 \<noteq> 0" using n by (metis add_eq_0_iff2)
  moreover have "cache_queue t (remove1 i ys)"
  proof (rule cache_queue_change [OF inv q _ i])
    show "cacheSize t = cacheSize s" by (simp add: t_def u_def)
    show "set (remove1 i ys) = (if c_nused (cacheBuf t i) = 0 then insert i (set ys) else set ys - {i})"
      using cache_queue_distinct [OF inv] calculation by simp
    show "wf_header (hdr t i)" using inv i by (simp add: t_def u_def cache_queue_def)
  qed (use cache_queue_key [OF inv i] in \<open>simp_all add: t_def u_def\<close>)
  ultimately show ?thesis using hit by (simp add: apaCacheGetHeader_def Let_def t_def u_def)
qed


text \<open>The first free entry is taken for another key.\<close>

lemma take_entry:
  assumes inv: "cache_queue s (i # ys)" and n: "c_nused (f (cacheBuf s i)) \<noteq> 0"
    and f: "\<And>c. c_next (f c) = c_next c" "\<And>c. c_tail (f c) = c_tail c" "\<And>c. c_header (f c) = c_header c"
    and key: "c_device (f (cacheBuf s i)) = - 1 \<or> (\<forall>j \<in> {1..cacheSize s}. j \<noteq> i \<longrightarrow>
       c_device (cacheBuf s j) = c_device (f (cacheBuf s i)) \<longrightarrow> c_sector (cacheBuf s j) \<noteq> c_sector (f (cacheBuf s i)))"
  shows "cache_queue (apaCacheUnLink i (upd_entry i f s)) ys"
proof -
  have i: "i \<in> {1..cacheSize s}" using cache_queue_entry [OF inv, of i] by simp
  have fq: "free_queue s (i # ys)" using inv by (simp add: cache_queue_def)
  show ?thesis
  proof (rule cache_queue_change [OF inv _ _ i])
    show "free_queue (apaCacheUnLink i (upd_entry i f s)) ys"
      using free_queue_unlink [of "upd_entry i f s" "i # ys" i] fq by (simp add: free_queue_upd f(1,2))
    show "set ys = (if c_nused (cacheBuf (apaCacheUnLink i (upd_entry i f s)) i) = 0
       then insert i (set (i # ys)) else set (i # ys) - {i})"
      using free_queue_distinct [OF fq] n by simp
    show "wf_header (hdr (apaCacheUnLink i (upd_entry i f s)) i)" using inv i by (simp add: f cache_queue_def)
  qed (use key in simp_all)
qed

text \<open>An entry in use goes back to the queue.\<close>

lemma return_entry:
  assumes inv: "cache_queue s ys" and i: "i \<in> {1..cacheSize s}" and used: "c_nused (cacheBuf s i) \<noteq> 0"
    and n: "c_nused (f (cacheBuf s i)) = 0"
    and f: "\<And>c. c_next (f c) = c_next c" "\<And>c. c_tail (f c) = c_tail c" "\<And>c. c_header (f c) = c_header c"
    and key: "c_device (f (cacheBuf s i)) = - 1 \<or> c_device (f (cacheBuf s i)) = c_device (cacheBuf s i) \<and>
       c_sector (f (cacheBuf s i)) = c_sector (cacheBuf s i)"
  defines "u \<equiv> upd_entry i f s"
  shows "cache_queue (apaCacheLink (c_tail (cacheBuf u 0)) i u) (ys @ [i])" (is ?tail)
    and "cache_queue (apaCacheLink 0 i u) (i # ys)" (is ?head)
proof -
  have iy: "i \<noteq> 0" "i \<notin> set ys" using i used cache_queue_entry [OF inv, of i] by auto
  have fq: "free_queue u ys" using inv by (simp add: u_def free_queue_upd f(1,2) cache_queue_def)
  have wf: "wf_header (hdr s i)" using inv i by (simp add: cache_queue_def)
  have k: "c_device (f (cacheBuf s i)) = - 1 \<or> (\<forall>j \<in> {1..cacheSize s}. j \<noteq> i \<longrightarrow>
       c_device (cacheBuf s j) = c_device (f (cacheBuf s i)) \<longrightarrow> c_sector (cacheBuf s j) \<noteq> c_sector (f (cacheBuf s i)))"
    using key cache_queue_key [OF inv i] by auto
  show ?tail
    by (rule cache_queue_change [OF inv free_queue_link_tail [OF fq iy] _ i])
      (use n wf k f in \<open>simp_all add: u_def\<close>)
  show ?head
    by (rule cache_queue_change [OF inv free_queue_link_head [OF fq iy] _ i])
      (use n wf k f in \<open>simp_all add: u_def\<close>)
qed

lemma transfer_queue:
  assumes "cache_queue s ys" "i \<in> {1..cacheSize s}"
  shows "cache_queue (snd (apaCacheTransfer E i ty s)) ys"
proof -
  have wf: "wf_header (hdr s i)" using assms by (simp add: cache_queue_def)
  obtain e h w where eq: "apaCacheTransfer E i ty s =
      (e, upd_entry i (\<lambda>c. c\<lparr>c_header := h, c_flags := c_flags c AND NOT APA_CACHE_FLAG_DIRTY\<rparr>) (s\<lparr>world := w\<rparr>))"
    and h: "wf_header (hdr s i) \<longrightarrow> wf_header h" by (rule transfer_shape)
  have "cache_queue (s\<lparr>world := w\<rparr>) ys" using assms(1) cache_queue_cong [of "s\<lparr>world := w\<rparr>" s] by simp
  then show ?thesis unfolding eq snd_conv by (rule cache_queue_upd_payload) (simp_all add: h wf)
qed

lemma get_full:
  assumes "cache_queue s []" "cache_lookup d x s = None"
  shows "apaCacheGetHeader E d x m s = ((None, - ENOMEM), s)"
  using assms free_queue_empty [of s "[]"] by (simp add: apaCacheGetHeader_def cache_queue_def)

text \<open>\<open>claim d x i\<close>: the state in which \<open>apaCacheGetHeader\<close> has taken entry \<open>i\<close>.\<close>

definition claim_entry :: "s32 \<Rightarrow> u32 \<Rightarrow> nat \<Rightarrow> ('d, 'z) apa_state_scheme \<Rightarrow> ('d, 'z) apa_state_scheme" where
  "claim_entry d x i s =
     apaCacheUnLink i (upd_entry i (\<lambda>c. c\<lparr>c_flags := 0, c_nused := 1, c_device := d, c_sector := x\<rparr>) s)"

lemma claim_entry_sel [simp, state_simps]:
  "cacheSize (claim_entry d x i s) = cacheSize s"
  "world (claim_entry d x i s) = world s"
  "hdr (claim_entry d x i s) j = hdr s j"
  "c_nused (cacheBuf (claim_entry d x i s) j) = (if j = i then 1 else c_nused (cacheBuf s j))"
  "c_device (cacheBuf (claim_entry d x i s) j) = (if j = i then d else c_device (cacheBuf s j))"
  "c_sector (cacheBuf (claim_entry d x i s) j) = (if j = i then x else c_sector (cacheBuf s j))"
  "c_flags (cacheBuf (claim_entry d x i s) j) = (if j = i then 0 else c_flags (cacheBuf s j))"
  by (simp_all add: claim_entry_def)

lemma claim_queue:
  assumes "cache_queue s (i # ys)" "cache_lookup d x s = None"
  shows "cache_queue (claim_entry d x i s) ys"
  unfolding claim_entry_def
  by (rule take_entry [OF assms(1)]) (use cache_lookup_None [OF assms(2)] in auto)

lemma get_miss:
  assumes "cache_queue s (i # ys)" "cache_lookup d x s = None"
  shows "apaCacheGetHeader E d x m s =
     (if m = 0 then let (r, t) = apaCacheTransfer E i 0 (claim_entry d x i s) in
        if r < 0 then ((None, r), apaCacheLink 0 i (upd_entry i (\<lambda>c. c\<lparr>c_nused := 0, c_device := - 1\<rparr>) t))
        else ((Some i, r), t)
      else ((Some i, 0), claim_entry d x i s))"
proof -
  have q: "free_queue s (i # ys)" using assms(1) by (simp add: cache_queue_def)
  show ?thesis using assms(2) free_queue_empty [OF q] free_queue_first [OF q]
    by (simp add: apaCacheGetHeader_def claim_entry_def Let_def)
qed

lemma get_miss_queue:
  assumes "cache_queue s (i # ys)" "cache_lookup d x s = None" "apaCacheGetHeader E d x m s = ((c, r), t)"
  shows "cache_queue t (if c = None then i # ys else ys) \<and> cacheSize t = cacheSize s \<and> (c = None \<or> c = Some i)"
proof (cases "m = 0")
  case False
  then show ?thesis using assms(3) claim_queue [OF assms(1,2)] by (auto simp: get_miss [OF assms(1,2)])
next
  case True
  let ?u = "claim_entry d x i s"
  have q: "cache_queue ?u ys" by (rule claim_queue [OF assms(1,2)])
  have i: "i \<in> {1..cacheSize ?u}" using cache_queue_entry [OF assms(1), of i] by simp
  have wf: "wf_header (hdr ?u i)" using q i by (simp add: cache_queue_def)
  obtain e h w where eq: "apaCacheTransfer E i 0 ?u =
      (e, upd_entry i (\<lambda>c. c\<lparr>c_header := h, c_flags := c_flags c AND NOT APA_CACHE_FLAG_DIRTY\<rparr>) (?u\<lparr>world := w\<rparr>))"
    (is "_ = (_, ?t)") by (rule transfer_shape)
  have qt: "cache_queue ?t ys" using transfer_queue [OF q i, of E 0] by (simp add: eq)
  have "cache_queue (apaCacheLink 0 i (upd_entry i (\<lambda>c. c\<lparr>c_nused := 0, c_device := - 1\<rparr>) ?t)) (i # ys)"
    by (rule return_entry(2) [OF qt]) (use i in simp_all)
  then show ?thesis using assms(3) True qt
    by (auto simp: get_miss [OF assms(1,2)] eq split: if_splits)
qed


lemma free_used:
  assumes inv: "cache_queue s ys" and i: "i \<in> {1..cacheSize s}" and n: "c_nused (cacheBuf s i) \<noteq> 0"
  shows "cache_queue (apaCacheFree (Some i) s) (if c_nused (cacheBuf s i) = 1 then ys @ [i] else ys)"
proof (cases "c_nused (cacheBuf s i) = 1")
  case True
  then show ?thesis
    using return_entry(1) [OF inv i n, of "\<lambda>c. c\<lparr>c_nused := c_nused c - 1\<rparr>"] n
    by (simp add: apaCacheFree_def Let_def)
next
  case False
  let ?t = "upd_entry i (\<lambda>c. c\<lparr>c_nused := c_nused c - 1\<rparr>) s"
  have nz: "c_nused (cacheBuf s i) - 1 \<noteq> 0" using False by simp
  have iy: "i \<notin> set ys" using cache_queue_entry [OF inv, of i] n by blast
  have "cache_queue ?t ys"
  proof (rule cache_queue_change [OF inv _ _ i])
    show "free_queue ?t ys" using inv by (simp add: free_queue_upd cache_queue_def)
    show "set ys = (if c_nused (cacheBuf ?t i) = 0 then insert i (set ys) else set ys - {i})" using nz iy by simp
    show "wf_header (hdr ?t i)" using inv i by (simp add: cache_queue_def)
  qed (use cache_queue_key [OF inv i] in simp_all)
  then show ?thesis using False n nz by (simp add: apaCacheFree_def Let_def)
qed

lemma free_noop: "c = None \<or> (\<exists>i. c = Some i \<and> c_nused (cacheBuf s i) = 0) \<Longrightarrow> apaCacheFree c s = s"
  by (auto simp: apaCacheFree_def)

lemma alloc_queue:
  assumes "cache_queue s ys"
  shows "case ys of [] \<Rightarrow> apaCacheAlloc s = (None, s)
    | i # zs \<Rightarrow> \<exists>t. apaCacheAlloc s = (Some i, t) \<and> cache_queue t zs \<and> cacheSize t = cacheSize s \<and> world t = world s
        \<and> journalBuf t = journalBuf s \<and> c_nused (cacheBuf t i) = 1"
proof -
  have q: "free_queue s ys" using assms by (simp add: cache_queue_def)
  show ?thesis
  proof (cases ys)
    case Nil
    then show ?thesis using free_queue_empty [OF q] by (simp add: apaCacheAlloc_def)
  next
    case (Cons i zs)
    let ?f = "\<lambda>c. c\<lparr>c_nused := 1, c_flags := 0, c_device := - 1, c_sector := - 1\<rparr>"
    have "cache_queue (apaCacheUnLink i (upd_entry i ?f s)) zs"
      by (rule take_entry) (use assms Cons in auto)
    moreover have "free_list_empty s = False" "c_next (cacheBuf s 0) = i"
      using free_queue_empty [OF q] free_queue_first q Cons by auto
    ultimately show ?thesis using Cons by (simp add: apaCacheAlloc_def Let_def)
  qed
qed

lemma edit_queue:
  assumes "cache_queue s ys" "wf_header (f (hdr s i))"
  shows "cache_queue (set_header i f s) ys"
  unfolding set_header_def by (rule cache_queue_upd_payload) (use assms in simp_all)

lemma mark_dirty_queue: "cache_queue s ys \<Longrightarrow> cache_queue (mark_dirty i s) ys"
  unfolding mark_dirty_def by (rule cache_queue_upd_payload) simp_all

subsection \<open>The journal keeps the cache\<close>

lemma wf_checksum_update [simp]: "wf_header (h\<lparr>h_checksum := v\<rparr>) = wf_header h"
  by (simp add: wf_header_def)

lemma journal_write_sel:
  assumes "apaJournalWrite E i s = Some (r, t)"
  shows "cacheBuf t = cacheBuf (set_header i (\<lambda>h. h\<lparr>h_checksum := apaCheckSum h\<rparr>) s)" "cacheSize t = cacheSize s"
    "timeBuf t = timeBuf s" "apa_state.more t = apa_state.more s"
  using assms by (auto simp: apaJournalWrite_def Let_def split: prod.splits if_splits)

lemma journal_flush_shape: "\<exists>w. snd (apaJournalFlush E d s) = s\<lparr>world := w\<rparr>"
  by (auto simp: apaJournalFlush_def Let_def split: prod.splits)

lemma journal_reset_shape: "\<exists>w. snd (apaJournalReset E d s) = s\<lparr>journalBuf := empty_journal, world := w\<rparr>"
  using journal_flush_shape [of E d "s\<lparr>journalBuf := empty_journal\<rparr>"] by (auto simp: apaJournalReset_def)

lemma cache_queue_outside [simp]:
  "cache_queue (s\<lparr>journalBuf := j\<rparr>) ys = cache_queue s ys" "cache_queue (s\<lparr>world := w\<rparr>) ys = cache_queue s ys"
  by (rule cache_queue_cong; simp)+

lemma journal_write_queue:
  assumes "cache_queue s ys" "i \<in> {1..cacheSize s}" "apaJournalWrite E i s = Some (r, t)"
  shows "cache_queue t ys \<and> cacheSize t = cacheSize s"
proof -
  have "wf_header (hdr s i)" using assms(1,2) by (simp add: cache_queue_def)
  then have "cache_queue (set_header i (\<lambda>h. h\<lparr>h_checksum := apaCheckSum h\<rparr>) s) ys"
    using assms(1) by (simp add: edit_queue)
  then show ?thesis using cache_queue_cong [OF journal_write_sel(1) [OF assms(3)]] journal_write_sel(2) [OF assms(3)] by simp
qed

lemma flush_dirty_queue:
  assumes "cache_queue s ys" "i \<in> {1..cacheSize s}"
  shows "cache_queue (apaCacheFlushDirty E i s) ys"
  using transfer_queue [OF assms] assms by (simp add: apaCacheFlushDirty_def)

lemma journal_dirty_queue:
  assumes "cache_queue s ys" "i \<in> {1..cacheSize s}" "journal_dirty E d i s = Some t"
  shows "cache_queue t ys \<and> cacheSize t = cacheSize s"
  using assms by (auto simp: journal_dirty_def dest: journal_write_queue split: if_splits)

lemma write_dirty_queue:
  assumes "cache_queue s ys" "i \<in> {1..cacheSize s}"
  shows "cache_queue (write_dirty E d i s) ys \<and> cacheSize (write_dirty E d i s) = cacheSize s"
  using assms by (simp add: write_dirty_def transfer_queue)

lemma flush_all_queue:
  assumes "cache_queue s ys" "apaCacheFlushAllDirty E d s = Some (r, t)"
  shows "cache_queue t ys \<and> cacheSize t = cacheSize s"
proof -
  let ?P = "\<lambda>u. cache_queue u ys \<and> cacheSize u = cacheSize s"
  obtain s1 where s1: "ofold (journal_dirty E d) (cache_entries (cacheSize s)) s = Some s1"
    and t: "(r, t) = apaJournalReset E d (fold (write_dirty E d) (cache_entries (cacheSize s)) (snd (apaJournalFlush E d s1)))"
    using assms(2) by (auto simp: apaCacheFlushAllDirty_def Let_def)
  have "?P s1"
    by (rule ofold_invariant [OF s1]) (use assms(1) in \<open>auto dest!: journal_dirty_queue [rotated 2]\<close>)
  moreover obtain w where "snd (apaJournalFlush E d s1) = s1\<lparr>world := w\<rparr>" using journal_flush_shape [of E d s1] by blast
  ultimately have "?P (snd (apaJournalFlush E d s1))" by (simp add: cache_queue_outside)
  let ?u = "fold (write_dirty E d) (cache_entries (cacheSize s)) (snd (apaJournalFlush E d s1))"
  have "?P ?u" using \<open>?P (snd (apaJournalFlush E d s1))\<close>
    by (rule fold_invariant) (auto simp: write_dirty_queue)
  moreover obtain w' where "t = ?u\<lparr>journalBuf := empty_journal, world := w'\<rparr>"
    using journal_reset_shape [of E d ?u] t by (metis snd_conv)
  ultimately show ?thesis by (simp add: cache_queue_outside)
qed


subsection \<open>Initialisation\<close>

lemma init_entry_sel:
  "cacheSize (init_entry i s) = cacheSize s" "world (init_entry i s) = world s"
  "journalBuf (init_entry i s) = journalBuf s"
  "c_nused (cacheBuf (init_entry i s) j) = c_nused (cacheBuf s j)"
  "hdr (init_entry i s) j = hdr s j"
  "c_device (cacheBuf (init_entry i s) j) = (if j = i then - 1 else c_device (cacheBuf s j))"
  by (simp_all add: init_entry_def Let_def)

lemma cache_entries_Suc: "cache_entries (Suc n) = cache_entries n @ [Suc n]"
  by (simp add: cache_entries_def)

lemma init_entries:
  assumes "free_queue s []"
  defines "t n \<equiv> fold init_entry (cache_entries n) s"
  shows "free_queue (t n) (cache_entries n) \<and> cacheSize (t n) = cacheSize s \<and> world (t n) = world s
     \<and> (\<forall>j. c_nused (cacheBuf (t n) j) = c_nused (cacheBuf s j) \<and> hdr (t n) j = hdr s j)
     \<and> (\<forall>j \<in> {1..n}. c_device (cacheBuf (t n) j) = - 1)"
proof (induction n)
  case 0
  then show ?case using assms by (simp add: t_def cache_entries_def)
next
  case (Suc n)
  have t: "t (Suc n) = init_entry (Suc n) (t n)" by (simp add: t_def cache_entries_Suc)
  let ?u = "upd_entry (Suc n) (\<lambda>c. c\<lparr>c_device := - 1\<rparr>) (t n)"
  have "free_queue ?u (cache_entries n)" using Suc.IH by (simp add: free_queue_upd)
  then have "free_queue (t (Suc n)) (cache_entries (Suc n))"
    unfolding t init_entry_def Let_def cache_entries_Suc by (rule free_queue_link_tail) simp_all
  moreover have "{1..Suc n} = insert (Suc n) {1..n}" by auto
  ultimately show ?case using Suc.IH by (simp add: t init_entry_sel)
qed

lemma init_queue:
  assumes "\<And>i. wf_header (mem i)"
  obtains t where "apaCacheInit sz True True mem s = (0, t)" "cache_queue t (cache_entries sz)" "cacheSize t = sz"
    "world t = world s" "\<And>i. i \<in> {1..sz} \<Longrightarrow> c_device (cacheBuf t i) = - 1"
proof -
  define u where "u = upd_entry 0 (c_tail_update (\<lambda>_. 0)) (upd_entry 0 (c_next_update (\<lambda>_. 0))
     (s\<lparr>cacheSize := sz, cacheBuf := (\<lambda>i. zero_entry (mem i))\<rparr>))"
  have q: "free_queue u []"
    by (simp add: u_def free_queue_def ring_def cnext_def ctail_def zero_entry_def)
  let ?t = "fold init_entry (cache_entries sz) u"
  have u: "cacheSize u = sz" "world u = world s" "c_nused (cacheBuf u j) = 0" "hdr u j = mem j" for j
    by (simp_all add: u_def zero_entry_def)
  note f = init_entries [OF q, of sz]
  have "keys_unique ?t" using f u by (auto simp: keys_unique_def)
  then have "cache_queue ?t (cache_entries sz)" using f u assms by (auto simp: cache_queue_def)
  moreover have "apaCacheInit sz True True mem s = (0, ?t)" by (simp add: apaCacheInit_def u_def)
  ultimately show ?thesis using that [of ?t] f u by auto
qed

subsection \<open>Runs of the cache\<close>

text \<open>
  A step is one call of the cache's interface, or a client's store into the header of an
  entry. The guards are the calling convention: a device is not \<open>-1\<close>, the use count
  of an entry does not wrap, entries are those of the table.
\<close>

inductive cache_step :: "'d ata_env \<Rightarrow> ('d, 'z) apa_state_scheme \<Rightarrow> ('d, 'z) apa_state_scheme \<Rightarrow> bool" for E where
  get: "apaCacheGetHeader E d x m s = (r, t) \<Longrightarrow> d \<noteq> - 1 \<Longrightarrow>
     (\<And>i. i \<in> {1..cacheSize s} \<Longrightarrow> c_nused (cacheBuf s i) \<noteq> - 1) \<Longrightarrow> cache_step E s t"
| alloc: "apaCacheAlloc s = (r, t) \<Longrightarrow> cache_step E s t"
| free: "i \<in> {1..cacheSize s} \<Longrightarrow> cache_step E s (apaCacheFree (Some i) s)"
| store: "i \<in> {1..cacheSize s} \<Longrightarrow> wf_header h \<Longrightarrow> cache_step E s (mark_dirty i (set_header i (\<lambda>_. h) s))"
| flush: "i \<in> {1..cacheSize s} \<Longrightarrow> cache_step E s (apaCacheFlushDirty E i s)"
| flush_all: "apaCacheFlushAllDirty E d s = Some (r, t) \<Longrightarrow> cache_step E s t"

lemma cache_step_inv:
  assumes "cache_step E s t" "cache_inv s"
  shows "cache_inv t \<and> cacheSize t = cacheSize s"
proof -
  obtain ys where q: "cache_queue s ys" using assms(2) by (auto simp: cache_inv_def)
  have "\<exists>zs. cache_queue t zs \<and> cacheSize t = cacheSize s"
    using assms(1)
  proof cases
    case (get d x m r)
    show ?thesis
    proof (cases "cache_lookup d x s")
      case (Some i)
      have i: "i \<in> {1..cacheSize s}" using cache_lookup_Some [OF Some] by blast
      have "cacheSize t = cacheSize s" using get(1) Some by (auto simp: apaCacheGetHeader_def Let_def split: if_splits)
      moreover have "cache_queue t (remove1 i ys)" using get_hit [OF q Some get(3) [OF i], of E m] get(1) by auto
      ultimately show ?thesis by blast
    next
      case None
      show ?thesis
      proof (cases ys)
        case Nil
        then show ?thesis using get_full [of s d x E m] q None get(1) by auto
      next
        case (Cons i zs)
        then show ?thesis using get_miss_queue [of s i zs d x E m "fst r" "snd r" t] q None get(1) by auto
      qed
    qed
  next
    case (alloc r)
    then show ?thesis using alloc_queue [OF q] q by (cases ys) auto
  next
    case (free i)
    have "cacheSize t = cacheSize s" using free by (simp add: apaCacheFree_def Let_def)
    then show ?thesis using free free_used [OF q free(2)] free_noop [of "Some i" s] q
      by (cases "c_nused (cacheBuf s i) = 0") auto
  next
    case (store i h)
    then show ?thesis using q by (auto intro!: exI [of _ ys] mark_dirty_queue edit_queue)
  next
    case (flush i)
    have "cacheSize t = cacheSize s" using flush(1) by (simp add: apaCacheFlushDirty_def)
    then show ?thesis using flush_dirty_queue [OF q flush(2), of E] flush(1) by blast
  next
    case (flush_all d r)
    then show ?thesis using flush_all_queue [OF q] by blast
  qed
  then show ?thesis by (auto simp: cache_inv_def)
qed

text \<open>
  C3. After \<open>apaCacheInit\<close>, whatever sequence of cache calls follows and whatever the disk
  answers, the ring through the sentinel holds exactly the entries with use count zero, each
  once, no two entries hold the same sector of a device, and the table keeps its size.
\<close>

theorem cache_reachable_inv:
  assumes "apaCacheInit sz True True mem s0 = (0, s)" "\<And>i. wf_header (mem i)" "(cache_step E)\<^sup>*\<^sup>* s t"
  shows "cache_inv t \<and> cacheSize t = sz"
  using assms(3)
proof (induction rule: rtranclp_induct)
  case base
  obtain u where "apaCacheInit sz True True mem s0 = (0, u)" "cache_queue u (cache_entries sz)" "cacheSize u = sz"
    by (rule init_queue [where mem = mem and sz = sz and s = s0]) (use assms(2) in auto)
  then show ?case using assms(1) by (auto simp: cache_inv_def)
next
  case (step t u)
  then show ?case using cache_step_inv by blast
qed


subsection \<open>The cache as an abstract least-recently-used store\<close>

text \<open>
  The specification: slots have a key and a use count, and the unused slots wait in a
  queue. A request for a key some slot holds pins that slot; any other request takes the
  slot at the front of the queue. A slot whose last user returns it goes to the back.
\<close>

record lru =
  l_queue :: "nat list"
  l_key :: "nat \<Rightarrow> s32 \<times> u32"
  l_use :: "nat \<Rightarrow> u16"

definition lru_get :: "nat \<Rightarrow> s32 \<times> u32 \<Rightarrow> bool \<Rightarrow> lru \<Rightarrow> nat option \<times> lru" where
  "lru_get n k ok a =
     (case List.find (\<lambda>i. l_key a i = k) (cache_entries n) of
        Some i \<Rightarrow> (Some i, a\<lparr>l_queue := remove1 i (l_queue a), l_use := (l_use a)(i := l_use a i + 1)\<rparr>)
      | None \<Rightarrow>
          (case l_queue a of [] \<Rightarrow> (None, a)
           | i # q \<Rightarrow>
               if ok then (Some i, a\<lparr>l_queue := q, l_key := (l_key a)(i := k), l_use := (l_use a)(i := 1)\<rparr>)
               else (None, a\<lparr>l_key := (l_key a)(i := (- 1, snd k)), l_use := (l_use a)(i := 0)\<rparr>)))"

definition lru_free :: "nat \<Rightarrow> lru \<Rightarrow> lru" where
  "lru_free i a =
     (if l_use a i = 0 then a
      else a\<lparr>l_queue := (if l_use a i = 1 then l_queue a @ [i] else l_queue a), l_use := (l_use a)(i := l_use a i - 1)\<rparr>)"

definition lru_abs :: "('d, 'z) apa_state_scheme \<Rightarrow> lru \<Rightarrow> bool" where
  "lru_abs s a \<longleftrightarrow> cache_queue s (l_queue a) \<and> (\<forall>i. l_key a i = (c_device (cacheBuf s i), c_sector (cacheBuf s i)))
     \<and> (\<forall>i. l_use a i = c_nused (cacheBuf s i))"

lemma lru_get_lookup:
  assumes "lru_abs s a"
  shows "cache_lookup d x s = Some i \<Longrightarrow> lru_get (cacheSize s) (d, x) ok a =
      (Some i, a\<lparr>l_queue := remove1 i (l_queue a), l_use := (l_use a)(i := l_use a i + 1)\<rparr>)"
    and "cache_lookup d x s = None \<Longrightarrow> l_queue a = [] \<Longrightarrow> lru_get (cacheSize s) (d, x) ok a = (None, a)"
    and "cache_lookup d x s = None \<Longrightarrow> l_queue a = j # q \<Longrightarrow> lru_get (cacheSize s) (d, x) ok a =
      (if ok then (Some j, a\<lparr>l_queue := q, l_key := (l_key a)(j := (d, x)), l_use := (l_use a)(j := 1)\<rparr>)
       else (None, a\<lparr>l_key := (l_key a)(j := (- 1, x)), l_use := (l_use a)(j := 0)\<rparr>))"
proof -
  have "List.find (\<lambda>i. l_key a i = (d, x)) (cache_entries (cacheSize s)) = cache_lookup d x s"
    unfolding cache_lookup_def by (rule find_cong_pred) (use assms in \<open>auto simp: lru_abs_def\<close>)
  then show "cache_lookup d x s = Some i \<Longrightarrow> lru_get (cacheSize s) (d, x) ok a =
      (Some i, a\<lparr>l_queue := remove1 i (l_queue a), l_use := (l_use a)(i := l_use a i + 1)\<rparr>)"
    and "cache_lookup d x s = None \<Longrightarrow> l_queue a = [] \<Longrightarrow> lru_get (cacheSize s) (d, x) ok a = (None, a)"
    and "cache_lookup d x s = None \<Longrightarrow> l_queue a = j # q \<Longrightarrow> lru_get (cacheSize s) (d, x) ok a =
      (if ok then (Some j, a\<lparr>l_queue := q, l_key := (l_key a)(j := (d, x)), l_use := (l_use a)(j := 1)\<rparr>)
       else (None, a\<lparr>l_key := (l_key a)(j := (- 1, x)), l_use := (l_use a)(j := 0)\<rparr>))"
    by (simp_all add: lru_get_def)
qed

lemma transfer_payload [simp]:
  "c_device (cacheBuf (snd (apaCacheTransfer E i ty s)) j) = c_device (cacheBuf s j)"
  "c_sector (cacheBuf (snd (apaCacheTransfer E i ty s)) j) = c_sector (cacheBuf s j)"
  "c_nused (cacheBuf (snd (apaCacheTransfer E i ty s)) j) = c_nused (cacheBuf s j)"
  by (rule transfer_shape [of E i ty s]; simp)+

lemma demo_cache_init: "apaCacheInit n True True (\<lambda>_. zero_header) demo_state = (0, demo_cache n)"
  by (simp add: demo_cache_def apaCacheInit_def)

lemma demo_cache_queue: "cache_queue (demo_cache n) (cache_entries n)" "cacheSize (demo_cache n) = n"
  using init_queue [of "\<lambda>_. zero_header" n demo_state] demo_cache_init [of n] by auto

lemma demo_cache_free: "i \<in> {1..n} \<Longrightarrow> c_nused (cacheBuf (demo_cache n) i) = 0"
  using demo_cache_queue [of n] by (auto simp: cache_queue_def)

lemma demo_cache_lookup: "d \<noteq> - 1 \<Longrightarrow> cache_lookup d x (demo_cache n) = None"
proof (rule ccontr)
  assume "d \<noteq> - 1" "cache_lookup d x (demo_cache n) \<noteq> None"
  then obtain i where "i \<in> {1..n}" "c_device (cacheBuf (demo_cache n) i) \<noteq> - 1"
    using cache_lookup_Some demo_cache_queue(2) by (metis option.exhaust)
  moreover have "c_device (cacheBuf (demo_cache n) j) = - 1" if "j \<in> {1..n}" for j
    by (rule init_queue [of "\<lambda>_. zero_header" n demo_state]) (use that demo_cache_init [of n] in auto)
  ultimately show False by blast
qed

theorem cache_reachable_inv_witness:
  "cache_inv (snd (apaCacheGetHeader sim_env 0 5 0 (demo_cache 2)))"
proof -
  obtain r t where g: "apaCacheGetHeader sim_env 0 5 0 (demo_cache 2) = (r, t)" by fastforce
  have "cache_step sim_env (demo_cache 2) t"
    by (rule cache_step.get [OF g]) (use demo_cache_free in \<open>auto simp: demo_cache_queue(2)\<close>)
  then have "(cache_step sim_env)\<^sup>*\<^sup>* (demo_cache 2) t" by (rule r_into_rtranclp)
  then show ?thesis using cache_reachable_inv [OF demo_cache_init [of 2]] by (simp add: g)
qed

text \<open>
  C4. \<open>apaCacheGetHeader\<close> implements the request of the LRU specification: a held key pins
  its slot, any other request takes the slot unused longest, a failed read puts that slot back
  in front with an invalid key, and with no free slot nothing changes.
\<close>

theorem cache_get_refines:
  assumes abs: "lru_abs s a" and dev: "d \<noteq> - 1" and use: "\<And>i. i \<in> {1..cacheSize s} \<Longrightarrow> c_nused (cacheBuf s i) \<noteq> - 1"
    and get: "apaCacheGetHeader E d x m s = ((c, r), t)"
  shows "\<exists>a'. lru_get (cacheSize s) (d, x) (0 \<le> r) a = (c, a') \<and> lru_abs t a'"
proof -
  have q: "cache_queue s (l_queue a)" using abs by (simp add: lru_abs_def)
  show ?thesis
  proof (cases "cache_lookup d x s")
    case (Some i)
    have i: "i \<in> {1..cacheSize s}" using cache_lookup_Some [OF Some] by blast
    have "cache_queue t (remove1 i (l_queue a))" using get_hit [OF q Some use [OF i], of E m] get by auto
    moreover have "\<forall>j. c_device (cacheBuf t j) = c_device (cacheBuf s j) \<and> c_sector (cacheBuf t j) = c_sector (cacheBuf s j)
       \<and> c_nused (cacheBuf t j) = (if j = i then c_nused (cacheBuf s i) + 1 else c_nused (cacheBuf s j))" "c = Some i"
      using get Some by (auto simp: apaCacheGetHeader_def Let_def)
    ultimately show ?thesis using abs by (simp add: lru_get_lookup(1) [OF abs Some] lru_abs_def)
  next
    case None
    show ?thesis
    proof (cases "l_queue a")
      case Nil
      then show ?thesis using get_full [of s d x E m] q None get abs by (auto simp: lru_get_lookup(2) [OF abs])
    next
      case (Cons i zs)
      note q = q [unfolded Cons] and g = get [unfolded get_miss [OF q [unfolded Cons] None]]
      let ?T = "apaCacheTransfer E i 0 (claim_entry d x i s)"
      have cq: "cache_queue t (if c = None then i # zs else zs)"
        using get_miss_queue [OF q None get] by blast
      have "c = (if 0 \<le> r then Some i else None) \<and> (\<forall>j. l_key a j = (c_device (cacheBuf s j), c_sector (cacheBuf s j)))
         \<and> (\<forall>j. (c_device (cacheBuf t j), c_sector (cacheBuf t j)) = (if j = i then (if 0 \<le> r then d else - 1, x) else l_key a j))
         \<and> (\<forall>j. c_nused (cacheBuf t j) = (if j = i then (if 0 \<le> r then 1 else 0) else l_use a j))"
        using g abs transfer_payload [of E i 0 "claim_entry d x i s"]
        by (cases "?T") (auto simp: lru_abs_def Let_def split: if_splits)
      then show ?thesis using Cons cq
        by (cases "0 \<le> r") (simp_all add: lru_get_lookup(3) [OF abs None] lru_abs_def)
    qed
  qed
qed

text \<open>
  C11. \<open>apaCacheFree\<close> implements the release of the LRU specification: the use count drops,
  the last release appends the slot to the queue, and releasing an unused slot does nothing.
\<close>

theorem cache_free_refines:
  assumes abs: "lru_abs s a" and i: "i \<in> {1..cacheSize s}"
  shows "lru_abs (apaCacheFree (Some i) s) (lru_free i a)"
proof (cases "c_nused (cacheBuf s i) = 0")
  case True
  then show ?thesis using abs free_noop [of "Some i" s] by (simp add: lru_free_def lru_abs_def)
next
  case False
  have "cache_queue s (l_queue a)" using abs by (simp add: lru_abs_def)
  from free_used [OF this i False] False show ?thesis
    using abs by (auto simp: lru_abs_def lru_free_def apaCacheFree_def Let_def split: if_splits)
qed


definition demo_lru :: lru where
  "demo_lru = \<lparr>l_queue = cache_entries 2, l_key = (\<lambda>i. (c_device (cacheBuf (demo_cache 2) i), c_sector (cacheBuf (demo_cache 2) i))),
     l_use = (\<lambda>i. c_nused (cacheBuf (demo_cache 2) i))\<rparr>"

lemma demo_lru_abs: "lru_abs (demo_cache 2) demo_lru"
  using demo_cache_queue [of 2] by (simp add: lru_abs_def demo_lru_def)

text \<open>A read of the blank drive fails the checks, a request without a read gets the first entry.\<close>

theorem cache_get_refines_witness:
  "(\<exists>a'. lru_get 2 (0, 5) True demo_lru = (Some 1, a') \<and>
      lru_abs (snd (apaCacheGetHeader sim_env 0 5 1 (demo_cache 2))) a')"
proof -
  have "cache_entries 2 = [1, 2]" by (simp add: cache_entries_def upt_rec)
  then have g: "apaCacheGetHeader sim_env 0 5 1 (demo_cache 2) = ((Some 1, 0), claim_entry 0 5 1 (demo_cache 2))"
    using get_miss [of "demo_cache 2" 1 "[2]" 0 5 sim_env 1] demo_cache_queue [of 2] demo_cache_lookup [of 0 5 2] by simp
  from cache_get_refines [OF demo_lru_abs _ _ g] demo_cache_free show ?thesis
    unfolding g by (simp add: demo_cache_queue(2))
qed

theorem cache_free_refines_witness:
  "lru_abs (apaCacheFree (Some 2) (demo_cache 2)) (lru_free 2 demo_lru)"
  by (rule cache_free_refines [OF demo_lru_abs]) (simp add: demo_cache_queue(2))

end
