(* ===== verification/ApaIo.thy ===== *)
theory ApaIo
  imports ApaCacheInv
begin

text \<open>
  Headers on the disk: what \<open>apaReadHeader\<close> accepts, that a
  header that was written is read back, that a corrupted word is detected, and what the
  cache hands out for a sector it does not hold.
\<close>

subsection \<open>Reading\<close>

lemma checksum_of_words:
  "length ws = 256 \<Longrightarrow> apaCheckSum (header_of_words ws) = fold (\<lambda>i sum. sum + ws ! i) [1..<256] 0"
  by (simp add: apaCheckSum_def header_words_of_words)

lemma stored_checksum: "h_checksum (header_of_words ws) = ws ! 0" "h_magic (header_of_words ws) = ws ! 1"
  by (simp_all add: header_of_words_def)

text \<open>The tests of \<open>apaReadHeader\<close> after a successful transfer.\<close>

definition header_valid :: "u32 \<Rightarrow> apa_header \<Rightarrow> bool" where
  "header_valid lba h \<longleftrightarrow> h_magic h = APA_MAGIC \<and> apaCheckSum h = h_checksum h \<and>
     (lba = APA_SECTOR_MBR \<longrightarrow> strncmp_eq (mbr_magic (h_mbr h)) apaMBRMagic 32)"

definition header_at :: "image \<Rightarrow> s32 \<Rightarrow> u32 \<Rightarrow> apa_header" where
  "header_at img d l = header_of_words (sectors img d l 2)"

lemma read_header_result:
  assumes "ata_ok E img" "wf_header g" "ata_read E d l 2 (world s) = (r, ws, w)"
  shows "apaReadHeader E d g l s = (if r = 0 \<and> header_valid l (header_at (img (world s)) d l) then 0 else - EIO,
      (if r = 0 then header_at (img (world s)) d l else header_of_words (overlay ws (header_words g))), s\<lparr>world := w\<rparr>)"
proof (cases "r = 0")
  case True
  have ws: "ws = sectors (img (world s)) d l 2" using ata_okD(3) [OF assms(1)] assms(3) True by fastforce
  have "length ws = 256" using length_sectors [of "img (world s)" d l 2] ata_okD(1) [OF assms(1)] by (simp add: ws)
  then have "overlay ws (header_words g) = ws" using assms(2) by (simp add: overlay_full)
  then show ?thesis using True assms(3) ws
    by (auto simp: apaReadHeader_def Let_def header_at_def header_valid_def)
next
  case False
  then show ?thesis using assms(3) by (simp add: apaReadHeader_def)
qed

text \<open>
  C13. A valid header that was written to a sector is what the next successful transfer of
  \<open>apaReadHeader\<close> returns, with result 0.
\<close>

theorem header_write_read:
  assumes "ata_ok E img" "wf_header h" "wf_header g" "header_valid l h"
    and "apaWriteHeader E d h l s = (0, t)" "ata_read E d l 2 (world t) = (0, ws, w)"
  shows "apaReadHeader E d g l t = (0, h, t\<lparr>world := w\<rparr>)"
proof -
  obtain r w' where wr: "ata_write E d l 2 (header_words h) (world s) = (r, w')" by fastforce
  have r: "r = 0" "world t = w'" using assms(5) wr by (auto simp: apaWriteHeader_def EIO_def split: if_splits)
  have "img w' = put_sectors d l 2 (header_words h) (img (world s))"
    using ata_okD(4) [OF assms(1)] wr r assms(2) by fastforce
  then have "header_at (img (world t)) d l = h"
    using assms(2) r by (simp add: header_at_def sectors_put_sectors_2 header_of_header_words)
  then show ?thesis using read_header_result [OF assms(1,3,6)] assms(4) by simp
qed

text \<open>
  C5. If the disk holds a checksummed header in which any one of the 256 words, the checksum
  itself included, was changed, \<open>apaReadHeader\<close> returns \<open>-EIO\<close>.
\<close>

theorem header_corruption_detected:
  assumes "ata_ok E img" "wf_header g" "wf_header h" "apaCheckSum h = h_checksum h"
    and "k < 256" "v \<noteq> header_words h ! k" "sectors (img (world s)) d l 2 = (header_words h)[k := v]"
  shows "fst (apaReadHeader E d g l s) = - EIO"
proof -
  let ?ws = "header_words h"
  have len: "length ?ws = 256" using assms(3) by simp
  have h0: "?ws ! 0 = h_checksum h" by (simp add: header_words_def)
  have "apaCheckSum (header_of_words (?ws[k := v])) \<noteq> h_checksum (header_of_words (?ws[k := v]))"
  proof (cases "k = 0")
    case True
    have "fold (\<lambda>i sum. sum + ?ws[0 := v] ! i) [1..<256] 0 = fold (\<lambda>i sum. sum + ?ws ! i) [1..<256] 0"
      by (rule fold_plus_cong) auto
    then have "apaCheckSum (header_of_words (?ws[0 := v])) = apaCheckSum h"
      using len by (simp add: apaCheckSum_def header_words_of_words)
    then show ?thesis using True assms(4,6) h0 len by (simp add: stored_checksum)
  next
    case False
    then have "apaCheckSum (header_of_words (?ws[k := v])) = apaCheckSum h + (v - ?ws ! k)"
      using checksum_single_word [of k 256 ?ws v] assms(5) len by (simp add: apaCheckSum_def header_words_of_words)
    then show ?thesis using False assms(4,6) h0 by (simp add: stored_checksum)
  qed
  then have "\<not> header_valid l (header_at (img (world s)) d l)"
    using assms(7) by (simp add: header_at_def header_valid_def)
  moreover obtain r ws w where rd: "ata_read E d l 2 (world s) = (r, ws, w)" by (metis prod_cases3)
  ultimately show ?thesis using read_header_result [OF assms(1,2) rd] by simp
qed


text \<open>
  A valid header: \<open>seal h\<close> sets the magic and the checksum as the writers of headers do.
\<close>

definition demo_header :: "u32 \<Rightarrow> apa_header" where
  "demo_header v = (let h = zero_header\<lparr>h_magic := APA_MAGIC, h_start := v, h_length := 0x40000, h_type := 0x100\<rparr>
     in h\<lparr>h_checksum := apaCheckSum h\<rparr>)"

lemma demo_header_ok: "wf_header (demo_header v)" "apaCheckSum (demo_header v) = h_checksum (demo_header v)"
  "h_magic (demo_header v) = APA_MAGIC"
  using wf_zero_header by (simp_all add: demo_header_def Let_def wf_header_def)

lemma demo_header_valid: "l \<noteq> 0 \<Longrightarrow> header_valid l (demo_header v)"
  by (simp add: header_valid_def demo_header_ok APA_SECTOR_MBR_def)

lemma sim_no_bad:
  assumes "\<And>d l. \<not> sd_bad w d l"
  shows "ata_read sim_env d l n w = (0, sectors (sim_image w) d l (unat n), w)"
    and "ata_write sim_env d l n ws w = (0, w\<lparr>sd_log := sd_log w @ write_events d l (unat n) ws\<rparr>)"
    and "ata_flush sim_env d w = (0, w\<lparr>sd_log := sd_log w @ [EFlush d]\<rparr>)"
  using assms by (simp_all add: sim_env_def list_ex_iff)

theorem header_write_read_witness:
  "\<exists>t. apaWriteHeader sim_env 0 (demo_header 7) 0x40000 demo_state = (0, t) \<and>
     apaReadHeader sim_env 0 zero_header 0x40000 t = (0, demo_header 7, t)"
proof -
  obtain t where t: "apaWriteHeader sim_env 0 (demo_header 7) 0x40000 demo_state = (0, t)" "\<And>d l. \<not> sd_bad (world t) d l"
    by (simp add: apaWriteHeader_def sim_env_def demo_state_def demo_disk_def list_ex_iff)
  from header_write_read [OF sim_env_ok demo_header_ok(1) wf_zero_header demo_header_valid t(1) sim_no_bad(1) [OF t(2)]]
  have "apaReadHeader sim_env 0 zero_header 0x40000 t = (0, demo_header 7, t\<lparr>world := world t\<rparr>)" by simp
  then show ?thesis using t(1) by simp
qed

text \<open>A drive that holds the 256 words \<open>ws\<close> at sector \<open>l\<close>, and a cache on it.\<close>

definition disk_with :: "u32 \<Rightarrow> u32 list \<Rightarrow> sim_disk" where
  "disk_with l ws = demo_disk\<lparr>sd_base := put_sectors 0 l 2 ws (sd_base demo_disk)\<rparr>"

definition cache_on :: "nat \<Rightarrow> sim_disk \<Rightarrow> sim_disk apa_state" where
  "cache_on n w = (demo_cache n)\<lparr>world := w\<rparr>"

lemma disk_with_image: "length ws = 256 \<Longrightarrow> sectors (sim_image (disk_with l ws)) 0 l 2 = ws"
  using sectors_put_sectors_2 [of ws 0 l "sd_base demo_disk"]
  by (simp add: sim_image_def disk_with_def demo_disk_def norm128_puts norm128_id)

lemma disk_with_good: "\<not> sd_bad (disk_with l ws) d x"
  by (simp add: disk_with_def demo_disk_def)

lemma cache_on_queue: "cache_queue (cache_on n w) (cache_entries n)" "world (cache_on n w) = w"
  using demo_cache_queue(1) [of n] by (simp_all add: cache_on_def)

lemma cache_on_lookup: "d \<noteq> - 1 \<Longrightarrow> cache_lookup d x (cache_on n w) = None"
  using demo_cache_lookup [of d x n] by (simp add: cache_on_def cache_lookup_def)

theorem header_corruption_detected_witness:
  "fst (apaReadHeader sim_env 0 zero_header 0x40000 (cache_on 2 (disk_with 0x40000 ((header_words (demo_header 7))[17 := 5])))) = - EIO"
proof (rule header_corruption_detected [OF sim_env_ok wf_zero_header demo_header_ok(1,2)])
  show "(17 :: nat) < 256" "(5 :: u32) \<noteq> header_words (demo_header 7) ! 17"
    by (simp_all add: header_words_def demo_header_def Let_def zero_header_def header_of_words_def slice_def nth_append nth_Cons')
  show "sectors (sim_image (world (cache_on 2 (disk_with 0x40000 ((header_words (demo_header 7))[17 := 5]))))) 0 0x40000 2
      = (header_words (demo_header 7))[17 := 5]"
    by (simp add: disk_with_image cache_on_queue demo_header_ok)
qed

subsection \<open>What the cache hands out for a sector it does not hold\<close>

text \<open>The read transfer into a claimed entry.\<close>

lemma transfer_read:
  assumes "apaReadHeader E (c_device (cacheBuf s i)) (hdr s i) (c_sector (cacheBuf s i)) s = (e, h, s\<lparr>world := w\<rparr>)"
  shows "apaCacheTransfer E i 0 s =
     (e, let u = (s\<lparr>world := w\<rparr>); d = c_device (cacheBuf s i); x = c_sector (cacheBuf s i) in
         if e = 0 then upd_entry i (\<lambda>c. c\<lparr>c_header := h, c_flags := c_flags c AND NOT APA_CACHE_FLAG_DIRTY\<rparr>) u
         else let (h', t) = apaSaveError E d h APA_SECTOR_SECTOR_ERROR x (set_header i (\<lambda>_. h) u) in
           upd_entry i (\<lambda>c. c\<lparr>c_header := h', c_flags := c_flags c AND NOT APA_CACHE_FLAG_DIRTY\<rparr>) t)"
  using assms
  by (auto simp: apaCacheTransfer_def Let_def set_header_def upd_entry_def split: prod.splits)

text \<open>
  A read request for a sector that no entry holds returns the least recently used entry with
  the header the disk has there, clean and keyed with the request, and leaves the disk alone.
\<close>

theorem cache_miss_reads:
  assumes "ata_ok E img" "cache_queue s (i # ys)" "cache_lookup d x s = None"
    and "ata_read E d x 2 (world s) = (0, ws, w)" "header_valid x (header_at (img (world s)) d x)"
  shows "\<exists>t. apaCacheGetHeader E d x 0 s = ((Some i, 0), t) \<and> hdr t i = header_at (img (world s)) d x \<and>
     c_device (cacheBuf t i) = d \<and> c_sector (cacheBuf t i) = x \<and> \<not> is_dirty (cacheBuf t i) \<and> img (world t) = img (world s)"
proof -
  let ?u = "claim_entry d x i s"
  have "i \<in> {1..cacheSize s}" using cache_queue_entry [OF assms(2), of i] by simp
  then have wf: "wf_header (hdr ?u i)" using assms(2) by (simp add: cache_queue_def)
  have rd: "apaReadHeader E (c_device (cacheBuf ?u i)) (hdr ?u i) (c_sector (cacheBuf ?u i)) ?u
      = (0, header_at (img (world s)) d x, ?u\<lparr>world := w\<rparr>)"
    using read_header_result [OF assms(1) wf, of d x ?u 0 ws w] assms(4,5) by simp
  have "img w = img (world s)" by (rule ata_okD(2) [OF assms(1,4)])
  then show ?thesis
    unfolding get_miss [OF assms(2,3)] transfer_read [OF rd] by (simp add: is_dirty_def)
qed

text \<open>
  When that read fails or the header is not valid, the request returns NULL and \<open>-EIO\<close>,
  no entry is lost, and the error sector, and only it, now records the sector number.
\<close>

theorem cache_miss_error:
  assumes "ata_ok E img" "cache_queue s (i # ys)" "cache_lookup d x s = None"
    and "ata_read E d x 2 (world s) = (r, ws, w)" "r \<noteq> 0 \<or> \<not> header_valid x (header_at (img (world s)) d x)"
    and "ata_write E d APA_SECTOR_SECTOR_ERROR 1 (x # replicate 127 0) w = (0, w')"
  shows "\<exists>t. apaCacheGetHeader E d x 0 s = ((None, - EIO), t) \<and> cache_queue t (i # ys) \<and>
     img (world t) = put_sector d APA_SECTOR_SECTOR_ERROR (x # replicate 127 0) (img (world s))"
proof -
  let ?u = "claim_entry d x i s"
  have "i \<in> {1..cacheSize s}" using cache_queue_entry [OF assms(2), of i] by simp
  then have wf: "wf_header (hdr ?u i)" using assms(2) by (simp add: cache_queue_def)
  obtain h where rd: "apaReadHeader E (c_device (cacheBuf ?u i)) (hdr ?u i) (c_sector (cacheBuf ?u i)) ?u
      = (- EIO, h, ?u\<lparr>world := w\<rparr>)"
    using read_header_result [OF assms(1) wf, of d x ?u r ws w] assms(4,5) by auto
  obtain rf wf' where fl: "ata_flush E d w' = (rf, wf')" by fastforce
  have c0: "chunk 0 (x # replicate 127 0) = x # replicate 127 0" by (simp add: chunk_def)
  have "img wf' = put_sector d APA_SECTOR_SECTOR_ERROR (x # replicate 127 0) (img (world s))"
    using ata_okD(6) [OF assms(1) fl] ata_okD(4) [OF assms(1,6)] ata_okD(2) [OF assms(1,4)]
    by (simp add: put_sectors_1 c0)
  moreover obtain t where "apaCacheGetHeader E d x 0 s = ((None, - EIO), t)" "world t = wf'"
    using assms(6) fl by (simp add: get_miss [OF assms(2,3)] transfer_read [OF rd] apaSaveError_def Let_def EIO_def)
  moreover have "cache_queue t (i # ys)" if "apaCacheGetHeader E d x 0 s = ((None, - EIO), t)" for t
    using get_miss_queue [OF assms(2,3) that] by simp
  ultimately show ?thesis by auto
qed


lemma demo_entries: "cache_entries 2 = [1, 2]"
  by (simp add: cache_entries_def upt_rec)

theorem cache_miss_reads_witness:
  "\<exists>t. apaCacheGetHeader sim_env 0 0x40000 0 (cache_on 2 (disk_with 0x40000 (header_words (demo_header 7)))) = ((Some 1, 0), t)
     \<and> hdr t 1 = demo_header 7"
proof -
  let ?w = "disk_with 0x40000 (header_words (demo_header 7))"
  have h: "header_at (sim_image ?w) 0 0x40000 = demo_header 7"
    by (simp add: header_at_def disk_with_image demo_header_ok header_of_header_words)
  have "\<exists>t. apaCacheGetHeader sim_env 0 0x40000 0 (cache_on 2 ?w) = ((Some 1, 0), t) \<and>
     hdr t 1 = header_at (sim_image (world (cache_on 2 ?w))) 0 0x40000 \<and> c_device (cacheBuf t 1) = 0 \<and>
     c_sector (cacheBuf t 1) = 0x40000 \<and> \<not> is_dirty (cacheBuf t 1) \<and> sim_image (world t) = sim_image (world (cache_on 2 ?w))"
    by (rule cache_miss_reads [OF sim_env_ok cache_on_queue(1) [of 2, unfolded demo_entries] cache_on_lookup
          sim_no_bad(1)]) (simp_all add: cache_on_queue h demo_header_valid disk_with_good)
  then show ?thesis by (auto simp: cache_on_queue h)
qed

theorem cache_miss_error_witness:
  "\<exists>t. apaCacheGetHeader sim_env 0 5 0 (cache_on 2 demo_disk) = ((None, - EIO), t) \<and>
     sim_image (world t) 0 6 = 5 # replicate 127 0"
proof -
  have good: "\<not> sd_bad demo_disk d l" for d l by (simp add: demo_disk_def)
  have "sim_image demo_disk d l = replicate 128 0" for d l by (simp add: sim_image_def demo_disk_def norm128_def)
  then have "sectors (sim_image demo_disk) 0 5 2 = replicate 256 0" by (simp add: sectors_2 replicate_add [symmetric])
  then have inv: "\<not> header_valid 5 (header_at (sim_image demo_disk) 0 5)"
    by (simp add: header_valid_def header_at_def stored_checksum APA_MAGIC_def)
  have "\<exists>t. apaCacheGetHeader sim_env 0 5 0 (cache_on 2 demo_disk) = ((None, - EIO), t) \<and> cache_queue t (1 # [2]) \<and>
     sim_image (world t) = put_sector 0 APA_SECTOR_SECTOR_ERROR (5 # replicate 127 0) (sim_image (world (cache_on 2 demo_disk)))"
    by (rule cache_miss_error [OF sim_env_ok cache_on_queue(1) [of 2, unfolded demo_entries] cache_on_lookup
          sim_no_bad(1) _ sim_no_bad(2)]) (simp_all add: cache_on_queue inv good)
  then show ?thesis by (auto simp: put_sector_def APA_SECTOR_SECTOR_ERROR_def)
qed

end
