(* ===== verification/ApaJournal.thy ===== *)
theory ApaJournal
  imports ApaIo "HOL-Library.Sublist"
begin

text \<open>
  The journal makes \<open>apaCacheFlushAllDirty\<close> atomic. The drive logs the sector writes and
  flushes of the call; after a power failure at any point \<open>apaJournalRestore\<close> leaves the
  disk, outside the journal's own sectors, as it was before the call or as the completed call
  leaves it. The journal has room for 126 headers; a call with more dirty entries runs past it.
\<close>

subsection \<open>Logs of sector writes\<close>

text \<open>A transaction: the sectors and the words of the headers that are written.\<close>

type_synonym txn = "(u32 \<times> u32 list) list"

primrec home_events :: "s32 \<Rightarrow> txn \<Rightarrow> io_event list" where
  "home_events d [] = []"
| "home_events d (p # ps) = write_events d (fst p) 2 (snd p) @ home_events d ps"

text \<open>Where the journal keeps its \<open>k\<close>-th header.\<close>

definition slot :: "nat \<Rightarrow> u32" where
  "slot k = APA_SECTOR_APAL_HEADERS + 2 * of_nat k"

primrec slot_events :: "s32 \<Rightarrow> nat \<Rightarrow> txn \<Rightarrow> io_event list" where
  "slot_events d k [] = []"
| "slot_events d k (p # ps) = write_events d (slot k) 2 (snd p) @ slot_events d (Suc k) ps"

definition hits :: "s32 \<Rightarrow> u32 \<Rightarrow> io_event \<Rightarrow> bool" where
  "hits d l e \<longleftrightarrow> (\<exists>ws. e = EWrite d l ws)"

lemma apply_miss: "\<not> hits d l e \<Longrightarrow> apply_event e img d l = img d l"
  by (cases e) (auto simp: hits_def put_sector_def)

lemma fold_miss: "(\<And>e. e \<in> set es \<Longrightarrow> \<not> hits d l e) \<Longrightarrow> fold apply_event es img d l = img d l"
  by (induction es arbitrary: img) (auto simp: apply_miss)

text \<open>A sector that the log writes, or on which the images agree, ends up the same.\<close>

lemma fold_same:
  assumes "img d l = img' d l \<or> (\<exists>e \<in> set es. hits d l e)"
  shows "fold apply_event es img d l = fold apply_event es img' d l"
  using assms
proof (induction es arbitrary: img img')
  case Nil
  then show ?case by simp
next
  case (Cons e es)
  show ?case
  proof (cases "hits d l e")
    case True
    then have "apply_event e img d l = apply_event e img' d l" by (auto simp: hits_def put_sector_def)
    then show ?thesis using Cons.IH by simp
  next
    case False
    then show ?thesis using Cons.IH [of "apply_event e img" "apply_event e img'"] Cons.prems by (auto simp: apply_miss)
  qed
qed

text \<open>Replaying a log after any of its writes gives what the log gives.\<close>

lemma fold_replay:
  assumes "set kept \<subseteq> set es"
  shows "fold apply_event es (fold apply_event kept img) d l = fold apply_event es img d l"
proof (rule fold_same)
  show "fold apply_event kept img d l = img d l \<or> (\<exists>e \<in> set es. hits d l e)"
    using fold_miss [of kept d l img] assms by blast
qed

lemma set_write_events: "e \<in> set (write_events d l n ws) \<Longrightarrow> \<exists>k < n. \<exists>vs. e = EWrite d (l + of_nat k) vs"
  by (auto simp: write_events_def)

lemma writes_are_writes: "e \<in> set (write_events d l n ws) \<Longrightarrow> is_write e"
  using set_write_events by (fastforce simp: is_write_def)

lemma home_are_writes: "e \<in> set (home_events d ps) \<Longrightarrow> is_write e"
  by (induction ps) (auto dest: writes_are_writes)

lemma slot_are_writes: "e \<in> set (slot_events d k ps) \<Longrightarrow> is_write e"
  by (induction ps arbitrary: k) (auto dest: writes_are_writes)

subsection \<open>Power failures of a log that ends in a flush\<close>

lemma subseq_subset: "subseq xs ys \<Longrightarrow> set xs \<subseteq> set ys"
  by (induction rule: list_emb.induct) auto

lemma crash_no_flush:
  assumes "crash_image base [] img" shows "img = base"
  using assms by (auto simp: crash_image_def dest!: subseq_subset)

text \<open>Up to the next flush any subset of the writes can be lost; after it all are stable.\<close>

lemma crash_split:
  assumes "crash_image base (as @ EFlush d # bs) img" and "\<And>e. e \<in> set as \<Longrightarrow> is_write e"
  shows "(\<exists>kept. set kept \<subseteq> set as \<and> img = fold apply_event kept base) \<or> crash_image (fold apply_event as base) bs img"
proof -
  obtain st pend rest kept where evs: "as @ EFlush d # bs = st @ pend @ rest" and pend: "\<forall>e \<in> set pend. is_write e"
    and st: "st = [] \<or> \<not> is_write (last st)" and kept: "kept \<in> set (subseqs pend)"
    and img: "img = fold apply_event (st @ kept) base"
    using assms(1) by (auto simp: crash_image_def)
  have sub: "set kept \<subseteq> set pend" using kept subseq_subset by simp
  from evs have "st @ (pend @ rest) = as @ (EFlush d # bs)" by simp
  then consider us where "st @ us = as" "pend @ rest = us @ EFlush d # bs"
    | us where "st = as @ us" "us @ pend @ rest = EFlush d # bs"
    unfolding append_eq_append_conv2 by auto
  then show ?thesis
  proof cases
    case (1 us)
    have [simp]: "st = []" using st 1(1) assms(2) by (cases "st = []") auto
    have "pend @ rest = as @ EFlush d # bs" using 1 by simp
    then consider vs where "pend @ vs = as" | vs where "pend = as @ vs" "vs @ rest = EFlush d # bs"
      unfolding append_eq_append_conv2 by auto
    then have "set pend \<subseteq> set as"
      by cases (use pend in \<open>auto simp: append_eq_Cons_conv is_write_def\<close>)
    then show ?thesis using img sub by auto
  next
    case (2 us)
    show ?thesis
    proof (cases us)
      case Nil
      then have "as = []" using st 2 assms(2) by (cases "as = []") auto
      moreover have "pend = []" using 2(2) Nil pend by (auto simp: append_eq_Cons_conv is_write_def)
      ultimately show ?thesis using img sub 2 Nil by auto
    next
      case (Cons u st')
      then have st': "st = as @ EFlush d # st'" "bs = st' @ pend @ rest" using 2 by auto
      have "st' = [] \<or> \<not> is_write (last st')" using st st' by (auto split: if_splits)
      then have "crash_image (fold apply_event as base) bs img"
        unfolding crash_image_def using st' pend kept img by (intro exI [of _ st'] exI [of _ pend] exI [of _ rest] exI [of _ kept]) simp
      then show ?thesis by blast
    qed
  qed
qed


subsection \<open>What the call writes\<close>

definition good_disk :: "sim_disk \<Rightarrow> bool" where
  "good_disk w \<longleftrightarrow> (\<forall>d l. \<not> sd_bad w d l)"

definition logged :: "io_event list \<Rightarrow> sim_disk \<Rightarrow> sim_disk" where
  "logged es w = w\<lparr>sd_log := sd_log w @ es\<rparr>"

lemma logged_simps [simp]:
  "good_disk (logged es w) = good_disk w" "logged bs (logged as w) = logged (as @ bs) w"
  "sd_log (logged es w) = sd_log w @ es" "logged [] w = w"
  by (simp_all add: logged_def good_disk_def)

lemma unat_sizes: "unat (2 :: u32) = 2" "unat (1 :: u32) = 1"
  by simp_all

lemma good_disk_io [simp]:
  assumes "good_disk w"
  shows "ata_read sim_env d l 2 w = (0, sectors (sim_image w) d l 2, w)"
    and "ata_read sim_env d l 1 w = (0, sectors (sim_image w) d l 1, w)"
    and "ata_write sim_env d l 2 ws w = (0, logged (write_events d l 2 ws) w)"
    and "ata_write sim_env d l 1 ws w = (0, logged (write_events d l 1 ws) w)"
    and "ata_flush sim_env d w = (0, logged [EFlush d] w)"
  using assms sim_no_bad [of w, unfolded logged_def [symmetric]] unat_sizes
  unfolding good_disk_def logged_def by metis+

text \<open>The words of entry \<open>i\<close>'s header with its checksum brought up to date.\<close>

definition sealed :: "('d, 'z) apa_state_scheme \<Rightarrow> nat \<Rightarrow> u32 list" where
  "sealed s i = header_words ((hdr s i)\<lparr>h_checksum := apaCheckSum (hdr s i)\<rparr>)"

definition txn_of :: "('d, 'z) apa_state_scheme \<Rightarrow> nat list \<Rightarrow> txn" where
  "txn_of s is = map (\<lambda>i. (c_sector (cacheBuf s i), sealed s i)) is"

definition seal_entry :: "apa_cache \<Rightarrow> apa_cache" where
  "seal_entry c = c\<lparr>c_header := (c_header c)\<lparr>h_checksum := apaCheckSum (c_header c)\<rparr>\<rparr>"

lemma seal_entry_sel [simp]:
  "c_flags (seal_entry c) = c_flags c" "c_device (seal_entry c) = c_device c" "c_sector (seal_entry c) = c_sector c"
  "c_nused (seal_entry c) = c_nused c" "c_next (seal_entry c) = c_next c" "c_tail (seal_entry c) = c_tail c"
  "is_dirty (seal_entry c) = is_dirty c"
  by (simp_all add: seal_entry_def is_dirty_def)

lemma sealed_entry: "header_words (c_header (seal_entry (cacheBuf s i))) = sealed s i"
  by (simp add: seal_entry_def sealed_def)

text \<open>One record of the journal.\<close>

definition journal_put :: "nat \<Rightarrow> nat \<Rightarrow> s32 \<Rightarrow> (sim_disk, 'z) apa_state_scheme \<Rightarrow> (sim_disk, 'z) apa_state_scheme" where
  "journal_put n i d s = s\<lparr>cacheBuf := (cacheBuf s)(i := seal_entry (cacheBuf s i)),
     world := logged (write_events d (slot n) 2 (sealed s i)) (world s),
     journalBuf := (journalBuf s)\<lparr>j_sectors := (j_sectors (journalBuf s))[n := c_sector (cacheBuf s i)], j_num := of_nat (Suc n)\<rparr>\<rparr>"

lemma journal_write_good:
  assumes "good_disk (world s)" "j_num (journalBuf s) = of_nat n" "n \<le> 126" "c_device (cacheBuf s i) = d"
  shows "apaJournalWrite sim_env i s = (if n < 126 then Some (0, journal_put n i d s) else None)"
proof -
  have "unat (of_nat n :: u32) = n" using assms(3) by (simp add: unat_of_nat take_bit_nat_eq_self)
  moreover have "push_bit 1 (of_nat n :: u32) + APA_SECTOR_APAL_HEADERS = slot n"
    by (simp add: slot_def push_bit_eq_mult add.commute)
  ultimately show ?thesis using assms(1,2,4)
    by (simp add: apaJournalWrite_def Let_def journal_put_def seal_entry_def sealed_def set_header_def upd_entry_def add.commute
        mult.commute)
qed

text \<open>The first loop of \<open>apaCacheFlushAllDirty\<close>.\<close>

definition journaled :: "nat \<Rightarrow> s32 \<Rightarrow> nat list \<Rightarrow> (sim_disk, 'z) apa_state_scheme \<Rightarrow> (sim_disk, 'z) apa_state_scheme \<Rightarrow> bool" where
  "journaled n d is s t \<longleftrightarrow>
     world t = logged (slot_events d n (txn_of s is)) (world s) \<and> cacheSize t = cacheSize s
   \<and> journalBuf t = \<lparr>j_magic = j_magic (journalBuf s), j_num = of_nat (n + length is),
        j_sectors = take n (j_sectors (journalBuf s)) @ map fst (txn_of s is) @ drop (n + length is) (j_sectors (journalBuf s))\<rparr>
   \<and> apa_state.more t = apa_state.more s
   \<and> cacheBuf t = (\<lambda>i. if i \<in> set is then seal_entry (cacheBuf s i) else cacheBuf s i)"

lemma journal_put_txn: "i \<notin> set is \<Longrightarrow> txn_of (journal_put n i d s) is = txn_of s is"
  by (simp add: txn_of_def journal_put_def sealed_def)

lemma take_snoc_update: "n < length xs \<Longrightarrow> take (Suc n) (xs[n := y]) = take n xs @ [y]"
  by (simp add: take_Suc_conv_app_nth)

lemma journal_dirty_if:
  "\<not> dirty_of d s i \<Longrightarrow> journal_dirty E d i s = Some s"
  "dirty_of d s i \<Longrightarrow> journal_dirty E d i s = map_option snd (apaJournalWrite E i s)"
  by (simp_all add: journal_dirty_def)

lemma journal_phase:
  assumes "good_disk (world s)" "j_num (journalBuf s) = of_nat n" "length (j_sectors (journalBuf s)) = 126" "distinct is"
    and "n + length (filter (dirty_of d s) is) \<le> 126"
  shows "\<exists>t. ofold (journal_dirty sim_env d) is s = Some t \<and> journaled n d (filter (dirty_of d s) is) s t"
  using assms
proof (induction "is" arbitrary: s n)
  case Nil
  have "journalBuf s = \<lparr>j_magic = j_magic (journalBuf s), j_num = j_num (journalBuf s), j_sectors = j_sectors (journalBuf s)\<rparr>"
    by simp
  then show ?case using Nil by (simp add: journaled_def txn_of_def fun_eq_iff)
next
  case (Cons i "is")
  show ?case
  proof (cases "dirty_of d s i")
    case False
    then show ?thesis using Cons.IH [of s n] Cons.prems by (simp add: journal_dirty_if)
  next
    case True
    let ?u = "journal_put n i d s"
    have dev: "c_device (cacheBuf s i) = d" using True by (simp add: dirty_of_def)
    have n: "n < 126" using Cons.prems(5) True by simp
    have D: "filter (dirty_of d ?u) is = filter (dirty_of d s) is"
      using Cons.prems(4) by (intro filter_cong) (auto simp: dirty_of_def journal_put_def)
    have len: "length (j_sectors (journalBuf ?u)) = 126" "j_num (journalBuf ?u) = of_nat (Suc n)" "good_disk (world ?u)"
      using Cons.prems by (simp_all add: journal_put_def)
    obtain t where t: "ofold (journal_dirty sim_env d) is ?u = Some t" "journaled (Suc n) d (filter (dirty_of d s) is) ?u t"
      using Cons.IH [OF len(3,2,1)] Cons.prems(4,5) True D by auto
    have "i \<notin> set (filter (dirty_of d s) is)" using Cons.prems(4) by simp
    then have "journaled n d (i # filter (dirty_of d s) is) s t"
      using t(2) n Cons.prems(3) journal_put_txn [of i "filter (dirty_of d s) is" n d s]
      by (simp add: journaled_def) (auto simp: journal_put_def txn_of_def take_snoc_update fun_eq_iff)
    moreover have "journal_dirty sim_env d i s = Some ?u"
      using journal_write_good [OF Cons.prems(1,2) _ dev] True n by (simp add: journal_dirty_if)
    ultimately show ?thesis using t(1) True by simp
  qed
qed

lemma journal_overflow:
  assumes "good_disk (world s)" "j_num (journalBuf s) = of_nat n" "n \<le> 126" "distinct is"
    and "126 < n + length (filter (dirty_of d s) is)"
  shows "ofold (journal_dirty sim_env d) is s = None"
  using assms
proof (induction "is" arbitrary: s n)
  case Nil
  then show ?case by simp
next
  case (Cons i "is")
  show ?case
  proof (cases "dirty_of d s i")
    case False
    then show ?thesis using Cons.IH [of s n] Cons.prems by (simp add: journal_dirty_if)
  next
    case True
    let ?u = "journal_put n i d s"
    have dev: "c_device (cacheBuf s i) = d" using True by (simp add: dirty_of_def)
    have D: "filter (dirty_of d ?u) is = filter (dirty_of d s) is"
      using Cons.prems(4) by (intro filter_cong) (auto simp: dirty_of_def journal_put_def)
    have "ofold (journal_dirty sim_env d) is ?u = None" if "n < 126"
      using Cons.IH [of ?u "Suc n"] Cons.prems True D that by (simp add: journal_put_def)
    then show ?thesis using journal_write_good [OF Cons.prems(1,2,3) dev] True by (simp add: journal_dirty_if)
  qed
qed


text \<open>The second loop of \<open>apaCacheFlushAllDirty\<close>.\<close>

definition home_put :: "nat \<Rightarrow> (sim_disk, 'z) apa_state_scheme \<Rightarrow> (sim_disk, 'z) apa_state_scheme" where
  "home_put i s = s\<lparr>world := logged (write_events (c_device (cacheBuf s i)) (c_sector (cacheBuf s i)) 2 (header_words (hdr s i))) (world s),
     cacheBuf := (cacheBuf s)(i := (cacheBuf s i)\<lparr>c_flags := c_flags (cacheBuf s i) AND NOT APA_CACHE_FLAG_DIRTY\<rparr>)\<rparr>"

lemma transfer_write_good:
  "good_disk (world s) \<Longrightarrow> apaCacheTransfer sim_env i 1 s = (0, home_put i s)"
  by (simp add: apaCacheTransfer_def apaWriteHeader_def Let_def home_put_def upd_entry_def)

definition home_of :: "('d, 'z) apa_state_scheme \<Rightarrow> nat list \<Rightarrow> txn" where
  "home_of s is = map (\<lambda>i. (c_sector (cacheBuf s i), header_words (hdr s i))) is"

lemma home_of_simps [simp]: "home_of s [] = []"
  "home_of s (i # is) = (c_sector (cacheBuf s i), header_words (hdr s i)) # home_of s is"
  by (simp_all add: home_of_def)

definition clean_entry :: "apa_cache \<Rightarrow> apa_cache" where
  "clean_entry c = c\<lparr>c_flags := c_flags c AND NOT APA_CACHE_FLAG_DIRTY\<rparr>"

lemma write_phase:
  assumes "good_disk (world s)" "distinct is"
  shows "world (fold (write_dirty sim_env d) is s) = logged (home_events d (home_of s (filter (dirty_of d s) is))) (world s) \<and>
     journalBuf (fold (write_dirty sim_env d) is s) = journalBuf s \<and> cacheSize (fold (write_dirty sim_env d) is s) = cacheSize s \<and>
     apa_state.more (fold (write_dirty sim_env d) is s) = apa_state.more s \<and>
     cacheBuf (fold (write_dirty sim_env d) is s) =
       (\<lambda>i. if i \<in> set is \<and> dirty_of d s i then clean_entry (cacheBuf s i) else cacheBuf s i)"
  using assms
proof (induction "is" arbitrary: s)
  case Nil
  then show ?case by (simp add: home_of_def)
next
  case (Cons i "is")
  show ?case
  proof (cases "dirty_of d s i")
    case False
    then show ?thesis using Cons by (auto simp: write_dirty_def fun_eq_iff)
  next
    case True
    let ?u = "home_put i s"
    have D: "filter (dirty_of d ?u) is = filter (dirty_of d s) is"
      using Cons.prems(2) by (intro filter_cong) (auto simp: dirty_of_def home_put_def)
    have H: "home_of ?u (filter (dirty_of d s) is) = home_of s (filter (dirty_of d s) is)"
      using Cons.prems(2) by (auto simp: home_of_def home_put_def)
    have "c_device (cacheBuf s i) = d" using True by (simp add: dirty_of_def)
    moreover have u: "good_disk (world ?u)" "cacheSize ?u = cacheSize s" "journalBuf ?u = journalBuf s"
      "world ?u = logged (write_events (c_device (cacheBuf s i)) (c_sector (cacheBuf s i)) 2 (header_words (hdr s i))) (world s)"
      using Cons.prems(1) by (simp_all add: home_put_def)
    moreover have "apa_state.more ?u = apa_state.more s" "cacheBuf ?u = (cacheBuf s)(i := clean_entry (cacheBuf s i))"
      by (simp_all add: home_put_def clean_entry_def)
    moreover have "dirty_of d ?u j = dirty_of d s j" if "j \<noteq> i" for j
      using that by (simp add: dirty_of_def home_put_def)
    moreover have "write_dirty sim_env d i s = ?u"
      using True Cons.prems(1) transfer_write_good [of s i] by (simp add: write_dirty_def)
    ultimately show ?thesis using Cons.IH [OF u(1)] Cons.prems(2) True by (auto simp: D H fun_eq_iff)
  qed
qed

lemma journal_flush_good:
  assumes "good_disk (world s)"
  shows "apaJournalFlush sim_env d s =
     (0, s\<lparr>world := logged (EFlush d # write_events d APA_SECTOR_APAL 1 (journal_words (journalBuf s)) @ [EFlush d]) (world s)\<rparr>)"
  using assms by (simp add: apaJournalFlush_def)

text \<open>The journal record of a transaction, and the whole log of the call.\<close>

definition journal_rec :: "u32 list \<Rightarrow> txn \<Rightarrow> apa_journal" where
  "journal_rec secs ps = \<lparr>j_magic = APAL_MAGIC, j_num = of_nat (length ps), j_sectors = map fst ps @ drop (length ps) secs\<rparr>"

definition flush_events :: "s32 \<Rightarrow> u32 list \<Rightarrow> txn \<Rightarrow> io_event list" where
  "flush_events d secs ps =
     slot_events d 0 ps @ EFlush d # write_events d APA_SECTOR_APAL 1 (journal_words (journal_rec secs ps)) @ EFlush d #
     home_events d ps @ EFlush d # write_events d APA_SECTOR_APAL 1 (journal_words empty_journal) @ EFlush d # []"

definition dirty_entries :: "s32 \<Rightarrow> ('d, 'z) apa_state_scheme \<Rightarrow> nat list" where
  "dirty_entries d s = filter (dirty_of d s) (cache_entries (cacheSize s))"

lemma flush_all_good:
  assumes "good_disk (world s)" "journalBuf s = \<lparr>j_magic = APAL_MAGIC, j_num = 0, j_sectors = secs\<rparr>" "length secs = 126"
    and "length (dirty_entries d s) \<le> 126"
  shows "\<exists>t. apaCacheFlushAllDirty sim_env d s = Some (0, t) \<and>
     world t = logged (flush_events d secs (txn_of s (dirty_entries d s))) (world s) \<and>
     cacheBuf t = (\<lambda>i. if i \<in> set (dirty_entries d s) then clean_entry (seal_entry (cacheBuf s i)) else cacheBuf s i) \<and>
     journalBuf t = empty_journal \<and> cacheSize t = cacheSize s \<and> apa_state.more t = apa_state.more s"
proof -
  let ?E = "cache_entries (cacheSize s)" and ?D = "dirty_entries d s"
  obtain s1 where s1: "ofold (journal_dirty sim_env d) ?E s = Some s1" and j1: "journaled 0 d ?D s s1"
    using journal_phase [of s 0 ?E d] assms by (auto simp: dirty_entries_def)
  have jb: "journalBuf s1 = journal_rec secs (txn_of s ?D)"
    using j1 assms(2) by (simp add: journaled_def journal_rec_def txn_of_def)
  have g1: "good_disk (world s1)" using j1 assms(1) by (simp add: journaled_def)
  define s2 where "s2 = snd (apaJournalFlush sim_env d s1)"
  have w2: "world s2 = logged (slot_events d 0 (txn_of s ?D) @ EFlush d #
      write_events d APA_SECTOR_APAL 1 (journal_words (journal_rec secs (txn_of s ?D))) @ [EFlush d]) (world s)"
    using j1 g1 jb by (simp add: s2_def journal_flush_good journaled_def)
  have c2: "cacheBuf s2 = cacheBuf s1" "cacheSize s2 = cacheSize s1" "apa_state.more s2 = apa_state.more s1" using g1 by (simp_all add: s2_def journal_flush_good)
  have g2: "good_disk (world s2)" using assms(1) by (simp add: w2)
  have D2: "filter (dirty_of d s2) ?E = ?D"
    unfolding dirty_entries_def using j1 by (intro filter_cong) (auto simp: dirty_of_def c2 journaled_def)
  have H2: "home_of s2 ?D = txn_of s ?D"
    using j1 by (auto simp: home_of_def txn_of_def c2 journaled_def sealed_entry)
  define s3 where "s3 = fold (write_dirty sim_env d) ?E s2"
  have w3: "world s3 = logged (home_events d (txn_of s ?D)) (world s2)" and k3: "cacheSize s3 = cacheSize s"
    "apa_state.more s3 = apa_state.more s"
    and c3: "cacheBuf s3 = (\<lambda>i. if i \<in> set ?E \<and> dirty_of d s2 i then clean_entry (cacheBuf s2 i) else cacheBuf s2 i)"
    using write_phase [OF g2, of ?E d] j1 by (simp_all add: s3_def D2 H2 journaled_def c2)
  have c4: "cacheBuf s3 = (\<lambda>i. if i \<in> set ?D then clean_entry (seal_entry (cacheBuf s i)) else cacheBuf s i)"
    using j1 by (auto simp: c3 fun_eq_iff journaled_def dirty_entries_def dirty_of_def c2)
  have g3: "good_disk (world (s3\<lparr>journalBuf := empty_journal\<rparr>))" using g2 by (simp add: w3)
  have "apaCacheFlushAllDirty sim_env d s = Some (apaJournalReset sim_env d s3)"
    by (simp add: apaCacheFlushAllDirty_def s1 Let_def s2_def s3_def)
  then show ?thesis
    by (auto simp: apaJournalReset_def journal_flush_good [OF g3] w3 w2 flush_events_def c4 k3)
qed

end
