(* ===== verification/ApaCrash.thy ===== *)
theory ApaCrash
  imports ApaJournal
begin

text \<open>
  Recovery after a power failure: what \<open>apaJournalRestore\<close> does with the sectors the
  failure left, and the atomicity of \<open>apaCacheFlushAllDirty\<close>.
\<close>

subsection \<open>Images and logs\<close>

definition journal_area :: "u32 \<Rightarrow> bool" where
  "journal_area l \<longleftrightarrow> APA_SECTOR_APAL \<le> l \<and> l < APA_SECTOR_APAL_HEADERS + 2 * 126"

definition off_journal :: "u32 \<Rightarrow> bool" where
  "off_journal x \<longleftrightarrow> \<not> journal_area x \<and> \<not> journal_area (x + 1)"

text \<open>Two images that agree except for the journal of device \<open>d\<close>.\<close>

definition same_data :: "s32 \<Rightarrow> image \<Rightarrow> image \<Rightarrow> bool" where
  "same_data d a b \<longleftrightarrow> (\<forall>d' l. \<not> (d' = d \<and> journal_area l) \<longrightarrow> a d' l = b d' l)"

lemma same_data_refl [simp]: "same_data d a a"
  by (simp add: same_data_def)

lemma same_data_trans: "same_data d a b \<Longrightarrow> same_data d b c \<Longrightarrow> same_data d a c"
  by (simp add: same_data_def)

lemma same_data_sym: "same_data d a b \<Longrightarrow> same_data d b a"
  by (simp add: same_data_def)

definition full_sector :: "io_event \<Rightarrow> bool" where
  "full_sector e \<longleftrightarrow> (case e of EWrite _ _ ws \<Rightarrow> length ws = 128 | EFlush _ \<Rightarrow> True)"

lemma norm128_apply: "full_sector e \<Longrightarrow> norm128 (apply_event e img) = apply_event e (norm128 img)"
  by (cases e) (simp_all add: full_sector_def norm128_put)

lemma norm128_fold: "(\<And>e. e \<in> set es \<Longrightarrow> full_sector e) \<Longrightarrow> norm128 (fold apply_event es img) = fold apply_event es (norm128 img)"
  by (induction es arbitrary: img) (simp_all add: norm128_apply)

lemma sim_image_logged:
  "(\<And>e. e \<in> set es \<Longrightarrow> full_sector e) \<Longrightarrow> sim_image (logged es w) = fold apply_event es (sim_image w)"
  by (simp add: sim_image_def logged_def norm128_fold)

lemma write_events_full: "128 * n \<le> length ws \<Longrightarrow> e \<in> set (write_events d l n ws) \<Longrightarrow> full_sector e"
  by (auto simp: write_events_def full_sector_def chunk_def)

text \<open>Transactions of whole headers.\<close>

definition whole :: "txn \<Rightarrow> bool" where
  "whole ps \<longleftrightarrow> (\<forall>p \<in> set ps. length (snd p) = 256)"

lemma whole_simps [simp]: "whole []" "whole (p # ps) \<longleftrightarrow> length (snd p) = 256 \<and> whole ps"
  by (auto simp: whole_def)

lemma write_events_full_2: "length ws = 256 \<Longrightarrow> e \<in> set (write_events d l 2 ws) \<Longrightarrow> full_sector e"
  by (rule write_events_full [of 2 ws]) simp_all

lemma home_events_full: "whole ps \<Longrightarrow> e \<in> set (home_events d ps) \<Longrightarrow> full_sector e"
  by (induction ps) (auto dest: write_events_full_2 [rotated])

lemma slot_events_full: "whole ps \<Longrightarrow> e \<in> set (slot_events d k ps) \<Longrightarrow> full_sector e"
  by (induction ps arbitrary: k) (auto dest: write_events_full_2 [rotated])

text \<open>Logs inside and outside the journal.\<close>

lemma hits_write_events: "e \<in> set (write_events d l n ws) \<Longrightarrow> hits d' l' e \<Longrightarrow> d' = d \<and> covers l n l'"
  by (auto simp: write_events_def hits_def covers_def)

lemma hits_home: "e \<in> set (home_events d ps) \<Longrightarrow> hits d' l e \<Longrightarrow> d' = d \<and> (\<exists>p \<in> set ps. l = fst p \<or> l = fst p + 1)"
  by (induction ps) (auto dest!: hits_write_events simp: covers_2)

lemma slot_in_area: "k < 126 \<Longrightarrow> journal_area (slot k)"
    "k < 126 \<Longrightarrow> journal_area (slot k + 1)"
  by (simp_all add: slot_def journal_area_def APA_SECTOR_APAL_def APA_SECTOR_APAL_HEADERS_def word_le_nat_alt word_less_nat_alt
      unat_word_ariths unat_of_nat take_bit_nat_eq_self)

lemma hits_slot: "e \<in> set (slot_events d k ps) \<Longrightarrow> hits d' l e \<Longrightarrow>
   d' = d \<and> (\<exists>j. k \<le> j \<and> j < k + length ps \<and> (l = slot j \<or> l = slot j + 1))"
proof (induction ps arbitrary: k)
  case Nil
  then show ?case by simp
next
  case (Cons p ps)
  then consider "e \<in> set (write_events d (slot k) 2 (snd p))" | "e \<in> set (slot_events d (Suc k) ps)"
    by auto
  then show ?case
  proof cases
    case 1
    then show ?thesis using hits_write_events [OF 1 Cons.prems(2)] by (auto simp: covers_2)
  next
    case 2
    from Cons.IH [OF 2 Cons.prems(2)] obtain j where "d' = d" "Suc k \<le> j" "j < Suc k + length ps" "l = slot j \<or> l = slot j + 1"
      by blast
    then show ?thesis by (intro conjI exI [of _ j]) auto
  qed
qed

lemma slot_events_same_data:
  assumes "k + length ps \<le> 126" "set es \<subseteq> set (slot_events d k ps)"
  shows "same_data d (fold apply_event es img) img"
  unfolding same_data_def
proof (intro allI impI)
  fix d' l assume *: "\<not> (d' = d \<and> journal_area l)"
  show "fold apply_event es img d' l = img d' l"
  proof (rule fold_miss)
    fix e assume "e \<in> set es"
    then have e: "e \<in> set (slot_events d k ps)" using assms(2) by blast
    show "\<not> hits d' l e"
    proof
      assume "hits d' l e"
      from hits_slot [OF e this] obtain j where j: "d' = d" "j < k + length ps" "l = slot j \<or> l = slot j + 1"
        by blast
      moreover have "j < 126" using j(2) assms(1) by simp
      ultimately show False using * slot_in_area by blast
    qed
  qed
qed


lemma home_events_off:
  assumes "\<And>p. p \<in> set ps \<Longrightarrow> off_journal (fst p)" "set es \<subseteq> set (home_events d ps)" "journal_area l"
  shows "fold apply_event es img d' l = img d' l"
proof (rule fold_miss)
  fix e assume "e \<in> set es"
  then have e: "e \<in> set (home_events d ps)" using assms(2) by blast
  show "\<not> hits d' l e"
    using hits_home [OF e, of d' l] assms(1,3) by (auto simp: off_journal_def)
qed

text \<open>What the images hold of the journal only matters inside it.\<close>

lemma home_events_same_data:
  assumes "same_data d a b"
  shows "same_data d (fold apply_event (home_events d ps) a) (fold apply_event (home_events d ps) b)"
  unfolding same_data_def
proof (intro allI impI)
  fix d' l assume "\<not> (d' = d \<and> journal_area l)"
  then show "fold apply_event (home_events d ps) a d' l = fold apply_event (home_events d ps) b d' l"
    using assms by (intro fold_same) (simp add: same_data_def)
qed

lemma put_journal_same_data: "journal_area l \<Longrightarrow> same_data d (put_sector d l ws img) img"
  by (simp add: same_data_def put_sector_def)

lemma apal_in_area: "journal_area APA_SECTOR_APAL"
  by (simp add: journal_area_def APA_SECTOR_APAL_def APA_SECTOR_APAL_HEADERS_def)

lemma write_1: "length ws = 128 \<Longrightarrow> write_events d l (Suc 0) ws = [EWrite d l ws]"
  by (simp add: write_events_def chunk_def)

lemma write_2: "write_events d l 2 ws = [EWrite d l (chunk 0 ws), EWrite d (l + 1) (chunk 1 ws)]"
  by (simp add: write_events_def numeral_2_eq_2)

lemma slot_neq: "j < 126 \<Longrightarrow> k < 126 \<Longrightarrow> j \<noteq> k \<Longrightarrow> slot j \<noteq> slot k \<and> slot j \<noteq> slot k + 1 \<and> slot j + 1 \<noteq> slot k"
  "slot k + 1 \<noteq> slot k"
proof -
  have u: "unat (slot j) = 10 + 2 * j \<and> unat (slot j + 1) = 11 + 2 * j" if "j < 126" for j
    using that by (simp add: slot_def APA_SECTOR_APAL_HEADERS_def unat_word_ariths unat_of_nat take_bit_nat_eq_self)
  show "j < 126 \<Longrightarrow> k < 126 \<Longrightarrow> j \<noteq> k \<Longrightarrow> slot j \<noteq> slot k \<and> slot j \<noteq> slot k + 1 \<and> slot j + 1 \<noteq> slot k"
    using u [of j] u [of k] by (metis add_left_cancel even_add even_mult_iff even_numeral mult_left_cancel odd_numeral zero_neq_numeral)
  show "slot k + 1 \<noteq> slot k" by simp
qed

text \<open>The logged headers can be read back from the journal's slots.\<close>

lemma slot_events_other:
  assumes "\<And>i. k \<le> i \<Longrightarrow> i < k + length ps \<Longrightarrow> l \<noteq> slot i \<and> l \<noteq> slot i + 1"
  shows "fold apply_event (slot_events d k ps) img d l = img d l"
proof (rule fold_miss)
  fix e assume e: "e \<in> set (slot_events d k ps)"
  show "\<not> hits d l e" using hits_slot [OF e, of d l] assms by blast
qed

lemma slot_events_read:
  assumes "whole ps" "k + length ps \<le> 126" "j < length ps"
  shows "sectors (fold apply_event (slot_events d k ps) img) d (slot (k + j)) 2 = snd (ps ! j)"
  using assms
proof (induction ps arbitrary: k j img)
  case Nil
  then show ?case by simp
next
  case (Cons p ps)
  let ?img = "fold apply_event (write_events d (slot k) 2 (snd p)) img"
  show ?case
  proof (cases j)
    case 0
    have k: "k < 126" using Cons.prems by simp
    have "slot k \<noteq> slot i \<and> slot k \<noteq> slot i + 1 \<and> slot k + 1 \<noteq> slot i" if "Suc k \<le> i" "i < Suc k + length ps" for i
      using slot_neq(1) [of i k] that Cons.prems(2) k by auto
    then have "fold apply_event (slot_events d (Suc k) ps) ?img d l = ?img d l" if "l = slot k \<or> l = slot k + 1" for l
      using that by (intro slot_events_other) auto
    then have "sectors (fold apply_event (slot_events d (Suc k) ps) ?img) d (slot k) 2 = sectors ?img d (slot k) 2"
      by (simp add: sectors_2)
    then show ?thesis using 0 Cons.prems(1) by (simp add: fold_write_events sectors_put_sectors_2)
  next
    case (Suc i)
    then show ?thesis using Cons.IH [of "Suc k" i ?img] Cons.prems by simp
  qed
qed


subsection \<open>Recovery\<close>

text \<open>The slots of the journal hold the transaction, and its targets are outside the journal.\<close>

definition journal_holds :: "s32 \<Rightarrow> nat \<Rightarrow> txn \<Rightarrow> u32 list \<Rightarrow> image \<Rightarrow> bool" where
  "journal_holds d k ps secs img \<longleftrightarrow> k + length ps \<le> 126 \<and> length secs = 126 \<and> whole ps \<and>
     (\<forall>p \<in> set ps. off_journal (fst p)) \<and>
     (\<forall>j < length ps. sectors img d (slot (k + j)) 2 = snd (ps ! j) \<and> secs ! (k + j) = fst (ps ! j))"

lemma journal_holds_Cons:
  assumes "journal_holds d k (p # ps) secs img"
  shows "sectors img d (slot k) 2 = snd p" "secs ! k = fst p" "length (snd p) = 256" "k < 126" "length secs = 126"
    "journal_holds d (Suc k) ps secs (fold apply_event (write_events d (fst p) 2 (snd p)) img)"
proof -
  show "sectors img d (slot k) 2 = snd p" "secs ! k = fst p" "length (snd p) = 256" "k < 126" "length secs = 126"
    using assms by (auto simp: journal_holds_def)
  let ?img = "fold apply_event (write_events d (fst p) 2 (snd p)) img"
  have off: "off_journal (fst p)" using assms by (simp add: journal_holds_def)
  have "sectors ?img d (slot (Suc k + j)) 2 = snd (ps ! j) \<and> secs ! (Suc k + j) = fst (ps ! j)" if j: "j < length ps" for j
  proof -
    have i: "Suc k + j < 126" using assms j by (simp add: journal_holds_def)
    have "?img d l = img d l" if "journal_area l" for l
      using home_events_off [of "[p]" "write_events d (fst p) 2 (snd p)" d l img d] off that by simp
    then have "sectors ?img d (slot (Suc k + j)) 2 = sectors img d (slot (Suc k + j)) 2"
      using slot_in_area [OF i] by (simp add: sectors_2)
    then show ?thesis using assms j unfolding journal_holds_def by (auto dest!: spec [of _ "Suc j"])
  qed
  then show "journal_holds d (Suc k) ps secs ?img" using assms by (simp add: journal_holds_def)
qed

text \<open>One header is copied home.\<close>

definition copied :: "s32 \<Rightarrow> nat \<Rightarrow> u32 \<times> u32 list \<Rightarrow> (sim_disk, 'z) apa_state_scheme \<Rightarrow> (sim_disk, 'z) apa_state_scheme" where
  "copied d c p s = (set_header c (\<lambda>_. header_of_words (snd p)) s)\<lparr>world := logged (write_events d (fst p) 2 (snd p)) (world s)\<rparr>"

lemma journal_copy_good:
  assumes "good_disk (world s)" "wf_header (hdr s c)" "sectors (sim_image (world s)) d (slot k) 2 = snd p"
    and "length (snd p) = 256" "k < length (j_sectors (journalBuf s))" "j_sectors (journalBuf s) ! k = fst p"
  shows "journal_copy sim_env d (Some c) k s = Some (0, copied d c p s)"
  using assms
  by (simp add: journal_copy_def slot_def [symmetric] Let_def overlay_full copied_def header_words_of_words)

lemma copied_sel [simp]:
  "good_disk (world (copied d c p s)) = good_disk (world s)" "journalBuf (copied d c p s) = journalBuf s"
  "world (copied d c p s) = logged (write_events d (fst p) 2 (snd p)) (world s)"
  "hdr (copied d c p s) c = header_of_words (snd p)"
  by (simp_all add: copied_def)

lemma journal_copy_all_good:
  assumes "good_disk (world s)" "wf_header (hdr s c)" "journal_holds d k ps (j_sectors (journalBuf s)) (sim_image (world s))"
  shows "\<exists>t. journal_copy_all sim_env d (Some c) [k..<k + length ps] 0 s = Some (0, t) \<and>
     world t = logged (home_events d ps) (world s)"
  using assms
proof (induction ps arbitrary: k s)
  case Nil
  then show ?case by simp
next
  case (Cons p ps)
  note h = journal_holds_Cons [OF Cons.prems(3)]
  have step: "journal_copy sim_env d (Some c) k s = Some (0, copied d c p s)"
    using journal_copy_good [OF Cons.prems(1,2) h(1,3)] h by simp
  have "sim_image (world (copied d c p s)) = fold apply_event (write_events d (fst p) 2 (snd p)) (sim_image (world s))"
    using h(3) by (simp add: sim_image_logged write_events_full_2)
  then have "\<exists>t. journal_copy_all sim_env d (Some c) [Suc k..<Suc k + length ps] 0 (copied d c p s) = Some (0, t) \<and>
     world t = logged (home_events d ps) (world (copied d c p s))"
    using Cons.IH [of "copied d c p s" "Suc k"] Cons.prems(1) h(3,6) by (simp add: wf_header_of_words)
  moreover have "[k..<k + length (p # ps)] = k # [Suc k..<Suc k + length ps]" by (simp add: upt_conv_Cons del: upt_Suc)
  ultimately show ?case using step by auto
qed

lemma free_world [simp]: "world (apaCacheFree c s) = world s"
  by (simp add: apaCacheFree_def Let_def split: option.splits)

lemma reset_good:
  assumes "good_disk (world s)"
  shows "\<exists>t. apaJournalReset sim_env d s = (0, t) \<and> same_data d (sim_image (world t)) (sim_image (world s))"
proof -
  let ?es = "EFlush d # write_events d APA_SECTOR_APAL 1 (journal_words empty_journal) @ [EFlush d]"
  have len: "length (journal_words empty_journal) = 128" by (simp add: journal_words_def empty_journal_def)
  have r: "apaJournalReset sim_env d s = (0, s\<lparr>journalBuf := empty_journal, world := logged ?es (world s)\<rparr>)"
    using assms by (simp add: apaJournalReset_def journal_flush_good)
  have "sim_image (logged ?es (world s)) = fold apply_event ?es (sim_image (world s))"
    by (rule sim_image_logged) (use len in \<open>auto simp: write_1 full_sector_def\<close>)
  then show ?thesis using r len by (simp add: write_1 put_journal_same_data apal_in_area)
qed

lemma journal_words_inverse: "journal_of_words (journal_words j) = j"
  by (simp add: journal_of_words_def journal_words_def)

lemma sint_small: "n \<le> 126 \<Longrightarrow> sint (of_nat n :: s32) = int n"
  by (simp add: signed_of_nat signed_take_bit_int_eq_self)

text \<open>A committed journal is replayed.\<close>

lemma restore_committed:
  assumes good: "good_disk (world u)" and q: "cache_queue u (c # ys)" and len: "length (j_sectors (journalBuf u)) = 126"
    and rec: "sim_image (world u) d APA_SECTOR_APAL = journal_words (journal_rec secs ps)"
    and holds: "journal_holds d 0 ps (j_sectors (journal_rec secs ps)) (sim_image (world u))"
  shows "\<exists>v. apaJournalRestore sim_env d u = Some (0, v) \<and>
     same_data d (sim_image (world v)) (fold apply_event (home_events d ps) (sim_image (world u)))"
proof -
  let ?J = "journal_rec secs ps" and ?img = "sim_image (world u)"
  have n: "length ps \<le> 126" "length (j_sectors ?J) = 126" and w: "whole ps" using holds by (simp_all add: journal_holds_def)
  have "length (journal_words ?J) = length (journal_words (journalBuf u))" using n(2) len by (simp add: journal_words_def)
  then have ov: "overlay (journal_words ?J) (journal_words (journalBuf u)) = journal_words ?J" by (rule overlay_full)
  have s1: "sectors ?img d APA_SECTOR_APAL 1 = journal_words ?J" using rec by (simp add: sectors_def)
  define u1 where "u1 = u\<lparr>world := world u, journalBuf := ?J\<rparr>"
  have unf: "apaJournalRestore sim_env d u = (if j_num ?J = 0 then Some (0, u1)
       else do {
         let (clink, s2) = apaCacheAlloc u1;
         (ret2, s3) \<leftarrow> journal_copy_all sim_env d clink [0..<nat (sint (j_num ?J))] 0 s2;
         Some (apaJournalReset sim_env d (apaCacheFree clink s3)) })"
    using good by (simp add: apaJournalRestore_def s1 ov journal_words_inverse u1_def Let_def del: One_nat_def)
      (simp add: journal_rec_def)
  show ?thesis
  proof (cases "ps = []")
    case True
    then show ?thesis using unf by (simp add: journal_rec_def u1_def)
  next
    case False
    have jn: "j_num ?J \<noteq> 0" "nat (sint (j_num ?J)) = length ps"
    proof -
      show *: "nat (sint (j_num ?J)) = length ps" using n(1) by (simp add: journal_rec_def sint_small)
      show "j_num ?J \<noteq> 0" using * False by auto
    qed
    have q1: "cache_queue u1 (c # ys)" using q cache_queue_cong [of u1 u] by (simp add: u1_def)
    obtain u2 where u2: "apaCacheAlloc u1 = (Some c, u2)" "cache_queue u2 ys" "world u2 = world u1" "journalBuf u2 = journalBuf u1"
      "cacheSize u2 = cacheSize u1" using alloc_queue [OF q1] by auto
    have "c \<in> {1..cacheSize u2}" using cache_queue_entry [OF q1, of c] u2(5) by simp
    then have wf: "wf_header (hdr u2 c)" using u2(2) by (simp add: cache_queue_def)
    have "world u2 = world u" "journalBuf u2 = ?J" using u2(3,4) by (simp_all add: u1_def)
    then obtain t where t: "journal_copy_all sim_env d (Some c) [0..<length ps] 0 u2 = Some (0, t)"
      "world t = logged (home_events d ps) (world u)"
      using journal_copy_all_good [of u2 c d 0 ps] good wf holds by auto
    have "good_disk (world (apaCacheFree (Some c) t))" using t(2) good by simp
    from reset_good [OF this, of d] obtain v where v: "apaJournalReset sim_env d (apaCacheFree (Some c) t) = (0, v)"
      "same_data d (sim_image (world v)) (sim_image (world t))" by auto
    have "sim_image (world t) = fold apply_event (home_events d ps) ?img"
      unfolding t(2) by (rule sim_image_logged) (rule home_events_full [OF w])
    then show ?thesis using unf jn u2(1) t(1) v by simp
  qed
qed

text \<open>A journal that is not committed is ignored.\<close>

lemma restore_nothing:
  assumes good: "good_disk (world u)" and len: "length (j_sectors (journalBuf u)) = 126"
    and rec: "sim_image (world u) d APA_SECTOR_APAL ! 0 \<noteq> APAL_MAGIC \<or> sim_image (world u) d APA_SECTOR_APAL ! 1 = 0"
  shows "\<exists>v. apaJournalRestore sim_env d u = Some (0, v) \<and> same_data d (sim_image (world v)) (sim_image (world u))"
proof -
  let ?img = "sim_image (world u)"
  let ?J = "journal_of_words (?img d APA_SECTOR_APAL)"
  have s1: "sectors ?img d APA_SECTOR_APAL 1 = ?img d APA_SECTOR_APAL" by (simp add: sectors_def)
  have "length (?img d APA_SECTOR_APAL) = length (journal_words (journalBuf u))"
    using len by (simp add: journal_words_def ata_okD(1) [OF sim_env_ok])
  then have ov: "overlay (?img d APA_SECTOR_APAL) (journal_words (journalBuf u)) = ?img d APA_SECTOR_APAL" by (rule overlay_full)
  let ?u1 = "u\<lparr>world := world u, journalBuf := ?J\<rparr>"
  have r: "apaJournalRestore sim_env d u = (if j_magic ?J = APAL_MAGIC \<and> j_num ?J = 0 then Some (0, ?u1)
      else Some (apaJournalReset sim_env d ?u1))"
    using good rec by (auto simp: apaJournalRestore_def s1 ov Let_def journal_of_words_def simp del: One_nat_def)
  obtain v where "apaJournalReset sim_env d ?u1 = (0, v)" "same_data d (sim_image (world v)) (sim_image (world ?u1))"
    using reset_good [of ?u1 d] good by auto
  then show ?thesis using r by auto
qed


subsection \<open>Atomicity\<close>

text \<open>
  \<open>recovers d u old\<close>: \<open>apaJournalRestore\<close>, started after the failure in state \<open>u\<close>,
  succeeds and leaves the data of image \<open>old\<close>.
\<close>

definition recovers :: "s32 \<Rightarrow> sim_disk apa_state \<Rightarrow> image \<Rightarrow> bool" where
  "recovers d u old \<longleftrightarrow> (\<exists>v. apaJournalRestore sim_env d u = Some (0, v) \<and> same_data d (sim_image (world v)) old)"

text \<open>A freshly started library on a sound drive that holds \<open>img\<close>.\<close>

definition restarted :: "image \<Rightarrow> sim_disk apa_state \<Rightarrow> bool" where
  "restarted img u \<longleftrightarrow> good_disk (world u) \<and> sim_image (world u) = img \<and> length (j_sectors (journalBuf u)) = 126 \<and>
     (\<exists>c ys. cache_queue u (c # ys))"

definition uncommitted :: "s32 \<Rightarrow> image \<Rightarrow> bool" where
  "uncommitted d img \<longleftrightarrow> img d APA_SECTOR_APAL ! 0 \<noteq> APAL_MAGIC \<or> img d APA_SECTOR_APAL ! 1 = 0"

lemma recovers_old:
  assumes "restarted img u" "uncommitted d img" "same_data d img old"
  shows "recovers d u old"
proof -
  from assms(1,2) obtain v where "apaJournalRestore sim_env d u = Some (0, v)" "same_data d (sim_image (world v)) img"
    using restore_nothing [of u d] by (auto simp: restarted_def uncommitted_def)
  then show ?thesis using assms(3) same_data_trans unfolding recovers_def by blast
qed

lemma apal_not_slot: "j < 126 \<Longrightarrow> APA_SECTOR_APAL \<noteq> slot j \<and> APA_SECTOR_APAL \<noteq> slot j + 1"
  by (auto simp: slot_def APA_SECTOR_APAL_def APA_SECTOR_APAL_HEADERS_def word_unat_eq_iff unat_word_ariths unat_of_nat
      take_bit_nat_eq_self)

lemma slot_keeps_apal:
  assumes "length ps \<le> 126" "set es \<subseteq> set (slot_events d 0 ps)"
  shows "fold apply_event es img d APA_SECTOR_APAL = img d APA_SECTOR_APAL"
proof (rule fold_miss)
  fix e assume "e \<in> set es"
  then have "e \<in> set (slot_events d 0 ps)" using assms(2) by blast
  then show "\<not> hits d APA_SECTOR_APAL e"
    using hits_slot [of e d 0 ps d APA_SECTOR_APAL] apal_not_slot assms(1) by (metis add_0 order_less_le_trans)
qed

lemma fold_one_event: "set kept \<subseteq> {e} \<Longrightarrow> fold apply_event kept img = img \<or> fold apply_event kept img = apply_event e img"
proof (induction kept arbitrary: img)
  case Nil
  then show ?case by simp
next
  case (Cons x xs)
  have "apply_event e (apply_event e img) = apply_event e img" by (cases e) (auto simp: put_sector_def fun_eq_iff)
  then show ?case using Cons.IH [of "apply_event e img"] Cons.prems by auto
qed

text \<open>A transaction that the journal can hold, and the images its commit goes through.\<close>

definition txn_ok :: "s32 \<Rightarrow> u32 list \<Rightarrow> txn \<Rightarrow> image \<Rightarrow> bool" where
  "txn_ok d secs ps base \<longleftrightarrow> length secs = 126 \<and> length ps \<le> 126 \<and> whole ps \<and>
     (\<forall>p \<in> set ps. off_journal (fst p)) \<and> uncommitted d base"

definition img_logged :: "s32 \<Rightarrow> txn \<Rightarrow> image \<Rightarrow> image" where
  "img_logged d ps base = fold apply_event (slot_events d 0 ps) base"

definition img_committed :: "s32 \<Rightarrow> u32 list \<Rightarrow> txn \<Rightarrow> image \<Rightarrow> image" where
  "img_committed d secs ps base = put_sector d APA_SECTOR_APAL (journal_words (journal_rec secs ps)) (img_logged d ps base)"

definition img_written :: "s32 \<Rightarrow> u32 list \<Rightarrow> txn \<Rightarrow> image \<Rightarrow> image" where
  "img_written d secs ps base = fold apply_event (home_events d ps) (img_committed d secs ps base)"

definition img_reset :: "s32 \<Rightarrow> u32 list \<Rightarrow> txn \<Rightarrow> image \<Rightarrow> image" where
  "img_reset d secs ps base = put_sector d APA_SECTOR_APAL (journal_words empty_journal) (img_written d secs ps base)"

lemma txn_okD:
  assumes "txn_ok d secs ps base"
  shows "length secs = 126" "length ps \<le> 126" "whole ps" "\<And>p. p \<in> set ps \<Longrightarrow> off_journal (fst p)" "uncommitted d base"
  using assms by (auto simp: txn_ok_def)

lemma rec_length: "txn_ok d secs ps base \<Longrightarrow> length (journal_words (journal_rec secs ps)) = 128"
  using txn_okD(1,2) [of d secs ps base] by (simp add: journal_words_def journal_rec_def)

lemma commit_event: "txn_ok d secs ps base \<Longrightarrow> write_events d APA_SECTOR_APAL (Suc 0) (journal_words (journal_rec secs ps)) =
    [EWrite d APA_SECTOR_APAL (journal_words (journal_rec secs ps))]"
  by (rule write_1, rule rec_length)

lemma empty_length: "length (journal_words empty_journal) = 128"
  by (simp add: journal_words_def empty_journal_def)

lemma reset_event: "write_events d APA_SECTOR_APAL (Suc 0) (journal_words empty_journal) =
    [EWrite d APA_SECTOR_APAL (journal_words empty_journal)]"
  by (rule write_1 [OF empty_length])

lemma image_after: "txn_ok d secs ps base \<Longrightarrow> fold apply_event (flush_events d secs ps) base = (img_reset d secs ps base)"
  by (simp add: flush_events_def img_logged_def img_committed_def img_written_def img_reset_def commit_event reset_event)

lemma old_logged:
  assumes "txn_ok d secs ps base"
  shows "same_data d (img_logged d ps base) base"
  unfolding img_logged_def by (rule slot_events_same_data [of 0 ps]) (simp_all add: txn_okD(2) [OF assms])

lemma holds_after_commit:
  assumes ok: "txn_ok d secs ps base" and sub: "set kept \<subseteq> set (home_events d ps)"
  shows "journal_holds d 0 ps (j_sectors (journal_rec secs ps)) (fold apply_event kept (img_committed d secs ps base))"
    and "fold apply_event kept (img_committed d secs ps base) d APA_SECTOR_APAL = journal_words (journal_rec secs ps)"
proof -
  note secs = txn_okD(1) [OF ok] and room = txn_okD(2) [OF ok] and whole = txn_okD(3) [OF ok] and off = txn_okD(4) [OF ok]
  have same: "fold apply_event kept (img_committed d secs ps base) d l = (img_committed d secs ps base) d l" if "journal_area l" for l
    using home_events_off [OF off sub that] .
  show "fold apply_event kept (img_committed d secs ps base) d APA_SECTOR_APAL = journal_words (journal_rec secs ps)"
    by (simp add: same apal_in_area) (simp add: img_committed_def put_sector_def)
  have "sectors (fold apply_event kept (img_committed d secs ps base)) d (slot j) 2 = snd (ps ! j)" if j: "j < length ps" for j
  proof -
    have j126: "j < 126" using j room by simp
    have "sectors (fold apply_event kept (img_committed d secs ps base)) d (slot j) 2 = sectors (img_committed d secs ps base) d (slot j) 2"
      using slot_in_area [OF j126] by (simp add: sectors_2 same)
    also have "\<dots> = sectors (img_logged d ps base) d (slot j) 2"
      using apal_not_slot [OF j126] by (auto simp: sectors_2 img_committed_def put_sector_def)
    also have "\<dots> = snd (ps ! j)" unfolding img_logged_def using slot_events_read [OF whole, of 0 j d base] room j by simp
    finally show ?thesis .
  qed
  then show "journal_holds d 0 ps (j_sectors (journal_rec secs ps)) (fold apply_event kept (img_committed d secs ps base))"
    using room secs whole off by (simp add: journal_holds_def journal_rec_def nth_append)
qed

text \<open>Once the record is on the disk the new headers are what recovery produces.\<close>

lemma recovers_new:
  assumes ok: "txn_ok d secs ps base" and "restarted (fold apply_event kept (img_committed d secs ps base)) u" "set kept \<subseteq> set (home_events d ps)"
  shows "recovers d u (img_reset d secs ps base)"
proof -
  let ?img = "fold apply_event kept (img_committed d secs ps base)"
  obtain c ys where u: "good_disk (world u)" "sim_image (world u) = ?img" "length (j_sectors (journalBuf u)) = 126"
    "cache_queue u (c # ys)" using assms(2) by (auto simp: restarted_def)
  from restore_committed [OF u(1,4,3), of d secs ps] holds_after_commit [OF ok assms(3)] u(2)
  obtain v where v: "apaJournalRestore sim_env d u = Some (0, v)"
    "same_data d (sim_image (world v)) (fold apply_event (home_events d ps) ?img)" by auto
  have "fold apply_event (home_events d ps) ?img = (img_written d secs ps base)"
    unfolding img_written_def by (intro ext fold_replay assms(3))
  moreover have "same_data d (img_written d secs ps base) (img_reset d secs ps base)"
    unfolding img_reset_def by (rule same_data_sym, rule put_journal_same_data, rule apal_in_area)
  ultimately show ?thesis using v same_data_trans unfolding recovers_def by metis
qed

lemma reset_uncommitted: "uncommitted d (img_reset d secs ps base)"
  by (simp add: uncommitted_def img_reset_def put_sector_def journal_words_def empty_journal_def)

lemma crash_recovers:
  assumes ok: "txn_ok d secs ps base" and crash: "crash_image base (flush_events d secs ps) img" and start: "restarted img u"
  shows "recovers d u base \<or> recovers d u (img_reset d secs ps base)"
proof -
  note room = txn_okD(2) [OF ok] and old = txn_okD(5) [OF ok]
  from crash_split [OF crash [unfolded flush_events_def One_nat_def commit_event [OF ok] reset_event]] slot_are_writes
  consider kept where "set kept \<subseteq> set (slot_events d 0 ps)" "img = fold apply_event kept base"
    | "crash_image (img_logged d ps base) ([EWrite d APA_SECTOR_APAL (journal_words (journal_rec secs ps))] @ EFlush d # home_events d ps @ EFlush d #
        [EWrite d APA_SECTOR_APAL (journal_words empty_journal)] @ EFlush d # []) img"
    unfolding img_logged_def by blast
  then show ?thesis
  proof cases
    case 1
    have "same_data d img base" unfolding 1(2) using slot_events_same_data [of 0 ps kept d base] room 1(1) by simp
    moreover have "uncommitted d img" using old slot_keeps_apal [OF room 1(1)] by (simp add: uncommitted_def 1(2))
    ultimately show ?thesis using recovers_old start by blast
  next
    case 2
    from crash_split [OF 2]
    consider kept where "set kept \<subseteq> {EWrite d APA_SECTOR_APAL (journal_words (journal_rec secs ps))}" "img = fold apply_event kept (img_logged d ps base)"
      | "crash_image (img_committed d secs ps base) (home_events d ps @ EFlush d # [EWrite d APA_SECTOR_APAL (journal_words empty_journal)] @ EFlush d # []) img"
      by (auto simp: is_write_def img_committed_def)
    then show ?thesis
    proof cases
      case (1 kept)
      then consider "img = (img_logged d ps base)" | "img = (img_committed d secs ps base)" using fold_one_event [of kept _ "img_logged d ps base"] by (force simp: img_committed_def)
      then show ?thesis
      proof cases
        case 1
        have "uncommitted d (img_logged d ps base)" using old slot_keeps_apal [OF room subset_refl] by (simp add: uncommitted_def img_logged_def)
        then show ?thesis using recovers_old [of "img_logged d ps base" u d base] start 1 old_logged [OF ok] by blast
      next
        case 2
        then show ?thesis using recovers_new [OF ok, of "[]" u] start by simp
      qed
    next
      case 2
      from crash_split [OF 2] home_are_writes
      consider kept where "set kept \<subseteq> set (home_events d ps)" "img = fold apply_event kept (img_committed d secs ps base)"
        | "crash_image (img_written d secs ps base) ([EWrite d APA_SECTOR_APAL (journal_words empty_journal)] @ EFlush d # []) img"
        unfolding img_written_def by blast
      then show ?thesis
      proof cases
        case (1 kept)
        then show ?thesis using recovers_new [OF ok] start by blast
      next
        case 2
        from crash_split [OF 2] consider kept where "set kept \<subseteq> {EWrite d APA_SECTOR_APAL (journal_words empty_journal)}" "img = fold apply_event kept (img_written d secs ps base)"
          | "img = (img_reset d secs ps base)" by (auto simp: is_write_def img_reset_def dest: crash_no_flush)
        then consider "img = (img_written d secs ps base)" | "img = (img_reset d secs ps base)" using fold_one_event [of _ _ "img_written d secs ps base"] by cases (force simp: img_reset_def)+
        then show ?thesis
        proof cases
          case 1
          then show ?thesis using recovers_new [OF ok, of "home_events d ps" u] start by (simp add: img_written_def)
        next
          case 2
          then show ?thesis using recovers_old [of "img_reset d secs ps base" u d "img_reset d secs ps base"] start reset_uncommitted by simp
        qed
      qed
    qed
  qed
qed


text \<open>The journal as \<open>apaJournalReset\<close> leaves it.\<close>

definition journal_ready :: "('d, 'z) apa_state_scheme \<Rightarrow> bool" where
  "journal_ready s \<longleftrightarrow> j_magic (journalBuf s) = APAL_MAGIC \<and> j_num (journalBuf s) = 0 \<and> length (j_sectors (journalBuf s)) = 126"

lemma txn_of_sectors: "map fst (txn_of s is) = map (\<lambda>i. c_sector (cacheBuf s i)) is"
  by (simp add: txn_of_def)

lemma txn_ok_of_state:
  assumes "cache_inv s" "journal_ready s" "length (dirty_entries d s) \<le> 126"
    and "\<forall>i \<in> set (dirty_entries d s). off_journal (c_sector (cacheBuf s i))" "uncommitted d base"
  shows "txn_ok d (j_sectors (journalBuf s)) (txn_of s (dirty_entries d s)) base"
proof -
  have "length (sealed s i) = 256" if "i \<in> set (dirty_entries d s)" for i
    using that assms(1) by (auto simp: sealed_def dirty_entries_def cache_inv_def cache_queue_def)
  then show ?thesis using assms by (auto simp: txn_ok_def journal_ready_def whole_def txn_of_def)
qed

lemma flush_events_full: "txn_ok d secs ps base \<Longrightarrow> e \<in> set (flush_events d secs ps) \<Longrightarrow> full_sector e"
  unfolding flush_events_def
  by (auto simp: commit_event reset_event rec_length dest: home_events_full [rotated] slot_events_full [rotated] txn_okD(3))
    (auto simp: full_sector_def rec_length empty_length)

lemma flush_all_image:
  assumes "good_disk (world s)" "journal_ready s" "txn_ok d (j_sectors (journalBuf s)) (txn_of s (dirty_entries d s)) (sim_image (world s))"
  shows "\<exists>t. apaCacheFlushAllDirty sim_env d s = Some (0, t) \<and>
     sd_log (world t) = sd_log (world s) @ flush_events d (j_sectors (journalBuf s)) (txn_of s (dirty_entries d s)) \<and>
     sim_image (world t) = img_reset d (j_sectors (journalBuf s)) (txn_of s (dirty_entries d s)) (sim_image (world s)) \<and>
     cacheBuf t = (\<lambda>i. if i \<in> set (dirty_entries d s) then clean_entry (seal_entry (cacheBuf s i)) else cacheBuf s i) \<and>
     journalBuf t = empty_journal \<and> cacheSize t = cacheSize s \<and> apa_state.more t = apa_state.more s \<and> good_disk (world t)"
proof -
  let ?ps = "txn_of s (dirty_entries d s)" and ?secs = "j_sectors (journalBuf s)"
  have jb: "journalBuf s = \<lparr>j_magic = APAL_MAGIC, j_num = 0, j_sectors = ?secs\<rparr>"
    using assms(2) by (cases "journalBuf s") (simp add: journal_ready_def)
  have len: "length ?secs = 126" "length (dirty_entries d s) \<le> 126"
    using assms(2) txn_okD(2) [OF assms(3)] by (simp_all add: journal_ready_def txn_of_def)
  from flush_all_good [OF assms(1) jb len] obtain t where t: "apaCacheFlushAllDirty sim_env d s = Some (0, t)"
    "world t = logged (flush_events d ?secs ?ps) (world s)"
    "cacheBuf t = (\<lambda>i. if i \<in> set (dirty_entries d s) then clean_entry (seal_entry (cacheBuf s i)) else cacheBuf s i)"
    "journalBuf t = empty_journal" "cacheSize t = cacheSize s" "apa_state.more t = apa_state.more s" by auto
  have "sim_image (world t) = fold apply_event (flush_events d ?secs ?ps) (sim_image (world s))"
    unfolding t(2) by (rule sim_image_logged) (rule flush_events_full [OF assms(3)])
  then show ?thesis using t image_after [OF assms(3)] assms(1) by simp
qed

text \<open>
  C1. On a drive without bad sectors, with an empty journal and at most 126 dirty headers of
  the device, none of them on the journal's sectors, \<open>apaCacheFlushAllDirty\<close> succeeds; and
  if power fails at any point of it, with any subset of the sector writes since the last
  completed cache flush lost, \<open>apaJournalRestore\<close> succeeds at the next start and leaves
  the data of the device either as before the call or as after it, never in between.
\<close>

theorem flush_crash_atomic:
  assumes "good_disk (world s)" "cache_inv s" "journal_ready s" "length (dirty_entries d s) \<le> 126"
    and "\<forall>i \<in> set (dirty_entries d s). off_journal (c_sector (cacheBuf s i))"
    and "uncommitted d (sim_image (world s))"
  shows "\<exists>t evs. apaCacheFlushAllDirty sim_env d s = Some (0, t) \<and> sd_log (world t) = sd_log (world s) @ evs \<and>
     (\<forall>img u. crash_image (sim_image (world s)) evs img \<longrightarrow> restarted img u \<longrightarrow>
        recovers d u (sim_image (world s)) \<or> recovers d u (sim_image (world t)))"
proof -
  note ok = txn_ok_of_state [OF assms(2-6)]
  from flush_all_image [OF assms(1,3) ok] crash_recovers [OF ok] show ?thesis by metis
qed

definition demo_dirty :: "sim_disk apa_state" where
  "demo_dirty = mark_dirty 1 (set_header 1 (\<lambda>_. demo_header 7) (claim_entry 0 0x40000 1 (cache_on 2 demo_disk)))"

lemma demo_dirty_inv: "cache_inv demo_dirty" "world demo_dirty = demo_disk" "journal_ready demo_dirty"
proof -
  have "cache_queue (claim_entry 0 0x40000 1 (cache_on 2 demo_disk)) [2]"
    using claim_queue [where s = "cache_on 2 demo_disk" and i = 1 and ys = "[2]" and d = 0 and x = "0x40000"] cache_on_queue(1) [of 2 demo_disk] demo_entries
      cache_on_lookup [where d = 0] by simp
  then have "cache_queue demo_dirty [2]" unfolding demo_dirty_def
    by (intro mark_dirty_queue edit_queue) (simp_all add: demo_header_ok)
  then show "cache_inv demo_dirty" by (auto simp: cache_inv_def)
  show "world demo_dirty = demo_disk" by (simp add: demo_dirty_def cache_on_def)
  have "journalBuf (demo_cache 2) = empty_journal"
    by (simp add: demo_cache_def apaCacheInit_def Let_def demo_entries init_entry_sel demo_state_def)
  then show "journal_ready demo_dirty"
    by (simp add: journal_ready_def demo_dirty_def claim_entry_def cache_on_def empty_journal_def)
qed

lemma demo_dirty_entries: "dirty_entries 0 demo_dirty = [1]"
proof -
  have "c_device (cacheBuf (demo_cache 2) 2) = - 1"
    by (rule init_queue [of "\<lambda>_. zero_header" 2 demo_state]) (use demo_cache_init [of 2] in auto)
  moreover have "cacheSize demo_dirty = 2" by (simp add: demo_dirty_def cache_on_def demo_cache_queue(2))
  ultimately show ?thesis
    by (simp add: dirty_entries_def demo_entries dirty_of_def is_dirty_def demo_dirty_def APA_CACHE_FLAG_DIRTY_def cache_on_def)
qed

lemma demo_disk_image: "sim_image demo_disk = (\<lambda>d l. replicate 128 0)" "good_disk demo_disk"
  by (simp_all add: sim_image_def demo_disk_def norm128_def good_disk_def)

lemma demo_dirty_off: "\<forall>i \<in> set (dirty_entries 0 demo_dirty). off_journal (c_sector (cacheBuf demo_dirty i))"
  unfolding demo_dirty_entries
  by (simp add: demo_dirty_def off_journal_def journal_area_def APA_SECTOR_APAL_def APA_SECTOR_APAL_HEADERS_def)

lemma demo_uncommitted: "uncommitted 0 (sim_image (world demo_dirty))"
  by (simp add: uncommitted_def demo_dirty_inv demo_disk_image APAL_MAGIC_def)

text \<open>Power fails after the journal record is stable, before any header is written home.\<close>

definition demo_committed :: "io_event list" where
  "demo_committed = slot_events 0 0 (txn_of demo_dirty [1]) @ EFlush 0 #
     write_events 0 APA_SECTOR_APAL 1 (journal_words (journal_rec (j_sectors (journalBuf demo_dirty)) (txn_of demo_dirty [1]))) @ [EFlush 0]"

definition demo_restart :: "sim_disk apa_state" where
  "demo_restart = cache_on 2 (logged demo_committed demo_disk)"

theorem flush_crash_atomic_witness:
  "\<exists>t. apaCacheFlushAllDirty sim_env 0 demo_dirty = Some (0, t) \<and>
     (recovers 0 demo_restart (sim_image demo_disk) \<or> recovers 0 demo_restart (sim_image (world t)))"
proof -
  let ?base = "sim_image (world demo_dirty)" and ?img = "sim_image (logged demo_committed demo_disk)"
  let ?ps = "txn_of demo_dirty [1]" and ?secs = "j_sectors (journalBuf demo_dirty)"
  have len: "length (dirty_entries 0 demo_dirty) \<le> 126" "good_disk (world demo_dirty)"
    by (simp_all add: demo_dirty_entries demo_dirty_inv demo_disk_image)
  note ok = txn_ok_of_state [OF demo_dirty_inv(1,3) len(1) demo_dirty_off demo_uncommitted, unfolded demo_dirty_entries]
  from flush_crash_atomic [OF len(2) demo_dirty_inv(1,3) len(1) demo_dirty_off demo_uncommitted]
  obtain t evs where t: "apaCacheFlushAllDirty sim_env 0 demo_dirty = Some (0, t)" "sd_log (world t) = sd_log (world demo_dirty) @ evs"
    and rec: "\<And>img u. crash_image ?base evs img \<Longrightarrow> restarted img u \<Longrightarrow> recovers 0 u ?base \<or> recovers 0 u (sim_image (world t))"
    by blast
  have evs: "evs = flush_events 0 ?secs ?ps"
    using flush_all_image [OF len(2) demo_dirty_inv(3), of 0] ok t by (auto simp: demo_dirty_entries)
  have img: "?img = fold apply_event demo_committed ?base"
    using flush_events_full [OF ok] sim_image_logged [of demo_committed demo_disk]
    by (auto simp: demo_committed_def flush_events_def demo_dirty_inv)
  have "evs = demo_committed @ [] @ drop (length demo_committed) evs"
    by (simp add: evs demo_committed_def flush_events_def)
  then have "crash_image ?base evs ?img"
    unfolding crash_image_def img
    by (intro exI [of _ demo_committed] exI [of _ "[]"] exI [of _ "drop (length demo_committed) evs"])
      (simp add: is_write_def demo_committed_def)
  moreover have "restarted ?img demo_restart"
  proof -
    have "length (j_sectors (journalBuf (demo_cache 2))) = 126"
      by (simp add: demo_cache_def apaCacheInit_def Let_def demo_entries init_entry_sel demo_state_def empty_journal_def)
    then show ?thesis using cache_on_queue(1) [of 2 "logged demo_committed demo_disk"] demo_entries demo_disk_image
      by (auto simp: restarted_def demo_restart_def cache_on_def)
  qed
  ultimately show ?thesis using rec t(1) by (auto simp: demo_dirty_inv)
qed

text \<open>
  C10. The journal has 126 places and \<open>apaJournalWrite\<close> does not check: with an empty journal
  and more than 126 dirty headers of the device the call writes past
  \<open>journalBuf.sectors\<close>; with at most 126 it does not.
\<close>

theorem journal_capacity:
  assumes "good_disk (world s)" "journal_ready s"
  shows "apaCacheFlushAllDirty sim_env d s = None \<longleftrightarrow> 126 < length (dirty_entries d s)"
proof -
  have j: "j_num (journalBuf s) = of_nat 0" "length (j_sectors (journalBuf s)) = 126" using assms(2) by (simp_all add: journal_ready_def)
  show ?thesis
  proof (cases "126 < length (dirty_entries d s)")
    case True
    then have "ofold (journal_dirty sim_env d) (cache_entries (cacheSize s)) s = None"
      using journal_overflow [OF assms(1) j(1)] by (simp add: dirty_entries_def)
    then show ?thesis using True by (simp add: apaCacheFlushAllDirty_def)
  next
    case False
    then show ?thesis using journal_phase [OF assms(1) j(1,2), of "cache_entries (cacheSize s)" d]
      by (auto simp: apaCacheFlushAllDirty_def dirty_entries_def)
  qed
qed

text \<open>A table of 127 entries that are all dirty.\<close>

theorem journal_capacity_witness:
  "apaCacheFlushAllDirty sim_env 0
     (demo_state\<lparr>cacheSize := 127, cacheBuf := (\<lambda>_. (zero_entry zero_header)\<lparr>c_flags := 1\<rparr>)\<rparr>) = None"
proof -
  let ?s = "demo_state\<lparr>cacheSize := 127, cacheBuf := (\<lambda>_. (zero_entry zero_header)\<lparr>c_flags := 1\<rparr>)\<rparr>"
  have "dirty_entries 0 ?s = cache_entries 127"
    by (simp add: dirty_entries_def dirty_of_def is_dirty_def zero_entry_def APA_CACHE_FLAG_DIRTY_def)
  moreover have "length (cache_entries 127) = 127" by (simp only: cache_entries_def length_upt)
  moreover have "good_disk (world ?s)" "journal_ready ?s"
    by (simp_all add: demo_state_def demo_disk_image journal_ready_def empty_journal_def)
  ultimately show ?thesis using journal_capacity [of ?s 0] by simp
qed

subsection \<open>What a completed call leaves on the disk\<close>

definition extents_disjoint :: "u32 list \<Rightarrow> bool" where
  "extents_disjoint xs \<longleftrightarrow> distinct xs \<and> (\<forall>x \<in> set xs. x + 1 \<notin> set xs)"

lemma home_events_read:
  assumes "whole ps" "extents_disjoint (map fst ps)" "p \<in> set ps"
  shows "sectors (fold apply_event (home_events d ps) img) d (fst p) 2 = snd p"
  using assms
proof (induction ps arbitrary: img)
  case Nil
  then show ?case by simp
next
  case (Cons q ps)
  have dis: "extents_disjoint (map fst ps)" using Cons.prems(2) by (auto simp: extents_disjoint_def)
  show ?case
  proof (cases "p \<in> set ps")
    case True
    then show ?thesis using Cons.IH [OF _ dis True] Cons.prems(1) by simp
  next
    case False
    then have q: "p = q" using Cons.prems(3) by simp
    let ?img = "fold apply_event (write_events d (fst q) 2 (snd q)) img"
    have off_q: "\<forall>x \<in> set ps. fst q \<noteq> fst x \<and> fst q + 1 \<noteq> fst x \<and> fst q \<noteq> fst x + 1"
      using Cons.prems(2) by (auto simp: extents_disjoint_def)
    have "fold apply_event (home_events d ps) ?img d l = ?img d l" if "l = fst q \<or> l = fst q + 1" for l
    proof (rule fold_miss)
      fix e assume e: "e \<in> set (home_events d ps)"
      show "\<not> hits d l e" using hits_home [OF e, of d l] that off_q by auto
    qed
    then have "sectors (fold apply_event (home_events d ps) ?img) d (fst q) 2 = sectors ?img d (fst q) 2"
      by (simp add: sectors_2)
    then show ?thesis using q Cons.prems(1) by (simp add: fold_write_events sectors_put_sectors_2)
  qed
qed

text \<open>
  C6. Under the same conditions, if the dirty headers lie on disjoint sectors, after the call
  the disk holds each of them, checksum brought up to date, at its own sector, and the
  journal on the disk is empty.
\<close>

theorem flush_stores_headers:
  assumes "good_disk (world s)" "cache_inv s" "journal_ready s" "length (dirty_entries d s) \<le> 126"
    and "\<forall>i \<in> set (dirty_entries d s). off_journal (c_sector (cacheBuf s i))"
    and "uncommitted d (sim_image (world s))" "extents_disjoint (map (\<lambda>i. c_sector (cacheBuf s i)) (dirty_entries d s))"
  shows "\<exists>t. apaCacheFlushAllDirty sim_env d s = Some (0, t) \<and> uncommitted d (sim_image (world t)) \<and>
     (\<forall>i \<in> set (dirty_entries d s). header_at (sim_image (world t)) d (c_sector (cacheBuf s i)) =
        (hdr s i)\<lparr>h_checksum := apaCheckSum (hdr s i)\<rparr>)"
proof -
  let ?ps = "txn_of s (dirty_entries d s)" and ?secs = "j_sectors (journalBuf s)" and ?img = "sim_image (world s)"
  note ok = txn_ok_of_state [OF assms(2-6)]
  from flush_all_image [OF assms(1,3) ok] obtain t where t: "apaCacheFlushAllDirty sim_env d s = Some (0, t)"
    "sim_image (world t) = img_reset d ?secs ?ps ?img" by auto
  have "header_at (sim_image (world t)) d (c_sector (cacheBuf s i)) = (hdr s i)\<lparr>h_checksum := apaCheckSum (hdr s i)\<rparr>"
    if i: "i \<in> set (dirty_entries d s)" for i
  proof -
    let ?p = "(c_sector (cacheBuf s i), sealed s i)"
    have p: "?p \<in> set ?ps" using i by (simp add: txn_of_def)
    have "sectors (img_written d ?secs ?ps ?img) d (fst ?p) 2 = snd ?p"
      unfolding img_written_def
      by (rule home_events_read [OF txn_okD(3) [OF ok] _ p]) (unfold txn_of_sectors, rule assms(7))
    moreover have "fst ?p \<noteq> APA_SECTOR_APAL" "fst ?p + 1 \<noteq> APA_SECTOR_APAL"
      using assms(5) i apal_in_area by (auto simp: off_journal_def)
    ultimately have "sectors (sim_image (world t)) d (c_sector (cacheBuf s i)) 2 = sealed s i"
      by (simp add: t(2) img_reset_def sectors_2 put_sector_def)
    moreover have "wf_header (hdr s i)"
      using i assms(2) by (auto simp: dirty_entries_def cache_inv_def cache_queue_def)
    ultimately show ?thesis by (simp add: header_at_def sealed_def header_of_header_words)
  qed
  then show ?thesis using t reset_uncommitted by auto
qed

theorem flush_stores_headers_witness:
  "\<exists>t. apaCacheFlushAllDirty sim_env 0 demo_dirty = Some (0, t) \<and> uncommitted 0 (sim_image (world t)) \<and>
     header_at (sim_image (world t)) 0 0x40000 = demo_header 7"
proof -
  have "extents_disjoint (map (\<lambda>i. c_sector (cacheBuf demo_dirty i)) (dirty_entries 0 demo_dirty))"
    "length (dirty_entries 0 demo_dirty) \<le> 126" "good_disk (world demo_dirty)"
    by (simp_all add: demo_dirty_entries extents_disjoint_def demo_dirty_inv demo_disk_image)
  from flush_stores_headers [OF this(3) demo_dirty_inv(1,3) this(2) demo_dirty_off demo_uncommitted this(1)]
  obtain t where "apaCacheFlushAllDirty sim_env 0 demo_dirty = Some (0, t)" "uncommitted 0 (sim_image (world t))"
    "header_at (sim_image (world t)) 0 (c_sector (cacheBuf demo_dirty 1)) =
        (hdr demo_dirty 1)\<lparr>h_checksum := apaCheckSum (hdr demo_dirty 1)\<rparr>" by (auto simp: demo_dirty_entries)
  moreover have "(hdr demo_dirty 1)\<lparr>h_checksum := apaCheckSum (hdr demo_dirty 1)\<rparr> = demo_header 7"
    "c_sector (cacheBuf demo_dirty 1) = 0x40000"
    by (simp_all add: demo_dirty_def demo_header_ok(2))
  ultimately show ?thesis by auto
qed

end
