(* ===== verification/ApaOps.thy ===== *)
theory ApaOps
  imports ApaCache
begin

text \<open>
  The partition operations of \<open>common/libapa/src/apa.c\<close> and \<open>free.c\<close>. They work on
  the cache of \<open>ApaCache\<close>; \<open>None\<close> is a NULL dereference, a division by zero, a run
  past the journal, or (in the loops that follow the links of the disk) not returning.
\<close>

definition APA_MODVER :: u32 where "APA_MODVER = push_bit 8 1 OR 4"

text \<open>\<open>"__empty"\<close> and \<open>"_tmp"\<close>.\<close>

definition empty_id :: "u8 list" where
  "empty_id = [0x5f, 0x5f, 0x65, 0x6d, 0x70, 0x74, 0x79] @ replicate 25 0"

definition tmp_id :: "u8 list" where "tmp_id = [0x5f, 0x74, 0x6d, 0x70]"

text \<open>A cleared header with its place in the list, as three functions of the file build it.\<close>

definition blank_header :: "u32 \<Rightarrow> u32 \<Rightarrow> u32 \<Rightarrow> u32 \<Rightarrow> apa_header" where
  "blank_header start nxt prv len =
     zero_header\<lparr>h_magic := APA_MAGIC, h_start := start, h_next := nxt, h_prev := prv, h_length := len\<rparr>"

text \<open>\<open>apaGetTime(&clink->header->created)\<close>\<close>

definition stamp :: "'d ata_env \<Rightarrow> nat \<Rightarrow> ('d, 'z) apa_state_scheme \<Rightarrow> ('d, 'z) apa_state_scheme" where
  "stamp E i s = (let (tm, s1) = apaGetTime E s in set_header i (\<lambda>h. h\<lparr>h_created := tm\<rparr>) s1)"

subsection \<open>Error records\<close>

definition apaSetPartErrorSector :: "'d ata_env \<Rightarrow> s32 \<Rightarrow> u32 \<Rightarrow> ('d, 'z) apa_state_scheme \<Rightarrow> ('d, 'z) apa_state_scheme option" where
  "apaSetPartErrorSector E device lba s =
     (case apaCacheAlloc s of (None, s1) \<Rightarrow> None
      | (Some c, s1) \<Rightarrow>
          let (h, s2) = apaSaveError E device (hdr s1 c) APA_SECTOR_PART_ERROR lba s1
          in Some (apaCacheFree (Some c) (set_header c (\<lambda>_. h) s2)))"

text \<open>
  \<open>*clink->error_lba\<close> is the first word of the header buffer. The result is the return
  code and \<open>*lba_out\<close>, where it is assigned.
\<close>

definition apaGetPartErrorSector ::
    "'d ata_env \<Rightarrow> s32 \<Rightarrow> u32 \<Rightarrow> ('d, 'z) apa_state_scheme \<Rightarrow> (int \<times> u32 option) \<times> ('d, 'z) apa_state_scheme" where
  "apaGetPartErrorSector E device lba s =
     (case apaCacheAlloc s of (None, s1) \<Rightarrow> ((- ENOMEM, None), s1)
      | (Some c, s1) \<Rightarrow>
          let (r, ws, w) = ata_read E device lba 1 (world s1);
              s2 = set_header c (\<lambda>h. header_of_words (overlay ws (header_words h))) (s1\<lparr>world := w\<rparr>)
          in if r \<noteq> 0 then ((- EIO, None), s2)
             else let v = header_words (hdr s2 c) ! 0
                  in ((if v \<noteq> 0 then 1 else 0, Some v), apaCacheFree (Some c) s2))"

subsection \<open>Walking the list\<close>

definition apaGetNextHeader ::
    "'d ata_env \<Rightarrow> nat \<Rightarrow> int \<Rightarrow> ('d, 'z) apa_state_scheme \<Rightarrow> ((nat option \<times> int) \<times> ('d, 'z) apa_state_scheme) option" where
  "apaGetNextHeader E clink err s =
     (let start = h_start (hdr s clink); s1 = apaCacheFree (Some clink) s in
      if h_next (hdr s1 clink) = 0 then Some ((None, err), s1)
      else (case apaCacheGetHeader E (c_device (cacheBuf s1 clink)) (h_next (hdr s1 clink)) 0 s1 of
              ((None, e), s2) \<Rightarrow> Some ((None, e), s2)
            | ((Some c, e), s2) \<Rightarrow>
                if start \<noteq> h_prev (hdr s2 c)
                then do {
                  (r, s3) \<leftarrow> apaCacheFlushAllDirty E (c_device (cacheBuf s2 c))
                               (mark_dirty c (set_header c (\<lambda>h. h\<lparr>h_prev := start\<rparr>) s2));
                  Some ((Some c, e), s3)
                }
                else Some ((Some c, e), s2)))"

text \<open>\<open>strncpy(name, id, APA_IDMAX - 1); name[APA_IDMAX - 1] = 0\<close>\<close>

definition id_to_name :: "u8 list \<Rightarrow> u8 list" where
  "id_to_name i = (let t = takeWhile (\<lambda>b. b \<noteq> 0) (take 31 i) in t @ replicate (32 - length t) 0)"

partial_function (option) part_error_name_loop ::
    "'d ata_env \<Rightarrow> u32 \<Rightarrow> nat option \<Rightarrow> int \<Rightarrow> ('d, 'z) apa_state_scheme \<Rightarrow>
      ((int \<times> u8 list option) \<times> bool \<times> ('d, 'z) apa_state_scheme) option" where
  "part_error_name_loop E lba clink rv s =
     (case clink of None \<Rightarrow> Some ((rv, None), False, s)
      | Some c \<Rightarrow>
          if h_type (hdr s c) \<noteq> APA_TYPE_FREE \<and> h_flags (hdr s c) AND APA_CACHE_FLAG_DIRTY = 0 \<and> h_start (hdr s c) = lba
          then Some ((1, Some (id_to_name (h_id (hdr s c)))), True, apaCacheFree (Some c) s)
          else do {
            ((c2, e), s2) \<leftarrow> apaGetNextHeader E c rv s;
            part_error_name_loop E lba c2 e s2
          })"

definition apaGetPartErrorName ::
    "'d ata_env \<Rightarrow> s32 \<Rightarrow> ('d, 'z) apa_state_scheme \<Rightarrow> ((int \<times> u8 list option) \<times> ('d, 'z) apa_state_scheme) option" where
  "apaGetPartErrorName E device s =
     (let ((rv, lba), s1) = apaGetPartErrorSector E device APA_SECTOR_PART_ERROR s in
      if rv \<le> 0 then Some ((rv, None), s1)
      else do {
        l \<leftarrow> lba;
        let ((clink, rv2), s2) = apaCacheGetHeader E device 0 0 s1;
        if clink = None then Some ((rv2, None), s2)
        else do {
          (res, found, s3) \<leftarrow> part_error_name_loop E l clink rv2 s2;
          if found then Some (res, s3)
          else if fst res = 0 then do { s4 \<leftarrow> apaSetPartErrorSector E device 0 s3; Some (res, s4) }
          else Some (res, s3)
        }
      })"

subsection \<open>Creating partitions\<close>

definition apaFillHeader ::
    "'d ata_env \<Rightarrow> s32 \<Rightarrow> apa_params \<Rightarrow> u32 \<Rightarrow> u32 \<Rightarrow> u32 \<Rightarrow> u32 \<Rightarrow> ('d, 'z) apa_state_scheme \<Rightarrow>
      (nat option \<times> int) \<times> ('d, 'z) apa_state_scheme" where
  "apaFillHeader E device params start nxt prv len s =
     (case apaCacheGetHeader E device start 1 s of
        ((None, e), s1) \<Rightarrow> ((None, e), s1)
      | ((Some c, e), s1) \<Rightarrow>
          let h1 = (blank_header start nxt prv len)\<lparr>h_type := p_type params, h_flags := p_flags params,
                     h_modver := APA_MODVER, h_id := p_id params\<rparr>;
              h2 = (if p_flags params AND APA_FLAG_SUB \<noteq> 0
                    then h1\<lparr>h_main := p_main params, h_number := p_number params\<rparr>
                    else if \<not> strncmp_eq (h_id h1) tmp_id APA_IDMAX
                    then h1\<lparr>h_rpwd := p_rpwd params, h_fpwd := p_fpwd params\<rparr>
                    else h1)
          in ((Some c, e), mark_dirty c (stamp E c (set_header c (\<lambda>_. h2) s1))))"

definition apaRemovePartition ::
    "'d ata_env \<Rightarrow> s32 \<Rightarrow> u32 \<Rightarrow> u32 \<Rightarrow> u32 \<Rightarrow> u32 \<Rightarrow> ('d, 'z) apa_state_scheme \<Rightarrow> nat option \<times> ('d, 'z) apa_state_scheme" where
  "apaRemovePartition E device start nxt prv len s =
     (case apaCacheGetHeader E device start 1 s of
        ((None, e), s1) \<Rightarrow> (None, s1)
      | ((Some c, e), s1) \<Rightarrow>
          (Some c, mark_dirty c (stamp E c (set_header c (\<lambda>_. (blank_header start nxt prv len)\<lparr>h_id := empty_id\<rparr>) s1))))"

text \<open>One halving of the empty block in \<open>apaInsertPartition\<close>; \<open>Some (e, False, _)\<close> is its early return.\<close>

definition insert_split ::
    "'d ata_env \<Rightarrow> s32 \<Rightarrow> nat \<Rightarrow> ('d, 'z) apa_state_scheme \<Rightarrow> (int \<times> bool \<times> ('d, 'z) apa_state_scheme) option" where
  "insert_split E device this s =
     (case apaCacheGetHeader E device (h_next (hdr s this)) 0 s of
        ((None, e), s1) \<Rightarrow> Some (e, False, apaCacheFree (Some this) s1)
      | ((Some nx, e), s1) \<Rightarrow>
          let s2 = set_header this (\<lambda>h. h\<lparr>h_length := drop_bit 1 (h_length h)\<rparr>) s1;
              h = hdr s2 this
          in (case apaRemovePartition E device (h_start h + h_length h) (h_next h) (h_start h) (h_length h) s2 of
                (None, s3) \<Rightarrow> None
              | (Some em, s3) \<Rightarrow>
                  let s4 = mark_dirty this (set_header this (\<lambda>g. g\<lparr>h_next := h_start (hdr s3 em)\<rparr>) s3);
                      s5 = mark_dirty nx (set_header nx (\<lambda>g. g\<lparr>h_prev := h_start (hdr s4 em)\<rparr>) s4)
                  in do {
                    (r, s6) \<leftarrow> apaCacheFlushAllDirty E device s5;
                    Some (e, True, apaCacheFree (Some nx) (apaCacheFree (Some em) s6))
                  }))"

partial_function (option) insert_loop ::
    "'d ata_env \<Rightarrow> s32 \<Rightarrow> u32 \<Rightarrow> nat \<Rightarrow> int \<Rightarrow> ('d, 'z) apa_state_scheme \<Rightarrow> (int \<times> bool \<times> ('d, 'z) apa_state_scheme) option" where
  "insert_loop E device sz this err s =
     (if h_length (hdr s this) = sz then Some (err, True, s)
      else do {
        (e, ok, s1) \<leftarrow> insert_split E device this s;
        if ok then insert_loop E device sz this e s1 else Some (e, False, s1)
      })"

definition apaInsertPartition ::
    "'d ata_env \<Rightarrow> s32 \<Rightarrow> apa_params \<Rightarrow> u32 \<Rightarrow> ('d, 'z) apa_state_scheme \<Rightarrow>
      ((nat option \<times> int) \<times> ('d, 'z) apa_state_scheme) option" where
  "apaInsertPartition E device params sector s =
     (case apaCacheGetHeader E device sector 0 s of
        ((None, e), s1) \<Rightarrow> Some ((None, e), s1)
      | ((Some this, e), s1) \<Rightarrow> do {
          (e2, ok, s2) \<leftarrow> insert_loop E device (p_size params) this e s1;
          if \<not> ok then Some ((None, e2), s2)
          else do {
            let s3 = apaCacheFree (Some this) s2;
            let h = hdr s3 this;
            let (res, s4) = apaFillHeader E device params (h_start h) (h_next h) (h_prev h) (p_size params) s3;
            (r, s5) \<leftarrow> apaCacheFlushAllDirty E device s4;
            Some (res, s5)
          }
        })"

partial_function (option) find_partition_loop ::
    "'d ata_env \<Rightarrow> u8 list \<Rightarrow> nat option \<Rightarrow> int \<Rightarrow> ('d, 'z) apa_state_scheme \<Rightarrow>
      ((nat option \<times> int) \<times> ('d, 'z) apa_state_scheme) option" where
  "find_partition_loop E ident clink err s =
     (case clink of None \<Rightarrow> Some ((None, err), s)
      | Some c \<Rightarrow>
          if h_flags (hdr s c) AND APA_FLAG_SUB = 0 \<and> take APA_IDMAX (h_id (hdr s c)) = take APA_IDMAX ident
          then Some ((Some c, err), s)
          else do {
            ((c2, e), s2) \<leftarrow> apaGetNextHeader E c err s;
            find_partition_loop E ident c2 e s2
          })"

definition apaFindPartition ::
    "'d ata_env \<Rightarrow> s32 \<Rightarrow> u8 list \<Rightarrow> ('d, 'z) apa_state_scheme \<Rightarrow> ((nat option \<times> int) \<times> ('d, 'z) apa_state_scheme) option" where
  "apaFindPartition E device ident s =
     (let ((clink, err), s1) = apaCacheGetHeader E device 0 0 s in do {
        ((c, e), s2) \<leftarrow> find_partition_loop E ident clink err s1;
        (case c of Some i \<Rightarrow> Some ((Some i, e), s2)
         | None \<Rightarrow> Some ((None, if e = 0 then - ENOENT else 0), s2))
      })"

subsection \<open>Empty blocks\<close>

text \<open>\<open>emptyBlocks[i]\<close> is the start of a free block of \<open>2 ^ i\<close> sectors, or 0.\<close>

fun add_empty_loop :: "u32 \<Rightarrow> u32 \<Rightarrow> nat list \<Rightarrow> u32 list \<Rightarrow> u32 list" where
  "add_empty_loop len start [] bs = bs"
| "add_empty_loop len start (i # is) bs =
     (if len = push_bit i 1 \<and> bs ! i = ucast APA_TYPE_FREE then bs[i := start] else add_empty_loop len start is bs)"

definition apaAddEmptyBlock :: "apa_header \<Rightarrow> u32 list \<Rightarrow> u32 list" where
  "apaAddEmptyBlock h bs = (if h_type h = APA_TYPE_FREE then add_empty_loop (h_length h) (h_start h) [0..<32] bs else bs)"

definition apaMakeEmpty :: "'d ata_env \<Rightarrow> nat \<Rightarrow> ('d, 'z) apa_state_scheme \<Rightarrow> ('d, 'z) apa_state_scheme" where
  "apaMakeEmpty E i s =
     (let h = hdr s i;
          s1 = set_header i (\<lambda>_. blank_header (h_start h) (h_next h) (h_prev h) (h_length h)) s
      in mark_dirty i (set_header i (\<lambda>g. g\<lparr>h_id := empty_id\<rparr>) (stamp E i s1)))"

subsection \<open>Deleting partitions\<close>

text \<open>
  Merging with free neighbours. The loops return \<open>Some (c, len)\<close>, or \<open>None\<close> in the first
  component where the code returns NULL; \<open>x % 0\<close> is undefined.
\<close>

partial_function (option) fix_prev_loop ::
    "'d ata_env \<Rightarrow> s32 \<Rightarrow> nat \<Rightarrow> u32 \<Rightarrow> int \<Rightarrow> ('d, 'z) apa_state_scheme \<Rightarrow>
      ((nat \<times> u32) option \<times> int \<times> ('d, 'z) apa_state_scheme) option" where
  "fix_prev_loop E device clink len err s =
     (if h_start (hdr s clink) = 0 then Some (Some (clink, len), err, s)
      else (case apaCacheGetHeader E device (h_prev (hdr s clink)) 0 s of
         ((None, e), s1) \<Rightarrow> Some (None, e, apaCacheFree (Some clink) s1)
       | ((Some c2, e), s1) \<Rightarrow>
           let h = hdr s1 c2; tmp = h_length h + len in
           if h_type h \<noteq> 0 then Some (Some (clink, len), e, apaCacheFree (Some c2) s1)
           else if tmp = 0 then None
           else if h_start h mod tmp \<noteq> 0 \<or> tmp AND (tmp - 1) \<noteq> 0
           then Some (Some (clink, len), e, apaCacheFree (Some c2) s1)
           else fix_prev_loop E device c2 tmp e (apaCacheFree (Some clink) s1)))"

definition apaDeleteFixPrev ::
    "'d ata_env \<Rightarrow> nat \<Rightarrow> int \<Rightarrow> ('d, 'z) apa_state_scheme \<Rightarrow> ((nat option \<times> int) \<times> ('d, 'z) apa_state_scheme) option" where
  "apaDeleteFixPrev E clink0 err s =
     (let device = c_device (cacheBuf s clink0); saved_next = h_next (hdr s clink0); saved_length = h_length (hdr s clink0) in do {
        (res, e, s1) \<leftarrow> fix_prev_loop E device clink0 saved_length err s;
        (case res of None \<Rightarrow> Some ((None, e), s1)
         | Some (clink, len) \<Rightarrow>
             if len = saved_length then Some ((Some clink, e), s1)
             else (case apaCacheGetHeader E device saved_next 0 s1 of
                ((None, e2), s2) \<Rightarrow> Some ((None, e2), apaCacheFree (Some clink) s2)
              | ((Some c2, e2), s2) \<Rightarrow> do {
                  let s3 = set_header clink (\<lambda>h. h\<lparr>h_length := len, h_next := h_start h + len\<rparr>) s2;
                  let s4 = mark_dirty c2 (set_header c2 (\<lambda>h. h\<lparr>h_prev := h_start (hdr s3 clink)\<rparr>) s3);
                  (r, s5) \<leftarrow> apaCacheFlushAllDirty E device (mark_dirty clink s4);
                  Some ((Some clink, e2), apaCacheFree (Some c2) s5)
                }))
      })"

partial_function (option) fix_next_loop ::
    "'d ata_env \<Rightarrow> s32 \<Rightarrow> nat \<Rightarrow> u32 \<Rightarrow> u32 \<Rightarrow> int \<Rightarrow> ('d, 'z) apa_state_scheme \<Rightarrow>
      ((u32 \<times> u32) option \<times> int \<times> ('d, 'z) apa_state_scheme) option" where
  "fix_next_loop E device clink lnext len err s =
     (if lnext = 0 then Some (Some (lnext, len), err, s)
      else (case apaCacheGetHeader E device lnext 0 s of
         ((None, e), s1) \<Rightarrow> Some (None, e, apaCacheFree (Some clink) s1)
       | ((Some c1, e), s1) \<Rightarrow>
           let h = hdr s1 c1; tmp = h_length h + len in
           if h_type h \<noteq> 0 then Some (Some (lnext, len), e, apaCacheFree (Some c1) s1)
           else if tmp = 0 then None
           else if h_start (hdr s1 clink) mod tmp \<noteq> 0 \<or> (tmp - 1) AND tmp \<noteq> 0
           then Some (Some (lnext, len), e, apaCacheFree (Some c1) s1)
           else let s2 = apaCacheFree (Some c1) s1
                in fix_next_loop E device clink (h_next (hdr s2 c1)) tmp e s2))"

definition apaDeleteFixNext ::
    "'d ata_env \<Rightarrow> nat \<Rightarrow> int \<Rightarrow> ('d, 'z) apa_state_scheme \<Rightarrow> ((nat option \<times> int) \<times> ('d, 'z) apa_state_scheme) option" where
  "apaDeleteFixNext E clink err s =
     (let device = c_device (cacheBuf s clink); saved_length = h_length (hdr s clink) in do {
        (res, e, s1) \<leftarrow> fix_next_loop E device clink (h_next (hdr s clink)) saved_length err s;
        (case res of None \<Rightarrow> Some ((None, e), s1)
         | Some (lnext, len) \<Rightarrow>
             if len = saved_length then Some ((Some clink, e), s1)
             else (case apaCacheGetHeader E device lnext 0 s1 of
                ((None, e2), s2) \<Rightarrow> Some ((None, e2), apaCacheFree (Some clink) s2)
              | ((Some c2, e2), s2) \<Rightarrow> do {
                  let s3 = apaMakeEmpty E clink (set_header clink (\<lambda>h. h\<lparr>h_length := len, h_next := lnext\<rparr>) s2);
                  let s4 = mark_dirty c2 (set_header c2 (\<lambda>h. h\<lparr>h_prev := h_start (hdr s3 clink)\<rparr>) s3);
                  (r, s5) \<leftarrow> apaCacheFlushAllDirty E device s4;
                  Some ((Some clink, e2), apaCacheFree (Some c2) s5)
                }))
      })"

text \<open>Dropping the tail of the list in \<open>apaDelete\<close>: the do-while loop.\<close>

partial_function (option) delete_tail_loop ::
    "'d ata_env \<Rightarrow> s32 \<Rightarrow> nat \<Rightarrow> nat \<Rightarrow> ('d, 'z) apa_state_scheme \<Rightarrow> (nat option \<times> int \<times> ('d, 'z) apa_state_scheme) option" where
  "delete_tail_loop E device mbr clink s =
     (let s1 = apaCacheFree (Some clink) s in
      case apaCacheGetHeader E (c_device (cacheBuf s1 clink)) (h_prev (hdr s1 clink)) 0 s1 of
        ((None, e), s2) \<Rightarrow> Some (None, e, s2)
      | ((Some c, e), s2) \<Rightarrow> do {
          let s3 = mark_dirty c (set_header c (\<lambda>h. h\<lparr>h_next := 0\<rparr>) s2);
          let s4 = mark_dirty mbr (set_header mbr (\<lambda>h. h\<lparr>h_prev := h_start (hdr s3 c)\<rparr>) s3);
          (r, s5) \<leftarrow> apaCacheFlushAllDirty E device s4;
          if h_type (hdr s5 c) = 0 then delete_tail_loop E device mbr c s5 else Some (Some c, e, s5)
        })"

text \<open>The two merges of \<open>apaDelete\<close>'s for loop.\<close>

definition delete_merge ::
    "'d ata_env \<Rightarrow> nat \<Rightarrow> int \<Rightarrow> ('d, 'z) apa_state_scheme \<Rightarrow> ((nat option \<times> int) \<times> ('d, 'z) apa_state_scheme) option" where
  "delete_merge E clink rv s = do {
     ((c1, e1), s1) \<leftarrow> apaDeleteFixPrev E clink rv s;
     (case c1 of None \<Rightarrow> Some ((None, e1), s1)
      | Some c \<Rightarrow> apaDeleteFixNext E c e1 s1)
   }"

definition apaDelete :: "'d ata_env \<Rightarrow> nat \<Rightarrow> ('d, 'z) apa_state_scheme \<Rightarrow> (int \<times> ('d, 'z) apa_state_scheme) option" where
  "apaDelete E clink s =
     (let device = c_device (cacheBuf s clink); start = h_start (hdr s clink); len = h_length (hdr s clink) in
      if start = 0 then Some (- EACCES, apaCacheFree (Some clink) s)
      else if h_next (hdr s clink) = 0
      then (case apaCacheGetHeader E device 0 0 s of
              ((None, rv), s1) \<Rightarrow> Some (rv, apaCacheFree (Some clink) s1)
            | ((Some mbr, rv), s1) \<Rightarrow> do {
                (c, rv2, s2) \<leftarrow> delete_tail_loop E device mbr clink s1;
                (case c of None \<Rightarrow> Some (0, s2)
                 | Some c2 \<Rightarrow> Some (rv2, apaCacheFree (Some c2) (apaCacheFree (Some mbr) s2)))
              })
      else do {
        ((c1, e1), s1) \<leftarrow> delete_merge E clink 0 s;
        (case c1 of None \<Rightarrow> Some (0, s1)
         | Some c \<Rightarrow> do {
             ((c2, e2), s2) \<leftarrow> delete_merge E c e1 s1;
             (case c2 of None \<Rightarrow> Some (0, s2)
              | Some k \<Rightarrow>
                  if h_start (hdr s2 k) = start \<and> h_length (hdr s2 k) = len
                  then do {
                    let s3 = apaMakeEmpty E k s2;
                    (r, s4) \<leftarrow> apaCacheFlushAllDirty E (c_device (cacheBuf s3 k)) s3;
                    Some (e2, apaCacheFree (Some k) s4)
                  }
                  else Some (e2, apaCacheFree (Some k) s2))
           })
      })"

subsection \<open>Format and sizes\<close>

text \<open>\<open>apaGetFormat\<close>: the return value, and the version stored through \<open>format\<close>.\<close>

definition apaGetFormat :: "'d ata_env \<Rightarrow> s32 \<Rightarrow> ('d, 'z) apa_state_scheme \<Rightarrow> ((bool \<times> u32) \<times> ('d, 'z) apa_state_scheme) option" where
  "apaGetFormat E device s =
     (case apaCacheAlloc s of (None, s1) \<Rightarrow> None
      | (Some c, s1) \<Rightarrow>
          let (rv, h, t) = apaReadHeader E device (hdr s1 c) 0 s1; s2 = set_header c (\<lambda>_. h) t in
          if rv \<noteq> 0 then Some ((False, 0), apaCacheFree (Some c) s2)
          else
            let format = mbr_version (h_mbr h);
                (r, ws, w) = ata_read E device APA_SECTOR_SECTOR_ERROR 2 (world s2);
                s3 = set_header c (\<lambda>g. header_of_words (overlay ws (header_words g))) (s2\<lparr>world := w\<rparr>);
                clean = (\<forall>i \<in> set [0..<256]. i mod 128 \<noteq> 0 \<longrightarrow> header_words (hdr s3 c) ! i = 0)
            in Some ((r = 0 \<and> clean, format), apaCacheFree (Some c) s3))"

fun partition_max_bit :: "nat \<Rightarrow> u32 \<Rightarrow> u32 \<Rightarrow> nat \<times> u32" where
  "partition_max_bit 0 sz t = (0, sz)"
| "partition_max_bit (Suc i) sz t =
     (let z = push_bit (Suc i) 1 in if z AND t \<noteq> 0 then (Suc i, z) else partition_max_bit i z t)"

definition apaGetPartitionMax :: "u32 \<Rightarrow> u32" where
  "apaGetPartitionMax totalLBA =
     (let t = drop_bit 6 totalLBA; (i, sz) = partition_max_bit 31 (push_bit 31 1) t
      in push_bit (if sz < t then i + 1 else i) 1)"

text \<open>
  \<open>apaCalculateFreeSpace\<close>: \<open>free\<close> collects the block sizes that can be allocated.
\<close>

function free_halves :: "u32 \<Rightarrow> u32 \<Rightarrow> u32" where
  "free_halves f sectors = (if 0x3FFFF < sectors then free_halves (f OR sectors) (sectors div 2) else f)"
  by auto
termination
proof (relation "measure (\<lambda>(f, n). unat n)")
  fix f sectors :: u32
  assume "0x3FFFF < sectors"
  then have "0 < unat sectors" by (simp add: word_less_nat_alt)
  then show "((f OR sectors, sectors div 2), f, sectors) \<in> measure (\<lambda>(f, n). unat n)"
    by (simp add: unat_div)
qed simp

declare free_halves.simps [simp del]

definition apaCalculateFreeSpace :: "u32 \<Rightarrow> u32 \<Rightarrow> u32" where
  "apaCalculateFreeSpace f sectors =
     (if 0x1FFFFF < sectors then f + sectors
      else if f AND sectors = 0 then f OR sectors
      else free_halves f (sectors div 2))"

partial_function (option) free_sectors_walk ::
    "'d ata_env \<Rightarrow> nat option \<Rightarrow> int \<Rightarrow> u32 \<Rightarrow> u32 \<Rightarrow> ('d, 'z) apa_state_scheme \<Rightarrow>
      ((int \<times> u32 \<times> u32) \<times> ('d, 'z) apa_state_scheme) option" where
  "free_sectors_walk E clink rv f sectors s =
     (case clink of None \<Rightarrow> Some ((rv, f, sectors), s)
      | Some c \<Rightarrow> do {
          let f1 = (if h_type (hdr s c) = 0 then apaCalculateFreeSpace f (h_length (hdr s c)) else f);
          ((c2, e), s2) \<leftarrow> apaGetNextHeader E c rv s;
          free_sectors_walk E c2 e f1 (sectors + h_length (hdr s c)) s2
        })"

text \<open>The inner loop: the largest aligned block size that still fits behind \<open>sectors\<close>.\<close>

function fit_size :: "u32 \<Rightarrow> u32 \<Rightarrow> u32 \<Rightarrow> u32" where
  "fit_size tot sectors partMax =
     (if 0x3FFFF < partMax
      then if sectors mod partMax = 0 \<and> unat sectors + unat partMax < unat tot then partMax
           else fit_size tot sectors (partMax div 2)
      else partMax)"
  by auto
termination
proof (relation "measure (\<lambda>(t, s, n). unat n)")
  fix tot sectors partMax :: u32
  assume "0x3FFFF < partMax"
  then have "0 < unat partMax" by (simp add: word_less_nat_alt)
  then show "((tot, sectors, partMax div 2), tot, sectors, partMax) \<in> measure (\<lambda>(t, s, n). unat n)"
    by (simp add: unat_div)
qed simp


declare fit_size.simps [simp del]

lemma fit_size_fits:
  "0x3FFFF < fit_size tot sectors p \<Longrightarrow> sectors mod fit_size tot sectors p = 0 \<and>
     unat sectors + unat (fit_size tot sectors p) < unat tot"
proof (induction tot sectors p rule: fit_size.induct)
  case (1 tot sectors p)
  note eq = fit_size.simps [of tot sectors p]
  consider "\<not> 0x3FFFF < p" | "0x3FFFF < p" "sectors mod p = 0 \<and> unat sectors + unat p < unat tot"
    | "0x3FFFF < p" "\<not> (sectors mod p = 0 \<and> unat sectors + unat p < unat tot)" by blast
  then show ?case
  proof cases
    case 1
    then have "fit_size tot sectors p = p" using eq by simp
    then show ?thesis using "1.prems" 1 by simp
  next
    case 2
    then have "fit_size tot sectors p = p" using eq by simp
    then show ?thesis using 2 by simp
  next
    case 3
    then have "fit_size tot sectors p = fit_size tot sectors (p div 2)" using eq by (simp only: if_True if_False)
    then show ?thesis using "1.IH" 3 "1.prems" by simp
  qed
qed

text \<open>
  The outer loop: \<open>partMax\<close> starts again at the device's maximum. It ends because every
  round but the last moves \<open>sectors\<close> towards the end of the disk.
\<close>

function extend_free :: "u32 \<Rightarrow> u32 \<Rightarrow> u32 \<Rightarrow> u32 \<Rightarrow> u32 \<times> u32" where
  "extend_free tot maxSize sectors f =
     (let p = fit_size tot sectors maxSize in
      if 0x3FFFF < p then extend_free tot maxSize (sectors + p) (apaCalculateFreeSpace f p) else (f, sectors))"
  by auto
termination
proof (relation "measure (\<lambda>(t, m, s, f). unat t - unat s)")
  fix tot maxSize sectors f p :: u32
  assume p: "p = fit_size tot sectors maxSize" and big: "0x3FFFF < p"
  have fits: "unat sectors + unat p < unat tot" using fit_size_fits [of tot sectors maxSize] big p by simp
  then have "unat sectors + unat p < 2 ^ 32" using unat_32 [of tot] by simp
  then have "unat (sectors + p) = unat sectors + unat p" by (simp add: unat_word_ariths)
  moreover have "0 < unat p" using big by (simp add: word_less_nat_alt)
  ultimately show "((tot, maxSize, sectors + p, apaCalculateFreeSpace f p), tot, maxSize, sectors, f)
      \<in> measure (\<lambda>(t, m, s, f). unat t - unat s)" using fits by simp
qed simp

declare extend_free.simps [simp del]

text \<open>\<open>deviceinfo[device]\<close> gives \<open>totalLBA\<close> and \<open>partitionMaxSize\<close>; the result is the code and \<open>*free\<close>.\<close>

definition apaGetFreeSectors ::
    "'d ata_env \<Rightarrow> s32 \<Rightarrow> u32 \<Rightarrow> u32 \<Rightarrow> ('d, 'z) apa_state_scheme \<Rightarrow> ((int \<times> u32) \<times> ('d, 'z) apa_state_scheme) option" where
  "apaGetFreeSectors E device totalLBA partitionMaxSize s =
     (let ((clink, rv), s1) = apaCacheGetHeader E device 0 0 s in do {
        ((rv2, f, sectors), s2) \<leftarrow> free_sectors_walk E clink rv 0 0 s1;
        Some ((rv2, if rv2 = 0 then fst (extend_free totalLBA partitionMaxSize sectors f) else f), s2)
      })"


subsection \<open>The sizes\<close>

lemma and_pow2: "(push_bit i 1 :: u32) AND t \<noteq> 0 \<longleftrightarrow> bit t i" if "i < 32"
proof -
  have "(push_bit i 1 :: u32) AND t = (if bit t i then push_bit i 1 else 0)"
    by (rule bit_word_eqI) (auto simp: bit_simps)
  then show ?thesis using that by (simp add: push_bit_eq_mult)
qed

lemma partition_max_bit_spec:
  assumes "k \<le> 31" "\<And>j. k < j \<Longrightarrow> \<not> bit t j"
  shows "case partition_max_bit k z t of (i, sz) \<Rightarrow>
     (i = 0 \<and> (\<forall>j > 0. \<not> bit t j) \<and> (k = 0 \<longrightarrow> sz = z) \<and> (0 < k \<longrightarrow> sz = 2))
     \<or> (0 < i \<and> i \<le> k \<and> bit t i \<and> sz = push_bit i 1 \<and> (\<forall>j > i. \<not> bit t j))"
  using assms
proof (induction k arbitrary: z)
  case 0
  then show ?case by simp
next
  case (Suc k)
  show ?case
  proof (cases "bit t (Suc k)")
    case True
    then show ?thesis using Suc.prems and_pow2 [of "Suc k" t] by (simp add: Let_def)
  next
    case False
    then have "\<And>j. k < j \<Longrightarrow> \<not> bit t j" using Suc.prems(2) by (metis Suc_lessI)
    then show ?thesis using Suc.IH [of "push_bit (Suc k) 1"] Suc.prems(1) False and_pow2 [of "Suc k" t]
      by (auto simp: Let_def split: prod.splits)
  qed
qed

lemma high_bits_bound:
  fixes t :: u32
  assumes "\<And>j. i < j \<Longrightarrow> \<not> bit t j"
  shows "unat t < 2 ^ Suc i"
proof -
  have "take_bit (Suc i) t = t"
  proof (rule bit_word_eqI)
    show "bit (take_bit (Suc i) t) n = bit t n" for n using assms [of n] by (cases "i < n") (auto simp: bit_take_bit_iff)
  qed
  then have "unat t = take_bit (Suc i) (unat t)" by (metis unsigned_take_bit_eq)
  then show ?thesis by (metis take_bit_nat_less_exp)
qed

lemma unat_pow2:
  assumes "j < 32" shows "unat (2 ^ j :: u32) = 2 ^ j"
proof -
  have "(2 :: nat) ^ j < 2 ^ 32" by (rule power_strict_increasing) (use assms in simp_all)
  then have "unat (of_nat (2 ^ j) :: u32) = 2 ^ j" by (simp only: unat_of_nat) (simp add: take_bit_nat_eq_self)
  then show ?thesis by simp
qed

lemma bit_lower_bound: "bit (t :: u32) i \<Longrightarrow> 2 ^ i \<le> unat t"
proof -
  assume "bit t i"
  then have "bit (unat t) i" by (simp add: bit_unsigned_iff)
  then have "odd (unat t div 2 ^ i)" by (simp add: bit_iff_odd)
  then have "unat t div 2 ^ i \<noteq> 0" by (simp add: odd_pos)
  then show ?thesis by (metis div_less not_less)
qed

text \<open>
  C12. \<open>apaGetPartitionMax\<close> is the least power of two that is at least a 64th of the disk.
\<close>

theorem partition_max_least:
  "\<exists>k \<le> 26. unat (apaGetPartitionMax n) = 2 ^ k \<and> unat n div 64 \<le> 2 ^ k \<and> \<not> (\<exists>j < k. unat n div 64 \<le> 2 ^ j)"
proof -
  let ?t = "drop_bit 6 n"
  have tn: "unat ?t = unat n div 64" by (simp add: drop_bit_eq_div unat_div)
  have small: "unat ?t < 2 ^ 26" using unat_32 [of n] by (simp add: tn)
  have hi: "\<not> bit ?t j" if "26 \<le> j" for j
    using bit_lower_bound [of ?t j] small power_increasing [of 26 j "2 :: nat"] that by linarith
  obtain i z where iz: "partition_max_bit 31 (push_bit 31 1) ?t = (i, z)" by fastforce
  have spec: "i = 0 \<and> (\<forall>j > 0. \<not> bit ?t j) \<and> z = 2 \<or> 0 < i \<and> bit ?t i \<and> z = push_bit i 1 \<and> (\<forall>j > i. \<not> bit ?t j)"
    using partition_max_bit_spec [of 31 ?t "push_bit 31 1"] hi iz by auto
  define k where "k = (if z < ?t then i + 1 else i)"
  have val: "unat (push_bit j 1 :: u32) = 2 ^ j" if "j < 32" for j
    using unat_pow2 [OF that] by (simp add: push_bit_eq_mult)
  have goal: "k \<le> 26 \<and> unat ?t \<le> 2 ^ k \<and> (\<forall>j < k. 2 ^ j < unat ?t)"
    using spec
  proof (elim disjE conjE)
    assume i: "i = 0" "\<forall>j > 0. \<not> bit ?t j" "z = 2"
    then have "unat ?t < 2 ^ Suc 0" using high_bits_bound [of 0 ?t] by blast
    then show ?thesis using i by (simp add: k_def word_less_nat_alt)
  next
    assume i: "0 < i" "bit ?t i" "z = push_bit i 1" "\<forall>j > i. \<not> bit ?t j"
    have i26: "i < 26" using hi [of i] i(2) by linarith
    have lo: "2 ^ i \<le> unat ?t" using bit_lower_bound i(2) by blast
    have up: "unat ?t < 2 ^ Suc i" using high_bits_bound [of i ?t] i(4) by blast
    have z: "unat z = 2 ^ i" using val [of i] i26 i(3) by simp
    show ?thesis
    proof (cases "z < ?t")
      case True
      then have big: "2 ^ i < unat ?t" using z by (simp add: word_less_nat_alt)
      have "2 ^ j < unat ?t" if "j < Suc i" for j
      proof -
        have "(2 :: nat) ^ j \<le> 2 ^ i" using that by (simp add: less_Suc_eq_le)
        then show ?thesis using big by linarith
      qed
      then show ?thesis using True up i26 by (simp add: k_def)
    next
      case False
      then have "unat ?t = 2 ^ i" using z lo by (simp add: word_less_nat_alt)
      then show ?thesis using False i26 by (simp add: k_def)
    qed
  qed
  have "unat (apaGetPartitionMax n) = 2 ^ k"
    using val [of k] goal iz by (simp add: apaGetPartitionMax_def Let_def k_def)
  then show ?thesis using goal tn by (intro exI [of _ k]) (auto simp: not_le)
qed


subsection \<open>The table of empty blocks\<close>

lemma pow2_inj: "i < 32 \<Longrightarrow> j < 32 \<Longrightarrow> (2 ^ i :: u32) = 2 ^ j \<longleftrightarrow> i = j"
  using unat_pow2 [of i] unat_pow2 [of j] by (metis numeral_eq_one_iff one_less_numeral_iff power_inject_exp semiring_norm(76))

lemma add_empty_loop_spec:
  assumes "\<And>i. i \<in> set is \<Longrightarrow> i < 32" "distinct is" "length bs = 32"
  shows "add_empty_loop len start is bs =
     (case List.find (\<lambda>i. len = 2 ^ i) is of None \<Rightarrow> bs
      | Some i \<Rightarrow> if bs ! i = 0 then bs[i := start] else bs)"
  using assms
proof (induction "is")
  case Nil
  then show ?case by simp
next
  case (Cons j js)
  have "List.find (\<lambda>i. len = 2 ^ i) js = None" if "len = 2 ^ j"
  proof (rule ccontr)
    assume "List.find (\<lambda>i. len = 2 ^ i) js \<noteq> None"
    then obtain i where "i \<in> set js" "len = 2 ^ i" by (auto dest: find_SomeD)
    then show False using Cons.prems that pow2_inj [of i j] by auto
  qed
  then show ?case using Cons by (auto simp: APA_TYPE_FREE_def)
qed

text \<open>Header \<open>h\<close> describes a free block of \<open>2 ^ i\<close> sectors.\<close>

definition free_block :: "nat \<Rightarrow> apa_header \<Rightarrow> bool" where
  "free_block i h \<longleftrightarrow> h_type h = APA_TYPE_FREE \<and> h_length h = 2 ^ i \<and> h_start h \<noteq> 0"

lemma add_empty_nth:
  assumes "length bs = 32" "i < 32"
  shows "apaAddEmptyBlock h bs ! i = (if bs ! i = 0 \<and> free_block i h then h_start h else bs ! i)"
    and "length (apaAddEmptyBlock h bs) = 32"
proof -
  have spec: "add_empty_loop (h_length h) (h_start h) [0..<32] bs =
     (case List.find (\<lambda>i. h_length h = 2 ^ i) [0..<32] of None \<Rightarrow> bs
      | Some i \<Rightarrow> if bs ! i = 0 then bs[i := h_start h] else bs)"
    by (rule add_empty_loop_spec) (use assms in auto)
  show "length (apaAddEmptyBlock h bs) = 32" using assms by (simp add: apaAddEmptyBlock_def spec split: option.splits)
  show "apaAddEmptyBlock h bs ! i = (if bs ! i = 0 \<and> free_block i h then h_start h else bs ! i)"
  proof (cases "List.find (\<lambda>i. h_length h = 2 ^ i) [0..<32]")
    case None
    then have "h_length h \<noteq> 2 ^ i" using find_NoneD [OF None, of i] assms(2) by auto
    then show ?thesis using None by (simp add: apaAddEmptyBlock_def spec free_block_def)
  next
    case (Some j)
    then have "j < 32" "h_length h = 2 ^ j" using find_SomeD [OF Some] by auto
    have eq: "add_empty_loop (h_length h) (h_start h) [0..<32] bs = (if bs ! j = 0 then bs[j := h_start h] else bs)"
      using spec Some by simp
    have "h_length h = 2 ^ i \<longleftrightarrow> j = i" using \<open>h_length h = 2 ^ j\<close> pow2_inj [OF \<open>j < 32\<close> assms(2)] by metis
    then show ?thesis unfolding apaAddEmptyBlock_def eq free_block_def using assms by (auto simp: nth_list_update)
  qed
qed

text \<open>
  C14. After \<open>apaAddEmptyBlock\<close> has been called for the headers of the disk in order, slot
  \<open>i\<close> of the table holds the start of the first free block of exactly \<open>2 ^ i\<close> sectors, or
  zero when there is none.
\<close>

theorem empty_blocks_first:
  assumes "i < 32"
  shows "fold apaAddEmptyBlock hs (replicate 32 0) ! i =
     (case List.find (free_block i) hs of None \<Rightarrow> 0 | Some h \<Rightarrow> h_start h)"
proof -
  have "length bs = 32 \<Longrightarrow> fold apaAddEmptyBlock hs bs ! i =
     (if bs ! i \<noteq> 0 then bs ! i else case List.find (free_block i) hs of None \<Rightarrow> 0 | Some h \<Rightarrow> h_start h)" for bs
  proof (induction hs arbitrary: bs)
    case Nil
    then show ?case by simp
  next
    case (Cons h hs)
    then show ?case using Cons.IH [of "apaAddEmptyBlock h bs"] add_empty_nth [OF Cons.prems assms, of h]
      by (simp add: free_block_def)
  qed
  then show ?thesis using assms by simp
qed

theorem empty_blocks_first_witness:
  "fold apaAddEmptyBlock [(blank_header 0x80000 0 0 0x40000), (blank_header 0xC0000 0 0 0x40000)] (replicate 32 0) ! 18 = 0x80000"
  using empty_blocks_first [of 18 "[(blank_header 0x80000 0 0 0x40000), (blank_header 0xC0000 0 0 0x40000)]"]
  by (simp add: free_block_def blank_header_def zero_header_def header_of_words_def slice_def half_at_def APA_TYPE_FREE_def)

subsection \<open>The space behind the last partition\<close>

text \<open>
  What the search does, on natural numbers: of the maximum partition size and its halves above
  0x3FFFF the largest is taken that is aligned at its place and ends before the last sector,
  again and again.
\<close>

fun block_sizes :: "nat \<Rightarrow> nat list" where
  "block_sizes m = (if 0x3FFFF < m then m # block_sizes (m div 2) else [])"

declare block_sizes.simps [simp del]

definition block_fits :: "nat \<Rightarrow> nat \<Rightarrow> nat \<Rightarrow> bool" where
  "block_fits tot a p \<longleftrightarrow> a mod p = 0 \<and> a + p < tot"

definition largest_block :: "nat \<Rightarrow> nat \<Rightarrow> nat \<Rightarrow> nat option" where
  "largest_block tot m a = List.find (block_fits tot a) (block_sizes m)"

function free_blocks :: "nat \<Rightarrow> nat \<Rightarrow> nat \<Rightarrow> nat list" where
  "free_blocks tot m a = (case largest_block tot m a of None \<Rightarrow> [] | Some p \<Rightarrow> p # free_blocks tot m (a + p))"
  by pat_completeness auto
termination
proof (relation "measure (\<lambda>(t, m, a). t - a)")
  fix tot m a p
  assume "largest_block tot m a = Some p"
  then have "block_fits tot a p" "p \<in> set (block_sizes m)"
    unfolding largest_block_def by (auto simp: find_Some_iff)
  moreover have "\<forall>p \<in> set (block_sizes m). 0 < p"
  proof (induction m rule: block_sizes.induct)
    case (1 m)
    then show ?case by (subst block_sizes.simps) auto
  qed
  ultimately show "((tot, m, a + p), tot, m, a) \<in> measure (\<lambda>(t, m, a). t - a)" by (auto simp: block_fits_def)
qed simp

declare free_blocks.simps [simp del]

lemma fit_size_largest:
  "largest_block (unat tot) (unat m) (unat a) =
     (if 0x3FFFF < fit_size tot a m then Some (unat (fit_size tot a m)) else None)"
  unfolding largest_block_def
proof (induction tot a m rule: fit_size.induct)
  case (1 tot a m)
  note eq = fit_size.simps [of tot a m] and bs = block_sizes.simps [of "unat m"]
  have mod: "a mod m = 0 \<longleftrightarrow> unat a mod unat m = 0" by (metis unat_0 unat_eq_zero unat_mod)
  have fits: "block_fits (unat tot) (unat a) (unat m) \<longleftrightarrow> a mod m = 0 \<and> unat a + unat m < unat tot"
    unfolding block_fits_def mod by (rule refl)
  consider "\<not> 0x3FFFF < m" | "0x3FFFF < m" "a mod m = 0 \<and> unat a + unat m < unat tot"
    | "0x3FFFF < m" "\<not> (a mod m = 0 \<and> unat a + unat m < unat tot)" by blast
  then show ?case
  proof cases
    case 1
    then show ?thesis using eq bs by (simp add: word_less_nat_alt)
  next
    case 2
    then have "fit_size tot a m = m" using eq by simp
    then show ?thesis using 2 bs fits by (simp add: word_less_nat_alt)
  next
    case 3
    have "fit_size tot a m = fit_size tot a (m div 2)" using eq 3 by (simp only: if_True if_False)
    moreover have "List.find (block_fits (unat tot) (unat a)) (block_sizes (unat m)) =
        List.find (block_fits (unat tot) (unat a)) (block_sizes (unat (m div 2)))"
      using 3(1) bs fits [THEN arg_cong [of _ _ Not], THEN iffD2, OF 3(2)] by (simp add: word_less_nat_alt unat_div)
    ultimately show ?thesis using "1.IH" [OF 3] by simp
  qed
qed

text \<open>
  C15. The search for installable space behind the last partition, on 32-bit words, is the
  greedy one on natural numbers, for every disk size, maximum partition size and start: the
  blocks it adds to the free sizes, and its end, are those of \<open>free_blocks\<close>, nothing wraps, and
  where it ends there is no block that fits. (A block that would end just with the disk
  does not: the code asks that it ends before \<open>totalLBA\<close>.)
\<close>

theorem free_space_greedy:
  "extend_free tot m a f =
     (fold (\<lambda>p f. apaCalculateFreeSpace f (of_nat p)) (free_blocks (unat tot) (unat m) (unat a)) f,
      of_nat (unat a + sum_list (free_blocks (unat tot) (unat m) (unat a)))) \<and>
   unat a + sum_list (free_blocks (unat tot) (unat m) (unat a)) < 2 ^ 32 \<and>
   largest_block (unat tot) (unat m) (unat a + sum_list (free_blocks (unat tot) (unat m) (unat a))) = None"
proof (induction tot m a f rule: extend_free.induct)
  case (1 tot m a f)
  let ?p = "fit_size tot a m"
  note eq = extend_free.simps [of tot m a f] and fb = free_blocks.simps [of "unat tot" "unat m" "unat a"]
  show ?case
  proof (cases "0x3FFFF < ?p")
    case True
    have "unat a + unat ?p < unat tot" using fit_size_fits [OF True] by simp
    then have "unat a + unat ?p < 2 ^ 32" using unat_32 [of tot] by simp
    then have sum: "unat (a + ?p) = unat a + unat ?p" by (simp add: unat_word_ariths)
    have "free_blocks (unat tot) (unat m) (unat a) = unat ?p # free_blocks (unat tot) (unat m) (unat (a + ?p))"
      using fb True by (simp add: fit_size_largest sum)
    moreover have "extend_free tot m a f = extend_free tot m (a + ?p) (apaCalculateFreeSpace f ?p)" using eq True by (simp add: Let_def)
    ultimately show ?thesis using "1.IH" [OF refl True] by (simp add: sum add.assoc)
  next
    case False
    then have none: "largest_block (unat tot) (unat m) (unat a) = None" by (simp add: fit_size_largest)
    then show ?thesis using eq fb False unat_32 [of a] by (simp add: Let_def)
  qed
qed

end
