(* ===== verification/Password.thy ===== *)
theory Password
  imports ApaHeader
begin

text \<open>
  \<open>common/libapa/src/password.c\<close>: the partition identifier encrypted with the password by
  DES. The code works on pairs of 32-bit halves and relies on the shift instructions of the
  target, which use the low five bits of the count (\<open>sll\<close>, \<open>srl\<close> below).
\<close>

subsection \<open>Tables\<close>

definition PC1 :: "nat list" where
  "PC1 = [57, 49, 41, 33, 25, 17, 9, 1, 58, 50, 42, 34, 26, 18,
     10, 2, 59, 51, 43, 35, 27, 19, 11, 3, 60, 52, 44, 36,
     63, 55, 47, 39, 31, 23, 15, 7, 62, 54, 46, 38, 30, 22,
     14, 6, 61, 53, 45, 37, 29, 21, 13, 5, 28, 20, 12, 4]"

definition Rotations :: "nat list" where
  "Rotations = [1, 1, 2, 2, 2, 2, 2, 2, 1, 2, 2, 2, 2, 2, 2, 1]"

definition PC2 :: "nat list" where
  "PC2 = [14, 17, 11, 24, 1, 5, 3, 28, 15, 6, 21, 10,
     23, 19, 12, 4, 26, 8, 16, 7, 27, 20, 13, 2,
     41, 52, 31, 37, 47, 55, 30, 40, 51, 45, 33, 48,
     44, 49, 39, 56, 34, 53, 46, 42, 50, 36, 29, 32]"

definition IP_tab :: "nat list" where
  "IP_tab = [58, 50, 42, 34, 26, 18, 10, 2, 60, 52, 44, 36, 28, 20, 12, 4,
     62, 54, 46, 38, 30, 22, 14, 6, 64, 56, 48, 40, 32, 24, 16, 8,
     57, 49, 41, 33, 25, 17, 9, 1, 59, 51, 43, 35, 27, 19, 11, 3,
     61, 53, 45, 37, 29, 21, 13, 5, 63, 55, 47, 39, 31, 23, 15, 7]"

definition Expansion :: "nat list" where
  "Expansion = [32, 1, 2, 3, 4, 5, 4, 5, 6, 7, 8, 9, 8, 9, 10, 11,
     12, 13, 12, 13, 14, 15, 16, 17, 16, 17, 18, 19, 20, 21, 20, 21,
     22, 23, 24, 25, 24, 25, 26, 27, 28, 29, 28, 29, 30, 31, 32, 1]"

definition Permutation :: "nat list" where
  "Permutation = [16, 7, 20, 21, 29, 12, 28, 17, 1, 15, 23, 26, 5, 18, 31, 10,
     2, 8, 24, 14, 32, 27, 3, 9, 19, 13, 30, 6, 22, 11, 4, 25]"

definition FP :: "nat list" where
  "FP = [40, 8, 48, 16, 56, 24, 64, 32, 39, 7, 47, 15, 55, 23, 63, 31,
     38, 6, 46, 14, 54, 22, 62, 30, 37, 5, 45, 13, 53, 21, 61, 29,
     36, 4, 44, 12, 52, 20, 60, 28, 35, 3, 43, 11, 51, 19, 59, 27,
     34, 2, 42, 10, 50, 18, 58, 26, 33, 1, 41, 9, 49, 17, 57, 25]"

definition sbox :: "nat list list" where
  "sbox = [[14, 4, 13, 1, 2, 15, 11, 8, 3, 10, 6, 12, 5, 9, 0, 7,
      0, 15, 7, 4, 14, 2, 13, 1, 10, 6, 12, 11, 9, 5, 3, 8,
      4, 1, 14, 8, 13, 6, 2, 11, 15, 12, 9, 7, 3, 10, 5, 0,
      15, 12, 8, 2, 4, 9, 1, 7, 5, 11, 3, 14, 10, 0, 6, 13],
    [15, 1, 8, 14, 6, 11, 3, 4, 9, 7, 2, 13, 12, 0, 5, 10,
      3, 13, 4, 7, 15, 2, 8, 14, 12, 0, 1, 10, 6, 9, 11, 5,
      0, 14, 7, 11, 10, 4, 13, 1, 5, 8, 12, 6, 9, 3, 2, 15,
      13, 8, 10, 1, 3, 15, 4, 2, 11, 6, 7, 12, 0, 5, 14, 9],
    [10, 0, 9, 14, 6, 3, 15, 5, 1, 13, 12, 7, 11, 4, 2, 8,
      13, 7, 0, 9, 3, 4, 6, 10, 2, 8, 5, 14, 12, 11, 15, 1,
      13, 6, 4, 9, 8, 15, 3, 0, 11, 1, 2, 12, 5, 10, 14, 7,
      1, 10, 13, 0, 6, 9, 8, 7, 4, 15, 14, 3, 11, 5, 2, 12],
    [7, 13, 14, 3, 0, 6, 9, 10, 1, 2, 8, 5, 11, 12, 4, 15,
      13, 8, 11, 5, 6, 15, 0, 3, 4, 7, 2, 12, 1, 10, 14, 9,
      10, 6, 9, 0, 12, 11, 7, 13, 15, 1, 3, 14, 5, 2, 8, 4,
      3, 15, 0, 6, 10, 1, 13, 8, 9, 4, 5, 11, 12, 7, 2, 14],
    [2, 12, 4, 1, 7, 10, 11, 6, 8, 5, 3, 15, 13, 0, 14, 9,
      14, 11, 2, 12, 4, 7, 13, 1, 5, 0, 15, 10, 3, 9, 8, 6,
      4, 2, 1, 11, 10, 13, 7, 8, 15, 9, 12, 5, 6, 3, 0, 14,
      11, 8, 12, 7, 1, 14, 2, 13, 6, 15, 0, 9, 10, 4, 5, 3],
    [12, 1, 10, 15, 9, 2, 6, 8, 0, 13, 3, 4, 14, 7, 5, 11,
      10, 15, 4, 2, 7, 12, 9, 5, 6, 1, 13, 14, 0, 11, 3, 8,
      9, 14, 15, 5, 2, 8, 12, 3, 7, 0, 4, 10, 1, 13, 11, 6,
      4, 3, 2, 12, 9, 5, 15, 10, 11, 14, 1, 7, 6, 0, 8, 13],
    [4, 11, 2, 14, 15, 0, 8, 13, 3, 12, 9, 7, 5, 10, 6, 1,
      13, 0, 11, 7, 4, 9, 1, 10, 14, 3, 5, 12, 2, 15, 8, 6,
      1, 4, 11, 13, 12, 3, 7, 14, 10, 15, 6, 8, 0, 5, 9, 2,
      6, 11, 13, 8, 1, 4, 10, 7, 9, 5, 0, 15, 14, 2, 3, 12],
    [13, 2, 8, 4, 6, 15, 11, 1, 10, 9, 3, 14, 5, 0, 12, 7,
      1, 15, 13, 8, 10, 3, 7, 4, 12, 5, 6, 11, 0, 14, 9, 2,
      7, 11, 4, 1, 9, 12, 14, 2, 0, 6, 10, 13, 15, 3, 5, 8,
      2, 1, 14, 7, 4, 10, 8, 13, 15, 12, 9, 0, 3, 5, 6, 11]]"

subsection \<open>Shifts of the target\<close>

definition sll :: "u32 \<Rightarrow> int \<Rightarrow> u32" where "sll w n = push_bit (nat (n mod 32)) w"
definition srl :: "u32 \<Rightarrow> int \<Rightarrow> u32" where "srl w n = drop_bit (nat (n mod 32)) w"

text \<open>\<open>shift << 26\<close> as a signed 32-bit value: its sign is bit 5 of \<open>shift\<close>.\<close>

definition shift26 :: "int \<Rightarrow> int" where "shift26 n = sint (push_bit 26 (of_int n :: s32))"

type_synonym pair = "u32 \<times> u32"

text \<open>
  The pair \<open>(key1, key2)\<close> selecting bit \<open>shift\<close> (0 is the top bit of \<open>hi\<close>) from a pair
  \<open>(lo, hi)\<close>: \<open>BitMask\<close> shifted right by \<open>shift\<close>.
\<close>

definition probe :: "int \<Rightarrow> pair" where
  "probe shift =
     (let BitMask_lo = 0; BitMask_hi = 0x80000000 in
      if 0 \<le> shift26 shift
      then (if 0 < shift26 shift then srl BitMask_lo shift OR sll BitMask_hi (- shift) else srl BitMask_lo shift,
            srl BitMask_hi shift)
      else (srl BitMask_hi shift, 0))"

text \<open>One step of the permutation loops: \<open>((out_lo, out_hi), (BitPerm_lo, BitPerm_hi))\<close>.\<close>

definition permute_step :: "nat list \<Rightarrow> pair \<Rightarrow> nat \<Rightarrow> pair \<times> pair \<Rightarrow> pair \<times> pair" where
  "permute_step tab inp i st =
     (case (inp, st) of ((in_lo, in_hi), ((lo, hi), (p_lo, p_hi))) \<Rightarrow>
        let (key1, key2) = probe (int (tab ! i) - 1);
            out = (if (in_lo AND key1) OR (in_hi AND key2) \<noteq> 0 then (lo OR p_lo, hi OR p_hi) else (lo, hi))
        in (out, (drop_bit 1 p_lo OR push_bit 31 p_hi, drop_bit 1 p_hi)))"

definition permute :: "nat list \<Rightarrow> pair \<Rightarrow> pair" where
  "permute tab inp = fst (fold (permute_step tab inp) [0..<length tab] ((0, 0), (0, 0x80000000)))"

subsection \<open>Key schedule\<close>

definition PermutedKeyMask_lo :: u32 where "PermutedKeyMask_lo = 0x0FFFFFFF"

text \<open>One of the two rotated halves, with the masks of the code; \<open>hi\<close> carries nothing.\<close>

definition rotate_half :: "nat \<Rightarrow> pair \<Rightarrow> pair" where
  "rotate_half n c =
     (case c of (lo, hi) \<Rightarrow>
        let (key1, key4, key2, key3) =
          (if n \<noteq> 1
           then ((push_bit 6 hi OR drop_bit 26 lo) AND 3, push_bit 2 lo, drop_bit 26 hi AND 0, push_bit 2 hi OR drop_bit 30 lo)
           else ((push_bit 5 hi OR drop_bit 27 lo) AND 1, push_bit 1 lo, drop_bit 27 hi AND 0, push_bit 1 hi OR drop_bit 31 lo))
        in ((key1 OR key4) AND PermutedKeyMask_lo, (key2 OR key3) AND 0))"

text \<open>\<open>pairC\<close> and \<open>pairD\<close>: the 17 pairs of halves, from the permuted key.\<close>

definition key_halves :: "pair \<Rightarrow> pair \<times> pair" where
  "key_halves k = (case k of (lo, hi) \<Rightarrow>
     ((drop_bit 4 hi, 0), ((drop_bit 8 lo OR push_bit 24 hi) AND PermutedKeyMask_lo, drop_bit 8 hi AND 0)))"

fun rotations :: "nat list \<Rightarrow> pair \<times> pair \<Rightarrow> (pair \<times> pair) list" where
  "rotations [] cd = []"
| "rotations (n # ns) cd = (let cd2 = (rotate_half n (fst cd), rotate_half n (snd cd)) in cd2 # rotations ns cd2)"

definition subkey :: "pair \<times> pair \<Rightarrow> pair" where
  "subkey cd = (case cd of ((c_lo, c_hi), (d_lo, d_hi)) \<Rightarrow>
     permute PC2 (push_bit 8 d_lo, push_bit 4 c_lo OR push_bit 8 d_hi OR drop_bit 24 d_lo))"

definition subkeys :: "pair \<Rightarrow> pair list" where
  "subkeys password = map subkey (rotations Rotations (key_halves (permute PC1 password)))"

subsection \<open>Rounds\<close>

text \<open>The eight substitutions: \<open>((eVal_lo, eVal_hi), (sVal_lo, sVal_hi))\<close>, \<open>shift = 32 + 4 * i\<close>.\<close>

definition sbox_step :: "nat \<Rightarrow> pair \<times> pair \<Rightarrow> pair \<times> pair" where
  "sbox_step i st = (case st of ((e_lo, e_hi), (s_lo, s_hi)) \<Rightarrow>
     let shift = 32 + 4 * int i;
         ix = (e_lo AND 0x20) OR (drop_bit 1 (e_lo AND 0x3F) AND 0xF) OR (push_bit 4 (e_lo AND 0x3F) AND 0x10);
         input_lo = of_nat (sbox ! (7 - i) ! unat ix);
         input_hi = 0;
         (key3, key4) =
           (if 0 \<le> shift26 shift
            then (if 0 < shift26 shift then sll input_hi shift OR srl input_lo (- shift) else sll input_hi shift, sll input_lo shift)
            else (sll input_lo shift, 0))
     in ((drop_bit 6 e_lo OR push_bit 26 e_hi, drop_bit 6 e_hi), (s_lo OR key4, s_hi OR key3)))"

definition des_f :: "pair \<Rightarrow> pair \<Rightarrow> pair" where
  "des_f k r =
     (let (e_lo, e_hi) = permute Expansion r;
          e1 = drop_bit 16 (e_lo XOR fst k);
          e2 = e_hi XOR snd k;
          e3 = e1 OR push_bit 16 e2;
          e4 = drop_bit 16 e2;
          (e, s) = fold sbox_step [0..<8] ((e3, e4), (0, 0))
      in permute Permutation s)"

definition des_round :: "pair \<Rightarrow> pair \<times> pair \<Rightarrow> pair \<times> pair" where
  "des_round k lr = (case lr of (l, r) \<Rightarrow> let p = des_f k r in (r, (fst l XOR fst p, snd l XOR snd p)))"

text \<open>\<open>L0\<close> and \<open>R0\<close>: the initial permutation of the identifier, split.\<close>

definition initial_halves :: "pair \<Rightarrow> pair \<times> pair" where
  "initial_halves ident =
     (let (in_lo, in_hi) = permute IP_tab ident in ((in_lo AND 0, in_hi AND 0xFFFFFFFF), (0, push_bit 0 in_lo)))"

text \<open>\<open>DESEncryptPassword\<close>, from the halves of the identifier and of the password.\<close>

definition DESEncryptPassword :: "pair \<Rightarrow> pair \<Rightarrow> pair" where
  "DESEncryptPassword ident password =
     (let (l, r) = fold des_round (subkeys password) (initial_halves ident)
      in permute FP (fst r OR drop_bit 0 (snd l), snd r OR 0))"

definition pair_of_bytes :: "u8 list \<Rightarrow> pair" where
  "pair_of_bytes bs = (let ws = words_of_bytes (take 8 bs) in (ws ! 0, ws ! 1))"

definition apaEncryptPassword :: "u8 list \<Rightarrow> u8 list \<Rightarrow> u8 list" where
  "apaEncryptPassword ident password_in =
     (let (lo, hi) = DESEncryptPassword (pair_of_bytes ident) (pair_of_bytes password_in) in bytes_of_words [lo, hi])"

text \<open>
  \<open>apaPassCmp\<close> has two bodies: the comparison of \<open>APA_ENABLE_PASSWORDS\<close>, and success
  without it, as in the builds of this repository.
\<close>

definition apaPassCmp :: "bool \<Rightarrow> u8 list \<Rightarrow> u8 list \<Rightarrow> int" where
  "apaPassCmp enabled pw1 pw2 =
     (if enabled then (if take APA_PASSMAX pw1 \<noteq> take APA_PASSMAX pw2 then - EACCES else 0) else 0)"


subsection \<open>The permutation loops\<close>

text \<open>Bit \<open>k\<close> of a pair in the numbering of the tables less one: 0 is the top bit of \<open>hi\<close>.\<close>

definition pbit :: "pair \<Rightarrow> nat \<Rightarrow> bool" where
  "pbit x k = (if k < 32 then bit (snd x) (31 - k) else k < 64 \<and> bit (fst x) (63 - k))"

lemma pbit_word:
  assumes "n < 32"
  shows "pbit x (31 - n) = bit (snd x) n" "pbit x (63 - n) = bit (fst x) n"
proof -
  have "31 - n < 32" "31 - (31 - n) = n" "\<not> 63 - n < 32" "63 - n < 64" "63 - (63 - n) = n" using assms by auto
  then show "pbit x (31 - n) = bit (snd x) n" "pbit x (63 - n) = bit (fst x) n" by (simp_all add: pbit_def)
qed

lemma pair_eq_pbit: "x = y \<longleftrightarrow> (\<forall>k < 64. pbit x k = pbit y k)"
proof
  assume *: "\<forall>k < 64. pbit x k = pbit y k"
  have "bit (snd x) n = bit (snd y) n \<and> bit (fst x) n = bit (fst y) n" if n: "n < 32" for n
  proof -
    have "31 - n < 64" "63 - n < 64" by auto
    then have "pbit x (31 - n) = pbit y (31 - n)" "pbit x (63 - n) = pbit y (63 - n)" using * by blast+
    then show ?thesis by (simp add: pbit_word [OF n])
  qed
  then have "snd x = snd y" "fst x = fst y" by (auto intro!: bit_word_eqI)
  then show "x = y" by (simp add: prod_eq_iff)
qed simp

definition one_bit :: "nat \<Rightarrow> pair" where
  "one_bit k = (if k < 32 then (0, push_bit (31 - k) 1) else (if k < 64 then push_bit (63 - k) 1 else 0, 0))"

lemma shift26_sign:
  assumes "0 \<le> n" "n < 64"
  shows "0 \<le> shift26 n \<longleftrightarrow> n < 32" "0 < shift26 n \<longleftrightarrow> 0 < n \<and> n < 32"
proof -
  have "n \<in> set [0..63]" using assms by simp
  moreover have "list_all (\<lambda>n. (0 \<le> shift26 n \<longleftrightarrow> n < 32) \<and> (0 < shift26 n \<longleftrightarrow> 0 < n \<and> n < 32)) [0..63]" by code_simp
  ultimately show "0 \<le> shift26 n \<longleftrightarrow> n < 32" "0 < shift26 n \<longleftrightarrow> 0 < n \<and> n < 32" by (auto simp: list_all_iff)
qed

lemma probe_one_bit: "k < 64 \<Longrightarrow> probe (int k) = one_bit k"
proof -
  assume "k < 64"
  then have "k \<in> set [0..<64]" by simp
  moreover have "list_all (\<lambda>k. probe (int k) = one_bit k) [0..<64]" by code_simp
  ultimately show ?thesis by (auto simp: list_all_iff)
qed

lemma select_bit: "k < 64 \<Longrightarrow> (fst x AND fst (one_bit k)) OR (snd x AND snd (one_bit k)) \<noteq> 0 \<longleftrightarrow> pbit x k"
proof -
  assume k: "k < 64"
  have m: "w AND push_bit n 1 = (if bit w n then push_bit n 1 else 0)" for w :: u32 and n
    by (rule bit_word_eqI) (auto simp: bit_simps)
  have nz: "n < 32 \<Longrightarrow> (push_bit n 1 :: u32) \<noteq> 0" for n by (simp add: push_bit_eq_mult)
  show ?thesis using k nz [of "31 - k"] nz [of "63 - k"] by (auto simp: one_bit_def pbit_def m simp del: push_bit_of_1)
qed

lemma pbit_or: "pbit (fst x OR fst y, snd x OR snd y) k \<longleftrightarrow> pbit x k \<or> pbit y k"
  by (auto simp: pbit_def bit_or_iff)

lemma pbit_one_bit: "j < 64 \<Longrightarrow> k < 64 \<Longrightarrow> pbit (one_bit j) k \<longleftrightarrow> j = k"
  by (auto simp: pbit_def one_bit_def bit_simps)

lemma one_bit_shift: "(drop_bit 1 (fst (one_bit j)) OR push_bit 31 (snd (one_bit j)), drop_bit 1 (snd (one_bit j))) = one_bit (Suc j)"
proof (cases "j < 64")
  case True
  then have "j \<in> set [0..<64]" by simp
  moreover have "list_all (\<lambda>j. (drop_bit 1 (fst (one_bit j)) OR push_bit 31 (snd (one_bit j)), drop_bit 1 (snd (one_bit j))) = one_bit (Suc j)) [0..<64]"
    by code_simp
  ultimately show ?thesis by (auto simp: list_all_iff)
qed (simp add: one_bit_def)

lemma permute_step_one_bit:
  assumes "tab ! j \<in> {1..64}"
  shows "permute_step tab x j (out, one_bit j) =
    ((if pbit x (tab ! j - 1) then (fst out OR fst (one_bit j), snd out OR snd (one_bit j)) else out), one_bit (Suc j))"
proof -
  obtain m where m: "tab ! j = Suc m" "m < 64" using assms by (cases "tab ! j") auto
  have p: "probe (int (tab ! j) - 1) = one_bit m" using probe_one_bit [OF m(2)] by (simp add: m(1))
  obtain k1 k2 where k: "one_bit m = (k1, k2)" by (metis surj_pair)
  obtain p1 p2 where o: "one_bit j = (p1, p2)" by (metis surj_pair)
  obtain x1 x2 where x: "x = (x1, x2)" by (metis surj_pair)
  obtain o1 o2 where out: "out = (o1, o2)" by (metis surj_pair)
  have cond: "((x1 AND k1) OR (x2 AND k2) \<noteq> 0) = pbit (x1, x2) (tab ! j - 1)"
    using select_bit [OF m(2), of "(x1, x2)"] k m(1) by simp
  have sh: "(drop_bit 1 p1 OR push_bit 31 p2, drop_bit 1 p2) = one_bit (Suc j)" using one_bit_shift [of j] o by simp
  show ?thesis unfolding permute_step_def x out o p k prod.case Let_def cond sh fst_conv snd_conv by (rule refl)
qed

text \<open>The loop computes the permutation of its table.\<close>

lemma permute_spec:
  assumes "set tab \<subseteq> {1..64}" "length tab \<le> 64" "k < 64"
  shows "pbit (permute tab x) k \<longleftrightarrow> k < length tab \<and> pbit x (tab ! k - 1)"
proof -
  have "n \<le> length tab \<Longrightarrow> \<exists>out. fold (permute_step tab x) [0..<n] ((0, 0), one_bit 0) = (out, one_bit n) \<and>
      (\<forall>k < 64. pbit out k \<longleftrightarrow> k < n \<and> pbit x (tab ! k - 1))" for n
  proof (induction n)
    case 0
    then show ?case by (simp add: pbit_def)
  next
    case (Suc n)
    then obtain out where out: "fold (permute_step tab x) [0..<n] ((0, 0), one_bit 0) = (out, one_bit n)"
      "\<forall>k < 64. pbit out k \<longleftrightarrow> k < n \<and> pbit x (tab ! k - 1)" by auto
    have n: "n < 64" using Suc.prems assms(2) by simp
    have t: "tab ! n \<in> {1..64}" using Suc.prems assms(1) by (meson Suc_le_lessD nth_mem subsetD)
    show ?case using out permute_step_one_bit [OF t, of x out] n
      by (auto simp: pbit_or pbit_one_bit less_Suc_eq)
  qed
  from this [of "length tab"] show ?thesis using assms(3) by (auto simp: permute_def one_bit_def)
qed

lemma tables_in_range:
  "set PC1 \<subseteq> {1..64}" "set PC2 \<subseteq> {1..56}" "set IP_tab \<subseteq> {1..64}" "set Expansion \<subseteq> {1..32}" "set Permutation \<subseteq> {1..32}" "set FP \<subseteq> {1..64}"
  "length PC1 = 56" "length PC2 = 48" "length IP_tab = 64" "length Expansion = 48" "length Permutation = 32" "length FP = 64"
  by (simp_all add: PC1_def PC2_def IP_tab_def Expansion_def Permutation_def FP_def)

lemma permute_inj:
  assumes "set tab = {1..64}" "length tab = 64" "permute tab x = permute tab y"
  shows "x = y"
  unfolding pair_eq_pbit
proof (intro allI impI)
  fix k :: nat assume "k < 64"
  then have "Suc k \<in> set tab" using assms(1) by simp
  then obtain j where j: "j < 64" "tab ! j = Suc k" using assms(2) by (metis in_set_conv_nth)
  have "pbit (permute tab x) j = pbit x k" "pbit (permute tab y) j = pbit y k"
    using permute_spec [of tab j x] permute_spec [of tab j y] assms(1,2) j by auto
  then show "pbit x k = pbit y k" using assms(3) by simp
qed

lemma all_positions: "set IP_tab = {1..64}" "set FP = {1..64}"
proof -
  have "set [1..<65] = {1..64}" by auto
  moreover have "list_all (\<lambda>k. k \<in> set IP_tab) [1..<65]" "list_all (\<lambda>k. k \<in> set FP) [1..<65]" by code_simp+
  ultimately show "set IP_tab = {1..64}" "set FP = {1..64}"
    using tables_in_range by (auto simp: list_all_iff)
qed

subsection \<open>What the encryption keeps\<close>

lemma xor_cancel: "(a XOR c) XOR c = (a :: u32)"
  by (simp add: xor.assoc)

lemma des_round_inj:
  assumes "des_round k lr = des_round k lr'"
  shows "lr = lr'"
proof -
  obtain l r l' r' where lr: "lr = (l, r)" "lr' = (l', r')" by (metis prod.exhaust)
  have r: "r = r'" and l: "fst l XOR fst (des_f k r) = fst l' XOR fst (des_f k r)" "snd l XOR snd (des_f k r) = snd l' XOR snd (des_f k r)"
    using assms by (auto simp: lr des_round_def Let_def)
  have "fst l = fst l'" "snd l = snd l'" using l xor_cancel by metis+
  then show ?thesis using r by (simp add: lr prod_eq_iff)
qed

lemma des_rounds_inj: "fold des_round ks lr = fold des_round ks lr' \<Longrightarrow> lr = lr'"
proof (induction ks arbitrary: lr lr')
  case (Cons k ks)
  from Cons.IH Cons.prems have "des_round k lr = des_round k lr'" by simp
  then show ?case by (rule des_round_inj)
qed simp

text \<open>The low halves of the round values stay zero, so the preoutput is all of the last round.\<close>

lemma permutation_low: "fst (permute Permutation x) = 0"
proof (rule bit_word_eqI)
  fix n assume n: "n < LENGTH(32)"
  have "set Permutation \<subseteq> {1..64}" "\<not> 63 - n < 32" "63 - n < 64" using tables_in_range(5) n by auto
  then have "pbit (permute Permutation x) (63 - n) \<longleftrightarrow> False"
    using permute_spec [of Permutation "63 - n" x] tables_in_range(11) by simp
  then show "bit (fst (permute Permutation x)) n = bit 0 n" using n by (simp add: pbit_word)
qed

lemma des_round_low: "fst l = 0 \<Longrightarrow> fst r = 0 \<Longrightarrow> des_round k (l, r) = (l', r') \<Longrightarrow> fst l' = 0 \<and> fst r' = 0"
  by (auto simp: des_round_def Let_def des_f_def permutation_low split: prod.splits)

lemma des_rounds_low: "fst l = 0 \<Longrightarrow> fst r = 0 \<Longrightarrow> fold des_round ks (l, r) = (l', r') \<Longrightarrow> fst l' = 0 \<and> fst r' = 0"
proof (induction ks arbitrary: l r)
  case Nil
  then show ?case by simp
next
  case (Cons k ks)
  obtain l1 r1 where 1: "des_round k (l, r) = (l1, r1)" by (metis surj_pair)
  then show ?case using des_round_low [OF Cons.prems(1,2) 1] Cons.IH [of l1 r1] Cons.prems(3) by simp
qed

lemma and_full: "(w :: u32) AND 0xFFFFFFFF = w"
proof -
  have *: "(0xFFFFFFFF :: u32) = - 1" by simp
  show ?thesis unfolding * by simp
qed

lemma DES_inj:
  assumes "DESEncryptPassword x k = DESEncryptPassword y k"
  shows "x = y"
proof -
  define start where "start z = (let p = permute IP_tab z in (((0 :: u32), snd p), ((0 :: u32), fst p)))" for z
  define last where "last z = fold des_round (subkeys k) (start z)" for z
  have enc: "DESEncryptPassword z k = permute FP (snd (fst (last z)), snd (snd (last z)))" for z
  proof -
    have "fst (fst (last z)) = 0 \<and> fst (snd (last z)) = 0"
      using des_rounds_low [of "fst (start z)" "snd (start z)" "subkeys k" "fst (last z)" "snd (last z)"]
      by (simp add: start_def last_def Let_def)
    then show ?thesis
      unfolding DESEncryptPassword_def initial_halves_def Let_def
      by (simp add: last_def start_def Let_def case_prod_beta and_full)
  qed
  have low: "fst (fst (last z)) = 0 \<and> fst (snd (last z)) = 0" for z
    using des_rounds_low [of "fst (start z)" "snd (start z)" "subkeys k" "fst (last z)" "snd (last z)"]
    by (simp add: start_def last_def Let_def)
  have "permute FP (snd (fst (last x)), snd (snd (last x))) = permute FP (snd (fst (last y)), snd (snd (last y)))"
    using assms enc [of x] enc [of y] by simp
  then have "(snd (fst (last x)), snd (snd (last x))) = (snd (fst (last y)), snd (snd (last y)))"
    by (rule permute_inj [OF all_positions(2) tables_in_range(12)])
  then have "last x = last y" using low [of x] low [of y] by (simp add: prod_eq_iff)
  then have "start x = start y" unfolding last_def by (rule des_rounds_inj)
  then have "permute IP_tab x = permute IP_tab y" by (simp add: start_def Let_def prod_eq_iff)
  then show ?thesis by (rule permute_inj [OF all_positions(1) tables_in_range(9)])
qed


lemma eight_bytes:
  assumes "length bs = 8"
  obtains b0 b1 b2 b3 b4 b5 b6 b7 where "bs = [b0, b1, b2, b3, b4, b5, b6, b7]"
proof -
  have "bs = [bs ! 0, bs ! 1, bs ! 2, bs ! 3, bs ! 4, bs ! 5, bs ! 6, bs ! 7]"
    using assms by (intro nth_equalityI) (auto simp: nth_Cons' less_Suc_eq numeral_eq_Suc)
  then show ?thesis by (rule that)
qed

lemma pair_of_bytes_8: "pair_of_bytes [b0, b1, b2, b3, b4, b5, b6, b7] = (pack4 b0 b1 b2 b3, pack4 b4 b5 b6 b7)"
  by (simp add: pair_of_bytes_def)

lemma bytes_of_pair_inj: "bytes_of_words [a, b] = bytes_of_words [c, d] \<Longrightarrow> a = c \<and> b = d"
  by (metis list.inject words_of_bytes_of_words)

text \<open>
  C7. For a fixed password the encryption of the partition identifier loses nothing: different
  8-byte identifiers have different encryptions.
\<close>

theorem encrypt_injective:
  assumes "length id1 = 8" "length id2 = 8" "apaEncryptPassword id1 pw = apaEncryptPassword id2 pw"
  shows "id1 = id2"
proof -
  have "DESEncryptPassword (pair_of_bytes id1) (pair_of_bytes pw) = DESEncryptPassword (pair_of_bytes id2) (pair_of_bytes pw)"
    using assms(3) bytes_of_pair_inj unfolding apaEncryptPassword_def Let_def case_prod_beta by (simp only: prod_eq_iff)
  then have "pair_of_bytes id1 = pair_of_bytes id2" by (rule DES_inj)
  then have eq: "bytes_of_words [fst (pair_of_bytes id1), snd (pair_of_bytes id1)] =
     bytes_of_words [fst (pair_of_bytes id2), snd (pair_of_bytes id2)]" by simp
  have whole8: "bytes_of_words [fst (pair_of_bytes bs), snd (pair_of_bytes bs)] = bs" if "length bs = 8" for bs
    by (rule eight_bytes [OF that]) (simp add: pair_of_bytes_8)
  show ?thesis using eq unfolding whole8 [OF assms(1)] whole8 [OF assms(2)] .
qed

theorem encrypt_injective_witness:
  "apaEncryptPassword [1, 2, 3, 4, 5, 6, 7, 8] [9, 9, 9, 9, 9, 9, 9, 9] \<noteq> apaEncryptPassword [1, 2, 3, 4, 5, 6, 7, 0] [9, 9, 9, 9, 9, 9, 9, 9]"
  using encrypt_injective [of "[1, 2, 3, 4, 5, 6, 7, 8]" "[1, 2, 3, 4, 5, 6, 7, 0]" "[9, 9, 9, 9, 9, 9, 9, 9]"] by auto

lemma pack4_bit:
  assumes "r < 8"
  shows "bit (pack4 a b c d) r = bit a r" "bit (pack4 a b c d) (8 + r) = bit b r"
    "bit (pack4 a b c d) (16 + r) = bit c r" "bit (pack4 a b c d) (24 + r) = bit d r"
  using assms by (simp_all add: pack4_def bit_simps)

text \<open>Bit \<open>r\<close> of byte \<open>q\<close> in the numbering of the tables.\<close>

lemma pbit_of_bytes:
  assumes "length bs = 8" "q < 8" "r < 8"
  shows "pbit (pair_of_bytes bs) (63 - (8 * q + r)) = bit (bs ! q) r"
proof (rule eight_bytes [OF assms(1)])
  fix b0 b1 b2 b3 b4 b5 b6 b7
  assume bs: "bs = [b0, b1, b2, b3, b4, b5, b6, b7]"
  show ?thesis
  proof (cases "q < 4")
    case True
    then have n: "8 * q + r < 32" using assms(3) by simp
    have "q = 0 \<or> q = 1 \<or> q = 2 \<or> q = 3" using True by auto
    then show ?thesis using pack4_bit [OF assms(3), of b0 b1 b2 b3]
      by (auto simp: pbit_word(2) [OF n] bs pair_of_bytes_8)
  next
    case False
    then obtain p where p: "q = 4 + p" "p < 4" using assms(2) by (metis add_less_cancel_left le_Suc_ex not_less numeral_Bit0)
    then have n: "8 * p + r < 32" using assms(3) by simp
    have "63 - (8 * q + r) = 31 - (8 * p + r)" using p by simp
    moreover have "p = 0 \<or> p = 1 \<or> p = 2 \<or> p = 3" using p(2) by auto
    ultimately show ?thesis using pack4_bit [OF assms(3), of b4 b5 b6 b7] p(1)
      by (auto simp: pbit_word(1) [OF n] bs pair_of_bytes_8)
  qed
qed

lemma low_bit_free:
  assumes "drop_bit 1 a = drop_bit 1 (b :: u8)" "n \<noteq> 0"
  shows "bit a n = bit b n"
proof -
  obtain m where n: "n = Suc m" using assms(2) by (cases n) auto
  have "bit (drop_bit 1 a) m = bit (drop_bit 1 b) m" using assms(1) by (rule arg_cong)
  then show ?thesis unfolding bit_drop_bit_eq n by simp
qed

lemma permute_cong:
  assumes "set tab \<subseteq> {1..64}" "length tab \<le> 64" "\<And>t. t \<in> set tab \<Longrightarrow> pbit x (t - 1) = pbit y (t - 1)"
  shows "permute tab x = permute tab y"
  unfolding pair_eq_pbit using permute_spec [OF assms(1,2)] assms(3) by auto

text \<open>
  The lowest bit of each password byte is DES's parity bit and does not matter: passwords
  that agree in the other seven bits of their eight bytes encrypt every identifier alike.
\<close>

theorem password_parity_ignored:
  assumes "length pw1 = 8" "length pw2 = 8" "map (drop_bit 1) pw1 = map (drop_bit 1) pw2"
  shows "apaEncryptPassword ident pw1 = apaEncryptPassword ident pw2"
proof -
  have "pbit (pair_of_bytes pw1) (t - 1) = pbit (pair_of_bytes pw2) (t - 1)" if t: "t \<in> set PC1" for t
  proof -
    have "list_all (\<lambda>t. (63 - (t - 1)) mod 8 \<noteq> 0 \<and> t - 1 < 64) PC1" by code_simp
    then have m: "(63 - (t - 1)) mod 8 \<noteq> 0" "t - 1 < 64" using t by (auto simp: list_all_iff)
    define q r where "q = (63 - (t - 1)) div 8" and "r = (63 - (t - 1)) mod 8"
    have qr: "q < 8" "r < 8" "r \<noteq> 0" using m(1) by (simp_all add: q_def r_def less_mult_imp_div_less)
    have "63 - (t - 1) = 8 * q + r" by (simp add: q_def r_def)
    then have k: "t - 1 = 63 - (8 * q + r)" using m(2) by arith
    have "map (drop_bit 1) pw1 ! q = map (drop_bit 1) pw2 ! q" using assms(3) by simp
    then have "drop_bit 1 (pw1 ! q) = drop_bit 1 (pw2 ! q)" using assms(1,2) qr(1) by simp
    then show ?thesis using low_bit_free qr(3) unfolding k pbit_of_bytes [OF assms(1) qr(1,2)] pbit_of_bytes [OF assms(2) qr(1,2)] by blast
  qed
  then have "permute PC1 (pair_of_bytes pw1) = permute PC1 (pair_of_bytes pw2)"
    by (intro permute_cong) (use tables_in_range in auto)
  then have "subkeys (pair_of_bytes pw1) = subkeys (pair_of_bytes pw2)" by (simp add: subkeys_def)
  then show ?thesis by (simp add: apaEncryptPassword_def DESEncryptPassword_def)
qed


theorem password_parity_ignored_witness:
  "apaEncryptPassword [1, 2, 3, 4, 5, 6, 7, 8] [2, 4, 6, 8, 10, 12, 14, 16] = apaEncryptPassword [1, 2, 3, 4, 5, 6, 7, 8] [3, 5, 7, 9, 11, 13, 15, 17]"
  by (rule password_parity_ignored) simp_all

end
