(* ===== verification/Hdck.thy ===== *)
theory Hdck
  imports ApaOps
begin

text \<open>
  \<open>hdck/hdck.c\<close>: the check and repair of the APA partition list. Its statics are the two
  buffers, which the code uses as arrays of sector numbers, and \<open>PrivateData\<close>; the record
  extends the state of the APA library. The model follows the build of the repository's
  Makefile, which defines \<open>HDCK_CHECK_CROSSLINK\<close>. \<open>None\<close> is a run past a buffer, a NULL
  dereference, or not returning.
\<close>

subsection \<open>State\<close>

record hdd_info =
  hi_sectors :: u32
  hi_MaxPartSize :: u32
  hi_format :: u32
  hi_status :: u32

record 'd hdck_state = "'d apa_state" +
  IOBuffer :: "u32 list"
  IOBuffer2 :: "u32 list"
  HddInfo :: "hdd_info list"
  ErrorPartitionLBA :: u32
  ErrorPartition2LBA :: u32
  ErrorPartitionPrevLBA :: u32
  ErrorPartition2PrevLBA :: u32

subsection \<open>The links of the partition list\<close>

text \<open>The list of visited sectors: \<open>buf\<close> and its count. A full buffer is overrun.\<close>

definition AddPartitionToList :: "u32 list \<Rightarrow> nat \<Rightarrow> u32 \<Rightarrow> (int \<times> u32 list \<times> nat) option" where
  "AddPartitionToList buf cnt sector =
     (if sector \<in> set (take cnt buf) then Some (- EEXIST, buf, cnt)
      else if cnt < length buf then Some (0, buf[cnt := sector], cnt + 1)
      else None)"

text \<open>
  The two scans of \<open>CheckAPAPartitionLinks\<close>: \<open>fwd\<close> follows \<open>next\<close> and repairs \<open>prev\<close>,
  the other follows \<open>prev\<close> and repairs \<open>next\<close>.
\<close>

definition follow :: "bool \<Rightarrow> apa_header \<Rightarrow> u32" where
  "follow fwd h = (if fwd then h_next h else h_prev h)"

definition opposite :: "bool \<Rightarrow> apa_header \<Rightarrow> u32" where
  "opposite fwd h = (if fwd then h_prev h else h_next h)"

definition set_opposite :: "bool \<Rightarrow> u32 \<Rightarrow> apa_header \<Rightarrow> apa_header" where
  "set_opposite fwd v h = (if fwd then h\<lparr>h_prev := v\<rparr> else h\<lparr>h_next := v\<rparr>)"

text \<open>\<open>repair\<close>: a link that is not \<open>v\<close> is set, and all dirty headers are flushed.\<close>

definition repair_link ::
    "'d ata_env \<Rightarrow> s32 \<Rightarrow> bool \<Rightarrow> u32 \<Rightarrow> nat \<Rightarrow> ('d, 'z) apa_state_scheme \<Rightarrow> ('d, 'z) apa_state_scheme option" where
  "repair_link E device fwd v c s =
     (if opposite fwd (hdr s c) \<noteq> v
      then map_option snd (apaCacheFlushAllDirty E device (mark_dirty c (set_header c (set_opposite fwd v) s)))
      else Some s)"

record 'd scan =
  sc_result :: int
  sc_parent :: u32
  sc_current :: u32
  sc_buf :: "u32 list"
  sc_count :: nat
  sc_state :: 'd

function links_loop ::
    "'d ata_env \<Rightarrow> s32 \<Rightarrow> bool \<Rightarrow> ('d, 'z) apa_state_scheme scan \<Rightarrow> ('d, 'z) apa_state_scheme scan option" where
  "links_loop E device fwd sc =
     (if sc_current sc = 0 then Some sc
      else (case AddPartitionToList (sc_buf sc) (sc_count sc) (sc_current sc) of
          None \<Rightarrow> None
        | Some (r, buf, cnt) \<Rightarrow>
            if r < 0 then Some (sc\<lparr>sc_result := r\<rparr>)
            else (case apaCacheGetHeader E device (sc_current sc) 0 (sc_state sc) of
                ((None, e), s1) \<Rightarrow> Some (sc\<lparr>sc_result := e, sc_buf := buf, sc_count := cnt, sc_state := s1\<rparr>)
              | ((Some c, e), s1) \<Rightarrow>
                  (case repair_link E device fwd (sc_parent sc) c s1 of
                     None \<Rightarrow> None
                   | Some s2 \<Rightarrow>
                       links_loop E device fwd \<lparr>sc_result = e, sc_parent = h_start (hdr s2 c), sc_current = follow fwd (hdr s2 c),
                         sc_buf = buf, sc_count = cnt, sc_state = apaCacheFree (Some c) s2\<rparr>))))"
  by pat_completeness auto
termination
  by (relation "measure (\<lambda>(E, d, f, sc). length (sc_buf sc) - sc_count sc)")
    (auto simp: AddPartitionToList_def EEXIST_def split: if_splits)

declare links_loop.simps [simp del]

definition scan_from :: "u32 \<Rightarrow> 'd hdck_state \<Rightarrow> 'd hdck_state scan" where
  "scan_from cur s = \<lparr>sc_result = 0, sc_parent = 0, sc_current = cur, sc_buf = IOBuffer s, sc_count = 0, sc_state = s\<rparr>"

definition CheckAPAPartitionLinks :: "'d ata_env \<Rightarrow> s32 \<Rightarrow> nat \<Rightarrow> 'd hdck_state \<Rightarrow> (u32 \<times> 'd hdck_state) option" where
  "CheckAPAPartitionLinks E device clink s0 = do {
     let s = s0\<lparr>ErrorPartition2LBA := 0, ErrorPartitionLBA := 0, ErrorPartition2PrevLBA := 0, ErrorPartitionPrevLBA := 0\<rparr>;
     f \<leftarrow> links_loop E device True (scan_from (h_next (hdr s clink)) s);
     let s1 = (sc_state f)\<lparr>IOBuffer := sc_buf f\<rparr>;
     if sc_result f = 0
     then do {
       s2 \<leftarrow> repair_link E device True (sc_parent f) clink s1;
       Some (ErrorPartitionLBA s2, s2)
     }
     else do {
       let s2 = s1\<lparr>ErrorPartitionLBA := sc_current f, ErrorPartitionPrevLBA := sc_parent f\<rparr>;
       b \<leftarrow> links_loop E device False ((scan_from (h_prev (hdr s2 clink)) s2)\<lparr>sc_result := sc_result f\<rparr>);
       let s3 = (sc_state b)\<lparr>IOBuffer := sc_buf b\<rparr>;
       if sc_result b = 0
       then do {
         s4 \<leftarrow> repair_link E device False (sc_parent b) clink s3;
         let s5 = s4\<lparr>ErrorPartitionLBA := 0\<rparr>;
         Some (ErrorPartitionLBA s5, s5)
       }
       else do {
         let s4 = s3\<lparr>ErrorPartition2LBA := sc_current b, ErrorPartition2PrevLBA := sc_parent b\<rparr>;
         Some (ErrorPartitionLBA s4, s4)
       }
     }
   }"

subsection \<open>Removing and recovering partitions\<close>

definition EraseSector :: "'d ata_env \<Rightarrow> s32 \<Rightarrow> u32 \<Rightarrow> 'd hdck_state \<Rightarrow> 'd hdck_state" where
  "EraseSector E unit lba s =
     (let s1 = s\<lparr>IOBuffer := replicate 128 0 @ drop 128 (IOBuffer s)\<rparr>;
          (r1, w1) = ata_write E unit lba 1 (replicate 128 0) (world s1);
          (r2, w2) = ata_flush E unit w1
      in s1\<lparr>world := w2\<rparr>)"

text \<open>The flags that are set are those of the headers.\<close>

definition RemoveBadPartitions :: "'d ata_env \<Rightarrow> s32 \<Rightarrow> nat \<Rightarrow> 'd hdck_state \<Rightarrow> 'd hdck_state option" where
  "RemoveBadPartitions E device clink s =
     (case apaCacheGetHeader E device (ErrorPartitionPrevLBA s) 0 s of
        ((None, e), s1) \<Rightarrow> Some s1
      | ((Some c2, e), s1) \<Rightarrow> do {
          let s2 = set_header c2 (\<lambda>h. h\<lparr>h_next := 0\<rparr>) s1;
          let s3 = set_header clink (\<lambda>h. h\<lparr>h_prev := ErrorPartitionPrevLBA s2\<rparr>) s2;
          let s4 = set_header c2 (\<lambda>h. h\<lparr>h_flags := h_flags h OR APA_CACHE_FLAG_DIRTY\<rparr>) s3;
          let s5 = set_header clink (\<lambda>h. h\<lparr>h_flags := h_flags h OR APA_CACHE_FLAG_DIRTY\<rparr>) s4;
          (r, s6) \<leftarrow> apaCacheFlushAllDirty E device s5;
          let s7 = apaCacheFree (Some c2) s6;
          Some (s7\<lparr>ErrorPartition2LBA := 0, ErrorPartitionLBA := 0\<rparr>)
        })"

definition RecoverSubPartition ::
    "'d ata_env \<Rightarrow> nat \<Rightarrow> u32 \<Rightarrow> u32 \<Rightarrow> u32 \<Rightarrow> u32 \<Rightarrow> u16 \<Rightarrow> u32 \<Rightarrow> 'd hdck_state \<Rightarrow> 'd hdck_state option" where
  "RecoverSubPartition E clink lba previous sublength substart typ sub s =
     (case apaCacheGetHeader E (c_device (cacheBuf s clink)) lba 1 s of
        ((None, e), s1) \<Rightarrow> None
      | ((Some c2, e), s1) \<Rightarrow> do {
          let s2 = set_header c2 (\<lambda>_. zero_header\<lparr>h_magic := APA_MAGIC, h_start := lba\<rparr>) s1;
          let s3 = (if lba < h_prev (hdr s2 clink) then set_header c2 (\<lambda>h. h\<lparr>h_next := lba + sublength\<rparr>) s2 else s2);
          let s4 = set_header c2 (\<lambda>h. h\<lparr>h_prev := previous, h_length := sublength, h_type := typ, h_flags := APA_FLAG_SUB,
                     h_main := substart, h_number := sub\<rparr>) s3;
          (r, s5) \<leftarrow> apaCacheFlushAllDirty E (c_device (cacheBuf s4 clink)) (mark_dirty c2 (stamp E c2 s4));
          Some (apaCacheFree (Some c2) s5)
        })"

text \<open>The entries of one main partition's list; reading past its 64 places is undefined.\<close>

definition recover_sub_at :: "'d ata_env \<Rightarrow> nat \<Rightarrow> nat \<Rightarrow> nat \<Rightarrow> 'd hdck_state \<Rightarrow> 'd hdck_state option" where
  "recover_sub_at E clink c2 sub s = do {
     let p = h_subs (hdr s c2) ! sub;
     s1 \<leftarrow> (if ErrorPartitionLBA s \<noteq> 0 \<and> sub_start p = ErrorPartitionLBA s
           then do {
             t \<leftarrow> RecoverSubPartition E clink (ErrorPartitionLBA s) (ErrorPartitionPrevLBA s) (sub_length p)
                    (h_start (hdr s c2)) (h_type (hdr s c2)) (of_nat (sub + 1)) s;
             let t1 = (if ErrorPartition2LBA t = ErrorPartitionLBA t then t\<lparr>ErrorPartition2LBA := 0\<rparr> else t);
             Some (t1\<lparr>ErrorPartitionLBA := 0\<rparr>)
           }
           else Some s);
     let q = h_subs (hdr s1 c2) ! sub;
     if ErrorPartition2LBA s1 \<noteq> 0 \<and> sub_start q = ErrorPartition2LBA s1
     then do {
       t \<leftarrow> RecoverSubPartition E clink (ErrorPartition2LBA s1) (ErrorPartitionLBA s1) (sub_length q)
              (h_start (hdr s1 c2)) (h_type (hdr s1 c2)) (of_nat (sub + 1)) s1;
       Some (t\<lparr>ErrorPartition2LBA := 0\<rparr>)
     }
     else Some s1
   }"

function recover_subs :: "'d ata_env \<Rightarrow> nat \<Rightarrow> nat \<Rightarrow> nat \<Rightarrow> 'd hdck_state \<Rightarrow> 'd hdck_state option" where
  "recover_subs E clink c2 sub s =
     (if \<not> sub < unat (h_nsub (hdr s c2)) then Some s
      else if APA_MAXSUB \<le> sub then None
      else (case recover_sub_at E clink c2 sub s of None \<Rightarrow> None
            | Some s1 \<Rightarrow> recover_subs E clink c2 (sub + 1) s1))"
  by pat_completeness auto
termination by (relation "measure (\<lambda>(E, clink, c2, sub, s). APA_MAXSUB - sub)") auto

declare recover_subs.simps [simp del]

text \<open>One direction of \<open>RecoverPartitionIfSub\<close>; the flag is its early return.\<close>

partial_function (option) recover_loop ::
    "'d ata_env \<Rightarrow> s32 \<Rightarrow> nat \<Rightarrow> bool \<Rightarrow> u32 \<Rightarrow> 'd hdck_state \<Rightarrow> (bool \<times> 'd hdck_state) option" where
  "recover_loop E device clink fwd cur s =
     (case apaCacheGetHeader E device cur 0 s of
        ((None, e), s1) \<Rightarrow> Some (False, s1)
      | ((Some c2, e), s1) \<Rightarrow> do {
          s2 \<leftarrow> (if h_type (hdr s1 c2) \<noteq> 0 \<and> h_flags (hdr s1 c2) AND APA_FLAG_SUB = 0
                then recover_subs E clink c2 0 s1 else Some s1);
          let nxt = follow fwd (hdr s2 c2);
          let s3 = apaCacheFree (Some c2) s2;
          if ErrorPartitionLBA s3 = 0 \<and> ErrorPartition2LBA s3 = 0 then Some (True, s3)
          else if nxt = 0 \<or> nxt = ErrorPartitionLBA s3 then Some (False, s3)
          else recover_loop E device clink fwd nxt s3
        })"

definition RecoverPartitionIfSub :: "'d ata_env \<Rightarrow> s32 \<Rightarrow> nat \<Rightarrow> 'd hdck_state \<Rightarrow> 'd hdck_state option" where
  "RecoverPartitionIfSub E device clink s = do {
     (ret, s1) \<leftarrow> (let nxt = h_next (hdr s clink) in
        if nxt \<noteq> 0 \<and> ErrorPartitionLBA s \<noteq> nxt then recover_loop E device clink True nxt s else Some (False, s));
     if ret then Some s1
     else (let prv = h_prev (hdr s1 clink) in
        if prv \<noteq> 0 \<and> prv \<noteq> ErrorPartition2LBA s1
        then map_option snd (recover_loop E device clink False prv s1) else Some s1)
   }"

subsection \<open>Replacing partitions by empty ones\<close>

text \<open>The size search of \<open>apaCreateAlignedEmptyPartition\<close>.\<close>

function aligned_size :: "u32 \<Rightarrow> u32 \<Rightarrow> u32 option" where
  "aligned_size lba len =
     (if 0x3FFFF < len then if lba mod len = 0 then Some len else aligned_size lba (drop_bit 1 len) else None)"
  by auto
termination
proof (relation "measure (\<lambda>(l, n). unat n)")
  fix lba len :: u32
  assume "0x3FFFF < len"
  then have "0 < unat len" by (simp add: word_less_nat_alt)
  then show "((lba, drop_bit 1 len), lba, len) \<in> measure (\<lambda>(l, n). unat n)"
    by (simp add: drop_bit_eq_div unat_div)
qed simp

declare aligned_size.simps [simp del]

definition apaCreateAlignedEmptyPartition ::
    "'d ata_env \<Rightarrow> nat \<Rightarrow> u32 \<Rightarrow> u32 \<Rightarrow> 'd hdck_state \<Rightarrow> (nat option \<times> 'd hdck_state) option" where
  "apaCreateAlignedEmptyPartition E clink lba len0 s =
     (case aligned_size lba (drop_bit 1 len0) of
        None \<Rightarrow> Some (None, s)
      | Some len \<Rightarrow> do {
          let device = c_device (cacheBuf s clink);
          let (res, s1) = apaRemovePartition E device lba (lba + len) (h_start (hdr s clink)) len s;
          let s2 = mark_dirty clink (set_header clink (\<lambda>h. h\<lparr>h_next := lba\<rparr>) s1);
          (r, s3) \<leftarrow> apaCacheFlushAllDirty E device s2;
          Some (res, apaCacheFree (Some clink) s3)
        })"

text \<open>The highest bit of \<open>length\<close>, which is not zero.\<close>

definition top_bit :: "u32 \<Rightarrow> u32" where
  "top_bit len = (case List.find (bit len) (rev [0..<32]) of Some i \<Rightarrow> push_bit i 1 | None \<Rightarrow> 1)"

partial_function (option) mark_empty_loop ::
    "'d ata_env \<Rightarrow> s32 \<Rightarrow> u32 \<Rightarrow> nat \<Rightarrow> u32 \<Rightarrow> 'd hdck_state \<Rightarrow> (nat \<times> 'd hdck_state) option" where
  "mark_empty_loop E device lba clink len s =
     (if len = 0 then Some (clink, s)
      else let new_length = top_bit len in do {
        (c, s1) \<leftarrow> (if lba mod new_length \<noteq> 0
           then do {
             (res, t) \<leftarrow> apaCreateAlignedEmptyPartition E clink lba new_length s;
             c \<leftarrow> res;
             Some (c, t)
           }
           else do {
             let (res, t) = apaRemovePartition E device lba (lba + new_length) (h_start (hdr s clink)) new_length s;
             (r, t2) \<leftarrow> apaCacheFlushAllDirty E device (mark_dirty clink (set_header clink (\<lambda>h. h\<lparr>h_next := lba\<rparr>) t));
             Some (clink, apaCacheFree (Some clink) t2)
           });
        mark_empty_loop E device lba c (len - h_length (hdr s1 c)) s1
      })"

definition MarkUnreadablePartionAsEmpty :: "'d ata_env \<Rightarrow> s32 \<Rightarrow> u32 \<Rightarrow> u32 \<Rightarrow> u32 \<Rightarrow> 'd hdck_state \<Rightarrow> 'd hdck_state option" where
  "MarkUnreadablePartionAsEmpty E device lba parent len s =
     (case apaCacheGetHeader E device parent 0 s of
        ((None, e), s1) \<Rightarrow> Some s1
      | ((Some clink, e), s1) \<Rightarrow> do {
          (c, s2) \<leftarrow> mark_empty_loop E device lba clink len s1;
          let s3 = apaCacheFree (Some c) s2;
          Some (s3\<lparr>ErrorPartition2LBA := 0, ErrorPartitionLBA := 0\<rparr>)
        })"

partial_function (option) delete_free_loop :: "'d ata_env \<Rightarrow> s32 \<Rightarrow> u32 \<Rightarrow> 'd hdck_state \<Rightarrow> 'd hdck_state option" where
  "delete_free_loop E device sector s =
     (if sector = 0 then Some s
      else (case apaCacheGetHeader E device sector 0 s of
        ((None, e), s1) \<Rightarrow> Some s1
      | ((Some c2, e), s1) \<Rightarrow> do {
          ((c3, e2), s2) \<leftarrow> (if h_type (hdr s1 c2) = 0 then apaDeleteFixPrev E c2 e s1 else Some ((Some c2, e), s1));
          (case c3 of None \<Rightarrow> Some s2
           | Some c \<Rightarrow> delete_free_loop E device (h_next (hdr s2 c)) (apaCacheFree (Some c) s2))
        }))"

definition DeleteFreePartitions :: "'d ata_env \<Rightarrow> s32 \<Rightarrow> nat \<Rightarrow> 'd hdck_state \<Rightarrow> 'd hdck_state option" where
  "DeleteFreePartitions E device clink s = delete_free_loop E device (h_next (hdr s clink)) s"

subsection \<open>Main and sub-partitions\<close>

text \<open>The lists of main and sub-partitions, collected in the two buffers.\<close>

definition map_put :: "u32 list \<Rightarrow> nat \<Rightarrow> u32 \<Rightarrow> u32 list option" where
  "map_put buf n v = (if n < length buf then Some (buf[n := v]) else None)"

partial_function (option) read_map_loop ::
    "'d ata_env \<Rightarrow> s32 \<Rightarrow> u32 \<Rightarrow> int \<Rightarrow> nat \<Rightarrow> nat \<Rightarrow> 'd hdck_state \<Rightarrow> (int \<times> nat \<times> nat \<times> 'd hdck_state) option" where
  "read_map_loop E device sector result mains subs s =
     (if sector = 0 then Some (result, mains, subs, s)
      else (case apaCacheGetHeader E device sector 0 s of
        ((None, e), s1) \<Rightarrow> Some (e, mains, subs, s1)
      | ((Some c, e), s1) \<Rightarrow> do {
          let h = hdr s1 c;
          (m, n, s2) \<leftarrow> (if h_type h = 0 then Some (mains, subs, s1)
             else if h_flags h AND APA_FLAG_SUB = 0
             then do { b \<leftarrow> map_put (IOBuffer s1) mains (h_start h); Some (mains + 1, subs, s1\<lparr>IOBuffer := b\<rparr>) }
             else do { b \<leftarrow> map_put (IOBuffer2 s1) subs (h_start h); Some (mains, subs + 1, s1\<lparr>IOBuffer2 := b\<rparr>) });
          read_map_loop E device (h_next (hdr s2 c)) e m n (apaCacheFree (Some c) s2)
        }))"

definition ReadPartitionMap :: "'d ata_env \<Rightarrow> s32 \<Rightarrow> nat \<Rightarrow> 'd hdck_state \<Rightarrow> (int \<times> nat \<times> nat \<times> 'd hdck_state) option" where
  "ReadPartitionMap E device clink s = read_map_loop E device (h_next (hdr s clink)) 0 0 0 s"

text \<open>
  The list of one main partition: an entry that is no sub-partition of the disk ends it. The
  results are \<open>result\<close> and the state; entry \<open>sub\<close> is visited while \<open>sub < nsub\<close>.
\<close>

function check_main_subs ::
    "'d ata_env \<Rightarrow> s32 \<Rightarrow> nat \<Rightarrow> nat \<Rightarrow> bool \<Rightarrow> nat \<Rightarrow> int \<Rightarrow> 'd hdck_state \<Rightarrow> (int \<times> 'd hdck_state) option" where
  "check_main_subs E device c2 nsubs missing sub result s =
     (if \<not> sub < unat (h_nsub (hdr s c2)) then Some (result, s)
      else if APA_MAXSUB \<le> sub then None
      else let start = sub_start (h_subs (hdr s c2) ! sub) in
        if start \<notin> set (take nsubs (IOBuffer2 s))
        then if \<not> missing
             then (case apaCacheFlushAllDirty E device (mark_dirty c2 (set_header c2 (\<lambda>h. h\<lparr>h_nsub := of_nat sub\<rparr>) s)) of
                     None \<Rightarrow> None
                   | Some (r, s1) \<Rightarrow> check_main_subs E device c2 nsubs True (sub + 1) result s1)
             else check_main_subs E device c2 nsubs missing (sub + 1) result s
        else if missing
        then (case apaCacheGetHeader E device start 0 s of
                ((None, e), s1) \<Rightarrow> check_main_subs E device c2 nsubs missing (sub + 1) e s1
              | ((Some cs, e), s1) \<Rightarrow>
                  (case apaDelete E cs s1 of None \<Rightarrow> None
                   | Some (r, s2) \<Rightarrow> check_main_subs E device c2 nsubs missing (sub + 1) r s2))
        else check_main_subs E device c2 nsubs missing (sub + 1) result s)"
  by pat_completeness auto
termination by (relation "measure (\<lambda>(E, d, c2, n, m, sub, r, s). APA_MAXSUB - sub)") auto

declare check_main_subs.simps [simp del]

fun check_mains :: "'d ata_env \<Rightarrow> s32 \<Rightarrow> nat \<Rightarrow> nat list \<Rightarrow> int \<Rightarrow> 'd hdck_state \<Rightarrow> (int \<times> 'd hdck_state) option" where
  "check_mains E device nsubs [] result s = Some (result, s)"
| "check_mains E device nsubs (i # is) result s =
     (if result \<noteq> 0 then Some (result, s)
      else (case apaCacheGetHeader E device (IOBuffer s ! i) 0 s of
              ((None, e), s1) \<Rightarrow> check_mains E device nsubs is e s1
            | ((Some c2, e), s1) \<Rightarrow> do {
                (r, s2) \<leftarrow> check_main_subs E device c2 nsubs False 0 e s1;
                check_mains E device nsubs is r (apaCacheFree (Some c2) s2)
              }))"

text \<open>\<open>for (i = 0; Main[i] != main && i < MainCount; i++);\<close> reads \<open>Main[MainCount]\<close> when nothing matches.\<close>

definition find_main :: "u32 list \<Rightarrow> nat \<Rightarrow> u32 \<Rightarrow> nat option" where
  "find_main buf mains v =
     (case List.find (\<lambda>i. buf ! i = v) [0..<mains] of
        Some i \<Rightarrow> Some i
      | None \<Rightarrow> if mains < length buf then Some mains else None)"

text \<open>\<open>for (count = 0; count < n; count++) if (subs[count].start == v) break;\<close>\<close>

function sub_index :: "apa_sub list \<Rightarrow> nat \<Rightarrow> u32 \<Rightarrow> nat \<Rightarrow> nat option" where
  "sub_index subs n v i =
     (if \<not> i < n then Some i
      else if APA_MAXSUB \<le> i then None
      else if sub_start (subs ! i) = v then Some i else sub_index subs n v (i + 1))"
  by pat_completeness auto
termination by (relation "measure (\<lambda>(subs, n, v, i). n - i)") auto

declare sub_index.simps [simp del]

text \<open>One sub-partition; the flag says whether the loop goes on.\<close>

definition check_sub ::
    "'d ata_env \<Rightarrow> s32 \<Rightarrow> nat \<Rightarrow> u32 \<Rightarrow> 'd hdck_state \<Rightarrow> (int \<times> bool \<times> 'd hdck_state) option" where
  "check_sub E device mains ptr s =
     (case apaCacheGetHeader E device ptr 0 s of
        ((None, e), s1) \<Rightarrow> Some (e, False, s1)
      | ((Some c2, e), s1) \<Rightarrow> do {
          i \<leftarrow> find_main (IOBuffer s1) mains (h_main (hdr s1 c2));
          if mains = i
          then do { (r, s2) \<leftarrow> apaDelete E c2 s1; Some (r, True, s2) }
          else (case apaCacheGetHeader E device (h_main (hdr s1 c2)) 0 s1 of
                  ((None, e2), s2) \<Rightarrow> Some (e2, True, apaCacheFree (Some c2) s2)
                | ((Some cs, e2), s2) \<Rightarrow> do {
                    count \<leftarrow> sub_index (h_subs (hdr s2 cs)) (unat (h_nsub (hdr s2 c2))) ptr 0;
                    if unat (h_nsub (hdr s2 cs)) = count
                    then do { (r, s3) \<leftarrow> apaDelete E c2 s2; Some (e2, True, apaCacheFree (Some cs) s3) }
                    else Some (e2, True, apaCacheFree (Some c2) (apaCacheFree (Some cs) s2))
                  })
        })"

fun check_subs :: "'d ata_env \<Rightarrow> s32 \<Rightarrow> nat \<Rightarrow> nat list \<Rightarrow> int \<Rightarrow> 'd hdck_state \<Rightarrow> (int \<times> 'd hdck_state) option" where
  "check_subs E device mains [] result s = Some (result, s)"
| "check_subs E device mains (j # js) result s =
     (if result \<noteq> 0 then Some (result, s)
      else do {
        (r, go, s1) \<leftarrow> check_sub E device mains (IOBuffer2 s ! j) s;
        if go then check_subs E device mains js r s1 else Some (r, s1)
      })"

definition CheckPartitions :: "'d ata_env \<Rightarrow> s32 \<Rightarrow> nat \<Rightarrow> 'd hdck_state \<Rightarrow> (int \<times> 'd hdck_state) option" where
  "CheckPartitions E device clink s = do {
     (r1, mains, subs, s1) \<leftarrow> ReadPartitionMap E device clink s;
     if r1 \<noteq> 0 then Some (r1, s1)
     else do {
       (r2, s2) \<leftarrow> check_mains E device subs [0..<mains] r1 s1;
       if r2 < 0 then Some (r2, s2)
       else do {
         (r3, mains2, subs2, s3) \<leftarrow> ReadPartitionMap E device clink s2;
         if r3 \<noteq> 0 then Some (r3, s3) else check_subs E device mains2 [0..<subs2] r3 s3
       }
     }
   }"

subsection \<open>The command\<close>

text \<open>
  One round of the repair loop, after \<open>CheckAPAPartitionLinks\<close> found an error. The flag is
  the \<open>continue\<close> that leaves \<open>badParts\<close> alone.
\<close>

definition mark_or_remove :: "'d ata_env \<Rightarrow> s32 \<Rightarrow> nat \<Rightarrow> bool \<Rightarrow> 'd hdck_state \<Rightarrow> 'd hdck_state option" where
  "mark_or_remove E unit clink mark s =
     (if mark
      then MarkUnreadablePartionAsEmpty E unit (ErrorPartitionLBA s) (ErrorPartitionPrevLBA s)
             (ErrorPartition2PrevLBA s - ErrorPartitionLBA s) s
      else RemoveBadPartitions E unit clink s)"

definition repair_round :: "'d ata_env \<Rightarrow> s32 \<Rightarrow> nat \<Rightarrow> 'd hdck_state \<Rightarrow> (bool \<times> 'd hdck_state) option" where
  "repair_round E unit clink s =
     (if ErrorPartitionLBA s = ErrorPartition2LBA s
      then do {
        s1 \<leftarrow> RecoverPartitionIfSub E unit clink s;
        if ErrorPartitionLBA s1 \<noteq> 0 \<and> ErrorPartition2LBA s1 \<noteq> 0
        then map_option (Pair False) (mark_or_remove E unit clink (h_prev (hdr s1 clink) \<noteq> ErrorPartitionLBA s1) s1)
        else Some (True, s1)
      }
      else if ErrorPartitionLBA s < ErrorPartition2LBA s
      then do {
        s1 \<leftarrow> RecoverPartitionIfSub E unit clink s;
        if ErrorPartitionLBA s1 \<noteq> 0 \<and> ErrorPartition2LBA s1 \<noteq> 0
        then map_option (Pair False) (mark_or_remove E unit clink
               (h_prev (hdr s1 clink) \<noteq> ErrorPartitionLBA s1 \<and> h_prev (hdr s1 clink) \<noteq> ErrorPartition2LBA s1) s1)
        else Some (True, s1)
      }
      else map_option (Pair False) (RemoveBadPartitions E unit clink s))"

text \<open>The flag of the result: the ninth bad partition leaves the loop for \<open>check_end\<close>.\<close>

partial_function (option) repair_loop :: "'d ata_env \<Rightarrow> s32 \<Rightarrow> nat \<Rightarrow> nat \<Rightarrow> 'd hdck_state \<Rightarrow> (bool \<times> 'd hdck_state) option" where
  "repair_loop E unit clink badParts s = do {
     (err, s1) \<leftarrow> CheckAPAPartitionLinks E unit clink s;
     if err = 0 then Some (False, s1)
     else do {
       (cont, s2) \<leftarrow> repair_round E unit clink s1;
       if cont then repair_loop E unit clink badParts s2
       else if badParts + 1 = 9 then Some (True, s2)
       else repair_loop E unit clink (badParts + 1) s2
     }
   }"

definition HdckDevctl :: "'d ata_env \<Rightarrow> nat \<Rightarrow> 'd hdck_state \<Rightarrow> (int \<times> 'd hdck_state) option" where
  "HdckDevctl E unit s =
     (let u = of_nat unit in
      if hi_status (HddInfo s ! unit) \<noteq> 0 then Some (- ENXIO, s)
      else (case apaCacheGetHeader E u APA_SECTOR_MBR 0 s of
              ((None, e), s1) \<Rightarrow> Some (e, s1)
            | ((Some clink, e), s1) \<Rightarrow> do {
                (abort, s2) \<leftarrow> repair_loop E u clink 0 s1;
                if abort then Some (e, apaCacheFree (Some clink) s2)
                else do {
                  s3 \<leftarrow> DeleteFreePartitions E u clink (EraseSector E u APA_SECTOR_SECTOR_ERROR s2);
                  (r, s4) \<leftarrow> CheckPartitions E u clink s3;
                  Some (r, apaCacheFree (Some clink) s4)
                }
              }))"

subsection \<open>Module start\<close>

text \<open>
  \<open>ata_get_devinfo(i)\<close> (None is NULL: exists, has_packet, total_sectors), \<open>HdckUnlockHdd(i)\<close>
  and the success of \<open>AddDrv\<close> are parameters; the result is whether the module stays resident.
\<close>

definition start_unit :: "(nat \<Rightarrow> (bool \<times> bool \<times> u32) option) \<Rightarrow> (nat \<Rightarrow> int) \<Rightarrow> nat \<Rightarrow> 'd hdck_state \<Rightarrow> 'd hdck_state option" where
  "start_unit devinfo unlock i s =
     (case devinfo i of None \<Rightarrow> None
      | Some (ex, packet, total_sectors) \<Rightarrow>
          if ex \<and> \<not> packet
          then let h = HddInfo s ! i;
                   h1 = h\<lparr>hi_status := hi_status h - 1, hi_sectors := total_sectors, hi_MaxPartSize := apaGetPartitionMax total_sectors\<rparr>;
                   h2 = (if unlock i = 0 then h1\<lparr>hi_status := hi_status h1 - 1\<rparr> else h1)
               in Some (s\<lparr>HddInfo := (HddInfo s)[i := h2]\<rparr>)
          else Some s)"

text \<open>\<open>Some (False, _)\<close>: \<open>MODULE_NO_RESIDENT_END\<close> because the journal could not be restored.\<close>

definition start_restore :: "'d ata_env \<Rightarrow> nat \<Rightarrow> 'd hdck_state \<Rightarrow> (bool \<times> 'd hdck_state) option" where
  "start_restore E i s =
     (if hi_status (HddInfo s ! i) < 2
      then do {
        (r, s1) \<leftarrow> apaJournalRestore E (of_nat i) s;
        if r \<noteq> 0 then Some (False, s1)
        else do {
          ((ok, format), s2) \<leftarrow> apaGetFormat E (of_nat i) s1;
          let h = HddInfo s2 ! i;
          let h1 = h\<lparr>hi_format := format\<rparr>;
          Some (True, s2\<lparr>HddInfo := (HddInfo s2)[i := (if ok then h1\<lparr>hi_status := hi_status h1 - 1\<rparr> else h1)]\<rparr>)
        }
      }
      else Some (True, s))"

definition hdck_start ::
    "'d ata_env \<Rightarrow> (nat \<Rightarrow> (bool \<times> bool \<times> u32) option) \<Rightarrow> (nat \<Rightarrow> int) \<Rightarrow> bool \<Rightarrow> bool \<Rightarrow> (nat \<Rightarrow> apa_header) \<Rightarrow> bool \<Rightarrow>
      'd hdck_state \<Rightarrow> (bool \<times> 'd hdck_state) option" where
  "hdck_start E devinfo unlock ok1 ok2 mem addok s =
     (let s0 = snd (apaGetTime E s) in
      case start_unit devinfo unlock 0 s0 of None \<Rightarrow> Some (False, s0)
      | Some s1 \<Rightarrow>
        (case start_unit devinfo unlock 1 s1 of None \<Rightarrow> Some (False, s1)
         | Some s2 \<Rightarrow> do {
             (go0, s3) \<leftarrow> start_restore E 0 (snd (apaCacheInit 0x100 ok1 ok2 mem s2));
             if \<not> go0 then Some (False, s3)
             else do {
               (go1, s4) \<leftarrow> start_restore E 1 s3;
               Some (go1 \<and> addok, s4)
             }
           }))"

end
