(* ===== verification/ApaCalm.thy ===== *)
theory ApaCalm
  imports ApaCrash
begin

text \<open>
  The cache between two operations of a client: nothing is dirty, every cached entry of the
  device holds what is on the disk. Getting, returning, and the cycle of editing an entry and
  flushing preserve that, and act on the headers of the disk as reading and one assignment.
\<close>

subsection \<open>Calm states\<close>

definition disk_header :: "s32 \<Rightarrow> (sim_disk, 'z) apa_state_scheme \<Rightarrow> u32 \<Rightarrow> apa_header" where
  "disk_header d s x = header_at (sim_image (world s)) d x"

text \<open>\<open>X\<close>: the sectors of the headers a client works on.\<close>

definition coherent :: "s32 \<Rightarrow> u32 set \<Rightarrow> (sim_disk, 'z) apa_state_scheme \<Rightarrow> bool" where
  "coherent d X s \<longleftrightarrow> (\<forall>i \<in> {1..cacheSize s}. \<not> is_dirty (cacheBuf s i) \<and>
     (c_device (cacheBuf s i) = d \<longrightarrow> c_sector (cacheBuf s i) \<in> X \<and> hdr s i = disk_header d s (c_sector (cacheBuf s i))))"

definition calm :: "s32 \<Rightarrow> u32 set \<Rightarrow> (sim_disk, 'z) apa_state_scheme \<Rightarrow> bool" where
  "calm d X s \<longleftrightarrow> good_disk (world s) \<and> cache_inv s \<and> journal_ready s \<and> uncommitted d (sim_image (world s))
     \<and> coherent d X s"

text \<open>The sectors \<open>X\<close> can be written: off the journal, and no two headers overlap.\<close>

definition header_area :: "u32 set \<Rightarrow> bool" where
  "header_area X \<longleftrightarrow> (\<forall>x \<in> X. off_journal x \<and> x + 1 \<notin> X)"

text \<open>Uses of the entries: who holds what.\<close>

definition uses :: "('d, 'z) apa_state_scheme \<Rightarrow> nat \<Rightarrow> u16" where
  "uses s i = c_nused (cacheBuf s i)"

definition key_of :: "('d, 'z) apa_state_scheme \<Rightarrow> nat \<Rightarrow> s32 \<times> u32" where
  "key_of s i = (c_device (cacheBuf s i), c_sector (cacheBuf s i))"

lemma calmD:
  assumes "calm d X s"
  shows "good_disk (world s)" "cache_inv s" "journal_ready s" "uncommitted d (sim_image (world s))" "coherent d X s"
  using assms by (auto simp: calm_def)

lemma coherent_entry:
  assumes "coherent d X s" "i \<in> {1..cacheSize s}"
  shows "\<not> is_dirty (cacheBuf s i)"
    and "c_device (cacheBuf s i) = d \<Longrightarrow> c_sector (cacheBuf s i) \<in> X"
    and "c_device (cacheBuf s i) = d \<Longrightarrow> hdr s i = disk_header d s (c_sector (cacheBuf s i))"
  using assms by (auto simp: coherent_def)

lemma coherent_cong:
  assumes "coherent d X s" "cacheSize t = cacheSize s" "world t = world s"
    and "\<And>i. c_flags (cacheBuf t i) = c_flags (cacheBuf s i)" "\<And>i. c_device (cacheBuf t i) = c_device (cacheBuf s i)"
      "\<And>i. c_sector (cacheBuf t i) = c_sector (cacheBuf s i)" "\<And>i. hdr t i = hdr s i"
  shows "coherent d X t"
  using assms by (simp add: coherent_def is_dirty_def disk_header_def)

subsection \<open>Reading a header\<close>

definition fetched :: "s32 \<Rightarrow> u32 \<Rightarrow> nat \<Rightarrow> (sim_disk, 'z) apa_state_scheme \<Rightarrow> (sim_disk, 'z) apa_state_scheme \<Rightarrow> bool" where
  "fetched d x i s t \<longleftrightarrow> i \<in> {1..cacheSize s} \<and> cacheSize t = cacheSize s \<and> world t = world s \<and> journalBuf t = journalBuf s
     \<and> timeBuf t = timeBuf s \<and> apa_state.more t = apa_state.more s
     \<and> (uses s i \<noteq> 0 \<longrightarrow> key_of s i = (d, x)) \<and> key_of t i = (d, x) \<and> hdr t i = disk_header d s x \<and> uses t = (uses s)(i := uses s i + 1)
     \<and> (\<forall>j. j \<noteq> i \<longrightarrow> key_of t j = key_of s j \<and> hdr t j = hdr s j)"

lemma get_calm_hit:
  assumes "calm d X s" "cache_lookup d x s = Some i" "uses s i \<noteq> - 1"
  shows "\<exists>t. apaCacheGetHeader sim_env d x 0 s = ((Some i, 0), t) \<and> calm d X t \<and> fetched d x i s t"
proof -
  obtain ys where q: "cache_queue s ys" using calmD(2) [OF assms(1)] by (auto simp: cache_inv_def)
  have i: "i \<in> {1..cacheSize s}" "c_device (cacheBuf s i) = d" "c_sector (cacheBuf s i) = x"
    using cache_lookup_Some [OF assms(2)] by auto
  from get_hit [OF q assms(2)] assms(3) obtain t where t: "apaCacheGetHeader sim_env d x 0 s = ((Some i, 0), t)"
    "cache_queue t (remove1 i ys)" by (metis uses_def)
  have t_def: "t = upd_entry i (\<lambda>c. c\<lparr>c_nused := c_nused c + 1\<rparr>) (if c_nused (cacheBuf s i) = 0 then apaCacheUnLink i s else s)"
    using t(1) assms(2) by (simp add: apaCacheGetHeader_def)
  have same: "cacheSize t = cacheSize s" "world t = world s" "journalBuf t = journalBuf s" "timeBuf t = timeBuf s"
    "apa_state.more t = apa_state.more s" "c_flags (cacheBuf t j) = c_flags (cacheBuf s j)"
    "c_device (cacheBuf t j) = c_device (cacheBuf s j)" "c_sector (cacheBuf t j) = c_sector (cacheBuf s j)" "hdr t j = hdr s j"
    "uses t j = (if j = i then uses s i + 1 else uses s j)" for j
    by (simp_all add: t_def uses_def)
  have "coherent d X t" by (rule coherent_cong [OF calmD(5) [OF assms(1)]]) (simp_all add: same)
  moreover have "cache_inv t" using t(2) by (auto simp: cache_inv_def)
  ultimately have "calm d X t" using assms(1) by (simp add: calm_def journal_ready_def same)
  moreover have "fetched d x i s t"
    using i coherent_entry(3) [OF calmD(5) [OF assms(1)] i(1)] by (auto simp: fetched_def same key_of_def)
  ultimately show ?thesis using t(1) by blast
qed

lemma get_calm_miss:
  assumes "calm d X s" "cache_lookup d x s = None" "cache_queue s (i # ys)" "x \<in> X"
    and "header_valid x (disk_header d s x)"
  shows "\<exists>t. apaCacheGetHeader sim_env d x 0 s = ((Some i, 0), t) \<and> calm d X t \<and> fetched d x i s t"
proof -
  let ?u = "claim_entry d x i s"
  have i: "i \<in> {1..cacheSize s}" "c_nused (cacheBuf s i) = 0" using cache_queue_entry [OF assms(3), of i] by simp_all
  then have wf: "wf_header (hdr ?u i)" using assms(3) by (simp add: cache_queue_def)
  have good: "good_disk (world s)" by (rule calmD(1) [OF assms(1)])
  have rd: "apaReadHeader sim_env (c_device (cacheBuf ?u i)) (hdr ?u i) (c_sector (cacheBuf ?u i)) ?u
      = (0, disk_header d s x, ?u\<lparr>world := world s\<rparr>)"
    using read_header_result [OF sim_env_ok wf, of d x ?u 0 "sectors (sim_image (world s)) d x 2" "world s"] assms(5) good
    by (simp add: disk_header_def)
  define t where "t = upd_entry i (\<lambda>c. c\<lparr>c_header := disk_header d s x, c_flags := c_flags c AND NOT APA_CACHE_FLAG_DIRTY\<rparr>)
    (?u\<lparr>world := world s\<rparr>)"
  have get: "apaCacheGetHeader sim_env d x 0 s = ((Some i, 0), t)"
    unfolding get_miss [OF assms(3,2)] transfer_read [OF rd] by (simp add: t_def)
  then have q: "cache_queue t ys" using get_miss_queue [OF assms(3,2) get] by simp
  have same: "cacheSize t = cacheSize s" "world t = world s" "journalBuf t = journalBuf s" "timeBuf t = timeBuf s"
    "apa_state.more t = apa_state.more s" "c_flags (cacheBuf t j) = (if j = i then 0 else c_flags (cacheBuf s j))"
    "c_device (cacheBuf t j) = (if j = i then d else c_device (cacheBuf s j))"
    "c_sector (cacheBuf t j) = (if j = i then x else c_sector (cacheBuf s j))"
    "hdr t j = (if j = i then disk_header d s x else hdr s j)"
    "uses t j = (if j = i then uses s i + 1 else uses s j)" for j
    by (simp_all add: t_def uses_def claim_entry_def i)
  have "coherent d X t"
    using calmD(5) [OF assms(1)] assms(4) by (simp add: coherent_def same is_dirty_def disk_header_def)
  moreover have "cache_inv t" using q by (auto simp: cache_inv_def)
  ultimately have "calm d X t" using assms(1) by (simp add: calm_def journal_ready_def same)
  moreover have "fetched d x i s t" using i uses_def [of s i] by (auto simp: fetched_def same key_of_def)
  ultimately show ?thesis using get by blast
qed

text \<open>One entry is free, no use count is at its maximum: a valid header is read.\<close>

lemma get_calm:
  assumes "calm d X s" "x \<in> X" "header_valid x (disk_header d s x)" "\<exists>j \<in> {1..cacheSize s}. uses s j = 0"
    and "\<forall>j. uses s j \<noteq> - 1"
  shows "\<exists>i t. apaCacheGetHeader sim_env d x 0 s = ((Some i, 0), t) \<and> calm d X t \<and> fetched d x i s t"
proof (cases "cache_lookup d x s")
  case (Some i)
  then show ?thesis using get_calm_hit [OF assms(1) Some] assms(5) by blast
next
  case None
  obtain ys where q: "cache_queue s ys" using calmD(2) [OF assms(1)] by (auto simp: cache_inv_def)
  obtain j where "j \<in> {1..cacheSize s}" "uses s j = 0" using assms(4) by blast
  then have "j \<in> set ys" using cache_queue_entry [OF q] by (simp add: uses_def)
  then obtain i zs where "ys = i # zs" by (cases ys) auto
  then show ?thesis using get_calm_miss [OF assms(1) None _ assms(2,3)] q by blast
qed

subsection \<open>Returning an entry\<close>

lemma free_calm:
  assumes "calm d X s" "i \<in> {1..cacheSize s}" "uses s i \<noteq> 0"
  defines "t \<equiv> apaCacheFree (Some i) s"
  shows "calm d X t" "cacheSize t = cacheSize s" "world t = world s" "apa_state.more t = apa_state.more s"
    "uses t = (uses s)(i := uses s i - 1)" "key_of t = key_of s" "hdr t j = hdr s j"
proof -
  obtain ys where q: "cache_queue s ys" using calmD(2) [OF assms(1)] by (auto simp: cache_inv_def)
  have used: "c_nused (cacheBuf s i) \<noteq> 0" using assms(3) by (simp add: uses_def)
  have same: "cacheSize t = cacheSize s" "world t = world s" "journalBuf t = journalBuf s"
    "apa_state.more t = apa_state.more s" "c_flags (cacheBuf t j) = c_flags (cacheBuf s j)"
    "c_device (cacheBuf t j) = c_device (cacheBuf s j)" "c_sector (cacheBuf t j) = c_sector (cacheBuf s j)"
    "c_nused (cacheBuf t j) = (if j = i then c_nused (cacheBuf s i) - 1 else c_nused (cacheBuf s j))" for j
    using used by (simp_all add: t_def apaCacheFree_def Let_def)
  have h: "hdr t j = hdr s j" for j using used by (simp add: t_def apaCacheFree_def Let_def)
  have "coherent d X t" by (rule coherent_cong [OF calmD(5) [OF assms(1)]]) (simp_all add: same h)
  moreover have "cache_inv t" using free_used [OF q assms(2) used] by (auto simp: cache_inv_def t_def)
  ultimately show "calm d X t" using assms(1) by (simp add: calm_def journal_ready_def same)
  show "cacheSize t = cacheSize s" "world t = world s" "apa_state.more t = apa_state.more s" "key_of t = key_of s" "hdr t j = hdr s j"
    "uses t = (uses s)(i := uses s i - 1)"
    by (auto simp: same h key_of_def uses_def)
qed

subsection \<open>Editing and flushing\<close>

definition reseal :: "apa_header \<Rightarrow> apa_header" where
  "reseal h = h\<lparr>h_checksum := apaCheckSum h\<rparr>"

lemma reset_same_data:
  assumes "txn_ok d secs ps base"
  shows "same_data d (img_reset d secs ps base) (fold apply_event (home_events d ps) base)"
proof -
  have "same_data d (img_committed d secs ps base) base"
    unfolding img_committed_def
    by (rule same_data_trans [OF put_journal_same_data [OF apal_in_area] old_logged [OF assms]])
  then have "same_data d (img_written d secs ps base) (fold apply_event (home_events d ps) base)"
    unfolding img_written_def by (rule home_events_same_data)
  then show ?thesis unfolding img_reset_def
    by (rule same_data_trans [OF put_journal_same_data [OF apal_in_area]])
qed

lemma same_data_sectors:
  assumes "same_data d a b" "off_journal x"
  shows "sectors a d x 2 = sectors b d x 2"
  using assms by (simp add: sectors_2 same_data_def off_journal_def)

lemma put_sectors_apart:
  assumes "y \<noteq> x" "y + 1 \<noteq> x" "x + 1 \<noteq> y"
  shows "sectors (put_sectors d x 2 ws img) d y 2 = sectors img d y 2"
  using assms by (auto simp: sectors_2 put_sectors_2 put_sector_def)

lemma filter_one:
  assumes "distinct xs" "i \<in> set xs" "\<And>j. j \<in> set xs \<Longrightarrow> P j = (j = i)"
  shows "filter P xs = [i]"
  using assms
proof (induction xs)
  case (Cons y ys)
  then show ?case by (cases "y = i") (auto simp: filter_empty_conv)
qed simp

text \<open>Only headers of \<open>X\<close> and the journal may differ.\<close>

definition untouched :: "s32 \<Rightarrow> u32 set \<Rightarrow> image \<Rightarrow> image \<Rightarrow> bool" where
  "untouched d X a b \<longleftrightarrow> (\<forall>d' l. \<not> (d' = d \<and> (journal_area l \<or> l \<in> X \<or> l - 1 \<in> X)) \<longrightarrow> a d' l = b d' l)"

lemma untouched_refl [simp]: "untouched d X a a"
  by (simp add: untouched_def)

lemma untouched_trans: "untouched d X a b \<Longrightarrow> untouched d X b c \<Longrightarrow> untouched d X a c"
  by (simp add: untouched_def)

lemma same_data_untouched:
  assumes "same_data d a (put_sectors d x 2 ws b)" "x \<in> X"
  shows "untouched d X a b"
  unfolding untouched_def
proof (intro allI impI)
  fix d' l
  assume l: "\<not> (d' = d \<and> (journal_area l \<or> l \<in> X \<or> l - 1 \<in> X))"
  then have "a d' l = put_sectors d x 2 ws b d' l" using assms(1) by (auto simp: same_data_def)
  then show "a d' l = b d' l" using l assms(2) by (auto simp: put_sectors_2 put_sector_def)
qed

definition edited :: "s32 \<Rightarrow> u32 set \<Rightarrow> nat \<Rightarrow> u32 \<Rightarrow> (apa_header \<Rightarrow> apa_header) \<Rightarrow>
    (sim_disk, 'z) apa_state_scheme \<Rightarrow> (sim_disk, 'z) apa_state_scheme \<Rightarrow> bool" where
  "edited d X i x f s t \<longleftrightarrow> cacheSize t = cacheSize s \<and> apa_state.more t = apa_state.more s \<and> uses t = uses s
     \<and> key_of t = key_of s \<and> hdr t i = reseal (f (hdr s i)) \<and> (\<forall>j. j \<noteq> i \<longrightarrow> hdr t j = hdr s j)
     \<and> (\<forall>y \<in> X. disk_header d t y = (if y = x then reseal (f (hdr s i)) else disk_header d s y))
     \<and> untouched d X (sim_image (world t)) (sim_image (world s))"

lemma flush_calm:
  assumes "calm d X s" "header_area X" "i \<in> {1..cacheSize s}" "key_of s i = (d, x)" "x \<in> X"
    and "wf_header (f (hdr s i))" "d \<noteq> - 1"
  shows "\<exists>t. apaCacheFlushAllDirty sim_env d (mark_dirty i (set_header i f s)) = Some (0, t) \<and> calm d X t \<and> edited d X i x f s t"
proof -
  let ?u = "mark_dirty i (set_header i f s)"
  let ?p = "(x, sealed ?u i)" and ?secs = "j_sectors (journalBuf s)" and ?img = "sim_image (world s)"
  have key: "c_device (cacheBuf s i) = d" "c_sector (cacheBuf s i) = x" using assms(4) by (simp_all add: key_of_def)
  have one: "APA_CACHE_FLAG_DIRTY \<noteq> 0" by (simp add: APA_CACHE_FLAG_DIRTY_def)
  have dirty: "dirty_entries d ?u = [i]" unfolding dirty_entries_def
  proof (rule filter_one)
    fix j assume j: "j \<in> set (cache_entries (cacheSize ?u))"
    show "dirty_of d ?u j = (j = i)"
    proof (cases "j = i")
      case True
      then show ?thesis using key one by (simp add: dirty_of_def is_dirty_def)
    next
      case False
      then show ?thesis using coherent_entry(1) [OF calmD(5) [OF assms(1)], of j] j by (simp add: dirty_of_def)
    qed
  qed (use assms(3) in simp_all)
  have tx: "txn_of ?u (dirty_entries d ?u) = [?p]" by (simp add: dirty txn_of_def key)
  obtain ys where q: "cache_queue s ys" using calmD(2) [OF assms(1)] by (auto simp: cache_inv_def)
  have q1: "cache_queue ?u ys" by (intro mark_dirty_queue edit_queue q assms(6))
  have off: "off_journal x" using assms(2,5) by (simp add: header_area_def)
  have ok: "txn_ok d ?secs [?p] ?img"
    using txn_ok_of_state [of ?u d ?img] q1 calmD [OF assms(1)] off
    by (simp add: cache_inv_def dirty journal_ready_def key tx [unfolded dirty]) blast
  from flush_all_image [of ?u d] calmD [OF assms(1)] ok tx obtain t where
    t: "apaCacheFlushAllDirty sim_env d ?u = Some (0, t)" "sim_image (world t) = img_reset d ?secs [?p] ?img"
      "cacheBuf t = (\<lambda>j. if j = i then clean_entry (seal_entry (cacheBuf ?u i)) else cacheBuf ?u j)"
      "journalBuf t = empty_journal" "cacheSize t = cacheSize s" "apa_state.more t = apa_state.more s" "good_disk (world t)"
    by (auto simp: journal_ready_def dirty fun_eq_iff)
  have h: "hdr t i = reseal (f (hdr s i))" by (simp add: t(3) clean_entry_def seal_entry_def reseal_def)
  have h': "hdr t j = hdr s j" if "j \<noteq> i" for j using that by (simp add: t(3))
  have u: "uses t = uses s" "key_of t = key_of s"
    by (auto simp: uses_def key_of_def t(3) clean_entry_def)
  have sl: "sealed ?u i = header_words (reseal (f (hdr s i)))" by (simp add: sealed_def reseal_def)
  have data: "same_data d (sim_image (world t)) (put_sectors d x 2 (header_words (reseal (f (hdr s i)))) ?img)"
    using reset_same_data [OF ok] by (simp add: t(2) sl fold_write_events)
  have wf: "wf_header (reseal (f (hdr s i)))" using assms(6) by (simp add: reseal_def)
  have at: "disk_header d t y = (if y = x then reseal (f (hdr s i)) else disk_header d s y)" if y: "y \<in> X" for y
  proof -
    have yo: "off_journal y" "y + 1 \<noteq> x" "x + 1 \<noteq> y" using assms(2,5) y by (auto simp: header_area_def)
    show ?thesis
      using same_data_sectors [OF data yo(1)] put_sectors_apart [of y x] yo wf
      by (auto simp: disk_header_def header_at_def sectors_put_sectors_2 header_of_header_words)
  qed
  have "coherent d X t"
    unfolding coherent_def
  proof (intro ballI conjI impI)
    fix j assume j: "j \<in> {1..cacheSize t}"
    then have js: "j \<in> {1..cacheSize s}" by (simp add: t(5))
    note e = coherent_entry [OF calmD(5) [OF assms(1)] js]
    show "\<not> is_dirty (cacheBuf t j)"
      using e(1) by (cases "j = i") (simp_all add: t(3) clean_entry_def is_dirty_def and.assoc)
    have kj: "c_device (cacheBuf t j) = c_device (cacheBuf s j)" "c_sector (cacheBuf t j) = c_sector (cacheBuf s j)"
      using u(2) by (auto simp: key_of_def fun_eq_iff)
    assume "c_device (cacheBuf t j) = d"
    then have dj: "c_device (cacheBuf s j) = d" by (simp add: kj)
    show "c_sector (cacheBuf t j) \<in> X" using e(2) dj by (simp add: kj)
    show "hdr t j = disk_header d t (c_sector (cacheBuf t j))"
    proof (cases "j = i")
      case True
      then show ?thesis using at [OF assms(5)] kj key h by simp
    next
      case False
      have "c_sector (cacheBuf s j) \<noteq> x"
        using cache_queue_key [OF q assms(3)] js False dj key assms(7) by auto
      then show ?thesis using at [OF e(2) [OF dj]] e(3) [OF dj] h' [OF False] by (simp add: kj)
    qed
  qed
  moreover have "cache_inv t" using flush_all_queue [OF q1 t(1)] by (auto simp: cache_inv_def)
  ultimately have "calm d X t"
    using t(4,7) reset_uncommitted by (simp add: calm_def journal_ready_def empty_journal_def t(2))
  moreover have "edited d X i x f s t"
    using h h' u t(5,6) at same_data_untouched [OF data assms(5)] by (simp add: edited_def)
  ultimately show ?thesis using t(1) by blast
qed

text \<open>A write of what is there already may be left out.\<close>

lemma disk_header_wf [simp]: "wf_header (disk_header d s x)"
  by (simp add: disk_header_def header_at_def wf_header_of_words length_sectors sim_image_def norm128_def)

lemma calm_cong:
  assumes "cacheBuf t = cacheBuf s" "cacheSize t = cacheSize s" "journalBuf t = journalBuf s" "world t = world s"
  shows "calm d X t = calm d X s"
  using assms cache_queue_cong [of t s]
  by (simp add: calm_def cache_inv_def journal_ready_def coherent_def disk_header_def)

lemma flush_calm_clean:
  assumes "calm d X s" "header_area X"
  shows "\<exists>t. apaCacheFlushAllDirty sim_env d s = Some (0, t) \<and> calm d X t \<and> cacheBuf t = cacheBuf s \<and>
     cacheSize t = cacheSize s \<and> apa_state.more t = apa_state.more s \<and>
     same_data d (sim_image (world t)) (sim_image (world s))"
proof -
  let ?secs = "j_sectors (journalBuf s)" and ?img = "sim_image (world s)"
  obtain ys where q: "cache_queue s ys" using calmD(2) [OF assms(1)] by (auto simp: cache_inv_def)
  have dirty: "dirty_entries d s = []"
    using coherent_entry(1) [OF calmD(5) [OF assms(1)]] by (auto simp: dirty_entries_def dirty_of_def filter_empty_conv)
  have ok: "txn_ok d ?secs [] ?img"
    using calmD [OF assms(1)] by (simp add: txn_ok_def journal_ready_def)
  from flush_all_image [of s d] calmD [OF assms(1)] ok obtain t where
    t: "apaCacheFlushAllDirty sim_env d s = Some (0, t)" "sim_image (world t) = img_reset d ?secs [] ?img"
      "cacheBuf t = cacheBuf s" "journalBuf t = empty_journal" "cacheSize t = cacheSize s"
      "apa_state.more t = apa_state.more s" "good_disk (world t)"
    by (auto simp: dirty txn_of_def fun_eq_iff)
  have data: "same_data d (sim_image (world t)) ?img" using reset_same_data [OF ok] by (simp add: t(2))
  have at: "disk_header d t y = disk_header d s y" if "y \<in> X" for y
    using same_data_sectors [OF data] assms(2) that by (simp add: header_area_def disk_header_def header_at_def)
  have "coherent d X t" using calmD(5) [OF assms(1)] at by (simp add: coherent_def t(3,5))
  moreover have "cache_inv t" using flush_all_queue [OF q t(1)] by (auto simp: cache_inv_def)
  ultimately have "calm d X t"
    using t(4,7) reset_uncommitted by (simp add: calm_def journal_ready_def empty_journal_def t(2))
  then show ?thesis using t(1,3,5,6) data by blast
qed

end
