(* ===== verification/HdckProps.thy ===== *)
theory HdckProps
  imports Hdck ApaCalm
begin

text \<open>
  Properties of \<open>hdck\<close>: one step of the scan of the links, the walk over a chain of good headers,
  what \<open>RemoveBadPartitions\<close> does not write, the sizes of replacement blocks.
\<close>

subsection \<open>The visited list\<close>

text \<open>The visited sectors.\<close>

definition visited :: "'d scan \<Rightarrow> u32 list" where
  "visited sc = take (sc_count sc) (sc_buf sc)"

lemma visited_add:
  assumes "sc_count sc < length (sc_buf sc)"
  shows "take (Suc (sc_count sc)) ((sc_buf sc)[sc_count sc := x]) = visited sc @ [x]"
  using assms by (simp add: visited_def take_Suc_conv_app_nth)

subsection \<open>One step of a scan\<close>

lemma set_opposite_facts [simp]:
  "h_start (set_opposite fwd p h) = h_start h" "follow fwd (set_opposite fwd p h) = follow fwd h"
  "wf_header (set_opposite fwd p h) = wf_header h"
  "h_start (reseal h) = h_start h" "follow fwd (reseal h) = follow fwd h" "wf_header (reseal h) = wf_header h"
  by (simp_all add: set_opposite_def follow_def reseal_def wf_header_def)

lemma set_opposite_same: "opposite fwd h = p \<Longrightarrow> set_opposite fwd p h = h"
  by (auto simp: opposite_def set_opposite_def)

lemma reseal_valid: "apaCheckSum h = h_checksum h \<Longrightarrow> reseal h = h"
  by (simp add: reseal_def)

lemma repair_calm:
  assumes "calm d X s" "header_area X" "i \<in> {1..cacheSize s}" "key_of s i = (d, x)" "x \<in> X"
    and "apaCheckSum (hdr s i) = h_checksum (hdr s i)" "d \<noteq> - 1"
  shows "\<exists>t. repair_link sim_env d fwd p i s = Some t \<and> calm d X t \<and> edited d X i x (set_opposite fwd p) s t"
proof (cases "opposite fwd (hdr s i) = p")
  case True
  have h: "hdr s i = disk_header d s x"
    using coherent_entry(3) [OF calmD(5) [OF assms(1)] assms(3)] assms(4) by (simp add: key_of_def)
  have "reseal (set_opposite fwd p (disk_header d s x)) = disk_header d s x"
    using set_opposite_same [OF True] reseal_valid [OF assms(6)] by (simp add: h)
  then have "edited d X i x (set_opposite fwd p) s s" by (simp add: edited_def h)
  then show ?thesis using True assms(1) by (simp add: repair_link_def)
next
  case False
  have "wf_header (hdr s i)"
    using coherent_entry(3) [OF calmD(5) [OF assms(1)] assms(3)] assms(4) by (simp add: key_of_def)
  then have "wf_header (set_opposite fwd p (hdr s i))" by simp
  from flush_calm [of d X s i x "set_opposite fwd p", OF assms(1-5) this assms(7)] False show ?thesis
    by (auto simp: repair_link_def)
qed

text \<open>What a client that holds some entries sees of a walk over other headers.\<close>

definition walked ::
    "s32 \<Rightarrow> u32 set \<Rightarrow> (u32 \<Rightarrow> apa_header) \<Rightarrow> (sim_disk, 'z) apa_state_scheme \<Rightarrow> (sim_disk, 'z) apa_state_scheme \<Rightarrow> bool" where
  "walked d X G s t \<longleftrightarrow> calm d X t \<and> uses t = uses s \<and> cacheSize t = cacheSize s \<and> apa_state.more t = apa_state.more s
     \<and> (\<forall>j. uses s j \<noteq> 0 \<longrightarrow> key_of t j = key_of s j) \<and> (\<forall>y \<in> X. disk_header d t y = G y)
     \<and> untouched d X (sim_image (world t)) (sim_image (world s))"

lemma walked_trans: "walked d X F s t \<Longrightarrow> walked d X G t u \<Longrightarrow> walked d X G s u"
  by (auto simp: walked_def intro: untouched_trans)

text \<open>There is room to hold one more entry.\<close>

definition roomy :: "('d, 'z) apa_state_scheme \<Rightarrow> bool" where
  "roomy s \<longleftrightarrow> (\<exists>j \<in> {1..cacheSize s}. uses s j = 0) \<and> (\<forall>j. uses s j \<noteq> - 1)"

lemma roomy_walked: "walked d X G s t \<Longrightarrow> roomy t = roomy s"
  by (simp add: roomy_def walked_def)

lemma visit_header:
  assumes "calm d X s" "header_area X" "x \<in> X" "header_valid x (disk_header d s x)" "roomy s" "d \<noteq> - 1"
  shows "\<exists>i s1 s2. apaCacheGetHeader sim_env d x 0 s = ((Some i, 0), s1) \<and> repair_link sim_env d fwd p i s1 = Some s2 \<and>
     h_start (hdr s2 i) = h_start (disk_header d s x) \<and> follow fwd (hdr s2 i) = follow fwd (disk_header d s x) \<and>
     walked d X ((disk_header d s)(x := reseal (set_opposite fwd p (disk_header d s x)))) s (apaCacheFree (Some i) s2) \<and>
     (\<forall>j. key_of (apaCacheFree (Some i) s2) j = key_of s j \<or> key_of (apaCacheFree (Some i) s2) j = (d, x))"
proof -
  from get_calm [OF assms(1,3,4)] assms(5) obtain i s1 where
    get: "apaCacheGetHeader sim_env d x 0 s = ((Some i, 0), s1)" "calm d X s1" "fetched d x i s s1"
    unfolding roomy_def by blast
  have f: "i \<in> {1..cacheSize s}" "cacheSize s1 = cacheSize s" "world s1 = world s" "apa_state.more s1 = apa_state.more s"
    "key_of s1 i = (d, x)" "hdr s1 i = disk_header d s x" "uses s1 = (uses s)(i := uses s i + 1)"
    "\<And>j. j \<noteq> i \<Longrightarrow> key_of s1 j = key_of s j"
    using get(3) by (simp_all add: fetched_def)
  have ok: "apaCheckSum (hdr s1 i) = h_checksum (hdr s1 i)" using assms(4) by (simp add: f(6) header_valid_def)
  have i1: "i \<in> {1..cacheSize s1}" using f(1) by (simp add: f(2))
  from repair_calm [OF get(2) assms(2) i1 f(5) assms(3) ok assms(6), of fwd p] obtain s2 where
    rep: "repair_link sim_env d fwd p i s1 = Some s2" "calm d X s2" "edited d X i x (set_opposite fwd p) s1 s2" by blast
  have e: "cacheSize s2 = cacheSize s1" "apa_state.more s2 = apa_state.more s1" "uses s2 = uses s1" "key_of s2 = key_of s1"
    "hdr s2 i = reseal (set_opposite fwd p (hdr s1 i))"
    "\<And>y. y \<in> X \<Longrightarrow> disk_header d s2 y = (if y = x then reseal (set_opposite fwd p (hdr s1 i)) else disk_header d s1 y)"
    "untouched d X (sim_image (world s2)) (sim_image (world s1))"
    using rep(3) unfolding edited_def by blast+
  have i2: "i \<in> {1..cacheSize s2}" using i1 by (simp add: e(1))
  have "uses s i \<noteq> - 1" using assms(5) by (simp add: roomy_def)
  then have "uses s i + 1 \<noteq> 0" by (metis add.commute eq_neg_iff_add_eq_0)
  then have used: "uses s2 i \<noteq> 0" by (simp add: e(3) f(7))
  note fr = free_calm [OF rep(2) i2 used]
  have d1: "disk_header d s1 y = disk_header d s y" for y by (simp add: disk_header_def f(3))
  have d2: "disk_header d (apaCacheFree (Some i) s2) y = disk_header d s2 y" for y by (simp add: disk_header_def fr(3))
  have "key_of (apaCacheFree (Some i) s2) j = key_of s j" if "uses s j \<noteq> 0" for j
  proof (cases "j = i")
    case True
    then show ?thesis using that get(3) by (simp add: fr(6) e(4) fetched_def)
  next
    case False
    then show ?thesis by (simp add: fr(6) e(4) f(8))
  qed
  then have "walked d X ((disk_header d s)(x := reseal (set_opposite fwd p (disk_header d s x)))) s (apaCacheFree (Some i) s2)"
    using fr(1,2,4,5) e f d1 d2 fr(3) by (simp add: walked_def fun_eq_iff)
  moreover have "key_of (apaCacheFree (Some i) s2) j = key_of s j \<or> key_of (apaCacheFree (Some i) s2) j = (d, x)" for j
    using f(5,8) by (cases "j = i") (simp_all add: fr(6) e(4))
  ultimately show ?thesis using get(1) rep(1) e(5) f(6) by auto
qed

subsection \<open>The walk over a chain of headers\<close>

text \<open>The headers that are reached over \<open>next\<close> (or \<open>prev\<close>) from a sector, each valid and in its place.\<close>

primrec chain :: "(u32 \<Rightarrow> apa_header) \<Rightarrow> bool \<Rightarrow> u32 \<Rightarrow> u32 list \<Rightarrow> bool" where
  "chain H fwd cur [] = (cur = 0)"
| "chain H fwd cur (x # xs) = (cur = x \<and> x \<noteq> 0 \<and> header_valid x (H x) \<and> h_start (H x) = x \<and> chain H fwd (follow fwd (H x)) xs)"

text \<open>Every header's other link is that of its predecessor.\<close>

primrec relink :: "bool \<Rightarrow> u32 \<Rightarrow> u32 list \<Rightarrow> (u32 \<Rightarrow> apa_header) \<Rightarrow> u32 \<Rightarrow> apa_header" where
  "relink fwd p [] H = H"
| "relink fwd p (x # xs) H = relink fwd x xs (H(x := reseal (set_opposite fwd p (H x))))"

lemma chain_cong: "(\<And>x. x \<in> set xs \<Longrightarrow> H x = G x) \<Longrightarrow> chain H fwd cur xs = chain G fwd cur xs"
  by (induction xs arbitrary: cur) auto

lemma relink_cong:
  "(\<And>y. y \<in> X \<Longrightarrow> H y = G y) \<Longrightarrow> set xs \<subseteq> X \<Longrightarrow> y \<in> X \<Longrightarrow> relink fwd p xs H y = relink fwd p xs G y"
proof (induction xs arbitrary: p H G)
  case (Cons x xs)
  have "H x = G x" using Cons.prems by simp
  then show ?case
    using Cons.IH [of "H(x := reseal (set_opposite fwd p (H x)))" "G(x := reseal (set_opposite fwd p (G x)))" x]
      Cons.prems by (simp del: fun_upd_apply) (simp add: fun_upd_apply)
qed simp

lemma relink_other: "y \<notin> set xs \<Longrightarrow> relink fwd p xs H y = H y"
  by (induction xs arbitrary: p H) auto

lemma relink_nth:
  assumes "distinct xs" "k < length xs"
  shows "relink fwd p xs H (xs ! k) = reseal (set_opposite fwd ((p # xs) ! k) (H (xs ! k)))"
  using assms
proof (induction xs arbitrary: p H k)
  case (Cons x xs)
  show ?case
  proof (cases k)
    case 0
    then show ?thesis using Cons.prems by (simp add: relink_other)
  next
    case (Suc j)
    then have "xs ! j \<noteq> x" using Cons.prems by (auto simp: in_set_conv_nth)
    then show ?thesis using Cons Suc by simp
  qed
qed simp

lemma walked_refl: "calm d X s \<Longrightarrow> (\<And>y. y \<in> X \<Longrightarrow> G y = disk_header d s y) \<Longrightarrow> walked d X G s s"
  by (simp add: walked_def)

lemma links_loop_step:
  assumes "sc_current sc = x" "x \<noteq> 0" "x \<notin> set (visited sc)" "sc_count sc < length (sc_buf sc)"
    and "apaCacheGetHeader E d x 0 (sc_state sc) = ((Some i, e), s1)" "repair_link E d fwd (sc_parent sc) i s1 = Some s2"
  shows "links_loop E d fwd sc = links_loop E d fwd \<lparr>sc_result = e, sc_parent = h_start (hdr s2 i), sc_current = follow fwd (hdr s2 i),
     sc_buf = (sc_buf sc)[sc_count sc := x], sc_count = sc_count sc + 1, sc_state = apaCacheFree (Some i) s2\<rparr>"
  using assms by (simp add: links_loop.simps [of E d fwd sc] AddPartitionToList_def visited_def)

lemma links_loop_chain:
  assumes "calm d X (sc_state sc)" "header_area X" "d \<noteq> - 1" "roomy (sc_state sc)"
    and "chain (disk_header d (sc_state sc)) fwd (sc_current sc) xs" "set xs \<subseteq> X" "distinct (visited sc @ xs)"
    and "sc_count sc + length xs \<le> length (sc_buf sc)" "sc_result sc = 0"
  shows "\<exists>f. links_loop sim_env d fwd sc = Some f \<and> sc_result f = 0 \<and> sc_parent f = last (sc_parent sc # xs) \<and>
     walked d X (relink fwd (sc_parent sc) xs (disk_header d (sc_state sc))) (sc_state sc) (sc_state f)"
  using assms
proof (induction xs arbitrary: sc)
  case Nil
  then show ?case by (simp add: links_loop.simps [of _ d fwd sc] walked_refl)
next
  case (Cons x xs)
  let ?s = "sc_state sc"
  let ?H = "(disk_header d ?s)(x := reseal (set_opposite fwd (sc_parent sc) (disk_header d ?s x)))"
  have x: "sc_current sc = x" "x \<noteq> 0" "header_valid x (disk_header d ?s x)" "h_start (disk_header d ?s x) = x"
    "chain (disk_header d ?s) fwd (follow fwd (disk_header d ?s x)) xs" "x \<in> X" "set xs \<subseteq> X" "x \<notin> set (visited sc)"
    "x \<notin> set xs" "sc_count sc < length (sc_buf sc)"
    using Cons.prems(5-8) by auto
  from visit_header [OF Cons.prems(1,2) x(6,3) Cons.prems(4,3), of fwd "sc_parent sc"] obtain i s1 s2 where
    v: "apaCacheGetHeader sim_env d x 0 ?s = ((Some i, 0), s1)" "repair_link sim_env d fwd (sc_parent sc) i s1 = Some s2"
      "h_start (hdr s2 i) = x" "follow fwd (hdr s2 i) = follow fwd (disk_header d ?s x)"
      "walked d X ?H ?s (apaCacheFree (Some i) s2)" by (auto simp: x(4))
  let ?t = "apaCacheFree (Some i) s2"
  let ?sc = "\<lparr>sc_result = 0, sc_parent = x, sc_current = follow fwd (disk_header d ?s x),
     sc_buf = (sc_buf sc)[sc_count sc := x], sc_count = sc_count sc + 1, sc_state = ?t\<rparr>"
  have step: "links_loop sim_env d fwd sc = links_loop sim_env d fwd ?sc"
    using links_loop_step [OF x(1,2,8,10) v(1,2)] by (simp add: v(3,4))
  have G: "disk_header d ?t y = ?H y" if "y \<in> X" for y using v(5) that unfolding walked_def by blast
  have ch: "chain (disk_header d ?t) fwd (follow fwd (disk_header d ?s x)) xs"
  proof -
    have "disk_header d ?t y = disk_header d ?s y" if "y \<in> set xs" for y
      using G [of y] that x(7,9) by auto
    then show ?thesis using x(5) chain_cong [of xs] by metis
  qed
  have vis: "visited ?sc = visited sc @ [x]" using visited_add [OF x(10)] by (simp add: visited_def)
  have dist: "distinct (visited ?sc @ xs)" unfolding vis using Cons.prems(7) by simp
  have "calm d X ?t" "roomy ?t" using v(5) Cons.prems(4) by (simp_all add: roomy_walked [OF v(5)]) (simp add: walked_def)
  then obtain f where f: "links_loop sim_env d fwd ?sc = Some f" "sc_result f = 0" "sc_parent f = last (x # xs)"
    "walked d X (relink fwd x xs (disk_header d ?t)) ?t (sc_state f)"
    using Cons.IH [of ?sc] Cons.prems(2,3,8) ch x(7) dist by auto
  have "walked d X (relink fwd (sc_parent sc) (x # xs) (disk_header d ?s)) ?t (sc_state f)"
    using f(4) relink_cong [of X "disk_header d ?t" ?H xs _ fwd x] G x(7) by (auto simp: walked_def)
  then have "walked d X (relink fwd (sc_parent sc) (x # xs) (disk_header d ?s)) ?s (sc_state f)"
    by (rule walked_trans [OF v(5)])
  then show ?case using step f(1-3) by simp
qed

subsection \<open>The check of the links\<close>

lemma view_cong:
  assumes "cacheBuf t = cacheBuf s" "cacheSize t = cacheSize s" "journalBuf t = journalBuf s" "world t = world s"
  shows "roomy t = roomy s" "uses t = uses s" "key_of t = key_of s" "disk_header d t = disk_header d s" "calm d X t = calm d X s"
  using assms calm_cong [OF assms] by (simp_all add: roomy_def uses_def key_of_def disk_header_def fun_eq_iff)

lemma more_fields:
  fixes s t :: "'d hdck_state"
  assumes "apa_state.more t = apa_state.more s"
  shows "ErrorPartitionLBA t = ErrorPartitionLBA s" "IOBuffer t = IOBuffer s"
    "ErrorPartition2LBA t = ErrorPartition2LBA s" "ErrorPartitionPrevLBA t = ErrorPartitionPrevLBA s"
  using assms by (cases s; cases t; simp)+

lemma chain_nonzero: "chain H fwd cur xs \<Longrightarrow> 0 \<notin> set xs"
  by (induction xs arbitrary: cur) auto

text \<open>
  C2. \<open>CheckAPAPartitionLinks\<close> repairs every backward link. From a quiet cache that holds the
  MBR's header, on a good drive where the headers reached over \<open>next\<close> are valid, in their
  places, distinct and end (as many as the visited list takes), the check returns 0, and on the
  disk each header's \<open>prev\<close> is its predecessor's sector, the MBR's \<open>prev\<close> is the last
  partition, checksums are right, and nothing else of any header or of the disk has changed
  (but the journal's sectors).
\<close>

theorem links_repaired:
  assumes "calm d X s" "header_area X" "d \<noteq> - 1" "roomy s"
    and "clink \<in> {1..cacheSize s}" "uses s clink \<noteq> 0" "key_of s clink = (d, 0)" "0 \<in> X"
    and "apaCheckSum (disk_header d s 0) = h_checksum (disk_header d s 0)"
    and "chain (disk_header d s) True (h_next (disk_header d s 0)) xs" "distinct xs" "set xs \<subseteq> X"
    and "length xs \<le> length (IOBuffer s)"
  shows "\<exists>t. CheckAPAPartitionLinks sim_env d clink s = Some (0, t) \<and> ErrorPartitionLBA t = 0 \<and> calm d X t \<and>
     (\<forall>k < length xs. disk_header d t (xs ! k) = reseal ((disk_header d s (xs ! k))\<lparr>h_prev := (0 # xs) ! k\<rparr>)) \<and>
     disk_header d t 0 = reseal ((disk_header d s 0)\<lparr>h_prev := last (0 # xs)\<rparr>) \<and>
     (\<forall>y \<in> X - insert 0 (set xs). disk_header d t y = disk_header d s y) \<and>
     untouched d X (sim_image (world t)) (sim_image (world s))"
proof -
  let ?s = "s\<lparr>ErrorPartition2LBA := 0, ErrorPartitionLBA := 0, ErrorPartition2PrevLBA := 0, ErrorPartitionPrevLBA := 0\<rparr>"
  let ?sc = "scan_from (h_next (hdr ?s clink)) ?s" and ?H = "disk_header d s"
  have same: "roomy ?s = roomy s" "uses ?s = uses s" "key_of ?s = key_of s" "disk_header d ?s = disk_header d s"
    "calm d X ?s = calm d X s" by (rule view_cong; simp)+
  have h0: "hdr s clink = ?H 0"
    using coherent_entry(3) [OF calmD(5) [OF assms(1)] assms(5)] assms(7) by (simp add: key_of_def)
  have "\<exists>f. links_loop sim_env d True ?sc = Some f \<and> sc_result f = 0 \<and> sc_parent f = last (sc_parent ?sc # xs) \<and>
     walked d X (relink True (sc_parent ?sc) xs (disk_header d (sc_state ?sc))) (sc_state ?sc) (sc_state f)"
    using assms(1,4,10,11,13)
    by (intro links_loop_chain [OF _ assms(2,3) _ _ assms(12)])
      (simp_all add: scan_from_def same h0 visited_def)
  then obtain f where f: "links_loop sim_env d True ?sc = Some f" "sc_result f = 0" "sc_parent f = last (0 # xs)"
    "walked d X (relink True 0 xs ?H) ?s (sc_state f)" by (auto simp: scan_from_def same)
  let ?s1 = "(sc_state f)\<lparr>IOBuffer := sc_buf f\<rparr>"
  have same1: "roomy ?s1 = roomy (sc_state f)" "uses ?s1 = uses (sc_state f)" "key_of ?s1 = key_of (sc_state f)"
    "disk_header d ?s1 = disk_header d (sc_state f)" "calm d X ?s1 = calm d X (sc_state f)" by (rule view_cong; simp)+
  have zero: "0 \<notin> set xs" using chain_nonzero [OF assms(10)] .
  have s1: "calm d X ?s1" "clink \<in> {1..cacheSize ?s1}" "key_of ?s1 clink = (d, 0)" "ErrorPartitionLBA ?s1 = 0"
    "\<And>y. y \<in> X \<Longrightarrow> disk_header d ?s1 y = relink True 0 xs ?H y"
    "untouched d X (sim_image (world ?s1)) (sim_image (world s))"
    using f(4) assms(5-7) more_fields(1) [of "sc_state f" ?s] by (simp_all add: same1 walked_def same)
  have "hdr ?s1 clink = disk_header d ?s1 0"
    using coherent_entry(3) [OF calmD(5) [OF s1(1)] s1(2)] s1(3) by (simp add: key_of_def)
  then have h1: "hdr ?s1 clink = ?H 0" using s1(5) [OF assms(8)] relink_other [OF zero] by simp
  have ok: "apaCheckSum (hdr ?s1 clink) = h_checksum (hdr ?s1 clink)" using assms(9) h1 by simp
  from repair_calm [OF s1(1) assms(2) s1(2,3) assms(8) ok assms(3), of True "sc_parent f"] obtain t where
    t: "repair_link sim_env d True (sc_parent f) clink ?s1 = Some t" "calm d X t"
      "edited d X clink 0 (set_opposite True (sc_parent f)) ?s1 t" by blast
  have err: "ErrorPartitionLBA t = 0" using more_fields(1) [of t ?s1] t(3) s1(4) by (simp add: edited_def)
  have at: "disk_header d t y = (if y = 0 then reseal (set_opposite True (last (0 # xs)) (?H 0)) else relink True 0 xs ?H y)"
    if "y \<in> X" for y
    using t(3) h1 s1(5) [OF that] that f(3) by (simp add: edited_def)
  have un: "untouched d X (sim_image (world t)) (sim_image (world s))"
    using t(3) s1(6) untouched_trans unfolding edited_def by blast
  have res: "CheckAPAPartitionLinks sim_env d clink s = Some (0, t)"
    using f(1,2) t(1) err unfolding CheckAPAPartitionLinks_def by (simp add: Let_def)
  have "disk_header d t (xs ! k) = reseal ((?H (xs ! k))\<lparr>h_prev := (0 # xs) ! k\<rparr>)" if "k < length xs" for k
  proof -
    have "xs ! k \<in> set xs" using that by simp
    then have "xs ! k \<in> X" "xs ! k \<noteq> 0" using assms(12) zero by auto
    then show ?thesis using at relink_nth [OF assms(11) that, of True 0 ?H] by (simp add: set_opposite_def)
  qed
  then show ?thesis
    using res err t(2) at assms(8) un relink_other [of _ xs True 0 ?H] by (auto simp: set_opposite_def)
qed

subsection \<open>A drive with two partitions whose backward links are lost\<close>

definition link_header :: "u32 \<Rightarrow> u32 \<Rightarrow> u32 \<Rightarrow> apa_header" where
  "link_header start nxt prv = reseal (zero_header\<lparr>h_magic := APA_MAGIC, h_start := start, h_next := nxt, h_prev := prv,
     h_length := 0x40000, h_type := 0x100, h_mbr := (h_mbr zero_header)\<lparr>mbr_magic := apaMBRMagic\<rparr>\<rparr>)"

definition link_disk :: sim_disk where
  "link_disk = demo_disk\<lparr>sd_base := put_sectors 0 0x80000 2 (header_words (link_header 0x80000 0 0))
     (put_sectors 0 0x40000 2 (header_words (link_header 0x40000 0x80000 0))
     (put_sectors 0 0 2 (header_words (link_header 0 0x40000 0)) (sd_base demo_disk)))\<rparr>"

definition hdck_on :: "nat \<Rightarrow> sim_disk \<Rightarrow> sim_disk hdck_state" where
  "hdck_on n w = \<lparr>cacheBuf = cacheBuf (demo_cache n), cacheSize = n, journalBuf = empty_journal, timeBuf = demo_time, world = w,
     IOBuffer = replicate 256 0, IOBuffer2 = replicate 256 0, HddInfo = [], ErrorPartitionLBA = 0, ErrorPartition2LBA = 0,
     ErrorPartitionPrevLBA = 0, ErrorPartition2PrevLBA = 0\<rparr>"

lemma link_header_sel [simp]:
  "h_start (link_header a b c) = a" "h_next (link_header a b c) = b" "h_prev (link_header a b c) = c"
  "wf_header (link_header a b c)" "apaCheckSum (link_header a b c) = h_checksum (link_header a b c)"
  "header_valid x (link_header a b c)"
proof -
  show wf: "wf_header (link_header a b c)"
    using wf_zero_header unfolding link_header_def set_opposite_facts(6) by (simp add: wf_header_def apaMBRMagic_def)
  show "h_start (link_header a b c) = a" "h_next (link_header a b c) = b" "h_prev (link_header a b c) = c"
    by (simp_all add: link_header_def reseal_def)
  show ck: "apaCheckSum (link_header a b c) = h_checksum (link_header a b c)" by (simp add: link_header_def reseal_def)
  have "strncmp_eq apaMBRMagic apaMBRMagic 32" by code_simp
  then show "header_valid x (link_header a b c)"
    using ck by (simp add: header_valid_def) (simp add: link_header_def reseal_def)
qed

lemma hdck_on_queue: "cache_queue (hdck_on n w) (cache_entries n)"
  using demo_cache_queue [of n]
  by (simp add: cache_queue_def free_queue_def keys_unique_def hdck_on_def cnext_def [abs_def] ctail_def [abs_def])

lemma hdck_on_device: "i \<in> {1..n} \<Longrightarrow> c_device (cacheBuf (demo_cache n) i) = - 1"
  by (rule init_queue [of "\<lambda>_. zero_header" n demo_state]) (use demo_cache_init [of n] in auto)

lemma link_image: "sim_image link_disk = sd_base link_disk"
  by (simp add: sim_image_def link_disk_def norm128_puts norm128_id demo_disk_def)

lemma link_at:
  "header_at (sim_image link_disk) 0 0 = link_header 0 0x40000 0"
  "header_at (sim_image link_disk) 0 0x40000 = link_header 0x40000 0x80000 0"
  "header_at (sim_image link_disk) 0 0x80000 = link_header 0x80000 0 0"
  by (simp_all add: link_image header_at_def)
    (simp_all add: link_disk_def sectors_put_sectors_2 put_sectors_apart header_of_header_words)

lemma demo_cache_flags: "c_flags (cacheBuf (demo_cache n) i) = 0"
proof -
  have "c_flags (cacheBuf (fold init_entry xs s) i) = c_flags (cacheBuf s i)" for xs and s :: "sim_disk apa_state"
    by (induction xs arbitrary: s) (simp_all add: init_entry_def Let_def upd_entry_sel)
  then show ?thesis by (simp add: demo_cache_def apaCacheInit_def Let_def zero_entry_def)
qed

lemma hdck_on_calm:
  assumes "good_disk w" "uncommitted 0 (sim_image w)"
  shows "calm 0 X (hdck_on n w)"
proof -
  have "coherent 0 X (hdck_on n w)"
    by (auto simp: coherent_def hdck_on_def is_dirty_def demo_cache_flags hdck_on_device)
  then show ?thesis
    using assms hdck_on_queue [of n w] by (auto simp: calm_def cache_inv_def journal_ready_def empty_journal_def hdck_on_def)
qed

lemma link_disk_ok: "good_disk link_disk" "uncommitted 0 (sim_image link_disk)"
proof -
  show "good_disk link_disk" by (simp add: link_disk_def good_disk_def demo_disk_def)
  have "sd_base link_disk 0 APA_SECTOR_APAL = replicate 128 0"
    by (simp add: link_disk_def demo_disk_def put_sectors_2 put_sector_def APA_SECTOR_APAL_def)
  then show "uncommitted 0 (sim_image link_disk)" by (simp add: uncommitted_def link_image APAL_MAGIC_def)
qed

definition link_sectors :: "u32 set" where
  "link_sectors = {0, 0x40000, 0x80000}"

lemma link_area: "header_area link_sectors"
  by (simp add: header_area_def link_sectors_def off_journal_def journal_area_def APA_SECTOR_APAL_def APA_SECTOR_APAL_HEADERS_def
      word_le_nat_alt)

text \<open>The MBR's header is held by its reader.\<close>

lemma reader_state:
  assumes "good_disk w" "uncommitted 0 (sim_image w)" "header_valid 0 (header_at (sim_image w) 0 0)" "0 \<in> X"
  shows "\<exists>c s. apaCacheGetHeader sim_env 0 0 0 (hdck_on 4 w) = ((Some c, 0), s) \<and> calm 0 X s \<and> roomy s \<and>
     c \<in> {1..cacheSize s} \<and> uses s c \<noteq> 0 \<and> key_of s c = (0, 0) \<and> world s = w \<and> length (IOBuffer s) = 256 \<and>
     (\<forall>j \<in> {1..cacheSize s}. j \<noteq> c \<longrightarrow> c_device (cacheBuf s j) = - 1)"
proof -
  let ?u = "hdck_on 4 w"
  have u: "uses ?u j = c_nused (cacheBuf (demo_cache 4) j)" "cacheSize ?u = 4" "world ?u = w" "length (IOBuffer ?u) = 256" for j
    by (simp_all add: uses_def hdck_on_def)
  have nu: "c_nused (cacheBuf (demo_cache n) i) = 0" for n i
  proof -
    have "c_nused (cacheBuf (fold init_entry xs s) i) = c_nused (cacheBuf s i)" for xs and s :: "sim_disk apa_state"
      by (induction xs arbitrary: s) (simp_all add: init_entry_sel)
    then show ?thesis by (simp add: demo_cache_def apaCacheInit_def Let_def zero_entry_def)
  qed
  have "header_valid 0 (disk_header 0 ?u 0)" by (simp add: disk_header_def u assms(3))
  moreover have "\<exists>j \<in> {1..cacheSize ?u}. uses ?u j = 0" by (rule bexI [of _ 1]) (simp_all add: u nu)
  ultimately obtain c s where g: "apaCacheGetHeader sim_env 0 0 0 ?u = ((Some c, 0), s)" "calm 0 X s" "fetched 0 0 c ?u s"
    using get_calm [OF hdck_on_calm [OF assms(1,2)], of 0 X 4] by (auto simp: assms(4) u nu)
  have us: "uses s = (\<lambda>_. 0)(c := 1)" using g(3) by (simp add: fetched_def fun_eq_iff u nu)
  moreover have sz: "cacheSize s = 4" using g(3) by (simp add: fetched_def u)
  moreover have "c \<in> {1..cacheSize s}" "key_of s c = (0, 0)" "world s = w" "apa_state.more s = apa_state.more ?u"
    using g(3) by (simp_all add: fetched_def u)
  moreover have "roomy s"
    unfolding roomy_def
  proof
    show "\<exists>j \<in> {1..cacheSize s}. uses s j = 0"
      by (rule bexI [of _ "if c = 1 then 2 else 1"]) (simp_all add: us sz)
    show "\<forall>j. uses s j \<noteq> - 1" by (simp add: us)
  qed
  moreover have "\<forall>j \<in> {1..cacheSize s}. j \<noteq> c \<longrightarrow> c_device (cacheBuf s j) = - 1"
    using g(3) hdck_on_device [of _ 4] sz by (auto simp: fetched_def key_of_def hdck_on_def)
  ultimately show ?thesis
    using g us more_fields(2) [of s ?u] u(4) by auto
qed

lemma link_state:
  "\<exists>c s. apaCacheGetHeader sim_env 0 0 0 (hdck_on 4 link_disk) = ((Some c, 0), s) \<and> calm 0 link_sectors s \<and> roomy s \<and>
     c \<in> {1..cacheSize s} \<and> uses s c \<noteq> 0 \<and> key_of s c = (0, 0) \<and> world s = link_disk \<and> length (IOBuffer s) = 256"
proof -
  have "header_valid 0 (header_at (sim_image link_disk) 0 0)" "0 \<in> link_sectors" by (simp_all add: link_at link_sectors_def)
  from reader_state [OF link_disk_ok this] show ?thesis by blast
qed

theorem links_repaired_witness:
  "\<exists>c s t. apaCacheGetHeader sim_env 0 0 0 (hdck_on 4 link_disk) = ((Some c, 0), s) \<and>
     h_prev (disk_header 0 s 0x80000) = 0 \<and> CheckAPAPartitionLinks sim_env 0 c s = Some (0, t) \<and>
     h_prev (disk_header 0 t 0x80000) = 0x40000 \<and> h_prev (disk_header 0 t 0) = 0x80000"
proof -
  obtain c s where s: "apaCacheGetHeader sim_env 0 0 0 (hdck_on 4 link_disk) = ((Some c, 0), s)"
    "calm 0 link_sectors s" "roomy s" "c \<in> {1..cacheSize s}" "uses s c \<noteq> 0" "key_of s c = (0, 0)" "world s = link_disk"
    "length (IOBuffer s) = 256" using link_state by blast
  have h: "disk_header 0 s 0 = link_header 0 0x40000 0" "disk_header 0 s 0x40000 = link_header 0x40000 0x80000 0"
    "disk_header 0 s 0x80000 = link_header 0x80000 0 0" by (simp_all add: disk_header_def s(7) link_at)
  have "\<exists>t. CheckAPAPartitionLinks sim_env 0 c s = Some (0, t) \<and> ErrorPartitionLBA t = 0 \<and> calm 0 link_sectors t \<and>
     (\<forall>k < length [0x40000, 0x80000 :: u32]. disk_header 0 t ([0x40000, 0x80000] ! k) =
        reseal ((disk_header 0 s ([0x40000, 0x80000] ! k))\<lparr>h_prev := (0 # [0x40000, 0x80000]) ! k\<rparr>)) \<and>
     disk_header 0 t 0 = reseal ((disk_header 0 s 0)\<lparr>h_prev := last (0 # [0x40000, 0x80000])\<rparr>) \<and>
     (\<forall>y \<in> link_sectors - insert 0 (set [0x40000, 0x80000]). disk_header 0 t y = disk_header 0 s y) \<and>
     untouched 0 link_sectors (sim_image (world t)) (sim_image (world s))"
    by (rule links_repaired [OF s(2) link_area _ s(3-6)]) (simp_all add: h s(8) follow_def link_sectors_def)
  then obtain t where t: "CheckAPAPartitionLinks sim_env 0 c s = Some (0, t)"
    "disk_header 0 t ([0x40000, 0x80000] ! 1) = reseal ((disk_header 0 s ([0x40000, 0x80000] ! 1))\<lparr>h_prev := (0 # [0x40000, 0x80000]) ! 1\<rparr>)"
    "disk_header 0 t 0 = reseal ((disk_header 0 s 0)\<lparr>h_prev := last (0 # [0x40000, 0x80000])\<rparr>)"
    by (metis One_nat_def length_Cons lessI list.size(3))
  then have "h_prev (disk_header 0 t 0x80000) = 0x40000" "h_prev (disk_header 0 t 0) = 0x80000"
    by (simp_all add: reseal_def)
  then show ?thesis using s(1) t(1) h by auto
qed

subsection \<open>Unlinking a bad partition\<close>

lemma flush_nothing:
  assumes "good_disk (world s)" "journal_ready s" "uncommitted d (sim_image (world s))" "dirty_entries d s = []"
  shows "\<exists>t. apaCacheFlushAllDirty sim_env d s = Some (0, t) \<and> same_data d (sim_image (world t)) (sim_image (world s)) \<and>
     apa_state.more t = apa_state.more s"
proof -
  have ok: "txn_ok d (j_sectors (journalBuf s)) [] (sim_image (world s))"
    using assms by (simp add: txn_ok_def journal_ready_def)
  from flush_all_image [of s d] assms ok obtain t where t: "apaCacheFlushAllDirty sim_env d s = Some (0, t)"
    "sim_image (world t) = img_reset d (j_sectors (journalBuf s)) [] (sim_image (world s))" "apa_state.more t = apa_state.more s"
    by (auto simp: txn_of_def)
  then show ?thesis using reset_same_data [OF ok] by auto
qed

lemma free_more: "apa_state.more (apaCacheFree c s) = apa_state.more s"
  by (simp add: apaCacheFree_def Let_def split: option.split)

text \<open>
  C9. \<open>RemoveBadPartitions\<close> does not remove anything from the disk: with a quiet cache and a
  readable predecessor it clears the two error sectors, as if the bad partitions were gone, but
  it marks the headers (not their cache entries) as changed, so that the flush writes none of
  them and the disk keeps its links (only the journal's sectors can differ).
\<close>

theorem bad_partitions_stay:
  assumes "calm d X s" "roomy s" "ErrorPartitionPrevLBA s \<in> X"
    and "header_valid (ErrorPartitionPrevLBA s) (disk_header d s (ErrorPartitionPrevLBA s))"
  shows "\<exists>t. RemoveBadPartitions sim_env d clink s = Some t \<and> ErrorPartitionLBA t = 0 \<and> ErrorPartition2LBA t = 0 \<and>
     same_data d (sim_image (world t)) (sim_image (world s))"
proof -
  from get_calm [OF assms(1,3,4)] assms(2) obtain c2 s1 where
    g: "apaCacheGetHeader sim_env d (ErrorPartitionPrevLBA s) 0 s = ((Some c2, 0), s1)" "calm d X s1"
      "fetched d (ErrorPartitionPrevLBA s) c2 s s1" unfolding roomy_def by blast
  define s3 where "s3 = (let u = set_header c2 (\<lambda>h. h\<lparr>h_next := 0\<rparr>) s1
     in set_header clink (\<lambda>h. h\<lparr>h_prev := ErrorPartitionPrevLBA u\<rparr>) u)"
  define s5 where "s5 = set_header clink (\<lambda>h. h\<lparr>h_flags := h_flags h OR APA_CACHE_FLAG_DIRTY\<rparr>)
     (set_header c2 (\<lambda>h. h\<lparr>h_flags := h_flags h OR APA_CACHE_FLAG_DIRTY\<rparr>) s3)"
  have w: "world s5 = world s" "journalBuf s5 = journalBuf s1" "cacheSize s5 = cacheSize s1"
    using g(3) by (simp_all add: s5_def s3_def Let_def fetched_def)
  have fl: "c_flags (cacheBuf s5 i) = c_flags (cacheBuf s1 i)" for i by (simp add: s5_def s3_def Let_def)
  have "dirty_entries d s5 = []"
    using coherent_entry(1) [OF calmD(5) [OF g(2)]] by (auto simp: dirty_entries_def dirty_of_def filter_empty_conv w is_dirty_def fl)
  then obtain s6 where s6: "apaCacheFlushAllDirty sim_env d s5 = Some (0, s6)" "same_data d (sim_image (world s6)) (sim_image (world s))"
    using flush_nothing [of s5 d] calmD [OF g(2)] calmD [OF assms(1)] by (auto simp: w journal_ready_def)
  have "RemoveBadPartitions sim_env d clink s =
     Some ((apaCacheFree (Some c2) s6)\<lparr>ErrorPartition2LBA := 0, ErrorPartitionLBA := 0\<rparr>)"
    using g(1) s6(1) unfolding s5_def s3_def Let_def by (simp add: RemoveBadPartitions_def Let_def)
  then show ?thesis using s6(2) by simp
qed

theorem bad_partitions_stay_witness:
  "\<exists>c s t. ErrorPartitionLBA s = 0x80000 \<and> RemoveBadPartitions sim_env 0 c s = Some t \<and> ErrorPartitionLBA t = 0 \<and>
     ErrorPartition2LBA t = 0 \<and> header_at (sim_image (world s)) 0 0x40000 = link_header 0x40000 0x80000 0 \<and>
     same_data 0 (sim_image (world t)) (sim_image (world s))"
proof -
  obtain u :: "sim_disk hdck_state" where u: "calm 0 link_sectors u" "roomy u" "world u = link_disk"
    by (rule link_state [THEN exE]) auto
  let ?s = "u\<lparr>ErrorPartitionLBA := 0x80000, ErrorPartitionPrevLBA := 0x40000\<rparr>"
  have v: "calm 0 link_sectors ?s = calm 0 link_sectors u" "roomy ?s = roomy u" by (rule view_cong; simp)+
  have "\<exists>t. RemoveBadPartitions sim_env 0 1 ?s = Some t \<and> ErrorPartitionLBA t = 0 \<and> ErrorPartition2LBA t = 0 \<and>
     same_data 0 (sim_image (world t)) (sim_image (world ?s))"
    by (rule bad_partitions_stay [of 0 link_sectors]) (simp_all add: u v disk_header_def link_at, simp add: link_sectors_def)
  then show ?thesis using u(3) link_at(2) by - (rule exI [of _ 1], rule exI [of _ ?s], simp)
qed

end
