(* ===== verification/HdckScan.thy ===== *)
theory HdckScan
  imports HdckProps
begin

text \<open>
  The check of the links on any readable drive whose links stay among the sectors of headers:
  chains that run into themselves, headers that are not valid and wrong backward links. Both
  scans end, and the result tells where and why.
\<close>

subsection \<open>A request that fails\<close>

text \<open>Of the cached entries of the device, all hold valid headers.\<close>

definition cached_valid :: "s32 \<Rightarrow> (sim_disk, 'z) apa_state_scheme \<Rightarrow> bool" where
  "cached_valid d s \<longleftrightarrow> (\<forall>i \<in> {1..cacheSize s}. c_device (cacheBuf s i) = d \<longrightarrow>
     header_valid (c_sector (cacheBuf s i)) (disk_header d s (c_sector (cacheBuf s i))))"

text \<open>The links of valid headers lead to headers of the area.\<close>

definition closed_links :: "s32 \<Rightarrow> u32 set \<Rightarrow> (sim_disk, 'z) apa_state_scheme \<Rightarrow> bool" where
  "closed_links d X s \<longleftrightarrow> (\<forall>x \<in> X. header_valid x (disk_header d s x) \<longrightarrow>
     h_next (disk_header d s x) \<in> X \<and> h_prev (disk_header d s x) \<in> X \<and> h_start (disk_header d s x) \<in> X)"

text \<open>The record of the error lies in no header.\<close>

definition error_apart :: "u32 set \<Rightarrow> bool" where
  "error_apart X \<longleftrightarrow> (\<forall>x \<in> X. x \<noteq> APA_SECTOR_SECTOR_ERROR \<and> x + 1 \<noteq> APA_SECTOR_SECTOR_ERROR)"

text \<open>What a client that holds some entries sees of the others' work on the links that it does not follow.\<close>

definition held_same :: "(sim_disk, 'z) apa_state_scheme \<Rightarrow> (sim_disk, 'z) apa_state_scheme \<Rightarrow> bool" where
  "held_same s t \<longleftrightarrow> uses t = uses s \<and> cacheSize t = cacheSize s \<and> apa_state.more t = apa_state.more s \<and>
     (\<forall>j. uses s j \<noteq> 0 \<longrightarrow> key_of t j = key_of s j)"

lemma held_trans: "held_same s t \<Longrightarrow> held_same t u \<Longrightarrow> held_same s u"
  by (simp add: held_same_def)

text \<open>What a failing request writes.\<close>

definition error_events :: "s32 \<Rightarrow> u32 \<Rightarrow> io_event list" where
  "error_events d x = write_events d APA_SECTOR_SECTOR_ERROR 1 (x # replicate 127 0) @ [EFlush d]"

lemma error_image:
  "sim_image (logged (error_events d x) w) = put_sector d APA_SECTOR_SECTOR_ERROR (x # replicate 127 0) (sim_image w)"
  by (subst sim_image_logged) (auto simp: error_events_def write_1 full_sector_def fun_eq_iff)

lemma fail_calm:
  assumes "calm d X s" "roomy s" "cached_valid d s" "error_apart X" "x \<in> X" "\<not> header_valid x (disk_header d s x)" "d \<noteq> - 1"
  shows "\<exists>t. apaCacheGetHeader sim_env d x 0 s = ((None, - EIO), t) \<and> calm d X t \<and> held_same s t \<and> cached_valid d t \<and>
     (\<forall>y \<in> X. disk_header d t y = disk_header d s y)"
proof -
  have good: "good_disk (world s)" by (rule calmD(1) [OF assms(1)])
  have miss: "cache_lookup d x s = None"
  proof (rule ccontr)
    assume "cache_lookup d x s \<noteq> None"
    then obtain i where "cache_lookup d x s = Some i" by blast
    from cache_lookup_Some [OF this] assms(3,6) show False by (auto simp: cached_valid_def)
  qed
  obtain ys where q: "cache_queue s ys" using calmD(2) [OF assms(1)] by (auto simp: cache_inv_def)
  obtain j where "j \<in> {1..cacheSize s}" "uses s j = 0" using assms(2) by (auto simp: roomy_def)
  then have "j \<in> set ys" using cache_queue_entry [OF q] by (simp add: uses_def)
  then obtain i zs where q: "cache_queue s (i # zs)" using q by (cases ys) auto
  let ?u = "claim_entry d x i s"
  have i: "i \<in> {1..cacheSize s}" "c_nused (cacheBuf s i) = 0" using cache_queue_entry [OF q, of i] by simp_all
  then have wf: "wf_header (hdr ?u i)" using q by (simp add: cache_queue_def)
  have bad: "\<And>d l. \<not> sd_bad (world s) d l" using good by (simp add: good_disk_def)
  obtain h where rd: "apaReadHeader sim_env (c_device (cacheBuf ?u i)) (hdr ?u i) (c_sector (cacheBuf ?u i)) ?u
      = (- EIO, h, ?u\<lparr>world := world s\<rparr>)"
    using read_header_result [OF sim_env_ok wf, of d x ?u 0 "sectors (sim_image (world s)) d x 2" "world s"] assms(6) sim_no_bad(1) [OF bad]
    by (auto simp: disk_header_def)
  obtain h' where h': "apaCacheTransfer sim_env i 0 ?u =
      (- EIO, upd_entry i (\<lambda>c. c\<lparr>c_header := h', c_flags := c_flags c AND NOT APA_CACHE_FLAG_DIRTY\<rparr>)
         (?u\<lparr>world := logged (error_events d x) (world s)\<rparr>))"
  proof -
    have "apaSaveError sim_env d h APA_SECTOR_SECTOR_ERROR x (set_header i (\<lambda>_. h) (?u\<lparr>world := world s\<rparr>)) =
       (header_of_words (overlay (x # replicate 127 0) (header_words h)),
        set_header i (\<lambda>_. h) (?u\<lparr>world := logged (error_events d x) (world s)\<rparr>))"
      using good by (simp add: apaSaveError_def error_events_def set_header_def upd_entry_def Let_def)
    then show ?thesis
      using transfer_read [OF rd] that by (simp add: Let_def EIO_def set_header_def upd_entry_def)
  qed
  define t where "t = apaCacheLink 0 i (upd_entry i (\<lambda>c. c\<lparr>c_nused := 0, c_device := - 1\<rparr>)
     (upd_entry i (\<lambda>c. c\<lparr>c_header := h', c_flags := c_flags c AND NOT APA_CACHE_FLAG_DIRTY\<rparr>)
       (?u\<lparr>world := logged (error_events d x) (world s)\<rparr>)))"
  have get: "apaCacheGetHeader sim_env d x 0 s = ((None, - EIO), t)"
    unfolding get_miss [OF q miss] h' by (simp add: t_def EIO_def Let_def)
  then have qt: "cache_inv t" using get_miss_queue [OF q miss get] by (auto simp: cache_inv_def)
  have same: "cacheSize t = cacheSize s" "world t = logged (error_events d x) (world s)" "journalBuf t = journalBuf s"
    "apa_state.more t = apa_state.more s" "c_flags (cacheBuf t j) = (if j = i then 0 else c_flags (cacheBuf s j))"
    "c_device (cacheBuf t j) = (if j = i then - 1 else c_device (cacheBuf s j))"
    "c_sector (cacheBuf t j) = (if j = i then x else c_sector (cacheBuf s j))" "hdr t j = (if j = i then h' else hdr s j)"
    "c_nused (cacheBuf t j) = c_nused (cacheBuf s j)" for j
    by (simp_all add: t_def claim_entry_def i)
  have img: "sim_image (world t) = put_sector d APA_SECTOR_SECTOR_ERROR (x # replicate 127 0) (sim_image (world s))"
    by (simp add: same(2) error_image)
  have heads: "disk_header d t y = disk_header d s y" if "y \<in> X" for y
    using that assms(4) by (auto simp: disk_header_def img header_at_def sectors_2 put_sector_def error_apart_def eq_diff_eq)
  have "coherent d X t"
    using calmD(5) [OF assms(1)] assms(7) heads by (auto simp: coherent_def same is_dirty_def)
  moreover have "uncommitted d (sim_image (world t))"
    using calmD(4) [OF assms(1)] by (simp add: img uncommitted_def put_sector_def APA_SECTOR_SECTOR_ERROR_def APA_SECTOR_APAL_def)
  ultimately have "calm d X t" using qt calmD(3) [OF assms(1)] good by (simp add: calm_def journal_ready_def same)
  moreover have "held_same s t"
    using i by (auto simp: held_same_def same uses_def key_of_def)
  moreover have "cached_valid d t"
    using assms(3,7) heads coherent_entry(2) [OF calmD(5) [OF assms(1)]] by (auto simp: cached_valid_def same)
  ultimately show ?thesis using get heads by blast
qed

subsection \<open>A step keeps what the scan relies on\<close>

definition ready :: "s32 \<Rightarrow> u32 set \<Rightarrow> (sim_disk, 'z) apa_state_scheme \<Rightarrow> bool" where
  "ready d X s \<longleftrightarrow> calm d X s \<and> roomy s \<and> closed_links d X s \<and> cached_valid d s"

text \<open>The links that are followed, and what headers are valid, are the same.\<close>

definition same_way :: "s32 \<Rightarrow> bool \<Rightarrow> u32 set \<Rightarrow> (sim_disk, 'z) apa_state_scheme \<Rightarrow> (sim_disk, 'z) apa_state_scheme \<Rightarrow> bool" where
  "same_way d fwd X s t \<longleftrightarrow> (\<forall>y \<in> X. follow fwd (disk_header d t y) = follow fwd (disk_header d s y) \<and>
     header_valid y (disk_header d t y) = header_valid y (disk_header d s y))"

lemma same_way_trans: "same_way d fwd X s t \<Longrightarrow> same_way d fwd X t u \<Longrightarrow> same_way d fwd X s u"
  by (simp add: same_way_def)

lemma reseal_checksum: "apaCheckSum (reseal h) = h_checksum (reseal h)"
  by (simp add: reseal_def)

lemma edit_valid: "header_valid x h \<Longrightarrow> header_valid x (reseal (set_opposite fwd p h))"
  using reseal_checksum [of "set_opposite fwd p h"]
  by (auto simp: header_valid_def) (auto simp: reseal_def set_opposite_def)

lemma edited_links:
  "h_next (reseal (set_opposite fwd p h)) = (if fwd then h_next h else p)"
  "h_prev (reseal (set_opposite fwd p h)) = (if fwd then p else h_prev h)"
  by (simp_all add: reseal_def set_opposite_def)

lemma visit_ready:
  assumes "ready d X s" "header_area X" "x \<in> X" "header_valid x (disk_header d s x)" "d \<noteq> - 1" "p \<in> X"
  shows "\<exists>i s1 s2. apaCacheGetHeader sim_env d x 0 s = ((Some i, 0), s1) \<and> repair_link sim_env d fwd p i s1 = Some s2 \<and>
     h_start (hdr s2 i) \<in> X \<and> follow fwd (hdr s2 i) = follow fwd (disk_header d s x) \<and> follow fwd (disk_header d s x) \<in> X \<and>
     ready d X (apaCacheFree (Some i) s2) \<and> held_same s (apaCacheFree (Some i) s2) \<and> same_way d fwd X s (apaCacheFree (Some i) s2) \<and>
     (\<forall>y \<in> X - {x}. disk_header d (apaCacheFree (Some i) s2) y = disk_header d s y)"
proof -
  have r: "calm d X s" "roomy s" "closed_links d X s" "cached_valid d s" using assms(1) by (simp_all add: ready_def)
  let ?H = "(disk_header d s)(x := reseal (set_opposite fwd p (disk_header d s x)))"
  from visit_header [OF r(1) assms(2,3,4) r(2) assms(5), of fwd p] obtain i s1 s2 where
    v: "apaCacheGetHeader sim_env d x 0 s = ((Some i, 0), s1)" "repair_link sim_env d fwd p i s1 = Some s2"
      "h_start (hdr s2 i) = h_start (disk_header d s x)" "follow fwd (hdr s2 i) = follow fwd (disk_header d s x)"
      "walked d X ?H s (apaCacheFree (Some i) s2)"
      "\<And>j. key_of (apaCacheFree (Some i) s2) j = key_of s j \<or> key_of (apaCacheFree (Some i) s2) j = (d, x)"
    by (metis (no_types, lifting))
  let ?t = "apaCacheFree (Some i) s2"
  have w: "calm d X ?t" "uses ?t = uses s" "cacheSize ?t = cacheSize s" "apa_state.more ?t = apa_state.more s"
    "\<And>j. uses s j \<noteq> 0 \<Longrightarrow> key_of ?t j = key_of s j" "\<And>y. y \<in> X \<Longrightarrow> disk_header d ?t y = ?H y"
    using v(5) unfolding walked_def by blast+
  have lk: "h_next (disk_header d s x) \<in> X" "h_prev (disk_header d s x) \<in> X" "h_start (disk_header d s x) \<in> X"
    using r(3) assms(3,4) by (simp_all add: closed_links_def)
  have valid: "header_valid y (disk_header d ?t y) = header_valid y (disk_header d s y)" if "y \<in> X" for y
    using w(6) [OF that] edit_valid [OF assms(4)] assms(4) by simp
  have "closed_links d X ?t"
    using r(3) lk assms(6) by (auto simp: closed_links_def w(6) edited_links dest: valid [THEN iffD1, rotated])
  moreover have "cached_valid d ?t"
    unfolding cached_valid_def
  proof (intro ballI impI)
    fix j assume j: "j \<in> {1..cacheSize ?t}" "c_device (cacheBuf ?t j) = d"
    have jX: "c_sector (cacheBuf ?t j) \<in> X" using coherent_entry(2) [OF calmD(5) [OF w(1)] j(1)] j(2) by simp
    have "header_valid (c_sector (cacheBuf ?t j)) (disk_header d s (c_sector (cacheBuf ?t j)))"
      using v(6) [of j] r(4) j w(3) assms(4) by (auto simp: cached_valid_def key_of_def)
    then show "header_valid (c_sector (cacheBuf ?t j)) (disk_header d ?t (c_sector (cacheBuf ?t j)))" using valid [OF jX] by simp
  qed
  ultimately have "ready d X ?t" using w(1) r(2) roomy_walked [OF v(5)] by (simp add: ready_def)
  moreover have "held_same s ?t" using w by (simp add: held_same_def)
  moreover have "same_way d fwd X s ?t" using valid by (auto simp: same_way_def w(6))
  moreover have "\<forall>y \<in> X - {x}. disk_header d ?t y = disk_header d s y" by (simp add: w(6))
  ultimately show ?thesis using v(1-4) lk by (auto simp: follow_def)
qed

lemma fail_ready:
  assumes "ready d X s" "error_apart X" "x \<in> X" "\<not> header_valid x (disk_header d s x)" "d \<noteq> - 1"
  shows "\<exists>t. apaCacheGetHeader sim_env d x 0 s = ((None, - EIO), t) \<and> ready d X t \<and> held_same s t \<and> same_way d fwd X s t \<and>
     (\<forall>y \<in> X. disk_header d t y = disk_header d s y)"
proof -
  have r: "calm d X s" "roomy s" "closed_links d X s" "cached_valid d s" using assms(1) by (simp_all add: ready_def)
  from fail_calm [OF r(1,2,4) assms(2,3,4,5)] obtain t where t: "apaCacheGetHeader sim_env d x 0 s = ((None, - EIO), t)"
    "calm d X t" "held_same s t" "cached_valid d t" "\<forall>y \<in> X. disk_header d t y = disk_header d s y" by blast
  moreover have "roomy t" using r(2) t(3) by (simp add: roomy_def held_same_def)
  moreover have "closed_links d X t" using r(3) t(5) by (simp add: closed_links_def)
  ultimately show ?thesis by (auto simp: ready_def same_way_def)
qed

subsection \<open>A whole scan\<close>

text \<open>The sector that is reached after \<open>n\<close> links.\<close>

primrec way_at :: "(u32 \<Rightarrow> apa_header) \<Rightarrow> bool \<Rightarrow> u32 \<Rightarrow> nat \<Rightarrow> u32" where
  "way_at H fwd cur 0 = cur"
| "way_at H fwd cur (Suc n) = way_at H fwd (follow fwd (H cur)) n"

text \<open>The headers that lead to the sector \<open>n\<close> links on are on the disk.\<close>

definition on_way :: "s32 \<Rightarrow> bool \<Rightarrow> u32 \<Rightarrow> (sim_disk, 'z) apa_state_scheme \<Rightarrow> nat \<Rightarrow> bool" where
  "on_way d fwd cur s n \<longleftrightarrow> (\<forall>k < n. let x = way_at (disk_header d s) fwd cur k in x \<noteq> 0 \<and> header_valid x (disk_header d s x))"

lemma way_step:
  "on_way d fwd cur s (Suc n) \<longleftrightarrow> cur \<noteq> 0 \<and> header_valid cur (disk_header d s cur) \<and>
     on_way d fwd (follow fwd (disk_header d s cur)) s n"
  by (auto simp: on_way_def Let_def All_less_Suc2)

lemma way_same:
  assumes "same_way d fwd X s t" "closed_links d X s" "cur \<in> X" "on_way d fwd cur s n \<or> on_way d fwd cur t n"
  shows "on_way d fwd cur s n \<and> on_way d fwd cur t n \<and> way_at (disk_header d s) fwd cur n \<in> X \<and>
     way_at (disk_header d t) fwd cur n = way_at (disk_header d s) fwd cur n"
  using assms(3,4)
proof (induction n arbitrary: cur)
  case 0
  then show ?case by (simp add: on_way_def)
next
  case (Suc n)
  have same: "header_valid cur (disk_header d t cur) = header_valid cur (disk_header d s cur)"
    "follow fwd (disk_header d t cur) = follow fwd (disk_header d s cur)"
    using assms(1) Suc.prems(1) by (simp_all add: same_way_def)
  have "cur \<noteq> 0" "header_valid cur (disk_header d s cur)" using Suc.prems(2) same by (auto simp: way_step)
  moreover from this have "follow fwd (disk_header d s cur) \<in> X"
    using assms(2) Suc.prems(1) by (auto simp: closed_links_def follow_def)
  ultimately show ?case using Suc.IH [of "follow fwd (disk_header d s cur)"] Suc.prems(2) same
    by (auto simp: way_step)
qed

text \<open>Where a scan ends, and with what result.\<close>

definition ending :: "s32 \<Rightarrow> u32 \<Rightarrow> (sim_disk, 'z) apa_state_scheme \<Rightarrow> u32 set \<Rightarrow> int \<Rightarrow> int \<Rightarrow> bool" where
  "ending d x s seen res0 res \<longleftrightarrow> (x = 0 \<and> res = res0) \<or> (x \<noteq> 0 \<and> x \<in> seen \<and> res = - EEXIST) \<or>
     (x \<noteq> 0 \<and> \<not> header_valid x (disk_header d s x) \<and> res = - EIO)"

lemma visited_room:
  assumes "distinct (visited sc)" "set (visited sc) \<subseteq> X - {0}" "0 \<in> X" "card X \<le> length (sc_buf sc)"
    and "sc_count sc \<le> length (sc_buf sc)"
  shows "sc_count sc < length (sc_buf sc)"
proof -
  have "finite X" by simp
  have "sc_count sc = card (set (visited sc))" using assms(1,5) by (simp add: distinct_card visited_def)
  also have "\<dots> \<le> card (X - {0})" using assms(2) by (intro card_mono) simp_all
  also have "\<dots> < card X" using assms(3) by (intro psubset_card_mono) auto
  finally show ?thesis using assms(4) by simp
qed

lemma links_loop_fail:
  assumes "sc_current sc = x" "x \<noteq> 0" "x \<notin> set (visited sc)" "sc_count sc < length (sc_buf sc)"
    and "apaCacheGetHeader E d x 0 (sc_state sc) = ((None, e), s1)"
  shows "links_loop E d fwd sc = Some (sc\<lparr>sc_result := e, sc_buf := (sc_buf sc)[sc_count sc := x], sc_count := sc_count sc + 1,
     sc_state := s1\<rparr>)"
  using assms by (simp add: links_loop.simps [of E d fwd sc] AddPartitionToList_def visited_def)

definition scanned :: "s32 \<Rightarrow> bool \<Rightarrow> u32 set \<Rightarrow> (sim_disk, 'z) apa_state_scheme scan \<Rightarrow> nat \<Rightarrow> (sim_disk, 'z) apa_state_scheme scan \<Rightarrow> bool" where
  "scanned d fwd X sc n f \<longleftrightarrow>
     (let s = sc_state sc; seen = visited sc @ map (way_at (disk_header d s) fwd (sc_current sc)) [0..<n]
      in on_way d fwd (sc_current sc) s n \<and> distinct seen \<and> sc_current f = way_at (disk_header d s) fwd (sc_current sc) n \<and>
         ending d (sc_current f) s (set seen) (if n = 0 then sc_result sc else 0) (sc_result f) \<and> ready d X (sc_state f) \<and>
         held_same s (sc_state f) \<and> same_way d fwd X s (sc_state f) \<and> sc_parent f \<in> X \<and>
         length (sc_buf f) = length (sc_buf sc) \<and>
         (\<forall>y \<in> X - way_at (disk_header d s) fwd (sc_current sc) ` {..<n}. disk_header d (sc_state f) y = disk_header d s y))"

lemma path_shift:
  assumes "same_way d fwd X s t" "closed_links d X s" "cur \<in> X" "on_way d fwd cur t n" "k < n"
  shows "way_at (disk_header d t) fwd cur k = way_at (disk_header d s) fwd cur k"
proof -
  have "on_way d fwd cur t k" using assms(4,5) by (auto simp: on_way_def)
  then show ?thesis using way_same [OF assms(1,2,3)] by blast
qed

lemma scanned_step:
  assumes "scanned d fwd X sc' n f" "ready d X (sc_state sc)" "same_way d fwd X (sc_state sc) (sc_state sc')"
    and "held_same (sc_state sc) (sc_state sc')" "visited sc' = visited sc @ [sc_current sc]" "sc_current sc \<noteq> 0"
    and "sc_current sc' = follow fwd (disk_header d (sc_state sc) (sc_current sc))" "sc_current sc' \<in> X"
    and "header_valid (sc_current sc) (disk_header d (sc_state sc) (sc_current sc))" "sc_result sc' = 0"
    and "length (sc_buf sc') = length (sc_buf sc)"
    and "\<forall>y \<in> X - {sc_current sc}. disk_header d (sc_state sc') y = disk_header d (sc_state sc) y"
  shows "scanned d fwd X sc (Suc n) f"
proof -
  let ?s = "sc_state sc" and ?t = "sc_state sc'" and ?c = "sc_current sc'"
  have closed: "closed_links d X ?s" using assms(2) by (simp add: ready_def)
  have way: "on_way d fwd ?c ?t n" using assms(1) by (simp add: scanned_def Let_def)
  from way_same [OF assms(3) closed assms(8) disjI2 [OF way]] have w: "on_way d fwd ?c ?s n"
    "way_at (disk_header d ?s) fwd ?c n \<in> X" "way_at (disk_header d ?t) fwd ?c n = way_at (disk_header d ?s) fwd ?c n" by simp_all
  have m: "map (way_at (disk_header d ?t) fwd ?c) [0..<n] = map (way_at (disk_header d ?s) fwd ?c) [0..<n]"
    using path_shift [OF assms(3) closed assms(8) way] by simp
  have "map (way_at (disk_header d ?s) fwd (sc_current sc)) [0..<Suc n]
      = sc_current sc # map (way_at (disk_header d ?s) fwd ?c) [0..<n]"
    by (simp add: assms(7) upt_rec [of 0 "Suc n"] map_Suc_upt [symmetric] del: upt_Suc)
  then have seen: "visited sc @ map (way_at (disk_header d ?s) fwd (sc_current sc)) [0..<Suc n]
      = visited sc' @ map (way_at (disk_header d ?t) fwd ?c) [0..<n]" by (simp add: m assms(5))
  have last: "way_at (disk_header d ?s) fwd (sc_current sc) (Suc n) = way_at (disk_header d ?t) fwd ?c n"
    using w(3) assms(7) by simp
  have ends: "ending d (way_at (disk_header d ?t) fwd ?c n) ?t A r q = ending d (way_at (disk_header d ?t) fwd ?c n) ?s A r q" for A r q
    using assms(3) w(2,3) by (simp add: ending_def same_way_def)
  have way: "on_way d fwd (sc_current sc) ?s (Suc n)" using w(1) assms(6,7,9) by (simp add: way_step)
  have zero: "(if n = 0 then sc_result sc' else 0) = 0" using assms(10) by simp
  from assms(1) have f: "distinct (visited sc' @ map (way_at (disk_header d ?t) fwd ?c) [0..<n])"
    "sc_current f = way_at (disk_header d ?t) fwd ?c n"
    "ending d (sc_current f) ?t (set (visited sc' @ map (way_at (disk_header d ?t) fwd ?c) [0..<n])) 0 (sc_result f)"
    "ready d X (sc_state f)" "held_same ?t (sc_state f)" "same_way d fwd X ?t (sc_state f)" "sc_parent f \<in> X"
    "length (sc_buf f) = length (sc_buf sc)"
    "\<forall>y \<in> X - way_at (disk_header d ?t) fwd ?c ` {..<n}. disk_header d (sc_state f) y = disk_header d ?t y"
    unfolding scanned_def Let_def zero assms(11) by blast+
  have "way_at (disk_header d ?s) fwd (sc_current sc) ` {..<Suc n} = insert (sc_current sc) (way_at (disk_header d ?t) fwd ?c ` {..<n})"
    using path_shift [OF assms(3) closed assms(8) \<open>on_way d fwd ?c ?t n\<close>] by (simp add: lessThan_Suc_eq_insert_0 image_image assms(7))
  then have rest: "\<forall>y \<in> X - way_at (disk_header d ?s) fwd (sc_current sc) ` {..<Suc n}. disk_header d (sc_state f) y = disk_header d ?s y"
    using f(9) assms(12) by auto
  show ?thesis
    unfolding scanned_def Let_def seen last
    using f way f(3) [unfolded f(2) ends] held_trans [OF assms(4) f(5)] same_way_trans [OF assms(3) f(6)] rest
    by (simp del: set_append way_at.simps)
qed

lemma links_scan:
  assumes "ready d X (sc_state sc)" "header_area X" "error_apart X" "d \<noteq> - 1" "0 \<in> X" "card X \<le> length (sc_buf sc)"
    and "sc_count sc \<le> length (sc_buf sc)" "distinct (visited sc)" "set (visited sc) \<subseteq> X - {0}" "sc_current sc \<in> X"
    and "sc_parent sc \<in> X"
  shows "\<exists>f n. links_loop sim_env d fwd sc = Some f \<and> scanned d fwd X sc n f"
  using assms
proof (induction "length (sc_buf sc) - sc_count sc" arbitrary: sc rule: less_induct)
  case less
  let ?s = "sc_state sc" and ?x = "sc_current sc"
  note room = visited_room [OF less.prems(8,9,5,6,7)]
  have here: "scanned d fwd X sc 0 f" if "ending d ?x ?s (set (visited sc)) (sc_result sc) (sc_result f)" "sc_current f = ?x"
    "ready d X (sc_state f)" "held_same ?s (sc_state f)" "same_way d fwd X ?s (sc_state f)" "sc_parent f = sc_parent sc"
    "length (sc_buf f) = length (sc_buf sc)" "\<forall>y \<in> X. disk_header d (sc_state f) y = disk_header d ?s y" for f
    using that less.prems(8,11) by (simp add: scanned_def on_way_def)
  have still: "held_same ?s ?s" "same_way d fwd X ?s ?s" by (simp_all add: held_same_def same_way_def)
  consider "?x = 0" | "?x \<noteq> 0" "?x \<in> set (visited sc)" | "?x \<noteq> 0" "?x \<notin> set (visited sc)" "\<not> header_valid ?x (disk_header d ?s ?x)"
    | "?x \<noteq> 0" "?x \<notin> set (visited sc)" "header_valid ?x (disk_header d ?s ?x)" by blast
  then show ?case
  proof cases
    case 1
    then have "links_loop sim_env d fwd sc = Some sc" by (simp add: links_loop.simps [of _ d fwd sc])
    moreover have "scanned d fwd X sc 0 sc" using 1 less.prems(1) still by (intro here) (simp_all add: ending_def)
    ultimately show ?thesis by blast
  next
    case 2
    then have "links_loop sim_env d fwd sc = Some (sc\<lparr>sc_result := - EEXIST\<rparr>)"
      by (simp add: links_loop.simps [of _ d fwd sc] AddPartitionToList_def visited_def EEXIST_def)
    moreover have "scanned d fwd X sc 0 (sc\<lparr>sc_result := - EEXIST\<rparr>)"
      using 2 less.prems(1) still by (intro here) (simp_all add: ending_def)
    ultimately show ?thesis by blast
  next
    case 3
    from fail_ready [OF less.prems(1,3,10) 3(3) less.prems(4), of fwd] obtain t where
      t: "apaCacheGetHeader sim_env d ?x 0 ?s = ((None, - EIO), t)" "ready d X t" "held_same ?s t" "same_way d fwd X ?s t"
      "\<forall>y \<in> X. disk_header d t y = disk_header d ?s y" by blast
    let ?f = "sc\<lparr>sc_result := - EIO, sc_buf := (sc_buf sc)[sc_count sc := ?x], sc_count := sc_count sc + 1, sc_state := t\<rparr>"
    have "links_loop sim_env d fwd sc = Some ?f" by (rule links_loop_fail [OF refl 3(1,2) room t(1)])
    moreover have "scanned d fwd X sc 0 ?f" using 3 t(2-5) by (intro here) (simp_all add: ending_def)
    ultimately show ?thesis by blast
  next
    case 4
    from visit_ready [OF less.prems(1,2,10) 4(3) less.prems(4,11), of fwd] obtain i s1 s2 where
      v: "apaCacheGetHeader sim_env d ?x 0 ?s = ((Some i, 0), s1)" "repair_link sim_env d fwd (sc_parent sc) i s1 = Some s2"
        "h_start (hdr s2 i) \<in> X" "follow fwd (hdr s2 i) = follow fwd (disk_header d ?s ?x)" "follow fwd (disk_header d ?s ?x) \<in> X"
        "ready d X (apaCacheFree (Some i) s2)" "held_same ?s (apaCacheFree (Some i) s2)"
        "same_way d fwd X ?s (apaCacheFree (Some i) s2)"
        "\<forall>y \<in> X - {?x}. disk_header d (apaCacheFree (Some i) s2) y = disk_header d ?s y" by blast
    define u where "u = \<lparr>sc_result = 0, sc_parent = h_start (hdr s2 i), sc_current = follow fwd (hdr s2 i),
       sc_buf = (sc_buf sc)[sc_count sc := ?x], sc_count = sc_count sc + 1, sc_state = apaCacheFree (Some i) s2\<rparr>"
    have step: "links_loop sim_env d fwd sc = links_loop sim_env d fwd u"
      unfolding u_def by (rule links_loop_step [OF refl 4(1,2) room v(1,2)])
    have vis: "visited u = visited sc @ [?x]" using visited_add [OF room] by (simp add: visited_def u_def)
    have len: "length (sc_buf u) = length (sc_buf sc)" "sc_count u = sc_count sc + 1" by (simp_all add: u_def)
    have "\<exists>f n. links_loop sim_env d fwd u = Some f \<and> scanned d fwd X u n f"
    proof (rule less.hyps)
      show "distinct (visited u)" "set (visited u) \<subseteq> X - {0}" using less.prems(8-10) 4(1,2) by (auto simp: vis)
    qed (use less.prems(2-6) v(3-6) room len in \<open>simp_all add: u_def\<close>)
    then obtain f n where f: "links_loop sim_env d fwd u = Some f" "scanned d fwd X u n f" by blast
    have "scanned d fwd X sc (Suc n) f"
      by (rule scanned_step [OF f(2) less.prems(1) _ _ vis 4(1)]) (use v(4-9) 4(3) len in \<open>simp_all add: u_def\<close>)
    then show ?thesis using step f(1) by auto
  qed
qed

subsection \<open>The check of the links, on any drive\<close>

text \<open>The sector that is \<open>n\<close> links behind the one that the MBR's header names.\<close>

definition reach :: "s32 \<Rightarrow> bool \<Rightarrow> (sim_disk, 'z) apa_state_scheme \<Rightarrow> nat \<Rightarrow> u32" where
  "reach d fwd s n = way_at (disk_header d s) fwd (follow fwd (disk_header d s 0)) n"

text \<open>There the way is over: it is the end, a header that is on the way already, or no valid header.\<close>

definition stops :: "s32 \<Rightarrow> bool \<Rightarrow> (sim_disk, 'z) apa_state_scheme \<Rightarrow> nat \<Rightarrow> bool" where
  "stops d fwd s n \<longleftrightarrow> (\<forall>k < n. reach d fwd s k \<noteq> 0 \<and> header_valid (reach d fwd s k) (disk_header d s (reach d fwd s k))) \<and>
     inj_on (reach d fwd s) {..<n} \<and>
     (reach d fwd s n = 0 \<or> reach d fwd s n \<in> reach d fwd s ` {..<n} \<or>
      \<not> header_valid (reach d fwd s n) (disk_header d s (reach d fwd s n)))"

lemma view_ready:
  assumes "cacheBuf t = cacheBuf s" "cacheSize t = cacheSize s" "journalBuf t = journalBuf s" "world t = world s"
  shows "ready d X t = ready d X s" "cached_valid d t = cached_valid d s" "closed_links d X t = closed_links d X s"
  using view_cong [OF assms] assms by (simp_all add: ready_def closed_links_def cached_valid_def)

text \<open>What the holder of the MBR's header knows.\<close>

definition holds_mbr :: "s32 \<Rightarrow> nat \<Rightarrow> (sim_disk, 'z) apa_state_scheme \<Rightarrow> bool" where
  "holds_mbr d clink s \<longleftrightarrow> clink \<in> {1..cacheSize s} \<and> uses s clink \<noteq> 0 \<and> key_of s clink = (d, 0)"

lemma view_mbr: "cacheBuf t = cacheBuf s \<Longrightarrow> cacheSize t = cacheSize s \<Longrightarrow> holds_mbr d clink t = holds_mbr d clink s"
  by (simp add: holds_mbr_def uses_def key_of_def)

lemma held_mbr: "held_same s t \<Longrightarrow> holds_mbr d clink s \<Longrightarrow> holds_mbr d clink t"
  by (simp add: holds_mbr_def held_same_def)

lemma holds_mbr_header:
  assumes "ready d X s" "holds_mbr d clink s"
  shows "hdr s clink = disk_header d s 0" "apaCheckSum (hdr s clink) = h_checksum (hdr s clink)"
proof -
  have c: "clink \<in> {1..cacheSize s}" "c_device (cacheBuf s clink) = d" "c_sector (cacheBuf s clink) = 0"
    using assms(2) by (simp_all add: holds_mbr_def key_of_def)
  show h: "hdr s clink = disk_header d s 0"
    using coherent_entry(3) [OF _ c(1), of d X] c assms(1) by (simp add: ready_def calm_def)
  have "header_valid 0 (disk_header d s 0)" using assms(1) c by (auto simp: ready_def cached_valid_def)
  then show "apaCheckSum (hdr s clink) = h_checksum (hdr s clink)" by (simp add: h header_valid_def)
qed

text \<open>A scan from the MBR's header.\<close>

lemma scan_mbr:
  fixes s :: "sim_disk hdck_state"
  assumes "ready d X s" "holds_mbr d clink s" "header_area X" "error_apart X" "d \<noteq> - 1" "0 \<in> X" "card X \<le> length (IOBuffer s)"
  shows "\<exists>f n. links_loop sim_env d fwd ((scan_from (follow fwd (hdr s clink)) s)\<lparr>sc_result := r\<rparr>) = Some f \<and> stops d fwd s n \<and>
     sc_current f = reach d fwd s n \<and> (sc_result f = 0 \<longleftrightarrow> reach d fwd s n = 0 \<and> (n = 0 \<longrightarrow> r = 0)) \<and>
     ready d X (sc_state f) \<and> held_same s (sc_state f) \<and> same_way d fwd X s (sc_state f) \<and> sc_parent f \<in> X \<and>
     length (sc_buf f) = length (IOBuffer s) \<and>
     (\<forall>y \<in> X - reach d fwd s ` {..<n}. disk_header d (sc_state f) y = disk_header d s y)"
proof -
  let ?sc = "(scan_from (follow fwd (hdr s clink)) s)\<lparr>sc_result := r\<rparr>" and ?x = "follow fwd (disk_header d s 0)"
  note h = holds_mbr_header [OF assms(1,2)]
  have "header_valid 0 (disk_header d s 0)"
    using assms(1,2) by (auto simp: ready_def cached_valid_def holds_mbr_def key_of_def)
  then have x: "?x \<in> X" using assms(1,6) by (auto simp: ready_def closed_links_def follow_def)
  have "\<exists>f n. links_loop sim_env d fwd ?sc = Some f \<and> scanned d fwd X ?sc n f"
    by (rule links_scan) (use assms x h in \<open>simp_all add: scan_from_def visited_def\<close>)
  then obtain f n where f: "links_loop sim_env d fwd ?sc = Some f" "scanned d fwd X ?sc n f" by blast
  have sel: "sc_state ?sc = s" "visited ?sc = []" "sc_current ?sc = ?x" "sc_result ?sc = r" "sc_buf ?sc = IOBuffer s"
    using h by (simp_all add: scan_from_def visited_def)
  have e: "on_way d fwd ?x s n" "distinct (map (reach d fwd s) [0..<n])" "sc_current f = reach d fwd s n"
    "ending d (reach d fwd s n) s (reach d fwd s ` {..<n}) (if n = 0 then r else 0) (sc_result f)"
    "ready d X (sc_state f)" "held_same s (sc_state f)" "same_way d fwd X s (sc_state f)" "sc_parent f \<in> X"
    "length (sc_buf f) = length (IOBuffer s)"
    "\<forall>y \<in> X - reach d fwd s ` {..<n}. disk_header d (sc_state f) y = disk_header d s y"
    using f(2) unfolding scanned_def Let_def sel by (auto simp: reach_def [abs_def] atLeast0LessThan)
  have "stops d fwd s n"
    using e(1,2,4) by (auto simp: stops_def on_way_def Let_def distinct_map atLeast0LessThan ending_def reach_def [abs_def])
  moreover have "sc_result f = 0 \<longleftrightarrow> reach d fwd s n = 0 \<and> (n = 0 \<longrightarrow> r = 0)"
    using e(4) by (auto simp: ending_def EEXIST_def EIO_def)
  ultimately show ?thesis using f(1) e by blast
qed

lemma stops_same:
  assumes "same_way d fwd X s t" "closed_links d X s" "0 \<in> X" "header_valid 0 (disk_header d s 0)" "stops d fwd s n"
  shows "stops d fwd t n" "reach d fwd t n = reach d fwd s n" "reach d fwd t ` {..<n} = reach d fwd s ` {..<n}"
proof -
  let ?x = "follow fwd (disk_header d s 0)"
  have x: "follow fwd (disk_header d t 0) = ?x" "?x \<in> X"
    using assms(1-4) by (auto simp: same_way_def closed_links_def follow_def)
  have way: "on_way d fwd ?x s k" if "k \<le> n" for k
    using assms(5) that by (simp add: stops_def on_way_def Let_def reach_def)
  have at: "reach d fwd t k = reach d fwd s k" "reach d fwd s k \<in> X" if "k \<le> n" for k
    using way_same [OF assms(1,2) x(2) disjI1 [OF way [OF that]]] x(1) by (simp_all add: reach_def)
  show "reach d fwd t n = reach d fwd s n" by (rule at) simp
  have "header_valid (reach d fwd s k) (disk_header d t (reach d fwd s k)) = header_valid (reach d fwd s k) (disk_header d s (reach d fwd s k))"
    if "k \<le> n" for k using assms(1) at(2) [OF that] by (simp add: same_way_def)
  moreover have "inj_on (reach d fwd t) {..<n} = inj_on (reach d fwd s) {..<n}" by (rule inj_on_cong) (simp add: at)
  moreover show "reach d fwd t ` {..<n} = reach d fwd s ` {..<n}" by (rule image_cong) (simp_all add: at)
  ultimately show "stops d fwd t n" using assms(5) by (simp add: stops_def at)
qed

text \<open>The repair of the MBR's own link.\<close>

lemma repair_mbr:
  fixes s :: "sim_disk hdck_state"
  assumes "ready d X s" "holds_mbr d clink s" "header_area X" "0 \<in> X" "d \<noteq> - 1"
  shows "\<exists>t. repair_link sim_env d fwd p clink s = Some t \<and> calm d X t \<and> apa_state.more t = apa_state.more s \<and> same_way d fwd X s t \<and>
     (\<forall>y \<in> X - {0}. disk_header d t y = disk_header d s y)"
proof -
  have c: "calm d X s" "clink \<in> {1..cacheSize s}" "key_of s clink = (d, 0)"
    using assms(1,2) by (simp_all add: ready_def holds_mbr_def)
  note h = holds_mbr_header [OF assms(1,2)]
  from repair_calm [OF c(1) assms(3) c(2,3) assms(4) h(2) assms(5), of fwd p] obtain t where
    t: "repair_link sim_env d fwd p clink s = Some t" "calm d X t" "edited d X clink 0 (set_opposite fwd p) s t" by blast
  have v: "header_valid 0 (disk_header d s 0)"
    using assms(1,2) by (auto simp: ready_def cached_valid_def holds_mbr_def key_of_def)
  have "same_way d fwd X s t"
    using t(3) edit_valid [OF v] v by (auto simp: edited_def same_way_def h(1))
  then show ?thesis using t by (auto simp: edited_def)
qed

text \<open>The second scan, after the first has failed with \<open>e\<close>.\<close>

lemma check_backward:
  fixes s :: "sim_disk hdck_state"
  assumes "ready d X s" "holds_mbr d clink s" "header_area X" "error_apart X" "d \<noteq> - 1" "0 \<in> X" "card X \<le> length (IOBuffer s)" "e \<noteq> 0"
  shows "\<exists>b m t. links_loop sim_env d False ((scan_from (h_prev (hdr s clink)) s)\<lparr>sc_result := e\<rparr>) = Some b \<and>
     stops d False t m \<and> calm d X t \<and> h_prev (disk_header d t 0) = h_prev (disk_header d s 0) \<and>
     (\<forall>y \<in> X - insert 0 (reach d False t ` {..<m}). disk_header d t y = disk_header d s y) \<and>
     (if reach d False t m = 0 \<and> m \<noteq> 0
      then sc_result b = 0 \<and> (\<exists>u. repair_link sim_env d False (sc_parent b) clink ((sc_state b)\<lparr>IOBuffer := sc_buf b\<rparr>) = Some u \<and>
        t = u\<lparr>ErrorPartitionLBA := 0\<rparr>)
      else sc_result b \<noteq> 0 \<and> ErrorPartitionLBA t = ErrorPartitionLBA s \<and> ErrorPartition2LBA t = reach d False t m \<and>
        t = (sc_state b)\<lparr>IOBuffer := sc_buf b, ErrorPartition2LBA := sc_current b, ErrorPartition2PrevLBA := sc_parent b\<rparr>)"
proof -
  from scan_mbr [OF assms(1-7), of False e] obtain b m where
    b: "links_loop sim_env d False ((scan_from (follow False (hdr s clink)) s)\<lparr>sc_result := e\<rparr>) = Some b"
      "stops d False s m" "sc_current b = reach d False s m" "sc_result b = 0 \<longleftrightarrow> reach d False s m = 0 \<and> (m = 0 \<longrightarrow> e = 0)"
      "ready d X (sc_state b)" "held_same s (sc_state b)" "same_way d False X s (sc_state b)"
      "\<forall>y \<in> X - reach d False s ` {..<m}. disk_header d (sc_state b) y = disk_header d s y" by auto
  have closed: "closed_links d X s" using assms(1) by (simp add: ready_def)
  have v: "header_valid 0 (disk_header d s 0)"
    using assms(1,2) by (auto simp: ready_def cached_valid_def holds_mbr_def key_of_def)
  note same = stops_same [OF _ closed assms(6) v b(2)]
  let ?u = "(sc_state b)\<lparr>IOBuffer := sc_buf b\<rparr>"
  have d: "disk_header d ?u = disk_header d (sc_state b)" by (simp add: disk_header_def fun_eq_iff)
  have r: "ready d X ?u" using view_ready(1) [of ?u "sc_state b" d X] b(5) by simp
  have mbr: "holds_mbr d clink ?u" using view_mbr [of ?u "sc_state b"] held_mbr [OF b(6) assms(2)] by simp
  have scan: "links_loop sim_env d False ((scan_from (h_prev (hdr s clink)) s)\<lparr>sc_result := e\<rparr>) = Some b"
    using b(1) by (simp add: follow_def)
  show ?thesis
  proof (cases "reach d False s m = 0 \<and> m \<noteq> 0")
    case True
    from repair_mbr [OF r mbr assms(3,6,5), of False "sc_parent b"] obtain u where
      u: "repair_link sim_env d False (sc_parent b) clink ?u = Some u" "calm d X u" "same_way d False X ?u u"
      "\<forall>y \<in> X - {0}. disk_header d u y = disk_header d ?u y" by blast
    let ?t = "u\<lparr>ErrorPartitionLBA := 0\<rparr>"
    have sw: "same_way d False X s ?t" using b(7) u(3) by (simp add: same_way_def d) (simp add: disk_header_def)
    note st = same [OF this]
    have dt: "disk_header d ?t = disk_header d u" by (simp add: disk_header_def fun_eq_iff)
    have "\<forall>y \<in> X - insert 0 (reach d False ?t ` {..<m}). disk_header d ?t y = disk_header d s y"
      using b(8) u(4) st(3) by (simp add: d dt)
    moreover have "h_prev (disk_header d ?t 0) = h_prev (disk_header d s 0)" using sw assms(6) by (simp add: same_way_def follow_def)
    moreover have "calm d X ?t" using calm_cong [of ?t u] u(2) by simp
    ultimately show ?thesis using scan st True b(4) u(1) by (intro exI [of _ b] exI [of _ m] exI [of _ ?t]) auto
  next
    case False
    let ?t = "?u\<lparr>ErrorPartition2LBA := sc_current b, ErrorPartition2PrevLBA := sc_parent b\<rparr>"
    have sw: "same_way d False X s ?t" using b(7) by (simp add: same_way_def disk_header_def)
    note st = same [OF this]
    have dt: "disk_header d ?t = disk_header d (sc_state b)" by (simp add: disk_header_def fun_eq_iff)
    have "\<forall>y \<in> X - insert 0 (reach d False ?t ` {..<m}). disk_header d ?t y = disk_header d s y"
      using b(8) st(3) by (simp add: dt)
    moreover have "h_prev (disk_header d ?t 0) = h_prev (disk_header d s 0)" using sw assms(6) by (simp add: same_way_def follow_def)
    moreover have "calm d X ?t" using calm_cong [of ?t ?u] r by (simp add: ready_def)
    moreover have "ErrorPartitionLBA ?t = ErrorPartitionLBA s" using more_fields(1) [of "sc_state b" s] b(6) by (simp add: held_same_def)
    ultimately show ?thesis using scan st False b(3,4) assms(8) by (intro exI [of _ b] exI [of _ m] exI [of _ ?t]) auto
  qed
qed

text \<open>
  C8. \<open>CheckAPAPartitionLinks\<close> ends on every drive that can be read and whose valid headers link
  to sectors of a set \<open>X\<close> (the list takes as many sectors), whatever the links are: a chain may
  run into itself or lead to a sector that holds no valid header, and backward links may be
  wrong. The way over \<open>next\<close> is scanned until 0, a repetition or a header that is not valid. When
  that is 0 the result is 0. Otherwise the way over \<open>prev\<close> (with the links that the first scan
  has repaired) is scanned in the same manner: the result is 0 if it has a header and ends at
  0, else the sector where the first scan stopped, and the second error sector is where the
  second one did. Headers that are on neither way, but the MBR's, are as before.
\<close>

theorem links_check_ends:
  fixes s :: "sim_disk hdck_state"
  assumes "ready d X s" "holds_mbr d clink s" "header_area X" "error_apart X" "d \<noteq> - 1" "0 \<in> X" "card X \<le> length (IOBuffer s)"
  shows "\<exists>r t n. CheckAPAPartitionLinks sim_env d clink s = Some (r, t) \<and> calm d X t \<and> ErrorPartitionLBA t = r \<and>
     stops d True s n \<and>
     (if reach d True s n = 0
      then r = 0 \<and> (\<forall>y \<in> X - insert 0 (reach d True s ` {..<n}). disk_header d t y = disk_header d s y)
      else \<exists>m. stops d False t m \<and> h_prev (disk_header d t 0) = h_prev (disk_header d s 0) \<and>
        (\<forall>y \<in> X - insert 0 (reach d True s ` {..<n} \<union> reach d False t ` {..<m}). disk_header d t y = disk_header d s y) \<and>
        (if reach d False t m = 0 \<and> m \<noteq> 0 then r = 0
         else r = reach d True s n \<and> ErrorPartition2LBA t = reach d False t m))"
proof -
  let ?s = "s\<lparr>ErrorPartition2LBA := 0, ErrorPartitionLBA := 0, ErrorPartition2PrevLBA := 0, ErrorPartitionPrevLBA := 0\<rparr>"
  have same: "disk_header d ?s = disk_header d s" by (simp add: disk_header_def fun_eq_iff)
  have r0: "ready d X ?s = ready d X s" by (rule view_ready(1)) simp_all
  have m0: "holds_mbr d clink ?s" using assms(2) by (simp add: holds_mbr_def uses_def key_of_def)
  have "card X \<le> length (IOBuffer ?s)" using assms(7) by simp
  from scan_mbr [OF r0 [THEN iffD2, OF assms(1)] m0 assms(3-6) this, of True 0] obtain f n where
    f: "links_loop sim_env d True ((scan_from (follow True (hdr ?s clink)) ?s)\<lparr>sc_result := 0\<rparr>) = Some f" "stops d True ?s n"
      "sc_current f = reach d True ?s n" "sc_result f = 0 \<longleftrightarrow> reach d True ?s n = 0 \<and> (n = 0 \<longrightarrow> (0 :: int) = 0)"
      "ready d X (sc_state f)" "held_same ?s (sc_state f)" "sc_parent f \<in> X" "length (sc_buf f) = length (IOBuffer s)"
      "\<forall>y \<in> X - reach d True ?s ` {..<n}. disk_header d (sc_state f) y = disk_header d ?s y"
    by auto
  have n: "stops d True s n" "reach d True ?s n = reach d True s n" using f(2) by (simp_all add: stops_def same reach_def [abs_def])
  have "reach d True ?s = reach d True s" by (simp add: same reach_def fun_eq_iff)
  then have rest: "\<forall>y \<in> X - reach d True s ` {..<n}. disk_header d (sc_state f) y = disk_header d s y"
    using f(9) by (simp add: same)
  have zero: "0 \<notin> reach d True s ` {..<n}" using n(1) by (auto simp: stops_def)
  have scan: "links_loop sim_env d True (scan_from (h_next (hdr ?s clink)) ?s) = Some f"
    using f(1) by (simp add: scan_from_def follow_def)
  let ?s1 = "(sc_state f)\<lparr>IOBuffer := sc_buf f\<rparr>"
  have mf: "holds_mbr d clink (sc_state f)" using m0 f(6) by (simp add: holds_mbr_def held_same_def)
  show ?thesis
  proof (cases "reach d True s n = 0")
    case True
    have "ready d X ?s1" using view_ready(1) [of ?s1 "sc_state f"] f(5) by simp
    moreover have "holds_mbr d clink ?s1" using view_mbr [of ?s1 "sc_state f"] mf by simp
    ultimately obtain t where t: "repair_link sim_env d True (sc_parent f) clink ?s1 = Some t" "calm d X t"
      "apa_state.more t = apa_state.more ?s1" "\<forall>y \<in> X - {0}. disk_header d t y = disk_header d ?s1 y"
      using repair_mbr [of d X ?s1 clink True "sc_parent f"] assms(3,5,6) by auto
    have "ErrorPartitionLBA t = 0"
      using more_fields(1) [OF t(3)] more_fields(1) [of "sc_state f" ?s] f(6) by (simp add: held_same_def)
    moreover have "CheckAPAPartitionLinks sim_env d clink s = Some (ErrorPartitionLBA t, t)"
      using scan f(4) True n t(1) by (simp add: CheckAPAPartitionLinks_def Let_def)
    moreover have "\<forall>y \<in> X - insert 0 (reach d True s ` {..<n}). disk_header d t y = disk_header d s y"
      using t(4) rest by (simp add: disk_header_def)
    ultimately show ?thesis using t(2) n(1) True by (intro exI [of _ 0] exI [of _ t] exI [of _ n]) simp
  next
    case False
    let ?s2 = "?s1\<lparr>ErrorPartitionLBA := sc_current f, ErrorPartitionPrevLBA := sc_parent f\<rparr>"
    have r2: "ready d X ?s2" using view_ready(1) [of ?s2 "sc_state f"] f(5) by simp
    have m2: "holds_mbr d clink ?s2" using view_mbr [of ?s2 "sc_state f"] mf by simp
    have fr: "sc_result f \<noteq> 0" using f(4) False n(2) by simp
    from check_backward [OF r2 m2 assms(3-6) _ fr] assms(7) f(8) obtain b m t where
      b: "links_loop sim_env d False ((scan_from (h_prev (hdr ?s2 clink)) ?s2)\<lparr>sc_result := sc_result f\<rparr>) = Some b"
        "stops d False t m" "calm d X t" "h_prev (disk_header d t 0) = h_prev (disk_header d ?s2 0)"
        "\<forall>y \<in> X - insert 0 (reach d False t ` {..<m}). disk_header d t y = disk_header d ?s2 y"
      and e: "if reach d False t m = 0 \<and> m \<noteq> 0
        then sc_result b = 0 \<and> (\<exists>u. repair_link sim_env d False (sc_parent b) clink ((sc_state b)\<lparr>IOBuffer := sc_buf b\<rparr>) = Some u \<and>
          t = u\<lparr>ErrorPartitionLBA := 0\<rparr>)
        else sc_result b \<noteq> 0 \<and> ErrorPartitionLBA t = ErrorPartitionLBA ?s2 \<and> ErrorPartition2LBA t = reach d False t m \<and>
          t = (sc_state b)\<lparr>IOBuffer := sc_buf b, ErrorPartition2LBA := sc_current b, ErrorPartition2PrevLBA := sc_parent b\<rparr>"
      by auto
    have d2: "disk_header d ?s2 = disk_header d (sc_state f)" by (simp add: disk_header_def fun_eq_iff)
    have k: "h_prev (disk_header d t 0) = h_prev (disk_header d s 0)"
      "\<forall>y \<in> X - insert 0 (reach d True s ` {..<n} \<union> reach d False t ` {..<m}). disk_header d t y = disk_header d s y"
      using b(4,5) rest zero assms(6) by (simp_all add: d2)
    show ?thesis
    proof (cases "reach d False t m = 0 \<and> m \<noteq> 0")
      case True
      then obtain u where u: "sc_result b = 0" "t = u\<lparr>ErrorPartitionLBA := 0\<rparr>"
        "repair_link sim_env d False (sc_parent b) clink ((sc_state b)\<lparr>IOBuffer := sc_buf b\<rparr>) = Some u" using e by auto
      have "CheckAPAPartitionLinks sim_env d clink s = Some (0, t)"
        using scan fr b(1) u by (simp add: CheckAPAPartitionLinks_def Let_def)
      moreover have "ErrorPartitionLBA t = 0" by (simp add: u(2))
      ultimately show ?thesis using b(2,3) n(1) k True False by (intro exI [of _ 0] exI [of _ t] exI [of _ n]) auto
    next
      case no: False
      then have t: "sc_result b \<noteq> 0" "ErrorPartitionLBA t = sc_current f" "ErrorPartition2LBA t = reach d False t m"
        "t = (sc_state b)\<lparr>IOBuffer := sc_buf b, ErrorPartition2LBA := sc_current b, ErrorPartition2PrevLBA := sc_parent b\<rparr>"
        using e by auto
      have "CheckAPAPartitionLinks sim_env d clink s = Some (ErrorPartitionLBA t, t)"
        using scan fr b(1) t(1) by (simp add: CheckAPAPartitionLinks_def Let_def t(4) del: exI)
      then show ?thesis using b(2,3) n f(3) t(2,3) k no False
        by (intro exI [of _ "ErrorPartitionLBA t"] exI [of _ t] exI [of _ n]) auto
    qed
  qed
qed

subsection \<open>A drive whose partitions run into each other\<close>

definition ring_disk :: sim_disk where
  "ring_disk = demo_disk\<lparr>sd_base := put_sectors 0 0x80000 2 (header_words (link_header 0x80000 0x40000 0x40000))
     (put_sectors 0 0x40000 2 (header_words (link_header 0x40000 0x80000 0x80000))
     (put_sectors 0 0 2 (header_words (link_header 0 0x40000 0)) (sd_base demo_disk)))\<rparr>"

lemma ring_image: "sim_image ring_disk = sd_base ring_disk"
  by (simp add: sim_image_def ring_disk_def norm128_puts norm128_id demo_disk_def)

lemma ring_at:
  "header_at (sim_image ring_disk) 0 0 = link_header 0 0x40000 0"
  "header_at (sim_image ring_disk) 0 0x40000 = link_header 0x40000 0x80000 0x80000"
  "header_at (sim_image ring_disk) 0 0x80000 = link_header 0x80000 0x40000 0x40000"
  by (simp_all add: ring_image header_at_def)
    (simp_all add: ring_disk_def sectors_put_sectors_2 put_sectors_apart header_of_header_words)

lemma ring_disk_ok: "good_disk ring_disk" "uncommitted 0 (sim_image ring_disk)"
proof -
  show "good_disk ring_disk" by (simp add: ring_disk_def good_disk_def demo_disk_def)
  have "sd_base ring_disk 0 APA_SECTOR_APAL = replicate 128 0"
    by (simp add: ring_disk_def demo_disk_def put_sectors_2 put_sector_def APA_SECTOR_APAL_def)
  then show "uncommitted 0 (sim_image ring_disk)" by (simp add: uncommitted_def ring_image APAL_MAGIC_def)
qed

text \<open>The two partitions name each other as the next one: the check reports the first of them.\<close>

theorem links_check_ends_witness:
  "\<exists>c s t. apaCacheGetHeader sim_env 0 0 0 (hdck_on 4 ring_disk) = ((Some c, 0), s) \<and>
     CheckAPAPartitionLinks sim_env 0 c s = Some (0x40000, t) \<and> ErrorPartition2LBA t = 0"
proof -
  have "header_valid 0 (header_at (sim_image ring_disk) 0 0)" "0 \<in> link_sectors" by (simp_all add: ring_at link_sectors_def)
  from reader_state [OF ring_disk_ok this] obtain c s where
    s: "apaCacheGetHeader sim_env 0 0 0 (hdck_on 4 ring_disk) = ((Some c, 0), s)" "calm 0 link_sectors s" "roomy s"
      "c \<in> {1..cacheSize s}" "uses s c \<noteq> 0" "key_of s c = (0, 0)" "world s = ring_disk" "length (IOBuffer s) = 256"
      "\<forall>j \<in> {1..cacheSize s}. j \<noteq> c \<longrightarrow> c_device (cacheBuf s j) = - 1" by blast
  have h: "disk_header 0 s 0 = link_header 0 0x40000 0" "disk_header 0 s 0x40000 = link_header 0x40000 0x80000 0x80000"
    "disk_header 0 s 0x80000 = link_header 0x80000 0x40000 0x40000" by (simp_all add: disk_header_def s(7) ring_at)
  have "closed_links 0 link_sectors s" by (simp add: closed_links_def link_sectors_def h)
  moreover have "cached_valid 0 s" using s(6,9) h(1) by (auto simp: cached_valid_def key_of_def)
  ultimately have rdy: "ready 0 link_sectors s" using s(2,3) by (simp add: ready_def)
  have mbr: "holds_mbr 0 c s" using s(4-6) by (simp add: holds_mbr_def)
  have apart: "error_apart link_sectors" by (simp add: error_apart_def link_sectors_def APA_SECTOR_SECTOR_ERROR_def)
  have "0 \<in> link_sectors" "card link_sectors \<le> length (IOBuffer s)" by (simp_all add: link_sectors_def s(8))
  from links_check_ends [OF rdy mbr link_area apart _ this] obtain r t n where
    t: "CheckAPAPartitionLinks sim_env 0 c s = Some (r, t)" "stops 0 True s n"
      "if reach 0 True s n = 0 then r = 0 \<and> (\<forall>y \<in> link_sectors - insert 0 (reach 0 True s ` {..<n}). disk_header 0 t y = disk_header 0 s y)
       else \<exists>m. stops 0 False t m \<and> h_prev (disk_header 0 t 0) = h_prev (disk_header 0 s 0) \<and>
         (\<forall>y \<in> link_sectors - insert 0 (reach 0 True s ` {..<n} \<union> reach 0 False t ` {..<m}). disk_header 0 t y = disk_header 0 s y) \<and>
         (if reach 0 False t m = 0 \<and> m \<noteq> 0 then r = 0 else r = reach 0 True s n \<and> ErrorPartition2LBA t = reach 0 False t m)"
    by auto
  have p: "way_at (disk_header 0 s) True 0x40000 n = (if even n then 0x40000 else 0x80000) \<and>
      way_at (disk_header 0 s) True 0x80000 n = (if even n then 0x80000 else 0x40000)" for n
    by (induction n) (simp_all add: h follow_def)
  have f: "reach 0 True s n = (if even n then 0x40000 else 0x80000)" for n using p by (simp add: reach_def h(1) follow_def)
  have n: "n = 2"
  proof -
    have "\<not> 2 < n"
    proof
      assume "2 < n"
      have "inj_on (reach 0 True s) {..<n}" using t(2) by (simp add: stops_def)
      from inj_onD [OF this, of 0 2] show False using f [of 0] f [of 2] \<open>2 < n\<close> by simp
    qed
    moreover have "\<not> stops 0 True s 0" "\<not> stops 0 True s 1" using f [of 0] f [of 1] h by (simp_all add: stops_def lessThan_Suc)
    then have "n \<noteq> 0" "n \<noteq> 1" using t(2) by metis+
    ultimately show ?thesis by simp
  qed
  then obtain m where m: "stops 0 False t m" "h_prev (disk_header 0 t 0) = 0"
    "if reach 0 False t m = 0 \<and> m \<noteq> 0 then r = 0 else r = 0x40000 \<and> ErrorPartition2LBA t = reach 0 False t m"
    using t(3) f [of 2] by (auto simp: h(1))
  have z: "reach 0 False t 0 = 0" using m(2) by (simp add: reach_def follow_def)
  then have "m = 0" using m(1) by (auto simp: stops_def)
  then show ?thesis using s(1) t(1) m(3) z by auto
qed

end
