(* ===== verification/HdskSim.thy ===== *)
theory HdskSim
  imports ApaOps
begin

text \<open>
  \<open>hdsk/sim.c\<close>: the dry run of the defragmentation on a copy of the partition list, the
  array \<open>hdskBitmap\<close>, whose nodes are threaded through the link routines of the APA cache
  (\<open>apaCacheLink\<close>, \<open>apaCacheUnLink\<close> on a cast pointer: the two link fields come first in
  both structures). A pointer to node \<open>i\<close> is \<open>Some i\<close>, and \<open>None\<close> is NULL; the store
  has a cell for NULL, which no operation reaches: a function that would follow NULL is
  undefined (\<open>None\<close>).
\<close>

subsection \<open>State\<close>

type_synonym ptr = "nat option"

record hdskBitmap =
  b_next :: ptr
  b_prev :: ptr
  b_start :: u32
  b_length :: u32
  b_type :: u32

record hdsk_sim =
  sim_bitmap :: "ptr \<Rightarrow> hdskBitmap"
  BitmapUsed :: nat
  TotalCopied :: u32

record hdskStat =
  st_free :: u32
  st_total :: u32

definition HDSK_BITMAP_SIZE :: nat where "HDSK_BITMAP_SIZE = 0x4001"

text \<open>\<open>hdskBitmap\<close> itself, the list head.\<close>

abbreviation bm_head :: ptr where "bm_head \<equiv> Some 0"

definition upd_node :: "ptr \<Rightarrow> (hdskBitmap \<Rightarrow> hdskBitmap) \<Rightarrow> hdsk_sim \<Rightarrow> hdsk_sim" where
  "upd_node p f s = s\<lparr>sim_bitmap := (sim_bitmap s)(p := f (sim_bitmap s p))\<rparr>"

text \<open>Reading through a pointer.\<close>

definition node :: "hdsk_sim \<Rightarrow> ptr \<Rightarrow> hdskBitmap option" where
  "node s p = (if p = None then None else Some (sim_bitmap s p))"

definition bm_link :: "ptr \<Rightarrow> ptr \<Rightarrow> hdsk_sim \<Rightarrow> hdsk_sim" where
  "bm_link clink cnew s =
     (let s1 = upd_node cnew (\<lambda>n. n\<lparr>b_prev := clink\<rparr>) s;
          s2 = upd_node cnew (\<lambda>n. n\<lparr>b_next := b_next (sim_bitmap s1 clink)\<rparr>) s1;
          s3 = upd_node (b_next (sim_bitmap s2 clink)) (\<lambda>n. n\<lparr>b_prev := cnew\<rparr>) s2
      in upd_node clink (\<lambda>n. n\<lparr>b_next := cnew\<rparr>) s3)"

definition bm_unlink :: "ptr \<Rightarrow> hdsk_sim \<Rightarrow> hdsk_sim" where
  "bm_unlink clink s =
     (let s1 = upd_node (b_prev (sim_bitmap s clink)) (\<lambda>n. n\<lparr>b_next := b_next (sim_bitmap s clink)\<rparr>) s
      in upd_node (b_next (sim_bitmap s1 clink)) (\<lambda>n. n\<lparr>b_prev := b_prev (sim_bitmap s1 clink)\<rparr>) s1)"

text \<open>The same, undefined where a pointer on the way is NULL.\<close>

definition simLink :: "ptr \<Rightarrow> ptr \<Rightarrow> hdsk_sim \<Rightarrow> hdsk_sim option" where
  "simLink clink cnew s =
     (if clink = None \<or> cnew = None \<or> b_next (sim_bitmap s clink) = None then None else Some (bm_link clink cnew s))"

definition simUnLink :: "ptr \<Rightarrow> hdsk_sim \<Rightarrow> hdsk_sim option" where
  "simUnLink clink s =
     (if clink = None \<or> b_prev (sim_bitmap s clink) = None \<or> b_next (sim_bitmap s clink) = None then None
      else Some (bm_unlink clink s))"

subsection \<open>Free space\<close>

text \<open>The first loop of \<open>hdskSimGetFreeSectors\<close>, over the array up to the list's last node.\<close>

function sim_free_scan :: "(ptr \<Rightarrow> hdskBitmap) \<Rightarrow> nat \<Rightarrow> u32 \<Rightarrow> u32 \<Rightarrow> (u32 \<times> u32) option" where
  "sim_free_scan bm i sectors f =
     (if HDSK_BITMAP_SIZE \<le> i then None
      else let n = bm (Some i) in
        if b_next n = bm_head then Some (sectors, f)
        else if b_type n = 0
        then let f1 = (if 0x1FFFFF < b_length n \<or> f AND b_length n = 0 then f + b_length n else f)
             in sim_free_scan bm (i + 1) (sectors + b_length n + b_length n) f1
        else sim_free_scan bm (i + 1) (sectors + b_length n) f)"
  by pat_completeness auto
termination by (relation "measure (\<lambda>(bm, i, n, f). HDSK_BITMAP_SIZE - i)") auto

declare sim_free_scan.simps [simp del]

text \<open>The second loop, with the same search for an aligned size as \<open>apaGetFreeSectors\<close>.\<close>

function sim_extend_free :: "u32 \<Rightarrow> u32 \<Rightarrow> u32 \<Rightarrow> u32 \<Rightarrow> u32 \<times> u32" where
  "sim_extend_free tot maxSize sectors f =
     (let p = fit_size tot sectors maxSize in
      if 0x3FFFF < p
      then sim_extend_free tot maxSize (sectors + p) (if 0x1FFFFF < p \<or> f AND p = 0 then f + p else f)
      else (f, sectors))"
  by auto
termination
proof (relation "measure (\<lambda>(t, m, s, f). unat t - unat s)")
  fix tot maxSize sectors f p :: u32
  assume p: "p = fit_size tot sectors maxSize" and big: "0x3FFFF < p"
  have fits: "unat sectors + unat p < unat tot" using fit_size_fits [of tot sectors maxSize] big p by simp
  then have "unat sectors + unat p < 2 ^ 32" using unat_32 [of tot] by simp
  then have "unat (sectors + p) = unat sectors + unat p" by (simp add: unat_word_ariths)
  moreover have "0 < unat p" using big by (simp add: word_less_nat_alt)
  ultimately show "((tot, maxSize, sectors + p, if 0x1FFFFF < p \<or> f AND p = 0 then f + p else f), tot, maxSize, sectors, f)
      \<in> measure (\<lambda>(t, m, s, f). unat t - unat s)" using fits by simp
qed simp

declare sim_extend_free.simps [simp del]

definition hdskSimGetFreeSectors :: "u32 \<Rightarrow> u32 \<Rightarrow> hdskStat \<Rightarrow> hdsk_sim \<Rightarrow> hdskStat option" where
  "hdskSimGetFreeSectors totalLBA partitionMaxSize st s = do {
     (sectors, f) \<leftarrow> sim_free_scan (sim_bitmap s) 0 0 0;
     Some (st\<lparr>st_free := fst (sim_extend_free totalLBA partitionMaxSize sectors f)\<rparr>)
   }"

subsection \<open>Merging free neighbours\<close>

definition zero_node :: hdskBitmap where
  "zero_node = \<lparr>b_next = None, b_prev = None, b_start = 0, b_length = 0, b_type = 0\<rparr>"

definition hdskSimClearHeader :: "ptr \<Rightarrow> hdsk_sim \<Rightarrow> hdsk_sim" where
  "hdskSimClearHeader p s = upd_node p (\<lambda>_. zero_node) s"

text \<open>\<open>x % 0\<close> is undefined.\<close>

partial_function (option) hdskSimDeleteFixPrev :: "ptr \<Rightarrow> hdsk_sim \<Rightarrow> (ptr \<times> hdsk_sim) option" where
  "hdskSimDeleteFixPrev part s =
     (if b_next (sim_bitmap s bm_head) = part then Some (part, s)
      else do {
        n \<leftarrow> node s part;
        p \<leftarrow> node s (b_prev n);
        let len = b_length p + b_length n;
        if b_type p \<noteq> 0 then Some (part, s)
        else if len = 0 then None
        else if b_start p mod len \<noteq> 0 then Some (part, s)
        else if len AND (len - 1) = 0
        then do {
          s1 \<leftarrow> simUnLink part (upd_node (b_prev n) (\<lambda>h. h\<lparr>b_length := len\<rparr>) s);
          hdskSimDeleteFixPrev (b_prev n) (hdskSimClearHeader part s1)
        }
        else Some (part, s)
      })"

partial_function (option) hdskSimDeleteFixNext :: "ptr \<Rightarrow> hdsk_sim \<Rightarrow> (ptr \<times> hdsk_sim) option" where
  "hdskSimDeleteFixNext part s =
     (if b_prev (sim_bitmap s bm_head) = part then Some (part, s)
      else do {
        n \<leftarrow> node s part;
        x \<leftarrow> node s (b_next n);
        let len = b_length x + b_length n;
        if b_type x \<noteq> 0 then Some (part, s)
        else if len = 0 then None
        else if b_start n mod len \<noteq> 0 then Some (part, s)
        else if len AND (len - 1) = 0
        then do {
          s1 \<leftarrow> simUnLink part (upd_node part (\<lambda>h. h\<lparr>b_length := len, b_type := 0\<rparr>) s);
          hdskSimDeleteFixNext part (hdskSimClearHeader part s1)
        }
        else Some (part, s)
      })"

subsection \<open>Moving a partition\<close>

text \<open>The do-while loop that removes the end of the list.\<close>

partial_function (option) swap_tail_loop :: "ptr \<Rightarrow> hdsk_sim \<Rightarrow> hdsk_sim option" where
  "swap_tail_loop part s = do {
     s1 \<leftarrow> simUnLink part s;
     let s2 = hdskSimClearHeader part s1;
     let part2 = b_prev (sim_bitmap s2 bm_head);
     if part2 = None then Some s2
     else if b_type (sim_bitmap s2 part2) \<noteq> 0 then swap_tail_loop part2 s2
     else Some s2
   }"

definition swap_merge :: "ptr \<Rightarrow> hdsk_sim \<Rightarrow> (ptr \<times> hdsk_sim) option" where
  "swap_merge start s = do {
     (p1, s1) \<leftarrow> hdskSimDeleteFixPrev start s;
     hdskSimDeleteFixNext p1 s1
   }"

definition hdskSimSwapPartition :: "ptr \<Rightarrow> hdsk_sim \<Rightarrow> hdsk_sim option" where
  "hdskSimSwapPartition start s =
     (let part = b_prev (sim_bitmap s bm_head) in
      if start = part then swap_tail_loop part s
      else do {
        n \<leftarrow> node s start;
        (p1, s1) \<leftarrow> swap_merge start s;
        (p2, s2) \<leftarrow> swap_merge p1 s1;
        m \<leftarrow> node s2 p2;
        Some (if b_start m = b_start n \<and> b_length m = b_length n then upd_node p2 (\<lambda>h. h\<lparr>b_type := 0\<rparr>) s2 else s2)
      })"

definition hdskSimMovePartition :: "ptr \<Rightarrow> ptr \<Rightarrow> hdsk_sim \<Rightarrow> hdsk_sim option" where
  "hdskSimMovePartition dest start s = do {
     n \<leftarrow> node s start;
     m \<leftarrow> node s dest;
     let s1 = s\<lparr>TotalCopied := TotalCopied s + b_length n\<rparr>;
     hdskSimSwapPartition start (upd_node dest (\<lambda>h. h\<lparr>b_type := b_type n\<rparr>) s1)
   }"

subsection \<open>Searching\<close>

text \<open>The searches return a pointer, NULL for nothing found, and are undefined past a NULL link.\<close>

partial_function (option) find_empty_loop :: "u32 \<Rightarrow> hdsk_sim \<Rightarrow> ptr \<Rightarrow> ptr option" where
  "find_empty_loop len s part = do {
     n \<leftarrow> node s part;
     if b_next n = bm_head then Some None
     else if b_length n = len \<and> b_type n = 0 then Some part
     else find_empty_loop len s (b_next n)
   }"

definition hdskSimFindEmptyPartition :: "u32 \<Rightarrow> hdsk_sim \<Rightarrow> ptr option" where
  "hdskSimFindEmptyPartition len s = find_empty_loop len s bm_head"

definition hdskCheckIfPrevPartEmpty :: "hdsk_sim \<Rightarrow> ptr \<Rightarrow> u32 \<Rightarrow> bool option" where
  "hdskCheckIfPrevPartEmpty s part len = do {
     n \<leftarrow> node s part; p \<leftarrow> node s (b_prev n); Some (b_length p = len \<and> b_type p = 0) }"

definition hdskCheckIfNextPartEmpty :: "hdsk_sim \<Rightarrow> ptr \<Rightarrow> u32 \<Rightarrow> bool option" where
  "hdskCheckIfNextPartEmpty s part len = do {
     n \<leftarrow> node s part; p \<leftarrow> node s (b_next n); Some (b_length p = len \<and> b_type p = 0) }"

text \<open>Does the search end at this node? \<open>SliceSize\<close> is twice the size; \<open>x % 0\<close> is undefined.\<close>

definition last_used_test :: "u32 \<Rightarrow> int \<Rightarrow> hdsk_sim \<Rightarrow> ptr \<Rightarrow> bool option" where
  "last_used_test len mode s part = do {
     n \<leftarrow> node s part;
     if \<not> (b_length n = len \<and> b_type n \<noteq> 0) then Some False
     else if mode = 0 then Some True
     else if len * 2 = 0 then None
     else if b_start n mod (len * 2) \<noteq> 0 then hdskCheckIfPrevPartEmpty s part len
     else if part = b_prev (sim_bitmap s bm_head) then Some True
     else hdskCheckIfNextPartEmpty s part len
   }"

partial_function (option) last_used_loop :: "u32 \<Rightarrow> u32 \<Rightarrow> int \<Rightarrow> hdsk_sim \<Rightarrow> ptr \<Rightarrow> ptr option" where
  "last_used_loop len start mode s part = do {
     n \<leftarrow> node s part;
     if start < b_start n \<and> part \<noteq> bm_head
     then do {
       hit \<leftarrow> last_used_test len mode s part;
       if hit then Some part else last_used_loop len start mode s (b_prev n)
     }
     else Some None
   }"

definition hdskSimFindLastUsedPartition :: "u32 \<Rightarrow> u32 \<Rightarrow> int \<Rightarrow> hdsk_sim \<Rightarrow> ptr option" where
  "hdskSimFindLastUsedPartition len start mode s = last_used_loop len start mode s (b_prev (sim_bitmap s bm_head))"

text \<open>How far the used partitions behind \<open>part\<close> reach: the last node looked at and the sum.\<close>

partial_function (option) span_loop :: "u32 \<Rightarrow> hdsk_sim \<Rightarrow> ptr \<Rightarrow> u32 \<Rightarrow> (ptr \<times> u32) option" where
  "span_loop len s cur acc =
     (if acc < len \<and> cur \<noteq> bm_head
      then do {
        c \<leftarrow> node s cur;
        x \<leftarrow> node s (b_next c);
        if b_type x = 0 then Some (b_next c, acc) else span_loop len s (b_next c) (acc + b_length x)
      }
      else Some (cur, acc))"

definition hdskCheckIsLastPart :: "hdsk_sim \<Rightarrow> ptr \<Rightarrow> u32 \<Rightarrow> int \<Rightarrow> bool option" where
  "hdskCheckIsLastPart s part len mode = do {
     n \<leftarrow> node s part;
     (cur, acc) \<leftarrow> span_loop len s part (b_length n);
     if acc \<noteq> len then Some False
     else if mode = 0 then Some True
     else if len * 2 = 0 then None
     else if b_start n mod (len * 2) \<noteq> 0 then hdskCheckIfPrevPartEmpty s part len
     else if cur \<noteq> b_prev (sim_bitmap s bm_head) then hdskCheckIfNextPartEmpty s cur len
     else Some True
   }"

partial_function (option) last_block_loop :: "u32 \<Rightarrow> u32 \<Rightarrow> int \<Rightarrow> hdsk_sim \<Rightarrow> ptr \<Rightarrow> ptr option" where
  "last_block_loop len start mode s part = do {
     n \<leftarrow> node s part;
     if start < b_start n \<and> part \<noteq> bm_head
     then if len = 0 then None
       else do {
         hit \<leftarrow> (if b_start n mod len = 0 \<and> b_length n < len \<and> b_type n \<noteq> 0
                then hdskCheckIsLastPart s part len mode else Some False);
         if hit then Some part else last_block_loop len start mode s (b_prev n)
       }
     else Some None
   }"

definition hdskSimFindLastUsedBlock :: "u32 \<Rightarrow> u32 \<Rightarrow> int \<Rightarrow> hdsk_sim \<Rightarrow> ptr option" where
  "hdskSimFindLastUsedBlock len start mode s = last_block_loop len start mode s (b_prev (sim_bitmap s bm_head))"

subsection \<open>Splitting, and moving a block of partitions\<close>

text \<open>An unused node is one whose length is zero.\<close>

definition hdskBitmapAlloc :: "hdsk_sim \<Rightarrow> ptr" where
  "hdskBitmapAlloc s =
     (case List.find (\<lambda>i. b_length (sim_bitmap s (Some i)) = 0) [1..<HDSK_BITMAP_SIZE] of None \<Rightarrow> None | Some i \<Rightarrow> Some i)"

definition split_once :: "ptr \<Rightarrow> hdsk_sim \<Rightarrow> hdsk_sim option" where
  "split_once part s =
     (let new = hdskBitmapAlloc s;
          s1 = upd_node part (\<lambda>h. h\<lparr>b_length := b_length h div 2\<rparr>) s
      in if new = None then None
         else simLink part new
           (upd_node new (\<lambda>h. h\<lparr>b_start := b_start (sim_bitmap s1 part) + b_length (sim_bitmap s1 part), b_type := 0,
              b_length := b_length (sim_bitmap s1 part)\<rparr>) s1))"

partial_function (option) hdskSimSplitEmptyPartition :: "ptr \<Rightarrow> u32 \<Rightarrow> hdsk_sim \<Rightarrow> hdsk_sim option" where
  "hdskSimSplitEmptyPartition part len s = do {
     n \<leftarrow> node s part;
     if b_length n = len then Some s
     else do { s1 \<leftarrow> split_once part s; hdskSimSplitEmptyPartition part len s1 }
   }"

partial_function (option) move_block_loop :: "ptr \<Rightarrow> ptr \<Rightarrow> u32 \<Rightarrow> hdsk_sim \<Rightarrow> hdsk_sim option" where
  "move_block_loop dest src len s = do {
     n \<leftarrow> node s src;
     s1 \<leftarrow> hdskSimSplitEmptyPartition dest (b_length n) s;
     if b_next (sim_bitmap s1 src) = bm_head then Some s1
     else do {
       s2 \<leftarrow> hdskSimMovePartition dest src s1;
       let dest2 = b_next (sim_bitmap s2 dest);
       m \<leftarrow> node s2 dest2;
       let len2 = len - b_length m;
       if len2 = 0 then Some s2
       else let src2 = b_next (sim_bitmap s2 src) in
         if dest2 \<noteq> bm_head then move_block_loop dest2 src2 len2 s2 else Some s2
     }
   }"

definition hdskSimMovePartitionsBlock :: "ptr \<Rightarrow> ptr \<Rightarrow> hdsk_sim \<Rightarrow> hdsk_sim option" where
  "hdskSimMovePartitionsBlock dest src s = do {
     n \<leftarrow> node s dest;
     move_block_loop dest src (b_length n) s
   }"

end
