(* ===== verification/Hdsk.thy ===== *)
theory Hdsk
  imports HdskSim
begin

text \<open>
  \<open>hdsk/hdsk.c\<close> and \<open>hdsk/hdl.c\<close>: the defragmentation of a drive. The thread moves used
  partitions from the end of the disk into free blocks before them; the devctl interface
  starts and stops it. The statics extend the state of the APA library. The build of the
  repository's Makefile defines \<open>HDSK_SUPPORT_HDLFS\<close>.

  \<open>stop w\<close> says that another thread has set \<open>hdskStopFlag\<close> through the devctl by the time
  the world is \<open>w\<close>. \<open>uninit\<close> is the value a local variable has before it is assigned.
\<close>

subsection \<open>State\<close>

record apa_device =
  dv_totalLBA :: u32
  dv_partitionMaxSize :: u32
  dv_format :: u32
  dv_status :: int

record 'd hdsk_state = "'d apa_state" +
  dskHddInfo :: "apa_device list"
  hdskStopFlag :: int
  hdskStatus :: int
  hdskProgress :: u32
  hdskEvent :: bool
  dskIOBuffer :: "u32 list"
  dskSim :: hdsk_sim

definition IOBUFFER_SIZE_SECTORS :: nat where "IOBUFFER_SIZE_SECTORS = 256"
definition HDSK_MIN_PART_SIZE :: u32 where "HDSK_MIN_PART_SIZE = 0x00040000"
definition APA_TYPE_HDLFS :: u16 where "APA_TYPE_HDLFS = 0x1337"

definition stopped :: "('d \<Rightarrow> bool) \<Rightarrow> 'd hdsk_state \<Rightarrow> bool" where
  "stopped stop s \<longleftrightarrow> hdskStopFlag s \<noteq> 0 \<or> stop (world s)"

subsection \<open>HDLoader games\<close>

text \<open>
  \<open>hdl_game_info_t\<close> is 256 words: the magic number is word 0, and \<open>part_specs[part].data_start\<close>
  is word \<open>62 + 3 * part\<close>; there are 65 slices.
\<close>

definition HDL_INFO_MAGIC :: u32 where "HDL_INFO_MAGIC = 0xDEADFEED"

definition hdl_info_lba :: "u32 \<Rightarrow> u32" where
  "hdl_info_lba main = main + (0x100000 + 4096) div 512"

definition hdlUpdateGameSliceInfo ::
    "'d ata_env \<Rightarrow> s32 \<Rightarrow> u32 \<Rightarrow> nat \<Rightarrow> u32 \<Rightarrow> u32 \<Rightarrow> 'd hdsk_state \<Rightarrow> (int \<times> 'd hdsk_state) option" where
  "hdlUpdateGameSliceInfo E device main part OldPartStart NewPartStart s =
     (let (r, ws, w) = ata_read E device (hdl_info_lba main) 2 (world s);
          buf = overlay ws (dskIOBuffer s);
          s1 = s\<lparr>world := w, dskIOBuffer := buf\<rparr>
      in if r \<noteq> 0 then Some (r, s1)
         else if buf ! 0 \<noteq> HDL_INFO_MAGIC then Some (- 1, s1)
         else if 65 \<le> part then None
         else (let DataOffset = buf ! (62 + 3 * part) - OldPartStart;
                   buf2 = buf[62 + 3 * part := NewPartStart + DataOffset];
                   (r2, w2) = ata_write E device (hdl_info_lba main) 2 (take 256 buf2) (world s1)
               in Some (r2, s1\<lparr>world := w2, dskIOBuffer := buf2\<rparr>)))"

subsection \<open>The temporary partition\<close>

definition tmp_id32 :: "u8 list" where "tmp_id32 = tmp_id @ replicate 28 0"

partial_function (option) remove_tmp_find ::
    "'d ata_env \<Rightarrow> nat option \<Rightarrow> int \<Rightarrow> 'd hdsk_state \<Rightarrow> ((nat option \<times> int) \<times> 'd hdsk_state) option" where
  "remove_tmp_find E clink result s =
     (case clink of None \<Rightarrow> Some ((None, result), s)
      | Some c \<Rightarrow>
          if h_flags (hdr s c) AND APA_FLAG_SUB = 0 \<and> h_id (hdr s c) = tmp_id32 then Some ((Some c, result), s)
          else do {
            ((c2, e), s2) \<leftarrow> apaGetNextHeader E c result s;
            remove_tmp_find E c2 e s2
          })"

text \<open>Deleting the sub-partitions, the last one first; a failed \<open>apaDelete\<close> ends the loop.\<close>

fun remove_tmp_subs :: "'d ata_env \<Rightarrow> s32 \<Rightarrow> nat \<Rightarrow> nat list \<Rightarrow> int \<Rightarrow> 'd hdsk_state \<Rightarrow> (int \<times> 'd hdsk_state) option" where
  "remove_tmp_subs E device clink [] result s = Some (result, s)"
| "remove_tmp_subs E device clink (i # is) result s =
     (if APA_MAXSUB \<le> i then None
      else (case apaCacheGetHeader E device (sub_start (h_subs (hdr s clink) ! i)) 0 s of
              ((None, e), s1) \<Rightarrow> remove_tmp_subs E device clink is e s1
            | ((Some c, e), s1) \<Rightarrow> do {
                (r, s2) \<leftarrow> apaDelete E c s1;
                if r \<noteq> 0 then Some (r, s2) else remove_tmp_subs E device clink is r s2
              }))"

definition hdskRemoveTmp :: "'d ata_env \<Rightarrow> s32 \<Rightarrow> 'd hdsk_state \<Rightarrow> (int \<times> 'd hdsk_state) option" where
  "hdskRemoveTmp E device s =
     (let ((c0, e0), s0) = apaCacheGetHeader E device 0 0 s in do {
        ((c, result), s1) \<leftarrow> remove_tmp_find E c0 e0 s0;
        (if result \<noteq> 0 then Some (result, s1)
         else case c of None \<Rightarrow> Some (result, s1)
         | Some clink \<Rightarrow> do {
             let nsub = unat (h_nsub (hdr s1 clink));
             let s2 = mark_dirty clink (set_header clink (\<lambda>h. h\<lparr>h_nsub := 0\<rparr>) s1);
             let start = h_start (hdr s2 clink) + 0x2000;
             (r3, s3) \<leftarrow> apaCacheFlushAllDirty E device s2;
             (result2, s4) \<leftarrow> remove_tmp_subs E device clink (rev [0..<nsub]) result s3;
             (r5, s5) \<leftarrow> apaDelete E clink s4;
             let (c6, s6) = apaCacheAlloc s5;
             k \<leftarrow> c6;
             let s7 = set_header k (\<lambda>_. zero_header) s6;
             let (r8, w) = ata_write E device start 2 (header_words (hdr s7 k)) (world s7);
             Some (result2, apaCacheFree (Some k) (s7\<lparr>world := w\<rparr>))
           })
      })"

subsection \<open>Searching\<close>

partial_function (option) find_empty_part ::
    "'d ata_env \<Rightarrow> ('d \<Rightarrow> bool) \<Rightarrow> u32 \<Rightarrow> nat option \<Rightarrow> int \<Rightarrow> 'd hdsk_state \<Rightarrow> (nat option \<times> 'd hdsk_state) option" where
  "find_empty_part E stop len clink result s =
     (case clink of None \<Rightarrow> Some (None, s)
      | Some c \<Rightarrow>
          if h_length (hdr s c) \<noteq> len \<or> h_type (hdr s c) \<noteq> APA_TYPE_FREE
          then do {
            ((c2, e), s2) \<leftarrow> apaGetNextHeader E c result s;
            if stopped stop s2 then Some (None, apaCacheFree c2 s2) else find_empty_part E stop len c2 e s2
          }
          else Some (Some c, s))"

definition hdskFindEmptyPartition ::
    "'d ata_env \<Rightarrow> ('d \<Rightarrow> bool) \<Rightarrow> s32 \<Rightarrow> u32 \<Rightarrow> 'd hdsk_state \<Rightarrow> (nat option \<times> 'd hdsk_state) option" where
  "hdskFindEmptyPartition E stop device len s =
     (let ((c, e), s1) = apaCacheGetHeader E device 0 0 s in find_empty_part E stop len c e s1)"

definition hdskIsPartitionOfSize :: "'d ata_env \<Rightarrow> s32 \<Rightarrow> u32 \<Rightarrow> u32 \<Rightarrow> 'd hdsk_state \<Rightarrow> int \<times> 'd hdsk_state" where
  "hdskIsPartitionOfSize E device sector len s =
     (case apaCacheGetHeader E device sector 0 s of
        ((None, e), s1) \<Rightarrow> (1, s1)
      | ((Some c, e), s1) \<Rightarrow>
          (if h_type (hdr s1 c) = APA_TYPE_FREE then (if 0 < (h_length (hdr s1 c) XOR len) then 1 else 0) else 1,
           apaCacheFree (Some c) s1))"

definition hdskGetPartitionPrev :: "'d ata_env \<Rightarrow> s32 \<Rightarrow> 'd hdsk_state \<Rightarrow> u32 \<times> 'd hdsk_state" where
  "hdskGetPartitionPrev E device s =
     (case apaCacheGetHeader E device 0 0 s of
        ((None, e), s1) \<Rightarrow> (0, s1)
      | ((Some c, e), s1) \<Rightarrow> let s2 = apaCacheFree (Some c) s1 in (h_prev (hdr s2 c), s2))"

text \<open>
  The body of \<open>hdskFindLastUsedPartition\<close>'s loop on a header: does the search end here?
  A stop leaves the loop with the entry already returned.
\<close>

definition last_used_hit ::
    "'d ata_env \<Rightarrow> s32 \<Rightarrow> u32 \<Rightarrow> int \<Rightarrow> nat \<Rightarrow> 'd hdsk_state \<Rightarrow> (bool \<times> 'd hdsk_state) option" where
  "last_used_hit E device len mode c s =
     (let h = hdr s c; DoubleSize = len * 2 in
      if \<not> (h_length h = len \<and> h_type h \<noteq> APA_TYPE_FREE) then Some (False, s)
      else if mode = 0 then Some (True, s)
      else if DoubleSize = 0 then None
      else if h_start h mod DoubleSize = 0
      then if h_next h = 0 then Some (True, s)
           else let (r, s1) = hdskIsPartitionOfSize E device (h_next h) len s in Some (r = 0, s1)
      else let (r, s1) = hdskIsPartitionOfSize E device (h_prev h) len s in Some (r = 0, s1))"

partial_function (option) last_used_part ::
    "'d ata_env \<Rightarrow> ('d \<Rightarrow> bool) \<Rightarrow> s32 \<Rightarrow> u32 \<Rightarrow> u32 \<Rightarrow> int \<Rightarrow> u32 \<Rightarrow> 'd hdsk_state \<Rightarrow> (nat option \<times> 'd hdsk_state) option" where
  "last_used_part E stop device len start mode previous s =
     (if start < previous
      then (case apaCacheGetHeader E device previous 0 s of
              ((None, e), s1) \<Rightarrow> Some (None, s1)
            | ((Some c, e), s1) \<Rightarrow> do {
                (hit, s2) \<leftarrow> last_used_hit E device len mode c s1;
                if hit then Some (Some c, s2)
                else do {
                  let previous2 = h_prev (hdr s2 c);
                  let s3 = apaCacheFree (Some c) s2;
                  if stopped stop s3 then Some (Some c, s3)
                  else last_used_part E stop device len start mode previous2 s3
                }
              })
      else Some (None, s))"

definition hdskFindLastUsedPartition ::
    "'d ata_env \<Rightarrow> ('d \<Rightarrow> bool) \<Rightarrow> s32 \<Rightarrow> u32 \<Rightarrow> u32 \<Rightarrow> int \<Rightarrow> 'd hdsk_state \<Rightarrow> (nat option \<times> 'd hdsk_state) option" where
  "hdskFindLastUsedPartition E stop device len start mode s =
     (let (previous, s1) = hdskGetPartitionPrev E device s in last_used_part E stop device len start mode previous s1)"

text \<open>The used partitions behind a header; a free one ends the loop, and its entry stays taken.\<close>

partial_function (option) part_span ::
    "'d ata_env \<Rightarrow> s32 \<Rightarrow> u32 \<Rightarrow> u32 \<Rightarrow> u32 \<Rightarrow> 'd hdsk_state \<Rightarrow> (u32 \<times> u32 \<times> 'd hdsk_state) option" where
  "part_span E device MinSize nxt BlockSize s =
     (if BlockSize < MinSize \<and> nxt \<noteq> 0
      then (case apaCacheGetHeader E device nxt 0 s of
              ((None, e), s1) \<Rightarrow> Some (nxt, BlockSize, s1)
            | ((Some c, e), s1) \<Rightarrow>
                if h_type (hdr s1 c) = APA_TYPE_FREE then Some (nxt, BlockSize, s1)
                else part_span E device MinSize (h_next (hdr s1 c)) (BlockSize + h_length (hdr s1 c)) (apaCacheFree (Some c) s1))
      else Some (nxt, BlockSize, s))"

definition hdskFindPartitionOfSize ::
    "'d ata_env \<Rightarrow> s32 \<Rightarrow> nat \<Rightarrow> u32 \<Rightarrow> int \<Rightarrow> 'd hdsk_state \<Rightarrow> (int \<times> 'd hdsk_state) option" where
  "hdskFindPartitionOfSize E device start MinSize mode s = do {
     (nxt, BlockSize, s1) \<leftarrow> part_span E device MinSize (h_next (hdr s start)) (h_length (hdr s start)) s;
     if BlockSize \<noteq> MinSize then Some (0, s1)
     else if mode = 0 then Some (1, s1)
     else if MinSize * 2 = 0 then None
     else if h_start (hdr s1 start) mod (MinSize * 2) \<noteq> 0
     then let (r, s2) = hdskIsPartitionOfSize E device (h_prev (hdr s1 start)) MinSize s1 in Some (if r \<noteq> 0 then 0 else 1, s2)
     else if nxt \<noteq> 0
     then let (r, s2) = hdskIsPartitionOfSize E device nxt MinSize s1 in Some (if r \<noteq> 0 then 0 else 1, s2)
     else Some (0, s1)
   }"

partial_function (option) last_used_block ::
    "'d ata_env \<Rightarrow> ('d \<Rightarrow> bool) \<Rightarrow> s32 \<Rightarrow> u32 \<Rightarrow> u32 \<Rightarrow> int \<Rightarrow> u32 \<Rightarrow> 'd hdsk_state \<Rightarrow> (nat option \<times> 'd hdsk_state) option" where
  "last_used_block E stop device MinSize sector mode NextStart s =
     (if sector < NextStart
      then (case apaCacheGetHeader E device NextStart 0 s of
              ((None, e), s1) \<Rightarrow> Some (None, s1)
            | ((Some c, e), s1) \<Rightarrow>
                if MinSize = 0 then None
                else do {
                  (hit, s2) \<leftarrow> (if h_start (hdr s1 c) mod MinSize \<noteq> 0 \<and> h_length (hdr s1 c) < MinSize \<and>
                        h_type (hdr s1 c) \<noteq> APA_TYPE_FREE
                      then hdskFindPartitionOfSize E device c MinSize mode s1 else Some (0, s1));
                  if hit \<noteq> 0 then Some (Some c, s2)
                  else do {
                    let NextStart2 = h_prev (hdr s2 c);
                    let s3 = apaCacheFree (Some c) s2;
                    if stopped stop s3 then Some (Some c, s3)
                    else last_used_block E stop device MinSize sector mode NextStart2 s3
                  }
                })
      else Some (None, s))"

definition hdskFindLastUsedBlock ::
    "'d ata_env \<Rightarrow> ('d \<Rightarrow> bool) \<Rightarrow> s32 \<Rightarrow> u32 \<Rightarrow> u32 \<Rightarrow> int \<Rightarrow> 'd hdsk_state \<Rightarrow> (nat option \<times> 'd hdsk_state) option" where
  "hdskFindLastUsedBlock E stop device MinSize start mode s =
     (let (NextStart, s1) = hdskGetPartitionPrev E device s in
      if NextStart = 0 then Some (None, s1) else last_used_block E stop device MinSize start mode NextStart s1)"

subsection \<open>Moving a partition\<close>

text \<open>
  One transfer of \<open>n\<close> sectors from \<open>src\<close> to \<open>dst\<close> through the buffer; the result is
  \<open>-EIO\<close> if either half fails.
\<close>

definition copy_sectors ::
    "'d ata_env \<Rightarrow> s32 \<Rightarrow> u32 \<Rightarrow> u32 \<Rightarrow> nat \<Rightarrow> 'd hdsk_state \<Rightarrow> int \<times> 'd hdsk_state" where
  "copy_sectors E device src dst n s =
     (let (r, ws, w) = ata_read E device src (of_nat n) (world s);
          s1 = s\<lparr>world := w, dskIOBuffer := overlay ws (dskIOBuffer s)\<rparr>
      in if r \<noteq> 0 then (- EIO, s1)
         else let (r2, w2) = ata_write E device dst (of_nat n) (take (128 * n) (dskIOBuffer s1)) (world s1)
              in if r2 \<noteq> 0 then (- EIO, s1\<lparr>world := w2\<rparr>)
                 else (0, s1\<lparr>world := w2, hdskProgress := hdskProgress s1 + of_nat IOBUFFER_SIZE_SECTORS\<rparr>))"

fun copy_blocks ::
    "'d ata_env \<Rightarrow> ('d \<Rightarrow> bool) \<Rightarrow> s32 \<Rightarrow> u32 \<Rightarrow> u32 \<Rightarrow> nat list \<Rightarrow> 'd hdsk_state \<Rightarrow> int \<times> 'd hdsk_state" where
  "copy_blocks E stop device src dst [] s = (0, s)"
| "copy_blocks E stop device src dst (i # is) s =
     (let off = of_nat (i * IOBUFFER_SIZE_SECTORS);
          (r, s1) = copy_sectors E device (src + off) (dst + off) IOBUFFER_SIZE_SECTORS s
      in if r \<noteq> 0 then (r, s1)
         else if stopped stop s1 then (0, s1)
         else copy_blocks E stop device src dst is s1)"

text \<open>The first block is copied without the header's two sectors, to the sectors behind them.\<close>

definition CopyPartition ::
    "'d ata_env \<Rightarrow> ('d \<Rightarrow> bool) \<Rightarrow> s32 \<Rightarrow> nat \<Rightarrow> nat \<Rightarrow> 'd hdsk_state \<Rightarrow> int \<times> 'd hdsk_state" where
  "CopyPartition E stop device dest start s =
     (let blocks = unat (h_length (hdr s dest)) div IOBUFFER_SIZE_SECTORS;
          src = h_start (hdr s start); dst = h_start (hdr s dest);
          (r, s1) = copy_sectors E device (src + 2) (dst + 2) (IOBUFFER_SIZE_SECTORS - 2) s
      in if r \<noteq> 0 then (r, s1) else copy_blocks E stop device src dst [1..<blocks] s1)"

text \<open>The exchange of the two headers in \<open>SwapPartition\<close>.\<close>

definition swap_headers :: "nat \<Rightarrow> nat \<Rightarrow> 'd hdsk_state \<Rightarrow> 'd hdsk_state" where
  "swap_headers dest start s =
     (let d = hdr s dest; h = hdr s start;
          s1 = set_header dest (\<lambda>_. h\<lparr>h_start := h_start d, h_next := h_next d, h_prev := h_prev d\<rparr>) s
      in set_header start (\<lambda>_. zero_header\<lparr>h_magic := APA_MAGIC, h_start := h_start h, h_next := h_next h, h_prev := h_prev h,
             h_length := h_length (hdr s1 dest), h_modver := APA_MODVER, h_type := h_type (hdr s1 dest), h_id := tmp_id32\<rparr>) s1)"

text \<open>The entry of the main partition's list that names the moved sub-partition.\<close>

function swap_sub_index :: "apa_sub list \<Rightarrow> nat \<Rightarrow> u32 \<Rightarrow> nat \<Rightarrow> nat option" where
  "swap_sub_index subs n v i =
     (if \<not> i < n then Some i
      else if APA_MAXSUB \<le> i then None
      else if v = sub_start (subs ! i) then Some i else swap_sub_index subs n v (i + 1))"
  by pat_completeness auto
termination by (relation "measure (\<lambda>(subs, n, v, i). n - i)") auto

declare swap_sub_index.simps [simp del]

text \<open>The headers of the sub-partitions; when one cannot be read, those before it are returned.\<close>

fun swap_get_subs ::
    "'d ata_env \<Rightarrow> s32 \<Rightarrow> nat \<Rightarrow> nat list \<Rightarrow> nat list \<Rightarrow> int \<Rightarrow> 'd hdsk_state \<Rightarrow> (nat list option \<times> int \<times> 'd hdsk_state) option" where
  "swap_get_subs E device dest [] got result s = Some (Some got, result, s)"
| "swap_get_subs E device dest (i # is) got result s =
     (if APA_MAXSUB \<le> i then None
      else (case apaCacheGetHeader E device (sub_start (h_subs (hdr s dest) ! i)) 0 s of
              ((None, e), s1) \<Rightarrow> Some (None, e, fold (\<lambda>c. apaCacheFree (Some c)) (rev got) s1)
            | ((Some c, e), s1) \<Rightarrow> swap_get_subs E device dest is (got @ [c]) e s1))"

definition swap_flush :: "'d ata_env \<Rightarrow> s32 \<Rightarrow> nat \<Rightarrow> nat \<Rightarrow> nat list \<Rightarrow> 'd hdsk_state \<Rightarrow> 'd hdsk_state option" where
  "swap_flush E device dest start clinks s = do {
     (r, s1) \<leftarrow> apaCacheFlushAllDirty E device (mark_dirty start (mark_dirty dest s));
     Some (fold (\<lambda>c. apaCacheFree (Some c)) clinks s1)
   }"

definition SwapPartition ::
    "'d ata_env \<Rightarrow> int \<Rightarrow> s32 \<Rightarrow> nat \<Rightarrow> nat \<Rightarrow> 'd hdsk_state \<Rightarrow> (int \<times> 'd hdsk_state) option" where
  "SwapPartition E uninit device dest start s0 =
     (let s = swap_headers dest start s0 in
      if h_flags (hdr s dest) AND APA_FLAG_SUB \<noteq> 0
      then (case apaCacheGetHeader E device (h_main (hdr s dest)) 0 s of
              ((None, e), s1) \<Rightarrow> Some (e, s1)
            | ((Some c, e), s1) \<Rightarrow> do {
                i \<leftarrow> swap_sub_index (h_subs (hdr s1 c)) (unat (h_nsub (hdr s1 c))) (h_start (hdr s1 start)) 0;
                if i = unat (h_nsub (hdr s1 c)) then Some (- 1, apaCacheFree (Some c) s1)
                else do {
                  let s2 = mark_dirty c (set_header c (\<lambda>h. h\<lparr>h_subs := (h_subs h)[i := (h_subs h ! i)\<lparr>sub_start := h_start (hdr s1 dest)\<rparr>]\<rparr>) s1);
                  s3 \<leftarrow> (if h_type (hdr s2 dest) = APA_TYPE_HDLFS
                        then map_option snd (hdlUpdateGameSliceInfo E device (h_main (hdr s2 dest)) i (h_start (hdr s2 start)) (h_start (hdr s2 dest)) s2)
                        else Some s2);
                  map_option (Pair e) (swap_flush E device dest start [c] s3)
                }
              })
      else do {
        (cs, result, s1) \<leftarrow> swap_get_subs E device dest [0..<unat (h_nsub (hdr s dest))] [] uninit s;
        (case cs of None \<Rightarrow> Some (result, s1)
         | Some clinks \<Rightarrow> do {
             let s2 = fold (\<lambda>c t. mark_dirty c (set_header c (\<lambda>h. h\<lparr>h_main := h_start (hdr t dest)\<rparr>) t)) clinks s1;
             s3 \<leftarrow> (if h_type (hdr s2 dest) = APA_TYPE_HDLFS
                   then map_option snd (hdlUpdateGameSliceInfo E device (h_start (hdr s2 dest)) 0 (h_start (hdr s2 start)) (h_start (hdr s2 dest)) s2)
                   else Some s2);
             map_option (Pair result) (swap_flush E device dest start clinks s3)
           })
      })"

definition MovePartition ::
    "'d ata_env \<Rightarrow> ('d \<Rightarrow> bool) \<Rightarrow> int \<Rightarrow> s32 \<Rightarrow> nat \<Rightarrow> nat \<Rightarrow> 'd hdsk_state \<Rightarrow> (int \<times> 'd hdsk_state) option" where
  "MovePartition E stop uninit device dest start s =
     (if h_type (hdr s dest) \<noteq> APA_TYPE_FREE then Some (- 1, s)
      else if h_length (hdr s dest) \<noteq> h_length (hdr s start) then Some (- 1, s)
      else do {
        (r, s1) \<leftarrow> hdskRemoveTmp E device s;
        if r \<noteq> 0 then Some (r, s1)
        else let (r2, s2) = CopyPartition E stop device dest start s1 in
          if r2 \<noteq> 0 then Some (r2, s2)
          else if stopped stop s2 then Some (r2, s2)
          else map_option (\<lambda>(x, s3). (r2, s3)) (SwapPartition E uninit device dest start s2)
      })"

subsection \<open>Moving a block of partitions\<close>

text \<open>When the header behind the block cannot be read, the loop tries again.\<close>

partial_function (option) SplitEmptyPartition ::
    "'d ata_env \<Rightarrow> s32 \<Rightarrow> nat \<Rightarrow> u32 \<Rightarrow> int \<Rightarrow> 'd hdsk_state \<Rightarrow> (int \<times> 'd hdsk_state) option" where
  "SplitEmptyPartition E device part len result s =
     (if h_length (hdr s part) = len then Some (result, s)
      else (case apaCacheGetHeader E device (h_next (hdr s part)) 0 s of
              ((None, e), s1) \<Rightarrow> SplitEmptyPartition E device part len e s1
            | ((Some em, e), s1) \<Rightarrow> do {
                let s2 = set_header part (\<lambda>h. h\<lparr>h_length := h_length h div 2\<rparr>) s1;
                let h = hdr s2 part;
                let (res, s3) = apaRemovePartition E device (h_start h + h_length h) (h_next h) (h_start h) (h_length h) s2;
                c \<leftarrow> res;
                let s4 = mark_dirty part (set_header part (\<lambda>g. g\<lparr>h_next := h_start (hdr s3 c)\<rparr>) s3);
                let s5 = mark_dirty em (set_header em (\<lambda>g. g\<lparr>h_prev := h_start (hdr s4 c)\<rparr>) s4);
                (r, s6) \<leftarrow> apaCacheFlushAllDirty E device s5;
                SplitEmptyPartition E device part len e (apaCacheFree (Some em) (apaCacheFree (Some c) s6))
              }))"

text \<open>The loop of \<open>MovePartitionsBlock\<close>, ending with the two entries to return (NULL is possible).\<close>

partial_function (option) move_block ::
    "'d ata_env \<Rightarrow> ('d \<Rightarrow> bool) \<Rightarrow> int \<Rightarrow> s32 \<Rightarrow> nat \<Rightarrow> nat \<Rightarrow> u32 \<Rightarrow> 'd hdsk_state \<Rightarrow>
      (int \<times> nat option \<times> nat option \<times> 'd hdsk_state) option" where
  "move_block E stop uninit device dest start remaining s = do {
     (r, s1) \<leftarrow> SplitEmptyPartition E device dest (h_length (hdr s start)) uninit s;
     if r \<noteq> 0 then Some (r, Some dest, Some start, s1)
     else do {
       (r2, s2) \<leftarrow> MovePartition E stop uninit device dest start s1;
       if r2 \<noteq> 0 then Some (r2, Some dest, Some start, s2)
       else do {
         let remaining2 = remaining - h_length (hdr s2 dest);
         if stopped stop s2 \<or> remaining2 = 0 then Some (r2, Some dest, Some start, s2)
         else do {
           ((d, e), s3) \<leftarrow> apaGetNextHeader E dest 0 s2;
           (case d of None \<Rightarrow> Some (r2, None, Some start, s3)
            | Some dest2 \<Rightarrow> do {
                ((c, e2), s4) \<leftarrow> apaGetNextHeader E start e s3;
                (case c of None \<Rightarrow> Some (r2, Some dest2, None, s4)
                 | Some start2 \<Rightarrow> move_block E stop uninit device dest2 start2 remaining2 s4)
              })
         }
       }
     }
   }"

definition MovePartitionsBlock ::
    "'d ata_env \<Rightarrow> ('d \<Rightarrow> bool) \<Rightarrow> int \<Rightarrow> s32 \<Rightarrow> nat \<Rightarrow> nat \<Rightarrow> 'd hdsk_state \<Rightarrow> (int \<times> 'd hdsk_state) option" where
  "MovePartitionsBlock E stop uninit device dest start s = do {
     (r, d, c, s1) \<leftarrow> move_block E stop uninit device dest start (h_length (hdr s dest)) s;
     Some (r, apaCacheFree c (apaCacheFree d s1))
   }"

subsection \<open>The thread\<close>

text \<open>What to move for a free block of \<open>PartSize\<close> sectors at \<open>start\<close>: the flag tells a block of partitions.\<close>

definition thread_choose ::
    "'d ata_env \<Rightarrow> ('d \<Rightarrow> bool) \<Rightarrow> s32 \<Rightarrow> u32 \<Rightarrow> u32 \<Rightarrow> 'd hdsk_state \<Rightarrow> ((bool \<times> nat) option \<times> 'd hdsk_state) option" where
  "thread_choose E stop device PartSize start s = do {
     (c1, s1) \<leftarrow> hdskFindLastUsedPartition E stop device PartSize start 1 s;
     (case c1 of Some c \<Rightarrow> Some (Some (False, c), s1)
      | None \<Rightarrow> do {
          (c2, s2) \<leftarrow> (if HDSK_MIN_PART_SIZE < PartSize then hdskFindLastUsedBlock E stop device PartSize start 1 s1 else Some (None, s1));
          (case c2 of Some c \<Rightarrow> Some (Some (True, c), s2)
           | None \<Rightarrow> do {
               (c3, s3) \<leftarrow> hdskFindLastUsedPartition E stop device PartSize start 0 s2;
               (case c3 of Some c \<Rightarrow> Some (Some (False, c), s3)
                | None \<Rightarrow> do {
                    (c4, s4) \<leftarrow> (if HDSK_MIN_PART_SIZE < PartSize then hdskFindLastUsedBlock E stop device PartSize start 0 s3 else Some (None, s3));
                    Some (map_option (Pair True) c4, s4)
                  })
             })
        })
   }"

text \<open>The inner loop for one size; the result is false at \<open>goto hdsk_thread_end\<close>.\<close>

partial_function (option) thread_size ::
    "'d ata_env \<Rightarrow> ('d \<Rightarrow> bool) \<Rightarrow> int \<Rightarrow> s32 \<Rightarrow> u32 \<Rightarrow> 'd hdsk_state \<Rightarrow> (bool \<times> 'd hdsk_state) option" where
  "thread_size E stop uninit device PartSize s = do {
     (r, s0) \<leftarrow> hdskRemoveTmp E device s;
     let s1 = s0\<lparr>hdskStatus := r\<rparr>;
     if r < 0 then Some (True, s1)
     else do {
       (c, s2) \<leftarrow> hdskFindEmptyPartition E stop device PartSize s1;
       (case c of None \<Rightarrow> Some (True, s2)
        | Some clink \<Rightarrow> do {
            (m, s3) \<leftarrow> thread_choose E stop device PartSize (h_start (hdr s2 clink)) s2;
            (case m of None \<Rightarrow> Some (True, apaCacheFree (Some clink) s3)
             | Some x \<Rightarrow> (case x of (blk, clink2) \<Rightarrow>
                 if blk
                 then do {
                   (r4, s4) \<leftarrow> MovePartitionsBlock E stop uninit device clink clink2 s3;
                   let s5 = s4\<lparr>hdskStatus := r4\<rparr>;
                   if r4 \<noteq> 0 then Some (False, s5)
                   else thread_size E stop uninit device PartSize (apaCacheFree (Some clink) s5)
                 }
                 else do {
                   (r4, s4) \<leftarrow> MovePartition E stop uninit device clink clink2 s3;
                   let s5 = apaCacheFree (Some clink2) (s4\<lparr>hdskStatus := r4\<rparr>);
                   if r4 \<noteq> 0 then Some (False, apaCacheFree (Some clink) s5)
                   else thread_size E stop uninit device PartSize (apaCacheFree (Some clink) s5)
                 }))
          })
     }
   }"

partial_function (option) thread_sizes ::
    "'d ata_env \<Rightarrow> ('d \<Rightarrow> bool) \<Rightarrow> int \<Rightarrow> s32 \<Rightarrow> u32 \<Rightarrow> u32 \<Rightarrow> 'd hdsk_state \<Rightarrow> 'd hdsk_state option" where
  "thread_sizes E stop uninit device maxSize PartSize s =
     (if PartSize < maxSize
      then do {
        (go, s1) \<leftarrow> thread_size E stop uninit device PartSize s;
        if \<not> go \<or> hdskStatus s1 \<noteq> 0 \<or> stopped stop s1 then Some s1
        else thread_sizes E stop uninit device maxSize (PartSize * 2) s1
      }
      else Some s)"

definition HdskThread :: "'d ata_env \<Rightarrow> ('d \<Rightarrow> bool) \<Rightarrow> int \<Rightarrow> nat \<Rightarrow> 'd hdsk_state \<Rightarrow> 'd hdsk_state option" where
  "HdskThread E stop uninit device s = (let d = of_nat device in do {
     (r, s0) \<leftarrow> hdskRemoveTmp E d (s\<lparr>hdskProgress := 0, hdskStatus := 0, hdskStopFlag := 0\<rparr>);
     let s1 = s0\<lparr>hdskStatus := r\<rparr>;
     s2 \<leftarrow> (if r < 0 then Some s1
           else thread_sizes E stop uninit d (dv_partitionMaxSize (dskHddInfo s1 ! device)) HDSK_MIN_PART_SIZE s1);
     (r3, s3) \<leftarrow> hdskRemoveTmp E d s2;
     Some (s3\<lparr>hdskEvent := True\<rparr>)
   })"

subsection \<open>The estimate\<close>

partial_function (option) bitmap_init_loop ::
    "'d ata_env \<Rightarrow> nat option \<Rightarrow> int \<Rightarrow> hdsk_sim \<Rightarrow> 'd hdsk_state \<Rightarrow> (int \<times> hdsk_sim \<times> 'd hdsk_state) option" where
  "bitmap_init_loop E clink result m s =
     (case clink of None \<Rightarrow> Some (result, m, s)
      | Some c \<Rightarrow>
          if HDSK_BITMAP_SIZE \<le> BitmapUsed m + 1 then None
          else do {
            let p = Some (BitmapUsed m + 1);
            let m1 = upd_node p (\<lambda>n. n\<lparr>b_start := h_start (hdr s c), b_length := h_length (hdr s c), b_type := ucast (h_type (hdr s c))\<rparr>) m;
            m2 \<leftarrow> simLink (b_prev (sim_bitmap m1 bm_head)) p m1;
            ((c2, e), s2) \<leftarrow> apaGetNextHeader E c result s;
            bitmap_init_loop E c2 e (m2\<lparr>BitmapUsed := BitmapUsed m2 + 1\<rparr>) s2
          })"

definition hdskBitmapInit :: "'d ata_env \<Rightarrow> s32 \<Rightarrow> 'd hdsk_state \<Rightarrow> (int \<times> 'd hdsk_state) option" where
  "hdskBitmapInit E device s =
     (let ((c, e), s1) = apaCacheGetHeader E device 0 0 s;
          m = (dskSim s1)\<lparr>sim_bitmap := (\<lambda>_. zero_node)(bm_head := zero_node\<lparr>b_next := bm_head, b_prev := bm_head\<rparr>), BitmapUsed := 0\<rparr>
      in do {
        (r, m2, s2) \<leftarrow> bitmap_init_loop E c e m s1;
        Some (r, s2\<lparr>dskSim := m2\<rparr>)
      })"

text \<open>The choice of what to move, as \<open>thread_choose\<close> makes it; a pointer and whether it starts a block.\<close>

definition sim_choose :: "u32 \<Rightarrow> u32 \<Rightarrow> hdsk_sim \<Rightarrow> (bool \<times> ptr) option" where
  "sim_choose PartSize start m = do {
     p1 \<leftarrow> hdskSimFindLastUsedPartition PartSize start 1 m;
     if p1 \<noteq> None then Some (False, p1)
     else do {
       p2 \<leftarrow> (if HDSK_MIN_PART_SIZE < PartSize then hdskSimFindLastUsedBlock PartSize start 1 m else Some None);
       if p2 \<noteq> None then Some (False, p2)
       else do {
         p3 \<leftarrow> hdskSimFindLastUsedPartition PartSize start 0 m;
         if p3 \<noteq> None then Some (False, p3)
         else do {
           p4 \<leftarrow> (if HDSK_MIN_PART_SIZE < PartSize then hdskSimFindLastUsedBlock PartSize start 0 m else Some None);
           Some (True, p4)
         }
       }
     }
   }"

partial_function (option) stat_size :: "u32 \<Rightarrow> hdsk_sim \<Rightarrow> hdsk_sim option" where
  "stat_size PartSize m = do {
     p \<leftarrow> hdskSimFindEmptyPartition PartSize m;
     if p = None then Some m
     else do {
       (blk, q) \<leftarrow> sim_choose PartSize (b_start (sim_bitmap m p)) m;
       if q = None then Some m
       else do {
         m2 \<leftarrow> (if blk then hdskSimMovePartitionsBlock p q m else hdskSimMovePartition p q m);
         stat_size PartSize m2
       }
     }
   }"

partial_function (option) stat_sizes :: "u32 \<Rightarrow> u32 \<Rightarrow> hdsk_sim \<Rightarrow> hdsk_sim option" where
  "stat_sizes maxSize PartSize m =
     (if PartSize < maxSize then do { m2 \<leftarrow> stat_size PartSize m; stat_sizes maxSize (PartSize * 2) m2 } else Some m)"

definition hdskGetStat ::
    "'d ata_env \<Rightarrow> nat \<Rightarrow> hdskStat \<Rightarrow> 'd hdsk_state \<Rightarrow> (int \<times> hdskStat \<times> 'd hdsk_state) option" where
  "hdskGetStat E device buf s =
     (let dev = dskHddInfo s ! device in do {
        (r, s1) \<leftarrow> hdskBitmapInit E (of_nat device) (s\<lparr>dskSim := (dskSim s)\<lparr>TotalCopied := 0\<rparr>\<rparr>);
        if r \<noteq> 0 then Some (r, buf, s1)
        else do {
          b1 \<leftarrow> hdskSimGetFreeSectors (dv_totalLBA dev) (dv_partitionMaxSize dev) buf (dskSim s1);
          m \<leftarrow> stat_sizes (dv_partitionMaxSize dev) HDSK_MIN_PART_SIZE (dskSim s1);
          b2 \<leftarrow> hdskSimGetFreeSectors (dv_totalLBA dev) (dv_partitionMaxSize dev) b1 m;
          Some (r, b2\<lparr>st_total := TotalCopied m\<rparr>, s1\<lparr>dskSim := m\<rparr>)
        }
      })"

subsection \<open>The devctl interface\<close>

datatype hdsk_devctl = HDSK_GET_FREE | HDSK_GET_HDD_STAT | HDSK_START | HDSK_WAIT | HDSK_POLL | HDSK_GET_STATUS
  | HDSK_STOP | HDSK_GET_PROGRESS | HDSK_OTHER

text \<open>The results of the kernel's calls \<open>StartThread\<close>, \<open>WaitEventFlag\<close>, \<open>PollEventFlag\<close>, and the kernel's error code.\<close>

record kernel_calls =
  k_start :: int
  k_wait :: int
  k_poll :: int
  KE_EVF_COND :: int

definition HdskDevctl ::
    "'d ata_env \<Rightarrow> kernel_calls \<Rightarrow> nat \<Rightarrow> hdsk_devctl \<Rightarrow> hdskStat \<Rightarrow> 'd hdsk_state \<Rightarrow> (int \<times> hdskStat \<times> 'd hdsk_state) option" where
  "HdskDevctl E k unit cmd buf s =
     (let dev = dskHddInfo s ! unit in
      if dv_status dev \<noteq> 0 then Some (- ENXIO, buf, s)
      else (case cmd of
          HDSK_GET_FREE \<Rightarrow> do {
            ((r, f), s1) \<leftarrow> apaGetFreeSectors E (of_nat unit) (dv_totalLBA dev) (dv_partitionMaxSize dev) s;
            Some (r, buf\<lparr>st_free := f\<rparr>, s1)
          }
        | HDSK_GET_HDD_STAT \<Rightarrow> do {
            (r, s1) \<leftarrow> hdskRemoveTmp E (of_nat unit) s;
            if r = 0 then hdskGetStat E unit buf s1 else Some (r, buf, s1)
          }
        | HDSK_START \<Rightarrow> Some (k_start k, buf, s)
        | HDSK_WAIT \<Rightarrow> Some (k_wait k, buf, s\<lparr>hdskEvent := False\<rparr>)
        | HDSK_POLL \<Rightarrow> Some (if k_poll k = KE_EVF_COND k then 1 else k_poll k, buf,
            if k_poll k = KE_EVF_COND k then s else s\<lparr>hdskEvent := False\<rparr>)
        | HDSK_GET_STATUS \<Rightarrow> Some (hdskStatus s, buf, s)
        | HDSK_STOP \<Rightarrow> Some (- EINVAL, buf, s\<lparr>hdskStopFlag := 1\<rparr>)
        | HDSK_GET_PROGRESS \<Rightarrow> Some (sint (hdskProgress s), buf, s)
        | HDSK_OTHER \<Rightarrow> Some (- EINVAL, buf, s)))"

end
