(* ===== verification/HdskSimProps.thy ===== *)
theory HdskSimProps
  imports HdskSim
begin

text \<open>
  The simulated partition list as a list of blocks: what merging, splitting and removing do to
  it. The nodes are threaded as in the APA cache, so the ring lemmas are those of
  \<open>node_ring\<close>, interpreted on \<open>hdskBitmap\<close>.
\<close>

subsection \<open>The list\<close>

definition snext :: "hdsk_sim \<Rightarrow> ptr \<Rightarrow> ptr" where
  "snext s p = b_next (sim_bitmap s p)"

definition sprev :: "hdsk_sim \<Rightarrow> ptr \<Rightarrow> ptr" where
  "sprev s p = b_prev (sim_bitmap s p)"

interpretation sim_ring: node_ring bm_head snext sprev bm_link bm_unlink
  by unfold_locales (auto simp: fun_eq_iff snext_def sprev_def bm_link_def bm_unlink_def upd_node_def Let_def)

definition block :: "hdsk_sim \<Rightarrow> nat \<Rightarrow> u32 \<times> u32 \<times> u32" where
  "block s i = (let n = sim_bitmap s (Some i) in (b_start n, b_length n, b_type n))"

lemma block_len: "fst (snd (block s i)) = b_length (sim_bitmap s (Some i))"
  by (simp add: block_def Let_def)

text \<open>\<open>ys\<close> are the nodes of the list, in order; all other nodes of the array are unused.\<close>

definition bm_list :: "hdsk_sim \<Rightarrow> nat list \<Rightarrow> bool" where
  "bm_list s ys \<longleftrightarrow> ring bm_head (snext s) (sprev s) (map Some ys) \<and> block s 0 = (0, 0, 0) \<and>
     (\<forall>i \<in> set ys. i < HDSK_BITMAP_SIZE \<and> b_length (sim_bitmap s (Some i)) \<noteq> 0) \<and>
     (\<forall>i \<in> {1..<HDSK_BITMAP_SIZE}. i \<notin> set ys \<longrightarrow> b_length (sim_bitmap s (Some i)) = 0)"

lemma block_eq: "block s i = (st, l, t) \<longleftrightarrow> b_start (sim_bitmap s (Some i)) = st \<and> b_length (sim_bitmap s (Some i)) = l \<and>
    b_type (sim_bitmap s (Some i)) = t"
  by (simp add: block_def Let_def)

lemma bm_listD:
  assumes "bm_list s ys"
  shows "ring bm_head (snext s) (sprev s) (map Some ys)" "distinct ys" "0 \<notin> set ys" "block s 0 = (0, 0, 0)"
    and "i \<in> set ys \<Longrightarrow> i < HDSK_BITMAP_SIZE \<and> b_length (sim_bitmap s (Some i)) \<noteq> 0"
    and "i \<in> {1..<HDSK_BITMAP_SIZE} \<Longrightarrow> i \<notin> set ys \<Longrightarrow> b_length (sim_bitmap s (Some i)) = 0"
  using assms by (auto simp: bm_list_def ring_def distinct_map)

lemma ring_neighbours:
  assumes "ring z nx pv (as @ y # bs)"
  shows "nx y = hd (bs @ [z])" "pv y = last (z # as)"
proof -
  have p: "path nx pv z as y" "path nx pv y bs z" using assms by (simp_all add: ring_def path_append)
  show "nx y = hd (bs @ [z])" by (rule path_hd [OF p(2)])
  show "pv y = last (z # as)" by (rule path_last [OF p(1)])
qed

lemma ring_ends:
  assumes "ring z nx pv ys"
  shows "nx z = hd (ys @ [z])" "pv z = last (z # ys)"
proof -
  have p: "path nx pv z ys z" using assms by (simp add: ring_def)
  show "nx z = hd (ys @ [z])" by (rule path_hd [OF p])
  show "pv z = last (z # ys)" by (rule path_last [OF p])
qed

lemma bm_neighbours:
  assumes "bm_list s (as @ y # bs)"
  shows "b_next (sim_bitmap s (Some y)) = (case bs of [] \<Rightarrow> bm_head | b # _ \<Rightarrow> Some b)"
    and "b_prev (sim_bitmap s (Some y)) = (if as = [] then bm_head else Some (last as))"
proof -
  have "ring bm_head (snext s) (sprev s) (map Some as @ Some y # map Some bs)" using bm_listD(1) [OF assms] by simp
  note n = ring_neighbours [OF this, unfolded snext_def sprev_def]
  show "b_next (sim_bitmap s (Some y)) = (case bs of [] \<Rightarrow> bm_head | b # _ \<Rightarrow> Some b)"
    using n(1) by (cases bs) simp_all
  show "b_prev (sim_bitmap s (Some y)) = (if as = [] then bm_head else Some (last as))"
    using n(2) by (simp add: last_map)
qed

lemma bm_ends:
  assumes "bm_list s ys"
  shows "b_next (sim_bitmap s bm_head) = (case ys of [] \<Rightarrow> bm_head | y # _ \<Rightarrow> Some y)"
    and "b_prev (sim_bitmap s bm_head) = (if ys = [] then bm_head else Some (last ys))"
proof -
  note n = ring_ends [OF bm_listD(1) [OF assms], unfolded snext_def sprev_def]
  show "b_next (sim_bitmap s bm_head) = (case ys of [] \<Rightarrow> bm_head | y # _ \<Rightarrow> Some y)"
    using n(1) by (cases ys) simp_all
  show "b_prev (sim_bitmap s bm_head) = (if ys = [] then bm_head else Some (last ys))"
    using n(2) by (simp add: last_map)
qed

subsection \<open>Changing a node, removing and adding one\<close>

lemma upd_node_sel [simp]:
  "sim_bitmap (upd_node p f s) = (sim_bitmap s)(p := f (sim_bitmap s p))"
  "TotalCopied (upd_node p f s) = TotalCopied s" "BitmapUsed (upd_node p f s) = BitmapUsed s"
  by (simp_all add: upd_node_def)

lemma link_block [simp]:
  "b_start (sim_bitmap (bm_link p c s) q) = b_start (sim_bitmap s q)"
  "b_length (sim_bitmap (bm_link p c s) q) = b_length (sim_bitmap s q)"
  "b_type (sim_bitmap (bm_link p c s) q) = b_type (sim_bitmap s q)"
  "b_start (sim_bitmap (bm_unlink c s) q) = b_start (sim_bitmap s q)"
  "b_length (sim_bitmap (bm_unlink c s) q) = b_length (sim_bitmap s q)"
  "b_type (sim_bitmap (bm_unlink c s) q) = b_type (sim_bitmap s q)"
  "block (bm_link p c s) i = block s i" "block (bm_unlink c s) i = block s i"
  "TotalCopied (bm_link p c s) = TotalCopied s" "TotalCopied (bm_unlink c s) = TotalCopied s"
  by (simp_all add: bm_link_def bm_unlink_def Let_def block_def)

lemma block_upd [simp]: "i \<noteq> j \<Longrightarrow> block (upd_node (Some j) f s) i = block s i"
  by (simp add: block_def)

lemma ring_payload:
  assumes "\<And>n. b_next (f n) = b_next n" "\<And>n. b_prev (f n) = b_prev n"
  shows "snext (upd_node p f s) = snext s" "sprev (upd_node p f s) = sprev s"
  using assms by (auto simp: fun_eq_iff snext_def sprev_def)

text \<open>A field of a list node other than its links is set; a block stays non-empty.\<close>

lemma bm_list_upd:
  assumes "bm_list s ys" "i \<in> set ys" "b_length (f (sim_bitmap s (Some i))) \<noteq> 0"
    and "\<And>n. b_next (f n) = b_next n" "\<And>n. b_prev (f n) = b_prev n"
  shows "bm_list (upd_node (Some i) f s) ys"
  using assms bm_listD(3) [OF assms(1)]
  by (auto simp: bm_list_def ring_payload [OF assms(4,5)] block_def Let_def)

text \<open>Unlinking and clearing a node.\<close>

definition removed :: "nat \<Rightarrow> hdsk_sim \<Rightarrow> hdsk_sim" where
  "removed i s = hdskSimClearHeader (Some i) (bm_unlink (Some i) s)"

lemma removed_sel [simp]:
  "j \<noteq> i \<Longrightarrow> block (removed i s) j = block s j" "sim_bitmap (removed i s) (Some i) = zero_node"
  "TotalCopied (removed i s) = TotalCopied s"
  by (simp_all add: removed_def hdskSimClearHeader_def)

lemma removed_list:
  assumes "bm_list s (as @ i # bs)"
  shows "bm_list (removed i s) (as @ bs)" "simUnLink (Some i) s = Some (bm_unlink (Some i) s)"
proof -
  let ?u = "bm_unlink (Some i) s"
  have d: "distinct (as @ i # bs)" "0 \<notin> set (as @ i # bs)" using bm_listD(2,3) [OF assms] by auto
  have r: "ring bm_head (snext ?u) (sprev ?u) (map Some (as @ bs))"
    using sim_ring.unlink_between [of s "map Some as" "Some i" "map Some bs"] bm_listD(1) [OF assms] by simp
  have off: "Some i \<notin> set (bm_head # map Some (as @ bs))" using d by auto
  have "path (snext (removed i s)) (sprev (removed i s)) bm_head (map Some (as @ bs)) bm_head =
      path (snext ?u) (sprev ?u) bm_head (map Some (as @ bs)) bm_head"
    by (intro path_cong) (use off in \<open>auto simp: snext_def sprev_def removed_def hdskSimClearHeader_def\<close>)
  then have "ring bm_head (snext (removed i s)) (sprev (removed i s)) (map Some (as @ bs))"
    using r by (simp add: ring_def)
  then show "bm_list (removed i s) (as @ bs)"
    using assms d unfolding bm_list_def
    by (auto simp: removed_def hdskSimClearHeader_def zero_node_def block_def Let_def)
  show "simUnLink (Some i) s = Some ?u"
    using bm_neighbours [OF assms] by (simp add: simUnLink_def split: list.split)
qed

subsection \<open>Searching for a free block\<close>

definition free_of :: "u32 \<Rightarrow> hdsk_sim \<Rightarrow> nat \<Rightarrow> bool" where
  "free_of len s i \<longleftrightarrow> b_length (sim_bitmap s (Some i)) = len \<and> b_type (sim_bitmap s (Some i)) = 0"

lemma find_empty_from:
  assumes "bm_list s (as @ y # bs)"
  shows "find_empty_loop len s (Some y) = Some (List.find (free_of len s) (butlast (y # bs)))"
  using assms
proof (induction bs arbitrary: as y)
  case Nil
  then show ?case using bm_neighbours(1) [OF Nil] by (simp add: find_empty_loop.simps [of len s] node_def)
next
  case (Cons b bs)
  have "b \<noteq> 0" using bm_listD(3) [OF Cons.prems] by auto
  moreover have "bm_list s ((as @ [y]) @ b # bs)" using Cons.prems by simp
  ultimately show ?case using Cons.IH [of "as @ [y]" b] bm_neighbours(1) [OF Cons.prems]
    by (simp add: find_empty_loop.simps [of len s "Some y"] node_def free_of_def)
qed

text \<open>
  \<open>hdskSimFindEmptyPartition\<close> returns for every list of partitions, and what it returns is
  the first free block of the size asked for among all but the last partition of the list, or
  NULL when there is none.
\<close>

theorem sim_find_empty:
  assumes "bm_list s ys" "len \<noteq> 0"
  shows "hdskSimFindEmptyPartition len s = Some (List.find (free_of len s) (butlast ys))"
proof (cases ys)
  case Nil
  then show ?thesis using bm_ends(1) [OF assms(1)]
    by (simp add: hdskSimFindEmptyPartition_def find_empty_loop.simps [of len s bm_head] node_def)
next
  case (Cons y bs)
  have "y \<noteq> 0" "b_length (sim_bitmap s bm_head) = 0" using bm_listD(3,4) [OF assms(1)] Cons by (auto simp: block_eq)
  then show ?thesis
    using bm_ends(1) [OF assms(1)] Cons assms find_empty_from [of s "[]" y bs len]
    by (simp add: hdskSimFindEmptyPartition_def find_empty_loop.simps [of len s bm_head] node_def)
qed

subsection \<open>Removing the last partition\<close>

definition used :: "hdsk_sim \<Rightarrow> nat \<Rightarrow> bool" where
  "used s i \<longleftrightarrow> b_type (sim_bitmap s (Some i)) \<noteq> 0"

text \<open>The list without the used partitions at its end.\<close>

definition drop_used :: "hdsk_sim \<Rightarrow> nat list \<Rightarrow> nat list" where
  "drop_used s ys = rev (dropWhile (used s) (rev ys))"

lemma swap_tail:
  assumes "bm_list s (as @ [p])"
  shows "\<exists>t. swap_tail_loop (Some p) s = Some t \<and> bm_list t (drop_used s as) \<and> TotalCopied t = TotalCopied s \<and>
     (\<forall>i \<in> set (drop_used s as). block t i = block s i)"
  using assms
proof (induction as arbitrary: s p rule: rev_induct)
  case Nil
  note r = removed_list [of s "[]" p "[]", simplified, OF Nil [simplified]]
  have "b_prev (sim_bitmap (removed p s) bm_head) = bm_head" "b_type (sim_bitmap (removed p s) bm_head) = 0"
    using bm_ends(2) [OF r(1)] bm_listD(4) [OF r(1)] by (simp_all add: block_eq)
  then show ?case using r
    by (simp add: swap_tail_loop.simps [of "Some p"] removed_def [symmetric] drop_used_def)
next
  case (snoc q as)
  have "bm_list s ((as @ [q]) @ p # [])" using snoc.prems by simp
  note r = removed_list [OF this, unfolded append_Nil2]
  have pq: "p \<notin> set (as @ [q])" using bm_listD(2) [OF snoc.prems] by auto
  have same: "block (removed p s) i = block s i" if "i \<in> set (as @ [q])" for i
  proof -
    have "i \<noteq> p" using that pq by blast
    then show ?thesis by simp
  qed
  have u: "used (removed p s) i = used s i" if "i \<in> set (as @ [q])" for i
    using same [OF that] by (simp add: used_def block_def Let_def)
  have d: "drop_used (removed p s) as = drop_used s as"
    unfolding drop_used_def by (rule arg_cong [of _ _ rev], rule dropWhile_cong) (use u in auto)
  have prv: "b_prev (sim_bitmap (removed p s) bm_head) = Some q" using bm_ends(2) [OF r(1)] by simp
  show ?case
  proof (cases "used s q")
    case True
    from snoc.IH [OF r(1)] obtain t where t: "swap_tail_loop (Some q) (removed p s) = Some t" "bm_list t (drop_used s as)"
      "TotalCopied t = TotalCopied s" "\<forall>i \<in> set (drop_used s as). block t i = block (removed p s) i" by (auto simp: d)
    have "swap_tail_loop (Some p) s = Some t"
      using r(2) prv u [of q] True t(1)
      by (simp add: swap_tail_loop.simps [of "Some p"] removed_def [symmetric] used_def)
    moreover have "set (drop_used s as) \<subseteq> set (as @ [q])" by (auto simp: drop_used_def dest: set_dropWhileD)
    ultimately show ?thesis using t(2-4) same True by (auto simp: drop_used_def)
  next
    case False
    have "swap_tail_loop (Some p) s = Some (removed p s)"
      using r(2) prv u [of q] False
      by (simp add: swap_tail_loop.simps [of "Some p"] removed_def [symmetric] used_def)
    then show ?thesis using r(1) same False by (auto simp: drop_used_def)
  qed
qed

text \<open>
  C20. When the partition that was moved is the last one, the dry run removes it and, unlike
  \<open>apaDelete\<close>, which then drops the free blocks at the end of the disk, all used
  partitions before it up to the last free one: they count as gone for the rest of the run.
\<close>

theorem sim_tail_drops_used:
  assumes "bm_list s (as @ [p])"
  shows "\<exists>t. hdskSimSwapPartition (Some p) s = Some t \<and> bm_list t (drop_used s as) \<and> TotalCopied t = TotalCopied s \<and>
     (\<forall>i \<in> set (drop_used s as). block t i = block s i)"
  using swap_tail [OF assms] bm_ends(2) [OF assms] by (simp add: hdskSimSwapPartition_def)

subsection \<open>Merging with the next block\<close>

text \<open>
  \<open>hdskSimDeleteFixNext\<close> never merges: where the block behind is free and both make up an
  aligned power of two, the node that is unlinked and cleared is the partition's own, and the
  loop goes on through its NULL link (the code is undefined there).
\<close>

theorem sim_fix_next_undefined:
  assumes "bm_list s (as @ p # q # bs)" "b_type (sim_bitmap s (Some q)) = 0"
    and "len = b_length (sim_bitmap s (Some q)) + b_length (sim_bitmap s (Some p))" "len \<noteq> 0" "len AND (len - 1) = 0"
    and "b_start (sim_bitmap s (Some p)) mod len = 0"
  shows "hdskSimDeleteFixNext (Some p) s = None"
proof -
  have pq: "p \<noteq> last (q # bs)" "p \<noteq> 0" using bm_listD(2,3) [OF assms(1)] by (auto split: if_splits dest: last_in_set)
  let ?u = "upd_node (Some p) (\<lambda>h. h\<lparr>b_length := len, b_type := 0\<rparr>) s"
  have u: "bm_list ?u (as @ p # q # bs)" by (rule bm_list_upd [OF assms(1)]) (use assms(4) in simp_all)
  note r = removed_list [OF u]
  have "b_prev (sim_bitmap (removed p ?u) bm_head) = Some (last (q # bs))" using bm_ends(2) [OF r(1)] by simp
  then have again: "hdskSimDeleteFixNext (Some p) (removed p ?u) = None"
    using pq(1) by (subst hdskSimDeleteFixNext.simps) (simp add: node_def zero_node_def)
  have "b_prev (sim_bitmap s bm_head) = Some (last (q # bs))" using bm_ends(2) [OF assms(1)] by simp
  moreover have "b_next (sim_bitmap s (Some p)) = Some q" using bm_neighbours(1) [OF assms(1)] by simp
  ultimately show ?thesis using pq(1) assms(2,4-6) r(2) again
    by (subst hdskSimDeleteFixNext.simps) (simp add: node_def Let_def assms(3) removed_def [symmetric])
qed

subsection \<open>Blocks that tile a range of sectors\<close>

primrec tiles :: "u32 \<Rightarrow> (u32 \<times> u32 \<times> u32) list \<Rightarrow> u32 \<Rightarrow> bool" where
  "tiles a [] b = (a = b)"
| "tiles a (x # xs) b = (fst x = a \<and> tiles (a + fst (snd x)) xs b)"

lemma tiles_append: "tiles a (xs @ ys) b \<longleftrightarrow> (\<exists>c. tiles a xs c \<and> tiles c ys b)"
  by (induction xs arbitrary: a) auto

text \<open>The size of a list of blocks; a drive has fewer than \<open>2 ^ 32\<close> sectors.\<close>

definition extent :: "(u32 \<times> u32 \<times> u32) list \<Rightarrow> nat" where
  "extent bs = (\<Sum>x \<leftarrow> bs. unat (fst (snd x)))"

lemma extent_simps [simp]: "extent [] = 0" "extent (x # xs) = unat (fst (snd x)) + extent xs"
  "extent (xs @ ys) = extent xs + extent ys"
  by (simp_all add: extent_def)

subsection \<open>Splitting a block\<close>

text \<open>The blocks that are left when a block is halved \<open>k\<close> times, down to \<open>len\<close> sectors.\<close>

definition halves :: "u32 \<Rightarrow> u32 \<Rightarrow> u32 \<Rightarrow> nat \<Rightarrow> (u32 \<times> u32 \<times> u32) list" where
  "halves st len t k = (st, len, t) # map (\<lambda>j. (st + 2 ^ j * len, 2 ^ j * len, 0)) [0..<k]"

lemma halves_tile: "tiles st (halves st len t k) (st + 2 ^ k * len)"
proof (induction k)
  case (Suc k)
  have "halves st len t (Suc k) = halves st len t k @ [(st + 2 ^ k * len, 2 ^ k * len, 0)]" by (simp add: halves_def)
  then show ?case using Suc by (auto simp: tiles_append algebra_simps)
qed (simp add: halves_def)

lemma unat_power:
  assumes "unat (l :: u32) = 2 ^ k * unat len"
  shows "l = 2 ^ k * len"
proof -
  have "of_nat (unat l) = (of_nat (2 ^ k * unat len) :: u32)" by (simp only: assms)
  then show ?thesis by simp
qed

lemma alloc_unused:
  assumes "bm_list s ys" "Suc (length ys) < HDSK_BITMAP_SIZE"
  obtains i where "hdskBitmapAlloc s = Some i" "i \<in> {1..<HDSK_BITMAP_SIZE}" "i \<notin> set ys"
proof -
  have "\<exists>i \<in> {1..<HDSK_BITMAP_SIZE}. i \<notin> set ys"
  proof (rule ccontr)
    assume "\<not> ?thesis"
    then have "card {1..<HDSK_BITMAP_SIZE} \<le> card (set ys)" by (intro card_mono) auto
    then show False using assms(2) distinct_card [OF bm_listD(2) [OF assms(1)]] by simp
  qed
  then obtain j where j: "j \<in> {1..<HDSK_BITMAP_SIZE}" "j \<notin> set ys" by blast
  then have "b_length (sim_bitmap s (Some j)) = 0" using bm_listD(6) [OF assms(1)] by blast
  then obtain i where i: "List.find (\<lambda>i. b_length (sim_bitmap s (Some i)) = 0) [1..<HDSK_BITMAP_SIZE] = Some i"
    using j(1) find_NoneD [of _ "[1..<HDSK_BITMAP_SIZE]" j]
    by (cases "List.find (\<lambda>i. b_length (sim_bitmap s (Some i)) = 0) [1..<HDSK_BITMAP_SIZE]") auto
  have "i \<in> {1..<HDSK_BITMAP_SIZE}" "b_length (sim_bitmap s (Some i)) = 0" using find_SomeD [OF i] by auto
  moreover have "i \<notin> set ys" using calculation bm_listD(5) [OF assms(1)] by blast
  ultimately show thesis using i that by (simp add: hdskBitmapAlloc_def)
qed

lemma split_once_list:
  assumes "bm_list s (as @ p # bs)" "block s p = (st, l, t)" "l div 2 \<noteq> 0" "Suc (length (as @ p # bs)) < HDSK_BITMAP_SIZE"
  shows "\<exists>new u. split_once (Some p) s = Some u \<and> bm_list u (as @ p # new # bs) \<and> block u p = (st, l div 2, t) \<and>
     block u new = (st + l div 2, l div 2, 0) \<and> (\<forall>i. i \<noteq> p \<longrightarrow> i \<noteq> new \<longrightarrow> block u i = block s i) \<and>
     TotalCopied u = TotalCopied s"
proof -
  obtain new where new: "hdskBitmapAlloc s = Some new" "new \<in> {1..<HDSK_BITMAP_SIZE}" "new \<notin> set (as @ p # bs)"
    using alloc_unused [OF assms(1,4)] by blast
  have b: "b_start (sim_bitmap s (Some p)) = st" "b_length (sim_bitmap s (Some p)) = l" "b_type (sim_bitmap s (Some p)) = t"
    using assms(2) by (auto simp: block_eq)
  let ?s1 = "upd_node (Some p) (\<lambda>h. h\<lparr>b_length := b_length h div 2\<rparr>) s"
  let ?f = "\<lambda>h. h\<lparr>b_start := st + l div 2, b_type := 0, b_length := l div 2\<rparr>"
  let ?s2 = "upd_node (Some new) ?f ?s1"
  let ?u = "bm_link (Some p) (Some new) ?s2"
  have p: "p \<noteq> 0" "p \<noteq> new" "new \<noteq> 0" using bm_listD(3) [OF assms(1)] new by auto
  have s1: "bm_list ?s1 (as @ p # bs)" by (rule bm_list_upd [OF assms(1)]) (use assms(3) b in simp_all)
  have pay: "snext ?s2 = snext ?s1" "sprev ?s2 = sprev ?s1" by (simp_all add: ring_payload)
  have "b_next (sim_bitmap ?s1 (Some p)) \<noteq> None" using bm_neighbours(1) [OF s1] by (simp split: list.split)
  then have split: "split_once (Some p) s = Some ?u"
    using p new(1) b by (simp add: split_once_def simLink_def Let_def)
  have rg: "ring bm_head (snext ?u) (sprev ?u) (map Some (as @ [p]) @ Some new # map Some bs)"
  proof (rule sim_ring.link_between)
    show "ring bm_head (snext ?s2) (sprev ?s2) (map Some (as @ [p]) @ map Some bs)"
      using bm_listD(1) [OF s1] pay by simp
    show "Some new \<notin> set (bm_head # map Some (as @ [p]) @ map Some bs)" using new(3) p by auto
  qed simp
  have lp: "l \<noteq> 0" using assms(3) by auto
  have "bm_list ?u (as @ p # new # bs)"
    using rg bm_listD(4-6) [OF assms(1)] new p assms(3) b unfolding bm_list_def by (auto simp: block_def Let_def)
  moreover have "block ?u p = (st, l div 2, t)" "block ?u new = (st + l div 2, l div 2, 0)" using b p by (simp_all add: block_eq)
  moreover have "block ?u i = block s i" if "i \<noteq> p" "i \<noteq> new" for i using that by simp
  ultimately show ?thesis using split by auto
qed

text \<open>
  C16. Splitting an empty block for a partition of \<open>len\<close> sectors, \<open>2 ^ k\<close> times smaller, ends
  when there are enough unused nodes: \<open>k\<close> nodes follow the block in the list, and in place
  of the block there are two blocks of \<open>len\<close> sectors, one of \<open>2 len\<close>, one of \<open>4 len\<close>, and so
  on, which together cover exactly the sectors it covered; all other blocks stay as they were.
\<close>

theorem sim_split_tiles:
  assumes "bm_list s (as @ p # bs)" "block s p = (st, l, t)" "unat l = 2 ^ k * unat len" "len \<noteq> 0"
    and "length (as @ p # bs) + k < HDSK_BITMAP_SIZE"
  shows "\<exists>new u. hdskSimSplitEmptyPartition (Some p) len s = Some u \<and> bm_list u (as @ p # new @ bs) \<and>
     map (block u) (p # new) = halves st len t k \<and> tiles st (map (block u) (p # new)) (st + l) \<and>
     (\<forall>i \<in> set (as @ bs). block u i = block s i) \<and> TotalCopied u = TotalCopied s"
proof -
  have main: "\<exists>new u. hdskSimSplitEmptyPartition (Some p) len s = Some u \<and> bm_list u (as @ p # new @ bs) \<and>
     map (block u) (p # new) = halves st len t k \<and>
     (\<forall>i \<in> set (as @ bs). block u i = block s i) \<and> TotalCopied u = TotalCopied s"
    using assms
  proof (induction k arbitrary: s bs l)
    case 0
    then have "l = len" by (simp add: word_unat_eq_iff)
    then have "hdskSimSplitEmptyPartition (Some p) len s = Some s"
      using "0.prems"(2) by (subst hdskSimSplitEmptyPartition.simps) (simp add: node_def block_eq)
    then show ?case using "0.prems" \<open>l = len\<close> by (intro exI [of _ "[]"] exI [of _ s]) (simp add: halves_def)
  next
    case (Suc k)
    have half: "unat (l div 2) = 2 ^ k * unat len" using Suc.prems(3) by (simp add: unat_div)
    have "0 < unat len" using Suc.prems(4) by (simp add: unat_gt_0)
    then have h0: "l div 2 \<noteq> 0" and neq: "l \<noteq> len"
      using half Suc.prems(3) by (auto simp: word_unat_eq_iff)
    have len2: "l div 2 = 2 ^ k * len"
      using half by (rule unat_power)
    from split_once_list [OF Suc.prems(1,2) h0] Suc.prems(5) obtain n u where
      u: "split_once (Some p) s = Some u" "bm_list u (as @ p # n # bs)" "block u p = (st, l div 2, t)"
        "block u n = (st + l div 2, l div 2, 0)" "\<forall>i. i \<noteq> p \<longrightarrow> i \<noteq> n \<longrightarrow> block u i = block s i" "TotalCopied u = TotalCopied s"
      by auto
    have "length (as @ p # n # bs) + k < HDSK_BITMAP_SIZE" using Suc.prems(5) by simp
    from Suc.IH [OF u(2,3) half Suc.prems(4) this] obtain new v where
      v: "hdskSimSplitEmptyPartition (Some p) len u = Some v" "bm_list v (as @ p # new @ n # bs)"
        "map (block v) (p # new) = halves st len t k" "\<forall>i \<in> set (as @ n # bs). block v i = block u i"
        "TotalCopied v = TotalCopied u" by auto
    have "hdskSimSplitEmptyPartition (Some p) len s = Some v"
      using Suc.prems(2) neq u(1) v(1) by (subst hdskSimSplitEmptyPartition.simps) (simp add: node_def block_eq)
    moreover have "map (block v) (p # new @ [n]) = halves st len t (Suc k)"
      using v(3,4) u(4) by (simp add: halves_def len2)
    moreover have "block v i = block s i" if "i \<in> set (as @ bs)" for i
    proof -
      have "i \<noteq> p" "i \<noteq> n" using that bm_listD(2) [OF u(2)] by auto
      then show ?thesis using that v(4) u(5) by simp
    qed
    ultimately show ?case using v(2,5) u(6) by (intro exI [of _ "new @ [n]"] exI [of _ v]) simp
  qed
  have "l = 2 ^ k * len" using assms(3) by (rule unat_power)
  then have "tiles st (halves st len t k) (st + l)" using halves_tile [of st len t k] by simp
  then show ?thesis using main by (metis (no_types, lifting))
qed

subsection \<open>Merging with the blocks before\<close>

lemma extent_member: "x \<in> set bs \<Longrightarrow> unat (fst (snd x)) \<le> extent bs"
  by (induction bs) auto

lemma fix_prev_stop:
  assumes "bm_list s (as @ p # bs)"
  shows "as = [] \<longleftrightarrow> b_next (sim_bitmap s bm_head) = Some p"
proof
  assume *: "b_next (sim_bitmap s bm_head) = Some p"
  show "as = []"
  proof (cases as)
    case (Cons x xs)
    then have "x = p" using * bm_ends(1) [OF assms] by simp
    then show ?thesis using bm_listD(2) [OF assms] Cons by simp
  qed simp
qed (use bm_ends(1) [OF assms] in simp)

text \<open>One merge: the block before grows, the partition's node is released.\<close>

lemma merge_one:
  assumes "bm_list s (as @ q # p # bs)" "len = b_length (sim_bitmap s (Some q)) + b_length (sim_bitmap s (Some p))" "len \<noteq> 0"
  defines "u \<equiv> removed p (upd_node (Some q) (\<lambda>h. h\<lparr>b_length := len\<rparr>) s)"
  shows "bm_list u (as @ q # bs)" "simUnLink (Some p) (upd_node (Some q) (\<lambda>h. h\<lparr>b_length := len\<rparr>) s) =
      Some (bm_unlink (Some p) (upd_node (Some q) (\<lambda>h. h\<lparr>b_length := len\<rparr>) s))"
    "\<forall>i \<in> set (as @ bs). block u i = block s i" "block u q = (b_start (sim_bitmap s (Some q)), len, b_type (sim_bitmap s (Some q)))"
    "TotalCopied u = TotalCopied s"
proof -
  let ?v = "upd_node (Some q) (\<lambda>h. h\<lparr>b_length := len\<rparr>) s"
  have v: "bm_list ?v ((as @ [q]) @ p # bs)" using bm_list_upd [OF assms(1), of q "\<lambda>h. h\<lparr>b_length := len\<rparr>"] assms(3) by simp
  note r = removed_list [OF v]
  show "bm_list u (as @ q # bs)" "simUnLink (Some p) ?v = Some (bm_unlink (Some p) ?v)" using r by (simp_all add: u_def)
  have d: "distinct (as @ q # p # bs)" using bm_listD(2) [OF assms(1)] .
  show "\<forall>i \<in> set (as @ bs). block u i = block s i"
  proof
    fix i assume "i \<in> set (as @ bs)"
    then have "i \<noteq> p" "i \<noteq> q" using d by auto
    then show "block u i = block s i" by (simp add: u_def)
  qed
  have "q \<noteq> p" using d by auto
  then show "block u q = (b_start (sim_bitmap s (Some q)), len, b_type (sim_bitmap s (Some q)))"
    by (simp add: u_def) (simp add: block_eq)
  show "TotalCopied u = TotalCopied s" by (simp add: u_def)
qed

text \<open>
  Which blocks are merged, on the blocks themselves: the one before (\<open>q\<close>) must be free, and the
  sum of the sizes a power of two to which \<open>q\<close> is aligned. \<open>merge_prev\<close> gets the blocks before
  in reverse order.
\<close>

definition mergeable :: "u32 \<times> u32 \<times> u32 \<Rightarrow> u32 \<times> u32 \<times> u32 \<Rightarrow> bool" where
  "mergeable q b \<longleftrightarrow> (let len = fst (snd q) + fst (snd b)
     in snd (snd q) = 0 \<and> fst q mod len = 0 \<and> len AND (len - 1) = 0)"

fun merge_prev :: "(u32 \<times> u32 \<times> u32) list \<Rightarrow> u32 \<times> u32 \<times> u32 \<Rightarrow> (u32 \<times> u32 \<times> u32) list \<times> u32 \<times> u32 \<times> u32" where
  "merge_prev [] b = ([], b)"
| "merge_prev (q # qs) b =
     (if mergeable q b then merge_prev qs (fst q, fst (snd q) + fst (snd b), snd (snd q)) else (q # qs, b))"

definition merged :: "nat list \<Rightarrow> nat \<Rightarrow> nat list \<Rightarrow> hdsk_sim \<Rightarrow> nat list \<Rightarrow> nat \<Rightarrow> nat list \<Rightarrow> hdsk_sim \<Rightarrow> bool" where
  "merged as p bs s as' p' rest u \<longleftrightarrow> as @ [p] = as' @ p' # rest \<and> bm_list u (as' @ p' # bs) \<and>
     (\<forall>i \<in> set (as' @ bs). block u i = block s i) \<and> TotalCopied u = TotalCopied s \<and>
     b_start (sim_bitmap u (Some p')) = b_start (sim_bitmap s (Some p')) \<and>
     unat (b_length (sim_bitmap u (Some p'))) = extent (map (block s) (p' # rest)) \<and>
     merge_prev (rev (map (block s) as)) (block s p) = (rev (map (block s) as'), block u p')"

lemma fix_prev_merged:
  assumes "bm_list s (as @ p # bs)" "extent (map (block s) (as @ [p])) < 2 ^ 32"
  shows "\<exists>as' p' rest u. hdskSimDeleteFixPrev (Some p) s = Some (Some p', u) \<and> merged as p bs s as' p' rest u"
  using assms
proof (induction as arbitrary: p s rule: rev_induct)
  case Nil
  have "hdskSimDeleteFixPrev (Some p) s = Some (Some p, s)"
    using fix_prev_stop [OF Nil(1)] by (subst hdskSimDeleteFixPrev.simps) simp
  then show ?case using Nil by (intro exI [of _ "[]"] exI [of _ p] exI [of _ s]) (simp add: merged_def block_def Let_def)
next
  case (snoc q as)
  have l: "bm_list s (as @ q # p # bs)" using snoc.prems(1) by simp
  have nx: "b_next (sim_bitmap s bm_head) \<noteq> Some p" using fix_prev_stop [OF snoc.prems(1)] by simp
  have pv: "b_prev (sim_bitmap s (Some p)) = Some q" using bm_neighbours(2) [OF snoc.prems(1)] by simp
  define len where "len = b_length (sim_bitmap s (Some q)) + b_length (sim_bitmap s (Some p))"
  have fits: "unat (b_length (sim_bitmap s (Some q))) + unat (b_length (sim_bitmap s (Some p))) < 2 ^ 32"
    using snoc.prems(2) by (simp add: block_def Let_def)
  then have ul: "unat len = unat (b_length (sim_bitmap s (Some q))) + unat (b_length (sim_bitmap s (Some p)))"
    by (simp add: len_def unat_word_ariths)
  have "b_length (sim_bitmap s (Some q)) \<noteq> 0" using bm_listD(5) [OF l, of q] by simp
  then have l0: "len \<noteq> 0" using ul by (auto simp: word_unat_eq_iff)
  note m = merge_one [OF l len_def l0]
  let ?u = "removed p (upd_node (Some q) (\<lambda>h. h\<lparr>b_length := len\<rparr>) s)"
  have go: "mergeable (block s q) (block s p) \<longleftrightarrow>
      b_type (sim_bitmap s (Some q)) = 0 \<and> b_start (sim_bitmap s (Some q)) mod len = 0 \<and> len AND (len - 1) = 0"
    by (simp add: mergeable_def block_def Let_def len_def)
  let ?go = "b_type (sim_bitmap s (Some q)) = 0 \<and> b_start (sim_bitmap s (Some q)) mod len = 0 \<and> len AND (len - 1) = 0"
  show ?case
  proof (cases ?go)
    case False
    then have "hdskSimDeleteFixPrev (Some p) s = Some (Some p, s)"
      using nx pv l0 by (subst hdskSimDeleteFixPrev.simps) (auto simp: node_def Let_def len_def)
    then show ?thesis using snoc.prems
      by (intro exI [of _ "as @ [q]"] exI [of _ p] exI [of _ "[]"] exI [of _ s])
        (use False go in \<open>auto simp: merged_def block_def Let_def\<close>)
  next
    case True
    have eq: "hdskSimDeleteFixPrev (Some p) s = hdskSimDeleteFixPrev (Some q) ?u"
      using nx pv l0 True m(2) by (subst hdskSimDeleteFixPrev.simps) (simp add: node_def Let_def len_def [symmetric] removed_def [symmetric])
    have same: "map (block ?u) as = map (block s) as" using m(3) by simp
    have qb: "fst (snd (block ?u q)) = len" using m(4) by simp
    have "extent (map (block ?u) (as @ [q])) = extent (map (block s) ((as @ [q]) @ [p]))"
      using qb ul by (simp add: block_len same)
    then have "extent (map (block ?u) (as @ [q])) < 2 ^ 32" using snoc.prems(2) by simp
    from snoc.IH [OF m(1) this] obtain as' p' rest v where
      v: "hdskSimDeleteFixPrev (Some q) ?u = Some (Some p', v)" "merged as q bs ?u as' p' rest v" by blast
    have dq: "distinct (as @ q # p # bs)" using bm_listD(2) [OF l] .
    have sp: "as @ [q] = as' @ p' # rest" using v(2) by (simp add: merged_def)
    have start: "b_start (sim_bitmap ?u (Some p')) = b_start (sim_bitmap s (Some p'))"
    proof (cases "p' = q")
      case True
      then show ?thesis using m(4) by (simp add: block_eq)
    next
      case False
      then have "p' \<in> set as" using sp by (metis Un_iff in_set_conv_decomp set_ConsD set_append empty_iff list.set(1))
      then show ?thesis using m(3) by (simp add: block_def Let_def)
    qed
    have ext: "extent (map (block ?u) (p' # rest)) = extent (map (block s) (p' # rest @ [p]))"
    proof -
      have "extent (map (block ?u) (as' @ p' # rest)) = extent (map (block ?u) as) + unat len" using qb by (simp add: sp [symmetric])
      moreover have "extent (map (block s) (as' @ p' # rest @ [p])) = extent (map (block s) as) + unat len"
      proof -
        have "as' @ p' # rest @ [p] = (as @ [q]) @ [p]" by (simp add: sp)
        then have "extent (map (block s) (as' @ p' # rest @ [p])) = extent (map (block s) ((as @ [q]) @ [p]))" by (rule arg_cong)
        then show ?thesis using ul by (simp add: block_len)
      qed
      moreover have "map (block ?u) as' = map (block s) as'"
      proof -
        have "distinct (as @ [q])" using dq by auto
        then have "set as' \<subseteq> set as"
          using sp by (metis (no_types, lifting) butlast_append butlast_snoc list.distinct(1) set_append sup_ge1)
        then show ?thesis using m(3) by auto
      qed
      ultimately show ?thesis by (simp add: same)
    qed
    have sub: "set as' \<subseteq> set as"
      using sp by (metis (no_types, lifting) butlast_append butlast_snoc list.distinct(1) set_append sup_ge1)
    have same': "map (block ?u) as' = map (block s) as'" using sub m(3) by auto
    have qe: "(fst (block s q), fst (snd (block s q)) + fst (snd (block s p)), snd (snd (block s q))) = block ?u q"
      unfolding m(4) by (simp add: block_def Let_def len_def)
    have "merge_prev (rev (map (block s) (as @ [q]))) (block s p) = merge_prev (rev (map (block s) as)) (block ?u q)"
      using go True qe by simp
    also have "\<dots> = (rev (map (block s) as'), block v p')"
      using v(2) unfolding merged_def same same' by blast
    finally have "merge_prev (rev (map (block s) (as @ [q]))) (block s p) = (rev (map (block s) as'), block v p')" .
    then have "merged (as @ [q]) p bs s as' p' (rest @ [p]) v"
      using v(2) m(3,5) start ext sub sp unfolding merged_def by auto
    then show ?thesis using eq v(1) by auto
  qed
qed

lemma tiles_merge:
  assumes "tiles a (map (block s) (p' # rest)) b" "extent (map (block s) (p' # rest)) < 2 ^ 32"
  shows "b = a + of_nat (extent (map (block s) (p' # rest)))" "a = b_start (sim_bitmap s (Some p'))"
proof -
  have "tiles a xs b \<Longrightarrow> b = a + of_nat (extent xs)" for xs
  proof (induction xs arbitrary: a)
    case (Cons x xs)
    then show ?case using Cons.IH [of "a + fst (snd x)"] by (simp add: add.assoc)
  qed simp
  then show "b = a + of_nat (extent (map (block s) (p' # rest)))" using assms(1) by blast
  show "a = b_start (sim_bitmap s (Some p'))" using assms(1) by (simp add: block_def Let_def)
qed

text \<open>
  C17. Merging a block with the free ones before it ends for every list of blocks of a drive,
  follows no NULL link and divides by no zero. The blocks that are left are those of
  \<open>merge_prev\<close>: as long as the block before is free and together they are a power of two of
  sectors, aligned to their size, they become one. The merged blocks (\<open>rest\<close> with the first,
  \<open>p'\<close>) are replaced by \<open>p'\<close>, and the list still covers the same sectors without gaps or
  overlaps; nothing else changes.
\<close>

theorem sim_merge_tiles:
  assumes "bm_list s (as @ p # bs)" "extent (map (block s) (as @ p # bs)) < 2 ^ 32" "tiles a (map (block s) (as @ p # bs)) b"
  shows "\<exists>as' p' rest u. hdskSimDeleteFixPrev (Some p) s = Some (Some p', u) \<and> as @ [p] = as' @ p' # rest \<and>
     merge_prev (rev (map (block s) as)) (block s p) = (rev (map (block u) as'), block u p') \<and>
     bm_list u (as' @ p' # bs) \<and> (\<forall>i \<in> set (as' @ bs). block u i = block s i) \<and>
     tiles a (map (block u) (as' @ p' # bs)) b \<and> TotalCopied u = TotalCopied s"
proof -
  have fit: "extent (map (block s) (as @ [p])) < 2 ^ 32" using assms(2) by simp
  from fix_prev_merged [OF assms(1) fit] obtain as' p' rest u where
    u: "hdskSimDeleteFixPrev (Some p) s = Some (Some p', u)" "as @ [p] = as' @ p' # rest" "bm_list u (as' @ p' # bs)"
      "\<forall>i \<in> set (as' @ bs). block u i = block s i" "TotalCopied u = TotalCopied s"
      "b_start (sim_bitmap u (Some p')) = b_start (sim_bitmap s (Some p'))"
      "unat (b_length (sim_bitmap u (Some p'))) = extent (map (block s) (p' # rest))"
      "merge_prev (rev (map (block s) as)) (block s p) = (rev (map (block s) as'), block u p')"
    unfolding merged_def by blast
  have split: "as @ p # bs = as' @ (p' # rest) @ bs" using u(2) by (metis append.assoc append_Cons append_Nil)
  from assms(3)[unfolded split] obtain c e where
    t: "tiles a (map (block s) as') c" "tiles c (map (block s) (p' # rest)) e" "tiles e (map (block s) bs) b"
    unfolding map_append tiles_append by blast
  have "extent (map (block s) (p' # rest)) < 2 ^ 32" 
    using fit arg_cong [OF u(2), of "\<lambda>xs. extent (map (block s) xs)"] by simp
  note m = tiles_merge [OF t(2) this]
  have "b_length (sim_bitmap u (Some p')) = of_nat (extent (map (block s) (p' # rest)))"
    by (simp add: u(7) [symmetric] del: extent_simps list.map)
  then have "tiles c [block u p'] e" using m u(6) by (simp add: block_def Let_def)
  then have "tiles a (map (block s) as' @ [block u p'] @ map (block s) bs) b" using t(1,3) unfolding tiles_append by blast
  moreover have eq: "map (block u) as' = map (block s) as'" "map (block u) bs = map (block s) bs" using u(4) by auto
  ultimately have "tiles a (map (block u) (as' @ p' # bs)) b" by (simp add: eq)
  moreover have "merge_prev (rev (map (block s) as)) (block s p) = (rev (map (block u) as'), block u p')" using u(8) eq by simp
  ultimately show ?thesis using u(1-5) by blast
qed

subsection \<open>A list of five blocks\<close>

definition demo_node :: "nat \<Rightarrow> nat \<Rightarrow> u32 \<Rightarrow> u32 \<Rightarrow> u32 \<Rightarrow> hdskBitmap" where
  "demo_node prv nxt st l t = \<lparr>b_next = Some nxt, b_prev = Some prv, b_start = st, b_length = l, b_type = t\<rparr>"

definition demo_sim :: hdsk_sim where
  "demo_sim = \<lparr>sim_bitmap = (\<lambda>_. zero_node)(Some 0 := demo_node 5 1 0 0 0, Some 1 := demo_node 0 2 0 0x40000 1,
     Some 2 := demo_node 1 3 0x40000 0x40000 0x100, Some 3 := demo_node 2 4 0x80000 0x40000 0,
     Some 4 := demo_node 3 5 0xC0000 0x40000 0, Some 5 := demo_node 4 0 0x100000 0x100000 0x100),
     BitmapUsed = 5, TotalCopied = 0\<rparr>"

lemma demo_sim_list: "bm_list demo_sim [1, 2, 3, 4, 5]"
  by (simp add: bm_list_def ring_def snext_def sprev_def demo_sim_def demo_node_def block_def zero_node_def HDSK_BITMAP_SIZE_def)

lemma demo_sim_blocks:
  "block demo_sim 1 = (0, 0x40000, 1)" "block demo_sim 2 = (0x40000, 0x40000, 0x100)" "block demo_sim 3 = (0x80000, 0x40000, 0)"
  "block demo_sim 4 = (0xC0000, 0x40000, 0)" "block demo_sim 5 = (0x100000, 0x100000, 0x100)"
  by (simp_all add: block_def demo_sim_def demo_node_def)

theorem sim_find_empty_witness: "hdskSimFindEmptyPartition 0x40000 demo_sim = Some (Some 3)"
  using sim_find_empty [OF demo_sim_list, where len = "0x40000"] by (simp add: free_of_def demo_sim_def demo_node_def)

theorem sim_tail_drops_used_witness:
  "\<exists>t. hdskSimSwapPartition (Some 5) demo_sim = Some t \<and> bm_list t [1, 2, 3, 4] \<and> TotalCopied t = 0"
proof -
  have "drop_used demo_sim [1, 2, 3, 4] = [1, 2, 3, 4]" "TotalCopied demo_sim = 0"
    by (simp_all add: drop_used_def used_def demo_sim_def demo_node_def)
  then show ?thesis using sim_tail_drops_used [where s = demo_sim and as = "[1, 2, 3, 4]" and p = 5] demo_sim_list by auto
qed

theorem sim_fix_next_undefined_witness: "hdskSimDeleteFixNext (Some 3) demo_sim = None"
  by (rule sim_fix_next_undefined [where as = "[1, 2]" and q = 4 and bs = "[5]" and len = "0x80000"])
    (simp_all add: demo_sim_list [simplified], simp_all add: demo_sim_def demo_node_def)

theorem sim_split_tiles_witness:
  "\<exists>new u. hdskSimSplitEmptyPartition (Some 5) 0x40000 demo_sim = Some u \<and> bm_list u ([1, 2, 3, 4] @ 5 # new) \<and>
     map (block u) (5 # new) = [(0x100000, 0x40000, 0x100), (0x140000, 0x40000, 0), (0x180000, 0x80000, 0)]"
proof -
  have "halves 0x100000 0x40000 0x100 2 = [(0x100000, 0x40000, 0x100), (0x140000, 0x40000, 0), (0x180000, 0x80000, 0)]"
    by (simp add: halves_def numeral_2_eq_2)
  moreover have "\<exists>new u. hdskSimSplitEmptyPartition (Some 5) 0x40000 demo_sim = Some u \<and> bm_list u ([1, 2, 3, 4] @ 5 # new @ []) \<and>
     map (block u) (5 # new) = halves 0x100000 0x40000 0x100 2 \<and> tiles 0x100000 (map (block u) (5 # new)) (0x100000 + 0x100000) \<and>
     (\<forall>i \<in> set ([1, 2, 3, 4] @ []). block u i = block demo_sim i) \<and> TotalCopied u = TotalCopied demo_sim"
    by (rule sim_split_tiles) (simp_all add: demo_sim_list [simplified] demo_sim_blocks HDSK_BITMAP_SIZE_def)
  ultimately show ?thesis by (metis append_Nil2)
qed

theorem sim_merge_tiles_witness:
  "\<exists>u. hdskSimDeleteFixPrev (Some 4) demo_sim = Some (Some 3, u) \<and> bm_list u [1, 2, 3, 5] \<and>
     map (block u) [1, 2, 3] = [(0, 0x40000, 1), (0x40000, 0x40000, 0x100), (0x80000, 0x80000, 0)] \<and>
     tiles 0 (map (block u) [1, 2, 3, 5]) 0x200000"
proof -
  have "\<exists>as' p' rest u. hdskSimDeleteFixPrev (Some 4) demo_sim = Some (Some p', u) \<and> [1, 2, 3] @ [4] = as' @ p' # rest \<and>
     merge_prev (rev (map (block demo_sim) [1, 2, 3])) (block demo_sim 4) = (rev (map (block u) as'), block u p') \<and>
     bm_list u (as' @ p' # [5]) \<and> (\<forall>i \<in> set (as' @ [5]). block u i = block demo_sim i) \<and>
     tiles 0 (map (block u) (as' @ p' # [5])) 0x200000 \<and> TotalCopied u = TotalCopied demo_sim"
    by (rule sim_merge_tiles) (simp_all add: demo_sim_list [simplified] demo_sim_blocks demo_sim_blocks(1) [simplified])
  then obtain as' p' rest u where u: "hdskSimDeleteFixPrev (Some 4) demo_sim = Some (Some p', u)" "[1, 2, 3, 4] = as' @ p' # rest"
    "merge_prev (rev (map (block demo_sim) [1, 2, 3])) (block demo_sim 4) = (rev (map (block u) as'), block u p')"
    "bm_list u (as' @ p' # [5])" "tiles 0 (map (block u) (as' @ p' # [5])) 0x200000" by auto
  have "merge_prev (rev (map (block demo_sim) [1, 2, 3])) (block demo_sim 4) =
      (rev [(0, 0x40000, 1), (0x40000, 0x40000, 0x100)], (0x80000, 0x80000, 0))"
    by (simp add: demo_sim_blocks demo_sim_blocks(1) [simplified] mergeable_def)
  then have m: "map (block u) as' = [(0, 0x40000, 1), (0x40000, 0x40000, 0x100)]" "block u p' = (0x80000, 0x80000, 0)"
    unfolding u(3) by (metis prod.inject rev_rev_ident, metis prod.inject)
  then have "length as' = 2" by (metis length_Cons length_map list.size(3) One_nat_def Suc_1)
  then have a: "as' = take 2 [1, 2, 3, 4]" "p' = [1, 2, 3, 4] ! 2" using u(2) by (metis append_eq_conv_conj, metis nth_append_length)
  then show ?thesis using u(1,4,5) m by (intro exI [of _ u]) simp
qed

end
