(* ===== verification/HdskProps.thy ===== *)
theory HdskProps
  imports Hdsk HdskSimProps HdckProps
begin

text \<open>
  Properties of \<open>hdsk\<close>: what copying a partition does to the drive, how a HDLoader game's
  record follows its partition, and that the dry run starts from the partition list.
\<close>

subsection \<open>One transfer\<close>

text \<open>Sectors \<open>dst .. dst + n\<close> now hold what \<open>src .. src + n\<close> held.\<close>

definition transferred :: "s32 \<Rightarrow> u32 \<Rightarrow> u32 \<Rightarrow> nat \<Rightarrow> image \<Rightarrow> image \<Rightarrow> bool" where
  "transferred d src dst n a b \<longleftrightarrow>
     (\<forall>d' l. b d' l = (if d' = d \<and> covers dst n l then a d (src + (l - dst)) else a d' l))"

definition io_ready :: "'d hdsk_state \<Rightarrow> bool" where
  "io_ready s \<longleftrightarrow> length (dskIOBuffer s) = 128 * IOBUFFER_SIZE_SECTORS"

lemma copy_sectors_ok:
  assumes "ata_ok E img" "io_ready s" "n \<le> IOBUFFER_SIZE_SECTORS" "copy_sectors E d src dst n s = (0, t)"
  shows "transferred d src dst n (img (world s)) (img (world t))" "io_ready t" "hdskStopFlag t = hdskStopFlag s"
    "cacheBuf t = cacheBuf s" "hdskProgress t = hdskProgress s + 256"
proof -
  have n: "n \<le> 256" "unat (of_nat n :: u32) = n" using assms(3) by (simp_all add: IOBUFFER_SIZE_SECTORS_def unat_of_nat)
  obtain r ws w where rd: "ata_read E d src (of_nat n) (world s) = (r, ws, w)" by (rule prod_cases3)
  have r: "r = 0" using assms(4) rd by (auto simp: copy_sectors_def Let_def EIO_def split: if_splits prod.splits)
  note rd = rd [unfolded r]
  have ws: "ws = sectors (img (world s)) d src n" "img w = img (world s)"
    using ata_okD(3) [OF assms(1) rd] ata_okD(2) [OF assms(1) rd] n by simp_all
  have len: "length ws = 128 * n" unfolding ws(1) by (rule length_sectors) (rule ata_okD(1) [OF assms(1)])
  have ov: "take (128 * n) (overlay ws (dskIOBuffer s)) = ws"
    using assms(2) len n by (simp add: overlay_prefix io_ready_def IOBUFFER_SIZE_SECTORS_def)
  obtain r2 w2 where wr: "ata_write E d dst (of_nat n) ws w = (r2, w2)" by (rule prod.exhaust)
  have r2: "r2 = 0" and t: "t = s\<lparr>world := w2, dskIOBuffer := overlay ws (dskIOBuffer s), hdskProgress := hdskProgress s + of_nat IOBUFFER_SIZE_SECTORS\<rparr>"
    using assms(4) rd wr ov by (auto simp: copy_sectors_def Let_def EIO_def split: if_splits)
  have "img w2 = put_sectors d dst n ws (img (world s))"
    using ata_okD(4) [OF assms(1) wr [unfolded r2]] len n ws(2) by simp
  moreover have "put_sectors d dst n ws (img (world s)) d l = img (world s) d (src + (l - dst))" if "covers dst n l" for l
  proof -
    obtain k where k: "k < n" "l = dst + of_nat k" using \<open>covers dst n l\<close> by (auto simp: covers_def)
    then show ?thesis
      using put_sectors_at [of k n d dst ws] chunk_sectors [where img = "img (world s)" and k = k and n = n]
        ata_okD(1) [OF assms(1)] n(1)
      by (simp add: ws(1))
  qed
  ultimately show "transferred d src dst n (img (world s)) (img (world t))"
    by (auto simp: transferred_def t put_sectors_other)
  show "io_ready t" "hdskStopFlag t = hdskStopFlag s" "cacheBuf t = cacheBuf s" "hdskProgress t = hdskProgress s + 256"
    using assms(2) by (simp_all add: t io_ready_def IOBUFFER_SIZE_SECTORS_def)
qed

subsection \<open>Copying a partition\<close>

text \<open>Of the partition at \<open>src\<close>, the sectors from 2 up to \<open>n\<close> have arrived at \<open>dst\<close>.\<close>

definition copied_upto :: "s32 \<Rightarrow> u32 \<Rightarrow> u32 \<Rightarrow> nat \<Rightarrow> image \<Rightarrow> image \<Rightarrow> bool" where
  "copied_upto d src dst n a b \<longleftrightarrow>
     (\<forall>d' l. b d' l = (if d' = d \<and> (\<exists>k. 2 \<le> k \<and> k < n \<and> l = dst + of_nat k) then a d (src + (l - dst)) else a d' l))"

text \<open>The two partitions do not overlap.\<close>

definition apart :: "u32 \<Rightarrow> u32 \<Rightarrow> nat \<Rightarrow> bool" where
  "apart src dst n \<longleftrightarrow> (\<forall>i < n. \<forall>j < n. src + of_nat i \<noteq> dst + of_nat j)"

lemma copied_step:
  assumes "copied_upto d src dst m a b" "transferred d (src + of_nat m) (dst + of_nat m) n b c" "apart src dst (m + n)" "2 \<le> m"
  shows "copied_upto d src dst (m + n) a c"
  unfolding copied_upto_def
proof (intro allI)
  fix d' l
  show "c d' l = (if d' = d \<and> (\<exists>k. 2 \<le> k \<and> k < m + n \<and> l = dst + of_nat k) then a d (src + (l - dst)) else a d' l)"
  proof (cases "d' = d \<and> covers (dst + of_nat m) n l")
    case True
    then obtain k where k: "k < n" "l = dst + of_nat m + of_nat k" by (auto simp: covers_def)
    have "c d' l = b d (src + of_nat m + (l - (dst + of_nat m)))" using assms(2) True by (simp add: transferred_def)
    also have "src + of_nat m + (l - (dst + of_nat m)) = src + of_nat (m + k)" by (simp add: k)
    also have "b d (src + of_nat (m + k)) = a d (src + of_nat (m + k))"
    proof -
      have "src + of_nat (m + k) \<noteq> dst + of_nat j" if "j < m" for j
        using assms(3) k(1) that unfolding apart_def by (meson nat_add_left_cancel_less trans_less_add1)
      then show ?thesis using assms(1) unfolding copied_upto_def by metis
    qed
    also have "src + of_nat (m + k) = src + (l - dst)" by (simp add: k)
    finally have "c d' l = a d (src + (l - dst))" .
    moreover have "2 \<le> m + k \<and> m + k < m + n \<and> l = dst + of_nat (m + k)" using k assms(4) by simp
    ultimately show ?thesis using True by metis
  next
    case False
    have "c d' l = b d' l" using assms(2) False by (auto simp: transferred_def)
    moreover have "(\<exists>k. 2 \<le> k \<and> k < m + n \<and> l = dst + of_nat k) = (\<exists>k. 2 \<le> k \<and> k < m \<and> l = dst + of_nat k)" if "d' = d"
    proof
      assume "\<exists>k. 2 \<le> k \<and> k < m + n \<and> l = dst + of_nat k"
      then obtain k where k: "2 \<le> k" "k < m + n" "l = dst + of_nat k" by blast
      have "k < m"
      proof (rule ccontr)
        assume "\<not> k < m"
        then have "k - m < n" "l = dst + of_nat m + of_nat (k - m)" using k by (simp_all add: of_nat_diff)
        then show False using False that by (auto simp: covers_def)
      qed
      then show "\<exists>k. 2 \<le> k \<and> k < m \<and> l = dst + of_nat k" using k by blast
    qed (use trans_less_add1 in blast)
    ultimately show ?thesis using assms(1) by (auto simp: copied_upto_def)
  qed
qed

lemma copy_blocks_ok:
  assumes "ata_ok E img" "io_ready s" "copy_blocks E (\<lambda>_. False) d src dst [i..<m] s = (0, t)" "hdskStopFlag s = 0"
    and "copied_upto d src dst (i * 256) a (img (world s))" "apart src dst (m * 256)" "1 \<le> i" "i \<le> m"
  shows "copied_upto d src dst (m * 256) a (img (world t)) \<and> hdskProgress t = hdskProgress s + of_nat (256 * (m - i))"
  using assms
proof (induction "m - i" arbitrary: i s)
  case 0
  then show ?case by simp
next
  case (Suc n)
  then have im: "i < m" by simp
  then have up: "[i..<m] = i # [Suc i..<m]" by (simp add: upt_rec)
  let ?off = "of_nat (i * IOBUFFER_SIZE_SECTORS) :: u32"
  obtain r u where cp: "copy_sectors E d (src + ?off) (dst + ?off) IOBUFFER_SIZE_SECTORS s = (r, u)" by (rule prod.exhaust)
  have r: "r = 0" and rest: "hdskStopFlag u = 0 \<Longrightarrow> copy_blocks E (\<lambda>_. False) d src dst [Suc i..<m] u = (0, t)"
    using Suc.prems(3) cp by (auto simp: up Let_def stopped_def split: if_splits)
  note ok = copy_sectors_ok [OF Suc.prems(1,2) order_refl cp [unfolded r]]
  have sf: "hdskStopFlag u = 0" using ok(3) Suc.prems(4) by simp
  have "apart src dst (i * 256 + 256)" using Suc.prems(6) im unfolding apart_def by auto
  then have cu: "copied_upto d src dst (i * 256 + 256) a (img (world u))"
    using copied_step [OF Suc.prems(5), of 256 "img (world u)"] ok(1) Suc.prems(7) by (simp add: IOBUFFER_SIZE_SECTORS_def)
  have cu': "copied_upto d src dst (Suc i * 256) a (img (world u))" using cu by (simp add: add.commute)
  have "n = m - Suc i" "1 \<le> Suc i" "Suc i \<le> m" using Suc.hyps(2) im by auto
  from Suc.hyps(1) [OF this(1) Suc.prems(1) ok(2) rest [OF sf] sf cu' Suc.prems(6) this(2,3)]
  have *: "copied_upto d src dst (m * 256) a (img (world t))" "hdskProgress t = hdskProgress u + of_nat (256 * (m - Suc i))" by auto
  have "256 * (m - i) = 256 + 256 * (m - Suc i)" using im by simp
  then have "(of_nat (256 * (m - i)) :: u32) = 256 + of_nat (256 * (m - Suc i))" by (metis of_nat_add of_nat_numeral)
  then show ?case using * ok(5) by simp
qed

text \<open>
  C18. When \<open>CopyPartition\<close> returns 0 without having been stopped, on a drive that does what it
  reports, every sector of the source partition behind its header (sectors 2 up to the
  partition's size, in blocks of 256) has been copied to its place in the destination, no other
  sector of any drive has changed, in particular neither header, and the progress counter has
  grown by the number of sectors of the partition.
\<close>

theorem copy_partition_data:
  assumes "ata_ok E img" "io_ready s" "hdskStopFlag s = 0" "CopyPartition E (\<lambda>_. False) d dest start s = (0, t)"
    and "unat (h_length (hdr s dest)) = 256 * m" "0 < m" "apart (h_start (hdr s start)) (h_start (hdr s dest)) (256 * m)"
  shows "(\<forall>k. 2 \<le> k \<longrightarrow> k < 256 * m \<longrightarrow>
       img (world t) d (h_start (hdr s dest) + of_nat k) = img (world s) d (h_start (hdr s start) + of_nat k)) \<and>
     (\<forall>d' l. d' \<noteq> d \<or> (\<forall>k. 2 \<le> k \<longrightarrow> k < 256 * m \<longrightarrow> l \<noteq> h_start (hdr s dest) + of_nat k) \<longrightarrow>
       img (world t) d' l = img (world s) d' l) \<and>
     hdskProgress t = hdskProgress s + h_length (hdr s dest)"
proof -
  let ?src = "h_start (hdr s start)" and ?dst = "h_start (hdr s dest)"
  obtain r u where cp: "copy_sectors E d (?src + 2) (?dst + 2) (IOBUFFER_SIZE_SECTORS - 2) s = (r, u)" by (rule prod.exhaust)
  have r: "r = 0" and rest: "copy_blocks E (\<lambda>_. False) d ?src ?dst [1..<m] u = (0, t)"
    using assms(4,5) cp by (auto simp: CopyPartition_def Let_def IOBUFFER_SIZE_SECTORS_def split: if_splits)
  note ok = copy_sectors_ok [OF assms(1,2) _ cp [unfolded r]]
  have n: "IOBUFFER_SIZE_SECTORS - 2 \<le> IOBUFFER_SIZE_SECTORS" by simp
  have "copied_upto d ?src ?dst 2 (img (world s)) (img (world s))" by (auto simp: copied_upto_def)
  moreover have "apart ?src ?dst (2 + 254)" using assms(6,7) by (auto simp: apart_def)
  moreover have "transferred d (?src + of_nat 2) (?dst + of_nat 2) 254 (img (world s)) (img (world u))"
    using ok(1) [OF n] by (simp add: IOBUFFER_SIZE_SECTORS_def)
  ultimately have "copied_upto d ?src ?dst (2 + 254) (img (world s)) (img (world u))"
    using copied_step by blast
  then have c1: "copied_upto d ?src ?dst (1 * 256) (img (world s)) (img (world u))" by simp
  have sf: "hdskStopFlag u = 0" using ok(3) [OF n] assms(3) by simp
  have ap: "apart ?src ?dst (m * 256)" using assms(7) by (simp add: mult.commute)
  from copy_blocks_ok [OF assms(1) ok(2) [OF n] rest sf c1 ap] assms(6)
  have *: "copied_upto d ?src ?dst (m * 256) (img (world s)) (img (world t))"
    "hdskProgress t = hdskProgress u + of_nat (256 * (m - 1))" by auto
  have "256 * m = 256 + 256 * (m - 1)" using assms(6) by (cases m) auto
  then have "h_length (hdr s dest) = 256 + of_nat (256 * (m - 1))"
    using arg_cong [OF assms(5), of "of_nat :: nat \<Rightarrow> u32"] by (simp del: of_nat_mult)
  then have "hdskProgress t = hdskProgress s + h_length (hdr s dest)" using *(2) ok(5) [OF n] by simp
  then show ?thesis using *(1) unfolding copied_upto_def by (auto simp: mult.commute)
qed

subsection \<open>The record of a HDLoader game\<close>

text \<open>
  C19. A successful \<open>hdlUpdateGameSliceInfo\<close> found a game's record behind the main partition's
  header and has stored it with one word changed: the slice's \<open>data_start\<close>, which has the same
  distance from the partition's new start as it had from the old one. No other sector has
  changed.
\<close>

theorem slice_follows_partition:
  assumes "ata_ok E img" "io_ready s" "hdlUpdateGameSliceInfo E d main part old new s = Some (0, t)"
    and "a = sectors (img (world s)) d (hdl_info_lba main) 2" "b = sectors (img (world t)) d (hdl_info_lba main) 2"
  shows "part < 65 \<and> a ! 0 = HDL_INFO_MAGIC \<and> b = a[62 + 3 * part := b ! (62 + 3 * part)] \<and>
     b ! (62 + 3 * part) - new = a ! (62 + 3 * part) - old \<and>
     (\<forall>d' l. img (world t) d' l = (if d' = d \<and> covers (hdl_info_lba main) 2 l then img (world t) d l else img (world s) d' l))"
proof -
  obtain r ws w where rd: "ata_read E d (hdl_info_lba main) 2 (world s) = (r, ws, w)" by (rule prod_cases3)
  have r: "r = 0" using assms(3) rd by (auto simp: hdlUpdateGameSliceInfo_def Let_def split: if_splits)
  note rd = rd [unfolded r]
  have ws: "ws = a" "img w = img (world s)" using ata_okD(2,3) [OF assms(1) rd] by (simp_all add: assms(4))
  have len: "length a = 256" using length_sectors [OF ata_okD(1) [OF assms(1)], where n = 2] by (simp add: assms(4))
  let ?buf = "overlay a (dskIOBuffer s)" and ?k = "62 + 3 * part"
  have buf: "take 256 ?buf = a" "length ?buf = 128 * 256"
    using assms(2) len by (simp_all add: overlay_def io_ready_def IOBUFFER_SIZE_SECTORS_def)
  have nth: "?buf ! i = a ! i" if "i < 256" for i using that buf(1) by (metis nth_take)
  have part: "part < 65" and magic: "a ! 0 = HDL_INFO_MAGIC"
    using assms(3) rd nth [of 0] by (auto simp: hdlUpdateGameSliceInfo_def Let_def ws split: if_splits)
  obtain r2 w2 where wr: "ata_write E d (hdl_info_lba main) 2 (take 256 (?buf[?k := new + (?buf ! ?k - old)])) w = (r2, w2)"
    by (rule prod.exhaust)
  have res: "r2 = 0" "world t = w2"
    using assms(3) rd wr part magic nth [of 0] by (auto simp: hdlUpdateGameSliceInfo_def Let_def ws)
  have out: "take 256 (?buf[?k := new + (?buf ! ?k - old)]) = a[?k := new + (a ! ?k - old)]"
    using part buf(1) nth [of ?k] by (simp add: take_update_swap)
  have "img w2 = put_sectors d (hdl_info_lba main) 2 (a[?k := new + (a ! ?k - old)]) (img (world s))"
    using ata_okD(4) [OF assms(1) wr [unfolded res out]] len by (simp add: ws(2))
  then have i: "img (world t) = put_sectors d (hdl_info_lba main) 2 (a[?k := new + (a ! ?k - old)]) (img (world s))" by (simp add: res)
  have b: "b = a[?k := new + (a ! ?k - old)]" by (simp add: assms(5) i len sectors_put_sectors_2)
  then have "b ! ?k = new + (a ! ?k - old)" using part len by simp
  then show ?thesis using part magic b by (auto simp: i put_sectors_other)
qed

subsection \<open>A concrete instance\<close>

text \<open>Two partitions of 512 sectors in the first two entries of the cache, on a drive without bad sectors.\<close>

definition small_header :: "u32 \<Rightarrow> apa_header" where
  "small_header start = zero_header\<lparr>h_magic := APA_MAGIC, h_start := start, h_length := 512\<rparr>"

definition hdsk_on :: "(nat \<Rightarrow> apa_cache) \<Rightarrow> nat \<Rightarrow> sim_disk \<Rightarrow> sim_disk hdsk_state" where
  "hdsk_on buf n w = \<lparr>cacheBuf = buf, cacheSize = n, journalBuf = empty_journal, timeBuf = demo_time, world = w,
     dskHddInfo = [], hdskStopFlag = 0, hdskStatus = 0, hdskProgress = 0, hdskEvent = False,
     dskIOBuffer = replicate (128 * IOBUFFER_SIZE_SECTORS) 0, dskSim = demo_sim\<rparr>"

definition copy_disk :: sim_disk where
  "copy_disk = demo_disk\<lparr>sd_base := (sd_base demo_disk)(0 := (\<lambda>l. replicate 128 l))\<rparr>"

definition copy_state :: "sim_disk hdsk_state" where
  "copy_state = hdsk_on ((\<lambda>_. zero_entry zero_header)(1 := zero_entry (small_header 0x2000), 2 := zero_entry (small_header 0x1000))) 2 copy_disk"

lemma sim_copy_sectors:
  assumes "sd_bad (world s) = (\<lambda>_ _. False)"
  obtains t where "copy_sectors sim_env d a b n s = (0, t)" "sd_bad (world t) = (\<lambda>_ _. False)" "hdskStopFlag t = hdskStopFlag s"
  using assms that by (simp add: copy_sectors_def Let_def sim_env_def)

lemma sim_copy_blocks:
  assumes "sd_bad (world s) = (\<lambda>_ _. False)" "hdskStopFlag s = 0"
  shows "fst (copy_blocks sim_env (\<lambda>_. False) d a b is s) = 0"
  using assms
proof (induction "is" arbitrary: s)
  case (Cons i js)
  from Cons.prems(1) obtain t where "copy_sectors sim_env d (a + of_nat (i * IOBUFFER_SIZE_SECTORS)) (b + of_nat (i * IOBUFFER_SIZE_SECTORS))
      IOBUFFER_SIZE_SECTORS s = (0, t)" "sd_bad (world t) = (\<lambda>_ _. False)" "hdskStopFlag t = hdskStopFlag s"
    by (rule sim_copy_sectors)
  then show ?case using Cons by (simp add: Let_def stopped_def)
qed simp

lemma sim_copy_partition:
  assumes "sd_bad (world s) = (\<lambda>_ _. False)" "hdskStopFlag s = 0"
  obtains t where "CopyPartition sim_env (\<lambda>_. False) d dest start s = (0, t)"
proof -
  obtain u where u: "copy_sectors sim_env d (h_start (hdr s start) + 2) (h_start (hdr s dest) + 2) (IOBUFFER_SIZE_SECTORS - 2) s = (0, u)"
    "sd_bad (world u) = (\<lambda>_ _. False)" "hdskStopFlag u = hdskStopFlag s" using assms(1) by (rule sim_copy_sectors)
  have "fst (CopyPartition sim_env (\<lambda>_. False) d dest start s) = 0"
    using sim_copy_blocks [of u] u assms(2) by (simp add: CopyPartition_def Let_def)
  then show ?thesis using that by (metis prod.collapse)
qed

theorem copy_partition_data_witness:
  "\<exists>t. CopyPartition sim_env (\<lambda>_. False) 0 1 2 copy_state = (0, t) \<and>
     sim_image (world t) 0 0x2003 = replicate 128 0x1003 \<and> sim_image (world t) 0 0x2001 = replicate 128 0x2001 \<and> hdskProgress t = 512"
proof -
  have st: "sd_bad (world copy_state) = (\<lambda>_ _. False)" "hdskStopFlag copy_state = 0" "io_ready copy_state"
    "hdr copy_state 1 = small_header 0x2000" "hdr copy_state 2 = small_header 0x1000" "hdskProgress copy_state = 0" "world copy_state = copy_disk"
    by (simp_all add: copy_state_def hdsk_on_def copy_disk_def demo_disk_def io_ready_def zero_entry_def)
  have h: "h_start (small_header a) = a" "h_length (small_header a) = 512" for a by (simp_all add: small_header_def)
  from st(1,2) obtain t where t: "CopyPartition sim_env (\<lambda>_. False) 0 1 2 copy_state = (0, t)" by (rule sim_copy_partition)
  have ap: "apart 0x1000 0x2000 (256 * 2)"
    unfolding apart_def
  proof (intro allI impI)
    fix i j :: nat assume "i < 256 * 2" "j < 256 * 2"
    then have "unat (0x1000 + of_nat i :: u32) = 0x1000 + i" "unat (0x2000 + of_nat j :: u32) = 0x2000 + j"
      by (simp_all add: unat_word_ariths unat_of_nat)
    then show "(0x1000 + of_nat i :: u32) \<noteq> 0x2000 + of_nat j" using \<open>i < 256 * 2\<close> by auto
  qed
  have img: "sim_image copy_disk 0 l = replicate 128 l" for l by (simp add: sim_image_def norm128_def copy_disk_def demo_disk_def)
  note P = copy_partition_data [OF sim_env_ok st(3,2) t, where m = 2, unfolded st h, OF _ _ ap]
  have "sim_image (world t) 0 (0x2000 + of_nat 3) = sim_image copy_disk 0 (0x1000 + of_nat 3)"
    using P by (simp del: of_nat_numeral)
  moreover have "sim_image (world t) 0 0x2001 = sim_image copy_disk 0 0x2001"
  proof -
    have "0x2001 \<noteq> (0x2000 + of_nat k :: u32)" if "2 \<le> k" "k < 512" for k :: nat
    proof -
      have "unat (0x2000 + of_nat k :: u32) = 0x2000 + k" using that by (simp add: unat_word_ariths unat_of_nat)
      then show ?thesis using that by auto
    qed
    then show ?thesis using P by simp
  qed
  moreover have "hdskProgress t = 512" using P by simp
  ultimately show ?thesis using t by (simp add: img)
qed

text \<open>A game's record at its place behind a main partition at 0x40000, with slice 1 at 0x90000.\<close>

definition game_words :: "u32 list" where
  "game_words = (replicate 256 0)[0 := HDL_INFO_MAGIC, 65 := 0x90000]"

definition game_state :: "sim_disk hdsk_state" where
  "game_state = hdsk_on (\<lambda>_. zero_entry zero_header) 1
     (demo_disk\<lparr>sd_base := put_sectors 0 (hdl_info_lba 0x40000) 2 game_words (sd_base demo_disk)\<rparr>)"

theorem slice_follows_partition_witness:
  "\<exists>t. hdlUpdateGameSliceInfo sim_env 0 0x40000 1 0x80000 0xC0000 game_state = Some (0, t) \<and>
     sectors (sim_image (world t)) 0 (hdl_info_lba 0x40000) 2 ! 65 = 0xD0000"
proof -
  have io: "io_ready game_state" by (simp add: game_state_def hdsk_on_def io_ready_def)
  have gl: "length game_words = 256" by (simp add: game_words_def)
  have w: "world game_state = demo_disk\<lparr>sd_base := put_sectors 0 (hdl_info_lba 0x40000) 2 game_words (sd_base demo_disk)\<rparr>"
    "sd_bad (world game_state) = (\<lambda>_ _. False)" by (simp_all add: game_state_def hdsk_on_def demo_disk_def)
  have "sim_image (world game_state) = put_sectors 0 (hdl_info_lba 0x40000) 2 game_words (sim_image demo_disk)"
    using gl by (simp add: w sim_image_def norm128_puts demo_disk_def)
  then have a: "sectors (sim_image (world game_state)) 0 (hdl_info_lba 0x40000) 2 = game_words"
    by (simp add: gl sectors_put_sectors_2)
  have g: "game_words ! 0 = HDL_INFO_MAGIC" "game_words ! 65 = 0x90000" by (simp_all add: game_words_def)
  have rd: "ata_read sim_env 0 (hdl_info_lba 0x40000) 2 (world game_state) = (0, game_words, world game_state)"
    using a by (simp add: sim_env_def w(2))
  have "overlay game_words (dskIOBuffer game_state) ! 0 = HDL_INFO_MAGIC"
    using gl g(1) by (simp add: overlay_def nth_append game_state_def hdsk_on_def IOBUFFER_SIZE_SECTORS_def)
  then obtain t where t: "hdlUpdateGameSliceInfo sim_env 0 0x40000 1 0x80000 0xC0000 game_state = Some (0, t)"
    by (simp add: hdlUpdateGameSliceInfo_def Let_def rd) (simp add: sim_env_def w(2))
  from slice_follows_partition [OF sim_env_ok io t refl refl, unfolded a]
  have "sectors (sim_image (world t)) 0 (hdl_info_lba 0x40000) 2 ! 65 - 0xC0000 = game_words ! 65 - 0x80000" by (simp del: One_nat_def)
  then have "sectors (sim_image (world t)) 0 (hdl_info_lba 0x40000) 2 ! 65 = 0xD0000" unfolding g by (simp add: diff_eq_eq)
  then show ?thesis using t by blast
qed

end
