(* ===== verification/ModuleStart.thy ===== *)
theory ModuleStart
  imports Hdck Hdsk
begin

text \<open>
  Starting the modules: the console's i.Link ID (\<open>libapa/src/misc.c\<close>), unlocking a drive with it
  (\<open>hdck/misc.c\<close>, \<open>hdsk/misc.c\<close>), the clock of \<open>hdsk\<close> and its \<open>_start\<close>.

  The parameter \<open>ri\<close> is \<open>sceCdRI\<close>: \<open>ri k id stat\<close> is what the \<open>k\<close>-th call returns, with the
  contents of the two buffers it was given afterwards. \<open>sec_unlock\<close> is
  \<open>ata_device_sce_sec_unlock\<close>.
\<close>

subsection \<open>The ID of the console\<close>

type_synonym cd_ri = "nat \<Rightarrow> u8 list \<Rightarrow> u32 \<Rightarrow> int \<times> u8 list \<times> u32"

function get_id_loop :: "cd_ri \<Rightarrow> nat \<Rightarrow> int \<times> u8 list" where
  "get_id_loop ri i =
     (let (r, id, stat) = ri i (replicate 32 0) 0
      in if r \<noteq> 0 \<and> stat = 0 then (0, id)
         else if 20 \<le> i then (- EIO, id)
         else get_id_loop ri (i + 1))"
  by pat_completeness auto
termination by (relation "measure (\<lambda>(ri, i). 21 - i)") auto

declare get_id_loop.simps [simp del]

definition apaGetIlinkID :: "cd_ri \<Rightarrow> int \<times> u8 list" where
  "apaGetIlinkID ri = get_id_loop ri 0"

definition HdckRI :: "cd_ri \<Rightarrow> int \<times> u8 list" where
  "HdckRI ri = (let (r, id, stat) = ri 0 (replicate 32 0) 0 in if r = 0 \<or> stat \<noteq> 0 then (- EIO, id) else (0, id))"

definition HdckUnlockHdd :: "cd_ri \<Rightarrow> (nat \<Rightarrow> u8 list \<Rightarrow> int) \<Rightarrow> nat \<Rightarrow> int" where
  "HdckUnlockHdd ri sec_unlock unit = (let (result, id) = HdckRI ri in if result = 0 then sec_unlock unit id else result)"

definition HdskRI :: "cd_ri \<Rightarrow> int \<times> u8 list" where
  "HdskRI ri = (let (r, id, stat) = ri 0 (replicate 32 0) 0 in if r = 0 \<or> stat \<noteq> 0 then (- EIO, id) else (0, id))"

definition HdskUnlockHdd :: "cd_ri \<Rightarrow> (nat \<Rightarrow> u8 list \<Rightarrow> int) \<Rightarrow> nat \<Rightarrow> int" where
  "HdskUnlockHdd ri sec_unlock unit = (let (result, id) = HdskRI ri in if result = 0 then sec_unlock unit id else result)"

subsection \<open>The start of \<open>hdsk\<close>\<close>

text \<open>The result, the time stored and the new static \<open>CurrentTime\<close>.\<close>

definition HdskReadClock :: "'d ata_env \<Rightarrow> apa_ps2time \<Rightarrow> 'd \<Rightarrow> int \<times> apa_ps2time \<times> apa_ps2time \<times> 'd" where
  "HdskReadClock E CurrentTime w =
     (let (r, c, w1) = read_clock E w;
          t = (if r \<noteq> 0
               then CurrentTime\<lparr>t_sec := btoi E (cd_second c), t_min := btoi E (cd_minute c), t_hour := btoi E (cd_hour c),
                      t_day := btoi E (cd_day c), t_month := btoi E (cd_month c AND 0x7F),
                      t_year := ucast (btoi E (cd_year c)) + 2000\<rparr>
               else CurrentTime)
      in (0, t, t, w1))"

definition hdsk_start_unit :: "(nat \<Rightarrow> (bool \<times> bool \<times> u32) option) \<Rightarrow> (nat \<Rightarrow> int) \<Rightarrow> nat \<Rightarrow> 'd hdsk_state \<Rightarrow> 'd hdsk_state option" where
  "hdsk_start_unit devinfo unlock i s =
     (case devinfo i of None \<Rightarrow> None
      | Some (ex, packet, total_sectors) \<Rightarrow>
          if ex \<and> \<not> packet
          then let h = dskHddInfo s ! i;
                   h1 = h\<lparr>dv_status := dv_status h - 1, dv_totalLBA := total_sectors, dv_partitionMaxSize := apaGetPartitionMax total_sectors\<rparr>;
                   h2 = (if unlock i = 0 then h1\<lparr>dv_status := dv_status h1 - 1\<rparr> else h1)
               in Some (s\<lparr>dskHddInfo := (dskHddInfo s)[i := h2]\<rparr>)
          else Some s)"

definition hdsk_start_restore :: "'d ata_env \<Rightarrow> nat \<Rightarrow> 'd hdsk_state \<Rightarrow> (bool \<times> 'd hdsk_state) option" where
  "hdsk_start_restore E i s =
     (if dv_status (dskHddInfo s ! i) < 2
      then do {
        (r, s1) \<leftarrow> apaJournalRestore E (of_nat i) s;
        if r \<noteq> 0 then Some (False, s1)
        else do {
          ((ok, format), s2) \<leftarrow> apaGetFormat E (of_nat i) s1;
          let h = dskHddInfo s2 ! i;
          let h1 = h\<lparr>dv_format := format\<rparr>;
          Some (True, s2\<lparr>dskHddInfo := (dskHddInfo s2)[i := (if ok then h1\<lparr>dv_status := dv_status h1 - 1\<rparr> else h1)]\<rparr>)
        }
      }
      else Some (True, s))"

text \<open>
  \<open>_start\<close>: whether the module stays resident. \<open>evf\<close> and \<open>thr\<close> are the results of creating the
  event flag and the thread, \<open>addok\<close> says that \<open>AddDrv\<close> succeeds.
\<close>

definition hdsk_start ::
    "'d ata_env \<Rightarrow> apa_ps2time \<Rightarrow> (nat \<Rightarrow> (bool \<times> bool \<times> u32) option) \<Rightarrow> (nat \<Rightarrow> int) \<Rightarrow> bool \<Rightarrow> bool \<Rightarrow> (nat \<Rightarrow> apa_header) \<Rightarrow>
      int \<Rightarrow> int \<Rightarrow> bool \<Rightarrow> 'd hdsk_state \<Rightarrow> (bool \<times> 'd hdsk_state) option" where
  "hdsk_start E CurrentTime devinfo unlock ok1 ok2 mem evf thr addok s =
     (let (r, _, _, w) = HdskReadClock E CurrentTime (world s);
          s0 = s\<lparr>world := w\<rparr>
      in if r \<noteq> 0 then Some (False, s0)
         else (case hdsk_start_unit devinfo unlock 0 s0 of None \<Rightarrow> Some (False, s0)
           | Some s1 \<Rightarrow>
             (case hdsk_start_unit devinfo unlock 1 s1 of None \<Rightarrow> Some (False, s1)
              | Some s2 \<Rightarrow> do {
                  (go0, s3) \<leftarrow> hdsk_start_restore E 0 (snd (apaCacheInit 128 ok1 ok2 mem s2));
                  if \<not> go0 then Some (False, s3)
                  else do {
                    (go1, s4) \<leftarrow> hdsk_start_restore E 1 s3;
                    Some (go1 \<and> 0 \<le> evf \<and> 0 \<le> thr \<and> addok, s4)
                  }
                })))"

subsection \<open>Properties\<close>

text \<open>The answers that carry an ID.\<close>

definition good_answer :: "cd_ri \<Rightarrow> nat \<Rightarrow> bool" where
  "good_answer ri k \<longleftrightarrow> fst (ri k (replicate 32 0) 0) \<noteq> 0 \<and> snd (snd (ri k (replicate 32 0) 0)) = 0"

lemma get_id_loop_result:
  assumes "i \<le> 20"
  shows "get_id_loop ri i = (case find (good_answer ri) [i..<21] of
     Some k \<Rightarrow> (0, fst (snd (ri k (replicate 32 0) 0))) | None \<Rightarrow> (- EIO, fst (snd (ri 20 (replicate 32 0) 0))))"
  using assms
proof (induction "20 - i" arbitrary: i)
  case 0
  then have "i = 20" by simp
  then show ?case by (subst get_id_loop.simps) (simp add: good_answer_def split: prod.splits)
next
  case (Suc n)
  then have i: "i < 20" "[i..<21] = i # [Suc i..<21]" by (simp_all add: upt_rec)
  then show ?case using Suc.hyps(1) [of "Suc i"] Suc.hyps(2)
    by (subst get_id_loop.simps) (simp add: good_answer_def split: prod.splits)
qed

text \<open>
  \<open>apaGetIlinkID\<close> asks for the console's ID at most 21 times and returns the ID of the first
  answer without an error; when all 21 fail it returns \<open>-EIO\<close>.
\<close>

theorem ilink_first_answer:
  "apaGetIlinkID ri = (case find (good_answer ri) [0..<21] of
     Some k \<Rightarrow> (0, fst (snd (ri k (replicate 32 0) 0))) | None \<Rightarrow> (- EIO, fst (snd (ri 20 (replicate 32 0) 0))))"
  unfolding apaGetIlinkID_def by (rule get_id_loop_result) simp

end
