(* ===== verification/Hdst.thy ===== *)
theory Hdst
  imports ApaDisk ApaOps
begin

text \<open>
  \<open>hdst/main.c\<close>: the device that erases and verifies ranges of sectors for the surface scan.
  Sector transfers are those of \<open>ata_env\<close>; \<open>ata_port\<close> is the command interface of \<open>atad\<close> and
  the task file registers (\<open>atahw.h\<close>), whose constants are parameters too.
\<close>

subsection \<open>State\<close>

record 'd ata_port =
  io_start :: "u16 \<Rightarrow> u16 \<Rightarrow> u16 \<Rightarrow> u16 \<Rightarrow> u16 \<Rightarrow> u16 \<Rightarrow> 'd \<Rightarrow> int \<times> 'd"
  io_finish :: "'d \<Rightarrow> int \<times> 'd"
  r_sector :: "'d \<Rightarrow> u16"
  r_lcyl :: "'d \<Rightarrow> u16"
  r_hcyl :: "'d \<Rightarrow> u16"
  r_select :: "'d \<Rightarrow> u16"
  r_control :: "u16 \<Rightarrow> 'd \<Rightarrow> 'd"
  ata_get_error :: "'d \<Rightarrow> u32"
  ATA_C_READ_VERIFY_SECTOR :: u16
  ATA_C_READ_VERIFY_SECTOR_EXT :: u16
  ATA_C_IDENTIFY_DEVICE :: u16
  ATA_RES_ERR_IO :: int
  ATA_ERR_ECC :: u32

record ata_devinfo =
  di_exists :: bool
  di_lba48 :: bool

text \<open>\<open>IOBuffer\<close> is None when NULL; its contents are 32-bit words. \<open>AtadDevInfo\<close> holds NULL as None.\<close>

record 'd hdst_state =
  AtadDevInfo :: "nat \<Rightarrow> ata_devinfo option"
  hdstBuffer :: "u32 list option"
  IOBufferSize :: u32
  drive :: 'd

definition MAX_SUPPORTED_UNITS :: nat where "MAX_SUPPORTED_UNITS = 2"
definition HDD_SECTOR_SIZE :: u32 where "HDD_SECTOR_SIZE = 512"
definition DEFAULT_IO_BUFFER_SIZE :: s32 where "DEFAULT_IO_BUFFER_SIZE = 16"
definition ENODEV :: int where "ENODEV = 19"

subsection \<open>Operations\<close>

text \<open>\<open>alloc n\<close> is \<open>AllocSysMemory\<close>: the contents of \<open>n\<close> new bytes, or None.\<close>

definition SetIOBufferSize :: "(u32 \<Rightarrow> u32 list option) \<Rightarrow> s32 \<Rightarrow> 'd hdst_state \<Rightarrow> int \<times> 'd hdst_state" where
  "SetIOBufferSize alloc n s =
     (case alloc (ucast n * HDD_SECTOR_SIZE) of
        Some buf \<Rightarrow> (0, s\<lparr>hdstBuffer := Some buf, IOBufferSize := ucast n\<rparr>)
      | None \<Rightarrow> (- ENOMEM, s\<lparr>hdstBuffer := None, IOBufferSize := 0\<rparr>))"

fun hdst_unlock :: "(nat \<Rightarrow> u8 list \<Rightarrow> 'd \<Rightarrow> int \<times> 'd) \<Rightarrow> (nat \<Rightarrow> ata_devinfo option) \<Rightarrow> u8 list \<Rightarrow> nat list \<Rightarrow> 'd hdst_state \<Rightarrow> 'd hdst_state option" where
  "hdst_unlock sec_unlock devinfo ilink [] s = Some s"
| "hdst_unlock sec_unlock devinfo ilink (i # is) s =
     (let s1 = s\<lparr>AtadDevInfo := (AtadDevInfo s)(i := devinfo i)\<rparr> in
      case devinfo i of None \<Rightarrow> None
      | Some info \<Rightarrow>
          hdst_unlock sec_unlock devinfo ilink is
            (if di_exists info then s1\<lparr>drive := snd (sec_unlock i ilink (drive s1))\<rparr> else s1))"

definition hdst_init ::
    "(nat \<Rightarrow> u8 list \<Rightarrow> 'd \<Rightarrow> int \<times> 'd) \<Rightarrow> (nat \<Rightarrow> ata_devinfo option) \<Rightarrow> (u32 \<Rightarrow> u32 list option) \<Rightarrow> u8 list \<Rightarrow>
      'd hdst_state \<Rightarrow> (int \<times> 'd hdst_state) option" where
  "hdst_init sec_unlock devinfo alloc ilink s = do {
     s1 \<leftarrow> hdst_unlock sec_unlock devinfo ilink [0..<MAX_SUPPORTED_UNITS] s;
     Some (0, snd (SetIOBufferSize alloc DEFAULT_IO_BUFFER_SIZE s1))
   }"

definition hdst_PS2DetectDevice :: "(nat \<Rightarrow> ata_devinfo option) \<Rightarrow> nat \<Rightarrow> int \<times> ata_devinfo option" where
  "hdst_PS2DetectDevice devinfo device = (case devinfo device of Some d \<Rightarrow> (0, Some d) | None \<Rightarrow> (- ENODEV, None))"

text \<open>The loop runs forever when the buffer's size is 0 and the drive accepts empty transfers.\<close>

partial_function (option) erase_loop ::
    "'d ata_env \<Rightarrow> s32 \<Rightarrow> u32 \<Rightarrow> u32 list \<Rightarrow> u32 \<Rightarrow> u32 \<Rightarrow> 'd hdst_state \<Rightarrow> (int \<times> 'd hdst_state) option" where
  "erase_loop E device bufsize buf lba count s =
     (if count = 0 then Some (0, s)
      else let nsectors = (if bufsize < count then bufsize else count);
               (r, w) = ata_write E device lba nsectors (take (128 * unat nsectors) buf) (drive s);
               s1 = s\<lparr>drive := w\<rparr>
           in if r \<noteq> 0 then Some (r, s1)
              else erase_loop E device bufsize buf (lba + nsectors) (count - nsectors) s1)"

definition hdst_EraseSectors ::
    "'d ata_env \<Rightarrow> s32 \<Rightarrow> u32 \<Rightarrow> u32 \<Rightarrow> 'd hdst_state \<Rightarrow> (int \<times> 'd hdst_state) option" where
  "hdst_EraseSectors E device lba count s =
     (let bytes = (if IOBufferSize s < count then IOBufferSize s else count) * HDD_SECTOR_SIZE;
          words = unat bytes div 4;
          buf = (case hdstBuffer s of Some b \<Rightarrow> b | None \<Rightarrow> []);
          buf1 = replicate words 0 @ drop words buf
      in if length buf < words then None
         else erase_loop E device (IOBufferSize s) buf1 lba count (s\<lparr>hdstBuffer := map_option (\<lambda>_. buf1) (hdstBuffer s)\<rparr>))"

definition ata_device_identify :: "'d ata_port \<Rightarrow> nat \<Rightarrow> 'd hdst_state \<Rightarrow> int \<times> 'd hdst_state" where
  "ata_device_identify A device s =
     (let (res, w) = io_start A 0 0 0 0 (of_nat (device * 16) AND 0xffff) (ATA_C_IDENTIFY_DEVICE A) (drive s) in
      if res \<noteq> 0 then (res, s\<lparr>drive := w\<rparr>)
      else let (res2, w2) = io_finish A w in (res2, s\<lparr>drive := w2\<rparr>))"

text \<open>The registers that name \<open>lba\<close>: sector, lcyl, hcyl, select.\<close>

definition verify_regs :: "bool \<Rightarrow> nat \<Rightarrow> u32 \<Rightarrow> u16 \<times> u16 \<times> u16 \<times> u16" where
  "verify_regs lba48 device lba =
     (let lcyl = ucast (drop_bit 8 lba AND 0xff); hcyl = ucast (drop_bit 16 lba AND 0xff);
          dev = push_bit 4 (of_nat device) :: u32
      in if lba48
         then (ucast ((drop_bit 16 lba AND 0xff00) OR (lba AND 0xff)), lcyl, hcyl, ucast ((dev OR 0x40) AND 0xffff))
         else (ucast (lba AND 0xff), lcyl, hcyl, ucast ((dev OR (drop_bit 24 lba AND 0xf) OR 0x40) AND 0xffff)))"

text \<open>The address the registers hold after an error, and the drive after the registers were read.\<close>

definition error_lba :: "'d ata_port \<Rightarrow> bool \<Rightarrow> 'd \<Rightarrow> u32 \<times> 'd" where
  "error_lba A lba48 w =
     (let low = (ucast (r_sector A w) AND 0xFF) OR push_bit 8 (ucast (r_lcyl A w) AND 0xFF) OR push_bit 16 (ucast (r_hcyl A w) AND 0xFF)
      in if lba48
         then let w1 = r_control A 0x80 w in (low OR push_bit 24 (ucast (r_sector A w1) AND 0xFF), r_control A 0x00 w1)
         else (low OR push_bit 24 (ucast (r_select A w) AND 0xF), w))"

function read_verify_loop ::
    "'d ata_port \<Rightarrow> bool \<Rightarrow> nat \<Rightarrow> u32 \<Rightarrow> u32 \<Rightarrow> u32 \<Rightarrow> 'd \<Rightarrow> int \<times> 'd" where
  "read_verify_loop A lba48 device StartLBA lba count w =
     (if count = 0 then (0, w)
      else let limit = (if lba48 then 65536 else 256);
               len = (if limit < count then limit else count);
               (sector, lcyl, hcyl, select) = verify_regs lba48 device lba;
               command = (if lba48 then ATA_C_READ_VERIFY_SECTOR_EXT A else ATA_C_READ_VERIFY_SECTOR A);
               (res, w1) = io_start A (ucast len) sector lcyl hcyl select command w
           in if res \<noteq> 0 then (res, w1)
              else let (res2, w2) = io_finish A w1
                   in if res2 \<noteq> 0
                      then if res2 = ATA_RES_ERR_IO A
                           then let (bad, w3) = error_lba A lba48 w2
                                in (if ata_get_error A w3 AND ATA_ERR_ECC A \<noteq> 0 then sint (bad - StartLBA + 1) else res2, w3)
                           else (res2, w2)
                      else read_verify_loop A lba48 device StartLBA (lba + len) (count - len) w2)"
  by pat_completeness auto
termination
proof (relation "measure (\<lambda>(A, lba48, device, st, lba, count, w). unat count)", simp, goal_cases)
  case (1 A lba48 device StartLBA lba count w limit len x sector y lcyl z hcyl select command p res w1 q res2 w2)
  then have "0 < unat len" "unat len \<le> unat count" by (auto simp: unat_gt_0 word_less_nat_alt split: if_splits)
  then show ?case by (simp add: unat_sub word_le_nat_alt)
qed

declare read_verify_loop.simps [simp del]

definition ata_device_read_verify :: "'d ata_port \<Rightarrow> nat \<Rightarrow> u32 \<Rightarrow> u32 \<Rightarrow> 'd hdst_state \<Rightarrow> (int \<times> 'd hdst_state) option" where
  "ata_device_read_verify A device lba count s =
     (case AtadDevInfo s device of
        None \<Rightarrow> if count = 0 then Some (0, s) else None
      | Some info \<Rightarrow> let (res, w) = read_verify_loop A (di_lba48 info) device lba lba count (drive s) in Some (res, s\<lparr>drive := w\<rparr>))"

subsection \<open>The devctl interface\<close>

datatype hdst_devctl_cmd = HDST_PS2_DETECT | HDST_IDENTIFY | HDST_VERIFY_SECTORS | HDST_ERASE_SECTORS | HDST_SMART_STATUS
  | HDST_FLUSH_CACHE | HDST_SET_IO_BUFFER_SIZE | HDST_OTHER

text \<open>
  The argument of a call: the range of the sector commands, the number of \<open>SET_IO_BUFFER_SIZE\<close>;
  None is NULL. \<open>smart\<close> is \<open>ata_device_smart_get_status\<close>. The case of \<open>FLUSH_CACHE\<close> has no
  \<open>break\<close>: it goes on with the case behind it.
\<close>

definition hdst_devctl ::
    "'d ata_env \<Rightarrow> 'd ata_port \<Rightarrow> (nat \<Rightarrow> ata_devinfo option) \<Rightarrow> (nat \<Rightarrow> 'd \<Rightarrow> int \<times> 'd) \<Rightarrow> (u32 \<Rightarrow> u32 list option) \<Rightarrow>
      nat \<Rightarrow> hdst_devctl_cmd \<Rightarrow> (u32 \<times> u32) option \<Rightarrow> s32 option \<Rightarrow> 'd hdst_state \<Rightarrow> (int \<times> 'd hdst_state) option" where
  "hdst_devctl E A devinfo smart alloc unit cmd rng num s =
     (if \<not> unit < MAX_SUPPORTED_UNITS then Some (- ENODEV, s)
      else (case AtadDevInfo s unit of None \<Rightarrow> None
      | Some info \<Rightarrow>
        if \<not> di_exists info then Some (- ENODEV, s)
        else (case cmd of
            HDST_PS2_DETECT \<Rightarrow> Some (fst (hdst_PS2DetectDevice devinfo unit), s)
          | HDST_IDENTIFY \<Rightarrow> Some (ata_device_identify A unit s)
          | HDST_VERIFY_SECTORS \<Rightarrow> do { (lba, n) \<leftarrow> rng; ata_device_read_verify A unit lba n s }
          | HDST_ERASE_SECTORS \<Rightarrow> do { (lba, n) \<leftarrow> rng; hdst_EraseSectors E (of_nat unit) lba n s }
          | HDST_SMART_STATUS \<Rightarrow> (let (r, w) = smart unit (drive s) in Some (r, s\<lparr>drive := w\<rparr>))
          | HDST_FLUSH_CACHE \<Rightarrow>
              (let (r, w) = ata_flush E (of_nat unit) (drive s) in do { n \<leftarrow> num; Some (SetIOBufferSize alloc n (s\<lparr>drive := w\<rparr>)) })
          | HDST_SET_IO_BUFFER_SIZE \<Rightarrow> do { n \<leftarrow> num; Some (SetIOBufferSize alloc n s) }
          | HDST_OTHER \<Rightarrow> Some (- EINVAL, s))))"

end
