(* ===== verification/HdstProps.thy ===== *)
theory HdstProps
  imports Hdst
begin

text \<open>
  Properties of \<open>hdst\<close>: erasing clears exactly the range it is given, verifying reports the
  first bad sector of a drive that behaves as the ATA registers are documented.
\<close>

subsection \<open>Erasing\<close>

lemma covers_split: "covers l (a + b) x \<longleftrightarrow> covers l a x \<or> covers (l + of_nat a) b x"
proof
  assume "covers l (a + b) x"
  then obtain k where k: "k < a + b" "x = l + of_nat k" by (auto simp: covers_def)
  show "covers l a x \<or> covers (l + of_nat a) b x"
  proof (cases "k < a")
    case False
    then have "k - a < b" "x = l + of_nat a + of_nat (k - a)" using k by (simp_all add: of_nat_diff)
    then show ?thesis unfolding covers_def by blast
  qed (use k in \<open>auto simp: covers_def\<close>)
next
  assume "covers l a x \<or> covers (l + of_nat a) b x"
  then show "covers l (a + b) x"
  proof
    assume "covers (l + of_nat a) b x"
    then obtain k where "k < b" "x = l + of_nat (a + k)" by (auto simp: covers_def)
    then show ?thesis unfolding covers_def by (intro exI [of _ "a + k"]) simp
  next
    assume "covers l a x"
    then obtain k where "k < a" "x = l + of_nat k" by (auto simp: covers_def)
    then show "covers l (a + b) x" unfolding covers_def by (intro exI [of _ k]) simp
  qed
qed

lemma chunk_zeros: "k < n \<Longrightarrow> chunk k (replicate (128 * n) 0) = replicate 128 0"
proof -
  assume "k < n"
  then have "min (128 * n - 128 * k) 128 = 128" by simp
  then show ?thesis by (simp add: chunk_def)
qed

lemma put_zeros:
  assumes "n \<le> 2 ^ 32"
  shows "put_sectors d l n (replicate (128 * n) 0) a d' x = (if d' = d \<and> covers l n x then replicate 128 0 else a d' x)"
proof (cases "d' = d \<and> covers l n x")
  case True
  then obtain k where "k < n" "x = l + of_nat k" by (auto simp: covers_def)
  then show ?thesis using True put_sectors_at [OF \<open>k < n\<close> assms, of d l] chunk_zeros [OF \<open>k < n\<close>] by simp
next
  case False
  then show ?thesis using put_sectors_other [OF False] by auto
qed

text \<open>What erasing may do: with result 0 the range is zero, the rest of the drives never changes.\<close>

definition erased :: "s32 \<Rightarrow> u32 \<Rightarrow> nat \<Rightarrow> int \<Rightarrow> image \<Rightarrow> image \<Rightarrow> bool" where
  "erased d l n r a b \<longleftrightarrow>
     (\<forall>d' x. \<not> (d' = d \<and> covers l n x) \<longrightarrow> b d' x = a d' x) \<and> (r = 0 \<longrightarrow> (\<forall>x. covers l n x \<longrightarrow> b d x = replicate 128 0))"

lemma erased_step:
  assumes "erased d l m 0 a b" "erased d (l + of_nat m) n r b c"
  shows "erased d l (m + n) r a c"
  unfolding erased_def
proof (intro conjI allI impI)
  show "c d' x = a d' x" if "\<not> (d' = d \<and> covers l (m + n) x)" for d' x
    using assms that unfolding erased_def covers_split by metis
  show "c d x = replicate 128 0" if "r = 0" "covers l (m + n) x" for x
    using assms that unfolding erased_def covers_split by metis
qed

lemma erase_loop_result:
  assumes "ata_ok E img" "0 < bufsize" "\<And>k. k \<le> bufsize \<Longrightarrow> k \<le> count \<Longrightarrow> take (128 * unat k) buf = replicate (128 * unat k) 0"
  shows "\<exists>r t. erase_loop E d bufsize buf l count s = Some (r, t) \<and> erased d l (unat count) r (img (drive s)) (img (drive t))"
  using assms(3)
proof (induction "unat count" arbitrary: count l s rule: less_induct)
  case less
  show ?case
  proof (cases "count = 0")
    case True
    then show ?thesis by (simp add: erase_loop.simps erased_def covers_def)
  next
    case False
    let ?k = "if bufsize < count then bufsize else count"
    have k: "0 < unat ?k" "?k \<le> bufsize" "?k \<le> count" "unat ?k \<le> unat count"
      using False assms(2) by (auto simp: unat_gt_0 word_less_nat_alt word_le_nat_alt)
    have zs: "take (128 * unat ?k) buf = replicate (128 * unat ?k) 0" using less.prems k(2,3) by blast
    obtain r w where wr: "ata_write E d l ?k (replicate (128 * unat ?k) 0) (drive s) = (r, w)" by (rule prod.exhaust)
    let ?s1 = "s\<lparr>drive := w\<rparr>"
    have "unat ?k < 2 ^ 32" using unsigned_less [of ?k] by simp
    then have "img w = put_sectors d l (unat ?k) (replicate (128 * unat ?k) 0) (img (drive s))" if "r = 0"
      using ata_okD(4) [OF assms(1) wr [unfolded that]] by simp
    moreover have "img w d' x = img (drive s) d' x" if "\<not> (d' = d \<and> covers l (unat ?k) x)" for d' x
      using ata_okD(5) [OF assms(1) wr _ that] by simp
    ultimately have dn: "erased d l (unat ?k) r (img (drive s)) (img w)"
      using put_zeros [of "unat ?k" d l] \<open>unat ?k < 2 ^ 32\<close> unfolding erased_def by (metis less_imp_le)
    have eq: "erase_loop E d bufsize buf l count s =
        (if r \<noteq> 0 then Some (r, ?s1) else erase_loop E d bufsize buf (l + ?k) (count - ?k) ?s1)"
      using False wr zs by (subst erase_loop.simps) (simp add: Let_def)
    have ck: "unat count = unat ?k + unat (count - ?k)" using k(3) k(4) by (simp add: unat_sub)
    show ?thesis
    proof (cases "r = 0")
      case True
      have "unat (count - ?k) < unat count" using ck k(1) by simp
      moreover have "take (128 * unat j) buf = replicate (128 * unat j) 0" if "j \<le> bufsize" "j \<le> count - ?k" for j
      proof -
        have "j \<le> count" using that(2) ck by (simp add: word_le_nat_alt)
        then show ?thesis using less.prems that(1) by blast
      qed
      ultimately obtain r2 t where t: "erase_loop E d bufsize buf (l + ?k) (count - ?k) ?s1 = Some (r2, t)"
        "erased d (l + ?k) (unat (count - ?k)) r2 (img w) (img (drive t))"
        using less.hyps [of "count - ?k" "l + ?k" ?s1] by auto
      have "erased d l (unat count) r2 (img (drive s)) (img (drive t))"
        using erased_step [of d l "unat ?k"] dn t(2) ck True by simp
      then show ?thesis using eq True t(1) by auto
    next
      case False
      have "covers l (unat ?k) x \<Longrightarrow> covers l (unat count) x" for x using covers_split [of l "unat ?k"] ck by metis
      then have "erased d l (unat count) r (img (drive s)) (img w)" using dn False by (auto simp: erased_def)
      then show ?thesis using eq False by auto
    qed
  qed
qed

text \<open>
  C22. \<open>hdst_EraseSectors\<close> with the buffer \<open>SetIOBufferSize\<close> has set up (of \<open>IOBufferSize\<close> sectors,
  at least one) returns, whatever the number of sectors. When its result is 0, every sector of
  the range is zero; no sector outside the range has changed, whatever the result.
\<close>

theorem erase_exact:
  assumes "ata_ok E img" "hdstBuffer s = Some buf" "length buf = 128 * unat (IOBufferSize s)"
    and "IOBufferSize s \<noteq> 0" "unat (IOBufferSize s) < 2 ^ 23"
  shows "\<exists>r t. hdst_EraseSectors E d l count s = Some (r, t) \<and>
     (r = 0 \<longrightarrow> (\<forall>x. covers l (unat count) x \<longrightarrow> img (drive t) d x = replicate 128 0)) \<and>
     (\<forall>d' x. \<not> (d' = d \<and> covers l (unat count) x) \<longrightarrow> img (drive t) d' x = img (drive s) d' x)"
proof -
  let ?m = "if IOBufferSize s < count then IOBufferSize s else count"
  have m: "unat ?m \<le> unat (IOBufferSize s)" by (auto simp: word_less_nat_alt)
  have w: "unat (?m * HDD_SECTOR_SIZE) div 4 = 128 * unat ?m"
    using m assms(5) by (simp add: HDD_SECTOR_SIZE_def unat_word_ariths)
  let ?buf = "replicate (128 * unat ?m) 0 @ drop (128 * unat ?m) buf"
  have "take (128 * unat k) ?buf = replicate (128 * unat k) 0" if "k \<le> IOBufferSize s" "k \<le> count" for k
  proof -
    have "unat k \<le> unat ?m" using that by (simp add: word_le_nat_alt)
    then show ?thesis by (simp add: min_def)
  qed
  then obtain r t where "erase_loop E d (IOBufferSize s) ?buf l count (s\<lparr>hdstBuffer := Some ?buf\<rparr>) = Some (r, t)"
    "erased d l (unat count) r (img (drive s)) (img (drive t))"
    using erase_loop_result [OF assms(1), of "IOBufferSize s" count ?buf d l "s\<lparr>hdstBuffer := Some ?buf\<rparr>"] assms(4)
    by (auto simp: word_gt_0)
  moreover have "hdst_EraseSectors E d l count s = erase_loop E d (IOBufferSize s) ?buf l count (s\<lparr>hdstBuffer := Some ?buf\<rparr>)"
    unfolding hdst_EraseSectors_def Let_def w using assms(2,3) m by simp
  ultimately show ?thesis unfolding erased_def by auto
qed

subsection \<open>Erasing without a buffer\<close>

definition stuck_args :: "'d ata_env \<Rightarrow> s32 \<Rightarrow> u32 \<Rightarrow> u32 \<Rightarrow> bool" where
  "stuck_args E d bufsize count \<longleftrightarrow> bufsize = 0 \<and> count \<noteq> 0 \<and> (\<forall>l w. fst (ata_write E d l 0 [] w) = 0)"

lemma erase_loop_empty:
  assumes "erase_loop E d bufsize buf l count s = Some y"
  shows "\<not> stuck_args E d bufsize count"
proof (rule erase_loop.raw_induct [where P = "\<lambda>E d bufsize buf l count s y. \<not> stuck_args E d bufsize count", OF _ assms])
  fix rc and E :: "'d ata_env" and d bufsize buf l count s y
  assume IH: "\<And>E d bufsize buf l count s y. rc E d bufsize buf l count s = Some y \<Longrightarrow> \<not> stuck_args E d bufsize count"
    and body: "(if count = 0 then Some (0, s)
      else let nsectors = if bufsize < count then bufsize else count;
               (r, w) = ata_write E d l nsectors (take (128 * unat nsectors) buf) (drive s);
               s1 = s\<lparr>drive := w\<rparr>
           in if r \<noteq> 0 then Some (r, s1) else rc E d bufsize buf (l + nsectors) (count - nsectors) s1) = Some y"
  show "\<not> stuck_args E d bufsize count"
  proof
    assume a: "stuck_args E d bufsize count"
    obtain r w where wr: "ata_write E d l 0 [] (drive s) = (r, w)" by (rule prod.exhaust)
    then have "r = 0" using a unfolding stuck_args_def by (metis fst_conv)
    then have "rc E d bufsize buf l count (s\<lparr>drive := w\<rparr>) = Some y"
      using body a wr by (simp add: stuck_args_def Let_def word_gt_0)
    from IH [OF this] a show False by simp
  qed
qed

text \<open>
  After \<open>SetIOBufferSize\<close> has failed to allocate (the buffer's size is 0), erasing a non-empty
  range never returns on a drive that accepts a transfer of no sectors: the loop advances by 0.
\<close>

theorem erase_without_buffer_hangs:
  assumes "SetIOBufferSize alloc n s = (r, t)" "r \<noteq> 0" "count \<noteq> 0" "\<And>l w. fst (ata_write E d l 0 [] w) = 0"
  shows "r = - ENOMEM \<and> hdst_EraseSectors E d l count t = None"
proof -
  have t: "hdstBuffer t = None" "IOBufferSize t = 0" "r = - ENOMEM"
    using assms(1,2) by (auto simp: SetIOBufferSize_def split: option.splits)
  have "erase_loop E d 0 [] l count (t\<lparr>hdstBuffer := None\<rparr>) = None"
    using erase_loop_empty [of E d 0] assms(3,4) unfolding stuck_args_def by (metis option.exhaust)
  then show ?thesis using assms(3) t by (simp add: hdst_EraseSectors_def word_gt_0)
qed

subsection \<open>Verifying\<close>

text \<open>What the task file registers mean: the address and the number of sectors of a command.\<close>

definition reg_lba :: "bool \<Rightarrow> u16 \<Rightarrow> u16 \<Rightarrow> u16 \<Rightarrow> u16 \<Rightarrow> u32" where
  "reg_lba lba48 sector lcyl hcyl select =
     ucast (sector AND 0xFF) OR push_bit 8 (ucast (lcyl AND 0xFF)) OR push_bit 16 (ucast (hcyl AND 0xFF)) OR
     push_bit 24 (if lba48 then ucast (drop_bit 8 sector AND 0xFF) else ucast (select AND 0xF))"

definition reg_count :: "bool \<Rightarrow> u16 \<Rightarrow> nat" where
  "reg_count lba48 n =
     (if lba48 then (if n = 0 then 65536 else unat n) else if n AND 0xFF = 0 then 256 else unat (n AND 0xFF))"

text \<open>The registers hold the address \<open>x\<close>, its top byte behind the HOB bit for 48-bit drives.\<close>

definition regs_hold :: "'d ata_port \<Rightarrow> bool \<Rightarrow> 'd \<Rightarrow> u32 \<Rightarrow> bool" where
  "regs_hold A lba48 w x \<longleftrightarrow>
     r_sector A w AND 0xFF = ucast x AND 0xFF \<and> r_lcyl A w AND 0xFF = ucast (drop_bit 8 x) AND 0xFF \<and>
     r_hcyl A w AND 0xFF = ucast (drop_bit 16 x) AND 0xFF \<and>
     (if lba48 then r_sector A (r_control A 0x80 w) AND 0xFF = ucast (drop_bit 24 x) AND 0xFF
      else r_select A w AND 0xF = ucast (drop_bit 24 x) AND 0xF \<and> drop_bit 28 x = 0)"

text \<open>
  The documented behaviour of READ VERIFY on a drive whose bad sectors are \<open>bad\<close>: it ends with
  an ECC error at the first bad sector of its range, whose address is in the registers.
\<close>

definition verify_drive :: "'d ata_port \<Rightarrow> bool \<Rightarrow> (u32 \<Rightarrow> bool) \<Rightarrow> bool" where
  "verify_drive A lba48 bad \<longleftrightarrow> ATA_RES_ERR_IO A \<noteq> 0 \<and>
     (\<forall>w n sector lcyl hcyl select r w1 r2 w2.
        io_start A n sector lcyl hcyl select (if lba48 then ATA_C_READ_VERIFY_SECTOR_EXT A else ATA_C_READ_VERIFY_SECTOR A) w = (r, w1) \<longrightarrow>
        io_finish A w1 = (r2, w2) \<longrightarrow>
        r = 0 \<and>
        (case find (\<lambda>k. bad (reg_lba lba48 sector lcyl hcyl select + of_nat k)) [0..<reg_count lba48 n] of
           None \<Rightarrow> r2 = 0
         | Some k \<Rightarrow> r2 = ATA_RES_ERR_IO A \<and> regs_hold A lba48 w2 (reg_lba lba48 sector lcyl hcyl select + of_nat k) \<and>
             ata_get_error A (snd (error_lba A lba48 w2)) AND ATA_ERR_ECC A \<noteq> 0))"

lemma mask_ff: "(0xFF :: u32) = mask 8" "(0xFF :: u16) = mask 8" "(0xF :: u32) = mask 4" "(0xF :: u16) = mask 4"
  "(0xFF00 :: u32) = push_bit 8 (mask 8)" "(0xFFFF :: u32) = mask 16"
  by (simp_all add: mask_eq_exp_minus_1)

lemma four_bytes:
  fixes x :: u32
  shows "take_bit 8 x OR push_bit 8 (take_bit 8 (drop_bit 8 x)) OR push_bit 16 (take_bit 8 (drop_bit 16 x)) OR
     push_bit 24 (take_bit 8 (drop_bit 24 x)) = x"
proof (rule bit_word_eqI)
  fix n assume "n < LENGTH(32)"
  then consider "n < 8" | "8 \<le> n" "n < 16" | "16 \<le> n" "n < 24" | "24 \<le> n" "n < 32" by fastforce
  then show "bit (take_bit 8 x OR push_bit 8 (take_bit 8 (drop_bit 8 x)) OR push_bit 16 (take_bit 8 (drop_bit 16 x)) OR
     push_bit 24 (take_bit 8 (drop_bit 24 x))) n = bit x n"
    by cases (auto simp: bit_or_iff bit_push_bit_iff bit_take_bit_iff bit_drop_bit_eq)
qed

lemma ucast_byte: "ucast (ucast (take_bit 8 (y :: u32)) :: u16) = take_bit 8 y"
  by (rule bit_word_eqI) (auto simp: bit_simps)


lemma top_nibble: "drop_bit 28 (x :: u32) = 0 \<Longrightarrow> take_bit 4 (drop_bit 24 x) = take_bit 8 (drop_bit 24 x)"
proof (rule bit_word_eqI)
  fix n assume z: "drop_bit 28 x = 0"
  have "\<not> bit x (24 + n)" if "4 \<le> n"
    using arg_cong [OF z, of "\<lambda>y. bit y (n - 4)"] that by (simp add: bit_drop_bit_eq)
  then show "bit (take_bit 4 (drop_bit 24 x)) n = bit (take_bit 8 (drop_bit 24 x)) n"
    by (cases "n < 4") (auto simp: bit_take_bit_iff bit_drop_bit_eq)
qed

lemma bit_64: "bit (0x40 :: int) n \<Longrightarrow> n = 6" "bit (0x40 :: u32) n \<Longrightarrow> n = 6" "bit (0x40 :: u16) n \<Longrightarrow> n = 6"
  using bit_exp_iff [of 6 n, where ?'a = int] bit_exp_iff [of 6 n, where ?'a = u32] bit_exp_iff [of 6 n, where ?'a = u16]
  by simp_all

lemma verify_sector:
  "ucast (ucast (y AND mask 8 :: u32) AND mask 8 :: u16) = take_bit 8 y"
  "ucast (ucast ((drop_bit 16 x AND push_bit 8 (mask 8)) OR (x AND mask 8)) AND mask 8 :: u16) = take_bit 8 (x :: u32)"
  "ucast (drop_bit 8 (ucast ((drop_bit 16 x AND push_bit 8 (mask 8)) OR (x AND mask 8))) AND mask 8 :: u16) = take_bit 8 (drop_bit 24 (x :: u32))"
  "ucast (ucast ((push_bit 4 d OR (y AND mask 4) OR 0x40) AND mask 16) AND mask 4 :: u16) = take_bit 4 (y :: u32)"
  by (rule bit_word_eqI; auto simp: bit_simps dest: bit_64)+

lemma verify_regs_address:
  assumes "verify_regs lba48 device x = (sector, lcyl, hcyl, select)" "lba48 \<or> drop_bit 28 x = 0"
  shows "reg_lba lba48 sector lcyl hcyl select = x"
  using assms four_bytes [of x] top_nibble [of x] unfolding verify_regs_def Let_def reg_lba_def mask_ff
  by (cases lba48) (auto simp only: verify_sector prod.inject if_True if_False simp_thms)

lemma ff_eq: "(a :: u16) AND 0xFF = ucast y AND 0xFF \<Longrightarrow> ucast a AND 0xFF = take_bit 8 (y :: u32)"
proof (rule bit_word_eqI)
  fix n assume a: "a AND 0xFF = ucast y AND 0xFF"
  show "bit (ucast a AND 0xFF :: u32) n = bit (take_bit 8 y) n"
    using arg_cong [OF a, of "\<lambda>y. bit y n"] unfolding mask_ff by (auto simp: bit_simps)
qed

lemma f_eq: "(a :: u16) AND 0xF = ucast y AND 0xF \<Longrightarrow> ucast a AND 0xF = take_bit 4 (y :: u32)"
proof (rule bit_word_eqI)
  fix n assume a: "a AND 0xF = ucast y AND 0xF"
  show "bit (ucast a AND 0xF :: u32) n = bit (take_bit 4 y) n"
    using arg_cong [OF a, of "\<lambda>y. bit y n"] unfolding mask_ff by (auto simp: bit_simps)
qed

lemma error_lba_reads: "regs_hold A lba48 w x \<Longrightarrow> fst (error_lba A lba48 w) = x"
  using four_bytes [of x] top_nibble [of x] unfolding regs_hold_def error_lba_def Let_def
  by (cases lba48) (auto simp only: ff_eq f_eq fst_conv if_True if_False simp_thms or.assoc)

lemma verify_count:
  assumes "0 < unat len" "unat len \<le> (if lba48 then 65536 else 256)"
  shows "reg_count lba48 (ucast (len :: u32)) = unat len"
proof -
  have u: "unat (ucast len :: u16) = unat len mod 2 ^ 16" by (simp add: unsigned_ucast_eq take_bit_eq_mod)
  have m: "unat (ucast len AND 0xFF :: u16) = unat len mod 2 ^ 8" 
    unfolding mask_ff by (simp add: unsigned_take_bit_eq u take_bit_eq_mod mod_mod_cancel flip: take_bit_eq_mask)
      (simp add: unat_mod u mod_mod_cancel)
  have z: "x = 0 \<longleftrightarrow> unat x = 0" for x :: u16 by (simp add: unat_eq_0)
  show ?thesis using assms unfolding reg_count_def z u m
    by (cases lba48; cases "unat len = 65536"; cases "unat len = 256") auto
qed

lemma find_append: "find P (xs @ ys) = (case find P xs of None \<Rightarrow> find P ys | Some x \<Rightarrow> Some x)"
  by (induction xs) auto

lemma find_map_shift: "find P (map f xs) = map_option f (find (\<lambda>k. P (f k)) xs)"
  by (induction xs) auto

lemma find_upt_split:
  "find P [0..<a + b] = (case find P [0..<a] of None \<Rightarrow> map_option ((+) a) (find (\<lambda>k. P (a + k)) [0..<b]) | Some k \<Rightarrow> Some k)"
proof -
  have "[0..<a + b] = [0..<a] @ map ((+) a) [0..<b]" 
  proof -
    have "map ((+) a) [0..<b] = map (\<lambda>i. i + a) [0..<b]" by (simp add: add.commute)
    then show ?thesis using upt_add_eq_append [of 0 a b] map_add_upt [of a b] by (simp add: add.commute)
  qed
  then show ?thesis by (simp only: find_append find_map_shift)
qed

lemma verify_loop_result:
  assumes "verify_drive A lba48 bad" "unat l + unat count \<le> (if lba48 then 2 ^ 32 else 2 ^ 28)"
  shows "fst (read_verify_loop A lba48 dev st l count w) =
     (case find (\<lambda>k. bad (l + of_nat k)) [0..<unat count] of None \<Rightarrow> 0 | Some k \<Rightarrow> sint (l + of_nat k - st + 1))"
  using assms(2)
proof (induction "unat count" arbitrary: l count w rule: less_induct)
  case less
  show ?case
  proof (cases "count = 0")
    case True
    then show ?thesis by (simp add: read_verify_loop.simps)
  next
    case False
    let ?lim = "if lba48 then 65536 else 256 :: u32"
    let ?len = "if ?lim < count then ?lim else count"
    have len: "0 < unat ?len" "unat ?len \<le> unat count" "unat ?len \<le> (if lba48 then 65536 else 256)"
      using False by (auto simp: unat_gt_0 word_less_nat_alt split: if_splits)
    obtain sector lcyl hcyl select where v: "verify_regs lba48 dev l = (sector, lcyl, hcyl, select)" by (metis prod_cases4)
    have "drop_bit 28 l = 0" if "\<not> lba48"
    proof -
      have "unat l < 2 ^ 28" using less.prems that len(1,2) by simp
      then show ?thesis by (simp add: word_eq_iff_unsigned [where ?'a = nat] drop_bit_eq_div unat_div)
    qed
    then have a: "reg_lba lba48 sector lcyl hcyl select = l" using verify_regs_address [OF v] by blast
    have c: "reg_count lba48 (ucast ?len) = unat ?len" using verify_count len(1,3) by blast
    let ?cmd = "if lba48 then ATA_C_READ_VERIFY_SECTOR_EXT A else ATA_C_READ_VERIFY_SECTOR A"
    obtain r w1 where st: "io_start A (ucast ?len) sector lcyl hcyl select ?cmd w = (r, w1)" by (rule prod.exhaust)
    obtain r2 w2 where fn: "io_finish A w1 = (r2, w2)" by (rule prod.exhaust)
    have E: "ATA_RES_ERR_IO A \<noteq> 0" "r = 0" and F: "case find (\<lambda>k. bad (l + of_nat k)) [0..<unat ?len] of None \<Rightarrow> r2 = 0
         | Some k \<Rightarrow> r2 = ATA_RES_ERR_IO A \<and> regs_hold A lba48 w2 (l + of_nat k) \<and> ata_get_error A (snd (error_lba A lba48 w2)) AND ATA_ERR_ECC A \<noteq> 0"
      using assms(1) st fn a c unfolding verify_drive_def by metis+
    have eq: "read_verify_loop A lba48 dev st l count w =
       (if r2 \<noteq> 0
        then if r2 = ATA_RES_ERR_IO A
             then let (bad, w3) = error_lba A lba48 w2
                  in (if ata_get_error A w3 AND ATA_ERR_ECC A \<noteq> 0 then sint (bad - st + 1) else r2, w3)
             else (r2, w2)
        else read_verify_loop A lba48 dev st (l + ?len) (count - ?len) w2)"
      using False st fn v E(2) by (subst read_verify_loop.simps) (simp add: Let_def)
    have ck: "unat count = unat ?len + unat (count - ?len)" using len(2) by (simp add: unat_sub word_le_nat_alt)
    show ?thesis
    proof (cases "find (\<lambda>k. bad (l + of_nat k)) [0..<unat ?len]")
      case None
      then have "r2 = 0" using F by simp
      moreover have "unat (count - ?len) < unat count" using ck len(1) by simp
      moreover have "unat (l + ?len) + unat (count - ?len) \<le> (if lba48 then 2 ^ 32 else 2 ^ 28)"
      proof -
        have "unat (l + ?len) \<le> unat l + unat ?len" unfolding unat_word_ariths(1) by (rule mod_less_eq_dividend)
        then show ?thesis using less.prems ck by linarith
      qed
      ultimately show ?thesis using less.hyps [of "count - ?len" "l + ?len" w2] None unfolding eq ck find_upt_split
        by (simp add: option.case_eq_if option.map_sel algebra_simps)
    next
      case (Some k)
      then have "fst (error_lba A lba48 w2) = l + of_nat k" using F error_lba_reads by auto
      then obtain w3 where e: "error_lba A lba48 w2 = (l + of_nat k, w3)" by (metis prod.collapse)
      show ?thesis using F Some E(1) unfolding eq ck find_upt_split by (simp add: e)
    qed
  qed
qed

text \<open>The offset as the \<open>int\<close> it is returned in.\<close>

lemma sint_offset:
  assumes "n < 2 ^ 32"
  shows "sint (of_nat n :: u32) = (if n < 2 ^ 31 then int n else int n - 2 ^ 32)"
proof -
  have "sint (of_nat n :: u32) = (int n + 2 ^ 31) mod 2 ^ 32 - 2 ^ 31"
    by (simp add: signed_of_nat signed_take_bit_eq_take_bit_shift take_bit_eq_mod)
  moreover have "(int n + 2 ^ 31) mod 2 ^ 32 = (if n < 2 ^ 31 then int n + 2 ^ 31 else int n + 2 ^ 31 - 2 ^ 32)"
  proof (cases "n < 2 ^ 31")
    case False
    have "(int n + 2 ^ 31) mod 2 ^ 32 = (int n - 2 ^ 31 + 2 ^ 32) mod 2 ^ 32" by (simp add: add.commute)
    also have "\<dots> = (int n - 2 ^ 31) mod 2 ^ 32" by (rule mod_add_self2)
    also have "\<dots> = int n - 2 ^ 31" using False assms by (intro mod_pos_pos_trivial) simp_all
    finally show ?thesis using False by simp
  qed simp
  ultimately show ?thesis by simp
qed

text \<open>
  C21. On a drive that behaves as documented, verifying a range that lies within the addresses
  its commands can name returns 0 when the range has no bad sector, and otherwise the offset of
  the first bad sector plus 1, however many commands the range takes. That number is returned
  in an \<open>int\<close>: from \<open>2 ^ 31\<close> on (which only a 48-bit drive can reach) the caller gets
  it less \<open>2 ^ 32\<close>, a negative number that looks like an error code.
\<close>

theorem verify_first_bad:
  assumes "AtadDevInfo s device = Some info" "verify_drive A (di_lba48 info) bad"
    and "unat l + unat count \<le> (if di_lba48 info then 2 ^ 32 else 2 ^ 28)"
  shows "\<exists>t. ata_device_read_verify A device l count s =
     Some (case find (\<lambda>k. bad (l + of_nat k)) [0..<unat count] of None \<Rightarrow> 0
           | Some k \<Rightarrow> if k + 1 < 2 ^ 31 then int k + 1 else int k + 1 - 2 ^ 32, t)"
proof -
  have "sint (l + of_nat k - l + 1) = (if k + 1 < 2 ^ 31 then int k + 1 else int k + 1 - 2 ^ 32)" if "k < unat count" for k
  proof -
    have "l + of_nat k - l + 1 = (of_nat (k + 1) :: u32)" by (simp add: add.commute)
    moreover have "k + 1 < 2 ^ 32" using that unat_32 [of count] by simp
    ultimately show ?thesis using sint_offset [of "k + 1"] by (simp only:) simp
  qed
  moreover have "find (\<lambda>k. bad (l + of_nat k)) [0..<unat count] = Some k \<Longrightarrow> k < unat count" for k
    by (auto simp: find_Some_iff)
  ultimately show ?thesis using verify_loop_result [OF assms(2,3), of device l "drive s"] assms(1)
    by (auto simp: ata_device_read_verify_def Let_def split: prod.splits option.splits)
qed

subsection \<open>Concrete instances\<close>

definition hdst_on :: "u32 list option \<Rightarrow> u32 \<Rightarrow> 'd \<Rightarrow> 'd hdst_state" where
  "hdst_on buf n w = \<lparr>AtadDevInfo = (\<lambda>_. Some \<lparr>di_exists = True, di_lba48 = False\<rparr>), hdstBuffer = buf, IOBufferSize = n, drive = w\<rparr>"

text \<open>Erasing sectors 5 and 6 of a drive whose sectors hold their numbers, with a buffer of one sector.\<close>

definition numbered_disk :: sim_disk where
  "numbered_disk = demo_disk\<lparr>sd_base := (\<lambda>d l. replicate 128 l)\<rparr>"

lemma covers_5: "covers 5 2 x \<longleftrightarrow> x = 5 \<or> x = 6"
  by (simp add: covers_2)

theorem erase_exact_witness:
  "\<exists>r t. hdst_EraseSectors sim_env 0 5 2 (hdst_on (Some (replicate 128 9)) 1 numbered_disk) = Some (r, t) \<and>
     sim_image (drive t) 0 7 = replicate 128 7"
proof -
  have img: "sim_image numbered_disk d l = replicate 128 l" for d l
    by (simp add: sim_image_def norm128_def numbered_disk_def demo_disk_def)
  have "\<exists>r t. hdst_EraseSectors sim_env 0 5 2 (hdst_on (Some (replicate 128 9)) 1 numbered_disk) = Some (r, t) \<and>
     (r = 0 \<longrightarrow> (\<forall>x. covers 5 (unat (2 :: u32)) x \<longrightarrow> sim_image (drive t) 0 x = replicate 128 0)) \<and>
     (\<forall>d' x. \<not> (d' = 0 \<and> covers 5 (unat (2 :: u32)) x) \<longrightarrow>
       sim_image (drive t) d' x = sim_image (drive (hdst_on (Some (replicate 128 9)) 1 numbered_disk)) d' x)"
    by (rule erase_exact [OF sim_env_ok, where buf = "replicate 128 9"]) (simp_all add: hdst_on_def)
  then show ?thesis by (force simp: covers_5 img hdst_on_def)
qed

theorem erase_without_buffer_hangs_witness:
  "hdst_EraseSectors sim_env 0 5 2 (snd (SetIOBufferSize (\<lambda>_. None) 16 (hdst_on None 0 demo_disk))) = None"
  using erase_without_buffer_hangs [of "\<lambda>_. None" 16 "hdst_on None 0 demo_disk" "- ENOMEM" _ 2 sim_env 0 5]
  by (simp add: SetIOBufferSize_def ENOMEM_def sim_env_def)

text \<open>A 28-bit drive with one bad sector; its state is the registers after the last command.\<close>

record reg_drive =
  rd_lba :: u32
  rd_count :: nat

definition one_bad :: "u32 \<Rightarrow> reg_drive ata_port" where
  "one_bad x = \<lparr>
     io_start = (\<lambda>n sector lcyl hcyl select cmd w. (0, \<lparr>rd_lba = reg_lba False sector lcyl hcyl select, rd_count = reg_count False n\<rparr>)),
     io_finish = (\<lambda>w. (if list_ex (\<lambda>k. rd_lba w + of_nat k = x) [0..<rd_count w] then 2 else 0, w)),
     r_sector = (\<lambda>w. ucast x), r_lcyl = (\<lambda>w. ucast (drop_bit 8 x)), r_hcyl = (\<lambda>w. ucast (drop_bit 16 x)),
     r_select = (\<lambda>w. ucast (drop_bit 24 x)), r_control = (\<lambda>n w. w), ata_get_error = (\<lambda>w. 0x40),
     ATA_C_READ_VERIFY_SECTOR = 0x40, ATA_C_READ_VERIFY_SECTOR_EXT = 0x42, ATA_C_IDENTIFY_DEVICE = 0xEC,
     ATA_RES_ERR_IO = 2, ATA_ERR_ECC = 0x40\<rparr>"

lemma one_bad_documented: "drop_bit 28 x = 0 \<Longrightarrow> verify_drive (one_bad x) False (\<lambda>y. y = x)"
  unfolding verify_drive_def
  by (auto simp: one_bad_def regs_hold_def error_lba_def list_ex_iff find_None_iff find_Some_iff split: option.splits if_splits)

theorem verify_first_bad_witness:
  "\<exists>t. ata_device_read_verify (one_bad 379) 0 100 300 (hdst_on None 0 \<lparr>rd_lba = 0, rd_count = 0\<rparr>) = Some (280, t)"
proof -
  have "drop_bit 28 (379 :: u32) = 0" by code_simp
  have f: "find (\<lambda>k. (100 :: u32) + of_nat k = 379) [0..<unat (300 :: u32)] = Some 279"
  proof -
    have "(100 + of_nat k :: u32) = 379 \<longleftrightarrow> k = 279" if "k < 300" for k
    proof -
      have "unat (100 + of_nat k :: u32) = 100 + k" using that by (simp add: unat_word_ariths unat_of_nat)
      then show ?thesis by (auto simp: word_eq_iff_unsigned [where ?'a = nat])
    qed
    then show ?thesis by (auto simp: find_Some_iff intro!: exI [of _ 279])
  qed
  have "\<exists>t. ata_device_read_verify (one_bad 379) 0 100 300 (hdst_on None 0 \<lparr>rd_lba = 0, rd_count = 0\<rparr>) =
     Some (case find (\<lambda>k. (100 :: u32) + of_nat k = 379) [0..<unat (300 :: u32)] of None \<Rightarrow> 0
           | Some k \<Rightarrow> if k + 1 < 2 ^ 31 then int k + 1 else int k + 1 - 2 ^ 32, t)"
    by (rule verify_first_bad [where info = "\<lparr>di_exists = True, di_lba48 = False\<rparr>"])
      (simp_all add: hdst_on_def one_bad_documented \<open>drop_bit 28 (379 :: u32) = 0\<close>)
  then show ?thesis unfolding f by simp
qed

end
