(* ===== verification/PfsCache.thy ===== *)
theory PfsCache
  imports ApaDisk
begin

text \<open>
  The PFS library, \<open>common/libpfs\<close>: its structures (\<open>libpfs.h\<close>), \<open>cache.c\<close>, \<open>journal.c\<close> and
  \<open>super.c\<close>. A module has one mount, \<open>MainPFSMount\<close>; the \<open>pfsMount\<close> of a cache entry is that
  mount or \<open>NULL\<close>. The data of an entry, a union in C, are the 256 words of its buffer, and
  the structures are read from the words. The partition's block device, \<open>pfs_block_device_t\<close>
  behind \<open>ioctl2\<close>, is a parameter.
\<close>

subsection \<open>Structures\<close>

record 'd blk_dev =
  bd_read :: "u32 \<Rightarrow> u32 \<Rightarrow> u32 \<Rightarrow> 'd \<Rightarrow> int \<times> u32 list \<times> 'd"
  bd_write :: "u32 \<Rightarrow> u32 \<Rightarrow> u32 \<Rightarrow> u32 list \<Rightarrow> 'd \<Rightarrow> int \<times> 'd"
  bd_flush :: "'d \<Rightarrow> int \<times> 'd"
  bd_set_error :: "'d \<Rightarrow> 'd"
  bd_subs :: u32
  bd_size :: "u32 \<Rightarrow> u32"
  bd_clock :: "'d \<Rightarrow> int \<times> cd_clock \<times> 'd"
  bd_btoi :: "u8 \<Rightarrow> u8"
  PFS_NO_WRITE_ERROR_STAT :: bool

record pfs_blockinfo =
  bi_number :: u32
  bi_subpart :: u16
  bi_count :: u16

record pfs_mount =
  mount_flags :: u32
  total_zones :: u32
  zfree :: u32
  sector_scale :: u32
  inode_scale :: u32
  zsize :: u32
  num_subs :: u32
  root_dir :: pfs_blockinfo
  mount_log :: pfs_blockinfo
  current_dir :: pfs_blockinfo
  lastError :: int
  free_zone :: "u32 list"

record pfs_cache =
  q_next :: nat
  q_prev :: nat
  q_flags :: u16
  q_nused :: u16
  q_mounted :: bool
  q_sub :: u32
  q_block :: u32
  q_data :: "u32 list"

record pfs_log =
  lg_sector :: u32
  lg_sub :: u16
  lg_logSector :: u16

record pfs_journal =
  pj_magic :: u32
  pj_num :: u16
  pj_checksum :: u16
  pj_log :: "pfs_log list"

record 'd pfs_state =
  pfsCacheBuf :: "nat \<Rightarrow> pfs_cache"
  pfsCacheNumBuffers :: nat
  pfsJournalBuf :: pfs_journal
  pmount :: pfs_mount
  pfsTime :: apa_ps2time
  pworld :: 'd

definition PFS_CACHE_FLAG_DIRTY :: u16 where "PFS_CACHE_FLAG_DIRTY = 0x01"
definition PFS_CACHE_FLAG_NOLOAD :: u16 where "PFS_CACHE_FLAG_NOLOAD = 0x02"
definition PFS_CACHE_FLAG_MASKSTATUS :: u16 where "PFS_CACHE_FLAG_MASKSTATUS = 0x0F"
definition PFS_CACHE_FLAG_NOTHING :: u16 where "PFS_CACHE_FLAG_NOTHING = 0x00"
definition PFS_CACHE_FLAG_SEGD :: u16 where "PFS_CACHE_FLAG_SEGD = 0x10"
definition PFS_CACHE_FLAG_SEGI :: u16 where "PFS_CACHE_FLAG_SEGI = 0x20"
definition PFS_CACHE_FLAG_BITMAP :: u16 where "PFS_CACHE_FLAG_BITMAP = 0x40"
definition PFS_CACHE_FLAG_MASKTYPE :: u16 where "PFS_CACHE_FLAG_MASKTYPE = 0xF0"
definition PFS_SUPER_MAGIC :: u32 where "PFS_SUPER_MAGIC = 0x50465300"
definition PFS_JOUNRNAL_MAGIC :: u32 where "PFS_JOUNRNAL_MAGIC = 0x5046534C"
definition PFS_SEGD_MAGIC :: u32 where "PFS_SEGD_MAGIC = 0x53454744"
definition PFS_SEGI_MAGIC :: u32 where "PFS_SEGI_MAGIC = 0x53454749"
definition PFS_SUPER_SECTOR :: u32 where "PFS_SUPER_SECTOR = 8192"
definition PFS_SUPER_BACKUP_SECTOR :: u32 where "PFS_SUPER_BACKUP_SECTOR = 8193"
definition PFS_FSCK_STAT_WRITE_ERROR :: u32 where "PFS_FSCK_STAT_WRITE_ERROR = 0x01"
definition PFS_FSCK_STAT_ERRORS_FIXED :: u32 where "PFS_FSCK_STAT_ERRORS_FIXED = 0x02"
definition PFS_INODE_MAX_BLOCKS :: u32 where "PFS_INODE_MAX_BLOCKS = 114"

text \<open>\<open>pfsBlockSize\<close> and \<open>pfsMetaSize\<close>, which are never assigned.\<close>

definition pfsBlockSize :: nat where "pfsBlockSize = 1"
definition pfsMetaSize :: u32 where "pfsMetaSize = 1024"

text \<open>The fields of \<open>pfs_inode_t\<close> and \<open>pfs_super_block_t\<close> that the library uses, as words.\<close>

definition blockinfo_at :: "nat \<Rightarrow> u32 list \<Rightarrow> pfs_blockinfo" where
  "blockinfo_at i ws = \<lparr>bi_number = ws ! i, bi_subpart = half_at 0 (ws ! (i + 1)), bi_count = half_at 1 (ws ! (i + 1))\<rparr>"

definition set_blockinfo :: "nat \<Rightarrow> pfs_blockinfo \<Rightarrow> u32 list \<Rightarrow> u32 list" where
  "set_blockinfo i b ws = ws[i := bi_number b, i + 1 := packh (bi_subpart b) (bi_count b)]"

definition inode_checksum :: "u32 list \<Rightarrow> u32" where "inode_checksum ws = ws ! 0"
definition inode_magic :: "u32 list \<Rightarrow> u32" where "inode_magic ws = ws ! 1"
definition inode_block :: "u32 list \<Rightarrow> pfs_blockinfo" where "inode_block = blockinfo_at 2"
definition inode_next_segment :: "u32 list \<Rightarrow> pfs_blockinfo" where "inode_next_segment = blockinfo_at 4"
definition inode_data :: "u32 list \<Rightarrow> nat \<Rightarrow> pfs_blockinfo" where "inode_data ws i = blockinfo_at (10 + 2 * i) ws"
definition inode_mode :: "u32 list \<Rightarrow> u16" where "inode_mode ws = half_at 0 (ws ! 238)"
definition inode_size :: "u32 list \<Rightarrow> u64" where "inode_size ws = ucast (ws ! 246) OR push_bit 32 (ucast (ws ! 247))"
definition inode_number_blocks :: "u32 list \<Rightarrow> u32" where "inode_number_blocks ws = ws ! 248"
definition inode_number_data :: "u32 list \<Rightarrow> u32" where "inode_number_data ws = ws ! 249"

definition pfsInodeCheckSum :: "u32 list \<Rightarrow> u32" where
  "pfsInodeCheckSum ws = fold (\<lambda>i sum. sum + ws ! i) [1..<256] 0"

definition upd_cache :: "nat \<Rightarrow> (pfs_cache \<Rightarrow> pfs_cache) \<Rightarrow> ('d, 'z) pfs_state_scheme \<Rightarrow> ('d, 'z) pfs_state_scheme" where
  "upd_cache i f s = s\<lparr>pfsCacheBuf := (pfsCacheBuf s)(i := f (pfsCacheBuf s i))\<rparr>"

definition set_data :: "nat \<Rightarrow> (u32 list \<Rightarrow> u32 list) \<Rightarrow> ('d, 'z) pfs_state_scheme \<Rightarrow> ('d, 'z) pfs_state_scheme" where
  "set_data i f = upd_cache i (\<lambda>c. c\<lparr>q_data := f (q_data c)\<rparr>)"

definition pfs_mark_dirty :: "nat \<Rightarrow> ('d, 'z) pfs_state_scheme \<Rightarrow> ('d, 'z) pfs_state_scheme" where
  "pfs_mark_dirty i = upd_cache i (\<lambda>c. c\<lparr>q_flags := q_flags c OR PFS_CACHE_FLAG_DIRTY\<rparr>)"

definition pfs_dirty :: "pfs_cache \<Rightarrow> bool" where
  "pfs_dirty c \<longleftrightarrow> q_mounted c \<and> q_flags c AND PFS_CACHE_FLAG_DIRTY \<noteq> 0"

definition pfs_entries :: "nat \<Rightarrow> nat list" where "pfs_entries n = [1..<n + 1]"

subsection \<open>Superblock helpers\<close>

definition pfsCheckZoneSize :: "u32 \<Rightarrow> bool" where
  "pfsCheckZoneSize zone_size \<longleftrightarrow> \<not> (zone_size AND (zone_size - 1) \<noteq> 0 \<or> zone_size < 2 * 1024 \<or> 128 * 1024 < zone_size)"

definition pfsGetBitmapSizeSectors :: "nat \<Rightarrow> u32 \<Rightarrow> u32" where
  "pfsGetBitmapSizeSectors zoneScale partSize =
     (let zones = partSize div push_bit zoneScale 1;
          w = zones AND 7;
          zones2 = zones div 8 + w;
          w2 = zones2 AND 511
      in zones2 div 512 + w2)"

definition pfsGetBitmapSizeBlocks :: "nat \<Rightarrow> u32 \<Rightarrow> u32" where
  "pfsGetBitmapSizeBlocks scale mainsize =
     (let a = pfsGetBitmapSizeSectors scale mainsize
      in a div push_bit scale 1 + (if 0 < a mod push_bit scale 1 then 1 else 0))"

text \<open>
  The loop of \<open>pfsGetScale\<close> ends only for a power-of-two multiple of \<open>size\<close>; the target shifts by
  the low five bits of \<open>scale\<close>.
\<close>

partial_function (option) get_scale :: "u32 \<Rightarrow> u32 \<Rightarrow> nat \<Rightarrow> nat option" where
  "get_scale num sz scale = (if push_bit (scale mod 32) sz \<noteq> num then get_scale num sz (scale + 1) else Some scale)"

definition pfsGetScale :: "u32 \<Rightarrow> u32 \<Rightarrow> nat option" where
  "pfsGetScale num sz = get_scale num sz 0"

definition pfsFixIndex :: "u32 \<Rightarrow> u32" where
  "pfsFixIndex index = (if index < PFS_INODE_MAX_BLOCKS then index else (index - PFS_INODE_MAX_BLOCKS) mod 123)"

text \<open>\<open>pfsFsckStat\<close> with the superblock in the words \<open>ws\<close>: mode 0 sets, 1 removes the flag, else it is checked.\<close>

definition pfsFsckStat :: "'d blk_dev \<Rightarrow> u32 \<Rightarrow> nat \<Rightarrow> u32 list \<Rightarrow> 'd \<Rightarrow> bool \<times> u32 list \<times> 'd" where
  "pfsFsckStat D stat mode ws w =
     (let (r, sb, w1) = bd_read D 0 PFS_SUPER_SECTOR 1 w;
          ws1 = overlay sb ws
      in if r = 0
         then if mode = 0 \<or> mode = 1
              then let ws2 = ws1[3 := (if mode = 0 then ws1 ! 3 OR stat else ws1 ! 3 AND NOT stat)];
                       (_, w2) = bd_write D 0 PFS_SUPER_SECTOR 1 (take 128 ws2) w1
                   in (False, ws2, snd (bd_flush D w2))
              else (0 < ws1 ! 3 AND stat, ws1, w1)
         else (False, ws1, w1))"

subsection \<open>The ring of free entries\<close>

definition pfsCacheLink :: "nat \<Rightarrow> nat \<Rightarrow> ('d, 'z) pfs_state_scheme \<Rightarrow> ('d, 'z) pfs_state_scheme" where
  "pfsCacheLink clink cnew s =
     (let s1 = upd_cache cnew (\<lambda>c. c\<lparr>q_prev := clink\<rparr>) s;
          s2 = upd_cache cnew (\<lambda>c. c\<lparr>q_next := q_next (pfsCacheBuf s1 clink)\<rparr>) s1;
          s3 = upd_cache (q_next (pfsCacheBuf s2 clink)) (\<lambda>c. c\<lparr>q_prev := cnew\<rparr>) s2
      in upd_cache clink (\<lambda>c. c\<lparr>q_next := cnew\<rparr>) s3)"

definition pfsCacheUnLink :: "nat \<Rightarrow> ('d, 'z) pfs_state_scheme \<Rightarrow> ('d, 'z) pfs_state_scheme" where
  "pfsCacheUnLink clink s =
     (let s1 = upd_cache (q_prev (pfsCacheBuf s clink)) (\<lambda>c. c\<lparr>q_next := q_next (pfsCacheBuf s clink)\<rparr>) s
      in upd_cache (q_next (pfsCacheBuf s1 clink)) (\<lambda>c. c\<lparr>q_prev := q_prev (pfsCacheBuf s1 clink)\<rparr>) s1)"

definition pfsCacheUsedAdd :: "nat \<Rightarrow> ('d, 'z) pfs_state_scheme \<Rightarrow> ('d, 'z) pfs_state_scheme" where
  "pfsCacheUsedAdd clink = upd_cache clink (\<lambda>c. c\<lparr>q_nused := q_nused c + 1\<rparr>)"

text \<open>Returning \<open>NULL\<close>, an unused entry, or an invalidated one that is still in use only prints a message.\<close>

definition pfsCacheFree :: "nat option \<Rightarrow> ('d, 'z) pfs_state_scheme \<Rightarrow> ('d, 'z) pfs_state_scheme" where
  "pfsCacheFree clink s =
     (case clink of None \<Rightarrow> s
      | Some i \<Rightarrow>
          if q_nused (pfsCacheBuf s i) = 0 then s
          else (let s1 = upd_cache i (\<lambda>c. c\<lparr>q_nused := q_nused c - 1\<rparr>) s
                in if q_mounted (pfsCacheBuf s1 i)
                   then if q_nused (pfsCacheBuf s1 i) \<noteq> 0 then s1 else pfsCacheLink (q_prev (pfsCacheBuf s1 0)) i s1
                   else if q_nused (pfsCacheBuf s1 i) \<noteq> 0 then s1 else pfsCacheLink 0 i s1))"

definition pfsCacheIsFull :: "('d, 'z) pfs_state_scheme \<Rightarrow> bool" where
  "pfsCacheIsFull s \<longleftrightarrow>
     \<not> q_prev (pfsCacheBuf s 0) \<noteq> 0 \<and> q_next (pfsCacheBuf s (q_prev (pfsCacheBuf s 0))) = q_prev (pfsCacheBuf s 0)"

subsection \<open>Transfers\<close>

text \<open>
  The checks of a block that was read: its type's magic number and the checksum.
\<close>

definition pfs_block_ok :: "u16 \<Rightarrow> u32 list \<Rightarrow> bool" where
  "pfs_block_ok flags ws \<longleftrightarrow>
     \<not> (flags AND PFS_CACHE_FLAG_SEGD \<noteq> 0 \<and> inode_magic ws \<noteq> PFS_SEGD_MAGIC) \<and>
     \<not> (flags AND PFS_CACHE_FLAG_SEGI \<noteq> 0 \<and> inode_magic ws \<noteq> PFS_SEGI_MAGIC) \<and>
     \<not> (flags AND (PFS_CACHE_FLAG_SEGD OR PFS_CACHE_FLAG_SEGI) \<noteq> 0 \<and> inode_checksum ws \<noteq> pfsInodeCheckSum ws)"

text \<open>The handling of an error, which the build of \<open>fsck\<close> leaves out.\<close>

definition pfs_disk_error :: "'d blk_dev \<Rightarrow> nat \<Rightarrow> int \<Rightarrow> ('d, 'z) pfs_state_scheme \<Rightarrow> ('d, 'z) pfs_state_scheme" where
  "pfs_disk_error D i err s =
     (if PFS_NO_WRITE_ERROR_STAT D then s
      else (let (_, ws, w) = pfsFsckStat D PFS_FSCK_STAT_WRITE_ERROR 0 (q_data (pfsCacheBuf s i)) (bd_set_error D (pworld s))
            in (set_data i (\<lambda>_. ws) s)\<lparr>pworld := w, pmount := (pmount s)\<lparr>lastError := err\<rparr>\<rparr>))"

text \<open>Mode 0 reads, mode 1 writes the two sectors of the block.\<close>

definition pfs_transfer :: "'d blk_dev \<Rightarrow> nat \<Rightarrow> nat \<Rightarrow> ('d, 'z) pfs_state_scheme \<Rightarrow> int \<times> ('d, 'z) pfs_state_scheme" where
  "pfs_transfer D i mode s =
     (let c = pfsCacheBuf s i; sector = push_bit pfsBlockSize (q_block c) in
      if mode = 0
      then let (err, ws, w) = bd_read D (q_sub c) sector (push_bit pfsBlockSize 1) (pworld s);
               s1 = set_data i (overlay ws) (s\<lparr>pworld := w\<rparr>)
           in (if err = 0 \<and> \<not> pfs_block_ok (q_flags c) (q_data (pfsCacheBuf s1 i)) then - EIO else err, s1)
      else let (err, w) = bd_write D (q_sub c) sector (push_bit pfsBlockSize 1) (q_data c) (pworld s) in (err, s\<lparr>pworld := w\<rparr>))"

definition pfsCacheTransfer :: "'d blk_dev \<Rightarrow> nat \<Rightarrow> nat \<Rightarrow> ('d, 'z) pfs_state_scheme \<Rightarrow> int \<times> ('d, 'z) pfs_state_scheme" where
  "pfsCacheTransfer D i mode s =
     (let s1 = (if lastError (pmount s) = 0
                then let (err, s1) = pfs_transfer D i mode s in if err \<noteq> 0 then pfs_disk_error D i err s1 else s1
                else s);
          s2 = upd_cache i (\<lambda>c. c\<lparr>q_flags := q_flags c AND NOT PFS_CACHE_FLAG_DIRTY\<rparr>) s1
      in (lastError (pmount s2), s2))"

subsection \<open>Journal\<close>

definition log_words :: "pfs_log list \<Rightarrow> u32 list" where
  "log_words ls = concat (map (\<lambda>l. [lg_sector l, packh (lg_sub l) (lg_logSector l)]) ls)"

definition pfs_journal_words :: "pfs_journal \<Rightarrow> u32 list" where
  "pfs_journal_words j = [pj_magic j, packh (pj_num j) (pj_checksum j)] @ log_words (pj_log j)"

definition log_at :: "u32 list \<Rightarrow> nat \<Rightarrow> pfs_log" where
  "log_at ws k = \<lparr>lg_sector = ws ! (2 + 2 * k), lg_sub = half_at 0 (ws ! (3 + 2 * k)), lg_logSector = half_at 1 (ws ! (3 + 2 * k))\<rparr>"

definition pfs_journal_of_words :: "u32 list \<Rightarrow> pfs_journal" where
  "pfs_journal_of_words ws = \<lparr>pj_magic = ws ! 0, pj_num = half_at 0 (ws ! 1), pj_checksum = half_at 1 (ws ! 1),
     pj_log = map (log_at ws) [0..<127]\<rparr>"

definition pfsJournalChecksum :: "u32 list \<Rightarrow> u32" where
  "pfsJournalChecksum ws = fold (\<lambda>i sum. sum + ws ! i) [2..<256] 0 AND 0xFFFF"

definition empty_pfs_journal :: pfs_journal where
  "empty_pfs_journal = \<lparr>pj_magic = PFS_JOUNRNAL_MAGIC, pj_num = 0, pj_checksum = 0,
     pj_log = replicate 127 \<lparr>lg_sector = 0, lg_sub = 0, lg_logSector = 0\<rparr>\<rparr>"

definition log_start :: "pfs_mount \<Rightarrow> u32" where
  "log_start m = push_bit (unat (sector_scale m)) (bi_number (mount_log m))"

definition pfsJournalFlush :: "'d blk_dev \<Rightarrow> ('d, 'z) pfs_state_scheme \<Rightarrow> int \<times> ('d, 'z) pfs_state_scheme" where
  "pfsJournalFlush D s =
     (let w1 = snd (bd_flush D (pworld s));
          j = (pfsJournalBuf s)\<lparr>pj_checksum := ucast (pfsJournalChecksum (pfs_journal_words (pfsJournalBuf s)))\<rparr>;
          (rv, w2) = bd_write D 0 (log_start (pmount s)) 2 (pfs_journal_words j) w1
      in (rv, s\<lparr>pfsJournalBuf := j, pworld := snd (bd_flush D w2)\<rparr>))"

definition pfsJournalReset :: "'d blk_dev \<Rightarrow> ('d, 'z) pfs_state_scheme \<Rightarrow> int \<times> ('d, 'z) pfs_state_scheme" where
  "pfsJournalReset D s =
     (let w1 = snd (bd_flush D (pworld s));
          (rv, w2) = bd_write D 0 (log_start (pmount s)) 2 (pfs_journal_words empty_pfs_journal) w1
      in (rv, s\<lparr>pfsJournalBuf := empty_pfs_journal, pworld := snd (bd_flush D w2)\<rparr>))"

definition pfsJournalResetThis :: "'d blk_dev \<Rightarrow> u32 \<Rightarrow> ('d, 'z) pfs_state_scheme \<Rightarrow> int \<times> ('d, 'z) pfs_state_scheme" where
  "pfsJournalResetThis D sector s =
     (let (rv, w) = bd_write D 0 sector 2 (pfs_journal_words empty_pfs_journal) (pworld s)
      in (rv, s\<lparr>pfsJournalBuf := empty_pfs_journal, pworld := w\<rparr>))"

text \<open>
  One round of \<open>pfsJournalWrite\<close>'s loop, for entry \<open>i\<close>; None is a write past \<open>log[126]\<close>.
  \<open>logSector\<close> is \<open>2 i\<close> for the \<open>i\<close>-th entry (they count from 1).
\<close>

definition log_entry :: "nat \<Rightarrow> ('d, 'z) pfs_state_scheme \<Rightarrow> ('d, 'z) pfs_state_scheme option" where
  "log_entry i s =
     (let c = pfsCacheBuf s i; j = pfsJournalBuf s; k = unat (pj_num j) in
      if pfs_dirty c
      then if length (pj_log j) \<le> k then None
           else (let s1 = (if q_flags c AND (PFS_CACHE_FLAG_SEGD OR PFS_CACHE_FLAG_SEGI) \<noteq> 0
                           then set_data i (\<lambda>ws. ws[0 := pfsInodeCheckSum ws]) s else s)
                 in Some (s1\<lparr>pfsJournalBuf := j\<lparr>pj_num := pj_num j + 1,
                      pj_log := (pj_log j)[k := \<lparr>lg_sector = push_bit pfsBlockSize (q_block c), lg_sub = ucast (q_sub c),
                                                lg_logSector = 2 * of_nat i\<rparr>]\<rparr>\<rparr>))
      else Some s)"

text \<open>The buffers of the entries are one block of memory: the transfer writes all of them.\<close>

definition all_data :: "('d, 'z) pfs_state_scheme \<Rightarrow> u32 list" where
  "all_data s = concat (map (\<lambda>i. q_data (pfsCacheBuf s i)) (pfs_entries (pfsCacheNumBuffers s)))"

definition pfsJournalWrite :: "'d blk_dev \<Rightarrow> ('d, 'z) pfs_state_scheme \<Rightarrow> ('d, 'z) pfs_state_scheme option" where
  "pfsJournalWrite D s = do {
     s1 \<leftarrow> ofold log_entry (pfs_entries (pfsCacheNumBuffers s)) s;
     let (r, w) = bd_write D 0 (log_start (pmount s1) + 2) (of_nat (pfsCacheNumBuffers s1) * 2) (all_data s1) (pworld s1);
     let s2 = s1\<lparr>pworld := w\<rparr>;
     Some (if 0 \<le> r then snd (pfsJournalFlush D s2) else s2)
   }"

subsection \<open>Flushing\<close>

definition pfs_write_dirty :: "'d blk_dev \<Rightarrow> nat \<Rightarrow> ('d, 'z) pfs_state_scheme \<Rightarrow> ('d, 'z) pfs_state_scheme" where
  "pfs_write_dirty D i s = (if pfs_dirty (pfsCacheBuf s i) then snd (pfsCacheTransfer D i 1 s) else s)"

definition pfsCacheFlushAllDirty :: "'d blk_dev \<Rightarrow> ('d, 'z) pfs_state_scheme \<Rightarrow> ('d, 'z) pfs_state_scheme option" where
  "pfsCacheFlushAllDirty D s = do {
     s1 \<leftarrow> (if list_ex (\<lambda>i. pfs_dirty (pfsCacheBuf s i)) (pfs_entries (pfsCacheNumBuffers s))
           then map_option (fold (pfs_write_dirty D) (pfs_entries (pfsCacheNumBuffers s))) (pfsJournalWrite D s)
           else Some s);
     Some (snd (pfsJournalReset D s1))
   }"

subsection \<open>Getting entries\<close>

text \<open>\<open>mnt\<close> says whether the entry is for the mount or for nothing (\<open>NULL\<close>).\<close>

definition pfsCacheAlloc ::
    "'d blk_dev \<Rightarrow> bool \<Rightarrow> u16 \<Rightarrow> u32 \<Rightarrow> u16 \<Rightarrow> int \<Rightarrow> ('d, 'z) pfs_state_scheme \<Rightarrow>
      ((nat option \<times> int) \<times> ('d, 'z) pfs_state_scheme) option" where
  "pfsCacheAlloc D mnt sub block flags result s =
     (if q_prev (pfsCacheBuf s 0) = 0 \<and> q_next (pfsCacheBuf s (q_prev (pfsCacheBuf s 0))) = q_prev (pfsCacheBuf s 0)
      then Some ((None, - ENOMEM), s)
      else do {
        let i = q_next (pfsCacheBuf s 0);
        s1 \<leftarrow> (if pfs_dirty (pfsCacheBuf s i) then pfsCacheFlushAllDirty D s else Some s);
        let s2 = upd_cache i (\<lambda>c. c\<lparr>q_flags := flags AND PFS_CACHE_FLAG_MASKTYPE, q_mounted := mnt, q_sub := ucast sub,
                   q_block := block, q_nused := 1\<rparr>) s1;
        Some ((Some i, result), pfsCacheUnLink i s2)
      })"

definition pfs_lookup :: "u16 \<Rightarrow> u32 \<Rightarrow> ('d, 'z) pfs_state_scheme \<Rightarrow> nat option" where
  "pfs_lookup sub block s =
     List.find (\<lambda>i. q_mounted (pfsCacheBuf s i) \<and> q_block (pfsCacheBuf s i) = block \<and> q_sub (pfsCacheBuf s i) = ucast sub)
       (pfs_entries (pfsCacheNumBuffers s))"

definition pfsCacheGetData ::
    "'d blk_dev \<Rightarrow> u16 \<Rightarrow> u32 \<Rightarrow> u16 \<Rightarrow> ('d, 'z) pfs_state_scheme \<Rightarrow> ((nat option \<times> int) \<times> ('d, 'z) pfs_state_scheme) option" where
  "pfsCacheGetData D sub block flags s =
     (case pfs_lookup sub block s of
        Some i \<Rightarrow>
          (let s1 = upd_cache i (\<lambda>c. c\<lparr>q_flags := (q_flags c AND PFS_CACHE_FLAG_MASKSTATUS) OR (flags AND PFS_CACHE_FLAG_MASKTYPE)\<rparr>) s;
               s2 = (if q_nused (pfsCacheBuf s1 i) = 0 then pfsCacheUnLink i s1 else s1)
           in Some ((Some i, 0), pfsCacheUsedAdd i s2))
      | None \<Rightarrow> do {
          ((clink, e), s1) \<leftarrow> pfsCacheAlloc D True sub block flags 0 s;
          case clink of None \<Rightarrow> Some ((None, e), s1)
          | Some i \<Rightarrow>
              if flags AND PFS_CACHE_FLAG_NOLOAD \<noteq> 0 then Some ((Some i, e), s1)
              else (let (r, s2) = pfsCacheTransfer D i 0 s1 in
                    if 0 \<le> r then Some ((Some i, r), s2)
                    else Some ((None, r), pfsCacheFree (Some i) (upd_cache i (\<lambda>c. c\<lparr>q_mounted := False\<rparr>) s2)))
        })"

definition pfsCacheAllocClean ::
    "'d blk_dev \<Rightarrow> ('d, 'z) pfs_state_scheme \<Rightarrow> ((nat option \<times> int) \<times> ('d, 'z) pfs_state_scheme) option" where
  "pfsCacheAllocClean D = pfsCacheAlloc D False 0 0 0 0"

text \<open>\<open>mem\<close> gives the contents of the buffers allocated, \<open>ok1\<close> and \<open>ok2\<close> say whether the allocations succeed.\<close>

definition zero_pfs_entry :: "u32 list \<Rightarrow> pfs_cache" where
  "zero_pfs_entry ws = \<lparr>q_next = 0, q_prev = 0, q_flags = 0, q_nused = 0, q_mounted = False, q_sub = 0, q_block = 0, q_data = ws\<rparr>"

definition pfsCacheInit ::
    "nat \<Rightarrow> bool \<Rightarrow> bool \<Rightarrow> (nat \<Rightarrow> u32 list) \<Rightarrow> ('d, 'z) pfs_state_scheme \<Rightarrow> int \<times> ('d, 'z) pfs_state_scheme" where
  "pfsCacheInit numBuf ok1 ok2 mem s =
     (if 127 < numBuf then (- EINVAL, s)
      else if \<not> ok1 \<or> \<not> ok2 then (- ENOMEM, s)
      else (let s1 = s\<lparr>pfsCacheNumBuffers := numBuf, pfsCacheBuf := (\<lambda>i. zero_pfs_entry (mem i))\<rparr>
            in (0, fold (\<lambda>i t. pfsCacheLink (q_prev (pfsCacheBuf t 0)) i t) (pfs_entries numBuf) s1)))"

definition pfsCacheClose :: "'d blk_dev \<Rightarrow> ('d, 'z) pfs_state_scheme \<Rightarrow> ('d, 'z) pfs_state_scheme option" where
  "pfsCacheClose D s =
     map_option (\<lambda>s1. fold (\<lambda>i. upd_cache i (\<lambda>c. c\<lparr>q_mounted := False\<rparr>)) (pfs_entries (pfsCacheNumBuffers s1)) s1)
       (pfsCacheFlushAllDirty D s)"

definition pfsCacheMarkClean :: "u32 \<Rightarrow> u32 \<Rightarrow> u32 \<Rightarrow> ('d, 'z) pfs_state_scheme \<Rightarrow> ('d, 'z) pfs_state_scheme" where
  "pfsCacheMarkClean subpart blockStart blockEnd s =
     fold (\<lambda>i. upd_cache i (\<lambda>c. if q_mounted c \<and> q_sub c = subpart \<and> blockStart \<le> q_block c \<and> q_block c < blockEnd
                              then c\<lparr>q_flags := q_flags c AND NOT PFS_CACHE_FLAG_DIRTY\<rparr> else c))
       (pfs_entries (pfsCacheNumBuffers s)) s"

definition pfsInodeGetData :: "'d blk_dev \<Rightarrow> u16 \<Rightarrow> u32 \<Rightarrow> ('d, 'z) pfs_state_scheme \<Rightarrow> ((nat option \<times> int) \<times> ('d, 'z) pfs_state_scheme) option" where
  "pfsInodeGetData D sub inode s = pfsCacheGetData D sub (push_bit (unat (inode_scale (pmount s))) inode) PFS_CACHE_FLAG_SEGD s"

subsection \<open>Recovery\<close>

text \<open>
  One round of \<open>pfsJournalRestore\<close>'s loop; None is a read past \<open>log[126]\<close>. An error of the
  read skips the entry, one of the write is ignored.
\<close>

definition pfs_log_copy :: "'d blk_dev \<Rightarrow> nat \<Rightarrow> nat \<Rightarrow> ('d, 'z) pfs_state_scheme \<Rightarrow> ('d, 'z) pfs_state_scheme option" where
  "pfs_log_copy D clink i s =
     (if length (pj_log (pfsJournalBuf s)) \<le> i then None
      else (let l = pj_log (pfsJournalBuf s) ! i;
                (rv, ws, w) = bd_read D 0 (log_start (pmount s) + ucast (lg_logSector l)) 2 (pworld s);
                s1 = set_data clink (overlay ws) (s\<lparr>pworld := w\<rparr>)
            in if rv = 0
               then Some (s1\<lparr>pworld := snd (bd_write D (ucast (lg_sub l)) (lg_sector l) 2 (q_data (pfsCacheBuf s1 clink)) (pworld s1))\<rparr>)
               else Some s1))"

text \<open>The branch of \<open>pfsJournalRestore\<close> that replays the journal it has read.\<close>

definition pfs_replay :: "'d blk_dev \<Rightarrow> ('d, 'z) pfs_state_scheme \<Rightarrow> (int \<times> ('d, 'z) pfs_state_scheme) option" where
  "pfs_replay D s = do {
     ((clink, e), s2) \<leftarrow> pfsCacheAllocClean D s;
     case clink of None \<Rightarrow> Some (e, s2)
     | Some c \<Rightarrow> do {
         s3 \<leftarrow> ofold (pfs_log_copy D c) [0..<unat (pj_num (pfsJournalBuf s2))] s2;
         Some (pfsJournalReset D (pfsCacheFree (Some c) s3))
       }
   }"

definition pfsJournalRestore :: "'d blk_dev \<Rightarrow> ('d, 'z) pfs_state_scheme \<Rightarrow> (int \<times> ('d, 'z) pfs_state_scheme) option" where
  "pfsJournalRestore D s =
     (let (rv, ws, w) = bd_read D 0 (log_start (pmount s)) 2 (pworld s);
          jw = overlay ws (pfs_journal_words (pfsJournalBuf s));
          s1 = s\<lparr>pworld := w, pfsJournalBuf := pfs_journal_of_words jw\<rparr>;
          j = pfsJournalBuf s1
      in if rv \<noteq> 0 \<or> pj_magic j \<noteq> PFS_JOUNRNAL_MAGIC \<or> pj_checksum j \<noteq> ucast (pfsJournalChecksum jw)
         then Some (pfsJournalReset D s1)
         else if pj_num j = 0 then Some (pfsJournalReset D s1) else pfs_replay D s1)"

subsection \<open>A simulated partition\<close>

text \<open>
  The sub-partitions are the devices of the simulated drive. The argument is the build's
  \<open>PFS_NO_WRITE_ERROR_STAT\<close>.
\<close>

definition sim_blk :: "bool \<Rightarrow> sim_disk blk_dev" where
  "sim_blk nostat = \<lparr>bd_read = ata_read sim_env, bd_write = ata_write sim_env, bd_flush = ata_flush sim_env 0,
     bd_set_error = (\<lambda>w. w), bd_subs = 0, bd_size = (\<lambda>_. 0x40000), bd_clock = read_clock sim_env, bd_btoi = btoi sim_env,
     PFS_NO_WRITE_ERROR_STAT = nostat\<rparr>"

definition demo_mount :: pfs_mount where
  "demo_mount = \<lparr>mount_flags = 0, total_zones = 16, zfree = 16, sector_scale = 4, inode_scale = 3, zsize = 8192, num_subs = 0,
     root_dir = \<lparr>bi_number = 0x82, bi_subpart = 0, bi_count = 1\<rparr>, mount_log = \<lparr>bi_number = 0x204, bi_subpart = 0, bi_count = 16\<rparr>,
     current_dir = \<lparr>bi_number = 0x82, bi_subpart = 0, bi_count = 1\<rparr>, lastError = 0, free_zone = replicate 65 0\<rparr>"

definition demo_pfs_state :: "sim_disk pfs_state" where
  "demo_pfs_state = \<lparr>pfsCacheBuf = (\<lambda>_. zero_pfs_entry (replicate 256 0)), pfsCacheNumBuffers = 0, pfsJournalBuf = empty_pfs_journal,
     pmount = demo_mount, pfsTime = demo_time, pworld = demo_disk\<rparr>"

text \<open>After \<open>pfsCacheInit(n, _)\<close>.\<close>

definition demo_pfs :: "nat \<Rightarrow> sim_disk pfs_state" where
  "demo_pfs n = snd (pfsCacheInit n True True (\<lambda>_. replicate 256 0) demo_pfs_state)"

end
