(* ===== verification/PfsCacheInv.thy ===== *)
theory PfsCacheInv
  imports PfsCache Ring
begin

text \<open>
  The invariant of the PFS block cache: the sentinel's ring threads exactly the entries nobody
  uses, and no two entries of the mount hold the same block. The operations of \<open>cache.c\<close> and
  the recovery of \<open>journal.c\<close> keep it, whatever the device answers. The last section is about
  the build of \<open>fsck\<close>, whose transfers lose their errors.
\<close>

subsection \<open>Projections\<close>

lemma upd_cache_sel [simp, state_simps]:
  "pfsCacheBuf (upd_cache i f s) = (pfsCacheBuf s)(i := f (pfsCacheBuf s i))"
  "pfsCacheNumBuffers (upd_cache i f s) = pfsCacheNumBuffers s"
  "pfsJournalBuf (upd_cache i f s) = pfsJournalBuf s"
  "pmount (upd_cache i f s) = pmount s"
  "pfsTime (upd_cache i f s) = pfsTime s"
  "pworld (upd_cache i f s) = pworld s"
  by (simp_all add: upd_cache_def)

lemma set_data_sel [simp, state_simps]:
  "pfsCacheBuf (set_data i f s) = (pfsCacheBuf s)(i := (pfsCacheBuf s i)\<lparr>q_data := f (q_data (pfsCacheBuf s i))\<rparr>)"
  "pfsCacheNumBuffers (set_data i f s) = pfsCacheNumBuffers s"
  "pfsJournalBuf (set_data i f s) = pfsJournalBuf s"
  "pmount (set_data i f s) = pmount s"
  "pfsTime (set_data i f s) = pfsTime s"
  "pworld (set_data i f s) = pworld s"
  by (simp_all add: set_data_def)

lemma pfs_link_sel [simp, state_simps]:
  "pfsCacheNumBuffers (pfsCacheLink p c s) = pfsCacheNumBuffers s"
  "pfsJournalBuf (pfsCacheLink p c s) = pfsJournalBuf s"
  "pmount (pfsCacheLink p c s) = pmount s"
  "pfsTime (pfsCacheLink p c s) = pfsTime s"
  "pworld (pfsCacheLink p c s) = pworld s"
  "q_flags (pfsCacheBuf (pfsCacheLink p c s) i) = q_flags (pfsCacheBuf s i)"
  "q_nused (pfsCacheBuf (pfsCacheLink p c s) i) = q_nused (pfsCacheBuf s i)"
  "q_mounted (pfsCacheBuf (pfsCacheLink p c s) i) = q_mounted (pfsCacheBuf s i)"
  "q_sub (pfsCacheBuf (pfsCacheLink p c s) i) = q_sub (pfsCacheBuf s i)"
  "q_block (pfsCacheBuf (pfsCacheLink p c s) i) = q_block (pfsCacheBuf s i)"
  "q_data (pfsCacheBuf (pfsCacheLink p c s) i) = q_data (pfsCacheBuf s i)"
  by (simp_all add: pfsCacheLink_def Let_def)

lemma pfs_unlink_sel [simp, state_simps]:
  "pfsCacheNumBuffers (pfsCacheUnLink c s) = pfsCacheNumBuffers s"
  "pfsJournalBuf (pfsCacheUnLink c s) = pfsJournalBuf s"
  "pmount (pfsCacheUnLink c s) = pmount s"
  "pfsTime (pfsCacheUnLink c s) = pfsTime s"
  "pworld (pfsCacheUnLink c s) = pworld s"
  "q_flags (pfsCacheBuf (pfsCacheUnLink c s) i) = q_flags (pfsCacheBuf s i)"
  "q_nused (pfsCacheBuf (pfsCacheUnLink c s) i) = q_nused (pfsCacheBuf s i)"
  "q_mounted (pfsCacheBuf (pfsCacheUnLink c s) i) = q_mounted (pfsCacheBuf s i)"
  "q_sub (pfsCacheBuf (pfsCacheUnLink c s) i) = q_sub (pfsCacheBuf s i)"
  "q_block (pfsCacheBuf (pfsCacheUnLink c s) i) = q_block (pfsCacheBuf s i)"
  "q_data (pfsCacheBuf (pfsCacheUnLink c s) i) = q_data (pfsCacheBuf s i)"
  by (simp_all add: pfsCacheUnLink_def Let_def)

definition qnext :: "('d, 'z) pfs_state_scheme \<Rightarrow> nat \<Rightarrow> nat" where "qnext s i = q_next (pfsCacheBuf s i)"
definition qprev :: "('d, 'z) pfs_state_scheme \<Rightarrow> nat \<Rightarrow> nat" where "qprev s i = q_prev (pfsCacheBuf s i)"
definition qused :: "('d, 'z) pfs_state_scheme \<Rightarrow> nat \<Rightarrow> u16" where "qused s i = q_nused (pfsCacheBuf s i)"

definition qkey :: "('d, 'z) pfs_state_scheme \<Rightarrow> nat \<Rightarrow> (u32 \<times> u32) option" where
  "qkey s i = (if q_mounted (pfsCacheBuf s i) then Some (q_sub (pfsCacheBuf s i), q_block (pfsCacheBuf s i)) else None)"

lemmas slot_fields = qused_def qkey_def

interpretation pfs_ring: node_ring 0 qnext qprev pfsCacheLink pfsCacheUnLink
  by unfold_locales (auto simp: fun_eq_iff qnext_def qprev_def pfsCacheLink_def pfsCacheUnLink_def Let_def)

lemma set_pfs_entries [simp]: "set (pfs_entries n) = {1..n}"
  by (auto simp: pfs_entries_def)

lemma distinct_pfs_entries [simp]: "distinct (pfs_entries n)"
  by (simp add: pfs_entries_def)

subsection \<open>The invariant\<close>

definition slot_queue :: "nat \<Rightarrow> (nat \<Rightarrow> u16) \<Rightarrow> (nat \<Rightarrow> 'k option) \<Rightarrow> nat list \<Rightarrow> bool" where
  "slot_queue n used key ys \<longleftrightarrow> set ys = {i \<in> {1..n}. used i = 0} \<and>
     (\<forall>i \<in> {1..n}. \<forall>j \<in> {1..n}. key i \<noteq> None \<longrightarrow> key i = key j \<longrightarrow> i = j)"

definition pfs_queue :: "('d, 'z) pfs_state_scheme \<Rightarrow> nat list \<Rightarrow> bool" where
  "pfs_queue s ys \<longleftrightarrow> ring 0 (qnext s) (qprev s) ys \<and> slot_queue (pfsCacheNumBuffers s) (qused s) (qkey s) ys"

definition pfs_cache_inv :: "('d, 'z) pfs_state_scheme \<Rightarrow> bool" where
  "pfs_cache_inv s \<longleftrightarrow> (\<exists>ys. pfs_queue s ys)"

text \<open>One slot changes its use count and its key; the queue follows the count.\<close>

lemma slot_change:
  assumes "slot_queue n used key ys" and i: "i \<in> {1..n}" and "set zs = (if u = 0 then insert i (set ys) else set ys - {i})"
    and k: "k = None \<or> (\<forall>j \<in> {1..n}. j \<noteq> i \<longrightarrow> key j \<noteq> k)"
  shows "slot_queue n (used(i := u)) (key(i := k)) zs"
proof -
  have m: "set ys = {j \<in> {1..n}. used j = 0}" and q: "\<And>j l. j \<in> {1..n} \<Longrightarrow> l \<in> {1..n} \<Longrightarrow> key j \<noteq> None \<Longrightarrow> key j = key l \<Longrightarrow> j = l"
    using assms(1) by (simp_all add: slot_queue_def)
  have own: "l = i" if "l \<in> {1..n}" "k \<noteq> None" "(key(i := k)) l = k" for l
  proof (rule ccontr)
    assume "l \<noteq> i"
    then have "key l = k" using that(3) by simp
    then show False using k that(1,2) \<open>l \<noteq> i\<close> by blast
  qed
  have "j = l" if "j \<in> {1..n}" "l \<in> {1..n}" "(key(i := k)) j \<noteq> None" "(key(i := k)) j = (key(i := k)) l" for j l
  proof (cases "j = i")
    case True
    then have "k \<noteq> None" "(key(i := k)) l = k" using that(3,4) by simp_all
    then show ?thesis using own that(2) True by blast
  next
    case False
    show ?thesis
    proof (cases "l = i")
      case True
      then have "k \<noteq> None" "(key(i := k)) j = k" using that(3,4) by simp_all
      then show ?thesis using own that(1) True by blast
    next
      case l: False
      have "key j \<noteq> None" "key j = key l" using that(3,4) False l by simp_all
      then show ?thesis by (rule q [OF that(1,2)])
    qed
  qed
  moreover have "set zs = {j \<in> {1..n}. (used(i := u)) j = 0}" using m assms(2,3) by auto
  ultimately show ?thesis unfolding slot_queue_def by blast
qed

lemma slot_same_key:
  assumes "slot_queue n used key ys" and "i \<in> {1..n}" and "k = key i \<or> k = None"
  shows "k = None \<or> (\<forall>j \<in> {1..n}. j \<noteq> i \<longrightarrow> key j \<noteq> k)"
  using assms unfolding slot_queue_def by (metis option.exhaust)

lemma pfs_queue_mem: "pfs_queue s ys \<Longrightarrow> i \<in> set ys \<longleftrightarrow> i \<in> {1..pfsCacheNumBuffers s} \<and> q_nused (pfsCacheBuf s i) = 0"
  by (auto simp: pfs_queue_def slot_queue_def qused_def)

lemma pfs_queue_distinct: "pfs_queue s ys \<Longrightarrow> distinct ys \<and> 0 \<notin> set ys"
  by (auto simp: pfs_queue_def ring_def)

lemma pfs_queue_empty:
  assumes "pfs_queue s ys"
  shows "(q_prev (pfsCacheBuf s 0) = 0 \<and> q_next (pfsCacheBuf s (q_prev (pfsCacheBuf s 0))) = q_prev (pfsCacheBuf s 0)) \<longleftrightarrow> ys = []"
  using pfs_ring.ring_empty [of s ys] pfs_ring.ring_first [of s ys] assms
  by (auto simp: pfs_queue_def qprev_def qnext_def)

lemma pfs_queue_first: "pfs_queue s (y # ys) \<Longrightarrow> q_next (pfsCacheBuf s 0) = y"
  using pfs_ring.ring_first [of s "y # ys"] by (auto simp: pfs_queue_def qnext_def)

text \<open>The payload of the entries, the journal, the mount and the device do not matter.\<close>

definition same_slots :: "('d, 'z) pfs_state_scheme \<Rightarrow> ('d, 'z) pfs_state_scheme \<Rightarrow> bool" where
  "same_slots s t \<longleftrightarrow> pfsCacheNumBuffers t = pfsCacheNumBuffers s \<and> qnext t = qnext s \<and> qprev t = qprev s \<and>
     qused t = qused s \<and> qkey t = qkey s"

lemma same_slots_refl [simp, intro]: "same_slots s s"
  by (simp add: same_slots_def)

lemma same_slots_trans [trans]: "same_slots s t \<Longrightarrow> same_slots t u \<Longrightarrow> same_slots s u"
  by (simp add: same_slots_def)

lemma same_slots_queue: "same_slots s t \<Longrightarrow> pfs_queue t ys = pfs_queue s ys"
  by (simp add: same_slots_def pfs_queue_def)

lemma same_slots_cache:
  assumes "pfsCacheBuf t = pfsCacheBuf s" "pfsCacheNumBuffers t = pfsCacheNumBuffers s"
  shows "same_slots s t"
  by (simp add: same_slots_def fun_eq_iff qnext_def qprev_def slot_fields assms)

lemma same_slots_upd:
  assumes "\<And>c. q_next (f c) = q_next c" "\<And>c. q_prev (f c) = q_prev c" "\<And>c. q_nused (f c) = q_nused c"
    "\<And>c. q_mounted (f c) = q_mounted c" "\<And>c. q_sub (f c) = q_sub c" "\<And>c. q_block (f c) = q_block c"
  shows "same_slots s (upd_cache i f s)"
  by (simp add: same_slots_def fun_eq_iff qnext_def qprev_def slot_fields assms)

lemma same_slots_fold:
  assumes "\<And>x s. same_slots s (f x s)"
  shows "same_slots s (fold f xs s)"
  by (rule fold_invariant [where P = "same_slots s"]) (use assms same_slots_trans in blast)+

lemma same_slots_ofold:
  assumes "ofold f xs s = Some t" "\<And>x s t. f x s = Some t \<Longrightarrow> same_slots s t"
  shows "same_slots s t"
  by (rule ofold_invariant [where P = "same_slots s", OF assms(1)]) (use assms(2) same_slots_trans in blast)+

lemma same_slots_data [simp, intro]: "same_slots s (set_data i f s)"
  unfolding set_data_def by (rule same_slots_upd) simp_all

lemma pfs_transfer_slots: "same_slots s (snd (pfs_transfer D i m s))"
proof -
  have a: "same_slots s (set_data i f (s\<lparr>pworld := w\<rparr>))" for f w
    by (rule same_slots_trans [of _ "s\<lparr>pworld := w\<rparr>"]) (auto intro: same_slots_cache)
  show ?thesis using a by (auto simp: pfs_transfer_def Let_def intro: same_slots_cache split: prod.splits)
qed

lemma pfs_disk_error_slots: "same_slots s (pfs_disk_error D i e s)"
proof -
  have "same_slots s ((set_data i f s)\<lparr>pworld := w, pmount := m\<rparr>)" for f w m
    by (rule same_slots_trans [of _ "set_data i f s"]) (auto intro: same_slots_cache)
  then show ?thesis by (auto simp: pfs_disk_error_def Let_def split: prod.splits)
qed

lemma pfsCacheTransfer_slots: "same_slots s (snd (pfsCacheTransfer D i m s))"
proof -
  have "same_slots s t \<Longrightarrow> same_slots s (upd_cache i (\<lambda>c. c\<lparr>q_flags := q_flags c AND x\<rparr>) t)" for t x
    by (erule same_slots_trans) (rule same_slots_upd; simp)
  moreover have "same_slots s (pfs_disk_error D i e (snd (pfs_transfer D i m s)))" for e
    by (rule same_slots_trans [OF pfs_transfer_slots pfs_disk_error_slots])
  ultimately show ?thesis using pfs_transfer_slots [of s D i m]
    by (auto simp: pfsCacheTransfer_def Let_def case_prod_beta)
qed

lemma pfsJournalFlush_slots: "same_slots s (snd (pfsJournalFlush D s))"
  by (rule same_slots_cache) (simp_all add: pfsJournalFlush_def Let_def split: prod.splits)

lemma pfsJournalReset_slots: "same_slots s (snd (pfsJournalReset D s))"
  by (rule same_slots_cache) (simp_all add: pfsJournalReset_def Let_def split: prod.splits)

lemma log_entry_slots:
  assumes "log_entry i s = Some t"
  shows "same_slots s t"
proof -
  have "same_slots s (s\<lparr>pfsJournalBuf := j\<rparr>)" "same_slots s ((set_data i f s)\<lparr>pfsJournalBuf := j\<rparr>)" for j f
    by (rule same_slots_cache; simp)
      (rule same_slots_trans [OF same_slots_data, of i f]; rule same_slots_cache; simp)
  then show ?thesis using assms by (auto simp: log_entry_def Let_def split: if_splits)
qed

lemma pfsJournalWrite_slots:
  assumes "pfsJournalWrite D s = Some t"
  shows "same_slots s t"
proof -
  obtain s1 where s1: "ofold log_entry (pfs_entries (pfsCacheNumBuffers s)) s = Some s1"
    using assms by (auto simp: pfsJournalWrite_def bind_Some)
  have a: "same_slots s s1" by (rule same_slots_ofold [OF s1]) (rule log_entry_slots)
  obtain w where "t = s1\<lparr>pworld := w\<rparr> \<or> t = snd (pfsJournalFlush D (s1\<lparr>pworld := w\<rparr>))"
    using assms s1 by (auto simp: pfsJournalWrite_def Let_def split: prod.splits if_splits)
  moreover have b: "same_slots s (s1\<lparr>pworld := w\<rparr>)" by (rule same_slots_trans [OF a]) (rule same_slots_cache; simp)
  ultimately show ?thesis using same_slots_trans [OF b pfsJournalFlush_slots, of D] by blast
qed

lemma pfs_write_dirty_slots: "same_slots s (pfs_write_dirty D i s)"
  by (simp add: pfs_write_dirty_def pfsCacheTransfer_slots)

lemma flush_all_slots:
  assumes "pfsCacheFlushAllDirty D s = Some t"
  shows "same_slots s t"
proof -
  obtain s1 where s1: "t = snd (pfsJournalReset D s1)" and c: "s1 = s \<or> (\<exists>s0. pfsJournalWrite D s = Some s0 \<and>
      s1 = fold (pfs_write_dirty D) (pfs_entries (pfsCacheNumBuffers s)) s0)"
    using assms by (auto simp: pfsCacheFlushAllDirty_def bind_Some split: if_splits)
  have "same_slots s s1" using c
  proof
    assume "\<exists>s0. pfsJournalWrite D s = Some s0 \<and> s1 = fold (pfs_write_dirty D) (pfs_entries (pfsCacheNumBuffers s)) s0"
    then obtain s0 where "pfsJournalWrite D s = Some s0" "s1 = fold (pfs_write_dirty D) (pfs_entries (pfsCacheNumBuffers s)) s0" by blast
    then show ?thesis using same_slots_trans [OF pfsJournalWrite_slots same_slots_fold [OF pfs_write_dirty_slots]] by simp
  qed simp
  then show ?thesis unfolding s1 by (rule same_slots_trans [OF _ pfsJournalReset_slots])
qed

subsection \<open>The operations\<close>

lemma pfs_lookup_Some:
  "pfs_lookup sub block s = Some i \<Longrightarrow> i \<in> {1..pfsCacheNumBuffers s} \<and> qkey s i = Some (ucast sub, block)"
  unfolding pfs_lookup_def by (drule find_SomeD) (auto simp: qkey_def)

lemma pfs_lookup_None:
  "pfs_lookup sub block s = None \<Longrightarrow> i \<in> {1..pfsCacheNumBuffers s} \<Longrightarrow> qkey s i \<noteq> Some (ucast sub, block)"
  unfolding pfs_lookup_def by (drule find_NoneD [of _ _ i]) (auto simp: qkey_def)

text \<open>Changing the count and the key of one entry, with the ring as it was, unlinked, or linked.\<close>

lemma pfs_queue_change:
  assumes "pfs_queue s ys" "i \<in> {1..pfsCacheNumBuffers s}" "pfsCacheNumBuffers t = pfsCacheNumBuffers s"
    and "ring 0 (qnext t) (qprev t) zs" "qused t = (qused s)(i := u)" "qkey t = (qkey s)(i := k)"
    and "set zs = (if u = 0 then insert i (set ys) else set ys - {i})"
    and "k = None \<or> (\<forall>j \<in> {1..pfsCacheNumBuffers s}. j \<noteq> i \<longrightarrow> qkey s j \<noteq> k)"
  shows "pfs_queue t zs"
  using assms slot_change [of "pfsCacheNumBuffers s" "qused s" "qkey s" ys i zs u k] by (simp add: pfs_queue_def)

lemma pfs_keep_key:
  assumes "pfs_queue s ys" "i \<in> {1..pfsCacheNumBuffers s}" "k = qkey s i \<or> k = None"
  shows "k = None \<or> (\<forall>j \<in> {1..pfsCacheNumBuffers s}. j \<noteq> i \<longrightarrow> qkey s j \<noteq> k)"
  using assms slot_same_key [of "pfsCacheNumBuffers s" "qused s" "qkey s" ys i k] by (simp add: pfs_queue_def)

lemma qring_upd:
  assumes "\<And>c. q_next (f c) = q_next c" "\<And>c. q_prev (f c) = q_prev c"
  shows "qnext (upd_cache i f s) = qnext s" "qprev (upd_cache i f s) = qprev s"
  by (auto simp: fun_eq_iff qnext_def qprev_def assms)

lemma qslot_upd:
  "qused (upd_cache i f s) = (qused s)(i := q_nused (f (pfsCacheBuf s i)))"
  "qkey (upd_cache i f s) = (qkey s)(i := (if q_mounted (f (pfsCacheBuf s i))
     then Some (q_sub (f (pfsCacheBuf s i)), q_block (f (pfsCacheBuf s i))) else None))"
  by (auto simp: fun_eq_iff slot_fields)

lemma qslot_link [simp]:
  "qused (pfsCacheLink p c s) = qused s" "qkey (pfsCacheLink p c s) = qkey s"
  "qused (pfsCacheUnLink c s) = qused s" "qkey (pfsCacheUnLink c s) = qkey s"
  by (auto simp: fun_eq_iff slot_fields)

lemma qring_unlink:
  assumes "pfs_queue s ys" "i \<in> set ys" "\<And>c. q_next (f c) = q_next c" "\<And>c. q_prev (f c) = q_prev c"
  shows "ring 0 (qnext (pfsCacheUnLink i (upd_cache i f s))) (qprev (pfsCacheUnLink i (upd_cache i f s))) (remove1 i ys)"
  by (rule pfs_ring.unlink_mem) (use assms in \<open>simp_all add: qring_upd pfs_queue_def\<close>)

lemma qring_link:
  assumes "pfs_queue s ys" "i \<noteq> 0" "i \<notin> set ys" "\<And>c. q_next (f c) = q_next c" "\<And>c. q_prev (f c) = q_prev c"
  defines "u \<equiv> upd_cache i f s"
  shows "ring 0 (qnext (pfsCacheLink (q_prev (pfsCacheBuf u 0)) i u)) (qprev (pfsCacheLink (q_prev (pfsCacheBuf u 0)) i u)) (ys @ [i])"
    and "ring 0 (qnext (pfsCacheLink 0 i u)) (qprev (pfsCacheLink 0 i u)) (i # ys)"
proof -
  have r: "ring 0 (qnext u) (qprev u) ys" "i \<notin> set (0 # ys)" using assms by (simp_all add: u_def qring_upd pfs_queue_def)
  show "ring 0 (qnext (pfsCacheLink (q_prev (pfsCacheBuf u 0)) i u)) (qprev (pfsCacheLink (q_prev (pfsCacheBuf u 0)) i u)) (ys @ [i])"
    using pfs_ring.link_tail [OF r] by (simp only: qprev_def)
  show "ring 0 (qnext (pfsCacheLink 0 i u)) (qprev (pfsCacheLink 0 i u)) (i # ys)"
    by (rule pfs_ring.link_head [OF r])
qed

text \<open>\<open>pfsCacheFree\<close>: the last user puts a block of the mount at the back, an invalidated one in front.\<close>

lemma pfs_free_used:
  assumes inv: "pfs_queue s ys" and i: "i \<in> {1..pfsCacheNumBuffers s}" and n: "q_nused (pfsCacheBuf s i) \<noteq> 0"
  shows "pfs_queue (pfsCacheFree (Some i) s)
     (if q_nused (pfsCacheBuf s i) \<noteq> 1 then ys else if q_mounted (pfsCacheBuf s i) then ys @ [i] else i # ys)"
proof -
  let ?f = "\<lambda>c. c\<lparr>q_nused := q_nused c - 1\<rparr>"
  let ?u = "upd_cache i ?f s"
  have iy: "i \<noteq> 0" "i \<notin> set ys" using i n pfs_queue_mem [OF inv, of i] by auto
  have key: "qkey ?u = (qkey s)(i := qkey s i)" by (simp add: qslot_upd fun_eq_iff) (simp add: slot_fields)
  have use: "qused ?u = (qused s)(i := q_nused (pfsCacheBuf s i) - 1)" by (simp add: qslot_upd)
  have k: "qkey s i = None \<or> (\<forall>j \<in> {1..pfsCacheNumBuffers s}. j \<noteq> i \<longrightarrow> qkey s j \<noteq> qkey s i)"
    by (rule pfs_keep_key [OF inv i]) simp
  have "pfs_queue ?u ys" if "q_nused (pfsCacheBuf s i) \<noteq> 1"
    by (rule pfs_queue_change [OF inv i _ _ use key]) (use that k iy inv in \<open>simp_all add: qring_upd pfs_queue_def\<close>)
  moreover have "pfs_queue (pfsCacheLink (q_prev (pfsCacheBuf ?u 0)) i ?u) (ys @ [i])" if "q_nused (pfsCacheBuf s i) = 1"
    by (rule pfs_queue_change [OF inv i _ qring_link(1) [OF inv iy], where u = 0 and k = "qkey s i"])
      (use that k in \<open>simp_all add: use key\<close>)
  moreover have "pfs_queue (pfsCacheLink 0 i ?u) (i # ys)" if "q_nused (pfsCacheBuf s i) = 1"
    by (rule pfs_queue_change [OF inv i _ qring_link(2) [OF inv iy], where u = 0 and k = "qkey s i"])
      (use that k in \<open>simp_all add: use key\<close>)
  ultimately show ?thesis using n by (auto simp: pfsCacheFree_def Let_def)
qed

lemma pfs_free_keeps:
  assumes "pfs_queue s ys" "c = None \<or> (\<exists>i. c = Some i \<and> i \<in> {1..pfsCacheNumBuffers s})"
  shows "pfs_cache_inv (pfsCacheFree c s)"
proof (cases "\<exists>i. c = Some i \<and> q_nused (pfsCacheBuf s i) \<noteq> 0")
  case True
  then show ?thesis using pfs_free_used [OF assms(1)] assms(2) by (auto simp: pfs_cache_inv_def)
next
  case False
  then have "pfsCacheFree c s = s" by (auto simp: pfsCacheFree_def split: option.splits)
  then show ?thesis using assms(1) by (auto simp: pfs_cache_inv_def)
qed

lemma pfsCacheFree_num [simp]:
  "pfsCacheNumBuffers (pfsCacheFree c s) = pfsCacheNumBuffers s"
  "pmount (pfsCacheFree c s) = pmount s"
  by (simp_all add: pfsCacheFree_def Let_def split: option.splits)

text \<open>\<open>pfsCacheAlloc\<close> takes the entry in front, for a block no other entry holds or for none.\<close>

lemma pfs_alloc_first:
  assumes "pfs_queue s (i # zs)"
  shows "pfsCacheAlloc D mnt sub block flags r s =
     map_option (\<lambda>s1. ((Some i, r), pfsCacheUnLink i (upd_cache i (\<lambda>c. c\<lparr>q_flags := flags AND PFS_CACHE_FLAG_MASKTYPE, q_mounted := mnt,
       q_sub := ucast sub, q_block := block, q_nused := 1\<rparr>) s1)))
       (if pfs_dirty (pfsCacheBuf s i) then pfsCacheFlushAllDirty D s else Some s)"
proof -
  have ne: "\<not> (q_prev (pfsCacheBuf s 0) = 0 \<and> q_next (pfsCacheBuf s (q_prev (pfsCacheBuf s 0))) = q_prev (pfsCacheBuf s 0))"
    and fst: "q_next (pfsCacheBuf s 0) = i"
    using pfs_queue_empty [OF assms] pfs_queue_first [OF assms] by simp_all
  show ?thesis by (simp only: pfsCacheAlloc_def Let_def if_not_P [OF ne] fst map_conv_bind_option comp_def)
qed

lemma pfs_alloc_queue:
  assumes inv: "pfs_queue s ys" and get: "pfsCacheAlloc D mnt sub block flags r s = Some ((c, e), t)"
    and new: "mnt \<Longrightarrow> pfs_lookup sub block s = None"
  shows "pfsCacheNumBuffers t = pfsCacheNumBuffers s \<and>
     (case ys of [] \<Rightarrow> c = None \<and> e = - ENOMEM \<and> t = s
      | i # zs \<Rightarrow> c = Some i \<and> e = r \<and> pfs_queue t zs \<and> q_nused (pfsCacheBuf t i) = 1 \<and> q_mounted (pfsCacheBuf t i) = mnt)"
proof (cases ys)
  case Nil
  then show ?thesis using get pfs_queue_empty [OF inv] by (simp add: pfsCacheAlloc_def)
next
  case (Cons i zs)
  let ?f = "\<lambda>c. c\<lparr>q_flags := flags AND PFS_CACHE_FLAG_MASKTYPE, q_mounted := mnt, q_sub := ucast sub, q_block := block, q_nused := 1\<rparr>"
  obtain s1 where c1: "(if pfs_dirty (pfsCacheBuf s i) then pfsCacheFlushAllDirty D s else Some s) = Some s1"
    and t: "c = Some i" "e = r" "t = pfsCacheUnLink i (upd_cache i ?f s1)"
    using get unfolding pfs_alloc_first [OF inv [unfolded Cons]] by auto
  have s1: "same_slots s s1" using c1 flush_all_slots by (auto split: if_splits)
  have inv1: "pfs_queue s1 ys" using inv same_slots_queue [OF s1] by simp
  have i: "i \<in> {1..pfsCacheNumBuffers s1}" "i \<in> set ys" using pfs_queue_mem [OF inv1, of i] Cons by auto
  have "pfs_queue t zs"
  proof (rule pfs_queue_change [OF inv1 i(1)])
    show "ring 0 (qnext t) (qprev t) zs" using qring_unlink [OF inv1 i(2), of ?f] Cons t(3) by simp
    show "set zs = (if (1 :: u16) = 0 then insert i (set ys) else set ys - {i})"
      using pfs_queue_distinct [OF inv] Cons by auto
    show "(if mnt then Some (ucast sub, block) else None) = None \<or>
      (\<forall>j \<in> {1..pfsCacheNumBuffers s1}. j \<noteq> i \<longrightarrow> qkey s1 j \<noteq> (if mnt then Some (ucast sub, block) else None))"
      using pfs_lookup_None [OF new] s1 by (simp add: same_slots_def)
  qed (simp_all add: t(3) qslot_upd)
  then show ?thesis using Cons t s1 by (simp add: same_slots_def)
qed

text \<open>\<open>pfsCacheGetData\<close>, branch by branch. The use count of an entry does not wrap.\<close>

lemma pfs_get_hit:
  assumes inv: "pfs_queue s ys" and hit: "pfs_lookup sub block s = Some i" and n: "q_nused (pfsCacheBuf s i) \<noteq> - 1"
    and get: "pfsCacheGetData D sub block flags s = Some (r, t)"
  shows "r = (Some i, 0) \<and> pfs_queue t (remove1 i ys) \<and> pfsCacheNumBuffers t = pfsCacheNumBuffers s \<and> pworld t = pworld s"
proof -
  have i: "i \<in> {1..pfsCacheNumBuffers s}" using pfs_lookup_Some [OF hit] by blast
  let ?g = "\<lambda>c. c\<lparr>q_flags := (q_flags c AND PFS_CACHE_FLAG_MASKSTATUS) OR (flags AND PFS_CACHE_FLAG_MASKTYPE)\<rparr>"
  define u where "u = upd_cache i ?g s"
  define v where "v = (if q_nused (pfsCacheBuf s i) = 0 then pfsCacheUnLink i u else u)"
  have t: "r = (Some i, 0)" "t = pfsCacheUsedAdd i v"
    using get hit by (auto simp: pfsCacheGetData_def Let_def u_def v_def)
  have su: "same_slots s u" unfolding u_def by (rule same_slots_upd) simp_all
  have nz: "q_nused (pfsCacheBuf s i) + 1 \<noteq> 0" using n by (metis add_eq_0_iff2)
  have slots: "pfsCacheNumBuffers v = pfsCacheNumBuffers s" "qused v = qused s" "qkey v = qkey s" "pworld v = pworld s"
    using su by (simp_all add: v_def same_slots_def) (simp add: u_def)
  have rv: "ring 0 (qnext v) (qprev v) (remove1 i ys)"
  proof (cases "q_nused (pfsCacheBuf s i) = 0")
    case True
    have "ring 0 (qnext u) (qprev u) ys" using inv su by (simp add: pfs_queue_def same_slots_def)
    then show ?thesis using True pfs_ring.unlink_mem pfs_queue_mem [OF inv, of i] i by (simp add: v_def)
  next
    case False
    then show ?thesis using inv su pfs_queue_mem [OF inv, of i] by (simp add: v_def remove1_idem pfs_queue_def same_slots_def)
  qed
  have cnt: "q_nused (pfsCacheBuf v i) = q_nused (pfsCacheBuf s i)" using fun_cong [OF slots(2), of i] by (simp add: qused_def)
  have key: "qkey t = (qkey s)(i := qkey s i)"
    unfolding slots(3) [symmetric] by (simp add: t(2) pfsCacheUsedAdd_def qslot_upd fun_eq_iff) (simp add: slot_fields)
  have "pfs_queue t (remove1 i ys)"
  proof (rule pfs_queue_change [OF inv i _ _ _ key])
    show "ring 0 (qnext t) (qprev t) (remove1 i ys)" using rv by (simp add: t(2) pfsCacheUsedAdd_def qring_upd)
    show "qused t = (qused s)(i := q_nused (pfsCacheBuf s i) + 1)"
      by (simp add: t(2) pfsCacheUsedAdd_def qslot_upd cnt slots(2))
    show "set (remove1 i ys) = (if q_nused (pfsCacheBuf s i) + 1 = 0 then insert i (set ys) else set ys - {i})"
      using nz pfs_queue_distinct [OF inv] by simp
    show "qkey s i = None \<or> (\<forall>j \<in> {1..pfsCacheNumBuffers s}. j \<noteq> i \<longrightarrow> qkey s j \<noteq> qkey s i)"
      by (rule pfs_keep_key [OF inv i]) simp
  qed (simp add: t(2) pfsCacheUsedAdd_def slots)
  then show ?thesis using t by (simp add: pfsCacheUsedAdd_def slots)
qed

lemma pfs_invalidate:
  assumes "pfs_queue s ys" "i \<in> {1..pfsCacheNumBuffers s}"
  shows "pfs_queue (upd_cache i (\<lambda>c. c\<lparr>q_mounted := False\<rparr>) s) ys"
proof -
  have "set ys = (if q_nused (pfsCacheBuf s i) = 0 then insert i (set ys) else set ys - {i})"
    using pfs_queue_mem [OF assms(1), of i] assms(2) by auto
  then show ?thesis
    by (intro pfs_queue_change [OF assms(1,2), where u = "q_nused (pfsCacheBuf s i)" and k = None])
      (use assms in \<open>simp_all add: qring_upd qslot_upd pfs_queue_def\<close>)
qed

lemma pfs_get_miss:
  assumes inv: "pfs_queue s ys" and miss: "pfs_lookup sub block s = None"
    and get: "pfsCacheGetData D sub block flags s = Some ((c, r), t)"
  shows "pfs_cache_inv t \<and> pfsCacheNumBuffers t = pfsCacheNumBuffers s"
proof -
  obtain c1 e1 s1 where al: "pfsCacheAlloc D True sub block flags 0 s = Some ((c1, e1), s1)"
    and rest: "(case c1 of None \<Rightarrow> Some ((None, e1), s1) | Some i \<Rightarrow>
        if flags AND PFS_CACHE_FLAG_NOLOAD \<noteq> 0 then Some ((Some i, e1), s1)
        else (let (r, s2) = pfsCacheTransfer D i 0 s1 in
              if 0 \<le> r then Some ((Some i, r), s2)
              else Some ((None, r), pfsCacheFree (Some i) (upd_cache i (\<lambda>c. c\<lparr>q_mounted := False\<rparr>) s2)))) = Some ((c, r), t)"
    using get miss by (auto simp: pfsCacheGetData_def bind_Some)
  note a = pfs_alloc_queue [OF inv al miss]
  show ?thesis
  proof (cases ys)
    case Nil
    then show ?thesis using a rest inv by (auto simp: pfs_cache_inv_def)
  next
    case (Cons i zs)
    then have b: "c1 = Some i" "pfs_queue s1 zs" "pfsCacheNumBuffers s1 = pfsCacheNumBuffers s" using a by auto
    have i: "i \<in> {1..pfsCacheNumBuffers s1}" using pfs_queue_mem [OF inv, of i] Cons b(3) by simp
    let ?s2 = "snd (pfsCacheTransfer D i 0 s1)"
    have s2: "same_slots s1 ?s2" by (rule pfsCacheTransfer_slots)
    have q2: "pfs_queue ?s2 zs" and n2: "pfsCacheNumBuffers ?s2 = pfsCacheNumBuffers s"
      using same_slots_queue [OF s2] s2 b by (simp_all add: same_slots_def)
    let ?s3 = "upd_cache i (\<lambda>c. c\<lparr>q_mounted := False\<rparr>) ?s2"
    have "pfs_queue ?s3 zs" by (rule pfs_invalidate [OF q2]) (use i n2 b(3) in simp)
    then have "pfs_cache_inv (pfsCacheFree (Some i) ?s3)" by (rule pfs_free_keeps) (use i n2 b(3) in simp)
    then show ?thesis using rest b q2 n2
      by (auto simp: case_prod_beta Let_def pfs_cache_inv_def split: if_splits)
  qed
qed

text \<open>\<open>pfsCacheInit\<close> queues every entry in the order of the buffers.\<close>

lemma pfs_init_fold:
  assumes "ring 0 (qnext s) (qprev s) xs" "distinct (xs @ is)" "0 \<notin> set is"
  defines "t \<equiv> fold (\<lambda>i t. pfsCacheLink (q_prev (pfsCacheBuf t 0)) i t) is s"
  shows "ring 0 (qnext t) (qprev t) (xs @ is) \<and> qused t = qused s \<and> qkey t = qkey s \<and> pfsCacheNumBuffers t = pfsCacheNumBuffers s
    \<and> pworld t = pworld s \<and> pmount t = pmount s"
  using assms(1-3) unfolding t_def
proof (induction "is" arbitrary: s xs)
  case Nil
  then show ?case by simp
next
  case (Cons i "is")
  have "ring 0 (qnext (pfsCacheLink (qprev s 0) i s)) (qprev (pfsCacheLink (qprev s 0) i s)) (xs @ [i])"
    by (rule pfs_ring.link_tail) (use Cons.prems in auto)
  from Cons.IH [OF this] Cons.prems show ?case by (simp add: qprev_def)
qed

lemma pfs_init_queue:
  assumes "pfsCacheInit n True True mem s0 = (0, s)"
  shows "pfs_queue s (pfs_entries n) \<and> pfsCacheNumBuffers s = n \<and> pmount s = pmount s0 \<and> pworld s = pworld s0
    \<and> (\<forall>i. qkey s i = None \<and> qused s i = 0)"
proof -
  let ?s1 = "s0\<lparr>pfsCacheNumBuffers := n, pfsCacheBuf := (\<lambda>i. zero_pfs_entry (mem i))\<rparr>"
  have s: "s = fold (\<lambda>i t. pfsCacheLink (q_prev (pfsCacheBuf t 0)) i t) (pfs_entries n) ?s1"
    using assms by (auto simp: pfsCacheInit_def Let_def EINVAL_def split: if_splits)
  have "ring 0 (qnext ?s1) (qprev ?s1) []" by (simp add: ring_def qnext_def qprev_def zero_pfs_entry_def)
  from pfs_init_fold [OF this, of "pfs_entries n"]
  have "ring 0 (qnext s) (qprev s) (pfs_entries n) \<and> qused s = qused ?s1 \<and> qkey s = qkey ?s1 \<and> pfsCacheNumBuffers s = n
     \<and> pworld s = pworld s0 \<and> pmount s = pmount s0"
    unfolding s by (simp add: pfs_entries_def)
  then show ?thesis by (auto simp: pfs_queue_def slot_queue_def slot_fields zero_pfs_entry_def)
qed

subsection \<open>Runs of the cache\<close>

text \<open>
  A step is one call of the cache's interface, a client's store into the data of an entry, or
  the recovery of the journal. The guards are the calling convention: use counts do not wrap,
  and entries are those of the table.
\<close>

inductive pfs_step :: "'d blk_dev \<Rightarrow> ('d, 'z) pfs_state_scheme \<Rightarrow> ('d, 'z) pfs_state_scheme \<Rightarrow> bool" for D where
  get: "pfsCacheGetData D sub block flags s = Some (r, t) \<Longrightarrow>
     (\<And>i. i \<in> {1..pfsCacheNumBuffers s} \<Longrightarrow> q_nused (pfsCacheBuf s i) \<noteq> - 1) \<Longrightarrow> pfs_step D s t"
| alloc: "pfsCacheAllocClean D s = Some (r, t) \<Longrightarrow> pfs_step D s t"
| used: "i \<in> {1..pfsCacheNumBuffers s} \<Longrightarrow> q_nused (pfsCacheBuf s i) \<noteq> 0 \<Longrightarrow> q_nused (pfsCacheBuf s i) \<noteq> - 1 \<Longrightarrow>
     pfs_step D s (pfsCacheUsedAdd i s)"
| free: "i \<in> {1..pfsCacheNumBuffers s} \<Longrightarrow> pfs_step D s (pfsCacheFree (Some i) s)"
| store: "pfs_step D s (pfs_mark_dirty i (set_data i f s))"
| clean: "pfs_step D s (pfsCacheMarkClean sub lo hi s)"
| flush: "pfsCacheFlushAllDirty D s = Some t \<Longrightarrow> pfs_step D s t"
| close: "pfsCacheClose D s = Some t \<Longrightarrow> pfs_step D s t"
| restore: "pfsJournalRestore D s = Some (r, t) \<Longrightarrow> pfs_step D s t"

lemma pfs_used_add:
  assumes inv: "pfs_queue s ys" and i: "i \<in> {1..pfsCacheNumBuffers s}" and n: "q_nused (pfsCacheBuf s i) \<noteq> 0" "q_nused (pfsCacheBuf s i) \<noteq> - 1"
  shows "pfs_queue (pfsCacheUsedAdd i s) ys"
proof -
  have nz: "q_nused (pfsCacheBuf s i) + 1 \<noteq> 0" using n by (metis add_eq_0_iff2)
  have key: "qkey (pfsCacheUsedAdd i s) = (qkey s)(i := qkey s i)"
    by (simp add: pfsCacheUsedAdd_def qslot_upd fun_eq_iff) (simp add: slot_fields)
  show ?thesis
    by (rule pfs_queue_change [OF inv i _ _ _ key, where u = "q_nused (pfsCacheBuf s i) + 1"])
      (use inv nz n pfs_queue_mem [OF inv, of i] pfs_keep_key [OF inv i, of "qkey s i"] in
        \<open>simp_all add: pfsCacheUsedAdd_def qring_upd qslot_upd pfs_queue_def\<close>)
qed

lemma pfs_clean_slots: "same_slots s (pfsCacheMarkClean sub lo hi s)"
  unfolding pfsCacheMarkClean_def by (rule same_slots_fold, rule same_slots_upd) simp_all

lemma pfs_store_slots: "same_slots s (pfs_mark_dirty i (set_data i f s))"
  unfolding pfs_mark_dirty_def by (rule same_slots_trans [OF same_slots_data same_slots_upd]) simp_all

lemma pfs_close_queue:
  assumes "pfs_queue s ys" "pfsCacheClose D s = Some t"
  shows "pfs_queue t ys \<and> pfsCacheNumBuffers t = pfsCacheNumBuffers s"
proof -
  let ?g = "\<lambda>i. upd_cache i (\<lambda>c. c\<lparr>q_mounted := False\<rparr>)"
  obtain s1 where s1: "pfsCacheFlushAllDirty D s = Some s1" and t: "t = fold ?g (pfs_entries (pfsCacheNumBuffers s1)) s1"
    using assms(2) by (auto simp: pfsCacheClose_def)
  have q: "pfs_queue s1 ys" "pfsCacheNumBuffers s1 = pfsCacheNumBuffers s"
    using flush_all_slots [OF s1] same_slots_queue assms(1) by (auto simp: same_slots_def)
  show ?thesis unfolding t
  proof (rule fold_invariant [where P = "\<lambda>u. pfs_queue u ys \<and> pfsCacheNumBuffers u = pfsCacheNumBuffers s"])
    fix i and u :: "('a, 'b) pfs_state_scheme"
    assume "i \<in> set (pfs_entries (pfsCacheNumBuffers s1))" "pfs_queue u ys \<and> pfsCacheNumBuffers u = pfsCacheNumBuffers s"
    then show "pfs_queue (?g i u) ys \<and> pfsCacheNumBuffers (?g i u) = pfsCacheNumBuffers s"
      using pfs_invalidate [of u ys i] q by simp
  qed (use q in simp)
qed

lemma pfs_reset_inv:
  "pfs_cache_inv (snd (pfsJournalReset D u)) = pfs_cache_inv u"
  "pfsCacheNumBuffers (snd (pfsJournalReset D u)) = pfsCacheNumBuffers u"
  using pfsJournalReset_slots [of u D] same_slots_queue by (auto simp: pfs_cache_inv_def same_slots_def)

lemma pfs_log_copy_slots: "pfs_log_copy D i k s = Some t \<Longrightarrow> same_slots s t"
  by (auto simp: pfs_log_copy_def Let_def case_prod_beta same_slots_def fun_eq_iff qnext_def qprev_def slot_fields split: if_splits)

lemma pfs_replay_inv:
  assumes inv: "pfs_queue s ys" and get: "pfs_replay D s = Some (r, t)"
  shows "pfs_cache_inv t \<and> pfsCacheNumBuffers t = pfsCacheNumBuffers s"
proof -
  obtain c e s2 where al: "pfsCacheAlloc D False 0 0 0 0 s = Some ((c, e), s2)" and
    rest: "(case c of None \<Rightarrow> Some (e, s2) | Some i \<Rightarrow> do {
       s3 \<leftarrow> ofold (pfs_log_copy D i) [0..<unat (pj_num (pfsJournalBuf s2))] s2;
       Some (pfsJournalReset D (pfsCacheFree (Some i) s3)) }) = Some (r, t)"
    using get by (auto simp: pfs_replay_def pfsCacheAllocClean_def bind_Some)
  have a: "pfs_cache_inv s2" "pfsCacheNumBuffers s2 = pfsCacheNumBuffers s" "\<And>i. c = Some i \<Longrightarrow> i \<in> {1..pfsCacheNumBuffers s}"
    using pfs_alloc_queue [OF inv al] inv pfs_queue_mem [OF inv] by (cases ys; auto simp: pfs_cache_inv_def)+
  show ?thesis
  proof (cases c)
    case None
    then show ?thesis using a rest by simp
  next
    case (Some i)
    then obtain s3 where o3: "ofold (pfs_log_copy D i) [0..<unat (pj_num (pfsJournalBuf s2))] s2 = Some s3"
      and "pfsJournalReset D (pfsCacheFree (Some i) s3) = (r, t)" using rest by (auto simp: bind_Some)
    then have t: "t = snd (pfsJournalReset D (pfsCacheFree (Some i) s3))" by simp
    have ss: "same_slots s2 s3" by (rule same_slots_ofold [OF o3]) (rule pfs_log_copy_slots)
    have n: "pfsCacheNumBuffers s3 = pfsCacheNumBuffers s" using ss a(2) by (simp add: same_slots_def)
    obtain zs where "pfs_queue s3 zs" using a(1) same_slots_queue [OF ss] by (auto simp: pfs_cache_inv_def)
    then have "pfs_cache_inv (pfsCacheFree (Some i) s3)" by (rule pfs_free_keeps) (use a(3) [OF Some] n in auto)
    then show ?thesis using n by (simp add: t pfs_reset_inv)
  qed
qed

lemma pfs_restore_inv:
  assumes "pfs_queue s ys" "pfsJournalRestore D s = Some (r, t)"
  shows "pfs_cache_inv t \<and> pfsCacheNumBuffers t = pfsCacheNumBuffers s"
proof -
  define u where "u = s\<lparr>pworld := snd (snd (bd_read D 0 (log_start (pmount s)) 2 (pworld s))),
    pfsJournalBuf := pfs_journal_of_words (overlay (fst (snd (bd_read D 0 (log_start (pmount s)) 2 (pworld s))))
      (pfs_journal_words (pfsJournalBuf s)))\<rparr>"
  have u: "pfsCacheBuf u = pfsCacheBuf s" "pfsCacheNumBuffers u = pfsCacheNumBuffers s" by (simp_all add: u_def)
  have c: "pfsJournalReset D u = (r, t) \<or> pfs_replay D u = Some (r, t)"
    using assms(2) by (auto simp: pfsJournalRestore_def Let_def case_prod_beta u_def [symmetric] split: if_splits)
  have q: "pfs_queue u ys" using same_slots_queue [OF same_slots_cache [OF u]] assms(1) by simp
  then have "pfs_cache_inv u" by (auto simp: pfs_cache_inv_def)
  then show ?thesis using c pfs_replay_inv [OF q] pfs_reset_inv [of D u] u(2) by auto
qed

lemma pfs_step_inv:
  assumes "pfs_step D s t" "pfs_cache_inv s"
  shows "pfs_cache_inv t \<and> pfsCacheNumBuffers t = pfsCacheNumBuffers s"
proof -
  obtain ys where q: "pfs_queue s ys" using assms(2) by (auto simp: pfs_cache_inv_def)
  have slots: "pfs_cache_inv t \<and> pfsCacheNumBuffers t = pfsCacheNumBuffers s" if "same_slots s t"
    using same_slots_queue [OF that] q that by (auto simp: pfs_cache_inv_def same_slots_def)
  show ?thesis
    using assms(1)
  proof cases
    case (get sub block flags r)
    then show ?thesis
    proof (cases "pfs_lookup sub block s")
      case None
      then show ?thesis using pfs_get_miss [OF q None, of D flags "fst r" "snd r" t] get(1) by simp
    next
      case (Some i)
      then have "q_nused (pfsCacheBuf s i) \<noteq> - 1" using pfs_lookup_Some [OF Some] get(2) by blast
      then show ?thesis using pfs_get_hit [OF q Some _ get(1)] by (auto simp: pfs_cache_inv_def)
    qed
  next
    case (alloc r)
    then have "pfsCacheAlloc D False 0 0 0 0 s = Some ((fst r, snd r), t)" by (simp add: pfsCacheAllocClean_def)
    from pfs_alloc_queue [OF q this] q show ?thesis by (cases ys) (auto simp: pfs_cache_inv_def)
  next
    case (used i)
    then show ?thesis using pfs_used_add [OF q used(2-4)] by (auto simp: pfs_cache_inv_def pfsCacheUsedAdd_def)
  next
    case (free i)
    then show ?thesis using pfs_free_keeps [OF q, of "Some i"] by simp
  next
    case (store i f)
    then show ?thesis using slots pfs_store_slots by blast
  next
    case (clean sub lo hi)
    then show ?thesis using slots pfs_clean_slots by blast
  next
    case flush
    then show ?thesis using slots flush_all_slots by blast
  next
    case close
    then show ?thesis using pfs_close_queue [OF q] by (auto simp: pfs_cache_inv_def)
  next
    case (restore r)
    then show ?thesis using pfs_restore_inv [OF q] by blast
  qed
qed

text \<open>
  C23. After \<open>pfsCacheInit\<close>, whatever sequence of cache calls follows, the recovery of the journal
  among them, and whatever the device answers, the ring through the sentinel holds exactly the
  entries nobody uses, each once, and no two entries of the mount hold the same block.
\<close>

theorem pfs_cache_reachable_inv:
  assumes "pfsCacheInit n True True mem s0 = (0, s)" "(pfs_step D)\<^sup>*\<^sup>* s t"
  shows "pfs_cache_inv t \<and> pfsCacheNumBuffers t = n"
  using assms(2)
proof (induction rule: rtranclp_induct)
  case base
  then show ?case using pfs_init_queue [OF assms(1)] by (auto simp: pfs_cache_inv_def)
next
  case (step t u)
  then show ?case using pfs_step_inv by blast
qed

lemma demo_pfs_init: "n \<le> 127 \<Longrightarrow> pfsCacheInit n True True (\<lambda>_. replicate 256 0) demo_pfs_state = (0, demo_pfs n)"
  by (simp add: demo_pfs_def pfsCacheInit_def Let_def)

lemma demo_pfs_queue:
  assumes "n \<le> 127"
  shows "pfs_queue (demo_pfs n) (pfs_entries n)" "pfsCacheNumBuffers (demo_pfs n) = n" "pmount (demo_pfs n) = demo_mount"
    "pworld (demo_pfs n) = demo_disk" "q_mounted (pfsCacheBuf (demo_pfs n) i) = False" "q_nused (pfsCacheBuf (demo_pfs n) i) = 0"
  using pfs_init_queue [OF demo_pfs_init [OF assms]] by (auto simp: demo_pfs_state_def slot_fields split: if_splits)

lemma demo_pfs_lookup: "n \<le> 127 \<Longrightarrow> pfs_lookup sub block (demo_pfs n) = None"
  using pfs_lookup_Some [of sub block "demo_pfs n"] demo_pfs_queue(5) [of n]
  by (cases "pfs_lookup sub block (demo_pfs n)") (auto simp: qkey_def)

text \<open>A request for a new block takes the first entry of the queue.\<close>

definition pfs_claim :: "u16 \<Rightarrow> u32 \<Rightarrow> u16 \<Rightarrow> nat \<Rightarrow> ('d, 'z) pfs_state_scheme \<Rightarrow> ('d, 'z) pfs_state_scheme" where
  "pfs_claim sub block flags i s = pfsCacheUnLink i (upd_cache i (\<lambda>c. c\<lparr>q_flags := flags AND PFS_CACHE_FLAG_MASKTYPE, q_mounted := True,
     q_sub := ucast sub, q_block := block, q_nused := 1\<rparr>) s)"

lemma pfs_get_new:
  assumes "pfs_queue s (i # zs)" "pfs_lookup sub block s = None" "\<not> pfs_dirty (pfsCacheBuf s i)"
  shows "pfsCacheGetData D sub block flags s = Some (
     if flags AND PFS_CACHE_FLAG_NOLOAD \<noteq> 0 then ((Some i, 0), pfs_claim sub block flags i s)
     else (let (r, s2) = pfsCacheTransfer D i 0 (pfs_claim sub block flags i s) in
           if 0 \<le> r then ((Some i, r), s2)
           else ((None, r), pfsCacheFree (Some i) (upd_cache i (\<lambda>c. c\<lparr>q_mounted := False\<rparr>) s2))))"
  using assms(2,3) by (simp add: pfsCacheGetData_def pfs_alloc_first [OF assms(1)] pfs_claim_def Let_def case_prod_beta)

theorem pfs_cache_reachable_inv_witness:
  "pfs_cache_inv (snd (the (pfsCacheGetData (sim_blk False) 0 5 0 (demo_pfs 2))))"
proof -
  have e: "pfs_entries 2 = [1, 2]" by (simp add: pfs_entries_def upt_rec)
  have q: "pfs_queue (demo_pfs 2) [1, 2]" using demo_pfs_queue(1) [of 2] e by simp
  have d: "\<not> pfs_dirty (pfsCacheBuf (demo_pfs 2) 1)" by (simp add: pfs_dirty_def demo_pfs_queue(5))
  obtain r t where g: "pfsCacheGetData (sim_blk False) 0 5 0 (demo_pfs 2) = Some (r, t)"
    using pfs_get_new [OF q demo_pfs_lookup [of 2 0 5] d, of "sim_blk False" 0] by fastforce
  have "pfs_step (sim_blk False) (demo_pfs 2) t" by (rule pfs_step.get [OF g]) (simp add: demo_pfs_queue(6))
  then have "(pfs_step (sim_blk False))\<^sup>*\<^sup>* (demo_pfs 2) t" by (rule r_into_rtranclp)
  then show ?thesis using pfs_cache_reachable_inv [OF demo_pfs_init [of 2]] by (simp add: g)
qed

subsection \<open>The errors of a transfer\<close>

lemma log_entry_mount: "log_entry i s = Some t \<Longrightarrow> pmount t = pmount s"
  by (auto simp: log_entry_def Let_def split: if_splits)

lemma pfs_transfer_mount: "pmount (snd (pfs_transfer D i m s)) = pmount s"
  by (auto simp: pfs_transfer_def Let_def split: prod.splits)

lemma transfer_mount_fsck:
  assumes "PFS_NO_WRITE_ERROR_STAT D"
  shows "pmount (snd (pfsCacheTransfer D i m s)) = pmount s"
  using assms pfs_transfer_mount [of D i m s] by (simp add: pfsCacheTransfer_def pfs_disk_error_def Let_def case_prod_beta)

lemma pfs_transfer_result: "fst (pfsCacheTransfer D i m s) = lastError (pmount (snd (pfsCacheTransfer D i m s)))"
  by (simp add: pfsCacheTransfer_def Let_def)

lemma pfsJournalWrite_mount:
  assumes "pfsJournalWrite D s = Some t"
  shows "pmount t = pmount s"
proof -
  obtain s1 where s1: "ofold log_entry (pfs_entries (pfsCacheNumBuffers s)) s = Some s1"
    using assms by (auto simp: pfsJournalWrite_def bind_Some)
  have "pmount s1 = pmount s"
    by (rule ofold_invariant [where P = "\<lambda>u. pmount u = pmount s", OF s1]) (simp_all add: log_entry_mount)
  then show ?thesis using assms s1
    by (auto simp: pfsJournalWrite_def pfsJournalFlush_def Let_def case_prod_beta split: if_splits)
qed

lemma flush_mount_fsck:
  assumes "PFS_NO_WRITE_ERROR_STAT D" "pfsCacheFlushAllDirty D s = Some t"
  shows "pmount t = pmount s"
proof -
  have f: "pmount (fold (pfs_write_dirty D) is u) = pmount u" for "is" and u :: "('a, 'b) pfs_state_scheme"
    by (rule fold_invariant [where P = "\<lambda>v. pmount v = pmount u"]) (simp_all add: pfs_write_dirty_def transfer_mount_fsck assms(1))
  obtain s1 where s1: "t = snd (pfsJournalReset D s1)" "s1 = s \<or> (\<exists>s0. pfsJournalWrite D s = Some s0 \<and>
      s1 = fold (pfs_write_dirty D) (pfs_entries (pfsCacheNumBuffers s)) s0)"
    using assms(2) by (auto simp: pfsCacheFlushAllDirty_def bind_Some split: if_splits)
  then have "pmount s1 = pmount s" using f pfsJournalWrite_mount by metis
  then show ?thesis by (simp add: s1(1) pfsJournalReset_def Let_def case_prod_beta)
qed

text \<open>
  C40. In the build of \<open>fsck\<close>, which defines \<open>PFS_NO_WRITE_ERROR_STAT\<close>, a block is delivered with
  result 0 even when its sectors cannot be read or its magic number or checksum is wrong: the
  only error a caller ever sees is a full cache.
\<close>

theorem fsck_hides_errors:
  assumes build: "PFS_NO_WRITE_ERROR_STAT D" and calm: "lastError (pmount s) = 0"
    and get: "pfsCacheGetData D sub block flags s = Some ((c, r), t)"
  shows "lastError (pmount t) = 0 \<and> (r = 0 \<longleftrightarrow> c \<noteq> None) \<and> r \<in> {0, - ENOMEM}"
proof (cases "pfs_lookup sub block s")
  case (Some i)
  then have "c = Some i" "r = 0" "pmount t = pmount s" using get by (auto simp: pfsCacheGetData_def pfsCacheUsedAdd_def Let_def)
  then show ?thesis using calm by simp
next
  case None
  obtain c1 e1 s1 where al: "pfsCacheAlloc D True sub block flags 0 s = Some ((c1, e1), s1)"
    and rest: "(case c1 of None \<Rightarrow> Some ((None, e1), s1) | Some i \<Rightarrow>
        if flags AND PFS_CACHE_FLAG_NOLOAD \<noteq> 0 then Some ((Some i, e1), s1)
        else (let (r, s2) = pfsCacheTransfer D i 0 s1 in
              if 0 \<le> r then Some ((Some i, r), s2)
              else Some ((None, r), pfsCacheFree (Some i) (upd_cache i (\<lambda>c. c\<lparr>q_mounted := False\<rparr>) s2)))) = Some ((c, r), t)"
    using get None by (auto simp: pfsCacheGetData_def bind_Some)
  have a: "pmount s1 = pmount s" "c1 = None \<and> e1 = - ENOMEM \<or> c1 \<noteq> None \<and> e1 = 0"
    using al flush_mount_fsck [OF build] by (auto simp: pfsCacheAlloc_def Let_def bind_Some split: if_splits)
  have "fst (pfsCacheTransfer D i 0 s1) = 0" "pmount (snd (pfsCacheTransfer D i 0 s1)) = pmount s" for i
    using pfs_transfer_result [of D i 0 s1] transfer_mount_fsck [OF build, of i 0 s1] a(1) calm by simp_all
  then show ?thesis using rest a calm
    by (auto simp: case_prod_beta Let_def ENOMEM_def split: option.splits if_splits)
qed

text \<open>On a drive that reads nothing, a directory's inode is delivered as the memory holds it.\<close>

definition dead_pfs :: "sim_disk pfs_state" where
  "dead_pfs = (demo_pfs 2)\<lparr>pworld := demo_disk\<lparr>sd_bad := \<lambda>_ _. True\<rparr>\<rparr>"

theorem fsck_hides_errors_witness:
  "fst (the (pfsCacheGetData (sim_blk True) 0 5 PFS_CACHE_FLAG_SEGD dead_pfs)) = (Some 1, 0)"
proof -
  have e: "pfs_entries 2 = [1, 2]" by (simp add: pfs_entries_def upt_rec)
  have ss: "same_slots (demo_pfs 2) dead_pfs" by (rule same_slots_cache) (simp_all add: dead_pfs_def)
  have q: "pfs_queue dead_pfs [1, 2]" using demo_pfs_queue(1) [of 2] e same_slots_queue [OF ss] by simp
  have l: "pfs_lookup 0 5 dead_pfs = None" using demo_pfs_lookup [of 2 0 5] by (simp add: dead_pfs_def pfs_lookup_def)
  have d: "\<not> pfs_dirty (pfsCacheBuf dead_pfs 1)" by (simp add: pfs_dirty_def dead_pfs_def demo_pfs_queue(5))
  note new = pfs_get_new [OF q l d, of "sim_blk True" PFS_CACHE_FLAG_SEGD]
  then obtain x where x: "pfsCacheGetData (sim_blk True) 0 5 PFS_CACHE_FLAG_SEGD dead_pfs = Some x" by blast
  obtain c r t where "x = ((c, r), t)" by (metis surj_pair)
  with x have g: "pfsCacheGetData (sim_blk True) 0 5 PFS_CACHE_FLAG_SEGD dead_pfs = Some ((c, r), t)" by simp
  have c: "c = None \<and> r = lastError (pmount t) \<or> c = Some 1" using g unfolding new
    by (auto simp: case_prod_beta Let_def pfs_transfer_result split: if_splits)
  have "PFS_NO_WRITE_ERROR_STAT (sim_blk True)" "lastError (pmount dead_pfs) = 0"
    by (simp_all add: sim_blk_def dead_pfs_def demo_pfs_queue(3) demo_mount_def)
  from fsck_hides_errors [OF this g] c g show ?thesis by (auto simp: ENOMEM_def)
qed

end
