(* ===== verification/PfsBitmap.thy ===== *)
theory PfsBitmap
  imports PfsCacheInv
begin

text \<open>
  The allocation bitmap of a PFS partition, \<open>libpfs/src/bitmap.c\<close>: a bit per zone, in chunks of
  1024 bytes that go through the block cache. A pointer to a block info that lies in a cached
  inode is what it reads in a state, a function of the state, since the cache may move on under
  it; one to a local variable is a value.
\<close>

subsection \<open>Positions in the bitmap\<close>

record pfs_bitmapInfo =
  bm_chunk :: u32
  bm_index :: u32
  bm_bit :: u32
  partitionChunks :: u32
  partitionRemainder :: u32

definition PFS_BITMAP_ALLOC :: u32 where "PFS_BITMAP_ALLOC = 0"
definition PFS_BITMAP_FREE :: u32 where "PFS_BITMAP_FREE = 1"
definition USHRT_MAX :: u32 where "USHRT_MAX = 65535"

definition pfsBitsPerBitmapChunk :: u32 where "pfsBitsPerBitmapChunk = 8192"

definition pfsBitmapSetupInfo :: "'d blk_dev \<Rightarrow> pfs_mount \<Rightarrow> u32 \<Rightarrow> u32 \<Rightarrow> pfs_bitmapInfo" where
  "pfsBitmapSetupInfo D m subpart number =
     (let sz = drop_bit (unat (sector_scale m)) (bd_size D subpart)
      in \<lparr>bm_chunk = number div pfsBitsPerBitmapChunk,
          bm_index = (number mod pfsBitsPerBitmapChunk) div 32,
          bm_bit = number AND 31,
          partitionChunks = sz div pfsBitsPerBitmapChunk,
          partitionRemainder = sz mod pfsBitsPerBitmapChunk\<rparr>)"

text \<open>The block of a chunk, the test of the loops over the chunks, and the bytes of a chunk that are looked at.\<close>

definition bitmap_sector :: "pfs_mount \<Rightarrow> u32 \<Rightarrow> u32 \<Rightarrow> u32" where
  "bitmap_sector m subpart ch =
     push_bit (unat (inode_scale m)) 1 + ch + (if subpart = 0 then drop_bit pfsBlockSize 0x2000 else 0)"

definition chunk_in :: "pfs_bitmapInfo \<Rightarrow> bool" where
  "chunk_in b \<longleftrightarrow>
     (partitionRemainder b = 0 \<and> bm_chunk b < partitionChunks b) \<or>
     (partitionRemainder b \<noteq> 0 \<and> bm_chunk b < partitionChunks b + 1)"

definition bitmap_max :: "pfs_bitmapInfo \<Rightarrow> nat" where
  "bitmap_max b = unat (if bm_chunk b = partitionChunks b then partitionRemainder b div 8 else pfsMetaSize)"

definition sub_free :: "u32 \<Rightarrow> (u32 \<Rightarrow> u32) \<Rightarrow> ('d, 'z) pfs_state_scheme \<Rightarrow> ('d, 'z) pfs_state_scheme option" where
  "sub_free subpart f s =
     (if length (free_zone (pmount s)) \<le> unat subpart then None
      else Some (s\<lparr>pmount := (pmount s)\<lparr>free_zone := (free_zone (pmount s))[unat subpart := f (free_zone (pmount s) ! unat subpart)],
                                      zfree := f (zfree (pmount s))\<rparr>\<rparr>))"

subsection \<open>Setting and clearing bits\<close>

text \<open>The two inner loops of \<open>pfsBitmapAllocFree\<close>, from bit \<open>b\<close> of word \<open>k\<close>: the count left and the words.\<close>

definition put_bit :: "u32 \<Rightarrow> nat \<Rightarrow> u32 \<Rightarrow> u32" where
  "put_bit operation b w = (if operation = PFS_BITMAP_ALLOC then w OR push_bit b 1 else w AND NOT (push_bit b 1))"

function bitmap_bits :: "u32 \<Rightarrow> nat \<Rightarrow> nat \<Rightarrow> u32 \<Rightarrow> u32 list \<Rightarrow> u32 \<times> u32 list" where
  "bitmap_bits operation k b count ws =
     (if 256 \<le> k \<or> count = 0 then (count, ws)
      else if 32 \<le> b then bitmap_bits operation (k + 1) 0 count ws
      else bitmap_bits operation k (b + 1) (count - 1) (ws[k := put_bit operation b (ws ! k)]))"
  by pat_completeness auto
termination
  by (relation "measures [\<lambda>(_, k, _, _, _). 256 - k, \<lambda>(_, _, b, _, _). 32 - b]") auto

declare bitmap_bits.simps [simp del]

partial_function (option) pfsBitmapAllocFree ::
    "'d blk_dev \<Rightarrow> nat option \<Rightarrow> u32 \<Rightarrow> u32 \<Rightarrow> u32 \<Rightarrow> u32 \<Rightarrow> u32 \<Rightarrow> u32 \<Rightarrow> ('d, 'z) pfs_state_scheme \<Rightarrow> ('d, 'z) pfs_state_scheme option" where
  "pfsBitmapAllocFree D clink operation subpart ch index b count s =
     (case clink of None \<Rightarrow> Some s
      | Some i \<Rightarrow>
          let (left, ws) = bitmap_bits operation (unat index) (unat b) count (q_data (pfsCacheBuf s i));
              s1 = pfsCacheFree (Some i) (pfs_mark_dirty i (set_data i (\<lambda>_. ws) s))
          in if left = 0 then Some s1
             else do {
               ((c, e), s2) \<leftarrow> pfsCacheGetData D (ucast subpart) (bitmap_sector (pmount s1) subpart (ch + 1)) PFS_CACHE_FLAG_BITMAP s1;
               pfsBitmapAllocFree D c operation subpart (ch + 1) 0 0 left s2
             })"

definition pfsBitmapFreeBlockSegment ::
    "'d blk_dev \<Rightarrow> (('d, 'z) pfs_state_scheme \<Rightarrow> pfs_blockinfo) \<Rightarrow> ('d, 'z) pfs_state_scheme \<Rightarrow> ('d, 'z) pfs_state_scheme option" where
  "pfsBitmapFreeBlockSegment D bi s =
     (let info = pfsBitmapSetupInfo D (pmount s) (ucast (bi_subpart (bi s))) (bi_number (bi s)) in
      do {
        ((clink, rv), s1) \<leftarrow> pfsCacheGetData D (bi_subpart (bi s))
             (bitmap_sector (pmount s) (ucast (bi_subpart (bi s))) (bm_chunk info)) PFS_CACHE_FLAG_BITMAP s;
        if clink \<noteq> None
        then do {
          s2 \<leftarrow> pfsBitmapAllocFree D clink PFS_BITMAP_FREE (ucast (bi_subpart (bi s1))) (bm_chunk info) (bm_index info) (bm_bit info)
                  (ucast (bi_count (bi s1))) s1;
          sub_free (ucast (bi_subpart (bi s2))) (\<lambda>z. z + ucast (bi_count (bi s2))) s2
        }
        else Some s1
      })"

subsection \<open>Extending a run of zones\<close>

text \<open>
  The inner loops of \<open>pfsBitmapAllocateAdditionalZones\<close> over the words below byte \<open>m\<close>: whether a
  used zone stopped them, the count left, the zones taken, and the words.
\<close>

function grow_bits :: "nat \<Rightarrow> nat \<Rightarrow> nat \<Rightarrow> u32 \<Rightarrow> nat \<Rightarrow> u32 list \<Rightarrow> bool \<times> u32 \<times> nat \<times> u32 list" where
  "grow_bits m k b count res ws =
     (if \<not> 4 * k < m \<or> count = 0 then (False, count, res, ws)
      else if 32 \<le> b then grow_bits m (k + 1) 0 count res ws
      else if ws ! k AND push_bit b 1 \<noteq> 0 then (True, count, res, ws)
      else grow_bits m k (b + 1) (count - 1) (res + 1) (ws[k := ws ! k OR push_bit b 1]))"
  by pat_completeness auto
termination
  by (relation "measures [\<lambda>(m, k, _, _, _, _). m - k, \<lambda>(_, _, b, _, _, _). 32 - b]") auto

declare grow_bits.simps [simp del]

partial_function (option) grow_chunks ::
    "'d blk_dev \<Rightarrow> (('d, 'z) pfs_state_scheme \<Rightarrow> pfs_blockinfo) \<Rightarrow> pfs_bitmapInfo \<Rightarrow> u32 \<Rightarrow> nat \<Rightarrow> ('d, 'z) pfs_state_scheme \<Rightarrow>
      (nat \<times> ('d, 'z) pfs_state_scheme) option" where
  "grow_chunks D bi info count res s =
     (if chunk_in info \<and> count \<noteq> 0
      then do {
        ((c, e), s1) \<leftarrow> pfsCacheGetData D (bi_subpart (bi s)) (bitmap_sector (pmount s) (ucast (bi_subpart (bi s))) (bm_chunk info))
             PFS_CACHE_FLAG_BITMAP s;
        case c of None \<Rightarrow> Some (res, s1)
        | Some i \<Rightarrow>
            let (stop, left, res1, ws) = grow_bits (bitmap_max info) (unat (bm_index info)) (unat (bm_bit info)) count res (q_data (pfsCacheBuf s1 i));
                s2 = (if res1 \<noteq> res then pfs_mark_dirty i (set_data i (\<lambda>_. ws) s1) else s1);
                s3 = pfsCacheFree (Some i) s2
            in if stop then Some (res1, s3)
               else grow_chunks D bi (info\<lparr>bm_chunk := bm_chunk info + 1, bm_index := 0,
                      bm_bit := (if 4 * unat (bm_index info) < bitmap_max info then 0 else bm_bit info)\<rparr>) left res1 s3
      }
      else Some (res, s))"

definition pfsBitmapAllocateAdditionalZones ::
    "'d blk_dev \<Rightarrow> (('d, 'z) pfs_state_scheme \<Rightarrow> pfs_blockinfo) \<Rightarrow> u32 \<Rightarrow> ('d, 'z) pfs_state_scheme \<Rightarrow> (nat \<times> ('d, 'z) pfs_state_scheme) option" where
  "pfsBitmapAllocateAdditionalZones D bi count s =
     (let info = pfsBitmapSetupInfo D (pmount s) (ucast (bi_subpart (bi s))) (bi_number (bi s) + ucast (bi_count (bi s)));
          count1 = (if USHRT_MAX - ucast (bi_count (bi s)) < count then USHRT_MAX - ucast (bi_count (bi s)) else count)
      in do {
        (res, s1) \<leftarrow> grow_chunks D bi info count1 0 s;
        s2 \<leftarrow> sub_free (ucast (bi_subpart (bi s1))) (\<lambda>z. z - of_nat res) s1;
        Some (res, s2)
      })"

subsection \<open>Searching for a run of free zones\<close>

text \<open>
  The run found so far, the four variables of \<open>pfsBitmapAllocZones\<close>. The inner loops look at the
  words below byte \<open>m\<close> until the run has \<open>amount\<close> zones; the result says whether it has.
\<close>

record zone_run =
  zr_count :: u32
  zr_startBit :: u32
  zr_startPos :: u32
  zr_startChunk :: u32

function search_bits :: "nat \<Rightarrow> u32 \<Rightarrow> u32 \<Rightarrow> nat \<Rightarrow> nat \<Rightarrow> zone_run \<Rightarrow> u32 list \<Rightarrow> bool \<times> zone_run" where
  "search_bits m amount ch k i r ws =
     (if \<not> 4 * k < m then (False, r)
      else if 32 \<le> i then search_bits m amount ch (k + 1) 0 r ws
      else if drop_bit i (ws ! k) AND 1 = 0
      then (let r1 = (if zr_count r = 0 then r\<lparr>zr_startBit := of_nat i, zr_startChunk := ch, zr_startPos := of_nat k\<rparr> else r);
                r2 = r1\<lparr>zr_count := zr_count r1 + 1\<rparr>
            in if zr_count r2 = amount then (True, r2) else search_bits m amount ch k (i + 1) r2 ws)
      else search_bits m amount ch k (i + 1) (r\<lparr>zr_count := 0\<rparr>) ws)"
  by pat_completeness auto
termination
  by (relation "measures [\<lambda>(m, _, _, k, _, _, _). m - k, \<lambda>(_, _, _, _, i, _, _). 32 - i]") auto

declare search_bits.simps [simp del]

text \<open>The zones of the run are taken; the block info gets its number and at most its length.\<close>

definition take_run ::
    "'d blk_dev \<Rightarrow> nat \<Rightarrow> pfs_blockinfo \<Rightarrow> zone_run \<Rightarrow> ('d, 'z) pfs_state_scheme \<Rightarrow> (pfs_blockinfo \<times> ('d, 'z) pfs_state_scheme) option" where
  "take_run D bitmap bi r s =
     (let bi1 = bi\<lparr>bi_number := zr_startPos r * 32 + zr_startChunk r * pfsBitsPerBitmapChunk + zr_startBit r,
                   bi_count := (if zr_count r < ucast (bi_count bi) then ucast (zr_count r) else bi_count bi)\<rparr>
      in do {
        (c, s1) \<leftarrow> (if q_block (pfsCacheBuf s bitmap) \<noteq> zr_startChunk r + push_bit (unat (inode_scale (pmount s))) 1
             then map_option (\<lambda>((c, e), t). (c, t))
                    (pfsCacheGetData D (bi_subpart bi) (bitmap_sector (pmount s) (ucast (bi_subpart bi)) (zr_startChunk r))
                       PFS_CACHE_FLAG_BITMAP (pfsCacheFree (Some bitmap) s))
             else Some (Some bitmap, s));
        s2 \<leftarrow> pfsBitmapAllocFree D c PFS_BITMAP_ALLOC (ucast (bi_subpart bi)) (zr_startChunk r) (zr_startPos r) (zr_startBit r)
               (ucast (bi_count bi1)) s1;
        Some (bi1, s2)
      })"

partial_function (option) search_chunks ::
    "'d blk_dev \<Rightarrow> pfs_blockinfo \<Rightarrow> u32 \<Rightarrow> pfs_bitmapInfo \<Rightarrow> zone_run \<Rightarrow> ('d, 'z) pfs_state_scheme \<Rightarrow>
      ((bool \<times> pfs_blockinfo) \<times> ('d, 'z) pfs_state_scheme) option" where
  "search_chunks D bi amount info r s =
     (if chunk_in info
      then do {
        ((c, e), s1) \<leftarrow> pfsCacheGetData D (bi_subpart bi) (bitmap_sector (pmount s) (ucast (bi_subpart bi)) (bm_chunk info))
             PFS_CACHE_FLAG_BITMAP s;
        case c of None \<Rightarrow> Some ((False, bi), s1)
        | Some i \<Rightarrow>
            let (found, r1) = search_bits (bitmap_max info) amount (bm_chunk info) (unat (bm_index info)) (unat (bm_bit info)) r
                   (q_data (pfsCacheBuf s1 i))
            in if found
               then map_option (\<lambda>(bi1, s2). ((True, bi1), s2)) (take_run D i bi r1 s1)
               else search_chunks D bi amount (info\<lparr>bm_chunk := bm_chunk info + 1, bm_index := 0,
                      bm_bit := (if 4 * unat (bm_index info) < bitmap_max info then 0 else bm_bit info)\<rparr>) r1 (pfsCacheFree (Some i) s1)
      }
      else Some ((False, bi), s))"

definition pfsBitmapAllocZones ::
    "'d blk_dev \<Rightarrow> pfs_blockinfo \<Rightarrow> u32 \<Rightarrow> ('d, 'z) pfs_state_scheme \<Rightarrow> ((bool \<times> pfs_blockinfo) \<times> ('d, 'z) pfs_state_scheme) option" where
  "pfsBitmapAllocZones D bi amount s =
     search_chunks D bi amount (pfsBitmapSetupInfo D (pmount s) (ucast (bi_subpart bi)) (bi_number bi))
       \<lparr>zr_count = 0, zr_startBit = 0, zr_startPos = 0, zr_startChunk = 0\<rparr> s"

text \<open>The inner loop of \<open>pfsBitmapSearchFreeZone\<close> tries \<open>n\<close>, \<open>n / 2\<close> and so on down to 1.\<close>

function try_zones :: "'d blk_dev \<Rightarrow> nat \<Rightarrow> pfs_blockinfo \<Rightarrow> ('d, 'z) pfs_state_scheme \<Rightarrow> ((bool \<times> pfs_blockinfo) \<times> ('d, 'z) pfs_state_scheme) option" where
  "try_zones D n bi s =
     (if n = 0 then Some ((False, bi), s)
      else if length (free_zone (pmount s)) \<le> unat (bi_subpart bi) then None
      else do {
        ((ok, bi1), s1) \<leftarrow> (if of_nat n \<le> free_zone (pmount s) ! unat (bi_subpart bi) then pfsBitmapAllocZones D bi (of_nat n) s
                            else Some ((False, bi), s));
        if ok then map_option (\<lambda>s2. ((True, bi1), s2)) (sub_free (ucast (bi_subpart bi1)) (\<lambda>z. z - ucast (bi_count bi1)) s1)
        else try_zones D (n div 2) bi1 s1
      })"
  by pat_completeness auto
termination by (relation "measure (\<lambda>(_, n, _, _). n)") auto

declare try_zones.simps [simp del]

text \<open>The outer loop runs while the unsigned \<open>num >= 0\<close>, so only success ends it.\<close>

partial_function (option) search_subs ::
    "'d blk_dev \<Rightarrow> nat \<Rightarrow> pfs_blockinfo \<Rightarrow> ('d, 'z) pfs_state_scheme \<Rightarrow> ((int \<times> pfs_blockinfo) \<times> ('d, 'z) pfs_state_scheme) option" where
  "search_subs D count bi s = do {
     ((ok, bi1), s1) \<leftarrow> try_zones D count bi s;
     if ok then Some ((0, bi1), s1)
     else let sub = bi_subpart bi1 + 1
          in search_subs D count (bi1\<lparr>bi_number := 0, bi_subpart := (if ucast sub = num_subs (pmount s1) + 1 then 0 else sub)\<rparr>) s1
   }"

definition search_count :: "pfs_blockinfo \<Rightarrow> u32 \<Rightarrow> u32" where
  "search_count bi max_count =
     (let count = (if max_count < 33 then max_count else 32) in if count < ucast (bi_count bi) then ucast (bi_count bi) else count)"

definition pfsBitmapSearchFreeZone ::
    "'d blk_dev \<Rightarrow> pfs_blockinfo \<Rightarrow> u32 \<Rightarrow> ('d, 'z) pfs_state_scheme \<Rightarrow> ((int \<times> pfs_blockinfo) \<times> ('d, 'z) pfs_state_scheme) option" where
  "pfsBitmapSearchFreeZone D bi max_count s =
     (let bi1 = (if num_subs (pmount s) + 1 \<le> ucast (bi_subpart bi) then bi\<lparr>bi_subpart := 0\<rparr> else bi)
      in search_subs D (unat (search_count bi1 max_count)) bi1 s)"

subsection \<open>Counting free zones\<close>

definition pfsFreeZoneBitmap :: "u32 list" where
  "pfsFreeZoneBitmap = [4, 3, 3, 2, 3, 2, 2, 1, 3, 2, 2, 1, 2, 1, 1, 0]"

definition bitmap_byte :: "u32 list \<Rightarrow> nat \<Rightarrow> u8" where
  "bitmap_byte ws i = byte_at (i mod 4) (ws ! (i div 4))"

definition count_bytes :: "nat \<Rightarrow> u32 list \<Rightarrow> u32 \<Rightarrow> u32" where
  "count_bytes bitmapSize ws zoneFree =
     fold (\<lambda>i z. z + (pfsFreeZoneBitmap ! unat (bitmap_byte ws i AND 0xF) + pfsFreeZoneBitmap ! unat (drop_bit 4 (bitmap_byte ws i))))
       [0..<bitmapSize] zoneFree"

partial_function (option) calc_chunks ::
    "'d blk_dev \<Rightarrow> u32 \<Rightarrow> pfs_bitmapInfo \<Rightarrow> u32 \<Rightarrow> ('d, 'z) pfs_state_scheme \<Rightarrow> (u32 \<times> ('d, 'z) pfs_state_scheme) option" where
  "calc_chunks D sub info zoneFree s =
     (if chunk_in info
      then do {
        ((c, e), s1) \<leftarrow> pfsCacheGetData D (ucast sub) (bitmap_sector (pmount s) sub (bm_chunk info)) PFS_CACHE_FLAG_BITMAP s;
        let (z, s2) = (case c of None \<Rightarrow> (zoneFree, s1)
            | Some i \<Rightarrow> (count_bytes (bitmap_max info) (q_data (pfsCacheBuf s1 i)) zoneFree, pfsCacheFree (Some i) s1));
        calc_chunks D sub (info\<lparr>bm_chunk := bm_chunk info + 1\<rparr>) z s2
      }
      else Some (zoneFree, s))"

definition pfsBitmapCalcFreeZones :: "'d blk_dev \<Rightarrow> u32 \<Rightarrow> ('d, 'z) pfs_state_scheme \<Rightarrow> (u32 \<times> ('d, 'z) pfs_state_scheme) option" where
  "pfsBitmapCalcFreeZones D sub s = calc_chunks D sub (pfsBitmapSetupInfo D (pmount s) sub 0) 0 s"

end
