(* ===== verification/PfsInode.thy ===== *)
theory PfsInode
  imports PfsBitmap
begin

text \<open>
  The blocks of a file, \<open>libpfs/src/block.c\<close>, \<open>blockWrite.c\<close> and \<open>inode.c\<close>: positions in a file,
  its chain of segment descriptors, and growing it. Entries of the cache are indices, so
  aliasing between the file's inode and the segment at the position is that of the indices.
\<close>

subsection \<open>Fields of an inode\<close>

definition inode_last_segment :: "u32 list \<Rightarrow> pfs_blockinfo" where "inode_last_segment = blockinfo_at 6"
definition inode_number_segdesg :: "u32 list \<Rightarrow> u32" where "inode_number_segdesg ws = ws ! 250"
definition inode_subpart :: "u32 list \<Rightarrow> u32" where "inode_subpart ws = ws ! 251"

definition put_size :: "u64 \<Rightarrow> u32 list \<Rightarrow> u32 list" where
  "put_size n ws = ws[246 := ucast n, 247 := ucast (drop_bit 32 n)]"

definition put_data :: "nat \<Rightarrow> pfs_blockinfo \<Rightarrow> u32 list \<Rightarrow> u32 list" where
  "put_data k b = set_blockinfo (10 + 2 * k) b"

abbreviation cdata :: "('d, 'z) pfs_state_scheme \<Rightarrow> nat \<Rightarrow> u32 list" where
  "cdata s i \<equiv> q_data (pfsCacheBuf s i)"

definition inode_blk :: "pfs_mount \<Rightarrow> u32 \<Rightarrow> u32" where
  "inode_blk m number = push_bit (unat (inode_scale m)) number"

subsection \<open>Positions\<close>

text \<open>The inode of a position is NULL after the next segment could not be read.\<close>

record pfs_blockpos =
  bp_inode :: "nat option"
  block_segment :: u32
  block_offset :: u32
  byte_offset :: u32

definition seg_index :: "pfs_blockpos \<Rightarrow> nat" where
  "seg_index bp = unat (pfsFixIndex (block_segment bp))"

definition pfsBlockGetCurrent :: "pfs_blockpos \<Rightarrow> ('d, 'z) pfs_state_scheme \<Rightarrow> pfs_blockinfo option" where
  "pfsBlockGetCurrent bp s = map_option (\<lambda>i. inode_data (cdata s i) (seg_index bp)) (bp_inode bp)"

definition pfsBlockGetNextSegment ::
    "'d blk_dev \<Rightarrow> nat \<Rightarrow> ('d, 'z) pfs_state_scheme \<Rightarrow> ((nat option \<times> int) \<times> ('d, 'z) pfs_state_scheme) option" where
  "pfsBlockGetNextSegment D clink s =
     (let s1 = pfsCacheFree (Some clink) s; next = inode_next_segment (cdata s1 clink)
      in if bi_number next \<noteq> 0
         then pfsCacheGetData D (bi_subpart next) (inode_blk (pmount s1) (bi_number next)) PFS_CACHE_FLAG_SEGI s1
         else Some ((None, - EINVAL), s1))"

definition pfsBlockSeekNextSegment ::
    "'d blk_dev \<Rightarrow> nat \<Rightarrow> pfs_blockpos \<Rightarrow> ('d, 'z) pfs_state_scheme \<Rightarrow> ((int \<times> pfs_blockpos) \<times> ('d, 'z) pfs_state_scheme) option" where
  "pfsBlockSeekNextSegment D clink bp s =
     (if byte_offset bp \<noteq> 0 then Some ((- 1, bp), s)
      else if pfsFixIndex (block_segment bp + 1) = 0
      then do {
        i \<leftarrow> bp_inode bp;
        ((next, result), s1) \<leftarrow> pfsBlockGetNextSegment D i (pfsCacheUsedAdd i s);
        case next of None \<Rightarrow> Some ((result, bp), s1)
        | Some j \<Rightarrow>
            let s2 = pfsCacheFree (Some i) s1;
                bp1 = bp\<lparr>bp_inode := Some j, block_segment := block_segment bp + 1\<rparr>
            in if inode_number_data (cdata s2 clink) - 1 = block_segment bp1
               then Some ((- EINVAL, bp1), s2)
               else Some ((result, bp1\<lparr>block_offset := 0, block_segment := block_segment bp1 + 1\<rparr>), s2)
      }
      else Some ((0, bp\<lparr>block_offset := 0, block_segment := block_segment bp + 1\<rparr>), s))"

text \<open>None is a division by zero.\<close>

definition pfsBlockSyncPos :: "pfs_blockpos \<Rightarrow> u64 \<Rightarrow> ('d, 'z) pfs_state_scheme \<Rightarrow> (u32 \<times> pfs_blockpos) option" where
  "pfsBlockSyncPos bp sz s =
     (let zone = zsize (pmount s); i = ucast (sz div ucast zone); b = byte_offset bp + ucast (sz mod ucast zone) in
      if zone = 0 then None
      else if zone \<le> b then Some (i + 1, bp\<lparr>byte_offset := b - zone\<rparr>)
      else Some (i, bp\<lparr>byte_offset := b\<rparr>))"

partial_function (option) sync_loop ::
    "'d blk_dev \<Rightarrow> u32 \<Rightarrow> u32 \<Rightarrow> int \<Rightarrow> pfs_blockpos \<Rightarrow> ('d, 'z) pfs_state_scheme \<Rightarrow> ((int \<times> pfs_blockpos) \<times> ('d, 'z) pfs_state_scheme) option" where
  "sync_loop D used i result bp s =
     (if i = 0 then Some ((result, bp), s)
      else do {
        seg \<leftarrow> bp_inode bp;
        let count = bi_count (inode_data (cdata s seg) (seg_index bp));
        let j = i + block_offset bp;
        if j < ucast count then Some ((result, bp\<lparr>block_offset := j\<rparr>), s)
        else do {
          let left = j - ucast count;
          let last = (block_segment bp + 1 = used);
          let bp1 = (if last then bp\<lparr>block_offset := ucast count\<rparr> else bp\<lparr>block_offset := 0, block_segment := block_segment bp + 1\<rparr>);
          if last \<and> (left \<noteq> 0 \<or> byte_offset bp \<noteq> 0) then Some ((- EINVAL, bp1), s)
          else if pfsFixIndex (block_segment bp1) \<noteq> 0 then sync_loop D used left result bp1 s
          else do {
            ((next, r), s1) \<leftarrow> pfsBlockGetNextSegment D seg s;
            if next = None then Some ((r, bp1\<lparr>bp_inode := None\<rparr>), s1)
            else sync_loop D used (left + 1) r (bp1\<lparr>bp_inode := next\<rparr>) s1
          }
        }
      })"

definition pfsInodeSync ::
    "'d blk_dev \<Rightarrow> pfs_blockpos \<Rightarrow> u64 \<Rightarrow> u32 \<Rightarrow> ('d, 'z) pfs_state_scheme \<Rightarrow> ((int \<times> pfs_blockpos) \<times> ('d, 'z) pfs_state_scheme) option" where
  "pfsInodeSync D bp sz used_segments s = do {
     (i, bp1) \<leftarrow> pfsBlockSyncPos bp sz s;
     sync_loop D used_segments i 0 bp1 s
   }"

definition pfsBlockInitPos ::
    "'d blk_dev \<Rightarrow> nat \<Rightarrow> u64 \<Rightarrow> ('d, 'z) pfs_state_scheme \<Rightarrow> ((int \<times> pfs_blockpos) \<times> ('d, 'z) pfs_state_scheme) option" where
  "pfsBlockInitPos D clink position s =
     (let s1 = pfsCacheUsedAdd clink s;
          bp = (if inode_size (cdata s1 clink) \<noteq> 0
                then \<lparr>bp_inode = Some clink, block_segment = 1, block_offset = 0, byte_offset = 0\<rparr>
                else \<lparr>bp_inode = Some clink, block_segment = 0, block_offset = 1, byte_offset = 0\<rparr>)
      in pfsInodeSync D bp position (inode_number_data (cdata s1 clink)) s1)"

subsection \<open>Directory chunks\<close>

definition pfsGetDentriesChunk ::
    "'d blk_dev \<Rightarrow> pfs_blockpos \<Rightarrow> ('d, 'z) pfs_state_scheme \<Rightarrow> ((nat option \<times> int) \<times> ('d, 'z) pfs_state_scheme) option" where
  "pfsGetDentriesChunk D position s = do {
     bi \<leftarrow> pfsBlockGetCurrent position s;
     pfsCacheGetData D (bi_subpart bi) (inode_blk (pmount s) (bi_number bi + block_offset position) + byte_offset position div pfsMetaSize)
       PFS_CACHE_FLAG_NOTHING s
   }"

text \<open>The entry, the offset in its data (not set when the position is refused) and the result.\<close>

definition pfsGetDentriesAtPos ::
    "'d blk_dev \<Rightarrow> nat \<Rightarrow> u64 \<Rightarrow> ('d, 'z) pfs_state_scheme \<Rightarrow> ((nat option \<times> nat \<times> int) \<times> ('d, 'z) pfs_state_scheme) option" where
  "pfsGetDentriesAtPos D clink position s = do {
     ((r, bp), s1) \<leftarrow> pfsBlockInitPos D clink position s;
     if r \<noteq> 0 then Some ((None, 0, r), s1)
     else do {
       ((c, e), s2) \<leftarrow> pfsGetDentriesChunk D bp s1;
       Some ((c, unat (byte_offset bp mod pfsMetaSize), e), pfsCacheFree (bp_inode bp) s2)
     }
   }"

subsection \<open>Time stamps\<close>

fun pfs_time_loop :: "'d blk_dev \<Rightarrow> nat \<Rightarrow> ('d, 'z) pfs_state_scheme \<Rightarrow> ('d, 'z) pfs_state_scheme" where
  "pfs_time_loop D 0 s = s"
| "pfs_time_loop D (Suc k) s =
     (let (ret, cdtime, w) = bd_clock D (pworld s); s1 = s\<lparr>pworld := w\<rparr> in
      if ret \<noteq> 0 \<and> cd_stat cdtime = 0
      then s1\<lparr>pfsTime := (pfsTime s1)\<lparr>t_sec := bd_btoi D (cd_second cdtime), t_min := bd_btoi D (cd_minute cdtime),
             t_hour := bd_btoi D (cd_hour cdtime), t_day := bd_btoi D (cd_day cdtime),
             t_month := bd_btoi D (cd_month cdtime AND 0x7F), t_year := ucast (bd_btoi D (cd_year cdtime)) + 2000\<rparr>\<rparr>
      else if cd_stat cdtime AND 0x80 = 0 then s1
      else pfs_time_loop D k s1)"

definition pfsGetTime :: "'d blk_dev \<Rightarrow> ('d, 'z) pfs_state_scheme \<Rightarrow> apa_ps2time \<times> ('d, 'z) pfs_state_scheme" where
  "pfsGetTime D s = (let s1 = pfs_time_loop D 20 s in (pfsTime s1, s1))"

definition put_time :: "nat \<Rightarrow> apa_ps2time \<Rightarrow> u32 list \<Rightarrow> u32 list" where
  "put_time k t ws = ws[k := time_words t ! 0, k + 1 := time_words t ! 1]"

definition pfsInodeSetTime :: "'d blk_dev \<Rightarrow> nat \<Rightarrow> ('d, 'z) pfs_state_scheme \<Rightarrow> ('d, 'z) pfs_state_scheme" where
  "pfsInodeSetTime D clink s =
     (let (t, s1) = pfsGetTime D s
      in pfs_mark_dirty clink (set_data clink (\<lambda>ws. put_time 240 t (put_time 242 t (put_time 244 t ws))) s1))"

definition pfsInodeSetTimeParent :: "'d blk_dev \<Rightarrow> nat \<Rightarrow> nat \<Rightarrow> ('d, 'z) pfs_state_scheme \<Rightarrow> ('d, 'z) pfs_state_scheme" where
  "pfsInodeSetTimeParent D parent self s = pfs_mark_dirty self (pfsInodeSetTime D parent s)"

subsection \<open>Growing a file\<close>

definition pfsBlockExpandSegment ::
    "'d blk_dev \<Rightarrow> nat \<Rightarrow> pfs_blockpos \<Rightarrow> u32 \<Rightarrow> ('d, 'z) pfs_state_scheme \<Rightarrow> (nat \<times> ('d, 'z) pfs_state_scheme) option" where
  "pfsBlockExpandSegment D clink bp count s =
     (if seg_index bp = 0 then Some (0, s)
      else do {
        i \<leftarrow> bp_inode bp;
        (ret, s1) \<leftarrow> pfsBitmapAllocateAdditionalZones D (\<lambda>t. inode_data (cdata t i) (seg_index bp)) count s;
        Some (ret, if ret = 0 then s1
          else (let b = inode_data (cdata s1 i) (seg_index bp);
                    s2 = set_data i (put_data (seg_index bp) (b\<lparr>bi_count := bi_count b + of_nat ret\<rparr>)) s1;
                    s3 = set_data clink (\<lambda>ws. ws[248 := ws ! 248 + of_nat ret]) s2
                in pfs_mark_dirty clink (pfs_mark_dirty i s3)))
      })"

text \<open>The zone after the segment at the position, with a count of \<open>n\<close>.\<close>

definition after_segment :: "pfs_blockpos \<Rightarrow> u16 \<Rightarrow> ('d, 'z) pfs_state_scheme \<Rightarrow> pfs_blockinfo option" where
  "after_segment bp n s = map_option (\<lambda>b. \<lparr>bi_number = bi_number b + ucast (bi_count b), bi_subpart = bi_subpart b, bi_count = n\<rparr>)
     (pfsBlockGetCurrent bp s)"

text \<open>
  The indirect segment descriptor in \<open>clink2\<close>, of zone \<open>bi\<close>, is filled and appended after the
  descriptor in \<open>i\<close> to the file whose inode is in \<open>clink\<close>.
\<close>

definition link_descriptor :: "nat \<Rightarrow> nat \<Rightarrow> nat \<Rightarrow> pfs_blockinfo \<Rightarrow> ('d, 'z) pfs_state_scheme \<Rightarrow> ('d, 'z) pfs_state_scheme" where
  "link_descriptor clink i clink2 bi s =
     (let s1 = set_data clink2 (\<lambda>_. (replicate 256 0)[1 := PFS_SEGI_MAGIC]) s;
          s2 = set_data clink2 (\<lambda>ws. set_blockinfo 2 (inode_block (cdata s1 clink)) ws) s1;
          s3 = set_data clink2 (\<lambda>ws. put_data 0 bi (set_blockinfo 6 (inode_data (cdata s2 i) 0) ws)) s2;
          s4 = pfs_mark_dirty clink2 s3;
          s5 = set_data clink (\<lambda>ws. (set_blockinfo 6 bi (ws[248 := ws ! 248 + ucast (bi_count bi), 249 := ws ! 249 + 1]))
                 [250 := ws ! 250 + 1]) s4
      in pfs_mark_dirty i (set_data i (set_blockinfo 4 bi) (pfs_mark_dirty clink s5)))"

text \<open>The descriptor is allocated; a result below 0 is handed on.\<close>

definition alloc_descriptor ::
    "'d blk_dev \<Rightarrow> nat \<Rightarrow> pfs_blockpos \<Rightarrow> ('d, 'z) pfs_state_scheme \<Rightarrow> ((int \<times> pfs_blockpos) \<times> ('d, 'z) pfs_state_scheme) option" where
  "alloc_descriptor D clink bp s = do {
     b \<leftarrow> after_segment bp 1 s;
     ((r, bi), s1) \<leftarrow> pfsBitmapSearchFreeZone D b (inode_number_blocks (cdata s clink)) s;
     if r < 0 then Some ((r, bp), s1)
     else do {
       i \<leftarrow> bp_inode bp;
       ((c, e), s2) \<leftarrow> pfsCacheGetData D (bi_subpart bi) (inode_blk (pmount s1) (bi_number bi))
            (PFS_CACHE_FLAG_SEGI OR PFS_CACHE_FLAG_NOLOAD) s1;
       clink2 \<leftarrow> c;
       Some ((e, bp\<lparr>bp_inode := Some clink2, block_segment := block_segment bp + 1, block_offset := 0\<rparr>),
             pfsCacheFree (Some i) (link_descriptor clink i clink2 bi s2))
     }
   }"

definition alloc_segment ::
    "'d blk_dev \<Rightarrow> nat \<Rightarrow> pfs_blockpos \<Rightarrow> u32 \<Rightarrow> ('d, 'z) pfs_state_scheme \<Rightarrow> ((int \<times> pfs_blockpos) \<times> ('d, 'z) pfs_state_scheme) option" where
  "alloc_segment D clink bp blocks s = do {
     b \<leftarrow> after_segment bp (ucast blocks) s;
     ((r, bi), s1) \<leftarrow> pfsBitmapSearchFreeZone D b (inode_number_blocks (cdata s clink)) s;
     if r < 0 then Some ((r, bp), s1)
     else do {
       i \<leftarrow> bp_inode bp;
       let s2 = pfs_mark_dirty clink (set_data clink (\<lambda>ws. ws[248 := ws ! 248 + ucast (bi_count bi), 249 := ws ! 249 + 1]) s1);
       let bp1 = bp\<lparr>block_offset := 0, block_segment := block_segment bp + 1\<rparr>;
       let k = unat (pfsFixIndex (inode_number_data (cdata s2 clink) - 1));
       let s3 = pfs_mark_dirty i (set_data i (put_data k bi) s2);
       let left = blocks - ucast (bi_count bi);
       (n, s4) \<leftarrow> (if left \<noteq> 0 then pfsBlockExpandSegment D clink bp1 left s3 else Some (0, s3));
       Some ((sint (blocks - (left - of_nat n)), bp1), s4)
     }
   }"

definition pfsBlockAllocNewSegment ::
    "'d blk_dev \<Rightarrow> nat \<Rightarrow> pfs_blockpos \<Rightarrow> u32 \<Rightarrow> ('d, 'z) pfs_state_scheme \<Rightarrow> ((int \<times> pfs_blockpos) \<times> ('d, 'z) pfs_state_scheme) option" where
  "pfsBlockAllocNewSegment D clink bp blocks s =
     (if pfsCacheIsFull s then Some ((- ENOMEM, bp), s)
      else do {
        ((r, bp1), s1) \<leftarrow> (if pfsFixIndex (inode_number_data (cdata s clink)) = 0 then alloc_descriptor D clink bp s else Some ((0, bp), s));
        if r < 0 then Some ((r, bp1), s1) else alloc_segment D clink bp1 blocks s1
      })"

definition pfsBlockGetLastSegmentDescriptorInode ::
    "'d blk_dev \<Rightarrow> nat \<Rightarrow> ('d, 'z) pfs_state_scheme \<Rightarrow> ((nat option \<times> int) \<times> ('d, 'z) pfs_state_scheme) option" where
  "pfsBlockGetLastSegmentDescriptorInode D clink s =
     (let l = inode_last_segment (cdata s clink); b = inode_block (cdata s clink)
      in pfsCacheGetData D (bi_subpart l) (inode_blk (pmount s) (bi_number l))
           (if bi_subpart l = bi_subpart b \<and> bi_number l = bi_number b then 16 else 32) s)"

subsection \<open>Freeing the blocks of a file\<close>

text \<open>\<open>bi\<close> stays in the entry it was taken from, also when \<open>clink\<close> moves on.\<close>

partial_function (option) free_inode_loop ::
    "'d blk_dev \<Rightarrow> nat \<Rightarrow> u32 \<Rightarrow> ('d, 'z) pfs_state_scheme \<Rightarrow> ('d, 'z) pfs_state_scheme option" where
  "free_inode_loop D clink i s =
     (if i < inode_number_data (cdata s clink)
      then do {
        let index = pfsFixIndex i;
        let bi = (\<lambda>t. inode_data (cdata t clink) (unat index));
        ((next, e), s1) \<leftarrow> (if i \<noteq> 0 \<and> index = 0 then pfsBlockGetNextSegment D clink s else Some ((Some clink, 0), s));
        case next of None \<Rightarrow> Some s1
        | Some c \<Rightarrow> do {
            s2 \<leftarrow> pfsBitmapFreeBlockSegment D bi s1;
            let s3 = pfsCacheMarkClean (ucast (bi_subpart (bi s2))) (inode_blk (pmount s2) (bi_number (bi s2)))
                       (inode_blk (pmount s2) (bi_number (bi s2) + ucast (bi_count (bi s2)))) s2;
            free_inode_loop D c (i + 1) s3
          }
      }
      else Some (pfsCacheFree (Some clink) s))"

definition pfsBitmapFreeInodeBlocks :: "'d blk_dev \<Rightarrow> nat \<Rightarrow> ('d, 'z) pfs_state_scheme \<Rightarrow> ('d, 'z) pfs_state_scheme option" where
  "pfsBitmapFreeInodeBlocks D clink s = free_inode_loop D clink 0 (pfsCacheUsedAdd clink s)"

subsection \<open>Showing the bitmap\<close>

text \<open>Only the cache is used; \<open>bitcnt\<close> is the number of bits in a chunk. Printing a chunk that cannot be read goes through a NULL pointer.\<close>

partial_function (option) show_chunks ::
    "'d blk_dev \<Rightarrow> u32 \<Rightarrow> pfs_bitmapInfo \<Rightarrow> u32 \<Rightarrow> ('d, 'z) pfs_state_scheme \<Rightarrow> ('d, 'z) pfs_state_scheme option" where
  "show_chunks D pn info bitcnt s =
     (if chunk_in info
      then do {
        ((c, e), s1) \<leftarrow> pfsCacheGetData D (ucast pn) (bitmap_sector (pmount s) pn (bm_chunk info)) PFS_CACHE_FLAG_BITMAP s;
        let bitcnt1 = (if bm_chunk info = partitionChunks info then partitionRemainder info else bitcnt);
        if c = None \<and> 8 \<le> bitcnt1 then None
        else show_chunks D pn (info\<lparr>bm_chunk := bm_chunk info + 1\<rparr>) bitcnt1 (pfsCacheFree c s1)
      }
      else Some s)"

partial_function (option) show_subs :: "'d blk_dev \<Rightarrow> u32 \<Rightarrow> ('d, 'z) pfs_state_scheme \<Rightarrow> ('d, 'z) pfs_state_scheme option" where
  "show_subs D pn s =
     (if pn < num_subs (pmount s) + 1
      then do {
        s1 \<leftarrow> show_chunks D pn (pfsBitmapSetupInfo D (pmount s) pn 0) pfsBitsPerBitmapChunk s;
        show_subs D (pn + 1) s1
      }
      else Some s)"

definition pfsBitmapShow :: "'d blk_dev \<Rightarrow> ('d, 'z) pfs_state_scheme \<Rightarrow> ('d, 'z) pfs_state_scheme option" where
  "pfsBitmapShow D = show_subs D 0"

end
