(* ===== verification/PfsDir.thy ===== *)
theory PfsDir
  imports PfsInode
begin

text \<open>
  The directory entries of \<open>libpfs/src/dir.c\<close>. A directory is a sequence of chunks of 1024
  bytes, two sectors of 512 bytes each, and the entries of a sector fill it: the length field of
  one leads to the next. A pointer to an entry is the cached chunk and a byte offset. Paths are
  the bytes before the terminating 0; an access past the chunk or an unaligned one is None.
\<close>

subsection \<open>Constants of the file I/O library\<close>

definition FIO_S_IFMT :: u16 where "FIO_S_IFMT = 0xF000"
definition FIO_S_IFDIR :: u16 where "FIO_S_IFDIR = 0x1000"
definition FIO_S_IFLNK :: u16 where "FIO_S_IFLNK = 0x4000"

definition is_format :: "u16 \<Rightarrow> u16 \<Rightarrow> bool" where
  "is_format mode fmt \<longleftrightarrow> mode AND FIO_S_IFMT = fmt"

text \<open>\<open>sizeof(pfs_dentry_t)\<close>.\<close>

definition dentry_size :: nat where "dentry_size = 512"

subsection \<open>Entries in a chunk\<close>

definition data_byte :: "u32 list \<Rightarrow> nat \<Rightarrow> u8" where
  "data_byte ws k = byte_at (k mod 4) (ws ! (k div 4))"

definition data_bytes :: "u32 list \<Rightarrow> nat \<Rightarrow> nat \<Rightarrow> u8 list" where
  "data_bytes ws i n = map (\<lambda>k. data_byte ws (i + k)) [0..<n]"

definition put_bytes :: "nat \<Rightarrow> u8 list \<Rightarrow> u32 list \<Rightarrow> u32 list" where
  "put_bytes i bs ws = (let b = bytes_of_words ws in words_of_bytes (take i b @ bs @ drop (i + length bs) b))"

definition d_inode :: "u32 list \<Rightarrow> nat \<Rightarrow> u32" where "d_inode ws d = ws ! (d div 4)"
definition d_sub :: "u32 list \<Rightarrow> nat \<Rightarrow> u8" where "d_sub ws d = byte_at 0 (ws ! (d div 4 + 1))"
definition d_pLen :: "u32 list \<Rightarrow> nat \<Rightarrow> u8" where "d_pLen ws d = byte_at 1 (ws ! (d div 4 + 1))"
definition d_aLen :: "u32 list \<Rightarrow> nat \<Rightarrow> u16" where "d_aLen ws d = half_at 1 (ws ! (d div 4 + 1))"

definition d_path :: "u32 list \<Rightarrow> nat \<Rightarrow> u8 list" where
  "d_path ws d = data_bytes ws (d + 8) (unat (d_pLen ws d))"

definition put_dentry :: "nat \<Rightarrow> u32 \<Rightarrow> u8 \<Rightarrow> u8 \<Rightarrow> u16 \<Rightarrow> u32 list \<Rightarrow> u32 list" where
  "put_dentry d ino sub pLen aLen ws = ws[d div 4 := ino, d div 4 + 1 := packh (pack2 sub pLen) aLen]"

definition put_aLen :: "nat \<Rightarrow> u16 \<Rightarrow> u32 list \<Rightarrow> u32 list" where
  "put_aLen d aLen ws = put_dentry d (d_inode ws d) (d_sub ws d) (d_pLen ws d) aLen ws"

text \<open>The length bits of \<open>aLen\<close>, and the bytes that an entry needs.\<close>

definition alloc_len :: "u32 list \<Rightarrow> nat \<Rightarrow> nat" where "alloc_len ws d = unat (d_aLen ws d AND 0xFFF)"
definition name_len :: "nat \<Rightarrow> nat" where "name_len n = (n + 11) AND 0x1FC"

lemma and_mask_shift: "x AND push_bit k (mask n) = push_bit k (take_bit n (drop_bit k (x :: nat)))"
  by (rule bit_eqI) (auto simp: bit_simps)

lemma name_len_eq: "n < 256 \<Longrightarrow> name_len n = 4 * ((n + 11) div 4)"
proof -
  assume n: "n < 256"
  have "(0x1FC :: nat) = push_bit 2 (mask 7)" by (simp add: mask_eq_exp_minus_1 push_bit_eq_mult)
  then have "name_len n = push_bit 2 (take_bit 7 (drop_bit 2 (n + 11)))" unfolding name_len_def by (simp only: and_mask_shift)
  also have "\<dots> = 4 * ((n + 11) div 4 mod 128)" by (simp add: push_bit_eq_mult take_bit_eq_mod drop_bit_eq_div)
  also have "(n + 11) div 4 mod 128 = (n + 11) div 4" using n by (intro mod_less) simp
  finally show ?thesis .
qed

lemma name_len_pos: "8 \<le> name_len (unat (p :: u8))"
proof -
  have "unat p < 256" using unsigned_less [of p] by simp
  then show ?thesis using name_len_eq by simp
qed

subsection \<open>Scanning a sector\<close>

definition char_dot :: u8 where "char_dot = 0x2E"
definition char_slash :: u8 where "char_slash = 0x2F"

definition path_size :: "u8 list option \<Rightarrow> nat" where
  "path_size fname = (case fname of None \<Rightarrow> 0 | Some p \<Rightarrow> 4 * ((length p + 11) div 4))"

text \<open>\<open>strcmp(d->path, ".")\<close> and \<open>strcmp(d->path, "..")\<close> look past the name for its terminator.\<close>

definition named_dot :: "u32 list \<Rightarrow> nat \<Rightarrow> bool" where
  "named_dot ws d \<longleftrightarrow> data_byte ws (d + 8) = char_dot \<and> data_byte ws (d + 9) = 0"

definition named_dotdot :: "u32 list \<Rightarrow> nat \<Rightarrow> bool" where
  "named_dotdot ws d \<longleftrightarrow> data_byte ws (d + 8) = char_dot \<and> data_byte ws (d + 9) = char_dot \<and> data_byte ws (d + 10) = 0"

definition dentry_match :: "nat \<Rightarrow> u8 list option \<Rightarrow> u32 list \<Rightarrow> nat \<Rightarrow> bool" where
  "dentry_match option fname ws d =
     (if option = 0 then d_path ws d = (case fname of None \<Rightarrow> [] | Some p \<Rightarrow> p)
      else if option = 1
      then (if d_inode ws d \<noteq> 0 \<or> alloc_len ws d < path_size fname
            then path_size fname \<le> alloc_len ws d - name_len (unat (d_pLen ws d)) else True)
      else d_pLen ws d \<noteq> 0 \<and> \<not> named_dot ws d \<and> \<not> named_dotdot ws d)"

text \<open>\<open>Outside\<close> is a read past the chunk.\<close>

datatype dentry_scan = Found nat u32 | Stop u32 | Next u32 | Outside

function scan_sector :: "nat \<Rightarrow> u8 list option \<Rightarrow> u32 list \<Rightarrow> nat \<Rightarrow> nat \<Rightarrow> u32 \<Rightarrow> dentry_scan" where
  "scan_sector option fname ws d d2 sz =
     (if d < d2
      then if 1024 < d + 8 then Outside
           else if alloc_len ws d AND 3 \<noteq> 0 \<or> alloc_len ws d < name_len (unat (d_pLen ws d)) \<or> d2 < d + alloc_len ws d \<or> 2 < option
           then Stop sz
           else if dentry_match option fname ws d then Found d sz
           else scan_sector option fname ws (d + alloc_len ws d) d2 (sz + of_nat (alloc_len ws d))
      else Next sz)"
  by pat_completeness auto
termination
proof (relation "measure (\<lambda>(_, _, _, d, d2, _). d2 - d)", goal_cases)
  case (2 option path ws d d2 sz)
  then show ?case using name_len_pos [of "d_pLen ws d"] by auto
qed simp

declare scan_sector.simps [simp del]

subsection \<open>Looking for an entry\<close>

definition dentry_stop :: "pfs_blockpos \<Rightarrow> nat option \<Rightarrow> u32 \<Rightarrow> ('d, 'z) pfs_state_scheme \<Rightarrow> (((nat \<times> nat) option \<times> u32) \<times> ('d, 'z) pfs_state_scheme) option" where
  "dentry_stop bp c sz s = Some ((None, sz), pfsCacheFree (bp_inode bp) (pfsCacheFree c s))"

text \<open>
  The loop over the sectors, at offset \<open>d\<close> of the chunk: NULL, or the cached chunk and the
  offset of the entry, and the size of the entries passed.
\<close>

partial_function (option) dentry_loop ::
    "'d blk_dev \<Rightarrow> nat \<Rightarrow> nat \<Rightarrow> u8 list option \<Rightarrow> pfs_blockpos \<Rightarrow> nat \<Rightarrow> nat \<Rightarrow> u32 \<Rightarrow> ('d, 'z) pfs_state_scheme \<Rightarrow>
      (((nat \<times> nat) option \<times> u32) \<times> ('d, 'z) pfs_state_scheme) option" where
  "dentry_loop D clink option fname bp dent d sz s =
     (if ucast sz < inode_size (cdata s clink)
      then do {
        ((c, d1, bp1), s1) \<leftarrow>
          (if unat pfsMetaSize \<le> d
           then do {
             ((r, bp1), s1) \<leftarrow> pfsInodeSync D bp (ucast pfsMetaSize) (inode_number_data (cdata s clink)) s;
             if r \<noteq> 0 then Some ((Inl (Some dent), d, bp1), s1)
             else do {
               ((c, e), s2) \<leftarrow> pfsGetDentriesChunk D bp1 (pfsCacheFree (Some dent) s1);
               Some (case c of None \<Rightarrow> ((Inl None, d, bp1), s2) | Some i \<Rightarrow> ((Inr i, 0, bp1), s2))
             }
           }
           else Some ((Inr dent, d, bp), s));
        case c of Inl c \<Rightarrow> dentry_stop bp1 c sz s1
        | Inr i \<Rightarrow>
            (case scan_sector option fname (cdata s1 i) d1 (d1 + 512) sz of
               Found d2 sz1 \<Rightarrow> Some ((Some (i, d2), sz1), pfsCacheFree (bp_inode bp1) s1)
             | Outside \<Rightarrow> None
             | Stop sz1 \<Rightarrow> dentry_stop bp1 (Some i) sz1 s1
             | Next sz1 \<Rightarrow> dentry_loop D clink option fname bp1 i (d1 + 512) sz1 s1)
      }
      else dentry_stop bp (Some dent) sz s)"

definition pfsGetDentry ::
    "'d blk_dev \<Rightarrow> nat \<Rightarrow> u8 list option \<Rightarrow> nat \<Rightarrow> ('d, 'z) pfs_state_scheme \<Rightarrow> (((nat \<times> nat) option \<times> u32) \<times> ('d, 'z) pfs_state_scheme) option" where
  "pfsGetDentry D clink fname option s =
     (let bp = \<lparr>bp_inode = Some clink, block_segment = 1, block_offset = 0, byte_offset = 0\<rparr> in
      do {
        ((c, e), s1) \<leftarrow> pfsGetDentriesChunk D bp (pfsCacheUsedAdd clink s);
        case c of None \<Rightarrow> Some ((None, 0), pfsCacheFree (Some clink) s1)
        | Some i \<Rightarrow> dentry_loop D clink option fname bp i 0 0 s1
      })"

subsection \<open>Reading entries one by one\<close>

partial_function (option) pfsGetNextDentry ::
    "'d blk_dev \<Rightarrow> nat \<Rightarrow> pfs_blockpos \<Rightarrow> u32 \<Rightarrow> nat \<Rightarrow> u8 list \<Rightarrow> pfs_blockinfo \<Rightarrow> ('d, 'z) pfs_state_scheme \<Rightarrow>
      ((nat \<times> pfs_blockpos \<times> u32 \<times> u8 list \<times> pfs_blockinfo) \<times> ('d, 'z) pfs_state_scheme) option" where
  "pfsGetNextDentry D clink bp position len name bi s =
     (if len = 0 \<and> ucast position < inode_size (cdata s clink)
      then do {
        ((c, e), s1) \<leftarrow> pfsGetDentriesChunk D bp s;
        case c of None \<Rightarrow> Some ((len, bp, position, name, bi), s1)
        | Some i \<Rightarrow>
            let d = unat (byte_offset bp mod pfsMetaSize); ws = cdata s1 i; n = unat (d_pLen ws d) in
            if d mod 4 \<noteq> 0 \<or> 1024 < d + 8 + n then None
            else do {
              let bi1 = bi\<lparr>bi_subpart := ucast (d_sub ws d), bi_number := d_inode ws d\<rparr>;
              let s2 = pfsCacheFree (Some i) s1;
              let a = d_aLen (cdata s2 i) d AND 0xFFF;
              ((r, bp1), s3) \<leftarrow> pfsInodeSync D bp (ucast a) (inode_number_data (cdata s2 clink)) s2;
              if r \<noteq> 0 then Some ((n, bp1, position + ucast a, d_path ws d, bi1), s3)
              else pfsGetNextDentry D clink bp1 (position + ucast a) n (d_path ws d) bi1 s3
            }
      }
      else Some ((len, bp, position, name, bi), s))"

subsection \<open>Adding and removing entries\<close>

definition pfsFillDentry ::
    "nat \<Rightarrow> nat \<Rightarrow> u8 list \<Rightarrow> pfs_blockinfo \<Rightarrow> u32 \<Rightarrow> u16 \<Rightarrow> ('d, 'z) pfs_state_scheme \<Rightarrow> ('d, 'z) pfs_state_scheme option" where
  "pfsFillDentry clink d path1 bi len mode s =
     (let pLen = of_nat (length path1) :: u8 in
      if d mod 4 \<noteq> 0 \<or> 1024 < d + 8 + unat pLen then None
      else Some (set_data clink (\<lambda>ws. put_bytes (d + 8) (take (unat pLen) path1)
             (put_dentry d (bi_number bi) (ucast (bi_subpart bi)) pLen (ucast len OR (mode AND FIO_S_IFMT)) ws)) s))"

text \<open>The search for the entry to remove, from \<open>d\<close>: the entry before it in the sector, or that it is not found.\<close>

partial_function (option) find_before :: "u32 list \<Rightarrow> nat \<Rightarrow> nat \<Rightarrow> nat option \<Rightarrow> nat \<Rightarrow> nat option option option" where
  "find_before ws dentry d dlast i =
     (if d mod 4 \<noteq> 0 \<or> 1024 < d + 8 then None
      else if d = dentry then Some (Some dlast)
      else if i + alloc_len ws d < 512 then find_before ws dentry (d + alloc_len ws d) (Some d) (i + alloc_len ws d)
      else Some None)"

definition pfsDirRemoveEntry ::
    "'d blk_dev \<Rightarrow> nat \<Rightarrow> u8 list \<Rightarrow> ('d, 'z) pfs_state_scheme \<Rightarrow> (nat option \<times> ('d, 'z) pfs_state_scheme) option" where
  "pfsDirRemoveEntry D clink fname s = do {
     ((r, sz), s1) \<leftarrow> pfsGetDentry D clink (Some fname) 0 s;
     case r of None \<Rightarrow> Some (None, s1)
     | Some (c, d) \<Rightarrow> do {
         let ws = cdata s1 c;
         before \<leftarrow> find_before ws d (d div 512 * 512) None 0;
         let aLen = d_aLen ws d AND 0xFFF;
         Some (case before of None \<Rightarrow> (None, s1)
           | Some (Some l) \<Rightarrow>
               (Some c, set_data c (put_aLen l ((d_aLen ws l AND FIO_S_IFMT) OR ((d_aLen ws l AND 0xFFF) + aLen))) s1)
           | Some None \<Rightarrow>
               (let s2 = set_data c (put_dentry d 0 (d_sub ws d) 0 (d_aLen ws d)) s1 in
                (Some c, if inode_size (cdata s2 clink) \<le> ucast (sz + ucast aLen)
                         then set_data clink (\<lambda>w. put_size (inode_size w - ucast aLen) w) s2 else s2)))
       }
   }"

definition pfsCheckDirForFiles :: "'d blk_dev \<Rightarrow> nat \<Rightarrow> ('d, 'z) pfs_state_scheme \<Rightarrow> (int \<times> ('d, 'z) pfs_state_scheme) option" where
  "pfsCheckDirForFiles D clink s = do {
     ((r, sz), s1) \<leftarrow> pfsGetDentry D clink None 2 s;
     Some (case r of None \<Rightarrow> (1, s1) | Some (c, d) \<Rightarrow> (0, pfsCacheFree (Some c) s1))
   }"

text \<open>The chunk of a new directory: the entries "." and "..".\<close>

definition self_parent_words :: "pfs_blockinfo \<Rightarrow> pfs_blockinfo \<Rightarrow> u32 list" where
  "self_parent_words self parent =
     put_bytes 20 [char_dot, char_dot, 0] (put_dentry 12 (bi_number parent) (ucast (bi_subpart parent)) 2 (500 OR FIO_S_IFDIR)
       (put_bytes 8 [char_dot, 0] (put_dentry 0 (bi_number self) (ucast (bi_subpart self)) 1 (12 OR FIO_S_IFDIR) (replicate 256 0))))"

definition pfsFillSelfAndParentDentries ::
    "nat \<Rightarrow> pfs_blockinfo \<Rightarrow> pfs_blockinfo \<Rightarrow> ('d, 'z) pfs_state_scheme \<Rightarrow> ('d, 'z) pfs_state_scheme" where
  "pfsFillSelfAndParentDentries clink self parent = set_data clink (\<lambda>_. self_parent_words self parent)"

definition pfsSetDentryParent ::
    "'d blk_dev \<Rightarrow> nat \<Rightarrow> pfs_blockinfo \<Rightarrow> ('d, 'z) pfs_state_scheme \<Rightarrow> ((nat option \<times> int) \<times> ('d, 'z) pfs_state_scheme) option" where
  "pfsSetDentryParent D clink bi s = do {
     ((c, off, r), s1) \<leftarrow> pfsGetDentriesAtPos D clink 0 s;
     Some (case c of None \<Rightarrow> ((None, r), s1)
       | Some i \<Rightarrow> ((Some i, r), set_data i (\<lambda>ws. put_dentry 12 (bi_number bi) (ucast (bi_subpart bi)) (d_pLen ws 12) (d_aLen ws 12) ws) s1))
   }"

end
