(* ===== verification/PfsFile.thy ===== *)
theory PfsFile
  imports PfsDir
begin

text \<open>
  Files and paths, the rest of \<open>libpfs/src/dir.c\<close>: the zones of a file, creating and removing
  inodes, adding directory entries, and walking a path with its symbolic links. A \<open>result\<close>
  that the C code leaves as it was is passed through.
\<close>

definition EROFS :: int where "EROFS = 30"
definition ENOTDIR :: int where "ENOTDIR = 20"
definition ENAMETOOLONG :: int where "ENAMETOOLONG = 91"
definition ELOOP :: int where "ELOOP = 92"

subsection \<open>Zones of a file\<close>

text \<open>The number of zones for \<open>msize\<close> bytes; the callers pass positive sizes.\<close>

definition zones_for :: "u32 \<Rightarrow> u32 \<Rightarrow> u32" where
  "zones_for msize zs = ((msize - 1 + zs) AND (- zs)) div zs"

partial_function (option) alloc_zones_loop ::
    "'d blk_dev \<Rightarrow> nat \<Rightarrow> u32 \<Rightarrow> pfs_blockpos \<Rightarrow> int \<Rightarrow> ('d, 'z) pfs_state_scheme \<Rightarrow> ((int \<times> pfs_blockpos) \<times> ('d, 'z) pfs_state_scheme) option" where
  "alloc_zones_loop D clink val bp result s =
     (if val = 0 then Some ((result, bp), s)
      else do {
        ((r, bp1), s1) \<leftarrow> pfsBlockAllocNewSegment D clink bp val s;
        if r < 0 then Some ((r, bp1), s1) else alloc_zones_loop D clink (val - of_int r) bp1 0 s1
      })"

definition pfsAllocZones :: "'d blk_dev \<Rightarrow> nat \<Rightarrow> u32 \<Rightarrow> int \<Rightarrow> ('d, 'z) pfs_state_scheme \<Rightarrow> (int \<times> ('d, 'z) pfs_state_scheme) option" where
  "pfsAllocZones D clink msize mode s =
     (let zs = zsize (pmount s); ws = cdata s clink in
      if zs = 0 then None
      else if mode = 0 \<and> inode_size ws + ucast msize \<le> ucast (inode_number_blocks ws - inode_number_segdesg ws) * ucast zs
      then Some (0, s)
      else do {
        ((c, e), s1) \<leftarrow> pfsBlockGetLastSegmentDescriptorInode D clink s;
        case c of None \<Rightarrow> Some (e, s1)
        | Some i \<Rightarrow> do {
            let bp = \<lparr>bp_inode = Some i, block_segment = inode_number_data (cdata s1 clink) - 1, block_offset = 0, byte_offset = 0\<rparr>;
            (n, s2) \<leftarrow> pfsBlockExpandSegment D clink bp (zones_for msize zs) s1;
            ((r, bp1), s3) \<leftarrow> alloc_zones_loop D clink (zones_for msize zs - of_nat n) bp e s2;
            Some (r, pfsCacheFree (bp_inode bp1) s3)
          }
      })"

text \<open>
  The first loop of \<open>pfsFreeZones\<close> passes the zones that are kept; it ends early (None for the
  entry) when a segment descriptor cannot be read.
\<close>

partial_function (option) keep_loop ::
    "'d blk_dev \<Rightarrow> u32 \<Rightarrow> u32 \<Rightarrow> u32 \<Rightarrow> nat \<Rightarrow> pfs_blockinfo \<Rightarrow> u32 \<Rightarrow> ('d, 'z) pfs_state_scheme \<Rightarrow>
      ((nat option \<times> u32 \<times> pfs_blockinfo \<times> u32) \<times> ('d, 'z) pfs_state_scheme) option" where
  "keep_loop D limit i j clink b segdesc s =
     (if i < limit \<and> j \<noteq> 0
      then if pfsFixIndex i = 0
           then do {
             ((next, e), s1) \<leftarrow> pfsBlockGetNextSegment D clink s;
             case next of None \<Rightarrow> Some ((None, i, b, segdesc), s1)
             | Some c \<Rightarrow> keep_loop D limit (i + 1) j c b (segdesc + 1) s1
           }
           else (let k = unat (pfsFixIndex i); bi = inode_data (cdata s clink) k in
                 if j < ucast (bi_count bi)
                 then (let n = bi_count bi - ucast j in
                       keep_loop D limit (i + 1) 0 clink
                         \<lparr>bi_number = bi_number bi + ucast n, bi_subpart = bi_subpart bi, bi_count = ucast j\<rparr> segdesc
                         (pfs_mark_dirty clink (set_data clink (put_data k (bi\<lparr>bi_count := n\<rparr>)) s)))
                 else keep_loop D limit (i + 1) (j - ucast (bi_count bi)) clink b segdesc s)
      else Some ((Some clink, i, b, segdesc), s))"

partial_function (option) drop_loop ::
    "'d blk_dev \<Rightarrow> u32 \<Rightarrow> u32 \<Rightarrow> nat \<Rightarrow> ('d, 'z) pfs_state_scheme \<Rightarrow> ('d, 'z) pfs_state_scheme option" where
  "drop_loop D limit i clink s =
     (if i < limit
      then do {
        ((next, e), s1) \<leftarrow> (if pfsFixIndex i = 0 then pfsBlockGetNextSegment D clink s else Some ((Some clink, 0), s));
        case next of None \<Rightarrow> Some s1
        | Some c \<Rightarrow> do {
            let bi = (\<lambda>t. inode_data (cdata t c) (unat (pfsFixIndex i)));
            s2 \<leftarrow> pfsBitmapFreeBlockSegment D bi s1;
            drop_loop D limit (i + 1) c (pfsCacheMarkClean (ucast (bi_subpart (bi s2))) (inode_blk (pmount s2) (bi_number (bi s2)))
              (inode_blk (pmount s2) (bi_number (bi s2) + ucast (bi_count (bi s2)))) s2)
          }
      }
      else Some (pfsCacheFree (Some clink) s))"

definition used_zones :: "u64 \<Rightarrow> u32 \<Rightarrow> u32" where
  "used_zones sz zs = ucast (sz div ucast zs) + (if sz mod ucast zs \<noteq> 0 then 1 else 0)"

definition pfsFreeZones :: "'d blk_dev \<Rightarrow> nat \<Rightarrow> ('d, 'z) pfs_state_scheme \<Rightarrow> ('d, 'z) pfs_state_scheme option" where
  "pfsFreeZones D pfree s =
     (let ws = cdata s pfree; zs = zsize (pmount s); zones = used_zones (inode_size ws) zs; limit = inode_number_data ws in
      if zs = 0 then None
      else if inode_number_segdesg ws + zones = inode_number_blocks ws then Some s
      else do {
        ((c, i, b, segdesc), s1) \<leftarrow> keep_loop D limit 1 zones pfree \<lparr>bi_number = 0, bi_subpart = 0, bi_count = 0\<rparr> 1 (pfsCacheUsedAdd pfree s);
        case c of None \<Rightarrow> Some s1
        | Some clink \<Rightarrow> do {
            let s2 = set_data pfree (\<lambda>w. set_blockinfo 6 (inode_data (cdata s1 clink) 0)
                       (w[249 := i, 248 := zones + segdesc, 250 := segdesc])) s1;
            let s3 = pfs_mark_dirty pfree s2;
            s4 \<leftarrow> (if bi_number b \<noteq> 0 then pfsBitmapFreeBlockSegment D (\<lambda>_. b) s3 else Some s3);
            drop_loop D limit i clink s4
          }
      })"

subsection \<open>Inodes\<close>

definition inode_fill_words :: "pfs_blockinfo \<Rightarrow> u16 \<Rightarrow> u16 \<Rightarrow> u16 \<Rightarrow> apa_ps2time \<Rightarrow> u32 list" where
  "inode_fill_words bi mode uid gid t =
     (let dir = is_format mode FIO_S_IFDIR; val = (if dir then 2 else 1);
          w1 = set_blockinfo 6 bi (set_blockinfo 2 bi ((replicate 256 0)[1 := PFS_SEGD_MAGIC]));
          w2 = w1[238 := packh mode (if dir then 0xA0 else 0), 239 := packh uid gid, 249 := val, 248 := val];
          w3 = put_size (if dir then of_nat dentry_size else 0) w2;
          w4 = put_time 244 t (put_time 240 t (put_time 242 t w3))
      in (put_data 0 bi (w4[250 := 1]))[251 := ucast (bi_subpart bi)])"

definition pfsInodeFill :: "'d blk_dev \<Rightarrow> nat \<Rightarrow> pfs_blockinfo \<Rightarrow> u16 \<Rightarrow> u16 \<Rightarrow> u16 \<Rightarrow> ('d, 'z) pfs_state_scheme \<Rightarrow> ('d, 'z) pfs_state_scheme" where
  "pfsInodeFill D ci bi mode uid gid s =
     (let (t, s1) = pfsGetTime D s in pfs_mark_dirty ci (set_data ci (\<lambda>_. inode_fill_words bi mode uid gid t) s1))"

text \<open>Percentages of free zones; None is a division by zero or a sub-partition that is not in the table.\<close>

definition percent :: "u32 \<Rightarrow> u32 \<Rightarrow> u32 option" where
  "percent a b = (if b = 0 then None else Some (ucast (((ucast a :: u64) * 100) div ucast b)))"

definition sub_percent :: "'d blk_dev \<Rightarrow> pfs_mount \<Rightarrow> nat \<Rightarrow> u32 option" where
  "sub_percent D m k =
     (if length (free_zone m) \<le> k then None
      else percent (free_zone m ! k) (drop_bit (unat (sector_scale m)) (bd_size D (of_nat k))))"

definition pfsGetMaxIndex :: "'d blk_dev \<Rightarrow> pfs_mount \<Rightarrow> u16 option" where
  "pfsGetMaxIndex D m =
     map_option (\<lambda>(best, k). ucast k)
       (ofold (\<lambda>i (best, k :: u32). map_option (\<lambda>v. if best < v then (v, of_nat i) else (best, k)) (sub_percent D m i))
          [0..<unat (num_subs m + 1)] (0, 0))"

text \<open>The sub-partition that \<open>pfsInodeCreate\<close> picks for a new directory.\<close>

definition dir_subpart :: "'d blk_dev \<Rightarrow> pfs_mount \<Rightarrow> u16 \<Rightarrow> u16 option" where
  "dir_subpart D m sub = do {
     j \<leftarrow> percent (zfree m) (total_zones m);
     i \<leftarrow> sub_percent D m (unat sub);
     if i < j \<and> 11 \<le> j - i then pfsGetMaxIndex D m else Some sub
   }"

definition pfsInodeCreate ::
    "'d blk_dev \<Rightarrow> nat \<Rightarrow> u16 \<Rightarrow> u16 \<Rightarrow> u16 \<Rightarrow> ('d, 'z) pfs_state_scheme \<Rightarrow> ((nat option \<times> int) \<times> ('d, 'z) pfs_state_scheme) option" where
  "pfsInodeCreate D clink mode uid gid s =
     (let dir = is_format mode FIO_S_IFDIR; m = pmount s in
      do {
        (a, s1) \<leftarrow> (if dir
           then do {
             let s1 = set_data clink (\<lambda>ws. ws[251 := (if ws ! 251 < num_subs m then ws ! 251 + 1 else 0)]) s;
             sub \<leftarrow> dir_subpart D m (ucast (inode_subpart (cdata s1 clink)));
             Some (\<lparr>bi_number = 0, bi_subpart = sub, bi_count = 1\<rparr>, s1)
           }
           else Some ((inode_block (cdata s clink))\<lparr>bi_count := 1\<rparr>, s));
        ((r, a1), s2) \<leftarrow> pfsBitmapSearchFreeZone D a 2 s1;
        if r < 0 then Some ((None, r), s2)
        else do {
          ((c, e), s3) \<leftarrow> pfsCacheGetData D (bi_subpart a1) (inode_blk m (bi_number a1)) (PFS_CACHE_FLAG_SEGD OR PFS_CACHE_FLAG_NOLOAD) s2;
          case c of None \<Rightarrow> Some ((None, e), s3)
          | Some i \<Rightarrow>
              let s4 = pfsInodeFill D i a1 mode uid gid s3 in
              if \<not> dir then Some ((Some i, e), s4)
              else do {
                ((r2, a2), s5) \<leftarrow> pfsBitmapSearchFreeZone D a1 0 s4;
                if r2 < 0 then map_option (\<lambda>t. ((None, r2), t)) (pfsBitmapFreeBlockSegment D (\<lambda>_. a1) (pfsCacheFree (Some i) s5))
                else Some ((Some i, r2), set_data i (put_data 1 a2) s5)
              }
        }
      })"

definition pfsInodeRemove ::
    "'d blk_dev \<Rightarrow> nat \<Rightarrow> nat \<Rightarrow> u8 list \<Rightarrow> ('d, 'z) pfs_state_scheme \<Rightarrow> (int \<times> ('d, 'z) pfs_state_scheme) option" where
  "pfsInodeRemove D parent inode fname s = do {
     (entry, s1) \<leftarrow> pfsDirRemoveEntry D parent fname s;
     case entry of
       Some e \<Rightarrow> do {
         let s2 = pfsCacheFree (Some parent) (pfsCacheFree (Some e) (pfsInodeSetTimeParent D parent e s1));
         let s3 = upd_cache inode (\<lambda>c. c\<lparr>q_flags := q_flags c AND NOT PFS_CACHE_FLAG_DIRTY\<rparr>) s2;
         s4 \<leftarrow> pfsBitmapFreeInodeBlocks D inode s3;
         s5 \<leftarrow> pfsCacheFlushAllDirty D s4;
         Some (0, pfsCacheFree (Some inode) s5)
       }
     | None \<Rightarrow> Some (- ENOENT, pfsCacheFree (Some inode) (pfsCacheFree (Some parent) s1))
   }"

subsection \<open>Adding an entry to a directory\<close>

definition pfsDirAddEntry ::
    "'d blk_dev \<Rightarrow> nat \<Rightarrow> u8 list \<Rightarrow> pfs_blockinfo \<Rightarrow> u16 \<Rightarrow> int \<Rightarrow> ('d, 'z) pfs_state_scheme \<Rightarrow>
      ((nat option \<times> int) \<times> ('d, 'z) pfs_state_scheme) option" where
  "pfsDirAddEntry D dir filename bi mode result s = do {
     ((r, sz), s1) \<leftarrow> pfsGetDentry D dir (Some filename) 1 s;
     case r of
       Some (c, d) \<Rightarrow> do {
         let ws = cdata s1 c;
         let used = (if d_pLen ws d = 0 then 0 else name_len (unat (d_pLen ws d)));
         let len = of_nat (alloc_len ws d) - of_nat used;
         let aLen = (d_aLen ws d AND FIO_S_IFMT) OR ucast ((of_nat (alloc_len ws d) :: u32) - len);
         s2 \<leftarrow> pfsFillDentry c (d + unat (aLen AND 0xFFF)) filename bi len mode (set_data c (put_aLen d aLen) s1);
         Some ((Some c, result), s2)
       }
     | None \<Rightarrow> do {
         (e, s2) \<leftarrow> pfsAllocZones D dir (of_nat dentry_size) 0 s1;
         if e < 0 then Some ((None, e), s2)
         else do {
           ((c, off, e2), s3) \<leftarrow> pfsGetDentriesAtPos D dir (inode_size (cdata s2 dir)) s2;
           case c of None \<Rightarrow> Some ((None, e2), s3)
           | Some i \<Rightarrow> do {
               let s4 = set_data dir (\<lambda>ws. put_size (inode_size ws + of_nat dentry_size) ws) s3;
               s5 \<leftarrow> pfsFillDentry i off filename bi (of_nat dentry_size) mode s4;
               Some ((Some i, e2), s5)
             }
         }
       }
   }"

subsection \<open>Paths\<close>

definition FIO_MT_RDONLY :: u32 where "FIO_MT_RDONLY = 1"
definition O_WRONLY :: u32 where "O_WRONLY = 2"

definition pfsCheckAccess :: "nat \<Rightarrow> u32 \<Rightarrow> ('d, 'z) pfs_state_scheme \<Rightarrow> int" where
  "pfsCheckAccess clink flags s =
     (if mount_flags (pmount s) AND FIO_MT_RDONLY \<noteq> 0 \<and> flags AND O_WRONLY \<noteq> 0 then - EROFS
      else (let mode = (if \<not> is_format (inode_mode (cdata s clink)) FIO_S_IFDIR \<and> inode_mode (cdata s clink) AND 0x49 = 0 then 6 else 7)
            in if (mode AND flags) AND 7 = flags then 0 else - EACCES))"

text \<open>The first component of a path, cut to 255 bytes, and the rest of it unless it is too long.\<close>

definition pfsSplitPath :: "u8 list \<Rightarrow> u8 list \<times> u8 list option" where
  "pfsSplitPath filename =
     (let i = length (takeWhile (\<lambda>c. c = char_slash) filename);
          part = takeWhile (\<lambda>c. c \<noteq> char_slash) (take (1024 - i) (drop i filename));
          j = i + length part;
          k = j + length (takeWhile (\<lambda>c. c = char_slash) (take (1024 - j) (drop j filename)))
      in (take 255 part, if k < 1024 then Some (drop k filename) else None))"

definition pfsInodeGetFileInDir ::
    "'d blk_dev \<Rightarrow> nat \<Rightarrow> u8 list \<Rightarrow> int \<Rightarrow> ('d, 'z) pfs_state_scheme \<Rightarrow> ((nat option \<times> int) \<times> ('d, 'z) pfs_state_scheme) option" where
  "pfsInodeGetFileInDir D dir fname result s =
     (let c = pfsCacheBuf s dir; m = pmount s; access = pfsCheckAccess dir 1 s in
      if fname = [] then Some ((Some dir, result), pfsCacheUsedAdd dir s)
      else if q_block c = inode_blk m (bi_number (root_dir m)) \<and> q_sub c = ucast (bi_subpart (root_dir m)) \<and> fname = [char_dot, char_dot]
      then Some ((Some dir, result), pfsCacheUsedAdd dir s)
      else if access < 0 then Some ((None, access), s)
      else do {
        ((r, sz), s1) \<leftarrow> pfsGetDentry D dir (Some fname) 0 s;
        case r of None \<Rightarrow> Some ((None, - ENOENT), s1)
        | Some (i, d) \<Rightarrow>
            let s2 = pfsCacheFree (Some i) s1
            in pfsInodeGetData D (ucast (d_sub (cdata s2 i) d)) (d_inode (cdata s2 i) d) s2
      })"

text \<open>The bytes from byte offset \<open>k\<close> up to a 0; None when there is none in the block.\<close>

definition c_string :: "u32 list \<Rightarrow> nat \<Rightarrow> u8 list option" where
  "c_string ws k =
     (let bs = data_bytes ws k (1024 - k) in if 0 \<in> set bs then Some (takeWhile (\<lambda>b. b \<noteq> 0) bs) else None)"

text \<open>
  The loop of \<open>pfsInodeGetParent\<close>. \<open>left\<close> is how many more symbolic links may be followed and
  \<open>follow\<close> finds the file that one names. The result is the entry of the directory, the last
  component and the result code.
\<close>

partial_function (option) parent_walk ::
    "'d blk_dev \<Rightarrow> nat \<Rightarrow> (nat \<Rightarrow> u8 list \<Rightarrow> int \<Rightarrow> ('d, 'z) pfs_state_scheme \<Rightarrow> ((nat option \<times> int) \<times> ('d, 'z) pfs_state_scheme) option) \<Rightarrow>
      nat \<Rightarrow> u8 list \<Rightarrow> int \<Rightarrow> ('d, 'z) pfs_state_scheme \<Rightarrow> ((nat option \<times> u8 list \<times> int) \<times> ('d, 'z) pfs_state_scheme) option" where
  "parent_walk D left follow clink filename result s =
     (let (fname, rest) = pfsSplitPath filename in
      case rest of None \<Rightarrow> Some ((None, fname, - ENAMETOOLONG), s)
      | Some r \<Rightarrow>
          if r = []
          then if is_format (inode_mode (cdata s clink)) FIO_S_IFDIR then Some ((Some clink, fname, result), s)
               else Some ((None, fname, - ENOTDIR), pfsCacheFree (Some clink) s)
          else do {
            ((inode, e), s1) \<leftarrow> pfsInodeGetFileInDir D clink fname result s;
            case inode of None \<Rightarrow> Some ((None, fname, e), pfsCacheFree (Some clink) s1)
            | Some i \<Rightarrow>
                if is_format (inode_mode (cdata s1 i)) FIO_S_IFLNK
                then if left = 0 then Some ((None, fname, - ELOOP), pfsCacheFree (Some i) (pfsCacheFree (Some clink) s1))
                     else do {
                       target \<leftarrow> c_string (cdata s1 i) 48;
                       ((link, e2), s2) \<leftarrow> follow clink target e s1;
                       case link of None \<Rightarrow> Some ((None, fname, e2), pfsCacheFree (Some i) s2)
                       | Some l \<Rightarrow> parent_walk D left follow l r e2 (pfsCacheFree (Some i) s2)
                     }
                else parent_walk D left follow i r e (pfsCacheFree (Some clink) s1)
          })"

text \<open>The start of \<open>pfsInodeGetParent\<close>: where the walk begins.\<close>

definition parent_begin ::
    "'d blk_dev \<Rightarrow> nat \<Rightarrow> (nat \<Rightarrow> u8 list \<Rightarrow> int \<Rightarrow> ('d, 'z) pfs_state_scheme \<Rightarrow> ((nat option \<times> int) \<times> ('d, 'z) pfs_state_scheme) option) \<Rightarrow>
      nat option \<Rightarrow> u8 list \<Rightarrow> int \<Rightarrow> ('d, 'z) pfs_state_scheme \<Rightarrow> ((nat option \<times> u8 list \<times> int) \<times> ('d, 'z) pfs_state_scheme) option" where
  "parent_begin D left follow clink filename result s =
     (if filename = [] then Some ((None, [], - ENOENT), pfsCacheFree clink s)
      else do {
        ((c, e), s1) \<leftarrow>
          (if hd filename = char_slash
           then pfsInodeGetData D (bi_subpart (root_dir (pmount s))) (bi_number (root_dir (pmount s))) (pfsCacheFree clink s)
           else (case clink of
               None \<Rightarrow> pfsInodeGetData D (bi_subpart (current_dir (pmount s))) (bi_number (current_dir (pmount s))) s
             | Some i \<Rightarrow> Some ((Some i, result), s)));
        case c of None \<Rightarrow> Some ((None, [], e), s1) | Some i \<Rightarrow> parent_walk D left follow i filename e s1
      })"

text \<open>\<open>pfsInodeGetFile\<close> with the search for the parent as an argument.\<close>

definition get_file_from ::
    "'d blk_dev \<Rightarrow> (nat option \<Rightarrow> u8 list \<Rightarrow> int \<Rightarrow> ('d, 'z) pfs_state_scheme \<Rightarrow> ((nat option \<times> u8 list \<times> int) \<times> ('d, 'z) pfs_state_scheme) option) \<Rightarrow>
      nat option \<Rightarrow> u8 list \<Rightarrow> int \<Rightarrow> ('d, 'z) pfs_state_scheme \<Rightarrow> ((nat option \<times> int) \<times> ('d, 'z) pfs_state_scheme) option" where
  "get_file_from D parent clink fname result s = do {
     ((c, last, e), s1) \<leftarrow> parent clink fname result s;
     case c of None \<Rightarrow> Some ((None, e), s1)
     | Some d \<Rightarrow> map_option (\<lambda>(r, s2). (r, pfsCacheFree (Some d) s2)) (pfsInodeGetFileInDir D d last e s1)
   }"

primrec parent_links ::
    "nat \<Rightarrow> 'd blk_dev \<Rightarrow> nat option \<Rightarrow> u8 list \<Rightarrow> int \<Rightarrow> ('d, 'z) pfs_state_scheme \<Rightarrow>
      ((nat option \<times> u8 list \<times> int) \<times> ('d, 'z) pfs_state_scheme) option" where
  "parent_links 0 D = parent_begin D 0 (\<lambda>_ _ _ _. None)"
| "parent_links (Suc n) D = parent_begin D (Suc n) (\<lambda>c. get_file_from D (parent_links n D) (Some c))"

text \<open>The static counter \<open>pfsSymbolicLinks\<close> allows four links inside each other.\<close>

definition pfsInodeGetParent ::
    "'d blk_dev \<Rightarrow> nat option \<Rightarrow> u8 list \<Rightarrow> int \<Rightarrow> ('d, 'z) pfs_state_scheme \<Rightarrow>
      ((nat option \<times> u8 list \<times> int) \<times> ('d, 'z) pfs_state_scheme) option" where
  "pfsInodeGetParent = parent_links 4"

definition pfsInodeGetFile ::
    "'d blk_dev \<Rightarrow> nat option \<Rightarrow> u8 list \<Rightarrow> int \<Rightarrow> ('d, 'z) pfs_state_scheme \<Rightarrow> ((nat option \<times> int) \<times> ('d, 'z) pfs_state_scheme) option" where
  "pfsInodeGetFile D = get_file_from D (pfsInodeGetParent D)"

end
