(* ===== verification/PfsDirSector.thy ===== *)
theory PfsDirSector
  imports PfsFile
begin

text \<open>
  A sector of a directory as an association list. \<open>tiles\<close> says that entries at given offsets fill
  a range of the chunk, \<open>sector_map\<close> is the map from names to inodes that they stand for. A scan
  of a tiled sector is a search in the list; adding and removing an entry are updates of the map.
\<close>

subsection \<open>Bytes of a chunk\<close>

lemma bytes_nth: "k < 4 * length ws \<Longrightarrow> bytes_of_words ws ! k = data_byte ws k"
proof (induction ws arbitrary: k)
  case (Cons w ws)
  show ?case
  proof (cases "k < 4")
    case True
    then consider "k = 0" | "k = 1" | "k = 2" | "k = 3" by linarith
    then show ?thesis by cases (simp_all add: data_byte_def)
  next
    case False
    then obtain j where j: "k = j + 4" by (metis add.commute le_add_diff_inverse linorder_not_less)
    then have "bytes_of_words ws ! j = data_byte ws j" using Cons by simp
    moreover have "bytes_of_words (w # ws) ! (j + 4) = bytes_of_words ws ! j"
      by (simp only: bytes_of_words.simps nth_Cons_Suc add_Suc_right numeral_eq_Suc pred_numeral_simps One_nat_def add_0_right BitM.simps
          numeral_One)
    moreover have "(j + 4) div 4 = Suc (j div 4)" by presburger
    ultimately show ?thesis by (simp add: j data_byte_def)
  qed
qed simp

lemma length_put_bytes: "i + length bs \<le> 4 * length ws \<Longrightarrow> length (put_bytes i bs ws) = length ws"
  by (simp add: put_bytes_def Let_def)

lemma data_byte_put_bytes:
  assumes "i + length bs \<le> 4 * length ws" "k < 4 * length ws"
  shows "data_byte (put_bytes i bs ws) k = (if i \<le> k \<and> k < i + length bs then bs ! (k - i) else data_byte ws k)"
proof -
  let ?b = "bytes_of_words ws"
  have "bytes_of_words (put_bytes i bs ws) = take i ?b @ bs @ drop (i + length bs) ?b"
    using assms(1) by (simp add: put_bytes_def Let_def bytes_of_words_of_bytes)
  then have "data_byte (put_bytes i bs ws) k = (take i ?b @ bs @ drop (i + length bs) ?b) ! k"
    using assms bytes_nth [of k "put_bytes i bs ws"] by (simp add: length_put_bytes)
  then show ?thesis using assms by (auto simp: nth_append bytes_nth)
qed

lemma word_index: "(4 * k + 1) div 4 = k" "(4 * k + 2) div 4 = k" "(4 * k + 3) div 4 = k" "(4 * k + 4) div 4 = k + 1"
  "(4 * k + 5) div 4 = k + 1" "(4 * k + 6) div 4 = k + 1" "(4 * k + 7) div 4 = k + 1"
  "(4 * k + 1) mod 4 = 1" "(4 * k + 2) mod 4 = 2" "(4 * k + 3) mod 4 = 3" "(4 * k + 4) mod 4 = 0" "(4 * k + 5) mod 4 = 1"
  "(4 * k + 6) mod 4 = 2" "(4 * k + 7) mod 4 = (3 :: nat)"
  by presburger+

lemma word_of_bytes: "ws ! k = pack4 (data_byte ws (4 * k)) (data_byte ws (4 * k + 1)) (data_byte ws (4 * k + 2)) (data_byte ws (4 * k + 3))"
  unfolding data_byte_def word_index using pack4_byte_at [of "ws ! k"] by simp

text \<open>The fields of an entry as bytes.\<close>

lemma half_of_bytes: "half_at 1 w = pack2 (byte_at 2 w) (byte_at 3 w)"
  by (rule bit_word_eqI) (auto simp: half_at_def pack2_def byte_at_def bit_simps)

lemma entry_bytes:
  assumes "d mod 4 = 0"
  shows "d_inode ws d = pack4 (data_byte ws d) (data_byte ws (d + 1)) (data_byte ws (d + 2)) (data_byte ws (d + 3))"
    "d_sub ws d = data_byte ws (d + 4)" "d_pLen ws d = data_byte ws (d + 5)"
    "d_aLen ws d = pack2 (data_byte ws (d + 6)) (data_byte ws (d + 7))"
proof -
  obtain k where k: "d = 4 * k" using assms by (auto simp: mod_eq_0_iff_dvd)
  show "d_inode ws d = pack4 (data_byte ws d) (data_byte ws (d + 1)) (data_byte ws (d + 2)) (data_byte ws (d + 3))"
    using word_of_bytes [of ws k] by (simp add: d_inode_def k)
  have "4 * k div 4 = k" by simp
  then show "d_sub ws d = data_byte ws (d + 4)" "d_pLen ws d = data_byte ws (d + 5)"
    "d_aLen ws d = pack2 (data_byte ws (d + 6)) (data_byte ws (d + 7))"
    by (simp_all only: d_sub_def d_pLen_def d_aLen_def data_byte_def k half_of_bytes word_index)
qed

definition same_bytes :: "u32 list \<Rightarrow> u32 list \<Rightarrow> nat \<Rightarrow> nat \<Rightarrow> bool" where
  "same_bytes ws ws' i j \<longleftrightarrow> (\<forall>k. i \<le> k \<longrightarrow> k < j \<longrightarrow> data_byte ws' k = data_byte ws k)"

lemma entry_same:
  assumes "d mod 4 = 0" "same_bytes ws ws' d (d + 8)"
  shows "d_inode ws' d = d_inode ws d" "d_sub ws' d = d_sub ws d" "d_pLen ws' d = d_pLen ws d" "d_aLen ws' d = d_aLen ws d"
    "alloc_len ws' d = alloc_len ws d"
  using assms(2) unfolding alloc_len_def by (simp_all add: entry_bytes [OF assms(1)] same_bytes_def)

lemma path_same:
  assumes "d_pLen ws' d = d_pLen ws d" "same_bytes ws ws' (d + 8) (d + 8 + unat (d_pLen ws d))"
  shows "d_path ws' d = d_path ws d"
  using assms by (simp add: d_path_def data_bytes_def same_bytes_def)

lemma same_bytes_refl [simp]: "same_bytes ws ws i j"
  by (simp add: same_bytes_def)

lemma same_bytes_trans: "same_bytes ws vs i j \<Longrightarrow> same_bytes vs us i j \<Longrightarrow> same_bytes ws us i j"
  by (simp add: same_bytes_def)

lemma same_bytes_sub: "same_bytes ws vs i j \<Longrightarrow> i \<le> k \<Longrightarrow> l \<le> j \<Longrightarrow> same_bytes ws vs k l"
  by (simp add: same_bytes_def)

lemma same_bytes_put:
  assumes "i + length bs \<le> 4 * length ws" "b \<le> 4 * length ws" "b \<le> i \<or> i + length bs \<le> a"
  shows "same_bytes ws (put_bytes i bs ws) a b"
  unfolding same_bytes_def using assms by (auto simp: data_byte_put_bytes)

text \<open>Writing the head of an entry.\<close>

lemma length_put_dentry [simp]: "length (put_dentry d ino sub pLen aLen ws) = length ws"
  by (simp add: put_dentry_def)

lemma put_dentry_fields:
  assumes "d mod 4 = 0" "d + 8 \<le> 4 * length ws"
  shows "d_inode (put_dentry d ino sub pLen aLen ws) d = ino" "d_sub (put_dentry d ino sub pLen aLen ws) d = sub"
    "d_pLen (put_dentry d ino sub pLen aLen ws) d = pLen" "d_aLen (put_dentry d ino sub pLen aLen ws) d = aLen"
proof -
  have "Suc (d div 4) < length ws" using assms(2) by linarith
  then show "d_inode (put_dentry d ino sub pLen aLen ws) d = ino" "d_sub (put_dentry d ino sub pLen aLen ws) d = sub"
    "d_pLen (put_dentry d ino sub pLen aLen ws) d = pLen" "d_aLen (put_dentry d ino sub pLen aLen ws) d = aLen"
    by (simp_all add: put_dentry_def d_inode_def d_sub_def d_pLen_def d_aLen_def)
qed

lemma same_bytes_dentry:
  assumes "d mod 4 = 0" "j \<le> d \<or> d + 8 \<le> i"
  shows "same_bytes ws (put_dentry d ino sub pLen aLen ws) i j"
  unfolding same_bytes_def
proof (intro allI impI)
  fix k assume k: "i \<le> k" "k < j"
  obtain e where e: "d = 4 * e" using assms(1) by (auto simp: mod_eq_0_iff_dvd)
  have "k div 4 \<noteq> e" "k div 4 \<noteq> e + 1" using assms(2) k by (auto simp: e)
  then show "data_byte (put_dentry d ino sub pLen aLen ws) k = data_byte ws k"
    by (simp add: data_byte_def put_dentry_def e)
qed

text \<open>The length field: format bits and a length below 4096.\<close>

lemma length_field:
  assumes "n < 4096"
  shows "((f AND FIO_S_IFMT) OR of_nat n) AND 0xFFF = (of_nat n :: u16)" "(of_nat n OR (f AND FIO_S_IFMT)) AND 0xFFF = (of_nat n :: u16)"
    "((f AND FIO_S_IFMT) OR of_nat n) AND FIO_S_IFMT = f AND FIO_S_IFMT"
proof -
  have "take_bit 12 n = n" using assms by (simp add: take_bit_nat_eq_self_iff)
  then have n: "(of_nat n :: u16) = take_bit 12 (of_nat n)" by (simp only: take_bit_of_nat)
  have m: "(0xFFF :: u16) = mask 12" by (simp add: mask_eq_exp_minus_1)
  have f: "FIO_S_IFMT = push_bit 12 (mask 4)" by (simp add: FIO_S_IFMT_def mask_eq_exp_minus_1 push_bit_eq_mult)
  show "((f AND FIO_S_IFMT) OR of_nat n) AND 0xFFF = (of_nat n :: u16)" "(of_nat n OR (f AND FIO_S_IFMT)) AND 0xFFF = (of_nat n :: u16)"
    "((f AND FIO_S_IFMT) OR of_nat n) AND FIO_S_IFMT = f AND FIO_S_IFMT"
    unfolding m f by (subst n; auto intro!: bit_word_eqI simp: bit_simps)+
qed

subsection \<open>Sectors\<close>

text \<open>The entries at the offsets of the list fill the chunk from \<open>d\<close> to \<open>d2\<close>.\<close>

fun tiles :: "u32 list \<Rightarrow> nat list \<Rightarrow> nat \<Rightarrow> nat \<Rightarrow> bool" where
  "tiles ws [] d d2 \<longleftrightarrow> d = d2"
| "tiles ws (e # es) d d2 \<longleftrightarrow>
     e = d \<and> alloc_len ws d mod 4 = 0 \<and> name_len (unat (d_pLen ws d)) \<le> alloc_len ws d \<and> d + alloc_len ws d \<le> d2 \<and>
     tiles ws es (d + alloc_len ws d) d2"

definition sector_map :: "u32 list \<Rightarrow> nat list \<Rightarrow> u8 list \<rightharpoonup> u32 \<times> u8" where
  "sector_map ws es = map_of (map (\<lambda>d. (d_path ws d, d_inode ws d, d_sub ws d)) es)"

lemma tiles_le: "tiles ws es d d2 \<Longrightarrow> d \<le> d2"
  by (cases es) auto

lemma tiles_from: "tiles ws es d d2 \<Longrightarrow> e \<in> set es \<Longrightarrow> d \<le> e"
  by (induction es arbitrary: d) (auto dest: add_leD1)

lemma tiles_end: "tiles ws es d d2 \<Longrightarrow> d mod 4 = 0 \<Longrightarrow> d2 mod 4 = 0"
  by (induction es arbitrary: d) (auto simp: dvd_add)

lemma tiles_in:
  assumes "tiles ws es d d2" "d mod 4 = 0" "e \<in> set es"
  shows "d \<le> e \<and> e mod 4 = 0 \<and> e + alloc_len ws e \<le> d2 \<and> alloc_len ws e mod 4 = 0 \<and> name_len (unat (d_pLen ws e)) \<le> alloc_len ws e"
  using assms
proof (induction es arbitrary: d)
  case (Cons a es)
  have t: "tiles ws es (d + alloc_len ws d) d2" "(d + alloc_len ws d) mod 4 = 0" using Cons.prems by (auto simp: dvd_add)
  show ?case using Cons.IH [OF t] Cons.prems by (cases "e = a") auto
qed simp

lemma dtiles_append: "tiles ws (xs @ ys) d d2 \<longleftrightarrow> (\<exists>m \<le> d2. tiles ws xs d m \<and> tiles ws ys m d2)"
proof (induction xs arbitrary: d)
  case Nil
  have "tiles ws ys d d2 \<Longrightarrow> d \<le> d2" by (cases ys) auto
  then show ?case by auto
next
  case (Cons x xs)
  have "tiles ws xs (d + alloc_len ws d) m \<Longrightarrow> d + alloc_len ws d \<le> m" for m by (rule tiles_le)
  then show ?case by (auto simp: Cons) (meson le_trans)
qed

lemma tiles_same:
  assumes "tiles ws es d d2" "\<And>e. e \<in> set es \<Longrightarrow> alloc_len ws' e = alloc_len ws e \<and> d_pLen ws' e = d_pLen ws e"
  shows "tiles ws' es d d2"
  using assms by (induction es arbitrary: d) auto

text \<open>A scan of a tiled sector finds the first entry that matches.\<close>

lemma alloc_len_small: "alloc_len ws d < 4096"
proof -
  have "unat (d_aLen ws d AND 0xFFF) = unat (take_bit 12 (d_aLen ws d))" by (simp add: take_bit_eq_mask mask_eq_exp_minus_1)
  then show ?thesis using take_bit_nat_less_exp [of 12 "unat (d_aLen ws d)"] by (simp add: alloc_len_def unsigned_take_bit_eq)
qed

lemma and_3: "(n :: nat) AND 3 = n mod 4"
  using take_bit_eq_mask [of 2 n] by (simp add: mask_eq_exp_minus_1 take_bit_eq_mod)

lemma scan_tiles:
  assumes "tiles ws es d d2" "d2 \<le> 1024" "option \<le> 2"
  shows "scan_sector option fname ws d d2 sz =
    (case List.find (dentry_match option fname ws) es of Some e \<Rightarrow> Found e (sz + of_nat (e - d)) | None \<Rightarrow> Next (sz + of_nat (d2 - d)))"
  using assms
proof (induction es arbitrary: d sz)
  case (Cons e es)
  let ?n = "alloc_len ws d"
  have t: "e = d" "?n mod 4 = 0" "name_len (unat (d_pLen ws d)) \<le> ?n" "d + ?n \<le> d2" "tiles ws es (d + ?n) d2" using Cons.prems(1) by auto
  have pos: "8 \<le> ?n" using t(3) name_len_pos [of "d_pLen ws d"] by linarith
  have len: "of_nat (e' - d) = of_nat ?n + (of_nat (e' - (d + ?n)) :: u32)" if "d + ?n \<le> e'" for e'
  proof -
    have "e' - d = ?n + (e' - (d + ?n))" using that by simp
    then show ?thesis by (metis of_nat_add)
  qed
  have le: "d + ?n \<le> d2" "\<And>e'. e' \<in> set es \<Longrightarrow> d + ?n \<le> e'" using t(4) tiles_from [OF t(5)] by blast+
  have f: "List.find (dentry_match option fname ws) es = Some e' \<Longrightarrow> d + ?n \<le> e'" for e' by (drule find_SomeD) (auto intro: le(2))
  show ?case
    using Cons.IH [OF t(5) Cons.prems(2,3), of "sz + of_nat ?n"] t(1-4) pos Cons.prems(2,3) len le(1) f
    by (subst scan_sector.simps) (auto simp: and_3 add.assoc split: option.splits)
qed (simp add: scan_sector.simps)

subsection \<open>Updating a sector\<close>

text \<open>Entries without an inode have no name.\<close>

definition tidy :: "u32 list \<Rightarrow> nat list \<Rightarrow> bool" where
  "tidy ws es \<longleftrightarrow> (\<forall>e \<in> set es. d_inode ws e = 0 \<longrightarrow> d_pLen ws e = 0)"

lemma name_len_ge: "unat (p :: u8) + 8 \<le> name_len (unat p)" "name_len (unat p) mod 4 = 0" "name_len (unat p) < 4096"
proof -
  have "unat p < 256" using unsigned_less [of p] by simp
  then show "unat p + 8 \<le> name_len (unat p)" "name_len (unat p) mod 4 = 0" "name_len (unat p) < 4096"
    using name_len_eq by simp_all
qed

text \<open>An entry depends on its own bytes only.\<close>

definition same_entry :: "u32 list \<Rightarrow> u32 list \<Rightarrow> nat \<Rightarrow> bool" where
  "same_entry ws ws' e \<longleftrightarrow> d_inode ws' e = d_inode ws e \<and> d_sub ws' e = d_sub ws e \<and> d_pLen ws' e = d_pLen ws e \<and>
     alloc_len ws' e = alloc_len ws e \<and> d_path ws' e = d_path ws e"

lemma entry_kept:
  assumes "e mod 4 = 0" "name_len (unat (d_pLen ws e)) \<le> alloc_len ws e" "same_bytes ws ws' e (e + alloc_len ws e)"
  shows "same_entry ws ws' e"
proof -
  have l: "unat (d_pLen ws e) + 8 \<le> alloc_len ws e" using name_len_ge(1) [of "d_pLen ws e"] assms(2) by linarith
  have "same_bytes ws ws' e (e + 8)" by (rule same_bytes_sub [OF assms(3)]) (use l in simp_all)
  note f = entry_same [OF assms(1) this]
  have "same_bytes ws ws' (e + 8) (e + 8 + unat (d_pLen ws e))" by (rule same_bytes_sub [OF assms(3)]) (use l in simp_all)
  then show ?thesis using f path_same [OF f(3)] by (simp add: same_entry_def)
qed

text \<open>A tiled range split at an entry; a change of the entry's own bytes keeps all others.\<close>

lemma tiles_split:
  assumes "tiles ws es a b" "a mod 4 = 0" "d \<in> set es"
  obtains xs ys where "es = xs @ d # ys" "tiles ws xs a d" "tiles ws ys (d + alloc_len ws d) b"
    "d mod 4 = 0" "alloc_len ws d mod 4 = 0" "name_len (unat (d_pLen ws d)) \<le> alloc_len ws d" "d + alloc_len ws d \<le> b" "a \<le> d"
    "d \<notin> set xs" "d \<notin> set ys"
proof -
  obtain xs ys where es: "es = xs @ d # ys" "d \<notin> set xs" using split_list_first [OF assms(3)] by auto
  obtain m where m: "tiles ws xs a m" "tiles ws (d # ys) m b" using assms(1) unfolding es dtiles_append by auto
  have "0 < alloc_len ws d" using m(2) name_len_pos [of "d_pLen ws d"] by auto
  then have "d \<notin> set ys" using tiles_from [of ws ys "d + alloc_len ws d" b d] m(2) by auto
  then show thesis using that [OF es(1)] m es(2) tiles_in [OF assms] tiles_from [OF assms(1,3)] by auto
qed

lemma kept_outside:
  assumes "tiles ws xs a d" "a mod 4 = 0" "tiles ws ys m b" "m mod 4 = 0" "same_bytes ws ws' a d" "same_bytes ws ws' m b"
    and "e \<in> set xs \<or> e \<in> set ys"
  shows "same_entry ws ws' e"
  using assms(7)
proof
  assume e: "e \<in> set xs"
  note t = tiles_in [OF assms(1,2) e]
  show ?thesis by (rule entry_kept) (use t in \<open>auto intro: same_bytes_sub [OF assms(5)]\<close>)
next
  assume e: "e \<in> set ys"
  note t = tiles_in [OF assms(3,4) e]
  show ?thesis by (rule entry_kept) (use t in \<open>auto intro: same_bytes_sub [OF assms(6)]\<close>)
qed

lemma tiles_kept: "tiles ws es a b \<Longrightarrow> (\<And>e. e \<in> set es \<Longrightarrow> same_entry ws ws' e) \<Longrightarrow> tiles ws' es a b"
  by (erule tiles_same) (simp add: same_entry_def)

lemma map_kept:
  assumes "\<And>e. e \<in> set es \<Longrightarrow> same_entry ws ws' e"
  shows "map (\<lambda>d. (d_path ws' d, d_inode ws' d, d_sub ws' d)) es = map (\<lambda>d. (d_path ws d, d_inode ws d, d_sub ws d)) es"
  using assms by (simp add: same_entry_def)

text \<open>Filling an entry.\<close>

definition fill_words :: "nat \<Rightarrow> u8 list \<Rightarrow> u32 \<Rightarrow> u8 \<Rightarrow> u16 \<Rightarrow> u32 list \<Rightarrow> u32 list" where
  "fill_words d name ino sub aLen ws = put_bytes (d + 8) name (put_dentry d ino sub (of_nat (length name)) aLen ws)"

lemma fill_words_entry:
  fixes ino :: u32 and sub :: u8 and aLen :: u16
  assumes d: "d mod 4 = 0" "d + 8 + length name \<le> 4 * length ws" and n: "length name < 256"
  defines "W \<equiv> fill_words d name ino sub aLen ws"
  shows "length W = length ws" "d_inode W d = ino" "d_sub W d = sub" "unat (d_pLen W d) = length name" "d_aLen W d = aLen"
    "d_path W d = name" "j \<le> d \<or> d + 8 + length name \<le> i \<Longrightarrow> j \<le> 4 * length ws \<Longrightarrow> same_bytes ws W i j"
proof -
  let ?V = "put_dentry d ino sub (of_nat (length name)) aLen ws"
  have V: "length ?V = length ws" by simp
  have b: "d + 8 + length name \<le> 4 * length ?V" using d(2) by simp
  show len: "length W = length ws" unfolding W_def fill_words_def using length_put_bytes [OF b] by simp
  have h: "same_bytes ?V W d (d + 8)" unfolding W_def fill_words_def by (rule same_bytes_put) (use d(2) in simp_all)
  note f = put_dentry_fields [of d ws ino sub "of_nat (length name)" aLen]
  have d8: "d + 8 \<le> 4 * length ws" using d(2) by simp
  have nn: "unat (of_nat (length name) :: u8) = length name" using n by (simp add: unat_of_nat take_bit_nat_eq_self_iff)
  show "d_inode W d = ino" "d_sub W d = sub" "d_aLen W d = aLen"
    using entry_same [OF d(1) h] f [OF d(1) d8] by simp_all
  show p: "unat (d_pLen W d) = length name" using entry_same(3) [OF d(1) h] f(3) [OF d(1) d8] nn by simp
  have "data_byte W (d + 8 + k) = name ! k" if "k < length name" for k
    unfolding W_def fill_words_def using that d(2) by (subst data_byte_put_bytes) auto
  then show "d_path W d = name" unfolding d_path_def data_bytes_def p by (intro nth_equalityI) simp_all
  show "same_bytes ws W i j" if "j \<le> d \<or> d + 8 + length name \<le> i" "j \<le> 4 * length ws"
  proof -
    have "same_bytes ws ?V i j" by (rule same_bytes_dentry) (use d(1) that in auto)
    moreover have "same_bytes ?V W i j" unfolding W_def fill_words_def by (rule same_bytes_put) (use d(2) that in auto)
    ultimately show ?thesis by (rule same_bytes_trans)
  qed
qed

text \<open>The map after an entry without a name was given one, or a new entry was put behind entry \<open>d\<close>.\<close>

lemma map_of_named:
  assumes "n \<notin> fst ` set xs" "p \<noteq> []"
  shows "map_of (xs @ (n, v) # ys) p = ((map_of (xs @ ([] :: u8 list, u) # ys))(n \<mapsto> v)) p"
    "fst x \<noteq> n \<Longrightarrow> map_of (xs @ x # (n, v) # ys) p = ((map_of (xs @ x # ys))(n \<mapsto> v)) p"
proof -
  have "map_of xs n = None" using assms(1) by (simp add: map_of_eq_None_iff)
  then show "map_of (xs @ (n, v) # ys) p = ((map_of (xs @ ([] :: u8 list, u) # ys))(n \<mapsto> v)) p"
    "fst x \<noteq> n \<Longrightarrow> map_of (xs @ x # (n, v) # ys) p = ((map_of (xs @ x # ys))(n \<mapsto> v)) p"
    using assms(2) by (cases "p = n"; auto simp: map_add_def split: option.splits)+
qed

text \<open>Adding: the entry \<open>d\<close> that is large enough keeps \<open>used\<close> bytes, the rest is the new entry.\<close>

definition used_len :: "u32 list \<Rightarrow> nat \<Rightarrow> nat" where
  "used_len ws d = (if d_pLen ws d = 0 then 0 else name_len (unat (d_pLen ws d)))"

lemma match_room:
  assumes "dentry_match 1 (Some name) ws d" "name_len (unat (d_pLen ws d)) \<le> alloc_len ws d" "d_inode ws d = 0 \<longrightarrow> d_pLen ws d = 0"
  shows "used_len ws d + 4 * ((length name + 11) div 4) \<le> alloc_len ws d"
  using assms by (auto simp: dentry_match_def path_size_def used_len_def split: if_splits)

lemma tiles_add:
  fixes ino :: u32 and sub :: u8 and m1 m2 :: u16
  assumes T: "tiles ws es a b" "a mod 4 = 0" "b \<le> 4 * length ws" "tidy ws es" "d \<in> set es"
    and name: "length name < 256" "name \<noteq> []" "name \<notin> d_path ws ` set es"
    and room: "used_len ws d + 4 * ((length name + 11) div 4) \<le> alloc_len ws d" and ino: "ino \<noteq> 0"
  defines "k \<equiv> used_len ws d"
  defines "V \<equiv> put_aLen d ((m1 AND FIO_S_IFMT) OR of_nat k) ws"
  defines "W \<equiv> fill_words (d + k) name ino sub (of_nat (alloc_len ws d - k) OR (m2 AND FIO_S_IFMT)) V"
  shows "\<exists>es'. tiles W es' a b \<and> tidy W es' \<and> (\<forall>p. p \<noteq> [] \<longrightarrow> sector_map W es' p = ((sector_map ws es)(name \<mapsto> (ino, sub))) p)"
proof -
  let ?f = "\<lambda>w. \<lambda>d. (d_path w d, d_inode w d, d_sub w d)"
  let ?n = "4 * ((length name + 11) div 4)"
  obtain xs ys where es: "es = xs @ d # ys" "tiles ws xs a d" "tiles ws ys (d + alloc_len ws d) b"
    "d mod 4 = 0" "alloc_len ws d mod 4 = 0" "name_len (unat (d_pLen ws d)) \<le> alloc_len ws d" "d + alloc_len ws d \<le> b" "a \<le> d"
    using tiles_split [OF T(1,2,5)] by metis
  have k: "k mod 4 = 0" "k \<le> alloc_len ws d" "length name + 8 \<le> ?n" "k + ?n \<le> alloc_len ws d" "k < 4096" "alloc_len ws d - k < 4096"
    using name_len_ge(2) [of "d_pLen ws d"] room alloc_len_small [of ws d] by (auto simp: k_def used_len_def)
  have dk: "(d + k) mod 4 = 0" using es(4) k(1) by (auto simp: dvd_add)
  have m: "(d + alloc_len ws d) mod 4 = 0" using es(4,5) by (auto simp: dvd_add)
  have d8: "d + 8 \<le> 4 * length ws" using es(7) T(3) k by linarith
  have V: "length V = length ws" by (simp add: V_def put_aLen_def)
  have Vd: "d_inode V d = d_inode ws d" "d_sub V d = d_sub ws d" "d_pLen V d = d_pLen ws d" "alloc_len V d = k"
    using put_dentry_fields [OF es(4) d8] length_field(1) [OF k(5), of m1] k(5)
    by (simp_all add: V_def put_aLen_def alloc_len_def unat_of_nat take_bit_nat_eq_self_iff)
  have sV: "same_bytes ws V i j" if "j \<le> d \<or> d + 8 \<le> i" for i j
    unfolding V_def put_aLen_def using es(4) that by (rule same_bytes_dentry)
  have fit: "d + k + 8 + length name \<le> 4 * length V" using k es(7) T(3) V by linarith
  note W = fill_words_entry [OF dk fit name(1), where ino = ino and sub = sub and aLen = "of_nat (alloc_len ws d - k) OR (m2 AND FIO_S_IFMT)",
      folded W_def]
  have Wl: "alloc_len W (d + k) = alloc_len ws d - k" "name_len (unat (d_pLen W (d + k))) = ?n"
    using length_field(2) [OF k(6), of m2] W(4,5) k(6) name_len_eq [OF name(1)]
    by (simp_all add: alloc_len_def unat_of_nat take_bit_nat_eq_self_iff)
  have sW: "same_bytes ws W i j" if "j \<le> d \<or> d + alloc_len ws d \<le> i" "j \<le> b" for i j
    by (rule same_bytes_trans [OF sV W(7)]) (use that k T(3) V in auto)
  have out: "same_entry ws W e" if "e \<in> set xs \<or> e \<in> set ys" for e
    by (rule kept_outside [OF es(2) T(2) es(3) m sW sW that]) (use es(7) in auto)
  have tx: "tiles W xs a d" and ty: "tiles W ys (d + alloc_len ws d) b" using tiles_kept es(2,3) out by blast+
  have mx: "map (?f W) xs = map (?f ws) xs" "map (?f W) ys = map (?f ws) ys" using map_kept out by blast+
  have nx: "name \<notin> fst ` set (map (?f ws) xs)" using name(3) by (auto simp: es(1))
  have new: "?f W (d + k) = (name, ino, sub)" using W by simp
  have td: "tidy W zs" if "set zs \<subseteq> set xs \<union> set ys" for zs
    using T(4) out that by (auto simp: tidy_def es(1) same_entry_def)
  show ?thesis
  proof (cases "k = 0")
    case True
    then have "d_pLen ws d = 0" using name_len_pos [of "d_pLen ws d"] by (auto simp: k_def used_len_def split: if_splits)
    then have old: "d_path ws d = []" by (simp add: d_path_def data_bytes_def)
    have t: "tiles W es a b" unfolding es(1) dtiles_append
      using tx ty Wl k True es(5,7) by (intro exI [of _ d]) auto
    have "tidy W es" using td [of "xs @ ys"] W(2) ino True by (auto simp: tidy_def es(1))
    moreover have "\<forall>p. p \<noteq> [] \<longrightarrow> sector_map W es p = ((sector_map ws es)(name \<mapsto> (ino, sub))) p"
      using map_of_named(1) [OF nx] new old True by (simp add: sector_map_def es(1) mx)
    ultimately show ?thesis using t by blast
  next
    case False
    have pl: "d_pLen ws d \<noteq> 0" "name_len (unat (d_pLen ws d)) = k" using False by (auto simp: k_def used_len_def split: if_splits)
    have l8: "unat (d_pLen ws d) + 8 \<le> k" using name_len_ge(1) [of "d_pLen ws d"] pl by simp
    have sd: "same_bytes V W d (d + k)" by (rule W(7)) (use es(7) T(3) V k in auto)
    have Wd: "d_inode W d = d_inode ws d" "d_sub W d = d_sub ws d" "d_pLen W d = d_pLen ws d" "alloc_len W d = k"
      using entry_same [OF es(4) same_bytes_sub [OF sd]] Vd l8 by simp_all
    have "same_bytes ws W (d + 8) (d + 8 + unat (d_pLen ws d))"
      by (rule same_bytes_trans [OF sV same_bytes_sub [OF sd]]) (use l8 in auto)
    then have pd: "d_path W d = d_path ws d" using path_same Wd(3) by blast
    let ?es = "xs @ d # (d + k) # ys"
    have t: "tiles W ?es a b" unfolding dtiles_append
      using tx ty Wl Wd(3,4) pl(2) k es(5,7) by (intro exI [of _ d]) (auto simp: dvd_diff_nat)
    have "tidy W ?es" using td [of "xs @ ys"] W(2) ino T(4) Wd by (auto simp: tidy_def es(1))
    moreover have "sector_map W ?es p = ((sector_map ws es)(name \<mapsto> (ino, sub))) p" if "p \<noteq> []" for p
    proof -
      have "map (?f W) ?es = map (?f ws) xs @ ?f ws d # (name, ino, sub) # map (?f ws) ys" using new Wd pd by (simp add: mx)
      then show ?thesis unfolding sector_map_def using name(3)
        by (simp only: es(1) map_append list.map) (rule map_of_named(2) [OF nx that], auto simp: es(1))
    qed
    ultimately show ?thesis using t by blast
  qed
qed

text \<open>Removing: the first entry of the range loses its inode and name, any other one goes to the entry before it.\<close>

lemma find_before_tiles:
  assumes "tiles ws (xs @ d # ys) c (a + 512)" "c mod 4 = 0" "a \<le> c" "a + 512 \<le> 1024" "d \<notin> set xs"
  shows "find_before ws d c l (c - a) = Some (Some (if xs = [] then l else Some (last xs)))"
  using assms
proof (induction xs arbitrary: c l)
  case Nil
  then have "c = d" "c + 8 \<le> 1024" using name_len_pos [of "d_pLen ws d"] by auto
  then show ?case using Nil.prems(2) by (subst find_before.simps) simp
next
  case (Cons x xs)
  have t: "x = c" "alloc_len ws c mod 4 = 0" "8 \<le> alloc_len ws c" "c + alloc_len ws c \<le> a + 512"
    "tiles ws (xs @ d # ys) (c + alloc_len ws c) (a + 512)"
    using Cons.prems(1) name_len_pos [of "d_pLen ws c"] by auto
  have m: "(c + alloc_len ws c) mod 4 = 0" using t(2) Cons.prems(2) by (auto simp: dvd_add)
  have "c + alloc_len ws c \<le> d" by (rule tiles_from [OF t(5)]) simp
  moreover have "0 < alloc_len ws d \<and> d + alloc_len ws d \<le> a + 512"
    using tiles_in [OF t(5) m, of d] name_len_pos [of "d_pLen ws d"] by auto
  ultimately have "c - a + alloc_len ws c < 512" "c \<noteq> d" using Cons.prems(3) t(3) by auto
  moreover have "c - a + alloc_len ws c = c + alloc_len ws c - a" using Cons.prems(3) by simp
  ultimately show ?case using Cons.IH [OF t(5) m, of "Some c"] Cons.prems t by (subst find_before.simps) simp
qed

text \<open>The length field of an entry that takes over another one.\<close>

lemma joined_len:
  assumes "alloc_len ws l + alloc_len ws d < 4096"
  shows "unat ((((f AND FIO_S_IFMT) OR ((d_aLen ws l AND 0xFFF) + (d_aLen ws d AND 0xFFF))) AND 0xFFF)) = alloc_len ws l + alloc_len ws d"
proof -
  have "(d_aLen ws l AND 0xFFF) + (d_aLen ws d AND 0xFFF) = of_nat (alloc_len ws l + alloc_len ws d)" by (simp add: alloc_len_def)
  then show ?thesis using assms length_field(1) [OF assms] by (simp add: unat_of_nat take_bit_nat_eq_self_iff del: of_nat_add)
qed

lemma map_of_removed:
  assumes "p \<noteq> []" "n \<notin> fst ` set (xs @ ys)"
  shows "map_of (xs @ ys) p = ((map_of (xs @ (n, v) # ys))(n := None)) p" "map_of (xs @ ([] :: u8 list, u) # ys) p = ((map_of (xs @ (n, v) # ys))(n := None)) p"
proof -
  have "map_of xs n = None" "map_of ys n = None" using assms(2) by (auto simp: map_of_eq_None_iff)
  then show "map_of (xs @ ys) p = ((map_of (xs @ (n, v) # ys))(n := None)) p" "map_of (xs @ ([] :: u8 list, u) # ys) p = ((map_of (xs @ (n, v) # ys))(n := None)) p"
    using assms(1) by (cases "p = n"; auto simp: map_add_def split: option.splits)+
qed

lemma tiles_remove_first:
  assumes T: "tiles ws es a b" "a mod 4 = 0" "b \<le> 4 * length ws" "tidy ws es" "d \<in> set es"
    and name: "d_path ws d = name" "name \<notin> d_path ws ` (set es - {d})"
  defines "W \<equiv> put_dentry d 0 (d_sub ws d) 0 (d_aLen ws d) ws"
  shows "tiles W es a b \<and> tidy W es \<and> (\<forall>p. p \<noteq> [] \<longrightarrow> sector_map W es p = ((sector_map ws es)(name := None)) p)"
proof -
  let ?f = "\<lambda>w. \<lambda>d. (d_path w d, d_inode w d, d_sub w d)"
  obtain xs ys where es: "es = xs @ d # ys" "tiles ws xs a d" "tiles ws ys (d + alloc_len ws d) b"
    "d mod 4 = 0" "alloc_len ws d mod 4 = 0" "name_len (unat (d_pLen ws d)) \<le> alloc_len ws d" "d + alloc_len ws d \<le> b" "a \<le> d"
    "d \<notin> set xs" "d \<notin> set ys" by (rule tiles_split [OF T(1,2,5)])
  have l8: "8 \<le> alloc_len ws d" using es(6) name_len_pos [of "d_pLen ws d"] by linarith
  have m: "(d + alloc_len ws d) mod 4 = 0" using es(4,5) by (auto simp: dvd_add)
  have d8: "d + 8 \<le> 4 * length ws" using es(7) T(3) l8 by linarith
  note Wf = put_dentry_fields [OF es(4) d8, of 0 "d_sub ws d" 0 "d_aLen ws d", folded W_def]
  have Wd: "alloc_len W d = alloc_len ws d" "d_path W d = []" using Wf by (simp_all add: alloc_len_def d_path_def data_bytes_def)
  have sW: "same_bytes ws W i j" if "j \<le> d \<or> d + 8 \<le> i" for i j
    unfolding W_def using es(4) that by (rule same_bytes_dentry)
  have out: "same_entry ws W e" if "e \<in> set xs \<or> e \<in> set ys" for e
    by (rule kept_outside [OF es(2) T(2) es(3) m sW sW that]) (use l8 in auto)
  have tx: "tiles W xs a d" and ty: "tiles W ys (d + alloc_len ws d) b" using tiles_kept es(2,3) out by blast+
  have mx: "map (?f W) xs = map (?f ws) xs" "map (?f W) ys = map (?f ws) ys" using map_kept out by blast+
  have "name_len 0 \<le> alloc_len ws d" using name_len_eq [of 0] l8 by simp
  then have t: "tiles W es a b" unfolding es(1) dtiles_append using tx ty es(5,7) Wd Wf by (intro exI [of _ d]) auto
  have td: "tidy W es" using T(4) out Wf by (auto simp: tidy_def es(1) same_entry_def)
  have nn: "name \<notin> fst ` set (map (?f ws) xs @ map (?f ws) ys)" using name(2) es(9,10) by (auto simp: es(1))
  have "sector_map W es p = ((sector_map ws es)(name := None)) p" if "p \<noteq> []" for p
    unfolding sector_map_def using map_of_removed(2) [OF that nn] Wd Wf by (simp add: es(1) mx name(1))
  then show ?thesis using t td by blast
qed

lemma tiles_remove_later:
  assumes T: "tiles ws (xs @ l # d # ys) a b" "a mod 4 = 0" "b \<le> 1024" "b \<le> 4 * length ws" "tidy ws (xs @ l # d # ys)"
    and name: "d_path ws d = name" "name \<notin> d_path ws ` (set xs \<union> {l} \<union> set ys)"
  defines "W \<equiv> put_aLen l ((d_aLen ws l AND FIO_S_IFMT) OR ((d_aLen ws l AND 0xFFF) + (d_aLen ws d AND 0xFFF))) ws"
  shows "tiles W (xs @ l # ys) a b \<and> tidy W (xs @ l # ys) \<and>
    (\<forall>p. p \<noteq> [] \<longrightarrow> sector_map W (xs @ l # ys) p = ((sector_map ws (xs @ l # d # ys))(name := None)) p)"
proof -
  let ?f = "\<lambda>w. \<lambda>d. (d_path w d, d_inode w d, d_sub w d)"
  obtain m where t: "tiles ws xs a m" "tiles ws (l # d # ys) m b" using T(1) unfolding dtiles_append by auto
  then have tl: "tiles ws xs a l" "l + alloc_len ws l = d" "tiles ws ys (d + alloc_len ws d) b" "d + alloc_len ws d \<le> b"
    "alloc_len ws l mod 4 = 0" "alloc_len ws d mod 4 = 0" "name_len (unat (d_pLen ws l)) \<le> alloc_len ws l" by auto
  have l4: "l mod 4 = 0" using tiles_end [OF tl(1) T(2)] .
  have m4: "(d + alloc_len ws d) mod 4 = 0" using l4 tl(2,5,6) by (auto simp: dvd_add)
  have l8: "8 \<le> alloc_len ws l" using tl(7) name_len_pos [of "d_pLen ws l"] by linarith
  have fit: "l + 8 \<le> 4 * length ws" using tl(2,4) l8 T(4) by linarith
  note Wf = put_dentry_fields [OF l4 fit, of "d_inode ws l" "d_sub ws l" "d_pLen ws l"
      "(d_aLen ws l AND FIO_S_IFMT) OR ((d_aLen ws l AND 0xFFF) + (d_aLen ws d AND 0xFFF))", folded put_aLen_def, folded W_def]
  have Wl: "alloc_len W l = alloc_len ws l + alloc_len ws d"
    using joined_len [of ws l d "d_aLen ws l"] tl(2,4) T(3) by (simp add: alloc_len_def Wf)
  have sW: "same_bytes ws W i j" if "j \<le> l \<or> l + 8 \<le> i" for i j
    unfolding W_def put_aLen_def using l4 that by (rule same_bytes_dentry)
  have out: "same_entry ws W e" if "e \<in> set xs \<or> e \<in> set ys" for e
    by (rule kept_outside [OF tl(1) T(2) tl(3) m4 sW sW that]) (use l8 tl(2) in auto)
  have tx: "tiles W xs a l" and ty: "tiles W ys (d + alloc_len ws d) b" using tiles_kept tl(1,3) out by blast+
  have mx: "map (?f W) xs = map (?f ws) xs" "map (?f W) ys = map (?f ws) ys" using map_kept out by blast+
  have pl: "d_path W l = d_path ws l" by (rule path_same [OF Wf(3) sW]) simp
  have "tiles W (xs @ l # ys) a b" unfolding dtiles_append
    using tx ty tl Wl Wf(3) tiles_le [OF tl(3)] by (intro exI [of _ l]) (auto simp: dvd_add add.assoc)
  moreover have "tidy W (xs @ l # ys)" using T(5) out Wf by (auto simp: tidy_def same_entry_def)
  moreover have "sector_map W (xs @ l # ys) p = ((sector_map ws (xs @ l # d # ys))(name := None)) p" if "p \<noteq> []" for p
  proof -
    have nn: "name \<notin> fst ` set ((map (?f ws) xs @ [?f ws l]) @ map (?f ws) ys)" using name(2) by auto
    show ?thesis unfolding sector_map_def using map_of_removed(1) [OF that nn, of "(d_inode ws d, d_sub ws d)"] Wf pl by (simp add: mx name(1))
  qed
  ultimately show ?thesis by blast
qed

end
