(* ===== verification/PfsView.thy ===== *)
theory PfsView
  imports PfsCacheInv
begin

text \<open>
  The block cache as a store of blocks. While the device works, \<open>pfs_view\<close> says what a block
  of the partition holds for the code: the data of the entry that caches it, else its sectors.
  A request delivers that block and changes no block; a flush changes no block but for the
  checksums of the inodes it writes.
\<close>

subsection \<open>A device that works\<close>

text \<open>
  \<open>ok\<close> tells the states of the device in which no transfer fails. This is the documented
  behaviour of \<open>ioctl2\<close>'s transfers on the sub-partitions.
\<close>

definition blk_good :: "'d blk_dev \<Rightarrow> ('d \<Rightarrow> image) \<Rightarrow> ('d \<Rightarrow> bool) \<Rightarrow> bool" where
  "blk_good D img ok \<longleftrightarrow> (\<forall>w. ok w \<longrightarrow>
     (\<forall>d l. length (img w d l) = 128) \<and>
     (\<forall>d l n. \<exists>w'. bd_read D d l n w = (0, sectors (img w) d l (unat n), w') \<and> ok w' \<and> img w' = img w) \<and>
     (\<forall>d l n ws. length ws = 128 * unat n \<longrightarrow>
        (\<exists>w'. bd_write D d l n ws w = (0, w') \<and> ok w' \<and> img w' = put_sectors d l (unat n) ws (img w))) \<and>
     (\<exists>r w'. bd_flush D w = (r, w') \<and> ok w' \<and> img w' = img w))"

lemma blk_goodE:
  assumes "blk_good D img ok" "ok w"
  shows "length (img w d l) = 128"
    and "\<exists>w'. bd_read D d l n w = (0, sectors (img w) d l (unat n), w') \<and> ok w' \<and> img w' = img w"
    and "length ws = 128 * unat n \<Longrightarrow> \<exists>w'. bd_write D d l n ws w = (0, w') \<and> ok w' \<and> img w' = put_sectors d l (unat n) ws (img w)"
    and "ok (snd (bd_flush D w)) \<and> img (snd (bd_flush D w)) = img w"
  using assms unfolding blk_good_def by (blast | fastforce)+

subsection \<open>Blocks\<close>

type_synonym blk = "u32 \<times> u32"

definition pfs_block :: "image \<Rightarrow> blk \<Rightarrow> u32 list" where
  "pfs_block img k = sectors img (fst k) (push_bit pfsBlockSize (snd k)) 2"

definition blk_range :: "blk \<Rightarrow> bool" where
  "blk_range k \<longleftrightarrow> unat (snd k) < 2 ^ 31"

definition off_log :: "pfs_mount \<Rightarrow> nat \<Rightarrow> blk \<Rightarrow> bool" where
  "off_log m n k \<longleftrightarrow> fst k \<noteq> 0 \<or>
     \<not> covers (log_start m) (2 + 2 * n) (push_bit pfsBlockSize (snd k)) \<and> \<not> covers (log_start m) (2 + 2 * n) (push_bit pfsBlockSize (snd k) + 1)"

lemma push_block: "push_bit pfsBlockSize b = (2 :: u32) * b"
  by (simp add: pfsBlockSize_def push_bit_eq_mult)

lemma unat_block: "blk_range k \<Longrightarrow> unat (2 * snd k) = 2 * unat (snd k) \<and> unat (2 * snd k + 1) = 2 * unat (snd k) + 1"
  by (simp add: blk_range_def unat_word_ariths)

lemma length_pfs_block: "(\<And>d l. length (img d l) = 128) \<Longrightarrow> length (pfs_block img k) = 256"
  by (simp add: pfs_block_def length_sectors)

lemma pfs_block_cong: "img (fst k) (2 * snd k) = img' (fst k) (2 * snd k) \<Longrightarrow> img (fst k) (2 * snd k + 1) = img' (fst k) (2 * snd k + 1) \<Longrightarrow>
   pfs_block img k = pfs_block img' k"
  by (simp add: pfs_block_def sectors_2 push_block)

lemma pfs_block_put:
  assumes "blk_range k" "blk_range k'" "length ws = 256"
  shows "pfs_block (put_sectors (fst k) (push_bit pfsBlockSize (snd k)) 2 ws img) k' = (if k' = k then ws else pfs_block img k')"
proof (cases "k' = k")
  case True
  then show ?thesis using sectors_put_sectors_2 [OF assms(3)] by (simp add: pfs_block_def)
next
  case False
  have n: "snd k' \<noteq> snd k \<Longrightarrow> 2 * snd k' \<noteq> 2 * snd k \<and> 2 * snd k' \<noteq> 2 * snd k + 1 \<and> 2 * snd k' + 1 \<noteq> 2 * snd k \<and> 2 * snd k' + 1 \<noteq> 2 * snd k + 1"
    unfolding word_unat_eq_iff unat_block [OF assms(1), THEN conjunct1] unat_block [OF assms(1), THEN conjunct2]
      unat_block [OF assms(2), THEN conjunct1] unat_block [OF assms(2), THEN conjunct2] by presburger
  have "fst k' \<noteq> fst k \<or> snd k' \<noteq> snd k" using False by (metis prod_eqI)
  then have "put_sectors (fst k) (2 * snd k) 2 ws img (fst k') (2 * snd k') = img (fst k') (2 * snd k')"
    "put_sectors (fst k) (2 * snd k) 2 ws img (fst k') (2 * snd k' + 1) = img (fst k') (2 * snd k' + 1)"
    using n by (auto intro!: put_sectors_other simp: covers_2)
  then show ?thesis using False by (simp add: push_block) (rule pfs_block_cong; simp)
qed

lemma pfs_block_log:
  assumes "off_log m n k" "j + i \<le> 2 + 2 * n"
  shows "pfs_block (put_sectors 0 (log_start m + of_nat i) j ws img) k = pfs_block img k"
proof -
  have "covers (log_start m) (2 + 2 * n) l" if "covers (log_start m + of_nat i) j l" for l
  proof -
    obtain x where "x < j" "l = log_start m + of_nat i + of_nat x" using \<open>covers (log_start m + of_nat i) j l\<close> by (auto simp: covers_def)
    then have "i + x < 2 + 2 * n" "l = log_start m + of_nat (i + x)" using assms(2) by simp_all
    then show ?thesis unfolding covers_def by blast
  qed
  then have "\<not> (fst k = 0 \<and> covers (log_start m + of_nat i) j (2 * snd k))" "\<not> (fst k = 0 \<and> covers (log_start m + of_nat i) j (2 * snd k + 1))"
    using assms(1) by (auto simp: off_log_def push_block)
  then show ?thesis by (intro pfs_block_cong) (simp_all add: put_sectors_other)
qed

subsection \<open>The state of a working cache\<close>

definition entry_key :: "pfs_cache \<Rightarrow> blk" where
  "entry_key c = (q_sub c, q_block c)"

definition coherent :: "image \<Rightarrow> pfs_cache \<Rightarrow> bool" where
  "coherent img c \<longleftrightarrow> (q_mounted c \<longrightarrow> \<not> pfs_dirty c \<longrightarrow> q_data c = pfs_block img (entry_key c))"

definition pfs_good :: "'d blk_dev \<Rightarrow> ('d \<Rightarrow> image) \<Rightarrow> ('d \<Rightarrow> bool) \<Rightarrow> ('d, 'z) pfs_state_scheme \<Rightarrow> bool" where
  "pfs_good D img ok s \<longleftrightarrow> blk_good D img ok \<and> pfs_cache_inv s \<and> ok (pworld s) \<and> lastError (pmount s) = 0 \<and>
     pfsCacheNumBuffers s \<le> 127 \<and> pfsJournalBuf s = empty_pfs_journal \<and>
     (\<forall>i \<in> {1..pfsCacheNumBuffers s}. length (q_data (pfsCacheBuf s i)) = 256 \<and> coherent (img (pworld s)) (pfsCacheBuf s i) \<and>
        (q_mounted (pfsCacheBuf s i) \<longrightarrow> blk_range (entry_key (pfsCacheBuf s i)) \<and>
           off_log (pmount s) (pfsCacheNumBuffers s) (entry_key (pfsCacheBuf s i))))"

definition pfs_find :: "blk \<Rightarrow> ('d, 'z) pfs_state_scheme \<Rightarrow> nat option" where
  "pfs_find k s = List.find (\<lambda>i. qkey s i = Some k) (pfs_entries (pfsCacheNumBuffers s))"

definition pfs_view :: "('d \<Rightarrow> image) \<Rightarrow> ('d, 'z) pfs_state_scheme \<Rightarrow> blk \<Rightarrow> u32 list" where
  "pfs_view img s k = (case pfs_find k s of Some i \<Rightarrow> q_data (pfsCacheBuf s i) | None \<Rightarrow> pfs_block (img (pworld s)) k)"

lemma pfs_goodD:
  assumes "pfs_good D img ok s"
  shows "blk_good D img ok" "pfs_cache_inv s" "ok (pworld s)" "lastError (pmount s) = 0" "pfsCacheNumBuffers s \<le> 127"
    "pfsJournalBuf s = empty_pfs_journal" "i \<in> {1..pfsCacheNumBuffers s} \<Longrightarrow> length (q_data (pfsCacheBuf s i)) = 256"
    "i \<in> {1..pfsCacheNumBuffers s} \<Longrightarrow> coherent (img (pworld s)) (pfsCacheBuf s i)"
    "i \<in> {1..pfsCacheNumBuffers s} \<Longrightarrow> q_mounted (pfsCacheBuf s i) \<Longrightarrow> blk_range (entry_key (pfsCacheBuf s i)) \<and>
       off_log (pmount s) (pfsCacheNumBuffers s) (entry_key (pfsCacheBuf s i))"
  using assms unfolding pfs_good_def by blast+

lemma pfs_lookup_find: "pfs_lookup sub block s = pfs_find (ucast sub, block) s"
  unfolding pfs_lookup_def pfs_find_def by (rule find_cong_pred) (auto simp: qkey_def)

lemma pfs_find_Some: "pfs_find k s = Some i \<Longrightarrow> i \<in> {1..pfsCacheNumBuffers s} \<and> qkey s i = Some k"
  unfolding pfs_find_def by (drule find_SomeD) auto

lemma pfs_find_None: "pfs_find k s = None \<Longrightarrow> i \<in> {1..pfsCacheNumBuffers s} \<Longrightarrow> qkey s i \<noteq> Some k"
  unfolding pfs_find_def by (drule find_NoneD [of _ _ i]) auto

lemma pfs_find_eq:
  assumes "pfs_cache_inv s" "i \<in> {1..pfsCacheNumBuffers s}" "qkey s i = Some k"
  shows "pfs_find k s = Some i"
proof (cases "pfs_find k s")
  case None
  then show ?thesis using pfs_find_None assms by blast
next
  case (Some j)
  obtain ys where "pfs_queue s ys" using assms(1) by (auto simp: pfs_cache_inv_def)
  then have u: "\<And>i j. i \<in> {1..pfsCacheNumBuffers s} \<Longrightarrow> j \<in> {1..pfsCacheNumBuffers s} \<Longrightarrow> qkey s i \<noteq> None \<Longrightarrow> qkey s i = qkey s j \<Longrightarrow> i = j"
    unfolding pfs_queue_def slot_queue_def by blast
  have "i = j" by (rule u) (use pfs_find_Some [OF Some] assms in auto)
  then show ?thesis using Some by simp
qed

lemma qkey_entry: "qkey s i = Some k \<longleftrightarrow> q_mounted (pfsCacheBuf s i) \<and> entry_key (pfsCacheBuf s i) = k"
  by (auto simp: qkey_def entry_key_def)

subsection \<open>The phases of a flush\<close>

text \<open>What \<open>pfsJournalWrite\<close> leaves of a dirty entry, and what it logs of it.\<close>

definition sealed_data :: "pfs_cache \<Rightarrow> u32 list" where
  "sealed_data c = (if q_flags c AND (PFS_CACHE_FLAG_SEGD OR PFS_CACHE_FLAG_SEGI) \<noteq> 0
                    then (q_data c)[0 := pfsInodeCheckSum (q_data c)] else q_data c)"

definition logged_cache :: "pfs_cache \<Rightarrow> pfs_cache" where
  "logged_cache c = (if pfs_dirty c then c\<lparr>q_data := sealed_data c\<rparr> else c)"

definition log_rec :: "nat \<Rightarrow> pfs_cache \<Rightarrow> pfs_log" where
  "log_rec i c = \<lparr>lg_sector = push_bit pfsBlockSize (q_block c), lg_sub = ucast (q_sub c), lg_logSector = 2 * of_nat i\<rparr>"

definition clean_cache :: "pfs_cache \<Rightarrow> pfs_cache" where
  "clean_cache c = (if pfs_dirty c then c\<lparr>q_flags := q_flags c AND NOT PFS_CACHE_FLAG_DIRTY\<rparr> else c)"

definition on_set :: "nat set \<Rightarrow> (pfs_cache \<Rightarrow> pfs_cache) \<Rightarrow> (nat \<Rightarrow> pfs_cache) \<Rightarrow> nat \<Rightarrow> pfs_cache" where
  "on_set A f buf = (\<lambda>i. if i \<in> A then f (buf i) else buf i)"

definition dirty_among :: "nat list \<Rightarrow> (nat \<Rightarrow> pfs_cache) \<Rightarrow> nat list" where
  "dirty_among xs buf = filter (\<lambda>i. pfs_dirty (buf i)) xs"

lemma logged_cache_sel [simp]:
  "q_next (logged_cache c) = q_next c" "q_prev (logged_cache c) = q_prev c" "q_nused (logged_cache c) = q_nused c"
  "q_mounted (logged_cache c) = q_mounted c" "q_sub (logged_cache c) = q_sub c" "q_block (logged_cache c) = q_block c"
  "q_flags (logged_cache c) = q_flags c" "pfs_dirty (logged_cache c) = pfs_dirty c" "entry_key (logged_cache c) = entry_key c"
  "length (q_data (logged_cache c)) = length (q_data c)" "log_rec i (logged_cache c) = log_rec i c"
  by (simp_all add: logged_cache_def pfs_dirty_def entry_key_def log_rec_def sealed_data_def)

lemma clean_cache_sel [simp]:
  "q_next (clean_cache c) = q_next c" "q_prev (clean_cache c) = q_prev c" "q_nused (clean_cache c) = q_nused c"
  "q_mounted (clean_cache c) = q_mounted c" "q_sub (clean_cache c) = q_sub c" "q_block (clean_cache c) = q_block c"
  "q_data (clean_cache c) = q_data c" "entry_key (clean_cache c) = entry_key c" "\<not> pfs_dirty (clean_cache c)"
  by (simp_all add: clean_cache_def pfs_dirty_def entry_key_def PFS_CACHE_FLAG_DIRTY_def and.assoc)

lemma log_entry_dirty:
  assumes "pfs_dirty (pfsCacheBuf s i)" "unat (pj_num (pfsJournalBuf s)) < length (pj_log (pfsJournalBuf s))"
  shows "log_entry i s = Some (s\<lparr>pfsCacheBuf := (pfsCacheBuf s)(i := logged_cache (pfsCacheBuf s i)),
     pfsJournalBuf := (pfsJournalBuf s)\<lparr>pj_num := pj_num (pfsJournalBuf s) + 1,
       pj_log := (pj_log (pfsJournalBuf s))[unat (pj_num (pfsJournalBuf s)) := log_rec i (pfsCacheBuf s i)]\<rparr>\<rparr>)"
  using assms by (simp add: log_entry_def Let_def logged_cache_def sealed_data_def log_rec_def set_data_def upd_cache_def)

lemma log_phase:
  assumes "distinct xs" "unat (pj_num (pfsJournalBuf s)) = n" "length (pj_log (pfsJournalBuf s)) = 127"
    and "n + length (dirty_among xs (pfsCacheBuf s)) \<le> 127"
  defines "ds \<equiv> dirty_among xs (pfsCacheBuf s)"
  shows "ofold log_entry xs s = Some (s\<lparr>pfsCacheBuf := on_set (set xs) logged_cache (pfsCacheBuf s),
     pfsJournalBuf := (pfsJournalBuf s)\<lparr>pj_num := pj_num (pfsJournalBuf s) + of_nat (length ds),
       pj_log := take n (pj_log (pfsJournalBuf s)) @ map (\<lambda>i. log_rec i (pfsCacheBuf s i)) ds @
                 drop (n + length ds) (pj_log (pfsJournalBuf s))\<rparr>\<rparr>)"
  using assms(1-4) unfolding ds_def
proof (induction xs arbitrary: s n)
  case Nil
  then show ?case by (simp add: dirty_among_def on_set_def)
next
  case (Cons i xs)
  show ?case
  proof (cases "pfs_dirty (pfsCacheBuf s i)")
    case False
    then have "dirty_among (i # xs) (pfsCacheBuf s) = dirty_among xs (pfsCacheBuf s)" "logged_cache (pfsCacheBuf s i) = pfsCacheBuf s i"
      by (simp_all add: dirty_among_def logged_cache_def)
    moreover have "on_set (set (i # xs)) logged_cache (pfsCacheBuf s) = on_set (set xs) logged_cache (pfsCacheBuf s)"
      using calculation(2) by (auto simp: on_set_def fun_eq_iff)
    ultimately show ?thesis using Cons.IH [of s n] Cons.prems False by (simp add: log_entry_def Let_def)
  next
    case True
    let ?j = "pfsJournalBuf s"
    let ?s1 = "s\<lparr>pfsCacheBuf := (pfsCacheBuf s)(i := logged_cache (pfsCacheBuf s i)),
      pfsJournalBuf := ?j\<lparr>pj_num := pj_num ?j + 1, pj_log := (pj_log ?j)[n := log_rec i (pfsCacheBuf s i)]\<rparr>\<rparr>"
    have i: "i \<notin> set xs" using Cons.prems(1) by simp
    have ds: "dirty_among (i # xs) (pfsCacheBuf s) = i # dirty_among xs (pfsCacheBuf s)" using True by (simp add: dirty_among_def)
    have ds1: "dirty_among xs (pfsCacheBuf ?s1) = dirty_among xs (pfsCacheBuf s)"
      unfolding dirty_among_def by (rule filter_cong) auto
    have n: "n + 1 + length (dirty_among xs (pfsCacheBuf s)) \<le> 127" using Cons.prems(4) ds by simp
    have "unat (pj_num ?j + 1) = n + 1" using Cons.prems(2) n by (simp add: unat_word_ariths)
    then have u: "unat (pj_num (pfsJournalBuf ?s1)) = n + 1" by simp
    have "n + 1 + length (dirty_among xs (pfsCacheBuf ?s1)) \<le> 127" unfolding ds1 by (rule n)
    note IH = Cons.IH [OF _ u _ this, unfolded ds1]
    have e: "log_entry i s = Some ?s1" using log_entry_dirty [of s i] True Cons.prems(2,3) n by simp
    have buf: "on_set (set xs) logged_cache (pfsCacheBuf ?s1) = on_set (set (i # xs)) logged_cache (pfsCacheBuf s)"
      using i by (auto simp: on_set_def fun_eq_iff)
    have recs: "map (\<lambda>i. log_rec i (pfsCacheBuf ?s1 i)) (dirty_among xs (pfsCacheBuf s)) =
        map (\<lambda>i. log_rec i (pfsCacheBuf s i)) (dirty_among xs (pfsCacheBuf s))" by simp
    have tk: "take (n + 1) ((pj_log ?j)[n := log_rec i (pfsCacheBuf s i)]) = take n (pj_log ?j) @ [log_rec i (pfsCacheBuf s i)]"
      using n Cons.prems(3) by (simp add: take_Suc_conv_app_nth)
    have "ofold log_entry xs ?s1 = Some (?s1\<lparr>pfsCacheBuf := on_set (set (i # xs)) logged_cache (pfsCacheBuf s),
       pfsJournalBuf := (pfsJournalBuf ?s1)\<lparr>pj_num := pj_num ?j + 1 + of_nat (length (dirty_among xs (pfsCacheBuf s))),
         pj_log := (take n (pj_log ?j) @ [log_rec i (pfsCacheBuf s i)]) @ map (\<lambda>i. log_rec i (pfsCacheBuf s i)) (dirty_among xs (pfsCacheBuf s)) @
                   drop (n + 1 + length (dirty_among xs (pfsCacheBuf s))) (pj_log ?j)\<rparr>\<rparr>)"
      unfolding tk [symmetric] buf [symmetric] recs [symmetric] using Cons.prems by (subst IH) simp_all
    then show ?thesis unfolding ofold.simps e Option.bind.bind_lunit ds by simp
  qed
qed

text \<open>The home writes, from the buffers \<open>buf\<close>.\<close>

definition home_image :: "(nat \<Rightarrow> pfs_cache) \<Rightarrow> nat list \<Rightarrow> image \<Rightarrow> image" where
  "home_image buf = fold (\<lambda>i. put_sectors (q_sub (buf i)) (push_bit pfsBlockSize (q_block (buf i))) 2 (q_data (buf i)))"

lemma home_image_simps [simp]:
  "home_image buf [] img = img"
  "home_image buf (i # is) img =
     home_image buf is (put_sectors (q_sub (buf i)) (push_bit pfsBlockSize (q_block (buf i))) 2 (q_data (buf i)) img)"
  by (simp_all add: home_image_def)

lemma home_image_cong: "(\<And>i. i \<in> set is \<Longrightarrow> buf i = buf' i) \<Longrightarrow> home_image buf is img = home_image buf' is img"
  by (induction "is" arbitrary: img) simp_all

lemma pfs_unat_sizes: "unat (push_bit pfsBlockSize (1 :: u32)) = 2" "unat ((2 :: u32) ^ pfsBlockSize) = 2" "unat (2 :: u32) = 2"
  by (simp_all add: pfsBlockSize_def)

lemma home_write:
  assumes "blk_good D img ok" "ok (pworld s)" "lastError (pmount s) = 0" "pfs_dirty (pfsCacheBuf s i)" "length (q_data (pfsCacheBuf s i)) = 256"
  shows "\<exists>w. pfs_write_dirty D i s = s\<lparr>pfsCacheBuf := (pfsCacheBuf s)(i := clean_cache (pfsCacheBuf s i)), pworld := w\<rparr> \<and> ok w \<and>
     img w = put_sectors (q_sub (pfsCacheBuf s i)) (push_bit pfsBlockSize (q_block (pfsCacheBuf s i))) 2 (q_data (pfsCacheBuf s i)) (img (pworld s))"
proof -
  let ?c = "pfsCacheBuf s i"
  have "length (q_data ?c) = 128 * unat (push_bit pfsBlockSize (1 :: u32))" by (simp add: assms(5) pfs_unat_sizes)
  from blk_goodE(3) [OF assms(1,2) this] obtain w where
    w: "bd_write D (q_sub ?c) (push_bit pfsBlockSize (q_block ?c)) (push_bit pfsBlockSize 1) (q_data ?c) (pworld s) = (0, w)" "ok w"
      "img w = put_sectors (q_sub ?c) (push_bit pfsBlockSize (q_block ?c)) 2 (q_data ?c) (img (pworld s))"
    by (auto simp: pfs_unat_sizes)
  then have "pfs_write_dirty D i s = s\<lparr>pfsCacheBuf := (pfsCacheBuf s)(i := clean_cache ?c), pworld := w\<rparr>"
    using assms(3,4) by (simp add: pfs_write_dirty_def pfsCacheTransfer_def pfs_transfer_def Let_def upd_cache_def clean_cache_def)
  then show ?thesis using w(2,3) by blast
qed

lemma home_phase:
  assumes "blk_good D img ok" "ok (pworld s)" "lastError (pmount s) = 0" "distinct xs"
    and "\<And>i. i \<in> set xs \<Longrightarrow> length (q_data (pfsCacheBuf s i)) = 256"
  shows "\<exists>w. fold (pfs_write_dirty D) xs s = s\<lparr>pfsCacheBuf := on_set (set xs) clean_cache (pfsCacheBuf s), pworld := w\<rparr> \<and> ok w \<and>
     img w = home_image (pfsCacheBuf s) (dirty_among xs (pfsCacheBuf s)) (img (pworld s))"
  using assms
proof (induction xs arbitrary: s)
  case Nil
  then show ?case by (auto simp: dirty_among_def on_set_def intro!: exI [of _ "pworld s"])
next
  case (Cons i xs)
  have i: "i \<notin> set xs" using Cons.prems(4) by simp
  show ?case
  proof (cases "pfs_dirty (pfsCacheBuf s i)")
    case False
    have "clean_cache (pfsCacheBuf s i) = pfsCacheBuf s i" using False by (simp add: clean_cache_def)
    then have "on_set (set (i # xs)) clean_cache (pfsCacheBuf s) = on_set (set xs) clean_cache (pfsCacheBuf s)"
      by (auto simp: on_set_def fun_eq_iff)
    moreover have "dirty_among (i # xs) (pfsCacheBuf s) = dirty_among xs (pfsCacheBuf s)" using False by (simp add: dirty_among_def)
    ultimately show ?thesis using Cons.IH [OF Cons.prems(1-3)] Cons.prems(4,5) False by (simp add: pfs_write_dirty_def)
  next
    case True
    obtain w1 where w1: "pfs_write_dirty D i s = s\<lparr>pfsCacheBuf := (pfsCacheBuf s)(i := clean_cache (pfsCacheBuf s i)), pworld := w1\<rparr>" "ok w1"
      "img w1 = put_sectors (q_sub (pfsCacheBuf s i)) (push_bit pfsBlockSize (q_block (pfsCacheBuf s i))) 2 (q_data (pfsCacheBuf s i)) (img (pworld s))"
      using home_write [OF Cons.prems(1-3) True] Cons.prems(5) [of i] by auto
    let ?s1 = "s\<lparr>pfsCacheBuf := (pfsCacheBuf s)(i := clean_cache (pfsCacheBuf s i)), pworld := w1\<rparr>"
    have d1: "dirty_among xs (pfsCacheBuf ?s1) = dirty_among xs (pfsCacheBuf s)"
      unfolding dirty_among_def by (rule filter_cong) (use i in auto)
    have h1: "home_image (pfsCacheBuf ?s1) (dirty_among xs (pfsCacheBuf s)) (img w1) = home_image (pfsCacheBuf s) (dirty_among xs (pfsCacheBuf s)) (img w1)"
      by (rule home_image_cong) (use i in \<open>auto simp: dirty_among_def\<close>)
    have b1: "on_set (set xs) clean_cache (pfsCacheBuf ?s1) = on_set (set (i # xs)) clean_cache (pfsCacheBuf s)"
      using i by (auto simp: on_set_def fun_eq_iff)
    have "\<exists>w. fold (pfs_write_dirty D) xs ?s1 = ?s1\<lparr>pfsCacheBuf := on_set (set xs) clean_cache (pfsCacheBuf ?s1), pworld := w\<rparr> \<and> ok w \<and>
       img w = home_image (pfsCacheBuf ?s1) (dirty_among xs (pfsCacheBuf ?s1)) (img (pworld ?s1))"
      by (rule Cons.IH [OF Cons.prems(1)]) (use w1(2) Cons.prems(3,4,5) i in auto)
    then obtain w where w: "fold (pfs_write_dirty D) xs ?s1 = ?s1\<lparr>pfsCacheBuf := on_set (set xs) clean_cache (pfsCacheBuf ?s1), pworld := w\<rparr>"
      "ok w" "img w = home_image (pfsCacheBuf ?s1) (dirty_among xs (pfsCacheBuf ?s1)) (img (pworld ?s1))" by blast
    have "dirty_among (i # xs) (pfsCacheBuf s) = i # dirty_among xs (pfsCacheBuf s)" using True by (simp add: dirty_among_def)
    then have "img w = home_image (pfsCacheBuf s) (dirty_among (i # xs) (pfsCacheBuf s)) (img (pworld s))"
      using w(3) h1 w1(3) unfolding d1 by simp
    moreover have "fold (pfs_write_dirty D) (i # xs) s = s\<lparr>pfsCacheBuf := on_set (set (i # xs)) clean_cache (pfsCacheBuf s), pworld := w\<rparr>"
      using w(1) w1(1) unfolding b1 by simp
    ultimately show ?thesis using w(2) by blast
  qed
qed

text \<open>Reading the blocks back.\<close>

lemma pfs_block_home:
  assumes "length (q_data c) = 256 \<and> blk_range (entry_key c)" "blk_range k"
  shows "pfs_block (put_sectors (q_sub c) (push_bit pfsBlockSize (q_block c)) 2 (q_data c) img) k =
      (if k = entry_key c then q_data c else pfs_block img k)"
  using pfs_block_put [of "entry_key c" k "q_data c" img] assms by (simp add: entry_key_def)

lemma home_read_other:
  assumes "\<And>i. i \<in> set is \<Longrightarrow> length (q_data (buf i)) = 256 \<and> blk_range (entry_key (buf i))" "blk_range k"
    and "k \<notin> (\<lambda>i. entry_key (buf i)) ` set is"
  shows "pfs_block (home_image buf is img) k = pfs_block img k"
  using assms(1,3)
proof (induction "is" arbitrary: img)
  case (Cons j "is")
  have "pfs_block (home_image buf (j # is) img) k =
      pfs_block (put_sectors (q_sub (buf j)) (push_bit pfsBlockSize (q_block (buf j))) 2 (q_data (buf j)) img) k"
    unfolding home_image_simps by (rule Cons.IH) (use Cons.prems in auto)
  then show ?case using pfs_block_home [OF Cons.prems(1) [of j] assms(2), of img] Cons.prems(2) by auto
qed simp

lemma home_read:
  assumes "\<And>i. i \<in> set is \<Longrightarrow> length (q_data (buf i)) = 256 \<and> blk_range (entry_key (buf i))"
    and "inj_on (\<lambda>i. entry_key (buf i)) (set is)" "distinct is" "i \<in> set is"
  shows "pfs_block (home_image buf is img) (entry_key (buf i)) = q_data (buf i)"
  using assms
proof (induction "is" arbitrary: img)
  case (Cons j "is")
  show ?case
  proof (cases "i = j")
    case True
    have "pfs_block (home_image buf (j # is) img) (entry_key (buf i)) =
        pfs_block (put_sectors (q_sub (buf j)) (push_bit pfsBlockSize (q_block (buf j))) 2 (q_data (buf j)) img) (entry_key (buf i))"
      unfolding home_image_simps by (rule home_read_other) (use Cons.prems True in \<open>auto simp: inj_on_def\<close>)
    then show ?thesis using pfs_block_home [OF Cons.prems(1) [of j], of "entry_key (buf i)" img] Cons.prems(1) [of i] Cons.prems(4) True by simp
  next
    case False
    then show ?thesis using Cons.IH Cons.prems by (simp add: inj_on_def)
  qed
qed simp

subsection \<open>The effect of a flush\<close>

lemma length_log_words: "length (log_words ls) = 2 * length ls"
  by (induction ls) (simp_all add: log_words_def)

lemma length_pfs_journal_words: "length (pj_log j) = 127 \<Longrightarrow> length (pfs_journal_words j) = 256"
  by (simp add: pfs_journal_words_def length_log_words)

lemma empty_journal_log [simp]: "length (pj_log empty_pfs_journal) = 127" "pj_num empty_pfs_journal = 0"
  by (simp_all add: empty_pfs_journal_def)

lemma pfs_reset_good:
  assumes "blk_good D img ok" "ok (pworld s)"
  shows "\<exists>w. pfsJournalReset D s = (0, s\<lparr>pfsJournalBuf := empty_pfs_journal, pworld := w\<rparr>) \<and> ok w \<and>
     img w = put_sectors 0 (log_start (pmount s)) 2 (pfs_journal_words empty_pfs_journal) (img (pworld s))"
proof -
  let ?w1 = "snd (bd_flush D (pworld s))"
  have w1: "ok ?w1" "img ?w1 = img (pworld s)" using blk_goodE(4) [OF assms] by simp_all
  have "length (pfs_journal_words empty_pfs_journal) = 128 * unat (2 :: u32)" by (simp add: length_pfs_journal_words)
  from blk_goodE(3) [OF assms(1) w1(1) this] obtain w where
    w: "bd_write D 0 (log_start (pmount s)) 2 (pfs_journal_words empty_pfs_journal) ?w1 = (0, w)" "ok w"
      "img w = put_sectors 0 (log_start (pmount s)) 2 (pfs_journal_words empty_pfs_journal) (img (pworld s))" by (auto simp: w1(2))
  have "ok (snd (bd_flush D w))" "img (snd (bd_flush D w)) = img w" using blk_goodE(4) [OF assms(1) w(2)] by simp_all
  then show ?thesis using w by (auto simp: pfsJournalReset_def Let_def)
qed

lemma length_pfs_entries: "length (pfs_entries n) = n"
  by (simp add: pfs_entries_def)

lemma length_all_data:
  assumes "\<And>i. i \<in> {1..pfsCacheNumBuffers s} \<Longrightarrow> length (q_data (pfsCacheBuf s i)) = 256"
  shows "length (all_data s) = 256 * pfsCacheNumBuffers s"
proof -
  have "length (concat (map (\<lambda>i. q_data (pfsCacheBuf s i)) xs)) = 256 * length xs"
    if "\<And>i. i \<in> set xs \<Longrightarrow> length (q_data (pfsCacheBuf s i)) = 256" for xs using that by (induction xs) simp_all
  from this [of "pfs_entries (pfsCacheNumBuffers s)"] show ?thesis using assms
    by (simp add: all_data_def length_pfs_entries)
qed

text \<open>The journal as \<open>pfsJournalWrite\<close> leaves it in memory, before its checksum is set.\<close>

definition log_journal :: "('d, 'z) pfs_state_scheme \<Rightarrow> pfs_journal" where
  "log_journal s = (let ds = dirty_among (pfs_entries (pfsCacheNumBuffers s)) (pfsCacheBuf s) in
     empty_pfs_journal\<lparr>pj_num := of_nat (length ds),
       pj_log := map (\<lambda>i. log_rec i (pfsCacheBuf s i)) ds @ drop (length ds) (pj_log empty_pfs_journal)\<rparr>)"

definition sum_journal :: "pfs_journal \<Rightarrow> pfs_journal" where
  "sum_journal j = j\<lparr>pj_checksum := ucast (pfsJournalChecksum (pfs_journal_words j))\<rparr>"

lemma dirty_among_length: "length (dirty_among (pfs_entries n) buf) \<le> n"
  unfolding dirty_among_def by (rule le_trans [OF length_filter_le]) (simp add: pfs_entries_def)

lemma length_log_journal: "pfsCacheNumBuffers s \<le> 127 \<Longrightarrow> length (pj_log (log_journal s)) = 127"
  using dirty_among_length [of "pfsCacheNumBuffers s" "pfsCacheBuf s"] by (simp add: log_journal_def Let_def)

lemma log_all:
  assumes "pfsJournalBuf s = empty_pfs_journal" "pfsCacheNumBuffers s \<le> 127"
  shows "ofold log_entry (pfs_entries (pfsCacheNumBuffers s)) s =
     Some (s\<lparr>pfsCacheBuf := on_set {1..pfsCacheNumBuffers s} logged_cache (pfsCacheBuf s), pfsJournalBuf := log_journal s\<rparr>)"
  using log_phase [of "pfs_entries (pfsCacheNumBuffers s)" s 0] assms dirty_among_length [of "pfsCacheNumBuffers s" "pfsCacheBuf s"]
  by (simp add: log_journal_def Let_def)

lemma pfs_journal_write_good:
  assumes good: "blk_good D img ok" "ok (pworld s)" and j: "pfsJournalBuf s = empty_pfs_journal" "pfsCacheNumBuffers s \<le> 127"
    and len: "\<And>i. i \<in> {1..pfsCacheNumBuffers s} \<Longrightarrow> length (q_data (pfsCacheBuf s i)) = 256"
  defines "s1 \<equiv> s\<lparr>pfsCacheBuf := on_set {1..pfsCacheNumBuffers s} logged_cache (pfsCacheBuf s)\<rparr>"
  shows "\<exists>w. pfsJournalWrite D s = Some (s1\<lparr>pfsJournalBuf := sum_journal (log_journal s), pworld := w\<rparr>) \<and> ok w \<and>
     img w = put_sectors 0 (log_start (pmount s)) 2 (pfs_journal_words (sum_journal (log_journal s)))
              (put_sectors 0 (log_start (pmount s) + of_nat 2) (2 * pfsCacheNumBuffers s) (all_data s1) (img (pworld s)))"
proof -
  let ?n = "pfsCacheNumBuffers s"
  let ?s1 = "s1\<lparr>pfsJournalBuf := log_journal s\<rparr>"
  have len1: "length (all_data ?s1) = 256 * ?n"
    using length_all_data [of ?s1] len by (simp add: s1_def on_set_def)
  have u: "unat (of_nat ?n * 2 :: u32) = 2 * ?n" using j(2) by (simp add: unat_word_ariths unat_of_nat)
  have eq: "all_data ?s1 = all_data s1" by (simp add: all_data_def)
  have "length (all_data ?s1) = 128 * unat (of_nat ?n * 2 :: u32)" by (simp add: len1 u)
  from blk_goodE(3) [OF good this] obtain w1 where
    w1: "bd_write D 0 (log_start (pmount s) + 2) (of_nat ?n * 2) (all_data ?s1) (pworld s) = (0, w1)" "ok w1"
      "img w1 = put_sectors 0 (log_start (pmount s) + 2) (2 * ?n) (all_data s1) (img (pworld s))" by (auto simp: u eq)
  let ?w2 = "snd (bd_flush D w1)"
  have w2: "ok ?w2" "img ?w2 = img w1" using blk_goodE(4) [OF good(1) w1(2)] by simp_all
  have "length (pfs_journal_words (sum_journal (log_journal s))) = 128 * unat (2 :: u32)"
    using length_log_journal [OF j(2)] by (simp add: length_pfs_journal_words sum_journal_def)
  from blk_goodE(3) [OF good(1) w2(1) this] obtain w3 where
    w3: "bd_write D 0 (log_start (pmount s)) 2 (pfs_journal_words (sum_journal (log_journal s))) ?w2 = (0, w3)" "ok w3"
      "img w3 = put_sectors 0 (log_start (pmount s)) 2 (pfs_journal_words (sum_journal (log_journal s))) (img w1)"
    by (auto simp: w2(2))
  have "ok (snd (bd_flush D w3))" "img (snd (bd_flush D w3)) = img w3" using blk_goodE(4) [OF good(1) w3(2)] by simp_all
  moreover have "pfsJournalWrite D s = Some (s1\<lparr>pfsJournalBuf := sum_journal (log_journal s), pworld := snd (bd_flush D w3)\<rparr>)"
    using w1(1) w3(1) unfolding pfsJournalWrite_def log_all [OF j] Option.bind.bind_lunit
    by (simp add: s1_def pfsJournalFlush_def sum_journal_def [symmetric] all_data_def Let_def)
  ultimately show ?thesis using w3(3) w1(3) by auto
qed

lemma dirty_all_clean:
  assumes "\<not> list_ex (\<lambda>i. pfs_dirty (buf i)) (pfs_entries n)"
  shows "on_set {1..n} (clean_cache \<circ> logged_cache) buf = buf" "dirty_among (pfs_entries n) buf = []"
proof -
  have *: "\<not> pfs_dirty (buf i)" if "i \<in> {1..n}" for i using assms that by (auto simp: list_ex_iff)
  show "on_set {1..n} (clean_cache \<circ> logged_cache) buf = buf"
    using * by (auto simp: on_set_def clean_cache_def logged_cache_def fun_eq_iff)
  show "dirty_among (pfs_entries n) buf = []" using * by (auto simp: dirty_among_def filter_empty_conv)
qed

lemma flush_run:
  assumes good: "blk_good D img ok" "ok (pworld s)" "lastError (pmount s) = 0"
    and j: "pfsJournalBuf s = empty_pfs_journal" "pfsCacheNumBuffers s \<le> 127"
    and len: "\<And>i. i \<in> {1..pfsCacheNumBuffers s} \<Longrightarrow> length (q_data (pfsCacheBuf s i)) = 256"
  defines "n \<equiv> pfsCacheNumBuffers s" and "ds \<equiv> dirty_among (pfs_entries (pfsCacheNumBuffers s)) (pfsCacheBuf s)"
  shows "\<exists>w. pfsCacheFlushAllDirty D s = Some (s\<lparr>pfsCacheBuf := on_set {1..n} (clean_cache \<circ> logged_cache) (pfsCacheBuf s), pworld := w\<rparr>) \<and> ok w \<and>
     (\<forall>k. off_log (pmount s) n k \<longrightarrow> (\<exists>base. pfs_block base k = pfs_block (img (pworld s)) k \<and>
        pfs_block (img w) k = pfs_block (home_image (on_set {1..n} logged_cache (pfsCacheBuf s)) ds base) k))"
proof (cases "list_ex (\<lambda>i. pfs_dirty (pfsCacheBuf s i)) (pfs_entries (pfsCacheNumBuffers s))")
  case False
  obtain w where w: "pfsJournalReset D s = (0, s\<lparr>pfsJournalBuf := empty_pfs_journal, pworld := w\<rparr>)" "ok w"
    "img w = put_sectors 0 (log_start (pmount s)) 2 (pfs_journal_words empty_pfs_journal) (img (pworld s))"
    using pfs_reset_good [OF good(1,2)] by blast
  have b: "on_set {1..n} (clean_cache \<circ> logged_cache) (pfsCacheBuf s) = pfsCacheBuf s" "ds = []"
    using dirty_all_clean [OF False] by (simp_all add: n_def ds_def)
  have "pfsCacheFlushAllDirty D s = Some (s\<lparr>pfsCacheBuf := on_set {1..n} (clean_cache \<circ> logged_cache) (pfsCacheBuf s), pworld := w\<rparr>)"
    unfolding b(1) using False w(1) j(1) by (cases s) (simp add: pfsCacheFlushAllDirty_def)
  moreover have "pfs_block (img w) k = pfs_block (img (pworld s)) k" if "off_log (pmount s) n k" for k
    using pfs_block_log [of "pmount s" n k 2 0] that by (simp add: w(3))
  ultimately show ?thesis using w(2) b(2) by (auto intro!: exI [of _ w] exI [of _ "img (pworld s)"])
next
  case True
  let ?b1 = "on_set {1..n} logged_cache (pfsCacheBuf s)"
  obtain w1 where w1: "pfsJournalWrite D s = Some (s\<lparr>pfsCacheBuf := ?b1, pfsJournalBuf := sum_journal (log_journal s), pworld := w1\<rparr>)" "ok w1"
    "img w1 = put_sectors 0 (log_start (pmount s)) 2 (pfs_journal_words (sum_journal (log_journal s)))
       (put_sectors 0 (log_start (pmount s) + of_nat 2) (2 * n) (all_data (s\<lparr>pfsCacheBuf := ?b1\<rparr>)) (img (pworld s)))"
    using pfs_journal_write_good [OF good(1,2) j len] by (auto simp: n_def)
  let ?s1 = "s\<lparr>pfsCacheBuf := ?b1, pfsJournalBuf := sum_journal (log_journal s), pworld := w1\<rparr>"
  have "length (q_data (pfsCacheBuf ?s1 i)) = 256" if "i \<in> set (pfs_entries n)" for i
    using that len by (simp add: on_set_def n_def)
  then obtain w2 where w2: "fold (pfs_write_dirty D) (pfs_entries n) ?s1 = ?s1\<lparr>pfsCacheBuf := on_set {1..n} clean_cache ?b1, pworld := w2\<rparr>" "ok w2"
    "img w2 = home_image ?b1 (dirty_among (pfs_entries n) ?b1) (img w1)"
    using home_phase [OF good(1), of ?s1 "pfs_entries n"] w1(2) good(3) by auto
  let ?s2 = "?s1\<lparr>pfsCacheBuf := on_set {1..n} clean_cache ?b1, pworld := w2\<rparr>"
  obtain w where w: "pfsJournalReset D ?s2 = (0, ?s2\<lparr>pfsJournalBuf := empty_pfs_journal, pworld := w\<rparr>)" "ok w"
    "img w = put_sectors 0 (log_start (pmount s)) 2 (pfs_journal_words empty_pfs_journal) (img w2)"
    using pfs_reset_good [OF good(1), of ?s2] w2(2) by auto
  have b: "on_set {1..n} clean_cache ?b1 = on_set {1..n} (clean_cache \<circ> logged_cache) (pfsCacheBuf s)"
    by (simp add: on_set_def fun_eq_iff)
  have d: "dirty_among (pfs_entries n) ?b1 = ds"
    unfolding ds_def dirty_among_def n_def by (rule filter_cong) (simp_all add: on_set_def)
  have "pfsCacheFlushAllDirty D s = Some (snd (pfsJournalReset D (fold (pfs_write_dirty D) (pfs_entries n) ?s1)))"
    using True w1(1) by (simp add: pfsCacheFlushAllDirty_def n_def)
  also have "\<dots> = Some (?s2\<lparr>pfsJournalBuf := empty_pfs_journal, pworld := w\<rparr>)" unfolding w2(1) w(1) by simp
  also have "\<dots> = Some (s\<lparr>pfsCacheBuf := on_set {1..n} (clean_cache \<circ> logged_cache) (pfsCacheBuf s), pworld := w\<rparr>)"
    unfolding b using j(1) by (cases s) simp
  finally have "pfsCacheFlushAllDirty D s = Some (s\<lparr>pfsCacheBuf := on_set {1..n} (clean_cache \<circ> logged_cache) (pfsCacheBuf s), pworld := w\<rparr>)" .
  moreover have "\<exists>base. pfs_block base k = pfs_block (img (pworld s)) k \<and> pfs_block (img w) k = pfs_block (home_image ?b1 ds base) k"
    if "off_log (pmount s) n k" for k
  proof (intro exI conjI)
    show "pfs_block (img w1) k = pfs_block (img (pworld s)) k"
      using pfs_block_log [OF that, of 2 0] pfs_block_log [OF that, of "2 * n" 2] by (simp add: w1(3))
    show "pfs_block (img w) k = pfs_block (home_image ?b1 ds (img w1)) k"
      unfolding w(3) w2(3) d using pfs_block_log [OF that, of 2 0] by simp
  qed
  ultimately show ?thesis using w(2) by blast
qed

text \<open>
  A flush cleans every entry, keeps everything the cache relies on, and changes no block but
  for the checksums it sets in dirty inodes.
\<close>

lemma same_slots_on_set:
  assumes "\<And>c. q_next (f c) = q_next c" "\<And>c. q_prev (f c) = q_prev c" "\<And>c. q_nused (f c) = q_nused c"
    "\<And>c. q_mounted (f c) = q_mounted c" "\<And>c. q_sub (f c) = q_sub c" "\<And>c. q_block (f c) = q_block c"
  shows "same_slots s (s\<lparr>pfsCacheBuf := on_set A f (pfsCacheBuf s), pworld := w\<rparr>)"
  by (simp add: same_slots_def fun_eq_iff qnext_def qprev_def slot_fields on_set_def assms)

lemma pfs_find_slots: "same_slots s t \<Longrightarrow> pfs_find k t = pfs_find k s"
  by (simp add: pfs_find_def same_slots_def)

lemma keys_inj:
  assumes "pfs_cache_inv s" "A \<subseteq> {1..pfsCacheNumBuffers s}" "\<And>i. i \<in> A \<Longrightarrow> q_mounted (pfsCacheBuf s i)"
  shows "inj_on (\<lambda>i. entry_key (pfsCacheBuf s i)) A"
proof (rule inj_onI)
  fix i j assume ij: "i \<in> A" "j \<in> A" "entry_key (pfsCacheBuf s i) = entry_key (pfsCacheBuf s j)"
  then have "qkey s i = Some (entry_key (pfsCacheBuf s i))" "qkey s j = Some (entry_key (pfsCacheBuf s i))"
    using assms(3) by (simp_all add: qkey_entry)
  then have "pfs_find (entry_key (pfsCacheBuf s i)) s = Some i" "pfs_find (entry_key (pfsCacheBuf s i)) s = Some j"
    using ij assms(1,2) by (auto intro!: pfs_find_eq)
  then show "i = j" by simp
qed

definition flushed :: "('d, 'z) pfs_state_scheme \<Rightarrow> ('d, 'z) pfs_state_scheme \<Rightarrow> bool" where
  "flushed s t \<longleftrightarrow> (\<exists>w. t = s\<lparr>pfsCacheBuf := on_set {1..pfsCacheNumBuffers s} (clean_cache \<circ> logged_cache) (pfsCacheBuf s), pworld := w\<rparr>)"

lemma flushed_slots: "flushed s t \<Longrightarrow> same_slots s t"
  unfolding flushed_def by (auto intro: same_slots_on_set)

lemma flush_good:
  assumes good: "pfs_good D img ok s"
  shows "\<exists>t. pfsCacheFlushAllDirty D s = Some t \<and> flushed s t \<and> pfs_good D img ok t \<and>
     (\<forall>k. blk_range k \<longrightarrow> off_log (pmount s) (pfsCacheNumBuffers s) k \<longrightarrow>
        pfs_view img t k = (case pfs_find k s of Some i \<Rightarrow> q_data (logged_cache (pfsCacheBuf s i)) | None \<Rightarrow> pfs_view img s k)) \<and>
     (\<forall>i \<in> {1..pfsCacheNumBuffers s}. q_mounted (pfsCacheBuf s i) \<longrightarrow>
        pfs_block (img (pworld t)) (entry_key (pfsCacheBuf s i)) = q_data (logged_cache (pfsCacheBuf s i)))"
proof -
  note g = pfs_goodD [OF good]
  let ?n = "pfsCacheNumBuffers s" and ?buf = "pfsCacheBuf s"
  let ?ds = "dirty_among (pfs_entries ?n) ?buf"
  let ?b1 = "on_set {1..?n} logged_cache ?buf"
  obtain w where run: "pfsCacheFlushAllDirty D s = Some (s\<lparr>pfsCacheBuf := on_set {1..?n} (clean_cache \<circ> logged_cache) ?buf, pworld := w\<rparr>)"
    and w: "ok w" and img: "\<And>k. off_log (pmount s) ?n k \<Longrightarrow> \<exists>base. pfs_block base k = pfs_block (img (pworld s)) k \<and>
        pfs_block (img w) k = pfs_block (home_image ?b1 ?ds base) k"
    using flush_run [OF g(1,3,4,6,5,7)] by blast
  define t where "t = s\<lparr>pfsCacheBuf := on_set {1..?n} (clean_cache \<circ> logged_cache) ?buf, pworld := w\<rparr>"
  have fl: "flushed s t" by (auto simp: flushed_def t_def)
  have ss: "same_slots s t" by (rule flushed_slots [OF fl])
  have ds: "set ?ds = {i \<in> {1..?n}. pfs_dirty (?buf i)}" by (auto simp: dirty_among_def)
  have mnt: "q_mounted (?buf i)" if "i \<in> set ?ds" for i using that ds by (simp add: pfs_dirty_def)
  have b1: "?b1 i = logged_cache (?buf i)" if "i \<in> {1..?n}" for i using that by (simp add: on_set_def)
  have keyb: "entry_key (?b1 i) = entry_key (?buf i)" for i by (simp add: on_set_def)
  have wf: "length (q_data (?b1 i)) = 256 \<and> blk_range (entry_key (?b1 i))" if "i \<in> set ?ds" for i
    using g(7,9) [of i] mnt [OF that] that ds b1 by (auto simp: keyb)
  have inj: "inj_on (\<lambda>i. entry_key (?b1 i)) (set ?ds)"
    unfolding keyb by (rule keys_inj [OF g(2)]) (use ds mnt in auto)
  have dist: "distinct ?ds" by (simp add: dirty_among_def)
  have dirty_disk: "pfs_block (img w) (entry_key (?buf i)) = q_data (logged_cache (?buf i))" if i: "i \<in> {1..?n}" "pfs_dirty (?buf i)" for i
  proof -
    have d: "i \<in> set ?ds" using i ds by simp
    then have "off_log (pmount s) ?n (entry_key (?buf i))" using g(9) [OF i(1)] mnt by blast
    from img [OF this] home_read [OF wf inj dist d, unfolded keyb b1 [OF i(1)]] show ?thesis by auto
  qed
  have other_disk: "pfs_block (img w) k = pfs_block (img (pworld s)) k"
    if "off_log (pmount s) ?n k" "blk_range k" "\<And>i. i \<in> {1..?n} \<Longrightarrow> pfs_dirty (?buf i) \<Longrightarrow> entry_key (?buf i) \<noteq> k" for k
  proof -
    have "k \<notin> (\<lambda>i. entry_key (?b1 i)) ` set ?ds" unfolding keyb using that(3) ds by auto
    from img [OF that(1)] home_read_other [OF wf that(2) this] show ?thesis by auto
  qed
  have disk: "pfs_block (img w) (entry_key (?buf i)) = q_data (logged_cache (?buf i))" if i: "i \<in> {1..?n}" "q_mounted (?buf i)" for i
  proof (cases "pfs_dirty (?buf i)")
    case True
    then show ?thesis using dirty_disk i by blast
  next
    case False
    have "entry_key (?buf j) \<noteq> entry_key (?buf i)" if "j \<in> {1..?n}" "pfs_dirty (?buf j)" for j
    proof
      assume "entry_key (?buf j) = entry_key (?buf i)"
      then have "pfs_find (entry_key (?buf i)) s = Some j" "pfs_find (entry_key (?buf i)) s = Some i"
        using that i g(2) by (auto intro!: pfs_find_eq simp: qkey_entry pfs_dirty_def)
      then show False using that(2) False by simp
    qed
    then have "pfs_block (img w) (entry_key (?buf i)) = pfs_block (img (pworld s)) (entry_key (?buf i))"
      using other_disk g(9) [OF i] by blast
    then show ?thesis using g(8) [OF i(1)] i(2) False by (simp add: coherent_def logged_cache_def)
  qed
  have "pfs_good D img ok t"
    unfolding pfs_good_def
  proof (intro conjI ballI impI)
    show "pfs_cache_inv t" using g(2) same_slots_queue [OF ss] by (auto simp: pfs_cache_inv_def)
  next
    fix i assume "i \<in> {1..pfsCacheNumBuffers t}"
    then have i: "i \<in> {1..?n}" by (simp add: t_def)
    have ti: "pfsCacheBuf t i = clean_cache (logged_cache (?buf i))" using i by (simp add: t_def on_set_def)
    show "length (q_data (pfsCacheBuf t i)) = 256" using g(7) [OF i] by (simp add: ti)
    show "coherent (img (pworld t)) (pfsCacheBuf t i)" using disk [OF i] by (simp add: coherent_def ti) (simp add: t_def)
    assume "q_mounted (pfsCacheBuf t i)"
    then show "blk_range (entry_key (pfsCacheBuf t i))" "off_log (pmount t) (pfsCacheNumBuffers t) (entry_key (pfsCacheBuf t i))"
      using g(9) [OF i] by (simp_all add: ti) (simp add: t_def)
  qed (use g w in \<open>simp_all add: t_def\<close>)
  moreover have "pfs_view img t k = (case pfs_find k s of Some i \<Rightarrow> q_data (logged_cache (?buf i)) | None \<Rightarrow> pfs_view img s k)"
    if k: "blk_range k" "off_log (pmount s) ?n k" for k
  proof (cases "pfs_find k s")
    case None
    have "entry_key (?buf i) \<noteq> k" if "i \<in> {1..?n}" "pfs_dirty (?buf i)" for i
      using pfs_find_None [OF None that(1)] that(2) by (auto simp: qkey_entry pfs_dirty_def)
    from other_disk [OF k(2,1) this] show ?thesis using None pfs_find_slots [OF ss] by (simp add: pfs_view_def t_def)
  next
    case (Some i)
    then show ?thesis using pfs_find_slots [OF ss, of k] pfs_find_Some [OF Some] by (simp add: pfs_view_def t_def on_set_def)
  qed
  moreover have "\<forall>i \<in> {1..?n}. q_mounted (?buf i) \<longrightarrow> pfs_block (img (pworld t)) (entry_key (?buf i)) = q_data (logged_cache (?buf i))"
    using disk by (simp add: t_def)
  ultimately show ?thesis using run fl unfolding t_def by blast
qed

subsection \<open>One entry changes\<close>

definition payload :: "pfs_cache \<Rightarrow> u16 \<times> bool \<times> u32 \<times> u32 \<times> u32 list" where
  "payload c = (q_flags c, q_mounted c, q_sub c, q_block c, q_data c)"

lemma payload_link [simp]:
  "payload (pfsCacheBuf (pfsCacheLink p c s) i) = payload (pfsCacheBuf s i)"
  "payload (pfsCacheBuf (pfsCacheUnLink c s) i) = payload (pfsCacheBuf s i)"
  by (simp_all add: payload_def)

lemma payload_data: "payload c = payload d \<Longrightarrow> q_data c = q_data d" "q_data (d\<lparr>q_flags := f\<rparr>) = q_data d"
  by (simp_all add: payload_def)

lemma payload_dirty: "payload c = payload d \<Longrightarrow> pfs_dirty c = pfs_dirty d"
  by (simp add: payload_def pfs_dirty_def)

definition entry_ok :: "('d \<Rightarrow> image) \<Rightarrow> ('d, 'z) pfs_state_scheme \<Rightarrow> pfs_cache \<Rightarrow> bool" where
  "entry_ok img s c \<longleftrightarrow> length (q_data c) = 256 \<and> coherent (img (pworld s)) c \<and>
     (q_mounted c \<longrightarrow> blk_range (entry_key c) \<and> off_log (pmount s) (pfsCacheNumBuffers s) (entry_key c))"

lemma entry_ok_payload: "payload c = payload d \<Longrightarrow> entry_ok img s c = entry_ok img s d"
  using payload_dirty [of c d] by (simp add: entry_ok_def payload_def coherent_def entry_key_def)

lemma pfs_good_entry: "pfs_good D img ok s \<Longrightarrow> j \<in> {1..pfsCacheNumBuffers s} \<Longrightarrow> entry_ok img s (pfsCacheBuf s j)"
  using pfs_goodD(7,8,9) [of D img ok s j] by (simp add: entry_ok_def)

lemma pfs_good_change:
  assumes "pfs_good D img ok s" "pfs_cache_inv t" "pmount t = pmount s" "pfsCacheNumBuffers t = pfsCacheNumBuffers s"
    "pfsJournalBuf t = pfsJournalBuf s" "ok (pworld t)" "img (pworld t) = img (pworld s)"
    and other: "\<And>j. j \<noteq> i \<Longrightarrow> payload (pfsCacheBuf t j) = payload (pfsCacheBuf s j)"
    and own: "entry_ok img s (pfsCacheBuf t i)"
  shows "pfs_good D img ok t"
proof -
  have "entry_ok img t (pfsCacheBuf t j)" if "j \<in> {1..pfsCacheNumBuffers t}" for j
  proof -
    have "entry_ok img s (pfsCacheBuf t j)"
      using own entry_ok_payload [OF other, of j img s] pfs_good_entry [OF assms(1)] that assms(4) by (cases "j = i") simp_all
    then show ?thesis using assms(3,4,7) by (simp add: entry_ok_def)
  qed
  then show ?thesis using assms(1-6) unfolding pfs_good_def entry_ok_def by simp
qed

lemma pfs_view_entry:
  assumes "pfs_cache_inv s" "i \<in> {1..pfsCacheNumBuffers s}" "qkey s i = Some k"
  shows "pfs_view img s k = q_data (pfsCacheBuf s i)"
  by (simp add: pfs_view_def pfs_find_eq [OF assms])

lemma pfs_view_uncached: "pfs_find k s = None \<Longrightarrow> pfs_view img s k = pfs_block (img (pworld s)) k"
  by (simp add: pfs_view_def)

lemma pfs_view_other:
  assumes "pfsCacheNumBuffers t = pfsCacheNumBuffers s" "img (pworld t) = img (pworld s)"
    and "\<And>j. j \<noteq> i \<Longrightarrow> payload (pfsCacheBuf t j) = payload (pfsCacheBuf s j)"
    and "qkey s i \<noteq> Some k" "qkey t i \<noteq> Some k"
  shows "pfs_find k t = pfs_find k s" "pfs_view img t k = pfs_view img s k"
proof -
  have "(qkey t j = Some k) = (qkey s j = Some k)" for j
    using assms(3) [of j] assms(4,5) by (cases "j = i") (simp_all add: qkey_def payload_def)
  then show f: "pfs_find k t = pfs_find k s" unfolding pfs_find_def assms(1) by (intro find_cong_pred) simp
  show "pfs_view img t k = pfs_view img s k"
  proof (cases "pfs_find k s")
    case None
    then show ?thesis by (simp add: pfs_view_def f assms(2))
  next
    case (Some j)
    then have "j \<noteq> i" using pfs_find_Some [OF Some] assms(4) by auto
    then show ?thesis using Some assms(3) [of j] by (simp add: pfs_view_def f payload_def)
  qed
qed

text \<open>Blocks that no entry holds as an inode keep their contents over a flush.\<close>

definition plain :: "('d, 'z) pfs_state_scheme \<Rightarrow> blk \<Rightarrow> bool" where
  "plain s k \<longleftrightarrow> blk_range k \<and> off_log (pmount s) (pfsCacheNumBuffers s) k \<and>
     (\<forall>i. pfs_find k s = Some i \<longrightarrow> q_flags (pfsCacheBuf s i) AND (PFS_CACHE_FLAG_SEGD OR PFS_CACHE_FLAG_SEGI) = 0)"

text \<open>
  The blocks of the partition (all but the log's). Whatever they are held as, a flush changes at
  most their first word, which is the checksum of an inode.
\<close>

definition stored :: "('d, 'z) pfs_state_scheme \<Rightarrow> blk \<Rightarrow> bool" where
  "stored s k \<longleftrightarrow> blk_range k \<and> off_log (pmount s) (pfsCacheNumBuffers s) k"

lemma stored_cong: "pmount t = pmount s \<Longrightarrow> pfsCacheNumBuffers t = pfsCacheNumBuffers s \<Longrightarrow> stored t k = stored s k"
  by (simp add: stored_def)

lemma plain_stored: "plain s k \<Longrightarrow> stored s k"
  by (simp add: plain_def stored_def)

definition same_plain :: "('d \<Rightarrow> image) \<Rightarrow> ('d, 'z) pfs_state_scheme \<Rightarrow> ('d, 'z) pfs_state_scheme \<Rightarrow> bool" where
  "same_plain img s t \<longleftrightarrow> (\<forall>k. plain s k \<longrightarrow> plain t k \<and> pfs_view img t k = pfs_view img s k) \<and>
     (\<forall>k. stored s k \<longrightarrow> stored t k \<and> tl (pfs_view img t k) = tl (pfs_view img s k))"

lemma same_plainI:
  assumes "\<And>k. plain s k \<Longrightarrow> plain t k \<and> pfs_view img t k = pfs_view img s k"
    and "pmount t = pmount s" "pfsCacheNumBuffers t = pfsCacheNumBuffers s"
    and "\<And>k. stored s k \<Longrightarrow> tl (pfs_view img t k) = tl (pfs_view img s k)"
  shows "same_plain img s t"
  using assms(1,4) stored_cong [OF assms(2,3)] by (simp add: same_plain_def)

lemma same_plain_refl [simp]: "same_plain img s s"
  by (simp add: same_plain_def)

lemma same_plain_trans: "same_plain img s t \<Longrightarrow> same_plain img t u \<Longrightarrow> same_plain img s u"
  by (simp add: same_plain_def)

lemma type_bits:
  "(f AND NOT PFS_CACHE_FLAG_DIRTY) AND (PFS_CACHE_FLAG_SEGD OR PFS_CACHE_FLAG_SEGI) = f AND (PFS_CACHE_FLAG_SEGD OR PFS_CACHE_FLAG_SEGI)"
  "((f AND PFS_CACHE_FLAG_MASKSTATUS) OR (g AND PFS_CACHE_FLAG_MASKTYPE)) AND (PFS_CACHE_FLAG_SEGD OR PFS_CACHE_FLAG_SEGI) =
     g AND (PFS_CACHE_FLAG_SEGD OR PFS_CACHE_FLAG_SEGI)"
  "((f AND PFS_CACHE_FLAG_MASKSTATUS) OR (g AND PFS_CACHE_FLAG_MASKTYPE)) AND PFS_CACHE_FLAG_DIRTY = f AND PFS_CACHE_FLAG_DIRTY"
  "(g AND PFS_CACHE_FLAG_MASKTYPE) AND (PFS_CACHE_FLAG_SEGD OR PFS_CACHE_FLAG_SEGI) = g AND (PFS_CACHE_FLAG_SEGD OR PFS_CACHE_FLAG_SEGI)"
  "(g AND PFS_CACHE_FLAG_MASKTYPE) AND PFS_CACHE_FLAG_DIRTY = 0"
  by (simp_all add: PFS_CACHE_FLAG_DIRTY_def PFS_CACHE_FLAG_SEGD_def PFS_CACHE_FLAG_SEGI_def PFS_CACHE_FLAG_MASKSTATUS_def
      PFS_CACHE_FLAG_MASKTYPE_def and.assoc bit.conj_disj_distrib2)

lemma flushed_flags: "flushed s t \<Longrightarrow> i \<in> {1..pfsCacheNumBuffers s} \<Longrightarrow>
    q_flags (pfsCacheBuf t i) AND (PFS_CACHE_FLAG_SEGD OR PFS_CACHE_FLAG_SEGI) =
    q_flags (pfsCacheBuf s i) AND (PFS_CACHE_FLAG_SEGD OR PFS_CACHE_FLAG_SEGI)"
  by (auto simp: flushed_def on_set_def clean_cache_def type_bits)

lemma tl_logged [simp]: "tl (q_data (logged_cache c)) = tl (q_data c)"
  by (cases "q_data c") (simp_all add: logged_cache_def sealed_data_def)

lemma flush_plain:
  assumes "pfs_good D img ok s" "pfsCacheFlushAllDirty D s = Some t"
  shows "flushed s t" "pfs_good D img ok t" "same_plain img s t" "pmount t = pmount s" "pfsCacheNumBuffers t = pfsCacheNumBuffers s"
    "pfs_find k s = None \<Longrightarrow> blk_range k \<Longrightarrow> off_log (pmount s) (pfsCacheNumBuffers s) k \<Longrightarrow> pfs_view img t k = pfs_view img s k"
proof -
  have fl: "flushed s t" and good: "pfs_good D img ok t" and
    v: "\<And>k. blk_range k \<Longrightarrow> off_log (pmount s) (pfsCacheNumBuffers s) k \<Longrightarrow>
        pfs_view img t k = (case pfs_find k s of Some i \<Rightarrow> q_data (logged_cache (pfsCacheBuf s i)) | None \<Rightarrow> pfs_view img s k)"
    using flush_good [OF assms(1)] assms(2) by auto
  show "flushed s t" "pfs_good D img ok t" by (rule fl, rule good)
  show m: "pmount t = pmount s" "pfsCacheNumBuffers t = pfsCacheNumBuffers s" using fl by (auto simp: flushed_def)
  show "pfs_find k s = None \<Longrightarrow> blk_range k \<Longrightarrow> off_log (pmount s) (pfsCacheNumBuffers s) k \<Longrightarrow> pfs_view img t k = pfs_view img s k"
    using v by simp
  show "same_plain img s t"
  proof (rule same_plainI [OF conjI])
    fix k assume p: "plain s k"
    have f: "pfs_find k t = pfs_find k s" by (rule pfs_find_slots [OF flushed_slots [OF fl]])
    show "plain t k" using p flushed_flags [OF fl] pfs_find_Some [of k s] by (auto simp: plain_def f m)
    show "pfs_view img t k = pfs_view img s k"
      using v [of k] p by (cases "pfs_find k s") (auto simp: plain_def pfs_view_def logged_cache_def sealed_data_def)
  next
    fix k assume "stored s k"
    then show "tl (pfs_view img t k) = tl (pfs_view img s k)"
      using v [of k] by (cases "pfs_find k s") (simp_all add: stored_def pfs_view_def)
  qed (use m in simp_all)
qed

subsection \<open>The effect of a request and of a release\<close>

text \<open>
  A request that is answered: entry \<open>i\<close> holds the block asked for and gains a user; every other
  entry keeps its users; an entry in use keeps its data but for a checksum; blocks held as plain
  data are what they were.
\<close>

definition keeps_used :: "('d, 'z) pfs_state_scheme \<Rightarrow> ('d, 'z) pfs_state_scheme \<Rightarrow> bool" where
  "keeps_used s t \<longleftrightarrow> (\<forall>j. qused s j \<noteq> 0 \<longrightarrow> tl (q_data (pfsCacheBuf t j)) = tl (q_data (pfsCacheBuf s j)))"

lemma flushed_keeps: "flushed s t \<Longrightarrow> tl (q_data (pfsCacheBuf t j)) = tl (q_data (pfsCacheBuf s j))"
  by (auto simp: flushed_def on_set_def)

definition delivers ::
    "'d blk_dev \<Rightarrow> ('d \<Rightarrow> image) \<Rightarrow> ('d \<Rightarrow> bool) \<Rightarrow> blk \<Rightarrow> u16 \<Rightarrow> ('d, 'z) pfs_state_scheme \<Rightarrow> nat \<Rightarrow> ('d, 'z) pfs_state_scheme \<Rightarrow> bool" where
  "delivers D img ok k flags s i t \<longleftrightarrow>
     pfs_good D img ok t \<and> i \<in> {1..pfsCacheNumBuffers s} \<and> qkey t i = Some k \<and> q_data (pfsCacheBuf t i) = pfs_view img s k \<and>
     pmount t = pmount s \<and> pfsCacheNumBuffers t = pfsCacheNumBuffers s \<and> qused t = (qused s)(i := qused s i + 1) \<and>
     q_flags (pfsCacheBuf t i) AND (PFS_CACHE_FLAG_SEGD OR PFS_CACHE_FLAG_SEGI) = flags AND (PFS_CACHE_FLAG_SEGD OR PFS_CACHE_FLAG_SEGI) \<and>
     (flags AND (PFS_CACHE_FLAG_SEGD OR PFS_CACHE_FLAG_SEGI) = 0 \<longrightarrow> same_plain img s t) \<and> keeps_used s t"

lemma get_hit_good:
  assumes good: "pfs_good D img ok s" and hit: "pfs_lookup sub block s = Some i" and n: "qused s i \<noteq> - 1"
  shows "\<exists>t. pfsCacheGetData D sub block flags s = Some ((Some i, 0), t) \<and> delivers D img ok (ucast sub, block) flags s i t"
proof -
  let ?k = "(ucast sub, block) :: blk"
  let ?g = "\<lambda>c. c\<lparr>q_flags := (q_flags c AND PFS_CACHE_FLAG_MASKSTATUS) OR (flags AND PFS_CACHE_FLAG_MASKTYPE)\<rparr>"
  note g = pfs_goodD [OF good]
  have f: "pfs_find ?k s = Some i" using hit by (simp add: pfs_lookup_find)
  have i: "i \<in> {1..pfsCacheNumBuffers s}" and key: "qkey s i = Some ?k" using pfs_find_Some [OF f] by auto
  obtain ys where q: "pfs_queue s ys" using g(2) by (auto simp: pfs_cache_inv_def)
  define u where "u = (if q_nused (pfsCacheBuf s i) = 0 then pfsCacheUnLink i (upd_cache i ?g s) else upd_cache i ?g s)"
  define t where "t = pfsCacheUsedAdd i u"
  have get: "pfsCacheGetData D sub block flags s = Some ((Some i, 0), t)"
    using hit by (simp add: pfsCacheGetData_def Let_def t_def u_def)
  have inv: "pfs_cache_inv t" using pfs_get_hit [OF q hit _ get] n by (auto simp: pfs_cache_inv_def qused_def)
  have same: "pmount t = pmount s" "pfsCacheNumBuffers t = pfsCacheNumBuffers s" "pfsJournalBuf t = pfsJournalBuf s" "pworld t = pworld s"
    by (simp_all add: t_def u_def pfsCacheUsedAdd_def)
  have other: "payload (pfsCacheBuf t j) = payload (pfsCacheBuf s j)" if "j \<noteq> i" for j
    using that by (simp add: t_def u_def pfsCacheUsedAdd_def)
  have own: "payload (pfsCacheBuf t i) = payload (?g (pfsCacheBuf s i))"
    by (simp add: t_def u_def pfsCacheUsedAdd_def payload_def)
  have d: "pfs_dirty (?g (pfsCacheBuf s i)) = pfs_dirty (pfsCacheBuf s i)" by (simp add: pfs_dirty_def type_bits)
  have "entry_ok img s (?g (pfsCacheBuf s i)) = entry_ok img s (pfsCacheBuf s i)"
    using d by (simp add: entry_ok_def coherent_def entry_key_def)
  then have ok_i: "entry_ok img s (pfsCacheBuf t i)"
    using entry_ok_payload [OF own, of img s] pfs_good_entry [OF good i] by simp
  have good_t: "pfs_good D img ok t"
    by (rule pfs_good_change [OF good inv same(1,2,3) _ _ other ok_i]) (use g(3) same(4) in simp_all)
  have key_t: "qkey t i = Some ?k" using own key by (simp add: qkey_def payload_def split: if_splits)
  have data: "q_data (pfsCacheBuf t i) = pfs_view img s ?k"
    using own pfs_view_entry [OF g(2) i key, of img] by (simp add: payload_def)
  have flags: "q_flags (pfsCacheBuf t i) AND (PFS_CACHE_FLAG_SEGD OR PFS_CACHE_FLAG_SEGI) = flags AND (PFS_CACHE_FLAG_SEGD OR PFS_CACHE_FLAG_SEGI)"
    using own by (simp add: payload_def type_bits)
  have view: "pfs_view img t k = pfs_view img s k" for k
  proof (cases "k = ?k")
    case True
    then show ?thesis using data same(2) pfs_view_entry [OF inv, of i ?k img] i key_t by simp
  next
    case False
    then have ks: "qkey s i \<noteq> Some k" "qkey t i \<noteq> Some k" using key key_t by auto
    show ?thesis by (rule pfs_view_other(2) [OF same(2) _ other ks]) (simp add: same(4))
  qed
  have "same_plain img s t" if "flags AND (PFS_CACHE_FLAG_SEGD OR PFS_CACHE_FLAG_SEGI) = 0"
  proof (rule same_plainI [OF _ same(1,2)])
    fix k assume p: "plain s k"
    show "plain t k \<and> pfs_view img t k = pfs_view img s k"
    proof (cases "k = ?k")
      case True
      have "pfs_find ?k t = Some i" by (rule pfs_find_eq [OF inv]) (use i key_t same(2) in simp_all)
      then show ?thesis using True p flags that data same(1,2) pfs_view_entry [OF inv, of i ?k img] i key_t by (simp add: plain_def)
    next
      case False
      have ks: "qkey s i \<noteq> Some k" "qkey t i \<noteq> Some k" using key key_t False by auto
      note vo = pfs_view_other [OF same(2) _ other ks, of img, unfolded same(4), OF refl]
      have "q_flags (pfsCacheBuf t j) = q_flags (pfsCacheBuf s j)" if "pfs_find k s = Some j" for j
        using other [of j] pfs_find_Some [OF that] ks by (auto simp: payload_def)
      then show ?thesis using p vo same(1,2) by (simp add: plain_def)
    qed
  qed (simp add: view)
  moreover have "qused t = (qused s)(i := qused s i + 1)"
    by (simp add: t_def u_def pfsCacheUsedAdd_def qused_def fun_eq_iff)
  moreover have "payload (pfsCacheBuf t j) = payload (?g (pfsCacheBuf s j)) \<or> payload (pfsCacheBuf t j) = payload (pfsCacheBuf s j)" for j
    using own other by (cases "j = i") auto
  then have "q_data (pfsCacheBuf t j) = q_data (pfsCacheBuf s j)" for j by (metis payload_data)
  then have "keeps_used s t" by (simp add: keeps_used_def)
  ultimately show ?thesis using get good_t i key_t data same flags unfolding delivers_def by blast
qed

lemma load_good:
  assumes "blk_good D img ok" "ok (pworld u)" "lastError (pmount u) = 0" "length (q_data (pfsCacheBuf u i)) = 256"
    and "pfs_block_ok (q_flags (pfsCacheBuf u i)) (pfs_block (img (pworld u)) (entry_key (pfsCacheBuf u i)))"
  shows "\<exists>w. pfsCacheTransfer D i 0 u = (0, u\<lparr>pfsCacheBuf := (pfsCacheBuf u)(i := (pfsCacheBuf u i)\<lparr>
      q_data := pfs_block (img (pworld u)) (entry_key (pfsCacheBuf u i)), q_flags := q_flags (pfsCacheBuf u i) AND NOT PFS_CACHE_FLAG_DIRTY\<rparr>),
      pworld := w\<rparr>) \<and> ok w \<and> img w = img (pworld u)"
proof -
  let ?c = "pfsCacheBuf u i"
  let ?b = "pfs_block (img (pworld u)) (entry_key ?c)"
  obtain w where w: "bd_read D (q_sub ?c) (push_bit pfsBlockSize (q_block ?c)) (push_bit pfsBlockSize 1) (pworld u) = (0, ?b, w)"
    "ok w" "img w = img (pworld u)"
    using blk_goodE(2) [OF assms(1,2), of "q_sub ?c" "push_bit pfsBlockSize (q_block ?c)" "push_bit pfsBlockSize 1"]
    by (auto simp: pfs_unat_sizes pfs_block_def entry_key_def)
  have "length ?b = 256" by (rule length_pfs_block) (rule blk_goodE(1) [OF assms(1,2)])
  then have "overlay ?b (q_data ?c) = ?b" using assms(4) by (simp add: overlay_full)
  then show ?thesis using w assms(3,5)
    by (intro exI [of _ w]) (simp add: pfsCacheTransfer_def pfs_transfer_def Let_def set_data_def upd_cache_def)
qed

lemma get_miss_good:
  assumes good: "pfs_good D img ok s" and miss: "pfs_lookup sub block s = None" and q: "pfs_queue s (i # zs)"
    and k: "blk_range (ucast sub, block)" "off_log (pmount s) (pfsCacheNumBuffers s) (ucast sub, block)"
    and fl: "flags AND PFS_CACHE_FLAG_NOLOAD = 0" and blk: "pfs_block_ok (flags AND PFS_CACHE_FLAG_MASKTYPE) (pfs_view img s (ucast sub, block))"
  shows "\<exists>t. pfsCacheGetData D sub block flags s = Some ((Some i, 0), t) \<and> delivers D img ok (ucast sub, block) flags s i t"
proof -
  let ?k = "(ucast sub, block) :: blk"
  note g = pfs_goodD [OF good]
  have f: "pfs_find ?k s = None" using miss by (simp add: pfs_lookup_find)
  have i: "i \<in> {1..pfsCacheNumBuffers s}" and u0: "q_nused (pfsCacheBuf s i) = 0" using pfs_queue_mem [OF q, of i] by auto
  define s1 where "s1 = (if pfs_dirty (pfsCacheBuf s i) then the (pfsCacheFlushAllDirty D s) else s)"
  have s1: "(if pfs_dirty (pfsCacheBuf s i) then pfsCacheFlushAllDirty D s else Some s) = Some s1"
    using flush_good [OF good] by (auto simp: s1_def)
  have fp: "s1 = s \<and> \<not> pfs_dirty (pfsCacheBuf s i) \<or> pfsCacheFlushAllDirty D s = Some s1"
    using s1 by (auto split: if_splits)
  have good1: "pfs_good D img ok s1" and sp1: "same_plain img s s1" and m1: "pmount s1 = pmount s" "pfsCacheNumBuffers s1 = pfsCacheNumBuffers s"
    and v1: "pfs_view img s1 ?k = pfs_view img s ?k" and ss1: "same_slots s s1"
    using fp flush_plain [OF good, of s1] good f k flushed_slots by auto
  have nd: "\<not> pfs_dirty (pfsCacheBuf s1 i)"
    using fp flush_plain(1) [OF good, of s1] i by (auto simp: flushed_def on_set_def)
  note g1 = pfs_goodD [OF good1]
  have f1: "pfs_find ?k s1 = None" using f pfs_find_slots [OF ss1] by simp
  have disk: "pfs_block (img (pworld s1)) ?k = pfs_view img s ?k" using v1 pfs_view_uncached [OF f1, of img] by simp
  let ?u = "pfs_claim sub block flags i s1"
  have bu: "pfsCacheBuf ?u j = (pfsCacheBuf ?u j)" for j ..
  have pu: "payload (pfsCacheBuf ?u j) = (if j = i then (flags AND PFS_CACHE_FLAG_MASKTYPE, True, ucast sub, block, q_data (pfsCacheBuf s1 i))
      else payload (pfsCacheBuf s1 j))" for j
    by (simp add: pfs_claim_def) (simp add: payload_def)
  have ui: "entry_key (pfsCacheBuf ?u i) = ?k" "q_flags (pfsCacheBuf ?u i) = flags AND PFS_CACHE_FLAG_MASKTYPE"
    "q_data (pfsCacheBuf ?u i) = q_data (pfsCacheBuf s1 i)" "q_mounted (pfsCacheBuf ?u i)"
    using pu [of i] by (simp_all add: payload_def entry_key_def)
  have su: "pmount ?u = pmount s" "pfsCacheNumBuffers ?u = pfsCacheNumBuffers s" "pworld ?u = pworld s1" "pfsJournalBuf ?u = pfsJournalBuf s1"
    using m1 by (simp_all add: pfs_claim_def)
  let ?c = "(pfsCacheBuf ?u i)\<lparr>q_data := pfs_view img s ?k, q_flags := (flags AND PFS_CACHE_FLAG_MASKTYPE) AND NOT PFS_CACHE_FLAG_DIRTY\<rparr>"
  obtain w where tr: "pfsCacheTransfer D i 0 ?u = (0, ?u\<lparr>pfsCacheBuf := (pfsCacheBuf ?u)(i := ?c), pworld := w\<rparr>)" and w: "ok w" "img w = img (pworld s1)"
    using load_good [of D img ok ?u i] g1(1,3,4) g1(7) [of i] i m1 blk by (auto simp: su ui disk)
  define t where "t = ?u\<lparr>pfsCacheBuf := (pfsCacheBuf ?u)(i := ?c), pworld := w\<rparr>"
  have get: "pfsCacheGetData D sub block flags s = Some ((Some i, 0), t)"
    using miss fl by (simp add: pfsCacheGetData_def pfs_alloc_first [OF q] s1 pfs_claim_def [symmetric] tr t_def)
  have inv: "pfs_cache_inv t" using pfs_get_miss [OF q miss get] by blast
  have same: "pmount t = pmount s1" "pfsCacheNumBuffers t = pfsCacheNumBuffers s1" "pfsJournalBuf t = pfsJournalBuf s1" "img (pworld t) = img (pworld s1)"
    using su m1 w by (simp_all add: t_def)
  have other: "payload (pfsCacheBuf t j) = payload (pfsCacheBuf s1 j)" if "j \<noteq> i" for j
    using that pu [of j] by (simp add: t_def)
  have len: "length (pfs_view img s ?k) = 256"
    using length_pfs_block [of "img (pworld s1)"] blk_goodE(1) [OF g1(1,3)] disk by metis
  have ti: "q_data (pfsCacheBuf t i) = pfs_view img s ?k" "entry_key (pfsCacheBuf t i) = ?k" "q_mounted (pfsCacheBuf t i)"
    "\<not> pfs_dirty (pfsCacheBuf t i)"
    using ui by (simp_all add: t_def entry_key_def pfs_dirty_def and.assoc PFS_CACHE_FLAG_DIRTY_def)
  have own: "entry_ok img s1 (pfsCacheBuf t i)" using ti len k disk m1 by (simp add: entry_ok_def coherent_def)
  have good_t: "pfs_good D img ok t"
    by (rule pfs_good_change [OF good1 inv same(1,2,3) _ same(4) other own]) (simp add: t_def w)
  have key_t: "qkey t i = Some ?k" using ti by (simp add: qkey_entry)
  have flags: "q_flags (pfsCacheBuf t i) AND (PFS_CACHE_FLAG_SEGD OR PFS_CACHE_FLAG_SEGI) = flags AND (PFS_CACHE_FLAG_SEGD OR PFS_CACHE_FLAG_SEGI)"
    by (simp add: t_def type_bits)
  have find_t: "pfs_find ?k t = Some i" by (rule pfs_find_eq [OF inv]) (use i key_t same(2) m1 in simp_all)
  have evicted: "pfs_find k' t = None" "q_data (pfsCacheBuf s1 i) = pfs_block (img (pworld s1)) k'" "pfs_find k' s1 = Some i"
    if "k' \<noteq> ?k" "qkey s1 i = Some k'" for k'
  proof -
    have i1: "i \<in> {1..pfsCacheNumBuffers s1}" using i m1 by simp
    show fi: "pfs_find k' s1 = Some i" by (rule pfs_find_eq [OF g1(2) i1 that(2)])
    show "pfs_find k' t = None"
    proof (cases "pfs_find k' t")
      case (Some j)
      have "j \<noteq> i" using pfs_find_Some [OF Some] key_t that by auto
      then have "qkey s1 j = Some k'" "j \<in> {1..pfsCacheNumBuffers s1}"
        using pfs_find_Some [OF Some] other [of j] same(2) by (simp_all add: qkey_def payload_def split: if_splits)
      then have "pfs_find k' s1 = Some j" using pfs_find_eq [OF g1(2)] by blast
      then show ?thesis using fi \<open>j \<noteq> i\<close> by simp
    qed simp
    show "q_data (pfsCacheBuf s1 i) = pfs_block (img (pworld s1)) k'"
      using g1(8) [OF i1] that(2) nd by (simp add: coherent_def qkey_entry)
  qed
  have view: "pfs_view img t k' = pfs_view img s1 k'" for k'
  proof -
    consider "k' = ?k" | "k' \<noteq> ?k" "qkey s1 i = Some k'" | "k' \<noteq> ?k" "qkey s1 i \<noteq> Some k'" by blast
    then show ?thesis
    proof cases
      case 1
      then show ?thesis using find_t ti(1) v1 by (simp add: pfs_view_def)
    next
      case 2
      then show ?thesis using evicted [OF 2] same(4) by (simp add: pfs_view_def)
    next
      case 3
      have "qkey t i \<noteq> Some k'" using key_t 3 by auto
      from pfs_view_other(2) [OF same(2,4) other 3(2) this] show ?thesis by simp
    qed
  qed
  have "same_plain img s1 t" if "flags AND (PFS_CACHE_FLAG_SEGD OR PFS_CACHE_FLAG_SEGI) = 0"
  proof (rule same_plainI [OF _ same(1,2)])
    fix k' assume p: "plain s1 k'"
    consider "k' = ?k" | "k' \<noteq> ?k" "qkey s1 i = Some k'" | "k' \<noteq> ?k" "qkey s1 i \<noteq> Some k'" by blast
    then have "plain t k'"
    proof cases
      case 1
      then show ?thesis using p find_t flags that same(1,2) by (simp add: plain_def)
    next
      case 2
      then show ?thesis using p same evicted [OF 2] by (simp add: plain_def)
    next
      case 3
      have ks: "qkey t i \<noteq> Some k'" using key_t 3 by auto
      note vo = pfs_view_other(1) [OF same(2,4) other 3(2) ks]
      have "q_flags (pfsCacheBuf t j) = q_flags (pfsCacheBuf s1 j)" if "pfs_find k' s1 = Some j" for j
        using other [of j] pfs_find_Some [OF that] 3 by (auto simp: payload_def)
      then show ?thesis using p vo same(1,2) by (simp add: plain_def)
    qed
    then show "plain t k' \<and> pfs_view img t k' = pfs_view img s1 k'" by (simp add: view)
  qed (simp add: view)
  moreover have "qused t = (qused s)(i := qused s i + 1)"
    using ss1 u0 by (simp add: t_def pfs_claim_def qused_def fun_eq_iff same_slots_def)
  moreover have "keeps_used s t" unfolding keeps_used_def
  proof (intro allI impI)
    fix j assume "qused s j \<noteq> 0"
    then have "q_data (pfsCacheBuf t j) = q_data (pfsCacheBuf s1 j)" using u0 other [of j] by (auto simp: qused_def payload_def)
    then show "tl (q_data (pfsCacheBuf t j)) = tl (q_data (pfsCacheBuf s j))"
      using fp flush_plain(1) [OF good, of s1] flushed_keeps by auto
  qed
  ultimately show ?thesis using get good_t i key_t ti(1) same m1 flags same_plain_trans [OF sp1] unfolding delivers_def by auto
qed

text \<open>A release changes no payload; a store into an entry changes its block alone.\<close>

definition keeps :: "('d \<Rightarrow> image) \<Rightarrow> ('d, 'z) pfs_state_scheme \<Rightarrow> ('d, 'z) pfs_state_scheme \<Rightarrow> bool" where
  "keeps img s t \<longleftrightarrow> pmount t = pmount s \<and> pfsCacheNumBuffers t = pfsCacheNumBuffers s \<and> same_plain img s t"

lemma keeps_trans: "keeps img s t \<Longrightarrow> keeps img t u \<Longrightarrow> keeps img s u"
  by (auto simp: keeps_def intro: same_plain_trans)

lemma free_good:
  assumes good: "pfs_good D img ok s" and i: "i \<in> {1..pfsCacheNumBuffers s}" and n: "qused s i \<noteq> 0"
  defines "t \<equiv> pfsCacheFree (Some i) s"
  shows "pfs_good D img ok t" "keeps img s t" "qused t = (qused s)(i := qused s i - 1)" "payload (pfsCacheBuf t j) = payload (pfsCacheBuf s j)"
    "qkey t = qkey s"
proof -
  obtain ys where q: "pfs_queue s ys" using pfs_goodD(2) [OF good] by (auto simp: pfs_cache_inv_def)
  have inv: "pfs_cache_inv t" unfolding t_def by (rule pfs_free_keeps [OF q]) (use i in blast)
  have pay: "payload (pfsCacheBuf t j) = payload (pfsCacheBuf s j)" for j
    using n by (simp add: t_def pfsCacheFree_def Let_def qused_def) (simp add: payload_def)
  show "payload (pfsCacheBuf t j) = payload (pfsCacheBuf s j)" by (rule pay)
  have same: "pmount t = pmount s" "pfsCacheNumBuffers t = pfsCacheNumBuffers s" "pfsJournalBuf t = pfsJournalBuf s" "pworld t = pworld s"
    using n by (simp_all add: t_def pfsCacheFree_def Let_def qused_def)
  show key: "qkey t = qkey s" using pay by (auto simp: fun_eq_iff qkey_def payload_def)
  show "qused t = (qused s)(i := qused s i - 1)"
    using n by (simp add: t_def pfsCacheFree_def Let_def qused_def fun_eq_iff)
  have own: "entry_ok img s (pfsCacheBuf t i)" using entry_ok_payload [OF pay, of img s] pfs_good_entry [OF good i] by simp
  show "pfs_good D img ok t"
    by (rule pfs_good_change [OF good inv same(1,2,3) _ _ pay own]) (use pfs_goodD(3) [OF good] same(4) in simp_all)
  have "pfs_find k t = pfs_find k s" for k by (simp add: pfs_find_def same key)
  then show "keeps img s t" using pay same
    by (auto simp: keeps_def same_plain_def plain_def stored_def pfs_view_def payload_def split: option.splits)
qed

lemma edit_good:
  assumes good: "pfs_good D img ok s" and i: "i \<in> {1..pfsCacheNumBuffers s}" "qkey s i = Some k" and ws: "length ws = 256"
  defines "t \<equiv> pfs_mark_dirty i (set_data i (\<lambda>_. ws) s)"
  shows "pfs_good D img ok t" "pmount t = pmount s" "pfsCacheNumBuffers t = pfsCacheNumBuffers s" "qused t = qused s" "qkey t = qkey s"
    "plain t = plain s" "pfs_view img t k = ws" "k' \<noteq> k \<Longrightarrow> pfs_view img t k' = pfs_view img s k'"
proof -
  have ss: "same_slots s t" unfolding t_def by (rule pfs_store_slots)
  have inv: "pfs_cache_inv t" using same_slots_queue [OF ss] pfs_goodD(2) [OF good] by (auto simp: pfs_cache_inv_def)
  show same: "pmount t = pmount s" "pfsCacheNumBuffers t = pfsCacheNumBuffers s"
    by (simp_all add: t_def pfs_mark_dirty_def)
  have same': "pfsJournalBuf t = pfsJournalBuf s" "pworld t = pworld s" by (simp_all add: t_def pfs_mark_dirty_def)
  show slots: "qused t = qused s" "qkey t = qkey s" using ss by (simp_all add: same_slots_def)
  have other: "payload (pfsCacheBuf t j) = payload (pfsCacheBuf s j)" if "j \<noteq> i" for j
    using that by (simp add: t_def pfs_mark_dirty_def)
  have ti: "q_data (pfsCacheBuf t i) = ws" "entry_key (pfsCacheBuf t i) = entry_key (pfsCacheBuf s i)"
    "q_mounted (pfsCacheBuf t i) = q_mounted (pfsCacheBuf s i)" "pfs_dirty (pfsCacheBuf t i)"
    using i by (simp_all add: t_def pfs_mark_dirty_def entry_key_def pfs_dirty_def PFS_CACHE_FLAG_DIRTY_def qkey_entry bit.conj_disj_distrib2)
  have own: "entry_ok img s (pfsCacheBuf t i)"
    using pfs_good_entry [OF good i(1)] ti ws by (simp add: entry_ok_def coherent_def)
  show good_t: "pfs_good D img ok t"
    by (rule pfs_good_change [OF good inv same same'(1) _ _ other own]) (use pfs_goodD(3) [OF good] same' in simp_all)
  have f: "pfs_find k t = pfs_find k s" for k by (rule pfs_find_slots [OF ss])
  show "plain t = plain s"
  proof
    fix k
    have "q_flags (pfsCacheBuf t j) AND (PFS_CACHE_FLAG_SEGD OR PFS_CACHE_FLAG_SEGI) = q_flags (pfsCacheBuf s j) AND (PFS_CACHE_FLAG_SEGD OR PFS_CACHE_FLAG_SEGI)" for j
      by (simp add: t_def pfs_mark_dirty_def bit.conj_disj_distrib2) (simp add: PFS_CACHE_FLAG_DIRTY_def PFS_CACHE_FLAG_SEGD_def PFS_CACHE_FLAG_SEGI_def)
    then show "plain t k = plain s k" by (simp add: plain_def same f)
  qed
  show "pfs_view img t k = ws" using pfs_view_entry [OF inv, of i k img] i slots same ti by simp
  show "k' \<noteq> k \<Longrightarrow> pfs_view img t k' = pfs_view img s k'"
    by (rule pfs_view_other(2) [OF same(2) _ other]) (use same' i slots in auto)
qed

lemma get_good:
  assumes good: "pfs_good D img ok s" and n: "\<forall>i. qused s i \<noteq> - 1"
    and k: "blk_range (ucast sub, block)" "off_log (pmount s) (pfsCacheNumBuffers s) (ucast sub, block)"
    and fl: "flags AND PFS_CACHE_FLAG_NOLOAD = 0" and blk: "pfs_block_ok (flags AND PFS_CACHE_FLAG_MASKTYPE) (pfs_view img s (ucast sub, block))"
  shows "pfsCacheGetData D sub block flags s = Some ((None, - ENOMEM), s) \<and> (\<forall>i \<in> {1..pfsCacheNumBuffers s}. qused s i \<noteq> 0) \<or>
     (\<exists>i t. pfsCacheGetData D sub block flags s = Some ((Some i, 0), t) \<and> delivers D img ok (ucast sub, block) flags s i t)"
proof (cases "pfs_lookup sub block s")
  case (Some i)
  then show ?thesis using get_hit_good [OF good Some] n by blast
next
  case None
  obtain ys where q: "pfs_queue s ys" using pfs_goodD(2) [OF good] by (auto simp: pfs_cache_inv_def)
  show ?thesis
  proof (cases ys)
    case Nil
    then have "q_prev (pfsCacheBuf s 0) = 0 \<and> q_next (pfsCacheBuf s (q_prev (pfsCacheBuf s 0))) = q_prev (pfsCacheBuf s 0)"
      using pfs_queue_empty [OF q] by blast
    then have "pfsCacheAlloc D True sub block flags 0 s = Some ((None, - ENOMEM), s)"
      unfolding pfsCacheAlloc_def by (rule if_P)
    moreover have "\<forall>i \<in> {1..pfsCacheNumBuffers s}. qused s i \<noteq> 0"
      using Nil pfs_queue_mem [OF q] by (auto simp: qused_def)
    ultimately show ?thesis using None by (simp add: pfsCacheGetData_def)
  next
    case (Cons i zs)
    then show ?thesis using get_miss_good [OF good None q [unfolded Cons] k fl blk] by blast
  qed
qed

end
