(* ===== verification/PfsZones.thy ===== *)
theory PfsZones
  imports PfsBitmap PfsView
begin

text \<open>
  The allocator of zones does what it promises. The zones of a sub-partition are the bits of
  its bitmap blocks, as the cache shows them (\<open>pfs_view\<close>): the routines of \<open>bitmap.c\<close> set and
  clear exactly the bits of the run they are given, also across chunks, and a search hands out
  zones that were free.
\<close>

subsection \<open>Bits of a chunk\<close>

definition zbit :: "u32 list \<Rightarrow> nat \<Rightarrow> bool" where
  "zbit ws p \<longleftrightarrow> bit (ws ! (p div 32)) (p mod 32)"

lemma zbit_update:
  assumes "p < 8192" "k < 256" "b < 32" "length ws = 256" "\<And>j. j < 32 \<Longrightarrow> bit w j = (if j = b then v else bit (ws ! k) j)"
  shows "zbit (ws[k := w]) p = (if p = 32 * k + b then v else zbit ws p)"
proof (cases "p div 32 = k")
  case True
  have "p = 32 * k + b \<longleftrightarrow> p mod 32 = b" using True assms(3) by (metis add.commute div_mult_mod_eq mod_less mod_mult_self2 mult.commute)
  then show ?thesis using True assms by (simp add: zbit_def)
next
  case False
  then have "p \<noteq> 32 * k + b" using assms(3) by auto
  then show ?thesis using False by (simp add: zbit_def)
qed

lemma bit_put_bit: "j < 32 \<Longrightarrow> b < 32 \<Longrightarrow> bit (put_bit operation b w) j = (if j = b then operation = PFS_BITMAP_ALLOC else bit w j)"
  by (auto simp: put_bit_def bit_or_iff bit_and_iff bit_not_iff bit_exp_iff)

text \<open>\<open>pfsBitmapAllocFree\<close> changes the bits from its start on, up to the count or the end of the chunk.\<close>

lemma bitmap_bits_effect:
  assumes "bitmap_bits operation k b count ws = (left, ws')" "length ws = 256" "b \<le> 32" "k \<le> 256" "32 * k + b \<le> 8192"
  shows "length ws' = 256 \<and> unat left = unat count - min (unat count) (8192 - (32 * k + b)) \<and>
     (\<forall>p < 8192. zbit ws' p = (if 32 * k + b \<le> p \<and> p < 32 * k + b + min (unat count) (8192 - (32 * k + b))
                              then operation = PFS_BITMAP_ALLOC else zbit ws p))"
  using assms
proof (induction operation k b count ws arbitrary: left ws' rule: bitmap_bits.induct)
  case (1 operation k b count ws)
  note eq = "1.prems"(1) [unfolded bitmap_bits.simps [of operation k b count ws]]
  consider "256 \<le> k \<or> count = 0" | "k < 256" "count \<noteq> 0" "32 \<le> b" | "k < 256" "count \<noteq> 0" "b < 32" by linarith
  then show ?case
  proof cases
    case 1
    then have "left = count" "ws' = ws" "count = 0 \<or> 32 * k + b = 8192" using eq "1.prems" by auto
    then show ?thesis using "1.prems" by auto
  next
    case 2
    have b: "b = 32" using 2 "1.prems" by simp
    have "bitmap_bits operation (k + 1) 0 count ws = (left, ws')" using eq 2 by simp
    from "1.IH"(1) [OF _ _ this] 2 "1.prems" show ?thesis by (simp add: b algebra_simps)
  next
    case 3
    let ?ws = "ws[k := put_bit operation b (ws ! k)]"
    have step: "bitmap_bits operation k (b + 1) (count - 1) ?ws = (left, ws')" using eq 3 by simp
    have c: "unat (count - 1) = unat count - 1" "0 < unat count" using 3 by (simp_all add: unat_sub word_le_nat_alt unat_gt_0 Suc_le_eq)
    let ?a = "32 * k + b" and ?m = "min (unat (count - 1)) (8192 - (32 * k + (b + 1)))"
    have m: "min (unat count) (8192 - ?a) = ?m + 1" using c 3 "1.prems"(5) by auto
    have IH: "length ws' = 256 \<and> unat left = unat (count - 1) - ?m \<and>
       (\<forall>p < 8192. zbit ws' p = (if 32 * k + (b + 1) \<le> p \<and> p < 32 * k + (b + 1) + ?m then operation = PFS_BITMAP_ALLOC else zbit ?ws p))"
      by (rule "1.IH"(2) [OF _ _ step]) (use 3 "1.prems" in auto)
    have z: "zbit ?ws p = (if p = ?a then operation = PFS_BITMAP_ALLOC else zbit ws p)" if "p < 8192" for p
      by (rule zbit_update) (use that 3 "1.prems" in \<open>simp_all add: bit_put_bit\<close>)
    have "\<forall>p < 8192. zbit ws' p = (if ?a \<le> p \<and> p < ?a + (?m + 1) then operation = PFS_BITMAP_ALLOC else zbit ws p)"
      using IH z by auto
    then show ?thesis using IH c unfolding m by auto
  qed
qed

subsection \<open>Zones of a sub-partition\<close>

definition chunk_blk :: "pfs_mount \<Rightarrow> u16 \<Rightarrow> nat \<Rightarrow> blk" where
  "chunk_blk m sub c = (ucast sub, bitmap_sector m (ucast sub) (of_nat c))"

definition zone_used :: "(blk \<Rightarrow> u32 list) \<Rightarrow> pfs_mount \<Rightarrow> u16 \<Rightarrow> nat \<Rightarrow> bool" where
  "zone_used v m sub z = zbit (v (chunk_blk m sub (z div 8192))) (z mod 8192)"

text \<open>The first \<open>n\<close> chunks of the bitmap of a sub-partition are blocks nobody holds as an inode.\<close>

definition bitmap_plain :: "('d, 'z) pfs_state_scheme \<Rightarrow> u16 \<Rightarrow> nat \<Rightarrow> bool" where
  "bitmap_plain s sub n \<longleftrightarrow> n \<le> 2 ^ 19 \<and> (\<forall>c < n. plain s (chunk_blk (pmount s) sub c))"

lemma bitmap_plainD: "bitmap_plain s sub n \<Longrightarrow> c < n \<Longrightarrow> plain s (chunk_blk (pmount s) sub c)"
  by (simp add: bitmap_plain_def)

lemma ucast_sub [simp]: "(ucast (ucast (sub :: u16) :: u32) :: u16) = sub"
  by (rule bit_word_eqI) (simp add: bit_simps)

lemma chunk_blk_inj: "c < 2 ^ 19 \<Longrightarrow> d < 2 ^ 19 \<Longrightarrow> chunk_blk m sub c = chunk_blk m sub' d \<longleftrightarrow> sub = sub' \<and> c = d"
proof
  assume *: "c < 2 ^ 19" "d < 2 ^ 19" "chunk_blk m sub c = chunk_blk m sub' d"
  then have s: "(ucast sub :: u32) = ucast sub'" by (simp add: chunk_blk_def)
  then have sub: "sub = sub'" by (metis ucast_sub)
  then have "(of_nat c :: u32) = of_nat d" using *(3) by (simp add: chunk_blk_def bitmap_sector_def)
  moreover have "unat (of_nat c :: u32) = c" "unat (of_nat d :: u32) = d" using *(1,2) by (simp_all add: unat_of_nat)
  ultimately show "sub = sub' \<and> c = d" using sub by metis
qed simp

lemma keeps_bitmap:
  assumes "keeps img s t" "bitmap_plain s sub n"
  shows "bitmap_plain t sub n" "z < 8192 * n \<Longrightarrow> zone_used (pfs_view img t) (pmount t) sub z = zone_used (pfs_view img s) (pmount s) sub z"
proof -
  show "bitmap_plain t sub n" using assms unfolding keeps_def bitmap_plain_def same_plain_def by metis
  assume "z < 8192 * n"
  then have "z div 8192 < n" by (simp add: less_mult_imp_div_less mult.commute)
  then have "plain s (chunk_blk (pmount s) sub (z div 8192))" using assms(2) by (rule bitmap_plainD [rotated])
  then show "zone_used (pfs_view img t) (pmount t) sub z = zone_used (pfs_view img s) (pmount s) sub z"
    using assms(1) unfolding keeps_def same_plain_def zone_used_def by metis
qed

lemma length_view:
  assumes "pfs_good D img ok s"
  shows "length (pfs_view img s k) = 256"
proof (cases "pfs_find k s")
  case None
  then show ?thesis using length_pfs_block [of "img (pworld s)" k] blk_goodE(1) [OF pfs_goodD(1,3) [OF assms]]
    by (simp add: pfs_view_def)
next
  case (Some i)
  then show ?thesis using pfs_goodD(7) [OF assms] pfs_find_Some [OF Some] by (simp add: pfs_view_def)
qed

subsection \<open>Requests for a chunk\<close>

text \<open>Some entry has no user, so the cache is not full.\<close>

definition avail :: "('d, 'z) pfs_state_scheme \<Rightarrow> bool" where
  "avail s \<longleftrightarrow> (\<exists>j \<in> {1..pfsCacheNumBuffers s}. qused s j = 0)"

definition users_ok :: "('d, 'z) pfs_state_scheme \<Rightarrow> bool" where
  "users_ok s \<longleftrightarrow> (\<forall>i. qused s i \<noteq> - 1)"

lemma plain_blk: "plain s k \<Longrightarrow> blk_range k \<and> off_log (pmount s) (pfsCacheNumBuffers s) k"
  by (simp add: plain_def)

lemma plain_flags:
  "PFS_CACHE_FLAG_BITMAP AND PFS_CACHE_FLAG_NOLOAD = 0" "PFS_CACHE_FLAG_NOTHING AND PFS_CACHE_FLAG_NOLOAD = 0"
  "PFS_CACHE_FLAG_BITMAP AND (PFS_CACHE_FLAG_SEGD OR PFS_CACHE_FLAG_SEGI) = 0" "PFS_CACHE_FLAG_NOTHING AND (PFS_CACHE_FLAG_SEGD OR PFS_CACHE_FLAG_SEGI) = 0"
  "pfs_block_ok (PFS_CACHE_FLAG_BITMAP AND PFS_CACHE_FLAG_MASKTYPE) ws" "pfs_block_ok (PFS_CACHE_FLAG_NOTHING AND PFS_CACHE_FLAG_MASKTYPE) ws"
  by (simp_all add: PFS_CACHE_FLAG_BITMAP_def PFS_CACHE_FLAG_NOLOAD_def PFS_CACHE_FLAG_SEGD_def PFS_CACHE_FLAG_SEGI_def
      PFS_CACHE_FLAG_MASKTYPE_def PFS_CACHE_FLAG_NOTHING_def pfs_block_ok_def)

text \<open>What the allocator knows of the state it works in.\<close>

definition ready :: "'d blk_dev \<Rightarrow> ('d \<Rightarrow> image) \<Rightarrow> ('d \<Rightarrow> bool) \<Rightarrow> ('d, 'z) pfs_state_scheme \<Rightarrow> bool" where
  "ready D img ok s \<longleftrightarrow> pfs_good D img ok s \<and> avail s \<and> users_ok s"

definition held :: "('d \<Rightarrow> image) \<Rightarrow> blk \<Rightarrow> ('d, 'z) pfs_state_scheme \<Rightarrow> nat \<Rightarrow> ('d, 'z) pfs_state_scheme \<Rightarrow> bool" where
  "held img k s i t \<longleftrightarrow> i \<in> {1..pfsCacheNumBuffers t} \<and> qkey t i = Some k \<and> q_data (pfsCacheBuf t i) = pfs_view img t k \<and>
     qused t = (qused s)(i := qused s i + 1)"

lemma get_plain:
  assumes "ready D img ok s" "plain s (ucast sub, block)" "flags \<in> {PFS_CACHE_FLAG_NOTHING, PFS_CACHE_FLAG_BITMAP}"
  shows "\<exists>i t. pfsCacheGetData D sub block flags s = Some ((Some i, 0), t) \<and>
     pfs_good D img ok t \<and> keeps img s t \<and> held img (ucast sub, block) s i t \<and> keeps_used s t"
proof -
  have fl: "flags AND PFS_CACHE_FLAG_NOLOAD = 0" "flags AND (PFS_CACHE_FLAG_SEGD OR PFS_CACHE_FLAG_SEGI) = 0"
    "pfs_block_ok (flags AND PFS_CACHE_FLAG_MASKTYPE) ws" for ws
    using assms(3) plain_flags by auto
  have "\<exists>i t. pfsCacheGetData D sub block flags s = Some ((Some i, 0), t) \<and> delivers D img ok (ucast sub, block) flags s i t"
    using get_good [of D img ok s sub block flags] assms(1) plain_blk [OF assms(2)] fl
    by (auto simp: ready_def avail_def users_ok_def)
  then obtain i t where g: "pfsCacheGetData D sub block flags s = Some ((Some i, 0), t)" and d: "delivers D img ok (ucast sub, block) flags s i t" by blast
  have "pfs_view img t (ucast sub, block) = pfs_view img s (ucast sub, block)"
    using d assms(2) by (auto simp: delivers_def same_plain_def fl)
  then show ?thesis using g d by (auto simp: delivers_def keeps_def held_def fl)
qed

lemma get_chunk:
  assumes "ready D img ok s" "bitmap_plain s sub n" "c < n"
  shows "\<exists>i t. pfsCacheGetData D sub (bitmap_sector (pmount s) (ucast sub) (of_nat c)) PFS_CACHE_FLAG_BITMAP s = Some ((Some i, 0), t) \<and>
     pfs_good D img ok t \<and> keeps img s t \<and> held img (chunk_blk (pmount s) sub c) s i t"
  using get_plain [OF assms(1), of sub "bitmap_sector (pmount s) (ucast sub) (of_nat c)" PFS_CACHE_FLAG_BITMAP] bitmap_plainD [OF assms(2,3)]
  by (auto simp: chunk_blk_def)

text \<open>Giving the chunk back.\<close>

lemma release_chunk:
  assumes "ready D img ok s" "pfs_good D img ok t" "keeps img s t" "held img k s i t"
  shows "ready D img ok (pfsCacheFree (Some i) t)" "keeps img s (pfsCacheFree (Some i) t)" "qused (pfsCacheFree (Some i) t) = qused s"
proof -
  have n: "qused t i \<noteq> 0" using assms(1,4) by (simp add: held_def ready_def users_ok_def add_eq_0_iff2)
  have i: "i \<in> {1..pfsCacheNumBuffers t}" using assms(4) by (simp add: held_def)
  note f = free_good [OF assms(2) i n]
  show u: "qused (pfsCacheFree (Some i) t) = qused s" unfolding f(3) using assms(4) by (simp add: held_def fun_eq_iff)
  show k: "keeps img s (pfsCacheFree (Some i) t)" by (rule keeps_trans [OF assms(3) f(2)])
  show "ready D img ok (pfsCacheFree (Some i) t)"
    using f(1) assms(1) k by (simp add: ready_def avail_def users_ok_def u) (simp add: keeps_def)
qed

subsection \<open>Setting and clearing a run of zones\<close>

text \<open>From \<open>s\<close> to \<open>t\<close> the zones \<open>a\<close> to \<open>a + n\<close> become used or free, and no other block changes.\<close>

definition run_put ::
    "('d \<Rightarrow> image) \<Rightarrow> u16 \<Rightarrow> nat \<Rightarrow> bool \<Rightarrow> nat \<Rightarrow> nat \<Rightarrow> ('d, 'z) pfs_state_scheme \<Rightarrow> ('d, 'z) pfs_state_scheme \<Rightarrow> bool" where
  "run_put img sub nch v a n s t \<longleftrightarrow>
     (\<forall>z < 8192 * nch. zone_used (pfs_view img t) (pmount s) sub z =
        (if a \<le> z \<and> z < a + n then v else zone_used (pfs_view img s) (pmount s) sub z)) \<and>
     (\<forall>k. plain s k \<longrightarrow> plain t k \<and> (k \<notin> chunk_blk (pmount s) sub ` {..<nch} \<longrightarrow> pfs_view img t k = pfs_view img s k)) \<and>
     (\<forall>k. stored s k \<longrightarrow> stored t k \<and>
        (k \<notin> chunk_blk (pmount s) sub ` {..<nch} \<longrightarrow> tl (pfs_view img t k) = tl (pfs_view img s k))) \<and>
     pfsCacheNumBuffers t = pfsCacheNumBuffers s"

lemma run_putD:
  assumes "run_put img sub nch v a n s t"
  shows "z < 8192 * nch \<Longrightarrow> zone_used (pfs_view img t) (pmount s) sub z =
        (if a \<le> z \<and> z < a + n then v else zone_used (pfs_view img s) (pmount s) sub z)"
    and "plain s k \<Longrightarrow> plain t k" and "plain s k \<Longrightarrow> k \<notin> chunk_blk (pmount s) sub ` {..<nch} \<Longrightarrow> pfs_view img t k = pfs_view img s k"
    and "pfsCacheNumBuffers t = pfsCacheNumBuffers s"
    and "stored s k \<Longrightarrow> stored t k"
    and "stored s k \<Longrightarrow> k \<notin> chunk_blk (pmount s) sub ` {..<nch} \<Longrightarrow> tl (pfs_view img t k) = tl (pfs_view img s k)"
  using assms unfolding run_put_def by blast+

lemma run_put_trans:
  assumes "run_put img sub nch v a n s t" "run_put img sub nch v (a + n) m t u" "pmount t = pmount s"
  shows "run_put img sub nch v a (n + m) s u"
proof -
  note p1 = run_putD [OF assms(1)] and p2 = run_putD [OF assms(2), unfolded assms(3)]
  show ?thesis unfolding run_put_def
  proof (intro conjI allI impI)
    fix z assume "z < 8192 * nch"
    then show "zone_used (pfs_view img u) (pmount s) sub z =
        (if a \<le> z \<and> z < a + (n + m) then v else zone_used (pfs_view img s) (pmount s) sub z)"
      using p1(1) p2(1) by auto
  next
    fix k assume "plain s k"
    then show "plain u k" using p1(2) p2(2) by blast
  next
    fix k assume "plain s k" "k \<notin> chunk_blk (pmount s) sub ` {..<nch}"
    then show "pfs_view img u k = pfs_view img s k" using p1(2,3) p2(3) by metis
  next
    fix k assume "stored s k"
    then show "stored u k" using p1(5) p2(5) by blast
  next
    fix k assume "stored s k" "k \<notin> chunk_blk (pmount s) sub ` {..<nch}"
    then show "tl (pfs_view img u k) = tl (pfs_view img s k)" using p1(5,6) p2(6) by metis
  qed (simp add: p1(4) p2(4))
qed

lemma keeps_run:
  assumes "keeps img s t" "bitmap_plain s sub nch"
  shows "run_put img sub nch v a 0 s t"
  unfolding run_put_def
proof (intro conjI allI impI)
  fix z assume "z < 8192 * nch"
  then have "zone_used (pfs_view img t) (pmount t) sub z = zone_used (pfs_view img s) (pmount s) sub z"
    by (rule keeps_bitmap(2) [OF assms])
  then show "zone_used (pfs_view img t) (pmount s) sub z = (if a \<le> z \<and> z < a + 0 then v else zone_used (pfs_view img s) (pmount s) sub z)"
    using assms(1) by (auto simp: keeps_def)
qed (use assms(1) in \<open>auto simp: keeps_def same_plain_def\<close>)

lemma run_put_bitmap: "run_put img sub nch v a n s t \<Longrightarrow> pmount t = pmount s \<Longrightarrow> bitmap_plain s sub' m \<Longrightarrow> bitmap_plain t sub' m"
  unfolding run_put_def bitmap_plain_def by metis

text \<open>One chunk.\<close>

lemma edit_chunk:
  assumes good: "pfs_good D img ok s" and i: "i \<in> {1..pfsCacheNumBuffers s}" "qkey s i = Some (chunk_blk (pmount s) sub c)"
    and u: "qused s = U(i := U i + 1)" "\<forall>j. U j \<noteq> - 1" "\<exists>j \<in> {1..pfsCacheNumBuffers s}. U j = 0"
    and pl: "bitmap_plain s sub nch" "c < nch" and ws: "length ws = 256"
  defines "t \<equiv> pfsCacheFree (Some i) (pfs_mark_dirty i (set_data i (\<lambda>_. ws) s))"
  shows "ready D img ok t" "qused t = U" "pmount t = pmount s" "pfsCacheNumBuffers t = pfsCacheNumBuffers s"
    "\<And>k. plain s k \<Longrightarrow> plain t k" "pfs_view img t (chunk_blk (pmount s) sub c) = ws"
    "\<And>k. plain s k \<Longrightarrow> k \<noteq> chunk_blk (pmount s) sub c \<Longrightarrow> pfs_view img t k = pfs_view img s k"
    "\<And>k. stored s k \<Longrightarrow> k \<noteq> chunk_blk (pmount s) sub c \<Longrightarrow> tl (pfs_view img t k) = tl (pfs_view img s k)"
proof -
  let ?s1 = "pfs_mark_dirty i (set_data i (\<lambda>_. ws) s)" and ?k = "chunk_blk (pmount s) sub c"
  note e = edit_good [OF good i ws]
  have n: "qused ?s1 i \<noteq> 0" using u by (simp add: e(4) add_eq_0_iff2)
  have i1: "i \<in> {1..pfsCacheNumBuffers ?s1}" using i(1) by (simp add: e(3))
  note f = free_good [OF e(1) i1 n]
  have kp: "keeps img ?s1 t" unfolding t_def by (rule f(2))
  show qu: "qused t = U" unfolding t_def f(3) using u(1) by (simp add: e(4) fun_eq_iff)
  show m: "pmount t = pmount s" "pfsCacheNumBuffers t = pfsCacheNumBuffers s" using kp by (simp_all add: keeps_def e(2,3))
  show "ready D img ok t" using f(1) u by (simp add: ready_def avail_def users_ok_def qu m(2)) (simp add: t_def)
  show p: "\<And>k. plain s k \<Longrightarrow> plain t k" using kp e(6) by (auto simp: keeps_def same_plain_def)
  have "plain ?s1 ?k" using bitmap_plainD [OF pl] by (simp add: e(6))
  then show "pfs_view img t ?k = ws" using kp e(7) unfolding keeps_def same_plain_def by metis
  show "\<And>k. plain s k \<Longrightarrow> k \<noteq> ?k \<Longrightarrow> pfs_view img t k = pfs_view img s k"
    using kp e(6,8) unfolding keeps_def same_plain_def by metis
  show "\<And>k. stored s k \<Longrightarrow> k \<noteq> ?k \<Longrightarrow> tl (pfs_view img t k) = tl (pfs_view img s k)"
    using kp e(8) stored_cong [OF e(2,3)] unfolding keeps_def same_plain_def by metis
qed

lemma edit_chunk_run:
  assumes pl: "bitmap_plain s sub nch" "c < nch" and t: "pmount t = pmount s" "pfsCacheNumBuffers t = pfsCacheNumBuffers s"
    "\<And>k. plain s k \<Longrightarrow> plain t k" "pfs_view img t (chunk_blk (pmount s) sub c) = ws"
    "\<And>k. plain s k \<Longrightarrow> k \<noteq> chunk_blk (pmount s) sub c \<Longrightarrow> pfs_view img t k = pfs_view img s k"
    "\<And>k. stored s k \<Longrightarrow> k \<noteq> chunk_blk (pmount s) sub c \<Longrightarrow> tl (pfs_view img t k) = tl (pfs_view img s k)"
    and b: "\<forall>p < 8192. zbit ws p = (if p0 \<le> p \<and> p < p0 + n then v else zbit (pfs_view img s (chunk_blk (pmount s) sub c)) p)"
    and n: "p0 + n \<le> 8192"
  shows "run_put img sub nch v (8192 * c + p0) n s t"
  unfolding run_put_def
proof (intro conjI allI impI)
  fix z assume z: "z < 8192 * nch"
  have zc: "z div 8192 < nch" using z by (simp add: less_mult_imp_div_less mult.commute)
  show "zone_used (pfs_view img t) (pmount s) sub z =
      (if 8192 * c + p0 \<le> z \<and> z < 8192 * c + p0 + n then v else zone_used (pfs_view img s) (pmount s) sub z)"
  proof (cases "z div 8192 = c")
    case True
    then have "z = 8192 * c + z mod 8192" by (metis mult_div_mod_eq)
    moreover have "z mod 8192 < 8192" by simp
    ultimately have "(8192 * c + p0 \<le> z \<and> z < 8192 * c + p0 + n) = (p0 \<le> z mod 8192 \<and> z mod 8192 < p0 + n)" by linarith
    then show ?thesis using True b t(4) by (simp add: zone_used_def)
  next
    case False
    have "chunk_blk (pmount s) sub (z div 8192) \<noteq> chunk_blk (pmount s) sub c"
      using False chunk_blk_inj zc pl by (simp add: bitmap_plain_def)
    moreover have "\<not> (8192 * c + p0 \<le> z \<and> z < 8192 * c + p0 + n)"
    proof
      assume *: "8192 * c + p0 \<le> z \<and> z < 8192 * c + p0 + n"
      then have "8192 * c \<le> z" "z < 8192 * (c + 1)" using n by simp_all
      then have "z div 8192 = c" by (simp add: div_nat_eqI mult.commute)
      then show False using False by simp
    qed
    ultimately show ?thesis using t(5) bitmap_plainD [OF pl(1) zc] by (auto simp: zone_used_def)
  qed
next
  fix k assume k: "plain s k" "k \<notin> chunk_blk (pmount s) sub ` {..<nch}"
  then have "k \<noteq> chunk_blk (pmount s) sub c" using pl(2) by blast
  then show "pfs_view img t k = pfs_view img s k" using t(5) k(1) by blast
next
  fix k assume k: "stored s k" "k \<notin> chunk_blk (pmount s) sub ` {..<nch}"
  then have "k \<noteq> chunk_blk (pmount s) sub c" using pl(2) by blast
  then show "tl (pfs_view img t k) = tl (pfs_view img s k)" using t(6) k(1) by blast
next
  fix k assume "stored s k"
  then show "stored t k" using stored_cong [OF t(1,2)] by simp
qed (use t in simp_all)

text \<open>\<open>pfsBitmapAllocFree\<close> returns, with its run set or cleared over all the chunks it crosses.\<close>

lemma alloc_free_run:
  assumes "pfs_good D img ok s" "i \<in> {1..pfsCacheNumBuffers s}" "qkey s i = Some (chunk_blk (pmount s) sub c)"
    and "qused s = U(i := U i + 1)" "\<forall>j. U j \<noteq> - 1" "\<exists>j \<in> {1..pfsCacheNumBuffers s}. U j = 0"
    and "bitmap_plain s sub nch" "c < nch" "unat index < 256" "unat b < 32"
    and "8192 * c + (32 * unat index + unat b) + unat count \<le> 8192 * nch"
  shows "\<exists>t. pfsBitmapAllocFree D (Some i) operation (ucast sub) (of_nat c) index b count s = Some t \<and> ready D img ok t \<and> qused t = U \<and>
     pmount t = pmount s \<and> run_put img sub nch (operation = PFS_BITMAP_ALLOC) (8192 * c + (32 * unat index + unat b)) (unat count) s t"
  using assms
proof (induction "unat count" arbitrary: count i s c index b rule: less_induct)
  case less
  let ?k = "chunk_blk (pmount s) sub c" and ?p0 = "32 * unat index + unat b"
  let ?v = "operation = PFS_BITMAP_ALLOC"
  define n where "n = min (unat count) (8192 - ?p0)"
  obtain left ws where bb: "bitmap_bits operation (unat index) (unat b) count (q_data (pfsCacheBuf s i)) = (left, ws)" by fastforce
  have inv: "pfs_cache_inv s" using pfs_goodD(2) [OF less.prems(1)] .
  have data: "q_data (pfsCacheBuf s i) = pfs_view img s ?k" using pfs_view_entry [OF inv less.prems(2,3), of img] by simp
  have p0: "?p0 < 8192" using less.prems(9,10) by simp
  have eff: "length ws = 256" "unat left = unat count - n"
    "\<forall>p < 8192. zbit ws p = (if ?p0 \<le> p \<and> p < ?p0 + n then ?v else zbit (pfs_view img s ?k) p)"
    using bitmap_bits_effect [OF bb] length_view [OF less.prems(1)] less.prems(9,10) p0 unfolding data n_def by simp_all
  define s1 where "s1 = pfsCacheFree (Some i) (pfs_mark_dirty i (set_data i (\<lambda>_. ws) s))"
  note e = edit_chunk [OF less.prems(1-8) eff(1), folded s1_def]
  have pn: "?p0 + n \<le> 8192" using p0 unfolding n_def min_def by (cases "unat count \<le> 8192 - ?p0") auto
  have r1: "run_put img sub nch ?v (8192 * c + ?p0) n s s1"
    by (rule edit_chunk_run [OF less.prems(7,8) e(3-8) eff(3) pn])
  have step: "pfsBitmapAllocFree D (Some i) operation (ucast sub) (of_nat c) index b count s =
     (if left = 0 then Some s1 else do {
        ((d, er), s2) \<leftarrow> pfsCacheGetData D sub (bitmap_sector (pmount s1) (ucast sub) (of_nat (c + 1))) PFS_CACHE_FLAG_BITMAP s1;
        pfsBitmapAllocFree D d operation (ucast sub) (of_nat (c + 1)) 0 0 left s2 })"
    by (subst pfsBitmapAllocFree.simps) (simp add: bb s1_def add.commute)
  show ?case
  proof (cases "left = 0")
    case True
    then have "n = unat count" using eff(2) by (simp add: n_def)
    then show ?thesis using True step e r1 by auto
  next
    case False
    then have "unat left \<noteq> 0" by (simp add: unat_eq_zero)
    then have n: "n = 8192 - ?p0" "n < unat count" "0 < n" using eff(2) p0 by (auto simp: n_def)
    have c1: "c + 1 < nch"
    proof -
      have "8192 * c + 8192 < 8192 * nch" using less.prems(11) n p0 by linarith
      then show ?thesis by simp
    qed
    have pl1: "bitmap_plain s1 sub nch" by (rule run_put_bitmap [OF r1 e(3) less.prems(7)])
    obtain j s2 where g: "pfsCacheGetData D sub (bitmap_sector (pmount s1) (ucast sub) (of_nat (c + 1))) PFS_CACHE_FLAG_BITMAP s1 = Some ((Some j, 0), s2)"
      and good2: "pfs_good D img ok s2" and k2: "keeps img s1 s2" and h2: "held img (chunk_blk (pmount s1) sub (c + 1)) s1 j s2"
      using get_chunk [OF e(1) pl1 c1] by blast
    have m2: "pmount s2 = pmount s1" "pfsCacheNumBuffers s2 = pfsCacheNumBuffers s1" using k2 by (simp_all add: keeps_def)
    have "\<exists>t. pfsBitmapAllocFree D (Some j) operation (ucast sub) (of_nat (c + 1)) 0 0 left s2 = Some t \<and> ready D img ok t \<and> qused t = U \<and>
       pmount t = pmount s2 \<and> run_put img sub nch ?v (8192 * (c + 1) + (32 * unat (0 :: u32) + unat (0 :: u32))) (unat left) s2 t"
    proof (rule less.hyps)
      show "unat left < unat count" using eff(2) n by linarith
      show "8192 * (c + 1) + (32 * unat (0 :: u32) + unat (0 :: u32)) + unat left \<le> 8192 * nch" using eff(2) less.prems(11) n p0 by simp
      show "bitmap_plain s2 sub nch" by (rule keeps_bitmap(1) [OF k2 pl1])
    qed (use good2 h2 c1 less.prems(5,6) in \<open>simp_all add: held_def m2 e(2,4)\<close>)
    then obtain t where t: "pfsBitmapAllocFree D (Some j) operation (ucast sub) (of_nat (c + 1)) 0 0 left s2 = Some t" "ready D img ok t" "qused t = U"
       "pmount t = pmount s2" "run_put img sub nch ?v (8192 * (c + 1)) (unat left) s2 t" by auto
    have r2: "run_put img sub nch ?v (8192 * c + ?p0 + n) 0 s1 s2" by (rule keeps_run [OF k2 pl1])
    have r3: "run_put img sub nch ?v (8192 * c + ?p0 + (n + 0)) (unat left) s2 t" using t(5) n p0 by (simp add: algebra_simps)
    have "run_put img sub nch ?v (8192 * c + ?p0) (n + 0 + unat left) s t"
      by (rule run_put_trans [OF run_put_trans [OF r1 r2 e(3)] r3]) (simp add: m2 e(3))
    moreover have "n + 0 + unat left = unat count" using eff(2) n by simp
    ultimately show ?thesis using step False g t m2 e(3) by auto
  qed
qed

subsection \<open>Searching a chunk\<close>

definition run_start :: "zone_run \<Rightarrow> nat" where
  "run_start r = 8192 * unat (zr_startChunk r) + 32 * unat (zr_startPos r) + unat (zr_startBit r)"

text \<open>The run ends at \<open>pos\<close> and its zones are free.\<close>

definition run_inv :: "(nat \<Rightarrow> bool) \<Rightarrow> zone_run \<Rightarrow> nat \<Rightarrow> bool" where
  "run_inv free r pos \<longleftrightarrow> zr_count r = 0 \<or>
     run_start r + unat (zr_count r) = pos \<and> unat (zr_startPos r) < 256 \<and> unat (zr_startBit r) < 32 \<and>
     (\<forall>z. run_start r \<le> z \<and> z < pos \<longrightarrow> free z)"

definition word_bits :: "nat \<Rightarrow> nat" where
  "word_bits m = 32 * ((m + 3) div 4)"

lemma word_bits_words: "4 * k < m \<longleftrightarrow> 32 * k < word_bits m" "m \<le> 1024 \<Longrightarrow> word_bits m \<le> 8192"
  by (auto simp: word_bits_def)

lemma word_pos:
  assumes "4 * k < m" "i < 32"
  shows "32 * k + i < word_bits m"
proof -
  have "k + 1 \<le> (m + 3) div 4" using assms(1) by (subst less_eq_div_iff_mult_less_eq) simp_all
  then have "32 * (k + 1) \<le> word_bits m" unfolding word_bits_def by (rule mult_le_mono2)
  then show ?thesis using assms(2) by simp
qed

lemma and_1_bit: "drop_bit i (w :: u32) AND 1 = 0 \<longleftrightarrow> \<not> bit w i"
  by (simp add: bit_iff_odd_drop_bit and_one_eq odd_iff_mod_2_eq_one even_iff_mod_2_eq_zero)

lemma run_extend:
  assumes "run_inv free r (8192 * c + (32 * k + i))" "free (8192 * c + (32 * k + i))" "unat (zr_count r) < unat (amount :: u32)"
    and "c < 2 ^ 19" "k < 256" "i < 32"
  defines "r1 \<equiv> (if zr_count r = 0 then r\<lparr>zr_startBit := of_nat i, zr_startChunk := of_nat c, zr_startPos := of_nat k\<rparr> else r)"
  defines "r2 \<equiv> r1\<lparr>zr_count := zr_count r1 + 1\<rparr>"
  shows "run_inv free r2 (8192 * c + (32 * k + (i + 1)))" "unat (zr_count r2) = unat (zr_count r) + 1"
proof -
  have "unat (zr_count r) + 1 < 4294967296" using assms(3) unat_32 [of amount] by simp
  then show n: "unat (zr_count r2) = unat (zr_count r) + 1" by (simp add: r2_def r1_def unat_word_ariths)
  show "run_inv free r2 (8192 * c + (32 * k + (i + 1)))"
  proof (cases "zr_count r = 0")
    case True
    have u: "unat (of_nat c :: u32) = c" "unat (of_nat k :: u32) = k" "unat (of_nat i :: u32) = i"
      using assms(4-6) by (simp_all add: unat_of_nat)
    have "run_start r2 = 8192 * c + (32 * k + i)" by (simp add: run_start_def r2_def r1_def True u)
    moreover have "free z" if "8192 * c + (32 * k + i) \<le> z" "z < 8192 * c + (32 * k + (i + 1))" for z
    proof -
      have "z = 8192 * c + (32 * k + i)" using that by linarith
      then show ?thesis using assms(2) by simp
    qed
    ultimately show ?thesis using n True assms(5,6) by (simp add: run_inv_def) (simp add: r2_def r1_def u)
  next
    case False
    then have old: "run_start r + unat (zr_count r) = 8192 * c + (32 * k + i)" "unat (zr_startPos r) < 256" "unat (zr_startBit r) < 32"
      "\<And>z. run_start r \<le> z \<Longrightarrow> z < 8192 * c + (32 * k + i) \<Longrightarrow> free z" using assms(1) by (auto simp: run_inv_def)
    have st: "run_start r2 = run_start r" "zr_startPos r2 = zr_startPos r" "zr_startBit r2 = zr_startBit r"
      using False by (simp_all add: run_start_def r2_def r1_def)
    have "free z" if "run_start r \<le> z" "z < 8192 * c + (32 * k + (i + 1))" for z
      using old(4) [OF that(1)] assms(2) that(2) by (cases "z = 8192 * c + (32 * k + i)") auto
    then show ?thesis using old n by (auto simp: run_inv_def st)
  qed
qed

lemma search_bits_run:
  assumes "search_bits m amount (of_nat c) k i r ws = (found, r')" "m \<le> 1024" "i \<le> 32" "c < 2 ^ 19"
    and "run_inv free r (8192 * c + (32 * k + i))" "unat (zr_count r) < unat amount"
    and "\<And>p. p < 8192 \<Longrightarrow> free (8192 * c + p) = (\<not> zbit ws p)"
  shows "(found \<longrightarrow> zr_count r' = amount \<and> (\<exists>pos \<le> word_bits m. run_inv free r' (8192 * c + pos))) \<and>
     (\<not> found \<longrightarrow> unat (zr_count r') < unat amount \<and> (32 * k + i \<le> word_bits m \<longrightarrow> run_inv free r' (8192 * c + word_bits m)) \<and>
        (amount = 1 \<longrightarrow> (\<forall>p. 32 * k + i \<le> p \<and> p < word_bits m \<longrightarrow> zbit ws p)))"
  using assms
proof (induction m amount "of_nat c :: u32" k i r ws arbitrary: found r' rule: search_bits.induct)
  case (1 m amount k i r ws)
  note eq = "1.prems"(1) [unfolded search_bits.simps [of m amount "of_nat c" k i r ws]]
  consider "\<not> 4 * k < m" | "4 * k < m" "32 \<le> i" | "4 * k < m" "i < 32" "\<not> bit (ws ! k) i" | "4 * k < m" "i < 32" "bit (ws ! k) i" by linarith
  then show ?case
  proof cases
    case 1
    then have "found = False" "r' = r" using eq by auto
    moreover have w: "word_bits m \<le> 32 * k" using 1 word_bits_words(1) [of k m] by simp
    moreover have "run_inv free r (8192 * c + word_bits m)" if "32 * k + i \<le> word_bits m"
    proof -
      have "32 * k + i = word_bits m" using w that by linarith
      then show ?thesis using "1.prems"(5) by simp
    qed
    ultimately show ?thesis using "1.prems"(6) by auto
  next
    case 2
    then have i: "i = 32" using "1.prems"(3) by simp
    have st: "search_bits m amount (of_nat c) (k + 1) 0 r ws = (found, r')" using eq 2 by simp
    have e: "32 * (k + 1) + 0 = 32 * k + i" by (simp add: i)
    have "run_inv free r (8192 * c + (32 * (k + 1) + 0))" unfolding e by (rule "1.prems"(5))
    from "1.hyps"(1) [OF _ 2(2) st "1.prems"(2) _ "1.prems"(4) this "1.prems"(6,7)] 2(1) show ?thesis unfolding e by simp
  next
    case 3
    have lt: "32 * k + i < word_bits m" by (rule word_pos [OF 3(1,2)])
    have k: "k < 256" using 3(1) "1.prems"(2) by simp
    have lim: "word_bits m \<le> 8192" by (rule word_bits_words(2) [OF "1.prems"(2)])
    have z: "\<not> zbit ws (32 * k + i)" using 3 by (simp add: zbit_def)
    have free: "free (8192 * c + (32 * k + i))" using "1.prems"(7) [of "32 * k + i"] lt lim z by simp
    let ?r1 = "if zr_count r = 0 then r\<lparr>zr_startBit := of_nat i, zr_startChunk := of_nat c, zr_startPos := of_nat k\<rparr> else r"
    let ?r2 = "?r1\<lparr>zr_count := zr_count ?r1 + 1\<rparr>"
    note ext = run_extend [OF "1.prems"(5) free "1.prems"(6,4) k 3(2)]
    show ?thesis
    proof (cases "zr_count ?r2 = amount")
      case True
      then have "found" "r' = ?r2" using eq 3 by (auto simp: and_1_bit Let_def split: if_splits)
      then show ?thesis using True ext(1) lt by (auto intro!: exI [of _ "32 * k + (i + 1)"])
    next
      case False
      have st: "search_bits m amount (of_nat c) k (i + 1) ?r2 ws = (found, r')" using eq 3 False by (simp add: and_1_bit Let_def)
      have "unat (zr_count ?r2) < unat amount" using ext(2) "1.prems"(6) False by (metis Suc_eq_plus1 Suc_leI le_neq_implies_less word_unat_eq_iff)
      moreover have "amount \<noteq> 1"
      proof
        assume "amount = 1"
        then have "zr_count r = 0" using "1.prems"(6) by (simp add: unat_eq_zero)
        then show False using False \<open>amount = 1\<close> by simp
      qed
      ultimately show ?thesis
        using "1.hyps"(2) [OF _ _ _ refl refl _ st] 3 "1.prems" False ext(1) lt by (simp add: and_1_bit)
    qed
  next
    case 4
    have lt: "32 * k + i < word_bits m" by (rule word_pos [OF 4(1,2)])
    have st: "search_bits m amount (of_nat c) k (i + 1) (r\<lparr>zr_count := 0\<rparr>) ws = (found, r')" using eq 4 by (simp add: and_1_bit)
    have z: "zbit ws (32 * k + i)" using 4 by (simp add: zbit_def)
    have a: "0 < unat amount" using "1.prems"(6) by simp
    have IH: "(found \<longrightarrow> zr_count r' = amount \<and> (\<exists>pos \<le> word_bits m. run_inv free r' (8192 * c + pos))) \<and>
      (\<not> found \<longrightarrow> unat (zr_count r') < unat amount \<and> (32 * k + (i + 1) \<le> word_bits m \<longrightarrow> run_inv free r' (8192 * c + word_bits m)) \<and>
        (amount = 1 \<longrightarrow> (\<forall>p. 32 * k + (i + 1) \<le> p \<and> p < word_bits m \<longrightarrow> zbit ws p)))"
      by (rule "1.hyps"(3) [OF _ _ _ st]) (use 4 "1.prems" a in \<open>simp_all add: and_1_bit run_inv_def\<close>)
    have "zbit ws p" if "\<forall>p. 32 * k + (i + 1) \<le> p \<and> p < word_bits m \<longrightarrow> zbit ws p" "32 * k + i \<le> p" "p < word_bits m" for p
      using that z by (cases "p = 32 * k + i") auto
    then show ?thesis using IH lt by auto
  qed
qed

subsection \<open>Searching a sub-partition\<close>

definition sub_info :: "'d blk_dev \<Rightarrow> pfs_mount \<Rightarrow> u16 \<Rightarrow> u32 \<Rightarrow> pfs_bitmapInfo" where
  "sub_info D m sub number = pfsBitmapSetupInfo D m (ucast sub) number"

text \<open>The chunks of a sub-partition's bitmap and the zones that a search looks at.\<close>

definition sub_chunks :: "'d blk_dev \<Rightarrow> pfs_mount \<Rightarrow> u16 \<Rightarrow> nat" where
  "sub_chunks D m sub = unat (partitionChunks (sub_info D m sub 0)) + (if partitionRemainder (sub_info D m sub 0) = 0 then 0 else 1)"

definition zone_limit :: "'d blk_dev \<Rightarrow> pfs_mount \<Rightarrow> u16 \<Rightarrow> nat" where
  "zone_limit D m sub = 8192 * unat (partitionChunks (sub_info D m sub 0)) + word_bits (unat (partitionRemainder (sub_info D m sub 0) div 8))"

definition of_sub :: "'d blk_dev \<Rightarrow> pfs_mount \<Rightarrow> u16 \<Rightarrow> pfs_bitmapInfo \<Rightarrow> bool" where
  "of_sub D m sub b \<longleftrightarrow> partitionChunks b = partitionChunks (sub_info D m sub 0) \<and> partitionRemainder b = partitionRemainder (sub_info D m sub 0)"

lemma sub_info_fields:
  "of_sub D m sub (sub_info D m sub number)"
  "unat (bm_chunk (sub_info D m sub number)) = unat number div 8192"
  "unat (bm_index (sub_info D m sub number)) = unat number mod 8192 div 32"
  "unat (bm_bit (sub_info D m sub number)) = unat number mod 32"
proof -
  have "(31 :: u32) = mask 5" by (simp add: mask_eq_exp_minus_1)
  then have "number AND 31 = take_bit 5 number" by (simp only: take_bit_eq_mask)
  then have "number AND 31 = number mod 32" by (simp add: take_bit_eq_mod)
  then show "unat (bm_bit (sub_info D m sub number)) = unat number mod 32"
    by (simp add: sub_info_def pfsBitmapSetupInfo_def Let_def unat_mod)
qed (simp_all add: of_sub_def sub_info_def pfsBitmapSetupInfo_def Let_def unat_mod unat_div pfsBitsPerBitmapChunk_def)

lemma sub_bounds:
  "unat (partitionChunks (sub_info D m sub 0)) < 2 ^ 19" "unat (partitionRemainder (sub_info D m sub 0)) < 8192"
  using unat_32 [of "drop_bit (unat (sector_scale m)) (bd_size D (ucast sub))"]
  by (simp_all add: sub_info_def pfsBitmapSetupInfo_def Let_def unat_mod unat_div pfsBitsPerBitmapChunk_def)

lemma chunk_in_iff:
  assumes "of_sub D m sub b"
  shows "chunk_in b \<longleftrightarrow> unat (bm_chunk b) < sub_chunks D m sub"
proof -
  have "unat (partitionChunks b + 1) = unat (partitionChunks b) + 1"
    using sub_bounds(1) [of D m sub] assms by (simp add: of_sub_def unat_word_ariths)
  then show ?thesis using assms by (auto simp: chunk_in_def sub_chunks_def of_sub_def word_less_nat_alt)
qed

lemma sub_chunks_bound: "sub_chunks D m sub \<le> 2 ^ 19"
  using sub_bounds(1) [of D m sub] by (simp add: sub_chunks_def)

lemma bitmap_max_cases:
  assumes "of_sub D m sub b" "unat (bm_chunk b) = c" "c < sub_chunks D m sub"
  shows "bitmap_max b \<le> 1024" "8192 * c + word_bits (bitmap_max b) \<le> 8192 * (c + 1)"
    "c + 1 < sub_chunks D m sub \<Longrightarrow> word_bits (bitmap_max b) = 8192"
    "c + 1 < sub_chunks D m sub \<or> zone_limit D m sub = 8192 * c + word_bits (bitmap_max b)"
proof -
  let ?i = "sub_info D m sub 0"
  have r: "unat (partitionRemainder b div 8) < 1024" using sub_bounds(2) [of D m sub] assms(1) by (simp add: of_sub_def unat_div)
  then show m: "bitmap_max b \<le> 1024" by (simp add: bitmap_max_def pfsMetaSize_def)
  then show "8192 * c + word_bits (bitmap_max b) \<le> 8192 * (c + 1)" using word_bits_words(2) [OF m] by simp
  have eq: "bm_chunk b = partitionChunks b \<longleftrightarrow> c = unat (partitionChunks ?i)"
    using assms(1,2) by (auto simp: of_sub_def word_unat_eq_iff)
  have full: "c \<noteq> unat (partitionChunks ?i) \<Longrightarrow> word_bits (bitmap_max b) = 8192"
    using eq by (simp add: bitmap_max_def pfsMetaSize_def word_bits_def)
  then show "c + 1 < sub_chunks D m sub \<Longrightarrow> word_bits (bitmap_max b) = 8192" by (simp add: sub_chunks_def split: if_splits)
  show "c + 1 < sub_chunks D m sub \<or> zone_limit D m sub = 8192 * c + word_bits (bitmap_max b)"
  proof (cases "c = unat (partitionChunks ?i)")
    case True
    then show ?thesis using eq assms(1) by (simp add: bitmap_max_def zone_limit_def of_sub_def)
  next
    case False
    then have "c < unat (partitionChunks ?i)" using assms(3) by (simp add: sub_chunks_def split: if_splits)
    then have "c + 1 < sub_chunks D m sub \<or> partitionRemainder ?i = 0 \<and> c + 1 = unat (partitionChunks ?i)"
      by (auto simp: sub_chunks_def)
    moreover have "word_bits 0 = 0" by (simp add: word_bits_def)
    ultimately show ?thesis using full [OF False] by (auto simp: zone_limit_def)
  qed
qed

text \<open>The outcome of a successful allocation: a run of zones that were free is in use, and nothing else changes.\<close>

definition took ::
    "'d blk_dev \<Rightarrow> ('d \<Rightarrow> image) \<Rightarrow> ('d \<Rightarrow> bool) \<Rightarrow> pfs_blockinfo \<Rightarrow> ('d, 'z) pfs_state_scheme \<Rightarrow> pfs_blockinfo \<Rightarrow> ('d, 'z) pfs_state_scheme \<Rightarrow> bool" where
  "took D img ok bi s bi1 t \<longleftrightarrow>
     (let sub = bi_subpart bi1; a = unat (bi_number bi1); n = unat (bi_count bi1); nch = sub_chunks D (pmount s) sub in
      bi_subpart bi1 = bi_subpart bi \<and> a + n \<le> 8192 * nch \<and>
      (\<forall>z. a \<le> z \<and> z < a + n \<longrightarrow> \<not> zone_used (pfs_view img s) (pmount s) sub z) \<and>
      run_put img sub nch True a n s t \<and> ready D img ok t \<and> qused t = qused s \<and> pmount t = pmount s)"

lemma bitmap_sector_start:
  assumes "bitmap_sector m (ucast (sub :: u16)) (of_nat c) = ch + push_bit (unat (inode_scale m)) 1" "c < 2 ^ 19" "unat ch \<le> c"
  shows "unat ch = c"
proof (cases "sub = 0")
  case True
  have "of_nat c + 0x1000 = ch" using assms(1) True by (simp add: bitmap_sector_def pfsBlockSize_def)
  moreover have "unat (of_nat c + 0x1000 :: u32) = c + 4096" using assms(2) by (simp add: unat_word_ariths unat_of_nat)
  ultimately show ?thesis using assms(3) by auto
next
  case False
  then have "(ucast sub :: u32) \<noteq> 0" by (metis ucast_sub unsigned_0)
  then have "ch = of_nat c" using assms(1) by (simp add: bitmap_sector_def)
  then show ?thesis using assms(2) by (simp add: unat_of_nat)
qed

lemma unat_wide: "unat (ucast (x :: u16) :: u32) = unat x"
  using unsigned_less [of x, where ?'a = nat] by (simp add: unsigned_ucast_eq take_bit_nat_eq_self)

lemma start_number:
  assumes "run_start r < 2 ^ 32"
  shows "unat (zr_startPos r * 32 + zr_startChunk r * pfsBitsPerBitmapChunk + zr_startBit r) = run_start r"
proof -
  have "of_nat (run_start r) = zr_startPos r * 32 + zr_startChunk r * pfsBitsPerBitmapChunk + zr_startBit r"
    by (simp add: run_start_def pfsBitsPerBitmapChunk_def)
  moreover have "unat (of_nat (run_start r) :: u32) = run_start r" using assms by (simp add: unat_of_nat)
  ultimately show ?thesis by simp
qed

lemma take_run_ok:
  assumes rdy: "ready D img ok s0" and pl: "bitmap_plain s0 (bi_subpart bi) nch" and nch: "nch = sub_chunks D (pmount s0) (bi_subpart bi)"
    and s: "pfs_good D img ok s" "keeps img s0 s" "held img (chunk_blk (pmount s0) (bi_subpart bi) c) s0 i s" "c < nch"
    and r: "run_inv (\<lambda>z. \<not> zone_used (pfs_view img s0) (pmount s0) (bi_subpart bi) z) r pos" "pos \<le> 8192 * (c + 1)" "zr_count r \<noteq> 0"
  shows "\<exists>bi1 t. take_run D i bi r s = Some (bi1, t) \<and> took D img ok bi s0 bi1 t \<and>
     unat (bi_count bi1) = min (unat (bi_count bi)) (unat (zr_count r))"
proof -
  let ?sub = "bi_subpart bi" and ?m = "pmount s0" and ?C = "unat (zr_startChunk r)" and ?U = "qused s0"
  let ?n = "min (unat (bi_count bi)) (unat (zr_count r))"
  have c: "c < 2 ^ 19" using s(4) pl by (simp add: bitmap_plain_def)
  have cnt: "0 < unat (zr_count r)" using r(3) by (simp add: unat_gt_0)
  have run: "run_start r + unat (zr_count r) = pos" "unat (zr_startPos r) < 256" "unat (zr_startBit r) < 32"
    "\<And>z. run_start r \<le> z \<Longrightarrow> z < pos \<Longrightarrow> \<not> zone_used (pfs_view img s0) ?m ?sub z"
    using r(1,3) by (auto simp: run_inv_def)
  have C: "?C \<le> c" using run(1) r(2) cnt by (simp add: run_start_def)
  have m: "pmount s = ?m" "pfsCacheNumBuffers s = pfsCacheNumBuffers s0" using s(2) by (simp_all add: keeps_def)
  have U: "\<forall>j. ?U j \<noteq> - 1" "\<exists>j \<in> {1..pfsCacheNumBuffers s0}. ?U j = 0"
    using rdy by (simp_all add: ready_def users_ok_def avail_def)
  have blk: "q_block (pfsCacheBuf s i) = bitmap_sector ?m (ucast ?sub) (of_nat c)"
    using s(3) by (simp add: held_def qkey_entry entry_key_def chunk_blk_def)
  define bi1 where "bi1 = bi\<lparr>bi_number := zr_startPos r * 32 + zr_startChunk r * pfsBitsPerBitmapChunk + zr_startBit r,
     bi_count := (if zr_count r < ucast (bi_count bi) then ucast (zr_count r) else bi_count bi)\<rparr>"
  have C_nat: "of_nat ?C = zr_startChunk r" by simp
  obtain j s2 where got: "(if q_block (pfsCacheBuf s i) \<noteq> zr_startChunk r + push_bit (unat (inode_scale (pmount s))) 1
             then map_option (\<lambda>((c, e), t). (c, t))
                    (pfsCacheGetData D ?sub (bitmap_sector (pmount s) (ucast ?sub) (zr_startChunk r))
                       PFS_CACHE_FLAG_BITMAP (pfsCacheFree (Some i) s))
             else Some (Some i, s)) = Some (Some j, s2)"
    and g2: "pfs_good D img ok s2" and k2: "keeps img s0 s2" and j: "j \<in> {1..pfsCacheNumBuffers s2}"
    and key2: "qkey s2 j = Some (chunk_blk ?m ?sub ?C)" and u2: "qused s2 = ?U(j := ?U j + 1)"
  proof (cases "q_block (pfsCacheBuf s i) = zr_startChunk r + push_bit (unat (inode_scale (pmount s))) 1")
    case True
    then have "?C = c" using bitmap_sector_start [of ?m ?sub c "zr_startChunk r"] blk C c m by simp
    then show ?thesis using that [of i s] True s by (simp add: held_def)
  next
    case False
    let ?s1 = "pfsCacheFree (Some i) s"
    note rel = release_chunk [OF rdy s(1,2,3)]
    have m1: "pmount ?s1 = ?m" using rel(2) by (simp add: keeps_def)
    have Cn: "?C < nch" using C s(4) by simp
    obtain j s2 where g: "pfsCacheGetData D ?sub (bitmap_sector (pmount ?s1) (ucast ?sub) (of_nat ?C)) PFS_CACHE_FLAG_BITMAP ?s1 = Some ((Some j, 0), s2)"
      and h: "pfs_good D img ok s2" "keeps img ?s1 s2" "held img (chunk_blk (pmount ?s1) ?sub ?C) ?s1 j s2"
      using get_chunk [OF rel(1) keeps_bitmap(1) [OF rel(2) pl] Cn] by blast
    show ?thesis
      by (rule that [of j s2]) (use g h False rel keeps_trans [OF rel(2) h(2)] in \<open>simp_all add: held_def m1 m C_nat\<close>)
  qed
  have m2: "pmount s2 = ?m" "pfsCacheNumBuffers s2 = pfsCacheNumBuffers s0" using k2 by (simp_all add: keeps_def)
  have pl2: "bitmap_plain s2 ?sub nch" by (rule keeps_bitmap(1) [OF k2 pl])
  have n: "unat (bi_count bi1) = ?n"
  proof (cases "zr_count r < ucast (bi_count bi)")
    case True
    then have lt: "unat (zr_count r) < unat (bi_count bi)" by (simp add: word_less_nat_alt unat_wide)
    then have "unat (ucast (zr_count r) :: u16) = unat (zr_count r)"
      using unsigned_less [of "bi_count bi", where ?'a = nat] by (simp add: unsigned_ucast_eq take_bit_nat_eq_self)
    then show ?thesis using True lt by (simp add: bi1_def)
  next
    case False
    then have "unat (bi_count bi) \<le> unat (zr_count r)" by (simp add: word_less_nat_alt unat_wide not_less)
    then show ?thesis using False by (simp add: bi1_def)
  qed
  have st: "run_start r + ?n \<le> pos" using run(1) by simp
  have "8192 * (c + 1) \<le> 8192 * nch" by (rule mult_le_mono2) (use s(4) in simp)
  with r(2) have le: "pos \<le> 8192 * nch" by (rule le_trans)
  have "8192 * nch \<le> 2 ^ 32" using pl by (simp add: bitmap_plain_def)
  then have small: "run_start r < 2 ^ 32" using run(1) cnt le by linarith
  have num: "unat (bi_number bi1) = run_start r" using start_number [OF small] by (simp add: bi1_def)
  have a: "run_start r = 8192 * ?C + (32 * unat (zr_startPos r) + unat (zr_startBit r))" by (simp add: run_start_def)
  have cn: "unat (ucast (bi_count bi1) :: u32) = ?n" by (simp add: n unat_wide)
  have pre: "8192 * ?C + (32 * unat (zr_startPos r) + unat (zr_startBit r)) + unat (ucast (bi_count bi1) :: u32) \<le> 8192 * nch"
    unfolding cn a [symmetric] using st le by linarith
  have Cn: "?C < nch" using C s(4) by simp
  obtain t where t: "pfsBitmapAllocFree D (Some j) PFS_BITMAP_ALLOC (ucast ?sub) (of_nat ?C) (zr_startPos r) (zr_startBit r) (ucast (bi_count bi1)) s2 = Some t"
     "ready D img ok t" "qused t = ?U" "pmount t = pmount s2" "run_put img ?sub nch True (run_start r) ?n s2 t"
    using alloc_free_run [OF g2 j _ u2 U(1) _ pl2 Cn run(2,3) pre, of PFS_BITMAP_ALLOC] key2 U(2) m2 unfolding cn a [symmetric] by auto
  have "run_put img ?sub nch True (run_start r) (0 + ?n) s0 t"
    by (rule run_put_trans [OF keeps_run [OF k2 pl]]) (use t(5) m2 in simp_all)
  then have "took D img ok bi s0 bi1 t"
    using run(4) st le t m2 nch by (simp add: took_def Let_def num n) (simp add: bi1_def)
  moreover have "take_run D i bi r s = Some (bi1, t)"
    unfolding take_run_def Let_def bi1_def [symmetric] got using t(1) by (simp add: C_nat)
  ultimately show ?thesis using n by blast
qed

lemma zone_limit_bound: "zone_limit D m sub \<le> 8192 * sub_chunks D m sub"
proof (cases "partitionRemainder (sub_info D m sub 0) = 0")
  case True
  then show ?thesis by (simp add: zone_limit_def sub_chunks_def word_bits_def)
next
  case False
  have "unat (partitionRemainder (sub_info D m sub 0) div 8) < 1024" using sub_bounds(2) [of D m sub] by (simp add: unat_div)
  then show ?thesis using word_bits_words(2) [of "unat (partitionRemainder (sub_info D m sub 0) div 8)"] False
    by (simp add: zone_limit_def sub_chunks_def)
qed

lemma took_keeps:
  assumes k: "keeps img s s2" "qused s2 = qused s" and pl: "bitmap_plain s (bi_subpart bi) (sub_chunks D (pmount s) (bi_subpart bi))"
    and took: "took D img ok bi s2 bi1 t"
  shows "took D img ok bi s bi1 t"
proof -
  let ?sub = "bi_subpart bi" and ?nch = "sub_chunks D (pmount s) (bi_subpart bi)" and ?a = "unat (bi_number bi1)" and ?n = "unat (bi_count bi1)"
  have m: "pmount s2 = pmount s" using k(1) by (simp add: keeps_def)
  have t: "bi_subpart bi1 = ?sub" "?a + ?n \<le> 8192 * ?nch" "\<And>z. ?a \<le> z \<Longrightarrow> z < ?a + ?n \<Longrightarrow> \<not> zone_used (pfs_view img s2) (pmount s) ?sub z"
    "run_put img ?sub ?nch True ?a ?n s2 t" "ready D img ok t" "qused t = qused s" "pmount t = pmount s"
    using took k(2) by (auto simp: took_def Let_def m)
  have "run_put img ?sub ?nch True ?a (0 + ?n) s t"
    by (rule run_put_trans [OF keeps_run [OF k(1) pl]]) (use t(4) m in simp_all)
  moreover have "\<not> zone_used (pfs_view img s) (pmount s) ?sub z" if "?a \<le> z" "z < ?a + ?n" for z
    using t(3) [OF that] keeps_bitmap(2) [OF k(1) pl, of z] that t(2) m by simp
  ultimately show ?thesis using t by (simp add: took_def Let_def)
qed

lemma search_chunks_run:
  assumes "ready D img ok s" "bitmap_plain s (bi_subpart bi) (sub_chunks D (pmount s) (bi_subpart bi))"
    and "of_sub D (pmount s) (bi_subpart bi) info" "unat (bm_index info) < 256" "unat (bm_bit info) < 32"
    and "chunk_in info \<Longrightarrow> run_inv (\<lambda>z. \<not> zone_used (pfs_view img s) (pmount s) (bi_subpart bi) z) r
       (8192 * unat (bm_chunk info) + (32 * unat (bm_index info) + unat (bm_bit info)))"
    and "unat (zr_count r) < unat amount"
  shows "\<exists>found bi1 t. search_chunks D bi amount info r s = Some ((found, bi1), t) \<and>
     (found \<longrightarrow> took D img ok bi s bi1 t \<and> unat (bi_count bi1) = min (unat (bi_count bi)) (unat amount)) \<and>
     (\<not> found \<longrightarrow> bi1 = bi \<and> ready D img ok t \<and> keeps img s t \<and> qused t = qused s \<and>
        (amount = 1 \<longrightarrow> (\<forall>z. 8192 * unat (bm_chunk info) + (32 * unat (bm_index info) + unat (bm_bit info)) \<le> z \<and>
           z < zone_limit D (pmount s) (bi_subpart bi) \<longrightarrow> zone_used (pfs_view img s) (pmount s) (bi_subpart bi) z)))"
  using assms
proof (induction "sub_chunks D (pmount s) (bi_subpart bi) - unat (bm_chunk info)" arbitrary: s info r rule: less_induct)
  case less
  let ?sub = "bi_subpart bi" and ?m = "pmount s" and ?c = "unat (bm_chunk info)"
  let ?nch = "sub_chunks D ?m ?sub" and ?free = "\<lambda>z. \<not> zone_used (pfs_view img s) (pmount s) (bi_subpart bi) z"
  let ?p = "32 * unat (bm_index info) + unat (bm_bit info)"
  have cin: "chunk_in info \<longleftrightarrow> ?c < ?nch" by (rule chunk_in_iff [OF less.prems(3)])
  show ?case
  proof (cases "chunk_in info")
    case False
    have lim: "zone_limit D ?m ?sub \<le> 8192 * ?nch" by (rule zone_limit_bound)
    have "8192 * ?nch \<le> 8192 * ?c" using False cin by simp
    then have "\<not> (8192 * ?c + ?p \<le> z \<and> z < zone_limit D ?m ?sub)" for z using lim by linarith
    moreover have "search_chunks D bi amount info r s = Some ((False, bi), s)" using False by (simp add: search_chunks.simps)
    ultimately show ?thesis using less.prems(1) by (auto simp: keeps_def)
  next
    case True
    then have c: "?c < ?nch" using cin by simp
    have c19: "?c < 2 ^ 19" using c sub_chunks_bound [of D ?m ?sub] by linarith
    have Cn: "of_nat ?c = bm_chunk info" by simp
    obtain i s1 where g: "pfsCacheGetData D ?sub (bitmap_sector ?m (ucast ?sub) (bm_chunk info)) PFS_CACHE_FLAG_BITMAP s = Some ((Some i, 0), s1)"
      and g1: "pfs_good D img ok s1" and k1: "keeps img s s1" and h1: "held img (chunk_blk ?m ?sub ?c) s i s1"
      using get_chunk [OF less.prems(1,2) c] by (auto simp: Cn)
    have data: "q_data (pfsCacheBuf s1 i) = pfs_view img s (chunk_blk ?m ?sub ?c)"
      using h1 k1 bitmap_plainD [OF less.prems(2) c] unfolding held_def keeps_def same_plain_def by metis
    note bm = bitmap_max_cases [OF less.prems(3) refl c]
    obtain found r1 where sb: "search_bits (bitmap_max info) amount (bm_chunk info) (unat (bm_index info)) (unat (bm_bit info)) r (q_data (pfsCacheBuf s1 i)) = (found, r1)"
      by fastforce
    have bits: "?free (8192 * ?c + p) = (\<not> zbit (q_data (pfsCacheBuf s1 i)) p)" if "p < 8192" for p
      using that by (simp add: zone_used_def data)
    have b32: "unat (bm_bit info) \<le> 32" using less.prems(5) by simp
    have sb': "search_bits (bitmap_max info) amount (of_nat ?c) (unat (bm_index info)) (unat (bm_bit info)) r (q_data (pfsCacheBuf s1 i)) = (found, r1)"
      using sb by simp
    have sr: "(found \<longrightarrow> zr_count r1 = amount \<and> (\<exists>pos \<le> word_bits (bitmap_max info). run_inv ?free r1 (8192 * ?c + pos))) \<and>
     (\<not> found \<longrightarrow> unat (zr_count r1) < unat amount \<and> (?p \<le> word_bits (bitmap_max info) \<longrightarrow> run_inv ?free r1 (8192 * ?c + word_bits (bitmap_max info))) \<and>
        (amount = 1 \<longrightarrow> (\<forall>p. ?p \<le> p \<and> p < word_bits (bitmap_max info) \<longrightarrow> zbit (q_data (pfsCacheBuf s1 i)) p)))"
      by (rule search_bits_run [where free = ?free, OF sb' bm(1) b32 c19 less.prems(6) [OF True] less.prems(7)]) (rule bits)
    note fnd = sr [THEN conjunct1, rule_format] and nf = sr [THEN conjunct2, rule_format, THEN conjunct1]
      sr [THEN conjunct2, rule_format, THEN conjunct2, THEN conjunct1, rule_format]
      sr [THEN conjunct2, rule_format, THEN conjunct2, THEN conjunct2, rule_format, OF _ _ conjI]
    let ?info = "info\<lparr>bm_chunk := bm_chunk info + 1, bm_index := 0,
                      bm_bit := (if 4 * unat (bm_index info) < bitmap_max info then 0 else bm_bit info)\<rparr>"
    have step: "search_chunks D bi amount info r s = (if found then map_option (\<lambda>(bi1, s2). ((True, bi1), s2)) (take_run D i bi r1 s1)
        else search_chunks D bi amount ?info r1 (pfsCacheFree (Some i) s1))"
      by (subst search_chunks.simps) (simp add: True g sb)
    show ?thesis
    proof (cases found)
      case True
      obtain pos where pos: "pos \<le> word_bits (bitmap_max info)" "run_inv ?free r1 (8192 * ?c + pos)" and am: "zr_count r1 = amount"
        using fnd [OF True] by blast
      have "8192 * ?c + pos \<le> 8192 * (?c + 1)" using pos(1) bm(2) by linarith
      moreover have "zr_count r1 \<noteq> 0" using am less.prems(7) by (auto simp: word_less_nat_alt)
      ultimately obtain bi1 t where "take_run D i bi r1 s1 = Some (bi1, t)" "took D img ok bi s bi1 t"
        "unat (bi_count bi1) = min (unat (bi_count bi)) (unat (zr_count r1))"
        using take_run_ok [OF less.prems(1,2) refl g1 k1 h1 c pos(2)] by blast
      then show ?thesis using step True am by (auto intro!: exI [of _ True])
    next
      case False
      note rel = release_chunk [OF less.prems(1) g1 k1 h1]
      let ?s2 = "pfsCacheFree (Some i) s1"
      have m2: "pmount s1 = ?m" "pmount ?s2 = ?m" using k1 by (simp_all add: keeps_def)
      have nc: "unat (bm_chunk info + 1) = ?c + 1" using c19 by (simp add: unat_word_ariths)
      have zu: "zone_used (pfs_view img ?s2) (pmount ?s2) ?sub z = zone_used (pfs_view img s) ?m ?sub z" if "z < 8192 * ?nch" for z
        by (rule keeps_bitmap(2) [OF rel(2) less.prems(2) that])
      have ri: "run_inv (\<lambda>z. \<not> zone_used (pfs_view img ?s2) (pmount ?s2) ?sub z) r1
          (8192 * unat (bm_chunk ?info) + (32 * unat (bm_index ?info) + unat (bm_bit ?info)))" if ci: "chunk_in ?info"
      proof -
        have c1: "?c + 1 < ?nch" using ci chunk_in_iff [of D ?m ?sub ?info] less.prems(3) nc by (simp add: of_sub_def)
        have full: "word_bits (bitmap_max info) = 8192" by (rule bm(3) [OF c1])
        have mx: "4 * unat (bm_index info) < bitmap_max info"
          using full less.prems(4) word_bits_words(1) [of "unat (bm_index info)" "bitmap_max info"] by simp
        have "?p \<le> 8192" using less.prems(4,5) by simp
        then have "run_inv ?free r1 (8192 * (?c + 1))" using nf(2) [OF False] full by (simp add: algebra_simps)
        then have "run_inv (\<lambda>z. \<not> zone_used (pfs_view img ?s2) (pmount ?s2) ?sub z) r1 (8192 * (?c + 1))"
          using zu c1 by (auto simp: run_inv_def)
        then show ?thesis using less.prems(4) mx by (simp add: nc)
      qed
      have "\<exists>found bi1 t. search_chunks D bi amount ?info r1 ?s2 = Some ((found, bi1), t) \<and>
         (found \<longrightarrow> took D img ok bi ?s2 bi1 t \<and> unat (bi_count bi1) = min (unat (bi_count bi)) (unat amount)) \<and>
         (\<not> found \<longrightarrow> bi1 = bi \<and> ready D img ok t \<and> keeps img ?s2 t \<and> qused t = qused ?s2 \<and>
            (amount = 1 \<longrightarrow> (\<forall>z. 8192 * unat (bm_chunk ?info) + (32 * unat (bm_index ?info) + unat (bm_bit ?info)) \<le> z \<and>
               z < zone_limit D (pmount ?s2) ?sub \<longrightarrow> zone_used (pfs_view img ?s2) (pmount ?s2) ?sub z)))"
      proof (rule less.hyps)
        show "sub_chunks D (pmount ?s2) ?sub - unat (bm_chunk ?info) < ?nch - ?c" using c nc by (simp add: m2)
        show "bitmap_plain ?s2 ?sub (sub_chunks D (pmount ?s2) ?sub)" using keeps_bitmap(1) [OF rel(2) less.prems(2)] by (simp add: m2)
      qed (use rel less.prems nf(1) [OF False] ri in \<open>simp_all add: m2 of_sub_def\<close>)
      then obtain found' bi1 t where rest: "search_chunks D bi amount ?info r1 ?s2 = Some ((found', bi1), t)"
         "found' \<Longrightarrow> took D img ok bi ?s2 bi1 t \<and> unat (bi_count bi1) = min (unat (bi_count bi)) (unat amount)"
         "\<not> found' \<Longrightarrow> bi1 = bi \<and> ready D img ok t \<and> keeps img ?s2 t \<and> qused t = qused ?s2"
         "\<not> found' \<Longrightarrow> amount = 1 \<Longrightarrow> 8192 * unat (bm_chunk ?info) + (32 * unat (bm_index ?info) + unat (bm_bit ?info)) \<le> z \<Longrightarrow>
            z < zone_limit D (pmount ?s2) ?sub \<Longrightarrow> zone_used (pfs_view img ?s2) (pmount ?s2) ?sub z" for z by blast
      have tk: "found' \<Longrightarrow> took D img ok bi s bi1 t" by (rule took_keeps [OF rel(2,3) less.prems(2)]) (use rest(2) in blast)
      have used: "zone_used (pfs_view img s) ?m ?sub z"
        if "\<not> found'" "amount = 1" "8192 * ?c + ?p \<le> z" "z < zone_limit D ?m ?sub" for z
      proof -
        have zn: "z < 8192 * ?nch" using that(4) zone_limit_bound [of D ?m ?sub] by linarith
        show ?thesis
        proof (cases "z < 8192 * (?c + 1)")
          case True
          then have zd: "z div 8192 = ?c" using that(3) by (simp add: div_nat_eqI mult.commute)
          have zm: "z = 8192 * ?c + z mod 8192" using zd by (metis mult_div_mod_eq)
          have "z mod 8192 < word_bits (bitmap_max info)"
          proof (cases "?c + 1 < ?nch")
            case True
            then show ?thesis using bm(3) by simp
          next
            case False
            then have "zone_limit D ?m ?sub = 8192 * ?c + word_bits (bitmap_max info)" using bm(4) by blast
            then show ?thesis using that(4) zm by linarith
          qed
          moreover have "?p \<le> z mod 8192" using that(3) zm by linarith
          ultimately have "zbit (q_data (pfsCacheBuf s1 i)) (z mod 8192)" using nf(3) [OF False that(2)] by blast
          then show ?thesis by (simp add: zone_used_def data zd)
        next
          case False': False
          have c1: "?c + 1 < ?nch"
          proof (rule ccontr)
            assume "\<not> ?c + 1 < ?nch"
            then have "8192 * ?nch \<le> 8192 * (?c + 1)" by simp
            then show False using zn False' by linarith
          qed
          have mx: "4 * unat (bm_index info) < bitmap_max info"
            using bm(3) [OF c1] less.prems(4) word_bits_words(1) [of "unat (bm_index info)" "bitmap_max info"] by simp
          have "8192 * unat (bm_chunk ?info) + (32 * unat (bm_index ?info) + unat (bm_bit ?info)) \<le> z"
            using False' less.prems(4) mx nc by simp
          from rest(4) [OF that(1,2) this] show ?thesis using that(4) zu [OF zn] by (simp add: m2)
        qed
      qed
      have "search_chunks D bi amount info r s = Some ((found', bi1), t)" using step False rest(1) by simp
      moreover have "\<not> found' \<Longrightarrow> bi1 = bi \<and> ready D img ok t \<and> keeps img s t \<and> qused t = qused s"
        using rest(3) keeps_trans [OF rel(2)] rel(3) by simp
      ultimately show ?thesis using tk rest(2) used by blast
    qed
  qed
qed

lemma alloc_zones_run:
  assumes "ready D img ok s" "bitmap_plain s (bi_subpart bi) (sub_chunks D (pmount s) (bi_subpart bi))" "0 < unat amount"
  shows "\<exists>found bi1 t. pfsBitmapAllocZones D bi amount s = Some ((found, bi1), t) \<and>
     (found \<longrightarrow> took D img ok bi s bi1 t \<and> unat (bi_count bi1) = min (unat (bi_count bi)) (unat amount)) \<and>
     (\<not> found \<longrightarrow> bi1 = bi \<and> ready D img ok t \<and> keeps img s t \<and> qused t = qused s \<and>
        (amount = 1 \<longrightarrow> (\<forall>z. unat (bi_number bi) \<le> z \<and> z < zone_limit D (pmount s) (bi_subpart bi) \<longrightarrow>
           zone_used (pfs_view img s) (pmount s) (bi_subpart bi) z)))"
proof -
  let ?info = "sub_info D (pmount s) (bi_subpart bi) (bi_number bi)"
  let ?r = "\<lparr>zr_count = 0, zr_startBit = 0, zr_startPos = 0, zr_startChunk = 0\<rparr>"
  note f = sub_info_fields [of D "pmount s" "bi_subpart bi" "bi_number bi"]
  have i: "unat (bm_index ?info) < 256" "unat (bm_bit ?info) < 32" by (simp_all add: f)
  have "unat (bi_number bi) mod 32 = unat (bi_number bi) mod 8192 mod 32" by (simp add: mod_mod_cancel)
  then have p: "8192 * unat (bm_chunk ?info) + (32 * unat (bm_index ?info) + unat (bm_bit ?info)) = unat (bi_number bi)"
    unfolding f by (metis mult_div_mod_eq)
  have e: "pfsBitmapAllocZones D bi amount s = search_chunks D bi amount ?info ?r s"
    by (simp add: pfsBitmapAllocZones_def sub_info_def)
  show ?thesis unfolding e p [symmetric]
    by (rule search_chunks_run [OF assms(1,2) f(1) i]) (use assms(3) in \<open>simp_all add: run_inv_def\<close>)
qed

text \<open>The zones come out of the count of free zones of the sub-partition and of the mount.\<close>

definition allocated ::
    "'d blk_dev \<Rightarrow> ('d \<Rightarrow> image) \<Rightarrow> ('d \<Rightarrow> bool) \<Rightarrow> ('d, 'z) pfs_state_scheme \<Rightarrow> pfs_blockinfo \<Rightarrow> ('d, 'z) pfs_state_scheme \<Rightarrow> bool" where
  "allocated D img ok s bi1 t \<longleftrightarrow> (\<exists>u. took D img ok bi1 s bi1 u \<and>
     sub_free (ucast (bi_subpart bi1)) (\<lambda>z. z - ucast (bi_count bi1)) u = Some t)"

lemma allocated_keeps:
  assumes "keeps img s s2" "qused s2 = qused s" "bitmap_plain s (bi_subpart bi1) (sub_chunks D (pmount s) (bi_subpart bi1))"
    and "allocated D img ok s2 bi1 t"
  shows "allocated D img ok s bi1 t"
  using assms(4) took_keeps [OF assms(1-3)] unfolding allocated_def by blast

lemma try_zones_run:
  assumes "ready D img ok s" "bitmap_plain s (bi_subpart bi) (sub_chunks D (pmount s) (bi_subpart bi))"
    and "unat (bi_subpart bi) < length (free_zone (pmount s))" "n < 2 ^ 32" "0 < bi_count bi"
  shows "\<exists>found bi1 t. try_zones D n bi s = Some ((found, bi1), t) \<and>
     (found \<longrightarrow> bi_subpart bi1 = bi_subpart bi \<and> bi_count bi1 \<le> bi_count bi \<and> 0 < bi_count bi1 \<and> allocated D img ok s bi1 t) \<and>
     (\<not> found \<longrightarrow> bi1 = bi \<and> ready D img ok t \<and> keeps img s t \<and> qused t = qused s \<and>
        (0 < n \<longrightarrow> 0 < free_zone (pmount s) ! unat (bi_subpart bi) \<longrightarrow>
          (\<forall>z. unat (bi_number bi) \<le> z \<and> z < zone_limit D (pmount s) (bi_subpart bi) \<longrightarrow>
             zone_used (pfs_view img s) (pmount s) (bi_subpart bi) z)))"
  using assms
proof (induction n arbitrary: s rule: less_induct)
  case (less n)
  let ?sub = "bi_subpart bi" and ?m = "pmount s"
  show ?case
  proof (cases "n = 0")
    case True
    then show ?thesis using less.prems(1) by (auto simp: try_zones.simps keeps_def)
  next
    case False
    have un: "unat (of_nat n :: u32) = n" using less.prems(4) by (simp add: unat_of_nat)
    let ?call = "of_nat n \<le> free_zone ?m ! unat ?sub"
    obtain found bi1 t where call: "(if ?call then pfsBitmapAllocZones D bi (of_nat n) s else Some ((False, bi), s)) = Some ((found, bi1), t)"
      and ok: "found \<Longrightarrow> took D img ok bi s bi1 t \<and> unat (bi_count bi1) = min (unat (bi_count bi)) n"
      and no: "\<not> found \<Longrightarrow> bi1 = bi \<and> ready D img ok t \<and> keeps img s t \<and> qused t = qused s"
      and full: "\<not> found \<Longrightarrow> ?call \<Longrightarrow> n = 1 \<Longrightarrow> unat (bi_number bi) \<le> z \<Longrightarrow> z < zone_limit D ?m ?sub \<Longrightarrow>
           zone_used (pfs_view img s) ?m ?sub z" for z
    proof (cases ?call)
      case True
      have pos: "0 < unat (of_nat n :: u32)" using False un by simp
      have one: "n = 1 \<Longrightarrow> (of_nat n :: u32) = 1" by simp
      obtain f b t where az: "pfsBitmapAllocZones D bi (of_nat n) s = Some ((f, b), t)"
        "f \<longrightarrow> took D img ok bi s b t \<and> unat (bi_count b) = min (unat (bi_count bi)) (unat (of_nat n :: u32))"
        "\<not> f \<longrightarrow> b = bi \<and> ready D img ok t \<and> keeps img s t \<and> qused t = qused s \<and>
          ((of_nat n :: u32) = 1 \<longrightarrow> (\<forall>z. unat (bi_number bi) \<le> z \<and> z < zone_limit D ?m ?sub \<longrightarrow> zone_used (pfs_view img s) ?m ?sub z))"
        using alloc_zones_run [OF less.prems(1,2) pos] by blast
      show ?thesis
      proof (rule that [of f b t])
        show "(if ?call then pfsBitmapAllocZones D bi (of_nat n) s else Some ((False, bi), s)) = Some ((f, b), t)" using True az(1) by simp
        show "f \<Longrightarrow> took D img ok bi s b t \<and> unat (bi_count b) = min (unat (bi_count bi)) n" using az(2) unfolding un by blast
        show "\<not> f \<Longrightarrow> b = bi \<and> ready D img ok t \<and> keeps img s t \<and> qused t = qused s" using az(3) by blast
        show "\<not> f \<Longrightarrow> ?call \<Longrightarrow> n = 1 \<Longrightarrow> unat (bi_number bi) \<le> z \<Longrightarrow> z < zone_limit D ?m ?sub \<Longrightarrow> zone_used (pfs_view img s) ?m ?sub z" for z
          using az(3) one by blast
      qed
    next
      case no_call: False
      show ?thesis by (rule that [of False bi s]) (use no_call less.prems(1) in \<open>auto simp: keeps_def\<close>)
    qed
    have step: "try_zones D n bi s = (if found then map_option (\<lambda>s2. ((True, bi1), s2)) (sub_free (ucast (bi_subpart bi1)) (\<lambda>z. z - ucast (bi_count bi1)) t)
        else try_zones D (n div 2) bi1 t)"
      using call False less.prems(3) by (subst try_zones.simps) simp
    show ?thesis
    proof (cases found)
      case True
      have tk: "bi_subpart bi1 = ?sub" "pmount t = ?m" "took D img ok bi1 s bi1 t" using ok [OF True] by (auto simp: took_def Let_def)
      obtain u where u: "sub_free (ucast (bi_subpart bi1)) (\<lambda>z. z - ucast (bi_count bi1)) t = Some u"
        using less.prems(3) tk by (simp add: sub_free_def unat_wide)
      have al: "allocated D img ok s bi1 u" unfolding allocated_def using tk(3) u by blast
      have "bi_count bi1 \<le> bi_count bi" "0 < bi_count bi1"
        using ok [OF True] less.prems(5) False by (auto simp: word_le_nat_alt word_less_nat_alt)
      then show ?thesis using step True u tk(1) al by (auto intro!: exI [of _ True])
    next
      case nf: False
      note no = no [OF nf]
      have k: "keeps img s t" using no by blast
      have m: "pmount t = ?m" using k by (simp add: keeps_def)
      have pl: "bitmap_plain t ?sub (sub_chunks D (pmount t) ?sub)" unfolding m by (rule keeps_bitmap(1) [OF k less.prems(2)])
      have lt: "n div 2 < n" using False by simp
      have n2: "n div 2 < 2 ^ 32" using less.prems(4) by simp
      have len: "unat ?sub < length (free_zone (pmount t))" unfolding m by (rule less.prems(3))
      have rt: "ready D img ok t" using no by blast
      obtain found' b2 u where r: "try_zones D (n div 2) bi t = Some ((found', b2), u)"
        and r2: "found' \<longrightarrow> bi_subpart b2 = ?sub \<and> bi_count b2 \<le> bi_count bi \<and> 0 < bi_count b2 \<and> allocated D img ok t b2 u"
        and r3: "\<not> found' \<longrightarrow> b2 = bi \<and> ready D img ok u \<and> keeps img t u \<and> qused u = qused t \<and>
          (0 < n div 2 \<longrightarrow> 0 < free_zone (pmount t) ! unat ?sub \<longrightarrow> (\<forall>z. unat (bi_number bi) \<le> z \<and>
            z < zone_limit D (pmount t) ?sub \<longrightarrow> zone_used (pfs_view img t) (pmount t) ?sub z))"
        using less.IH [OF lt rt pl len n2 less.prems(5)] by (elim exE conjE) (rule that; assumption)
      have "try_zones D n bi s = Some ((found', b2), u)" using step nf r no by simp
      moreover have "found' \<Longrightarrow> bi_subpart b2 = ?sub \<and> bi_count b2 \<le> bi_count bi \<and> 0 < bi_count b2 \<and> allocated D img ok s b2 u"
        using r2 no allocated_keeps [OF k, of b2 D ok u] less.prems(2) by auto
      moreover have "\<not> found' \<Longrightarrow> b2 = bi \<and> ready D img ok u \<and> keeps img s u \<and> qused u = qused s"
        using r3 no keeps_trans [OF k] by auto
      moreover have "zone_used (pfs_view img s) ?m ?sub z"
        if "\<not> found'" "0 < free_zone ?m ! unat ?sub" "unat (bi_number bi) \<le> z" "z < zone_limit D ?m ?sub" for z
      proof (cases "n = 1")
        case True
        have "?call" using that(2) True by (simp add: word_le_nat_alt word_less_nat_alt)
        then show ?thesis using full [OF nf _ True that(3,4)] by blast
      next
        case n: False
        have zn: "z < 8192 * sub_chunks D ?m ?sub" using that(4) zone_limit_bound [of D ?m ?sub] by linarith
        have "0 < n div 2" using n False by simp
        then show ?thesis using r3 that no m keeps_bitmap(2) [OF k less.prems(2) zn] by simp
      qed
      ultimately show ?thesis by blast
    qed
  qed
qed

subsection \<open>Searching the file system\<close>

text \<open>What the search over all sub-partitions relies on: their number and their bitmaps.\<close>

definition subs_ok :: "'d blk_dev \<Rightarrow> ('d, 'z) pfs_state_scheme \<Rightarrow> bool" where
  "subs_ok D s \<longleftrightarrow> unat (num_subs (pmount s)) < length (free_zone (pmount s)) \<and> length (free_zone (pmount s)) \<le> 65 \<and>
     (\<forall>sub. unat sub \<le> unat (num_subs (pmount s)) \<longrightarrow> bitmap_plain s sub (sub_chunks D (pmount s) sub))"

lemma subs_okD:
  assumes "subs_ok D s" "unat sub \<le> unat (num_subs (pmount s))"
  shows "bitmap_plain s sub (sub_chunks D (pmount s) sub)" "unat sub < length (free_zone (pmount s))"
  using assms by (auto simp: subs_ok_def)

lemma subs_ok_keeps: "keeps img s t \<Longrightarrow> subs_ok D s \<Longrightarrow> subs_ok D t"
  using keeps_bitmap(1) by (fastforce simp: subs_ok_def keeps_def)

text \<open>A free zone of sub-partition \<open>g\<close> that a search from its first zone finds.\<close>

definition has_free :: "'d blk_dev \<Rightarrow> ('d \<Rightarrow> image) \<Rightarrow> ('d, 'z) pfs_state_scheme \<Rightarrow> u16 \<Rightarrow> bool" where
  "has_free D img s g \<longleftrightarrow> unat g \<le> unat (num_subs (pmount s)) \<and> 0 < free_zone (pmount s) ! unat g \<and>
     (\<exists>z < zone_limit D (pmount s) g. \<not> zone_used (pfs_view img s) (pmount s) g z)"

lemma has_free_keeps:
  assumes "keeps img s t" "subs_ok D s" "has_free D img s g"
  shows "has_free D img t g"
proof -
  have m: "pmount t = pmount s" using assms(1) by (simp add: keeps_def)
  obtain z where z: "z < zone_limit D (pmount s) g" "\<not> zone_used (pfs_view img s) (pmount s) g z" and g: "unat g \<le> unat (num_subs (pmount s))"
    using assms(3) by (auto simp: has_free_def)
  have "z < 8192 * sub_chunks D (pmount s) g" using z(1) zone_limit_bound [of D "pmount s" g] by linarith
  then have "\<not> zone_used (pfs_view img t) (pmount t) g z"
    using z(2) keeps_bitmap(2) [OF assms(1) subs_okD(1) [OF assms(2) g]] by blast
  then show ?thesis using assms(3) z(1) m by (auto simp: has_free_def)
qed

definition sub_step :: "pfs_mount \<Rightarrow> u16 \<Rightarrow> u16" where
  "sub_step m sub = (if ucast (sub + 1) = num_subs m + 1 then 0 else sub + 1)"

lemma sub_step:
  assumes "subs_ok D s" "unat sub \<le> unat (num_subs (pmount s))"
  shows "unat (sub_step (pmount s) sub) = (unat sub + 1) mod (unat (num_subs (pmount s)) + 1)"
proof -
  have b: "unat (num_subs (pmount s)) < 65" "unat sub < 65" using assms by (auto simp: subs_ok_def)
  have s1: "unat (sub + 1) = unat sub + 1" and n1: "unat (num_subs (pmount s) + 1) = unat (num_subs (pmount s)) + 1"
    using b by (simp_all add: unat_word_ariths)
  have "(ucast (sub + 1) = num_subs (pmount s) + 1) = (unat sub = unat (num_subs (pmount s)))"
    by (simp add: word_unat_eq_iff unat_wide s1 n1)
  then show ?thesis using assms(2) s1 by (auto simp: sub_step_def)
qed

definition found_zone ::
    "'d blk_dev \<Rightarrow> ('d \<Rightarrow> image) \<Rightarrow> ('d \<Rightarrow> bool) \<Rightarrow> u16 \<Rightarrow> ('d, 'z) pfs_state_scheme \<Rightarrow> ((int \<times> pfs_blockinfo) \<times> ('d, 'z) pfs_state_scheme) option \<Rightarrow> bool" where
  "found_zone D img ok n s r \<longleftrightarrow> (\<exists>bi1 t. r = Some ((0, bi1), t) \<and> unat (bi_subpart bi1) \<le> unat (num_subs (pmount s)) \<and>
     bi_count bi1 \<le> n \<and> 0 < bi_count bi1 \<and> allocated D img ok s bi1 t)"

text \<open>One round of the search either ends it or moves on to the next sub-partition.\<close>

lemma search_round:
  assumes "ready D img ok s" "subs_ok D s" "unat (bi_subpart bi) \<le> unat (num_subs (pmount s))" "0 < count" "count < 2 ^ 32" "0 < bi_count bi"
  shows "found_zone D img ok (bi_count bi) s (search_subs D count bi s) \<or>
    (\<exists>t. search_subs D count bi s = search_subs D count (bi\<lparr>bi_number := 0, bi_subpart := sub_step (pmount s) (bi_subpart bi)\<rparr>) t \<and>
       ready D img ok t \<and> keeps img s t \<and> qused t = qused s \<and>
       (bi_number bi = 0 \<longrightarrow> \<not> has_free D img s (bi_subpart bi)))"
proof -
  note pl = subs_okD [OF assms(2,3)]
  obtain found bi1 t where r: "try_zones D count bi s = Some ((found, bi1), t)"
    and y: "found \<longrightarrow> bi_subpart bi1 = bi_subpart bi \<and> bi_count bi1 \<le> bi_count bi \<and> 0 < bi_count bi1 \<and> allocated D img ok s bi1 t"
    and n: "\<not> found \<longrightarrow> bi1 = bi \<and> ready D img ok t \<and> keeps img s t \<and> qused t = qused s \<and>
        (0 < count \<longrightarrow> 0 < free_zone (pmount s) ! unat (bi_subpart bi) \<longrightarrow>
          (\<forall>z. unat (bi_number bi) \<le> z \<and> z < zone_limit D (pmount s) (bi_subpart bi) \<longrightarrow>
             zone_used (pfs_view img s) (pmount s) (bi_subpart bi) z))"
    using try_zones_run [OF assms(1) pl assms(5,6)] by (elim exE conjE) (rule that; assumption)
  show ?thesis
  proof (cases found)
    case True
    then have "search_subs D count bi s = Some ((0, bi1), t)" using r by (simp add: search_subs.simps)
    then show ?thesis using y True assms(3) by (auto simp: found_zone_def)
  next
    case False
    have t: "bi1 = bi" "ready D img ok t" "keeps img s t" "qused t = qused s" using n False by blast+
    have m: "pmount t = pmount s" using t(3) by (simp add: keeps_def)
    have "search_subs D count bi s = search_subs D count (bi\<lparr>bi_number := 0, bi_subpart := sub_step (pmount s) (bi_subpart bi)\<rparr>) t"
      using r False t(1) by (subst search_subs.simps) (simp add: sub_step_def m Let_def)
    moreover have "\<not> has_free D img s (bi_subpart bi)" if "bi_number bi = 0"
      using n False assms(4) that by (auto simp: has_free_def)
    ultimately show ?thesis using t by blast
  qed
qed

lemma found_zone_keeps:
  assumes "keeps img s t" "qused t = qused s" "subs_ok D s" "found_zone D img ok n t r"
  shows "found_zone D img ok n s r"
proof -
  obtain bi1 u where r: "r = Some ((0, bi1), u)" "unat (bi_subpart bi1) \<le> unat (num_subs (pmount t))" "bi_count bi1 \<le> n" "0 < bi_count bi1"
    and al: "allocated D img ok t bi1 u"
    using assms(4) by (auto simp: found_zone_def)
  have le: "unat (bi_subpart bi1) \<le> unat (num_subs (pmount s))" using r(2) assms(1) by (simp add: keeps_def)
  have "allocated D img ok s bi1 u" by (rule allocated_keeps [OF assms(1,2) subs_okD(1) [OF assms(3) le] al])
  then show ?thesis using r le by (auto simp: found_zone_def)
qed

text \<open>From the start of a sub-partition, \<open>d\<close> rounds reach the one with the free zone.\<close>

lemma search_from_zero:
  assumes "ready D img ok s" "subs_ok D s" "unat (bi_subpart bi) \<le> unat (num_subs (pmount s))" "0 < count" "count < 2 ^ 32" "0 < bi_count bi"
    and "bi_number bi = 0" "has_free D img s g" "(unat (bi_subpart bi) + d) mod (unat (num_subs (pmount s)) + 1) = unat g"
  shows "found_zone D img ok (bi_count bi) s (search_subs D count bi s)"
  using assms
proof (induction d arbitrary: s bi)
  case 0
  then have "unat (bi_subpart bi) = unat g" by simp
  then have "bi_subpart bi = g" by (simp add: word_unat_eq_iff)
  then show ?case using search_round [OF 0(1-6)] 0(7,8) by blast
next
  case (Suc d)
  note round = search_round [OF Suc.prems(1-6)]
  show ?case
  proof (cases "found_zone D img ok (bi_count bi) s (search_subs D count bi s)")
    case False
    let ?bi = "bi\<lparr>bi_number := 0, bi_subpart := sub_step (pmount s) (bi_subpart bi)\<rparr>"
    obtain t where t: "search_subs D count bi s = search_subs D count ?bi t" "ready D img ok t" "keeps img s t" "qused t = qused s"
      using round False by blast
    have m: "pmount t = pmount s" using t(3) by (simp add: keeps_def)
    note st = sub_step [OF Suc.prems(2,3)]
    have "found_zone D img ok (bi_count ?bi) t (search_subs D count ?bi t)"
    proof (rule Suc.IH [OF t(2) subs_ok_keeps [OF t(3) Suc.prems(2)]])
      show "unat (bi_subpart ?bi) \<le> unat (num_subs (pmount t))" by (simp add: m st less_Suc_eq_le [symmetric])
      show "has_free D img t g" by (rule has_free_keeps [OF t(3) Suc.prems(2,8)])
      show "(unat (bi_subpart ?bi) + d) mod (unat (num_subs (pmount t)) + 1) = unat g"
        using Suc.prems(9) by (simp add: m st mod_add_left_eq)
    qed (use Suc.prems in simp_all)
    then show ?thesis using found_zone_keeps [OF t(3,4) Suc.prems(2)] t(1) by simp
  qed simp
qed

end
