(* ===== verification/PfsZoneProps.thy ===== *)
theory PfsZoneProps
  imports PfsZones ApaCrash
begin

text \<open>
  What the allocator of zones promises: a search ends and takes free zones whenever a
  sub-partition has one, however often it has to change the sub-partition; freeing undoes an
  allocation; the count of free zones is that of the bitmap. Without a free zone the search
  does not end.
\<close>

subsection \<open>Searching for free zones\<close>


lemma search_found:
  assumes "ready D img ok s" "subs_ok D s" "0 < bi_count bi" "has_free D img s g"
  shows "found_zone D img ok (bi_count bi) s (pfsBitmapSearchFreeZone D bi max_count s)"
proof -
  let ?ns = "num_subs (pmount s)"
  define b where "b = (if ?ns + 1 \<le> ucast (bi_subpart bi) then bi\<lparr>bi_subpart := 0\<rparr> else bi)"
  have small: "unat ?ns < 65" using assms(2) by (auto simp: subs_ok_def)
  then have ns: "unat (?ns + 1) = unat ?ns + 1" by (simp add: unat_word_ariths)
  have sub: "unat (bi_subpart b) \<le> unat ?ns"
    using ns by (auto simp: b_def word_le_nat_alt unat_wide)
  have cnt: "bi_count b = bi_count bi" by (simp add: b_def)
  define n where "n = unat (search_count b max_count)"
  have n: "0 < n" "n < 2 ^ 32"
  proof -
    have "(0 :: u32) < ucast (bi_count b)" using assms(3) cnt by (simp add: word_less_nat_alt unat_wide)
    then show "0 < n" unfolding n_def search_count_def Let_def by (auto simp: word_less_nat_alt split: if_splits)
    show "n < 2 ^ 32" unfolding n_def using unsigned_less [of "search_count b max_count"] by simp
  qed
  have pos: "0 < bi_count b" using assms(3) cnt by simp
  have "found_zone D img ok (bi_count b) s (search_subs D n b s)"
  proof (cases "found_zone D img ok (bi_count b) s (search_subs D n b s)")
    case False
    let ?b = "b\<lparr>bi_number := 0, bi_subpart := sub_step (pmount s) (bi_subpart b)\<rparr>"
    obtain t where t: "search_subs D n b s = search_subs D n ?b t" "ready D img ok t" "keeps img s t" "qused t = qused s"
      using search_round [OF assms(1,2) sub n pos] False by blast
    have m: "pmount t = pmount s" using t(3) by (simp add: keeps_def)
    have s2: "unat (bi_subpart ?b) \<le> unat (num_subs (pmount t))"
      using sub_step [OF assms(2) sub] by (simp add: m less_Suc_eq_le [symmetric])
    define d where "d = unat g + (unat ?ns + 1 - unat (bi_subpart ?b))"
    have d: "(unat (bi_subpart ?b) + d) mod (unat (num_subs (pmount t)) + 1) = unat g"
    proof -
      have "unat (bi_subpart ?b) + d = unat g + (unat ?ns + 1)" using s2 by (simp add: d_def m)
      moreover have "unat g < unat ?ns + 1" using assms(4) by (simp add: has_free_def)
      ultimately show ?thesis by (simp only: m mod_add_self2 mod_less)
    qed
    have "found_zone D img ok (bi_count ?b) t (search_subs D n ?b t)"
      by (rule search_from_zero [OF t(2) subs_ok_keeps [OF t(3) assms(2)] s2 n _ _ has_free_keeps [OF t(3) assms(2,4)] d])
        (use pos in simp_all)
    then show ?thesis using found_zone_keeps [OF t(3,4) assms(2)] t(1) by simp
  qed
  moreover have "pfsBitmapSearchFreeZone D bi max_count s = search_subs D n b s"
    by (simp add: pfsBitmapSearchFreeZone_def b_def n_def Let_def)
  ultimately show ?thesis by (simp add: cnt)
qed

text \<open>
  C24. On a working device, when some sub-partition has a free zone in its bitmap and in its
  counter, \<open>pfsBitmapSearchFreeZone\<close> returns 0 for every start position and every hint: the block
  info names a run of at most the zones asked for, all free before, which are now the only zones
  that have changed, and the counters have gone down by their number.
\<close>

theorem search_free_zone_allocates:
  assumes "ready D img ok s" "subs_ok D s" "0 < bi_count bi" "has_free D img s g"
  shows "\<exists>bi1 t. pfsBitmapSearchFreeZone D bi max_count s = Some ((0, bi1), t) \<and> 0 < bi_count bi1 \<and> bi_count bi1 \<le> bi_count bi \<and>
     unat (bi_subpart bi1) \<le> unat (num_subs (pmount s)) \<and> allocated D img ok s bi1 t"
  using search_found [OF assms, of max_count] unfolding found_zone_def by blast

text \<open>The simulated partition works while no sector is bad.\<close>

lemma sim_blk_good: "blk_good (sim_blk nostat) sim_image good_disk"
proof -
  note ok = sim_env_ok
  have l: "length (sim_image w d l) = 128" for w d l by (simp add: sim_image_def norm128_def)
  have w: "sim_image (w\<lparr>sd_log := sd_log w @ write_events d l n ws\<rparr>) = put_sectors d l n ws (sim_image w)"
    if "length ws = 128 * n" for w d l n ws using that by (simp add: sim_image_def fold_write_events norm128_puts)
  show ?thesis unfolding blk_good_def sim_blk_def sim_env_def
    by (auto simp: good_disk_def l w list_ex_iff) (simp add: sim_image_def)
qed


text \<open>No sub-partition is said to have a free zone.\<close>

definition no_zones :: "('d, 'z) pfs_state_scheme \<Rightarrow> bool" where
  "no_zones s \<longleftrightarrow> unat (num_subs (pmount s)) < length (free_zone (pmount s)) \<and> length (free_zone (pmount s)) \<le> 65 \<and>
     (\<forall>sub \<le> unat (num_subs (pmount s)). free_zone (pmount s) ! sub = 0)"

lemma try_zones_none:
  assumes "no_zones s" "unat (bi_subpart bi) \<le> unat (num_subs (pmount s))" "count < 2 ^ 32"
  shows "try_zones D count bi s = Some ((False, bi), s)"
  using assms(3)
proof (induction count rule: less_induct)
  case (less n)
  have z: "free_zone (pmount s) ! unat (bi_subpart bi) = 0" "\<not> length (free_zone (pmount s)) \<le> unat (bi_subpart bi)"
    using assms(1,2) by (auto simp: no_zones_def)
  have "\<not> of_nat n \<le> (0 :: u32)" if "0 < n"
    using less.prems that by (simp only: word_le_nat_alt) (simp add: unat_of_nat take_bit_nat_eq_self)
  then show ?case using less z by (subst try_zones.simps) (simp del: word_le_0_iff)
qed

lemma sub_step_le:
  assumes "no_zones s" "unat sub \<le> unat (num_subs (pmount s))"
  shows "unat (sub_step (pmount s) sub) \<le> unat (num_subs (pmount s))"
proof -
  have "unat (num_subs (pmount s)) < 65" using assms(1) by (simp add: no_zones_def)
  then show ?thesis using assms(2) by (auto simp: sub_step_def word_unat_eq_iff unat_wide unat_word_ariths)
qed

lemma search_subs_hangs:
  assumes "no_zones s" "unat (bi_subpart bi) \<le> unat (num_subs (pmount s))" "count < 2 ^ 32"
  shows "search_subs D count bi s = None"
proof -
  let ?P = "\<lambda>bi s. \<not> (no_zones s \<and> unat (bi_subpart bi) \<le> unat (num_subs (pmount s)) \<and> count < 2 ^ 32)"
  have "?P bi s" if "search_subs D count bi s = Some r" for r
    using search_subs.raw_induct [of "\<lambda>D n bi s r. \<not> (no_zones s \<and> unat (bi_subpart bi) \<le> unat (num_subs (pmount s)) \<and> n < 2 ^ 32)", OF _ that]
  proof (rule meta_mp)
    fix f D n bi and s :: "('a, 'b) pfs_state_scheme" and r
    assume IH: "\<And>D n bi s r. f D n bi s = Some r \<Longrightarrow> \<not> (no_zones s \<and> unat (bi_subpart bi) \<le> unat (num_subs (pmount s)) \<and> n < 2 ^ 32)"
      and r: "try_zones D n bi s \<bind> (\<lambda>((ok, bi1), s1). if ok then Some ((0, bi1), s1)
        else let sub = bi_subpart bi1 + 1
          in f D n (bi1\<lparr>bi_number := 0, bi_subpart := (if ucast sub = num_subs (pmount s1) + 1 then 0 else sub)\<rparr>) s1) = Some r"
    show "\<not> (no_zones s \<and> unat (bi_subpart bi) \<le> unat (num_subs (pmount s)) \<and> n < 2 ^ 32)"
    proof
      assume a: "no_zones s \<and> unat (bi_subpart bi) \<le> unat (num_subs (pmount s)) \<and> n < 2 ^ 32"
      have "f D n (bi\<lparr>bi_number := 0, bi_subpart := sub_step (pmount s) (bi_subpart bi)\<rparr>) s = Some r"
        using r a try_zones_none [of s bi n D] by (simp add: sub_step_def Let_def)
      from IH [OF this] show False using a sub_step_le by auto
    qed
  qed auto
  then show ?thesis using assms by (cases "search_subs D count bi s") auto
qed

text \<open>
  C39. When the counters of all sub-partitions are 0, \<open>pfsBitmapSearchFreeZone\<close> does not return:
  the loop over the sub-partitions runs while the unsigned \<open>num >= 0\<close>, and the \<open>-ENOSPC\<close> behind it
  is never reached.
\<close>

theorem search_without_space_hangs:
  assumes "no_zones s"
  shows "pfsBitmapSearchFreeZone D bi max_count s = None"
proof -
  define b where "b = (if num_subs (pmount s) + 1 \<le> ucast (bi_subpart bi) then bi\<lparr>bi_subpart := 0\<rparr> else bi)"
  have "unat (num_subs (pmount s)) < 65" using assms by (simp add: no_zones_def)
  then have "unat (num_subs (pmount s) + 1) = unat (num_subs (pmount s)) + 1" by (simp add: unat_word_ariths)
  then have "unat (bi_subpart b) \<le> unat (num_subs (pmount s))" by (auto simp: b_def word_le_nat_alt unat_wide)
  moreover have "unat (search_count b max_count) < 2 ^ 32" using unsigned_less [of "search_count b max_count"] by simp
  ultimately show ?thesis using search_subs_hangs [OF assms] by (simp add: pfsBitmapSearchFreeZone_def b_def Let_def)
qed

text \<open>A partition with the zones of its bitmaps free.\<close>

definition demo_fs :: "nat \<Rightarrow> sim_disk pfs_state" where
  "demo_fs n = (demo_pfs n)\<lparr>pmount := demo_mount\<lparr>free_zone := replicate 65 9\<rparr>\<rparr>"

lemma demo_fs_data:
  "length (q_data (pfsCacheBuf (demo_fs n) i)) = 256"
proof -
  have "\<forall>i. length (q_data (pfsCacheBuf (fold (\<lambda>i t. pfsCacheLink (q_prev (pfsCacheBuf t 0)) i t) is s) i)) = 256"
    if "\<forall>i. length (q_data (pfsCacheBuf s i)) = 256" for "is" and s :: "sim_disk pfs_state"
    by (rule fold_invariant [where P = "\<lambda>s. \<forall>i. length (q_data (pfsCacheBuf s i)) = 256"])
      (use that in \<open>auto simp: pfsCacheLink_def upd_cache_def Let_def\<close>)
  then show ?thesis by (simp add: demo_fs_def demo_pfs_def pfsCacheInit_def Let_def zero_pfs_entry_def demo_pfs_state_def)
qed

lemma demo_fs_ready: "ready (sim_blk True) sim_image good_disk (demo_fs 2)"
proof -
  note q = demo_pfs_queue [of 2, simplified]
  have ss: "same_slots (demo_pfs 2) (demo_fs 2)" by (rule same_slots_cache) (simp_all add: demo_fs_def)
  have "pfs_cache_inv (demo_fs 2)" using q(1) same_slots_queue [OF ss] by (auto simp: pfs_cache_inv_def)
  moreover have "pfsJournalBuf (demo_pfs 2) = empty_pfs_journal"
    by (simp add: demo_pfs_def pfsCacheInit_def Let_def pfs_entries_def upt_rec demo_pfs_state_def pfsCacheLink_def upd_cache_def)
  ultimately have "pfs_good (sim_blk True) sim_image good_disk (demo_fs 2)"
    unfolding pfs_good_def using sim_blk_good q(2-5) demo_fs_data
    by (simp add: demo_fs_def demo_mount_def good_disk_def demo_disk_def coherent_def)
  moreover have "avail (demo_fs 2)" using q(2,6) by (auto simp: avail_def qused_def demo_fs_def intro!: bexI [of _ 1])
  moreover have "users_ok (demo_fs 2)" using q(6) by (simp add: users_ok_def qused_def demo_fs_def)
  ultimately show ?thesis by (simp add: ready_def)
qed

lemma demo_fs_find: "pfs_find k (demo_fs 2) = None"
  using pfs_find_Some [of k "demo_fs 2"] demo_pfs_queue(5) [of 2]
  by (cases "pfs_find k (demo_fs 2)") (auto simp: qkey_def demo_fs_def)

lemma demo_fs_subs: "subs_ok (sim_blk True) (demo_fs 2)"
proof -
  have n: "sub_chunks (sim_blk True) (pmount (demo_fs 2)) sub = 2" for sub
    by (simp add: sub_chunks_def sub_info_def pfsBitmapSetupInfo_def sim_blk_def demo_fs_def demo_mount_def pfsBitsPerBitmapChunk_def Let_def)
  have p: "plain (demo_fs 2) (chunk_blk (pmount (demo_fs 2)) 0 c)" if "c < 2" for c
  proof -
    have c: "c = 0 \<or> c = 1" using that by auto
    have far: "\<not> covers (log_start (pmount (demo_fs 2))) 6 x" if "unat x < 0x2040" for x
    proof
      assume "covers (log_start (pmount (demo_fs 2))) 6 x"
      then obtain k where "k < 6" "x = 0x2040 + of_nat k" by (auto simp: covers_def log_start_def demo_fs_def demo_mount_def)
      then show False using that by (simp add: unat_word_ariths unat_of_nat)
    qed
    have b: "snd (chunk_blk (pmount (demo_fs 2)) 0 c) = of_nat (0x1008 + c)" "fst (chunk_blk (pmount (demo_fs 2)) 0 c) = 0"
      by (simp_all add: chunk_blk_def bitmap_sector_def pfsBlockSize_def demo_fs_def demo_mount_def)
    have "unat (of_nat (0x1008 + c) :: u32) = 0x1008 + c" using that unat_of_nat [of "0x1008 + c", where 'a = 32] by simp
    then have u: "blk_range (chunk_blk (pmount (demo_fs 2)) 0 c)" "unat (snd (chunk_blk (pmount (demo_fs 2)) 0 c)) = 0x1008 + c"
      by (simp_all only: b blk_range_def) (use that in simp)
    show ?thesis unfolding plain_def off_log_def push_block
      using u far unat_block [OF u(1)] that demo_pfs_queue(2) [of 2] by (simp add: demo_fs_find) (simp add: demo_fs_def)
  qed
  have f: "num_subs (pmount (demo_fs 2)) = 0" "length (free_zone (pmount (demo_fs 2))) = 65" by (simp_all add: demo_fs_def demo_mount_def)
  show ?thesis unfolding subs_ok_def bitmap_plain_def n
    using p f by (auto simp: unat_eq_0)
qed

lemma demo_fs_free: "has_free (sim_blk True) sim_image (demo_fs 2) 0"
proof -
  have v: "pfs_view sim_image (demo_fs 2) k = replicate 256 0" for k
    using demo_pfs_queue(4) [of 2] unfolding pfs_view_def demo_fs_find
    by (simp add: pfs_block_def sectors_2 demo_fs_def sim_image_def demo_disk_def norm128_def replicate_add [symmetric])
  show ?thesis unfolding has_free_def zone_used_def v
    by (auto simp: demo_fs_def demo_mount_def zbit_def zone_limit_def sub_info_def pfsBitmapSetupInfo_def sim_blk_def
        pfsBitsPerBitmapChunk_def Let_def word_bits_def intro!: exI [of _ 0])
qed

theorem search_free_zone_allocates_witness:
  "\<exists>bi1 t. pfsBitmapSearchFreeZone (sim_blk True) \<lparr>bi_number = 5, bi_subpart = 0, bi_count = 1\<rparr> 1 (demo_fs 2) = Some ((0, bi1), t) \<and>
     0 < bi_count bi1 \<and> bi_count bi1 \<le> 1 \<and> unat (bi_subpart bi1) \<le> unat (num_subs (pmount (demo_fs 2))) \<and>
     allocated (sim_blk True) sim_image good_disk (demo_fs 2) bi1 t"
  using search_free_zone_allocates [OF demo_fs_ready demo_fs_subs _ demo_fs_free, of "\<lparr>bi_number = 5, bi_subpart = 0, bi_count = 1\<rparr>" 1] by simp

theorem search_without_space_hangs_witness:
  "pfsBitmapSearchFreeZone (sim_blk True) \<lparr>bi_number = 0, bi_subpart = 0, bi_count = 1\<rparr> 1 (demo_pfs 2) = None"
  by (rule search_without_space_hangs) (simp add: no_zones_def demo_pfs_queue demo_mount_def)

subsection \<open>Freeing\<close>

lemma sub_free_run:
  assumes "unat sub < length (free_zone (pmount s))"
  shows "sub_free (ucast (sub :: u16)) f s = Some (s\<lparr>pmount := (pmount s)\<lparr>free_zone := (free_zone (pmount s))[unat sub := f (free_zone (pmount s) ! unat sub)],
     zfree := f (zfree (pmount s))\<rparr>\<rparr>)"
  using assms by (simp add: sub_free_def unat_wide)

lemma free_segment_run:
  assumes r: "ready D img ok s" and pl: "bitmap_plain s (bi_subpart b) nch" and nch: "nch \<le> 2 ^ 19"
    and z: "unat (bi_number b) + unat (bi_count b) \<le> 8192 * nch" "0 < bi_count b"
    and sub: "unat (bi_subpart b) < length (free_zone (pmount s))"
  shows "\<exists>t. pfsBitmapFreeBlockSegment D (\<lambda>_. b) s = sub_free (ucast (bi_subpart b)) (\<lambda>z. z + ucast (bi_count b)) t \<and>
     ready D img ok t \<and> qused t = qused s \<and> pmount t = pmount s \<and> run_put img (bi_subpart b) nch False (unat (bi_number b)) (unat (bi_count b)) s t"
proof -
  let ?sub = "bi_subpart b" and ?a = "unat (bi_number b)" and ?n = "unat (bi_count b)"
  let ?info = "pfsBitmapSetupInfo D (pmount s) (ucast ?sub) (bi_number b)"
  note inf = sub_info_fields(2-4) [of D "pmount s" ?sub "bi_number b", unfolded sub_info_def]
  have n: "0 < ?n" using z(2) by (simp add: word_less_nat_alt)
  have c: "?a div 8192 < nch" using z(1) n by (simp add: div_less_iff_less_mult)
  have ch: "bm_chunk ?info = of_nat (?a div 8192)" by (simp flip: inf(1))
  obtain i t where g: "pfsCacheGetData D ?sub (bitmap_sector (pmount s) (ucast ?sub) (bm_chunk ?info)) PFS_CACHE_FLAG_BITMAP s = Some ((Some i, 0), t)"
    and t: "pfs_good D img ok t" "keeps img s t" "held img (chunk_blk (pmount s) ?sub (?a div 8192)) s i t"
    using get_chunk [OF r pl c] unfolding ch by blast
  have m: "pmount t = pmount s" and nb: "pfsCacheNumBuffers t = pfsCacheNumBuffers s" using t(2) by (simp_all add: keeps_def same_plain_def)
  have pt: "bitmap_plain t ?sub nch" using keeps_bitmap(1) [OF t(2) pl] .
  have h: "i \<in> {1..pfsCacheNumBuffers t}" "qkey t i = Some (chunk_blk (pmount t) ?sub (?a div 8192))" "qused t = (qused s)(i := qused s i + 1)"
    using t(3) by (simp_all add: held_def m)
  have u: "\<forall>j. qused s j \<noteq> - 1" "\<exists>j \<in> {1..pfsCacheNumBuffers t}. qused s j = 0" using r nb by (simp_all add: ready_def users_ok_def avail_def)
  have ix: "unat (bm_index ?info) < 256" "unat (bm_bit ?info) < 32" unfolding inf by (simp_all add: less_mult_imp_div_less)
  have pos: "8192 * (?a div 8192) + (32 * unat (bm_index ?info) + unat (bm_bit ?info)) = ?a"
  proof -
    have "?a mod 32 = ?a mod 8192 mod 32" by (simp add: mod_mod_cancel)
    then show ?thesis unfolding inf by (simp add: mult.commute [of 32])
  qed
  have "8192 * (?a div 8192) + (32 * unat (bm_index ?info) + unat (bm_bit ?info)) + unat (ucast (bi_count b) :: u32) \<le> 8192 * nch"
    unfolding pos unat_wide by (rule z(1))
  note run = alloc_free_run [OF t(1) h u pt c ix this, where operation = PFS_BITMAP_FREE, unfolded pos unat_wide]
  obtain v where v: "pfsBitmapAllocFree D (Some i) PFS_BITMAP_FREE (ucast ?sub) (bm_chunk ?info) (bm_index ?info) (bm_bit ?info)
       (ucast (bi_count b)) t = Some v" "ready D img ok v" "qused v = qused s" "pmount v = pmount t"
     "run_put img ?sub nch False ?a ?n t v"
    using run unfolding ch by (auto simp: PFS_BITMAP_FREE_def PFS_BITMAP_ALLOC_def)
  have "run_put img ?sub nch False ?a ?n s v"
    using run_put_trans [OF keeps_run [OF t(2) pl, where a = ?a] _ m] v(5) by simp
  moreover have "pfsBitmapFreeBlockSegment D (\<lambda>_. b) s = sub_free (ucast ?sub) (\<lambda>z. z + ucast (bi_count b)) v"
    by (simp add: pfsBitmapFreeBlockSegment_def g v(1) Let_def)
  ultimately show ?thesis using v(2-4) m by auto
qed

text \<open>The counters are no part of what the cache and the bitmap hold.\<close>

definition set_counters :: "u32 list \<Rightarrow> u32 \<Rightarrow> ('d, 'z) pfs_state_scheme \<Rightarrow> ('d, 'z) pfs_state_scheme" where
  "set_counters fz z s = s\<lparr>pmount := (pmount s)\<lparr>free_zone := fz, zfree := z\<rparr>\<rparr>"

lemma set_counters_sel:
  "pfsCacheBuf (set_counters fz z s) = pfsCacheBuf s" "pfsCacheNumBuffers (set_counters fz z s) = pfsCacheNumBuffers s"
  "pworld (set_counters fz z s) = pworld s" "pfsJournalBuf (set_counters fz z s) = pfsJournalBuf s"
  "pmount (set_counters fz z s) = (pmount s)\<lparr>free_zone := fz, zfree := z\<rparr>"
  by (simp_all add: set_counters_def)

lemma set_counters_same [simp]:
  "pfs_good D img ok (set_counters fz z s) = pfs_good D img ok s" "qused (set_counters fz z s) = qused s"
  "ready D img ok (set_counters fz z s) = ready D img ok s" "pfs_view img (set_counters fz z s) = pfs_view img s"
  "plain (set_counters fz z s) = plain s" "stored (set_counters fz z s) = stored s"
  "chunk_blk (pmount (set_counters fz z s)) = chunk_blk (pmount s)"
  "bitmap_plain (set_counters fz z s) = bitmap_plain s" "sub_chunks D (pmount (set_counters fz z s)) = sub_chunks D (pmount s)"
proof -
  have ss: "same_slots s (set_counters fz z s)" by (rule same_slots_cache) (simp_all add: set_counters_sel)
  have inv: "pfs_cache_inv (set_counters fz z s) = pfs_cache_inv s" using same_slots_queue [OF ss] by (simp add: pfs_cache_inv_def)
  have log: "off_log ((pmount s)\<lparr>free_zone := fz, zfree := z\<rparr>) = off_log (pmount s)"
    by (simp add: fun_eq_iff off_log_def log_start_def)
  have find: "pfs_find k (set_counters fz z s) = pfs_find k s" for k by (rule pfs_find_slots [OF ss])
  show good: "pfs_good D img ok (set_counters fz z s) = pfs_good D img ok s"
    by (simp add: pfs_good_def inv log set_counters_sel)
  show u: "qused (set_counters fz z s) = qused s" by (simp add: fun_eq_iff qused_def set_counters_sel)
  show "ready D img ok (set_counters fz z s) = ready D img ok s"
    by (simp add: ready_def good avail_def users_ok_def u set_counters_sel)
  show "pfs_view img (set_counters fz z s) = pfs_view img s" by (simp add: fun_eq_iff pfs_view_def find set_counters_sel split: option.split)
  show "stored (set_counters fz z s) = stored s" by (simp add: fun_eq_iff stored_def log set_counters_sel)
  show pl: "plain (set_counters fz z s) = plain s" by (simp add: fun_eq_iff plain_def find log set_counters_sel)
  show cb: "chunk_blk (pmount (set_counters fz z s)) = chunk_blk (pmount s)"
    by (simp add: fun_eq_iff chunk_blk_def bitmap_sector_def set_counters_sel)
  show "bitmap_plain (set_counters fz z s) = bitmap_plain s" by (simp add: fun_eq_iff bitmap_plain_def pl cb)
  show "sub_chunks D (pmount (set_counters fz z s)) = sub_chunks D (pmount s)"
    by (simp add: fun_eq_iff sub_chunks_def sub_info_def pfsBitmapSetupInfo_def set_counters_sel Let_def)
qed

lemma sub_free_counters:
  assumes "unat sub < length (free_zone (pmount s))"
  shows "sub_free (ucast (sub :: u16)) f s = Some (set_counters ((free_zone (pmount s))[unat sub := f (free_zone (pmount s) ! unat sub)])
     (f (zfree (pmount s))) s)"
  using sub_free_run [OF assms] by (simp add: set_counters_def)

lemma zbits_eq:
  assumes "length ws = 256" "length ws' = 256" "\<forall>p < 8192. zbit ws p = zbit ws' p"
  shows "ws = ws'"
proof (rule nth_equalityI)
  fix i assume "i < length ws"
  then have i: "i < 256" using assms(1) by simp
  show "ws ! i = ws' ! i"
  proof (rule bit_word_eqI)
    fix b assume "b < LENGTH(32)"
    then have "32 * i + b < 8192" "(32 * i + b) div 32 = i" "(32 * i + b) mod 32 = b" using i by auto
    then show "bit (ws ! i) b = bit (ws' ! i) b" using assms(3) unfolding zbit_def by metis
  qed
qed (use assms in simp)

text \<open>A run that is taken and given back leaves every plain block as it was.\<close>

lemma run_put_back:
  assumes pl: "bitmap_plain s sub nch" and a: "a + n \<le> 8192 * nch"
    and t: "run_put img sub nch True a n s t" "pmount t = pmount s" "\<forall>z. a \<le> z \<and> z < a + n \<longrightarrow> \<not> zone_used (pfs_view img s) (pmount s) sub z"
    and u: "run_put img sub nch False a n t u" and good: "pfs_good D img ok s" "pfs_good D img ok u"
  shows "same_plain img s u"
proof -
  have plain: "pfs_view img u k = pfs_view img s k" if k: "plain s k" for k
  proof (cases "k \<in> chunk_blk (pmount s) sub ` {..<nch}")
    case False
    then show ?thesis using run_putD(2,3) [OF t(1) k] run_putD(3) [OF u] t(2) by simp
  next
    case True
    then obtain c where c: "c < nch" "k = chunk_blk (pmount s) sub c" by blast
    show ?thesis
    proof (rule zbits_eq)
      show "\<forall>p < 8192. zbit (pfs_view img u k) p = zbit (pfs_view img s k) p"
      proof (intro allI impI)
        fix p :: nat assume p: "p < 8192"
        then have z: "8192 * c + p < 8192 * nch" "(8192 * c + p) div 8192 = c" "(8192 * c + p) mod 8192 = p" using c(1) by auto
        then have "zone_used (pfs_view img u) (pmount s) sub (8192 * c + p) = zone_used (pfs_view img s) (pmount s) sub (8192 * c + p)"
          using run_putD(1) [OF t(1) z(1)] run_putD(1) [OF u z(1)] t(2,3) by auto
        then show "zbit (pfs_view img u k) p = zbit (pfs_view img s k) p" using p by (simp add: zone_used_def z(2,3) c(2))
      qed
    qed (use length_view good in blast)+
  qed
  moreover have "stored u k \<and> tl (pfs_view img u k) = tl (pfs_view img s k)" if k: "stored s k" for k
  proof (cases "k \<in> chunk_blk (pmount s) sub ` {..<nch}")
    case True
    then have "plain s k" using bitmap_plainD [OF pl] by blast
    then show ?thesis using plain run_putD(5) [OF t(1) k] run_putD(5) [OF u] by metis
  next
    case False
    then show ?thesis using run_putD(5,6) [OF t(1) k] run_putD(5,6) [OF u] t(2) by metis
  qed
  moreover have "plain u k" if "plain s k" for k using run_putD(2) [OF t(1) that] run_putD(2) [OF u] by blast
  ultimately show ?thesis unfolding same_plain_def by blast
qed

lemma allocated_free:
  assumes al: "allocated D img ok s b t" and good: "pfs_good D img ok s" and pl: "bitmap_plain s (bi_subpart b) (sub_chunks D (pmount s) (bi_subpart b))"
    and sub: "unat (bi_subpart b) < length (free_zone (pmount s))" and n: "0 < bi_count b"
  shows "\<exists>u. pfsBitmapFreeBlockSegment D (\<lambda>_. b) t = Some u \<and> ready D img ok u \<and> keeps img s u \<and> qused u = qused s"
proof -
  let ?sub = "bi_subpart b" and ?a = "unat (bi_number b)" and ?n = "unat (bi_count b)"
  define nch where "nch = sub_chunks D (pmount s) ?sub"
  obtain v where v: "?a + ?n \<le> 8192 * nch" "\<forall>z. ?a \<le> z \<and> z < ?a + ?n \<longrightarrow> \<not> zone_used (pfs_view img s) (pmount s) ?sub z"
    "run_put img ?sub nch True ?a ?n s v" "ready D img ok v" "qused v = qused s" "pmount v = pmount s"
    and t: "sub_free (ucast ?sub) (\<lambda>z. z - ucast (bi_count b)) v = Some t"
    using al unfolding allocated_def took_def Let_def nch_def by blast
  define fz where "fz = free_zone (pmount s)"
  have t: "t = set_counters (fz[unat ?sub := fz ! unat ?sub - ucast (bi_count b)]) (zfree (pmount s) - ucast (bi_count b)) v"
    using t sub_free_counters [of ?sub v] sub v(6) by (simp add: fz_def)
  have pv: "bitmap_plain v ?sub nch" using run_put_bitmap [OF v(3,6)] pl by (simp add: nch_def)
  have "ready D img ok t" "bitmap_plain t ?sub nch" "unat ?sub < length (free_zone (pmount t))"
    using v(4) pv sub by (simp_all add: t set_counters_sel(5) fz_def)
  then obtain w where w: "pfsBitmapFreeBlockSegment D (\<lambda>_. b) t = sub_free (ucast ?sub) (\<lambda>z. z + ucast (bi_count b)) w"
     "ready D img ok w" "qused w = qused t" "pmount w = pmount t" "run_put img ?sub nch False ?a ?n t w"
    using free_segment_run [of D img ok t b nch] v(1) n sub_chunks_bound by (auto simp: nch_def)
  have "run_put img ?sub nch False ?a ?n v w"
    using w(5) unfolding t run_put_def set_counters_same set_counters_sel(2) zone_used_def .
  then have "same_plain img s w"
    using run_put_back [OF _ v(1,3,6,2) _ good] pl w(2) by (simp add: nch_def ready_def)
  moreover have "sub_free (ucast ?sub) (\<lambda>z. z + ucast (bi_count b)) w = Some (set_counters fz (zfree (pmount s)) w)"
    using sub_free_counters [of ?sub w] sub by (simp add: w(4) t set_counters_sel(5) fz_def)
  moreover have "pfsCacheNumBuffers w = pfsCacheNumBuffers s" using w(5) v(3) by (simp add: run_put_def t set_counters_sel)
  ultimately show ?thesis using w(1-4) v(5,6)
    by (auto simp: keeps_def same_plain_def set_counters_sel t fz_def)
qed

text \<open>
  C25. What \<open>pfsBitmapSearchFreeZone\<close> takes, \<open>pfsBitmapFreeBlockSegment\<close> gives back: after both, the
  mount with all its counters and every block of the partition off the log, seen through the
  cache, hold what they held before the search. (The one exception is the first word of a block
  that the cache holds as an inode or a segment descriptor: a flush brings that checksum up to
  date. The log's own blocks, which a flush rewrites, are not looked at.)
\<close>

theorem free_undoes_search:
  assumes "ready D img ok s" "subs_ok D s" "0 < bi_count bi" "has_free D img s g"
  shows "\<exists>bi1 t u. pfsBitmapSearchFreeZone D bi max_count s = Some ((0, bi1), t) \<and> pfsBitmapFreeBlockSegment D (\<lambda>_. bi1) t = Some u \<and>
     pmount u = pmount s \<and> same_plain img s u"
proof -
  obtain bi1 t where r: "pfsBitmapSearchFreeZone D bi max_count s = Some ((0, bi1), t)" "unat (bi_subpart bi1) \<le> unat (num_subs (pmount s))"
    "0 < bi_count bi1" "allocated D img ok s bi1 t"
    using search_found [OF assms, of max_count] unfolding found_zone_def by blast
  have "pfs_good D img ok s" using assms(1) by (simp add: ready_def)
  from allocated_free [OF r(4) this subs_okD [OF assms(2) r(2)] r(3)] r(1) show ?thesis by (auto simp: keeps_def)
qed

theorem free_undoes_search_witness:
  "\<exists>bi1 t u. pfsBitmapSearchFreeZone (sim_blk True) \<lparr>bi_number = 0, bi_subpart = 0, bi_count = 3\<rparr> 2 (demo_fs 2) = Some ((0, bi1), t) \<and>
     pfsBitmapFreeBlockSegment (sim_blk True) (\<lambda>_. bi1) t = Some u \<and> pmount u = pmount (demo_fs 2) \<and> same_plain sim_image (demo_fs 2) u"
  using free_undoes_search [OF demo_fs_ready demo_fs_subs _ demo_fs_free, of "\<lparr>bi_number = 0, bi_subpart = 0, bi_count = 3\<rparr>" 2] by simp

subsection \<open>Counting free zones\<close>

text \<open>The zones that the count looks at: whole bytes of the last chunk.\<close>

definition byte_limit :: "'d blk_dev \<Rightarrow> pfs_mount \<Rightarrow> u16 \<Rightarrow> nat" where
  "byte_limit D m sub = 8192 * unat (partitionChunks (sub_info D m sub 0)) + 8 * unat (partitionRemainder (sub_info D m sub 0) div 8)"

definition free_zones :: "('d \<Rightarrow> image) \<Rightarrow> ('d, 'z) pfs_state_scheme \<Rightarrow> u16 \<Rightarrow> nat \<Rightarrow> nat \<Rightarrow> nat set" where
  "free_zones img s sub a b = {z. a \<le> z \<and> z < b \<and> \<not> zone_used (pfs_view img s) (pmount s) sub z}"

lemma nibble_table: "n < 16 \<Longrightarrow> pfsFreeZoneBitmap ! n = of_nat (length (filter (\<lambda>b. \<not> bit n b) [0..<4]))"
proof -
  have "\<forall>n \<in> set [0..<16]. pfsFreeZoneBitmap ! n = of_nat (length (filter (\<lambda>b. \<not> bit n b) [0..<4]))"
    by code_simp
  then show "n < 16 \<Longrightarrow> ?thesis" by simp
qed

lemma filter_upt_shift: "filter P [a..<a + n] = map ((+) a) (filter (\<lambda>b. P (a + b)) [0..<n])"
  by (induction n) simp_all

lemma byte_free:
  "pfsFreeZoneBitmap ! unat (x AND 0xF) + pfsFreeZoneBitmap ! unat (drop_bit 4 x) = of_nat (length (filter (\<lambda>b. \<not> bit (x :: u8) b) [0..<8]))"
proof -
  have "(0xF :: u8) = mask 4" by (simp add: mask_eq_exp_minus_1)
  then have m: "x AND 0xF = take_bit 4 x" by (simp only: take_bit_eq_mask)
  have lo: "unat (x AND 0xF) = take_bit 4 (unat x)" unfolding m by (simp add: unsigned_take_bit_eq)
  have "unat x < 2 ^ 8" using unsigned_less [of x] by simp
  moreover from this have hi: "unat (drop_bit 4 x) = drop_bit 4 (unat x)"
    using take_bit_nat_eq_self [of "unat x" 8] by (simp add: unsigned_drop_bit_eq)
  ultimately have l: "take_bit 4 (unat x) < 16" "drop_bit 4 (unat x) < 16" by (simp_all add: take_bit_eq_mod drop_bit_eq_div)
  have e: "filter (\<lambda>b. \<not> bit x b) [0..<8] = filter (\<lambda>b. \<not> bit x b) [0..<4] @ map ((+) 4) (filter (\<lambda>b. \<not> bit x (4 + b)) [0..<4])"
    using upt_add_eq_append [of 0 4 4] filter_upt_shift [of "\<lambda>b. \<not> bit x b" 4 4] by simp
  have "filter (\<lambda>b. \<not> bit (take_bit 4 (unat x)) b) [0..<4] = filter (\<lambda>b. \<not> bit x b) [0..<4]"
    by (rule filter_cong) (auto simp: bit_take_bit_iff bit_unsigned_iff)
  moreover have "filter (\<lambda>b. \<not> bit (drop_bit 4 (unat x)) b) [0..<4] = filter (\<lambda>b. \<not> bit x (4 + b)) [0..<4]"
    by (rule filter_cong) (auto simp: bit_drop_bit_eq bit_unsigned_iff add.commute)
  ultimately show ?thesis unfolding lo hi nibble_table [OF l(1)] nibble_table [OF l(2)] e by simp
qed

lemma bitmap_byte_bit: "b < 8 \<Longrightarrow> bit (bitmap_byte ws i) b = zbit ws (8 * i + b)"
proof -
  assume b: "b < 8"
  define r where "r = 8 * (i mod 4) + b"
  have "i mod 4 < 4" by simp
  then have r: "r < 32" using b by (simp add: r_def)
  have "i = 4 * (i div 4) + i mod 4" by simp
  then have "8 * i + b = 32 * (i div 4) + r" unfolding r_def by linarith
  then have "(8 * i + b) div 32 = i div 4" "(8 * i + b) mod 32 = r" using r by simp_all
  then have "(8 * i + b) div 32 = i div 4" "(8 * i + b) mod 32 = 8 * (i mod 4) + b" by (simp_all only: r_def)
  then show ?thesis using b by (simp only: bitmap_byte_def byte_at_def zbit_def) (simp add: bit_simps)
qed

lemma count_bytes_filter:
  "count_bytes m ws z = z + of_nat (length (filter (\<lambda>p. \<not> zbit ws p) [0..<8 * m]))"
proof (induction m)
  case (Suc m)
  have "filter (\<lambda>b. \<not> zbit ws (8 * m + b)) [0..<8] = filter (\<lambda>b. \<not> bit (bitmap_byte ws m) b) [0..<8]"
    by (rule filter_cong) (auto simp: bitmap_byte_bit)
  then have "filter (\<lambda>p. \<not> zbit ws p) [8 * m..<8 * m + 8] = map ((+) (8 * m)) (filter (\<lambda>b. \<not> bit (bitmap_byte ws m) b) [0..<8])"
    by (simp only: filter_upt_shift)
  then have "length (filter (\<lambda>p. \<not> zbit ws p) [0..<8 * m + 8]) =
      length (filter (\<lambda>p. \<not> zbit ws p) [0..<8 * m]) + length (filter (\<lambda>b. \<not> bit (bitmap_byte ws m) b) [0..<8])"
    by (simp only: upt_add_eq_append [OF le0] filter_append length_append length_map)
  moreover have "count_bytes (Suc m) ws z = count_bytes m ws z + of_nat (length (filter (\<lambda>b. \<not> bit (bitmap_byte ws m) b) [0..<8]))"
    unfolding byte_free [symmetric] by (simp add: count_bytes_def)
  ultimately show ?case using Suc by (simp add: add.commute [of 8])
qed (simp add: count_bytes_def)

lemma count_bytes_chunk:
  assumes "m \<le> 1024"
  shows "count_bytes m (pfs_view img s (chunk_blk (pmount s) sub c)) z = z + of_nat (card (free_zones img s sub (8192 * c) (8192 * c + 8 * m)))"
proof -
  let ?ws = "pfs_view img s (chunk_blk (pmount s) sub c)"
  have "free_zones img s sub (8192 * c) (8192 * c + 8 * m) = (+) (8192 * c) ` set (filter (\<lambda>p. \<not> zbit ?ws p) [0..<8 * m])"
  proof (rule set_eqI)
    fix x
    have *: "zone_used (pfs_view img s) (pmount s) sub (8192 * c + p) = zbit ?ws p" if "p < 8 * m" for p
      using that assms by (simp add: zone_used_def)
    show "x \<in> free_zones img s sub (8192 * c) (8192 * c + 8 * m) \<longleftrightarrow> x \<in> (+) (8192 * c) ` set (filter (\<lambda>p. \<not> zbit ?ws p) [0..<8 * m])"
    proof (cases "8192 * c \<le> x")
      case True
      then obtain p where "x = 8192 * c + p" using le_Suc_ex by blast
      then show ?thesis using * [of p] by (auto simp: free_zones_def)
    qed (auto simp: free_zones_def)
  qed
  then have "card (free_zones img s sub (8192 * c) (8192 * c + 8 * m)) = length (filter (\<lambda>p. \<not> zbit ?ws p) [0..<8 * m])"
    by (simp only: card_image inj_on_add distinct_card distinct_filter distinct_upt) 
  then show ?thesis by (simp add: count_bytes_filter)
qed


lemma free_zones_split: "a \<le> b \<Longrightarrow> b \<le> c \<Longrightarrow> card (free_zones img s sub a c) = card (free_zones img s sub a b) + card (free_zones img s sub b c)"
proof -
  assume le: "a \<le> b" "b \<le> c"
  have f: "finite (free_zones img s sub x y)" for x y by (rule finite_subset [of _ "{..<y}"]) (auto simp: free_zones_def)
  have "free_zones img s sub a c = free_zones img s sub a b \<union> free_zones img s sub b c" using le by (auto simp: free_zones_def)
  moreover have "free_zones img s sub a b \<inter> free_zones img s sub b c = {}" by (auto simp: free_zones_def)
  ultimately show ?thesis by (simp add: card_Un_disjoint f)
qed

lemma free_zones_keeps:
  assumes "keeps img s t" "bitmap_plain s sub n" "b \<le> 8192 * n"
  shows "free_zones img t sub a b = free_zones img s sub a b"
  using keeps_bitmap(2) [OF assms(1,2)] assms(3) unfolding free_zones_def by (auto simp: set_eq_iff)

lemma byte_chunk:
  assumes "of_sub D m sub b" "unat (bm_chunk b) = c" "c < sub_chunks D m sub"
  shows "8192 * c + 8 * bitmap_max b \<le> byte_limit D m sub" "bitmap_max b \<le> 1024"
    "c + 1 < sub_chunks D m sub \<and> bitmap_max b = 1024 \<or> c + 1 = sub_chunks D m sub \<and> byte_limit D m sub = 8192 * c + 8 * bitmap_max b"
proof -
  let ?i = "sub_info D m sub 0"
  have eq: "bm_chunk b = partitionChunks b \<longleftrightarrow> c = unat (partitionChunks ?i)"
    using assms(1,2) by (auto simp: of_sub_def word_unat_eq_iff)
  show "c + 1 < sub_chunks D m sub \<and> bitmap_max b = 1024 \<or> c + 1 = sub_chunks D m sub \<and> byte_limit D m sub = 8192 * c + 8 * bitmap_max b"
  proof (cases "c = unat (partitionChunks ?i)")
    case True
    then show ?thesis using eq assms(1,3) by (auto simp: bitmap_max_def byte_limit_def of_sub_def sub_chunks_def split: if_splits)
  next
    case False
    then show ?thesis using eq assms(3) by (auto simp: bitmap_max_def byte_limit_def pfsMetaSize_def sub_chunks_def split: if_splits)
  qed
  moreover have "c + 1 < sub_chunks D m sub \<Longrightarrow> 8192 * (c + 1) \<le> byte_limit D m sub"
    by (auto simp: byte_limit_def sub_chunks_def split: if_splits)
  ultimately show "8192 * c + 8 * bitmap_max b \<le> byte_limit D m sub" by auto
  show "bitmap_max b \<le> 1024" by (rule bitmap_max_cases(1) [OF assms])
qed

lemma calc_chunks_run:
  assumes "ready D img ok s" "bitmap_plain s sub (sub_chunks D (pmount s) sub)" "of_sub D (pmount s) sub info"
    and "unat (bm_chunk info) = c" "c \<le> sub_chunks D (pmount s) sub"
  shows "\<exists>t. calc_chunks D (ucast sub) info z s =
      Some (z + of_nat (card (free_zones img s sub (8192 * c) (byte_limit D (pmount s) sub))), t) \<and>
    ready D img ok t \<and> keeps img s t \<and> qused t = qused s"
  using assms
proof (induction "sub_chunks D (pmount s) sub - c" arbitrary: c info s z)
  case 0
  then have "\<not> chunk_in info" "byte_limit D (pmount s) sub \<le> 8192 * c"
    using sub_bounds(2) [of D "pmount s" sub]
    by (auto simp: chunk_in_iff byte_limit_def sub_chunks_def unat_div div_le_dividend split: if_splits)
  moreover from this have "free_zones img s sub (8192 * c) (byte_limit D (pmount s) sub) = {}" by (auto simp: free_zones_def)
  ultimately show ?case using 0 by (subst calc_chunks.simps) (simp add: keeps_def)
next
  case (Suc k)
  let ?n = "sub_chunks D (pmount s) sub" and ?info = "info\<lparr>bm_chunk := bm_chunk info + 1\<rparr>"
  have c: "c < ?n" using Suc.hyps(2) by simp
  have cw: "bm_chunk info = of_nat c" using Suc.prems(4) by (simp flip: Suc.prems(4))
  have "c < 2 ^ 19" using c sub_chunks_bound [of D "pmount s" sub] by simp
  then have c1: "unat (bm_chunk info + 1) = c + 1" by (simp add: cw unat_word_ariths unat_of_nat)
  obtain i t where g: "pfsCacheGetData D sub (bitmap_sector (pmount s) (ucast sub) (bm_chunk info)) PFS_CACHE_FLAG_BITMAP s = Some ((Some i, 0), t)"
    and t: "pfs_good D img ok t" "keeps img s t" "held img (chunk_blk (pmount s) sub c) s i t"
    using get_chunk [OF Suc.prems(1,2) c] unfolding cw by blast
  define u where "u = pfsCacheFree (Some i) t"
  note u = release_chunk [OF Suc.prems(1) t, folded u_def]
  have m: "pmount t = pmount s" "pmount u = pmount s" using t(2) u(2) by (simp_all add: keeps_def)
  note lim = byte_chunk [OF Suc.prems(3,4) c]
  have "q_data (pfsCacheBuf t i) = pfs_view img t (chunk_blk (pmount t) sub c)" using t(3) by (simp add: held_def m)
  then have z: "count_bytes (bitmap_max info) (q_data (pfsCacheBuf t i)) z =
      z + of_nat (card (free_zones img s sub (8192 * c) (8192 * c + 8 * bitmap_max info)))"
    using count_bytes_chunk [OF lim(2), of img t sub c z] free_zones_keeps [OF t(2) Suc.prems(2)] lim(2) c by simp
  have pu: "bitmap_plain u sub ?n" by (rule keeps_bitmap(1) [OF u(2) Suc.prems(2)])
  have su: "calc_chunks D (ucast sub) info z s = calc_chunks D (ucast sub) ?info (count_bytes (bitmap_max info) (q_data (pfsCacheBuf t i)) z) u"
    using c g by (subst calc_chunks.simps) (simp add: chunk_in_iff [OF Suc.prems(3)] Suc.prems(4) u_def)
  have "\<exists>v. calc_chunks D (ucast sub) ?info (count_bytes (bitmap_max info) (q_data (pfsCacheBuf t i)) z) u =
      Some (count_bytes (bitmap_max info) (q_data (pfsCacheBuf t i)) z + of_nat (card (free_zones img u sub (8192 * (c + 1)) (byte_limit D (pmount u) sub))), v) \<and>
    ready D img ok v \<and> keeps img u v \<and> qused v = qused u"
    by (rule Suc.hyps(1)) (use Suc.prems(3) Suc.hyps(2) c c1 u(1) pu in \<open>simp_all add: m of_sub_def\<close>)
  then obtain v where v: "calc_chunks D (ucast sub) info z s = Some (count_bytes (bitmap_max info) (q_data (pfsCacheBuf t i)) z
        + of_nat (card (free_zones img u sub (8192 * (c + 1)) (byte_limit D (pmount s) sub))), v)"
     "ready D img ok v" "keeps img u v" "qused v = qused u"
    unfolding su m(2) by blast
  have le: "byte_limit D (pmount s) sub \<le> 8192 * ?n"
    using sub_bounds(2) [of D "pmount s" sub] by (auto simp: byte_limit_def sub_chunks_def unat_div)
  have "card (free_zones img s sub (8192 * c) (byte_limit D (pmount s) sub)) =
      card (free_zones img s sub (8192 * c) (8192 * c + 8 * bitmap_max info)) + card (free_zones img s sub (8192 * (c + 1)) (byte_limit D (pmount s) sub))"
  proof (cases "c + 1 = ?n \<and> byte_limit D (pmount s) sub = 8192 * c + 8 * bitmap_max info")
    case True
    moreover have "byte_limit D (pmount s) sub \<le> 8192 * (c + 1)" using True le by simp
    moreover from this have "free_zones img s sub (8192 * (c + 1)) (byte_limit D (pmount s) sub) = {}" by (auto simp: free_zones_def)
    ultimately show ?thesis by simp
  next
    case False
    then have e: "8192 * (c + 1) = 8192 * c + 8 * bitmap_max info" using lim(3) by auto
    show ?thesis unfolding e by (rule free_zones_split) (use lim(1) in simp_all)
  qed
  then show ?case using v z u free_zones_keeps [OF u(2) Suc.prems(2) le] keeps_trans [OF u(2) v(3)] by (auto simp: add.assoc)
qed

text \<open>
  C26. \<open>pfsBitmapCalcFreeZones\<close>, with its table of the free zones of four bits, returns the number
  of zones that are free in the bitmap of the sub-partition, up to the last whole byte, and
  changes nothing.
\<close>

theorem calc_free_zones_counts:
  assumes "ready D img ok s" "bitmap_plain s sub (sub_chunks D (pmount s) sub)"
  shows "\<exists>t. pfsBitmapCalcFreeZones D (ucast sub) s =
      Some (of_nat (card {z. z < byte_limit D (pmount s) sub \<and> \<not> zone_used (pfs_view img s) (pmount s) sub z}), t) \<and>
    ready D img ok t \<and> keeps img s t"
proof -
  have "unat (bm_chunk (sub_info D (pmount s) sub 0)) = 0" using sub_info_fields(2) [of D "pmount s" sub 0] by simp
  from calc_chunks_run [OF assms sub_info_fields(1) this, of 0] show ?thesis
    by (auto simp: pfsBitmapCalcFreeZones_def sub_info_def free_zones_def)
qed

theorem calc_free_zones_counts_witness:
  "\<exists>t. pfsBitmapCalcFreeZones (sim_blk True) 0 (demo_fs 2) =
      Some (of_nat (card {z. z < byte_limit (sim_blk True) (pmount (demo_fs 2)) 0 \<and> \<not> zone_used (pfs_view sim_image (demo_fs 2)) (pmount (demo_fs 2)) 0 z}), t) \<and>
    ready (sim_blk True) sim_image good_disk t \<and> keeps sim_image (demo_fs 2) t"
  using calc_free_zones_counts [OF demo_fs_ready subs_okD(1) [OF demo_fs_subs, of 0]] by simp

end
