(* ===== verification/PfsDirProps.thy ===== *)
theory PfsDirProps
  imports PfsDirSector PfsZoneProps
begin

text \<open>
  Adding, removing and looking up directory entries: the operations of \<open>dir.c\<close> are updates and
  lookups of the map that the sectors stand for.
\<close>

subsection \<open>What a lookup returns\<close>

lemma scan_found:
  "scan_sector option fname ws d d2 sz = Found e sz' \<Longrightarrow> d \<le> e \<and> e < d2"
proof (induction option fname ws d d2 sz rule: scan_sector.induct)
  case (1 option fname ws d d2 sz)
  have "d + alloc_len ws d \<le> e \<and> e < d2"
    if "d < d2" "\<not> 1024 < d + 8" "\<not> (alloc_len ws d AND 3 \<noteq> 0 \<or> alloc_len ws d < name_len (unat (d_pLen ws d)) \<or> d2 < d + alloc_len ws d \<or> 2 < option)"
      "\<not> dentry_match option fname ws d"
    using 1(1) [OF that] 1(2) that by (simp add: scan_sector.simps [of option fname ws d d2 sz])
  then show ?case using 1(2) unfolding scan_sector.simps [of option fname ws d d2 sz] by (auto split: if_splits dest: add_leD1)
qed

text \<open>The chunk that a lookup returns holds the entry at the offset, found by a scan of its sector.\<close>

definition found_in :: "nat \<Rightarrow> u8 list option \<Rightarrow> u32 list \<Rightarrow> nat \<Rightarrow> bool" where
  "found_in option fname ws d \<longleftrightarrow> d < 1024 \<and>
     (\<exists>sz sz'. scan_sector option fname ws (d div 512 * 512) (d div 512 * 512 + 512) sz = Found d sz')"

lemma cdata_free [simp]: "cdata (pfsCacheFree c s) i = cdata s i"
  by (cases c) (simp_all add: pfsCacheFree_def Let_def pfsCacheLink_def upd_cache_def)

definition good_find :: "nat \<Rightarrow> u8 list option \<Rightarrow> ((nat \<times> nat) option \<times> u32) \<times> ('d, 'z) pfs_state_scheme \<Rightarrow> bool" where
  "good_find option fname r \<longleftrightarrow> (case r of ((Some (c, e), n), t) \<Rightarrow> found_in option fname (cdata t c) e | _ \<Rightarrow> True)"

lemma good_find_stop [simp]: "dentry_stop bp c n s = Some r \<Longrightarrow> good_find option fname r"
  by (auto simp: dentry_stop_def good_find_def)

lemma dentry_loop_found:
  assumes "dentry_loop D clink option fname bp dent d sz s = Some r" "d mod 512 = 0"
  shows "good_find option fname r"
proof -
  have "d mod 512 = 0 \<longrightarrow> good_find option fname r"
  proof (rule dentry_loop.raw_induct [where P = "\<lambda>D clink option fname bp dent d sz s r. d mod 512 = 0 \<longrightarrow> good_find option fname r", OF _ assms(1)], 
      goal_cases)
    case (1 rec D clink option fname bp dent d sz s r)
    have scan: "good_find option fname r"
      if "(case scan_sector option fname (cdata s1 i) d1 (d1 + 512) sz of
               Found d2 sz1 \<Rightarrow> Some ((Some (i, d2), sz1), pfsCacheFree (bp_inode bp1) s1)
             | Outside \<Rightarrow> None
             | Stop sz1 \<Rightarrow> dentry_stop bp1 (Some i) sz1 s1
             | Next sz1 \<Rightarrow> rec D clink option fname bp1 i (d1 + 512) sz1 s1) = Some r" "d1 mod 512 = 0" "d1 < 1024" for i d1 bp1 s1
    proof (cases "scan_sector option fname (cdata s1 i) d1 (d1 + 512) sz")
      case (Found e n)
      then have e: "d1 \<le> e" "e < d1 + 512" using scan_found by blast+
      have "512 dvd d1" using that(2) by auto
      then obtain q where q: "d1 = 512 * q" by (elim dvdE)
      then have "e div 512 * 512 = d1" "e < 1024" using e that(3) by (simp_all add: div_nat_eqI)
      then have "found_in option fname (cdata s1 i) e" unfolding found_in_def using Found by blast
      then show ?thesis using that(1) Found by (auto simp: good_find_def)
    next
      case (Next n)
      moreover have "(d1 + 512) mod 512 = 0" using that(2) by simp
      ultimately show ?thesis using that(1) 1(1) by simp
    qed (use that in auto)
    show ?case
    proof (intro impI)
      assume d: "d mod 512 = 0"
      show "good_find option fname r"
      proof (cases "ucast sz < inode_size (cdata s clink)")
        case False
        then show ?thesis using 1(2) by simp
      next
        case True
        let ?step = "if unat pfsMetaSize \<le> d
           then do {
             ((r, bp1), s1) \<leftarrow> pfsInodeSync D bp (ucast pfsMetaSize) (inode_number_data (cdata s clink)) s;
             if r \<noteq> 0 then Some ((Inl (Some dent), d, bp1), s1)
             else do {
               ((c, e), s2) \<leftarrow> pfsGetDentriesChunk D bp1 (pfsCacheFree (Some dent) s1);
               Some (case c of None \<Rightarrow> ((Inl None, d, bp1), s2) | Some i \<Rightarrow> ((Inr i, 0, bp1), s2))
             }
           }
           else Some ((Inr dent, d, bp), s)"
        let ?rest = "\<lambda>((c, d1, bp1), s1). case c of Inl c \<Rightarrow> dentry_stop bp1 c sz s1
            | Inr i \<Rightarrow> (case scan_sector option fname (cdata s1 i) d1 (d1 + 512) sz of
                 Found d2 sz1 \<Rightarrow> Some ((Some (i, d2), sz1), pfsCacheFree (bp_inode bp1) s1)
               | Outside \<Rightarrow> None
               | Stop sz1 \<Rightarrow> dentry_stop bp1 (Some i) sz1 s1
               | Next sz1 \<Rightarrow> rec D clink option fname bp1 i (d1 + 512) sz1 s1)"
        obtain x where x: "?step = Some x" "?rest x = Some r" by (rule bind_SomeE [OF 1(2) [unfolded if_P [OF True]]])
        obtain c d1 bp1 s1 where x_eq: "x = ((c, d1, bp1), s1)" by (cases x, cases "fst x", cases "snd (fst x)") simp
        note step = x(1) [unfolded x_eq] and rest = x(2) [unfolded x_eq prod.case]
        have d1: "d1 mod 512 = 0 \<and> (\<forall>i. c = Inr i \<longrightarrow> d1 < 1024)"
        proof (cases "unat pfsMetaSize \<le> d")
          case False
          then show ?thesis using step d by (auto simp: pfsMetaSize_def)
        next
          case True
          obtain y where y: "pfsInodeSync D bp (ucast pfsMetaSize) (inode_number_data (cdata s clink)) s = Some y"
            "(case y of ((r, bp1), s1) \<Rightarrow> if r \<noteq> 0 then Some ((Inl (Some dent), d, bp1), s1)
               else do {
                 ((c, e), s2) \<leftarrow> pfsGetDentriesChunk D bp1 (pfsCacheFree (Some dent) s1);
                 Some (case c of None \<Rightarrow> ((Inl None, d, bp1), s2) | Some i \<Rightarrow> ((Inr i, 0, bp1), s2))
               }) = Some ((c, d1, bp1), s1)"
            using step [unfolded if_P [OF True]] by (auto elim!: bind_SomeE)
          show ?thesis
          proof (cases "fst (fst y) = 0")
            case False
            then show ?thesis using y(2) d by (auto split: prod.splits)
          next
            case zero: True
            obtain r b u where y_eq: "y = ((r, b), u)" by (cases y, cases "fst y") simp
            obtain z where z: "(case z of ((c, e), s2) \<Rightarrow>
                 Some (case c of None \<Rightarrow> ((Inl None, d, b), s2) | Some i \<Rightarrow> ((Inr i, 0, b), s2))) = Some ((c, d1, bp1), s1)"
              using y(2) zero unfolding y_eq by (auto elim: bind_SomeE)
            then show ?thesis using d by (auto split: prod.splits option.splits)
          qed
        qed
        show ?thesis
        proof (cases c)
          case (Inl b)
          show ?thesis by (rule good_find_stop [OF rest [unfolded Inl sum.case]])
        next
          case (Inr i)
          show ?thesis by (rule scan [OF rest [unfolded Inr sum.case]]) (use d1 Inr in auto)
        qed
      qed
    qed
  qed
  then show ?thesis using assms(2) by simp
qed

lemma pfsGetDentry_found:
  assumes "pfsGetDentry D clink fname option s = Some ((Some (c, d), sz), t)"
  shows "found_in option fname (cdata t c) d"
proof -
  have "good_find option fname ((Some (c, d), sz), t)"
    using assms by (auto simp: pfsGetDentry_def Let_def bind_Some split: option.splits dest: dentry_loop_found [where d = 0, simplified])
  then show ?thesis by (simp add: good_find_def)
qed

text \<open>In a tiled sector the entry is one of the tiles, and matches.\<close>

lemma found_tiles:
  assumes "found_in option fname ws d" "tiles ws es (d div 512 * 512) (d div 512 * 512 + 512)" "option \<le> 2"
  shows "d \<in> set es" "dentry_match option fname ws d" "d div 512 * 512 + 512 \<le> 1024"
proof -
  show le: "d div 512 * 512 + 512 \<le> 1024" using assms(1) by (auto simp: found_in_def)
  obtain sz sz' where "scan_sector option fname ws (d div 512 * 512) (d div 512 * 512 + 512) sz = Found d sz'"
    using assms(1) by (auto simp: found_in_def)
  then have "List.find (dentry_match option fname ws) es = Some d"
    unfolding scan_tiles [OF assms(2) le assms(3)] by (auto split: option.splits)
  then show "d \<in> set es" "dentry_match option fname ws d" by (auto dest: find_SomeD)
qed

subsection \<open>Adding and removing\<close>

lemma set_data_twice: "set_data c f (set_data c g s) = set_data c (\<lambda>ws. f (g ws)) s"
  by (simp add: set_data_def upd_cache_def)

lemma set_data_const: "set_data c f s = set_data c (\<lambda>_. f (cdata s c)) s"
  by (simp add: set_data_def upd_cache_def)

lemma cdata_set [simp]: "cdata (set_data c f s) c = f (cdata s c)"
  by (simp add: set_data_def upd_cache_def)

text \<open>
  C27. Adding an entry where a lookup has found room is an update of the sector's map: when the
  sector is filled by its entries, does not have the name, and the new inode's number is not 0,
  \<open>pfsDirAddEntry\<close> succeeds, the sector is filled by entries again, it maps the name to the new
  inode and every other name to what it was mapped to.
\<close>

lemma dir_add_updates:
  assumes found: "pfsGetDentry D dir (Some name) 1 s = Some ((Some (c, d), sz), s1)"
    and ws: "length (cdata s1 c) = 256" "tiles (cdata s1 c) es (d div 512 * 512) (d div 512 * 512 + 512)" "tidy (cdata s1 c) es"
    and name: "name \<noteq> []" "length name < 256" "name \<notin> d_path (cdata s1 c) ` set es" "bi_number bi \<noteq> 0"
  shows "\<exists>s2 es'. pfsDirAddEntry D dir name bi mode result s = Some ((Some c, result), s2) \<and>
    tiles (cdata s2 c) es' (d div 512 * 512) (d div 512 * 512 + 512) \<and> tidy (cdata s2 c) es' \<and>
    (\<forall>p. p \<noteq> [] \<longrightarrow> sector_map (cdata s2 c) es' p =
       ((sector_map (cdata s1 c) es)(name \<mapsto> (bi_number bi, ucast (bi_subpart bi)))) p)"
proof -
  let ?ws = "cdata s1 c"
  let ?a = "d div 512 * 512"
  let ?k = "used_len ?ws d"
  have a4: "?a mod 4 = 0" by (simp add: mult_mod_right flip: mod_mult_right_eq)
  note f = found_tiles [OF pfsGetDentry_found [OF found] ws(2)]
  have in_es: "d \<in> set es" and m: "dentry_match 1 (Some name) ?ws d" and le: "?a + 512 \<le> 4 * length ?ws" using f ws(1) by simp_all
  note t = tiles_in [OF ws(2) a4 in_es]
  have room: "?k + 4 * ((length name + 11) div 4) \<le> alloc_len ?ws d"
    by (rule match_room [OF m]) (use t ws(3) in_es in \<open>auto simp: tidy_def\<close>)
  have k: "?k \<le> alloc_len ?ws d" "?k < 4096" "alloc_len ?ws d < 4096" using room alloc_len_small [of ?ws d] by auto
  define V where "V = put_aLen d ((d_aLen ?ws d AND FIO_S_IFMT) OR of_nat ?k) ?ws"
  define W where "W = fill_words (d + ?k) name (bi_number bi) (ucast (bi_subpart bi)) (of_nat (alloc_len ?ws d - ?k) OR (mode AND FIO_S_IFMT)) V"
  have len: "of_nat (alloc_len ?ws d) - of_nat ?k = (of_nat (alloc_len ?ws d - ?k) :: u32)" using k(1) by (simp add: of_nat_diff)
  have bk: "of_nat (alloc_len ?ws d) - (of_nat (alloc_len ?ws d - ?k) :: u32) = of_nat ?k" using k(1) by (simp add: of_nat_diff)
  have u: "(ucast (of_nat n :: u32) :: u16) = of_nat n" for n by (rule bit_word_eqI) (auto simp: bit_simps)
  have off: "unat (((d_aLen ?ws d AND FIO_S_IFMT) OR of_nat ?k) AND 0xFFF) = ?k"
    using length_field(1) [OF k(2), of "d_aLen ?ws d"] k(2) by (simp add: unat_of_nat take_bit_nat_eq_self_iff)
  have nn: "unat (of_nat (length name) :: u8) = length name" using name(2) by (simp add: unat_of_nat take_bit_nat_eq_self_iff)
  have "(d + ?k) mod 4 = 0" "d + ?k + 8 + length name \<le> 1024"
    using t room le ws(1) name_len_ge(2) [of "d_pLen ?ws d"] by (auto simp: used_len_def dvd_add)
  then have "pfsDirAddEntry D dir name bi mode result s =
      Some ((Some c, result), set_data c (\<lambda>ws. fill_words (d + ?k) name (bi_number bi) (ucast (bi_subpart bi))
        (of_nat (alloc_len ?ws d - ?k) OR (mode AND FIO_S_IFMT)) (put_aLen d ((d_aLen ?ws d AND FIO_S_IFMT) OR of_nat ?k) ws)) s1)"
    unfolding pfsDirAddEntry_def found
    by (simp add: pfsFillDentry_def Let_def nn len bk u off set_data_twice fill_words_def flip: used_len_def)
  then have "pfsDirAddEntry D dir name bi mode result s = Some ((Some c, result), set_data c (\<lambda>_. W) s1)"
    by (subst (asm) set_data_const) (simp add: W_def V_def)
  moreover have "cdata (set_data c (\<lambda>_. W) s1) c = W" by simp
  ultimately show ?thesis
    using tiles_add [OF ws(2) a4 le ws(3) in_es name(2,1,3) room name(4)] unfolding W_def V_def by metis
qed

lemma cdata_set_other [simp]: "c \<noteq> i \<Longrightarrow> cdata (set_data c f s) i = cdata s i"
  by (simp add: set_data_def upd_cache_def)

text \<open>
  C28. Removing an entry that a lookup finds deletes its name from the sector's map: when the
  sector is filled by its entries and no other entry has the name,
  \<open>pfsDirRemoveEntry\<close> succeeds, the sector is filled by entries again, and it maps every other name to what it was
  mapped to.
\<close>

lemma dir_remove_deletes:
  assumes found: "pfsGetDentry D dir (Some name) 0 s = Some ((Some (c, d), sz), s1)"
    and ws: "length (cdata s1 c) = 256" "tiles (cdata s1 c) es (d div 512 * 512) (d div 512 * 512 + 512)" "tidy (cdata s1 c) es"
    and name: "name \<notin> d_path (cdata s1 c) ` (set es - {d})" and other: "c \<noteq> dir"
  shows "\<exists>s2 es'. pfsDirRemoveEntry D dir name s = Some (Some c, s2) \<and>
    tiles (cdata s2 c) es' (d div 512 * 512) (d div 512 * 512 + 512) \<and> tidy (cdata s2 c) es' \<and>
    (\<forall>p. p \<noteq> [] \<longrightarrow> sector_map (cdata s2 c) es' p = ((sector_map (cdata s1 c) es)(name := None)) p)"
proof -
  let ?ws = "cdata s1 c"
  let ?a = "d div 512 * 512"
  have a4: "?a mod 4 = 0" by (simp add: mult_mod_right flip: mod_mult_right_eq)
  note f = found_tiles [OF pfsGetDentry_found [OF found] ws(2)]
  have in_es: "d \<in> set es" and m: "d_path ?ws d = name" and le: "?a + 512 \<le> 4 * length ?ws" "?a + 512 \<le> 1024"
    using f ws(1) by (simp_all add: dentry_match_def)
  obtain xs ys where es: "es = xs @ d # ys" "d \<notin> set xs" "d \<notin> set ys" by (rule tiles_split [OF ws(2) a4 in_es])
  have before: "find_before ?ws d ?a None 0 = Some (Some (if xs = [] then None else Some (last xs)))"
    using find_before_tiles [OF ws(2) [unfolded es(1)] a4 order_refl le(2) es(2), of None] by simp
  show ?thesis
  proof (cases xs rule: rev_cases)
    case Nil
    let ?W = "put_dentry d 0 (d_sub ?ws d) 0 (d_aLen ?ws d) ?ws"
    obtain s2 where "pfsDirRemoveEntry D dir name s = Some (Some c, s2)" "cdata s2 c = ?W"
      using other before Nil unfolding pfsDirRemoveEntry_def found by (auto simp: Let_def)
    then show ?thesis using tiles_remove_first [OF ws(2) a4 le(1) ws(3) in_es m name] by metis
  next
    case (snoc zs l)
    have e: "es = zs @ l # d # ys" using es(1) snoc by simp
    have n: "name \<notin> d_path ?ws ` (set zs \<union> {l} \<union> set ys)" using name es snoc by auto
    obtain s2 where "pfsDirRemoveEntry D dir name s = Some (Some c, s2)"
        "cdata s2 c = put_aLen l ((d_aLen ?ws l AND FIO_S_IFMT) OR ((d_aLen ?ws l AND 0xFFF) + (d_aLen ?ws d AND 0xFFF))) ?ws"
      using before snoc unfolding pfsDirRemoveEntry_def found by (auto simp: Let_def)
    then show ?thesis
      using tiles_remove_later [OF ws(2) [unfolded e] a4 le(2,1) ws(3) [unfolded e] m n] unfolding e by metis
  qed
qed

subsection \<open>A directory\<close>

text \<open>The chunk has the entries ".", ".." and "a"; entry 1 of the cache is the inode, in use, and 2 the chunk.\<close>

definition demo_chunk :: "u32 list" where
  "demo_chunk = [0x82, 0x100C0100, 0x2E, 0x82, 0x100C0200, 0x2E2E, 0x90, 0x21E80100, 0x61] @ replicate 247 0"

definition demo_dir :: "sim_disk pfs_state" where
  "demo_dir = demo_pfs_state\<lparr>pfsCacheNumBuffers := 2, pfsCacheBuf :=
     (\<lambda>_. zero_pfs_entry [])(0 := (zero_pfs_entry [])\<lparr>q_next := 2, q_prev := 2\<rparr>,
        1 := (zero_pfs_entry ((replicate 256 0)[12 := 0x83, 13 := 0x10000, 246 := 0x200, 249 := 2]))
          \<lparr>q_nused := 1, q_flags := PFS_CACHE_FLAG_SEGD OR PFS_CACHE_FLAG_DIRTY, q_mounted := True, q_block := 0x410\<rparr>,
        2 := (zero_pfs_entry demo_chunk)\<lparr>q_flags := PFS_CACHE_FLAG_DIRTY, q_mounted := True, q_block := 0x418\<rparr>)\<rparr>"

lemma demo_chunk_nth:
  "demo_chunk ! 0 = 0x82" "demo_chunk ! Suc 0 = 0x100C0100" "demo_chunk ! 2 = 0x2E" "demo_chunk ! 3 = 0x82" "demo_chunk ! 4 = 0x100C0200"
  "demo_chunk ! 5 = 0x2E2E" "demo_chunk ! 6 = 0x90" "demo_chunk ! 7 = 0x21E80100" "demo_chunk ! 8 = 0x61"
  by (simp_all add: demo_chunk_def)

lemma demo_chunk_fields:
  "d_inode demo_chunk 0 = 0x82" "d_inode demo_chunk 12 = 0x82" "d_inode demo_chunk 24 = 0x90"
  "d_pLen demo_chunk 0 = 1" "d_pLen demo_chunk 12 = 2" "d_pLen demo_chunk 24 = 1"
  "alloc_len demo_chunk 0 = 12" "alloc_len demo_chunk 12 = 12" "alloc_len demo_chunk 24 = 488"
  "d_path demo_chunk 0 = [0x2E]" "d_path demo_chunk 12 = [0x2E, 0x2E]" "d_path demo_chunk 24 = [0x61]"
  by (simp_all add: d_inode_def d_pLen_def alloc_len_def d_aLen_def demo_chunk_nth byte_at_def half_at_def d_path_def data_bytes_def data_byte_def upt_rec)

lemma demo_tiles: "tiles demo_chunk [0, 12, 24] 0 512" "tidy demo_chunk [0, 12, 24]" "length demo_chunk = 256"
  by (simp_all add: demo_chunk_fields tidy_def name_len_eq) (simp add: demo_chunk_def)

lemma demo_dir_found:
  assumes "scan_sector option fname demo_chunk 0 512 0 = Found 24 sz"
  shows "\<exists>t. pfsGetDentry (sim_blk True) 1 fname option demo_dir = Some ((Some (2, 24), sz), t) \<and> cdata t 2 = demo_chunk"
  using assms
  apply (simp add: pfsGetDentry_def Let_def pfsGetDentriesChunk_def pfsBlockGetCurrent_def seg_index_def pfsFixIndex_def PFS_INODE_MAX_BLOCKS_def
    pfsCacheUsedAdd_def upd_cache_def demo_dir_def demo_pfs_state_def inode_data_def blockinfo_at_def inode_blk_def demo_mount_def
   pfsMetaSize_def pfsCacheGetData_def pfs_lookup_def pfs_entries_def upt_rec half_at_def)
  apply (subst dentry_loop.simps)
  apply (simp add: inode_size_def pfsMetaSize_def zero_pfs_entry_def)
  done

lemma demo_scans: "scan_sector 0 (Some [0x61]) demo_chunk 0 512 0 = Found 24 24" "scan_sector 1 (Some [0x62]) demo_chunk 0 512 0 = Found 24 24"
  by (simp_all add: scan_sector.simps demo_chunk_fields name_len_eq dentry_match_def path_size_def)

theorem dir_add_updates_witness:
  "\<exists>d sz s1 s2 es'. pfsGetDentry (sim_blk True) 1 (Some [0x62]) 1 demo_dir = Some ((Some (2, d), sz), s1) \<and>
    pfsDirAddEntry (sim_blk True) 1 [0x62] \<lparr>bi_number = 0x91, bi_subpart = 0, bi_count = 1\<rparr> 0x2000 0 demo_dir = Some ((Some 2, 0), s2) \<and>
    tiles (cdata s2 2) es' 0 512 \<and> (sector_map (cdata s2 2) es' [0x62] = Some (0x91, 0) \<and> sector_map (cdata s2 2) es' [0x61] = Some (0x90, 0))"
proof -
  obtain s1 where s1: "pfsGetDentry (sim_blk True) 1 (Some [0x62]) 1 demo_dir = Some ((Some (2, 24), 24), s1)" "cdata s1 2 = demo_chunk"
    using demo_dir_found [OF demo_scans(2)] by blast
  obtain s2 es' where s2: "pfsDirAddEntry (sim_blk True) 1 [0x62] \<lparr>bi_number = 0x91, bi_subpart = 0, bi_count = 1\<rparr> 0x2000 0 demo_dir = Some ((Some 2, 0), s2)"
    "tiles (cdata s2 2) es' 0 512"
    "\<forall>p. p \<noteq> [] \<longrightarrow> sector_map (cdata s2 2) es' p = ((sector_map demo_chunk [0, 12, 24])([0x62] \<mapsto> (0x91, 0))) p"
    using dir_add_updates [OF s1(1), unfolded s1(2), of "[0, 12, 24]" "\<lparr>bi_number = 0x91, bi_subpart = 0, bi_count = 1\<rparr>" "0x2000" 0]
      demo_tiles by (auto simp: demo_chunk_fields)
  moreover have "sector_map demo_chunk [0, 12, 24] [0x61] = Some (0x90, 0)"
    by (simp add: sector_map_def demo_chunk_fields d_sub_def demo_chunk_nth byte_at_def)
  ultimately show ?thesis using s1 by (intro exI [of _ 24] exI [of _ s1] exI [of _ s2] exI [of _ es'] exI conjI) auto
qed

theorem dir_remove_deletes_witness:
  "\<exists>s2 es'. pfsDirRemoveEntry (sim_blk True) 1 [0x61] demo_dir = Some (Some 2, s2) \<and>
    tiles (cdata s2 2) es' 0 512 \<and> sector_map (cdata s2 2) es' [0x61] = None \<and> sector_map (cdata s2 2) es' [0x2E] = Some (0x82, 0)"
proof -
  obtain s1 where s1: "pfsGetDentry (sim_blk True) 1 (Some [0x61]) 0 demo_dir = Some ((Some (2, 24), 24), s1)" "cdata s1 2 = demo_chunk"
    using demo_dir_found [OF demo_scans(1)] by blast
  obtain s2 es' where s2: "pfsDirRemoveEntry (sim_blk True) 1 [0x61] demo_dir = Some (Some 2, s2)" "tiles (cdata s2 2) es' 0 512"
    "\<forall>p. p \<noteq> [] \<longrightarrow> sector_map (cdata s2 2) es' p = ((sector_map demo_chunk [0, 12, 24])([0x61] := None)) p"
    using dir_remove_deletes [OF s1(1), unfolded s1(2), of "[0, 12, 24]"] demo_tiles by (auto simp: demo_chunk_fields insert_Diff_if)
  moreover have "sector_map demo_chunk [0, 12, 24] [0x2E] = Some (0x82, 0)"
    by (simp add: sector_map_def demo_chunk_fields d_sub_def demo_chunk_nth byte_at_def)
  ultimately show ?thesis by (intro exI [of _ s2] exI [of _ es'] conjI) auto
qed

end
