(* ===== verification/PfsLookup.thy ===== *)
theory PfsLookup
  imports PfsDirProps
begin

text \<open>
  Looking an entry up in a whole directory, \<open>pfsGetDentry\<close> of \<open>dir.c\<close>, over the view of the
  blocks that the cache gives: the chunks of a directory whose blocks are one segment, the
  position that walks over them, and the entry that the search returns.
\<close>

subsection \<open>A directory of one segment\<close>

text \<open>
  Chunk \<open>q\<close> of the directory whose inode is entry \<open>dir\<close> is a block of the zone \<open>q div cz\<close> of the
  segment. The directory has \<open>n\<close> sectors; the entries of sector \<open>k\<close> are at the offsets \<open>es k\<close> of
  its chunk.
\<close>

definition zone_chunks :: "pfs_mount \<Rightarrow> nat" where "zone_chunks m = unat (zsize m) div 1024"

definition dir_blk :: "('d, 'z) pfs_state_scheme \<Rightarrow> nat \<Rightarrow> nat \<Rightarrow> blk" where
  "dir_blk s dir q = (let seg = inode_data (cdata s dir) 1; cz = zone_chunks (pmount s)
    in (ucast (bi_subpart seg), inode_blk (pmount s) (bi_number seg + of_nat (q div cz)) + of_nat (q mod cz)))"

definition dir_ok :: "('d \<Rightarrow> image) \<Rightarrow> ('d, 'z) pfs_state_scheme \<Rightarrow> nat \<Rightarrow> nat \<Rightarrow> (nat \<Rightarrow> nat list) \<Rightarrow> bool" where
  "dir_ok img s dir n es \<longleftrightarrow>
     dir \<in> {1..pfsCacheNumBuffers s} \<and> qused s dir \<noteq> 0 \<and> length (cdata s dir) = 256 \<and>
     unat (zsize (pmount s)) = 1024 * zone_chunks (pmount s) \<and> 2 \<le> zone_chunks (pmount s) \<and> zone_chunks (pmount s) \<le> 128 \<and>
     inode_size (cdata s dir) = of_nat (512 * n) \<and> 0 < n \<and> n < 2 ^ 22 \<and> inode_number_data (cdata s dir) = 2 \<and>
     n \<le> 2 * zone_chunks (pmount s) * unat (bi_count (inode_data (cdata s dir) 1)) \<and>
     (\<forall>k < n. plain s (dir_blk s dir (k div 2)) \<and>
        tiles (pfs_view img s (dir_blk s dir (k div 2))) (es k) (512 * (k mod 2)) (512 * (k mod 2) + 512))"

text \<open>The position of chunk \<open>q\<close>.\<close>

definition dir_pos :: "pfs_mount \<Rightarrow> nat \<Rightarrow> nat \<Rightarrow> pfs_blockpos" where
  "dir_pos m dir q = \<lparr>bp_inode = Some dir, block_segment = 1, block_offset = of_nat (q div zone_chunks m), byte_offset = of_nat (1024 * (q mod zone_chunks m))\<rparr>"

lemma dir_pos_sel [simp]:
  "bp_inode (dir_pos m dir q) = Some dir" "block_segment (dir_pos m dir q) = 1" "block_offset (dir_pos m dir q) = of_nat (q div zone_chunks m)"
  "byte_offset (dir_pos m dir q) = of_nat (1024 * (q mod zone_chunks m))"
  by (simp_all add: dir_pos_def)

lemma fix_index_1 [simp]: "pfsFixIndex 1 = 1" "seg_index (dir_pos m dir q) = 1"
  by (simp_all add: seg_index_def pfsFixIndex_def PFS_INODE_MAX_BLOCKS_def)

text \<open>Fields of an inode in use, over a request.\<close>

lemma tl_nth: "tl xs = tl ys \<Longrightarrow> length xs = 256 \<Longrightarrow> length ys = 256 \<Longrightarrow> 0 < k \<Longrightarrow> k < 256 \<Longrightarrow> xs ! k = ys ! k"
  by (cases xs; cases ys; cases k) auto

lemma inode_fields_tl:
  assumes "tl ws = tl vs" "length ws = 256" "length vs = 256"
  shows "inode_size ws = inode_size vs" "inode_number_data ws = inode_number_data vs" "inode_data ws 1 = inode_data vs 1"
  by (simp_all add: inode_size_def inode_number_data_def inode_data_def blockinfo_at_def tl_nth [OF assms])

subsection \<open>From chunk to chunk\<close>

lemma dir_pos_next:
  assumes cz: "unat (zsize (pmount s)) = 1024 * zone_chunks (pmount s)" "2 \<le> zone_chunks (pmount s)" "zone_chunks (pmount s) \<le> 128"
    and q: "q + 1 < zone_chunks (pmount s) * unat (bi_count (inode_data (cdata s dir) 1))"
  shows "pfsInodeSync D (dir_pos (pmount s) dir q) 1024 used s = Some ((0, dir_pos (pmount s) dir (q + 1)), s)"
proof -
  let ?z = "zone_chunks (pmount s)" and ?c = "bi_count (inode_data (cdata s dir) 1)"
  have z: "zsize (pmount s) = of_nat (1024 * ?z)" unfolding cz(1) [symmetric] by (simp add: of_nat_unat ucast_id)
  have qz: "q mod ?z < ?z" using cz(2) by simp
  have b: "of_nat (1024 * (q mod ?z)) + 1024 = (of_nat (1024 * (q mod ?z + 1)) :: u32)" by simp
  have u: "unat (of_nat (1024 * x) :: u32) = 1024 * x" if "x \<le> 128" for x using that by (simp add: unat_of_nat take_bit_nat_eq_self_iff del: of_nat_mult)
  have le: "zsize (pmount s) \<le> of_nat (1024 * (q mod ?z)) + 1024 \<longleftrightarrow> Suc (q mod ?z) = ?z"
    unfolding b word_le_nat_alt cz(1) using u [of "q mod ?z + 1"] qz cz(3) by (simp add: le_Suc_eq less_Suc_eq_le) linarith
  have uz: "unat (of_nat (1024 * ?z) :: u64) = 1024 * ?z" using cz(3) by (simp add: unat_of_nat take_bit_nat_eq_self_iff del: of_nat_mult)
  have zz: "(ucast (zsize (pmount s)) :: u64) = of_nat (1024 * ?z)"
    by (rule word_unat_eq_iff [THEN iffD2]) (use uz cz(1,3) in \<open>simp add: unsigned_ucast_eq take_bit_nat_eq_self_iff del: of_nat_mult\<close>)
  have "1024 div (of_nat (1024 * ?z) :: u64) = 0" "1024 mod (of_nat (1024 * ?z) :: u64) = 1024"
    using uz cz(2) by (auto intro!: word_unat_eq_iff [THEN iffD2] simp: unat_div unat_mod simp del: of_nat_mult)
  then have d: "1024 div (ucast (zsize (pmount s)) :: u64) = 0" "1024 mod (ucast (zsize (pmount s)) :: u64) = 1024" unfolding zz by simp_all
  have z0: "zsize (pmount s) \<noteq> 0" using cz by (metis mult_is_0 not_numeral_le_zero unat_0 zero_neq_numeral)
  show ?thesis
  proof (cases "Suc (q mod ?z) = ?z")
    case True
    then have n: "Suc q div ?z = Suc (q div ?z)" "Suc q mod ?z = 0" by (simp_all add: div_Suc mod_Suc)
    have "Suc (q div ?z) < unat ?c" using q n(1) div_less_iff_less_mult [of ?z "Suc q" "unat ?c"] cz(2) by (simp add: mult.commute)
    moreover have "unat ?c < 65536" using unsigned_less [of ?c, where 'a = nat] by simp
    ultimately have "unat (of_nat (Suc (q div ?z)) :: u32) = Suc (q div ?z)" by (simp add: unat_of_nat take_bit_nat_eq_self_iff del: of_nat_Suc)
    then have j: "1 + of_nat (q div ?z) < (ucast ?c :: u32)"
      using \<open>Suc (q div ?z) < unat ?c\<close> by (simp add: word_less_nat_alt unat_wide)
    have "of_nat (1024 * (q mod ?z)) + 1024 - zsize (pmount s) = (0 :: u32)" unfolding z b using True by simp
    then have "pfsBlockSyncPos (dir_pos (pmount s) dir q) 1024 s = Some (1, (dir_pos (pmount s) dir q)\<lparr>byte_offset := 0\<rparr>)"
      using le [THEN iffD2, OF True] z0 by (simp add: pfsBlockSyncPos_def Let_def d)
    then show ?thesis using j n
      by (simp add: pfsInodeSync_def sync_loop.simps [where i = 1] seg_index_def dir_pos_def)
  next
    case False
    then have n: "Suc q div ?z = q div ?z" "Suc q mod ?z = Suc (q mod ?z)" by (simp_all add: div_Suc mod_Suc)
    have "pfsBlockSyncPos (dir_pos (pmount s) dir q) 1024 s = Some (0, dir_pos (pmount s) dir (q + 1))"
      using le False z0 n b by (simp add: pfsBlockSyncPos_def Let_def d dir_pos_def)
    then show ?thesis by (simp add: pfsInodeSync_def sync_loop.simps [where i = 0])
  qed
qed

lemma keepsD: "keeps img s t \<Longrightarrow> plain s k \<Longrightarrow> plain t k \<and> pfs_view img t k = pfs_view img s k"
  unfolding keeps_def same_plain_def by blast

lemma get_dir_chunk:
  assumes dir: "dir_ok img s dir n es" and "2 * q < n" and u: "ready D img ok u" "keeps img s u" "tl (cdata u dir) = tl (cdata s dir)" "qused u dir \<noteq> 0"
  shows "\<exists>i t. pfsGetDentriesChunk D (dir_pos (pmount s) dir q) u = Some ((Some i, 0), t) \<and> pfs_good D img ok t \<and> keeps img s t \<and>
     held img (dir_blk s dir q) u i t \<and> tl (cdata t dir) = tl (cdata s dir)"
proof -
  have m: "pmount u = pmount s" using u(2) by (simp add: keeps_def)
  have "2 * q div 2 = q" by simp
  then have pl: "plain s (dir_blk s dir q)" using dir assms(2) unfolding dir_ok_def by metis
  have len: "length (cdata u dir) = 256" "length (cdata s dir) = 256"
    using dir u(1) pfs_goodD(7) [of D img ok u dir] u(2) by (auto simp: dir_ok_def ready_def keeps_def)
  have seg: "inode_data (cdata u dir) 1 = inode_data (cdata s dir) 1" by (rule inode_fields_tl [OF u(3) len])
  have "0 < zone_chunks (pmount s)" "zone_chunks (pmount s) \<le> 128" using dir by (auto simp: dir_ok_def)
  then have "q mod zone_chunks (pmount s) < 128" using mod_less_divisor [of "zone_chunks (pmount s)" q] by linarith
  then have b: "(of_nat (1024 * (q mod zone_chunks (pmount s))) :: u32) div 1024 = of_nat (q mod zone_chunks (pmount s))"
    by (intro word_unat_eq_iff [THEN iffD2]) (simp add: unat_div unat_of_nat take_bit_nat_eq_self_iff del: of_nat_mult)
  let ?b = "snd (dir_blk s dir q)" and ?p = "bi_subpart (inode_data (cdata s dir) 1)"
  have k: "dir_blk s dir q = (ucast ?p, ?b)" by (simp add: dir_blk_def Let_def)
  have "plain u (ucast ?p, ?b)" using keepsD [OF u(2) pl] k by metis
  from get_plain [OF u(1) this, of PFS_CACHE_FLAG_NOTHING]
  obtain i t where t: "pfsCacheGetData D ?p ?b PFS_CACHE_FLAG_NOTHING u = Some ((Some i, 0), t)" "pfs_good D img ok t" "keeps img u t"
    "held img (dir_blk s dir q) u i t" "keeps_used u t"
    unfolding k [symmetric] by blast
  have "pfsGetDentriesChunk D (dir_pos (pmount s) dir q) u = Some ((Some i, 0), t)"
    using t(1) by (simp add: pfsGetDentriesChunk_def pfsBlockGetCurrent_def seg [simplified] m pfsMetaSize_def dir_blk_def Let_def b [simplified])
  moreover have "tl (cdata t dir) = tl (cdata s dir)" using t(5) u(3,4) by (simp add: keeps_used_def)
  ultimately show ?thesis using t keeps_trans [OF u(2)] by blast
qed

text \<open>Entry \<open>i\<close> holds chunk \<open>q\<close>; only it and the directory have gained a user.\<close>

definition at_chunk :: "'d blk_dev \<Rightarrow> ('d \<Rightarrow> image) \<Rightarrow> ('d \<Rightarrow> bool) \<Rightarrow> ('d, 'z) pfs_state_scheme \<Rightarrow> nat \<Rightarrow> nat \<Rightarrow> nat \<Rightarrow> ('d, 'z) pfs_state_scheme \<Rightarrow> bool" where
  "at_chunk D img ok s dir q i t \<longleftrightarrow> pfs_good D img ok t \<and> keeps img s t \<and> held img (dir_blk s dir q) s i t \<and> tl (cdata t dir) = tl (cdata s dir)"

lemma next_chunk:
  assumes dir: "dir_ok img s dir n es" and s: "ready D img ok s" and at: "at_chunk D img ok s dir q i t" and q: "2 * (q + 1) < n"
  shows "\<exists>j u. pfsInodeSync D (dir_pos (pmount s) dir q) 1024 used t = Some ((0, dir_pos (pmount s) dir (q + 1)), t) \<and>
    pfsGetDentriesChunk D (dir_pos (pmount s) dir (q + 1)) (pfsCacheFree (Some i) t) = Some ((Some j, 0), u) \<and> at_chunk D img ok s dir (q + 1) j u"
proof -
  have at': "pfs_good D img ok t" "keeps img s t" "held img (dir_blk s dir q) s i t" "tl (cdata t dir) = tl (cdata s dir)"
    using at by (simp_all add: at_chunk_def)
  have m: "pmount t = pmount s" using at'(2) by (simp add: keeps_def)
  have len: "length (cdata t dir) = 256" "length (cdata s dir) = 256"
    using dir at'(1,2) pfs_goodD(7) [of D img ok t dir] by (auto simp: dir_ok_def keeps_def)
  have d: "unat (zsize (pmount s)) = 1024 * zone_chunks (pmount s)" "2 \<le> zone_chunks (pmount s)" "zone_chunks (pmount s) \<le> 128"
    "n \<le> 2 * zone_chunks (pmount s) * unat (bi_count (inode_data (cdata s dir) 1))" "qused s dir \<noteq> 0"
    using dir by (auto simp: dir_ok_def)
  have "q + 1 < zone_chunks (pmount s) * unat (bi_count (inode_data (cdata t dir) 1))"
    unfolding inode_fields_tl(3) [OF at'(4) len] using q d(4) by simp
  then have sync: "pfsInodeSync D (dir_pos (pmount s) dir q) 1024 used t = Some ((0, dir_pos (pmount s) dir (q + 1)), t)"
    using dir_pos_next [of t q dir D used] d(1-3) unfolding m by blast
  note r = release_chunk [OF s at'(1-3)]
  have tl: "tl (cdata (pfsCacheFree (Some i) t) dir) = tl (cdata s dir)" using at'(4) by simp
  obtain j u where u: "pfsGetDentriesChunk D (dir_pos (pmount s) dir (q + 1)) (pfsCacheFree (Some i) t) = Some ((Some j, 0), u)"
    "pfs_good D img ok u" "keeps img s u" "held img (dir_blk s dir (q + 1)) (pfsCacheFree (Some i) t) j u" "tl (cdata u dir) = tl (cdata s dir)"
    using get_dir_chunk [OF dir q r(1,2) tl] d(5) r(3) by auto
  then have "at_chunk D img ok s dir (q + 1) j u" using r(3) by (simp add: at_chunk_def held_def)
  then show ?thesis using sync u(1) by blast
qed

subsection \<open>The search\<close>

text \<open>The offset that the loop has after the first \<open>k\<close> sectors, and the entries of the others.\<close>

definition next_offset :: "nat \<Rightarrow> nat" where "next_offset k = (if k = 0 then 0 else 512 * ((k - 1) mod 2) + 512)"

definition entries_from :: "nat \<Rightarrow> nat \<Rightarrow> (nat \<Rightarrow> nat list) \<Rightarrow> (nat \<times> nat) list" where
  "entries_from k n es = concat (map (\<lambda>k. map (Pair (k div 2)) (es k)) [k..<n])"

text \<open>
  What the search returns when \<open>found\<close> is the entry to find: NULL and the use counts \<open>users\<close>, or
  an entry of the cache that holds the chunk, with one user more.
\<close>

definition search_result ::
    "'d blk_dev \<Rightarrow> ('d \<Rightarrow> image) \<Rightarrow> ('d \<Rightarrow> bool) \<Rightarrow> ('d, 'z) pfs_state_scheme \<Rightarrow> nat \<Rightarrow> (nat \<Rightarrow> u16) \<Rightarrow> (nat \<times> nat) option \<Rightarrow>
      (nat \<times> nat) option \<Rightarrow> ('d, 'z) pfs_state_scheme \<Rightarrow> bool" where
  "search_result D img ok s dir users found r t \<longleftrightarrow> pfs_good D img ok t \<and> keeps img s t \<and>
     (case found of None \<Rightarrow> r = None \<and> qused t = users
      | Some (q, e) \<Rightarrow> \<exists>i \<in> {1..pfsCacheNumBuffers t}. r = Some (i, e) \<and> qkey t i = Some (dir_blk s dir q) \<and>
          cdata t i = pfs_view img s (dir_blk s dir q) \<and> qused t = users(i := users i + 1))"

lemma free_dir:
  assumes "pfs_good D img ok t" "keeps img s t" "dir \<in> {1..pfsCacheNumBuffers s}" "qused t dir \<noteq> 0"
  defines "v \<equiv> pfsCacheFree (Some dir) t"
  shows "pfs_good D img ok v" "keeps img s v" "qused v = (qused t)(dir := qused t dir - 1)" "qkey v = qkey t" "pfsCacheNumBuffers v = pfsCacheNumBuffers t"
proof -
  have "dir \<in> {1..pfsCacheNumBuffers t}" using assms(2,3) by (simp add: keeps_def)
  from free_good [OF assms(1) this assms(4), folded v_def] keeps_trans [OF assms(2)]
  show "pfs_good D img ok v" "keeps img s v" "qused v = (qused t)(dir := qused t dir - 1)" "qkey v = qkey t" by blast+
  show "pfsCacheNumBuffers v = pfsCacheNumBuffers t" by (simp add: v_def)
qed

lemma find_first: "List.find P (map f xs @ ys) = (case List.find (\<lambda>x. P (f x)) xs of Some x \<Rightarrow> Some (f x) | None \<Rightarrow> List.find P ys)"
  by (induction xs) auto

lemma entries_from_split: "k < n \<Longrightarrow> entries_from k n es = map (Pair (k div 2)) (es k) @ entries_from (Suc k) n es"
  by (simp add: entries_from_def upt_conv_Cons)

lemma dir_more:
  assumes "dir_ok img s dir n es" "at_chunk D img ok s dir q i t" "k \<le> n"
  shows "ucast (of_nat (512 * k) :: u32) < inode_size (cdata t dir) \<longleftrightarrow> k < n" "inode_number_data (cdata t dir) = 2"
proof -
  have at: "pfs_good D img ok t" "keeps img s t" "tl (cdata t dir) = tl (cdata s dir)" using assms(2) by (simp_all add: at_chunk_def)
  have len: "length (cdata t dir) = 256" "length (cdata s dir) = 256"
    using assms(1) at(1,2) pfs_goodD(7) [of D img ok t dir] by (auto simp: dir_ok_def keeps_def)
  note f = inode_fields_tl [OF at(3) len]
  show "inode_number_data (cdata t dir) = 2" using f(2) assms(1) by (simp add: dir_ok_def)
  have n: "n < 2 ^ 22" "inode_size (cdata t dir) = of_nat (512 * n)" using f(1) assms(1) by (auto simp: dir_ok_def)
  have "unat (of_nat (512 * n) :: u64) = 512 * n" "unat (of_nat (512 * k) :: u32) = 512 * k"
    using n(1) assms(3) by (simp_all add: unat_of_nat take_bit_nat_eq_self_iff del: of_nat_mult)
  then show "ucast (of_nat (512 * k) :: u32) < inode_size (cdata t dir) \<longleftrightarrow> k < n"
    unfolding n(2) word_less_nat_alt using n(1) assms(3) by (simp add: unsigned_ucast_eq take_bit_nat_eq_self del: of_nat_mult)
qed

text \<open>Getting to sector \<open>k\<close>.\<close>

lemma sector_step:
  assumes dir: "dir_ok img s dir n es" and s: "ready D img ok s" and k: "k < n" and at: "at_chunk D img ok s dir ((k - 1) div 2) i t"
  shows "\<exists>j u. (if unat pfsMetaSize \<le> next_offset k
      then do {
        ((r, bp1), s1) \<leftarrow> pfsInodeSync D (dir_pos (pmount s) dir ((k - 1) div 2)) (ucast pfsMetaSize) used t;
        if r \<noteq> 0 then Some ((Inl (Some i), next_offset k, bp1), s1)
        else do {
          ((c, e), s2) \<leftarrow> pfsGetDentriesChunk D bp1 (pfsCacheFree (Some i) s1);
          Some (case c of None \<Rightarrow> ((Inl None, next_offset k, bp1), s2) | Some i \<Rightarrow> ((Inr i, 0, bp1), s2))
        }
      }
      else Some ((Inr i, next_offset k, dir_pos (pmount s) dir ((k - 1) div 2)), t)) =
        Some ((Inr j, 512 * (k mod 2), dir_pos (pmount s) dir (k div 2)), u) \<and> at_chunk D img ok s dir (k div 2) j u"
proof (cases "0 < k \<and> even k")
  case True
  then obtain q where q: "k = 2 * (q + 1)" by (elim conjE evenE) (metis Suc_eq_plus1 gr0_implies_Suc mult_0_right not_gr0)
  have e: "next_offset k = 1024" "(k - 1) div 2 = q" "k div 2 = q + 1" "k mod 2 = 0" by (auto simp: q next_offset_def)
  obtain j u where "pfsInodeSync D (dir_pos (pmount s) dir q) 1024 used t = Some ((0, dir_pos (pmount s) dir (q + 1)), t)"
    "pfsGetDentriesChunk D (dir_pos (pmount s) dir (q + 1)) (pfsCacheFree (Some i) t) = Some ((Some j, 0), u)" "at_chunk D img ok s dir (q + 1) j u"
    using next_chunk [OF dir s at [unfolded e(2)]] k q by blast
  then show ?thesis unfolding e by (simp add: pfsMetaSize_def)
next
  case False
  then have "(k - 1) div 2 = k div 2" "next_offset k = 512 * (k mod 2)" by (auto simp: next_offset_def elim!: oddE)
  moreover have "\<not> unat pfsMetaSize \<le> 512 * (k mod 2)" by (simp add: pfsMetaSize_def)
  ultimately show ?thesis using at by auto
qed

lemma dentry_loop_dir:
  assumes dir: "dir_ok img s dir n es" and s: "ready D img ok s" and opt: "option \<le> 2"
    and "k \<le> n" "at_chunk D img ok s dir ((k - 1) div 2) i t"
  shows "\<exists>r sz v. dentry_loop D dir option fname (dir_pos (pmount s) dir ((k - 1) div 2)) i (next_offset k) (of_nat (512 * k)) t = Some ((r, sz), v) \<and>
    search_result D img ok s dir ((qused s)(dir := qused s dir - 1))
      (List.find (\<lambda>(q, e). dentry_match option fname (pfs_view img s (dir_blk s dir q)) e) (entries_from k n es)) r v"
  using assms(4,5)
proof (induction "n - k" arbitrary: k i t)
  case 0
  then have k: "k = n" by simp
  have d: "dir \<in> {1..pfsCacheNumBuffers s}" "qused s dir \<noteq> 0" using dir by (auto simp: dir_ok_def)
  have at: "pfs_good D img ok t" "keeps img s t" "held img (dir_blk s dir ((k - 1) div 2)) s i t" "tl (cdata t dir) = tl (cdata s dir)"
    using 0 by (simp_all add: at_chunk_def)
  note r = release_chunk [OF s at(1-3)]
  have g: "pfs_good D img ok (pfsCacheFree (Some i) t)" using r(1) by (simp add: ready_def)
  have "qused (pfsCacheFree (Some i) t) dir \<noteq> 0" using r(3) d(2) by simp
  note v = free_dir [OF g r(2) d(1) this]
  have "\<not> ucast (of_nat (512 * k) :: u32) < inode_size (cdata t dir)" using dir_more(1) [OF dir 0(3,2)] k by simp
  then have "dentry_loop D dir option fname (dir_pos (pmount s) dir ((k - 1) div 2)) i (next_offset k) (of_nat (512 * k)) t =
      Some ((None, of_nat (512 * k)), pfsCacheFree (Some dir) (pfsCacheFree (Some i) t))"
    by (subst dentry_loop.simps) (simp add: dentry_stop_def)
  then show ?case using v(1,2,3) r(3) by (auto simp: search_result_def k entries_from_def)
next
  case (Suc m)
  let ?match = "\<lambda>(q, e). dentry_match option fname (pfs_view img s (dir_blk s dir q)) e"
  have k: "k < n" "m = n - Suc k" using Suc.hyps(2) by auto
  have d: "dir \<in> {1..pfsCacheNumBuffers s}" "qused s dir \<noteq> 0" "plain s (dir_blk s dir (k div 2))"
    "tiles (pfs_view img s (dir_blk s dir (k div 2))) (es k) (512 * (k mod 2)) (512 * (k mod 2) + 512)"
    using dir k(1) by (auto simp: dir_ok_def)
  note step = sector_step [OF dir s k(1) Suc.prems(2), of "inode_number_data (cdata t dir)"]
  from step obtain j u where u: "at_chunk D img ok s dir (k div 2) j u" and
    run: "dentry_loop D dir option fname (dir_pos (pmount s) dir ((k - 1) div 2)) i (next_offset k) (of_nat (512 * k)) t =
      (case scan_sector option fname (cdata u j) (512 * (k mod 2)) (512 * (k mod 2) + 512) (of_nat (512 * k)) of
         Found d2 sz1 \<Rightarrow> Some ((Some (j, d2), sz1), pfsCacheFree (Some dir) u)
       | Outside \<Rightarrow> None
       | Stop sz1 \<Rightarrow> dentry_stop (dir_pos (pmount s) dir (k div 2)) (Some j) sz1 u
       | Next sz1 \<Rightarrow> dentry_loop D dir option fname (dir_pos (pmount s) dir (k div 2)) j (512 * (k mod 2) + 512) sz1 u)"
    by (elim exE conjE, subst (asm) dentry_loop.simps)
      (simp only: dir_more(1) [OF dir Suc.prems(2,1)] k(1) simp_thms if_True bind.bind_lunit prod.case sum.case dir_pos_sel)
  have u': "pfs_good D img ok u" "keeps img s u" "held img (dir_blk s dir (k div 2)) s j u" using u by (simp_all add: at_chunk_def)
  have data: "cdata u j = pfs_view img s (dir_blk s dir (k div 2))" using u'(3) keepsD [OF u'(2) d(3)] by (simp add: held_def)
  have le: "512 * (k mod 2) + 512 \<le> 1024" by simp
  have sz: "of_nat (512 * k) + of_nat (512 * (k mod 2) + 512 - 512 * (k mod 2)) = (of_nat (512 * Suc k) :: u32)" by simp
  note scan = scan_tiles [OF d(4) le opt, folded data, of fname "of_nat (512 * k)", unfolded sz]
  have find: "List.find ?match (entries_from k n es) = (case List.find (dentry_match option fname (cdata u j)) (es k) of
      Some e \<Rightarrow> Some (k div 2, e) | None \<Rightarrow> List.find ?match (entries_from (Suc k) n es))"
    unfolding entries_from_split [OF k(1)] find_first by (simp add: data)
  show ?case
  proof (cases "List.find (dentry_match option fname (cdata u j)) (es k)")
    case None
    have "next_offset (Suc k) = 512 * (k mod 2) + 512" "(Suc k - 1) div 2 = k div 2" by (auto simp: next_offset_def)
    then show ?thesis using Suc.hyps(1) [OF k(2), of j u] u None k(1) unfolding run find scan by (simp del: of_nat_mult)
  next
    case (Some e)
    have "qused u dir \<noteq> 0" using u'(3) d(2) s by (auto simp: held_def ready_def users_ok_def add_eq_0_iff2)
    note v = free_dir [OF u'(1,2) d(1) this]
    have "qused (pfsCacheFree (Some dir) u) = ((qused s)(dir := qused s dir - 1))(j := ((qused s)(dir := qused s dir - 1)) j + 1)"
      using v(3) u'(3) by (auto simp: held_def fun_eq_iff)
    then have "search_result D img ok s dir ((qused s)(dir := qused s dir - 1)) (Some (k div 2, e)) (Some (j, e)) (pfsCacheFree (Some dir) u)"
      using v(1,2,4,5) u'(3) data unfolding search_result_def held_def by simp
    then show ?thesis using Some unfolding run find scan by simp
  qed
qed

text \<open>Holding the directory once more.\<close>

lemma use_dir:
  assumes s: "ready D img ok s" and i: "i \<in> {1..pfsCacheNumBuffers s}" "qused s i \<noteq> 0" "qused s i \<noteq> - 2"
  defines "t \<equiv> pfsCacheUsedAdd i s"
  shows "ready D img ok t" "keeps img s t" "qused t = (qused s)(i := qused s i + 1)" "cdata t j = cdata s j"
proof -
  have g: "pfs_good D img ok s" "qused s i \<noteq> - 1" using s by (auto simp: ready_def users_ok_def)
  obtain ys where q: "pfs_queue s ys" using pfs_goodD(2) [OF g(1)] by (auto simp: pfs_cache_inv_def)
  have inv: "pfs_cache_inv t" using pfs_used_add [OF q i(1)] i(2) g(2) by (auto simp: t_def pfs_cache_inv_def qused_def)
  have pay: "payload (pfsCacheBuf t j) = payload (pfsCacheBuf s j)" for j by (simp add: t_def pfsCacheUsedAdd_def upd_cache_def payload_def)
  have same: "pmount t = pmount s" "pfsCacheNumBuffers t = pfsCacheNumBuffers s" "pfsJournalBuf t = pfsJournalBuf s" "pworld t = pworld s"
    by (simp_all add: t_def pfsCacheUsedAdd_def)
  show u: "qused t = (qused s)(i := qused s i + 1)" by (simp add: t_def pfsCacheUsedAdd_def qused_def fun_eq_iff upd_cache_def)
  show "cdata t j = cdata s j" using pay [of j] by (rule payload_data(1))
  have own: "entry_ok img s (pfsCacheBuf t i)" using entry_ok_payload [OF pay, of img s] pfs_good_entry [OF g(1) i(1)] by simp
  have good: "pfs_good D img ok t"
    by (rule pfs_good_change [OF g(1) inv same(1,2,3) _ _ pay own]) (use pfs_goodD(3) [OF g(1)] same(4) in simp_all)
  moreover have "avail t" using s i(2) unfolding ready_def avail_def same u by auto
  moreover have "qused s i + 1 \<noteq> - 1"
  proof
    assume "qused s i + 1 = - 1"
    then have "qused s i = - 1 - 1" by (simp only: eq_diff_eq)
    then show False using i(3) by simp
  qed
  then have "users_ok t" using s u by (auto simp: ready_def users_ok_def)
  ultimately show "ready D img ok t" by (simp add: ready_def)
  have "qkey t = qkey s" using pay by (auto simp: fun_eq_iff qkey_def payload_def)
  then have "pfs_find k t = pfs_find k s" for k by (simp add: pfs_find_def same)
  then show "keeps img s t" using pay same
    by (auto simp: keeps_def same_plain_def plain_def stored_def pfs_view_def payload_def split: option.splits)
qed

text \<open>
  C29. A lookup in a well-formed directory of one segment finds what the directory holds: of the
  entries of all its sectors in order it returns the first that matches, in an entry of the cache
  that holds that chunk as the block cache sees it, and NULL if none matches. It ends, changes no
  block of plain data, and gives back every entry of the cache that it used on the way.
\<close>

theorem directory_lookup:
  assumes "ready D img ok s" "dir_ok img s dir n es" "qused s dir \<noteq> - 2" "option \<le> 2"
  shows "\<exists>r sz t. pfsGetDentry D dir fname option s = Some ((r, sz), t) \<and>
    search_result D img ok s dir (qused s)
      (List.find (\<lambda>(q, e). dentry_match option fname (pfs_view img s (dir_blk s dir q)) e) (entries_from 0 n es)) r t"
proof -
  have d: "dir \<in> {1..pfsCacheNumBuffers s}" "qused s dir \<noteq> 0" "0 < n" using assms(2) by (auto simp: dir_ok_def)
  define s1 where "s1 = pfsCacheUsedAdd dir s"
  note s1 = use_dir [OF assms(1) d(1,2) assms(3), folded s1_def]
  have m: "pmount s1 = pmount s" "pfsCacheNumBuffers s1 = pfsCacheNumBuffers s" using s1(2) by (simp_all add: keeps_def)
  have b: "dir_blk s1 dir = dir_blk s dir" by (simp add: fun_eq_iff dir_blk_def s1(4) m)
  have u: "qused s1 dir \<noteq> 0" using s1(1,3) assms(1) by (auto simp: ready_def users_ok_def add_eq_0_iff2)
  have pl: "plain s1 (dir_blk s dir (k div 2)) \<and> pfs_view img s1 (dir_blk s dir (k div 2)) = pfs_view img s (dir_blk s dir (k div 2))" if "k < n" for k
    using keepsD [OF s1(2)] assms(2) that by (simp add: dir_ok_def)
  have dir: "dir_ok img s1 dir n es"
    using assms(2) u pl unfolding dir_ok_def m b s1(4) by simp
  obtain i t where t: "pfsGetDentriesChunk D (dir_pos (pmount s1) dir 0) s1 = Some ((Some i, 0), t)" "pfs_good D img ok t" "keeps img s1 t"
    "held img (dir_blk s1 dir 0) s1 i t" "tl (cdata t dir) = tl (cdata s1 dir)"
    using get_dir_chunk [OF dir _ s1(1) _ refl u, of 0] d(3) by (auto simp: keeps_def)
  have at: "at_chunk D img ok s1 dir ((0 - 1) div 2) i t" using t by (simp add: at_chunk_def)
  have p: "dir_pos (pmount s1) dir 0 = \<lparr>bp_inode = Some dir, block_segment = 1, block_offset = 0, byte_offset = 0\<rparr>" by (simp add: dir_pos_def)
  have base: "(qused s1)(dir := qused s1 dir - 1) = qused s" by (simp add: s1(3) fun_eq_iff)
  let ?find = "\<lambda>v. List.find (\<lambda>(q, e). dentry_match option fname (pfs_view img v (dir_blk s dir q)) e) (entries_from 0 n es)"
  have mem: "\<exists>k < n. q = k div 2" if "(q, e) \<in> set (entries_from 0 n es)" for q e using that by (auto simp: entries_from_def)
  have find: "?find s1 = ?find s"
    by (rule find_cong [OF refl]) (use mem pl in \<open>fastforce simp del: split_paired_All\<close>)
  obtain r sz v where v: "dentry_loop D dir option fname (dir_pos (pmount s1) dir 0) i 0 0 t = Some ((r, sz), v)"
    "search_result D img ok s1 dir (qused s) (?find s) r v"
    using dentry_loop_dir [OF dir s1(1) assms(4) _ at, of fname] unfolding base b find by (auto simp: next_offset_def)
  have get: "pfsGetDentry D dir fname option s = Some ((r, sz), v)"
    using t(1) v(1) unfolding p by (simp add: pfsGetDentry_def Let_def s1_def)
  have "search_result D img ok s dir (qused s) (?find s) r v"
  proof (cases "?find s")
    case None
    then show ?thesis using v(2) keeps_trans [OF s1(2)] by (auto simp: search_result_def)
  next
    case (Some x)
    then have "x \<in> set (entries_from 0 n es)" by (auto dest: find_SomeD)
    then show ?thesis using v(2) keeps_trans [OF s1(2)] mem [of "fst x" "snd x"] pl Some by (auto simp: search_result_def b split: prod.splits)
  qed
  then show ?thesis using get by blast
qed

lemma demo_dir_entry [simp]:
  "pfsCacheBuf demo_dir 2 = (zero_pfs_entry demo_chunk)\<lparr>q_flags := PFS_CACHE_FLAG_DIRTY, q_mounted := True, q_block := 0x418\<rparr>"
  "pfsCacheBuf demo_dir (Suc 0) = (zero_pfs_entry ((replicate 256 0)[12 := 0x83, 13 := 0x10000, 246 := 0x200, 249 := 2]))
     \<lparr>q_nused := 1, q_flags := PFS_CACHE_FLAG_SEGD OR PFS_CACHE_FLAG_DIRTY, q_mounted := True, q_block := 0x410\<rparr>"
  "pfsCacheBuf demo_dir 0 = (zero_pfs_entry [])\<lparr>q_next := 2, q_prev := 2\<rparr>"
  "i \<noteq> 0 \<Longrightarrow> i \<noteq> Suc 0 \<Longrightarrow> i \<noteq> 2 \<Longrightarrow> pfsCacheBuf demo_dir i = zero_pfs_entry []"
  "pfsCacheNumBuffers demo_dir = 2" "pmount demo_dir = demo_mount" "pworld demo_dir = demo_disk" "pfsJournalBuf demo_dir = empty_pfs_journal"
  by (simp_all add: demo_dir_def demo_pfs_state_def)

lemma demo_dir_range: "{1..2} = {1, 2 :: nat}" "{Suc 0..2} = {Suc 0, 2}" "lastError demo_mount = 0"
  by (auto simp: demo_mount_def)

lemma demo_dir_ready: "ready (sim_blk True) sim_image good_disk demo_dir"
proof -
  have k: "qkey demo_dir 1 = Some (0, 0x410)" "qkey demo_dir 2 = Some (0, 0x418)" by (simp_all add: qkey_def zero_pfs_entry_def)
  have u: "qused demo_dir i = (if i = 1 then 1 else 0)" for i
    by (cases "i = 0 \<or> i = Suc 0 \<or> i = 2") (auto simp: qused_def zero_pfs_entry_def)
  have "slot_queue 2 (qused demo_dir) (qkey demo_dir) [2]"
    unfolding slot_queue_def demo_dir_range(1) using k u by auto
  moreover have "ring 0 (qnext demo_dir) (qprev demo_dir) [2]"
    by (simp add: ring_def qnext_def qprev_def zero_pfs_entry_def)
  ultimately have "pfs_cache_inv demo_dir" unfolding pfs_cache_inv_def pfs_queue_def by auto
  moreover have "blk_range k \<and> off_log demo_mount 2 k" if "k = (0, 0x410) \<or> k = (0, 0x418)" for k
  proof -
    have "\<not> covers (log_start demo_mount) 6 x" if "unat x < 0x2040" for x
    proof
      assume "covers (log_start demo_mount) 6 x"
      then obtain k where "k < 6" "x = 0x2040 + of_nat k" by (auto simp: covers_def log_start_def demo_mount_def)
      then show False using that by (simp add: unat_word_ariths unat_of_nat)
    qed
    then show ?thesis using that by (auto simp: blk_range_def off_log_def push_block)
  qed
  ultimately have "pfs_good (sim_blk True) sim_image good_disk demo_dir"
    unfolding pfs_good_def using sim_blk_good demo_tiles(3)
    by (simp add: demo_dir_range good_disk_def demo_disk_def coherent_def pfs_dirty_def zero_pfs_entry_def entry_key_def
        PFS_CACHE_FLAG_SEGD_def PFS_CACHE_FLAG_DIRTY_def)
  moreover have "avail demo_dir" "users_ok demo_dir" using u by (auto simp: avail_def users_ok_def)
  ultimately show ?thesis by (simp add: ready_def)
qed

lemma demo_dir_view: "dir_blk demo_dir (Suc 0) 0 = (0, 0x418)" "plain demo_dir (0, 0x418)" "pfs_view sim_image demo_dir (0, 0x418) = demo_chunk"
proof -
  show "dir_blk demo_dir (Suc 0) 0 = (0, 0x418)"
    by (simp add: dir_blk_def zone_chunks_def inode_data_def blockinfo_at_def zero_pfs_entry_def half_at_def inode_blk_def demo_mount_def)
  have inv: "pfs_cache_inv demo_dir" using demo_dir_ready pfs_goodD(2) by (auto simp: ready_def)
  have f: "pfs_find (0, 0x418) demo_dir = Some 2"
    by (rule pfs_find_eq [OF inv]) (simp_all add: qkey_def zero_pfs_entry_def)
  have "blk_range (0, 0x418) \<and> off_log demo_mount 2 (0, 0x418)"
    using demo_dir_ready pfs_goodD(9) [of "sim_blk True" sim_image good_disk demo_dir 2] by (simp add: ready_def entry_key_def zero_pfs_entry_def)
  then show "plain demo_dir (0, 0x418)"
    by (simp add: plain_def f zero_pfs_entry_def PFS_CACHE_FLAG_SEGD_def PFS_CACHE_FLAG_SEGI_def PFS_CACHE_FLAG_DIRTY_def)
  show "pfs_view sim_image demo_dir (0, 0x418) = demo_chunk" by (simp add: pfs_view_def f zero_pfs_entry_def)
qed

lemma demo_dir_ok: "dir_ok sim_image demo_dir 1 1 (\<lambda>_. [0, 12, 24])"
  using demo_tiles(1) demo_dir_view
  by (simp add: dir_ok_def qused_def zero_pfs_entry_def zone_chunks_def demo_mount_def inode_size_def inode_number_data_def inode_data_def
      blockinfo_at_def half_at_def del: tiles.simps)

theorem directory_lookup_witness:
  "\<exists>i sz t. pfsGetDentry (sim_blk True) 1 (Some [0x61]) 0 demo_dir = Some ((Some (i, 24), sz), t) \<and> d_inode (cdata t i) 24 = 0x90"
  using directory_lookup [OF demo_dir_ready demo_dir_ok, of 0 "Some [0x61]"]
  by (auto simp: search_result_def entries_from_def demo_dir_view dentry_match_def demo_chunk_fields qused_def zero_pfs_entry_def)

end
