(* ===== verification/PfsSuper.thy ===== *)
theory PfsSuper
  imports PfsFile
begin

text \<open>
  Formatting and mounting a partition, \<open>libpfs/src/superWrite.c\<close>. The superblock is read from
  and written to the words of the cache entry that holds it.
\<close>

definition PFS_FORMAT_VERSION :: u32 where "PFS_FORMAT_VERSION = 3"
definition PFS_FIO_ATTR_EXECUTABLE :: u32 where "PFS_FIO_ATTR_EXECUTABLE = 0x0004"

text \<open>\<open>(PFS_MAJOR << 8) | PFS_MINOR\<close> of the modules' \<open>pfs-opt.h\<close>.\<close>

definition PFS_MODVER :: u32 where "PFS_MODVER = 0x0104"

text \<open>The fields of \<open>pfs_super_block_t\<close>.\<close>

definition sb_magic :: "u32 list \<Rightarrow> u32" where "sb_magic ws = ws ! 0"
definition sb_version :: "u32 list \<Rightarrow> u32" where "sb_version ws = ws ! 1"
definition sb_fsck_stat :: "u32 list \<Rightarrow> u32" where "sb_fsck_stat ws = ws ! 3"
definition sb_zone_size :: "u32 list \<Rightarrow> u32" where "sb_zone_size ws = ws ! 4"
definition sb_num_subs :: "u32 list \<Rightarrow> u32" where "sb_num_subs ws = ws ! 5"
definition sb_log :: "u32 list \<Rightarrow> pfs_blockinfo" where "sb_log = blockinfo_at 6"
definition sb_root :: "u32 list \<Rightarrow> pfs_blockinfo" where "sb_root = blockinfo_at 8"

definition with_mount :: "(pfs_mount \<Rightarrow> pfs_mount) \<Rightarrow> ('d, 'z) pfs_state_scheme \<Rightarrow> ('d, 'z) pfs_state_scheme" where
  "with_mount f s = s\<lparr>pmount := f (pmount s)\<rparr>"

subsection \<open>Formatting\<close>

text \<open>The first \<open>n\<close> zones are marked in the words of a sector filled with the pattern.\<close>

definition mark_reserved :: "nat \<Rightarrow> u32 list \<Rightarrow> u32 list" where
  "mark_reserved n ws = fold (\<lambda>j w. w[j div 32 := (w ! (j div 32)) OR push_bit (j mod 32) 1]) [0..<n] ws"

definition fill_sector :: "u32 \<Rightarrow> u32 list \<Rightarrow> u32 list" where
  "fill_sector fragment ws = overlay (replicate 128 fragment) ws"

text \<open>The loop that writes \<open>n\<close> sectors; a sector after the first holds the pattern.\<close>

fun format_loop :: "'d blk_dev \<Rightarrow> nat \<Rightarrow> u32 \<Rightarrow> u32 \<Rightarrow> nat \<Rightarrow> u32 \<Rightarrow> int \<Rightarrow> ('d, 'z) pfs_state_scheme \<Rightarrow> int \<times> ('d, 'z) pfs_state_scheme" where
  "format_loop D i fragment sub 0 sector result s = (result, s)"
| "format_loop D i fragment sub (Suc n) sector result s =
     (let (r, w) = bd_write D sub sector 1 (take 128 (cdata s i)) (pworld s); s1 = s\<lparr>pworld := w\<rparr> in
      if r < 0 then (r, s1)
      else format_loop D i fragment sub n (sector + 1) r (set_data i (fill_sector fragment) s1))"

definition pfsFormatSub ::
    "'d blk_dev \<Rightarrow> u32 \<Rightarrow> u32 \<Rightarrow> nat \<Rightarrow> u32 \<Rightarrow> ('d, 'z) pfs_state_scheme \<Rightarrow> (int \<times> ('d, 'z) pfs_state_scheme) option" where
  "pfsFormatSub D sub reserved scale fragment s =
     (let sz = bd_size D sub;
          sector = push_bit scale 1 + (if 2 \<le> reserved then 0x2000 else 0);
          n = unat (reserved + pfsGetBitmapSizeBlocks scale sz)
      in do {
        ((c, e), s1) \<leftarrow> pfsCacheAllocClean D s;
        case c of None \<Rightarrow> Some (e, s1)
        | Some i \<Rightarrow>
            if 8192 < n then None
            else (let s2 = set_data i (\<lambda>ws. mark_reserved n (fill_sector fragment ws)) s1;
                      (r, s3) = format_loop D i fragment sub (unat (pfsGetBitmapSizeSectors scale sz)) sector e s2
                  in Some (r, pfsCacheFree (Some i) s3))
      })"

text \<open>The loop over the sub-partitions from \<open>i\<close>; \<open>reserved\<close> is 1 but for the main one.\<close>

partial_function (option) format_subs ::
    "'d blk_dev \<Rightarrow> (u32 \<Rightarrow> u32) \<Rightarrow> nat \<Rightarrow> u32 \<Rightarrow> u32 \<Rightarrow> u32 \<Rightarrow> int \<Rightarrow> ('d, 'z) pfs_state_scheme \<Rightarrow> (int \<times> ('d, 'z) pfs_state_scheme) option" where
  "format_subs D reserved scale fragment limit i result s =
     (if i < limit
      then do {
        (r, s1) \<leftarrow> pfsFormatSub D i (reserved i) scale fragment s;
        if r < 0 then Some (r, s1) else format_subs D reserved scale fragment limit (i + 1) r s1
      }
      else Some (result, s))"

definition format_super :: "u32 \<Rightarrow> u32 \<Rightarrow> nat \<Rightarrow> u32 \<Rightarrow> u32 list" where
  "format_super zonesize subnumber scale mainsize =
     (let lg = pfsGetBitmapSizeBlocks scale mainsize + drop_bit scale 0x2000 + 1;
          cnt = (if 0x20000 div zonesize \<noteq> 0 then ucast (0x20000 div zonesize) else 1) :: u16;
          ws = (replicate 256 0)[0 := PFS_SUPER_MAGIC, 1 := PFS_FORMAT_VERSION, 2 := PFS_MODVER, 4 := zonesize, 5 := subnumber]
      in set_blockinfo 8 \<lparr>bi_number = lg + ucast cnt, bi_subpart = 0, bi_count = 1\<rparr>
           (set_blockinfo 6 \<lparr>bi_number = lg, bi_subpart = 0, bi_count = cnt\<rparr> ws))"

text \<open>The root directory: its entries, then its inode, through one cache entry.\<close>

definition format_root :: "'d blk_dev \<Rightarrow> nat \<Rightarrow> pfs_blockinfo \<Rightarrow> nat \<Rightarrow> ('d, 'z) pfs_state_scheme \<Rightarrow> int \<times> ('d, 'z) pfs_state_scheme" where
  "format_root D c root scale s =
     (let s1 = pfsFillSelfAndParentDentries c root root s;
          (r, w) = bd_write D 0 (push_bit scale (bi_number root + 1)) 2 (cdata s1 c) (pworld s1);
          s2 = s1\<lparr>pworld := w\<rparr>
      in if r \<noteq> 0 then (r, s2)
         else (let s3 = set_data c (put_data 1 \<lparr>bi_number = bi_number root + 1, bi_subpart = 0, bi_count = 1\<rparr>) (pfsInodeFill D c root 0x11FF 0 0 s2);
                   s4 = set_data c (\<lambda>ws. ws[0 := pfsInodeCheckSum ws]) s3;
                   (r2, w2) = bd_write D 0 (push_bit scale (bi_number root)) 2 (cdata s4 c) (pworld s4)
               in (r2, s4\<lparr>pworld := w2\<rparr>)))"

definition write_supers :: "'d blk_dev \<Rightarrow> u32 \<Rightarrow> u32 \<Rightarrow> nat \<Rightarrow> ('d, 'z) pfs_state_scheme \<Rightarrow> int \<times> ('d, 'z) pfs_state_scheme" where
  "write_supers D first second i s =
     (let (r, w) = bd_write D 0 first 1 (take 128 (cdata s i)) (pworld s) in
      if r \<noteq> 0 then (r, s\<lparr>pworld := w\<rparr>)
      else (let (r2, w2) = bd_write D 0 second 1 (take 128 (cdata s i)) w in (r2, s\<lparr>pworld := w2\<rparr>)))"

definition pfsFormat :: "'d blk_dev \<Rightarrow> u32 \<Rightarrow> u32 \<Rightarrow> ('d, 'z) pfs_state_scheme \<Rightarrow> (int \<times> ('d, 'z) pfs_state_scheme) option" where
  "pfsFormat D zonesize fragment s =
     (if \<not> pfsCheckZoneSize zonesize then Some (- EINVAL, s)
      else do {
        scale \<leftarrow> pfsGetScale zonesize 512;
        ((clink, e), s1) \<leftarrow> pfsCacheAllocClean D s;
        case clink of None \<Rightarrow> Some (e, s1)
        | Some i \<Rightarrow> do {
            let s2 = set_data i (\<lambda>_. format_super zonesize (bd_subs D) scale (bd_size D 0)) s1;
            let lg = sb_log (cdata s2 i);
            let root = sb_root (cdata s2 i);
            let (r, s3) = pfsJournalResetThis D (push_bit scale (bi_number lg)) s2;
            (r6, s6) \<leftarrow>
              (if r < 0 then Some (r, s3)
               else do {
                 ((cache, e2), s4) \<leftarrow> pfsCacheAllocClean D s3;
                 let (r4, s5) = (case cache of None \<Rightarrow> (e2, s4)
                    | Some c \<Rightarrow> (let (r4, t) = format_root D c root scale s4 in (r4, pfsCacheFree (Some c) t)));
                 if r4 < 0 then Some (r4, s5)
                 else do {
                   (r5, s5a) \<leftarrow> format_subs D (\<lambda>k. if k \<noteq> 0 then 1 else drop_bit scale 0x2000 + ucast (bi_count lg) + 3) scale fragment
                      (bd_subs D + 1) 0 r4 s5;
                   Some (if r5 = 0 then write_supers D PFS_SUPER_BACKUP_SECTOR PFS_SUPER_SECTOR i s5a else (r5, s5a))
                 }
               });
            let s7 = pfsCacheFree (Some i) s6;
            Some (r6, s7\<lparr>pworld := snd (bd_flush D (pworld s7))\<rparr>)
          }
      })"

subsection \<open>Mounting\<close>

definition pfsUpdateSuperBlock ::
    "'d blk_dev \<Rightarrow> nat \<Rightarrow> u32 \<Rightarrow> ('d, 'z) pfs_state_scheme \<Rightarrow> (int \<times> ('d, 'z) pfs_state_scheme) option" where
  "pfsUpdateSuperBlock D clink sub s = do {
     scale \<leftarrow> pfsGetScale (sb_zone_size (cdata s clink)) 512;
     (r, s1) \<leftarrow> format_subs D (\<lambda>_. 1) scale 0 (sub + 1) (sb_num_subs (cdata s clink) + 1) 0 s;
     if r < 0 then Some (r, s1)
     else (let (r2, s2) = write_supers D PFS_SUPER_SECTOR PFS_SUPER_BACKUP_SECTOR clink (set_data clink (\<lambda>ws. ws[5 := sub]) s1)
           in Some (r2, s2\<lparr>pworld := snd (bd_flush D (pworld s2))\<rparr>))
   }"

text \<open>The sizes of the sub-partitions are added up; \<open>zfree\<close> goes on from its old value.\<close>

partial_function (option) count_subs :: "'d blk_dev \<Rightarrow> u32 \<Rightarrow> ('d, 'z) pfs_state_scheme \<Rightarrow> ('d, 'z) pfs_state_scheme option" where
  "count_subs D i s =
     (if i < num_subs (pmount s) + 1
      then do {
        let s1 = with_mount (\<lambda>m. m\<lparr>total_zones := total_zones m + drop_bit (unat (sector_scale m)) (bd_size D i)\<rparr>) s;
        (free, s2) \<leftarrow> pfsBitmapCalcFreeZones D i s1;
        if length (free_zone (pmount s2)) \<le> unat i then None
        else count_subs D (i + 1) (with_mount (\<lambda>m. m\<lparr>free_zone := (free_zone m)[unat i := free], zfree := zfree m + free\<rparr>) s2)
      }
      else Some s)"

definition super_errors :: "'d blk_dev \<Rightarrow> pfs_mount \<Rightarrow> u32 list \<Rightarrow> bool" where
  "super_errors D m ws \<longleftrightarrow> \<not> pfsCheckZoneSize (sb_zone_size ws) \<or>
     (sb_fsck_stat ws AND PFS_FSCK_STAT_WRITE_ERROR \<noteq> 0 \<and> mount_flags m AND PFS_FIO_ATTR_EXECUTABLE \<noteq> 0) \<or>
     bd_subs D < sb_num_subs ws"

definition mount_of_super :: "u32 list \<Rightarrow> nat \<Rightarrow> nat \<Rightarrow> pfs_mount \<Rightarrow> pfs_mount" where
  "mount_of_super ws a b m = m\<lparr>zsize := sb_zone_size ws, sector_scale := of_nat a, inode_scale := of_nat b, num_subs := sb_num_subs ws,
     root_dir := sb_root ws, mount_log := sb_log ws, current_dir := sb_root ws, total_zones := 0\<rparr>"

definition pfsMountSuperBlock :: "'d blk_dev \<Rightarrow> ('d, 'z) pfs_state_scheme \<Rightarrow> (int \<times> ('d, 'z) pfs_state_scheme) option" where
  "pfsMountSuperBlock D s = do {
     ((clink, e), s1) \<leftarrow> pfsCacheAllocClean D s;
     case clink of None \<Rightarrow> Some (e, s1)
     | Some i \<Rightarrow> do {
         let (r, ws, w) = bd_read D 0 PFS_SUPER_SECTOR 1 (pworld s1);
         let s2 = set_data i (overlay ws) (s1\<lparr>pworld := w\<rparr>);
         if r \<noteq> 0 then Some (r, pfsCacheFree (Some i) s2)
         else if sb_magic (cdata s2 i) \<noteq> PFS_SUPER_MAGIC \<or> PFS_FORMAT_VERSION < sb_version (cdata s2 i)
         then Some (- EIO, pfsCacheFree (Some i) s2)
         else if super_errors D (pmount s2) (cdata s2 i) then Some (- EIO, pfsCacheFree (Some i) s2)
         else do {
           (r3, s3) \<leftarrow> (if sb_num_subs (cdata s2 i) < bd_subs D then pfsUpdateSuperBlock D i (bd_subs D) s2 else Some (0, s2));
           if r3 \<noteq> 0 then Some (r3, pfsCacheFree (Some i) s3)
           else do {
             a \<leftarrow> pfsGetScale (sb_zone_size (cdata s3 i)) 512;
             b \<leftarrow> pfsGetScale (sb_zone_size (cdata s3 i)) pfsMetaSize;
             (rj, s4) \<leftarrow> pfsJournalRestore D (with_mount (mount_of_super (cdata s3 i) a b) s3);
             s5 \<leftarrow> count_subs D 0 s4;
             Some (0, pfsCacheFree (Some i) s5)
           }
         }
       }
   }"

subsection \<open>The table of block devices\<close>

definition is_digit :: "char \<Rightarrow> bool" where "is_digit c \<longleftrightarrow> c \<in> set ''0123456789''"

text \<open>
  The index in \<open>pfsBlockDeviceCallTable\<close>, of one device, or NULL. The name is copied to a buffer of
  32 bytes; a longer one, and the search for a digit in a name without one, leave it (None).
\<close>

definition pfsGetBlockDeviceTable :: "string \<Rightarrow> nat option option" where
  "pfsGetBlockDeviceTable name =
     (let n = dropWhile (\<lambda>c. c = CHR '' '') name; dev = takeWhile (\<lambda>c. c \<noteq> CHR '':'') n in
      if CHR '':'' \<notin> set n then Some None
      else if 32 \<le> length dev \<or> \<not> list_ex is_digit dev then None
      else Some (if takeWhile (\<lambda>c. \<not> is_digit c) dev = ''hdd'' then Some 0 else None))"

subsection \<open>What the modules share\<close>

text \<open>\<open>memset(&MainPFSMount, 0, sizeof(MainPFSMount))\<close>.\<close>

definition zero_mount :: pfs_mount where
  "zero_mount = (let b = \<lparr>bi_number = 0, bi_subpart = 0, bi_count = 0\<rparr> in
     \<lparr>mount_flags = 0, total_zones = 0, zfree = 0, sector_scale = 0, inode_scale = 0, zsize = 0, num_subs = 0,
      root_dir = b, mount_log = b, current_dir = b, lastError = 0, free_zone = replicate 65 0\<rparr>)"

text \<open>The mode of a PFS partition.\<close>

definition APA_TYPE_PFS :: u16 where "APA_TYPE_PFS = 0x0100"

text \<open>The arguments of \<open>fsck\<close> and \<open>fssk\<close>: the number of buffers, unless they are wrong. \<open>strtol\<close> is the C library's.\<close>

fun module_args :: "(string \<Rightarrow> int) \<Rightarrow> string list \<Rightarrow> int \<Rightarrow> int option" where
  "module_args strtol (a # as) buffers =
     (if a \<noteq> [] \<and> hd a = CHR ''-''
      then if a = ''-n''
           then (case as of [] \<Rightarrow> None | b # bs \<Rightarrow> module_args strtol bs (if strtol b < buffers then strtol b else buffers))
           else None
      else Some buffers)"
| "module_args strtol [] buffers = Some buffers"

end
