(* ===== verification/FsckBitmap.thy ===== *)
theory FsckBitmap
  imports PfsSuper
begin

text \<open>
  The bitmap that \<open>fsck\<close> rebuilds, \<open>fsck/bitmap.c\<close>: a bit per zone of the file system, kept in
  the extended area of the MBR partition and cached in four buffers of 256 sectors on an LRU
  list, which uses the links of the block cache. The state of the module extends that of the PFS
  library; what the kernel and the file I/O library do is the record \<open>fsck_env\<close>.
\<close>

subsection \<open>Environment and state\<close>

record 'd fsck_env =
  fs_blk :: "'d blk_dev"
  tmp_read :: "u32 \<Rightarrow> 'd \<Rightarrow> int \<times> u32 list \<times> 'd"
  tmp_write :: "u32 \<Rightarrow> u32 list \<Rightarrow> 'd \<Rightarrow> int \<times> 'd"
  fd_rewind :: "'d \<Rightarrow> 'd"
  fd_read :: "nat \<Rightarrow> 'd \<Rightarrow> int \<times> u32 list \<times> 'd"
  fd_write :: "u32 list \<Rightarrow> 'd \<Rightarrow> int \<times> 'd"
  get_part_error :: "'d \<Rightarrow> 'd"
  gets_line :: "'d \<Rightarrow> u8 list option \<times> 'd"
  ctype_table :: "u8 \<Rightarrow> u32"
  system_time :: "'d \<Rightarrow> (u32 \<times> u32) \<times> 'd"
  clock_usec :: "u32 \<times> u32 \<Rightarrow> u32 \<times> u32"
  stop_asked :: "'d \<Rightarrow> bool"

record fsckStatus =
  zoneUsed :: u32
  inodeBlockCount :: u32
  files :: u32
  directories :: u32
  PWDLevel :: u32
  errorCount :: u32
  fixedErrorCount :: u32

record pfs_bitmap =
  m_next :: nat
  m_prev :: nat
  m_dirty :: u16
  m_nused :: u16
  m_index :: u32
  m_words :: "u32 list"

record 'd fsck_state = "'d pfs_state" +
  pfsBitmapData :: "nat \<Rightarrow> pfs_bitmap"
  IOBuffer :: "u32 list"
  status :: fsckStatus
  hasError :: bool
  stopFlag :: bool
  fsckWriteEnabled :: bool
  fsckAutoMode :: bool
  ZoneSizes :: "u32 list"
  ZoneMap :: "u32 list"
  main_fd :: int

definition NUM_BITMAP_ENTRIES :: nat where "NUM_BITMAP_ENTRIES = 5"
definition BITMAP_BUFFER_SIZE :: nat where "BITMAP_BUFFER_SIZE = 256"

definition upd_bitmap :: "nat \<Rightarrow> (pfs_bitmap \<Rightarrow> pfs_bitmap) \<Rightarrow> ('d, 'z) fsck_state_scheme \<Rightarrow> ('d, 'z) fsck_state_scheme" where
  "upd_bitmap i f s = s\<lparr>pfsBitmapData := (pfsBitmapData s)(i := f (pfsBitmapData s i))\<rparr>"

subsection \<open>The list of buffers\<close>

text \<open>\<open>pfsCacheLink\<close> and \<open>pfsCacheUnLink\<close> on the entries, whose first two fields are the links.\<close>

definition bitmap_link :: "nat \<Rightarrow> nat \<Rightarrow> ('d, 'z) fsck_state_scheme \<Rightarrow> ('d, 'z) fsck_state_scheme" where
  "bitmap_link clink cnew s =
     (let s1 = upd_bitmap cnew (\<lambda>c. c\<lparr>m_prev := clink\<rparr>) s;
          s2 = upd_bitmap cnew (\<lambda>c. c\<lparr>m_next := m_next (pfsBitmapData s1 clink)\<rparr>) s1;
          s3 = upd_bitmap (m_next (pfsBitmapData s2 clink)) (\<lambda>c. c\<lparr>m_prev := cnew\<rparr>) s2
      in upd_bitmap clink (\<lambda>c. c\<lparr>m_next := cnew\<rparr>) s3)"

definition bitmap_unlink :: "nat \<Rightarrow> ('d, 'z) fsck_state_scheme \<Rightarrow> ('d, 'z) fsck_state_scheme" where
  "bitmap_unlink clink s =
     (let s1 = upd_bitmap (m_prev (pfsBitmapData s clink)) (\<lambda>c. c\<lparr>m_next := m_next (pfsBitmapData s clink)\<rparr>) s
      in upd_bitmap (m_next (pfsBitmapData s1 clink)) (\<lambda>c. c\<lparr>m_prev := m_prev (pfsBitmapData s1 clink)\<rparr>) s1)"

subsection \<open>Reading and writing buffers\<close>

text \<open>Mode 0 reads, mode 1 writes.\<close>

definition pfsBitmapTransfer :: "'d fsck_env \<Rightarrow> nat \<Rightarrow> nat \<Rightarrow> ('d, 'z) fsck_state_scheme \<Rightarrow> int \<times> ('d, 'z) fsck_state_scheme" where
  "pfsBitmapTransfer E i mode s =
     (let c = pfsBitmapData s i; sector = push_bit 8 (m_index c);
          (r, s1) = (if mode = 0
             then let (r, ws, w) = tmp_read E sector (pworld s)
                  in (r, upd_bitmap i (\<lambda>c. c\<lparr>m_words := overlay ws (m_words c)\<rparr>) (s\<lparr>pworld := w\<rparr>))
             else let (r, w) = tmp_write E sector (m_words c) (pworld s) in (r, s\<lparr>pworld := w\<rparr>))
      in (r, if r < 0 then s1 else upd_bitmap i (\<lambda>c. c\<lparr>m_dirty := 0\<rparr>) s1))"

text \<open>With every buffer in use the first entry of the list is the list head, which has no buffer.\<close>

definition pfsBitmapRead :: "'d fsck_env \<Rightarrow> u32 \<Rightarrow> ('d, 'z) fsck_state_scheme \<Rightarrow> (nat option \<times> ('d, 'z) fsck_state_scheme) option" where
  "pfsBitmapRead E index s =
     (case List.find (\<lambda>i. m_index (pfsBitmapData s i) = index) [1..<NUM_BITMAP_ENTRIES] of
        Some i \<Rightarrow>
          let s1 = (if m_nused (pfsBitmapData s i) = 0 then bitmap_unlink i s else s)
          in Some (Some i, upd_bitmap i (\<lambda>c. c\<lparr>m_nused := m_nused c + 1\<rparr>) s1)
      | None \<Rightarrow>
          let i = m_next (pfsBitmapData s 0);
              (w, s1) = (if m_dirty (pfsBitmapData s i) \<noteq> 0 then pfsBitmapTransfer E i 1 s else (0, s))
          in if i = 0 then None
             else if w < 0 then Some (None, s1)
             else (let (r, s2) = pfsBitmapTransfer E i 0 (upd_bitmap i (\<lambda>c. c\<lparr>m_index := index, m_dirty := 0, m_nused := 1\<rparr>) s1)
                   in Some (if r < 0 then (None, s2) else (Some i, bitmap_unlink i s2))))"

definition pfsBitmapFree :: "nat \<Rightarrow> ('d, 'z) fsck_state_scheme \<Rightarrow> ('d, 'z) fsck_state_scheme" where
  "pfsBitmapFree i s =
     (if m_nused (pfsBitmapData s i) = 0 then s
      else (let s1 = upd_bitmap i (\<lambda>c. c\<lparr>m_nused := m_nused c - 1\<rparr>) s
            in if m_nused (pfsBitmapData s1 i) = 0 then bitmap_link (m_prev (pfsBitmapData s1 0)) i s1 else s1))"

text \<open>A pointer into a buffer is the entry and the index of the word.\<close>

definition pfsGetBitmapEntry :: "'d fsck_env \<Rightarrow> u32 \<Rightarrow> ('d, 'z) fsck_state_scheme \<Rightarrow> ((nat \<times> nat) option \<times> ('d, 'z) fsck_state_scheme) option" where
  "pfsGetBitmapEntry E index s = do {
     (b, s1) \<leftarrow> pfsBitmapRead E (drop_bit 20 index) s;
     Some (case b of None \<Rightarrow> (None, s1) | Some i \<Rightarrow> (Some (i, unat (drop_bit 5 index AND 0x7FFF)), pfsBitmapFree i s1))
   }"

subsection \<open>Initialisation\<close>

definition bitmap_count :: "u32 \<Rightarrow> u32" where
  "bitmap_count sz = drop_bit 20 sz + (if 0 < drop_bit 3 sz AND 0x0001FFFF then 1 else 0)"

definition reset_bitmap :: "nat \<Rightarrow> ('d, 'z) fsck_state_scheme \<Rightarrow> ('d, 'z) fsck_state_scheme" where
  "reset_bitmap i = upd_bitmap i (\<lambda>c. c\<lparr>m_dirty := 0, m_nused := 0, m_index := of_nat i - 1, m_words := replicate (128 * BITMAP_BUFFER_SIZE) 0\<rparr>)"

text \<open>The entries of the list are written one after the other until one fails; each is \<open>(entry, index)\<close>.\<close>

fun write_bitmaps :: "'d fsck_env \<Rightarrow> (nat \<times> u32) list \<Rightarrow> ('d, 'z) fsck_state_scheme \<Rightarrow> int \<times> ('d, 'z) fsck_state_scheme" where
  "write_bitmaps E [] s = (0, s)"
| "write_bitmaps E ((i, index) # xs) s =
     (let (r, s1) = pfsBitmapTransfer E i 1 (upd_bitmap i (\<lambda>c. c\<lparr>m_index := index\<rparr>) s)
      in if r < 0 then (r, s1) else write_bitmaps E xs s1)"

definition pfsBitmapPartInit :: "'d fsck_env \<Rightarrow> u32 \<Rightarrow> ('d, 'z) fsck_state_scheme \<Rightarrow> int \<times> ('d, 'z) fsck_state_scheme" where
  "pfsBitmapPartInit E sz s =
     (let s1 = fold reset_bitmap [1..<NUM_BITMAP_ENTRIES] s; count = unat (bitmap_count sz) in
      if NUM_BITMAP_ENTRIES \<le> count
      then write_bitmaps E (map (\<lambda>i. (i, of_nat i - 1)) [1..<NUM_BITMAP_ENTRIES] @
             map (\<lambda>i. (NUM_BITMAP_ENTRIES - 1, of_nat i)) [NUM_BITMAP_ENTRIES - 1..<count]) s1
      else (0, s1))"

definition zero_bitmap :: "u32 list \<Rightarrow> pfs_bitmap" where
  "zero_bitmap ws = \<lparr>m_next = 0, m_prev = 0, m_dirty = 0, m_nused = 0, m_index = 0, m_words = ws\<rparr>"

text \<open>\<open>opened\<close> is the result of opening the MBR partition; \<open>ok\<close> and \<open>mem\<close> are the memory allocated.\<close>

definition pfsBitmapInit :: "int \<Rightarrow> bool \<Rightarrow> (nat \<Rightarrow> u32 list) \<Rightarrow> ('d, 'z) fsck_state_scheme \<Rightarrow> int \<times> ('d, 'z) fsck_state_scheme" where
  "pfsBitmapInit opened ok mem s =
     (if opened < 0 then (opened, s)
      else if \<not> ok then (- ENOMEM, s)
      else (0, fold (\<lambda>i t. bitmap_link (m_prev (pfsBitmapData t 0)) i t) [1..<NUM_BITMAP_ENTRIES]
                 (s\<lparr>pfsBitmapData := (\<lambda>i. zero_bitmap (mem i))\<rparr>)))"

text \<open>The chunk of a bitmap on the disk. The offset of the main partition is added for every sub-partition.\<close>

definition pfsBitmapReadPartition ::
    "'d blk_dev \<Rightarrow> u16 \<Rightarrow> u32 \<Rightarrow> ('d, 'z) pfs_state_scheme \<Rightarrow> ((nat option \<times> int) \<times> ('d, 'z) pfs_state_scheme) option" where
  "pfsBitmapReadPartition D subpart ch s =
     pfsCacheGetData D subpart (ch + push_bit (unat (inode_scale (pmount s))) 1 + drop_bit pfsBlockSize 0x2000) PFS_CACHE_FLAG_BITMAP s"

end
