(* ===== verification/Fsck.thy ===== *)
theory Fsck
  imports FsckBitmap
begin

text \<open>
  The checks of \<open>fsck/fsck.c\<close>: questions to the user, the zones of a file against both bitmaps,
  directory entries, and the walk over the directory tree. The messages have no model, nor has
  the path buffer, which only they use. \<open>stop_asked\<close> says at which states of the device another
  thread has set the stop flag. Using a NULL entry or an index past a table is undefined in C;
  the result is None then.
\<close>

abbreviation fsck_step :: "'a \<Rightarrow> 's \<Rightarrow> ('a \<times> 's) option" where
  "fsck_step x s \<equiv> Some (x, s)"

definition with_status :: "(fsckStatus \<Rightarrow> fsckStatus) \<Rightarrow> ('d, 'z) fsck_state_scheme \<Rightarrow> ('d, 'z) fsck_state_scheme" where
  "with_status f s = s\<lparr>status := f (status s)\<rparr>"

definition count_error :: "('d, 'z) fsck_state_scheme \<Rightarrow> ('d, 'z) fsck_state_scheme" where
  "count_error = with_status (\<lambda>t. t\<lparr>errorCount := errorCount t + 1\<rparr>)"

definition count_fixed :: "('d, 'z) fsck_state_scheme \<Rightarrow> ('d, 'z) fsck_state_scheme" where
  "count_fixed = with_status (\<lambda>t. t\<lparr>fixedErrorCount := fixedErrorCount t + 1\<rparr>)"

definition set_error :: "('d, 'z) fsck_state_scheme \<Rightarrow> ('d, 'z) fsck_state_scheme" where
  "set_error s = s\<lparr>hasError := True\<rparr>"

definition stopped :: "'d fsck_env \<Rightarrow> ('d, 'z) fsck_state_scheme \<Rightarrow> bool" where
  "stopped E s \<longleftrightarrow> stopFlag s \<or> stop_asked E (pworld s)"

subsection \<open>Questions\<close>

text \<open>The character that \<open>fsckGetChar\<close> points to; None is the end of the input, a NULL pointer.\<close>

definition fsckGetChar :: "'d fsck_env \<Rightarrow> ('d, 'z) fsck_state_scheme \<Rightarrow> (u8 \<times> ('d, 'z) fsck_state_scheme) option" where
  "fsckGetChar E s =
     (let (line, w) = gets_line E (pworld s) in
      map_option (\<lambda>l. (case List.find (\<lambda>c. ctype_table E c AND 0x17 \<noteq> 0) l of None \<Rightarrow> 0 | Some c \<Rightarrow> c, s\<lparr>pworld := w\<rparr>)) line)"

partial_function (option) ask_user :: "'d fsck_env \<Rightarrow> ('d, 'z) fsck_state_scheme \<Rightarrow> (bool \<times> ('d, 'z) fsck_state_scheme) option" where
  "ask_user E s = do {
     (c, s1) \<leftarrow> fsckGetChar E s;
     if c = 0x6E then Some (False, s1) else if c = 0x79 then Some (True, s1) else ask_user E s1
   }"

definition fsckPromptUserAction :: "'d fsck_env \<Rightarrow> bool \<Rightarrow> ('d, 'z) fsck_state_scheme \<Rightarrow> (bool \<times> ('d, 'z) fsck_state_scheme) option" where
  "fsckPromptUserAction E mode s =
     (let s1 = count_error s in
      if fsckWriteEnabled s1
      then if fsckAutoMode s1 then Some (mode, if mode then count_fixed s1 else set_error s1)
           else map_option (\<lambda>(y, s2). (y, if y then count_fixed s2 else set_error s2)) (ask_user E s1)
      else Some (False, set_error s1))"

definition fsckPromptUserAction2 :: "'d fsck_env \<Rightarrow> bool \<Rightarrow> ('d, 'z) fsck_state_scheme \<Rightarrow> (bool \<times> ('d, 'z) fsck_state_scheme) option" where
  "fsckPromptUserAction2 E mode s =
     (if fsckWriteEnabled s
      then if fsckAutoMode s then Some (mode, if mode then s else set_error s)
           else map_option (\<lambda>(y, s2). (y, if y then s2 else set_error s2)) (ask_user E s)
      else Some (False, set_error s))"

subsection \<open>The extended attribute area\<close>

function nullify_loop :: "'d fsck_env \<Rightarrow> nat \<Rightarrow> int \<Rightarrow> ('d, 'z) fsck_state_scheme \<Rightarrow> int \<times> ('d, 'z) fsck_state_scheme" where
  "nullify_loop E remaining result s =
     (if remaining = 0 then (result, s)
      else (let sz = min remaining 256; (r, w) = fd_write E (take (128 * sz) (IOBuffer s)) (pworld s); s1 = s\<lparr>pworld := w\<rparr>
            in if r < 0 then (r, s1) else nullify_loop E (remaining - sz) r s1))"
  by pat_completeness auto
termination by (relation "measure (\<lambda>(_, n, _, _). n)") auto

declare nullify_loop.simps [simp del]

function attribute_loop :: "'d fsck_env \<Rightarrow> nat \<Rightarrow> ('d, 'z) fsck_state_scheme \<Rightarrow> (int \<times> ('d, 'z) fsck_state_scheme) option" where
  "attribute_loop E remaining s =
     (if remaining = 0 then Some (0, s)
      else (let sz = min remaining 256; (r, ws, w) = fd_read E (512 * sz) (pworld s);
                s1 = s\<lparr>pworld := w, IOBuffer := overlay ws (IOBuffer s)\<rparr>
            in if r \<noteq> - EIO then attribute_loop E (remaining - sz) s1
               else do {
                 (y, s2) \<leftarrow> fsckPromptUserAction E True s1;
                 if \<not> y then Some (0, s2)
                 else (let s3 = s2\<lparr>IOBuffer := map (\<lambda>_. 0) (IOBuffer s2), pworld := fd_rewind E (pworld s2)\<rparr>
                       in Some (nullify_loop E 0x1FF8 0 s3))
               }))"
  by pat_completeness auto
termination by (relation "measure (\<lambda>(_, n, _). n)") auto

declare attribute_loop.simps [simp del]

definition fsckCheckExtendedAttribute :: "'d fsck_env \<Rightarrow> ('d, 'z) fsck_state_scheme \<Rightarrow> (int \<times> ('d, 'z) fsck_state_scheme) option" where
  "fsckCheckExtendedAttribute E s = attribute_loop E 0x1FF8 (s\<lparr>pworld := fd_rewind E (pworld s)\<rparr>)"

subsection \<open>Directory blocks\<close>

definition init_dirent_words :: "u16 \<Rightarrow> u32 \<Rightarrow> bool \<Rightarrow> u32 list" where
  "init_dirent_words subpart inodeNumber isDir =
     (let b = \<lparr>bi_number = inodeNumber, bi_subpart = subpart, bi_count = 0\<rparr>;
          ws = (if isDir then self_parent_words b b else put_aLen 0 512 (replicate 256 0))
      in put_aLen 512 512 ws)"

definition pfsInitDirEnt ::
    "'d fsck_env \<Rightarrow> u16 \<Rightarrow> u32 \<Rightarrow> u32 \<Rightarrow> bool \<Rightarrow> ('d, 'z) fsck_state_scheme \<Rightarrow> (int \<times> ('d, 'z) fsck_state_scheme) option" where
  "pfsInitDirEnt E subpart inodeNumber number isDir s = do {
     (y, s1) \<leftarrow> fsckPromptUserAction E True s;
     if \<not> y then Some (- EIO, s1)
     else do {
       ((c, e), s2) \<leftarrow> pfsCacheGetData (fs_blk E) subpart number PFS_CACHE_FLAG_NOLOAD s1;
       Some (case c of None \<Rightarrow> (e, s2)
         | Some i \<Rightarrow> (e, pfsCacheFree (Some i) (pfs_mark_dirty i (set_data i (\<lambda>_. init_dirent_words subpart inodeNumber isDir) s2))))
     }
   }"

subsection \<open>The zones of a file\<close>

text \<open>The bits of a chunk from bit \<open>b\<close> of word \<open>k\<close>: whether the user let it go on, and the count left.\<close>

function check_bits ::
    "'d fsck_env \<Rightarrow> nat \<Rightarrow> nat \<Rightarrow> nat \<Rightarrow> u32 \<Rightarrow> ('d, 'z) fsck_state_scheme \<Rightarrow> ((bool \<times> u32) \<times> ('d, 'z) fsck_state_scheme) option" where
  "check_bits E clink k b count s =
     (if 256 \<le> k \<or> count = 0 then Some ((True, count), s)
      else if 32 \<le> b then check_bits E clink (k + 1) 0 count s
      else if cdata s clink ! k AND push_bit b 1 = 0
      then do {
        (y, s1) \<leftarrow> fsckPromptUserAction E True s;
        if y then check_bits E clink k (b + 1) (count - 1)
                    (pfs_mark_dirty clink (set_data clink (\<lambda>ws. ws[k := (ws ! k) OR push_bit b 1]) s1))
        else Some ((False, count), s1)
      }
      else check_bits E clink k (b + 1) (count - 1) s)"
  by pat_completeness auto
termination
  by (relation "measures [\<lambda>(_, _, k, _, _, _). 256 - k, \<lambda>(_, _, _, b, _, _). 32 - b]") auto

declare check_bits.simps [simp del]

partial_function (option) check_chunks ::
    "'d fsck_env \<Rightarrow> (('d, 'z) fsck_state_scheme \<Rightarrow> pfs_blockinfo) \<Rightarrow> u32 \<Rightarrow> nat \<Rightarrow> nat \<Rightarrow> u32 \<Rightarrow> ('d, 'z) fsck_state_scheme \<Rightarrow>
      (int \<times> ('d, 'z) fsck_state_scheme) option" where
  "check_chunks E bi ch index b count s =
     (if count = 0 then Some (0, s)
      else do {
        ((c, e), s1) \<leftarrow> pfsBitmapReadPartition (fs_blk E) (bi_subpart (bi s)) ch s;
        case c of None \<Rightarrow> Some (0, s1)
        | Some i \<Rightarrow> do {
            ((go, left), s2) \<leftarrow> check_bits E i index b count s1;
            if \<not> go then Some (- EINVAL, s2)
            else check_chunks E bi (ch + 1) 0 (if index < 256 then 0 else b) left (pfsCacheFree (Some i) s2)
          }
      })"

definition fsckCheckFileBitmap ::
    "'d fsck_env \<Rightarrow> (('d, 'z) fsck_state_scheme \<Rightarrow> pfs_blockinfo) \<Rightarrow> ('d, 'z) fsck_state_scheme \<Rightarrow> (int \<times> ('d, 'z) fsck_state_scheme) option" where
  "fsckCheckFileBitmap E bi s =
     (let info = pfsBitmapSetupInfo (fs_blk E) (pmount s) (ucast (bi_subpart (bi s))) (bi_number (bi s))
      in check_chunks E bi (bm_chunk info) (unat (bm_index info)) (unat (bm_bit info)) (ucast (bi_count (bi s))) s)"

text \<open>
  The bits of a buffer from bit \<open>b\<close> of word \<open>k\<close>: whether a zone that is in use was met, the number
  left and the words.
\<close>

function mark_zones :: "nat \<Rightarrow> nat \<Rightarrow> u32 \<Rightarrow> u32 list \<Rightarrow> bool \<times> u32 \<times> u32 list" where
  "mark_zones k b remaining ws =
     (if 0x8000 \<le> k \<or> remaining = 0 then (False, remaining, ws)
      else if 32 \<le> b then mark_zones (k + 1) 0 remaining ws
      else if ws ! k AND push_bit b 1 \<noteq> 0 then (True, remaining, ws)
      else mark_zones k (b + 1) (remaining - 1) (ws[k := ws ! k OR push_bit b 1]))"
  by pat_completeness auto
termination
  by (relation "measures [\<lambda>(k, _, _, _). 0x8000 - k, \<lambda>(_, b, _, _). 32 - b]") auto

declare mark_zones.simps [simp del]

partial_function (option) zones_loop ::
    "'d fsck_env \<Rightarrow> u32 \<Rightarrow> nat \<Rightarrow> nat \<Rightarrow> u32 \<Rightarrow> ('d, 'z) fsck_state_scheme \<Rightarrow> (int \<times> ('d, 'z) fsck_state_scheme) option" where
  "zones_loop E index zone b remaining s =
     (if remaining = 0 then Some (0, s)
      else do {
        (p, s1) \<leftarrow> pfsBitmapRead E index s;
        case p of None \<Rightarrow> Some (- EIO, s1)
        | Some i \<Rightarrow>
            let (used, left, ws) = mark_zones zone b remaining (m_words (pfsBitmapData s1 i));
                s2 = (if left \<noteq> remaining then upd_bitmap i (\<lambda>c. c\<lparr>m_words := ws, m_dirty := 1\<rparr>) s1 else s1)
            in if used then Some (1, s2)
               else zones_loop E (index + 1) 0 0 left (pfsBitmapFree i s2)
      })"

definition fsckCheckZones :: "'d fsck_env \<Rightarrow> u32 \<Rightarrow> u32 \<Rightarrow> ('d, 'z) fsck_state_scheme \<Rightarrow> (int \<times> ('d, 'z) fsck_state_scheme) option" where
  "fsckCheckZones E number sz s =
     zones_loop E (drop_bit 20 number) (unat (drop_bit 5 number AND 0x7FFF)) (unat (number AND 31)) sz s"

subsection \<open>Cutting a file\<close>

definition PFS_FIO_ATTR_CLOSED :: u16 where "PFS_FIO_ATTR_CLOSED = 0x0080"

definition fill_inode_words :: "u32 \<Rightarrow> u32 \<Rightarrow> u32 \<Rightarrow> u32 \<Rightarrow> u32 \<Rightarrow> u32 list \<Rightarrow> u32 list" where
  "fill_inode_words sub number blocks entries segdesg ws =
     (let mode = inode_mode ws;
          attr = (if is_format mode FIO_S_IFDIR then half_at 1 (ws ! 238) else half_at 1 (ws ! 238) AND NOT PFS_FIO_ATTR_CLOSED)
      in (set_blockinfo 6 ((inode_last_segment ws)\<lparr>bi_number := number, bi_subpart := ucast sub\<rparr>) ws)
           [238 := packh mode attr, 248 := blocks, 249 := entries, 250 := segdesg, 251 := 0])"

text \<open>Without a segment (a NULL \<open>blockClink\<close>) the function writes through a NULL pointer.\<close>

definition fsckFillInode ::
    "nat \<Rightarrow> nat option \<Rightarrow> u32 \<Rightarrow> u32 \<Rightarrow> u32 \<Rightarrow> ('d, 'z) fsck_state_scheme \<Rightarrow> ('d, 'z) fsck_state_scheme option" where
  "fsckFillInode inodeClink blockClink blocks entries segdesg s =
     map_option (\<lambda>bc.
       let s1 = set_data bc (\<lambda>ws. ws[4 := 0, 5 := 0]) s;
           c = pfsCacheBuf s1 bc;
           s2 = set_data inodeClink (fill_inode_words (q_sub c) (drop_bit (unat (inode_scale (pmount s1))) (q_block c)) blocks entries segdesg) s1
       in pfs_mark_dirty inodeClink (pfs_mark_dirty bc s2)) blockClink"

text \<open>The question before cutting; the file is cut after \<open>entries\<close> segments.\<close>

definition offer_cut ::
    "'d fsck_env \<Rightarrow> nat \<Rightarrow> nat option \<Rightarrow> u32 \<Rightarrow> u32 \<Rightarrow> u32 \<Rightarrow> ('d, 'z) fsck_state_scheme \<Rightarrow> (bool \<times> ('d, 'z) fsck_state_scheme) option" where
  "offer_cut E inode bc blocks entries segdesg s = do {
     (y, s1) \<leftarrow> fsckPromptUserAction E True s;
     if y then map_option (Pair True) (fsckFillInode inode bc blocks entries segdesg s1) else Some (False, s1)
   }"

end
