(* ===== verification/FsckFiles.thy ===== *)
theory FsckFiles
  imports Fsck
begin

text \<open>
  The walk of \<open>fsck/fsck.c\<close> over the files: \<open>fsckCheckDirentryInode\<close> reads every block of an
  inode and checks its zones, \<open>fsckCheckFiles\<close> the entries of a directory, and both of them
  together the tree below it.
\<close>

subsection \<open>The blocks of an inode\<close>

text \<open>
  The blocks of a directory must be readable. A left result leaves the loop over the segments
  with that value, a right one is the offset in the directory.
\<close>

partial_function (option) dir_sectors ::
    "'d fsck_env \<Rightarrow> nat \<Rightarrow> (('d, 'z) fsck_state_scheme \<Rightarrow> pfs_blockinfo) \<Rightarrow> u32 \<Rightarrow> bool \<Rightarrow> u32 \<Rightarrow> u32 \<Rightarrow> ('d, 'z) fsck_state_scheme \<Rightarrow>
      ((int + u32) \<times> ('d, 'z) fsck_state_scheme) option" where
  "dir_sectors E inode bi start first sector off s =
     (if sector < push_bit (unat (inode_scale (pmount s))) 1 \<and> ucast off < inode_size (cdata s inode)
      then do {
        ((c, e), s1) \<leftarrow> pfsCacheGetData (fs_blk E) (bi_subpart (bi s)) (start + sector) PFS_CACHE_FLAG_NOTHING s;
        case c of Some i \<Rightarrow> dir_sectors E inode bi start first (sector + 1) (off + pfsMetaSize) (pfsCacheFree (Some i) s1)
        | None \<Rightarrow>
            if e = - ENOMEM then Some (Inl e, s1)
            else do {
              (r, s2) \<leftarrow> pfsInitDirEnt E (bi_subpart (bi s1)) (start + sector) (bi_number (inode_block (cdata s1 inode)))
                           (first \<and> sector < 1) s1;
              if r < 0 then Some (Inl r, s2) else dir_sectors E inode bi start first (sector + 1) (off + pfsMetaSize) s2
            }
      }
      else Some (Inr off, s))"

partial_function (option) dir_zones ::
    "'d fsck_env \<Rightarrow> nat \<Rightarrow> (('d, 'z) fsck_state_scheme \<Rightarrow> pfs_blockinfo) \<Rightarrow> bool \<Rightarrow> nat \<Rightarrow> u32 \<Rightarrow> ('d, 'z) fsck_state_scheme \<Rightarrow>
      ((int + u32) \<times> ('d, 'z) fsck_state_scheme) option" where
  "dir_zones E inode bi first i off s =
     (if i < unat (bi_count (bi s))
      then do {
        (r, s1) \<leftarrow> dir_sectors E inode bi (inode_blk (pmount s) (bi_number (bi s) + of_nat i)) (first \<and> i = 0) 0 off s;
        case r of Inl e \<Rightarrow> Some (Inl e, s1) | Inr off1 \<Rightarrow> dir_zones E inode bi first (i + 1) off1 s1
      }
      else Some (Inr off, s))"

text \<open>The zones of a file must be readable; the loop over the segments is left (with result 0) when asked to stop.\<close>

partial_function (option) file_zones ::
    "'d fsck_env \<Rightarrow> (('d, 'z) fsck_state_scheme \<Rightarrow> pfs_blockinfo) \<Rightarrow>
      (('d, 'z) fsck_state_scheme \<Rightarrow> (bool \<times> ('d, 'z) fsck_state_scheme) option) \<Rightarrow> nat \<Rightarrow> ('d, 'z) fsck_state_scheme \<Rightarrow>
      (bool \<times> ('d, 'z) fsck_state_scheme) option" where
  "file_zones E bi trim i s =
     (if i < unat (bi_count (bi s))
      then (let sc = unat (sector_scale (pmount s));
                (r, ws, w) = bd_read (fs_blk E) (ucast (bi_subpart (bi s))) (push_bit sc (bi_number (bi s) + of_nat i)) (push_bit sc 1) (pworld s);
                s1 = s\<lparr>pworld := w, IOBuffer := overlay ws (IOBuffer s)\<rparr>
            in if r = 0 then (if stopped E s1 then Some (False, s1) else file_zones E bi trim (i + 1) s1)
               else map_option (\<lambda>(y, s2). (False, s2)) (trim s1))
      else Some (True, s))"

text \<open>A zone of the block info that lies outside its sub-partition; an index past \<open>ZoneSizes\<close> is None.\<close>

definition bad_zone :: "('d, 'z) fsck_state_scheme \<Rightarrow> pfs_blockinfo \<Rightarrow> bool option" where
  "bad_zone s b =
     (if num_subs (pmount s) < ucast (bi_subpart b) \<or> bi_count b = 0 \<or> bi_number b < 2 then Some True
      else if length (ZoneSizes s) \<le> unat (bi_subpart b) then None
      else Some (ZoneSizes s ! unat (bi_subpart b) < push_bit (unat (sector_scale (pmount s))) (bi_number b + ucast (bi_count b))))"

text \<open>
  One segment: a left result leaves the loop, a right one is the offset in a directory. \<open>bc\<close> is
  the entry with the segment and \<open>k\<close> its index there.
\<close>

definition check_segment ::
    "'d fsck_env \<Rightarrow> nat \<Rightarrow> nat \<Rightarrow> nat \<Rightarrow> u32 \<Rightarrow> u32 \<Rightarrow> u32 \<Rightarrow> u32 \<Rightarrow> ('d, 'z) fsck_state_scheme \<Rightarrow>
      ((int + u32) \<times> ('d, 'z) fsck_state_scheme) option" where
  "check_segment E inode bc k index blocks segdesg off s =
     (let bi = (\<lambda>t. inode_data (cdata t bc) k);
          trim = offer_cut E inode (Some bc) blocks index segdesg
      in do {
        bad \<leftarrow> bad_zone s (bi s);
        if bad then map_option (\<lambda>(y, s1). (Inl (if y then 0 else - EINVAL), s1)) (trim s)
        else do {
          (r, s1) \<leftarrow>
            (if k = 0 then Some (Inr off, s)
             else if is_format (inode_mode (cdata s inode)) FIO_S_IFDIR then dir_zones E inode bi (index = 1) 0 off s
             else map_option (\<lambda>(go, t). (if go then Inr off else Inl 0, t)) (file_zones E bi trim 0 s));
          case r of Inl e \<Rightarrow> Some (Inl e, s1)
          | Inr off1 \<Rightarrow> do {
              (rb, s2) \<leftarrow> fsckCheckFileBitmap E bi s1;
              if rb < 0 then Some (Inl rb, s2)
              else if length (ZoneMap s2) \<le> unat (bi_subpart (bi s2)) then None
              else do {
                (rz, s3) \<leftarrow> fsckCheckZones E (bi_number (bi s2) + ZoneMap s2 ! unat (bi_subpart (bi s2))) (ucast (bi_count (bi s2))) s2;
                if 0 < rz then map_option (\<lambda>(y, s4). (Inl rz, s4)) (trim s3)
                else if rz < 0 then Some (Inl rz, s3) else Some (Inr off1, s3)
              }
            }
        }
      })"

text \<open>The loop over the segments; the result and the entry that is released at the end.\<close>

partial_function (option) inode_segments ::
    "'d fsck_env \<Rightarrow> nat \<Rightarrow> nat \<Rightarrow> u32 \<Rightarrow> u32 \<Rightarrow> u32 \<Rightarrow> u32 \<Rightarrow> ('d, 'z) fsck_state_scheme \<Rightarrow>
      ((int \<times> nat option) \<times> ('d, 'z) fsck_state_scheme) option" where
  "inode_segments E inode bc index blocks segdesg off s =
     (if index < inode_number_data (cdata s inode)
      then do {
        let k = pfsFixIndex index;
        let next = inode_next_segment (cdata s bc);
        ((c, e), s1) \<leftarrow> (if index \<noteq> 0 \<and> k = 0
           then pfsCacheGetData (fs_blk E) (bi_subpart next) (inode_blk (pmount s) (bi_number next)) PFS_CACHE_FLAG_SEGI (pfsCacheFree (Some bc) s)
           else Some ((Some bc, 0), s));
        case c of None \<Rightarrow>
            (if e = - EIO
             then map_option (\<lambda>(y, s2). ((e, None), s2)) (offer_cut E inode None blocks index segdesg s1)
             else Some ((e, None), s1))
        | Some b \<Rightarrow> do {
            let segdesg1 = (if index \<noteq> 0 \<and> k = 0 then segdesg + 1 else segdesg);
            (r, s2) \<leftarrow> check_segment E inode b (unat k) index blocks segdesg1 off s1;
            case r of Inl e \<Rightarrow> Some ((e, Some b), s2)
            | Inr off1 \<Rightarrow>
                let n = ucast (bi_count (inode_data (cdata s2 b) (unat k)));
                    s3 = with_status (\<lambda>t. t\<lparr>inodeBlockCount := inodeBlockCount t + n\<rparr>) s2
                in if stopped E s3 then Some ((0, Some b), s3)
                   else inode_segments E inode b (index + 1) (blocks + n) segdesg1 off1 s3
          }
      }
      else Some ((0, Some bc), s))"

definition fsckCheckDirentryInode :: "'d fsck_env \<Rightarrow> nat \<Rightarrow> ('d, 'z) fsck_state_scheme \<Rightarrow> (int \<times> ('d, 'z) fsck_state_scheme) option" where
  "fsckCheckDirentryInode E inode s = do {
     ((r, bc), s1) \<leftarrow> inode_segments E inode inode 0 0 1 0 (pfsCacheUsedAdd inode s);
     Some (r, pfsCacheFree bc (if r < 0 then set_error s1 else s1))
   }"

definition CheckRootDirectory :: "'d fsck_env \<Rightarrow> ('d, 'z) fsck_state_scheme \<Rightarrow> (nat option \<times> ('d, 'z) fsck_state_scheme) option" where
  "CheckRootDirectory E s = do {
     ((c, e), s1) \<leftarrow> pfsInodeGetData (fs_blk E) (bi_subpart (root_dir (pmount s))) (bi_number (root_dir (pmount s))) s;
     case c of None \<Rightarrow> Some (None, s1)
     | Some i \<Rightarrow> do {
         (r, s2) \<leftarrow> fsckCheckDirentryInode E i s1;
         Some (if r = 0 then (Some i, s2) else (None, pfsCacheFree (Some i) s2))
       }
   }"

subsection \<open>Repairing an entry\<close>

definition fsckFixDEntry :: "nat \<Rightarrow> nat \<Rightarrow> ('d, 'z) pfs_state_scheme \<Rightarrow> ('d, 'z) pfs_state_scheme option" where
  "fsckFixDEntry clink d s = do {
     let ws = cdata s clink;
     before \<leftarrow> find_before ws d (d div 512 * 512) None 0;
     Some (case before of None \<Rightarrow> s
       | Some (Some l) \<Rightarrow> pfs_mark_dirty clink
           (set_data clink (put_aLen l ((d_aLen ws l AND FIO_S_IFMT) OR ((d_aLen ws l AND 0xFFF) + (d_aLen ws d AND 0xFFF)))) s)
       | Some None \<Rightarrow> pfs_mark_dirty clink (set_data clink (put_dentry d 0 (d_sub ws d) 0 (d_aLen ws d)) s))
   }"

text \<open>The entries "." and ".." must name the inode \<open>target\<close>.\<close>

definition check_link_entry ::
    "'d fsck_env \<Rightarrow> nat \<Rightarrow> nat \<Rightarrow> nat \<Rightarrow> ('d, 'z) fsck_state_scheme \<Rightarrow> (unit \<times> ('d, 'z) fsck_state_scheme) option" where
  "check_link_entry E target dc d s =
     (let ws = cdata s dc; b = inode_block (cdata s target) in
      if q_sub (pfsCacheBuf s target) \<noteq> ucast (d_sub ws d) \<or> bi_number b \<noteq> d_inode ws d
      then map_option (\<lambda>(y, s1). ((), if y
             then pfs_mark_dirty dc (set_data dc (\<lambda>w. put_dentry d (bi_number b) (ucast (bi_subpart b)) (d_pLen w d) (d_aLen w d) w) s1)
             else s1)) (fsckPromptUserAction E True s)
      else Some ((), s))"

definition fsckCheckSelfEntry ::
    "'d fsck_env \<Rightarrow> nat \<Rightarrow> nat \<Rightarrow> nat \<Rightarrow> ('d, 'z) fsck_state_scheme \<Rightarrow> (unit \<times> ('d, 'z) fsck_state_scheme) option" where
  "fsckCheckSelfEntry E self dc d s = check_link_entry E self dc d s"

definition fsckCheckParentEntry ::
    "'d fsck_env \<Rightarrow> nat \<Rightarrow> nat \<Rightarrow> nat \<Rightarrow> ('d, 'z) fsck_state_scheme \<Rightarrow> (unit \<times> ('d, 'z) fsck_state_scheme) option" where
  "fsckCheckParentEntry E parent dc d s = check_link_entry E parent dc d s"

text \<open>The length of an entry is put right, up to the end of the sector at \<open>d2\<close>; the length to go on with.\<close>

definition clear_inode :: "nat \<Rightarrow> nat \<Rightarrow> ('d, 'z) pfs_state_scheme \<Rightarrow> ('d, 'z) pfs_state_scheme" where
  "clear_inode dc d = set_data dc (\<lambda>w. w[d div 4 := 0])"

definition set_length :: "nat \<Rightarrow> nat \<Rightarrow> nat \<Rightarrow> ('d, 'z) pfs_state_scheme \<Rightarrow> ('d, 'z) pfs_state_scheme" where
  "set_length dc d n s = pfs_mark_dirty dc (set_data dc (\<lambda>w. put_aLen d ((d_aLen w d AND 0xF000) OR of_nat n) w) s)"

definition fix_alignment ::
    "'d fsck_env \<Rightarrow> nat \<Rightarrow> nat \<Rightarrow> nat \<Rightarrow> ('d, 'z) fsck_state_scheme \<Rightarrow> (nat \<times> ('d, 'z) fsck_state_scheme) option" where
  "fix_alignment E dc d d2 s =
     (if alloc_len (cdata s dc) d AND 3 \<noteq> 0
      then map_option (\<lambda>(y, s1). (d2 - d, if y then set_length dc d (d2 - d) s1 else s1)) (fsckPromptUserAction E True s)
      else Some (alloc_len (cdata s dc) d, s))"

definition fix_small ::
    "'d fsck_env \<Rightarrow> nat \<Rightarrow> nat \<Rightarrow> nat \<Rightarrow> nat \<Rightarrow> ('d, 'z) fsck_state_scheme \<Rightarrow> (nat \<times> ('d, 'z) fsck_state_scheme) option" where
  "fix_small E dc d d2 sz s =
     (let need = 4 * ((unat (d_pLen (cdata s dc) d) + 11) div 4) in
      if sz < need
      then do {
        (y, s1) \<leftarrow> fsckPromptUserAction E True s;
        if y \<and> need < d2 - d then Some (d2 - d, set_length dc d (d2 - d) s1)
        else do {
          s2 \<leftarrow> (if y then fsckFixDEntry dc d s1 else Some s1);
          Some (d2 - d, clear_inode dc d s2)
        }
      }
      else Some (sz, s))"

definition fix_long ::
    "'d fsck_env \<Rightarrow> nat \<Rightarrow> nat \<Rightarrow> nat \<Rightarrow> nat \<Rightarrow> ('d, 'z) fsck_state_scheme \<Rightarrow> (nat \<times> ('d, 'z) fsck_state_scheme) option" where
  "fix_long E dc d d2 sz s =
     (if d2 < d + sz
      then do {
        (y, s1) \<leftarrow> fsckPromptUserAction E True s;
        s2 \<leftarrow> (if y then fsckFixDEntry dc d s1 else Some s1);
        Some (d2 - d, clear_inode dc d s2)
      }
      else Some (sz, s))"

subsection \<open>The directory tree\<close>

definition FIO_S_IFREG :: u16 where "FIO_S_IFREG = 0x2000"
definition FSCK_MAX_PATH_LEVELS :: u32 where "FSCK_MAX_PATH_LEVELS = 64"

definition with_level :: "(u32 \<Rightarrow> u32) \<Rightarrow> ('d, 'z) fsck_state_scheme \<Rightarrow> ('d, 'z) fsck_state_scheme" where
  "with_level f = with_status (\<lambda>t. t\<lparr>PWDLevel := f (PWDLevel t)\<rparr>)"

text \<open>The attribute area in the block after the inode of a regular file.\<close>

definition check_attribute :: "'d fsck_env \<Rightarrow> nat \<Rightarrow> ('d, 'z) fsck_state_scheme \<Rightarrow> ('d, 'z) fsck_state_scheme option" where
  "check_attribute E file s =
     (let c = pfsCacheBuf s file; sector = push_bit pfsBlockSize (q_block c + 1);
          (r, ws, w) = bd_read (fs_blk E) (q_sub c) sector 2 (pworld s);
          s1 = s\<lparr>pworld := w, IOBuffer := overlay ws (IOBuffer s)\<rparr>
      in if r = 0 then Some s1
         else map_option (\<lambda>(y, s2).
           if y then (let buf = overlay ((replicate 256 0)[0 := packh 0 1024]) (IOBuffer s2);
                          (r2, w2) = bd_write (fs_blk E) (q_sub c) sector 2 (take 256 buf) (pworld s2);
                          s3 = s2\<lparr>IOBuffer := buf, pworld := w2\<rparr>
                      in if r2 \<noteq> 0 then set_error s3 else s3)
           else set_error s2) (fsckPromptUserAction E True s1))"

text \<open>
  \<open>tree\<close> checks the directory \<open>file\<close> in the directory \<open>dir\<close>; the entry is at offset \<open>d\<close> of the chunk
  in \<open>dc\<close>.
\<close>

definition check_file_with ::
    "'d fsck_env \<Rightarrow> (nat \<Rightarrow> nat \<Rightarrow> ('d, 'z) fsck_state_scheme \<Rightarrow> ('d, 'z) fsck_state_scheme option) \<Rightarrow>
      nat \<Rightarrow> nat \<Rightarrow> nat \<Rightarrow> nat \<Rightarrow> ('d, 'z) fsck_state_scheme \<Rightarrow> ('d, 'z) fsck_state_scheme option" where
  "check_file_with E tree dir file dc d s =
     (if PWDLevel (status s) < FSCK_MAX_PATH_LEVELS - 1
      then do {
        let s1 = with_level (\<lambda>n. n + 1) s;
        s2 \<leftarrow> (if is_format (d_aLen (cdata s1 dc) d) FIO_S_IFREG then check_attribute E file s1 else Some s1);
        (r, s3) \<leftarrow> fsckCheckDirentryInode E file s2;
        s4 \<leftarrow> (if is_format (d_aLen (cdata s3 dc) d) FIO_S_IFDIR
               then tree dir file (with_status (\<lambda>t. t\<lparr>directories := directories t + 1\<rparr>) s3)
               else Some (with_status (\<lambda>t. t\<lparr>files := files t + 1\<rparr>) s3));
        Some (with_level (\<lambda>n. n - 1) s4)
      }
      else Some (set_error s))"

definition check_entry ::
    "'d fsck_env \<Rightarrow> (nat \<Rightarrow> nat \<Rightarrow> nat \<Rightarrow> nat \<Rightarrow> ('d, 'z) fsck_state_scheme \<Rightarrow> ('d, 'z) fsck_state_scheme option) \<Rightarrow>
      nat \<Rightarrow> nat \<Rightarrow> nat \<Rightarrow> nat \<Rightarrow> ('d, 'z) fsck_state_scheme \<Rightarrow> ('d, 'z) fsck_state_scheme option" where
  "check_entry E file_check parent dir dc d s =
     (let ws = cdata s dc in
      if d_inode ws d = 0 then Some s
      else if d_pLen ws d = 1 \<and> data_byte ws (d + 8) = char_dot then map_option snd (fsckCheckSelfEntry E dir dc d s)
      else if d_pLen ws d = 2 \<and> data_byte ws (d + 8) = char_dot then map_option snd (fsckCheckParentEntry E parent dc d s)
      else do {
        ((c, e), s1) \<leftarrow> pfsInodeGetData (fs_blk E) (ucast (d_sub ws d)) (d_inode ws d) s;
        case c of Some file \<Rightarrow> map_option (pfsCacheFree (Some file)) (file_check dir file dc d s1)
        | None \<Rightarrow>
            if e = - EIO
            then do { (y, s2) \<leftarrow> fsckPromptUserAction E True s1; if y then fsckFixDEntry dc d s2 else Some s2 }
            else Some (set_error s1)
      })"

text \<open>The entries of a sector from \<open>d\<close> to \<open>d2\<close>: whether the check was stopped, and the offset in the directory.\<close>

partial_function (option) check_sector ::
    "'d fsck_env \<Rightarrow> (nat \<Rightarrow> nat \<Rightarrow> nat \<Rightarrow> nat \<Rightarrow> ('d, 'z) fsck_state_scheme \<Rightarrow> ('d, 'z) fsck_state_scheme option) \<Rightarrow>
      nat \<Rightarrow> nat \<Rightarrow> nat \<Rightarrow> nat \<Rightarrow> nat \<Rightarrow> u32 \<Rightarrow> ('d, 'z) fsck_state_scheme \<Rightarrow> ((bool \<times> u32) \<times> ('d, 'z) fsck_state_scheme) option" where
  "check_sector E file_check parent dir dc d d2 off s =
     (if d < d2
      then if stopped E s then Some ((True, off), s)
           else if 1024 < d + 8 then None
           else do {
             (n1, s1) \<leftarrow> fix_alignment E dc d d2 s;
             (n2, s2) \<leftarrow> fix_small E dc d d2 n1 s1;
             (n3, s3) \<leftarrow> fix_long E dc d d2 n2 s2;
             s4 \<leftarrow> check_entry E file_check parent dir dc d s3;
             check_sector E file_check parent dir dc (d + n3) d2 (off + of_nat n3) s4
           }
      else Some ((False, off), s))"

text \<open>The loop over the chunks, at offset \<open>d\<close> of the one in \<open>dc\<close>; \<open>leave\<close> releases it (again after a failed step) and the position.\<close>

definition leave_dir :: "nat option \<Rightarrow> pfs_blockpos \<Rightarrow> ('d, 'z) pfs_state_scheme \<Rightarrow> ('d, 'z) pfs_state_scheme option" where
  "leave_dir dc bp s = Some (pfsCacheFree (bp_inode bp) (pfsCacheFree dc s))"

partial_function (option) dir_chunks ::
    "'d fsck_env \<Rightarrow> (nat \<Rightarrow> nat \<Rightarrow> nat \<Rightarrow> nat \<Rightarrow> ('d, 'z) fsck_state_scheme \<Rightarrow> ('d, 'z) fsck_state_scheme option) \<Rightarrow>
      nat \<Rightarrow> nat \<Rightarrow> pfs_blockpos \<Rightarrow> nat \<Rightarrow> nat \<Rightarrow> u32 \<Rightarrow> ('d, 'z) fsck_state_scheme \<Rightarrow> ('d, 'z) fsck_state_scheme option" where
  "dir_chunks E file_check parent dir bp dc d off s =
     (if ucast off < inode_size (cdata s dir)
      then do {
        ((c, d1, bp1), s1) \<leftarrow>
          (if 1024 \<le> d
           then do {
             ((r, bp1), s1) \<leftarrow> pfsInodeSync (fs_blk E) bp 1024 (inode_number_data (cdata s dir)) (pfsCacheFree (Some dc) s);
             if r \<noteq> 0 then Some ((Inl (Some dc), 0, bp1), s1)
             else map_option (\<lambda>((c, e), s2). ((case c of None \<Rightarrow> Inl None | Some i \<Rightarrow> Inr i, 0, bp1), s2)) (pfsGetDentriesChunk (fs_blk E) bp1 s1)
           }
           else Some ((Inr dc, d, bp), s));
        case c of Inl i \<Rightarrow> leave_dir i bp1 (set_error s1)
        | Inr i \<Rightarrow> do {
            ((stop, off1), s2) \<leftarrow> check_sector E file_check parent dir i d1 (d1 + 512) off s1;
            if stop \<or> stopped E s2 then leave_dir (Some i) bp1 s2
            else dir_chunks E file_check parent dir bp1 i (d1 + 512) off1 s2
          }
      }
      else leave_dir (Some dc) bp s)"

definition check_files_with ::
    "'d fsck_env \<Rightarrow> (nat \<Rightarrow> nat \<Rightarrow> nat \<Rightarrow> nat \<Rightarrow> ('d, 'z) fsck_state_scheme \<Rightarrow> ('d, 'z) fsck_state_scheme option) \<Rightarrow>
      nat \<Rightarrow> nat \<Rightarrow> ('d, 'z) fsck_state_scheme \<Rightarrow> ('d, 'z) fsck_state_scheme option" where
  "check_files_with E file_check parent dir s =
     (let bp = \<lparr>bp_inode = Some dir, block_segment = 1, block_offset = 0, byte_offset = 0\<rparr> in
      do {
        ((c, e), s1) \<leftarrow> pfsGetDentriesChunk (fs_blk E) bp (pfsCacheUsedAdd dir s);
        case c of None \<Rightarrow> Some (set_error (pfsCacheFree (Some dir) s1))
        | Some i \<Rightarrow> dir_chunks E file_check parent dir bp i 0 0 s1
      })"

text \<open>
  \<open>check_tree n\<close> checks a directory with \<open>n\<close> levels of the path left below it; \<open>fsckCheckFile\<close> refuses
  an entry when there is none, as \<open>PWDLevel\<close> says, so that \<open>check_tree\<close> is not reached.
\<close>

primrec check_tree ::
    "nat \<Rightarrow> 'd fsck_env \<Rightarrow> nat \<Rightarrow> nat \<Rightarrow> ('d, 'z) fsck_state_scheme \<Rightarrow> ('d, 'z) fsck_state_scheme option" where
  "check_tree 0 E = check_files_with E (check_file_with E (\<lambda>_ _ _. None))"
| "check_tree (Suc n) E = check_files_with E (check_file_with E (check_tree n E))"

definition fsckCheckFiles :: "'d fsck_env \<Rightarrow> nat \<Rightarrow> nat \<Rightarrow> ('d, 'z) fsck_state_scheme \<Rightarrow> ('d, 'z) fsck_state_scheme option" where
  "fsckCheckFiles E = check_tree 63 E"

definition fsckCheckFile ::
    "'d fsck_env \<Rightarrow> nat \<Rightarrow> nat \<Rightarrow> nat \<Rightarrow> nat \<Rightarrow> ('d, 'z) fsck_state_scheme \<Rightarrow> ('d, 'z) fsck_state_scheme option" where
  "fsckCheckFile E = check_file_with E (fsckCheckFiles E)"

end
