(* ===== verification/FsckMain.thy ===== *)
theory FsckMain
  imports FsckFiles
begin

text \<open>
  The rest of \<open>fsck/fsck.c\<close>: the superblock and the bitmaps before the check, the comparison of
  the bitmaps after it, the thread, and the calls of the driver. Kernel calls (threads, event
  flags, drivers) are parameters with their results.
\<close>

definition zone_scale :: "('d, 'z) pfs_state_scheme \<Rightarrow> nat" where
  "zone_scale s = unat (sector_scale (pmount s))"

text \<open>A transfer of \<open>n\<close> sectors between the device and \<open>IOBuffer\<close>.\<close>

definition io_read :: "'d fsck_env \<Rightarrow> u32 \<Rightarrow> u32 \<Rightarrow> u32 \<Rightarrow> ('d, 'z) fsck_state_scheme \<Rightarrow> int \<times> ('d, 'z) fsck_state_scheme" where
  "io_read E sub sector n s =
     (let (r, ws, w) = bd_read (fs_blk E) sub sector n (pworld s) in (r, s\<lparr>pworld := w, IOBuffer := overlay ws (IOBuffer s)\<rparr>))"

definition io_write :: "'d fsck_env \<Rightarrow> u32 \<Rightarrow> u32 \<Rightarrow> u32 \<Rightarrow> ('d, 'z) fsck_state_scheme \<Rightarrow> int \<times> ('d, 'z) fsck_state_scheme" where
  "io_write E sub sector n s =
     (let (r, w) = bd_write (fs_blk E) sub sector n (take (128 * unat n) (IOBuffer s)) (pworld s) in (r, s\<lparr>pworld := w\<rparr>))"

subsection \<open>Comparing the bitmaps\<close>

text \<open>The words of a block of the bitmap in \<open>IOBuffer\<close> from word \<open>k\<close>, against the buffer \<open>b\<close> from word \<open>p\<close>; whether one was replaced.\<close>

function compare_words ::
    "'d fsck_env \<Rightarrow> nat \<Rightarrow> nat \<Rightarrow> nat \<Rightarrow> nat \<Rightarrow> bool \<Rightarrow> ('d, 'z) fsck_state_scheme \<Rightarrow> (bool \<times> ('d, 'z) fsck_state_scheme) option" where
  "compare_words E bytes b p k upd s =
     (if \<not> 4 * k < bytes then Some (upd, s)
      else if 0x8000 \<le> p then None
      else if IOBuffer s ! k \<noteq> m_words (pfsBitmapData s b) ! p
      then do {
        (y, s1) \<leftarrow> fsckPromptUserAction2 E True s;
        compare_words E bytes b (p + 1) (k + 1) (upd \<or> y)
          (if y then s1\<lparr>IOBuffer := (IOBuffer s1)[k := m_words (pfsBitmapData s1 b) ! p]\<rparr> else s1)
      }
      else compare_words E bytes b (p + 1) (k + 1) upd s)"
  by pat_completeness auto
termination by (relation "measure (\<lambda>(_, bytes, _, _, k, _, _). bytes - k)") auto

declare compare_words.simps [simp del]

text \<open>The blocks of the bitmap of sub-partition \<open>i\<close> from \<open>zone\<close>; a NULL entry of the new bitmap is None.\<close>

partial_function (option) compare_zones ::
    "'d fsck_env \<Rightarrow> u32 \<Rightarrow> u32 \<Rightarrow> u32 \<Rightarrow> u32 \<Rightarrow> ('d, 'z) fsck_state_scheme \<Rightarrow> ('d, 'z) fsck_state_scheme option" where
  "compare_zones E i numZones unaligned zone s =
     (if (unaligned = 0 \<and> zone < numZones) \<or> (unaligned \<noteq> 0 \<and> zone < numZones + 1)
      then do {
        let bits = push_bit 3 (zsize (pmount s));
        let len = (if zone = numZones then unaligned else bits);
        (e, s1) \<leftarrow> pfsGetBitmapEntry E (i + zone * bits) s;
        let start = (if i = 0 then drop_bit (zone_scale s1) 0x2000 + 1 else 1);
        let (r, s2) = io_read E i (push_bit (zone_scale s1) (start + zone)) (push_bit (zone_scale s1) 1) s1;
        if r < 0 then Some s2
        else do {
          (b, p) \<leftarrow> (if 0 < unat (drop_bit 3 len) then e else Some (0, 0));
          (upd, s3) \<leftarrow> compare_words E (unat (drop_bit 3 len)) b p 0 False s2;
          let s4 = (if upd then snd (io_write E i (push_bit (zone_scale s3) (start + zone)) (push_bit (zone_scale s3) 1) s3) else s3);
          compare_zones E i numZones unaligned (zone + 1) s4
        }
      }
      else Some s)"

partial_function (option) compare_subs :: "'d fsck_env \<Rightarrow> u32 \<Rightarrow> ('d, 'z) fsck_state_scheme \<Rightarrow> ('d, 'z) fsck_state_scheme option" where
  "compare_subs E i s =
     (if i < num_subs (pmount s) + 1
      then let bits = push_bit 3 (zsize (pmount s)) in
           if length (ZoneSizes s) \<le> unat i \<or> bits = 0 then None
           else do {
             let raw = drop_bit (zone_scale s) (ZoneSizes s ! unat i);
             s1 \<leftarrow> compare_zones E i (raw div bits) (raw mod bits) 0 s;
             compare_subs E (i + 1) s1
           }
      else Some s)"

definition fsckCompareBitmap :: "'d fsck_env \<Rightarrow> ('d, 'z) fsck_state_scheme \<Rightarrow> ('d, 'z) fsck_state_scheme option" where
  "fsckCompareBitmap E = compare_subs E 0"

subsection \<open>The thread\<close>

text \<open>The status word of the superblock is changed by \<open>f\<close> when \<open>test\<close> holds of it.\<close>

definition change_fsck_stat :: "'d fsck_env \<Rightarrow> (u32 \<Rightarrow> bool) \<Rightarrow> (u32 \<Rightarrow> u32) \<Rightarrow> ('d, 'z) fsck_state_scheme \<Rightarrow> ('d, 'z) fsck_state_scheme" where
  "change_fsck_stat E test f s =
     (let (r, s1) = io_read E 0 PFS_SUPER_SECTOR 1 s in
      if r = 0 \<and> test (sb_fsck_stat (IOBuffer s1))
      then snd (io_write E 0 PFS_SUPER_SECTOR 1 (s1\<lparr>IOBuffer := (IOBuffer s1)[3 := f (sb_fsck_stat (IOBuffer s1))]\<rparr>))
      else s1)"

definition fsck_finish :: "'d fsck_env \<Rightarrow> ('d, 'z) fsck_state_scheme \<Rightarrow> ('d, 'z) fsck_state_scheme option" where
  "fsck_finish E s = do {
     s1 \<leftarrow> (if \<not> hasError s \<and> \<not> stopped E s then fsckCompareBitmap E s else Some s);
     let s2 = (if \<not> hasError s \<and> \<not> hasError s1 \<and> \<not> stopped E s1
               then (let t = change_fsck_stat E (\<lambda>x. x AND PFS_FSCK_STAT_WRITE_ERROR \<noteq> 0) (\<lambda>x. x AND NOT PFS_FSCK_STAT_WRITE_ERROR) s1
                     in t\<lparr>pworld := get_part_error E (pworld t)\<rparr>)
               else s1);
     let s3 = (if fixedErrorCount (status s2) \<noteq> 0
               then change_fsck_stat E (\<lambda>_. True) (\<lambda>x. x OR PFS_FSCK_STAT_ERRORS_FIXED) s2 else s2);
     Some (s3\<lparr>pworld := snd (bd_flush (fs_blk E) (pworld s3))\<rparr>)
   }"

definition FsckThread :: "'d fsck_env \<Rightarrow> ('d, 'z) fsck_state_scheme \<Rightarrow> ('d, 'z) fsck_state_scheme option" where
  "FsckThread E s = do {
     (r, s1) \<leftarrow> fsckCheckExtendedAttribute E s;
     if r < 0 then Some s1
     else do {
       (c, s2) \<leftarrow> CheckRootDirectory E s1;
       case c of None \<Rightarrow> Some s2
       | Some i \<Rightarrow> do {
           s3 \<leftarrow> fsckCheckFiles E i i (with_status (\<lambda>t. t\<lparr>directories := directories t + 1\<rparr>) s2);
           s4 \<leftarrow> pfsCacheFlushAllDirty (fs_blk E) s3;
           fsck_finish E (pfsCacheFree (Some i) s4)
         }
     }
   }"

subsection \<open>Before the check\<close>

text \<open>The sectors of an unreadable block of a bitmap; those that cannot be read are overwritten with ones.\<close>

fun overwrite_sectors :: "'d fsck_env \<Rightarrow> u32 \<Rightarrow> u32 \<Rightarrow> nat \<Rightarrow> int \<Rightarrow> ('d, 'z) fsck_state_scheme \<Rightarrow> int \<times> ('d, 'z) fsck_state_scheme" where
  "overwrite_sectors E i sector 0 result s = (result, s)"
| "overwrite_sectors E i sector (Suc n) result s =
     (let (r, s1) = io_read E i sector 1 s in
      if r < 0
      then (let (w, s2) = io_write E i sector 1 (s1\<lparr>IOBuffer := overlay (replicate 128 (- 1)) (IOBuffer s1)\<rparr>)
            in if w < 0 then (w, s2) else overwrite_sectors E i (sector + 1) n w s2)
      else overwrite_sectors E i (sector + 1) n result s1)"

text \<open>The blocks of a bitmap; the flag says that the check ends with the result.\<close>

partial_function (option) check_bitmap_blocks ::
    "'d fsck_env \<Rightarrow> u32 \<Rightarrow> u32 \<Rightarrow> u32 \<Rightarrow> int \<Rightarrow> ('d, 'z) fsck_state_scheme \<Rightarrow> ((bool \<times> int) \<times> ('d, 'z) fsck_state_scheme) option" where
  "check_bitmap_blocks E i count block result s =
     (if block < count
      then do {
        let sc = zone_scale s;
        let start = push_bit sc (block + 1 + (if i = 0 then drop_bit sc 0x2000 else 0));
        let (r, s1) = io_read E i start (push_bit sc 1) s;
        if 0 \<le> r then check_bitmap_blocks E i count (block + 1) r s1
        else do {
          (y, s2) \<leftarrow> fsckPromptUserAction E True s1;
          if \<not> y then Some ((True, r), s2)
          else (let (w, s3) = overwrite_sectors E i start (2 ^ sc) 0 s2
                in if w < 0 then Some ((True, w), s3) else check_bitmap_blocks E i count (block + 1) w s3)
        }
      }
      else Some ((False, result), s))"

partial_function (option) check_bitmap_subs :: "'d fsck_env \<Rightarrow> u32 \<Rightarrow> int \<Rightarrow> ('d, 'z) fsck_state_scheme \<Rightarrow> (int \<times> ('d, 'z) fsck_state_scheme) option" where
  "check_bitmap_subs E i result s =
     (if i < num_subs (pmount s) + 1
      then if length (ZoneSizes s) \<le> unat i then None
           else do {
             ((fin, r), s1) \<leftarrow> check_bitmap_blocks E i (pfsGetBitmapSizeBlocks (zone_scale s) (ZoneSizes s ! unat i)) 0 result s;
             if fin then Some (r, s1) else check_bitmap_subs E (i + 1) r s1
           }
      else Some (result, s))"

definition fsckCheckBitmap :: "'d fsck_env \<Rightarrow> ('d, 'z) fsck_state_scheme \<Rightarrow> (int \<times> ('d, 'z) fsck_state_scheme) option" where
  "fsckCheckBitmap E = check_bitmap_subs E 0 0"

text \<open>The superblock in \<open>IOBuffer\<close>, from its backup when the first copy is not usable.\<close>

definition read_super :: "'d fsck_env \<Rightarrow> ('d, 'z) fsck_state_scheme \<Rightarrow> (int \<times> ('d, 'z) fsck_state_scheme) option" where
  "read_super E s =
     (let (r, s1) = io_read E 0 PFS_SUPER_SECTOR 1 s in
      if \<not> (r < 0 \<or> sb_magic (IOBuffer s1) \<noteq> PFS_SUPER_MAGIC) then Some (0, s1)
      else (let (r2, s2) = io_read E 0 PFS_SUPER_BACKUP_SECTOR 1 s1 in
            if r2 \<noteq> 0 \<or> sb_magic (IOBuffer s2) \<noteq> PFS_SUPER_MAGIC then Some (- EIO, s2)
            else do {
              (y, s3) \<leftarrow> fsckPromptUserAction E True s2;
              if \<not> y then Some (- EIO, s3)
              else (let (w, s4) = io_write E 0 PFS_SUPER_SECTOR 1 s3 in Some (if w < 0 then w else 0, s4))
            }))"

definition fix_super_size :: "'d fsck_env \<Rightarrow> ('d, 'z) fsck_state_scheme \<Rightarrow> (int \<times> ('d, 'z) fsck_state_scheme) option" where
  "fix_super_size E s =
     (if num_subs (pmount s) < sb_num_subs (IOBuffer s)
      then do {
        (y, s1) \<leftarrow> fsckPromptUserAction E True s;
        if \<not> y then Some (- EINVAL, s1)
        else (let (w, s2) = io_write E 0 PFS_SUPER_SECTOR 1 (s1\<lparr>IOBuffer := (IOBuffer s1)[5 := num_subs (pmount s1)]\<rparr>)
              in Some (if w < 0 then w else 0, s2))
      }
      else Some (0, s))"

text \<open>The tables of the sizes and of the first zones; only their first four words are cleared before.\<close>

definition zone_tables :: "'d blk_dev \<Rightarrow> nat \<Rightarrow> u32 \<Rightarrow> u32 list \<times> u32 list \<Rightarrow> (u32 list \<times> u32 list) option" where
  "zone_tables D sc n tabs =
     ofold (\<lambda>i (sizes, starts).
        if length sizes \<le> i then None
        else (let sizes1 = sizes[i := bd_size D (of_nat i)] in
              Some (sizes1, if i \<noteq> 0 then starts[i := drop_bit sc (sizes1 ! (i - 1)) + starts ! (i - 1)] else starts)))
       [0..<unat n] (overlay (replicate 4 0) (fst tabs), overlay (replicate 4 0) (snd tabs))"

partial_function (option) count_zones :: "'d fsck_env \<Rightarrow> u32 \<Rightarrow> ('d, 'z) fsck_state_scheme \<Rightarrow> ('d, 'z) fsck_state_scheme option" where
  "count_zones E i s =
     (if i < num_subs (pmount s) + 1
      then if length (ZoneSizes s) \<le> unat i \<or> length (free_zone (pmount s)) \<le> unat i then None
           else do {
             let s1 = with_mount (\<lambda>m. m\<lparr>total_zones := total_zones m + drop_bit (unat (sector_scale m)) (ZoneSizes s ! unat i)\<rparr>) s;
             (free, s2) \<leftarrow> pfsBitmapCalcFreeZones (fs_blk E) i s1;
             count_zones E (i + 1) (with_mount (\<lambda>m. m\<lparr>free_zone := (free_zone m)[unat i := free], zfree := zfree m + free\<rparr>) s2)
           }
      else Some s)"

definition super_mount :: "u32 list \<Rightarrow> nat \<Rightarrow> nat \<Rightarrow> pfs_mount \<Rightarrow> pfs_mount" where
  "super_mount ws a b m = m\<lparr>zsize := sb_zone_size ws, sector_scale := of_nat a, inode_scale := of_nat b,
     root_dir := sb_root ws, mount_log := sb_log ws, current_dir := sb_root ws, total_zones := 0\<rparr>"

definition CheckSuperBlock :: "'d fsck_env \<Rightarrow> ('d, 'z) fsck_state_scheme \<Rightarrow> (int \<times> ('d, 'z) fsck_state_scheme) option" where
  "CheckSuperBlock E s = do {
     (r1, s1) \<leftarrow> read_super E (with_mount (\<lambda>m. m\<lparr>num_subs := bd_subs (fs_blk E)\<rparr>) s);
     if r1 < 0 then Some (r1, s1)
     else if PFS_FORMAT_VERSION < sb_version (IOBuffer s1) \<or> \<not> pfsCheckZoneSize (sb_zone_size (IOBuffer s1)) then Some (- EINVAL, s1)
     else do {
       (r2, s2) \<leftarrow> fix_super_size E s1;
       if r2 < 0 then Some (r2, s2)
       else do {
         a \<leftarrow> pfsGetScale (sb_zone_size (IOBuffer s2)) 512;
         b \<leftarrow> pfsGetScale (sb_zone_size (IOBuffer s2)) 1024;
         (r3, s3) \<leftarrow> pfsJournalRestore (fs_blk E) (with_mount (super_mount (IOBuffer s2) a b) s2);
         if r3 < 0 then Some (r3, s3)
         else do {
           (sizes, starts) \<leftarrow> zone_tables (fs_blk E) (zone_scale s3) (num_subs (pmount s3) + 1) (ZoneSizes s3, ZoneMap s3);
           (r4, s4) \<leftarrow> fsckCheckBitmap E (s3\<lparr>ZoneSizes := sizes, ZoneMap := starts\<rparr>);
           if r4 < 0 then Some (r4, s4) else map_option (Pair r4) (count_zones E 0 s4)
         }
       }
     }
   }"

subsection \<open>The driver\<close>

definition zero_status :: fsckStatus where
  "zero_status = \<lparr>zoneUsed = 0, inodeBlockCount = 0, files = 0, directories = 0, PWDLevel = 0, errorCount = 0, fixedErrorCount = 0\<rparr>"

text \<open>The zones of the bitmaps, the log and the reserved area are marked in the new bitmap.\<close>

partial_function (option) mark_system :: "'d fsck_env \<Rightarrow> u32 \<Rightarrow> ('d, 'z) fsck_state_scheme \<Rightarrow> ('d, 'z) fsck_state_scheme option" where
  "mark_system E i s =
     (if i < num_subs (pmount s) + 1
      then if length (ZoneSizes s) \<le> unat i \<or> length (ZoneMap s) \<le> unat i then None
           else do {
             let n = pfsGetBitmapSizeBlocks (zone_scale s) (ZoneSizes s ! unat i) + 1 +
                     (if i = 0 then drop_bit (zone_scale s) 0x2000 + ucast (bi_count (mount_log (pmount s))) else 0);
             (r, s1) \<leftarrow> fsckCheckZones E (ZoneMap s ! unat i) n s;
             if r < 0 then Some s1 else mark_system E (i + 1) (with_status (\<lambda>t. t\<lparr>inodeBlockCount := inodeBlockCount t + n\<rparr>) s1)
           }
      else Some s)"

text \<open>
  \<open>getstat\<close>, the search for the block device and \<open>open\<close> are calls of the file I/O library; their
  results are parameters.
\<close>

definition FsckOpen ::
    "'d fsck_env \<Rightarrow> int \<times> u16 \<Rightarrow> bool \<Rightarrow> int \<Rightarrow> u32 \<Rightarrow> ('d, 'z) fsck_state_scheme \<Rightarrow> (int \<times> ('d, 'z) fsck_state_scheme) option" where
  "FsckOpen E stat found blockfd mode s =
     (let s0 = s\<lparr>fsckWriteEnabled := (mode AND 1 \<noteq> 0), fsckAutoMode := (mode AND 2 \<noteq> 0)\<rparr> in
      if main_fd s0 \<noteq> 0 then Some (- EBUSY, s0)
      else if fst stat < 0 then Some (fst stat, s0)
      else if snd stat \<noteq> APA_TYPE_PFS then Some (- EINVAL, s0)
      else if \<not> found then Some (- ENXIO, s0)
      else if blockfd < 0 then Some (blockfd, s0)
      else do {
        (r1, s1) \<leftarrow> CheckSuperBlock E (s0\<lparr>pmount := zero_mount, main_fd := blockfd\<rparr>);
        if r1 < 0 then Some (r1, s1\<lparr>main_fd := 0\<rparr>)
        else (let (r2, s2) = pfsBitmapPartInit E (total_zones (pmount s1)) s1 in
              if r2 < 0 then Some (r2, s2\<lparr>main_fd := 0\<rparr>)
              else map_option (Pair 0)
                (mark_system E 0 (s2\<lparr>status := zero_status\<lparr>zoneUsed := total_zones (pmount s2) - zfree (pmount s2)\<rparr>,
                   hasError := False, stopFlag := False\<rparr>)))
      })"

text \<open>The file of the device is closed before the cache writes to it; the closed device is \<open>E\<close>'s from then on.\<close>

definition FsckClose :: "('d \<Rightarrow> 'd) \<Rightarrow> 'd fsck_env \<Rightarrow> ('d, 'z) fsck_state_scheme \<Rightarrow> (int \<times> ('d, 'z) fsck_state_scheme) option" where
  "FsckClose close_fd E s =
     map_option (\<lambda>s1. (0, s1\<lparr>pmount := zero_mount, main_fd := 0\<rparr>)) (pfsCacheClose (fs_blk E) (s\<lparr>pworld := close_fd (pworld s)\<rparr>))"

text \<open>The shortest of four reads of one zone gives the estimate; times are low and high words.\<close>

fun time_reads :: "'d fsck_env \<Rightarrow> nat \<Rightarrow> u64 \<Rightarrow> ('d, 'z) fsck_state_scheme \<Rightarrow> u64 \<times> ('d, 'z) fsck_state_scheme" where
  "time_reads E 0 best s = (best, s)"
| "time_reads E (Suc n) best s =
     (let ((lo1, hi1), w1) = system_time E (pworld s);
          sc = push_bit (zone_scale s) 1;
          (r, s1) = io_read E 0 sc sc (s\<lparr>pworld := w1\<rparr>);
          ((lo2, hi2), w2) = system_time E (pworld s1);
          (sec, usec) = clock_usec E (lo2 - lo1, hi2 - hi1 - (if lo2 < lo1 then 1 else 0))
      in time_reads E n (if ucast usec < best then ucast usec else best) (s1\<lparr>pworld := w2\<rparr>))"

definition fsckGetEstimatedTime :: "'d fsck_env \<Rightarrow> ('d, 'z) fsck_state_scheme \<Rightarrow> u32 \<times> ('d, 'z) fsck_state_scheme" where
  "fsckGetEstimatedTime E s =
     (let (best, s1) = time_reads E 4 1000000 s;
          t = ucast ((best + 400) * ucast (zoneUsed (status s1)) div 1000000)
      in (if t = 0 then 1 else t, s1))"

datatype fsck_cmd = FSCK_GET_ESTIMATE | FSCK_START | FSCK_WAIT | FSCK_POLL | FSCK_GET_STATUS | FSCK_STOP | FSCK_OTHER

definition FSCK_IOCTL2_CMD :: "int \<Rightarrow> fsck_cmd" where
  "FSCK_IOCTL2_CMD cmd = (if cmd = 0 then FSCK_GET_ESTIMATE else if cmd = 1 then FSCK_START else if cmd = 2 then FSCK_WAIT
     else if cmd = 3 then FSCK_POLL else if cmd = 4 then FSCK_GET_STATUS else if cmd = 5 then FSCK_STOP else FSCK_OTHER)"

text \<open>
  \<open>start\<close>, \<open>waited\<close> and \<open>polled\<close> are the results of the kernel's calls, \<open>KE_EVF_COND\<close> that of a poll
  of a flag that is not set. The result comes with the words stored in the caller's buffer.
\<close>

definition status_words :: "fsckStatus \<Rightarrow> u32 list" where
  "status_words t = [zoneUsed t, inodeBlockCount t, files t, directories t, PWDLevel t, errorCount t, fixedErrorCount t]"

definition FsckIoctl2 ::
    "'d fsck_env \<Rightarrow> int \<Rightarrow> int \<Rightarrow> int \<Rightarrow> int \<Rightarrow> int \<Rightarrow> ('d, 'z) fsck_state_scheme \<Rightarrow> (int \<times> u32 list) \<times> ('d, 'z) fsck_state_scheme" where
  "FsckIoctl2 E start waited polled KE_EVF_COND cmd s =
     (case FSCK_IOCTL2_CMD cmd of
        FSCK_GET_ESTIMATE \<Rightarrow> (let (t, s1) = fsckGetEstimatedTime E s in ((0, [t]), s1))
      | FSCK_START \<Rightarrow> ((start, []), s)
      | FSCK_WAIT \<Rightarrow> ((waited, []), s)
      | FSCK_POLL \<Rightarrow> ((if polled = KE_EVF_COND then 1 else polled, []), s)
      | FSCK_GET_STATUS \<Rightarrow> ((0, status_words (status s)), s)
      | FSCK_STOP \<Rightarrow> ((0, []), s\<lparr>stopFlag := True\<rparr>)
      | FSCK_OTHER \<Rightarrow> ((0, []), s))"

text \<open>The start of the module; true is \<open>MODULE_RESIDENT_END\<close>.\<close>

definition fsck_start ::
    "(string \<Rightarrow> int) \<Rightarrow> string list \<Rightarrow> bool \<times> bool \<times> (nat \<Rightarrow> u32 list) \<Rightarrow> int \<times> bool \<times> (nat \<Rightarrow> u32 list) \<Rightarrow> int \<Rightarrow> int \<Rightarrow> int \<Rightarrow>
      ('d, 'z) fsck_state_scheme \<Rightarrow> bool \<times> ('d, 'z) fsck_state_scheme" where
  "fsck_start strtol args mem1 mem2 flag thread driver s =
     (case module_args strtol args 0x7E of None \<Rightarrow> (False, s)
      | Some n \<Rightarrow>
          (let (ok1, ok2, m1) = mem1; (opened, ok3, m2) = mem2;
               (r1, s1) = pfsCacheInit (unat (of_int n :: u32)) ok1 ok2 m1 s
           in if r1 < 0 then (False, s1)
              else (let (r2, s2) = pfsBitmapInit opened ok3 m2 s1
                    in if r2 < 0 then (False, s2) else (\<not> flag < 0 \<and> \<not> thread < 0 \<and> driver = 0, s2))))"

end
