(* ===== verification/FsckZoneProps.thy ===== *)
theory FsckZoneProps
  imports FsckMain PfsZones
begin

text \<open>
  The bitmap that \<open>fsck\<close> rebuilds, as the set of the zones it has met. Up to 4 million zones the
  buffers of \<open>fsck/bitmap.c\<close> hold the whole bitmap and none is ever replaced.
\<close>

subsection \<open>Marking zones in a buffer\<close>

lemma zbit_set: "k < length ws \<Longrightarrow> b < 32 \<Longrightarrow> zbit (ws[k := ws ! k OR push_bit b 1]) x \<longleftrightarrow> x = 32 * k + b \<or> zbit ws x"
proof (cases "x div 32 = k")
  case True
  moreover assume "k < length ws" "b < 32"
  moreover have "x = 32 * k + b \<longleftrightarrow> x mod 32 = b" using True \<open>b < 32\<close> by (metis add.commute div_mult_mod_eq mod_less mod_mult_self2 mult.commute)
  ultimately show ?thesis by (auto simp: zbit_def bit_or_iff bit_exp_iff)
next
  case False
  moreover assume "b < 32"
  ultimately have "x \<noteq> 32 * k + b" by auto
  then show ?thesis using False by (simp add: zbit_def)
qed

lemma zbit_word: "b < 32 \<Longrightarrow> (ws ! k :: u32) AND push_bit b 1 \<noteq> 0 \<longleftrightarrow> zbit ws (32 * k + b)"
  by (auto simp: zbit_def and_exp_eq_0_iff_not_bit)

text \<open>
  From position \<open>p\<close> on \<open>n\<close> zones are free and become used; then a used one, the end of the buffer
  or of the \<open>r\<close> zones is met.
\<close>

definition marked :: "nat \<Rightarrow> nat \<Rightarrow> u32 \<Rightarrow> bool \<Rightarrow> u32 \<Rightarrow> u32 list \<Rightarrow> u32 list \<Rightarrow> bool" where
  "marked p n r u left ws ws' \<longleftrightarrow> unat r = n + unat left \<and> p + n \<le> 2 ^ 20 \<and> (\<forall>x. p \<le> x \<and> x < p + n \<longrightarrow> \<not> zbit ws x) \<and>
    (if u then p + n < 2 ^ 20 \<and> left \<noteq> 0 \<and> zbit ws (p + n) else left = 0 \<or> p + n = 2 ^ 20) \<and>
    length ws' = 0x8000 \<and> (\<forall>x. zbit ws' x \<longleftrightarrow> zbit ws x \<or> p \<le> x \<and> x < p + n)"

lemma mark_zones_run:
  assumes "mark_zones k b r ws = (u, left, ws')" "b \<le> 32" "32 * k + b \<le> 2 ^ 20" "length ws = 0x8000"
  shows "\<exists>n. marked (32 * k + b) n r u left ws ws'"
  using assms
proof (induction k b r ws rule: mark_zones.induct)
  case (1 k b r ws)
  consider "0x8000 \<le> k \<or> r = 0" | "k < 0x8000" "r \<noteq> 0" "b = 32" | "k < 0x8000" "r \<noteq> 0" "b < 32" "zbit ws (32 * k + b)" |
    "k < 0x8000" "r \<noteq> 0" "b < 32" "\<not> zbit ws (32 * k + b)" using 1(4) by linarith
  then show ?case
  proof cases
    case 1
    then show ?thesis using "1.prems" by (subst (asm) mark_zones.simps) (auto simp: marked_def intro!: exI [of _ 0])
  next
    case 2
    then have "mark_zones (k + 1) 0 r ws = (u, left, ws')" using "1.prems"(1) by (subst (asm) mark_zones.simps) simp
    from "1.IH"(1) [OF _ _ this] 2 "1.prems"(4) have "\<exists>n. marked (32 * (k + 1) + 0) n r u left ws ws'" by simp
    moreover have "32 * (k + 1) + 0 = 32 * k + b" using 2(3) by simp
    ultimately show ?thesis by metis
  next
    case 3
    then show ?thesis using "1.prems" zbit_word [OF 3(3), of ws k] by (subst (asm) mark_zones.simps) (auto simp: marked_def intro!: exI [of _ 0])
  next
    case 4
    let ?ws = "ws[k := ws ! k OR push_bit b 1]"
    have f: "ws ! k AND push_bit b 1 = 0" using zbit_word [OF 4(3), of ws k] 4(4) by blast
    then have "mark_zones k (b + 1) (r - 1) ?ws = (u, left, ws')" using 4 "1.prems"(1) by (subst (asm) mark_zones.simps) simp
    moreover have "\<not> (0x8000 \<le> k \<or> r = 0)" "\<not> 32 \<le> b" "\<not> ws ! k AND push_bit b 1 \<noteq> 0" using 4 f by auto
    ultimately obtain n where n: "marked (32 * k + (b + 1)) n (r - 1) u left ?ws ws'"
      using "1.IH"(2) 4 "1.prems"(4) by fastforce
    have k: "k < length ws" using 4(1) "1.prems"(4) by simp
    have "unat r = Suc (unat (r - 1))" using 4(2) by (simp add: unat_minus_one unat_gt_0)
    moreover have "\<not> zbit ws x" if "32 * k + b \<le> x" "x < 32 * k + b + Suc n" for x
      using n 4(4) that unfolding marked_def zbit_set [OF k 4(3)] by (cases "x = 32 * k + b") auto
    moreover have "zbit ws' x \<longleftrightarrow> zbit ws x \<or> 32 * k + b \<le> x \<and> x < 32 * k + b + Suc n" for x
      using n unfolding marked_def zbit_set [OF k 4(3)] by (cases "x = 32 * k + b") auto
    ultimately have "marked (32 * k + b) (Suc n) r u left ws ws'"
      using n unfolding marked_def zbit_set [OF k 4(3)] by (simp split: if_splits)
    then show ?thesis by blast
  qed
qed

subsection \<open>The set of zones met\<close>

definition resident :: "('d, 'z) fsck_state_scheme \<Rightarrow> bool" where
  "resident s \<longleftrightarrow> (\<forall>i \<in> {1..4}. m_index (pfsBitmapData s i) = of_nat (i - 1) \<and> length (m_words (pfsBitmapData s i)) = 0x8000)"

definition zone_set :: "('d, 'z) fsck_state_scheme \<Rightarrow> nat set" where
  "zone_set s = {z. z < 2 ^ 22 \<and> zbit (m_words (pfsBitmapData s (z div 2 ^ 20 + 1))) (z mod 2 ^ 20)}"

text \<open>Only the buffers change, of them only links, use counts and dirty flags.\<close>

definition same_bits :: "('d, 'z) fsck_state_scheme \<Rightarrow> ('d, 'z) fsck_state_scheme \<Rightarrow> bool" where
  "same_bits s t \<longleftrightarrow> t = s\<lparr>pfsBitmapData := pfsBitmapData t\<rparr> \<and>
     (\<forall>i. m_index (pfsBitmapData t i) = m_index (pfsBitmapData s i) \<and> m_words (pfsBitmapData t i) = m_words (pfsBitmapData s i))"

lemma same_bits_refl [simp]: "same_bits s s"
  by (simp add: same_bits_def)

lemma same_bits_trans: "same_bits s t \<Longrightarrow> same_bits t u \<Longrightarrow> same_bits s u"
  unfolding same_bits_def by (metis (no_types, lifting) fsck_state.surjective fsck_state.update_convs(1))

lemma same_bits_upd:
  "same_bits s t \<Longrightarrow> (\<And>c. m_index (f c) = m_index c) \<Longrightarrow> (\<And>c. m_words (f c) = m_words c) \<Longrightarrow> same_bits s (upd_bitmap i f t)"
  by (erule same_bits_trans) (simp add: same_bits_def upd_bitmap_def)

lemma same_bits_link: "same_bits s t \<Longrightarrow> same_bits s (bitmap_link c n t)" "same_bits s t \<Longrightarrow> same_bits s (bitmap_unlink c t)"
  unfolding bitmap_link_def bitmap_unlink_def Let_def by (intro same_bits_upd; simp)+

lemma same_bits_free: "same_bits s t \<Longrightarrow> same_bits s (pfsBitmapFree i t)"
  unfolding pfsBitmapFree_def Let_def by (auto intro!: same_bits_upd same_bits_link)

lemma same_bits_zones: "same_bits s t \<Longrightarrow> resident t = resident s \<and> zone_set t = zone_set s"
  by (simp add: same_bits_def resident_def zone_set_def)

lemma read_resident:
  assumes "resident s" "unat index < 4"
  shows "\<exists>t. pfsBitmapRead E index s = Some (Some (unat index + 1), t) \<and> same_bits s t"
proof -
  have l: "[1..<NUM_BITMAP_ENTRIES] = [1, 2, 3, 4]" by (simp add: NUM_BITMAP_ENTRIES_def upt_rec)
  have m: "m_index (pfsBitmapData s 1) = 0" "m_index (pfsBitmapData s 2) = 1" "m_index (pfsBitmapData s 3) = 2" "m_index (pfsBitmapData s 4) = 3"
    using assms(1) by (auto simp: resident_def)
  have i: "index = of_nat (unat index)" by simp
  have "unat index \<in> {0, 1, 2, 3}" using assms(2) by auto
  then have "List.find (\<lambda>i. m_index (pfsBitmapData s i) = index) [1..<NUM_BITMAP_ENTRIES] = Some (unat index + 1)"
    unfolding l using m by (subst i) (auto simp del: of_nat_unat)
  then show ?thesis
    by (auto simp: pfsBitmapRead_def Let_def intro!: same_bits_upd same_bits_link)
qed

lemma zone_set_store:
  assumes "resident s" "i < 4" "p + n \<le> 2 ^ 20" "length ws = 0x8000"
    and bits: "\<forall>x. zbit ws x \<longleftrightarrow> zbit (m_words (pfsBitmapData s (i + 1))) x \<or> p \<le> x \<and> x < p + n"
    and t: "t = upd_bitmap (i + 1) (\<lambda>c. c\<lparr>m_words := ws, m_dirty := 1\<rparr>) s"
  shows "resident t" "zone_set t = zone_set s \<union> {i * 2 ^ 20 + p..<i * 2 ^ 20 + p + n}"
proof -
  show "resident t" using assms(1,4) by (simp add: resident_def t upd_bitmap_def)
  have "z \<in> zone_set t \<longleftrightarrow> z \<in> zone_set s \<or> i * 2 ^ 20 + p \<le> z \<and> z < i * 2 ^ 20 + p + n" for z
  proof (cases "z div 2 ^ 20 = i")
    case True
    then have "z = i * 2 ^ 20 + z mod 2 ^ 20" by (metis div_mult_mod_eq)
    then have "i * 2 ^ 20 + p \<le> z \<and> z < i * 2 ^ 20 + p + n \<longleftrightarrow> p \<le> z mod 2 ^ 20 \<and> z mod 2 ^ 20 < p + n"
      by (metis add.assoc add_le_cancel_left add_less_cancel_left)
    moreover have "z < 2 ^ 22" using True assms(2) by auto
    ultimately show ?thesis using True bits by (simp add: zone_set_def t upd_bitmap_def)
  next
    case False
    then have "\<not> (i * 2 ^ 20 + p \<le> z \<and> z < i * 2 ^ 20 + p + n)" using assms(3) by (auto simp: div_nat_eqI)
    moreover have "pfsBitmapData t (z div 2 ^ 20 + 1) = pfsBitmapData s (z div 2 ^ 20 + 1)" using False by (simp add: t upd_bitmap_def)
    ultimately show ?thesis unfolding zone_set_def mem_Collect_eq by metis
  qed
  then show "zone_set t = zone_set s \<union> {i * 2 ^ 20 + p..<i * 2 ^ 20 + p + n}"
    by (intro set_eqI) (simp only: Un_iff atLeastLessThan_iff)
qed

text \<open>Of the \<open>k\<close> zones from \<open>p\<close> on the first \<open>n\<close> were not met before; the next one was, if there is one.\<close>

definition zones_met :: "nat \<Rightarrow> nat \<Rightarrow> nat \<Rightarrow> ('d, 'z) fsck_state_scheme \<Rightarrow> ('d, 'z) fsck_state_scheme \<Rightarrow> bool" where
  "zones_met p n k s t \<longleftrightarrow> n \<le> k \<and> {p..<p + n} \<inter> zone_set s = {} \<and> (n < k \<longrightarrow> p + n \<in> zone_set s) \<and>
     resident t \<and> zone_set t = zone_set s \<union> {p..<p + n}"

lemma zones_met_0: "resident s \<Longrightarrow> zones_met p 0 0 s s"
  by (simp add: zones_met_def)

lemma zones_met_next:
  assumes "zones_met p n n s t" "zones_met (p + n) m k t u"
  shows "zones_met p (n + m) (n + k) s u"
proof -
  have r: "{p..<p + (n + m)} = {p..<p + n} \<union> {p + n..<p + n + m}" by auto
  show ?thesis using assms unfolding zones_met_def r by (auto simp: add.assoc)
qed

lemma zones_loop_run:
  assumes "resident s" "b \<le> 32" "32 * zone + b \<le> 2 ^ 20" "unat index \<le> 4" "unat index * 2 ^ 20 + (32 * zone + b) + unat remaining \<le> 2 ^ 22"
  shows "\<exists>n t. zones_loop E index zone b remaining s = Some (if n = unat remaining then 0 else 1, t) \<and>
    zones_met (unat index * 2 ^ 20 + (32 * zone + b)) n (unat remaining) s t"
  using assms
proof (induction "4 - unat index" arbitrary: index zone b remaining s)
  case 0
  then have "remaining = 0" by (simp add: unat_eq_0 [symmetric])
  then show ?case using zones_met_0 [OF 0(2)] by (subst zones_loop.simps) auto
next
  case (Suc m)
  let ?i = "unat index" and ?p = "32 * zone + b"
  show ?case
  proof (cases "remaining = 0")
    case True
    then show ?thesis using zones_met_0 [OF Suc.prems(1)] by (subst zones_loop.simps) auto
  next
    case False
    have i: "?i < 4" using Suc.hyps(2) by linarith
    obtain s1 where s1: "pfsBitmapRead E index s = Some (Some (?i + 1), s1)" "same_bits s s1" using read_resident [OF Suc.prems(1) i] by blast
    note z1 = same_bits_zones [OF s1(2)]
    let ?ws = "m_words (pfsBitmapData s1 (?i + 1))"
    obtain u left ws where m: "mark_zones zone b remaining ?ws = (u, left, ws)" by (metis prod_cases3)
    have len: "length ?ws = 0x8000" using Suc.prems(1) z1 i by (simp add: resident_def)
    obtain n where n: "marked ?p n remaining u left ?ws ws" using mark_zones_run [OF m Suc.prems(2,3) len] by blast
    define s2 where "s2 = (if left \<noteq> remaining then upd_bitmap (?i + 1) (\<lambda>c. c\<lparr>m_words := ws, m_dirty := 1\<rparr>) s1 else s1)"
    have nn: "unat remaining = n + unat left" "?p + n \<le> 2 ^ 20" "\<forall>x. ?p \<le> x \<and> x < ?p + n \<longrightarrow> \<not> zbit ?ws x" "length ws = 0x8000"
      "\<forall>x. zbit ws x \<longleftrightarrow> zbit ?ws x \<or> ?p \<le> x \<and> x < ?p + n"
      using n unfolding marked_def by blast+
    have zb: "?i * 2 ^ 20 + x \<in> zone_set s \<longleftrightarrow> zbit ?ws x" if "x < 2 ^ 20" for x
    proof -
      have "(?i * 2 ^ 20 + x) div 2 ^ 20 = ?i" "(?i * 2 ^ 20 + x) mod 2 ^ 20 = x" "?i * 2 ^ 20 + x < 2 ^ 22" using that i by (auto simp: div_nat_eqI)
      then show ?thesis using s1(2) unfolding zone_set_def mem_Collect_eq same_bits_def by metis
    qed
    have st: "resident s2 \<and> zone_set s2 = zone_set s \<union> {?i * 2 ^ 20 + ?p..<?i * 2 ^ 20 + ?p + n}"
    proof (cases "left = remaining")
      case True
      then have "n = 0" using nn(1) by simp
      then show ?thesis using z1 Suc.prems(1) True unfolding s2_def by simp
    next
      case False
      then have s2: "s2 = upd_bitmap (?i + 1) (\<lambda>c. c\<lparr>m_words := ws, m_dirty := 1\<rparr>) s1" by (simp add: s2_def)
      have "resident s1" using z1 Suc.prems(1) by blast
      from zone_set_store [OF this i nn(2,4,5) s2] show ?thesis using z1 by blast
    qed
    have free: "{?i * 2 ^ 20 + ?p..<?i * 2 ^ 20 + ?p + n} \<inter> zone_set s = {}"
    proof (rule equals0I)
      fix z assume z: "z \<in> {?i * 2 ^ 20 + ?p..<?i * 2 ^ 20 + ?p + n} \<inter> zone_set s"
      define x where "x = z - ?i * 2 ^ 20"
      have "?i * 2 ^ 20 + ?p \<le> z" "z < ?i * 2 ^ 20 + ?p + n" "z \<in> zone_set s" using z by (simp_all only: Int_iff atLeastLessThan_iff)
      then have x: "z = ?i * 2 ^ 20 + x" "?p \<le> x" "x < ?p + n" unfolding x_def by linarith+
      then have "\<not> zbit ?ws x" "x < 2 ^ 20" using nn(3) order.strict_trans2 [OF x(3) nn(2)] by blast+
      then show False using zb [of x] \<open>z \<in> zone_set s\<close> unfolding x(1) by blast
    qed
    have run: "zones_loop E index zone b remaining s =
        (if u then Some (1, s2) else zones_loop E (index + 1) 0 0 left (pfsBitmapFree (?i + 1) s2))"
      using False s1(1) m by (subst zones_loop.simps) (simp add: s2_def Let_def)
    show ?thesis
    proof (cases u)
      case True
      then have "?p + n < 2 ^ 20" "left \<noteq> 0" "zbit ?ws (?p + n)" using n by (simp_all add: marked_def)
      then have "?i * 2 ^ 20 + ?p + n \<in> zone_set s" "n < unat remaining" using zb [of "?p + n"] nn(1) unfolding add.assoc by (blast, simp add: unat_gt_0)
      then have "zones_met (?i * 2 ^ 20 + ?p) n (unat remaining) s s2" using st free by (simp add: zones_met_def)
      moreover have "n \<noteq> unat remaining" using \<open>n < unat remaining\<close> by simp
      ultimately show ?thesis using True unfolding run by auto
    next
      case more: False
      let ?s3 = "pfsBitmapFree (?i + 1) s2"
      have z3: "resident ?s3 = resident s2 \<and> zone_set ?s3 = zone_set s2" by (rule same_bits_zones) (rule same_bits_free, simp)
      have met: "zones_met (?i * 2 ^ 20 + ?p) n n s ?s3" using st z3 free by (simp add: zones_met_def)
      show ?thesis
      proof (cases "left = 0")
        case True
        then show ?thesis using met nn(1) more unfolding run by (subst zones_loop.simps) auto
      next
        case False
        then have e: "?p + n = 2 ^ 20" using n more by (simp add: marked_def)
        have i1: "unat (index + 1) = ?i + 1" using i by (simp add: unat_word_ariths)
        have mm: "m = 4 - (?i + 1)" using Suc.hyps(2) by linarith
        have p1: "?i * 2 ^ 20 + ?p + n = unat (index + 1) * 2 ^ 20 + (32 * 0 + 0)" using e unfolding i1 by simp
        have "unat (index + 1) * 2 ^ 20 + (32 * 0 + 0) + unat left \<le> 2 ^ 22" using Suc.prems(5) nn(1) unfolding p1 [symmetric] by simp
        then obtain k t where t: "zones_loop E (index + 1) 0 0 left ?s3 = Some (if k = unat left then 0 else 1, t)"
          "zones_met (?i * 2 ^ 20 + ?p + n) k (unat left) ?s3 t"
          using Suc.hyps(1) [of "index + 1" ?s3 0 0 left] mm i z3 st unfolding p1 i1 by auto
        then show ?thesis using zones_met_next [OF met t(2)] nn(1) more unfolding run by (intro exI [of _ "n + k"] exI [of _ t]) auto
      qed
    qed
  qed
qed

lemma zone_parts: "x div 1048576 * 1048576 + (32 * (x div 32 mod 32768) + x mod 32) = (x :: nat)"
proof -
  have "x div 32 div 32768 = x div 1048576" by (simp flip: div_mult2_eq)
  then have "x div 1048576 * 32768 + x div 32 mod 32768 = x div 32" using div_mult_mod_eq [of "x div 32" 32768] by simp
  moreover have "32 * (x div 32) + x mod 32 = x" by simp
  ultimately show ?thesis by linarith
qed

text \<open>
  C30. \<open>fsckCheckZones\<close> refines the marking of a set: with the bitmap in its buffers, checking a
  segment of \<open>sz\<close> zones from \<open>number\<close> on adds its zones to the set of the zones met, up to the
  first one that is in the set already; it answers 1 (an overlap) when there is such a zone and 0
  when the segment is all new, and never an error.
\<close>

theorem check_zones_refines:
  assumes "resident s" "unat number + unat sz \<le> 2 ^ 22"
  shows "\<exists>n t. fsckCheckZones E number sz s = Some (if {unat number..<unat number + unat sz} \<inter> zone_set s = {} then 0 else 1, t) \<and>
    zones_met (unat number) n (unat sz) s t"
proof -
  have idx: "unat (drop_bit 20 number) = unat number div 2 ^ 20" unfolding unat_drop_bit_eq by (rule drop_bit_eq_div)
  have "drop_bit 5 number AND 0x7FFF = take_bit 15 (drop_bit 5 number)" "number AND 31 = take_bit 5 number"
    by (simp_all add: take_bit_eq_mask mask_eq_exp_minus_1)
  then have zb: "unat (drop_bit 5 number AND 0x7FFF) = unat number div 32 mod 2 ^ 15" "unat (number AND 31) = unat number mod 32"
    by (simp_all only: unsigned_take_bit_eq unat_drop_bit_eq) (simp_all add: drop_bit_eq_div take_bit_eq_mod)
  have p: "unat number div 2 ^ 20 * 2 ^ 20 + (32 * (unat number div 32 mod 2 ^ 15) + unat number mod 32) = unat number"
    using zone_parts [of "unat number"] by simp
  have "x mod 32 < 32" "x div 32 mod 32768 < 32768" for x :: nat by simp_all
  from this [of "unat number"] have lim: "unat number mod 32 \<le> 32" "32 * (unat number div 32 mod 2 ^ 15) + unat number mod 32 \<le> 2 ^ 20"
    "unat number div 2 ^ 20 \<le> 4"
    using assms(2) div_le_mono [of "unat number" "2 ^ 22" "2 ^ 20"] by simp_all
  have "\<exists>n t. fsckCheckZones E number sz s = Some (if n = unat sz then 0 else 1, t) \<and> zones_met (unat number) n (unat sz) s t"
    unfolding fsckCheckZones_def
    using zones_loop_run [OF assms(1), where b = "unat (number AND 31)" and zone = "unat (drop_bit 5 number AND 0x7FFF)" and index = "drop_bit 20 number"
        and remaining = sz and E = E, unfolded idx zb p, OF lim assms(2)] by (simp only: zb)
  then obtain n t where t: "fsckCheckZones E number sz s = Some (if n = unat sz then 0 else 1, t)" "zones_met (unat number) n (unat sz) s t" by blast
  have "n = unat sz \<longleftrightarrow> {unat number..<unat number + unat sz} \<inter> zone_set s = {}"
  proof
    assume e: "{unat number..<unat number + unat sz} \<inter> zone_set s = {}"
    show "n = unat sz"
    proof (rule ccontr)
      assume "n \<noteq> unat sz"
      then have "n < unat sz" "unat number + n \<in> zone_set s" using t(2) by (auto simp: zones_met_def)
      then have "unat number + n \<in> {unat number..<unat number + unat sz} \<inter> zone_set s" by simp
      then show False using e by blast
    qed
  qed (use t(2) in \<open>simp add: zones_met_def\<close>)
  then show ?thesis using t by auto
qed

definition blank_fsck :: "sim_disk fsck_state" where
  "blank_fsck = pfs_state.extend demo_pfs_state
     (fsck_state.fields (\<lambda>i. (zero_bitmap (replicate 0x8000 0))\<lparr>m_index := of_nat i - 1\<rparr>) [] 
       \<lparr>zoneUsed = 0, inodeBlockCount = 0, files = 0, directories = 0, PWDLevel = 0, errorCount = 0, fixedErrorCount = 0\<rparr>
       False False True True [] [] 3)"

theorem check_zones_refines_witness:
  "\<forall>E. \<exists>t. fsckCheckZones E 5 3 blank_fsck = Some (0, t) \<and> zone_set t = {5, 6, 7}"
proof
  fix E :: "sim_disk fsck_env"
  have b: "m_words (pfsBitmapData blank_fsck i) = replicate 0x8000 0" "m_index (pfsBitmapData blank_fsck i) = of_nat i - 1" for i
    by (simp_all add: blank_fsck_def pfs_state.defs fsck_state.defs zero_bitmap_def)
  have r: "resident blank_fsck" unfolding resident_def b by (simp add: of_nat_diff)
  have "zone_set blank_fsck = {}" unfolding zone_set_def b by (auto simp: zbit_def nth_replicate less_mult_imp_div_less)
  moreover have "{5..<8} = {5, 6, 7 :: nat}" by auto
  ultimately show "\<exists>t. fsckCheckZones E 5 3 blank_fsck = Some (0, t) \<and> zone_set t = {5, 6, 7}"
    using check_zones_refines [OF r, of 5 3 E] by (auto simp: zones_met_def)
qed

end
