(* ===== verification/Fssk.thy ===== *)
theory Fssk
  imports PfsSuper
begin

text \<open>
  Emptying sub-partitions, \<open>fssk/fssk.c\<close>: how many of the last sub-partitions can go, and the
  move of every file that has zones there. The messages have no model. \<open>stop_set\<close> says at which
  states of the device another thread has set the stop flag, \<open>unset_count\<close> is the value of the
  field that \<open>fsskCreateIndirectSeg\<close> does not set, \<open>CheckThreadStack\<close> and \<open>del_sub\<close> (the ioctl2
  call that removes the last sub-partition) are the kernel's.
\<close>

subsection \<open>State\<close>

text \<open>\<open>thread_dentry\<close> is the local variable \<open>dentry\<close> of \<open>FsskThread\<close>, of which the place of an inode is used.\<close>

record 'd fssk_env =
  sk_blk :: "'d blk_dev"
  stop_set :: "'d \<Rightarrow> bool"
  unset_count :: "'d \<Rightarrow> u16"
  CheckThreadStack :: "'d \<Rightarrow> int"
  del_sub :: "'d \<Rightarrow> 'd"
  sys_time :: "'d \<Rightarrow> (u32 \<times> u32) \<times> 'd"
  sys_usec :: "u32 \<times> u32 \<Rightarrow> u32 \<times> u32"

record fsskStatus =
  zones_used :: u32
  inode_blocks :: u32
  file_count :: u32
  dir_count :: u32
  path_level :: u32
  has_error :: u32
  partsDeleted :: u32

record 'd fssk_state = "'d pfs_state" +
  fsskStatusData :: fsskStatus
  minFree :: u32
  fssk_stop :: bool
  fssk_buffer :: "u32 list"
  fssk_fd :: int
  thread_dentry :: pfs_blockinfo

definition with_data :: "(fsskStatus \<Rightarrow> fsskStatus) \<Rightarrow> ('d, 'z) fssk_state_scheme \<Rightarrow> ('d, 'z) fssk_state_scheme" where
  "with_data f s = s\<lparr>fsskStatusData := f (fsskStatusData s)\<rparr>"

definition fssk_stopped :: "'d fssk_env \<Rightarrow> ('d, 'z) fssk_state_scheme \<Rightarrow> bool" where
  "fssk_stopped E s \<longleftrightarrow> fssk_stop s \<or> stop_set E (pworld s)"

definition deleted :: "('d, 'z) fssk_state_scheme \<Rightarrow> u32" where
  "deleted s = partsDeleted (fsskStatusData s)"

text \<open>A transfer of \<open>n\<close> sectors between the device and the buffer.\<close>

definition fssk_read :: "'d fssk_env \<Rightarrow> u32 \<Rightarrow> u32 \<Rightarrow> u32 \<Rightarrow> ('d, 'z) fssk_state_scheme \<Rightarrow> int \<times> ('d, 'z) fssk_state_scheme" where
  "fssk_read E sub sector n s =
     (let (r, ws, w) = bd_read (sk_blk E) sub sector n (pworld s) in (r, s\<lparr>pworld := w, fssk_buffer := overlay ws (fssk_buffer s)\<rparr>))"

definition fssk_write :: "'d fssk_env \<Rightarrow> u32 \<Rightarrow> u32 \<Rightarrow> u32 \<Rightarrow> ('d, 'z) fssk_state_scheme \<Rightarrow> int \<times> ('d, 'z) fssk_state_scheme" where
  "fssk_write E sub sector n s =
     (let (r, w) = bd_write (sk_blk E) sub sector n (take (128 * unat n) (fssk_buffer s)) (pworld s) in (r, s\<lparr>pworld := w\<rparr>))"

subsection \<open>What can be removed\<close>

text \<open>Whether a segment of the inode lies in a sub-partition that is to go; the result and the entry that is released.\<close>

partial_function (option) has_space_loop ::
    "'d fssk_env \<Rightarrow> nat \<Rightarrow> nat \<Rightarrow> u32 \<Rightarrow> int \<Rightarrow> ('d, 'z) fssk_state_scheme \<Rightarrow> ((int \<times> nat option) \<times> ('d, 'z) fssk_state_scheme) option" where
  "has_space_loop E clink cinode i result s =
     (if i < inode_number_data (cdata s clink)
      then do {
        ((c, e), s1) \<leftarrow> (if i \<noteq> 0 \<and> pfsFixIndex i = 0 then pfsBlockGetNextSegment (sk_blk E) cinode s else Some ((Some cinode, result), s));
        case c of None \<Rightarrow> Some ((e, None), s1)
        | Some k \<Rightarrow>
            if num_subs (pmount s1) - deleted s1 < ucast (bi_subpart (inode_data (cdata s1 k) (unat (pfsFixIndex i))))
            then Some ((1, Some k), s1)
            else has_space_loop E clink k (i + 1) e s1
      }
      else Some ((result, Some cinode), s))"

definition fsskHasSpaceToFree :: "'d fssk_env \<Rightarrow> nat \<Rightarrow> ('d, 'z) fssk_state_scheme \<Rightarrow> (int \<times> ('d, 'z) fssk_state_scheme) option" where
  "fsskHasSpaceToFree E clink s = do {
     ((r, c), s1) \<leftarrow> has_space_loop E clink clink 0 0 (pfsCacheUsedAdd clink s);
     let s2 = with_data (\<lambda>t. t\<lparr>inode_blocks := inode_blocks t + inode_number_blocks (cdata s1 clink)\<rparr>) s1;
     Some (r, pfsCacheFree c s2)
   }"

text \<open>
  The loop over the sub-partitions from the last one down, with the free zones and the zones
  that are left. An index past the table and a division by zero are None.
\<close>

fun space_loop :: "'d blk_dev \<Rightarrow> pfs_mount \<Rightarrow> u32 \<Rightarrow> nat \<Rightarrow> u32 \<Rightarrow> u32 \<Rightarrow> u32 \<Rightarrow> u32 option" where
  "space_loop D m min_free 0 parts zfr ztotal = Some parts"
| "space_loop D m min_free (Suc i) parts zfr ztotal =
     (let zones = drop_bit (unat (sector_scale m)) (bd_size D (of_nat (Suc i))); left = ztotal - zones in
      if length (free_zone m) \<le> Suc i then None
      else (let fz = free_zone m ! Suc i; zfr1 = zfr - fz; zfr2 = zfr1 - zones in
            if zfr < fz \<or> zfr1 < zones then Some parts
            else if left = 0 then None
            else if ucast (((ucast zfr2 :: u64) * 100) div ucast left) < min_free then Some parts
            else space_loop D m min_free i (parts + 1) zfr2 left))"

definition fsskCalculateSpaceToRemove :: "'d fssk_env \<Rightarrow> ('d, 'z) fssk_state_scheme \<Rightarrow> u32 option" where
  "fsskCalculateSpaceToRemove E s =
     (let m = pmount s in space_loop (sk_blk E) m (minFree s) (unat (num_subs m)) 0 (zfree m) (total_zones m))"

text \<open>The condition of the loop does not change in it; only an access past the table ends it (None).\<close>

partial_function (option) last_sub_loop :: "'d blk_dev \<Rightarrow> pfs_mount \<Rightarrow> u32 \<Rightarrow> nat \<Rightarrow> u32 \<Rightarrow> u16 \<Rightarrow> u16 option" where
  "last_sub_loop D m del sub best result =
     (if num_subs m - (del - 1) \<noteq> 0
      then do {
        v \<leftarrow> sub_percent D m sub;
        last_sub_loop D m del (sub + 1) (if best < v then v else best) (if best < v then of_nat sub else result)
      }
      else Some result)"

definition fsskCalcLastSub :: "'d fssk_env \<Rightarrow> ('d, 'z) fssk_state_scheme \<Rightarrow> u16 option" where
  "fsskCalcLastSub E s = last_sub_loop (sk_blk E) (pmount s) (deleted s) 0 0 0"

subsection \<open>Moving a file\<close>

text \<open>The zones with the offsets in the list are copied to \<open>b1\<close> from \<open>b2\<close>.\<close>

fun copy_zones :: "'d fssk_env \<Rightarrow> pfs_blockinfo \<Rightarrow> pfs_blockinfo \<Rightarrow> nat list \<Rightarrow> ('d, 'z) fssk_state_scheme \<Rightarrow> int \<times> ('d, 'z) fssk_state_scheme" where
  "copy_zones E b1 b2 [] s = (0, s)"
| "copy_zones E b1 b2 (i # js) s =
     (let sc = unat (sector_scale (pmount s));
          (r, s1) = fssk_read E (ucast (bi_subpart b2)) (push_bit sc (bi_number b2 + of_nat i)) (push_bit sc 1) s in
      if r < 0 then (r, s1)
      else (let (w, s2) = fssk_write E (ucast (bi_subpart b1)) (push_bit sc (bi_number b1 + of_nat i)) (push_bit sc 1) s1
            in if w < 0 then (w, s2) else copy_zones E b1 b2 js s2))"

definition fsskCopyBlock :: "'d fssk_env \<Rightarrow> pfs_blockinfo \<Rightarrow> pfs_blockinfo \<Rightarrow> nat \<Rightarrow> ('d, 'z) fssk_state_scheme \<Rightarrow> int \<times> ('d, 'z) fssk_state_scheme" where
  "fsskCopyBlock E block1 block2 n s = copy_zones E block1 block2 [0..<n] s"

definition fsskCreateIndirectSeg ::
    "'d fssk_env \<Rightarrow> nat \<Rightarrow> nat \<Rightarrow> pfs_blockinfo \<Rightarrow> ('d, 'z) fssk_state_scheme \<Rightarrow> ((nat option \<times> int) \<times> ('d, 'z) fssk_state_scheme) option" where
  "fsskCreateIndirectSeg E clink clink2 dat s =
     (if pfsCacheIsFull s then Some ((None, - ENOMEM), s)
      else do {
        let b = \<lparr>bi_number = bi_number dat + ucast (bi_count dat), bi_subpart = bi_subpart dat, bi_count = unset_count E (pworld s)\<rparr>;
        ((r, bi), s1) \<leftarrow> pfsBitmapSearchFreeZone (sk_blk E) b (inode_number_blocks (cdata s clink)) s;
        if r < 0 then Some ((None, r), s1)
        else do {
          ((c, e), s2) \<leftarrow> pfsCacheGetData (sk_blk E) (bi_subpart bi) (inode_blk (pmount s1) (bi_number bi))
               (PFS_CACHE_FLAG_SEGI OR PFS_CACHE_FLAG_NOLOAD) s1;
          k \<leftarrow> c;
          Some ((Some k, e), pfsCacheFree (Some clink2) (link_descriptor clink clink2 k bi s2))
        }
      })"

text \<open>The outer loop of the search runs while the unsigned \<open>num >= 0\<close>; it stays in the sub-partitions that are kept.\<close>

partial_function (option) search_kept ::
    "'d blk_dev \<Rightarrow> u32 \<Rightarrow> nat \<Rightarrow> pfs_blockinfo \<Rightarrow> ('d, 'z) pfs_state_scheme \<Rightarrow> ((int \<times> pfs_blockinfo) \<times> ('d, 'z) pfs_state_scheme) option" where
  "search_kept D del count bi s = do {
     ((ok, bi1), s1) \<leftarrow> try_zones D count bi s;
     if ok then Some ((0, bi1), s1)
     else let sub = bi_subpart bi1 + 1
          in search_kept D del count (bi1\<lparr>bi_number := 0, bi_subpart := (if num_subs (pmount s1) - (del - 1) = ucast sub then 0 else sub)\<rparr>) s1
   }"

definition fsckBitmapSearchFreeZoneSpecial ::
    "'d blk_dev \<Rightarrow> pfs_blockinfo \<Rightarrow> u32 \<Rightarrow> u32 \<Rightarrow> ('d, 'z) pfs_state_scheme \<Rightarrow> ((int \<times> pfs_blockinfo) \<times> ('d, 'z) pfs_state_scheme) option" where
  "fsckBitmapSearchFreeZoneSpecial D bi max_count del s =
     (let bi1 = (if ucast (bi_subpart bi) < num_subs (pmount s) - (del - 1) then bi\<lparr>bi_subpart := 0\<rparr> else bi)
      in search_kept D del (unat (search_count bi1 max_count)) bi1 s)"

text \<open>
  The zones of \<open>block2\<close> that are left go to new segments of the copy. \<open>clink3\<close> is the entry with
  the last segment descriptor of the copy; it is NULL after a descriptor could not be made.
\<close>

partial_function (option) move_rest ::
    "'d fssk_env \<Rightarrow> nat \<Rightarrow> nat \<Rightarrow> nat \<Rightarrow> pfs_blockinfo \<Rightarrow> int \<Rightarrow> ('d, 'z) fssk_state_scheme \<Rightarrow> ((int \<times> nat option) \<times> ('d, 'z) fssk_state_scheme) option" where
  "move_rest E start clink clink3 block2 result s =
     (if bi_count block2 = 0 then Some ((result, Some clink3), s)
      else do {
        ((c, e), s1) \<leftarrow> (if pfsFixIndex (inode_number_data (cdata s clink)) = 0
           then fsskCreateIndirectSeg E clink clink3 (inode_data (cdata s clink3) 0) s else Some ((Some clink3, result), s));
        case c of None \<Rightarrow> Some ((e, None), s1)
        | Some k \<Rightarrow> do {
            let d = inode_data (cdata s1 k) 0;
            ((r, b), s2) \<leftarrow> fsckBitmapSearchFreeZoneSpecial (sk_blk E)
                \<lparr>bi_number = bi_number d + ucast (bi_count d), bi_subpart = bi_subpart d, bi_count = bi_count block2\<rparr>
                (inode_number_blocks (cdata s1 start)) (deleted s1) s1;
            if r < 0 then Some ((r, Some k), s2)
            else do {
              let s3 = set_data k (put_data (unat (pfsFixIndex (inode_number_data (cdata s2 start)))) b) s2;
              let s4 = set_data clink (\<lambda>ws. ws[249 := ws ! 249 + 1]) s3;
              let (r1, s5) = fsskCopyBlock E b block2 (unat (bi_count b)) s4;
              if r1 < 0 then Some ((r1, Some k), s5)
              else move_rest E start clink k
                     (block2\<lparr>bi_number := bi_number block2 + ucast (bi_count b), bi_count := bi_count block2 - bi_count b - 1\<rparr>) r1
                     (set_data clink (\<lambda>ws. ws[248 := ws ! 248 + ucast (bi_count b)]) s5)
            }
          }
      })"

text \<open>One segment, \<open>block2\<close>: as much as possible is added to the first segment of the descriptor.\<close>

definition move_segment ::
    "'d fssk_env \<Rightarrow> nat \<Rightarrow> nat \<Rightarrow> nat \<Rightarrow> pfs_blockinfo \<Rightarrow> int \<Rightarrow> ('d, 'z) fssk_state_scheme \<Rightarrow> ((int \<times> nat option) \<times> ('d, 'z) fssk_state_scheme) option" where
  "move_segment E start clink clink3 block2 result s = do {
     (v, s1) \<leftarrow> (if pfsFixIndex (inode_number_data (cdata s clink) - 1) \<noteq> 0
        then pfsBitmapAllocateAdditionalZones (sk_blk E) (\<lambda>t. inode_data (cdata t clink3) 0) (ucast (bi_count block2)) s else Some (0, s));
     if v = 0 then move_rest E start clink clink3 block2 result s1
     else do {
       let d = inode_data (cdata s1 clink3) 0;
       let b = \<lparr>bi_number = bi_number d + ucast (bi_count d), bi_subpart = bi_subpart d, bi_count = 1\<rparr>;
       let s2 = set_data clink3 (put_data 0 (d\<lparr>bi_count := bi_count d + of_nat v\<rparr>)) s1;
       let (r, s3) = fsskCopyBlock E b block2 v s2;
       if r < 0 then Some ((r, Some clink3), s3)
       else move_rest E start clink clink3 (block2\<lparr>bi_number := bi_number block2 + of_nat v, bi_count := bi_count block2 - of_nat v\<rparr>) r
              (set_data clink (\<lambda>ws. ws[248 := ws ! 248 + of_nat v]) s3)
     }
   }"

text \<open>The segments of \<open>start\<close> from \<open>i\<close>; \<open>clink2\<close> is the entry with its descriptor. The result with both entries.\<close>

partial_function (option) move_loop ::
    "'d fssk_env \<Rightarrow> nat \<Rightarrow> nat \<Rightarrow> u32 \<Rightarrow> nat \<Rightarrow> nat \<Rightarrow> int \<Rightarrow> ('d, 'z) fssk_state_scheme \<Rightarrow>
      ((int \<times> nat option \<times> nat option) \<times> ('d, 'z) fssk_state_scheme) option" where
  "move_loop E start clink i clink2 clink3 result s =
     (if i < inode_number_data (cdata s start) \<and> result = 0
      then if pfsFixIndex i = 0
           then do {
             ((c, e), s1) \<leftarrow> pfsBlockGetNextSegment (sk_blk E) clink2 s;
             case c of None \<Rightarrow> Some ((e, None, Some clink3), s1) | Some k \<Rightarrow> move_loop E start clink (i + 1) k clink3 e s1
           }
           else do {
             ((r, c), s1) \<leftarrow> move_segment E start clink clink3 (inode_data (cdata s clink2) (unat (pfsFixIndex i))) result s;
             case c of None \<Rightarrow> Some ((r, Some clink2, None), s1) | Some k \<Rightarrow> move_loop E start clink (i + 1) clink2 k r s1
           }
      else Some ((result, Some clink2, Some clink3), s))"

definition copy_inode :: "pfs_blockinfo \<Rightarrow> u32 list \<Rightarrow> u32 list" where
  "copy_inode b ws = (put_data 0 b (set_blockinfo 6 b (set_blockinfo 2 b ws)))[250 := 1, 249 := 1, 248 := 1]"

text \<open>The end of the move; \<open>put\<close> stores the place of the copy in the directory entry.\<close>

definition move_finish ::
    "'d fssk_env \<Rightarrow> (pfs_blockinfo \<Rightarrow> ('d, 'z) fssk_state_scheme \<Rightarrow> ('d, 'z) fssk_state_scheme) \<Rightarrow> nat \<Rightarrow> nat \<Rightarrow> int \<Rightarrow> nat option \<Rightarrow>
      ('d, 'z) fssk_state_scheme \<Rightarrow> ('d, 'z) fssk_state_scheme option" where
  "move_finish E put start clink result clink3 s =
     (if result = 0
      then do {
        k \<leftarrow> clink3;
        let s1 = pfs_mark_dirty clink (pfs_mark_dirty k (put (inode_block (cdata s clink)) s));
        pfsBitmapFreeInodeBlocks (sk_blk E) start (pfsCacheFree (Some clink) (pfsCacheFree (Some k) s1))
      }
      else map_option (\<lambda>s1. pfsCacheFree (Some clink) (pfsCacheFree clink3 s1)) (pfsBitmapFreeInodeBlocks (sk_blk E) clink s))"

text \<open>The zone for the copy's inode.\<close>

definition move_target :: "'d fssk_env \<Rightarrow> nat \<Rightarrow> nat \<Rightarrow> ('d, 'z) fssk_state_scheme \<Rightarrow> ((int \<times> pfs_blockinfo) \<times> ('d, 'z) fssk_state_scheme) option" where
  "move_target E dest start s = do {
     b \<leftarrow> (if is_format (inode_mode (cdata s start)) FIO_S_IFDIR
           then map_option (\<lambda>sub. \<lparr>bi_number = 0, bi_subpart = sub, bi_count = 1\<rparr>) (fsskCalcLastSub E s)
           else Some ((inode_block (cdata s dest))\<lparr>bi_count := 1\<rparr>));
     fsckBitmapSearchFreeZoneSpecial (sk_blk E) b (inode_number_blocks (cdata s start)) (deleted s) s
   }"

definition fsskMoveInode ::
    "'d fssk_env \<Rightarrow> (pfs_blockinfo \<Rightarrow> ('d, 'z) fssk_state_scheme \<Rightarrow> ('d, 'z) fssk_state_scheme) \<Rightarrow> nat \<Rightarrow> nat \<Rightarrow>
      ('d, 'z) fssk_state_scheme \<Rightarrow> (int \<times> ('d, 'z) fssk_state_scheme) option" where
  "fsskMoveInode E put dest start s = do {
     ((r, block), s1) \<leftarrow> move_target E dest start s;
     if r < 0 then Some (r, s1)
     else do {
       let (r1, s2) = fsskCopyBlock E block (inode_block (cdata s1 start)) 1 s1;
       ((c, e), s3) \<leftarrow> (if r1 < 0 then Some ((None, r1), s2)
          else pfsCacheGetData (sk_blk E) (bi_subpart block) (inode_blk (pmount s2) (bi_number block))
                 (PFS_CACHE_FLAG_SEGD OR PFS_CACHE_FLAG_NOLOAD) s2);
       case c of None \<Rightarrow> map_option (Pair e) (pfsBitmapFreeBlockSegment (sk_blk E) (\<lambda>_. block) s3)
       | Some clink \<Rightarrow> do {
           let s4 = set_data clink (\<lambda>_. copy_inode block (cdata s3 start)) s3;
           ((r5, c2, c3), s5) \<leftarrow> move_loop E start clink 1 start clink e (pfsCacheUsedAdd clink (pfsCacheUsedAdd start s4));
           map_option (Pair r5) (move_finish E put start clink r5 c3 (pfsCacheFree c2 s5))
         }
     }
   }"

end
