(* ===== verification/FsskMain.thy ===== *)
theory FsskMain
  imports Fssk
begin

text \<open>
  The rest of \<open>fssk/fssk.c\<close>: the walk over the directories, the thread and the calls of the driver.
  Kernel calls (threads, event flags, drivers) are parameters with their results.
\<close>

subsection \<open>Directories\<close>

definition FSSK_MAX_PATH_LEVELS :: u32 where "FSSK_MAX_PATH_LEVELS = 64"

text \<open>The entries "." and "..", which must name the inode \<open>target\<close>.\<close>

definition fix_link_entry :: "nat \<Rightarrow> nat \<Rightarrow> nat \<Rightarrow> ('d, 'z) fssk_state_scheme \<Rightarrow> ('d, 'z) fssk_state_scheme" where
  "fix_link_entry target dc d s =
     (let ws = cdata s dc; b = inode_block (cdata s target) in
      if q_sub (pfsCacheBuf s target) \<noteq> ucast (d_sub ws d) \<or> bi_number b \<noteq> d_inode ws d
      then pfs_mark_dirty dc (set_data dc (\<lambda>w. put_dentry d (bi_number b) (ucast (bi_subpart b)) (d_pLen w d) (d_aLen w d) w) s)
      else s)"

definition fsskCheckSelfEntry :: "nat \<Rightarrow> nat \<Rightarrow> nat \<Rightarrow> ('d, 'z) fssk_state_scheme \<Rightarrow> ('d, 'z) fssk_state_scheme" where
  "fsskCheckSelfEntry self dc d s = fix_link_entry self dc d s"

definition fsskCheckParentEntry :: "nat \<Rightarrow> nat \<Rightarrow> nat \<Rightarrow> ('d, 'z) fssk_state_scheme \<Rightarrow> ('d, 'z) fssk_state_scheme" where
  "fsskCheckParentEntry parent dc d s = fix_link_entry parent dc d s"

text \<open>The entry at offset \<open>d\<close> of the chunk in \<open>dc\<close> is made to name the moved inode.\<close>

definition put_place :: "nat \<Rightarrow> nat \<Rightarrow> pfs_blockinfo \<Rightarrow> ('d, 'z) fssk_state_scheme \<Rightarrow> ('d, 'z) fssk_state_scheme" where
  "put_place dc d b = set_data dc (\<lambda>w. put_dentry d (bi_number b) (ucast (bi_subpart b)) (d_pLen w d) (d_aLen w d) w)"

text \<open>The move of a file; the entry that holds it is read again with the arguments exchanged.\<close>

definition move_file ::
    "'d fssk_env \<Rightarrow> nat \<Rightarrow> nat \<Rightarrow> nat \<Rightarrow> nat \<Rightarrow> ('d, 'z) fssk_state_scheme \<Rightarrow> ((int \<times> nat option) \<times> ('d, 'z) fssk_state_scheme) option" where
  "move_file E dir file dc d s = do {
     (r, s1) \<leftarrow> fsskHasSpaceToFree E file s;
     if r \<le> 0 then Some ((r, Some file), s1)
     else do {
       (r2, s2) \<leftarrow> fsskMoveInode E (put_place dc d) dir file s1;
       if r2 \<noteq> 0 then Some ((r2, Some file), s2)
       else do {
         let s3 = pfsCacheFree (Some file) (pfs_mark_dirty dc s2);
         ((c, e), s4) \<leftarrow> pfsInodeGetData (sk_blk E) (ucast (d_inode (cdata s3 dc) d)) (ucast (d_sub (cdata s3 dc) d)) s3;
         Some ((e, c), s4)
       }
     }
   }"

definition with_path_level :: "(u32 \<Rightarrow> u32) \<Rightarrow> ('d, 'z) fssk_state_scheme \<Rightarrow> ('d, 'z) fssk_state_scheme" where
  "with_path_level f = with_data (\<lambda>t. t\<lparr>path_level := f (path_level t)\<rparr>)"

text \<open>\<open>tree\<close> checks the directory \<open>file\<close> in the directory \<open>dir\<close>. The entry of the inode is not released.\<close>

definition fssk_file_with ::
    "'d fssk_env \<Rightarrow> (nat \<Rightarrow> nat \<Rightarrow> ('d, 'z) fssk_state_scheme \<Rightarrow> (int \<times> ('d, 'z) fssk_state_scheme) option) \<Rightarrow>
      nat \<Rightarrow> nat \<Rightarrow> nat \<Rightarrow> ('d, 'z) fssk_state_scheme \<Rightarrow> (int \<times> ('d, 'z) fssk_state_scheme) option" where
  "fssk_file_with E tree dir dc d s = do {
     ((c, e), s1) \<leftarrow> pfsInodeGetData (sk_blk E) (ucast (d_sub (cdata s dc) d)) (d_inode (cdata s dc) d) s;
     case c of None \<Rightarrow> Some (e, s1)
     | Some file \<Rightarrow>
         if path_level (fsskStatusData s1) < FSSK_MAX_PATH_LEVELS - 1
         then do {
           ((r, f), s2) \<leftarrow> move_file E dir file dc d (with_path_level (\<lambda>n. n + 1) s1);
           (r3, s3) \<leftarrow>
             (if r \<noteq> 0 then Some (r, s2)
              else if is_format (d_aLen (cdata s2 dc) d) FIO_S_IFDIR
              then do { k \<leftarrow> f; tree dir k (with_data (\<lambda>t. t\<lparr>dir_count := dir_count t + 1\<rparr>) s2) }
              else Some (r, with_data (\<lambda>t. t\<lparr>file_count := file_count t + 1\<rparr>) s2));
           Some (r3, with_path_level (\<lambda>n. n - 1) s3)
         }
         else Some (- ENOMEM, s1)
   }"

text \<open>The entries of a sector from \<open>d\<close> to \<open>d2\<close>: whether the check ends, its result, the offset in the directory and in the chunk.\<close>

partial_function (option) fssk_sector ::
    "'d fssk_env \<Rightarrow> (nat \<Rightarrow> nat \<Rightarrow> nat \<Rightarrow> ('d, 'z) fssk_state_scheme \<Rightarrow> (int \<times> ('d, 'z) fssk_state_scheme) option) \<Rightarrow>
      nat \<Rightarrow> nat \<Rightarrow> nat \<Rightarrow> nat \<Rightarrow> nat \<Rightarrow> u32 \<Rightarrow> int \<Rightarrow> ('d, 'z) fssk_state_scheme \<Rightarrow>
      ((bool \<times> int \<times> u32 \<times> nat) \<times> ('d, 'z) fssk_state_scheme) option" where
  "fssk_sector E file_check parent dir dc d d2 off result s =
     (if d < d2
      then let ws = cdata s dc; n = alloc_len ws d in
           if fssk_stopped E s then Some ((True, result, off, d), s)
           else if 1024 < d + 8 then None
           else if n AND 3 \<noteq> 0 \<or> n < 4 * ((unat (d_pLen ws d) + 11) div 4) \<or> d2 < d + n then Some ((True, - EINVAL, off, d), s)
           else do {
             ((fin, r), s1) \<leftarrow>
               (if d_inode ws d = 0 then Some ((False, result), s)
                else if d_pLen ws d = 1 \<and> data_byte ws (d + 8) = char_dot then Some ((False, result), fsskCheckSelfEntry dir dc d s)
                else if d_pLen ws d = 2 \<and> data_byte ws (d + 8) = char_dot then Some ((False, result), fsskCheckParentEntry parent dc d s)
                else map_option (\<lambda>(r, t). ((r < 0, r), t)) (file_check dir dc d s));
             if fin then Some ((True, r, off, d), s1)
             else fssk_sector E file_check parent dir dc (d + n) d2 (off + of_nat n) r s1
           }
      else Some ((False, result, off, d), s))"

text \<open>
  The loop over the chunks, at offset \<open>d\<close> of the one in \<open>dc\<close>. Each round scans the entries from
  the start of the chunk to the end of its first sector.
\<close>

partial_function (option) fssk_chunks ::
    "'d fssk_env \<Rightarrow> (nat \<Rightarrow> nat \<Rightarrow> nat \<Rightarrow> ('d, 'z) fssk_state_scheme \<Rightarrow> (int \<times> ('d, 'z) fssk_state_scheme) option) \<Rightarrow>
      nat \<Rightarrow> nat \<Rightarrow> pfs_blockpos \<Rightarrow> nat \<Rightarrow> nat \<Rightarrow> u32 \<Rightarrow> int \<Rightarrow> ('d, 'z) fssk_state_scheme \<Rightarrow> (int \<times> ('d, 'z) fssk_state_scheme) option" where
  "fssk_chunks E file_check parent dir bp dc d off result s =
     (if ucast off < inode_size (cdata s dir)
      then do {
        ((c, r, bp1), s1) \<leftarrow>
          (if 1024 \<le> d
           then do {
             ((r, bp1), s1) \<leftarrow> pfsInodeSync (sk_blk E) bp 1024 (inode_number_data (cdata s dir)) (pfsCacheFree (Some dc) s);
             if r \<noteq> 0 then Some ((Inl (Some dc), r, bp1), s1)
             else map_option (\<lambda>((c, e), s2). ((case c of None \<Rightarrow> Inl None | Some i \<Rightarrow> Inr i, e, bp1), s2)) (pfsGetDentriesChunk (sk_blk E) bp1 s1)
           }
           else Some ((Inr dc, result, bp), s));
        case c of Inl i \<Rightarrow> Some (r, pfsCacheFree (bp_inode bp1) (pfsCacheFree i s1))
        | Inr i \<Rightarrow> do {
            ((fin, r2, off2, d2), s2) \<leftarrow> fssk_sector E file_check parent dir i 0 512 off r s1;
            if fin \<or> fssk_stopped E s2 then Some (r2, pfsCacheFree (bp_inode bp1) (pfsCacheFree (Some i) s2))
            else fssk_chunks E file_check parent dir bp1 i d2 off2 r2 s2
          }
      }
      else Some (result, pfsCacheFree (bp_inode bp) (pfsCacheFree (Some dc) s)))"

definition fssk_files_with ::
    "'d fssk_env \<Rightarrow> (nat \<Rightarrow> nat \<Rightarrow> nat \<Rightarrow> ('d, 'z) fssk_state_scheme \<Rightarrow> (int \<times> ('d, 'z) fssk_state_scheme) option) \<Rightarrow>
      nat \<Rightarrow> nat \<Rightarrow> ('d, 'z) fssk_state_scheme \<Rightarrow> (int \<times> ('d, 'z) fssk_state_scheme) option" where
  "fssk_files_with E file_check parent dir s =
     (let bp = \<lparr>bp_inode = Some dir, block_segment = 1, block_offset = 0, byte_offset = 0\<rparr> in
      if CheckThreadStack E (pworld s) < 128 then Some (- ENOMEM, s)
      else do {
        ((c, e), s1) \<leftarrow> pfsGetDentriesChunk (sk_blk E) bp (pfsCacheUsedAdd dir s);
        case c of None \<Rightarrow> Some (e, pfsCacheFree (Some dir) s1)
        | Some i \<Rightarrow> fssk_chunks E file_check parent dir bp i 0 0 e s1
      })"

text \<open>\<open>fssk_tree n\<close> checks a directory with \<open>n\<close> levels of the path left below it, as for \<open>fsck\<close>.\<close>

primrec fssk_tree ::
    "nat \<Rightarrow> 'd fssk_env \<Rightarrow> nat \<Rightarrow> nat \<Rightarrow> ('d, 'z) fssk_state_scheme \<Rightarrow> (int \<times> ('d, 'z) fssk_state_scheme) option" where
  "fssk_tree 0 E = fssk_files_with E (fssk_file_with E (\<lambda>_ _ _. None))"
| "fssk_tree (Suc n) E = fssk_files_with E (fssk_file_with E (fssk_tree n E))"

definition fsskCheckFiles :: "'d fssk_env \<Rightarrow> nat \<Rightarrow> nat \<Rightarrow> ('d, 'z) fssk_state_scheme \<Rightarrow> (int \<times> ('d, 'z) fssk_state_scheme) option" where
  "fsskCheckFiles E = fssk_tree 63 E"

definition fsskCheckFile :: "'d fssk_env \<Rightarrow> nat \<Rightarrow> nat \<Rightarrow> nat \<Rightarrow> ('d, 'z) fssk_state_scheme \<Rightarrow> (int \<times> ('d, 'z) fssk_state_scheme) option" where
  "fsskCheckFile E = fssk_file_with E (fsskCheckFiles E)"

subsection \<open>The thread\<close>

text \<open>The superblock in the buffer is written to both places.\<close>

definition write_both :: "'d fssk_env \<Rightarrow> ('d, 'z) fssk_state_scheme \<Rightarrow> int \<times> ('d, 'z) fssk_state_scheme" where
  "write_both E s =
     (let (w, s1) = fssk_write E 0 PFS_SUPER_BACKUP_SECTOR 1 s;
          (w2, s2) = (if w = 0 then fssk_write E 0 PFS_SUPER_SECTOR 1 s1 else (w, s1))
      in (w2, s2\<lparr>pworld := snd (bd_flush (sk_blk E) (pworld s2))\<rparr>))"

definition set_root :: "pfs_blockinfo \<Rightarrow> pfs_mount \<Rightarrow> pfs_mount" where
  "set_root b m = m\<lparr>root_dir := (root_dir m)\<lparr>bi_number := bi_number b, bi_subpart := bi_subpart b\<rparr>\<rparr>"

text \<open>The root directory, in the entry \<open>clink\<close>, is moved when it has zones to free. The result and the entry to go on with.\<close>

definition move_root :: "'d fssk_env \<Rightarrow> nat \<Rightarrow> ('d, 'z) fssk_state_scheme \<Rightarrow> ((int \<times> nat option) \<times> ('d, 'z) fssk_state_scheme) option" where
  "move_root E clink s = do {
     (r, s1) \<leftarrow> fsskHasSpaceToFree E clink s;
     if r \<le> 0 then Some ((r, Some clink), s1)
     else do {
       (r2, s2) \<leftarrow> fsskMoveInode E (\<lambda>b t. t\<lparr>thread_dentry := b\<lparr>bi_subpart := bi_subpart b AND 0xFF\<rparr>\<rparr>) clink clink s1;
       if r2 \<noteq> 0 then Some ((r2, Some clink), s2)
       else do {
         let b = thread_dentry s2;
         ((c, e), s3) \<leftarrow> pfsInodeGetData (sk_blk E) (bi_subpart b) (bi_number b) (pfsCacheFree (Some clink) s2);
         Some (if c = None then ((e, None), s3)
               else (let (r4, s4) = fssk_read E 0 PFS_SUPER_SECTOR 1 s3 in
                     if r4 \<noteq> 0 then ((r4, c), s4)
                     else (let s5 = with_mount (set_root b) s4;
                               (r6, s6) = write_both E (s5\<lparr>fssk_buffer := set_blockinfo 8 (root_dir (pmount s5)) (fssk_buffer s5)\<rparr>)
                           in ((r6, c), s6))))
       }
     }
   }"

fun remove_subs :: "'d fssk_env \<Rightarrow> nat \<Rightarrow> 'd \<Rightarrow> 'd" where
  "remove_subs E 0 w = w"
| "remove_subs E (Suc n) w = remove_subs E n (del_sub E w)"

text \<open>The sub-partitions are given back when nothing failed.\<close>

definition drop_subs :: "'d fssk_env \<Rightarrow> ('d, 'z) fssk_state_scheme \<Rightarrow> int \<times> ('d, 'z) fssk_state_scheme" where
  "drop_subs E s =
     (let (r, s1) = fssk_read E 0 PFS_SUPER_SECTOR 1 s;
          (r3, s3) = (if r \<noteq> 0 then (r, s1)
             else write_both E (with_mount (\<lambda>m. m\<lparr>num_subs := num_subs m - deleted s1\<rparr>)
                    (s1\<lparr>fssk_buffer := (fssk_buffer s1)[5 := fssk_buffer s1 ! 5 - deleted s1]\<rparr>)))
      in (r3, if r3 = 0 then s3\<lparr>pworld := remove_subs E (unat (deleted s3)) (pworld s3)\<rparr> else s3))"

definition fssk_failed :: "('d, 'z) fssk_state_scheme \<Rightarrow> ('d, 'z) fssk_state_scheme" where
  "fssk_failed = with_data (\<lambda>t. t\<lparr>has_error := 1\<rparr>)"

definition FsskThread :: "'d fssk_env \<Rightarrow> ('d, 'z) fssk_state_scheme \<Rightarrow> ('d, 'z) fssk_state_scheme option" where
  "FsskThread E s = do {
     n \<leftarrow> fsskCalculateSpaceToRemove E s;
     let s0 = with_data (\<lambda>t. t\<lparr>partsDeleted := n\<rparr>) s;
     if n = 0 then Some s0
     else do {
       ((c, e), s1) \<leftarrow> pfsInodeGetData (sk_blk E) (bi_subpart (root_dir (pmount s0))) (bi_number (root_dir (pmount s0))) s0;
       case c of None \<Rightarrow> Some (fssk_failed s1)
       | Some root \<Rightarrow> do {
           ((r2, c2), s2) \<leftarrow> move_root E root s1;
           if r2 < 0 then Some (fssk_failed (pfsCacheFree c2 s2))
           else do {
             clink \<leftarrow> c2;
             (r3, s3) \<leftarrow> fsskCheckFiles E clink clink (with_data (\<lambda>t. t\<lparr>dir_count := dir_count t + 1\<rparr>) s2);
             s4 \<leftarrow> pfsCacheFlushAllDirty (sk_blk E) (pfsCacheFree (Some clink) s3);
             let (r5, s5) = (if r3 = 0 \<and> \<not> fssk_stopped E s4 then drop_subs E s4 else (r3, s4));
             Some (if r5 < 0 then fssk_failed s5 else s5)
           }
         }
     }
   }"

subsection \<open>The driver\<close>

definition zero_data :: fsskStatus where
  "zero_data = \<lparr>zones_used = 0, inode_blocks = 0, file_count = 0, dir_count = 0, path_level = 0, has_error = 0, partsDeleted = 0\<rparr>"

text \<open>\<open>getstat\<close>, the search for the device and \<open>open\<close> are calls of the file I/O library; their results are parameters.\<close>

definition FsskOpen ::
    "'d fssk_env \<Rightarrow> int \<times> u16 \<Rightarrow> bool \<Rightarrow> int \<Rightarrow> ('d, 'z) fssk_state_scheme \<Rightarrow> (int \<times> ('d, 'z) fssk_state_scheme) option" where
  "FsskOpen E stat found blockfd s =
     (if fssk_fd s \<noteq> 0 then Some (- EBUSY, s)
      else if fst stat < 0 then Some (fst stat, s)
      else if snd stat \<noteq> APA_TYPE_PFS then Some (- EINVAL, s)
      else if \<not> found then Some (- ENXIO, s)
      else if blockfd < 0 then Some (blockfd, s)
      else do {
        (r, s1) \<leftarrow> pfsMountSuperBlock (sk_blk E) (s\<lparr>pmount := zero_mount, fssk_fd := blockfd\<rparr>);
        Some (if 0 \<le> r
              then (0, s1\<lparr>fsskStatusData := zero_data\<lparr>zones_used := total_zones (pmount s1) - zfree (pmount s1)\<rparr>,
                        minFree := 3, fssk_stop := False\<rparr>)
              else (fst stat, s1\<lparr>fssk_fd := 0\<rparr>))
      })"

definition FsskClose :: "('d \<Rightarrow> 'd) \<Rightarrow> 'd fssk_env \<Rightarrow> ('d, 'z) fssk_state_scheme \<Rightarrow> (int \<times> ('d, 'z) fssk_state_scheme) option" where
  "FsskClose close_fd E s =
     map_option (\<lambda>s1. (0, s1\<lparr>pmount := zero_mount, fssk_fd := 0\<rparr>)) (pfsCacheClose (sk_blk E) (s\<lparr>pworld := close_fd (pworld s)\<rparr>))"

text \<open>The sectors of the sub-partitions, if some would be removed.\<close>

definition fsskSimGetStat :: "'d fssk_env \<Rightarrow> ('d, 'z) fssk_state_scheme \<Rightarrow> (u32 \<times> ('d, 'z) fssk_state_scheme) option" where
  "fsskSimGetStat E s = do {
     n \<leftarrow> fsskCalculateSpaceToRemove E s;
     let subs = num_subs (pmount s);
     Some (if subs - n < subs then fold (\<lambda>i r. r + bd_size (sk_blk E) (of_nat i)) (rev [1..<Suc (unat subs)]) 0 else 0,
           with_data (\<lambda>t. t\<lparr>partsDeleted := n\<rparr>) s)
   }"

text \<open>The shortest of four reads of one zone gives the estimate; times are low and high words.\<close>

fun fssk_time_reads :: "'d fssk_env \<Rightarrow> nat \<Rightarrow> u64 \<Rightarrow> ('d, 'z) fssk_state_scheme \<Rightarrow> u64 \<times> ('d, 'z) fssk_state_scheme" where
  "fssk_time_reads E 0 best s = (best, s)"
| "fssk_time_reads E (Suc n) best s =
     (let ((lo1, hi1), w1) = sys_time E (pworld s);
          sc = push_bit (unat (sector_scale (pmount s))) 1;
          (r, s1) = fssk_read E 0 sc sc (s\<lparr>pworld := w1\<rparr>);
          ((lo2, hi2), w2) = sys_time E (pworld s1);
          (sec, usec) = sys_usec E (lo2 - lo1, hi2 - hi1 - (if lo2 < lo1 then 1 else 0))
      in fssk_time_reads E n (if ucast usec < best then ucast usec else best) (s1\<lparr>pworld := w2\<rparr>))"

definition fsskGetEstimatedTime :: "'d fssk_env \<Rightarrow> ('d, 'z) fssk_state_scheme \<Rightarrow> u32 \<times> ('d, 'z) fssk_state_scheme" where
  "fsskGetEstimatedTime E s =
     (let (best, s1) = fssk_time_reads E 4 1000000 s;
          t = ucast ((best + 400) * ucast (zones_used (fsskStatusData s1)) div 1000000)
      in (if t = 0 then 1 else t, s1))"

datatype fssk_cmd = FSSK_GET_ESTIMATE | FSSK_START | FSSK_WAIT | FSSK_POLL | FSSK_GET_STATUS | FSSK_STOP
  | FSSK_SET_MINFREE | FSSK_SIM | FSSK_OTHER

definition FSSK_IOCTL2_CMD :: "int \<Rightarrow> fssk_cmd" where
  "FSSK_IOCTL2_CMD cmd =
     (if 0 \<le> cmd \<and> cmd < 8
      then [FSSK_GET_ESTIMATE, FSSK_START, FSSK_WAIT, FSSK_POLL, FSSK_GET_STATUS, FSSK_STOP, FSSK_SET_MINFREE, FSSK_SIM] ! nat cmd
      else FSSK_OTHER)"

definition fssk_status_words :: "fsskStatus \<Rightarrow> u32 list" where
  "fssk_status_words t = [zones_used t, inode_blocks t, file_count t, dir_count t, path_level t, has_error t, partsDeleted t]"

text \<open>\<open>start\<close>, \<open>waited\<close> and \<open>polled\<close> are results of the kernel; the result comes with the words stored in the caller's buffer.\<close>

definition FsskIoctl2 ::
    "'d fssk_env \<Rightarrow> int \<Rightarrow> int \<Rightarrow> int \<Rightarrow> int \<Rightarrow> int \<Rightarrow> int \<Rightarrow> ('d, 'z) fssk_state_scheme \<Rightarrow>
      ((int \<times> u32 list) \<times> ('d, 'z) fssk_state_scheme) option" where
  "FsskIoctl2 E start waited polled KE_EVF_COND cmd arg s =
     (case FSSK_IOCTL2_CMD cmd of
        FSSK_GET_ESTIMATE \<Rightarrow> (let (t, s1) = fsskGetEstimatedTime E s in Some ((0, [t]), s1))
      | FSSK_START \<Rightarrow> Some ((start, []), s)
      | FSSK_WAIT \<Rightarrow> Some ((waited, []), s)
      | FSSK_POLL \<Rightarrow> Some ((if polled = KE_EVF_COND then 1 else polled, []), s)
      | FSSK_GET_STATUS \<Rightarrow> Some ((0, fssk_status_words (fsskStatusData s)), s)
      | FSSK_STOP \<Rightarrow> Some ((0, []), s\<lparr>fssk_stop := True\<rparr>)
      | FSSK_SET_MINFREE \<Rightarrow> Some ((0, []), if 4 \<le> arg then s\<lparr>minFree := of_int arg\<rparr> else s)
      | FSSK_SIM \<Rightarrow> map_option (\<lambda>(n, t). ((sint n, []), t)) (fsskSimGetStat E s)
      | FSSK_OTHER \<Rightarrow> Some ((0, []), s))"

text \<open>The start of the module; true is \<open>MODULE_RESIDENT_END\<close>.\<close>

definition fssk_start ::
    "(string \<Rightarrow> int) \<Rightarrow> string list \<Rightarrow> bool \<times> bool \<times> (nat \<Rightarrow> u32 list) \<Rightarrow> int \<Rightarrow> int \<Rightarrow> int \<Rightarrow>
      ('d, 'z) fssk_state_scheme \<Rightarrow> bool \<times> ('d, 'z) fssk_state_scheme" where
  "fssk_start strtol args mem flag thread driver s =
     (case module_args strtol args 0x7E of None \<Rightarrow> (False, s)
      | Some n \<Rightarrow>
          (let (ok1, ok2, m) = mem; (r, s1) = pfsCacheInit (unat (of_int n :: u32)) ok1 ok2 m s
           in if r < 0 then (False, s1) else (\<not> flag < 0 \<and> \<not> thread < 0 \<and> driver = 0, s1)))"

end
