(* ===== verification/FsskProps.thy ===== *)
theory FsskProps
  imports FsskMain PfsZoneProps
begin

text \<open>
  What \<open>fssk\<close> may remove and how it copies: the sub-partitions that it plans to remove fit in the
  free zones of the others, a copied segment has the data of the source and nothing else changes;
  and no directory can ever be moved.
\<close>

subsection \<open>The space to remove\<close>

definition zones_of :: "'d blk_dev \<Rightarrow> pfs_mount \<Rightarrow> nat \<Rightarrow> u32" where
  "zones_of D m i = drop_bit (unat (sector_scale m)) (bd_size D (of_nat i))"

text \<open>
  The loop of \<open>fsskCalcLastSub\<close> ends only past the end of the table of free zones, unless exactly one
  sub-partition is left over, so that no directory can be moved.
\<close>

lemma last_sub_loop_none:
  assumes "num_subs m - (del - 1) \<noteq> 0"
  shows "last_sub_loop D m del sub best result = None"
proof (induction "length (free_zone m) - sub" arbitrary: sub best result)
  case 0
  then have "sub_percent D m sub = None" by (simp add: sub_percent_def)
  then show ?case using assms by (simp add: last_sub_loop.simps [of D m del sub])
next
  case (Suc n)
  then have "last_sub_loop D m del (sub + 1) b r = None" for b r by simp
  then show ?case using assms by (simp add: last_sub_loop.simps [of D m del sub] Option.bind_eq_None_conv)
qed

lemma calc_last_sub_none:
  "num_subs (pmount s) - (deleted s - 1) \<noteq> 0 \<Longrightarrow> fsskCalcLastSub E s = None"
  by (simp add: fsskCalcLastSub_def last_sub_loop_none)

lemma space_loop_fits:
  assumes "space_loop D m g i p z left = Some q"
  shows "\<exists>k \<le> i. q = p + of_nat k \<and> (\<forall>j \<in> {i - k<..i}. j < length (free_zone m)) \<and>
    (\<Sum>j \<in> {i - k<..i}. unat (free_zone m ! j) + unat (zones_of D m j)) \<le> unat z"
  using assms
proof (induction i arbitrary: p z left)
  case 0
  then show ?case by simp
next
  case (Suc i)
  let ?f = "free_zone m ! Suc i" and ?n = "zones_of D m (Suc i)"
  obtain C where step: "space_loop D m g (Suc i) p z left =
      (if length (free_zone m) \<le> Suc i then None else if z < ?f \<or> z - ?f < ?n then Some p
       else if left - ?n = 0 then None else if C then Some p else space_loop D m g i (p + 1) (z - ?f - ?n) (left - ?n))"
    unfolding space_loop.simps Let_def zones_of_def by blast
  have l: "Suc i < length (free_zone m)" using Suc.prems unfolding step by (metis linorder_not_le option.distinct(1))
  consider "q = p" | "?f \<le> z" "?n \<le> z - ?f" "space_loop D m g i (p + 1) (z - ?f - ?n) (left - ?n) = Some q"
    using Suc.prems unfolding step by (metis linorder_not_le option.distinct(1) option.inject)
  then show ?case
  proof cases
    case 1
    then show ?thesis by (auto intro!: exI [of _ 0])
  next
    case 2
    obtain k where k: "k \<le> i" "q = p + 1 + of_nat k" "\<forall>j \<in> {i - k<..i}. j < length (free_zone m)"
      "(\<Sum>j \<in> {i - k<..i}. unat (free_zone m ! j) + unat (zones_of D m j)) \<le> unat (z - ?f - ?n)"
      using Suc.IH [OF 2(3)] by blast
    have "unat (z - ?f) = unat z - unat ?f" "unat (z - ?f - ?n) = unat (z - ?f) - unat ?n" "unat ?f \<le> unat z" "unat ?n \<le> unat (z - ?f)"
      using 2(1,2) by (simp_all add: unat_sub word_le_nat_alt)
    then have s: "unat ?f + unat ?n + unat (z - ?f - ?n) = unat z" by linarith
    have r: "{Suc i - Suc k<..Suc i} = insert (Suc i) {i - k<..i}" using k(1) by auto
    have "(\<Sum>j \<in> {Suc i - Suc k<..Suc i}. unat (free_zone m ! j) + unat (zones_of D m j)) \<le> unat z"
      unfolding r using k(4) s by simp
    moreover have "\<forall>j \<in> {Suc i - Suc k<..Suc i}. j < length (free_zone m)" unfolding r using k(3) l by blast
    ultimately show ?thesis using k(1,2) by (intro exI [of _ "Suc k"]) auto
  qed
qed

text \<open>
  C32. The sub-partitions that \<open>fssk\<close> plans to remove are the last ones, at most all but the main
  partition, and they fit: their zones are no more than the free zones that the other
  sub-partitions have, so that whatever is stored in them has a place to go.
\<close>

theorem space_to_remove_fits:
  assumes "fsskCalculateSpaceToRemove E s = Some q"
  defines "n \<equiv> unat (num_subs (pmount s))"
  shows "unat q \<le> n \<and> (\<Sum>j \<in> {n - unat q<..n}. unat (free_zone (pmount s) ! j) + unat (zones_of (sk_blk E) (pmount s) j)) \<le> unat (zfree (pmount s))"
proof -
  obtain k where k: "k \<le> n" "q = 0 + of_nat k"
    "(\<Sum>j \<in> {n - k<..n}. unat (free_zone (pmount s) ! j) + unat (zones_of (sk_blk E) (pmount s) j)) \<le> unat (zfree (pmount s))"
    using space_loop_fits [of "sk_blk E" "pmount s" "minFree s" n 0 "zfree (pmount s)" "total_zones (pmount s)" q] assms(1)
    unfolding n_def by (auto simp: fsskCalculateSpaceToRemove_def Let_def)
  have "k < 2 ^ 32" using k(1) unsigned_less [of "num_subs (pmount s)", where 'a = nat] by (simp add: n_def)
  then have "unat q = k" using k(2) by (simp add: unat_of_nat take_bit_nat_eq_self)
  then show ?thesis using k by simp
qed

subsection \<open>Copying zones\<close>

lemma zone_sector:
  assumes "sc < 32" "unat (z :: u32) < 2 ^ (32 - sc)" "k < 2 ^ sc"
  shows "unat (push_bit sc z + of_nat k :: u32) = unat z * 2 ^ sc + k"
proof -
  have e: "(2 :: nat) ^ 32 = 2 ^ (32 - sc) * 2 ^ sc" using assms(1) by (simp flip: power_add)
  have "unat z * 2 ^ sc + k < (unat z + 1) * 2 ^ sc" using assms(3) by simp
  also have "\<dots> \<le> 2 ^ 32" unfolding e using assms(2) by (intro mult_right_mono) auto
  finally have "unat z * 2 ^ sc + k < 2 ^ 32" .
  moreover have "push_bit sc z + of_nat k = of_nat (unat z * 2 ^ sc + k)" by (simp add: push_bit_eq_mult)
  ultimately show ?thesis by (simp add: unat_of_nat take_bit_nat_eq_self del: of_nat_add of_nat_mult)
qed

lemma one_zone:
  assumes "sc < 32"
  shows "unat (push_bit sc 1 :: u32) = 2 ^ sc"
proof -
  have "(2 :: nat) ^ sc < 2 ^ 32" using assms by (intro power_strict_increasing) auto
  moreover have "push_bit sc 1 = (of_nat (2 ^ sc) :: u32)" by (simp add: push_bit_eq_mult)
  ultimately show ?thesis by (simp add: unat_of_nat take_bit_nat_eq_self del: of_nat_power)
qed

definition zone_at :: "nat \<Rightarrow> u32 \<Rightarrow> nat \<Rightarrow> u32" where
  "zone_at sc z k = push_bit sc z + of_nat k"

text \<open>The zones with the offsets in \<open>js\<close> have the data of their source, and all other sectors are as before.\<close>

definition zones_copied :: "nat \<Rightarrow> pfs_blockinfo \<Rightarrow> pfs_blockinfo \<Rightarrow> nat set \<Rightarrow> image \<Rightarrow> image \<Rightarrow> bool" where
  "zones_copied sc b1 b2 js i1 i2 \<longleftrightarrow>
     (\<forall>j \<in> js. \<forall>k < 2 ^ sc. i2 (ucast (bi_subpart b1)) (zone_at sc (bi_number b1 + of_nat j) k) =
        i1 (ucast (bi_subpart b2)) (zone_at sc (bi_number b2 + of_nat j) k)) \<and>
     (\<forall>d l. (\<forall>j \<in> js. \<forall>k < 2 ^ sc. \<not> (d = ucast (bi_subpart b1) \<and> l = zone_at sc (bi_number b1 + of_nat j) k)) \<longrightarrow> i2 d l = i1 d l)"

definition zones_fit :: "nat \<Rightarrow> pfs_blockinfo \<Rightarrow> nat \<Rightarrow> bool" where
  "zones_fit sc b n \<longleftrightarrow> sc < 32 \<and> unat (bi_number b) + n \<le> 2 ^ (32 - sc)"

definition zones_apart :: "pfs_blockinfo \<Rightarrow> pfs_blockinfo \<Rightarrow> nat \<Rightarrow> bool" where
  "zones_apart b1 b2 n \<longleftrightarrow> bi_subpart b1 \<noteq> bi_subpart b2 \<or>
     unat (bi_number b1) + n \<le> unat (bi_number b2) \<or> unat (bi_number b2) + n \<le> unat (bi_number b1)"

lemma zone_at_unat:
  assumes "zones_fit sc b n" "j < n" "k < 2 ^ sc"
  shows "unat (zone_at sc (bi_number b + of_nat j) k) = (unat (bi_number b) + j) * 2 ^ sc + k"
proof -
  have "(2 :: nat) ^ (32 - sc) \<le> 2 ^ 32" by (intro power_increasing) auto
  then have "unat (bi_number b) + j < 2 ^ 32" using assms(1,2) by (auto simp: zones_fit_def)
  moreover have "bi_number b + of_nat j = of_nat (unat (bi_number b) + j)" by simp
  ultimately have "unat (bi_number b + of_nat j) = unat (bi_number b) + j"
    by (simp add: unat_of_nat take_bit_nat_eq_self del: of_nat_add of_nat_unat)
  then show ?thesis unfolding zone_at_def using zone_sector [of sc "bi_number b + of_nat j" k] assms by (auto simp: zones_fit_def)
qed

lemma zone_at_eq:
  assumes "zones_fit sc b1 n" "zones_fit sc b2 n" "i < n" "j < n" "k < 2 ^ sc" "l < 2 ^ sc"
  shows "zone_at sc (bi_number b1 + of_nat i) k = zone_at sc (bi_number b2 + of_nat j) l \<longleftrightarrow> unat (bi_number b1) + i = unat (bi_number b2) + j \<and> k = l"
proof -
  have "(a * 2 ^ sc + x) div 2 ^ sc = a" "(a * 2 ^ sc + x) mod 2 ^ sc = x" if "x < 2 ^ sc" for a x :: nat using that by simp_all
  from this [OF assms(5)] this [OF assms(6)]
  have "a * 2 ^ sc + k = b * 2 ^ sc + l \<longleftrightarrow> a = b \<and> k = l" for a b :: nat by metis
  then show ?thesis unfolding word_unat_eq_iff zone_at_unat [OF assms(1,3,5)] zone_at_unat [OF assms(2,4,6)] .
qed

lemma zones_copied_one:
  assumes "sc < 32" "\<And>d l. length (img d l) = 128"
  shows "zones_copied sc b1 b2 {j} img
    (put_sectors (ucast (bi_subpart b1)) (push_bit sc (bi_number b1 + of_nat j)) (2 ^ sc)
      (sectors img (ucast (bi_subpart b2)) (push_bit sc (bi_number b2 + of_nat j)) (2 ^ sc)) img)"
proof -
  have "(2 :: nat) ^ sc \<le> 2 ^ 32" using assms(1) by (intro power_increasing) auto
  then show ?thesis using assms(2)
    by (auto simp: zones_copied_def zone_at_def put_sectors_at chunk_sectors covers_def intro!: put_sectors_other)
qed

lemma zones_copied_more:
  assumes fit: "zones_fit sc b1 n" "zones_fit sc b2 n" and apart: "zones_apart b1 b2 n" and js: "j < n" "\<forall>i \<in> js. i < n" "j \<notin> js"
    and c: "zones_copied sc b1 b2 {j} i1 i2" "zones_copied sc b1 b2 js i2 i3"
  shows "zones_copied sc b1 b2 (insert j js) i1 i3"
proof -
  let ?d1 = "ucast (bi_subpart b1) :: u32" and ?d2 = "ucast (bi_subpart b2) :: u32"
  let ?t = "\<lambda>i. zone_at sc (bi_number b1 + of_nat i)" and ?s = "\<lambda>i. zone_at sc (bi_number b2 + of_nat i)"
  have one: "i3 ?d1 (?t j k) = i1 ?d2 (?s j k)" if k: "k < 2 ^ sc" for k
  proof -
    have "?t j k \<noteq> ?t i l" if "i \<in> js" "l < 2 ^ sc" for i l
      using zone_at_eq [OF fit(1) fit(1) js(1) _ k that(2), of i] js(2,3) that(1) by auto
    then have "i3 ?d1 (?t j k) = i2 ?d1 (?t j k)" using c(2) unfolding zones_copied_def by blast
    then show ?thesis using c(1) k by (simp add: zones_copied_def)
  qed
  have rest: "i3 ?d1 (?t i k) = i1 ?d2 (?s i k)" if i: "i \<in> js" and k: "k < 2 ^ sc" for i k
  proof -
    have "\<not> (?d2 = ?d1 \<and> ?s i k = ?t j l)" if "l < 2 ^ sc" for l
      using apart js(1,2) i zone_at_eq [OF fit(2,1) _ js(1) k that, of i] by (auto simp: zones_apart_def word_unat_eq_iff unat_wide)
    then have "i2 ?d2 (?s i k) = i1 ?d2 (?s i k)" using c(1) by (simp add: zones_copied_def)
    then show ?thesis using c(2) i k by (simp add: zones_copied_def)
  qed
  show ?thesis unfolding zones_copied_def
  proof (intro conjI ballI allI impI)
    fix i k assume "i \<in> insert j js" "k < (2 :: nat) ^ sc"
    then show "i3 ?d1 (?t i k) = i1 ?d2 (?s i k)" using one rest by auto
  next
    fix d l assume o: "\<forall>i \<in> insert j js. \<forall>k < 2 ^ sc. \<not> (d = ?d1 \<and> l = ?t i k)"
    then have "i3 d l = i2 d l" using c(2) unfolding zones_copied_def by blast
    also have "\<dots> = i1 d l" using c(1) o unfolding zones_copied_def by blast
    finally show "i3 d l = i1 d l" .
  qed
qed

lemma copy_zones_run:
  assumes good: "blk_good (sk_blk E) img ok" and fit: "zones_fit sc b1 n" "zones_fit sc b2 n" and apart: "zones_apart b1 b2 n"
    and "distinct js" "\<forall>j \<in> set js. j < n" "ok (pworld s)" "unat (sector_scale (pmount s)) = sc" "128 * 2 ^ sc \<le> length (fssk_buffer s)"
  shows "\<exists>t. copy_zones E b1 b2 js s = (0, t) \<and> ok (pworld t) \<and> zones_copied sc b1 b2 (set js) (img (pworld s)) (img (pworld t))"
  using assms(5-)
proof (induction js arbitrary: s)
  case Nil
  then show ?case by (auto simp: zones_copied_def)
next
  case (Cons j js)
  have sc: "sc < 32" using fit(1) by (simp add: zones_fit_def)
  have n: "unat (push_bit sc 1 :: u32) = 2 ^ sc" by (rule one_zone) (rule sc)
  let ?src = "sectors (img (pworld s)) (ucast (bi_subpart b2)) (push_bit sc (bi_number b2 + of_nat j)) (2 ^ sc)"
  have len: "length (img (pworld s) d l) = 128" for d l using blk_goodE(1) [OF good Cons.prems(3)] .
  have sl: "length ?src = 128 * 2 ^ sc" by (rule length_sectors) (rule len)
  obtain w1 where w1: "bd_read (sk_blk E) (ucast (bi_subpart b2)) (push_bit sc (bi_number b2 + of_nat j)) (push_bit sc 1) (pworld s) = (0, ?src, w1)"
    "ok w1" "img w1 = img (pworld s)"
    using blk_goodE(2) [OF good Cons.prems(3), of "ucast (bi_subpart b2)" "push_bit sc (bi_number b2 + of_nat j)" "push_bit sc 1"] unfolding n by blast
  define s1 where "s1 = s\<lparr>pworld := w1, fssk_buffer := overlay ?src (fssk_buffer s)\<rparr>"
  have tk: "take (128 * 2 ^ sc) (fssk_buffer s1) = ?src" using sl Cons.prems(5) by (simp add: s1_def overlay_prefix)
  obtain w2 where w2: "bd_write (sk_blk E) (ucast (bi_subpart b1)) (push_bit sc (bi_number b1 + of_nat j)) (push_bit sc 1) ?src w1 = (0, w2)"
    "ok w2" "img w2 = put_sectors (ucast (bi_subpart b1)) (push_bit sc (bi_number b1 + of_nat j)) (2 ^ sc) ?src (img (pworld s))"
    using blk_goodE(3) [OF good w1(2), of ?src "push_bit sc 1" "ucast (bi_subpart b1)" "push_bit sc (bi_number b1 + of_nat j)"] sl unfolding n w1(3) by blast
  define s2 where "s2 = s1\<lparr>pworld := w2\<rparr>"
  have r: "copy_zones E b1 b2 (j # js) s = copy_zones E b1 b2 js s2"
    using w1(1) w2(1) tk n Cons.prems(4) by (simp add: fssk_read_def fssk_write_def Let_def s1_def s2_def)
  have "zones_copied sc b1 b2 {j} (img (pworld s)) (img (pworld s2))"
    using zones_copied_one [OF sc len] by (simp add: s2_def w2(3))
  moreover obtain t where t: "copy_zones E b1 b2 js s2 = (0, t)" "ok (pworld t)" "zones_copied sc b1 b2 (set js) (img (pworld s2)) (img (pworld t))"
    using Cons.IH [of s2] Cons.prems w2(2) by (auto simp: s2_def s1_def)
  ultimately have "zones_copied sc b1 b2 (insert j (set js)) (img (pworld s)) (img (pworld t))"
    using zones_copied_more [OF fit apart _ _ _] Cons.prems(1,2) by auto
  then show ?case using r t by simp
qed

text \<open>
  C31. On a device that works, \<open>fsskCopyBlock\<close> returns 0 and copies the \<open>n\<close> zones of a segment: each
  sector of them is in the target what it was in the source, and no other sector changes, when
  the buffer holds a zone, and the segments do not overlap.
\<close>

theorem copy_block_copies:
  assumes "blk_good (sk_blk E) img ok" "ok (pworld s)" "unat (sector_scale (pmount s)) = sc" "128 * 2 ^ sc \<le> length (fssk_buffer s)"
    and "zones_fit sc b1 n" "zones_fit sc b2 n" "zones_apart b1 b2 n"
  shows "\<exists>t. fsskCopyBlock E b1 b2 n s = (0, t) \<and> ok (pworld t) \<and> zones_copied sc b1 b2 {..<n} (img (pworld s)) (img (pworld t))"
  using copy_zones_run [OF assms(1,5,6,7), of "[0..<n]" s] assms(2-4) by (simp add: fsskCopyBlock_def atLeast0LessThan)

subsection \<open>Concrete drives\<close>

definition demo_fssk_env :: "sim_disk fssk_env" where
  "demo_fssk_env = \<lparr>sk_blk = sim_blk True, stop_set = (\<lambda>_. False), unset_count = (\<lambda>_. 0), CheckThreadStack = (\<lambda>_. 0), del_sub = (\<lambda>w. w),
     sys_time = Pair (0, 0), sys_usec = (\<lambda>_. (0, 0))\<rparr>"

text \<open>The last of two sub-partitions is empty, and the others have 40960 zones in which to put its 16384.\<close>

definition demo_fssk :: "sim_disk fssk_state" where
  "demo_fssk = pfs_state.extend (demo_pfs_state\<lparr>pmount := demo_mount\<lparr>num_subs := 2, total_zones := 0x10000, zfree := 0xE000,
       free_zone := [0x6000, 0x4000, 0x4000] @ replicate 62 0\<rparr>\<rparr>)
     (fssk_state.fields \<lparr>zones_used = 0, inode_blocks = 0, file_count = 0, dir_count = 0, path_level = 0, has_error = 0, partsDeleted = 0\<rparr>
       30 False (replicate 0x2000 7) 3 \<lparr>bi_number = 0, bi_subpart = 0, bi_count = 0\<rparr>)"

theorem space_to_remove_fits_witness:
  "fsskCalculateSpaceToRemove demo_fssk_env demo_fssk = Some 1 \<and> unat (1 :: u32) \<le> unat (num_subs (pmount demo_fssk))"
proof -
  have e: "space_loop D m g 2 = space_loop D m g (Suc (Suc 0))" for D :: "sim_disk blk_dev" and m g by (simp only: numeral_2_eq_2)
  have "fsskCalculateSpaceToRemove demo_fssk_env demo_fssk = Some 1"
    by (simp add: e fsskCalculateSpaceToRemove_def demo_fssk_def demo_fssk_env_def pfs_state.defs fssk_state.defs demo_pfs_state_def
        demo_mount_def sim_blk_def Let_def)
  then show ?thesis using space_to_remove_fits [of demo_fssk_env demo_fssk 1] by blast
qed

theorem copy_block_copies_witness:
  "\<exists>t. fsskCopyBlock demo_fssk_env \<lparr>bi_number = 0x91, bi_subpart = 0, bi_count = 0\<rparr> \<lparr>bi_number = 0x95, bi_subpart = 1, bi_count = 0\<rparr> 3 demo_fssk = (0, t) \<and>
     zones_copied 4 \<lparr>bi_number = 0x91, bi_subpart = 0, bi_count = 0\<rparr> \<lparr>bi_number = 0x95, bi_subpart = 1, bi_count = 0\<rparr> {..<3}
       (sim_image (pworld demo_fssk)) (sim_image (pworld t))"
proof -
  have "blk_good (sk_blk demo_fssk_env) sim_image good_disk" using sim_blk_good by (simp add: demo_fssk_env_def)
  moreover have "good_disk (pworld demo_fssk)" "unat (sector_scale (pmount demo_fssk)) = 4" "128 * 2 ^ 4 \<le> length (fssk_buffer demo_fssk)"
    by (simp_all add: demo_fssk_def pfs_state.defs fssk_state.defs demo_pfs_state_def demo_mount_def good_disk_def demo_disk_def)
  ultimately show ?thesis
    using copy_block_copies [of demo_fssk_env sim_image good_disk demo_fssk 4 "\<lparr>bi_number = 0x91, bi_subpart = 0, bi_count = 0\<rparr>" 3
        "\<lparr>bi_number = 0x95, bi_subpart = 1, bi_count = 0\<rparr>"]
    by (auto simp: zones_fit_def zones_apart_def)
qed

end
