(* ===== verification/EeFont.thy ===== *)
theory EeFont
  imports Prelude
begin

text \<open>
  The font engine of the launcher, \<open>font.c\<close>: glyphs are packed into atlases, 128 by 128 pixel
  textures that also serve as a cache. FreeType, the video memory and the allocator are
  parameters, as is the float multiplication of the scaled metrics. C \<open>short\<close>s are integers that
  are cut to 16 bits where they are stored.
\<close>

subsection \<open>State\<close>

definition FNT_ATLAS_WIDTH :: int where "FNT_ATLAS_WIDTH = 128"
definition FNT_ATLAS_HEIGHT :: int where "FNT_ATLAS_HEIGHT = 128"
definition FNT_MAX_ATLASES :: nat where "FNT_MAX_ATLASES = 4"
definition FNT_CHAR_WIDTH :: int where "FNT_CHAR_WIDTH = 16"
definition FNT_CHAR_HEIGHT :: int where "FNT_CHAR_HEIGHT = 16"
definition FNT_TAB_STOPS :: int where "FNT_TAB_STOPS = 4"

lemmas fnt_defs = FNT_ATLAS_WIDTH_def FNT_ATLAS_HEIGHT_def FNT_MAX_ATLASES_def FNT_CHAR_WIDTH_def FNT_CHAR_HEIGHT_def FNT_TAB_STOPS_def

definition short :: "int \<Rightarrow> int" where "short x = signed_take_bit 15 x"
definition ushort :: "int \<Rightarrow> int" where "ushort x = take_bit 16 x"

record FontGlyphSlot =
  g_character :: u32
  VramPageX :: int
  VramPageY :: int
  g_top :: int
  g_left :: int
  advance_x :: int
  advance_y :: int
  g_width :: int
  g_height :: int

record FontFrontier =
  fr_x :: int
  fr_y :: int
  fr_width :: int
  fr_height :: int

text \<open>\<open>a_slots\<close> and \<open>a_buffer\<close> are None when NULL.\<close>

record FontAtlas =
  a_vram :: u32
  a_buffer :: "u8 list option"
  NumGlyphs :: nat
  a_slots :: "FontGlyphSlot list option"
  frontier0 :: FontFrontier
  frontier1 :: FontFrontier

text \<open>\<open>f_face\<close> names the face that FreeType has loaded.\<close>

record ee_font =
  f_face :: nat
  tex_vram :: u32
  tex_width :: int
  ClutMem :: bool
  IsLoaded :: bool
  IsInit :: bool
  f_atlas :: "FontAtlas list"

text \<open>What \<open>FT_Load_Glyph\<close> leaves in the glyph slot of the face; the advances are in 1/64 pixel.\<close>

record ft_glyph =
  bm_width :: nat
  bm_rows :: nat
  bm_data :: "u8 list"
  bitmap_left :: int
  bitmap_top :: int
  adv_x :: int
  adv_y :: int

text \<open>
  \<open>draw_char\<close> draws a glyph slot at a place with a scale, \<open>fmul\<close> is the product of a scale and
  an integer as an integer, \<open>mbtowc\<close> reads a character off a string that ends with a zero.
\<close>

record 'w font_env =
  GsVramAllocTextureBuffer :: "int \<Rightarrow> int \<Rightarrow> 'w \<Rightarrow> u32 \<times> 'w"
  GsLoadImage :: "u8 list \<Rightarrow> u32 \<Rightarrow> 'w \<Rightarrow> 'w"
  UploadClut :: "u32 \<Rightarrow> 'w \<Rightarrow> 'w"
  alloc_ok :: "nat \<Rightarrow> 'w \<Rightarrow> bool \<times> 'w"
  junk_slot :: "nat \<Rightarrow> 'w \<Rightarrow> FontGlyphSlot"
  FT_Init_FreeType :: "'w \<Rightarrow> int \<times> 'w"
  FT_New_Face :: "string \<Rightarrow> 'w \<Rightarrow> (int \<times> nat) \<times> 'w"
  FT_New_Memory_Face :: "u8 list \<Rightarrow> 'w \<Rightarrow> (int \<times> nat) \<times> 'w"
  FT_Set_Pixel_Sizes :: "nat \<Rightarrow> 'w \<Rightarrow> int \<times> 'w"
  FT_Done_Face :: "nat \<Rightarrow> 'w \<Rightarrow> 'w"
  FT_Get_Char_Index :: "nat \<Rightarrow> u32 \<Rightarrow> 'w \<Rightarrow> u32"
  FT_Load_Glyph :: "nat \<Rightarrow> u32 \<Rightarrow> 'w \<Rightarrow> (int \<times> ft_glyph) \<times> 'w"
  draw_char :: "FontGlyphSlot \<Rightarrow> u32 \<Rightarrow> int \<Rightarrow> int \<Rightarrow> int \<Rightarrow> nat \<Rightarrow> u32 \<Rightarrow> 'w \<Rightarrow> 'w"
  fmul :: "nat \<Rightarrow> int \<Rightarrow> int"
  mbtowc :: "string \<Rightarrow> int \<times> u32"

record 'w font_state =
  GS_FTFont :: ee_font
  GS_sub_FTFont :: ee_font
  ee_world :: 'w

text \<open>A call that changes the world only.\<close>

definition wcall :: "('w \<Rightarrow> 'a \<times> 'w) \<Rightarrow> ('w, 'z) font_state_scheme \<Rightarrow> 'a \<times> ('w, 'z) font_state_scheme" where
  "wcall f s = (let (r, w) = f (ee_world s) in (r, s\<lparr>ee_world := w\<rparr>))"

definition wdo :: "('w \<Rightarrow> 'w) \<Rightarrow> ('w, 'z) font_state_scheme \<Rightarrow> ('w, 'z) font_state_scheme" where
  "wdo f s = s\<lparr>ee_world := f (ee_world s)\<rparr>"

subsection \<open>Allocation in an atlas\<close>

text \<open>
  The address is unsigned, so that the test for an error is always passed; when the buffer cannot
  be allocated, \<open>memset\<close> writes through NULL (None).
\<close>

definition AtlasInit :: "'w font_env \<Rightarrow> ee_font \<Rightarrow> FontAtlas \<Rightarrow> 'w \<Rightarrow> (int \<times> FontAtlas \<times> 'w) option" where
  "AtlasInit E font a w =
     (let aligned = (FNT_ATLAS_WIDTH + 127) AND NOT 127;
          (vram, w1) = GsVramAllocTextureBuffer E aligned aligned w;
          size_ee = nat (aligned * aligned);
          (ok, w2) = alloc_ok E size_ee w1
      in if ok then Some (0, a\<lparr>a_vram := vram, a_buffer := Some (replicate size_ee 0)\<rparr>, w2) else None)"

text \<open>\<open>realloc\<close> to \<open>n\<close> entries, of which those behind the old ones are not initialised.\<close>

definition grow_slots :: "'w font_env \<Rightarrow> nat \<Rightarrow> FontGlyphSlot list option \<Rightarrow> 'w \<Rightarrow> FontGlyphSlot list" where
  "grow_slots E n slots w =
     (let old = (case slots of None \<Rightarrow> [] | Some l \<Rightarrow> l) in map (\<lambda>i. if i < length old then old ! i else junk_slot E i w) [0..<n])"

text \<open>A new entry at a place; without memory for it the atlas loses all its entries.\<close>

definition new_slot :: "'w font_env \<Rightarrow> int \<Rightarrow> int \<Rightarrow> (FontAtlas \<Rightarrow> FontAtlas) \<Rightarrow> FontAtlas \<Rightarrow> 'w \<Rightarrow> nat option \<times> FontAtlas \<times> 'w" where
  "new_slot E x y moved a w =
     (let n = NumGlyphs a + 1; (ok, w1) = alloc_ok E (20 * n) w in
      if ok
      then let slots = grow_slots E n (a_slots a) w1 in
        (Some (n - 1), moved (a\<lparr>NumGlyphs := n, a_slots := Some (slots[n - 1 := (slots ! (n - 1))\<lparr>VramPageX := ushort x, VramPageY := ushort y\<rparr>])\<rparr>), w1)
      else (None, a\<lparr>NumGlyphs := 0, a_slots := None\<rparr>, w1))"

definition frontier_right :: "int \<Rightarrow> int \<Rightarrow> FontAtlas \<Rightarrow> FontAtlas" where
  "frontier_right width height a =
     (let f0 = frontier0 a; f1 = frontier1 a;
          g0 = f0\<lparr>fr_width := short (fr_width f0 - (width + 1)), fr_x := short (fr_x f0 + (width + 1))\<rparr>;
          bottom = short (fr_y g0 + height + 1)
      in a\<lparr>frontier0 := g0,
           frontier1 := (if fr_y f1 < fr_y g0 + height + 1 then f1\<lparr>fr_y := bottom, fr_height := short (FNT_ATLAS_HEIGHT - bottom)\<rparr> else f1)\<rparr>)"

definition frontier_down :: "int \<Rightarrow> int \<Rightarrow> FontAtlas \<Rightarrow> FontAtlas" where
  "frontier_down width height a =
     (let f1 = frontier1 a in
      a\<lparr>frontier0 := \<lparr>fr_x = short (width + 1), fr_y = fr_y f1, fr_width = short (FNT_ATLAS_WIDTH - (width + 1)), fr_height = fr_height f1\<rparr>,
        frontier1 := f1\<lparr>fr_height := short (fr_height f1 - (height + 1)), fr_y := short (fr_y f1 + (height + 1))\<rparr>\<rparr>)"

definition frontier_first :: "int \<Rightarrow> int \<Rightarrow> FontAtlas \<Rightarrow> FontAtlas" where
  "frontier_first width height a = a\<lparr>
     frontier0 := \<lparr>fr_x = short (width + 1), fr_y = 0, fr_width = short (FNT_ATLAS_WIDTH - (width + 1)), fr_height = FNT_ATLAS_HEIGHT\<rparr>,
     frontier1 := \<lparr>fr_x = 0, fr_y = short (height + 1), fr_width = FNT_ATLAS_WIDTH, fr_height = short (FNT_ATLAS_HEIGHT - (height + 1))\<rparr>\<rparr>"

definition room :: "FontFrontier \<Rightarrow> int \<Rightarrow> int \<Rightarrow> bool" where
  "room f width height \<longleftrightarrow> width + 1 \<le> fr_width f \<and> height + 1 \<le> fr_height f"

definition AtlasAlloc :: "'w font_env \<Rightarrow> ee_font \<Rightarrow> int \<Rightarrow> int \<Rightarrow> FontAtlas \<Rightarrow> 'w \<Rightarrow> (nat option \<times> FontAtlas \<times> 'w) option" where
  "AtlasAlloc E font width height a w =
     (if a_buffer a = None
      then do {
        (r, a1, w1) \<leftarrow> AtlasInit E font a w;
        if r \<noteq> 0 then Some (None, a1, w1)
        else Some (new_slot E 0 0 (\<lambda>b. b) (frontier_first width height a1) w1)
      }
      else if room (frontier0 a) width height
      then Some (new_slot E (fr_x (frontier0 a)) (fr_y (frontier0 a)) (frontier_right width height) a w)
      else if room (frontier1 a) width height
      then Some (new_slot E (fr_x (frontier1 a)) (fr_y (frontier1 a)) (frontier_down width height) a w)
      else Some (None, a, w))"

subsection \<open>Glyphs\<close>

text \<open>A row of a glyph's bitmap is copied into the buffer; None when it does not fit.\<close>

definition copy_row :: "int \<Rightarrow> int \<Rightarrow> ft_glyph \<Rightarrow> nat \<Rightarrow> u8 list \<Rightarrow> u8 list option" where
  "copy_row x y g i buf =
     (let at = x + (y + int i) * FNT_ATLAS_WIDTH; row = take (bm_width g) (drop (i * bm_width g) (bm_data g)) in
      if 0 \<le> at \<and> nat at + bm_width g \<le> length buf \<and> length row = bm_width g
      then Some (take (nat at) buf @ row @ drop (nat at + bm_width g) buf) else None)"

definition AtlasCopyFT :: "FontGlyphSlot \<Rightarrow> ft_glyph \<Rightarrow> u8 list \<Rightarrow> u8 list option" where
  "AtlasCopyFT slot g buf = ofold (copy_row (VramPageX slot) (VramPageY slot) g) [0..<bm_rows g] buf"

text \<open>The first atlas that has room: its number and the number of the entry.\<close>

fun alloc_atlases :: "'w font_env \<Rightarrow> ee_font \<Rightarrow> int \<Rightarrow> int \<Rightarrow> nat list \<Rightarrow> FontAtlas list \<Rightarrow> 'w \<Rightarrow> ((nat \<times> nat) option \<times> FontAtlas list \<times> 'w) option" where
  "alloc_atlases E font width height [] atlases w = Some (None, atlases, w)"
| "alloc_atlases E font width height (i # is) atlases w = do {
     (r, a, w1) \<leftarrow> AtlasAlloc E font width height (atlases ! i) w;
     case r of Some k \<Rightarrow> Some (Some (i, k), atlases[i := a], w1)
     | None \<Rightarrow> alloc_atlases E font width height is (atlases[i := a]) w1
   }"

definition UploadGlyph :: "'w font_env \<Rightarrow> ee_font \<Rightarrow> u32 \<Rightarrow> ft_glyph \<Rightarrow> 'w \<Rightarrow> ((nat \<times> nat) option \<times> ee_font \<times> 'w) option" where
  "UploadGlyph E font character g w = do {
     (r, atlases, w1) \<leftarrow> alloc_atlases E font (short (int (bm_width g))) (short (int (bm_rows g))) [0..<FNT_MAX_ATLASES] (f_atlas font) w;
     case r of None \<Rightarrow> Some (None, font\<lparr>f_atlas := atlases, tex_width := 2\<rparr>, w1)
     | Some (i, k) \<Rightarrow> do {
         let a = atlases ! i;
         slots \<leftarrow> a_slots a;
         let slot = (slots ! k)\<lparr>g_character := character, g_left := short (bitmap_left g), g_top := short (bitmap_top g),
           g_width := ushort (int (bm_width g)), g_height := ushort (int (bm_rows g)),
           advance_x := short (drop_bit 6 (adv_x g)), advance_y := short (drop_bit 6 (adv_y g))\<rparr>;
         buf \<leftarrow> a_buffer a;
         buf1 \<leftarrow> AtlasCopyFT slot g buf;
         let a1 = a\<lparr>a_slots := Some (slots[k := slot]), a_buffer := Some buf1\<rparr>;
         Some (Some (i, k), font\<lparr>f_atlas := atlases[i := a1], tex_vram := a_vram a1, tex_width := 2\<rparr>, GsLoadImage E buf1 (a_vram a1) w1)
       }
   }"

text \<open>The entry of a character; an atlas that counts glyphs but has no table is read through NULL (None).\<close>

fun find_slot :: "u32 \<Rightarrow> nat \<Rightarrow> FontAtlas list \<Rightarrow> (nat \<times> nat) option option" where
  "find_slot character i [] = Some None"
| "find_slot character i (a # as) =
     (if NumGlyphs a = 0 then find_slot character (i + 1) as
      else (case a_slots a of None \<Rightarrow> None
      | Some slots \<Rightarrow>
          if length slots < NumGlyphs a then None
          else (case List.find (\<lambda>k. g_character (slots ! k) = character) [0..<NumGlyphs a] of
              Some k \<Rightarrow> Some (Some (i, k))
            | None \<Rightarrow> find_slot character (i + 1) as)))"

definition GetGlyph :: "'w font_env \<Rightarrow> ee_font \<Rightarrow> u32 \<Rightarrow> bool \<Rightarrow> 'w \<Rightarrow> ((int \<times> (nat \<times> nat) option) \<times> ee_font \<times> 'w) option" where
  "GetGlyph E font character missing w = do {
     r \<leftarrow> find_slot character 0 (f_atlas font);
     case r of Some ik \<Rightarrow> Some ((0, Some ik), font, w)
     | None \<Rightarrow>
         (let index = FT_Get_Char_Index E (f_face font) character w in
          if index \<noteq> 0 \<or> missing
          then (let ((e, g), w1) = FT_Load_Glyph E (f_face font) index w in
                if e \<noteq> 0 then Some ((- 1, None), font, w1)
                else do {
                  (u, font1, w2) \<leftarrow> UploadGlyph E font character g w1;
                  Some ((if u = None then - 1 else 0, u), font1, w2)
                })
          else Some ((1, None), font, w))
   }"

definition slot_at :: "ee_font \<Rightarrow> nat \<times> nat \<Rightarrow> FontGlyphSlot option" where
  "slot_at font ik = map_option (\<lambda>l. l ! snd ik) (a_slots (f_atlas font ! fst ik))"

text \<open>The result, the width of the glyph (which stays as it was after an error), the font and the world.\<close>

definition DrawGlyph ::
    "'w font_env \<Rightarrow> ee_font \<Rightarrow> u32 \<Rightarrow> int \<Rightarrow> int \<Rightarrow> int \<Rightarrow> nat \<Rightarrow> u32 \<Rightarrow> bool \<Rightarrow> int \<Rightarrow> 'w \<Rightarrow> ((int \<times> int) \<times> ee_font \<times> 'w) option" where
  "DrawGlyph E font character x y z scale colour missing width w =
     (if \<not> IsLoaded font then Some ((- 1, width), font, w)
      else do {
        ((r, ik), font1, w1) \<leftarrow> GetGlyph E font character missing w;
        case ik of None \<Rightarrow> Some ((r, width), font1, w1)
        | Some k \<Rightarrow> do {
            slot \<leftarrow> slot_at font1 k;
            let v = a_vram (f_atlas font1 ! fst k);
            Some ((0, short (fmul E scale (advance_x slot))), font1\<lparr>tex_vram := v\<rparr>, draw_char E slot v x y z scale colour w1)
          }
      })"

definition draw_any ::
    "'w font_env \<Rightarrow> u32 \<Rightarrow> int \<Rightarrow> int \<Rightarrow> int \<Rightarrow> nat \<Rightarrow> u32 \<Rightarrow> ('w, 'z) font_state_scheme \<Rightarrow> (int \<times> ('w, 'z) font_state_scheme) option" where
  "draw_any E c x y z scale colour s = do {
     ((r1, d1), f1, w1) \<leftarrow> DrawGlyph E (GS_FTFont s) c x y z scale colour False 0 (ee_world s);
     let s1 = s\<lparr>GS_FTFont := f1, ee_world := w1\<rparr>;
     if r1 = 0 then Some (d1, s1)
     else do {
       ((r2, d2), f2, w2) \<leftarrow> DrawGlyph E (GS_sub_FTFont s1) c x y z scale colour False d1 (ee_world s1);
       let s2 = s1\<lparr>GS_sub_FTFont := f2, ee_world := w2\<rparr>;
       if r2 = 0 then Some (d2, s2)
       else do {
         ((r3, d3), f3, w3) \<leftarrow> DrawGlyph E (GS_FTFont s2) c x y z scale colour True d2 (ee_world s2);
         Some (d3, s2\<lparr>GS_FTFont := f3, ee_world := w3\<rparr>)
       }
     }
   }"

text \<open>
  The text from \<open>str\<close> on at a place; the argument \<open>x0\<close> is the start of a line. A character that is not
  valid moves the position backwards, out of the string (None). \<open>x mod\<close> is on unsigned numbers.
\<close>

function print_loop ::
    "'w font_env \<Rightarrow> int \<Rightarrow> int \<Rightarrow> nat \<Rightarrow> u32 \<Rightarrow> string \<Rightarrow> int \<Rightarrow> int \<Rightarrow> ('w, 'z) font_state_scheme \<Rightarrow> ((int \<times> int) \<times> ('w, 'z) font_state_scheme) option" where
  "print_loop E x0 z scale colour str x y s =
     (if str = [] then Some ((x, y), s)
      else (let (n, c) = mbtowc E (str @ [CHR 0x00]) in
        if n \<le> 0 \<or> length str < nat n then None
        else if c = of_char (CHR 0x0D) then print_loop E x0 z scale colour (drop (nat n) str) x0 y s
        else if c = of_char (CHR 0x0A) then print_loop E x0 z scale colour (drop (nat n) str) x0 (short (y + short (fmul E scale FNT_CHAR_HEIGHT))) s
        else if c = of_char (CHR 0x09)
        then print_loop E x0 z scale colour (drop (nat n) str)
               (short (x + short (fmul E scale (FNT_TAB_STOPS * FNT_CHAR_WIDTH)) - take_bit 32 x mod take_bit 32 (fmul E scale (FNT_TAB_STOPS * FNT_CHAR_WIDTH)))) y s
        else do {
          (d, s1) \<leftarrow> draw_any E c x y z scale colour s;
          print_loop E x0 z scale colour (drop (nat n) str) (short (x + d)) y s1
        }))"
  by pat_completeness auto
termination
  by (relation "measure (\<lambda>(_, _, _, _, _, str, _). length str)") (auto simp: length_greater_0_conv)

declare print_loop.simps [simp del]

text \<open>The scale is in tenths; the result is the room that the text took.\<close>

definition FontPrintfWithFeedback ::
    "'w font_env \<Rightarrow> int \<Rightarrow> int \<Rightarrow> int \<Rightarrow> nat \<Rightarrow> u32 \<Rightarrow> string \<Rightarrow> ('w, 'z) font_state_scheme \<Rightarrow> ((int \<times> int) \<times> ('w, 'z) font_state_scheme) option" where
  "FontPrintfWithFeedback E x y z scale colour str s = do {
     ((x1, y1), s1) \<leftarrow> print_loop E x z scale colour str x y s;
     Some ((short (x1 - x), short (y1 - y)), s1)
   }"

definition FontPrintf :: "'w font_env \<Rightarrow> int \<Rightarrow> int \<Rightarrow> int \<Rightarrow> nat \<Rightarrow> u32 \<Rightarrow> string \<Rightarrow> ('w, 'z) font_state_scheme \<Rightarrow> ('w, 'z) font_state_scheme option" where
  "FontPrintf E x y z scale colour str s = map_option snd (FontPrintfWithFeedback E x y z scale colour str s)"

text \<open>The width of a character; what it returns for a character without a glyph is the error code.\<close>

definition GetGlyphWidth :: "'w font_env \<Rightarrow> ee_font \<Rightarrow> u32 \<Rightarrow> bool \<Rightarrow> 'w \<Rightarrow> (int \<times> ee_font \<times> 'w) option" where
  "GetGlyphWidth E font character missing w =
     (if \<not> IsLoaded font then Some (0, font, w)
      else do {
        ((r, ik), font1, w1) \<leftarrow> GetGlyph E font character missing w;
        case ik of None \<Rightarrow> Some (r, font1, w1)
        | Some k \<Rightarrow> do { slot \<leftarrow> slot_at font1 k; Some (advance_x slot, font1, w1) }
      })"

text \<open>
  The function has no \<open>return\<close>; the value that its caller gets is not defined by the code. This is
  the state it leaves; \<open>looked_up\<close> is the last width, which a compiler may leave in the register.
\<close>

definition FontGetGlyphWidth :: "'w font_env \<Rightarrow> u32 \<Rightarrow> ('w, 'z) font_state_scheme \<Rightarrow> (int \<times> ('w, 'z) font_state_scheme) option" where
  "FontGetGlyphWidth E c s = do {
     (d1, f1, w1) \<leftarrow> GetGlyphWidth E (GS_FTFont s) c False (ee_world s);
     let s1 = s\<lparr>GS_FTFont := f1, ee_world := w1\<rparr>;
     if d1 \<noteq> 0 then Some (d1, s1)
     else do {
       (d2, f2, w2) \<leftarrow> GetGlyphWidth E (GS_sub_FTFont s1) c False (ee_world s1);
       let s2 = s1\<lparr>GS_sub_FTFont := f2, ee_world := w2\<rparr>;
       if d2 \<noteq> 0 then Some (d2, s2)
       else do {
         (d3, f3, w3) \<leftarrow> GetGlyphWidth E (GS_FTFont s2) c True (ee_world s2);
         Some (d3, s2\<lparr>GS_FTFont := f3, ee_world := w3\<rparr>)
       }
     }
   }"

subsection \<open>Loading\<close>

definition no_frontier :: "FontFrontier \<Rightarrow> FontFrontier" where
  "no_frontier f = f\<lparr>fr_width := 0, fr_height := 0\<rparr>"

definition reset_atlas :: "FontAtlas \<Rightarrow> FontAtlas" where
  "reset_atlas a = \<lparr>a_vram = - 1, a_buffer = None, NumGlyphs = 0, a_slots = None,
     frontier0 = no_frontier (frontier0 a), frontier1 = no_frontier (frontier1 a)\<rparr>"

definition ResetThisFont :: "'w font_env \<Rightarrow> ee_font \<Rightarrow> 'w \<Rightarrow> int \<times> ee_font \<times> 'w" where
  "ResetThisFont E font w =
     (let (vram, w1) = GsVramAllocTextureBuffer E 16 16 w in
      if 0 \<le> sint vram
      then (0, font\<lparr>f_atlas := map reset_atlas (f_atlas font)\<rparr>, UploadClut E (take_bit 16 vram) w1)
      else (- 1, font, w1))"

definition FontReset :: "'w font_env \<Rightarrow> ('w, 'z) font_state_scheme \<Rightarrow> int \<times> ('w, 'z) font_state_scheme" where
  "FontReset E s =
     (let (r, f, w) = ResetThisFont E (GS_FTFont s) (ee_world s); s1 = s\<lparr>GS_FTFont := f, ee_world := w\<rparr> in
      if r = 0 then (let (_, f2, w2) = ResetThisFont E (GS_sub_FTFont s1) (ee_world s1) in (0, s1\<lparr>GS_sub_FTFont := f2, ee_world := w2\<rparr>))
      else (0, s1))"

text \<open>The table of colours (1024 bytes) is written without a check of its allocation (None).\<close>

definition InitFontSupportCommon :: "'w font_env \<Rightarrow> ee_font \<Rightarrow> 'w \<Rightarrow> (int \<times> ee_font \<times> 'w) option" where
  "InitFontSupportCommon E font w =
     (let (r, w1) = FT_Set_Pixel_Sizes E (f_face font) w in
      if r \<noteq> 0 then Some (r, font, w1)
      else (let (ok, w2) = alloc_ok E 1024 w1 in
        if \<not> ok then None
        else (let font1 = font\<lparr>ClutMem := True\<rparr>;
                  (_, font2, w3) = (if IsInit font1 then (0, font1, w2) else ResetThisFont E font1 w2)
              in Some (0, font2\<lparr>IsLoaded := True, IsInit := True\<rparr>, w3))))"

text \<open>All atlases lose their tables, but only the first one its number of glyphs.\<close>

definition UnloadFont :: "'w font_env \<Rightarrow> ee_font \<Rightarrow> 'w \<Rightarrow> ee_font \<times> 'w" where
  "UnloadFont E font w =
     (let atlases = map (\<lambda>a. a\<lparr>a_buffer := None, a_slots := None\<rparr>) (f_atlas font) in
      (font\<lparr>f_atlas := (case atlases of [] \<Rightarrow> [] | a # as \<Rightarrow> a\<lparr>NumGlyphs := 0\<rparr> # as), ClutMem := False, IsLoaded := False\<rparr>,
       if IsLoaded font then FT_Done_Face E (f_face font) w else w))"

definition FontDeinit :: "'w font_env \<Rightarrow> ('w, 'z) font_state_scheme \<Rightarrow> ('w, 'z) font_state_scheme" where
  "FontDeinit E s = (let (f, w) = UnloadFont E (GS_sub_FTFont s) (ee_world s) in s\<lparr>GS_sub_FTFont := f, ee_world := w\<rparr>)"

text \<open>The rest of the initialisation of the main font after FreeType has answered \<open>r\<close> for its face.\<close>

definition finish_init :: "'w font_env \<Rightarrow> (int \<times> nat) \<times> 'w \<Rightarrow> ('w, 'z) font_state_scheme \<Rightarrow> (int \<times> ('w, 'z) font_state_scheme) option" where
  "finish_init E rf s =
     (let ((r, face), w) = rf; s1 = s\<lparr>GS_FTFont := (GS_FTFont s)\<lparr>f_face := face\<rparr>, ee_world := w\<rparr> in
      if r \<noteq> 0 then Some (r, FontDeinit E s1)
      else do {
        (r2, f, w2) \<leftarrow> InitFontSupportCommon E (GS_FTFont s1) (ee_world s1);
        let s2 = s1\<lparr>GS_FTFont := f, ee_world := w2\<rparr>;
        Some (r2, if r2 \<noteq> 0 then FontDeinit E s2 else s2)
      })"

definition FontInit :: "'w font_env \<Rightarrow> string \<Rightarrow> ('w, 'z) font_state_scheme \<Rightarrow> (int \<times> ('w, 'z) font_state_scheme) option" where
  "FontInit E file s =
     (let (r, w) = FT_Init_FreeType E (ee_world s) in
      if r \<noteq> 0 then Some (r, s\<lparr>ee_world := w\<rparr>) else finish_init E (FT_New_Face E file w) s)"

definition FontInitWithBuffer :: "'w font_env \<Rightarrow> u8 list \<Rightarrow> ('w, 'z) font_state_scheme \<Rightarrow> (int \<times> ('w, 'z) font_state_scheme) option" where
  "FontInitWithBuffer E buffer s =
     (let (r, w) = FT_Init_FreeType E (ee_world s) in
      if r \<noteq> 0 then Some (r, s\<lparr>ee_world := w\<rparr>) else finish_init E (FT_New_Memory_Face E buffer w) s)"

definition add_sub :: "'w font_env \<Rightarrow> (int \<times> nat) \<times> 'w \<Rightarrow> ('w, 'z) font_state_scheme \<Rightarrow> (int \<times> ('w, 'z) font_state_scheme) option" where
  "add_sub E rf s =
     (let ((r, face), w) = rf; s1 = s\<lparr>GS_sub_FTFont := (GS_sub_FTFont s)\<lparr>f_face := face\<rparr>, ee_world := w\<rparr> in
      if r \<noteq> 0 then Some (r, FontDeinit E s1)
      else do {
        (r2, f, w2) \<leftarrow> InitFontSupportCommon E (GS_sub_FTFont s1) (ee_world s1);
        let s2 = s1\<lparr>GS_sub_FTFont := f, ee_world := w2\<rparr>;
        Some (r2, if r2 \<noteq> 0 then FontDeinit E s2 else s2)
      })"

definition AddSubFont :: "'w font_env \<Rightarrow> string \<Rightarrow> ('w, 'z) font_state_scheme \<Rightarrow> (int \<times> ('w, 'z) font_state_scheme) option" where
  "AddSubFont E file s = add_sub E (FT_New_Face E file (ee_world s)) s"

definition AddSubFontWithBuffer :: "'w font_env \<Rightarrow> u8 list \<Rightarrow> ('w, 'z) font_state_scheme \<Rightarrow> (int \<times> ('w, 'z) font_state_scheme) option" where
  "AddSubFontWithBuffer E buffer s = add_sub E (FT_New_Memory_Face E buffer (ee_world s)) s"

end
