(* ===== verification/EeLang.thy ===== *)
theory EeLang
  imports EeFont Hdst
begin

text \<open>
  The texts of the launcher: \<open>lang.h\<close>, \<open>lang.c\<close> and the first part of \<open>UI.c\<close>, which reads them from
  files or takes the built-in ones, and breaks the long lines. This is the build of the whole
  tool; the stand-alone checker has fewer texts.
\<close>

subsection \<open>Texts and labels\<close>

datatype sys_ui_message = SYS_UI_MSG_NO_HDD | SYS_UI_MSG_FORMAT_HDD | SYS_UI_MSG_FORMAT_HDD_FAILED | SYS_UI_MSG_QUIT | SYS_UI_MSG_PLEASE_WAIT
  | SYS_UI_MSG_HDD_FAULT | SYS_UI_MSG_DSC_SCAN_DISK | SYS_UI_MSG_DSC_OPT_DISK | SYS_UI_MSG_DSC_SURF_SCAN_DISK
  | SYS_UI_MSG_DSC_ZERO_FILL_DISK | SYS_UI_MSG_DSC_QUIT | SYS_UI_MSG_SECTOR_PATCH_FAIL | SYS_UI_MSG_BAD_SECTOR_FOUND
  | SYS_UI_MSG_UNEXPECTED_ATA_ERR | SYS_UI_MSG_SCAN_DISK_CFM | SYS_UI_MSG_SCAN_DISK_COMPLETED_OK
  | SYS_UI_MSG_SCAN_DISK_ABORT_CFM | SYS_UI_MSG_OPT_DISK_CFM | SYS_UI_MSG_OPT_DISK_COMPLETED_OK
  | SYS_UI_MSG_OPT_DISK_ABORT_CFM | SYS_UI_MSG_SURF_SCAN_DISK_CFM | SYS_UI_MSG_SURF_SCAN_DISK_COMPLETED_OK
  | SYS_UI_MSG_SURF_SCAN_DISK_ABORT_CFM | SYS_UI_MSG_ZERO_FILL_DISK_CFM | SYS_UI_MSG_ZERO_FILL_DISK_COMPLETED_OK
  | SYS_UI_MSG_ZERO_FILL_DISK_ABORT_CFM | SYS_UI_MSG_ZERO_FILL_DISK_CFM_2 | SYS_UI_MSG_HDD_CORRUPTED
  | SYS_UI_MSG_HDD_SMART_FAILED

datatype sys_ui_label = SYS_UI_LBL_OK | SYS_UI_LBL_CANCEL | SYS_UI_LBL_PASS | SYS_UI_LBL_FAIL | SYS_UI_LBL_YES | SYS_UI_LBL_NO | SYS_UI_LBL_NEXT
  | SYS_UI_LBL_BACK | SYS_UI_LBL_ENABLED | SYS_UI_LBL_DISABLED | SYS_UI_LBL_TOGGLE_OPTION | SYS_UI_LBL_SELECT_FIELD
  | SYS_UI_LBL_QUIT | SYS_UI_LBL_ABORT | SYS_UI_LBL_WARNING | SYS_UI_LBL_ERROR | SYS_UI_LBL_INFO | SYS_UI_LBL_CONFIRM
  | SYS_UI_LBL_WAIT | SYS_UI_LBL_SCANNING_DISK | SYS_UI_LBL_SURF_SCANNING_DISK | SYS_UI_LBL_ZERO_FILLING_DISK
  | SYS_UI_LBL_ETA | SYS_UI_LBL_REMAP | SYS_UI_LBL_REMAP_ALL | SYS_UI_LBL_SKIP | SYS_UI_LBL_SKIP_ALL
  | SYS_UI_LBL_BAD_SECTORS | SYS_UI_LBL_ATA_UNIT_0 | SYS_UI_LBL_MODEL | SYS_UI_LBL_SERIAL | SYS_UI_LBL_FIRMWARE
  | SYS_UI_LBL_SMART_STATUS | SYS_UI_LBL_CAPACITY | SYS_UI_LBL_SCAN_DISK | SYS_UI_LBL_OPT_DISK
  | SYS_UI_LBL_SURF_SCAN_DISK | SYS_UI_LBL_ZERO_FILL_DISK | SYS_UI_LBL_OPTIMIZING_DISK_P1
  | SYS_UI_LBL_OPTIMIZING_DISK_P2 | SYS_UI_LBL_MB | SYS_UI_LBL_GB | SYS_UI_LBL_TB | SYS_UI_LBL_SCAN_RESULTS
  | SYS_UI_LBL_ERRORS_FOUND | SYS_UI_LBL_ERRORS_FIXED | SYS_UI_LBL_SOME_ERRORS_NOT_FIXED

primrec msg_id :: "sys_ui_message \<Rightarrow> nat" where
  "msg_id SYS_UI_MSG_NO_HDD = 0"
| "msg_id SYS_UI_MSG_FORMAT_HDD = 1"
| "msg_id SYS_UI_MSG_FORMAT_HDD_FAILED = 2"
| "msg_id SYS_UI_MSG_QUIT = 3"
| "msg_id SYS_UI_MSG_PLEASE_WAIT = 4"
| "msg_id SYS_UI_MSG_HDD_FAULT = 5"
| "msg_id SYS_UI_MSG_DSC_SCAN_DISK = 6"
| "msg_id SYS_UI_MSG_DSC_OPT_DISK = 7"
| "msg_id SYS_UI_MSG_DSC_SURF_SCAN_DISK = 8"
| "msg_id SYS_UI_MSG_DSC_ZERO_FILL_DISK = 9"
| "msg_id SYS_UI_MSG_DSC_QUIT = 10"
| "msg_id SYS_UI_MSG_SECTOR_PATCH_FAIL = 11"
| "msg_id SYS_UI_MSG_BAD_SECTOR_FOUND = 12"
| "msg_id SYS_UI_MSG_UNEXPECTED_ATA_ERR = 13"
| "msg_id SYS_UI_MSG_SCAN_DISK_CFM = 14"
| "msg_id SYS_UI_MSG_SCAN_DISK_COMPLETED_OK = 15"
| "msg_id SYS_UI_MSG_SCAN_DISK_ABORT_CFM = 16"
| "msg_id SYS_UI_MSG_OPT_DISK_CFM = 17"
| "msg_id SYS_UI_MSG_OPT_DISK_COMPLETED_OK = 18"
| "msg_id SYS_UI_MSG_OPT_DISK_ABORT_CFM = 19"
| "msg_id SYS_UI_MSG_SURF_SCAN_DISK_CFM = 20"
| "msg_id SYS_UI_MSG_SURF_SCAN_DISK_COMPLETED_OK = 21"
| "msg_id SYS_UI_MSG_SURF_SCAN_DISK_ABORT_CFM = 22"
| "msg_id SYS_UI_MSG_ZERO_FILL_DISK_CFM = 23"
| "msg_id SYS_UI_MSG_ZERO_FILL_DISK_COMPLETED_OK = 24"
| "msg_id SYS_UI_MSG_ZERO_FILL_DISK_ABORT_CFM = 25"
| "msg_id SYS_UI_MSG_ZERO_FILL_DISK_CFM_2 = 26"
| "msg_id SYS_UI_MSG_HDD_CORRUPTED = 27"
| "msg_id SYS_UI_MSG_HDD_SMART_FAILED = 28"

primrec lbl_id :: "sys_ui_label \<Rightarrow> nat" where
  "lbl_id SYS_UI_LBL_OK = 0"
| "lbl_id SYS_UI_LBL_CANCEL = 1"
| "lbl_id SYS_UI_LBL_PASS = 2"
| "lbl_id SYS_UI_LBL_FAIL = 3"
| "lbl_id SYS_UI_LBL_YES = 4"
| "lbl_id SYS_UI_LBL_NO = 5"
| "lbl_id SYS_UI_LBL_NEXT = 6"
| "lbl_id SYS_UI_LBL_BACK = 7"
| "lbl_id SYS_UI_LBL_ENABLED = 8"
| "lbl_id SYS_UI_LBL_DISABLED = 9"
| "lbl_id SYS_UI_LBL_TOGGLE_OPTION = 10"
| "lbl_id SYS_UI_LBL_SELECT_FIELD = 11"
| "lbl_id SYS_UI_LBL_QUIT = 12"
| "lbl_id SYS_UI_LBL_ABORT = 13"
| "lbl_id SYS_UI_LBL_WARNING = 14"
| "lbl_id SYS_UI_LBL_ERROR = 15"
| "lbl_id SYS_UI_LBL_INFO = 16"
| "lbl_id SYS_UI_LBL_CONFIRM = 17"
| "lbl_id SYS_UI_LBL_WAIT = 18"
| "lbl_id SYS_UI_LBL_SCANNING_DISK = 19"
| "lbl_id SYS_UI_LBL_SURF_SCANNING_DISK = 20"
| "lbl_id SYS_UI_LBL_ZERO_FILLING_DISK = 21"
| "lbl_id SYS_UI_LBL_ETA = 22"
| "lbl_id SYS_UI_LBL_REMAP = 23"
| "lbl_id SYS_UI_LBL_REMAP_ALL = 24"
| "lbl_id SYS_UI_LBL_SKIP = 25"
| "lbl_id SYS_UI_LBL_SKIP_ALL = 26"
| "lbl_id SYS_UI_LBL_BAD_SECTORS = 27"
| "lbl_id SYS_UI_LBL_ATA_UNIT_0 = 28"
| "lbl_id SYS_UI_LBL_MODEL = 29"
| "lbl_id SYS_UI_LBL_SERIAL = 30"
| "lbl_id SYS_UI_LBL_FIRMWARE = 31"
| "lbl_id SYS_UI_LBL_SMART_STATUS = 32"
| "lbl_id SYS_UI_LBL_CAPACITY = 33"
| "lbl_id SYS_UI_LBL_SCAN_DISK = 34"
| "lbl_id SYS_UI_LBL_OPT_DISK = 35"
| "lbl_id SYS_UI_LBL_SURF_SCAN_DISK = 36"
| "lbl_id SYS_UI_LBL_ZERO_FILL_DISK = 37"
| "lbl_id SYS_UI_LBL_OPTIMIZING_DISK_P1 = 38"
| "lbl_id SYS_UI_LBL_OPTIMIZING_DISK_P2 = 39"
| "lbl_id SYS_UI_LBL_MB = 40"
| "lbl_id SYS_UI_LBL_GB = 41"
| "lbl_id SYS_UI_LBL_TB = 42"
| "lbl_id SYS_UI_LBL_SCAN_RESULTS = 43"
| "lbl_id SYS_UI_LBL_ERRORS_FOUND = 44"
| "lbl_id SYS_UI_LBL_ERRORS_FIXED = 45"
| "lbl_id SYS_UI_LBL_SOME_ERRORS_NOT_FIXED = 46"

definition SYS_UI_MSG_COUNT :: nat where "SYS_UI_MSG_COUNT = 29"
definition SYS_UI_LBL_COUNT :: nat where "SYS_UI_LBL_COUNT = 47"

definition nl :: string where "nl = [CHR 0x0A]"

definition DefaultLanguageStringTable :: "string list" where
  "DefaultLanguageStringTable = [
     ''No HardDisk Drive (HDD) unit was detected.'',
     ''The HardDisk Drive (HDD) unit is not formatted. Format?'' @ nl @ ''Warning: All data will be erased.'',
     ''Failed to format the HardDisk Drive (HDD) unit.'',
     ''Quit program?'',
     ''Please wait...'',
     ''There was a problem accessing the disk.'' @ nl @ ''The operation cannot be completed.'',
     ''Check the disk for problems'',
     ''Optimize the disk.'' @ nl @ ''Available space may be increased.'',
     ''Perform a surface scan on the disk'',
     ''Write zeros to every sector on the disk.'',
     ''Quit program.'',
     ''The bad sector could not be remapped.'',
     ''Bad sector found at LBA %lu.'' @ nl @ '''' @ nl @ ''The file stored within the remapped sectors will be lost.'' @ nl @ '''' @ nl @ ''Select action:'',
     ''An unexpected I/O error has occurred.'',
     ''Proceed with scanning the disk?'' @ nl @ ''Corrupted data will be deleted.'',
     ''Disk scan completed.'',
     ''Abort scan operation?'',
     ''Proceed with optimizing the disk?'',
     ''Disk optimization completed.'',
     ''Abort optimization?'',
     ''Proceed with the surface scan?'',
     ''Disk surface scan completed.'',
     ''Abort surface scan operation?'',
     ''Proceed with zero-filling the disk?'',
     ''Disk zero-filled successfully.'',
     ''Abort zero-fill operation?'',
     ''Press START+SELECT to continue.'' @ nl @ ''Press any other button to abort.'',
     ''The HardDisk Drive (HDD) unit has a problem.'' @ nl @ ''Please run a disk check first.'',
     ''S.M.A.R.T. has reported that the HardDisk Drive (HDD) unit has failed.'' @ nl @ '''' @ nl @ ''The HDD unit must be replaced.'']"

definition DefaultLanguageLabelStringTable :: "string list" where
  "DefaultLanguageLabelStringTable = [
     ''OK'',
     ''Cancel'',
     ''PASS'',
     ''FAIL'',
     ''Yes'',
     ''No'',
     ''Next'',
     ''Back'',
     ''Enabled'',
     ''Disabled'',
     ''Toggle option'',
     ''Select field'',
     ''Quit program'',
     ''Abort'',
     ''Warning'',
     ''Error'',
     ''Information'',
     ''Confirmation'',
     ''Please wait'',
     ''Scanning disk'',
     ''Surface scanning disk'',
     ''Zero-filling disk'',
     ''Time remaining:'',
     ''Remap'',
     ''Skip'',
     ''Remap all'',
     ''Skip all'',
     ''Bad sectors:'',
     ''ATA unit 0:'',
     ''Model:'',
     ''Serial:'',
     ''Firmware:'',
     ''SMART status:'',
     ''Capacity:'',
     ''Check disk for errors'',
     ''Optimize disk'',
     ''Perform surface scan'',
     ''Zero-fill disk'',
     ''Optimizing disk (1/2)'',
     ''Optimizing disk (2/2)'',
     ''MB'',
     ''GB'',
     ''TB'',
     ''Scan Results'',
     ''Errors found:'',
     ''Errors fixed:'',
     ''Some errors could not be fixed.'']"

subsection \<open>State\<close>

datatype menu_item = MITEM_SEPERATOR | MITEM_TAB | MITEM_SPACE | MITEM_BREAK | MITEM_DASH | MITEM_COLON | MITEM_DOT | MITEM_SLASH
  | MITEM_PROGRESS | MITEM_LABEL | MITEM_STRING | MITEM_VALUE | MITEM_BUTTON | MITEM_TOGGLE | MITEM_ENUM | MITEM_TERMINATOR

text \<open>
  The first word of the union of an item: a number (a value or the identity of a label), the
  address of a string, or the address of a table of labels.
\<close>

datatype item_word = Num s32 | Str "string option" | Labels "s32 list"

text \<open>
  The other words: \<open>it_w1\<close> is \<open>min\<close>, \<open>maxlen\<close>, \<open>count\<close> or \<open>TextWidth\<close>, \<open>it_w2\<close> is \<open>max\<close> or \<open>selectedIndex\<close>.
\<close>

record UIMenuItem =
  it_type :: menu_item
  it_id :: u8
  it_flags :: u8
  it_format :: u8
  it_width :: u8
  it_x :: int
  it_y :: int
  it_w0 :: item_word
  it_w1 :: int
  it_w2 :: int

datatype menu_name = HDDMainMenu | ProgressScreen | ScanResultsScreen | MessageBoxMenu

record UIMenu =
  menu_next :: "menu_name option"
  menu_prev :: "menu_name option"
  menu_items :: "UIMenuItem list"
  menu_hints :: "(int \<times> int) list"

text \<open>
  The calls that draw on the screen, and \<open>SyncFlipFB\<close>. \<open>WaitDevice\<close> is the delay of \<open>WaitForDevice\<close>.
\<close>

datatype screen_call = DrawBackground | DrawLine int int int int int u32 | DrawSprite int int int int int u32
  | DrawProgressBar int int int int int u32 | DrawButtonLegend int int int int | SyncFlipFB | LoadTextures | ClearDrawEnv
  | SetupGraphics int int int int int | WaitDevice

text \<open>
  The world of the launcher: pads, screen, files of the boot device and of the ROM. \<open>str_at\<close> and
  \<open>addr_of\<close> relate an address and the string there, \<open>sprint\<close> is \<open>sprintf\<close> of one number, \<open>ret_width\<close> is
  what the caller of \<open>FontGetGlyphWidth\<close> finds in the result register. A file is its contents, or
  the error number.
\<close>

record 'w ui_env =
  fnt :: "'w font_env"
  padRead :: "nat \<Rightarrow> 'w \<Rightarrow> u16 option \<times> 'w"
  pad_port :: "bool \<Rightarrow> 'w \<Rightarrow> 'w"
  screen :: "screen_call \<Rightarrow> 'w \<Rightarrow> 'w"
  draw_legend :: "int \<Rightarrow> int \<Rightarrow> int \<Rightarrow> int \<Rightarrow> 'w \<Rightarrow> int \<times> 'w"
  read_file :: "string \<Rightarrow> 'w \<Rightarrow> (int + string) \<times> 'w"
  str_at :: "s32 \<Rightarrow> string option"
  addr_of :: "string option \<Rightarrow> s32"
  addr_labels :: "s32 list \<Rightarrow> s32"
  sprint :: "string \<Rightarrow> s32 \<Rightarrow> string"
  ret_width :: "int \<Rightarrow> int"
  configGetLanguage :: "'w \<Rightarrow> int"
  PAD_UP :: u16
  PAD_DOWN :: u16
  PAD_LEFT :: u16
  PAD_RIGHT :: u16
  PAD_R1 :: u16
  PAD_L1 :: u16
  PAD_START :: u16
  PAD_SELECT :: u16
  PAD_CIRCLE :: u16
  PAD_CROSS :: u16

record 'w ui_state = "'w font_state" +
  LangStringTable :: "string option list"
  LangLblStringTable :: "string option list"
  LangStringWrapTable :: "bool list"
  ui_language :: int
  gFontBuffer :: "string option"
  screen_width :: int
  screen_height :: int
  menus :: "menu_name \<Rightarrow> UIMenu"
  old_pad :: "nat \<Rightarrow> u32"
  SelectButton :: u16
  CancelButton :: u16
  ETADisplayed :: bool
  console_region :: int
  console_psx :: int

definition on_screen :: "'w ui_env \<Rightarrow> screen_call \<Rightarrow> ('w, 'z) ui_state_scheme \<Rightarrow> ('w, 'z) ui_state_scheme" where
  "on_screen E c = wdo (screen E c)"

definition NUM_SUPPORTED_LANGUAGES :: nat where "NUM_SUPPORTED_LANGUAGES = 8"
definition LANGUAGE_ENGLISH :: int where "LANGUAGE_ENGLISH = 1"
definition UI_OFFSET_X :: int where "UI_OFFSET_X = 8"
definition UI_OFFSET_Y :: int where "UI_OFFSET_Y = 8"

subsection \<open>Escapes and long lines\<close>

text \<open>
  The characters up to the zero, with "\n" of a file made a newline. Any other character behind a
  backslash is dropped with it. The wide characters are compared with their codes.
\<close>

function FormatLanguageString :: "(string \<Rightarrow> int \<times> u32) \<Rightarrow> string \<Rightarrow> string" where
  "FormatLanguageString mb str =
     (let (n1, c1) = mb (str @ [CHR 0x00]) in
      if str = [] \<or> n1 \<le> 0 \<or> c1 = 0 then []
      else (let rest = drop (nat n1) str; (n2, c2) = mb (rest @ [CHR 0x00]) in
            if 0 < n2 \<and> c1 = of_char (CHR 0x5C) \<and> c2 \<noteq> 0
            then (if c2 = of_char (CHR ''n'') then nl else []) @ FormatLanguageString mb (drop (nat n2) rest)
            else take (nat n1) str @ FormatLanguageString mb rest))"
  by pat_completeness auto
termination
  by (relation "measure (\<lambda>(_, str). length str)") (auto simp: less_diff_conv)

declare FormatLanguageString.simps [simp del]

text \<open>
  The loop of \<open>BreakLongLanguageString\<close> at a position: the pixels in the line and since the last
  space, and where that space is. Where a line gets too long the last space becomes a newline.
\<close>

function break_loop ::
    "'w ui_env \<Rightarrow> int \<Rightarrow> nat \<Rightarrow> string \<Rightarrow> int \<Rightarrow> int \<Rightarrow> nat option \<Rightarrow> ('w, 'z) ui_state_scheme \<Rightarrow> (string \<times> ('w, 'z) ui_state_scheme) option" where
  "break_loop E line_max pos str line since lastsp s =
     (let (n, c) = mbtowc (fnt E) (drop pos str @ [CHR 0x00]) in
      if length str \<le> pos \<or> n \<le> 0 \<or> c = 0 then Some (str, s)
      else if c = of_char (CHR 0x0A) then break_loop E line_max (pos + nat n) str 0 0 None s
      else (let blank = (c = of_char (CHR 0x20)); lastsp1 = (if blank then Some pos else lastsp); since1 = (if blank then 0 else since) in do {
        (v, s1) \<leftarrow> FontGetGlyphWidth (fnt E) c s;
        let width = ret_width E v;
        let wrap = (line_max \<le> line + width \<and> lastsp1 \<noteq> None);
        break_loop E line_max (pos + nat n) (if wrap then str[the lastsp1 := CHR 0x0A] else str)
          ((if wrap then since1 else line) + width) (if blank then since1 else since1 + width) (if wrap then None else lastsp1) s1
      }))"
  by pat_completeness auto
termination
  by (relation "measure (\<lambda>(_, _, pos, str, _). length str - pos)") auto

declare break_loop.simps [simp del]

definition BreakLongLanguageString :: "'w ui_env \<Rightarrow> string \<Rightarrow> ('w, 'z) ui_state_scheme \<Rightarrow> (string \<times> ('w, 'z) ui_state_scheme) option" where
  "BreakLongLanguageString E str s = break_loop E (screen_width s - 2 * UI_OFFSET_X) 0 str 0 0 None s"

subsection \<open>Files of texts\<close>

text \<open>\<open>fgets\<close> until the end of the file: pieces of at most \<open>n\<close> characters that end at a newline.\<close>

function fgets_lines :: "nat \<Rightarrow> string \<Rightarrow> string list" where
  "fgets_lines n txt =
     (if txt = [] \<or> n = 0 then []
      else (let piece = take n txt; p = takeWhile (\<lambda>c. c \<noteq> CHR 0x0A) piece; l = take (length p + 1) piece
            in l # fgets_lines n (drop (length l) txt)))"
  by pat_completeness auto
termination
  by (relation "measure (\<lambda>(_, txt). length txt)") (auto simp: Let_def min_def)

declare fgets_lines.simps [simp del]

text \<open>A line up to its first zero and without its newline.\<close>

definition strip_line :: "string \<Rightarrow> string" where
  "strip_line line = (let l = takeWhile (\<lambda>c. c \<noteq> CHR 0x00) line in if l \<noteq> [] \<and> last l = CHR 0x0A then butlast l else l)"

text \<open>\<open>malloc\<close>, the text and \<open>realloc\<close>: None when the first fails; the second can leave NULL.\<close>

definition store_text :: "'w ui_env \<Rightarrow> string \<Rightarrow> ('w, 'z) ui_state_scheme \<Rightarrow> string option option \<times> ('w, 'z) ui_state_scheme" where
  "store_text E str s =
     (let (ok, s1) = wcall (alloc_ok (fnt E) (length str + 1)) s in
      if \<not> ok then (None, s1)
      else (let out = FormatLanguageString (mbtowc (fnt E)) str; (ok2, s2) = wcall (alloc_ok (fnt E) (length out + 1)) s1
            in (Some (if ok2 then Some out else None), s2)))"

text \<open>The lines are stored from index \<open>i\<close> on; an index past the table is None.\<close>

fun parse_lang_lines ::
    "'w ui_env \<Rightarrow> string list \<Rightarrow> nat \<Rightarrow> string option list \<Rightarrow> ('w, 'z) ui_state_scheme \<Rightarrow> ((int \<times> nat) \<times> string option list \<times> ('w, 'z) ui_state_scheme) option" where
  "parse_lang_lines E [] i tab s = Some ((0, i), tab, s)"
| "parse_lang_lines E (l # ls) i tab s =
     (if length tab \<le> i then None
      else (let (r, s1) = store_text E (strip_line l) s in
        case r of None \<Rightarrow> Some ((- ENOMEM, i), tab[i := None], s1)
        | Some p \<Rightarrow> parse_lang_lines E ls (i + 1) (tab[i := p]) s1))"

definition bom :: string where "bom = [CHR 0xEF, CHR 0xBB, CHR 0xBF]"

definition ParseLanguageFile ::
    "'w ui_env \<Rightarrow> string option list \<Rightarrow> string \<Rightarrow> nat \<Rightarrow> ('w, 'z) ui_state_scheme \<Rightarrow> (int \<times> string option list \<times> ('w, 'z) ui_state_scheme) option" where
  "ParseLanguageFile E tab file expected s = do {
     ((r, n), tab1, s1) \<leftarrow> parse_lang_lines E (fgets_lines 511 (if take 3 file = bom then drop 3 file else file)) 0 tab s;
     Some (if r = 0 \<and> n \<noteq> expected then - 1 else r, tab1, s1)
   }"

fun parse_font_lines ::
    "'w ui_env \<Rightarrow> nat \<Rightarrow> string list \<Rightarrow> nat \<Rightarrow> string option list \<Rightarrow> ('w, 'z) ui_state_scheme \<Rightarrow> ((int \<times> nat) \<times> string option list \<times> ('w, 'z) ui_state_scheme) option" where
  "parse_font_lines E expected [] i tab s = Some ((0, i), tab, s)"
| "parse_font_lines E expected (l # ls) i tab s =
     (if expected \<le> i then parse_font_lines E expected ls (i + 1) tab s
      else if length tab \<le> i then None
      else (let (r, s1) = store_text E (strip_line l) s in
        case r of None \<Rightarrow> Some ((- ENOMEM, i), tab[i := None], s1)
        | Some p \<Rightarrow> parse_font_lines E expected ls (i + 1) (tab[i := p]) s1))"

definition ParseFontListFile ::
    "'w ui_env \<Rightarrow> string option list \<Rightarrow> string \<Rightarrow> nat \<Rightarrow> ('w, 'z) ui_state_scheme \<Rightarrow> (int \<times> string option list \<times> ('w, 'z) ui_state_scheme) option" where
  "ParseFontListFile E tab file expected s = do {
     ((r, n), tab1, s1) \<leftarrow> parse_font_lines E expected (fgets_lines 255 file) 0 tab s;
     Some (if r = 0 \<and> n \<noteq> expected then - 1 else r, tab1, s1)
   }"

definition DefaultFontFilename :: string where "DefaultFontFilename = ''NotoSansMono-CondensedBold.ttf''"

definition GetDefaultFontFilePath :: "'w ui_env \<Rightarrow> ('w, 'z) ui_state_scheme \<Rightarrow> string option \<times> ('w, 'z) ui_state_scheme" where
  "GetDefaultFontFilePath E s =
     (let (ok, s1) = wcall (alloc_ok (fnt E) (length DefaultFontFilename + 1 + 6 + 2)) s in (if ok then Some (''lang/'' @ DefaultFontFilename) else None, s1))"

text \<open>\<open>fopen\<close> again and again while the device is not there.\<close>

partial_function (option) open_retry :: "'w ui_env \<Rightarrow> string \<Rightarrow> ('w, 'z) ui_state_scheme \<Rightarrow> ((int + string) \<times> ('w, 'z) ui_state_scheme) option" where
  "open_retry E file s =
     (let (r, s1) = wcall (read_file E file) s in
      if r = Inl ENODEV then open_retry E file (on_screen E WaitDevice s1) else Some (r, s1))"

definition GetFontFilePath :: "'w ui_env \<Rightarrow> nat \<Rightarrow> ('w, 'z) ui_state_scheme \<Rightarrow> (string option \<times> ('w, 'z) ui_state_scheme) option" where
  "GetFontFilePath E lang s = do {
     (f, s1) \<leftarrow> open_retry E ''lang/fonts.txt'' s;
     case f of Inl e \<Rightarrow> Some (GetDefaultFontFilePath E s1)
     | Inr txt \<Rightarrow> do {
         (r, tab, s2) \<leftarrow> ParseFontListFile E (replicate NUM_SUPPORTED_LANGUAGES None) txt NUM_SUPPORTED_LANGUAGES s1;
         if r \<noteq> 0 then Some (GetDefaultFontFilePath E s2)
         else (if length tab \<le> lang then None
           else do {
             name \<leftarrow> tab ! lang;
             let (ok, s3) = wcall (alloc_ok (fnt E) (length name + 6)) s2;
             Some (if ok then Some (''lang/'' @ name) else None, s3)
           })
       }
   }"

definition LanguageShortForms :: "string list" where
  "LanguageShortForms = [''JA'', ''EN'', ''FR'', ''SP'', ''GE'', ''IT'', ''DU'', ''PO'']"

definition UnloadLanguage :: "('w, 'z) ui_state_scheme \<Rightarrow> ('w, 'z) ui_state_scheme" where
  "UnloadLanguage s = s\<lparr>LangStringTable := replicate SYS_UI_MSG_COUNT None, LangLblStringTable := replicate SYS_UI_LBL_COUNT None\<rparr>"

definition LoadLanguageStrings :: "'w ui_env \<Rightarrow> nat \<Rightarrow> ('w, 'z) ui_state_scheme \<Rightarrow> (int \<times> ('w, 'z) ui_state_scheme) option" where
  "LoadLanguageStrings E lang s =
     (if length LanguageShortForms \<le> lang then None
      else do {
        let form = LanguageShortForms ! lang;
        let (f, s1) = wcall (read_file E (''lang/strings_'' @ form @ ''.txt'')) (UnloadLanguage s);
        (r, s2) \<leftarrow> (case f of Inl e \<Rightarrow> Some (- e, s1)
          | Inr txt \<Rightarrow> do {
              (r1, tab, t1) \<leftarrow> ParseLanguageFile E (LangStringTable s1) txt SYS_UI_MSG_COUNT s1;
              let t2 = t1\<lparr>LangStringTable := tab\<rparr>;
              if r1 \<noteq> 0 then Some (r1, t2)
              else (let (g, t3) = wcall (read_file E (''lang/labels_'' @ form @ ''.txt'')) t2 in
                case g of Inl e \<Rightarrow> Some (- e, t3)
                | Inr txt2 \<Rightarrow> do {
                    (r2, tab2, t4) \<leftarrow> ParseLanguageFile E (LangLblStringTable t3) txt2 SYS_UI_LBL_COUNT t3;
                    Some (r2, t4\<lparr>LangLblStringTable := tab2\<rparr>)
                  })
            });
        Some (r, if r \<noteq> 0 then UnloadLanguage s2 else s2)
      })"

text \<open>Built-in texts from index \<open>i\<close> on.\<close>

fun load_defaults :: "'w ui_env \<Rightarrow> string list \<Rightarrow> nat \<Rightarrow> string option list \<Rightarrow> ('w, 'z) ui_state_scheme \<Rightarrow> int \<times> string option list \<times> ('w, 'z) ui_state_scheme" where
  "load_defaults E [] i tab s = (0, tab, s)"
| "load_defaults E (l # ls) i tab s =
     (let (r, s1) = store_text E l s in
      case r of None \<Rightarrow> (- ENOMEM, tab[i := None], s1) | Some p \<Rightarrow> load_defaults E ls (i + 1) (tab[i := p]) s1)"

definition LoadDefaultLanguageStrings :: "'w ui_env \<Rightarrow> ('w, 'z) ui_state_scheme \<Rightarrow> int \<times> ('w, 'z) ui_state_scheme" where
  "LoadDefaultLanguageStrings E s =
     (let s0 = UnloadLanguage s;
          (r, tab, s1) = load_defaults E DefaultLanguageStringTable 0 (LangStringTable s0) s0;
          s2 = s1\<lparr>LangStringTable := tab\<rparr>;
          (r2, s3) = (if r \<noteq> 0 then (r, s2)
            else (let (r1, tab1, t) = load_defaults E DefaultLanguageLabelStringTable 0 (LangLblStringTable s2) s2 in (r1, t\<lparr>LangLblStringTable := tab1\<rparr>)))
      in (r2, if r2 \<noteq> 0 then UnloadLanguage s3 else s3))"

text \<open>The pointer; the text's long lines are broken at the first use. None: past a table, or no text.\<close>

definition GetUIString :: "'w ui_env \<Rightarrow> nat \<Rightarrow> ('w, 'z) ui_state_scheme \<Rightarrow> (string option \<times> ('w, 'z) ui_state_scheme) option" where
  "GetUIString E k s =
     (if length (LangStringWrapTable s) \<le> k \<or> length (LangStringTable s) \<le> k then None
      else if LangStringWrapTable s ! k then Some (LangStringTable s ! k, s)
      else do {
        str \<leftarrow> LangStringTable s ! k;
        (str1, s1) \<leftarrow> BreakLongLanguageString E str s;
        Some (Some str1, s1\<lparr>LangStringTable := (LangStringTable s1)[k := Some str1], LangStringWrapTable := (LangStringWrapTable s1)[k := True]\<rparr>)
      })"

definition GetUILabel :: "s32 \<Rightarrow> ('w, 'z) ui_state_scheme \<Rightarrow> string option option" where
  "GetUILabel k s = (if unat k < length (LangLblStringTable s) then Some (LangLblStringTable s ! unat k) else None)"

subsection \<open>The console\<close>

definition CONSOLE_REGION_JAPAN :: int where "CONSOLE_REGION_JAPAN = 0"
definition CONSOLE_REGION_USA :: int where "CONSOLE_REGION_USA = 1"
definition CONSOLE_REGION_EUROPE :: int where "CONSOLE_REGION_EUROPE = 2"
definition CONSOLE_REGION_CHINA :: int where "CONSOLE_REGION_CHINA = 3"

lemmas region_defs = CONSOLE_REGION_JAPAN_def CONSOLE_REGION_USA_def CONSOLE_REGION_EUROPE_def CONSOLE_REGION_CHINA_def

definition region_letter :: "char option \<Rightarrow> int \<Rightarrow> int" where
  "region_letter c region =
     (if c = Some (CHR ''J'') then CONSOLE_REGION_JAPAN
      else if c = Some (CHR ''A'') \<or> c = Some (CHR ''H'') then CONSOLE_REGION_USA
      else if c = Some (CHR ''E'') then CONSOLE_REGION_EUROPE
      else if c = Some (CHR ''C'') then CONSOLE_REGION_CHINA else region)"

definition GetConsoleRegion :: "'w ui_env \<Rightarrow> ('w, 'z) ui_state_scheme \<Rightarrow> int \<times> ('w, 'z) ui_state_scheme" where
  "GetConsoleRegion E s =
     (if 0 \<le> console_region s then (console_region s, s)
      else (let (f, s1) = wcall (read_file E ''rom0:ROMVER'') s;
                s2 = (case f of Inl e \<Rightarrow> s1
                  | Inr txt \<Rightarrow> s1\<lparr>console_region := region_letter (if 4 < length txt then Some (txt ! 4) else None) (console_region s1)\<rparr>)
            in (console_region s2, s2)))"

definition GetConsoleVMode :: "'w ui_env \<Rightarrow> ('w, 'z) ui_state_scheme \<Rightarrow> int \<times> ('w, 'z) ui_state_scheme" where
  "GetConsoleVMode E s = (let (r, s1) = GetConsoleRegion E s in (if r = CONSOLE_REGION_EUROPE then 1 else 0, s1))"

definition IsPSX :: "'w ui_env \<Rightarrow> ('w, 'z) ui_state_scheme \<Rightarrow> int \<times> ('w, 'z) ui_state_scheme" where
  "IsPSX E s =
     (if 0 \<le> console_psx s then (console_psx s, s)
      else (let (f, s1) = wcall (read_file E ''rom0:PSXVER'') s; v = (case f of Inl e \<Rightarrow> 0 | Inr txt \<Rightarrow> 1)
            in (v, s1\<lparr>console_psx := v\<rparr>)))"

subsection \<open>Starting and ending the user interface\<close>

definition InitGraphics :: "'w ui_env \<Rightarrow> ('w, 'z) ui_state_scheme \<Rightarrow> ('w, 'z) ui_state_scheme" where
  "InitGraphics E s =
     (let (mode, s1) = GetConsoleVMode E s; (h, dx) = (if mode = 0 then (448, 0) else (512, 4))
      in on_screen E (SetupGraphics mode 640 h dx 0) (s1\<lparr>screen_width := 640, screen_height := h\<rparr>))"

text \<open>The contents of the file, when there is memory for it, become the font.\<close>

definition LoadFontIntoBuffer :: "'w ui_env \<Rightarrow> string \<Rightarrow> ('w, 'z) ui_state_scheme \<Rightarrow> (int \<times> ('w, 'z) ui_state_scheme) option" where
  "LoadFontIntoBuffer E file s =
     (let (f, s1) = wcall (read_file E file) s in
      case f of Inl e \<Rightarrow> Some (- e, s1)
      | Inr txt \<Rightarrow>
          (let (ok, s2) = wcall (alloc_ok (fnt E) (length txt)) s1 in
           if \<not> ok then Some (- ENOMEM, s2)
           else do {
             (r, s3) \<leftarrow> FontInitWithBuffer (fnt E) (map of_char txt) s2;
             Some (r, if r = 0 then s3\<lparr>gFontBuffer := Some txt\<rparr> else s3)
           }))"

text \<open>A font by \<open>load\<close> from the path of the language, or from the default path; both paths can be NULL.\<close>

definition init_font_with ::
    "'w ui_env \<Rightarrow> (string \<Rightarrow> ('w, 'z) ui_state_scheme \<Rightarrow> (int \<times> ('w, 'z) ui_state_scheme) option) \<Rightarrow> ('w, 'z) ui_state_scheme \<Rightarrow> (int \<times> ('w, 'z) ui_state_scheme) option" where
  "init_font_with E load s = do {
     (p, s1) \<leftarrow> GetFontFilePath E (nat (ui_language s)) s;
     case p of None \<Rightarrow> Some (- 1, s1)
     | Some file \<Rightarrow> do {
         (r, s2) \<leftarrow> load file s1;
         if r = 0 then Some (0, s2)
         else (let (q, s3) = GetDefaultFontFilePath E s2 in case q of None \<Rightarrow> None | Some file2 \<Rightarrow> load file2 s3)
       }
   }"

definition InitFont :: "'w ui_env \<Rightarrow> ('w, 'z) ui_state_scheme \<Rightarrow> (int \<times> ('w, 'z) ui_state_scheme) option" where
  "InitFont E s = init_font_with E (FontInit (fnt E)) s"

definition InitFontWithBuffer :: "'w ui_env \<Rightarrow> ('w, 'z) ui_state_scheme \<Rightarrow> (int \<times> ('w, 'z) ui_state_scheme) option" where
  "InitFontWithBuffer E s =
     (case gFontBuffer s of None \<Rightarrow> init_font_with E (LoadFontIntoBuffer E) s | Some buf \<Rightarrow> FontInitWithBuffer (fnt E) (map of_char buf) s)"

definition ReinitializeUI :: "'w ui_env \<Rightarrow> ('w, 'z) ui_state_scheme \<Rightarrow> (int \<times> ('w, 'z) ui_state_scheme) option" where
  "ReinitializeUI E s = (if gFontBuffer s = None then InitFont E (FontDeinit (fnt E) s) else Some (0, s))"

partial_function (option) load_retry :: "'w ui_env \<Rightarrow> nat \<Rightarrow> ('w, 'z) ui_state_scheme \<Rightarrow> (int \<times> ('w, 'z) ui_state_scheme) option" where
  "load_retry E lang s = do {
     (r, s1) \<leftarrow> LoadLanguageStrings E lang s;
     if r = - ENODEV then load_retry E lang (on_screen E WaitDevice s1) else Some (r, s1)
   }"

definition InitializeUI :: "'w ui_env \<Rightarrow> bool \<Rightarrow> ('w, 'z) ui_state_scheme \<Rightarrow> (int \<times> ('w, 'z) ui_state_scheme) option" where
  "InitializeUI E BufferFont s = do {
     let l0 = configGetLanguage E (ee_world s);
     let lang = (if int NUM_SUPPORTED_LANGUAGES \<le> l0 then LANGUAGE_ENGLISH else l0);
     let (region, s1) = GetConsoleRegion E (s\<lparr>ui_language := lang, LangStringWrapTable := replicate 32 False\<rparr>);
     let s2 = (if region = CONSOLE_REGION_JAPAN then s1\<lparr>SelectButton := PAD_CIRCLE E, CancelButton := PAD_CROSS E\<rparr>
               else s1\<lparr>SelectButton := PAD_CROSS E, CancelButton := PAD_CIRCLE E\<rparr>);
     (r, s3) \<leftarrow> load_retry E (nat lang) (InitGraphics E s2);
     let (r1, s4) = (if r \<noteq> 0 then LoadDefaultLanguageStrings E s3 else (0, s3));
     if r1 \<noteq> 0 then Some (r1, s4)
     else do {
       (r2, s5) \<leftarrow> (if BufferFont then InitFontWithBuffer E s4 else InitFont E s4);
       Some (r2, on_screen E ClearDrawEnv (if r2 = 0 then on_screen E LoadTextures s5 else s5))
     }
   }"

definition DeinitializeUI :: "'w ui_env \<Rightarrow> ('w, 'z) ui_state_scheme \<Rightarrow> ('w, 'z) ui_state_scheme" where
  "DeinitializeUI E s = (FontDeinit (fnt E) (UnloadLanguage s))\<lparr>gFontBuffer := None\<rparr>"

subsection \<open>The pads\<close>

definition PadInitPads :: "'w ui_env \<Rightarrow> ('w, 'z) ui_state_scheme \<Rightarrow> ('w, 'z) ui_state_scheme" where
  "PadInitPads E s = (wdo (pad_port E True) s)\<lparr>old_pad := (old_pad s)(0 := 0, 1 := 0)\<rparr>"

definition PadDeinitPads :: "'w ui_env \<Rightarrow> ('w, 'z) ui_state_scheme \<Rightarrow> ('w, 'z) ui_state_scheme" where
  "PadDeinitPads E s = wdo (pad_port E False) s"

text \<open>The buttons are low when pressed.\<close>

definition ReadPadStatus_raw :: "'w ui_env \<Rightarrow> nat \<Rightarrow> ('w, 'z) ui_state_scheme \<Rightarrow> u32 \<times> ('w, 'z) ui_state_scheme" where
  "ReadPadStatus_raw E port s =
     (let (b, s1) = wcall (padRead E port) s in (case b of None \<Rightarrow> 0 | Some btns \<Rightarrow> 0xFFFF XOR ucast btns, s1))"

definition ReadCombinedPadStatus_raw :: "'w ui_env \<Rightarrow> ('w, 'z) ui_state_scheme \<Rightarrow> u32 \<times> ('w, 'z) ui_state_scheme" where
  "ReadCombinedPadStatus_raw E s = (let (a, s1) = ReadPadStatus_raw E 0 s; (b, s2) = ReadPadStatus_raw E 1 s1 in (a OR b, s2))"

definition ReadPadStatus :: "'w ui_env \<Rightarrow> nat \<Rightarrow> ('w, 'z) ui_state_scheme \<Rightarrow> u32 \<times> ('w, 'z) ui_state_scheme" where
  "ReadPadStatus E port s =
     (let (b, s1) = wcall (padRead E port) s in
      case b of None \<Rightarrow> (0, s1)
      | Some btns \<Rightarrow> (let d = 0xFFFF XOR ucast btns in (d AND NOT (old_pad s1 port), s1\<lparr>old_pad := (old_pad s1)(port := d)\<rparr>)))"

definition ReadCombinedPadStatus :: "'w ui_env \<Rightarrow> ('w, 'z) ui_state_scheme \<Rightarrow> u32 \<times> ('w, 'z) ui_state_scheme" where
  "ReadCombinedPadStatus E s = (let (a, s1) = ReadPadStatus E 0 s; (b, s2) = ReadPadStatus E 1 s1 in (a OR b, s2))"

end
