(* ===== verification/EeMenu.thy ===== *)
theory EeMenu
  imports EeLang
begin

text \<open>
  The menus of \<open>UI.c\<close>: items, drawing, navigation and the message boxes; and those of \<open>menu.c\<close>
  that show progress and results.
\<close>

subsection \<open>Items\<close>

definition MITEM_FLAG_HIDDEN :: u8 where "MITEM_FLAG_HIDDEN = 0x01"
definition MITEM_FLAG_READONLY :: u8 where "MITEM_FLAG_READONLY = 0x02"
definition MITEM_FLAG_DISABLED :: u8 where "MITEM_FLAG_DISABLED = 0x04"
definition MITEM_FLAG_UNIT_PREFIX :: u8 where "MITEM_FLAG_UNIT_PREFIX = 0x08"
definition MITEM_FLAG_POS_ABS :: u8 where "MITEM_FLAG_POS_ABS = 0x10"
definition MITEM_FLAG_POS_MID :: u8 where "MITEM_FLAG_POS_MID = 0x20"

lemmas mitem_flags = MITEM_FLAG_HIDDEN_def MITEM_FLAG_READONLY_def MITEM_FLAG_DISABLED_def MITEM_FLAG_UNIT_PREFIX_def
  MITEM_FLAG_POS_ABS_def MITEM_FLAG_POS_MID_def

definition MITEM_FORMAT_DEC :: u8 where "MITEM_FORMAT_DEC = 0"
definition MITEM_FORMAT_UDEC :: u8 where "MITEM_FORMAT_UDEC = 1"
definition MITEM_FORMAT_HEX :: u8 where "MITEM_FORMAT_HEX = 2"
definition MITEM_FORMAT_POINTER :: u8 where "MITEM_FORMAT_POINTER = 3"
definition MITEM_FORMAT_FLOAT :: u8 where "MITEM_FORMAT_FLOAT = 4"

lemmas mitem_formats = MITEM_FORMAT_DEC_def MITEM_FORMAT_UDEC_def MITEM_FORMAT_HEX_def MITEM_FORMAT_POINTER_def MITEM_FORMAT_FLOAT_def

definition has :: "UIMenuItem \<Rightarrow> u8 \<Rightarrow> bool" where
  "has i flag \<longleftrightarrow> it_flags i AND flag \<noteq> 0"

text \<open>The type comes behind \<open>MITEM_LABEL\<close> in the enumeration.\<close>

definition after_label :: "menu_item \<Rightarrow> bool" where
  "after_label t \<longleftrightarrow> t \<in> {MITEM_STRING, MITEM_VALUE, MITEM_BUTTON, MITEM_TOGGLE, MITEM_ENUM, MITEM_TERMINATOR}"

definition selectable :: "UIMenuItem \<Rightarrow> bool" where
  "selectable i \<longleftrightarrow> after_label (it_type i) \<and> \<not> has i MITEM_FLAG_DISABLED \<and> \<not> has i MITEM_FLAG_HIDDEN \<and> \<not> has i MITEM_FLAG_READONLY"

text \<open>Reading the union as a number or as a string, whatever was stored.\<close>

definition as_num :: "'w ui_env \<Rightarrow> item_word \<Rightarrow> s32" where
  "as_num E u = (case u of Num v \<Rightarrow> v | Str p \<Rightarrow> (if p = None then 0 else addr_of E p) | Labels ls \<Rightarrow> addr_labels E ls)"

definition as_str :: "'w ui_env \<Rightarrow> item_word \<Rightarrow> string option" where
  "as_str E u = (case u of Num v \<Rightarrow> if v = 0 then None else str_at E v | Str p \<Rightarrow> p | Labels ls \<Rightarrow> str_at E (addr_labels E ls))"

text \<open>The items before the terminator. All loops over items stop there; every menu has one.\<close>

definition live :: "UIMenu \<Rightarrow> UIMenuItem list" where
  "live m = takeWhile (\<lambda>i. it_type i \<noteq> MITEM_TERMINATOR) (menu_items m)"

definition UIGetItem :: "UIMenu \<Rightarrow> u8 \<Rightarrow> nat option" where
  "UIGetItem m ident = List.find (\<lambda>k. it_id (live m ! k) = ident) [0..<length (live m)]"

definition set_item :: "menu_name \<Rightarrow> nat \<Rightarrow> (UIMenuItem \<Rightarrow> UIMenuItem) \<Rightarrow> ('w, 'z) ui_state_scheme \<Rightarrow> ('w, 'z) ui_state_scheme" where
  "set_item m k f s =
     (let u = menus s m in s\<lparr>menus := (menus s)(m := u\<lparr>menu_items := (menu_items u)[k := f (menu_items u ! k)]\<rparr>)\<rparr>)"

definition upd_item :: "menu_name \<Rightarrow> u8 \<Rightarrow> (UIMenuItem \<Rightarrow> UIMenuItem) \<Rightarrow> ('w, 'z) ui_state_scheme \<Rightarrow> ('w, 'z) ui_state_scheme" where
  "upd_item m ident f s = (case UIGetItem (menus s m) ident of None \<Rightarrow> s | Some k \<Rightarrow> set_item m k f s)"

definition flag_on :: "u8 \<Rightarrow> bool \<Rightarrow> UIMenuItem \<Rightarrow> UIMenuItem" where
  "flag_on flag on i = i\<lparr>it_flags := (if on then it_flags i OR flag else it_flags i AND NOT flag)\<rparr>"

definition UISetVisible :: "menu_name \<Rightarrow> u8 \<Rightarrow> bool \<Rightarrow> ('w, 'z) ui_state_scheme \<Rightarrow> ('w, 'z) ui_state_scheme" where
  "UISetVisible m ident visible = upd_item m ident (flag_on MITEM_FLAG_HIDDEN (\<not> visible))"

definition UISetReadonly :: "menu_name \<Rightarrow> u8 \<Rightarrow> bool \<Rightarrow> ('w, 'z) ui_state_scheme \<Rightarrow> ('w, 'z) ui_state_scheme" where
  "UISetReadonly m ident readonly = upd_item m ident (flag_on MITEM_FLAG_READONLY readonly)"

definition UISetEnabled :: "menu_name \<Rightarrow> u8 \<Rightarrow> bool \<Rightarrow> ('w, 'z) ui_state_scheme \<Rightarrow> ('w, 'z) ui_state_scheme" where
  "UISetEnabled m ident enabled = upd_item m ident (flag_on MITEM_FLAG_DISABLED (\<not> enabled))"

definition UISetValue :: "menu_name \<Rightarrow> u8 \<Rightarrow> s32 \<Rightarrow> ('w, 'z) ui_state_scheme \<Rightarrow> ('w, 'z) ui_state_scheme" where
  "UISetValue m ident v = upd_item m ident (\<lambda>i. i\<lparr>it_w0 := Num v\<rparr>)"

definition UIGetValue :: "'w ui_env \<Rightarrow> menu_name \<Rightarrow> u8 \<Rightarrow> ('w, 'z) ui_state_scheme \<Rightarrow> s32" where
  "UIGetValue E m ident s = (case UIGetItem (menus s m) ident of None \<Rightarrow> - 1 | Some k \<Rightarrow> as_num E (it_w0 (live (menus s m) ! k)))"

definition UISetLabel :: "menu_name \<Rightarrow> u8 \<Rightarrow> s32 \<Rightarrow> ('w, 'z) ui_state_scheme \<Rightarrow> ('w, 'z) ui_state_scheme" where
  "UISetLabel m ident v = upd_item m ident (\<lambda>i. i\<lparr>it_w0 := Num v\<rparr>)"

definition UISetString :: "menu_name \<Rightarrow> u8 \<Rightarrow> string option \<Rightarrow> ('w, 'z) ui_state_scheme \<Rightarrow> ('w, 'z) ui_state_scheme" where
  "UISetString m ident p = upd_item m ident (\<lambda>i. i\<lparr>it_w0 := Str p\<rparr>)"

definition UISetType :: "menu_name \<Rightarrow> u8 \<Rightarrow> menu_item \<Rightarrow> ('w, 'z) ui_state_scheme \<Rightarrow> ('w, 'z) ui_state_scheme" where
  "UISetType m ident t = upd_item m ident (\<lambda>i. i\<lparr>it_type := t\<rparr>)"

definition UISetFormat :: "menu_name \<Rightarrow> u8 \<Rightarrow> u8 \<Rightarrow> u8 \<Rightarrow> ('w, 'z) ui_state_scheme \<Rightarrow> ('w, 'z) ui_state_scheme" where
  "UISetFormat m ident fmt width = upd_item m ident (\<lambda>i. i\<lparr>it_format := fmt, it_width := width\<rparr>)"

definition UISetEnum :: "menu_name \<Rightarrow> u8 \<Rightarrow> s32 list \<Rightarrow> int \<Rightarrow> ('w, 'z) ui_state_scheme \<Rightarrow> ('w, 'z) ui_state_scheme" where
  "UISetEnum m ident ls count = upd_item m ident (\<lambda>i. i\<lparr>it_w0 := Labels ls, it_w1 := count, it_w2 := 0\<rparr>)"

definition UISetEnumSelectedIndex :: "menu_name \<Rightarrow> u8 \<Rightarrow> int \<Rightarrow> ('w, 'z) ui_state_scheme \<Rightarrow> ('w, 'z) ui_state_scheme" where
  "UISetEnumSelectedIndex m ident k = upd_item m ident (\<lambda>i. i\<lparr>it_w2 := k\<rparr>)"

definition UIGetEnumSelectedIndex :: "menu_name \<Rightarrow> u8 \<Rightarrow> ('w, 'z) ui_state_scheme \<Rightarrow> int" where
  "UIGetEnumSelectedIndex m ident s = (case UIGetItem (menus s m) ident of None \<Rightarrow> - 1 | Some k \<Rightarrow> it_w2 (live (menus s m) ! k))"

subsection \<open>Drawing\<close>

definition gs_colour :: "u32 \<Rightarrow> u32 \<Rightarrow> u32 \<Rightarrow> u32 \<Rightarrow> u32" where
  "gs_colour r g b a = r OR push_bit 8 g OR push_bit 16 b OR push_bit 24 a"

definition GS_WHITE :: u32 where "GS_WHITE = gs_colour 0x80 0x80 0x80 0x80"
definition GS_GREY :: u32 where "GS_GREY = gs_colour 0x30 0x30 0x30 0x80"
definition GS_LGREY :: u32 where "GS_LGREY = gs_colour 0x50 0x50 0x50 0x80"
definition GS_BLUE :: u32 where "GS_BLUE = gs_colour 0x00 0x00 0x80 0x80"
definition GS_WHITE_FONT :: u32 where "GS_WHITE_FONT = gs_colour 0x80 0x80 0x80 0x80"
definition GS_GREY_FONT :: u32 where "GS_GREY_FONT = gs_colour 0x30 0x30 0x30 0x80"
definition GS_YELLOW_FONT :: u32 where "GS_YELLOW_FONT = gs_colour 0x80 0x80 0x30 0x80"
definition GS_BLUE_FONT :: u32 where "GS_BLUE_FONT = gs_colour 0x30 0x30 0x80 0x80"

definition item_colour :: "UIMenuItem \<Rightarrow> bool \<Rightarrow> u32" where
  "item_colour i selected = (if has i MITEM_FLAG_DISABLED then GS_GREY_FONT else if has i MITEM_FLAG_READONLY then GS_WHITE_FONT
     else if selected then GS_YELLOW_FONT else GS_BLUE_FONT)"

definition BUTTON_TYPE_CIRCLE :: int where "BUTTON_TYPE_CIRCLE = 0"
definition BUTTON_TYPE_CROSS :: int where "BUTTON_TYPE_CROSS = 1"
definition BUTTON_TYPE_L1 :: int where "BUTTON_TYPE_L1 = 4"
definition BUTTON_TYPE_R1 :: int where "BUTTON_TYPE_R1 = 5"
definition BUTTON_TYPE_SYS_SELECT :: int where "BUTTON_TYPE_SYS_SELECT = 0x40"
definition BUTTON_TYPE_SYS_CANCEL :: int where "BUTTON_TYPE_SYS_CANCEL = 0x41"

text \<open>Half of a number, towards zero; a product with 1.1 of a number that is not negative.\<close>

definition half :: "int \<Rightarrow> int" where "half x = (if 0 \<le> x then x div 2 else - (- x div 2))"
definition times_1_1 :: "int \<Rightarrow> int" where "times_1_1 x = x * 11 div 10"

text \<open>The decimal digits of a number below 256, as in \<open>%u\<close>.\<close>

definition dec_u8 :: "nat \<Rightarrow> string" where
  "dec_u8 n = (let d = \<lambda>k. char_of (48 + k mod 10 :: nat) in
     if n < 10 then [d n] else if n < 100 then [d (n div 10), d n] else [d (n div 100), d (n div 10), d n])"

definition value_format :: "UIMenuItem \<Rightarrow> string" where
  "value_format i =
     (if has i MITEM_FLAG_UNIT_PREFIX \<and> it_format i = MITEM_FORMAT_HEX then ''0x'' else '''') @ ''%'' @
     (if 0 < it_width i then ''0'' @ dec_u8 (unat (it_width i)) else '''') @
     (if it_format i = MITEM_FORMAT_DEC then ''d'' else if it_format i = MITEM_FORMAT_UDEC then ''u''
      else if it_format i = MITEM_FORMAT_HEX then ''x'' else if it_format i = MITEM_FORMAT_POINTER then ''p''
      else if it_format i = MITEM_FORMAT_FLOAT then ''f'' else '''')"

definition put_text ::
    "'w ui_env \<Rightarrow> int \<Rightarrow> int \<Rightarrow> u32 \<Rightarrow> string \<Rightarrow> ('w, 'z) ui_state_scheme \<Rightarrow> ((int \<times> int) \<times> ('w, 'z) ui_state_scheme) option" where
  "put_text E x y colour str s = FontPrintfWithFeedback (fnt E) x y 1 10 colour str s"

text \<open>A text that moves on to the right, and one that also moves down.\<close>

definition text_right ::
    "'w ui_env \<Rightarrow> int \<Rightarrow> int \<Rightarrow> u32 \<Rightarrow> string \<Rightarrow> ('w, 'z) ui_state_scheme \<Rightarrow> ((int \<times> int) \<times> ('w, 'z) ui_state_scheme) option" where
  "text_right E x y colour str s = do { ((xr, yr), s1) \<leftarrow> put_text E x y colour str s; Some ((short (x + xr), y), s1) }"

definition text_both ::
    "'w ui_env \<Rightarrow> int \<Rightarrow> int \<Rightarrow> u32 \<Rightarrow> string option \<Rightarrow> ('w, 'z) ui_state_scheme \<Rightarrow> ((int \<times> int) \<times> ('w, 'z) ui_state_scheme) option" where
  "text_both E x y colour p s =
     (case p of None \<Rightarrow> Some ((x, y), s)
      | Some str \<Rightarrow> do { ((xr, yr), s1) \<leftarrow> put_text E x y colour str s; Some ((short (x + xr), short (y + yr)), s1) })"

text \<open>
  One item at a place: the place behind it, and the item, whose button text width is noted. A
  NULL label of a toggle is printed through NULL (None).
\<close>

definition draw_item ::
    "'w ui_env \<Rightarrow> int \<Rightarrow> bool \<Rightarrow> UIMenuItem \<Rightarrow> int \<times> int \<Rightarrow> ('w, 'z) ui_state_scheme \<Rightarrow> ((int \<times> int) \<times> UIMenuItem \<times> ('w, 'z) ui_state_scheme) option" where
  "draw_item E StartX selected i xy s =
     (let (x, y) = (if has i MITEM_FLAG_POS_ABS then (it_x i, it_y i) else (short (fst xy + it_x i), short (snd xy + it_y i)));
          same = (\<lambda>r. map_option (\<lambda>(p, t). (p, i, t)) r)
      in case it_type i of
        MITEM_SEPERATOR \<Rightarrow>
          (let y1 = short (y + FNT_CHAR_HEIGHT); mid = y1 + FNT_CHAR_HEIGHT div 2 in
           Some ((StartX, short (y1 + FNT_CHAR_HEIGHT)), i, on_screen E (DrawLine StartX mid (screen_width s - UI_OFFSET_X) mid 1 GS_WHITE) s))
      | MITEM_BREAK \<Rightarrow> Some ((StartX, short (y + FNT_CHAR_HEIGHT)), i, s)
      | MITEM_TAB \<Rightarrow>
          (let w = FNT_TAB_STOPS * FNT_CHAR_WIDTH in Some ((short (x + w - take_bit 32 x mod w), y), i, s))
      | MITEM_SPACE \<Rightarrow> Some ((short (x + FNT_CHAR_WIDTH), y), i, s)
      | MITEM_STRING \<Rightarrow> same (text_both E x y (item_colour i selected) (as_str E (it_w0 i)) s)
      | MITEM_BUTTON \<Rightarrow> do {
          p \<leftarrow> GetUILabel (as_num E (it_w0 i)) s;
          case p of None \<Rightarrow> Some ((x, y), i, s)
          | Some label \<Rightarrow> do {
              let w0 = short (uint (it_width i) * FNT_CHAR_WIDTH);
              let h0 = FNT_CHAR_HEIGHT + FNT_CHAR_HEIGHT div 2;
              let (w, h) = (if selected then (short (times_1_1 w0), short (times_1_1 h0)) else (w0, h0));
              let x1 = (if has i MITEM_FLAG_POS_MID then short (StartX + half (screen_width s - w)) else x);
              let s1 = on_screen E (DrawSprite x1 (y - FNT_CHAR_HEIGHT div 2) (x1 + w) (y + h) 2 (if selected then GS_LGREY else GS_GREY)) s;
              ((xr, yr), s2) \<leftarrow> put_text E (short (x1 + half (w - it_w1 i))) y
                (if has i MITEM_FLAG_DISABLED then GS_GREY_FONT else if selected then GS_YELLOW_FONT else GS_WHITE_FONT) label s1;
              Some ((short (x1 + xr), short (y + (yr + FNT_CHAR_HEIGHT))), i\<lparr>it_w1 := xr\<rparr>, s2)
            }
        }
      | MITEM_LABEL \<Rightarrow> do { p \<leftarrow> GetUILabel (as_num E (it_w0 i)) s; same (text_both E x y GS_WHITE_FONT p s) }
      | MITEM_COLON \<Rightarrow> same (text_right E x y GS_WHITE_FONT '':'' s)
      | MITEM_DASH \<Rightarrow> same (text_right E x y GS_WHITE_FONT ''-'' s)
      | MITEM_DOT \<Rightarrow> same (text_right E x y GS_WHITE_FONT ''.'' s)
      | MITEM_SLASH \<Rightarrow> same (text_right E x y GS_WHITE_FONT ''/'' s)
      | MITEM_VALUE \<Rightarrow> same (text_right E x y (item_colour i selected) (sprint E (value_format i) (as_num E (it_w0 i))) s)
      | MITEM_PROGRESS \<Rightarrow>
          Some ((x, short (y + FNT_CHAR_HEIGHT)), i,
            on_screen E (DrawProgressBar (sint (as_num E (it_w0 i))) (x + 20) y 4 (screen_width s - (x + 20) - 20) GS_BLUE) s)
      | MITEM_TOGGLE \<Rightarrow> do {
          p \<leftarrow> GetUILabel (of_nat (lbl_id (if as_num E (it_w0 i) = 0 then SYS_UI_LBL_DISABLED else SYS_UI_LBL_ENABLED))) s;
          if p = None then None else same (text_both E x y (item_colour i selected) p s)
        }
      | MITEM_ENUM \<Rightarrow>
          (case it_w0 i of Labels ls \<Rightarrow>
             if 0 \<le> it_w2 i \<and> nat (it_w2 i) < length ls
             then do { p \<leftarrow> GetUILabel (ls ! nat (it_w2 i)) s; same (text_both E x y (item_colour i selected) p s) } else None
           | _ \<Rightarrow> None)
      | MITEM_TERMINATOR \<Rightarrow> Some ((x, y), i, s))"

fun draw_items ::
    "'w ui_env \<Rightarrow> menu_name \<Rightarrow> int \<Rightarrow> int \<Rightarrow> nat list \<Rightarrow> int \<times> int \<Rightarrow> ('w, 'z) ui_state_scheme \<Rightarrow> ('w, 'z) ui_state_scheme option" where
  "draw_items E m StartX selection [] xy s = Some s"
| "draw_items E m StartX selection (k # ks) xy s =
     (let i = menu_items (menus s m) ! k in
      if has i MITEM_FLAG_HIDDEN then draw_items E m StartX selection ks xy s
      else do {
        (xy1, i1, s1) \<leftarrow> draw_item E StartX (selection = int k) i xy s;
        draw_items E m StartX selection ks xy1 (set_item m k (\<lambda>_. i1) s1)
      })"

text \<open>An arrow that moves to and fro at the border.\<close>

definition page_arrow :: "'w ui_env \<Rightarrow> int \<Rightarrow> int \<Rightarrow> int \<Rightarrow> int \<Rightarrow> ('w, 'z) ui_state_scheme \<Rightarrow> ('w, 'z) ui_state_scheme" where
  "page_arrow E button x0 dir frame s =
     (let x = (if frame mod 180 < 30 then x0 + dir * (frame mod 30 div 3)
               else if frame mod 180 < 60 then x0 + dir * (10 - frame mod 30 div 3) else x0)
      in on_screen E (DrawButtonLegend button x 400 4) s)"

fun draw_hints :: "'w ui_env \<Rightarrow> (int \<times> int) list \<Rightarrow> int \<Rightarrow> ('w, 'z) ui_state_scheme \<Rightarrow> ('w, 'z) ui_state_scheme option" where
  "draw_hints E [] x s = Some s"
| "draw_hints E ((button, label) # hs) x s =
     (if button < 0 then draw_hints E hs x s
      else (let b = (if button = BUTTON_TYPE_SYS_SELECT then (if SelectButton s = PAD_CIRCLE E then BUTTON_TYPE_CIRCLE else BUTTON_TYPE_CROSS)
                     else if button = BUTTON_TYPE_SYS_CANCEL then (if CancelButton s = PAD_CIRCLE E then BUTTON_TYPE_CIRCLE else BUTTON_TYPE_CROSS)
                     else button);
                (d, s1) = wcall (draw_legend E b x 420 4) s; x1 = short (x + (d + 8))
            in do {
              p \<leftarrow> GetUILabel (of_int label) s1;
              str \<leftarrow> p;
              ((xr, yr), s2) \<leftarrow> put_text E x1 422 GS_WHITE_FONT str s1;
              draw_hints E hs (short (x1 + (xr + 8))) s2
            }))"

definition UIDrawMenu :: "'w ui_env \<Rightarrow> menu_name \<Rightarrow> u16 \<Rightarrow> int \<Rightarrow> int \<Rightarrow> int \<Rightarrow> ('w, 'z) ui_state_scheme \<Rightarrow> ('w, 'z) ui_state_scheme option" where
  "UIDrawMenu E m frame StartX StartY selection s = do {
     let s0 = on_screen E DrawBackground s;
     s1 \<leftarrow> draw_items E m StartX selection [0..<length (live (menus s0 m))] (StartX, StartY) s0;
     let u = menus s1 m;
     let s2 = (if menu_next u \<noteq> None then page_arrow E BUTTON_TYPE_R1 (screen_width s1 - 40) (- 1) (uint frame) s1 else s1);
     let s3 = (if menu_prev u \<noteq> None then page_arrow E BUTTON_TYPE_L1 20 1 (uint frame) s2 else s2);
     draw_hints E (menu_hints u) 64 s3
   }"

text \<open>A frame of a menu at each of the horizontal offsets, then the screen is shown.\<close>

fun slide :: "'w ui_env \<Rightarrow> menu_name \<Rightarrow> int \<Rightarrow> (nat \<times> int) list \<Rightarrow> ('w, 'z) ui_state_scheme \<Rightarrow> ('w, 'z) ui_state_scheme option" where
  "slide E m selection [] s = Some s"
| "slide E m selection ((i, dx) # is) s = do {
     s1 \<leftarrow> UIDrawMenu E m (of_nat i) (short (UI_OFFSET_X + dx)) UI_OFFSET_Y selection s;
     slide E m selection is (on_screen E SyncFlipFB s1)
   }"

datatype ui_transition = UIMT_LEFT_OUT | UIMT_RIGHT_OUT | UIMT_LEFT_IN | UIMT_RIGHT_IN | UIMT_FADE_IN | UIMT_FADE_OUT

definition UITransition :: "'w ui_env \<Rightarrow> menu_name \<Rightarrow> ui_transition \<Rightarrow> int \<Rightarrow> ('w, 'z) ui_state_scheme \<Rightarrow> ('w, 'z) ui_state_scheme option" where
  "UITransition E m t selection =
     (let up = [0..<16]; down = rev [1..<16] in
      slide E m selection (case t of
        UIMT_LEFT_OUT \<Rightarrow> map (\<lambda>i. (i, - int i * 48)) up
      | UIMT_RIGHT_OUT \<Rightarrow> map (\<lambda>i. (i, int i * 48)) up
      | UIMT_LEFT_IN \<Rightarrow> map (\<lambda>i. (i, - int i * 48)) down
      | UIMT_RIGHT_IN \<Rightarrow> map (\<lambda>i. (i, int i * 48)) down
      | UIMT_FADE_IN \<Rightarrow> map (\<lambda>i. (i, 0)) up
      | UIMT_FADE_OUT \<Rightarrow> map (\<lambda>i. (i, 0)) down))"

subsection \<open>Navigation\<close>

definition UIGetSelectableItem :: "UIMenu \<Rightarrow> int \<Rightarrow> int" where
  "UIGetSelectableItem m ident =
     (case List.find (\<lambda>k. uint (it_id (live m ! k)) = ident) [0..<length (live m)] of
        Some k \<Rightarrow> if selectable (live m ! k) then int k else - 1 | None \<Rightarrow> - 1)"

definition first_selectable :: "UIMenu \<Rightarrow> nat list \<Rightarrow> int" where
  "first_selectable m ks = (case List.find (\<lambda>k. selectable (live m ! k)) ks of Some k \<Rightarrow> int k | None \<Rightarrow> - 1)"

text \<open>The index is not past the end of the menu.\<close>

definition UIGetNextSelectableItem :: "UIMenu \<Rightarrow> int \<Rightarrow> int" where
  "UIGetNextSelectableItem m k = first_selectable m [nat (if k < 0 then 0 else k + 1)..<length (live m)]"

definition UIGetPrevSelectableItem :: "UIMenu \<Rightarrow> int \<Rightarrow> int" where
  "UIGetPrevSelectableItem m k = first_selectable m (rev [0..<nat ((if k < 0 then 0 else k - 1) + 1)])"

definition UI_PAD_REPEAT_START_DELAY :: u16 where "UI_PAD_REPEAT_START_DELAY = 20"
definition UI_PAD_REPEAT_DELAY :: u16 where "UI_PAD_REPEAT_DELAY = 5"

text \<open>The local variables of \<open>UIExecMenu\<close>. \<open>item\<close> is the item of \<open>ex_sel\<close>, or NULL when that is negative.\<close>

record exec_vars =
  ex_menu :: menu_name
  ex_sel :: int
  ex_frame :: u16
  ex_old :: u32
  ex_delay :: u16
  ex_rate :: u16

text \<open>The buttons that count as pressed, with the repetition of those held down.\<close>

definition pad_repeat :: "u32 \<Rightarrow> exec_vars \<Rightarrow> u32 \<times> exec_vars" where
  "pad_repeat raw v =
     (let masked = raw AND NOT (ex_old v) in
      if raw = 0 \<or> (ex_old v \<noteq> 0 \<and> raw \<noteq> ex_old v)
      then (masked, v\<lparr>ex_delay := UI_PAD_REPEAT_START_DELAY, ex_rate := UI_PAD_REPEAT_DELAY, ex_old := raw\<rparr>)
      else if ex_delay v = 0
      then (if ex_rate v = 0 then (raw, v\<lparr>ex_rate := UI_PAD_REPEAT_DELAY - 1\<rparr>)
            else (masked, v\<lparr>ex_old := raw, ex_rate := ex_rate v - 1\<rparr>))
      else (masked, v\<lparr>ex_old := raw, ex_delay := ex_delay v - 1\<rparr>))"

definition item_of :: "menu_name \<Rightarrow> int \<Rightarrow> ('w, 'z) ui_state_scheme \<Rightarrow> UIMenuItem option" where
  "item_of m sel s = (if sel < 0 then None else Some (menu_items (menus s m) ! nat sel))"

definition editable :: "UIMenuItem \<Rightarrow> bool" where
  "editable i \<longleftrightarrow> \<not> has i MITEM_FLAG_READONLY \<and> \<not> has i MITEM_FLAG_DISABLED"

definition toggled :: "'w ui_env \<Rightarrow> UIMenuItem \<Rightarrow> UIMenuItem" where
  "toggled E i = i\<lparr>it_w0 := Num (if as_num E (it_w0 i) = 0 then 1 else 0)\<rparr>"

definition step_left :: "'w ui_env \<Rightarrow> UIMenuItem \<Rightarrow> UIMenuItem" where
  "step_left E i =
     (let v = as_num E (it_w0 i) in case it_type i of
        MITEM_VALUE \<Rightarrow> i\<lparr>it_w0 := Num (if it_w1 i \<le> sint v - 1 then v - 1 else of_int (it_w2 i))\<rparr>
      | MITEM_TOGGLE \<Rightarrow> toggled E i
      | MITEM_ENUM \<Rightarrow> i\<lparr>it_w2 := (if 0 < it_w2 i then it_w2 i - 1 else it_w1 i - 1)\<rparr>
      | _ \<Rightarrow> i)"

definition step_right :: "'w ui_env \<Rightarrow> UIMenuItem \<Rightarrow> UIMenuItem" where
  "step_right E i =
     (let v = as_num E (it_w0 i) in case it_type i of
        MITEM_VALUE \<Rightarrow> i\<lparr>it_w0 := Num (if sint v + 1 \<le> it_w2 i then v + 1 else of_int (it_w1 i))\<rparr>
      | MITEM_TOGGLE \<Rightarrow> toggled E i
      | MITEM_ENUM \<Rightarrow> i\<lparr>it_w2 := (if it_w2 i + 1 < it_w1 i then it_w2 i + 1 else 0)\<rparr>
      | _ \<Rightarrow> i)"

definition pressed :: "u32 \<Rightarrow> u16 \<Rightarrow> bool" where
  "pressed status button \<longleftrightarrow> status AND ucast button \<noteq> 0"

text \<open>The cursor keys: the selection moves, or the selected item changes.\<close>

definition cursor_keys :: "'w ui_env \<Rightarrow> u32 \<Rightarrow> exec_vars \<Rightarrow> ('w, 'z) ui_state_scheme \<Rightarrow> exec_vars \<times> ('w, 'z) ui_state_scheme" where
  "cursor_keys E keys v s =
     (let m = ex_menu v; sel = ex_sel v;
          move = (\<lambda>k. (if 0 \<le> k then v\<lparr>ex_sel := k\<rparr> else v, s));
          change = (\<lambda>f. (v, case item_of m sel s of None \<Rightarrow> s | Some i \<Rightarrow> if editable i then set_item m (nat sel) f s else s))
      in if pressed keys (PAD_UP E) then move (UIGetPrevSelectableItem (menus s m) sel)
         else if pressed keys (PAD_DOWN E) then move (UIGetNextSelectableItem (menus s m) sel)
         else if pressed keys (PAD_LEFT E) then change (step_left E)
         else if pressed keys (PAD_RIGHT E) then change (step_right E)
         else (v, s))"

text \<open>The select and the cancel button: Some is the result with which the menu ends.\<close>

definition action_keys :: "'w ui_env \<Rightarrow> u32 \<Rightarrow> exec_vars \<Rightarrow> ('w, 'z) ui_state_scheme \<Rightarrow> int option \<times> ('w, 'z) ui_state_scheme" where
  "action_keys E keys v s =
     (if pressed keys (SelectButton s)
      then (case item_of (ex_menu v) (ex_sel v) s of None \<Rightarrow> (None, s)
        | Some i \<Rightarrow>
            if \<not> editable i then (None, s)
            else (case it_type i of MITEM_BUTTON \<Rightarrow> (Some (uint (it_id i)), s)
              | MITEM_TOGGLE \<Rightarrow> (None, set_item (ex_menu v) (nat (ex_sel v)) (toggled E) s)
              | _ \<Rightarrow> (None, s)))
      else if pressed keys (CancelButton s) then (Some 1, s) else (None, s))"

text \<open>The shoulder buttons turn to the next or the previous menu.\<close>

definition page_to :: "'w ui_env \<Rightarrow> ui_transition \<Rightarrow> ui_transition \<Rightarrow> menu_name \<Rightarrow> exec_vars \<Rightarrow> ('w, 'z) ui_state_scheme \<Rightarrow> (exec_vars \<times> ('w, 'z) ui_state_scheme) option" where
  "page_to E out into m v s = do {
     s1 \<leftarrow> UITransition E (ex_menu v) out (ex_sel v) s;
     let k = UIGetNextSelectableItem (menus s1 m) (- 1);
     s2 \<leftarrow> UITransition E m into k s1;
     Some (v\<lparr>ex_menu := m, ex_sel := k\<rparr>, s2)
   }"

definition page_keys :: "'w ui_env \<Rightarrow> u32 \<Rightarrow> exec_vars \<Rightarrow> ('w, 'z) ui_state_scheme \<Rightarrow> (exec_vars \<times> ('w, 'z) ui_state_scheme) option" where
  "page_keys E keys v s =
     (let u = menus s (ex_menu v) in
      if pressed keys (PAD_R1 E)
      then (case menu_next u of None \<Rightarrow> Some (v, s) | Some m \<Rightarrow> page_to E UIMT_RIGHT_OUT UIMT_LEFT_IN m v s)
      else if pressed keys (PAD_L1 E)
      then (case menu_prev u of None \<Rightarrow> Some (v, s) | Some m \<Rightarrow> page_to E UIMT_LEFT_OUT UIMT_RIGHT_IN m v s)
      else Some (v, s))"

type_synonym ('w, 'z) ui_callback =
  "menu_name \<Rightarrow> u16 \<Rightarrow> int \<Rightarrow> u32 \<Rightarrow> ('w, 'z) ui_state_scheme \<Rightarrow> (int \<times> ('w, 'z) ui_state_scheme) option"

text \<open>\<open>callback\<close> is None for NULL. The result is 0 when there is no callback.\<close>

definition call_back :: "('w, 'z) ui_callback option \<Rightarrow> u32 \<Rightarrow> exec_vars \<Rightarrow> ('w, 'z) ui_state_scheme \<Rightarrow> (int \<times> ('w, 'z) ui_state_scheme) option" where
  "call_back cb keys v s = (case cb of None \<Rightarrow> Some (0, s) | Some f \<Rightarrow> f (ex_menu v) (ex_frame v) (ex_sel v) keys s)"

text \<open>One round of the loop: Some ends it with that result.\<close>

definition exec_step ::
    "'w ui_env \<Rightarrow> ('w, 'z) ui_callback option \<Rightarrow> exec_vars \<Rightarrow> ('w, 'z) ui_state_scheme \<Rightarrow> (int option \<times> exec_vars \<times> ('w, 'z) ui_state_scheme) option" where
  "exec_step E cb v s =
     (let (keys, s1) = ReadCombinedPadStatus E s;
          (raw, s2) = ReadCombinedPadStatus_raw E s1;
          (held, v1) = pad_repeat raw v;
          (v2, s3) = cursor_keys E held v1 s2;
          (r, s4) = action_keys E keys v2 s3
      in if r \<noteq> None then Some (r, v2, s4)
         else do {
           (v3, s5) \<leftarrow> page_keys E keys v2 s4;
           s6 \<leftarrow> UIDrawMenu E (ex_menu v3) (ex_frame v3) UI_OFFSET_X UI_OFFSET_Y (ex_sel v3) s5;
           (c, s7) \<leftarrow> call_back cb keys v3 s6;
           if c \<noteq> 0 then Some (Some c, v3, s7)
           else Some (None, v3\<lparr>ex_frame := ex_frame v3 + 1\<rparr>, on_screen E SyncFlipFB s7)
         })"

partial_function (option) exec_loop ::
    "'w ui_env \<Rightarrow> ('w, 'z) ui_callback option \<Rightarrow> exec_vars \<Rightarrow> ('w, 'z) ui_state_scheme \<Rightarrow> ((int \<times> menu_name) \<times> ('w, 'z) ui_state_scheme) option" where
  "exec_loop E cb v s = do {
     (r, v1, s1) \<leftarrow> exec_step E cb v s;
     case r of Some res \<Rightarrow> Some ((res, ex_menu v1), s1) | None \<Rightarrow> exec_loop E cb v1 s1
   }"

definition start_vars :: "menu_name \<Rightarrow> int \<Rightarrow> ('w, 'z) ui_state_scheme \<Rightarrow> exec_vars" where
  "start_vars m SelectedItem s =
     (let k = UIGetSelectableItem (menus s m) SelectedItem
      in \<lparr>ex_menu = m, ex_sel = (if 0 \<le> k then k else UIGetNextSelectableItem (menus s m) (- 1)), ex_frame = 0, ex_old = 0,
           ex_delay = UI_PAD_REPEAT_START_DELAY, ex_rate = UI_PAD_REPEAT_DELAY\<rparr>)"

text \<open>The result and the menu at the end, which goes to \<open>CurrentMenu\<close>.\<close>

definition UIExecMenu ::
    "'w ui_env \<Rightarrow> menu_name \<Rightarrow> int \<Rightarrow> ('w, 'z) ui_callback option \<Rightarrow> ('w, 'z) ui_state_scheme \<Rightarrow> ((int \<times> menu_name) \<times> ('w, 'z) ui_state_scheme) option" where
  "UIExecMenu E m SelectedItem cb s = do {
     let v = start_vars m SelectedItem s;
     (c, s1) \<leftarrow> call_back cb 0 v s;
     if c \<noteq> 0 then Some ((c, m), s1) else exec_loop E cb v s1
   }"

subsection \<open>Message boxes\<close>

definition MBOX_SCREEN_ID_TITLE :: u8 where "MBOX_SCREEN_ID_TITLE = 1"
definition MBOX_SCREEN_ID_MESSAGE :: u8 where "MBOX_SCREEN_ID_MESSAGE = 2"
definition MBOX_SCREEN_ID_BTN1 :: u8 where "MBOX_SCREEN_ID_BTN1 = 3"
definition MBOX_SCREEN_ID_BTN2 :: u8 where "MBOX_SCREEN_ID_BTN2 = 4"
definition MBOX_SCREEN_ID_BTN3 :: u8 where "MBOX_SCREEN_ID_BTN3 = 5"
definition MBOX_SCREEN_ID_BTN4 :: u8 where "MBOX_SCREEN_ID_BTN4 = 6"

lemmas mbox_ids = MBOX_SCREEN_ID_TITLE_def MBOX_SCREEN_ID_MESSAGE_def MBOX_SCREEN_ID_BTN1_def MBOX_SCREEN_ID_BTN2_def
  MBOX_SCREEN_ID_BTN3_def MBOX_SCREEN_ID_BTN4_def

text \<open>The items as the static tables have them: type, identity, flags and label; then format, width and place.\<close>

definition mitem :: "menu_item \<Rightarrow> u8 \<Rightarrow> u8 \<Rightarrow> UIMenuItem" where
  "mitem t ident flags = \<lparr>it_type = t, it_id = ident, it_flags = flags, it_format = 0, it_width = 0, it_x = 0, it_y = 0,
     it_w0 = Num 0, it_w1 = 0, it_w2 = 0\<rparr>"

definition MessageBoxItems :: "UIMenuItem list" where
  "MessageBoxItems = (let brk = mitem MITEM_BREAK 0 0; button = (\<lambda>k. (mitem MITEM_BUTTON k MITEM_FLAG_POS_MID)\<lparr>it_width := 16\<rparr>) in
     [mitem MITEM_LABEL MBOX_SCREEN_ID_TITLE 0, mitem MITEM_SEPERATOR 0 0, brk,
      mitem MITEM_STRING MBOX_SCREEN_ID_MESSAGE MITEM_FLAG_READONLY] @ replicate 8 brk @
     [button MBOX_SCREEN_ID_BTN1, brk, brk, button MBOX_SCREEN_ID_BTN3, brk, brk, button MBOX_SCREEN_ID_BTN2, brk, brk,
      button MBOX_SCREEN_ID_BTN4, mitem MITEM_TERMINATOR 0 0])"

text \<open>A button with its label; a label of -1 hides it.\<close>

definition set_button :: "u8 \<Rightarrow> s32 \<Rightarrow> ('w, 'z) ui_state_scheme \<Rightarrow> ('w, 'z) ui_state_scheme" where
  "set_button ident label s = UISetVisible MessageBoxMenu ident (label \<noteq> - 1) (UISetLabel MessageBoxMenu ident label s)"

definition set_hint :: "menu_name \<Rightarrow> nat \<Rightarrow> int \<Rightarrow> ('w, 'z) ui_state_scheme \<Rightarrow> ('w, 'z) ui_state_scheme" where
  "set_hint m k button s =
     (let u = menus s m in s\<lparr>menus := (menus s)(m := u\<lparr>menu_hints := (menu_hints u)[k := (button, snd (menu_hints u ! k))]\<rparr>)\<rparr>)"

definition fill_box :: "s32 \<Rightarrow> s32 \<Rightarrow> s32 \<Rightarrow> s32 \<Rightarrow> string option \<Rightarrow> s32 \<Rightarrow> ('w, 'z) ui_state_scheme \<Rightarrow> ('w, 'z) ui_state_scheme" where
  "fill_box o1 o2 o3 o4 message title s =
     set_button MBOX_SCREEN_ID_BTN4 o4 (set_button MBOX_SCREEN_ID_BTN3 o3 (set_button MBOX_SCREEN_ID_BTN2 o2 (set_button MBOX_SCREEN_ID_BTN1 o1
       (UISetString MessageBoxMenu MBOX_SCREEN_ID_MESSAGE message (UISetLabel MessageBoxMenu MBOX_SCREEN_ID_TITLE title s)))))"

text \<open>The answer to an item of the menu.\<close>

definition button_number :: "int \<Rightarrow> int" where
  "button_number r = (if r = uint MBOX_SCREEN_ID_BTN1 then 1 else if r = uint MBOX_SCREEN_ID_BTN2 then 2
     else if r = uint MBOX_SCREEN_ID_BTN3 then 3 else if r = uint MBOX_SCREEN_ID_BTN4 then 4 else 0)"

text \<open>Without a button the box is only drawn; no caller uses the result, which is not defined, then.\<close>

definition ShowMessageBox ::
    "'w ui_env \<Rightarrow> s32 \<Rightarrow> s32 \<Rightarrow> s32 \<Rightarrow> s32 \<Rightarrow> string option \<Rightarrow> s32 \<Rightarrow> ('w, 'z) ui_state_scheme \<Rightarrow> (int \<times> ('w, 'z) ui_state_scheme) option" where
  "ShowMessageBox E o1 o2 o3 o4 message title s =
     (let s1 = fill_box o1 o2 o3 o4 message title s; n = length (filter (\<lambda>k. k \<noteq> - 1) [o1, o2, o3, o4]) in
      if 0 < n then do {
        let s2 = set_hint MessageBoxMenu 1 (if n = 1 then - 1 else BUTTON_TYPE_SYS_CANCEL) (set_hint MessageBoxMenu 0 BUTTON_TYPE_SYS_SELECT s1);
        ((r, m), s3) \<leftarrow> UIExecMenu E MessageBoxMenu 0 None s2;
        Some (button_number r, s3)
      }
      else do {
        let s2 = set_hint MessageBoxMenu 1 (- 1) (set_hint MessageBoxMenu 0 (- 1) s1);
        s3 \<leftarrow> UIDrawMenu E MessageBoxMenu 0 UI_OFFSET_X UI_OFFSET_Y (- 1) s2;
        Some (0, on_screen E SyncFlipFB s3)
      })"

definition lbl :: "sys_ui_label \<Rightarrow> s32" where "lbl l = of_nat (lbl_id l)"

text \<open>A box with a built-in text and the labels of its buttons.\<close>

definition message_box :: "'w ui_env \<Rightarrow> s32 \<Rightarrow> s32 \<Rightarrow> sys_ui_message \<Rightarrow> sys_ui_label \<Rightarrow> ('w, 'z) ui_state_scheme \<Rightarrow> (int \<times> ('w, 'z) ui_state_scheme) option" where
  "message_box E o1 o2 msg title s = do {
     (p, s1) \<leftarrow> GetUIString E (msg_id msg) s;
     ShowMessageBox E o1 o2 (- 1) (- 1) p (lbl title) s1
   }"

definition DisplayWarningMessage :: "'w ui_env \<Rightarrow> sys_ui_message \<Rightarrow> ('w, 'z) ui_state_scheme \<Rightarrow> ('w, 'z) ui_state_scheme option" where
  "DisplayWarningMessage E msg s = map_option snd (message_box E (lbl SYS_UI_LBL_OK) (- 1) msg SYS_UI_LBL_WARNING s)"

definition DisplayErrorMessage :: "'w ui_env \<Rightarrow> sys_ui_message \<Rightarrow> ('w, 'z) ui_state_scheme \<Rightarrow> ('w, 'z) ui_state_scheme option" where
  "DisplayErrorMessage E msg s = map_option snd (message_box E (lbl SYS_UI_LBL_OK) (- 1) msg SYS_UI_LBL_ERROR s)"

definition DisplayInfoMessage :: "'w ui_env \<Rightarrow> sys_ui_message \<Rightarrow> ('w, 'z) ui_state_scheme \<Rightarrow> ('w, 'z) ui_state_scheme option" where
  "DisplayInfoMessage E msg s = map_option snd (message_box E (lbl SYS_UI_LBL_OK) (- 1) msg SYS_UI_LBL_INFO s)"

definition DisplayPromptMessage ::
    "'w ui_env \<Rightarrow> sys_ui_message \<Rightarrow> sys_ui_label \<Rightarrow> sys_ui_label \<Rightarrow> ('w, 'z) ui_state_scheme \<Rightarrow> (int \<times> ('w, 'z) ui_state_scheme) option" where
  "DisplayPromptMessage E msg b1 b2 s = message_box E (lbl b1) (lbl b2) msg SYS_UI_LBL_CONFIRM s"

definition DisplayFlashStatusUpdate :: "'w ui_env \<Rightarrow> sys_ui_message \<Rightarrow> ('w, 'z) ui_state_scheme \<Rightarrow> ('w, 'z) ui_state_scheme option" where
  "DisplayFlashStatusUpdate E msg s = map_option snd (message_box E (- 1) (- 1) msg SYS_UI_LBL_WAIT s)"

end
