(* ===== verification/EeSystem.thy ===== *)
theory EeSystem
  imports EeMenu
begin

text \<open>
  The launcher's services: the boot device and the console in \<open>system.c\<close>, the drives as \<open>hdst.c\<close>
  of the launcher sees them, and the start of the IOP's modules in \<open>iop.c\<close>. The remote calls to the
  IOP, the kernel and libpad are parameters.
\<close>

subsection \<open>The world\<close>

text \<open>The modules that the launcher carries.\<close>

datatype irx = IOMANX_irx | FILEXIO_irx | POWEROFF_irx | DEV9_irx | SIO2MAN_irx | PADMAN_irx | MCMAN_irx | USBD_irx | USBHDFSD_irx
  | ATAD_irx | HDD_irx | PFS_irx | HDLOG_irx | HDST_irx | HDCK_irx | HDSK_irx | FSSK_irx | FSCK_irx

datatype sif_call = SifInitRpc | SifExitRpc | SifIopReset | SifIopSync | SifInitIopHeap | SifExitIopHeap | SifLoadFileInit | SifLoadFileExit
  | SbvPatchEnableLmb | FileXioInit | FileXioExit | PoweroffInit | PoweroffSetCallback | PoweroffShutdown

datatype sema = InitSema | InstallLockSema | VBlankStartSema

text \<open>The control calls of the launcher that return no data; those of \<open>hdst\<close> have their number, range or neither.\<close>

datatype ee_devctl = HDST_DEVCTL_SET_IO_BUFFER_SIZE int | HDST_DEVCTL_DEVICE_SMART_STATUS | HDST_DEVCTL_DEVICE_VERIFY_SECTORS u32 u32
  | HDST_DEVCTL_DEVICE_ERASE_SECTORS u32 u32 | HDCK_DEVCTL | HDSK_DEVCTL_START | HDSK_DEVCTL_POLL | HDSK_DEVCTL_GET_PROGRESS
  | HDSK_DEVCTL_STOP | HDSK_DEVCTL_GET_STATUS | HDIOC_SMARTSTAT | HDIOC_GETSECTORERROR | HDIOC_STATUS | PDIOC_CLOSEALL | DDIOC_OFF
  | USBMASS_DEVCTL_STOP_ALL

datatype ee_ioctl2 = CMD_START | CMD_WAIT | CMD_POLL | CMD_STOP

datatype mount_mode = FIO_MT_RDONLY | LogWriteOnly

record ee_dirent =
  de_name :: string
  de_attr :: u32
  de_mode :: u32

record ata_devinfo_ps2 =
  ad_exists :: s32
  ad_has_packet :: s32
  ad_total_sectors :: u32
  ad_security_status :: u32

text \<open>\<open>st_errors\<close> and \<open>st_fixed\<close> are the counts of \<open>fsck\<close>'s status; the status of \<open>fssk\<close> has an error word.\<close>

record fsck_report =
  st_errors :: u32
  st_fixed :: u32

record 'w sys_env =
  ui :: "'w ui_env"
  FSCK_BUILD :: bool
  LOG_MESSAGES :: bool
  getcwd :: "'w \<Rightarrow> string"
  ee_chdir :: "string \<Rightarrow> 'w \<Rightarrow> int \<times> 'w"
  fileXioMount :: "string \<Rightarrow> string \<Rightarrow> mount_mode \<Rightarrow> 'w \<Rightarrow> int \<times> 'w"
  fileXioUmount :: "string \<Rightarrow> 'w \<Rightarrow> 'w"
  fileXioRemove :: "string \<Rightarrow> 'w \<Rightarrow> 'w"
  fileXioSetBlockMode :: "bool \<Rightarrow> 'w \<Rightarrow> 'w"
  fileXioDevctl :: "string \<Rightarrow> ee_devctl \<Rightarrow> 'w \<Rightarrow> int \<times> 'w"
  devctl_detect :: "string \<Rightarrow> 'w \<Rightarrow> (int \<times> ata_devinfo_ps2) \<times> 'w"
  devctl_identify :: "string \<Rightarrow> 'w \<Rightarrow> (int \<times> u16 list) \<times> 'w"
  devctl_hdd_stat :: "string \<Rightarrow> 'w \<Rightarrow> (int \<times> u32 \<times> u32) \<times> 'w"
  devctl_part_name :: "'w \<Rightarrow> (int \<times> string) \<times> 'w"
  fileXioDopen :: "string \<Rightarrow> 'w \<Rightarrow> int \<times> 'w"
  fileXioDread :: "int \<Rightarrow> 'w \<Rightarrow> (int \<times> ee_dirent) \<times> 'w"
  fileXioDclose :: "int \<Rightarrow> 'w \<Rightarrow> 'w"
  fileXioOpen :: "string \<Rightarrow> u32 \<Rightarrow> 'w \<Rightarrow> int \<times> 'w"
  fileXioClose :: "int \<Rightarrow> 'w \<Rightarrow> 'w"
  fileXioIoctl2 :: "int \<Rightarrow> ee_ioctl2 \<Rightarrow> 'w \<Rightarrow> int \<times> 'w"
  ioctl2_fsck_status :: "int \<Rightarrow> 'w \<Rightarrow> (int \<times> fsck_report) \<times> 'w"
  ioctl2_fssk_status :: "int \<Rightarrow> 'w \<Rightarrow> (int \<times> u32) \<times> 'w"
  hddFormat :: "'w \<Rightarrow> int \<times> 'w"
  cpu_ticks :: "'w \<Rightarrow> u32 \<times> 'w"
  sif :: "sif_call \<Rightarrow> 'w \<Rightarrow> int \<times> 'w"
  SifExecModuleBuffer :: "irx \<Rightarrow> irx \<Rightarrow> string \<Rightarrow> 'w \<Rightarrow> (int \<times> int) \<times> 'w"
  WaitSema :: "sema \<Rightarrow> 'w \<Rightarrow> 'w"
  SignalSema :: "sema \<Rightarrow> 'w \<Rightarrow> 'w"
  PollSema :: "sema \<Rightarrow> 'w \<Rightarrow> bool \<times> 'w"
  CreateThread :: "nat \<Rightarrow> int \<Rightarrow> 'w \<Rightarrow> int \<times> 'w"
  StartThread :: "int \<Rightarrow> 'w \<Rightarrow> int \<times> 'w"
  DeleteThread :: "int \<Rightarrow> 'w \<Rightarrow> 'w"
  sleep_alarm :: "nat \<Rightarrow> 'w \<Rightarrow> 'w"
  ATA_ID_COMMAND_SETS_SUPPORTED :: nat
  ATA_ID_SECTOTAL_LO :: nat
  ATA_ID_SECTOTAL_HI :: nat
  ATA_ID_48BIT_SECTOTAL_LO :: nat
  ATA_ID_48BIT_SECTOTAL_MI :: nat
  ATA_ID_48BIT_SECTOTAL_HI :: nat

record AtaDeviceData =
  IdentificationData :: "u16 list"
  PS2AtadData :: ata_devinfo_ps2
  SMARTStatus :: int
  NumSectors :: u32
  ad_model :: string
  ad_serial :: string
  ad_FWVersion :: string

text \<open>
  The static variables. \<open>BlockDevice\<close> is the C string; \<open>init_thread\<close> holds the flags with which
  \<open>SystemInitThread\<close> is to run.
\<close>

record 'w sys_state = "'w ui_state" +
  BootDevice :: int
  BlockDevice :: string
  UserAborted :: bool
  ErrorsFound :: u32
  ErrorsFixed :: u32
  AtadDeviceData :: "nat \<Rightarrow> AtaDeviceData"
  dev9Loaded :: bool
  init_thread :: "u32 option"

definition devctl :: "'w sys_env \<Rightarrow> string \<Rightarrow> ee_devctl \<Rightarrow> ('w, 'z) sys_state_scheme \<Rightarrow> int \<times> ('w, 'z) sys_state_scheme" where
  "devctl E dev c = wcall (fileXioDevctl E dev c)"

subsection \<open>The boot device\<close>

definition BOOT_DEVICE_UNKNOWN :: int where "BOOT_DEVICE_UNKNOWN = - 1"
definition BOOT_DEVICE_MC0 :: int where "BOOT_DEVICE_MC0 = 0"
definition BOOT_DEVICE_MC1 :: int where "BOOT_DEVICE_MC1 = 1"
definition BOOT_DEVICE_MASS :: int where "BOOT_DEVICE_MASS = 2"
definition BOOT_DEVICE_HDD :: int where "BOOT_DEVICE_HDD = 3"

lemmas boot_defs = BOOT_DEVICE_UNKNOWN_def BOOT_DEVICE_MC0_def BOOT_DEVICE_MC1_def BOOT_DEVICE_MASS_def BOOT_DEVICE_HDD_def

definition starts :: "string \<Rightarrow> string \<Rightarrow> bool" where
  "starts p str \<longleftrightarrow> take (length p) str = p"

definition boot_device_of :: "bool \<Rightarrow> string \<Rightarrow> int" where
  "boot_device_of standalone p =
     (if starts ''hdd:'' p \<or> starts ''hdd0:'' p then BOOT_DEVICE_HDD
      else if \<not> standalone \<and> starts ''mc0:'' p then BOOT_DEVICE_MC0
      else if \<not> standalone \<and> starts ''mc1:'' p then BOOT_DEVICE_MC1
      else if \<not> standalone \<and> (starts ''mass:'' p \<or> starts ''mass0:'' p) then BOOT_DEVICE_MASS
      else BOOT_DEVICE_UNKNOWN)"

definition GetBootDeviceID :: "'w sys_env \<Rightarrow> ('w, 'z) sys_state_scheme \<Rightarrow> int \<times> ('w, 'z) sys_state_scheme" where
  "GetBootDeviceID E s =
     (if BootDevice s < BOOT_DEVICE_UNKNOWN
      then (let r = boot_device_of (FSCK_BUILD E) (getcwd E (ee_world s)) in (r, s\<lparr>BootDevice := r\<rparr>))
      else (BootDevice s, s))"

text \<open>
  The part of the current directory up to the second colon, which must be behind the fifth
  character. \<open>BlockDevice\<close> has room for 37 characters (None when the part is longer).
\<close>

definition SysInitMount :: "'w sys_env \<Rightarrow> ('w, 'z) sys_state_scheme \<Rightarrow> (int \<times> ('w, 'z) sys_state_scheme) option" where
  "SysInitMount E s =
     (if BlockDevice s = []
      then (let cwd = getcwd E (ee_world s); k = 5 + length (takeWhile (\<lambda>c. c \<noteq> CHR '':'') (drop 5 cwd)) in
            if 6 < length cwd \<and> k < length cwd
            then (if 37 < k then None
              else (let (r, s1) = wcall (fileXioMount E ''pfs0:'' (take k cwd) FIO_MT_RDONLY) (s\<lparr>BlockDevice := take k cwd\<rparr>)
                    in Some (if 0 \<le> r then wcall (ee_chdir E (drop (k + 1) cwd)) s1 else (r, s1))))
            else Some (- EINVAL, s))
      else (let (r, s1) = wcall (fileXioMount E ''pfs0:'' (BlockDevice s) FIO_MT_RDONLY) s in Some (if 0 \<le> r then 0 else r, s1)))"

definition SysBootDeviceInit :: "'w sys_env \<Rightarrow> ('w, 'z) sys_state_scheme \<Rightarrow> (int \<times> ('w, 'z) sys_state_scheme) option" where
  "SysBootDeviceInit E s = (let (d, s1) = GetBootDeviceID E s in if d = BOOT_DEVICE_HDD then SysInitMount E s1 else Some (0, s1))"

definition SysCreateThread :: "'w sys_env \<Rightarrow> nat \<Rightarrow> int \<Rightarrow> ('w, 'z) sys_state_scheme \<Rightarrow> int \<times> ('w, 'z) sys_state_scheme" where
  "SysCreateThread E stack_size priority s =
     (let (t, s1) = wcall (CreateThread E stack_size priority) s in
      if t < 0 then (t, s1)
      else (let (r, s2) = wcall (StartThread E t) s1 in if r < 0 then (- 1, wdo (DeleteThread E t) s2) else (t, s2)))"

subsection \<open>The drives\<close>

definition NUM_SUPPORTED_DEVICES :: nat where "NUM_SUPPORTED_DEVICES = 2"

definition unit_name :: "string \<Rightarrow> nat \<Rightarrow> string" where
  "unit_name dev u = dev @ dec_u8 u @ '':''"

definition SetHDSTIOBufferSize :: "'w sys_env \<Rightarrow> int \<Rightarrow> ('w, 'z) sys_state_scheme \<Rightarrow> int \<times> ('w, 'z) sys_state_scheme" where
  "SetHDSTIOBufferSize E n = devctl E ''hdst:'' (HDST_DEVCTL_SET_IO_BUFFER_SIZE n)"

text \<open>The copy to the front, in place; None past the end of the array.\<close>

function trim_loop :: "nat \<Rightarrow> nat \<Rightarrow> nat \<Rightarrow> string \<Rightarrow> string option" where
  "trim_loop maxlen from i str =
     (if maxlen \<le> i then Some str
      else if length str \<le> from + i then None
      else (let c = str ! (from + i); str1 = str[i := c] in if c = CHR 0x00 then Some str1 else trim_loop maxlen from (i + 1) str1))"
  by pat_completeness auto
termination
  by (relation "measure (\<lambda>(maxlen, _, i, _). maxlen - i)") auto

declare trim_loop.simps [simp del]

definition TrimWhitespacing :: "nat \<Rightarrow> string \<Rightarrow> string option" where
  "TrimWhitespacing maxlen str =
     (if length str < maxlen then None
      else (case List.find (\<lambda>i. str ! i \<noteq> CHR '' '') [0..<maxlen] of None \<Rightarrow> Some str | Some k \<Rightarrow> trim_loop maxlen k 0 str))"

text \<open>The bytes of \<open>n\<close> swapped words from \<open>k\<close> on, in an array of zeros of \<open>size\<close> bytes.\<close>

definition swapped_text :: "nat \<Rightarrow> nat \<Rightarrow> nat \<Rightarrow> u16 list \<Rightarrow> string" where
  "swapped_text k n sz ws =
     concat (map (\<lambda>w. [char_of (unat (drop_bit 8 w)), char_of (unat (take_bit 8 w))]) (take n (drop k ws))) @ replicate (sz - 2 * n) (CHR 0x00)"

definition no_device :: AtaDeviceData where
  "no_device = \<lparr>IdentificationData = replicate 256 0, PS2AtadData = \<lparr>ad_exists = 0, ad_has_packet = 0, ad_total_sectors = 0, ad_security_status = 0\<rparr>,
     SMARTStatus = 0, NumSectors = 0, ad_model = replicate 42 (CHR 0x00), ad_serial = replicate 22 (CHR 0x00), ad_FWVersion = replicate 10 (CHR 0x00)\<rparr>"

text \<open>The number of sectors that the identification tells; more than 32 bits of them are limited.\<close>

definition id_sectors :: "'w sys_env \<Rightarrow> bool \<Rightarrow> u16 list \<Rightarrow> u32" where
  "id_sectors E psx ws =
     (let two = (\<lambda>lo hi. ucast (ws ! lo) OR push_bit 16 (ucast (ws ! hi)) :: u32) in
      if \<not> psx \<and> ws ! ATA_ID_COMMAND_SETS_SUPPORTED E AND 0x400 \<noteq> 0
      then (if ws ! ATA_ID_48BIT_SECTOTAL_HI E = 0 then two (ATA_ID_48BIT_SECTOTAL_LO E) (ATA_ID_48BIT_SECTOTAL_MI E) else 0xFFFFFFFF)
      else two (ATA_ID_SECTOTAL_LO E) (ATA_ID_SECTOTAL_HI E))"

definition put_device :: "nat \<Rightarrow> (AtaDeviceData \<Rightarrow> AtaDeviceData) \<Rightarrow> ('w, 'z) sys_state_scheme \<Rightarrow> ('w, 'z) sys_state_scheme" where
  "put_device u f s = s\<lparr>AtadDeviceData := (AtadDeviceData s)(u := f (AtadDeviceData s u))\<rparr>"

definition InitATADevice :: "'w sys_env \<Rightarrow> nat \<Rightarrow> ('w, 'z) sys_state_scheme \<Rightarrow> (int \<times> ('w, 'z) sys_state_scheme) option" where
  "InitATADevice E u s =
     (let dev = unit_name ''hdst'' u;
          ((r, info), s1) = wcall (devctl_detect E dev) (put_device u (\<lambda>_. no_device) s);
          s2 = put_device u (\<lambda>d. d\<lparr>PS2AtadData := info\<rparr>) s1
      in if r \<noteq> 0 then Some (r, s2)
         else if ad_exists info = 0 then Some (- ENODEV, s2)
         else (let ((r2, ws), s3) = wcall (devctl_identify E dev) s2; s4 = put_device u (\<lambda>d. d\<lparr>IdentificationData := ws\<rparr>) s3 in
           if r2 \<noteq> 0 then Some (r2, s4)
           else do {
             let (smart, s5) = devctl E dev HDST_DEVCTL_DEVICE_SMART_STATUS s4;
             let (psx, s6) = IsPSX (ui E) s5;
             model \<leftarrow> TrimWhitespacing 41 (swapped_text 27 20 42 ws);
             serial \<leftarrow> TrimWhitespacing 21 (swapped_text 10 10 22 ws);
             fw \<leftarrow> TrimWhitespacing 9 (swapped_text 23 4 10 ws);
             Some (0, put_device u (\<lambda>d. d\<lparr>SMARTStatus := smart, NumSectors := id_sectors E (psx \<noteq> 0) ws, ad_model := model, ad_serial := serial,
               ad_FWVersion := fw\<rparr>) s6)
           }))"

definition PatchSector :: "'w sys_env \<Rightarrow> string \<Rightarrow> u32 \<Rightarrow> ('w, 'z) sys_state_scheme \<Rightarrow> int \<times> ('w, 'z) sys_state_scheme" where
  "PatchSector E dev lba = devctl E dev (HDST_DEVCTL_DEVICE_ERASE_SECTORS lba 1)"

definition IsATADeviceInstalled :: "nat \<Rightarrow> ('w, 'z) sys_state_scheme \<Rightarrow> bool" where
  "IsATADeviceInstalled u s \<longleftrightarrow> ad_exists (PS2AtadData (AtadDeviceData s u)) \<noteq> 0"

text \<open>The C string in a buffer.\<close>

definition c_string :: "string \<Rightarrow> string" where "c_string str = takeWhile (\<lambda>c. c \<noteq> CHR 0x00) str"

definition GetATADeviceModel :: "nat \<Rightarrow> ('w, 'z) sys_state_scheme \<Rightarrow> string" where
  "GetATADeviceModel u s = c_string (ad_model (AtadDeviceData s u))"

definition GetATADeviceSerial :: "nat \<Rightarrow> ('w, 'z) sys_state_scheme \<Rightarrow> string" where
  "GetATADeviceSerial u s = c_string (ad_serial (AtadDeviceData s u))"

definition GetATADeviceFWVersion :: "nat \<Rightarrow> ('w, 'z) sys_state_scheme \<Rightarrow> string" where
  "GetATADeviceFWVersion u s = c_string (ad_FWVersion (AtadDeviceData s u))"

definition GetATADeviceCapacity :: "nat \<Rightarrow> ('w, 'z) sys_state_scheme \<Rightarrow> u32" where
  "GetATADeviceCapacity u s = NumSectors (AtadDeviceData s u)"

definition GetATADeviceSMARTStatus :: "nat \<Rightarrow> ('w, 'z) sys_state_scheme \<Rightarrow> int" where
  "GetATADeviceSMARTStatus u s = SMARTStatus (AtadDeviceData s u)"

subsection \<open>The modules of the IOP\<close>

definition IOP_MOD_HDD :: u32 where "IOP_MOD_HDD = 0x01"
definition IOP_MOD_PFS :: u32 where "IOP_MOD_PFS = 0x02"
definition IOP_MOD_HDST :: u32 where "IOP_MOD_HDST = 0x04"
definition IOP_MOD_HDCK :: u32 where "IOP_MOD_HDCK = 0x08"
definition IOP_MOD_FSCK :: u32 where "IOP_MOD_FSCK = 0x10"
definition IOP_MOD_HDSK :: u32 where "IOP_MOD_HDSK = 0x20"
definition IOP_MOD_FSSK :: u32 where "IOP_MOD_FSSK = 0x40"
definition IOP_REBOOT :: u32 where "IOP_REBOOT = 0x80"
definition IOP_MOD_HDLOG :: u32 where "IOP_MOD_HDLOG = 0x100"

definition IOP_MODSET_INIT :: u32 where "IOP_MODSET_INIT = IOP_MOD_HDD OR IOP_MOD_PFS OR IOP_MOD_HDST"
definition IOP_MODSET_SA_INIT :: u32 where "IOP_MODSET_SA_INIT = IOP_MOD_HDD OR IOP_MOD_PFS"
definition IOP_MODSET_MAIN :: u32 where "IOP_MODSET_MAIN = IOP_REBOOT OR IOP_MOD_HDD OR IOP_MOD_PFS OR IOP_MOD_HDST"
definition IOP_MODSET_SA_MAIN :: u32 where "IOP_MODSET_SA_MAIN = IOP_REBOOT OR IOP_MOD_HDD OR IOP_MOD_PFS"
definition IOP_MODSET_HDCK :: u32 where "IOP_MODSET_HDCK = IOP_REBOOT OR IOP_MOD_HDCK OR IOP_MOD_HDLOG"
definition IOP_MODSET_FSCK :: u32 where "IOP_MODSET_FSCK = IOP_REBOOT OR IOP_MOD_FSCK OR IOP_MOD_HDD OR IOP_MOD_HDLOG"
definition IOP_MODSET_SA_FSCK :: u32 where "IOP_MODSET_SA_FSCK = IOP_REBOOT OR IOP_MOD_FSCK OR IOP_MOD_HDD"
definition IOP_MODSET_HDSK :: u32 where "IOP_MODSET_HDSK = IOP_REBOOT OR IOP_MOD_HDSK OR IOP_MOD_HDLOG"
definition IOP_MODSET_FSSK :: u32 where "IOP_MODSET_FSSK = IOP_REBOOT OR IOP_MOD_FSSK OR IOP_MOD_HDD OR IOP_MOD_HDLOG"

lemmas iop_flags = IOP_MOD_HDD_def IOP_MOD_PFS_def IOP_MOD_HDST_def IOP_MOD_HDCK_def IOP_MOD_FSCK_def IOP_MOD_HDSK_def IOP_MOD_FSSK_def
  IOP_REBOOT_def IOP_MOD_HDLOG_def IOP_MODSET_INIT_def IOP_MODSET_SA_INIT_def IOP_MODSET_MAIN_def IOP_MODSET_SA_MAIN_def
  IOP_MODSET_HDCK_def IOP_MODSET_FSCK_def IOP_MODSET_SA_FSCK_def IOP_MODSET_HDSK_def IOP_MODSET_FSSK_def

definition HDD_args :: string where "HDD_args = ''-o'' @ [CHR 0x00] @ ''3'' @ [CHR 0x00] @ ''-n'' @ [CHR 0x00] @ ''16'' @ [CHR 0x00]"
definition PFS_args :: string where "PFS_args = ''-o'' @ [CHR 0x00] @ ''2'' @ [CHR 0x00] @ ''-n'' @ [CHR 0x00] @ ''12'' @ [CHR 0x00]"

text \<open>A module with the size of a module and its arguments.\<close>

definition load_irx :: "'w sys_env \<Rightarrow> irx \<Rightarrow> irx \<Rightarrow> string \<Rightarrow> ('w, 'z) sys_state_scheme \<Rightarrow> ('w, 'z) sys_state_scheme" where
  "load_irx E m sz args = wdo (\<lambda>w. snd (SifExecModuleBuffer E m sz args w))"

definition sif_do :: "'w sys_env \<Rightarrow> sif_call \<Rightarrow> ('w, 'z) sys_state_scheme \<Rightarrow> ('w, 'z) sys_state_scheme" where
  "sif_do E c = wdo (\<lambda>w. snd (sif E c w))"

text \<open>The modules that the thread loads for a set of flags: module, size, arguments.\<close>

definition flagged_irx :: "bool \<Rightarrow> bool \<Rightarrow> u32 \<Rightarrow> (irx \<times> irx \<times> string) list" where
  "flagged_irx standalone logs flags =
     (let on = (\<lambda>f. flags AND f \<noteq> 0) in
      [(ATAD_irx, ATAD_irx, [])] @
      (if on IOP_MOD_HDD then [(HDD_irx, HDD_irx, HDD_args)] else []) @
      (if on IOP_MOD_PFS then [(PFS_irx, PFS_irx, PFS_args)] else []) @
      (if \<not> standalone \<and> logs \<and> on IOP_MOD_HDLOG then [(HDLOG_irx, HDLOG_irx, [])] else []) @
      (if \<not> standalone \<and> on IOP_MOD_HDST then [(HDST_irx, HDST_irx, [])] else []))"

definition late_irx :: "bool \<Rightarrow> u32 \<Rightarrow> (irx \<times> irx \<times> string) list" where
  "late_irx standalone flags =
     (let on = (\<lambda>f. flags AND f \<noteq> 0) in
      (if \<not> standalone \<and> on IOP_MOD_HDCK then [(HDCK_irx, HDSK_irx, [])] else []) @
      (if \<not> standalone \<and> on IOP_MOD_HDSK then [(HDSK_irx, HDSK_irx, [])] else []) @
      (if \<not> standalone \<and> on IOP_MOD_FSSK then [(FSSK_irx, FSSK_irx, [])] else []) @
      (if on IOP_MOD_FSCK then [(FSCK_irx, FSCK_irx, [])] else []))"

definition load_all :: "'w sys_env \<Rightarrow> (irx \<times> irx \<times> string) list \<Rightarrow> ('w, 'z) sys_state_scheme \<Rightarrow> ('w, 'z) sys_state_scheme" where
  "load_all E ms s = fold (\<lambda>(m, sz, args). load_irx E m sz args) ms s"

text \<open>The thread; it ends with the signal that the initialisation is complete.\<close>

definition SystemInitThread :: "'w sys_env \<Rightarrow> u32 \<Rightarrow> ('w, 'z) sys_state_scheme \<Rightarrow> ('w, 'z) sys_state_scheme option" where
  "SystemInitThread E flags s = do {
     let s1 = load_all E (flagged_irx (FSCK_BUILD E) (LOG_MESSAGES E) flags) s;
     s2 \<leftarrow> (if \<not> FSCK_BUILD E \<and> flags AND IOP_MOD_HDST \<noteq> 0
       then do { t \<leftarrow> ofold (\<lambda>i t. map_option snd (InitATADevice E i t)) [0..<NUM_SUPPORTED_DEVICES] s1; Some (snd (SetHDSTIOBufferSize E 256 t)) }
       else Some s1);
     Some (wdo (SignalSema E InitSema) (sif_do E SifLoadFileExit (sif_do E SifExitIopHeap (load_all E (late_irx (FSCK_BUILD E) flags) s2))))
   }"

text \<open>A call again and again until it does not return 0.\<close>

partial_function (option) sif_until :: "'w sys_env \<Rightarrow> sif_call \<Rightarrow> ('w, 'z) sys_state_scheme \<Rightarrow> ('w, 'z) sys_state_scheme option" where
  "sif_until E c s = (let (r, s1) = wcall (sif E c) s in if r = 0 then sif_until E c s1 else Some s1)"

text \<open>The thread gets its flags when it is created; without a thread nothing will signal.\<close>

definition IopInitStart :: "'w sys_env \<Rightarrow> u32 \<Rightarrow> ('w, 'z) sys_state_scheme \<Rightarrow> ('w, 'z) sys_state_scheme option" where
  "IopInitStart E flags s = do {
     let s0 = (if flags AND IOP_REBOOT = 0 then sif_do E SifInitRpc s else PadDeinitPads (ui E) s);
     s1 \<leftarrow> sif_until E SifIopReset s0;
     s2 \<leftarrow> sif_until E SifIopSync s1;
     let s3 = fold (sif_do E) [SifInitRpc, SifInitIopHeap, SifLoadFileInit, SbvPatchEnableLmb] s2;
     let s4 = sif_do E FileXioInit (load_all E [(IOMANX_irx, IOMANX_irx, []), (FILEXIO_irx, FILEXIO_irx, [])] s3);
     let s5 = load_irx E POWEROFF_irx POWEROFF_irx [] s4;
     let ((ret, stat), s6) = wcall (SifExecModuleBuffer E DEV9_irx DEV9_irx []) s5;
     let s7 = load_all E ([(SIO2MAN_irx, SIO2MAN_irx, []), (PADMAN_irx, PADMAN_irx, [])] @
       (if FSCK_BUILD E then [] else [(MCMAN_irx, MCMAN_irx, []), (USBD_irx, USBD_irx, []), (USBHDFSD_irx, USBHDFSD_irx, [])]))
       (s6\<lparr>dev9Loaded := (0 \<le> ret \<and> stat = 0)\<rparr>);
     let (t, s8) = SysCreateThread E 0x1000 2 s7;
     Some (PadInitPads (ui E) (fold (sif_do E) [PoweroffInit, PoweroffSetCallback] (s8\<lparr>init_thread := (if t < 0 then None else Some flags)\<rparr>)))
   }"

text \<open>
  The thread has run when the initialisation is complete; what it changes is used by nobody
  before. Without a thread it is never complete (None).
\<close>

definition run_init :: "'w sys_env \<Rightarrow> ('w, 'z) sys_state_scheme \<Rightarrow> ('w, 'z) sys_state_scheme option" where
  "run_init E s = do {
     flags \<leftarrow> init_thread s;
     s1 \<leftarrow> SystemInitThread E flags s;
     Some (s1\<lparr>init_thread := None\<rparr>)
   }"

text \<open>Waiting for it, and the end of its semaphore.\<close>

definition WaitInit :: "'w sys_env \<Rightarrow> ('w, 'z) sys_state_scheme \<Rightarrow> ('w, 'z) sys_state_scheme option" where
  "WaitInit E s = map_option (wdo (WaitSema E InitSema)) (run_init E s)"

definition IopDeinit :: "'w sys_env \<Rightarrow> ('w, 'z) sys_state_scheme \<Rightarrow> ('w, 'z) sys_state_scheme" where
  "IopDeinit E s = sif_do E SifExitRpc (sif_do E FileXioExit (PadDeinitPads (ui E) s))"

subsection \<open>Logs\<close>

definition IsLoggingEnabled :: "'w sys_env \<Rightarrow> ('w, 'z) sys_state_scheme \<Rightarrow> bool \<times> ('w, 'z) sys_state_scheme" where
  "IsLoggingEnabled E s = (let (d, s1) = GetBootDeviceID E s in (d \<noteq> BOOT_DEVICE_HDD, s1))"

partial_function (option) mount_log_retry :: "'w sys_env \<Rightarrow> string \<Rightarrow> ('w, 'z) sys_state_scheme \<Rightarrow> ('w, 'z) sys_state_scheme option" where
  "mount_log_retry E file s =
     (let (r, s1) = wcall (fileXioMount E ''tty0:'' file LogWriteOnly) s in
      if r = - ENODEV then mount_log_retry E file (wdo (sleep_alarm E (16 * 500)) s1) else Some s1)"

text \<open>The path has room for 255 characters (None when it is longer).\<close>

definition IopStartLog :: "'w sys_env \<Rightarrow> string \<Rightarrow> ('w, 'z) sys_state_scheme \<Rightarrow> ('w, 'z) sys_state_scheme option" where
  "IopStartLog E log s =
     (if \<not> LOG_MESSAGES E then Some s
      else (let (on, s1) = IsLoggingEnabled E s in
        if \<not> on then Some s1
        else (let cwd = getcwd E (ee_world s1);
                  file = (if 1 < length cwd \<and> last cwd \<noteq> CHR ''/'' then cwd @ ''/'' else cwd) @ log
              in if 255 < length file then None else mount_log_retry E file s1)))"

definition IopStopLog :: "'w sys_env \<Rightarrow> ('w, 'z) sys_state_scheme \<Rightarrow> ('w, 'z) sys_state_scheme" where
  "IopStopLog E s =
     (if \<not> LOG_MESSAGES E then s
      else (let (on, s1) = IsLoggingEnabled E s in if on then wdo (fileXioUmount E ''tty0:'') s1 else s1))"

subsection \<open>The state of the drive, and the power button\<close>

definition HDDCheckSMARTStatus :: "'w sys_env \<Rightarrow> ('w, 'z) sys_state_scheme \<Rightarrow> bool \<times> ('w, 'z) sys_state_scheme" where
  "HDDCheckSMARTStatus E s = (let (r, s1) = devctl E ''hdd0:'' HDIOC_SMARTSTAT s in (r \<noteq> 0, s1))"

definition HDDCheckSectorErrorStatus :: "'w sys_env \<Rightarrow> ('w, 'z) sys_state_scheme \<Rightarrow> bool \<times> ('w, 'z) sys_state_scheme" where
  "HDDCheckSectorErrorStatus E s = (let (r, s1) = devctl E ''hdd0:'' HDIOC_GETSECTORERROR s in (r \<noteq> 0, s1))"

definition HDDCheckPartErrorStatus :: "'w sys_env \<Rightarrow> ('w, 'z) sys_state_scheme \<Rightarrow> bool \<times> ('w, 'z) sys_state_scheme" where
  "HDDCheckPartErrorStatus E s = (let ((r, name), s1) = wcall (devctl_part_name E) s in (r \<noteq> 0, s1))"

definition HDDCheckStatus :: "'w sys_env \<Rightarrow> ('w, 'z) sys_state_scheme \<Rightarrow> int \<times> ('w, 'z) sys_state_scheme" where
  "HDDCheckStatus E s = (let (r, s1) = devctl E ''hdd0:'' HDIOC_STATUS s in (r, if r = 0 then wdo (fileXioRemove E ''hdd0:_tmp'') s1 else s1))"

partial_function (option) dev9_off :: "'w sys_env \<Rightarrow> ('w, 'z) sys_state_scheme \<Rightarrow> ('w, 'z) sys_state_scheme option" where
  "dev9_off E s = (let (r, s1) = devctl E ''dev9x:'' DDIOC_OFF s in if r < 0 then dev9_off E s1 else Some s1)"

text \<open>The lock of a running operation is tried, not waited for.\<close>

definition poweroffCallback :: "'w sys_env \<Rightarrow> ('w, 'z) sys_state_scheme \<Rightarrow> ('w, 'z) sys_state_scheme option" where
  "poweroffCallback E s =
     (let (got, s1) = wcall (PollSema E InstallLockSema) s in
      if \<not> got then Some s1
      else do {
        s2 \<leftarrow> (if dev9Loaded s1 then dev9_off E (snd (devctl E ''pfs:'' PDIOC_CLOSEALL s1)) else Some s1);
        Some (sif_do E PoweroffShutdown (if FSCK_BUILD E then s2 else snd (devctl E ''mass:'' USBMASS_DEVCTL_STOP_ALL s2)))
      })"

end
