(* ===== verification/EeProgress.thy ===== *)
theory EeProgress
  imports EeSystem
begin

text \<open>
  The screens of \<open>menu.c\<close> that the operations on a drive use: progress, results, and the question
  what to do with a bad sector; and those of the main menu.
\<close>

subsection \<open>Tables\<close>

definition SCN_SCREEN_ID_TITLE :: u8 where "SCN_SCREEN_ID_TITLE = 1"
definition SCN_SCREEN_ID_RESULT :: u8 where "SCN_SCREEN_ID_RESULT = 2"
definition SCN_SCREEN_ID_LBL_ERRS_FOUND :: u8 where "SCN_SCREEN_ID_LBL_ERRS_FOUND = 3"
definition SCN_SCREEN_ID_ERRS_FOUND :: u8 where "SCN_SCREEN_ID_ERRS_FOUND = 4"
definition SCN_SCREEN_ID_LBL_ERRS_FIXED :: u8 where "SCN_SCREEN_ID_LBL_ERRS_FIXED = 5"
definition SCN_SCREEN_ID_ERRS_FIXED :: u8 where "SCN_SCREEN_ID_ERRS_FIXED = 6"
definition SCN_SCREEN_ID_LBL_SOME_ERRS_NOT_FIXED :: u8 where "SCN_SCREEN_ID_LBL_SOME_ERRS_NOT_FIXED = 7"
definition SCN_SCREEN_ID_BTN_OK :: u8 where "SCN_SCREEN_ID_BTN_OK = 8"

definition PRG_SCREEN_ID_TITLE :: u8 where "PRG_SCREEN_ID_TITLE = 1"
definition PRG_SCREEN_ID_ETA_HOURS :: u8 where "PRG_SCREEN_ID_ETA_HOURS = 2"
definition PRG_SCREEN_ID_ETA_MINS :: u8 where "PRG_SCREEN_ID_ETA_MINS = 3"
definition PRG_SCREEN_ID_ETA_SECS :: u8 where "PRG_SCREEN_ID_ETA_SECS = 4"
definition PRG_SCREEN_ID_LBL_RD_ERRS :: u8 where "PRG_SCREEN_ID_LBL_RD_ERRS = 5"
definition PRG_SCREEN_ID_RD_ERRS :: u8 where "PRG_SCREEN_ID_RD_ERRS = 6"
definition PRG_SCREEN_ID_PROGRESS :: u8 where "PRG_SCREEN_ID_PROGRESS = 7"
definition PRG_SCREEN_ID_TOTAL_PROGRESS :: u8 where "PRG_SCREEN_ID_TOTAL_PROGRESS = 8"

definition MAIN_MENU_ID_HDD0_MODEL :: u8 where "MAIN_MENU_ID_HDD0_MODEL = 1"
definition MAIN_MENU_ID_HDD0_SERIAL :: u8 where "MAIN_MENU_ID_HDD0_SERIAL = 2"
definition MAIN_MENU_ID_HDD0_FIRMWARE :: u8 where "MAIN_MENU_ID_HDD0_FIRMWARE = 3"
definition MAIN_MENU_ID_HDD0_SMART :: u8 where "MAIN_MENU_ID_HDD0_SMART = 4"
definition MAIN_MENU_ID_HDD0_CAPACITY :: u8 where "MAIN_MENU_ID_HDD0_CAPACITY = 5"
definition MAIN_MENU_ID_HDD0_CAPACITY_UNIT :: u8 where "MAIN_MENU_ID_HDD0_CAPACITY_UNIT = 6"
definition MAIN_MENU_ID_DESCRIPTION :: u8 where "MAIN_MENU_ID_DESCRIPTION = 7"
definition MAIN_MENU_ID_VERSION :: u8 where "MAIN_MENU_ID_VERSION = 8"
definition MAIN_MENU_ID_BTN_SCAN :: u8 where "MAIN_MENU_ID_BTN_SCAN = 9"
definition MAIN_MENU_ID_BTN_OPT :: u8 where "MAIN_MENU_ID_BTN_OPT = 10"
definition MAIN_MENU_ID_BTN_SURF_SCAN :: u8 where "MAIN_MENU_ID_BTN_SURF_SCAN = 11"
definition MAIN_MENU_ID_BTN_ZERO_FILL :: u8 where "MAIN_MENU_ID_BTN_ZERO_FILL = 12"
definition MAIN_MENU_ID_BTN_EXIT :: u8 where "MAIN_MENU_ID_BTN_EXIT = 13"

lemmas main_menu_ids = MAIN_MENU_ID_HDD0_MODEL_def MAIN_MENU_ID_HDD0_SERIAL_def MAIN_MENU_ID_HDD0_FIRMWARE_def MAIN_MENU_ID_HDD0_SMART_def
  MAIN_MENU_ID_HDD0_CAPACITY_def MAIN_MENU_ID_HDD0_CAPACITY_UNIT_def MAIN_MENU_ID_DESCRIPTION_def MAIN_MENU_ID_VERSION_def
  MAIN_MENU_ID_BTN_SCAN_def MAIN_MENU_ID_BTN_OPT_def MAIN_MENU_ID_BTN_SURF_SCAN_def MAIN_MENU_ID_BTN_ZERO_FILL_def MAIN_MENU_ID_BTN_EXIT_def

definition plain_item :: "menu_item \<Rightarrow> UIMenuItem" where "plain_item t = mitem t 0 0"

definition label_item :: "sys_ui_label \<Rightarrow> UIMenuItem" where
  "label_item l = (mitem MITEM_LABEL 0 0)\<lparr>it_w0 := Num (lbl l)\<rparr>"

definition menu_button :: "u8 \<Rightarrow> sys_ui_label \<Rightarrow> UIMenuItem list" where
  "menu_button ident l = [(mitem MITEM_BUTTON ident MITEM_FLAG_POS_MID)\<lparr>it_width := 24, it_w0 := Num (lbl l)\<rparr>, plain_item MITEM_BREAK, plain_item MITEM_BREAK]"

definition HDDMainMenuItems :: "UIMenuItem list" where
  "HDDMainMenuItems = (let tab = plain_item MITEM_TAB; brk = plain_item MITEM_BREAK in
     [label_item SYS_UI_LBL_ATA_UNIT_0, plain_item MITEM_SEPERATOR,
      label_item SYS_UI_LBL_MODEL, tab, tab, tab, mitem MITEM_STRING MAIN_MENU_ID_HDD0_MODEL MITEM_FLAG_READONLY, brk,
      label_item SYS_UI_LBL_SERIAL, tab, tab, tab, mitem MITEM_STRING MAIN_MENU_ID_HDD0_SERIAL MITEM_FLAG_READONLY, brk,
      label_item SYS_UI_LBL_FIRMWARE, tab, tab, mitem MITEM_STRING MAIN_MENU_ID_HDD0_FIRMWARE MITEM_FLAG_READONLY, brk,
      label_item SYS_UI_LBL_SMART_STATUS, tab, tab, mitem MITEM_LABEL MAIN_MENU_ID_HDD0_SMART 0, brk,
      label_item SYS_UI_LBL_CAPACITY, tab, tab, mitem MITEM_VALUE MAIN_MENU_ID_HDD0_CAPACITY MITEM_FLAG_READONLY, plain_item MITEM_SPACE,
      mitem MITEM_LABEL MAIN_MENU_ID_HDD0_CAPACITY_UNIT 0, brk, brk] @
     menu_button MAIN_MENU_ID_BTN_SCAN SYS_UI_LBL_SCAN_DISK @ menu_button MAIN_MENU_ID_BTN_OPT SYS_UI_LBL_OPT_DISK @
     menu_button MAIN_MENU_ID_BTN_SURF_SCAN SYS_UI_LBL_SURF_SCAN_DISK @ menu_button MAIN_MENU_ID_BTN_ZERO_FILL SYS_UI_LBL_ZERO_FILL_DISK @
     menu_button MAIN_MENU_ID_BTN_EXIT SYS_UI_LBL_QUIT @
     [(mitem MITEM_STRING MAIN_MENU_ID_DESCRIPTION (MITEM_FLAG_POS_ABS OR MITEM_FLAG_READONLY))\<lparr>it_x := 32, it_y := 370\<rparr>, brk,
      (mitem MITEM_STRING MAIN_MENU_ID_VERSION (MITEM_FLAG_POS_ABS OR MITEM_FLAG_READONLY))\<lparr>it_x := 520, it_y := 420\<rparr>, brk,
      plain_item MITEM_TERMINATOR])"

text \<open>The flags of the number of bad sectors are \<open>MITEM_FORMAT_UDEC | MITEM_FLAG_READONLY\<close> in the source, a format in place of a flag.\<close>

definition eta_item :: "u8 \<Rightarrow> UIMenuItem" where
  "eta_item ident = (mitem MITEM_VALUE ident MITEM_FLAG_READONLY)\<lparr>it_format := MITEM_FORMAT_UDEC, it_width := 2\<rparr>"

definition ProgressScreenItems :: "UIMenuItem list" where
  "ProgressScreenItems = (let tab = plain_item MITEM_TAB; brk = plain_item MITEM_BREAK in
     [mitem MITEM_LABEL PRG_SCREEN_ID_TITLE 0, plain_item MITEM_SEPERATOR, label_item SYS_UI_LBL_ETA, tab,
      eta_item PRG_SCREEN_ID_ETA_HOURS, plain_item MITEM_COLON, eta_item PRG_SCREEN_ID_ETA_MINS, plain_item MITEM_COLON,
      eta_item PRG_SCREEN_ID_ETA_SECS, brk,
      (mitem MITEM_LABEL PRG_SCREEN_ID_LBL_RD_ERRS 0)\<lparr>it_w0 := Num (lbl SYS_UI_LBL_BAD_SECTORS)\<rparr>, tab,
      mitem MITEM_VALUE PRG_SCREEN_ID_RD_ERRS (MITEM_FORMAT_UDEC OR MITEM_FLAG_READONLY), brk, brk,
      (mitem MITEM_PROGRESS PRG_SCREEN_ID_PROGRESS MITEM_FLAG_POS_ABS)\<lparr>it_y := 280\<rparr>, brk, brk,
      mitem MITEM_PROGRESS PRG_SCREEN_ID_TOTAL_PROGRESS 0, brk, plain_item MITEM_TERMINATOR])"

definition ScanResultsScreenItems :: "UIMenuItem list" where
  "ScanResultsScreenItems = (let tab = plain_item MITEM_TAB; brk = plain_item MITEM_BREAK;
       named = (\<lambda>k l. (mitem MITEM_LABEL k 0)\<lparr>it_w0 := Num (lbl l)\<rparr>) in
     [named SCN_SCREEN_ID_TITLE SYS_UI_LBL_SCAN_RESULTS, plain_item MITEM_SEPERATOR, brk,
      mitem MITEM_STRING SCN_SCREEN_ID_RESULT MITEM_FLAG_READONLY, brk, brk,
      named SCN_SCREEN_ID_LBL_ERRS_FOUND SYS_UI_LBL_ERRORS_FOUND, tab, mitem MITEM_VALUE SCN_SCREEN_ID_ERRS_FOUND MITEM_FLAG_READONLY, brk,
      named SCN_SCREEN_ID_LBL_ERRS_FIXED SYS_UI_LBL_ERRORS_FIXED, tab, mitem MITEM_VALUE SCN_SCREEN_ID_ERRS_FIXED MITEM_FLAG_READONLY, brk, brk,
      named SCN_SCREEN_ID_LBL_SOME_ERRS_NOT_FIXED SYS_UI_LBL_SOME_ERRORS_NOT_FIXED, brk] @ replicate 9 brk @
     [(mitem MITEM_BUTTON SCN_SCREEN_ID_BTN_OK MITEM_FLAG_POS_MID)\<lparr>it_width := 16\<rparr>, plain_item MITEM_TERMINATOR])"

text \<open>The menus at the start; none has a neighbour.\<close>

definition static_menus :: "menu_name \<Rightarrow> UIMenu" where
  "static_menus m =
     (let hint = (\<lambda>b l. (b, sint (lbl l))) in case m of
        HDDMainMenu \<Rightarrow> \<lparr>menu_next = None, menu_prev = None, menu_items = HDDMainMenuItems,
          menu_hints = [hint BUTTON_TYPE_SYS_SELECT SYS_UI_LBL_OK, hint BUTTON_TYPE_SYS_CANCEL SYS_UI_LBL_QUIT]\<rparr>
      | ProgressScreen \<Rightarrow> \<lparr>menu_next = None, menu_prev = None, menu_items = ProgressScreenItems,
          menu_hints = [hint BUTTON_TYPE_SYS_CANCEL SYS_UI_LBL_CANCEL, (- 1, - 1)]\<rparr>
      | ScanResultsScreen \<Rightarrow> \<lparr>menu_next = None, menu_prev = None, menu_items = ScanResultsScreenItems,
          menu_hints = [hint BUTTON_TYPE_SYS_SELECT SYS_UI_LBL_OK, (- 1, - 1)]\<rparr>
      | MessageBoxMenu \<Rightarrow> \<lparr>menu_next = None, menu_prev = None, menu_items = MessageBoxItems,
          menu_hints = [hint BUTTON_TYPE_SYS_SELECT SYS_UI_LBL_OK, hint BUTTON_TYPE_SYS_CANCEL SYS_UI_LBL_CANCEL]\<rparr>)"

subsection \<open>Progress\<close>

definition eta_type :: "menu_item \<Rightarrow> ('w, 'z) ui_state_scheme \<Rightarrow> ('w, 'z) ui_state_scheme" where
  "eta_type t s = UISetType ProgressScreen PRG_SCREEN_ID_ETA_SECS t (UISetType ProgressScreen PRG_SCREEN_ID_ETA_MINS t
     (UISetType ProgressScreen PRG_SCREEN_ID_ETA_HOURS t s))"

definition InitProgressScreen :: "sys_ui_label \<Rightarrow> ('w, 'z) ui_state_scheme \<Rightarrow> ('w, 'z) ui_state_scheme" where
  "InitProgressScreen label s =
     (let errs = (label = SYS_UI_LBL_SURF_SCANNING_DISK);
          whole = (label = SYS_UI_LBL_OPTIMIZING_DISK_P1 \<or> label = SYS_UI_LBL_OPTIMIZING_DISK_P2)
      in eta_type MITEM_VALUE ((UISetVisible ProgressScreen PRG_SCREEN_ID_TOTAL_PROGRESS whole (UISetVisible ProgressScreen PRG_SCREEN_ID_RD_ERRS errs
        (UISetVisible ProgressScreen PRG_SCREEN_ID_LBL_RD_ERRS errs (UISetLabel ProgressScreen PRG_SCREEN_ID_TITLE (lbl label) s))))\<lparr>ETADisplayed := True\<rparr>))"

definition UINT_MAX :: u32 where "UINT_MAX = 0xFFFFFFFF"

text \<open>Hours, minutes (a byte) and seconds.\<close>

definition split_time :: "u32 \<Rightarrow> u32 \<times> u8 \<times> u32" where
  "split_time secs = (let h = secs div 3600; m = ucast ((secs - h * 3600) div 60) :: u8 in (h, m, secs - h * 3600 - ucast m * 60))"

definition show_eta :: "u32 \<Rightarrow> ('w, 'z) ui_state_scheme \<Rightarrow> ('w, 'z) ui_state_scheme" where
  "show_eta secs s =
     (if secs < UINT_MAX
      then (let s1 = (if ETADisplayed s then s else (eta_type MITEM_VALUE s)\<lparr>ETADisplayed := True\<rparr>); (h, m, sec) = split_time secs in
            UISetValue ProgressScreen PRG_SCREEN_ID_ETA_SECS sec (UISetValue ProgressScreen PRG_SCREEN_ID_ETA_MINS (ucast m)
              (UISetValue ProgressScreen PRG_SCREEN_ID_ETA_HOURS h s1)))
      else if ETADisplayed s
      then (let dash = (\<lambda>k t. UISetString ProgressScreen k (Some ''--'') (UISetType ProgressScreen k MITEM_STRING t)) in
            (dash PRG_SCREEN_ID_ETA_SECS (dash PRG_SCREEN_ID_ETA_MINS (dash PRG_SCREEN_ID_ETA_HOURS s)))\<lparr>ETADisplayed := False\<rparr>)
      else s)"

definition show_progress :: "'w ui_env \<Rightarrow> ('w, 'z) ui_state_scheme \<Rightarrow> ('w, 'z) ui_state_scheme option" where
  "show_progress E s = map_option (on_screen E SyncFlipFB) (UIDrawMenu E ProgressScreen 0 0 0 (- 1) s)"

definition DrawDiskSurfScanningScreen :: "'w ui_env \<Rightarrow> u32 \<Rightarrow> u32 \<Rightarrow> u32 \<Rightarrow> ('w, 'z) ui_state_scheme \<Rightarrow> ('w, 'z) ui_state_scheme option" where
  "DrawDiskSurfScanningScreen E percent secs bad s =
     show_progress E (show_eta secs (UISetValue ProgressScreen PRG_SCREEN_ID_RD_ERRS bad (UISetValue ProgressScreen PRG_SCREEN_ID_PROGRESS percent s)))"

definition DrawDiskZeroFillingScreen :: "'w ui_env \<Rightarrow> u32 \<Rightarrow> u32 \<Rightarrow> ('w, 'z) ui_state_scheme \<Rightarrow> ('w, 'z) ui_state_scheme option" where
  "DrawDiskZeroFillingScreen E percent secs s = show_progress E (show_eta secs (UISetValue ProgressScreen PRG_SCREEN_ID_PROGRESS percent s))"

definition DrawDiskScanningScreen :: "'w ui_env \<Rightarrow> u32 \<Rightarrow> u32 \<Rightarrow> ('w, 'z) ui_state_scheme \<Rightarrow> ('w, 'z) ui_state_scheme option" where
  "DrawDiskScanningScreen E percent secs s = show_progress E (show_eta secs (UISetValue ProgressScreen PRG_SCREEN_ID_PROGRESS percent s))"

definition DrawDiskOptimizationScreen :: "'w ui_env \<Rightarrow> u32 \<Rightarrow> u32 \<Rightarrow> u32 \<Rightarrow> ('w, 'z) ui_state_scheme \<Rightarrow> ('w, 'z) ui_state_scheme option" where
  "DrawDiskOptimizationScreen E percent whole secs s =
     show_progress E (show_eta secs (UISetValue ProgressScreen PRG_SCREEN_ID_TOTAL_PROGRESS whole (UISetValue ProgressScreen PRG_SCREEN_ID_PROGRESS percent s)))"

subsection \<open>Bad sectors and results\<close>

datatype bad_sector_mode = BAD_SECTOR_HANDLING_MODE_PROMPT | BAD_SECTOR_HANDLING_MODE_REMAP | BAD_SECTOR_HANDLING_MODE_SKIP
  | BAD_SECTOR_HANDLING_MODE_REMAP_ALL | BAD_SECTOR_HANDLING_MODE_SKIP_ALL

definition action_of_answer :: "int \<Rightarrow> bad_sector_mode" where
  "action_of_answer r =
     (if r = 4 then BAD_SECTOR_HANDLING_MODE_SKIP else if r = 3 then BAD_SECTOR_HANDLING_MODE_REMAP_ALL
      else if r = 2 then BAD_SECTOR_HANDLING_MODE_SKIP_ALL else BAD_SECTOR_HANDLING_MODE_REMAP)"

text \<open>The text is cut to 191 characters. A NULL text is printed through NULL (None).\<close>

definition GetBadSectorAction :: "'w ui_env \<Rightarrow> u32 \<Rightarrow> ('w, 'z) ui_state_scheme \<Rightarrow> (bad_sector_mode \<times> ('w, 'z) ui_state_scheme) option" where
  "GetBadSectorAction E lba s = do {
     (p, s1) \<leftarrow> GetUIString E (msg_id SYS_UI_MSG_BAD_SECTOR_FOUND) s;
     txt \<leftarrow> p;
     (r, s2) \<leftarrow> ShowMessageBox E (lbl SYS_UI_LBL_REMAP) (lbl SYS_UI_LBL_REMAP_ALL) (lbl SYS_UI_LBL_SKIP) (lbl SYS_UI_LBL_SKIP_ALL)
       (Some (take 191 (sprint E txt lba))) (lbl SYS_UI_LBL_CONFIRM) s1;
     Some (action_of_answer r, s2)
   }"

definition DisplayScanCompleteResults :: "'w ui_env \<Rightarrow> u32 \<Rightarrow> u32 \<Rightarrow> ('w, 'z) ui_state_scheme \<Rightarrow> ('w, 'z) ui_state_scheme option" where
  "DisplayScanCompleteResults E found fixed s = do {
     (p, s1) \<leftarrow> GetUIString E (msg_id SYS_UI_MSG_SCAN_DISK_COMPLETED_OK) s;
     let s2 = UISetString ScanResultsScreen SCN_SCREEN_ID_RESULT p s1;
     let s3 = (if found \<noteq> 0 then UISetValue ScanResultsScreen SCN_SCREEN_ID_ERRS_FIXED fixed (UISetValue ScanResultsScreen SCN_SCREEN_ID_ERRS_FOUND found s2) else s2);
     let s4 = fold (\<lambda>k. UISetVisible ScanResultsScreen k (found \<noteq> 0))
       [SCN_SCREEN_ID_LBL_ERRS_FOUND, SCN_SCREEN_ID_ERRS_FOUND, SCN_SCREEN_ID_LBL_ERRS_FIXED, SCN_SCREEN_ID_ERRS_FIXED] s3;
     let s5 = UISetVisible ScanResultsScreen SCN_SCREEN_ID_LBL_SOME_ERRS_NOT_FIXED (found \<noteq> fixed) s4;
     map_option snd (UIExecMenu E ScanResultsScreen 0 None s5)
   }"

subsection \<open>The main menu's screens\<close>

definition RedrawLoadingScreen :: "'w ui_env \<Rightarrow> u32 \<Rightarrow> ('w, 'z) ui_state_scheme \<Rightarrow> ('w, 'z) ui_state_scheme option" where
  "RedrawLoadingScreen E frame s = do {
     let s1 = on_screen E DrawBackground (on_screen E SyncFlipFB s);
     s2 \<leftarrow> FontPrintf (fnt E) 10 10 0 25 GS_WHITE_FONT ''HDDChecker v0.964'' s1;
     ((xr, yr), s3) \<leftarrow> FontPrintfWithFeedback (fnt E) 420 380 0 18 GS_WHITE_FONT ''Loading '' s2;
     let n = frame mod 240 div 60;
     s4 \<leftarrow> (if n = 0 then Some s3
       else FontPrintf (fnt E) (short (420 + xr)) 380 0 18 GS_WHITE_FONT (if n = 1 then ''.'' else if n = 2 then ''. .'' else ''. . .'') s3);
     Some (if frame < 60 then on_screen E (DrawSprite 0 0 (screen_width s4) (screen_height s4) 0 (gs_colour 0 0 0 (0x80 - frame * 2))) s4 else s4)
   }"

fun menu_entrance :: "'w ui_env \<Rightarrow> int \<Rightarrow> nat list \<Rightarrow> ('w, 'z) ui_state_scheme \<Rightarrow> ('w, 'z) ui_state_scheme option" where
  "menu_entrance E selection [] s = Some s"
| "menu_entrance E selection (i # is) s = do {
     s1 \<leftarrow> UIDrawMenu E HDDMainMenu (of_nat i) (UI_OFFSET_X + int i * 6) UI_OFFSET_Y selection
       (on_screen E (DrawSprite 0 0 (screen_width s) (screen_height s) 0 (gs_colour 0 0 0 (0x80 - of_nat i * 4))) s);
     menu_entrance E selection is (on_screen E SyncFlipFB s1)
   }"

definition DrawMenuEntranceSlideInMenuAnimation :: "'w ui_env \<Rightarrow> int \<Rightarrow> ('w, 'z) ui_state_scheme \<Rightarrow> ('w, 'z) ui_state_scheme option" where
  "DrawMenuEntranceSlideInMenuAnimation E selection s = menu_entrance E selection (rev [1..<31]) s"

definition DrawMenuExitAnimation :: "'w ui_env \<Rightarrow> ('w, 'z) ui_state_scheme \<Rightarrow> ('w, 'z) ui_state_scheme" where
  "DrawMenuExitAnimation E s =
     fold (\<lambda>i t. on_screen E SyncFlipFB (on_screen E (DrawSprite 0 0 (screen_width t) (screen_height t) 0 (gs_colour 0 0 0 (0x80 - of_nat i * 4))) t)) (rev [1..<31]) s"

text \<open>The pads are read in every 30th frame, until a button is pressed.\<close>

partial_function (option) double_confirm :: "'w ui_env \<Rightarrow> u32 \<Rightarrow> ('w, 'z) ui_state_scheme \<Rightarrow> (int \<times> ('w, 'z) ui_state_scheme) option" where
  "double_confirm E frame s = do {
     (p, s1) \<leftarrow> GetUIString E (msg_id SYS_UI_MSG_ZERO_FILL_DISK_CFM_2) (on_screen E DrawBackground s);
     str \<leftarrow> p;
     s2 \<leftarrow> FontPrintf (fnt E) 20 64 1 10 GS_WHITE_FONT str s1;
     if 0 < frame \<and> frame mod 30 = 0
     then (let (keys, s3) = ReadCombinedPadStatus E s2 in
       if keys \<noteq> 0 then Some (if pressed keys (PAD_SELECT E) \<and> pressed keys (PAD_START E) then 1 else 0, on_screen E SyncFlipFB s3)
       else double_confirm E 1 (on_screen E SyncFlipFB s3))
     else double_confirm E (frame + 1) (on_screen E SyncFlipFB s2)
   }"

definition PerformZeroFillDoubleConfirmation :: "'w ui_env \<Rightarrow> ('w, 'z) ui_state_scheme \<Rightarrow> (int \<times> ('w, 'z) ui_state_scheme) option" where
  "PerformZeroFillDoubleConfirmation E s = double_confirm E 0 s"

definition description_of :: "u8 \<Rightarrow> sys_ui_message option" where
  "description_of ident =
     (if ident = MAIN_MENU_ID_BTN_SCAN then Some SYS_UI_MSG_DSC_SCAN_DISK
      else if ident = MAIN_MENU_ID_BTN_OPT then Some SYS_UI_MSG_DSC_OPT_DISK
      else if ident = MAIN_MENU_ID_BTN_SURF_SCAN then Some SYS_UI_MSG_DSC_SURF_SCAN_DISK
      else if ident = MAIN_MENU_ID_BTN_ZERO_FILL then Some SYS_UI_MSG_DSC_ZERO_FILL_DISK
      else if ident = MAIN_MENU_ID_BTN_EXIT then Some SYS_UI_MSG_DSC_QUIT else None)"

definition MainMenuUpdateCallback :: "'w ui_env \<Rightarrow> ('w, 'z) ui_callback" where
  "MainMenuUpdateCallback E m frame selection keys s =
     (if keys = 0 then Some (0, s)
      else (case (if 0 \<le> selection then description_of (it_id (menu_items (menus s m) ! nat selection)) else None) of
          None \<Rightarrow> Some (0, UISetString m MAIN_MENU_ID_DESCRIPTION None s)
        | Some msg \<Rightarrow> do { (p, s1) \<leftarrow> GetUIString E (msg_id msg) s; Some (0, UISetString m MAIN_MENU_ID_DESCRIPTION p s1) }))"

text \<open>The number and how often it was divided by 1000, at most 3 times.\<close>

function space_unit :: "nat \<Rightarrow> u32 \<Rightarrow> u32 \<times> nat" where
  "space_unit u temp = (if 1000 \<le> temp \<and> u \<le> 2 then space_unit (u + 1) (temp div 1000) else (temp, u))"
  by pat_completeness auto
termination
  by (relation "measure (\<lambda>(u, _). 3 - u)") auto

declare space_unit.simps [simp del]

definition ProcessSpaceValue :: "u32 \<Rightarrow> u32 \<times> nat" where
  "ProcessSpaceValue space = (let (v, u) = space_unit 0 (space div 2048) in (v, lbl_id SYS_UI_LBL_MB + u))"

end
