(* ===== verification/EeDisk.thy ===== *)
theory EeDisk
  imports EeProgress
begin

text \<open>
  The operations of the launcher on a drive, the second half of \<open>system.c\<close>: scanning,
  optimising, the surface scan and zero-filling. The modules on the IOP do the work; here are
  the loops that drive them, show the progress and ask the user.
\<close>

subsection \<open>Time\<close>

text \<open>Elapsed time, the clock at its last change, from the clock now. The clock runs at 295 MHz.\<close>

definition elapse :: "u32 \<Rightarrow> u32 \<times> u32 \<Rightarrow> u32 \<times> u32" where
  "elapse cur tp =
     (let (t, prev) = tp; secs = (if prev < cur then cur - prev else UINT_MAX - prev + cur) div 295000000
      in if 0 < secs then (t + secs, cur) else tp)"

definition tick :: "'w sys_env \<Rightarrow> u32 \<times> u32 \<Rightarrow> ('w, 'z) sys_state_scheme \<Rightarrow> (u32 \<times> u32) \<times> ('w, 'z) sys_state_scheme" where
  "tick E tp s = (let (cur, s1) = wcall (cpu_ticks E) s in (elapse cur tp, s1))"

definition percent_of :: "u32 \<Rightarrow> u32 \<Rightarrow> u32" where
  "percent_of a b = ucast (((ucast a :: u64) * 100) div ucast b)"

text \<open>The seconds that \<open>remaining\<close> takes when \<open>finished\<close> took \<open>t\<close>.\<close>

definition eta_of :: "u32 \<Rightarrow> u32 \<Rightarrow> u32 \<Rightarrow> u32" where
  "eta_of finished remaining t = (let rate = (if 0 < t then finished div t else 0) in if 0 < rate then remaining div rate else UINT_MAX)"

text \<open>Whether the user presses cancel and confirms it.\<close>

definition ask_abort :: "'w sys_env \<Rightarrow> sys_ui_message \<Rightarrow> ('w, 'z) sys_state_scheme \<Rightarrow> (bool \<times> ('w, 'z) sys_state_scheme) option" where
  "ask_abort E msg s =
     (let (keys, s1) = ReadCombinedPadStatus (ui E) s in
      if pressed keys (CancelButton s1)
      then map_option (\<lambda>(r, t). (r = 2, t)) (DisplayPromptMessage (ui E) msg SYS_UI_LBL_NO SYS_UI_LBL_YES s1)
      else Some (False, s1))"

text \<open>The modules are there: the boot device again, and the fonts from it.\<close>

definition after_init :: "'w sys_env \<Rightarrow> ('w, 'z) sys_state_scheme \<Rightarrow> ('w, 'z) sys_state_scheme option" where
  "after_init E s = do {
     s1 \<leftarrow> WaitInit E s;
     (r, s2) \<leftarrow> SysBootDeviceInit E s1;
     map_option snd (ReinitializeUI (ui E) s2)
   }"

text \<open>The end of every operation: the modules of the main menu are loaded again, and the lock is released.\<close>

definition back_to_menu :: "'w sys_env \<Rightarrow> ('w, 'z) sys_state_scheme \<Rightarrow> ('w, 'z) sys_state_scheme option" where
  "back_to_menu E s = do {
     s1 \<leftarrow> DisplayFlashStatusUpdate (ui E) SYS_UI_MSG_PLEASE_WAIT s;
     s2 \<leftarrow> IopInitStart E IOP_MODSET_MAIN s1;
     s3 \<leftarrow> after_init E s2;
     Some (wdo (SignalSema E InstallLockSema) s3)
   }"

subsection \<open>Scanning and optimising\<close>

definition HdckDisk :: "'w sys_env \<Rightarrow> nat \<Rightarrow> ('w, 'z) sys_state_scheme \<Rightarrow> (int \<times> ('w, 'z) sys_state_scheme) option" where
  "HdckDisk E u s = do {
     s1 \<leftarrow> DisplayFlashStatusUpdate (ui E) SYS_UI_MSG_PLEASE_WAIT s;
     s2 \<leftarrow> IopInitStart E IOP_MODSET_HDCK s1;
     s3 \<leftarrow> after_init E s2;
     s4 \<leftarrow> IopStartLog E ''hdck.log'' s3;
     let (r, s5) = devctl E (''hdck'' @ [char_of (48 + u)] @ '':'') HDCK_DEVCTL s4;
     Some (r, IopStopLog E s5)
   }"

partial_function (option) count_entries :: "'w sys_env \<Rightarrow> int \<Rightarrow> u32 \<Rightarrow> ('w, 'z) sys_state_scheme \<Rightarrow> (u32 \<times> ('w, 'z) sys_state_scheme) option" where
  "count_entries E bfd n s =
     (let ((r, d), s1) = wcall (fileXioDread E bfd) s in if 0 < r then count_entries E bfd (n + 1) s1 else Some (n, s1))"

definition count_partitions :: "'w sys_env \<Rightarrow> string \<Rightarrow> ('w, 'z) sys_state_scheme \<Rightarrow> (u32 \<times> ('w, 'z) sys_state_scheme) option" where
  "count_partitions E dev s =
     (let (bfd, s1) = wcall (fileXioDopen E dev) s in
      if bfd < 0 then Some (0, s1)
      else do { (n, s2) \<leftarrow> count_entries E bfd 0 s1; Some (n, wdo (fileXioDclose E bfd) s2) })"

text \<open>
  Polling the checker until it is no longer busy: \<open>draw\<close> shows the percentage and the time left,
  and \<open>msg\<close> asks before it is stopped.
\<close>

partial_function (option) poll_partition ::
    "'w sys_env \<Rightarrow> (u32 \<Rightarrow> u32 \<Rightarrow> ('w, 'z) sys_state_scheme \<Rightarrow> ('w, 'z) sys_state_scheme option) \<Rightarrow> sys_ui_message \<Rightarrow> int \<Rightarrow> u32 \<Rightarrow> u32 \<Rightarrow> u32 \<times> u32 \<Rightarrow>
      ('w, 'z) sys_state_scheme \<Rightarrow> ('w, 'z) sys_state_scheme option" where
  "poll_partition E draw msg fd i parts tp s =
     (let (busy, s1) = wcall (fileXioIoctl2 E fd CMD_POLL) s in
      if busy \<noteq> 1 then Some s1
      else (let (tp1, s2) = tick E tp s1 in do {
        s3 \<leftarrow> draw (percent_of i parts) (eta_of i (parts - i) (fst tp1)) s2;
        (abort, s4) \<leftarrow> ask_abort E msg s3;
        if abort then Some ((snd (wcall (fileXioIoctl2 E fd CMD_STOP) s4))\<lparr>UserAborted := True\<rparr>)
        else poll_partition E draw msg fd i parts tp1 s4
      }))"

definition APA_FLAG_SUB :: u32 where "APA_FLAG_SUB = 0x0001"
definition APA_TYPE_PFS :: u32 where "APA_TYPE_PFS = 0x0100"

definition is_main_pfs :: "ee_dirent \<Rightarrow> bool" where
  "is_main_pfs d \<longleftrightarrow> de_attr d AND APA_FLAG_SUB = 0 \<and> de_mode d = APA_TYPE_PFS"

definition FSCK_MODE_WRITE :: u32 where "FSCK_MODE_WRITE = 1"
definition FSCK_MODE_AUTO :: u32 where "FSCK_MODE_AUTO = 2"

definition MODE_VERBOSITY :: "u32 \<Rightarrow> u32" where "MODE_VERBOSITY v = push_bit 4 (v AND 0xF)"
definition VERBOSITY :: "'w sys_env \<Rightarrow> u32" where "VERBOSITY E = (if LOG_MESSAGES E then 2 else 0)"

text \<open>One partition with \<open>fsck\<close>: whether the loop over the partitions ends, and the result.\<close>

definition fsck_one :: "'w sys_env \<Rightarrow> nat \<Rightarrow> string \<Rightarrow> u32 \<Rightarrow> u32 \<Rightarrow> ('w, 'z) sys_state_scheme \<Rightarrow> ((bool \<times> int) \<times> ('w, 'z) sys_state_scheme) option" where
  "fsck_one E u name i parts s =
     (let (fd, s1) = wcall (fileXioOpen E (''fsck:hdd'' @ dec_u8 u @ '':'' @ name) (MODE_VERBOSITY (VERBOSITY E) OR FSCK_MODE_AUTO OR FSCK_MODE_WRITE)) s in
      if fd < 0 then Some ((False, fd), s1\<lparr>ErrorsFound := ErrorsFound s1 + 1\<rparr>)
      else (let (r, s2) = wcall (fileXioIoctl2 E fd CMD_START) s1 in do {
        s3 \<leftarrow> (if r = 0 then (let (now, t) = wcall (cpu_ticks E) s2 in
            poll_partition E (DrawDiskScanningScreen (ui E)) SYS_UI_MSG_SCAN_DISK_ABORT_CFM fd i parts (0, now) t) else Some s2);
        if r \<noteq> 0 then Some ((True, r), wdo (fileXioClose E fd) s3)
        else (let ((r2, st), s4) = wcall (ioctl2_fsck_status E fd) s3 in
          if r2 \<noteq> 0 \<or> UserAborted s4 then Some ((True, r2), wdo (fileXioClose E fd) s4)
          else Some ((False, 0), wdo (fileXioClose E fd)
            (s4\<lparr>ErrorsFound := ErrorsFound s4 + st_errors st, ErrorsFixed := ErrorsFixed s4 + st_fixed st\<rparr>)))
      }))"

text \<open>The loop over the partitions of a directory; \<open>one\<close> handles a main partition with a file system.\<close>

partial_function (option) each_partition ::
    "'w sys_env \<Rightarrow> (string \<Rightarrow> u32 \<Rightarrow> ('w, 'z) sys_state_scheme \<Rightarrow> ((bool \<times> int) \<times> ('w, 'z) sys_state_scheme) option) \<Rightarrow> int \<Rightarrow> u32 \<Rightarrow> int \<Rightarrow>
      ('w, 'z) sys_state_scheme \<Rightarrow> (int \<times> ('w, 'z) sys_state_scheme) option" where
  "each_partition E one bfd i result s =
     (let ((r, d), s1) = wcall (fileXioDread E bfd) s in
      if r \<le> 0 then Some (result, s1)
      else if is_main_pfs d
      then do {
        ((stop, result1), s2) \<leftarrow> one (de_name d) i s1;
        if stop then Some (result1, s2) else each_partition E one bfd (i + 1) result1 s2
      }
      else each_partition E one bfd (i + 1) result s1)"

definition hdd_name :: "nat \<Rightarrow> string" where "hdd_name u = ''hdd'' @ [char_of (48 + u)] @ '':''"

definition FsckDisk :: "'w sys_env \<Rightarrow> nat \<Rightarrow> ('w, 'z) sys_state_scheme \<Rightarrow> (int \<times> ('w, 'z) sys_state_scheme) option" where
  "FsckDisk E u s = do {
     s1 \<leftarrow> DisplayFlashStatusUpdate (ui E) SYS_UI_MSG_PLEASE_WAIT s;
     s2 \<leftarrow> IopInitStart E IOP_MODSET_FSCK s1;
     s3 \<leftarrow> after_init E (InitProgressScreen SYS_UI_LBL_SCANNING_DISK s2);
     (parts, s4) \<leftarrow> count_partitions E (hdd_name u) s3;
     if parts < 1 then Some (0, s4)
     else do {
       s5 \<leftarrow> IopStartLog E ''fsck.log'' s4;
       let (bfd, s6) = wcall (fileXioDopen E (hdd_name u)) s5;
       (r, s7) \<leftarrow> (if bfd < 0 then Some (bfd, s6) else do {
           (r, t) \<leftarrow> each_partition E (\<lambda>name i. fsck_one E u name i parts) bfd 0 0 s6;
           Some (r, wdo (fileXioDclose E bfd) t)
         });
       Some (r, IopStopLog E s7)
     }
   }"

definition ScanDisk :: "'w sys_env \<Rightarrow> nat \<Rightarrow> ('w, 'z) sys_state_scheme \<Rightarrow> (int \<times> ('w, 'z) sys_state_scheme) option" where
  "ScanDisk E u s = do {
     s1 \<leftarrow> DisplayFlashStatusUpdate (ui E) SYS_UI_MSG_PLEASE_WAIT (wdo (WaitSema E InstallLockSema) s);
     (r0, s2) \<leftarrow> HdckDisk E u (s1\<lparr>ErrorsFound := 0, ErrorsFixed := 0\<rparr>);
     (r, s3) \<leftarrow> (if r0 = 0 \<and> \<not> UserAborted s2 then FsckDisk E u s2 else Some (r0, s2));
     s4 \<leftarrow> (if r = 0 then (if UserAborted s3 then Some s3 else DisplayScanCompleteResults (ui E) (ErrorsFound s3) (ErrorsFixed s3) s3)
       else DisplayErrorMessage (ui E) SYS_UI_MSG_HDD_FAULT s3);
     s5 \<leftarrow> back_to_menu E s4;
     Some (r, s5)
   }"

text \<open>
  The poll of \<open>hdsk\<close>; its status is asked for in every round, and the loop ends when that is not 0.
\<close>

partial_function (option) hdsk_poll ::
    "'w sys_env \<Rightarrow> string \<Rightarrow> u32 \<Rightarrow> u32 \<times> u32 \<Rightarrow> int \<Rightarrow> ('w, 'z) sys_state_scheme \<Rightarrow> (int \<times> ('w, 'z) sys_state_scheme) option" where
  "hdsk_poll E dev whole tp result s =
     (let (busy, s1) = devctl E dev HDSK_DEVCTL_POLL s in
      if busy \<noteq> 1 then Some (result, s1)
      else (let (p, s2) = devctl E dev HDSK_DEVCTL_GET_PROGRESS s1;
                progress = of_int p :: u32;
                percent = percent_of progress whole;
                (tp1, s3) = tick E tp s2
            in do {
              s4 \<leftarrow> DrawDiskOptimizationScreen (ui E) percent (50 + of_int (half (sint percent))) (eta_of progress (whole - progress) (fst tp1)) s3;
              (abort, s5) \<leftarrow> ask_abort E SYS_UI_MSG_OPT_DISK_ABORT_CFM s4;
              if abort then Some (0, (snd (devctl E dev HDSK_DEVCTL_STOP s5))\<lparr>UserAborted := True\<rparr>)
              else if result \<noteq> 0 then Some (result, s5)
              else (let (r, s6) = devctl E dev HDSK_DEVCTL_GET_STATUS s5 in
                if r \<noteq> 0 \<or> UserAborted s6 then Some (r, s6) else hdsk_poll E dev whole tp1 r s6)
            }))"

definition HdskDisk :: "'w sys_env \<Rightarrow> nat \<Rightarrow> ('w, 'z) sys_state_scheme \<Rightarrow> (int \<times> ('w, 'z) sys_state_scheme) option" where
  "HdskDisk E u s = do {
     s1 \<leftarrow> IopInitStart E IOP_MODSET_HDSK s;
     s2 \<leftarrow> after_init E (InitProgressScreen SYS_UI_LBL_OPTIMIZING_DISK_P2 s1);
     s3 \<leftarrow> IopStartLog E ''hdsk.log'' s2;
     let dev = ''hdsk'' @ [char_of (48 + u)] @ '':'';
     let ((r, free, whole), s4) = wcall (devctl_hdd_stat E dev) s3;
     (r1, s5) \<leftarrow> (if r < 0 \<or> whole = 0 then Some (r, s4)
       else (let (r2, t) = devctl E dev HDSK_DEVCTL_START s4 in
         if r2 \<noteq> 0 then Some (r2, t)
         else (let (now, t2) = wcall (cpu_ticks E) t in hdsk_poll E dev whole (0, now) 0 t2)));
     Some (r1, IopStopLog E s5)
   }"

definition fssk_one :: "'w sys_env \<Rightarrow> nat \<Rightarrow> string \<Rightarrow> u32 \<Rightarrow> u32 \<Rightarrow> ('w, 'z) sys_state_scheme \<Rightarrow> ((bool \<times> int) \<times> ('w, 'z) sys_state_scheme) option" where
  "fssk_one E u name i parts s =
     (let (fd, s1) = wcall (fileXioOpen E (''fssk:hdd'' @ dec_u8 u @ '':'' @ name) (MODE_VERBOSITY (VERBOSITY E))) s in
      if fd < 0 then Some ((False, fd), s1)
      else (let (r, s2) = wcall (fileXioIoctl2 E fd CMD_START) s1;
                draw = (\<lambda>percent. DrawDiskOptimizationScreen (ui E) percent (of_int (half (sint percent))))
            in do {
        s3 \<leftarrow> (if r = 0 then (let (now, t) = wcall (cpu_ticks E) s2 in
            poll_partition E draw SYS_UI_MSG_OPT_DISK_ABORT_CFM fd i parts (0, now) t) else Some s2);
        if r \<noteq> 0 then Some ((True, r), wdo (fileXioClose E fd) s3)
        else (let ((r2, has_error), s4) = wcall (ioctl2_fssk_status E fd) s3; r3 = (if r2 \<noteq> 0 then r2 else sint has_error) in
          Some ((r3 \<noteq> 0 \<or> UserAborted s4, r3), wdo (fileXioClose E fd) s4))
      }))"

definition FsskDisk :: "'w sys_env \<Rightarrow> nat \<Rightarrow> ('w, 'z) sys_state_scheme \<Rightarrow> (int \<times> ('w, 'z) sys_state_scheme) option" where
  "FsskDisk E u s = do {
     s1 \<leftarrow> IopInitStart E IOP_MODSET_FSSK s;
     s2 \<leftarrow> after_init E (InitProgressScreen SYS_UI_LBL_OPTIMIZING_DISK_P1 s1);
     (parts, s3) \<leftarrow> count_partitions E (hdd_name u) s2;
     if parts < 1 then Some (0, s3)
     else do {
       s4 \<leftarrow> IopStartLog E ''fssk.log'' s3;
       let (bfd, s5) = wcall (fileXioDopen E (hdd_name u)) s4;
       (r, s6) \<leftarrow> (if bfd < 0 then Some (bfd, s5) else do {
           (r, t) \<leftarrow> each_partition E (\<lambda>name i. fssk_one E u name i parts) bfd 0 0 s5;
           Some (r, wdo (fileXioDclose E bfd) t)
         });
       Some (r, IopStopLog E s6)
     }
   }"

definition OptimizeDisk :: "'w sys_env \<Rightarrow> nat \<Rightarrow> ('w, 'z) sys_state_scheme \<Rightarrow> (int \<times> ('w, 'z) sys_state_scheme) option" where
  "OptimizeDisk E u s = do {
     s1 \<leftarrow> DisplayFlashStatusUpdate (ui E) SYS_UI_MSG_PLEASE_WAIT (wdo (WaitSema E InstallLockSema) s);
     (r0, s2) \<leftarrow> FsskDisk E u s1;
     (r, s3) \<leftarrow> (if r0 = 0 \<and> \<not> UserAborted s2 then HdskDisk E u s2 else Some (r0, s2));
     s4 \<leftarrow> (if r = 0 then (if UserAborted s3 then Some s3 else DisplayInfoMessage (ui E) SYS_UI_MSG_OPT_DISK_COMPLETED_OK s3)
       else DisplayErrorMessage (ui E) SYS_UI_MSG_HDD_FAULT s3);
     s5 \<leftarrow> back_to_menu E s4;
     Some (r, s5)
   }"

subsection \<open>The surface scan\<close>

text \<open>The local variables of \<open>SurfScanDisk\<close>.\<close>

record surf_vars =
  sv_lba :: u32
  sv_left :: u32
  sv_result :: int
  sv_bad :: u32
  sv_retry :: bool
  sv_mode :: bad_sector_mode
  sv_time :: "u32 \<times> u32"

definition chunk_len :: "u32 \<Rightarrow> u32" where "chunk_len left = (if 65536 < left then 65536 else left)"

definition skip_sector :: "surf_vars \<Rightarrow> surf_vars" where
  "skip_sector v = v\<lparr>sv_lba := sv_lba v + 1, sv_left := sv_left v - 1, sv_result := 0\<rparr>"

text \<open>Patching the sector at \<open>lba\<close>. True: the user gives up, and the block mode stays at waiting.\<close>

definition remap_sector :: "'w sys_env \<Rightarrow> string \<Rightarrow> surf_vars \<Rightarrow> ('w, 'z) sys_state_scheme \<Rightarrow> ((bool \<times> surf_vars) \<times> ('w, 'z) sys_state_scheme) option" where
  "remap_sector E dev v s =
     (let (r, s1) = PatchSector E dev (sv_lba v) (wdo (fileXioSetBlockMode E True) s) in
      if r = 0 then Some ((False, v\<lparr>sv_result := 0, sv_retry := True\<rparr>), wdo (fileXioSetBlockMode E False) s1)
      else do {
        (answer, s2) \<leftarrow> DisplayPromptMessage (ui E) SYS_UI_MSG_SECTOR_PATCH_FAIL SYS_UI_LBL_OK SYS_UI_LBL_ABORT s1;
        if answer = 2 then Some ((True, v\<lparr>sv_result := r\<rparr>), s2)
        else Some ((False, skip_sector v), wdo (fileXioSetBlockMode E False) s2)
      })"

text \<open>What is done with the bad sector at \<open>lba\<close> in the current mode.\<close>

definition bad_sector :: "'w sys_env \<Rightarrow> string \<Rightarrow> surf_vars \<Rightarrow> ('w, 'z) sys_state_scheme \<Rightarrow> ((bool \<times> surf_vars) \<times> ('w, 'z) sys_state_scheme) option" where
  "bad_sector E dev v s = do {
     (mode, s1) \<leftarrow> (if sv_mode v = BAD_SECTOR_HANDLING_MODE_PROMPT then GetBadSectorAction (ui E) (sv_lba v) s else Some (sv_mode v, s));
     case mode of
       BAD_SECTOR_HANDLING_MODE_REMAP \<Rightarrow> remap_sector E dev (v\<lparr>sv_mode := BAD_SECTOR_HANDLING_MODE_PROMPT\<rparr>) s1
     | BAD_SECTOR_HANDLING_MODE_REMAP_ALL \<Rightarrow> remap_sector E dev (v\<lparr>sv_mode := mode\<rparr>) s1
     | BAD_SECTOR_HANDLING_MODE_SKIP \<Rightarrow> Some ((False, skip_sector (v\<lparr>sv_mode := BAD_SECTOR_HANDLING_MODE_PROMPT\<rparr>)), s1)
     | BAD_SECTOR_HANDLING_MODE_SKIP_ALL \<Rightarrow> Some ((False, skip_sector (v\<lparr>sv_mode := mode\<rparr>)), s1)
     | BAD_SECTOR_HANDLING_MODE_PROMPT \<Rightarrow> Some ((False, v\<lparr>sv_mode := mode\<rparr>), s1)
   }"

datatype surf_end = SurfLoop | SurfBreak | SurfGoto

text \<open>One round: the loop goes on, is left, or is left behind the message that follows it.\<close>

definition surf_step :: "'w sys_env \<Rightarrow> string \<Rightarrow> u32 \<Rightarrow> surf_vars \<Rightarrow> ('w, 'z) sys_state_scheme \<Rightarrow> ((surf_end \<times> surf_vars) \<times> ('w, 'z) sys_state_scheme) option" where
  "surf_step E dev whole v s =
     (let (tp, s1) = tick E (sv_time v) s; v1 = v\<lparr>sv_time := tp\<rparr> in do {
        s2 \<leftarrow> DrawDiskSurfScanningScreen (ui E) (percent_of (sv_lba v1) whole) (eta_of (whole - sv_left v1) (sv_left v1) (fst tp)) (sv_bad v1) s1;
        (abort, s3) \<leftarrow> ask_abort E SYS_UI_MSG_SCAN_DISK_ABORT_CFM s2;
        if abort then Some ((SurfBreak, v1\<lparr>sv_result := 1\<rparr>), s3)
        else (let n = chunk_len (sv_left v1); (r, s4) = devctl E dev (HDST_DEVCTL_DEVICE_VERIFY_SECTORS (sv_lba v1) n) s3 in
          if r = 0 then Some ((SurfLoop, v1\<lparr>sv_result := 0, sv_lba := sv_lba v1 + n, sv_left := sv_left v1 - n, sv_retry := False\<rparr>), s4)
          else (let v2 = v1\<lparr>sv_result := r, sv_bad := (if sv_retry v1 then sv_bad v1 else sv_bad v1 + 1)\<rparr> in
            if 0 < r
            then do {
              ((quit, v3), s5) \<leftarrow> bad_sector E dev (v2\<lparr>sv_result := r - 1, sv_lba := sv_lba v2 + of_int (r - 1), sv_left := sv_left v2 - of_int (r - 1)\<rparr>) s4;
              if quit then Some ((SurfGoto, v3), s5)
              else (let (now, s6) = wcall (cpu_ticks E) s5 in Some ((SurfLoop, v3\<lparr>sv_time := (fst (sv_time v3), now)\<rparr>), s6))
            }
            else do { s5 \<leftarrow> DisplayErrorMessage (ui E) SYS_UI_MSG_UNEXPECTED_ATA_ERR s4; Some ((SurfBreak, v2), s5) }))
      })"

partial_function (option) surf_loop ::
    "'w sys_env \<Rightarrow> string \<Rightarrow> u32 \<Rightarrow> surf_vars \<Rightarrow> ('w, 'z) sys_state_scheme \<Rightarrow> ((bool \<times> surf_vars) \<times> ('w, 'z) sys_state_scheme) option" where
  "surf_loop E dev whole v s =
     (if sv_left v = 0 then Some ((False, v), s)
      else do {
        ((e, v1), s1) \<leftarrow> surf_step E dev whole v s;
        if e = SurfLoop then surf_loop E dev whole v1 s1 else Some ((e = SurfGoto, v1), s1)
      })"

definition SurfScanDisk :: "'w sys_env \<Rightarrow> nat \<Rightarrow> ('w, 'z) sys_state_scheme \<Rightarrow> (int \<times> ('w, 'z) sys_state_scheme) option" where
  "SurfScanDisk E u s = do {
     let s1 = InitProgressScreen SYS_UI_LBL_SURF_SCANNING_DISK (wdo (WaitSema E InstallLockSema) s);
     let whole = GetATADeviceCapacity u s1;
     let (now, s2) = wcall (cpu_ticks E) s1;
     ((skip_message, v), s3) \<leftarrow> surf_loop E (unit_name ''hdst'' u) whole
       \<lparr>sv_lba = 0, sv_left = whole, sv_result = 0, sv_bad = 0, sv_retry = False, sv_mode = BAD_SECTOR_HANDLING_MODE_PROMPT, sv_time = (0, now)\<rparr> s2;
     s4 \<leftarrow> (if \<not> skip_message \<and> sv_result v = 0 then DisplayInfoMessage (ui E) SYS_UI_MSG_SURF_SCAN_DISK_COMPLETED_OK s3 else Some s3);
     s5 \<leftarrow> back_to_menu E s4;
     Some (sv_result v, s5)
   }"

subsection \<open>Zero-filling\<close>

partial_function (option) zero_loop ::
    "'w sys_env \<Rightarrow> string \<Rightarrow> u32 \<Rightarrow> u32 \<Rightarrow> u32 \<Rightarrow> u32 \<times> u32 \<Rightarrow> int \<Rightarrow> ('w, 'z) sys_state_scheme \<Rightarrow> (int \<times> ('w, 'z) sys_state_scheme) option" where
  "zero_loop E dev whole lba left tp result s =
     (if left = 0 then Some (result, s)
      else (let (tp1, s1) = tick E tp s in do {
        s2 \<leftarrow> DrawDiskZeroFillingScreen (ui E) (percent_of lba whole) (eta_of (whole - left) left (fst tp1)) s1;
        (abort, s3) \<leftarrow> ask_abort E SYS_UI_MSG_ZERO_FILL_DISK_ABORT_CFM s2;
        if abort then Some (1, s3)
        else (let n = chunk_len left; (r, s4) = devctl E dev (HDST_DEVCTL_DEVICE_ERASE_SECTORS lba n) s3 in
          if r \<noteq> 0 then map_option (Pair r) (DisplayErrorMessage (ui E) SYS_UI_MSG_HDD_FAULT s4)
          else zero_loop E dev whole (lba + n) (left - n) tp1 r s4)
      }))"

definition ZeroFillDisk :: "'w sys_env \<Rightarrow> nat \<Rightarrow> ('w, 'z) sys_state_scheme \<Rightarrow> (int \<times> ('w, 'z) sys_state_scheme) option" where
  "ZeroFillDisk E u s = do {
     let s1 = InitProgressScreen SYS_UI_LBL_ZERO_FILLING_DISK (wdo (WaitSema E InstallLockSema) s);
     let whole = GetATADeviceCapacity u s1;
     let (now, s2) = wcall (cpu_ticks E) s1;
     (r, s3) \<leftarrow> zero_loop E (unit_name ''hdst'' u) whole 0 whole (0, now) 0 s2;
     s4 \<leftarrow> (if r = 0 then DisplayInfoMessage (ui E) SYS_UI_MSG_ZERO_FILL_DISK_COMPLETED_OK s3 else Some s3);
     s5 \<leftarrow> back_to_menu E s4;
     Some (r, s5)
   }"

subsection \<open>The stand-alone checker\<close>

text \<open>Opening, starting, waiting and the status, each only after the one before.\<close>

definition FsckPartition :: "'w sys_env \<Rightarrow> string \<Rightarrow> ('w, 'z) sys_state_scheme \<Rightarrow> (int \<times> ('w, 'z) sys_state_scheme) option" where
  "FsckPartition E part s = do {
     s1 \<leftarrow> DisplayFlashStatusUpdate (ui E) SYS_UI_MSG_PLEASE_WAIT s;
     s2 \<leftarrow> IopInitStart E IOP_MODSET_SA_FSCK s1;
     s3 \<leftarrow> WaitInit E s2;
     let (fd, s4) = wcall (fileXioOpen E (''fsck:'' @ part) (MODE_VERBOSITY 0 OR FSCK_MODE_AUTO OR FSCK_MODE_WRITE)) s3;
     if fd < 0 then Some (fd, s4)
     else (let (r, s5) = wcall (fileXioIoctl2 E fd CMD_START) s4;
               (r1, s6) = (if r = 0 then wcall (fileXioIoctl2 E fd CMD_WAIT) s5 else (r, s5));
               ((r2, st), s7) = (if r1 = 0 then wcall (ioctl2_fsck_status E fd) s6 else ((r1, \<lparr>st_errors = 0, st_fixed = 0\<rparr>), s6));
               s8 = (if r2 = 0 then s7\<lparr>ErrorsFound := ErrorsFound s7 + st_errors st, ErrorsFixed := ErrorsFixed s7 + st_fixed st\<rparr> else s7)
           in Some (r2, wdo (fileXioClose E fd) s8))
   }"

text \<open>
  \<open>ScanDisk\<close> of the build for the stand-alone checker. The result is not defined where no
  partition was checked: None there.
\<close>

definition sa_ScanDisk :: "'w sys_env \<Rightarrow> ('w, 'z) sys_state_scheme \<Rightarrow> (int option \<times> ('w, 'z) sys_state_scheme) option" where
  "sa_ScanDisk E s = do {
     s1 \<leftarrow> DisplayFlashStatusUpdate (ui E) SYS_UI_MSG_PLEASE_WAIT (wdo (WaitSema E InstallLockSema) s);
     let (r, s2) = devctl E ''hdd0:'' HDIOC_GETSECTORERROR s1;
     (res, s3) \<leftarrow> (if r \<noteq> 0 then map_option (Pair None) (DisplayErrorMessage (ui E) SYS_UI_MSG_HDD_FAULT s2)
       else (let ((r1, name), t) = wcall (devctl_part_name E) s2 in
         if r1 = 0 then map_option (Pair None) (DisplayScanCompleteResults (ui E) 0 0 t)
         else do {
           (r2, t1) \<leftarrow> FsckPartition E (''hdd0:'' @ name) (t\<lparr>ErrorsFound := 0, ErrorsFixed := 0\<rparr>);
           t2 \<leftarrow> (if r2 = 0 then DisplayScanCompleteResults (ui E) (ErrorsFound t1) (ErrorsFixed t1) t1
             else DisplayErrorMessage (ui E) SYS_UI_MSG_HDD_FAULT t1);
           t3 \<leftarrow> DisplayFlashStatusUpdate (ui E) SYS_UI_MSG_PLEASE_WAIT t2;
           t4 \<leftarrow> IopInitStart E IOP_MODSET_SA_MAIN t3;
           t5 \<leftarrow> WaitInit E t4;
           Some (Some r2, t5)
         }));
     Some (res, wdo (SignalSema E InstallLockSema) s3)
   }"

end
