(* ===== verification/EeMain.thy ===== *)
theory EeMain
  imports EeDisk
begin

text \<open>
  The main menu (\<open>menu.c\<close>) and the program (\<open>main.c\<close>): what the user can start, with which
  confirmations.
\<close>

subsection \<open>The main menu\<close>

text \<open>\<open>hddFormat\<close> is libhdd's. A failed format is shown and then taken as a formatted drive.\<close>

definition CheckFormat :: "'w sys_env \<Rightarrow> ('w, 'z) sys_state_scheme \<Rightarrow> (int \<times> ('w, 'z) sys_state_scheme) option" where
  "CheckFormat E s =
     (let (status, s1) = HDDCheckStatus E s in
      if status = 1
      then do {
        (answer, s2) \<leftarrow> DisplayPromptMessage (ui E) SYS_UI_MSG_FORMAT_HDD SYS_UI_LBL_CANCEL SYS_UI_LBL_OK s1;
        if answer \<noteq> 2 then Some (status, s2)
        else (let (r, s3) = wcall (hddFormat E) s2 in
          if r \<noteq> 0 then map_option (Pair 0) (DisplayErrorMessage (ui E) SYS_UI_MSG_FORMAT_HDD_FAILED s3) else Some (0, s3))
      }
      else if status = 0 then Some (0, s1)
      else map_option (Pair status) (DisplayErrorMessage (ui E) SYS_UI_MSG_NO_HDD s1))"

text \<open>An operation, when the user confirms it with the second button.\<close>

definition confirmed ::
    "'w sys_env \<Rightarrow> sys_ui_message \<Rightarrow> (('w, 'z) sys_state_scheme \<Rightarrow> (bool \<times> ('w, 'z) sys_state_scheme) option) \<Rightarrow>
      ('w, 'z) sys_state_scheme \<Rightarrow> (bool \<times> ('w, 'z) sys_state_scheme) option" where
  "confirmed E msg act s = do {
     (answer, s1) \<leftarrow> DisplayPromptMessage (ui E) msg SYS_UI_LBL_CANCEL SYS_UI_LBL_OK s;
     if answer = 2 then act s1 else Some (False, s1)
   }"

text \<open>The choice of an option; the result says whether the menu ends.\<close>

definition main_menu_option :: "'w sys_env \<Rightarrow> int \<Rightarrow> ('w, 'z) sys_state_scheme \<Rightarrow> (bool \<times> ('w, 'z) sys_state_scheme) option" where
  "main_menu_option E opt s =
     (let run = (\<lambda>f t. map_option (\<lambda>(r, t1). (False, t1)) (f E 0 t)) in
      if opt = uint MAIN_MENU_ID_BTN_SCAN then confirmed E SYS_UI_MSG_SCAN_DISK_CFM (run ScanDisk) s
      else if opt = uint MAIN_MENU_ID_BTN_OPT then confirmed E SYS_UI_MSG_OPT_DISK_CFM (run OptimizeDisk) s
      else if opt = uint MAIN_MENU_ID_BTN_SURF_SCAN then confirmed E SYS_UI_MSG_SURF_SCAN_DISK_CFM (run SurfScanDisk) s
      else if opt = uint MAIN_MENU_ID_BTN_ZERO_FILL
      then confirmed E SYS_UI_MSG_ZERO_FILL_DISK_CFM (\<lambda>t. do {
        (sure, t1) \<leftarrow> PerformZeroFillDoubleConfirmation (ui E) t;
        if sure \<noteq> 1 then Some (False, t1)
        else do {
          (r, t2) \<leftarrow> ZeroFillDisk E 0 t1;
          (status, t3) \<leftarrow> CheckFormat E t2;
          Some (status \<noteq> 0, t3)
        }
      }) s
      else if opt = 1 \<or> opt = uint MAIN_MENU_ID_BTN_EXIT then confirmed E SYS_UI_MSG_QUIT (\<lambda>t. Some (True, t)) s
      else Some (False, s))"

partial_function (option) main_menu_loop :: "'w sys_env \<Rightarrow> menu_name \<Rightarrow> int \<Rightarrow> ('w, 'z) sys_state_scheme \<Rightarrow> ('w, 'z) sys_state_scheme option" where
  "main_menu_loop E m opt s = do {
     ((opt1, m1), s1) \<leftarrow> UIExecMenu (ui E) m opt (Some (MainMenuUpdateCallback (ui E))) s;
     s2 \<leftarrow> UITransition (ui E) HDDMainMenu UIMT_LEFT_OUT (short opt1) s1;
     (ended, s3) \<leftarrow> main_menu_option E (short opt1) s2;
     if ended then Some s3
     else do {
       s4 \<leftarrow> UITransition (ui E) HDDMainMenu UIMT_LEFT_IN (short opt1) s3;
       main_menu_loop E m1 (short opt1) s4
     }
   }"

definition fill_main_menu :: "('w, 'z) sys_state_scheme \<Rightarrow> ('w, 'z) sys_state_scheme" where
  "fill_main_menu s =
     (let (space, label) = ProcessSpaceValue (GetATADeviceCapacity 0 s) in
      UISetString HDDMainMenu MAIN_MENU_ID_VERSION (Some ''v0.964'')
      (UISetLabel HDDMainMenu MAIN_MENU_ID_HDD0_CAPACITY_UNIT (of_nat label)
      (UISetValue HDDMainMenu MAIN_MENU_ID_HDD0_CAPACITY space
      (UISetLabel HDDMainMenu MAIN_MENU_ID_HDD0_SMART (lbl (if GetATADeviceSMARTStatus 0 s = 0 then SYS_UI_LBL_PASS else SYS_UI_LBL_FAIL))
      (UISetString HDDMainMenu MAIN_MENU_ID_HDD0_FIRMWARE (Some (GetATADeviceFWVersion 0 s))
      (UISetString HDDMainMenu MAIN_MENU_ID_HDD0_SERIAL (Some (GetATADeviceSerial 0 s))
      (UISetString HDDMainMenu MAIN_MENU_ID_HDD0_MODEL (Some (GetATADeviceModel 0 s)) s)))))))"

definition MainMenu :: "'w sys_env \<Rightarrow> ('w, 'z) sys_state_scheme \<Rightarrow> ('w, 'z) sys_state_scheme option" where
  "MainMenu E s = do {
     (status, s1) \<leftarrow> CheckFormat E s;
     if status \<noteq> 0 then Some s1
     else do {
       let (smart, s2) = HDDCheckSMARTStatus E s1;
       s3 \<leftarrow> (if smart then DisplayErrorMessage (ui E) SYS_UI_MSG_HDD_SMART_FAILED s2 else Some s2);
       let (sector, s4) = HDDCheckSectorErrorStatus E s3;
       let (part, s5) = (if sector then (True, s4) else HDDCheckPartErrorStatus E s4);
       s6 \<leftarrow> (if part then DisplayErrorMessage (ui E) SYS_UI_MSG_HDD_CORRUPTED s5 else Some s5);
       s7 \<leftarrow> DrawMenuEntranceSlideInMenuAnimation (ui E) 0 (fill_main_menu s6);
       s8 \<leftarrow> main_menu_loop E HDDMainMenu 0 s7;
       Some (DrawMenuExitAnimation (ui E) s8)
     }
   }"

subsection \<open>The program\<close>

text \<open>The loading screen until the initialisation is complete; polling ends when the thread has run.\<close>

partial_function (option) loading_loop :: "'w sys_env \<Rightarrow> u32 \<Rightarrow> ('w, 'z) sys_state_scheme \<Rightarrow> ('w, 'z) sys_state_scheme option" where
  "loading_loop E frame s = do {
     s1 \<leftarrow> RedrawLoadingScreen (ui E) frame s;
     let (ready, s2) = wcall (PollSema E InitSema) s1;
     if ready then run_init E s2 else loading_loop E (frame + 1) s2
   }"

definition DeinitServices :: "'w sys_env \<Rightarrow> ('w, 'z) sys_state_scheme \<Rightarrow> ('w, 'z) sys_state_scheme" where
  "DeinitServices E s = IopDeinit E s"

text \<open>The boot device and the user interface from it. \<open>leave\<close> ends the program early.\<close>

definition start_ui ::
    "'w sys_env \<Rightarrow> bool \<Rightarrow> (('w, 'z) sys_state_scheme \<Rightarrow> ('w, 'z) sys_state_scheme option) \<Rightarrow> (('w, 'z) sys_state_scheme \<Rightarrow> ('w, 'z) sys_state_scheme option) \<Rightarrow>
      ('w, 'z) sys_state_scheme \<Rightarrow> (bool \<times> ('w, 'z) sys_state_scheme) option" where
  "start_ui E buffered no_device_end no_ui_end s = do {
     (r, s1) \<leftarrow> SysBootDeviceInit E s;
     if r \<noteq> 0 then map_option (Pair False) (no_device_end s1)
     else do {
       (r2, s2) \<leftarrow> InitializeUI (ui E) buffered s1;
       if r2 \<noteq> 0 then map_option (Pair False) (no_ui_end (DeinitializeUI (ui E) s2)) else Some (True, s2)
     }
   }"

text \<open>
  The exit code and the state; the codes of \<open>Exit\<close> are the program's, too. From a hard disk, the
  modules are needed before the interface. This is the build of the whole tool.
\<close>

definition ee_main :: "'w sys_env \<Rightarrow> ('w, 'z) sys_state_scheme \<Rightarrow> (int \<times> ('w, 'z) sys_state_scheme) option" where
  "ee_main E s =
     (let (d, s1) = GetBootDeviceID E (snd (wcall (ee_chdir E ''mass:/HDDChecker/'') s));
          hdd = (d = BOOT_DEVICE_HDD); umount = wdo (fileXioUmount E ''pfs0:'')
      in if d = BOOT_DEVICE_UNKNOWN then Some (ENODEV, s1)
      else do {
        s2 \<leftarrow> IopInitStart E IOP_MODSET_INIT s1;
        (ok, s3) \<leftarrow> (if hdd
          then do { t \<leftarrow> WaitInit E s2; start_ui E True (Some \<circ> DeinitServices E) (Some \<circ> DeinitServices E \<circ> umount) t }
          else do {
            (ok, t) \<leftarrow> start_ui E False (map_option (DeinitServices E) \<circ> WaitInit E) (map_option (DeinitServices E) \<circ> WaitInit E) s2;
            if ok then map_option (Pair True) (loading_loop E 0 t) else Some (False, t)
          });
        if \<not> ok then Some (- 1, s3)
        else do {
          s4 \<leftarrow> MainMenu E s3;
          let s5 = DeinitializeUI (ui E) s4;
          Some (0, DeinitServices E (if hdd then umount s5 else s5))
        }
      })"

end
