(* ===== verification/EeFontProps.thy ===== *)
theory EeFontProps
  imports EeFont
begin

text \<open>
  The atlases: the glyphs that are packed into one never overlap, and the pixels of a glyph stay
  what they were when it was uploaded, whatever is uploaded after it.
\<close>

subsection \<open>Packing\<close>

text \<open>A box is \<open>(x, y, width, height)\<close>; a glyph takes one pixel more to the right and below.\<close>

type_synonym box = "int \<times> int \<times> int \<times> int"

definition apart :: "box \<Rightarrow> box \<Rightarrow> bool" where
  "apart b c \<longleftrightarrow> (case (b, c) of ((x, y, w, h), (x2, y2, w2, h2)) \<Rightarrow> x + w < x2 \<or> x2 + w2 < x \<or> y + h < y2 \<or> y2 + h2 < y)"

definition frontiers_ok :: "FontAtlas \<Rightarrow> bool" where
  "frontiers_ok a \<longleftrightarrow> (let f = frontier0 a; g = frontier1 a in
     0 \<le> fr_x f \<and> fr_x f \<le> 128 \<and> fr_x f + fr_width f = 128 \<and> 0 \<le> fr_y f \<and> fr_y f + fr_height f \<le> 128 \<and>
     fr_x g = 0 \<and> fr_width g = 128 \<and> fr_y g + fr_height g = 128 \<and> fr_y f \<le> fr_y g \<and> fr_y g \<le> 128)"

text \<open>The boxes that the frontiers leave behind: above the row of the horizontal one, or in that row to its left.\<close>

definition behind :: "FontAtlas \<Rightarrow> box \<Rightarrow> bool" where
  "behind a b \<longleftrightarrow> (case b of (x, y, w, h) \<Rightarrow> 0 \<le> x \<and> 0 \<le> y \<and> 0 \<le> w \<and> 0 \<le> h \<and> x + w < 128 \<and> y + h < 128 \<and>
     (y + h < fr_y (frontier0 a) \<or> x + w < fr_x (frontier0 a) \<and> y + h < fr_y (frontier1 a)))"

definition slots_of :: "FontAtlas \<Rightarrow> FontGlyphSlot list" where
  "slots_of a = (case a_slots a of None \<Rightarrow> [] | Some l \<Rightarrow> l)"

definition glyph_box :: "FontGlyphSlot \<Rightarrow> box" where
  "glyph_box g = (VramPageX g, VramPageY g, g_width g, g_height g)"

definition atlas_ok :: "FontAtlas \<Rightarrow> bool" where
  "atlas_ok a \<longleftrightarrow> length (slots_of a) = NumGlyphs a \<and>
     (case a_buffer a of None \<Rightarrow> NumGlyphs a = 0
      | Some buf \<Rightarrow> length buf = 16384 \<and> frontiers_ok a \<and> (\<forall>g \<in> set (slots_of a). behind a (glyph_box g)) \<and>
          (\<forall>i < NumGlyphs a. \<forall>j < NumGlyphs a. i \<noteq> j \<longrightarrow> apart (glyph_box (slots_of a ! i)) (glyph_box (slots_of a ! j))))"

lemma short_id: "- 32768 \<le> x \<Longrightarrow> x < 32768 \<Longrightarrow> short x = x"
  by (simp add: short_def signed_take_bit_int_eq_self)

lemma ushort_id: "0 \<le> x \<Longrightarrow> x < 65536 \<Longrightarrow> ushort x = x"
  by (simp add: ushort_def take_bit_int_eq_self)

lemma first_box:
  assumes "0 \<le> w" "w \<le> 127" "0 \<le> h" "h \<le> 127"
  shows "frontiers_ok (frontier_first w h a)" "behind (frontier_first w h a) (0, 0, w, h)"
  using assms by (simp_all add: frontiers_ok_def behind_def frontier_first_def short_id fnt_defs)

lemma right_box:
  assumes "frontiers_ok a" "room (frontier0 a) w h" "0 \<le> w" "0 \<le> h"
  defines "b \<equiv> (fr_x (frontier0 a), fr_y (frontier0 a), w, h)"
  shows "frontiers_ok (frontier_right w h a)" "behind (frontier_right w h a) b"
    "behind a c \<Longrightarrow> behind (frontier_right w h a) c \<and> apart c b \<and> apart b c"
  using assms
  by (auto simp: frontiers_ok_def behind_def frontier_right_def room_def short_id fnt_defs apart_def Let_def)

lemma down_box:
  assumes "frontiers_ok a" "room (frontier1 a) w h" "0 \<le> w" "0 \<le> h"
  defines "b \<equiv> (fr_x (frontier1 a), fr_y (frontier1 a), w, h)"
  shows "frontiers_ok (frontier_down w h a)" "behind (frontier_down w h a) b"
    "behind a c \<Longrightarrow> behind (frontier_down w h a) c \<and> apart c b \<and> apart b c"
  using assms
  by (auto simp: frontiers_ok_def behind_def frontier_down_def room_def short_id fnt_defs apart_def Let_def)

lemma grow_slots_snoc:
  assumes "length (slots_of a) = n"
  shows "grow_slots E (Suc n) (a_slots a) w = slots_of a @ [junk_slot E n w]"
proof -
  have "grow_slots E (Suc n) (a_slots a) w = map (\<lambda>i. if i < length (slots_of a) then slots_of a ! i else junk_slot E i w) [0..<Suc n]"
    by (simp add: grow_slots_def slots_of_def Let_def)
  also have "\<dots> = slots_of a @ [junk_slot E n w]" using assms by (auto intro!: nth_equalityI simp: nth_append)
  finally show ?thesis .
qed

text \<open>A new entry joins the others; the frontiers are moved by \<open>f\<close>.\<close>

lemma new_slot_cases:
  assumes "length (slots_of a) = NumGlyphs a" "new_slot E x y f a w = (r, b, v)"
    and f: "\<And>c. a_slots (f c) = a_slots c" "\<And>c. NumGlyphs (f c) = NumGlyphs c"
  obtains "r = None" "b = a\<lparr>NumGlyphs := 0, a_slots := None\<rparr>"
  | g where "r = Some (NumGlyphs a)" "b = f (a\<lparr>NumGlyphs := Suc (NumGlyphs a), a_slots := Some (slots_of a @ [g])\<rparr>)"
      "VramPageX g = ushort x" "VramPageY g = ushort y"
proof -
  let ?n = "NumGlyphs a"
  obtain ok v1 where v: "alloc_ok E (20 * (?n + 1)) w = (ok, v1)" by (metis prod.collapse)
  let ?g = "(junk_slot E ?n v1)\<lparr>VramPageX := ushort x, VramPageY := ushort y\<rparr>"
  have "(slots_of a @ [junk_slot E ?n v1])[?n := ?g] = slots_of a @ [?g]" using assms(1) by (simp add: list_update_append)
  moreover have "(slots_of a @ [junk_slot E ?n v1]) ! ?n = junk_slot E ?n v1" using assms(1) by (simp add: nth_append)
  ultimately have "new_slot E x y f a w = (if ok then (Some ?n, f (a\<lparr>NumGlyphs := Suc ?n, a_slots := Some (slots_of a @ [?g])\<rparr>), v1)
      else (None, a\<lparr>NumGlyphs := 0, a_slots := None\<rparr>, v1))"
    unfolding new_slot_def Let_def v prod.case by (simp add: grow_slots_snoc [OF assms(1)])
  then have e: "(if ok then (Some ?n, f (a\<lparr>NumGlyphs := Suc ?n, a_slots := Some (slots_of a @ [?g])\<rparr>), v1)
      else (None, a\<lparr>NumGlyphs := 0, a_slots := None\<rparr>, v1)) = (r, b, v)" using assms(2) by metis
  show ?thesis
  proof (cases ok)
    case True
    then have "r = Some ?n" "b = f (a\<lparr>NumGlyphs := Suc ?n, a_slots := Some (slots_of a @ [?g])\<rparr>)" using e by auto
    then show ?thesis by (rule that(2)) simp_all
  next
    case False
    then show ?thesis using e that(1) by simp
  qed
qed

text \<open>What the allocation of a box leaves: the boxes in use keep clear of the new one.\<close>

definition placed :: "FontAtlas \<Rightarrow> FontAtlas \<Rightarrow> nat \<Rightarrow> int \<Rightarrow> int \<Rightarrow> bool" where
  "placed a b k w h \<longleftrightarrow> k = NumGlyphs a \<and> NumGlyphs b = Suc k \<and> frontiers_ok b \<and>
     (\<exists>buf. a_buffer b = Some buf \<and> length buf = 16384 \<and> (\<forall>buf0. a_buffer a = Some buf0 \<longrightarrow> buf = buf0)) \<and>
     (\<exists>g. a_slots b = Some (slots_of a @ [g]) \<and> behind b (VramPageX g, VramPageY g, w, h) \<and>
        (\<forall>c \<in> set (slots_of a). behind b (glyph_box c) \<and> apart (glyph_box c) (VramPageX g, VramPageY g, w, h) \<and>
           apart (VramPageX g, VramPageY g, w, h) (glyph_box c)))"

lemma frontier_moves [simp]:
  "a_slots (frontier_first w h a) = a_slots a" "NumGlyphs (frontier_first w h a) = NumGlyphs a" "a_buffer (frontier_first w h a) = a_buffer a"
  "a_slots (frontier_right w h a) = a_slots a" "NumGlyphs (frontier_right w h a) = NumGlyphs a" "a_buffer (frontier_right w h a) = a_buffer a"
  "a_slots (frontier_down w h a) = a_slots a" "NumGlyphs (frontier_down w h a) = NumGlyphs a" "a_buffer (frontier_down w h a) = a_buffer a"
  by (simp_all add: frontier_first_def frontier_right_def frontier_down_def Let_def)

lemma frontiers_cong:
  assumes "frontier0 a = frontier0 b" "frontier1 a = frontier1 b"
  shows "frontiers_ok a = frontiers_ok b" "behind a c = behind b c"
  using assms by (simp_all add: frontiers_ok_def behind_def split: prod.splits)

lemma alloc_placed:
  assumes ok: "atlas_ok a" and wh: "0 \<le> w" "w \<le> 127" "0 \<le> h" "h \<le> 127" and al: "AtlasAlloc E font w h a u = Some (r, b, v)"
  shows "case r of None \<Rightarrow> atlas_ok b \<and> (b = a \<or> NumGlyphs b = 0) | Some k \<Rightarrow> placed a b k w h"
proof (cases "a_buffer a")
  case None
  then have n: "NumGlyphs a = 0" "slots_of a = []" using ok by (auto simp: atlas_ok_def)
  obtain vr u1 u2 where e: "new_slot E 0 0 (\<lambda>b. b) (frontier_first w h (a\<lparr>a_vram := vr, a_buffer := Some (replicate 16384 0)\<rparr>)) u2 = (r, b, v)"
    (is "new_slot E 0 0 _ ?a u2 = _")
    using al None unfolding AtlasAlloc_def AtlasInit_def Let_def
    by (auto simp: bind_Some fnt_defs split: prod.splits if_splits)
  have s: "slots_of ?a = []" "NumGlyphs ?a = 0" using n by (simp_all add: slots_of_def)
  have F: "frontiers_ok ?a" "behind ?a (0, 0, w, h)" using first_box [OF wh] by auto
  have l: "length (slots_of ?a) = NumGlyphs ?a" using s by simp
  show ?thesis
  proof (cases rule: new_slot_cases [OF l e refl refl])
    case 1
    then show ?thesis using F by (auto simp: atlas_ok_def slots_of_def frontiers_cong [of "?a\<lparr>NumGlyphs := 0, a_slots := None\<rparr>" ?a])
  next
    case (2 g)
    let ?b = "?a\<lparr>NumGlyphs := Suc (NumGlyphs ?a), a_slots := Some (slots_of ?a @ [g])\<rparr>"
    have "frontiers_ok ?b" "behind ?b (0, 0, w, h)" using F frontiers_cong [of ?b ?a] by simp_all
    then show ?thesis using 2 n s None by (simp add: placed_def ushort_id)
  qed
next
  case (Some buf)
  have fr: "frontiers_ok a" "length buf = 16384" "\<And>c. c \<in> set (slots_of a) \<Longrightarrow> behind a (glyph_box c)" and l: "length (slots_of a) = NumGlyphs a"
    using ok Some by (auto simp: atlas_ok_def)
  have step: ?thesis if e: "new_slot E x y f a u = (r, b, v)" and f: "\<And>c. a_slots (f c) = a_slots c" "\<And>c. NumGlyphs (f c) = NumGlyphs c" "\<And>c. a_buffer (f c) = a_buffer c"
    and F: "\<And>c. frontier0 c = frontier0 a \<Longrightarrow> frontier1 c = frontier1 a \<Longrightarrow> frontiers_ok (f c) \<and> behind (f c) (x, y, w, h)"
      "\<And>c d. frontier0 c = frontier0 a \<Longrightarrow> frontier1 c = frontier1 a \<Longrightarrow> behind a d \<Longrightarrow> behind (f c) d \<and> apart d (x, y, w, h) \<and> apart (x, y, w, h) d"
    and xy: "0 \<le> x" "x < 65536" "0 \<le> y" "y < 65536" for x y f
  proof (cases rule: new_slot_cases [OF l e f(1,2)])
    case 1
    then show ?thesis using fr(1,2) Some by (auto simp: atlas_ok_def slots_of_def frontiers_cong [of "a\<lparr>NumGlyphs := 0, a_slots := None\<rparr>" a])
  next
    case (2 g)
    let ?c = "a\<lparr>NumGlyphs := Suc (NumGlyphs a), a_slots := Some (slots_of a @ [g])\<rparr>"
    have "\<And>d. d \<in> set (slots_of a) \<Longrightarrow> behind (f ?c) (glyph_box d) \<and> apart (glyph_box d) (x, y, w, h) \<and> apart (x, y, w, h) (glyph_box d)"
      "frontiers_ok (f ?c)" "behind (f ?c) (x, y, w, h)"
      using F [of ?c] fr(3) by simp_all
    then show ?thesis using 2 Some fr(2) xy by (simp add: placed_def f ushort_id)
  qed
  have b0: "0 \<le> fr_x (frontier0 a)" "fr_x (frontier0 a) < 65536" "0 \<le> fr_y (frontier0 a)" "fr_y (frontier0 a) < 65536"
    "0 \<le> fr_x (frontier1 a)" "fr_x (frontier1 a) < 65536" "0 \<le> fr_y (frontier1 a)" "fr_y (frontier1 a) < 65536"
    using fr(1) by (auto simp: frontiers_ok_def Let_def)
  have cong: "frontiers_ok c" "behind c d = behind a d" if "frontier0 c = frontier0 a" "frontier1 c = frontier1 a" for c :: FontAtlas and d
    using frontiers_cong [OF that] fr(1) by simp_all
  consider "room (frontier0 a) w h" "new_slot E (fr_x (frontier0 a)) (fr_y (frontier0 a)) (frontier_right w h) a u = (r, b, v)"
    | "room (frontier1 a) w h" "new_slot E (fr_x (frontier1 a)) (fr_y (frontier1 a)) (frontier_down w h) a u = (r, b, v)"
    | "r = None" "b = a"
    using al Some unfolding AtlasAlloc_def by (auto split: if_splits)
  then show ?thesis
  proof cases
    case 1
    show ?thesis
    proof (rule step [OF 1(2)])
      fix c :: FontAtlas assume c: "frontier0 c = frontier0 a" "frontier1 c = frontier1 a"
      note R = right_box [of c w h, unfolded c, OF cong(1) [OF c] 1(1) wh(1,3)]
      show "frontiers_ok (frontier_right w h c) \<and> behind (frontier_right w h c) (fr_x (frontier0 a), fr_y (frontier0 a), w, h)" using R(1,2) by simp
      fix d assume "behind a d"
      then show "behind (frontier_right w h c) d \<and> apart d (fr_x (frontier0 a), fr_y (frontier0 a), w, h) \<and> apart (fr_x (frontier0 a), fr_y (frontier0 a), w, h) d"
        using R(3) cong(2) [OF c] by simp
    qed (use b0 in simp_all)
  next
    case 2
    show ?thesis
    proof (rule step [OF 2(2)])
      fix c :: FontAtlas assume c: "frontier0 c = frontier0 a" "frontier1 c = frontier1 a"
      note R = down_box [of c w h, unfolded c, OF cong(1) [OF c] 2(1) wh(1,3)]
      show "frontiers_ok (frontier_down w h c) \<and> behind (frontier_down w h c) (fr_x (frontier1 a), fr_y (frontier1 a), w, h)" using R(1,2) by simp
      fix d assume "behind a d"
      then show "behind (frontier_down w h c) d \<and> apart d (fr_x (frontier1 a), fr_y (frontier1 a), w, h) \<and> apart (fr_x (frontier1 a), fr_y (frontier1 a), w, h) d"
        using R(3) cong(2) [OF c] by simp
    qed (use b0 in simp_all)
  next
    case 3
    then show ?thesis using ok by simp
  qed
qed

subsection \<open>Pixels\<close>

definition pixel :: "u8 list \<Rightarrow> nat \<Rightarrow> nat \<Rightarrow> u8" where
  "pixel buf x y = buf ! (x + y * 128)"

text \<open>The first \<open>n\<close> rows of the bitmap are at a place, and all other pixels are as before.\<close>

definition copied :: "nat \<Rightarrow> nat \<Rightarrow> ft_glyph \<Rightarrow> nat \<Rightarrow> u8 list \<Rightarrow> u8 list \<Rightarrow> bool" where
  "copied x y g n buf buf1 \<longleftrightarrow> length buf1 = 16384 \<and>
     (\<forall>i < n. \<forall>j < bm_width g. pixel buf1 (x + j) (y + i) = bm_data g ! (i * bm_width g + j)) \<and>
     (\<forall>px < 128. \<forall>py < 128. \<not> (x \<le> px \<and> px < x + bm_width g \<and> y \<le> py \<and> py < y + n) \<longrightarrow> pixel buf1 px py = pixel buf px py)"

lemma splice_nth:
  assumes "a + length r \<le> length buf" "q < length buf"
  shows "(take a buf @ r @ drop (a + length r) buf) ! q = (if a \<le> q \<and> q < a + length r then r ! (q - a) else buf ! q)"
proof -
  have "min (length buf) a = a" using assms(1) by simp
  then show ?thesis using assms by (auto simp: nth_append)
qed

lemma copy_rows:
  assumes "length buf = 16384" "x + bm_width g \<le> 128" "y + bm_rows g \<le> 128" "length (bm_data g) = bm_rows g * bm_width g" "n \<le> bm_rows g"
  shows "\<exists>buf1. ofold (copy_row (int x) (int y) g) [0..<n] buf = Some buf1 \<and> copied x y g n buf buf1"
  using assms(5)
proof (induction n)
  case 0
  then show ?case using assms(1) by (simp add: copied_def)
next
  case (Suc n)
  then obtain b1 where b1: "ofold (copy_row (int x) (int y) g) [0..<n] buf = Some b1" "copied x y g n buf b1" by auto
  let ?w = "bm_width g" and ?a = "x + (y + n) * 128"
  let ?row = "take ?w (drop (n * ?w) (bm_data g))"
  have "(n + 1) * ?w \<le> bm_rows g * ?w" using Suc.prems by (intro mult_right_mono) auto
  then have r0: "(n + 1) * ?w \<le> length (bm_data g)" using assms(4) by simp
  then have r: "length ?row = ?w" "\<And>j. j < ?w \<Longrightarrow> ?row ! j = bm_data g ! (n * ?w + j)" by (simp_all add: nth_drop)
  have fit: "?a + ?w \<le> 16384" using assms(2,3) Suc.prems by simp
  have at: "nat (int x + (int y + int n) * FNT_ATLAS_WIDTH) = ?a" "0 \<le> int x + (int y + int n) * FNT_ATLAS_WIDTH"
    by (simp_all add: FNT_ATLAS_WIDTH_def nat_plus_as_int)
  define b2 where "b2 = take ?a b1 @ ?row @ drop (?a + ?w) b1"
  have c: "copy_row (int x) (int y) g n b1 = Some b2"
    unfolding copy_row_def Let_def at(1) using r(1) at(2) fit b1(2) by (simp add: copied_def b2_def)
  have len: "length b1 = 16384" using b1(2) by (simp add: copied_def)
  have nth: "b2 ! q = (if ?a \<le> q \<and> q < ?a + ?w then ?row ! (q - ?a) else b1 ! q)" if "q < 16384" for q
    using splice_nth [of ?a ?row b1 q] r(1) fit that len by (simp add: b2_def)
  have line: "?a \<le> px + py * 128 \<and> px + py * 128 < ?a + ?w \<longleftrightarrow> py = y + n \<and> x \<le> px \<and> px < x + ?w" if "px < 128" for px py
  proof -
    have "py = y + n" if "?a \<le> px + py * 128" "px + py * 128 < ?a + ?w"
    proof (rule ccontr)
      assume "py \<noteq> y + n"
      then consider "py + 1 \<le> y + n" | "y + n + 1 \<le> py" by linarith
      then show False
      proof cases
        case 1
        then have "(py + 1) * 128 \<le> (y + n) * 128" by (intro mult_right_mono) auto
        then show False using that(1) \<open>px < 128\<close> by simp
      next
        case 2
        then have "(y + n + 1) * 128 \<le> py * 128" by (intro mult_right_mono) auto
        then show False using that(2) assms(2) by simp
      qed
    qed
    then show ?thesis by auto
  qed
  have px: "pixel b2 px py = (if py = y + n \<and> x \<le> px \<and> px < x + ?w then bm_data g ! (n * ?w + (px - x)) else pixel b1 px py)" if "px < 128" "py < 128" for px py
    using nth [of "px + py * 128"] line [OF that(1), of py] that r(2) [of "px - x"] by (auto simp: pixel_def)
  have "copied x y g (Suc n) buf b2"
    unfolding copied_def
  proof (intro conjI allI impI)
    show "length b2 = 16384" using r(1) fit len by (simp add: b2_def)
    fix i j assume "i < Suc n" "j < ?w"
    then show "pixel b2 (x + j) (y + i) = bm_data g ! (i * ?w + j)"
      using px [of "x + j" "y + i"] b1(2) assms(2,3) Suc.prems by (cases "i = n") (auto simp: copied_def)
  next
    fix px py assume "px < (128 :: nat)" "py < (128 :: nat)" "\<not> (x \<le> px \<and> px < x + ?w \<and> y \<le> py \<and> py < y + Suc n)"
    then show "pixel b2 px py = pixel buf px py" using px [of px py] b1(2) by (auto simp: copied_def)
  qed
  then show ?case using b1(1) c by (simp add: ofold_append)
qed

subsection \<open>Uploading\<close>

definition font_ok :: "ee_font \<Rightarrow> bool" where
  "font_ok font \<longleftrightarrow> length (f_atlas font) = 4 \<and> (\<forall>a \<in> set (f_atlas font). atlas_ok a)"

text \<open>An atlas that still has glyphs is as it was.\<close>

definition kept :: "FontAtlas \<Rightarrow> FontAtlas \<Rightarrow> bool" where
  "kept a b \<longleftrightarrow> atlas_ok b \<and> (b = a \<or> NumGlyphs b = 0)"

lemma alloc_some:
  assumes "\<And>u. fst (alloc_ok E 16384 u)"
  shows "AtlasAlloc E font w h a u \<noteq> None"
proof -
  obtain vr u1 where v: "GsVramAllocTextureBuffer E 128 128 u = (vr, u1)" by (metis prod.collapse)
  obtain u2 where "alloc_ok E 16384 u1 = (True, u2)" using assms [of u1] by (metis prod.collapse)
  then have "AtlasInit E font a u \<noteq> None" using v by (simp add: AtlasInit_def Let_def fnt_defs)
  then show ?thesis by (cases "AtlasInit E font a u") (simp_all add: AtlasAlloc_def del: not_None_eq split: prod.splits)
qed

lemma atlases_placed:
  assumes "\<And>u. fst (alloc_ok E 16384 u)" "0 \<le> w" "w \<le> 127" "0 \<le> h" "h \<le> 127"
    and "\<forall>a \<in> set as. atlas_ok a" "distinct is" "\<forall>i \<in> set is. i < length as"
  shows "\<exists>r bs v. alloc_atlases E font w h is as u = Some (r, bs, v) \<and> length bs = length as \<and>
    (\<forall>j < length as. r \<noteq> None \<and> fst (the r) = j \<or> kept (as ! j) (bs ! j)) \<and>
    (\<forall>i k. r = Some (i, k) \<longrightarrow> i \<in> set is \<and> placed (as ! i) (bs ! i) k w h)"
  using assms(6-)
proof (induction "is" arbitrary: as u)
  case Nil
  then show ?case by (auto simp: kept_def)
next
  case (Cons i js)
  obtain r b u1 where al: "AtlasAlloc E font w h (as ! i) u = Some (r, b, u1)" using alloc_some [OF assms(1)] by (metis not_None_eq prod.collapse)
  have i: "i < length as" "atlas_ok (as ! i)" using Cons.prems by auto
  note p = alloc_placed [OF i(2) assms(2-5) al]
  show ?case
  proof (cases r)
    case (Some k)
    then show ?thesis using al i p Cons.prems(1) by (auto simp: nth_list_update kept_def)
  next
    case None
    then have b: "kept (as ! i) b" using p by (simp add: kept_def)
    have "\<forall>a \<in> set (as[i := b]). atlas_ok a" using Cons.prems(1) b set_update_subset_insert [of as i b] by (auto simp: kept_def)
    then obtain r2 bs v where bs: "alloc_atlases E font w h js (as[i := b]) u1 = Some (r2, bs, v)" "length bs = length as"
      "\<And>j. j < length as \<Longrightarrow> r2 \<noteq> None \<and> fst (the r2) = j \<or> kept (as[i := b] ! j) (bs ! j)"
      "\<And>j k. r2 = Some (j, k) \<Longrightarrow> j \<in> set js \<and> placed (as[i := b] ! j) (bs ! j) k w h"
      using Cons.IH [of "as[i := b]" u1] Cons.prems(2,3) by auto
    have "r2 \<noteq> None \<and> fst (the r2) = j \<or> kept (as ! j) (bs ! j)" if "j < length as" for j
      using bs(3) [OF that] b i(1) by (cases "j = i") (auto simp: kept_def)
    moreover have "j \<in> set (i # js) \<and> placed (as ! j) (bs ! j) k w h" if "r2 = Some (j, k)" for j k
      using bs(4) [OF that] Cons.prems(2) by (cases "j = i") auto
    ultimately show ?thesis using al None bs(1,2) by auto
  qed
qed

text \<open>The pixel \<open>(x, y)\<close> of the \<open>k\<close>-th glyph of an atlas.\<close>

definition glyph_pixel :: "FontAtlas \<Rightarrow> nat \<Rightarrow> nat \<Rightarrow> nat \<Rightarrow> u8" where
  "glyph_pixel a k x y =
     pixel (the (a_buffer a)) (nat (VramPageX (slots_of a ! k)) + x) (nat (VramPageY (slots_of a ! k)) + y)"

definition same_glyph :: "FontAtlas \<Rightarrow> FontAtlas \<Rightarrow> nat \<Rightarrow> bool" where
  "same_glyph a b k \<longleftrightarrow> k < NumGlyphs a \<and> slots_of b ! k = slots_of a ! k \<and>
     (\<forall>x < nat (g_width (slots_of a ! k)). \<forall>y < nat (g_height (slots_of a ! k)). glyph_pixel b k x y = glyph_pixel a k x y)"

lemma same_glyph_refl: "k < NumGlyphs a \<Longrightarrow> same_glyph a a k"
  by (simp add: same_glyph_def)

text \<open>The new glyph's entry is filled in and its pixels are copied.\<close>

lemma fill_slot:
  assumes ok: "atlas_ok a" and pl: "placed a b k (int (bm_width g)) (int (bm_rows g))"
    and g: "bm_width g \<le> 127" "bm_rows g \<le> 127" "length (bm_data g) = bm_rows g * bm_width g"
    and sl: "VramPageX sl = VramPageX (slots_of b ! k)" "VramPageY sl = VramPageY (slots_of b ! k)"
      "g_width sl = int (bm_width g)" "g_height sl = int (bm_rows g)"
  shows "\<exists>buf buf1. a_buffer b = Some buf \<and> AtlasCopyFT sl g buf = Some buf1 \<and>
    (let c = b\<lparr>a_slots := Some ((slots_of b)[k := sl]), a_buffer := Some buf1\<rparr> in atlas_ok c \<and> NumGlyphs c = Suc k \<and>
      slots_of c ! k = sl \<and> (\<forall>j < k. same_glyph a c j) \<and>
      (\<forall>x < bm_width g. \<forall>y < bm_rows g. glyph_pixel c k x y = bm_data g ! (y * bm_width g + x)))"
proof -
  obtain s buf where P: "k = NumGlyphs a" "NumGlyphs b = Suc k" "frontiers_ok b" "a_buffer b = Some buf" "length buf = 16384"
    "\<And>buf0. a_buffer a = Some buf0 \<Longrightarrow> buf = buf0" "a_slots b = Some (slots_of a @ [s])" "behind b (VramPageX s, VramPageY s, int (bm_width g), int (bm_rows g))"
    "\<And>c. c \<in> set (slots_of a) \<Longrightarrow> behind b (glyph_box c) \<and> apart (glyph_box c) (VramPageX s, VramPageY s, int (bm_width g), int (bm_rows g)) \<and>
       apart (VramPageX s, VramPageY s, int (bm_width g), int (bm_rows g)) (glyph_box c)"
    using pl by (auto simp: placed_def)
  have l: "length (slots_of a) = k" using ok P(1) by (simp add: atlas_ok_def)
  have sb: "slots_of b = slots_of a @ [s]" using P(7) by (simp add: slots_of_def)
  have bs: "slots_of b ! k = s" using l by (simp add: sb nth_append)
  define X Y where "X = nat (VramPageX s)" and "Y = nat (VramPageY s)"
  have XY: "VramPageX sl = int X" "VramPageY sl = int Y" "X + bm_width g < 128" "Y + bm_rows g < 128"
    using P(8) sl(1,2) unfolding bs by (auto simp: behind_def X_def Y_def)
  have box: "glyph_box sl = (VramPageX s, VramPageY s, int (bm_width g), int (bm_rows g))" using sl by (simp add: glyph_box_def bs)
  obtain buf1 where c: "AtlasCopyFT sl g buf = Some buf1" "copied X Y g (bm_rows g) buf buf1"
    using copy_rows [OF P(5), of X g Y "bm_rows g"] XY g(3) by (auto simp: AtlasCopyFT_def)
  define d where "d = b\<lparr>a_slots := Some (slots_of a @ [sl]), a_buffer := Some buf1\<rparr>"
  have sd: "slots_of d = slots_of a @ [sl]" "NumGlyphs d = Suc k" "a_buffer d = Some buf1" by (simp_all add: d_def slots_of_def P(2))
  have dk: "slots_of d ! k = sl" "\<And>j. j < k \<Longrightarrow> slots_of d ! j = slots_of a ! j" using l by (simp_all add: sd nth_append)
  have beh: "frontiers_ok d" "behind d = behind b" using frontiers_cong [of d b] P(3) by (auto simp: d_def)
  have ap: "apart (glyph_box (slots_of d ! i)) (glyph_box (slots_of d ! j))" if "i < Suc k" "j < Suc k" "i \<noteq> j" for i j
  proof -
    consider "i = k" "j < k" | "j = k" "i < k" | "i < k" "j < k" using \<open>i < Suc k\<close> \<open>j < Suc k\<close> \<open>i \<noteq> j\<close> by linarith
    then show ?thesis
    proof cases
      case 3
      then show ?thesis using ok \<open>i \<noteq> j\<close> P(1) dk(2) by (cases "a_buffer a") (auto simp: atlas_ok_def)
    qed (use P(9) [of "slots_of a ! i"] P(9) [of "slots_of a ! j"] dk box l in \<open>auto\<close>)
  qed
  have "atlas_ok d"
    unfolding atlas_ok_def sd(2,3) option.case using beh ap c(2) l P(8,9) by (auto simp: sd(1) box copied_def)
  moreover have "glyph_pixel d k x y = bm_data g ! (y * bm_width g + x)" if "x < bm_width g" "y < bm_rows g" for x y
    using c(2) that unfolding glyph_pixel_def dk(1) sd(3) XY copied_def by simp
  moreover have "same_glyph a d j" if j: "j < k" for j
  proof -
    let ?s = "slots_of a ! j"
    have js: "?s \<in> set (slots_of a)" using j l by simp
    obtain buf0 where b0: "a_buffer a = Some buf0" using ok P(1) j by (cases "a_buffer a") (auto simp: atlas_ok_def)
    have B: "behind b (glyph_box ?s)" "apart (glyph_box ?s) (VramPageX s, VramPageY s, int (bm_width g), int (bm_rows g))" using P(9) [OF js] by simp_all
    have "pixel buf1 (nat (VramPageX ?s) + x) (nat (VramPageY ?s) + y) = pixel buf (nat (VramPageX ?s) + x) (nat (VramPageY ?s) + y)"
      if xy: "x < nat (g_width ?s)" "y < nat (g_height ?s)" for x y
    proof -
      have "nat (VramPageX ?s) + x < 128" "nat (VramPageY ?s) + y < 128"
        "\<not> (X \<le> nat (VramPageX ?s) + x \<and> nat (VramPageX ?s) + x < X + bm_width g \<and> Y \<le> nat (VramPageY ?s) + y \<and> nat (VramPageY ?s) + y < Y + bm_rows g)"
        using B xy P(8) by (auto simp: glyph_box_def behind_def apart_def X_def Y_def)
      then show ?thesis using c(2) unfolding copied_def by blast
    qed
    then show ?thesis using j dk(2) b0 P(1,6) by (auto simp: same_glyph_def glyph_pixel_def sd)
  qed
  moreover have "d = b\<lparr>a_slots := Some ((slots_of b)[k := sl]), a_buffer := Some buf1\<rparr>" using l by (simp add: d_def sb list_update_append)
  ultimately show ?thesis using P(4) c(1) sd(2) dk(1) by (auto simp: Let_def)
qed

text \<open>The upload of a glyph, the whole of it.\<close>

lemma upload_spec:
  assumes "font_ok font" "\<And>u. fst (alloc_ok E 16384 u)"
    and g: "bm_width g \<le> 127" "bm_rows g \<le> 127" "length (bm_data g) = bm_rows g * bm_width g"
  shows "\<exists>r font1 w1. UploadGlyph E font c g w = Some (r, font1, w1) \<and> font_ok font1 \<and>
    (\<forall>i k. r = Some (i, k) \<longrightarrow> i < 4 \<and> k < NumGlyphs (f_atlas font1 ! i) \<and> g_character (slots_of (f_atlas font1 ! i) ! k) = c \<and>
      (\<forall>x < bm_width g. \<forall>y < bm_rows g. glyph_pixel (f_atlas font1 ! i) k x y = bm_data g ! (y * bm_width g + x))) \<and>
    (\<forall>i < 4. \<forall>k < NumGlyphs (f_atlas font1 ! i). r = Some (i, k) \<or> same_glyph (f_atlas font ! i) (f_atlas font1 ! i) k)"
proof -
  have sh: "short (int (bm_width g)) = int (bm_width g)" "short (int (bm_rows g)) = int (bm_rows g)" using g by (simp_all add: short_id)
  have len: "length (f_atlas font) = 4" and oks: "\<forall>a \<in> set (f_atlas font). atlas_ok a" using assms(1) by (simp_all add: font_ok_def)
  obtain r bs v where A: "alloc_atlases E font (int (bm_width g)) (int (bm_rows g)) [0..<FNT_MAX_ATLASES] (f_atlas font) w = Some (r, bs, v)"
    "length bs = 4" "\<And>j. j < 4 \<Longrightarrow> r \<noteq> None \<and> fst (the r) = j \<or> kept (f_atlas font ! j) (bs ! j)"
    "\<And>i k. r = Some (i, k) \<Longrightarrow> i < 4 \<and> placed (f_atlas font ! i) (bs ! i) k (int (bm_width g)) (int (bm_rows g))"
    using atlases_placed [OF assms(2), of "int (bm_width g)" "int (bm_rows g)" "f_atlas font" "[0..<FNT_MAX_ATLASES]" font w] g oks len
    by (auto simp: FNT_MAX_ATLASES_def)
  have same: "same_glyph a b k" if "kept a b" "k < NumGlyphs b" for a b k using that by (auto simp: kept_def intro: same_glyph_refl)
  show ?thesis
  proof (cases r)
    case None
    have k: "kept (f_atlas font ! j) (bs ! j)" if "j < 4" for j using A(3) [OF that] None by simp
    then have "\<forall>b \<in> set bs. atlas_ok b" using A(2) by (auto simp: in_set_conv_nth kept_def)
    then show ?thesis using A(1,2) None k same by (simp add: UploadGlyph_def sh font_ok_def)
  next
    case (Some ik)
    obtain i k where ik: "ik = (i, k)" by (cases ik)
    have i: "i < 4" and pl: "placed (f_atlas font ! i) (bs ! i) k (int (bm_width g)) (int (bm_rows g))" using A(4) Some ik by simp_all
    let ?b = "bs ! i"
    let ?sl = "(slots_of ?b ! k)\<lparr>g_character := c, g_left := short (bitmap_left g), g_top := short (bitmap_top g),
      g_width := ushort (int (bm_width g)), g_height := ushort (int (bm_rows g)),
      advance_x := short (drop_bit 6 (adv_x g)), advance_y := short (drop_bit 6 (adv_y g))\<rparr>"
    have oi: "atlas_ok (f_atlas font ! i)" using oks len i by simp
    have ss: "a_slots ?b = Some (slots_of ?b)" using pl by (auto simp: placed_def slots_of_def)
    obtain buf buf1 d where F: "a_buffer ?b = Some buf" "AtlasCopyFT ?sl g buf = Some buf1"
      "d = ?b\<lparr>a_slots := Some ((slots_of ?b)[k := ?sl]), a_buffer := Some buf1\<rparr>" "atlas_ok d" "NumGlyphs d = Suc k"
      "slots_of d ! k = ?sl" "\<forall>j < k. same_glyph (f_atlas font ! i) d j"
      "\<forall>x < bm_width g. \<forall>y < bm_rows g. glyph_pixel d k x y = bm_data g ! (y * bm_width g + x)"
      using fill_slot [OF oi pl g, of ?sl] g by (auto simp: ushort_id Let_def)
    have kept: "kept (f_atlas font ! j) (bs ! j)" if "j < 4" "j \<noteq> i" for j using A(3) [OF that(1)] that(2) Some ik by simp
    have nth: "bs[i := d] ! j = (if j = i then d else bs ! j)" if "j < 4" for j using that A(2) by (simp add: nth_list_update)
    have "\<forall>j < 4. atlas_ok (bs[i := d] ! j)" using kept F(4) nth by (simp add: kept_def)
    then have "\<forall>b \<in> set (bs[i := d]). atlas_ok b" using A(2) by (auto simp: in_set_conv_nth)
    define f1 where "f1 = font\<lparr>f_atlas := bs[i := d], tex_vram := a_vram d, tex_width := 2\<rparr>"
    have U: "UploadGlyph E font c g w = Some (Some (i, k), f1, GsLoadImage E buf1 (a_vram d) v)"
      unfolding UploadGlyph_def sh A(1) using Some ik ss F(1-3) by (simp add: Let_def f1_def)
    have f1: "f_atlas f1 = bs[i := d]" "f_atlas f1 ! i = d" using A(2) i by (simp_all add: f1_def)
    have S: "Some (i, k) = Some (j, m) \<or> same_glyph (f_atlas font ! j) (f_atlas f1 ! j) m" if "j < 4" "m < NumGlyphs (f_atlas f1 ! j)" for j m
      using that same [OF kept] nth [OF that(1)] F(5,7) f1 by (cases "j = i") (auto simp: less_Suc_eq)
    have "font_ok f1" using \<open>\<forall>b \<in> set (bs[i := d]). atlas_ok b\<close> A(2) f1(1) by (simp add: font_ok_def)
    then show ?thesis using U S i f1(2) F(5,6,8) by (intro exI conjI) auto
  qed
qed

text \<open>
  C33. Uploading a glyph never disturbs another one: with memory for an atlas and a bitmap of at most 127 by 127
  pixels, \<open>UploadGlyph\<close> returns and the glyphs of each atlas still lie apart; the entry it returns
  has the character, and its rectangle of the atlas shows the bitmap; each other glyph that the
  font still has is one that it had before, at the same place and with the same pixels.
\<close>

theorem upload_keeps_glyphs:
  assumes "font_ok font" "\<And>u. fst (alloc_ok E 16384 u)"
    and g: "bm_width g \<le> 127" "bm_rows g \<le> 127" "length (bm_data g) = bm_rows g * bm_width g"
  shows "\<exists>r font1 w1. UploadGlyph E font c g w = Some (r, font1, w1) \<and> font_ok font1 \<and>
    (\<forall>i k. r = Some (i, k) \<longrightarrow> i < 4 \<and> k < NumGlyphs (f_atlas font1 ! i) \<and> g_character (slots_of (f_atlas font1 ! i) ! k) = c \<and>
      (\<forall>x < bm_width g. \<forall>y < bm_rows g. glyph_pixel (f_atlas font1 ! i) k x y = bm_data g ! (y * bm_width g + x))) \<and>
    (\<forall>i < 4. \<forall>k < NumGlyphs (f_atlas font1 ! i). r = Some (i, k) \<or> same_glyph (f_atlas font ! i) (f_atlas font1 ! i) k)"
  using upload_spec [OF assms] .

subsection \<open>A concrete font\<close>

text \<open>Every character has the glyph of 3 by 2 pixels and the bytes 1 to 6; the alphabet is ASCII.\<close>

definition demo_glyph :: ft_glyph where
  "demo_glyph = \<lparr>bm_width = 3, bm_rows = 2, bm_data = [1, 2, 3, 4, 5, 6], bitmap_left = 0, bitmap_top = 2, adv_x = 256, adv_y = 0\<rparr>"

definition demo_slot :: FontGlyphSlot where
  "demo_slot = \<lparr>g_character = 0, VramPageX = 0, VramPageY = 0, g_top = 0, g_left = 0, advance_x = 0, advance_y = 0, g_width = 0, g_height = 0\<rparr>"

definition demo_font_env :: "'w font_env" where
  "demo_font_env = \<lparr>GsVramAllocTextureBuffer = (\<lambda>_ _ w. (0x100, w)), GsLoadImage = (\<lambda>_ _ w. w), UploadClut = (\<lambda>_ w. w),
     alloc_ok = (\<lambda>_ w. (True, w)), junk_slot = (\<lambda>_ _. demo_slot), FT_Init_FreeType = (\<lambda>w. (0, w)),
     FT_New_Face = (\<lambda>_ w. ((0, 1), w)), FT_New_Memory_Face = (\<lambda>_ w. ((0, 1), w)), FT_Set_Pixel_Sizes = (\<lambda>_ w. (0, w)),
     FT_Done_Face = (\<lambda>_ w. w), FT_Get_Char_Index = (\<lambda>_ c _. c), FT_Load_Glyph = (\<lambda>_ _ w. ((0, demo_glyph), w)),
     draw_char = (\<lambda>_ _ _ _ _ _ _ w. w), fmul = (\<lambda>k x. int k * x div 10), mbtowc = (\<lambda>str. (1, of_char (hd str)))\<rparr>"

definition empty_atlas :: FontAtlas where
  "empty_atlas = \<lparr>a_vram = 0, a_buffer = None, NumGlyphs = 0, a_slots = None,
     frontier0 = \<lparr>fr_x = 0, fr_y = 0, fr_width = 0, fr_height = 0\<rparr>, frontier1 = \<lparr>fr_x = 0, fr_y = 0, fr_width = 0, fr_height = 0\<rparr>\<rparr>"

definition demo_font :: ee_font where
  "demo_font = \<lparr>f_face = 1, tex_vram = 0, tex_width = 0, ClutMem = True, IsLoaded = True, IsInit = True, f_atlas = replicate 4 empty_atlas\<rparr>"

lemma demo_font_ok: "font_ok demo_font"
  by (simp add: font_ok_def demo_font_def atlas_ok_def slots_of_def empty_atlas_def)

theorem upload_keeps_glyphs_witness:
  "\<exists>r font1 w1. UploadGlyph demo_font_env demo_font 0x41 demo_glyph () = Some (r, font1, w1) \<and> font_ok font1"
  using upload_keeps_glyphs [where font = demo_font and E = demo_font_env and g = demo_glyph and c = "0x41" and w = "()", OF demo_font_ok]
  by (simp add: demo_font_env_def demo_glyph_def) blast

end
