(* ===== verification/EeTables.thy ===== *)
theory EeTables
  imports EeMain EeFontProps
begin

text \<open>
  The tables and texts of the launcher: items by their identity, the table of the message box,
  units of the capacity, reading a file of texts, and the types of the items that show the
  remaining time.
\<close>

subsection \<open>A concrete launcher\<close>

text \<open>Nothing is pressed, no file can be read, and a number is printed as 0. The texts are the built-in ones.\<close>

definition demo_ui_env :: "'w ui_env" where
  "demo_ui_env = \<lparr>fnt = demo_font_env, padRead = (\<lambda>_ w. (Some 0xFFFF, w)), pad_port = (\<lambda>_ w. w), screen = (\<lambda>_ w. w),
     draw_legend = (\<lambda>_ _ _ _ w. (16, w)), read_file = (\<lambda>_ w. (Inl 2, w)), str_at = (\<lambda>_. None), addr_of = (\<lambda>_. 1), addr_labels = (\<lambda>_. 1),
     sprint = (\<lambda>_ _. ''0''), ret_width = (\<lambda>v. v), configGetLanguage = (\<lambda>_. 1), PAD_UP = 0x10, PAD_DOWN = 0x40, PAD_LEFT = 0x80, PAD_RIGHT = 0x20,
     PAD_R1 = 0x800, PAD_L1 = 0x400, PAD_START = 8, PAD_SELECT = 1, PAD_CIRCLE = 0x2000, PAD_CROSS = 0x4000\<rparr>"

definition demo_ui :: "unit ui_state" where
  "demo_ui = \<lparr>GS_FTFont = demo_font, GS_sub_FTFont = demo_font, ee_world = (),
     LangStringTable = map Some DefaultLanguageStringTable, LangLblStringTable = map Some DefaultLanguageLabelStringTable,
     LangStringWrapTable = replicate 29 True, ui_language = 1, gFontBuffer = None, screen_width = 640, screen_height = 448,
     menus = static_menus, old_pad = (\<lambda>_. 0), SelectButton = 0x4000, CancelButton = 0x2000, ETADisplayed = True,
     console_region = 1, console_psx = 0\<rparr>"

subsection \<open>Items by identity\<close>

text \<open>The change of the first item with an identity, as a recursion over the items.\<close>

fun put_item :: "u8 \<Rightarrow> (UIMenuItem \<Rightarrow> UIMenuItem) \<Rightarrow> UIMenuItem list \<Rightarrow> UIMenuItem list" where
  "put_item ident f [] = []"
| "put_item ident f (i # is) = (if it_type i = MITEM_TERMINATOR then i # is else if it_id i = ident then f i # is else i # put_item ident f is)"

fun get_item :: "u8 \<Rightarrow> UIMenuItem list \<Rightarrow> UIMenuItem option" where
  "get_item ident [] = None"
| "get_item ident (i # is) = (if it_type i = MITEM_TERMINATOR then None else if it_id i = ident then Some i else get_item ident is)"

lemma find_map_Suc: "List.find P (map Suc l) = map_option Suc (List.find (\<lambda>k. P (Suc k)) l)"
  by (induction l) auto

lemma find_live_Cons:
  "List.find (\<lambda>k. it_id ((i # l) ! k) = ident) [0..<Suc (length l)] =
     (if it_id i = ident then Some 0 else map_option Suc (List.find (\<lambda>k. it_id (l ! k) = ident) [0..<length l]))"
  by (simp add: upt_conv_Cons find_map_Suc map_Suc_upt [symmetric] del: upt_Suc map_Suc_upt)

lemma put_item_find:
  "put_item ident f is = (case List.find (\<lambda>k. it_id (takeWhile (\<lambda>i. it_type i \<noteq> MITEM_TERMINATOR) is ! k) = ident)
       [0..<length (takeWhile (\<lambda>i. it_type i \<noteq> MITEM_TERMINATOR) is)] of None \<Rightarrow> is | Some k \<Rightarrow> is[k := f (is ! k)])"
proof (induction "is")
  case (Cons i "is")
  show ?case
  proof (cases "it_type i = MITEM_TERMINATOR")
    case False
    then show ?thesis by (auto simp: Cons find_live_Cons simp del: upt_Suc split: option.splits)
  qed simp
qed simp

lemma upd_item_put:
  "upd_item m ident f s = s\<lparr>menus := (menus s)(m := (menus s m)\<lparr>menu_items := put_item ident f (menu_items (menus s m))\<rparr>)\<rparr>"
  by (simp add: upd_item_def set_item_def UIGetItem_def live_def put_item_find Let_def split: option.splits)

text \<open>Reading an item after a change that keeps identities and the terminator.\<close>

lemma get_put_item:
  assumes "\<And>i. it_id (f i) = it_id i" "\<And>i. it_type i \<noteq> MITEM_TERMINATOR \<Longrightarrow> it_type (f i) \<noteq> MITEM_TERMINATOR"
  shows "get_item k (put_item ident f is) = (if k = ident then map_option f (get_item k is) else get_item k is)"
  by (induction "is") (auto simp: assms)

lemmas setters = UISetVisible_def UISetLabel_def UISetString_def UISetType_def UISetValue_def

subsection \<open>The box about a bad sector\<close>

text \<open>The buttons that the box shows, from top to bottom: the text on it and the identity of the item.\<close>

definition box_buttons :: "('w, 'z) ui_state_scheme \<Rightarrow> (string option \<times> u8) list" where
  "box_buttons s = map (\<lambda>i. (case it_w0 i of Num v \<Rightarrow> LangLblStringTable s ! unat v | _ \<Rightarrow> None, it_id i))
     (filter (\<lambda>i. it_type i = MITEM_BUTTON \<and> \<not> has i MITEM_FLAG_HIDDEN) (live (menus s MessageBoxMenu)))"

lemma mitem_sel [simp]:
  "it_type (mitem t k fl) = t" "it_id (mitem t k fl) = k" "it_flags (mitem t k fl) = fl"
  by (simp_all add: mitem_def)

lemma box_items:
  "MessageBoxItems = (let brk = mitem MITEM_BREAK 0 0; button = (\<lambda>k. (mitem MITEM_BUTTON k 0x20)\<lparr>it_width := 16\<rparr>) in
     [mitem MITEM_LABEL 1 0, mitem MITEM_SEPERATOR 0 0, brk, mitem MITEM_STRING 2 2, brk, brk, brk, brk, brk, brk, brk, brk,
      button 3, brk, brk, button 5, brk, brk, button 4, brk, brk, button 6, mitem MITEM_TERMINATOR 0 0])"
  by (simp add: MessageBoxItems_def mbox_ids mitem_flags Let_def eval_nat_numeral)

subsection \<open>Units\<close>

lemma space_unit_done: "temp < 1000 \<Longrightarrow> space_unit u temp = (temp, u)"
  by (simp add: space_unit.simps not_le [symmetric])

text \<open>
  The capacity of a drive is shown in MB, GB or TB: whatever the number of sectors, the label is one of the
  three, the number is below 1000, and it is the number of whole units.
\<close>

theorem space_value_unit:
  "\<exists>v u. ProcessSpaceValue space = (v, lbl_id SYS_UI_LBL_MB + u) \<and> lbl_id SYS_UI_LBL_MB + u \<le> lbl_id SYS_UI_LBL_TB \<and> v < 1000 \<and>
     unat v = unat space div 2048 div 1000 ^ u \<and> (u = 0 \<or> 1000 ^ u \<le> unat space div 2048)"
proof -
  let ?m = "space div 2048"
  have m: "unat ?m = unat space div 2048" by (simp add: unat_div)
  have "unat space < 4294967296" using unsigned_less [of space] by simp
  then have big: "unat ?m < 2097152" unfolding m by (simp add: less_mult_imp_div_less)
  have u1: "unat (?m div 1000) = unat ?m div 1000" "unat (?m div 1000 div 1000) = unat ?m div 1000 div 1000" by (simp_all add: unat_div)
  have lt: "x < 1000 \<longleftrightarrow> unat x < 1000" "1000 \<le> x \<longleftrightarrow> 1000 \<le> unat x" for x :: u32 by (simp_all add: word_less_nat_alt word_le_nat_alt)
  consider "unat ?m < 1000" | "1000 \<le> unat ?m" "unat ?m div 1000 < 1000" | "1000 \<le> unat ?m div 1000" "1000 \<le> unat ?m" by linarith
  then show ?thesis
  proof cases
    case 1
    then have "ProcessSpaceValue space = (?m, lbl_id SYS_UI_LBL_MB + 0)" by (simp add: ProcessSpaceValue_def space_unit_done lt)
    then show ?thesis using 1 m lt by (intro exI [of _ ?m] exI [of _ 0]) auto
  next
    case 2
    then have "ProcessSpaceValue space = (?m div 1000, lbl_id SYS_UI_LBL_MB + 1)"
      by (simp add: ProcessSpaceValue_def space_unit.simps [of 0 ?m] space_unit_done lt u1)
    then show ?thesis using 2 m lt u1 by (intro exI [of _ "?m div 1000"] exI [of _ 1]) auto
  next
    case 3
    have "unat ?m div 1000 div 1000 < 1000" using big by (simp add: less_mult_imp_div_less)
    with 3 have "ProcessSpaceValue space = (?m div 1000 div 1000, lbl_id SYS_UI_LBL_MB + 2)"
      by (simp add: ProcessSpaceValue_def space_unit.simps [of 0 ?m] space_unit.simps [of "Suc 0" "?m div 1000"] space_unit_done lt u1)
    then show ?thesis using 3 m lt u1 \<open>unat ?m div 1000 div 1000 < 1000\<close>
      by (intro exI [of _ "?m div 1000 div 1000"] exI [of _ 2]) (auto simp: div_mult2_eq [symmetric] power2_eq_square)
  qed
qed

subsection \<open>Files of texts\<close>

lemma store_text_all:
  assumes "\<And>n w. fst (alloc_ok (fnt E) n w)"
  shows "\<exists>t. store_text E str s = (Some (Some (FormatLanguageString (mbtowc (fnt E)) str)), t)"
  using assms by (simp add: store_text_def Let_def wcall_def split: prod.splits) (metis fst_conv)

lemma take_set_last: "i < length tab \<Longrightarrow> take (Suc i) (tab[i := x]) = take i tab @ [x]"
  by (simp add: take_Suc_conv_app_nth)

lemma parse_lang_lines_all:
  assumes "\<And>n w. fst (alloc_ok (fnt E) n w)"
  shows "i \<le> length tab \<Longrightarrow> (if i + length ls \<le> length tab
    then \<exists>t. parse_lang_lines E ls i tab s = Some ((0, i + length ls),
      take i tab @ map (\<lambda>l. Some (FormatLanguageString (mbtowc (fnt E)) (strip_line l))) ls @ drop (i + length ls) tab, t)
    else parse_lang_lines E ls i tab s = None)"
proof (induction ls arbitrary: i tab s)
  case (Cons l ls)
  obtain t where t: "store_text E (strip_line l) s = (Some (Some (FormatLanguageString (mbtowc (fnt E)) (strip_line l))), t)"
    using store_text_all [OF assms] by blast
  show ?case
  proof (cases "i < length tab")
    case True
    then show ?thesis using Cons.IH [of "Suc i" "tab[i := Some (FormatLanguageString (mbtowc (fnt E)) (strip_line l))]" t] t
      by (auto simp: take_set_last split: if_splits)
  next
    case False
    then show ?thesis using Cons.prems by simp
  qed
qed simp

text \<open>
  C36. Reading a file of texts, when there is memory: with as many lines as the table has entries every entry is the
  unescaped line and the result is 0; with fewer lines the first entries are set and the result is -1; with
  more lines the loop stores behind the end of the table before the number of lines is compared.
\<close>

theorem language_file_parsed:
  fixes str :: string
  defines "ls \<equiv> fgets_lines 511 (if take 3 str = bom then drop 3 str else str)"
  assumes "\<And>n w. fst (alloc_ok (fnt E) n w)" "length tab = expected"
  shows "case ParseLanguageFile E tab str expected s of None \<Rightarrow> expected < length ls
    | Some (r, tab1, t) \<Rightarrow> length ls \<le> expected \<and> r = (if length ls = expected then 0 else - 1) \<and>
        tab1 = map (\<lambda>l. Some (FormatLanguageString (mbtowc (fnt E)) (strip_line l))) ls @ drop (length ls) tab"
  using parse_lang_lines_all [OF assms(2), where i = 0 and tab = tab and ls = ls and s = s] assms(3)
  by (auto simp: ParseLanguageFile_def ls_def split: if_splits)

theorem language_file_parsed_witness:
  "(case ParseLanguageFile (demo_ui_env :: unit ui_env) [None] ''AB'' 1 demo_ui of None \<Rightarrow> False
    | Some (r, tab1, t) \<Rightarrow> r = 0 \<and> tab1 = [Some (FormatLanguageString (mbtowc (demo_font_env :: unit font_env)) ''AB'')])"
proof -
  have ls: "fgets_lines 511 (if take 3 ''AB'' = bom then drop 3 ''AB'' else ''AB'') = [''AB'']"
    by (simp add: fgets_lines.simps [of 511] fgets_lines.simps [of 511 "[]"] bom_def)
  have st: "strip_line ''AB'' = ''AB''" by (simp add: strip_line_def)
  have "fst (alloc_ok (fnt (demo_ui_env :: unit ui_env)) n w)" for n w by (simp add: demo_ui_env_def demo_font_env_def)
  from language_file_parsed [of "demo_ui_env :: unit ui_env" "[None]" 1 "''AB''" demo_ui, OF this] show ?thesis
    unfolding ls by (auto simp: st demo_ui_env_def split: option.splits)
qed

subsection \<open>The remaining time\<close>

definition eta_ids :: "u8 list" where
  "eta_ids = [PRG_SCREEN_ID_ETA_HOURS, PRG_SCREEN_ID_ETA_MINS, PRG_SCREEN_ID_ETA_SECS]"

definition progress_item :: "u8 \<Rightarrow> ('w, 'z) ui_state_scheme \<Rightarrow> UIMenuItem option" where
  "progress_item k s = get_item k (menu_items (menus s ProgressScreen))"

definition has_eta_items :: "('w, 'z) ui_state_scheme \<Rightarrow> bool" where
  "has_eta_items s \<longleftrightarrow> list_all (\<lambda>k. progress_item k s \<noteq> None) eta_ids"

text \<open>An item with a number where it is printed as a number, with a string where it is printed as a string.\<close>

definition typed_item :: "UIMenuItem \<Rightarrow> bool" where
  "typed_item i \<longleftrightarrow> (case it_w0 i of Num v \<Rightarrow> it_type i = MITEM_VALUE | Str p \<Rightarrow> it_type i = MITEM_STRING \<and> p \<noteq> None | Labels ls \<Rightarrow> False)"

definition eta_typed :: "('w, 'z) ui_state_scheme \<Rightarrow> bool" where
  "eta_typed s \<longleftrightarrow> list_all (\<lambda>k. pred_option typed_item (progress_item k s)) eta_ids"

text \<open>The types are those that the flag tells, and strings are there when it is off.\<close>

definition eta_flag_ok :: "('w, 'z) ui_state_scheme \<Rightarrow> bool" where
  "eta_flag_ok s \<longleftrightarrow> list_all (\<lambda>k. \<exists>i. progress_item k s = Some i \<and> it_type i = (if ETADisplayed s then MITEM_VALUE else MITEM_STRING) \<and>
     (ETADisplayed s \<or> typed_item i)) eta_ids"

lemma progress_item_set [simp]:
  "progress_item k (UISetType ProgressScreen j t s) =
     (if k = j then map_option (\<lambda>i. i\<lparr>it_type := t\<rparr>) (progress_item k s) else progress_item k s)" if "t \<noteq> MITEM_TERMINATOR"
  using that by (simp add: progress_item_def setters upd_item_put get_put_item)

lemma progress_item_set2 [simp]:
  "progress_item k (UISetValue ProgressScreen j v s) = (if k = j then map_option (\<lambda>i. i\<lparr>it_w0 := Num v\<rparr>) (progress_item k s) else progress_item k s)"
  "progress_item k (UISetLabel ProgressScreen j v s) = (if k = j then map_option (\<lambda>i. i\<lparr>it_w0 := Num v\<rparr>) (progress_item k s) else progress_item k s)"
  "progress_item k (UISetString ProgressScreen j p s) = (if k = j then map_option (\<lambda>i. i\<lparr>it_w0 := Str p\<rparr>) (progress_item k s) else progress_item k s)"
  "progress_item k (UISetVisible ProgressScreen j b s) = (if k = j then map_option (flag_on MITEM_FLAG_HIDDEN (\<not> b)) (progress_item k s) else progress_item k s)"
  "progress_item k (s\<lparr>ETADisplayed := e\<rparr>) = progress_item k s"
  by (simp_all add: progress_item_def setters upd_item_put get_put_item flag_on_def)

lemma eta_displayed_set [simp]:
  "ETADisplayed (UISetType m j t s) = ETADisplayed s" "ETADisplayed (UISetValue m j v s) = ETADisplayed s"
  "ETADisplayed (UISetLabel m j v s) = ETADisplayed s" "ETADisplayed (UISetString m j p s) = ETADisplayed s"
  "ETADisplayed (UISetVisible m j b s) = ETADisplayed s"
  by (simp_all add: setters upd_item_put)

lemmas progress_ids = PRG_SCREEN_ID_TITLE_def PRG_SCREEN_ID_ETA_HOURS_def PRG_SCREEN_ID_ETA_MINS_def PRG_SCREEN_ID_ETA_SECS_def
  PRG_SCREEN_ID_LBL_RD_ERRS_def PRG_SCREEN_ID_RD_ERRS_def PRG_SCREEN_ID_PROGRESS_def PRG_SCREEN_ID_TOTAL_PROGRESS_def

lemma init_progress_eta: "has_eta_items s \<Longrightarrow> eta_flag_ok (InitProgressScreen label s)"
  by (auto simp: has_eta_items_def eta_flag_ok_def eta_ids_def InitProgressScreen_def eta_type_def progress_ids Let_def)

lemma show_eta_typed:
  assumes "eta_flag_ok s"
  shows "eta_flag_ok (show_eta secs s)" "eta_typed (show_eta secs s)"
  using assms
  by (auto simp: eta_flag_ok_def eta_typed_def eta_ids_def show_eta_def eta_type_def progress_ids typed_item_def Let_def split: prod.splits if_splits)

text \<open>
  C35. From the start of a progress screen on, whenever the remaining time has been set, each of the items for hours,
  minutes and seconds holds what its type says: a number when it is printed as a number, a string when
  it is printed as a string, however often the screen changes between known and unknown times.
\<close>

theorem eta_items_typed:
  assumes "has_eta_items s"
  shows "eta_typed (fold show_eta (secs # others) (InitProgressScreen label s))"
proof -
  have "eta_flag_ok t \<Longrightarrow> eta_typed t \<Longrightarrow> eta_flag_ok (fold show_eta others t) \<and> eta_typed (fold show_eta others t)" for t :: "('a, 'b) ui_state_scheme"
    by (induction others arbitrary: t) (auto simp: show_eta_typed)
  then show ?thesis using show_eta_typed [OF init_progress_eta [OF assms]] by simp
qed

theorem eta_items_typed_witness:
  "eta_typed (fold show_eta [100, UINT_MAX, 50, UINT_MAX] (InitProgressScreen SYS_UI_LBL_SCANNING_DISK demo_ui))"
  by (rule eta_items_typed)
    (simp add: has_eta_items_def progress_item_def eta_ids_def demo_ui_def static_menus_def ProgressScreenItems_def plain_item_def label_item_def eta_item_def progress_ids Let_def)

end
