(* ===== verification/EeQuiet.thy ===== *)
theory EeQuiet
  imports EeTables
begin

text \<open>
  The user interface only draws and asks: whatever of the world its calls leave alone, and all the
  state of the launcher behind it, is the same after every operation of the interface. The locales
  state this for any observation \<open>obs\<close> of the world that no call of FreeType, screen, pads and files
  changes; with the trivial observation they hold of every world.
\<close>

subsection \<open>Fonts\<close>

locale quiet_font =
  fixes F :: "'w font_env" and obs :: "'w \<Rightarrow> 'o"
  assumes vram_quiet: "obs (snd (GsVramAllocTextureBuffer F a b w)) = obs w"
    and image_quiet: "obs (GsLoadImage F buf v w) = obs w"
    and clut_quiet: "obs (UploadClut F v w) = obs w"
    and alloc_quiet: "obs (snd (alloc_ok F n w)) = obs w"
    and freetype_quiet: "obs (snd (FT_Init_FreeType F w)) = obs w"
    and face_quiet: "obs (snd (FT_New_Face F file w)) = obs w"
    and memory_face_quiet: "obs (snd (FT_New_Memory_Face F bytes w)) = obs w"
    and pixel_sizes_quiet: "obs (snd (FT_Set_Pixel_Sizes F face w)) = obs w"
    and done_face_quiet: "obs (FT_Done_Face F face w) = obs w"
    and load_glyph_quiet: "obs (snd (FT_Load_Glyph F face i w)) = obs w"
    and draw_char_quiet: "obs (draw_char F slot v x y z scale colour w) = obs w"
begin

lemma quiet_snd:
  "GsVramAllocTextureBuffer F a b w = (vr, w1) \<Longrightarrow> obs w1 = obs w"
  "alloc_ok F n w = (okk, w1) \<Longrightarrow> obs w1 = obs w"
  "FT_Init_FreeType F w = (r, w1) \<Longrightarrow> obs w1 = obs w"
  "FT_New_Face F file w = (fc, w1) \<Longrightarrow> obs w1 = obs w"
  "FT_New_Memory_Face F bytes w = (fc, w1) \<Longrightarrow> obs w1 = obs w"
  "FT_Set_Pixel_Sizes F face w = (r, w1) \<Longrightarrow> obs w1 = obs w"
  "FT_Load_Glyph F face i w = (g, w1) \<Longrightarrow> obs w1 = obs w"
  by (metis vram_quiet snd_conv, metis alloc_quiet snd_conv, metis freetype_quiet snd_conv, metis face_quiet snd_conv,
      metis memory_face_quiet snd_conv, metis pixel_sizes_quiet snd_conv, metis load_glyph_quiet snd_conv)

lemma AtlasInit_quiet: "AtlasInit F font a w = Some (r, b, w1) \<Longrightarrow> obs w1 = obs w"
  by (auto simp: AtlasInit_def Let_def dest!: quiet_snd split: prod.splits if_splits)

lemma new_slot_quiet: "new_slot F x y f a w = (r, b, w1) \<Longrightarrow> obs w1 = obs w"
  by (auto simp: new_slot_def Let_def dest!: quiet_snd split: prod.splits if_splits)

lemma AtlasAlloc_quiet: "AtlasAlloc F font x y a w = Some (r, b, w1) \<Longrightarrow> obs w1 = obs w"
  by (auto simp: AtlasAlloc_def bind_Some dest!: AtlasInit_quiet new_slot_quiet split: if_splits)

lemma alloc_atlases_quiet: "alloc_atlases F font x y is as w = Some (r, bs, w1) \<Longrightarrow> obs w1 = obs w"
  by (induction "is" arbitrary: as w) (auto simp: bind_Some dest!: AtlasAlloc_quiet split: option.splits)

lemma UploadGlyph_quiet: "UploadGlyph F font c g w = Some (r, f1, w1) \<Longrightarrow> obs w1 = obs w"
  by (auto simp: UploadGlyph_def bind_Some Let_def image_quiet dest!: alloc_atlases_quiet split: option.splits)

lemma GetGlyph_quiet: "GetGlyph F font c m w = Some (r, f1, w1) \<Longrightarrow> obs w1 = obs w"
  by (auto simp: GetGlyph_def bind_Some Let_def dest!: quiet_snd UploadGlyph_quiet split: option.splits if_splits prod.splits)

lemma DrawGlyph_quiet: "DrawGlyph F font c x y z scale colour m d w = Some (r, f1, w1) \<Longrightarrow> obs w1 = obs w"
  by (auto simp: DrawGlyph_def bind_Some Let_def draw_char_quiet dest!: GetGlyph_quiet split: option.splits if_splits)

lemma GetGlyphWidth_quiet: "GetGlyphWidth F font c m w = Some (r, f1, w1) \<Longrightarrow> obs w1 = obs w"
  by (auto simp: GetGlyphWidth_def bind_Some dest!: GetGlyph_quiet split: option.splits if_splits)

text \<open>What the fonts leave alone: the observation and the state behind the fonts.\<close>

definition rest :: "('w, 'z) font_state_scheme \<Rightarrow> 'o \<times> 'z" where
  "rest s = (obs (ee_world s), font_state.more s)"

lemma draw_any_rest: "draw_any F c x y z scale colour s = Some (d, t) \<Longrightarrow> rest t = rest s"
  by (auto simp: draw_any_def bind_Some Let_def rest_def dest!: DrawGlyph_quiet split: if_splits)

lemma FontGetGlyphWidth_rest: "FontGetGlyphWidth F c s = Some (d, t) \<Longrightarrow> rest t = rest s"
  by (auto simp: FontGetGlyphWidth_def bind_Some Let_def rest_def dest!: GetGlyphWidth_quiet split: if_splits)

lemma print_loop_rest: "print_loop F x0 z scale colour str x y s = Some (p, t) \<Longrightarrow> rest t = rest s"
proof (induction str arbitrary: x y s rule: measure_induct_rule [of length])
  case (less str)
  have ih: "rest t = rest u" if "print_loop F x0 z scale colour (drop (nat n) str) x1 y1 u = Some (p, t)" "\<not> n \<le> 0" "str \<noteq> []" for n x1 y1 u
    using less.IH [OF _ that(1)] that(2,3) by simp
  show ?case
    using less.prems unfolding print_loop.simps [of F x0 z scale colour str]
    by (auto simp: bind_Some Let_def dest!: ih draw_any_rest split: if_splits prod.splits)
qed

lemma FontPrintfWithFeedback_rest: "FontPrintfWithFeedback F x y z scale colour str s = Some (p, t) \<Longrightarrow> rest t = rest s"
  by (auto simp: FontPrintfWithFeedback_def bind_Some dest!: print_loop_rest)

lemma FontPrintf_rest: "FontPrintf F x y z scale colour str s = Some t \<Longrightarrow> rest t = rest s"
  by (auto simp: FontPrintf_def dest!: FontPrintfWithFeedback_rest)

lemma UnloadFont_quiet: "UnloadFont F font w = (f1, w1) \<Longrightarrow> obs w1 = obs w"
  by (auto simp: UnloadFont_def Let_def done_face_quiet split: if_splits)

lemma FontDeinit_rest [simp]: "rest (FontDeinit F s) = rest s"
  by (auto simp: FontDeinit_def Let_def rest_def dest!: UnloadFont_quiet split: prod.splits)

lemma ResetThisFont_quiet: "ResetThisFont F font w = (r, f1, w1) \<Longrightarrow> obs w1 = obs w"
  by (auto simp: ResetThisFont_def Let_def clut_quiet dest!: quiet_snd split: prod.splits if_splits)

lemma InitFontSupportCommon_quiet: "InitFontSupportCommon F font w = Some (r, f1, w1) \<Longrightarrow> obs w1 = obs w"
  by (auto simp: InitFontSupportCommon_def Let_def dest!: quiet_snd ResetThisFont_quiet split: prod.splits if_splits)

lemma finish_init_rest: "finish_init F (rf, w) s = Some (r, t) \<Longrightarrow> obs w = obs (ee_world s) \<Longrightarrow> rest t = rest s"
  by (auto simp: finish_init_def Let_def bind_Some rest_def [of s] dest!: InitFontSupportCommon_quiet split: prod.splits if_splits)
    (simp_all add: rest_def)

lemma FontInit_rest: "FontInit F file s = Some (r, t) \<Longrightarrow> rest t = rest s"
  by (auto simp: FontInit_def rest_def [of "_\<lparr>ee_world := _\<rparr>"] rest_def [of s] dest!: quiet_snd split: prod.splits if_splits)
    (metis finish_init_rest face_quiet prod.collapse rest_def)

lemma FontInitWithBuffer_rest: "FontInitWithBuffer F bytes s = Some (r, t) \<Longrightarrow> rest t = rest s"
  by (auto simp: FontInitWithBuffer_def rest_def [of "_\<lparr>ee_world := _\<rparr>"] rest_def [of s] dest!: quiet_snd split: prod.splits if_splits)
    (metis finish_init_rest memory_face_quiet prod.collapse rest_def)

end

subsection \<open>The user interface\<close>

lemma font_more:
  fixes s t :: "('w, 'z) ui_state_scheme"
  assumes "font_state.more t = font_state.more s"
  shows "ui_state.more t = ui_state.more s" "menus t = menus s" "LangStringTable t = LangStringTable s"
    "LangLblStringTable t = LangLblStringTable s" "LangStringWrapTable t = LangStringWrapTable s" "screen_width t = screen_width s"
    "SelectButton t = SelectButton s" "CancelButton t = CancelButton s" "old_pad t = old_pad s" "ETADisplayed t = ETADisplayed s"
  using assms by (cases s; cases t; simp)+

text \<open>An item and a menu without the text widths.\<close>

definition bare_item :: "UIMenuItem \<Rightarrow> UIMenuItem" where
  "bare_item i = i\<lparr>it_w1 := 0\<rparr>"

definition bare_menu :: "UIMenu \<Rightarrow> UIMenu" where
  "bare_menu u = u\<lparr>menu_items := map bare_item (menu_items u)\<rparr>"

locale quiet_ui = quiet_font "fnt E" obs for E :: "'w ui_env" and obs :: "'w \<Rightarrow> 'o" +
  assumes pad_quiet: "obs (snd (padRead E port w)) = obs w"
    and port_quiet: "obs (pad_port E opening w) = obs w"
    and screen_quiet: "obs (screen E c w) = obs w"
    and legend_quiet: "obs (snd (draw_legend E b x y z w)) = obs w"
    and read_quiet: "obs (snd (read_file E file w)) = obs w"
begin

text \<open>What the user interface leaves alone.\<close>

definition still :: "('w, 'z) ui_state_scheme \<Rightarrow> 'o \<times> 'z" where
  "still s = (obs (ee_world s), ui_state.more s)"

lemma rest_still: "rest t = rest s \<Longrightarrow> still t = still s"
  by (auto simp: rest_def still_def dest: font_more(1))

lemma font_still:
  "FontPrintfWithFeedback (fnt E) x y z scale colour str s = Some (p, t) \<Longrightarrow> still t = still s"
  "FontPrintf (fnt E) x y z scale colour str s = Some t \<Longrightarrow> still t = still s"
  "FontGetGlyphWidth (fnt E) c s = Some (d, t) \<Longrightarrow> still t = still s"
  "FontInit (fnt E) file s = Some (r, t) \<Longrightarrow> still t = still s"
  "FontInitWithBuffer (fnt E) bytes s = Some (r, t) \<Longrightarrow> still t = still s"
  "still (FontDeinit (fnt E) s) = still s"
  by (auto intro: rest_still dest: FontPrintfWithFeedback_rest FontPrintf_rest FontGetGlyphWidth_rest FontInit_rest FontInitWithBuffer_rest)

declare font_still(6) [simp]

lemma on_screen_still [simp]: "still (on_screen E c s) = still s"
  by (simp add: still_def on_screen_def wdo_def screen_quiet)

lemma wcall_still:
  "wcall (padRead E port) s = (b, t) \<Longrightarrow> still t = still s"
  "wcall (draw_legend E k x y z) s = (d, t) \<Longrightarrow> still t = still s"
  "wcall (read_file E file) s = (f, t) \<Longrightarrow> still t = still s"
  "wcall (alloc_ok (fnt E) n) s = (okk, t) \<Longrightarrow> still t = still s"
  by (auto simp: wcall_def still_def split: prod.splits dest: quiet_snd(2))
    (metis pad_quiet snd_conv, metis legend_quiet snd_conv, metis read_quiet snd_conv)

lemma still_update [simp]:
  "still (s\<lparr>LangStringTable := a\<rparr>) = still s" "still (s\<lparr>LangLblStringTable := a\<rparr>) = still s" "still (s\<lparr>LangStringWrapTable := b\<rparr>) = still s"
  "still (s\<lparr>menus := m\<rparr>) = still s" "still (s\<lparr>old_pad := p\<rparr>) = still s" "still (s\<lparr>ETADisplayed := e\<rparr>) = still s"
  "still (s\<lparr>console_region := r\<rparr>) = still s" "still (s\<lparr>console_psx := r\<rparr>) = still s" "still (s\<lparr>gFontBuffer := g\<rparr>) = still s"
  by (simp_all add: still_def)

lemma pads_still:
  "still (PadInitPads E s) = still s" "still (PadDeinitPads E s) = still s"
  by (simp_all add: PadInitPads_def PadDeinitPads_def still_def wdo_def port_quiet)

lemma ReadPadStatus_still: "ReadPadStatus E port s = (k, t) \<Longrightarrow> still t = still s"
  by (auto simp: ReadPadStatus_def Let_def dest!: wcall_still split: prod.splits option.splits)

lemma ReadPadStatus_raw_still: "ReadPadStatus_raw E port s = (k, t) \<Longrightarrow> still t = still s"
  by (auto simp: ReadPadStatus_raw_def Let_def dest!: wcall_still split: prod.splits)

lemma ReadCombined_still:
  "ReadCombinedPadStatus E s = (k, t) \<Longrightarrow> still t = still s"
  "ReadCombinedPadStatus_raw E s = (k, t) \<Longrightarrow> still t = still s"
  by (auto simp: ReadCombinedPadStatus_def ReadCombinedPadStatus_raw_def Let_def dest!: ReadPadStatus_still ReadPadStatus_raw_still split: prod.splits)

lemma console_still:
  "GetConsoleRegion E s = (r, t) \<Longrightarrow> still t = still s"
  "IsPSX E s = (r, t) \<Longrightarrow> still t = still s"
  by (auto simp: GetConsoleRegion_def IsPSX_def Let_def dest!: wcall_still split: prod.splits if_splits sum.splits)

lemma store_text_still: "store_text E str s = (r, t) \<Longrightarrow> still t = still s"
  by (auto simp: store_text_def Let_def dest!: wcall_still split: prod.splits if_splits)

lemma parse_font_still: "parse_font_lines E n ls i tab s = Some (r, tab1, t) \<Longrightarrow> still t = still s"
  by (induction ls arbitrary: i tab s) (auto simp: Let_def dest!: store_text_still split: prod.splits if_splits option.splits)

lemma open_retry_still:
  assumes "open_retry E nm s = Some (f, t)"
  shows "still t = still s"
proof -
  have "D = E \<longrightarrow> still (snd y) = still s" if "open_retry D nm s = Some y" for D nm and s :: "('w, 'z) ui_state_scheme" and y
    using that
    by (rule open_retry.raw_induct [where P = "\<lambda>D nm s y. D = E \<longrightarrow> still (snd y) = still s", rotated])
      (auto simp: Let_def dest!: wcall_still split: prod.splits if_splits)
  then show ?thesis using assms by fastforce
qed

lemma GetDefaultFontFilePath_still: "GetDefaultFontFilePath E s = (p, t) \<Longrightarrow> still t = still s"
  by (auto simp: GetDefaultFontFilePath_def dest!: wcall_still split: prod.splits)

lemma ParseFontListFile_still: "ParseFontListFile E tab str n s = Some (r, tab1, t) \<Longrightarrow> still t = still s"
  by (auto simp: ParseFontListFile_def bind_Some dest!: parse_font_still)

lemma GetFontFilePath_still:
  assumes h: "GetFontFilePath E l s = Some (p, t)"
  shows "still t = still s"
proof -
  obtain f s1 where o: "open_retry E ''lang/fonts.txt'' s = Some (f, s1)" using h by (auto simp: GetFontFilePath_def bind_Some)
  note q = open_retry_still [OF o]
  show ?thesis
  proof (cases f)
    case (Inl e)
    then show ?thesis using h o q by (auto simp: GetFontFilePath_def dest!: GetDefaultFontFilePath_still)
  next
    case (Inr str)
    then obtain r tab s2 where f: "ParseFontListFile E (replicate NUM_SUPPORTED_LANGUAGES None) str NUM_SUPPORTED_LANGUAGES s1 = Some (r, tab, s2)"
      using h o by (auto simp: GetFontFilePath_def bind_Some)
    note q2 = ParseFontListFile_still [OF f]
    show ?thesis
    proof (cases "r = 0")
      case False
      then show ?thesis using h o Inr f q q2 by (auto simp: GetFontFilePath_def dest!: GetDefaultFontFilePath_still)
    next
      case True
      then obtain nm where n: "tab ! l = Some nm" "\<not> length tab \<le> l" using h o Inr f by (auto simp: GetFontFilePath_def bind_Some split: if_splits)
      obtain okk s3 where w: "wcall (alloc_ok (fnt E) (length nm + 6)) s2 = (okk, s3)" by fastforce
      have "t = s3" using h o Inr f True n w by (simp add: GetFontFilePath_def)
      then show ?thesis using q q2 wcall_still(4) [OF w] by simp
    qed
  qed
qed

lemma init_font_with_still:
  assumes load: "\<And>nm s r t. load nm s = Some (r, t) \<Longrightarrow> still t = still s" and h: "init_font_with E load s = Some (r, t)"
  shows "still t = still s"
proof -
  obtain p s1 where g: "GetFontFilePath E (nat (ui_language s)) s = Some (p, s1)" using h by (auto simp: init_font_with_def bind_Some)
  have q: "still s1 = still s" using GetFontFilePath_still [OF g] .
  show ?thesis
  proof (cases p)
    case None
    then show ?thesis using h g q by (simp add: init_font_with_def)
  next
    case (Some nm)
    then obtain r2 s2 where l: "load nm s1 = Some (r2, s2)" using h g by (auto simp: init_font_with_def bind_Some)
    obtain nm2 s3 where d: "GetDefaultFontFilePath E s2 = (nm2, s3)" by fastforce
    show ?thesis using h g l d Some q load [OF l] GetDefaultFontFilePath_still [OF d]
      by (auto simp: init_font_with_def dest!: load split: if_splits option.splits)
  qed
qed

lemma ReinitializeUI_still: "ReinitializeUI E s = Some (r, t) \<Longrightarrow> still t = still s"
  by (auto simp: ReinitializeUI_def InitFont_def dest!: init_font_with_still [rotated] intro: font_still(4) split: if_splits)

lemma break_loop_rest: "break_loop E mx pos str line since lastsp s = Some (str1, t) \<Longrightarrow> rest t = rest s"
proof (induction "length str - pos" arbitrary: pos str line since lastsp s rule: less_induct)
  case less
  have ih: "rest t = rest u" if "break_loop E mx (pos + nat n) str2 line1 since1 last1 u = Some (str1, t)" "\<not> n \<le> 0" "\<not> length str \<le> pos" "length str2 = length str"
    for n str2 line1 since1 last1 u
    using less.hyps [OF _ that(1)] that(2-4) by simp
  show ?case
    using less.prems unfolding break_loop.simps [of E mx pos str]
    by (auto simp: bind_Some Let_def dest!: ih FontGetGlyphWidth_rest split: if_splits prod.splits)
qed

lemma GetUIString_still: "GetUIString E k s = Some (p, t) \<Longrightarrow> still t = still s"
  by (auto simp: GetUIString_def BreakLongLanguageString_def bind_Some dest!: break_loop_rest rest_still split: if_splits)

lemma GetUIString_menus: "GetUIString E k s = Some (p, t) \<Longrightarrow> menus t = menus s"
  by (auto simp: GetUIString_def BreakLongLanguageString_def bind_Some rest_def dest!: break_loop_rest font_more(2) split: if_splits)

text \<open>
  Drawing a menu changes no more than the text widths that its buttons note: the state with these
  set to 0 is the same.
\<close>

definition look :: "('w, 'z) ui_state_scheme \<Rightarrow> 'o \<times> 'z ui_state_ext" where
  "look s = rest (s\<lparr>menus := \<lambda>m. bare_menu (menus s m)\<rparr>)"

lemma rest_look: "rest t = rest s \<Longrightarrow> look t = look s"
  by (cases s; cases t; simp add: look_def rest_def)

lemma look_still: "look t = look s \<Longrightarrow> still t = still s"
  by (auto simp: look_def rest_def still_def dest: font_more(1))

lemma look_fields:
  assumes "look t = look s"
  shows "bare_menu (menus t m) = bare_menu (menus s m)" "LangStringTable t = LangStringTable s" "LangLblStringTable t = LangLblStringTable s"
    "SelectButton t = SelectButton s" "CancelButton t = CancelButton s" "ETADisplayed t = ETADisplayed s" "screen_width t = screen_width s"
  using assms by (cases s; cases t; simp add: look_def rest_def fun_eq_iff)+

lemma rest_on_screen [simp]: "rest (on_screen E c s) = rest s"
  by (cases s) (simp add: rest_def on_screen_def wdo_def screen_quiet)

lemma look_on_screen [simp]: "look (on_screen E c s) = look s"
  by (rule rest_look) simp

lemma look_set_item:
  assumes "bare_item i = bare_item (menu_items (menus s m) ! k)"
  shows "look (set_item m k (\<lambda>_. i) s) = look s"
proof -
  let ?l = "menu_items (menus s m)"
  have "map bare_item (?l[k := i]) = map bare_item ?l"
    using assms by (cases "k < length ?l") (simp_all add: map_update list_update_same_conv list_update_beyond)
  then have "(\<lambda>n. bare_menu (menus (set_item m k (\<lambda>_. i) s) n)) = (\<lambda>n. bare_menu (menus s n))"
    by (simp add: fun_eq_iff set_item_def Let_def bare_menu_def)
  then show ?thesis by (simp add: look_def set_item_def Let_def)
qed

lemma text_rest:
  "text_right E x y colour str s = Some (p, t) \<Longrightarrow> rest t = rest s"
  "text_both E x y colour q s = Some (p, t) \<Longrightarrow> rest t = rest s"
  by (auto simp: text_right_def text_both_def put_text_def bind_Some dest!: FontPrintfWithFeedback_rest split: option.splits)

lemma draw_item_rest:
  assumes "draw_item E x0 sel i xy s = Some (p, i1, t)"
  shows "rest t = rest s \<and> bare_item i1 = bare_item i"
  using assms
  by (cases "it_type i")
    (auto simp: draw_item_def Let_def bind_Some bare_item_def put_text_def dest!: text_rest FontPrintfWithFeedback_rest
      split: prod.splits option.splits if_splits item_word.splits)

lemma draw_items_look: "draw_items E m x0 sel ks xy s = Some t \<Longrightarrow> look t = look s"
proof (induction ks arbitrary: xy s)
  case (Cons k ks)
  show ?case
  proof (cases "has (menu_items (menus s m) ! k) MITEM_FLAG_HIDDEN")
    case True
    then show ?thesis using Cons by simp
  next
    case False
    then obtain p i1 u where d: "draw_item E x0 (sel = int k) (menu_items (menus s m) ! k) xy s = Some (p, i1, u)"
      and r: "draw_items E m x0 sel ks p (set_item m k (\<lambda>_. i1) u) = Some t"
      using Cons.prems unfolding draw_items.simps Let_def if_not_P [OF False] bind_Some by (clarsimp simp del: draw_items.simps)
    note q = draw_item_rest [OF d]
    have u: "look u = look s" by (rule rest_look [OF conjunct1 [OF q]])
    have "font_state.more u = font_state.more s" using conjunct1 [OF q] by (simp add: rest_def)
    then have "menus u = menus s" by (rule font_more(2))
    then have "bare_item i1 = bare_item (menu_items (menus u m) ! k)" using conjunct2 [OF q] by simp
    then have "look (set_item m k (\<lambda>_. i1) u) = look u" by (rule look_set_item)
    then show ?thesis using Cons.IH [OF r] u by (simp only:)
  qed
qed simp

lemma legend_rest: "wcall (draw_legend E c x y z) s = (d, u) \<Longrightarrow> rest u = rest s"
  using legend_quiet [of c x y z "ee_world s"] by (auto simp: wcall_def rest_def split: prod.splits)

lemma draw_hints_rest: "draw_hints E hs x s = Some t \<Longrightarrow> rest t = rest s"
proof (induction hs arbitrary: x s)
  case (Cons h hs)
  obtain b l where h: "h = (b, l)" by fastforce
  show ?case
  proof (cases "b < 0")
    case True
    then show ?thesis using Cons h by simp
  next
    case False
    define c where "c = (if b = BUTTON_TYPE_SYS_SELECT then (if SelectButton s = PAD_CIRCLE E then BUTTON_TYPE_CIRCLE else BUTTON_TYPE_CROSS)
      else if b = BUTTON_TYPE_SYS_CANCEL then (if CancelButton s = PAD_CIRCLE E then BUTTON_TYPE_CIRCLE else BUTTON_TYPE_CROSS) else b)"
    obtain d s1 where w: "wcall (draw_legend E c x 420 4) s = (d, s1)" by fastforce
    obtain str xr yr s2 where p: "put_text E (short (x + (d + 8))) 422 GS_WHITE_FONT str s1 = Some ((xr, yr), s2)"
      and r: "draw_hints E hs (short (short (x + (d + 8)) + (xr + 8))) s2 = Some t"
      using Cons.prems False unfolding h draw_hints.simps c_def [symmetric] Let_def w by (auto simp: bind_Some)
    show ?thesis using Cons.IH [OF r] legend_rest [OF w] FontPrintfWithFeedback_rest [OF p [unfolded put_text_def]] by simp
  qed
qed simp

lemma UIDrawMenu_look: "UIDrawMenu E m frame x y sel s = Some t \<Longrightarrow> look t = look s"
  by (auto simp: UIDrawMenu_def bind_Some page_arrow_def Let_def dest!: draw_hints_rest draw_items_look rest_look split: if_splits)

lemma slide_look: "slide E m sel is s = Some t \<Longrightarrow> look t = look s"
  by (induction "is" arbitrary: s) (auto simp: bind_Some dest!: UIDrawMenu_look)

lemma UITransition_look: "UITransition E m tr sel s = Some t \<Longrightarrow> look t = look s"
  by (auto simp: UITransition_def Let_def dest!: slide_look)

text \<open>The menu loop.\<close>

lemma set_item_still [simp]: "still (set_item m k f s) = still s" "still (upd_item m j f s) = still s"
  by (simp_all add: upd_item_def set_item_def Let_def split: option.splits)

lemma setter_still [simp]:
  "still (UISetVisible m k b s) = still s" "still (UISetLabel m k v s) = still s" "still (UISetString m k p s) = still s"
  "still (UISetValue m k v s) = still s" "still (UISetType m k ty s) = still s" "still (set_hint m n bt s) = still s"
  by (simp_all add: UISetVisible_def UISetLabel_def UISetString_def UISetValue_def UISetType_def set_hint_def Let_def)

lemma cursor_keys_still: "cursor_keys E keys v s = (v1, t) \<Longrightarrow> still t = still s"
  by (auto simp: cursor_keys_def Let_def split: if_splits option.splits)

lemma action_keys_still: "action_keys E keys v s = (r, t) \<Longrightarrow> still t = still s"
  by (auto simp: action_keys_def split: if_splits option.splits menu_item.splits)

lemma page_to_still: "page_to E a b m v s = Some (v1, t) \<Longrightarrow> still t = still s"
  by (auto simp: page_to_def bind_Some Let_def dest!: UITransition_look look_still)

lemma page_keys_still: "page_keys E keys v s = Some (v1, t) \<Longrightarrow> still t = still s"
  by (auto simp: page_keys_def Let_def dest!: page_to_still split: if_splits option.splits)

text \<open>A callback that leaves alone what the user interface does.\<close>

definition quiet_callback :: "('w, 'z) ui_callback option \<Rightarrow> bool" where
  "quiet_callback cb \<longleftrightarrow> (\<forall>f m fr sel keys s r t. cb = Some f \<and> f m fr sel keys s = Some (r, t) \<longrightarrow> still t = still s)"

lemma call_back_still: "quiet_callback cb \<Longrightarrow> call_back cb keys v s = Some (r, t) \<Longrightarrow> still t = still s"
  by (auto simp: call_back_def quiet_callback_def split: option.splits)

lemma exec_step_still:
  assumes cb: "quiet_callback cb" and h: "exec_step E cb v s = Some (r, v1, t)"
  shows "still t = still s"
proof -
  obtain keys s1 where a: "ReadCombinedPadStatus E s = (keys, s1)" by fastforce
  obtain raw s2 where b: "ReadCombinedPadStatus_raw E s1 = (raw, s2)" by fastforce
  obtain held v2 where c: "pad_repeat raw v = (held, v2)" by fastforce
  obtain v3 s3 where d: "cursor_keys E held v2 s2 = (v3, s3)" by fastforce
  obtain k s4 where e: "action_keys E keys v3 s3 = (k, s4)" by fastforce
  have q: "still s4 = still s"
    using ReadCombined_still(1) [OF a] ReadCombined_still(2) [OF b] cursor_keys_still [OF d] action_keys_still [OF e] by simp
  show ?thesis using h q unfolding exec_step_def a b c d e Let_def prod.case
    by (auto simp: bind_Some dest!: page_keys_still UIDrawMenu_look look_still call_back_still [OF cb] split: if_splits)
qed

lemma exec_loop_still:
  assumes "quiet_callback cb" "exec_loop E cb v s = Some (r, t)"
  shows "still t = still s"
proof -
  have "D = E \<longrightarrow> quiet_callback cb \<longrightarrow> still (snd y) = still s" if "exec_loop D cb v s = Some y"
    for D cb v and s :: "('w, 'z) ui_state_scheme" and y
  proof (rule exec_loop.raw_induct [where P = "\<lambda>D cb v s y. D = E \<longrightarrow> quiet_callback cb \<longrightarrow> still (snd y) = still s", OF _ that])
    fix f D cb v and s :: "('w, 'z) ui_state_scheme" and y
    assume ih: "\<And>D cb v s y. f D cb v s = Some y \<Longrightarrow> D = E \<longrightarrow> quiet_callback cb \<longrightarrow> still (snd y) = still s"
      and h: "exec_step D cb v s \<bind> (\<lambda>(r, v1, s1). case r of Some res \<Rightarrow> Some ((res, ex_menu v1), s1) | None \<Rightarrow> f D cb v1 s1) = Some y"
    obtain r v1 s1 where st: "exec_step D cb v s = Some (r, v1, s1)" using h by (auto simp: bind_Some)
    have q: "D = E \<longrightarrow> quiet_callback cb \<longrightarrow> still s1 = still s" using exec_step_still st by blast
    show "D = E \<longrightarrow> quiet_callback cb \<longrightarrow> still (snd y) = still s"
      using h st q ih [of D cb v1 s1 y] by (cases r) auto
  qed
  then show ?thesis using assms by fastforce
qed

lemma UIExecMenu_still:
  assumes "quiet_callback cb" "UIExecMenu E m k cb s = Some (r, t)"
  shows "still t = still s"
  using assms(2) by (auto simp: UIExecMenu_def bind_Some Let_def dest!: call_back_still [OF assms(1)] exec_loop_still [OF assms(1)] split: if_splits)

lemma quiet_None [simp]: "quiet_callback None" by (simp add: quiet_callback_def)

lemma fill_box_still [simp]: "still (fill_box a b c d q l s) = still s"
  by (simp add: fill_box_def set_button_def)

lemma ShowMessageBox_still: "ShowMessageBox E a b c d q l s = Some (r, t) \<Longrightarrow> still t = still s"
  by (auto simp: ShowMessageBox_def Let_def bind_Some dest!: UIExecMenu_still [OF quiet_None] UIDrawMenu_look look_still split: if_splits)

lemma message_box_still: "message_box E a b msg l s = Some (r, t) \<Longrightarrow> still t = still s"
  by (auto simp: message_box_def bind_Some dest!: ShowMessageBox_still GetUIString_still)

lemma display_still:
  "DisplayWarningMessage E msg s = Some t \<Longrightarrow> still t = still s" "DisplayErrorMessage E msg s = Some t \<Longrightarrow> still t = still s"
  "DisplayInfoMessage E msg s = Some t \<Longrightarrow> still t = still s" "DisplayFlashStatusUpdate E msg s = Some t \<Longrightarrow> still t = still s"
  "DisplayPromptMessage E msg b1 b2 s = Some (r, t) \<Longrightarrow> still t = still s"
  by (auto simp: DisplayWarningMessage_def DisplayErrorMessage_def DisplayInfoMessage_def DisplayFlashStatusUpdate_def DisplayPromptMessage_def
      dest!: message_box_still)

lemma progress_still:
  "still (InitProgressScreen l s) = still s" "still (show_eta secs s) = still s" "show_progress E s = Some t \<Longrightarrow> still t = still s"
  by (auto simp: InitProgressScreen_def eta_type_def show_eta_def show_progress_def Let_def dest!: UIDrawMenu_look look_still split: prod.splits)

lemma screen_still:
  "DrawDiskSurfScanningScreen E p secs bad s = Some t \<Longrightarrow> still t = still s" "DrawDiskZeroFillingScreen E p secs s = Some t \<Longrightarrow> still t = still s"
  "DrawDiskScanningScreen E p secs s = Some t \<Longrightarrow> still t = still s" "DrawDiskOptimizationScreen E p q secs s = Some t \<Longrightarrow> still t = still s"
  by (auto simp: DrawDiskSurfScanningScreen_def DrawDiskZeroFillingScreen_def DrawDiskScanningScreen_def DrawDiskOptimizationScreen_def progress_still(2)
      dest!: progress_still(3))

lemma GetBadSectorAction_still: "GetBadSectorAction E lba s = Some (r, t) \<Longrightarrow> still t = still s"
  by (auto simp: GetBadSectorAction_def bind_Some dest!: GetUIString_still ShowMessageBox_still)

lemma results_still: "DisplayScanCompleteResults E a b s = Some t \<Longrightarrow> still t = still s"
  by (auto simp: DisplayScanCompleteResults_def bind_Some Let_def dest!: GetUIString_still UIExecMenu_still [OF quiet_None] split: if_splits)

end

text \<open>With nothing observed of the world the laws hold of every environment.\<close>

interpretation plain: quiet_ui E "\<lambda>_. ()" for E :: "'w ui_env"
  by unfold_locales simp_all

end
