(* ===== verification/EeAnswers.thy ===== *)
theory EeAnswers
  imports EeQuiet
begin

text \<open>
  The answers of the menus: the loop keeps the types, identities and flags of all items, and its
  selection is always an item that can be selected, so that it ends with the cancel button or with the
  identity of a button that the user could select.
\<close>

subsection \<open>What the menu loop keeps\<close>

definition item_key :: "UIMenuItem \<Rightarrow> menu_item \<times> u8 \<times> u8" where
  "item_key i = (it_type i, it_id i, it_flags i)"

definition skeleton :: "UIMenu \<Rightarrow> menu_name option \<times> menu_name option \<times> (menu_item \<times> u8 \<times> u8) list" where
  "skeleton u = (menu_next u, menu_prev u, map item_key (menu_items u))"

definition same_menus :: "('w, 'z) ui_state_scheme \<Rightarrow> ('w, 'z) ui_state_scheme \<Rightarrow> bool" where
  "same_menus s t \<longleftrightarrow> (\<forall>m. skeleton (menus t m) = skeleton (menus s m))"

lemma same_menus_refl [simp]: "same_menus s s" by (simp add: same_menus_def)

lemma same_menus_trans: "same_menus s t \<Longrightarrow> same_menus t u \<Longrightarrow> same_menus s u" by (simp add: same_menus_def)

lemma skeleton_bare: "skeleton (bare_menu u) = skeleton u"
  by (simp add: skeleton_def bare_menu_def bare_item_def item_key_def comp_def)

lemma look_same: "plain.look t = plain.look s \<Longrightarrow> same_menus s t"
  unfolding same_menus_def using plain.look_fields(1) skeleton_bare by metis

lemma live_keys: "map item_key (live u) = takeWhile (\<lambda>k. fst k \<noteq> MITEM_TERMINATOR) (snd (snd (skeleton u)))"
  by (simp add: live_def skeleton_def takeWhile_map comp_def item_key_def)

lemma selectable_key: "item_key i = item_key j \<Longrightarrow> selectable i = selectable j"
  by (simp add: item_key_def selectable_def has_def)

lemma same_live:
  assumes "skeleton u = skeleton v"
  shows "length (live u) = length (live v)" "k < length (live v) \<Longrightarrow> item_key (live u ! k) = item_key (live v ! k)"
proof -
  have e: "map item_key (live u) = map item_key (live v)" using assms by (simp add: live_keys)
  then show l: "length (live u) = length (live v)" by (rule map_eq_imp_length_eq)
  show "item_key (live u ! k) = item_key (live v ! k)" if "k < length (live v)"
    using that l e by (metis nth_map)
qed

lemma live_nth: "k < length (live u) \<Longrightarrow> live u ! k = menu_items u ! k"
  by (simp add: live_def takeWhile_nth)

lemma same_set_item:
  assumes "\<And>i. item_key (f i) = item_key i"
  shows "same_menus s (set_item m k f s)"
proof -
  have "map item_key ((menu_items (menus s m))[k := f (menu_items (menus s m) ! k)]) = map item_key (menu_items (menus s m))"
    using assms by (cases "k < length (menu_items (menus s m))") (simp_all add: map_update list_update_same_conv list_update_beyond)
  then show ?thesis by (simp add: same_menus_def skeleton_def set_item_def Let_def)
qed

lemma changed_keys [simp]: "item_key (step_left E i) = item_key i" "item_key (step_right E i) = item_key i" "item_key (toggled E i) = item_key i"
  by (cases "it_type i"; simp add: item_key_def step_left_def step_right_def toggled_def Let_def)+

subsection \<open>The selection\<close>

definition sel_ok :: "exec_vars \<Rightarrow> ('w, 'z) ui_state_scheme \<Rightarrow> bool" where
  "sel_ok v s \<longleftrightarrow> (0 \<le> ex_sel v \<longrightarrow> nat (ex_sel v) < length (live (menus s (ex_menu v))) \<and> selectable (live (menus s (ex_menu v)) ! nat (ex_sel v)))"

lemma sel_ok_same:
  assumes "same_menus s t" "ex_menu w = ex_menu v" "ex_sel w = ex_sel v"
  shows "sel_ok w t = sel_ok v s"
proof -
  have k: "skeleton (menus t (ex_menu v)) = skeleton (menus s (ex_menu v))" using assms(1) by (simp add: same_menus_def)
  have "selectable (live (menus t (ex_menu v)) ! n) = selectable (live (menus s (ex_menu v)) ! n)" if "n < length (live (menus s (ex_menu v)))" for n
    by (rule selectable_key [OF same_live(2) [OF k that]])
  then show ?thesis using same_live(1) [OF k] assms(2,3) by (auto simp: sel_ok_def)
qed

lemma first_selectable:
  assumes "first_selectable m ks = k" "0 \<le> k"
  shows "nat k \<in> set ks \<and> selectable (live m ! nat k)"
  using assms by (auto simp: first_selectable_def find_Some_iff in_set_conv_nth split: option.splits)

lemma next_ok:
  assumes "ex_sel v = UIGetNextSelectableItem (menus s (ex_menu v)) k"
  shows "sel_ok v s"
proof -
  have "nat (ex_sel v) \<in> set [nat (if k < 0 then 0 else k + 1)..<length (live (menus s (ex_menu v)))] \<and>
      selectable (live (menus s (ex_menu v)) ! nat (ex_sel v))" if "0 \<le> ex_sel v"
    by (rule first_selectable [OF _ that]) (simp add: assms UIGetNextSelectableItem_def)
  then show ?thesis by (auto simp: sel_ok_def)
qed

lemma by_id_ok:
  assumes "0 \<le> UIGetSelectableItem u k"
  shows "nat (UIGetSelectableItem u k) < length (live u) \<and> selectable (live u ! nat (UIGetSelectableItem u k))"
proof (cases "List.find (\<lambda>j. uint (it_id (live u ! j)) = k) [0..<length (live u)]")
  case None
  then show ?thesis using assms by (simp add: UIGetSelectableItem_def)
next
  case (Some j)
  then have "j \<in> set [0..<length (live u)]" by (auto simp: find_Some_iff)
  then show ?thesis using assms Some by (simp add: UIGetSelectableItem_def split: if_splits)
qed

lemma start_ok: "sel_ok (start_vars m k s) s"
proof (cases "0 \<le> UIGetSelectableItem (menus s m) k")
  case True
  then show ?thesis using by_id_ok [OF True] by (simp add: start_vars_def Let_def sel_ok_def)
next
  case False
  then show ?thesis by (intro next_ok [where k = "- 1"]) (simp add: start_vars_def Let_def)
qed

lemma cursor_keys_ok:
  assumes "cursor_keys E keys v s = (v1, t)" "sel_ok v s" "live (menus s (ex_menu v)) \<noteq> []"
  shows "same_menus s t \<and> sel_ok v1 t \<and> ex_menu v1 = ex_menu v"
proof -
  let ?m = "menus s (ex_menu v)"
  have prev: "sel_ok (v\<lparr>ex_sel := UIGetPrevSelectableItem ?m (ex_sel v)\<rparr>) s" if p: "0 \<le> UIGetPrevSelectableItem ?m (ex_sel v)"
  proof -
    from first_selectable [OF refl p [unfolded UIGetPrevSelectableItem_def]]
    have n: "nat (UIGetPrevSelectableItem ?m (ex_sel v)) < nat ((if ex_sel v < 0 then 0 else ex_sel v - 1) + 1)"
      "selectable (live ?m ! nat (UIGetPrevSelectableItem ?m (ex_sel v)))"
      by (simp_all add: UIGetPrevSelectableItem_def)
    have "nat (UIGetPrevSelectableItem ?m (ex_sel v)) < length (live ?m)"
      using n(1) assms(2,3) by (auto simp: sel_ok_def split: if_splits)
    then show ?thesis using n(2) by (simp add: sel_ok_def)
  qed
  have nxt: "sel_ok (v\<lparr>ex_sel := UIGetNextSelectableItem ?m (ex_sel v)\<rparr>) s" by (rule next_ok [where k = "ex_sel v"]) simp
  have item: "same_menus s (set_item (ex_menu v) k f s) \<and> sel_ok v (set_item (ex_menu v) k f s)" if "\<And>i. item_key (f i) = item_key i" for k f
    using same_set_item [OF that] sel_ok_same assms(2) by blast
  show ?thesis using assms(1,2) prev nxt item [where f = "step_left E"] item [where f = "step_right E"]
    by (auto simp: cursor_keys_def Let_def split: if_splits option.splits)
qed

lemma action_keys_ok:
  assumes "action_keys E keys v s = (r, t)" "sel_ok v s"
  shows "same_menus s t \<and> (\<forall>x. r = Some x \<longrightarrow> x = 1 \<or>
    (\<exists>i \<in> set (live (menus s (ex_menu v))). it_type i = MITEM_BUTTON \<and> selectable i \<and> x = uint (it_id i)))"
proof (cases "pressed keys (SelectButton s) \<and> 0 \<le> ex_sel v")
  case True
  let ?i = "live (menus s (ex_menu v)) ! nat (ex_sel v)"
  have n: "nat (ex_sel v) < length (live (menus s (ex_menu v)))" "selectable ?i" using assms(2) True by (simp_all add: sel_ok_def)
  have i: "item_of (ex_menu v) (ex_sel v) s = Some ?i" using True n(1) by (simp add: item_of_def live_nth)
  show ?thesis
  proof (cases "it_type ?i = MITEM_BUTTON \<and> editable ?i")
    case b: True
    then have "r = Some (uint (it_id ?i))" "t = s" using assms(1) True i by (auto simp: action_keys_def)
    then show ?thesis using b n by (auto intro!: bexI [of _ ?i])
  next
    case False
    then have "r = None \<and> same_menus s t" using assms(1) True i
      by (auto simp: action_keys_def same_set_item split: if_splits menu_item.splits)
    then show ?thesis by simp
  qed
next
  case False
  then show ?thesis using assms(1) by (auto simp: action_keys_def item_of_def split: if_splits)
qed

lemma page_keys_ok:
  assumes "page_keys E keys v s = Some (v1, t)" "sel_ok v s"
  shows "same_menus s t \<and> sel_ok v1 t"
proof -
  have p: "same_menus s t \<and> sel_ok v1 t" if pg: "page_to E a b m v s = Some (v1, t)" for a b m
  proof -
    obtain s1 where u: "UITransition E (ex_menu v) a (ex_sel v) s = Some s1"
      "UITransition E m b (UIGetNextSelectableItem (menus s1 m) (- 1)) s1 = Some t"
      "v1 = v\<lparr>ex_menu := m, ex_sel := UIGetNextSelectableItem (menus s1 m) (- 1)\<rparr>"
      using pg by (auto simp: page_to_def bind_Some Let_def)
    have q: "same_menus s s1" "same_menus s1 t" using u plain.UITransition_look look_same by blast+
    have "sel_ok v1 s1" unfolding u(3) by (rule next_ok [where k = "- 1"]) simp
    then show ?thesis using q sel_ok_same [OF q(2), of v1 v1] same_menus_trans by blast
  qed
  show ?thesis using assms p by (auto simp: page_keys_def Let_def split: if_splits option.splits)
qed

subsection \<open>The loop\<close>

text \<open>A callback that goes on and keeps the menus, as the one of the main menu does.\<close>

definition keeps_menus :: "('w, 'z) ui_callback option \<Rightarrow> bool" where
  "keeps_menus cb \<longleftrightarrow> (\<forall>f m fr sel keys s r t. cb = Some f \<and> f m fr sel keys s = Some (r, t) \<longrightarrow> r = 0 \<and> same_menus s t)"

lemma keeps_None [simp]: "keeps_menus None" by (simp add: keeps_menus_def)

lemma call_back_ok: "keeps_menus cb \<Longrightarrow> call_back cb keys v s = Some (r, t) \<Longrightarrow> r = 0 \<and> same_menus s t"
  by (auto simp: call_back_def keeps_menus_def split: option.splits)

lemma pads_menus [simp]:
  "ReadCombinedPadStatus E s = (k, t) \<Longrightarrow> menus t = menus s" "ReadCombinedPadStatus_raw E s = (k, t) \<Longrightarrow> menus t = menus s"
  by (auto simp: ReadCombinedPadStatus_def ReadCombinedPadStatus_raw_def ReadPadStatus_def ReadPadStatus_raw_def wcall_def Let_def
      split: prod.splits option.splits)

lemma pad_repeat_sel: "pad_repeat raw v = (k, w) \<Longrightarrow> ex_menu w = ex_menu v \<and> ex_sel w = ex_sel v"
  by (auto simp: pad_repeat_def Let_def split: if_splits)

text \<open>The answers that the items of a menu allow.\<close>

definition answer_of :: "('w, 'z) ui_state_scheme \<Rightarrow> menu_name \<Rightarrow> int \<Rightarrow> bool" where
  "answer_of s m r \<longleftrightarrow> r = 1 \<or> (\<exists>i \<in> set (live (menus s m)). it_type i = MITEM_BUTTON \<and> selectable i \<and> r = uint (it_id i))"

lemma answer_same:
  assumes "same_menus s t" "answer_of t m r"
  shows "answer_of s m r"
proof -
  have k: "skeleton (menus t m) = skeleton (menus s m)" using assms(1) by (simp add: same_menus_def)
  have "\<exists>j \<in> set (live (menus s m)). item_key j = item_key i" if "i \<in> set (live (menus t m))" for i
    using that same_live [OF k] by (metis in_set_conv_nth)
  then show ?thesis using assms(2) unfolding answer_of_def by (metis item_key_def prod.inject selectable_key)
qed

definition no_empty :: "('w, 'z) ui_state_scheme \<Rightarrow> bool" where
  "no_empty s \<longleftrightarrow> (\<forall>m. live (menus s m) \<noteq> [])"

lemma no_empty_same: "same_menus s t \<Longrightarrow> no_empty t = no_empty s"
  unfolding no_empty_def same_menus_def using same_live(1) by (metis length_0_conv)

text \<open>A menu with no next and no previous one is not left.\<close>

definition alone :: "('w, 'z) ui_state_scheme \<Rightarrow> menu_name \<Rightarrow> bool" where
  "alone s m \<longleftrightarrow> menu_next (menus s m) = None \<and> menu_prev (menus s m) = None"

lemma alone_same: "same_menus s t \<Longrightarrow> alone t m = alone s m"
  by (simp add: same_menus_def skeleton_def alone_def)

lemma page_keys_alone: "alone s (ex_menu v) \<Longrightarrow> page_keys E keys v s = Some (v, s)"
  by (simp add: page_keys_def alone_def Let_def)

lemma exec_step_ok:
  assumes cb: "keeps_menus cb" and h: "exec_step E cb v s = Some (r, w, t)" and ok: "sel_ok v s" "no_empty s"
  shows "same_menus s t \<and> (case r of None \<Rightarrow> sel_ok w t | Some x \<Rightarrow> answer_of s (ex_menu w) x) \<and>
     (alone s (ex_menu v) \<longrightarrow> ex_menu w = ex_menu v)"
proof -
  obtain keys s1 where a: "ReadCombinedPadStatus E s = (keys, s1)" by fastforce
  obtain raw s2 where b: "ReadCombinedPadStatus_raw E s1 = (raw, s2)" by fastforce
  obtain held v2 where c: "pad_repeat raw v = (held, v2)" by fastforce
  obtain v3 s3 where d: "cursor_keys E held v2 s2 = (v3, s3)" by fastforce
  obtain k s4 where e: "action_keys E keys v3 s3 = (k, s4)" by fastforce
  have m: "menus s2 = menus s" using a b by simp
  then have s2: "same_menus s s2" by (simp add: same_menus_def)
  have v2: "sel_ok v2 s2" using sel_ok_same [OF s2] pad_repeat_sel [OF c] ok(1) by blast
  note q = cursor_keys_ok [OF d v2]
  have s3: "same_menus s s3" "sel_ok v3 s3" using q s2 ok(2) m same_menus_trans by (auto simp: no_empty_def)
  have stay: "ex_menu v3 = ex_menu v" using q ok(2) m pad_repeat_sel [OF c] by (simp add: no_empty_def)
  note k = action_keys_ok [OF e s3(2)]
  have s4: "same_menus s s4" using s3 k same_menus_trans by blast
  have v4: "sel_ok v3 s4" using k s3(2) sel_ok_same by blast
  note body = h [unfolded exec_step_def a b c d e Let_def prod.case]
  show ?thesis
  proof (cases k)
    case (Some x)
    then have "r = Some x" "w = v3" "t = s4" using body by simp_all
    then show ?thesis using Some k s4 answer_same [OF s3(1)] stay by (simp add: answer_of_def)
  next
    case None
    then obtain v5 s5 s6 x s7 where p: "page_keys E keys v3 s4 = Some (v5, s5)"
      and u: "UIDrawMenu E (ex_menu v5) (ex_frame v5) UI_OFFSET_X UI_OFFSET_Y (ex_sel v5) s5 = Some s6"
      and f: "call_back cb keys v5 s6 = Some (x, s7)" and rw: "(if x \<noteq> 0 then Some (Some x, v5, s7)
        else Some (None, v5\<lparr>ex_frame := ex_frame v5 + 1\<rparr>, on_screen E SyncFlipFB s7)) = Some (r, w, t)"
      using body by (auto simp: bind_Some)
    have x: "x = 0" "same_menus s6 s7" using call_back_ok [OF cb f] by simp_all
    have s7: "same_menus s5 s7" using look_same [OF plain.UIDrawMenu_look [OF u]] x same_menus_trans by blast
    have t: "r = None" "w = v5\<lparr>ex_frame := ex_frame v5 + 1\<rparr>" "same_menus s7 t" using rw x(1) by (auto simp: same_menus_def on_screen_def wdo_def)
    have s5: "same_menus s4 s5" "sel_ok v5 s5" using page_keys_ok [OF p v4] by simp_all
    have s5t: "same_menus s5 t" using s7 t(3) same_menus_trans by blast
    have "sel_ok w t" using sel_ok_same [OF s5t, of w v5] s5(2) t(2) by simp
    moreover have "alone s (ex_menu v) \<longrightarrow> ex_menu w = ex_menu v"
      using page_keys_alone [of s4 v3 E keys] p alone_same [OF s4] stay t(2) by auto
    moreover have "same_menus s t" using s4 s5(1) s5t same_menus_trans by blast
    ultimately show ?thesis using t(1) by simp
  qed
qed

lemma exec_loop_ok:
  assumes "exec_loop E cb v s = Some ((r, m), t)" "keeps_menus cb" "sel_ok v s" "no_empty s"
  shows "same_menus s t \<and> answer_of s m r \<and> (alone s (ex_menu v) \<longrightarrow> m = ex_menu v)"
proof -
  let ?P = "\<lambda>E cb v s y. keeps_menus cb \<and> sel_ok v s \<and> no_empty s \<longrightarrow> same_menus s (snd y) \<and> answer_of s (snd (fst y)) (fst (fst y)) \<and>
     (alone s (ex_menu v) \<longrightarrow> snd (fst y) = ex_menu v)"
  have "?P E cb v s y" if "exec_loop E cb v s = Some y" for E :: "'a ui_env" and cb v and s :: "('a, 'b) ui_state_scheme" and y
  proof (rule exec_loop.raw_induct [where P = ?P, OF _ that])
    fix f and E :: "'a ui_env" and cb v and s :: "('a, 'b) ui_state_scheme" and y
    assume ih: "\<And>E cb v s y. f E cb v s = Some y \<Longrightarrow> ?P E cb v s y"
      and h: "exec_step E cb v s \<bind> (\<lambda>(r, v1, s1). case r of Some res \<Rightarrow> Some ((res, ex_menu v1), s1) | None \<Rightarrow> f E cb v1 s1) = Some y"
    obtain r v1 s1 where st: "exec_step E cb v s = Some (r, v1, s1)" using h by (auto simp: bind_Some)
    show "?P E cb v s y"
    proof (intro impI, elim conjE)
      assume k: "keeps_menus cb" "sel_ok v s" "no_empty s"
      note q = exec_step_ok [OF k(1) st k(2,3)]
      show "same_menus s (snd y) \<and> answer_of s (snd (fst y)) (fst (fst y)) \<and> (alone s (ex_menu v) \<longrightarrow> snd (fst y) = ex_menu v)"
      proof (cases r)
        case None
        then have y: "f E cb v1 s1 = Some y" using h st by simp
        have s1: "same_menus s s1" "sel_ok v1 s1" "no_empty s1" using q None k(3) no_empty_same by auto
        then have "same_menus s1 (snd y)" "answer_of s1 (snd (fst y)) (fst (fst y))" "alone s1 (ex_menu v1) \<longrightarrow> snd (fst y) = ex_menu v1"
          using ih [OF y] k(1) by blast+
        then show ?thesis using s1(1) same_menus_trans answer_same q alone_same [OF s1(1)] by metis
      next
        case (Some x)
        then show ?thesis using h st q by auto
      qed
    qed
  qed
  then show ?thesis using assms by fastforce
qed

lemma UIExecMenu_ok:
  assumes "UIExecMenu E m k cb s = Some ((r, n), t)" "keeps_menus cb" "no_empty s"
  shows "same_menus s t \<and> answer_of s n r \<and> (alone s m \<longrightarrow> n = m)"
proof -
  obtain c s1 where f: "call_back cb 0 (start_vars m k s) s = Some (c, s1)" using assms(1) by (auto simp: UIExecMenu_def bind_Some Let_def)
  have c: "c = 0" "same_menus s s1" using call_back_ok [OF assms(2) f] by simp_all
  have l: "exec_loop E cb (start_vars m k s) s1 = Some ((r, n), t)" using assms(1) f c(1) by (simp add: UIExecMenu_def Let_def)
  have "sel_ok (start_vars m k s) s1" using sel_ok_same [OF c(2)] start_ok by blast
  from exec_loop_ok [OF l assms(2) this] c(2) assms(3) no_empty_same
  have q: "same_menus s1 t" "answer_of s1 n r" "alone s1 (ex_menu (start_vars m k s)) \<longrightarrow> n = ex_menu (start_vars m k s)" by blast+
  have "ex_menu (start_vars m k s) = m" by (simp add: start_vars_def Let_def)
  then show ?thesis using q c(2) alone_same [OF c(2)] same_menus_trans answer_same by metis
qed

lemma main_menu_callback: "keeps_menus (Some (MainMenuUpdateCallback E))"
proof -
  have k: "item_key (i\<lparr>it_w0 := q\<rparr>) = item_key i" for i q by (simp add: item_key_def)
  have u: "same_menus s (UISetString m j p s)" for m j p and s :: "('a, 'b) ui_state_scheme"
    by (auto simp: UISetString_def upd_item_def k intro!: same_set_item split: option.splits)
  have g: "same_menus s t" if "GetUIString E j s = Some (p, t)" for j p and s t :: "('a, 'b) ui_state_scheme"
    using plain.GetUIString_menus [OF that] by (simp add: same_menus_def)
  show ?thesis
    by (auto simp: keeps_menus_def MainMenuUpdateCallback_def bind_Some intro: u same_menus_trans [OF g u] split: if_splits option.splits)
qed

text \<open>
  C34. A menu answers only what it offers: however the pads are pressed and whatever is drawn, in every message
  box and in the main menu with its callback, when \<open>UIExecMenu\<close> ends its result is 1, for the cancel
  button, or the identity of an item of the menu it ends in which is a button and neither hidden
  nor disabled nor read-only.
\<close>

theorem menu_answer:
  assumes "\<And>m. live (menus s m) \<noteq> []" "cb = None \<or> cb = Some (MainMenuUpdateCallback E)"
    and "UIExecMenu E m k cb s = Some ((r, n), t)"
  shows "r = 1 \<or> (\<exists>i \<in> set (live (menus s n)). it_type i = MITEM_BUTTON \<and> selectable i \<and> r = uint (it_id i))"
proof -
  have "keeps_menus cb" using assms(2) main_menu_callback by auto
  then show ?thesis using UIExecMenu_ok [OF assms(3)] assms(1) by (simp add: no_empty_def answer_of_def)
qed

text \<open>Cancel is pressed on the first pad.\<close>

definition cancel_env :: "unit ui_env" where
  "cancel_env = demo_ui_env\<lparr>padRead := \<lambda>port w. (Some (if port = 0 then 0xDFFF else 0xFFFF), w)\<rparr>"

lemma demo_menus_live: "live (menus demo_ui m) \<noteq> []"
  by (cases m) (simp_all add: demo_ui_def static_menus_def Let_def live_def HDDMainMenuItems_def ProgressScreenItems_def ScanResultsScreenItems_def
    MessageBoxItems_def plain_item_def label_item_def)

lemma cancel_menu:
  assumes "SelectButton s = 0x4000" "CancelButton s = 0x2000" "old_pad s = (\<lambda>_. 0)"
  shows "\<exists>t. UIExecMenu cancel_env m k None s = Some ((1, m), t)"
proof -
  obtain s1 where a: "ReadCombinedPadStatus cancel_env s = (0x2000, s1)" "SelectButton s1 = 0x4000" "CancelButton s1 = 0x2000"
    using assms by (simp add: cancel_env_def demo_ui_env_def ReadCombinedPadStatus_def ReadPadStatus_def wcall_def Let_def)
  obtain s2 where b: "ReadCombinedPadStatus_raw cancel_env s1 = (0x2000, s2)" "SelectButton s2 = 0x4000" "CancelButton s2 = 0x2000"
    using a by (simp add: cancel_env_def demo_ui_env_def ReadCombinedPadStatus_raw_def ReadPadStatus_raw_def wcall_def Let_def)
  let ?v = "start_vars m k s"
  have v: "ex_old ?v = 0" "ex_delay ?v = 20" "ex_menu ?v = m" by (simp_all add: start_vars_def Let_def UI_PAD_REPEAT_START_DELAY_def)
  obtain w where c: "pad_repeat 0x2000 ?v = (0x2000, w)" "ex_menu w = m" using v by (simp add: pad_repeat_def Let_def)
  have d: "cursor_keys cancel_env 0x2000 w s2 = (w, s2)" by (simp add: cursor_keys_def pressed_def cancel_env_def demo_ui_env_def Let_def)
  have e: "action_keys cancel_env 0x2000 w s2 = (Some 1, s2)" using b by (simp add: action_keys_def pressed_def)
  have "exec_step cancel_env None ?v s = Some (Some 1, w, s2)"
    unfolding exec_step_def a(1) b(1) c(1) d e Let_def prod.case by simp
  then have "exec_loop cancel_env None ?v s = Some ((1, m), s2)" using c(2) by (subst exec_loop.simps) simp
  then show ?thesis by (simp add: UIExecMenu_def call_back_def Let_def)
qed

theorem menu_answer_witness:
  "\<exists>r t. UIExecMenu cancel_env HDDMainMenu 9 None demo_ui = Some ((r, HDDMainMenu), t) \<and>
     (r = 1 \<or> (\<exists>i \<in> set (live (menus demo_ui HDDMainMenu)). it_type i = MITEM_BUTTON \<and> selectable i \<and> r = uint (it_id i)))"
proof -
  obtain t where e: "UIExecMenu cancel_env HDDMainMenu 9 None demo_ui = Some ((1, HDDMainMenu), t)"
    using cancel_menu [of demo_ui] by (auto simp: demo_ui_def)
  show ?thesis by (rule exI, rule exI, rule conjI [OF e menu_answer [OF demo_menus_live disjI1 [OF refl] e]])
qed

end
