(* ===== verification/EeAbort.thy ===== *)
theory EeAbort
  imports EeAnswers
begin

text \<open>
  The flag that the user has aborted an operation: nothing ever resets it. Every operation keeps it
  when it is set, and a scan or an optimisation that starts with it set leaves out its second half.
\<close>

subsection \<open>The user interface keeps the flag\<close>

lemma still_aborted:
  fixes s t :: "('w, 'z) sys_state_scheme"
  assumes "plain.still t = plain.still s"
  shows "UserAborted t = UserAborted s"
  using assms by (cases s; cases t; simp add: plain.still_def)

lemmas display_aborted = plain.display_still [THEN still_aborted] plain.screen_still [THEN still_aborted]
  plain.results_still [THEN still_aborted] plain.GetBadSectorAction_still [THEN still_aborted]

subsection \<open>So do the modules\<close>

lemma wdo_aborted [simp]: "UserAborted (wdo f s) = UserAborted s" by (simp add: wdo_def)

lemma wcall_aborted: "wcall f s = (r, t) \<Longrightarrow> UserAborted t = UserAborted s"
  by (auto simp: wcall_def split: prod.splits)

lemma wcall_aborted_snd [simp]: "UserAborted (snd (wcall f s)) = UserAborted s" by (simp add: wcall_def split: prod.splits)

lemma sif_aborted [simp]: "UserAborted (sif_do E c s) = UserAborted s" "UserAborted (load_irx E m sz a s) = UserAborted s"
  by (simp_all add: sif_do_def load_irx_def)

lemma load_all_aborted [simp]: "UserAborted (load_all E ms s) = UserAborted s"
  unfolding load_all_def by (induction ms arbitrary: s) (auto split: prod.splits)

lemma pads_aborted [simp]:
  "UserAborted (PadInitPads U s) = UserAborted s" "UserAborted (PadDeinitPads U s) = UserAborted s"
  using plain.pads_still still_aborted by blast+

lemma sif_until_aborted: "sif_until E c s = Some t \<Longrightarrow> UserAborted t = UserAborted s"
  by (rule sif_until.raw_induct [where P = "\<lambda>E c s t. UserAborted t = UserAborted s", rotated], assumption)
    (auto simp: Let_def dest!: wcall_aborted split: prod.splits if_splits)

lemma create_aborted: "SysCreateThread E n p s = (r, t) \<Longrightarrow> UserAborted t = UserAborted s"
  by (auto simp: SysCreateThread_def Let_def dest!: wcall_aborted split: prod.splits if_splits)

lemma create_aborted_snd [simp]: "UserAborted (snd (SysCreateThread E n p s)) = UserAborted s"
  using create_aborted by (metis prod.collapse)

lemma boot_id_aborted: "GetBootDeviceID E s = (r, t) \<Longrightarrow> UserAborted t = UserAborted s"
  by (auto simp: GetBootDeviceID_def Let_def split: if_splits)

lemma mount_aborted: "SysInitMount E s = Some (r, t) \<Longrightarrow> UserAborted t = UserAborted s"
  by (auto simp: SysInitMount_def Let_def dest!: wcall_aborted split: prod.splits if_splits)

lemma boot_init_aborted: "SysBootDeviceInit E s = Some (r, t) \<Longrightarrow> UserAborted t = UserAborted s"
  by (auto simp: SysBootDeviceInit_def dest!: boot_id_aborted mount_aborted split: prod.splits if_splits)

lemma IsPSX_aborted: "IsPSX U s = (r, t) \<Longrightarrow> UserAborted t = UserAborted s"
  using plain.console_still(2) still_aborted by blast

lemma put_device_aborted [simp]: "UserAborted (put_device u f s) = UserAborted s" by (simp add: put_device_def)

lemma ata_aborted: "InitATADevice E u s = Some (r, t) \<Longrightarrow> UserAborted t = UserAborted s"
  by (auto simp: InitATADevice_def Let_def bind_Some devctl_def dest!: wcall_aborted IsPSX_aborted split: prod.splits if_splits)

lemma ofold_aborted:
  assumes "\<And>i s t. f i s = Some t \<Longrightarrow> UserAborted t = UserAborted s"
  shows "ofold f is s = Some t \<Longrightarrow> UserAborted t = UserAborted s"
  by (induction "is" arbitrary: s) (auto simp: bind_Some dest!: assms)

lemma thread_aborted: "SystemInitThread E fl s = Some t \<Longrightarrow> UserAborted t = UserAborted s"
proof -
  have f: "UserAborted t = UserAborted s" if "ofold (\<lambda>i t. map_option snd (InitATADevice E i t)) is s = Some t" for "is" s t
    by (rule ofold_aborted [OF _ that]) (auto dest!: ata_aborted)
  show "SystemInitThread E fl s = Some t \<Longrightarrow> UserAborted t = UserAborted s"
    by (auto simp: SystemInitThread_def Let_def bind_Some SetHDSTIOBufferSize_def devctl_def dest!: f split: if_splits)
qed

lemma wait_aborted: "WaitInit E s = Some t \<Longrightarrow> UserAborted t = UserAborted s"
  by (auto simp: WaitInit_def run_init_def bind_Some dest!: thread_aborted)

lemma IopInitStart_aborted: "IopInitStart E fl s = Some t \<Longrightarrow> UserAborted t = UserAborted s"
  by (auto simp: IopInitStart_def Let_def bind_Some case_prod_unfold dest!: sif_until_aborted split: if_splits)

lemma reinit_aborted: "ReinitializeUI U s = Some (r, t) \<Longrightarrow> UserAborted t = UserAborted s"
  using plain.ReinitializeUI_still still_aborted by blast

lemma after_init_aborted: "after_init E s = Some t \<Longrightarrow> UserAborted t = UserAborted s"
  by (auto simp: after_init_def bind_Some dest!: wait_aborted boot_init_aborted reinit_aborted)

lemma back_to_menu_aborted: "back_to_menu E s = Some t \<Longrightarrow> UserAborted t = UserAborted s"
  by (auto simp: back_to_menu_def bind_Some dest!: display_aborted IopInitStart_aborted after_init_aborted)

lemma logging_aborted: "IsLoggingEnabled E s = (r, t) \<Longrightarrow> UserAborted t = UserAborted s"
  by (auto simp: IsLoggingEnabled_def dest!: boot_id_aborted split: prod.splits)

lemma mount_log_aborted: "mount_log_retry E nm s = Some t \<Longrightarrow> UserAborted t = UserAborted s"
  by (rule mount_log_retry.raw_induct [where P = "\<lambda>E nm s t. UserAborted t = UserAborted s", rotated], assumption)
    (auto simp: Let_def dest!: wcall_aborted split: prod.splits if_splits)

lemma log_aborted: "IopStartLog E nm s = Some t \<Longrightarrow> UserAborted t = UserAborted s"
  by (auto simp: IopStartLog_def Let_def dest!: logging_aborted mount_log_aborted split: prod.splits if_splits)

lemma stop_log_aborted [simp]: "UserAborted (IopStopLog E s) = UserAborted s"
  by (auto simp: IopStopLog_def Let_def dest!: logging_aborted split: prod.splits)

lemma HdckDisk_aborted: "HdckDisk E u s = Some (r, t) \<Longrightarrow> UserAborted t = UserAborted s"
  by (auto simp: HdckDisk_def bind_Some devctl_def Let_def case_prod_unfold dest!: display_aborted IopInitStart_aborted after_init_aborted log_aborted)

subsection \<open>The loops of the operations\<close>

lemma prompt_aborted: "DisplayPromptMessage U msg a b s = Some (r, t) \<Longrightarrow> UserAborted t = UserAborted s"
  using plain.display_still(5) still_aborted by blast

lemma pad_aborted [simp]: "UserAborted (snd (ReadCombinedPadStatus U s)) = UserAborted s"
  using plain.ReadCombined_still(1) still_aborted by (metis prod.collapse)

lemma ask_aborted: "ask_abort E msg s = Some (r, t) \<Longrightarrow> UserAborted t = UserAborted s"
  by (auto simp: ask_abort_def case_prod_unfold Let_def dest!: prompt_aborted split: if_splits)

lemma tick_aborted [simp]: "UserAborted (snd (tick E tp s)) = UserAborted s" "UserAborted (snd (devctl E dev c s)) = UserAborted s"
  by (simp_all add: tick_def devctl_def case_prod_unfold Let_def)

lemma progress_aborted [simp]: "UserAborted (InitProgressScreen l s) = UserAborted s"
  using plain.progress_still(1) still_aborted by blast

lemma count_entries_aborted:
  assumes "count_entries E bfd n s = Some (k, t)"
  shows "UserAborted t = UserAborted s"
proof -
  have "UserAborted (snd y) = UserAborted s" if "count_entries E bfd n s = Some y" for E :: "'a sys_env" and bfd n y and s :: "('a, 'b) sys_state_scheme"
    by (rule count_entries.raw_induct [where P = "\<lambda>E bfd n s y. UserAborted (snd y) = UserAborted s", OF _ that])
      (auto simp: case_prod_unfold Let_def split: if_splits)
  then show ?thesis using assms by fastforce
qed

lemma count_aborted: "count_partitions E dev s = Some (k, t) \<Longrightarrow> UserAborted t = UserAborted s"
  by (auto simp: count_partitions_def case_prod_unfold Let_def bind_Some dest!: count_entries_aborted split: if_splits)

text \<open>The screens that a checker shows keep the flag.\<close>

definition keeps_flag :: "('a \<Rightarrow> 'b \<Rightarrow> ('w, 'z) sys_state_scheme \<Rightarrow> ('w, 'z) sys_state_scheme option) \<Rightarrow> bool" where
  "keeps_flag draw \<longleftrightarrow> (\<forall>p q s t. draw p q s = Some t \<longrightarrow> UserAborted t = UserAborted s)"

lemma keeps_flagD: "draw p q s = Some t \<Longrightarrow> keeps_flag draw \<Longrightarrow> UserAborted t = UserAborted s"
  by (simp add: keeps_flag_def)

lemma screens_keep_flag:
  "keeps_flag (DrawDiskScanningScreen U)" "keeps_flag (\<lambda>p. DrawDiskOptimizationScreen U p (f p))"
  by (auto simp: keeps_flag_def dest: display_aborted)

lemma poll_aborted:
  assumes "poll_partition E draw msg fd i parts tp s = Some t" "keeps_flag draw" "UserAborted s"
  shows "UserAborted t"
proof -
  let ?P = "\<lambda>E draw msg fd i parts tp s t. keeps_flag draw \<longrightarrow> UserAborted s \<longrightarrow> UserAborted t"
  have "?P E draw msg fd i parts tp s t" if "poll_partition E draw msg fd i parts tp s = Some t"
  proof (rule poll_partition.raw_induct [where P = ?P, OF _ that])
    fix f and E :: "'a sys_env" and draw msg fd i parts tp and s t :: "('a, 'b) sys_state_scheme"
    assume ih: "\<And>E draw msg fd i parts tp s t. f E draw msg fd i parts tp s = Some t \<Longrightarrow> ?P E draw msg fd i parts tp s t"
      and h: "(let (busy, s1) = wcall (fileXioIoctl2 E fd CMD_POLL) s in
        if busy \<noteq> 1 then Some s1
        else (let (tp1, s2) = tick E tp s1 in do {
          s3 \<leftarrow> draw (percent_of i parts) (eta_of i (parts - i) (fst tp1)) s2;
          (abort, s4) \<leftarrow> ask_abort E msg s3;
          if abort then Some ((snd (wcall (fileXioIoctl2 E fd CMD_STOP) s4))\<lparr>UserAborted := True\<rparr>)
          else f E draw msg fd i parts tp1 s4
        })) = Some t"
    show "?P E draw msg fd i parts tp s t"
    proof (intro impI)
      assume k: "keeps_flag draw" and a: "UserAborted s"
      obtain busy s1 where w: "wcall (fileXioIoctl2 E fd CMD_POLL) s = (busy, s1)" by (metis prod.collapse)
      obtain tp1 s2 where w2: "tick E tp s1 = (tp1, s2)" by (metis prod.collapse)
      have a2: "UserAborted s1" "UserAborted s2" using wcall_aborted [OF w] tick_aborted(1) [of E tp s1] a w2 by simp_all
      show "UserAborted t"
      proof (cases "busy = 1")
        case True
        then obtain s3 abort s4 where d: "draw (percent_of i parts) (eta_of i (parts - i) (fst tp1)) s2 = Some s3"
          "ask_abort E msg s3 = Some (abort, s4)"
          "(if abort then Some ((snd (wcall (fileXioIoctl2 E fd CMD_STOP) s4))\<lparr>UserAborted := True\<rparr>)
            else f E draw msg fd i parts tp1 s4) = Some t"
          using h w w2 by (auto simp: bind_Some)
        have "UserAborted s4" using ask_aborted [OF d(2)] keeps_flagD [OF d(1) k] a2 by simp
        then show ?thesis using d(3) ih k by (auto split: if_splits)
      qed (use h w a2 in auto)
    qed
  qed
  then show ?thesis using assms by blast
qed

lemma fssk_one_aborted: "fssk_one E u nm i parts s = Some (r, t) \<Longrightarrow> UserAborted s \<Longrightarrow> UserAborted t"
  by (auto simp: fssk_one_def case_prod_unfold Let_def bind_Some dest!: poll_aborted [OF _ screens_keep_flag(2)] split: if_splits)

lemma each_partition_aborted:
  assumes "each_partition E one bfd i result s = Some (r, t)" "UserAborted s"
    and "\<And>nm i s r t. one nm i s = Some (r, t) \<Longrightarrow> UserAborted s \<Longrightarrow> UserAborted t"
  shows "UserAborted t"
proof -
  let ?K = "\<lambda>one. \<forall>nm i s r t. one nm i s = Some (r, t) \<longrightarrow> UserAborted s \<longrightarrow> UserAborted t"
  let ?P = "\<lambda>E one bfd i result s y. ?K one \<longrightarrow> UserAborted s \<longrightarrow> UserAborted (snd y)"
  have "?P E one bfd i result s y" if "each_partition E one bfd i result s = Some y" for y
  proof (rule each_partition.raw_induct [where P = ?P, OF _ that])
    fix f and E :: "'a sys_env" and one bfd i result and s :: "('a, 'b) sys_state_scheme" and y
    assume ih: "\<And>E one bfd i result s y. f E one bfd i result s = Some y \<Longrightarrow> ?P E one bfd i result s y"
      and h: "(let ((r, d), s1) = wcall (fileXioDread E bfd) s in
        if r \<le> 0 then Some (result, s1)
        else if is_main_pfs d
        then do {
          ((stop, result1), s2) \<leftarrow> one (de_name d) i s1;
          if stop then Some (result1, s2) else f E one bfd (i + 1) result1 s2
        }
        else f E one bfd (i + 1) result s1) = Some y"
    show "?P E one bfd i result s y"
    proof (intro impI)
      assume k: "?K one" and a: "UserAborted s"
      obtain r d s1 where w: "wcall (fileXioDread E bfd) s = ((r, d), s1)" by (metis prod.collapse)
      have a1: "UserAborted s1" using wcall_aborted [OF w] a by simp
      consider "r \<le> 0" | "0 < r" "\<not> is_main_pfs d" | "0 < r" "is_main_pfs d" by linarith
      then show "UserAborted (snd y)"
      proof cases
        case 3
        then obtain stop r1 s2 where o: "one (de_name d) i s1 = Some ((stop, r1), s2)"
          "(if stop then Some (r1, s2) else f E one bfd (i + 1) r1 s2) = Some y"
          using h w by (auto simp: bind_Some)
        have "UserAborted s2" using k o(1) a1 by blast
        then show ?thesis using o(2) ih k by (auto split: if_splits)
      qed (use h w a1 k ih in auto)
    qed
  qed
  then show ?thesis using assms by fastforce
qed

lemma FsskDisk_aborted:
  assumes "FsskDisk E u s = Some (r, t)" "UserAborted s"
  shows "UserAborted t"
  using assms
  by (auto simp: FsskDisk_def bind_Some case_prod_unfold Let_def dest!: IopInitStart_aborted after_init_aborted count_aborted log_aborted
      each_partition_aborted [OF _ _ fssk_one_aborted] wcall_aborted split: if_splits)

subsection \<open>After an abort\<close>

text \<open>
  C37. Once an operation was aborted, every later scan checks only the partition list: it never runs the check of
  the file systems, shows no results when the list is good, and returns 0 as if all were well; every
  later optimisation stops after its first half in the same way.
\<close>

theorem aborted_scan_stops:
  assumes "UserAborted s"
  shows "ScanDisk E u s = do {
       s1 \<leftarrow> DisplayFlashStatusUpdate (ui E) SYS_UI_MSG_PLEASE_WAIT (wdo (WaitSema E InstallLockSema) s);
       (r, s2) \<leftarrow> HdckDisk E u (s1\<lparr>ErrorsFound := 0, ErrorsFixed := 0\<rparr>);
       s3 \<leftarrow> (if r = 0 then Some s2 else DisplayErrorMessage (ui E) SYS_UI_MSG_HDD_FAULT s2);
       s4 \<leftarrow> back_to_menu E s3;
       Some (r, s4)
     } \<and>
     OptimizeDisk E u s = do {
       s1 \<leftarrow> DisplayFlashStatusUpdate (ui E) SYS_UI_MSG_PLEASE_WAIT (wdo (WaitSema E InstallLockSema) s);
       (r, s2) \<leftarrow> FsskDisk E u s1;
       s3 \<leftarrow> (if r = 0 then Some s2 else DisplayErrorMessage (ui E) SYS_UI_MSG_HDD_FAULT s2);
       s4 \<leftarrow> back_to_menu E s3;
       Some (r, s4)
     }"
proof (rule conjI)
  let ?d = "DisplayFlashStatusUpdate (ui E) SYS_UI_MSG_PLEASE_WAIT (wdo (WaitSema E InstallLockSema) s)"
  have a1: "UserAborted s1" if "?d = Some s1" for s1 using display_aborted(4) [OF that] assms by simp
  have a2: "UserAborted s2" if "?d = Some s1" "HdckDisk E u (s1\<lparr>ErrorsFound := 0, ErrorsFixed := 0\<rparr>) = Some (r, s2)" for r s1 s2
    using HdckDisk_aborted [OF that(2)] a1 [OF that(1)] by simp
  have a3: "UserAborted s2" if "?d = Some s1" "FsskDisk E u s1 = Some (r, s2)" for r s1 s2
    by (rule FsskDisk_aborted [OF that(2) a1 [OF that(1)]])
  show "ScanDisk E u s = do {
       s1 \<leftarrow> ?d;
       (r, s2) \<leftarrow> HdckDisk E u (s1\<lparr>ErrorsFound := 0, ErrorsFixed := 0\<rparr>);
       s3 \<leftarrow> (if r = 0 then Some s2 else DisplayErrorMessage (ui E) SYS_UI_MSG_HDD_FAULT s2);
       s4 \<leftarrow> back_to_menu E s3;
       Some (r, s4)
     }"
    unfolding ScanDisk_def by (intro Option.bind_cong refl) (auto dest: a2)
  show "OptimizeDisk E u s = do {
       s1 \<leftarrow> ?d;
       (r, s2) \<leftarrow> FsskDisk E u s1;
       s3 \<leftarrow> (if r = 0 then Some s2 else DisplayErrorMessage (ui E) SYS_UI_MSG_HDD_FAULT s2);
       s4 \<leftarrow> back_to_menu E s3;
       Some (r, s4)
     }"
    unfolding OptimizeDisk_def by (intro Option.bind_cong refl) (auto dest: a3)
qed

text \<open>Every call of the modules succeeds at once; no file or directory can be opened.\<close>

definition demo_ata :: ata_devinfo_ps2 where
  "demo_ata = \<lparr>ad_exists = 0, ad_has_packet = 0, ad_total_sectors = 0, ad_security_status = 0\<rparr>"

definition demo_sys_env :: "unit sys_env" where
  "demo_sys_env = \<lparr>ui = demo_ui_env, FSCK_BUILD = False, LOG_MESSAGES = False, getcwd = (\<lambda>_. ''mass:''), ee_chdir = (\<lambda>_ w. (0, w)),
     fileXioMount = (\<lambda>_ _ _ w. (0, w)), fileXioUmount = (\<lambda>_ w. w), fileXioRemove = (\<lambda>_ w. w), fileXioSetBlockMode = (\<lambda>_ w. w),
     fileXioDevctl = (\<lambda>_ _ w. (0, w)), devctl_detect = (\<lambda>_ w. ((- 1, demo_ata), w)), devctl_identify = (\<lambda>_ w. ((- 1, replicate 256 0), w)),
     devctl_hdd_stat = (\<lambda>_ w. ((0, 0, 0), w)), devctl_part_name = (\<lambda>w. ((0, []), w)), fileXioDopen = (\<lambda>_ w. (- 19, w)),
     fileXioDread = (\<lambda>_ w. ((0, \<lparr>de_name = [], de_attr = 0, de_mode = 0\<rparr>), w)), fileXioDclose = (\<lambda>_ w. w), fileXioOpen = (\<lambda>_ _ w. (- 19, w)),
     fileXioClose = (\<lambda>_ w. w), fileXioIoctl2 = (\<lambda>_ _ w. (0, w)), ioctl2_fsck_status = (\<lambda>_ w. ((0, \<lparr>st_errors = 0, st_fixed = 0\<rparr>), w)),
     ioctl2_fssk_status = (\<lambda>_ w. ((0, 0), w)), hddFormat = (\<lambda>w. (0, w)), cpu_ticks = (\<lambda>w. (0, w)), sif = (\<lambda>_ w. (1, w)),
     SifExecModuleBuffer = (\<lambda>_ _ _ w. ((1, 0), w)), WaitSema = (\<lambda>_ w. w), SignalSema = (\<lambda>_ w. w), PollSema = (\<lambda>_ w. (True, w)),
     CreateThread = (\<lambda>_ _ w. (1, w)), StartThread = (\<lambda>_ w. (0, w)), DeleteThread = (\<lambda>_ w. w), sleep_alarm = (\<lambda>_ w. w),
     ATA_ID_COMMAND_SETS_SUPPORTED = 83, ATA_ID_SECTOTAL_LO = 60, ATA_ID_SECTOTAL_HI = 61, ATA_ID_48BIT_SECTOTAL_LO = 100,
     ATA_ID_48BIT_SECTOTAL_MI = 101, ATA_ID_48BIT_SECTOTAL_HI = 102\<rparr>"

definition aborted_sys :: "unit sys_state" where
  "aborted_sys = ui_state.extend demo_ui (sys_state.fields 2 ''mass'' True 0 0
     (\<lambda>_. \<lparr>IdentificationData = replicate 256 0, PS2AtadData = demo_ata, SMARTStatus = 0, NumSectors = 0, ad_model = [], ad_serial = [], ad_FWVersion = []\<rparr>)
     True None)"

lemma aborted_sys_flag: "UserAborted aborted_sys"
  by (simp add: aborted_sys_def demo_ui_def ui_state.defs sys_state.defs)

theorem aborted_scan_stops_witness:
  "ScanDisk demo_sys_env 0 aborted_sys = do {
       s1 \<leftarrow> DisplayFlashStatusUpdate (ui demo_sys_env) SYS_UI_MSG_PLEASE_WAIT (wdo (WaitSema demo_sys_env InstallLockSema) aborted_sys);
       (r, s2) \<leftarrow> HdckDisk demo_sys_env 0 (s1\<lparr>ErrorsFound := 0, ErrorsFixed := 0\<rparr>);
       s3 \<leftarrow> (if r = 0 then Some s2 else DisplayErrorMessage (ui demo_sys_env) SYS_UI_MSG_HDD_FAULT s2);
       s4 \<leftarrow> back_to_menu demo_sys_env s3;
       Some (r, s4)
     } \<and>
     OptimizeDisk demo_sys_env 0 aborted_sys = do {
       s1 \<leftarrow> DisplayFlashStatusUpdate (ui demo_sys_env) SYS_UI_MSG_PLEASE_WAIT (wdo (WaitSema demo_sys_env InstallLockSema) aborted_sys);
       (r, s2) \<leftarrow> FsskDisk demo_sys_env 0 s1;
       s3 \<leftarrow> (if r = 0 then Some s2 else DisplayErrorMessage (ui demo_sys_env) SYS_UI_MSG_HDD_FAULT s2);
       s4 \<leftarrow> back_to_menu demo_sys_env s3;
       Some (r, s4)
     }"
  by (rule aborted_scan_stops [OF aborted_sys_flag])

end
