(* ===== verification/EeBox.thy ===== *)
theory EeBox
  imports EeAnswers
begin

text \<open>
  The box about a bad sector. The message box is one table of items that every box of the
  launcher fills again; what all of them keep is its shape, and from it follow the buttons that
  the box about a bad sector shows and the action that each of them leads to.
\<close>

subsection \<open>The shape of the message box\<close>

text \<open>Type, identity and flags of an item, but for whether it is hidden.\<close>

definition box_key :: "UIMenuItem \<Rightarrow> menu_item \<times> u8 \<times> u8" where
  "box_key i = (it_type i, it_id i, it_flags i AND NOT MITEM_FLAG_HIDDEN)"

definition box_shape :: "('w, 'z) ui_state_scheme \<Rightarrow> bool" where
  "box_shape s \<longleftrightarrow> map box_key (menu_items (menus s MessageBoxMenu)) = map box_key MessageBoxItems \<and> alone s MessageBoxMenu"

lemma put_item_keys: "(\<And>i. box_key (f i) = box_key i) \<Longrightarrow> map box_key (put_item k f is) = map box_key is"
  by (induction "is") auto

lemma key_changes [simp]:
  "box_key (flag_on MITEM_FLAG_HIDDEN b i) = box_key i" "box_key (i\<lparr>it_w0 := w\<rparr>) = box_key i"
  by (simp_all add: box_key_def flag_on_def and.assoc bit.conj_disj_distrib2)

lemma upd_item_shape: "(\<And>i. box_key (f i) = box_key i) \<Longrightarrow> box_shape (upd_item m k f s) = box_shape s"
  by (simp add: box_shape_def alone_def upd_item_put put_item_keys)

lemma fill_box_shape [simp]: "box_shape (fill_box o1 o2 o3 o4 message title s) = box_shape s"
  by (simp add: fill_box_def set_button_def setters upd_item_shape)

lemma hint_shape [simp]: "box_shape (set_hint m k b s) = box_shape s"
  by (simp add: box_shape_def alone_def set_hint_def Let_def)

lemma same_shape:
  assumes "same_menus s t" "box_shape s"
  shows "box_shape t"
proof -
  have "map item_key (menu_items (menus t MessageBoxMenu)) = map item_key (menu_items (menus s MessageBoxMenu))"
    using assms(1) by (simp add: same_menus_def skeleton_def)
  then have "map ((\<lambda>(a, b, c). (a, b, c AND NOT MITEM_FLAG_HIDDEN)) \<circ> item_key) (menu_items (menus t MessageBoxMenu)) =
      map ((\<lambda>(a, b, c). (a, b, c AND NOT MITEM_FLAG_HIDDEN)) \<circ> item_key) (menu_items (menus s MessageBoxMenu))"
    by (metis map_map)
  moreover have "(\<lambda>(a, b, c). (a, b, c AND NOT MITEM_FLAG_HIDDEN)) \<circ> item_key = box_key"
    by (simp add: fun_eq_iff item_key_def box_key_def)
  ultimately show ?thesis using assms(2) alone_same [OF assms(1)] by (simp add: box_shape_def)
qed

lemma shape_live:
  assumes "box_shape s"
  shows "live (menus s MessageBoxMenu) \<noteq> []"
proof -
  obtain i l where "menu_items (menus s MessageBoxMenu) = i # l" "it_type i = MITEM_LABEL"
    using assms by (auto simp: box_shape_def box_items Let_def map_eq_Cons_conv box_key_def)
  then show ?thesis by (simp add: live_def)
qed

text \<open>A box changes no other menu.\<close>

lemma fill_box_other: "m \<noteq> MessageBoxMenu \<Longrightarrow> menus (fill_box o1 o2 o3 o4 message title s) m = menus s m"
  by (simp add: fill_box_def set_button_def setters upd_item_put)

lemma fill_box_ready: "box_shape s \<Longrightarrow> no_empty s \<Longrightarrow> no_empty (fill_box o1 o2 o3 o4 message title s)"
  using shape_live [of "fill_box o1 o2 o3 o4 message title s"] by (metis fill_box_other fill_box_shape no_empty_def)

lemma hint_ready [simp]: "no_empty (set_hint m k b s) = no_empty s"
  by (auto simp: no_empty_def set_hint_def live_def Let_def)

text \<open>So every message box leaves the shape to the next.\<close>

lemma message_box_shape:
  assumes "ShowMessageBox E o1 o2 o3 o4 message title s = Some (r, t)" "box_shape s" "no_empty s"
  shows "box_shape t \<and> no_empty t"
proof -
  let ?s = "fill_box o1 o2 o3 o4 message title s"
  have f: "box_shape ?s" "no_empty ?s" using assms(2,3) fill_box_ready by simp_all
  have via: "box_shape t \<and> no_empty t" if "same_menus (set_hint MessageBoxMenu 1 b (set_hint MessageBoxMenu 0 a ?s)) t" for a b t
    using same_shape [OF that] no_empty_same [OF that] f by simp
  have screen: "same_menus s4 (on_screen E c s4)" for s4 c by (simp add: same_menus_def on_screen_def wdo_def)
  show ?thesis
  proof (cases "0 < length (filter (\<lambda>k. k \<noteq> - 1) [o1, o2, o3, o4])")
    case True
    then obtain a b q m where "UIExecMenu E MessageBoxMenu 0 None (set_hint MessageBoxMenu 1 b (set_hint MessageBoxMenu 0 a ?s)) = Some ((q, m), t)"
      using assms(1) by (auto simp: ShowMessageBox_def Let_def bind_Some simp del: filter.simps)
    then show ?thesis using UIExecMenu_ok [of E MessageBoxMenu 0 None] via f(2) by (metis hint_ready keeps_None)
  next
    case False
    then obtain s3 where u: "UIDrawMenu E MessageBoxMenu 0 UI_OFFSET_X UI_OFFSET_Y (- 1)
        (set_hint MessageBoxMenu 1 (- 1) (set_hint MessageBoxMenu 0 (- 1) ?s)) = Some s3" "t = on_screen E SyncFlipFB s3"
      using assms(1) by (auto simp: ShowMessageBox_def Let_def bind_Some simp del: filter.simps)
    show ?thesis unfolding u(2) by (rule via [OF same_menus_trans [OF look_same [OF plain.UIDrawMenu_look [OF u(1)]] screen]])
  qed
qed

subsection \<open>Its four buttons\<close>

lemma four_buttons:
  assumes "map box_key is = map box_key MessageBoxItems"
  obtains a b c d where "filter (\<lambda>i. it_type i = MITEM_BUTTON) (takeWhile (\<lambda>i. it_type i \<noteq> MITEM_TERMINATOR) is) = [a, b, c, d]"
    "get_item 3 is = Some a" "get_item 5 is = Some b" "get_item 4 is = Some c" "get_item 6 is = Some d"
    "it_id a = 3" "it_id b = 5" "it_id c = 4" "it_id d = 6"
  using assms by (auto simp: box_items Let_def map_eq_Cons_conv box_key_def)

lemma fill_box_buttons:
  assumes "box_shape s" "o1 \<noteq> - 1" "o2 \<noteq> - 1" "o3 \<noteq> - 1" "o4 \<noteq> - 1"
  shows "box_buttons (fill_box o1 o2 o3 o4 message title s) =
     [(LangLblStringTable s ! unat o1, 3), (LangLblStringTable s ! unat o3, 5), (LangLblStringTable s ! unat o2, 4),
      (LangLblStringTable s ! unat o4, 6)]"
proof -
  let ?t = "fill_box o1 o2 o3 o4 message title s"
  let ?is = "menu_items (menus s MessageBoxMenu)" and ?js = "menu_items (menus ?t MessageBoxMenu)"
  have old: "map box_key ?is = map box_key MessageBoxItems" using assms(1) by (simp add: box_shape_def)
  have new: "map box_key ?js = map box_key MessageBoxItems" using assms(1) fill_box_shape [of o1 o2 o3 o4 message title s] by (simp add: box_shape_def)
  have keep: "it_id (flag_on f x i) = it_id i" "it_type (flag_on f x i) = it_type i" "it_w0 (flag_on f x i) = it_w0 i" for f x i
    by (simp_all add: flag_on_def)
  have get: "get_item k ?js = map_option (\<lambda>i. flag_on MITEM_FLAG_HIDDEN False (i\<lparr>it_w0 := Num v\<rparr>)) (get_item k ?is)"
    if "(k, v) \<in> {(3, o1), (5, o3), (4, o2), (6, o4)}" for k v
    using that assms(2-5)
    by (auto simp: fill_box_def set_button_def setters upd_item_put mbox_ids get_put_item keep option.map_comp comp_def)
  have hid: "\<not> has (flag_on MITEM_FLAG_HIDDEN False i) MITEM_FLAG_HIDDEN" for i
    by (simp add: has_def flag_on_def and.assoc)
  have lab: "LangLblStringTable ?t = LangLblStringTable s" by (simp add: fill_box_def set_button_def setters upd_item_put)
  obtain a b c d where o: "get_item 3 ?is = Some a" "get_item 5 ?is = Some b" "get_item 4 ?is = Some c" "get_item 6 ?is = Some d"
    using four_buttons [OF old] by metis
  obtain a' b' c' d' where n: "filter (\<lambda>i. it_type i = MITEM_BUTTON) (takeWhile (\<lambda>i. it_type i \<noteq> MITEM_TERMINATOR) ?js) = [a', b', c', d']"
    "get_item 3 ?js = Some a'" "get_item 5 ?js = Some b'" "get_item 4 ?js = Some c'" "get_item 6 ?js = Some d'"
    "it_id a' = 3" "it_id b' = 5" "it_id c' = 4" "it_id d' = 6" by (rule four_buttons [OF new])
  have v: "a' = flag_on MITEM_FLAG_HIDDEN False (a\<lparr>it_w0 := Num o1\<rparr>)" "b' = flag_on MITEM_FLAG_HIDDEN False (b\<lparr>it_w0 := Num o3\<rparr>)"
    "c' = flag_on MITEM_FLAG_HIDDEN False (c\<lparr>it_w0 := Num o2\<rparr>)" "d' = flag_on MITEM_FLAG_HIDDEN False (d\<lparr>it_w0 := Num o4\<rparr>)"
    using n(2-5) o get [of 3 o1] get [of 5 o3] get [of 4 o2] get [of 6 o4] by simp_all
  have "filter (\<lambda>i. it_type i = MITEM_BUTTON \<and> \<not> has i MITEM_FLAG_HIDDEN) (live (menus ?t MessageBoxMenu)) =
      filter (\<lambda>i. \<not> has i MITEM_FLAG_HIDDEN) [a', b', c', d']"
    unfolding n(1) [symmetric] live_def filter_filter by (rule filter_cong) auto
  also have "\<dots> = [a', b', c', d']" using v hid by simp
  finally show ?thesis unfolding box_buttons_def using n(6-9) v lab by (simp add: keep)
qed

subsection \<open>The answers\<close>

lemma GetUIString_labels: "GetUIString E k s = Some (p, t) \<Longrightarrow> LangLblStringTable t = LangLblStringTable s"
  using plain.break_loop_rest [THEN plain.rest_look, THEN plain.look_fields(3)]
  by (auto simp: GetUIString_def BreakLongLanguageString_def bind_Some split: if_splits)

lemma hint_buttons [simp]: "box_buttons (set_hint m k b s) = box_buttons s"
  by (auto simp: box_buttons_def set_hint_def live_def Let_def split: item_word.splits)

lemma button_answer:
  assumes "answer_of s MessageBoxMenu r"
  shows "r = 1 \<or> (\<exists>b \<in> set (box_buttons s). r = uint (snd b))"
  using assms by (auto simp: answer_of_def box_buttons_def selectable_def)

text \<open>
  C38. In the box about a bad sector the texts of the buttons do not say what they do. Whenever the box comes
  up (whatever boxes were shown before, as they all keep its shape) with the built-in texts, its buttons read
  "Remap", "Remap all", "Skip" and "Skip all" from top to bottom. The first two do that. But selecting "Skip"
  (item 4) makes the scan skip every bad sector to come, and "Skip all" (item 6) skips only this one; the cancel
  button (1) remaps. The box leaves its table in a shape in which the next one comes up in the same manner.
\<close>

theorem skip_answers_swapped:
  assumes "box_shape s" "no_empty s" "LangLblStringTable s = map Some DefaultLanguageLabelStringTable"
    and "GetBadSectorAction E lba s = Some (a, t)"
  shows "\<exists>s1 r. box_buttons s1 = [(Some ''Remap'', 3), (Some ''Remap all'', 5), (Some ''Skip'', 4), (Some ''Skip all'', 6)] \<and>
     UIExecMenu E MessageBoxMenu 0 None s1 = Some ((r, MessageBoxMenu), t) \<and>
     (r, a) \<in> set [(1, BAD_SECTOR_HANDLING_MODE_REMAP), (3, BAD_SECTOR_HANDLING_MODE_REMAP), (5, BAD_SECTOR_HANDLING_MODE_REMAP_ALL),
        (4, BAD_SECTOR_HANDLING_MODE_SKIP_ALL), (6, BAD_SECTOR_HANDLING_MODE_SKIP)] \<and>
     box_shape t \<and> no_empty t"
proof -
  obtain p u where g: "GetUIString E (msg_id SYS_UI_MSG_BAD_SECTOR_FOUND) s = Some (Some p, u)"
    using assms(4) by (auto simp: GetBadSectorAction_def bind_Some)
  let ?o = "[lbl SYS_UI_LBL_REMAP, lbl SYS_UI_LBL_REMAP_ALL, lbl SYS_UI_LBL_SKIP, lbl SYS_UI_LBL_SKIP_ALL]"
  have o: "\<forall>k \<in> set ?o. k \<noteq> - 1" by (simp add: lbl_def)
  let ?f = "fill_box (lbl SYS_UI_LBL_REMAP) (lbl SYS_UI_LBL_REMAP_ALL) (lbl SYS_UI_LBL_SKIP) (lbl SYS_UI_LBL_SKIP_ALL)
    (Some (take 191 (sprint E p lba))) (lbl SYS_UI_LBL_CONFIRM) u"
  define s1 where "s1 = set_hint MessageBoxMenu 1 BUTTON_TYPE_SYS_CANCEL (set_hint MessageBoxMenu 0 BUTTON_TYPE_SYS_SELECT ?f)"
  obtain r m where x: "UIExecMenu E MessageBoxMenu 0 None s1 = Some ((r, m), t)" "a = action_of_answer (button_number r)"
    using assms(4) g o by (auto simp: GetBadSectorAction_def ShowMessageBox_def bind_Some Let_def s1_def)
  have u: "menus u = menus s" "LangLblStringTable u = map Some DefaultLanguageLabelStringTable"
    using plain.GetUIString_menus [OF g] GetUIString_labels [OF g] assms(3) by simp_all
  have shape: "box_shape u" "no_empty u" using assms(1,2) by (simp_all add: box_shape_def alone_def no_empty_def u(1))
  then have s1: "box_shape s1" "no_empty s1" using fill_box_ready by (simp_all add: s1_def)
  have b: "box_buttons s1 = [(Some ''Remap'', 3), (Some ''Remap all'', 5), (Some ''Skip'', 4), (Some ''Skip all'', 6)]"
    using fill_box_buttons [OF shape(1)] o by (simp add: s1_def u(2)) (simp add: lbl_def DefaultLanguageLabelStringTable_def)
  from UIExecMenu_ok [OF x(1) keeps_None s1(2)] have q: "same_menus s1 t" "answer_of s1 m r" "m = MessageBoxMenu"
    using s1(1) by (auto simp: box_shape_def)
  have "r \<in> {1, 3, 5, 4, 6}" using button_answer [of s1 r] q(2,3) by (auto simp: b)
  then have "(r, a) \<in> set [(1, BAD_SECTOR_HANDLING_MODE_REMAP), (3, BAD_SECTOR_HANDLING_MODE_REMAP), (5, BAD_SECTOR_HANDLING_MODE_REMAP_ALL),
        (4, BAD_SECTOR_HANDLING_MODE_SKIP_ALL), (6, BAD_SECTOR_HANDLING_MODE_SKIP)]"
    by (auto simp: x(2) action_of_answer_def button_number_def mbox_ids)
  moreover have "box_shape t" "no_empty t" using same_shape [OF q(1) s1(1)] no_empty_same [OF q(1)] s1(2) by simp_all
  ultimately show ?thesis using b x(1) q(3) by blast
qed

text \<open>The shape at the start, and after a box with two buttons, which hides the other two.\<close>

lemma demo_shape: "box_shape demo_ui" "no_empty demo_ui"
  using demo_menus_live by (simp_all add: box_shape_def alone_def no_empty_def demo_ui_def static_menus_def Let_def)

definition after_prompt :: "unit ui_state" where
  "after_prompt = fill_box (lbl SYS_UI_LBL_OK) (lbl SYS_UI_LBL_CANCEL) (- 1) (- 1) None (lbl SYS_UI_LBL_CONFIRM) demo_ui"

theorem skip_answers_swapped_witness:
  "menus after_prompt MessageBoxMenu \<noteq> static_menus MessageBoxMenu \<and>
   (\<exists>t s1 r. GetBadSectorAction cancel_env 5 after_prompt = Some (BAD_SECTOR_HANDLING_MODE_REMAP, t) \<and>
     box_buttons s1 = [(Some ''Remap'', 3), (Some ''Remap all'', 5), (Some ''Skip'', 4), (Some ''Skip all'', 6)] \<and>
     UIExecMenu cancel_env MessageBoxMenu 0 None s1 = Some ((r, MessageBoxMenu), t))"
proof -
  have ready: "box_shape after_prompt" "no_empty after_prompt" using demo_shape fill_box_ready by (simp_all add: after_prompt_def)
  have f: "LangLblStringTable (fill_box o1 o2 o3 o4 p l s) = LangLblStringTable s" "SelectButton (fill_box o1 o2 o3 o4 p l s) = SelectButton s"
    "CancelButton (fill_box o1 o2 o3 o4 p l s) = CancelButton s" "old_pad (fill_box o1 o2 o3 o4 p l s) = old_pad s"
    "LangStringTable (fill_box o1 o2 o3 o4 p l s) = LangStringTable s" "LangStringWrapTable (fill_box o1 o2 o3 o4 p l s) = LangStringWrapTable s"
    for o1 o2 o3 o4 p l and s :: "unit ui_state" by (simp_all add: fill_box_def set_button_def setters upd_item_put)
  have h: "SelectButton (set_hint m k b s) = SelectButton s" "CancelButton (set_hint m k b s) = CancelButton s" "old_pad (set_hint m k b s) = old_pad s"
    for m k b and s :: "unit ui_state" by (simp_all add: set_hint_def Let_def)
  have lab: "LangLblStringTable after_prompt = map Some DefaultLanguageLabelStringTable" by (simp add: after_prompt_def f demo_ui_def)
  have keys: "SelectButton after_prompt = 0x4000" "CancelButton after_prompt = 0x2000" "old_pad after_prompt = (\<lambda>_. 0)"
    by (simp_all add: after_prompt_def f demo_ui_def)
  have "\<exists>p. GetUIString cancel_env (msg_id SYS_UI_MSG_BAD_SECTOR_FOUND) after_prompt = Some (Some p, after_prompt)"
    by (simp add: GetUIString_def after_prompt_def f demo_ui_def DefaultLanguageStringTable_def)
  then obtain p where p: "GetUIString cancel_env (msg_id SYS_UI_MSG_BAD_SECTOR_FOUND) after_prompt = Some (Some p, after_prompt)" by blast
  let ?s1 = "set_hint MessageBoxMenu 1 BUTTON_TYPE_SYS_CANCEL (set_hint MessageBoxMenu 0 BUTTON_TYPE_SYS_SELECT
    (fill_box (lbl SYS_UI_LBL_REMAP) (lbl SYS_UI_LBL_REMAP_ALL) (lbl SYS_UI_LBL_SKIP) (lbl SYS_UI_LBL_SKIP_ALL)
      (Some (take 191 (sprint cancel_env p 5))) (lbl SYS_UI_LBL_CONFIRM) after_prompt))"
  obtain t where t: "UIExecMenu cancel_env MessageBoxMenu 0 None ?s1 = Some ((1, MessageBoxMenu), t)"
    using cancel_menu [of ?s1 MessageBoxMenu 0] by (auto simp: f h keys)
  have g: "GetBadSectorAction cancel_env 5 after_prompt = Some (BAD_SECTOR_HANDLING_MODE_REMAP, t)"
    using p t by (simp add: GetBadSectorAction_def ShowMessageBox_def Let_def lbl_def button_number_def mbox_ids action_of_answer_def)
  have "menus after_prompt MessageBoxMenu \<noteq> static_menus MessageBoxMenu"
  proof
    assume "menus after_prompt MessageBoxMenu = static_menus MessageBoxMenu"
    then have "get_item 5 (menu_items (menus after_prompt MessageBoxMenu)) = get_item 5 MessageBoxItems" by (simp add: static_menus_def Let_def)
    then show False
      by (simp add: after_prompt_def fill_box_def set_button_def setters upd_item_put mbox_ids get_put_item flag_on_def demo_ui_def
          static_menus_def Let_def box_items mitem_def MITEM_FLAG_HIDDEN_def)
  qed
  then show ?thesis using skip_answers_swapped [OF ready lab g] g by blast
qed

end
