(* ===== verification/Spec2Isabelle.thy ===== *)
theory Spec2Isabelle
  imports ApaCrash ApaOps Password HdckScan HdskProps ModuleStart HdstProps
    PfsLookup FsckZoneProps FsskProps EeAbort EeBox
begin

text \<open>
  A verification development for HDDChecker, the hard disk maintenance tool of the PlayStation 2.

  \<^bold>\<open>The program.\<close> The IOP modules \<open>hdck\<close> (checks the partition list), \<open>hdsk\<close> (defragments the
  drive) and \<open>hdst\<close> (surface scan) are linked with \<open>common/libapa\<close>, the library for the APA
  partition format: partition headers of 1024 bytes form a circular doubly linked list over
  their \<open>next\<close> and \<open>prev\<close> sector numbers, starting at the MBR in sector 0. All header accesses go
  through a cache of entries (\<open>cacheBuf\<close>); the entries that nobody uses form an LRU ring through
  entry 0. \<open>apaCacheFlushAllDirty\<close> writes the changed headers to a journal in the reserved area
  first, commits it with one sector, writes the headers in place and clears the journal;
  \<open>apaJournalRestore\<close> replays it at the start of a module. The modules are driven through devctl
  calls. Two more modules, \<open>fsck\<close> (checks a file system) and \<open>fssk\<close> (empties sub-partitions so
  that they can be removed), are linked with \<open>common/libpfs\<close>, the library for the PFS file system
  in a partition: zones with a bitmap per sub-partition, inodes whose segments list the zones of
  a file, directories as chunks of entries, a block cache and a metadata journal of the same
  design as the other library's. The launcher on the EE (the top directory) loads the modules,
  shows menus and progress screens, and starts the operations: the check and optimisation of
  the partition list and of every file system, the surface scan with its questions about bad
  sectors, and the erasure of the drive.

  \<^bold>\<open>Model.\<close> Machine integers are words of their width, structures are records with the fields of
  the source. Pointers into \<open>cacheBuf\<close> are indices; a \<open>NULL\<close> result is None. Every operation
  takes the state and returns its new value with the result. An operation whose result type is
  an option is None where the C code is undefined (an access out of the bounds of an array,
  through a \<open>NULL\<close> pointer) or does not return. The drive is an opaque value \<open>world\<close> and a
  record of functions \<open>ata_env\<close>, the calls of \<open>atad\<close> and the clock of \<open>cdvdman\<close>, which are
  not part of the repository. \<open>ata_ok\<close> states what they are documented to do in terms of
  an image of the drive; \<open>sim_env\<close> is one such drive, with bad sectors, a log of its
  operations and the crash semantics of a write cache, and satisfies it (\<open>sim_env_ok\<close>). The PFS
  library reaches its drive through \<open>blk_dev\<close>, with \<open>sim_blk\<close> as one such device; the launcher's
  environment records (\<open>font_env\<close>, \<open>ui_env\<close>, \<open>sys_env\<close>) hold the calls of FreeType, of the drawing
  routines, the pads, the file system and the modules.

  \<^bold>\<open>Theories.\<close>
  \<^item> \<open>Prelude\<close>: word types, error numbers, \<open>overlay\<close> (a transfer into a buffer), \<open>ofold\<close>.
  \<^item> \<open>Ring\<close>: the locale \<open>node_ring\<close>, circular lists through a sentinel over any node store with a
    next and a previous field; linking and unlinking as list operations. It is interpreted on
    the cache entries (\<open>ApaCacheInv\<close>) and on the nodes of the dry run (\<open>HdskSimProps\<close>).
  \<^item> \<open>ApaHeader\<close>, \<open>ApaCache\<close>: \<open>libapa.h\<close>, \<open>cache.c\<close>, \<open>journal.c\<close>, the transfers of \<open>apa.c\<close>, the clock.
    \<open>ApaDisk\<close>: drives. \<open>ApaIo\<close>: layout and transfers of one header.
  \<^item> \<open>ApaCacheInv\<close>: the invariant of the cache over all sequences of its calls (the step relation
    \<open>cache_step\<close>) and the LRU specification that it refines.
  \<^item> \<open>ApaJournal\<close>, \<open>ApaCrash\<close>: what a flush writes, phase by phase, and its atomicity when the
    power fails at any point. \<open>ApaCalm\<close>: a cache that mirrors the disk, kept by the calls of the
    clients, so that their effect is stated on the disk alone.
  \<^item> \<open>ApaOps\<close>: the rest of \<open>apa.c\<close> and \<open>free.c\<close>. \<open>Password\<close>: the DES code of \<open>password.c\<close>.
  \<^item> \<open>Hdck\<close>: \<open>hdck/hdck.c\<close>. \<open>HdckProps\<close>: the link check on a list that can be read, the removal of bad
    partitions. \<open>HdckScan\<close>: the link check on any list, with cycles and headers that are not valid.
  \<^item> \<open>HdskSim\<close>, \<open>HdskSimProps\<close>: \<open>hdsk/sim.c\<close>, the dry run on the array \<open>hdskBitmap\<close>.
    \<open>Hdsk\<close>, \<open>HdskProps\<close>: \<open>hdsk/hdsk.c\<close> and \<open>hdsk/hdl.c\<close>.
  \<^item> \<open>Hdst\<close>, \<open>HdstProps\<close>: \<open>hdst/main.c\<close>. \<open>ModuleStart\<close>: the start of \<open>hdsk\<close>, unlocking, the
    console's ID.
  \<^item> \<open>PfsCache\<close>, \<open>PfsBitmap\<close>: \<open>libpfs.h\<close>, \<open>cache.c\<close>, \<open>journal.c\<close>, \<open>super.c\<close> and \<open>bitmap.c\<close> of \<open>libpfs\<close>.
    \<open>PfsCacheInv\<close>: the invariant of the block cache over all sequences of its calls.
    \<open>PfsView\<close>: the blocks as the cache shows them, whatever is cached; \<open>PfsZones\<close>,
    \<open>PfsZoneProps\<close>: the zones that the bitmaps mark, and what the operations do to them.
  \<^item> \<open>PfsInode\<close> (\<open>block.c\<close>, \<open>blockWrite.c\<close>, \<open>inode.c\<close>), \<open>PfsDir\<close> and \<open>PfsFile\<close> (\<open>dir.c\<close>),
    \<open>PfsSuper\<close> (\<open>superWrite.c\<close>): files, directories, paths, formatting and mounting.
    \<open>PfsDirSector\<close>: a sector of a directory as an association list; \<open>PfsDirProps\<close>: adding and
    removing entries as updates of that list; \<open>PfsLookup\<close>: the lookup in a whole directory.
  \<^item> \<open>FsckBitmap\<close> (\<open>fsck/bitmap.c\<close>), \<open>Fsck\<close>, \<open>FsckFiles\<close>, \<open>FsckMain\<close> (\<open>fsck/fsck.c\<close>): the questions to
    the user and the checks of zones; the walk over inodes and directories; the superblock, the
    comparison of the bitmaps and the driver. \<open>FsckZoneProps\<close>: the bitmap as a set of zones.
    \<open>Fssk\<close>, \<open>FsskMain\<close> (\<open>fssk/fssk.c\<close>): moving files out of sub-partitions; the walk over the
    tree, the thread and the driver. \<open>FsskProps\<close>: copying zones, what is planned to be removed.
  \<^item> \<open>EeFont\<close> (\<open>font.c\<close>), \<open>EeLang\<close> (\<open>lang.c\<close>, the texts of \<open>UI.c\<close>), \<open>EeMenu\<close> (the menus of \<open>UI.c\<close>),
    \<open>EeSystem\<close> (\<open>iop.c\<close>, \<open>hdst.c\<close>, \<open>pad.c\<close>, the services of \<open>system.c\<close>), \<open>EeProgress\<close> (the screens of
    \<open>menu.c\<close>), \<open>EeDisk\<close> (the operations of \<open>system.c\<close>), \<open>EeMain\<close> (the main menu and \<open>main.c\<close>): the
    launcher. \<open>EeFontProps\<close>: the glyphs in the atlas. \<open>EeTables\<close>: units, text files, the items of
    the remaining time. \<open>EeQuiet\<close>: what drawing and reading pads leave alone, as locales over an
    observation of the world. \<open>EeAnswers\<close>: the answers of a menu. \<open>EeAbort\<close>: what follows once the
    user has aborted. \<open>EeBox\<close>: the box about a bad sector.

  \<^bold>\<open>What is shown.\<close> A flush is atomic under power failure and afterwards every header is in
  place; the cache keeps its ring and its keys for ever and is an LRU cache; a header is read
  back as it was written, and any change of a word is detected. The link check repairs all
  backward links of a list that can be read; on a drive without unreadable sectors, whose valid
  headers link among themselves, it ends and names the place where the list is broken, cycles
  included. The password encryption is injective; copying a partition moves its data and nothing
  else; the dry run's blocks always tile the drive where it splits and merges, and it merges
  what its reference merges; the search for free space is the greedy one; erasing clears exactly
  its range and verifying finds the first bad sector. The PFS cache keeps its invariant; the
  allocator of zones finds and takes free zones, gives them back and counts them; directories
  are maps whose lookups, additions and removals are those of lists; \<open>fsck\<close> notices zones that
  are used twice, \<open>fssk\<close> copies zones exactly and plans no more than fits. Glyphs in the atlas
  never overlap; a menu answers only what it offers; texts are read from files line by line; an
  aborted operation starts no further step.

  Some theorems state where the code does not do what it should: \<open>bad_partitions_stay\<close>,
  \<open>journal_capacity\<close>, \<open>sim_tail_drops_used\<close>, \<open>search_without_space_hangs\<close>, \<open>fsck_hides_errors\<close>,
  \<open>skip_answers_swapped\<close>, and the lemmas \<open>sim_fix_next_undefined\<close> and \<open>erase_without_buffer_hangs\<close>.

  \<^bold>\<open>Bounds and termination.\<close> The journal holds 126 headers; the theorems about a flush assume at
  most that many dirty ones, and \<open>journal_capacity\<close> shows what happens beyond. Loops bounded by
  a table or a counter are total functions with a measure. Loops over links read from the
  drive or over the dry run's nodes can run forever; they are \<open>partial_function (option)\<close>, and
  that they return is part of the theorems about them. The visited list of \<open>hdck\<close> ends its scans
  (\<open>links_loop\<close> is a total function). No definition uses fuel.

  \<^bold>\<open>Concurrency.\<close> The thread of \<open>hdsk\<close> is stopped through a flag that another thread sets; the
  parameter \<open>stop\<close> says at which states of the drive it has been set. The kernel's calls
  (threads, event flags) are parameters with their results.

  \<^bold>\<open>Not modelled.\<close> Rendering (\<open>graphics.c\<close>): every function is a call of the environment, with
  coordinates as integers where the code has floating point numbers. The interrupt handler for
  the vertical blank, \<open>ShowHDDInfo\<close> (commented out in the source), and the main menu of the FSCK
  build of the launcher (the other build's is modelled). \<open>hdlog\<close> passes writes on to a file. \<open>printf\<close>
  output has no model, nor have the registrations of devices, nor the wrappers that pass a call
  on to the kernel.
\<close>

end
